(* ===== verification/Prelude.thy ===== *)
theory Prelude
  imports Main "HOL-Library.Word"
begin

text \<open>
  What every other theory of the development builds on: the machine integers of the C++
  code as words of their width, the ways in which the code aborts, the result type
  through which aborts are passed, and the automation the component proofs share.
  Nothing here models a function of the repository.
\<close>

unbundle bit_operations_syntax

subsection \<open>Machine integers\<close>

type_synonym u8 = "8 word"
type_synonym u16 = "16 word"
type_synonym u32 = "32 word"
type_synonym u64 = "64 word"

subsection \<open>Aborts\<close>

text \<open>
  \<open>CHECK\<close>, \<open>CHECK_EQ\<close> and their kin log a message and terminate the process, and so does
  \<open>SANDBOX_DIE\<close>. An operation that may do so returns a sum: \<open>Inl\<close> of the abort or
  \<open>Inr\<close> of its result. \<open>StackOverflow\<close> stands for a recursion of the code that does
  not end on the given input, \<open>OutOfBoundsAccess\<close> for an access to memory outside an object.
\<close>

datatype abort = CheckFailed string | SandboxDie string | StackOverflow | OutOfBoundsAccess

definition res_bind :: "'e + 'a \<Rightarrow> ('a \<Rightarrow> 'e + 'b) \<Rightarrow> 'e + 'b" where
  "res_bind m f = (case m of Inl e \<Rightarrow> Inl e | Inr x \<Rightarrow> f x)"

definition check :: "bool \<Rightarrow> string \<Rightarrow> abort + unit" where
  "check b msg = (if b then Inr () else Inl (CheckFailed msg))"

definition die_unless :: "bool \<Rightarrow> string \<Rightarrow> abort + unit" where
  "die_unless b msg = (if b then Inr () else Inl (SandboxDie msg))"

named_theorems res_simps \<open>inversion and evaluation of the result type\<close>

lemma res_bind_Inl [simp]: "res_bind (Inl e) f = Inl e"
  by (simp add: res_bind_def)

lemma res_bind_Inr [simp]: "res_bind (Inr x) f = f x"
  by (simp add: res_bind_def)

lemma res_bind_eq_Inr [res_simps]:
  "res_bind m f = Inr y \<longleftrightarrow> (\<exists>x. m = Inr x \<and> f x = Inr y)"
  by (cases m) simp_all

lemma res_bind_eq_Inl [res_simps]:
  "res_bind m f = Inl e \<longleftrightarrow> m = Inl e \<or> (\<exists>x. m = Inr x \<and> f x = Inl e)"
  by (cases m) simp_all

lemma res_bind_assoc:
  "res_bind (res_bind m f) g = res_bind m (\<lambda>x. res_bind (f x) g)"
  by (cases m) simp_all

lemma res_bind_cong [fundef_cong]:
  "m = m' \<Longrightarrow> (\<And>x. m' = Inr x \<Longrightarrow> f x = f' x) \<Longrightarrow> res_bind m f = res_bind m' f'"
  by (cases m') simp_all

lemma check_eq_Inr [res_simps]: "check b msg = Inr u \<longleftrightarrow> b"
  by (simp add: check_def)

lemma check_True [simp]: "check True msg = Inr ()"
  by (simp add: check_def)

lemma check_False [simp]: "check False msg = Inl (CheckFailed msg)"
  by (simp add: check_def)

lemma die_unless_eq_Inr [res_simps]: "die_unless b msg = Inr u \<longleftrightarrow> b"
  by (simp add: die_unless_def)

lemma die_unless_True [simp]: "die_unless True msg = Inr ()"
  by (simp add: die_unless_def)

lemma die_unless_False [simp]: "die_unless False msg = Inl (SandboxDie msg)"
  by (simp add: die_unless_def)

text \<open>Elimination rules that turn a successful run into its steps.\<close>

lemma res_bindE:
  assumes "res_bind m f = Inr y"
  obtains x where "m = Inr x" and "f x = Inr y"
  using assms by (auto simp: res_bind_eq_Inr)

lemma res_bind_pairE:
  assumes "res_bind m (\<lambda>(a, b). f a b) = Inr y"
  obtains a b where "m = Inr (a, b)" and "f a b = Inr y"
  using assms by (auto simp: res_bind_eq_Inr)

lemma checkE:
  assumes "res_bind (check b msg) f = Inr y"
  obtains "b" and "f () = Inr y"
  using assms by (auto simp: res_simps)

subsection \<open>Strings\<close>

text \<open>What C functions see of a buffer, and of a \<open>std::string\<close> through \<open>c_str()\<close>.\<close>

definition c_str :: "string \<Rightarrow> string" where
  "c_str buf = takeWhile (\<lambda>c. c \<noteq> CHR 0x00) buf"

subsection \<open>Words\<close>

lemma unat_less_eq_word: "(x::'a::len word) \<le> y \<longleftrightarrow> unat x \<le> unat y"
  by (simp add: word_le_nat_alt)

lemma unat_of_nat_small: "n < 2 ^ LENGTH('a::len) \<Longrightarrow> unat (of_nat n :: 'a word) = n"
  by (simp add: unat_of_nat take_bit_nat_eq_self)

lemma unat_u8_less: "unat (x::u8) < 256"
  using unsigned_less [of x, where 'a = nat] by simp

lemma unat_u16_less: "unat (x::u16) < 65536"
  using unsigned_less [of x, where 'a = nat] by simp

lemma unat_u32_less: "unat (x::u32) < 4294967296"
  using unsigned_less [of x, where 'a = nat] by simp

lemma unat_ucast_u8_u32 [simp]: "unat (ucast (x::u8) :: u32) = unat x"
  using unat_u8_less [of x] by (simp add: unsigned_ucast_eq take_bit_nat_eq_self)

lemma unat_ucast_u16_u32 [simp]: "unat (ucast (x::u16) :: u32) = unat x"
  using unat_u16_less [of x] by (simp add: unsigned_ucast_eq take_bit_nat_eq_self)

lemma and_all_ones_u32 [simp]: "x AND 0xFFFFFFFF = (x :: u32)" "0xFFFFFFFF AND x = (x :: u32)"
proof -
  have "(0xFFFFFFFF :: u32) = - 1" by simp
  then show "x AND 0xFFFFFFFF = (x :: u32)" "0xFFFFFFFF AND x = (x :: u32)"
    by (simp_all only: and.right_neutral and.left_neutral)
qed

lemma and_all_ones_u64 [simp]:
  "x AND 0xFFFFFFFFFFFFFFFF = (x :: u64)" "0xFFFFFFFFFFFFFFFF AND x = (x :: u64)"
proof -
  have "(0xFFFFFFFFFFFFFFFF :: u64) = - 1" by simp
  then show "x AND 0xFFFFFFFFFFFFFFFF = (x :: u64)" "0xFFFFFFFFFFFFFFFF AND x = (x :: u64)"
    by (simp_all only: and.right_neutral and.left_neutral)
qed

subsection \<open>Lists\<close>

lemma nth_rev_take:
  assumes "n \<le> h" and "h < length xs"
  shows "rev (take (Suc h) xs) ! (h - n) = xs ! n"
  using assms by (simp add: rev_nth)

lemma filter_last_append:
  "filter p ys \<noteq> [] \<Longrightarrow> last (filter p (xs @ ys)) = last (filter p ys)"
  by simp

end
