(* ===== verification/Linux_Headers.thy ===== *)
theory Linux_Headers
  imports Prelude
begin

text \<open>
  The constants and structures of the Linux ABI the seccomp-bpf sandbox is written against:
  \<^verbatim>\<open>system_headers/linux_filter.h\<close> (BPF instructions),
  \<^verbatim>\<open>system_headers/linux_seccomp.h\<close> (filter return values, audit architectures),
  \<^verbatim>\<open>bpf_dsl/seccomp_macros.h\<close> (offsets into the filter's input, x86-64 branch) and
  \<^verbatim>\<open>bpf_dsl/trap_registry.h\<close> (\<open>arch_seccomp_data\<close>). The model is the 64-bit
  little-endian x86-64 build: \<open>sizeof(void*)\<close> is 8.
\<close>

abbreviation (input) sizeof_void_ptr :: nat where
  "sizeof_void_ptr \<equiv> 8"

subsection \<open>BPF instructions\<close>

record sock_filter =
  sf_code :: u16
  sf_jt :: u8
  sf_jf :: u8
  sf_k :: u32

definition BPF_CLASS :: "u16 \<Rightarrow> u16" where
  "BPF_CLASS code = code AND 0x07"

abbreviation (input) BPF_LD :: u16 where "BPF_LD \<equiv> 0x00"
abbreviation (input) BPF_ALU :: u16 where "BPF_ALU \<equiv> 0x04"
abbreviation (input) BPF_JMP :: u16 where "BPF_JMP \<equiv> 0x05"
abbreviation (input) BPF_RET :: u16 where "BPF_RET \<equiv> 0x06"

definition BPF_SIZE :: "u16 \<Rightarrow> u16" where
  "BPF_SIZE code = code AND 0x18"

abbreviation (input) BPF_W :: u16 where "BPF_W \<equiv> 0x00"

definition BPF_MODE :: "u16 \<Rightarrow> u16" where
  "BPF_MODE code = code AND 0xe0"

abbreviation (input) BPF_ABS :: u16 where "BPF_ABS \<equiv> 0x20"

definition BPF_OP :: "u16 \<Rightarrow> u16" where
  "BPF_OP code = code AND 0xf0"

abbreviation (input) BPF_ADD :: u16 where "BPF_ADD \<equiv> 0x00"
abbreviation (input) BPF_SUB :: u16 where "BPF_SUB \<equiv> 0x10"
abbreviation (input) BPF_MUL :: u16 where "BPF_MUL \<equiv> 0x20"
abbreviation (input) BPF_DIV :: u16 where "BPF_DIV \<equiv> 0x30"
abbreviation (input) BPF_OR :: u16 where "BPF_OR \<equiv> 0x40"
abbreviation (input) BPF_AND :: u16 where "BPF_AND \<equiv> 0x50"
abbreviation (input) BPF_LSH :: u16 where "BPF_LSH \<equiv> 0x60"
abbreviation (input) BPF_RSH :: u16 where "BPF_RSH \<equiv> 0x70"
abbreviation (input) BPF_NEG :: u16 where "BPF_NEG \<equiv> 0x80"
abbreviation (input) BPF_MOD :: u16 where "BPF_MOD \<equiv> 0x90"
abbreviation (input) BPF_XOR :: u16 where "BPF_XOR \<equiv> 0xA0"

abbreviation (input) BPF_JA :: u16 where "BPF_JA \<equiv> 0x00"
abbreviation (input) BPF_JEQ :: u16 where "BPF_JEQ \<equiv> 0x10"
abbreviation (input) BPF_JGT :: u16 where "BPF_JGT \<equiv> 0x20"
abbreviation (input) BPF_JGE :: u16 where "BPF_JGE \<equiv> 0x30"
abbreviation (input) BPF_JSET :: u16 where "BPF_JSET \<equiv> 0x40"

definition BPF_SRC :: "u16 \<Rightarrow> u16" where
  "BPF_SRC code = code AND 0x08"

abbreviation (input) BPF_K :: u16 where "BPF_K \<equiv> 0x00"

abbreviation (input) BPF_MAXINSNS :: nat where "BPF_MAXINSNS \<equiv> 4096"

lemmas bpf_code_defs = BPF_CLASS_def BPF_SIZE_def BPF_MODE_def BPF_OP_def BPF_SRC_def

subsection \<open>Audit architectures and seccomp return values\<close>

abbreviation (input) EM_X86_64 :: u32 where "EM_X86_64 \<equiv> 62"
abbreviation (input) AUDIT_ARCH_64BIT :: u32 where "AUDIT_ARCH_64BIT \<equiv> 0x80000000"
abbreviation (input) AUDIT_ARCH_LE :: u32 where "AUDIT_ARCH_LE \<equiv> 0x40000000"

definition AUDIT_ARCH_X86_64 :: u32 where
  "AUDIT_ARCH_X86_64 = (EM_X86_64 OR AUDIT_ARCH_64BIT OR AUDIT_ARCH_LE)"

abbreviation (input) SECCOMP_RET_KILL :: u32 where "SECCOMP_RET_KILL \<equiv> 0x00000000"
abbreviation (input) SECCOMP_RET_INVALID :: u32 where "SECCOMP_RET_INVALID \<equiv> 0x00010000"
abbreviation (input) SECCOMP_RET_TRAP :: u32 where "SECCOMP_RET_TRAP \<equiv> 0x00030000"
abbreviation (input) SECCOMP_RET_ERRNO :: u32 where "SECCOMP_RET_ERRNO \<equiv> 0x00050000"
abbreviation (input) SECCOMP_RET_TRACE :: u32 where "SECCOMP_RET_TRACE \<equiv> 0x7ff00000"
abbreviation (input) SECCOMP_RET_ALLOW :: u32 where "SECCOMP_RET_ALLOW \<equiv> 0x7fff0000"
abbreviation (input) SECCOMP_RET_ACTION :: u32 where "SECCOMP_RET_ACTION \<equiv> 0xffff0000"
abbreviation (input) SECCOMP_RET_DATA :: u32 where "SECCOMP_RET_DATA \<equiv> 0x0000ffff"

text \<open>\<open>SECCOMP_MAX_PROGRAM_SIZE\<close> is \<open>1<<30\<close>.\<close>

abbreviation (input) SECCOMP_MAX_PROGRAM_SIZE :: nat where
  "SECCOMP_MAX_PROGRAM_SIZE \<equiv> 1073741824"

abbreviation (input) SECCOMP_ARCH :: u32 where "SECCOMP_ARCH \<equiv> AUDIT_ARCH_X86_64"

subsection \<open>The filter's input\<close>

text \<open>
  \<open>struct arch_seccomp_data\<close>: the signed \<open>nr\<close> is kept as its 32 bits, and \<open>args\<close> is an
  array of six 64-bit values.
\<close>

record arch_seccomp_data =
  sd_nr :: u32
  sd_arch :: u32
  sd_instruction_pointer :: u64
  sd_args :: "u64 list"

definition wf_seccomp_data :: "arch_seccomp_data \<Rightarrow> bool" where
  "wf_seccomp_data d \<longleftrightarrow> length (sd_args d) = 6"

abbreviation (input) sizeof_seccomp_data :: nat where "sizeof_seccomp_data \<equiv> 64"

definition SECCOMP_NR_IDX :: u32 where "SECCOMP_NR_IDX = 0"
definition SECCOMP_ARCH_IDX :: u32 where "SECCOMP_ARCH_IDX = 4"
definition SECCOMP_IP_MSB_IDX :: u32 where "SECCOMP_IP_MSB_IDX = 8 + 4"
definition SECCOMP_IP_LSB_IDX :: u32 where "SECCOMP_IP_LSB_IDX = 8 + 0"

definition SECCOMP_ARG_MSB_IDX :: "nat \<Rightarrow> u32" where
  "SECCOMP_ARG_MSB_IDX nr = 16 + 8 * of_nat nr + 4"

definition SECCOMP_ARG_LSB_IDX :: "nat \<Rightarrow> u32" where
  "SECCOMP_ARG_LSB_IDX nr = 16 + 8 * of_nat nr + 0"

lemmas seccomp_idx_defs =
  SECCOMP_NR_IDX_def SECCOMP_ARCH_IDX_def SECCOMP_IP_MSB_IDX_def SECCOMP_IP_LSB_IDX_def
  SECCOMP_ARG_MSB_IDX_def SECCOMP_ARG_LSB_IDX_def

text \<open>The halves of a 64-bit value, as the casts and shifts of the code take them.\<close>

definition lo32 :: "u64 \<Rightarrow> u32" where
  "lo32 x = ucast x"

definition hi32 :: "u64 \<Rightarrow> u32" where
  "hi32 x = ucast (drop_bit 32 x)"

text \<open>
  The bytes of the structure in memory, read as aligned little-endian 32-bit words: what
  \<open>memcpy\<close> of four bytes at offset \<open>4 * i\<close> yields is element \<open>i\<close>.
\<close>

definition seccomp_data_words :: "arch_seccomp_data \<Rightarrow> u32 list" where
  "seccomp_data_words d =
     [sd_nr d, sd_arch d, lo32 (sd_instruction_pointer d), hi32 (sd_instruction_pointer d)]
     @ concat (map (\<lambda>a. [lo32 a, hi32 a]) (sd_args d))"

subsection \<open>Actions and their data\<close>

text \<open>The low 16 bits of a filter's return value are data, the high 16 bits the action.\<close>

lemma low16_ucast: "ucast (x :: u16) AND SECCOMP_RET_ACTION = 0"
proof (rule bit_word_eqI)
  fix n assume "n < LENGTH(32)"
  have "(0xffff0000 :: u32) = push_bit 16 0xffff" by simp
  then show "bit (ucast x AND SECCOMP_RET_ACTION) n = bit (0 :: u32) n"
    by (simp only: bit_and_iff bit_ucast_iff bit_push_bit_iff bit_0_eq bot_apply bot_bool_def)
       (auto dest: bit_imp_le_length)
qed

lemma low16_of_nat:
  assumes "n < 65536"
  shows "(of_nat n :: u32) AND SECCOMP_RET_ACTION = 0"
proof -
  have "(of_nat n :: u32) = ucast (of_nat n :: u16)"
    using assms by (simp add: word_unat_eq_iff unat_of_nat_small)
  then show ?thesis by (simp only: low16_ucast)
qed

lemma action_plus:
  assumes "x AND SECCOMP_RET_ACTION = 0" and "a AND SECCOMP_RET_DATA = 0"
  shows "(a + x) AND SECCOMP_RET_ACTION = a" and "(a + x) AND SECCOMP_RET_DATA = x"
proof -
  have split: "y = (y AND SECCOMP_RET_ACTION) OR (y AND SECCOMP_RET_DATA)" for y :: u32
  proof -
    have "(y AND SECCOMP_RET_ACTION) OR (y AND SECCOMP_RET_DATA)
        = y AND (SECCOMP_RET_ACTION OR SECCOMP_RET_DATA)" by (simp only: bit.conj_disj_distrib)
    then show ?thesis by simp
  qed
  have a: "a AND SECCOMP_RET_ACTION = a" and x: "x AND SECCOMP_RET_DATA = x"
    using split [of a] split [of x] assms by simp_all
  have "a AND x = (a AND SECCOMP_RET_ACTION) AND x" by (simp only: a)
  also have "\<dots> = a AND (x AND SECCOMP_RET_ACTION)" by (simp only: ac_simps)
  finally have "a AND x = 0" using assms by simp
  then have "a + x = a OR x" by (rule disjunctive_add_eq_or)
  then show "(a + x) AND SECCOMP_RET_ACTION = a" and "(a + x) AND SECCOMP_RET_DATA = x"
    using a x assms by (simp_all only: bit.conj_disj_distrib2) simp_all
qed

subsection \<open>Facts about 32-bit halves\<close>

lemma bit_lo32: "bit (lo32 x) n \<longleftrightarrow> n < 32 \<and> bit x n"
  by (simp add: lo32_def bit_simps)

lemma bit_hi32: "bit (hi32 x) n \<longleftrightarrow> n < 32 \<and> bit x (32 + n)"
  by (auto simp add: hi32_def bit_simps add.commute)

lemma lo_hi_eqI:
  assumes "lo32 x = lo32 y" and "hi32 x = hi32 y"
  shows "x = y"
proof (rule bit_word_eqI)
  fix n assume "n < LENGTH(64)"
  then have n: "n < 64" by simp
  show "bit x n = bit y n"
  proof (cases "n < 32")
    case True
    then show ?thesis using assms(1) bit_lo32 by metis
  next
    case False
    then have "n = 32 + (n - 32)" and "n - 32 < 32" using n by simp_all
    then show ?thesis using assms(2) bit_hi32 by metis
  qed
qed

lemma lo_hi_eq_iff: "x = y \<longleftrightarrow> lo32 x = lo32 y \<and> hi32 x = hi32 y"
  by (metis lo_hi_eqI)

lemma lo32_and [simp]: "lo32 (x AND y) = lo32 x AND lo32 y"
  by (rule bit_word_eqI) (simp add: bit_lo32 bit_and_iff)

lemma hi32_and [simp]: "hi32 (x AND y) = hi32 x AND hi32 y"
  by (rule bit_word_eqI) (simp add: bit_hi32 bit_and_iff)

lemma hi32_eq_0_iff: "hi32 x = 0 \<longleftrightarrow> drop_bit 32 x = 0"
proof
  assume h: "hi32 x = 0"
  show "drop_bit 32 x = 0"
  proof (rule bit_word_eqI)
    fix n assume "n < LENGTH(64)"
    have "\<not> bit (hi32 x) n" using h by simp
    then show "bit (drop_bit 32 x) n = bit 0 n"
      by (auto simp: bit_hi32 bit_drop_bit_eq dest: bit_imp_le_length)
  qed
qed (simp add: hi32_def)

end
