(* ===== verification/Bpf_Machine.thy ===== *)
theory Bpf_Machine
  imports Linux_Headers
begin

text \<open>
  The BPF virtual machine as \<^verbatim>\<open>bpf_dsl/verifier.cc\<close> simulates it: the machine state, one
  function per instruction class, and the evaluation loop of \<open>Verifier::EvaluateBPF\<close>. It is
  the target semantics of the policy compiler.
\<close>

subsection \<open>State and errors\<close>

text \<open>
  \<open>*err\<close> is set to a message, or left \<open>NULL\<close>. \<open>UndefinedBehaviour\<close> marks the inputs on
  which the C++ expression itself has no defined value.
\<close>

datatype verifier_error = VerifierError string | UndefinedBehaviour

record bpf_state =
  st_ip :: u32
  st_accumulator :: u32
  st_acc_is_valid :: bool

definition State :: bpf_state where
  "State = \<lparr>st_ip = 0, st_accumulator = 0, st_acc_is_valid = False\<rparr>"

subsection \<open>Instructions\<close>

text \<open>The value \<open>Ld\<close> copies into the accumulator.\<close>

definition ld_value :: "arch_seccomp_data \<Rightarrow> sock_filter \<Rightarrow> verifier_error + u32" where
  "ld_value d insn =
     (if BPF_SIZE (sf_code insn) \<noteq> BPF_W \<or> BPF_MODE (sf_code insn) \<noteq> BPF_ABS
         \<or> sf_jt insn \<noteq> 0 \<or> sf_jf insn \<noteq> 0
      then Inl (VerifierError ''Invalid BPF_LD instruction'')
      else if unat (sf_k insn) < sizeof_seccomp_data \<and> sf_k insn AND 3 = 0
      then Inr (seccomp_data_words d ! (unat (sf_k insn) div 4))
      else Inl (VerifierError ''Invalid operand in BPF_LD instruction''))"

definition Ld :: "arch_seccomp_data \<Rightarrow> bpf_state \<Rightarrow> sock_filter \<Rightarrow> verifier_error + bpf_state" where
  "Ld d st insn =
     res_bind (ld_value d insn) (\<lambda>v.
     Inr (st\<lparr>st_accumulator := v, st_acc_is_valid := True\<rparr>))"

text \<open>
  The sums of \<open>Jmp\<close> are computed in 32-bit unsigned arithmetic and compared with
  \<open>program.size()\<close> as a \<open>size_t\<close>.
\<close>

definition jump_test :: "u16 \<Rightarrow> u32 \<Rightarrow> u32 \<Rightarrow> bool option" where
  "jump_test code acc k =
     (if BPF_OP code = BPF_JEQ then Some (acc = k)
      else if BPF_OP code = BPF_JGT then Some (k < acc)
      else if BPF_OP code = BPF_JGE then Some (k \<le> acc)
      else if BPF_OP code = BPF_JSET then Some (acc AND k \<noteq> 0)
      else None)"

definition Jmp :: "nat \<Rightarrow> bpf_state \<Rightarrow> sock_filter \<Rightarrow> verifier_error + bpf_state" where
  "Jmp psize st insn =
     (if BPF_OP (sf_code insn) = BPF_JA then
        (if psize \<le> unat (st_ip st + sf_k insn + 1) \<or> st_ip st + sf_k insn + 1 \<le> st_ip st
         then Inl (VerifierError ''Invalid BPF_JMP instruction'')
         else Inr (st\<lparr>st_ip := st_ip st + sf_k insn\<rparr>))
      else if BPF_SRC (sf_code insn) \<noteq> BPF_K \<or> \<not> st_acc_is_valid st
         \<or> psize \<le> unat (st_ip st + ucast (sf_jt insn) + 1)
         \<or> psize \<le> unat (st_ip st + ucast (sf_jf insn) + 1)
      then Inl (VerifierError ''Invalid BPF_JMP instruction'')
      else (case jump_test (sf_code insn) (st_accumulator st) (sf_k insn) of
              None \<Rightarrow> Inl (VerifierError ''Invalid BPF_JMP instruction'')
            | Some b \<Rightarrow>
                Inr (st\<lparr>st_ip := st_ip st + ucast (if b then sf_jt insn else sf_jf insn)\<rparr>)))"

definition Ret :: "sock_filter \<Rightarrow> verifier_error + u32" where
  "Ret insn =
     (if BPF_SRC (sf_code insn) \<noteq> BPF_K
      then Inl (VerifierError ''Invalid BPF_RET instruction'')
      else Inr (sf_k insn))"

text \<open>
  The value \<open>Alu\<close> stores into the accumulator. \<open>accumulator <<= k\<close> and \<open>accumulator >>= k\<close> on
  a 32-bit operand have no defined value for \<open>k = 32\<close>, which the range check \<open>k > 32\<close> lets
  through.
\<close>

definition alu_value :: "u16 \<Rightarrow> u32 \<Rightarrow> u32 \<Rightarrow> verifier_error + u32" where
  "alu_value code acc k =
     (if BPF_OP code = BPF_NEG then Inr (- acc)
      else if BPF_SRC code \<noteq> BPF_K
      then Inl (VerifierError ''Unexpected source operand in arithmetic operation'')
      else if BPF_OP code = BPF_ADD then Inr (acc + k)
      else if BPF_OP code = BPF_SUB then Inr (acc - k)
      else if BPF_OP code = BPF_MUL then Inr (acc * k)
      else if BPF_OP code = BPF_DIV then
        (if k = 0 then Inl (VerifierError ''Illegal division by zero'') else Inr (acc div k))
      else if BPF_OP code = BPF_MOD then
        (if k = 0 then Inl (VerifierError ''Illegal division by zero'') else Inr (acc mod k))
      else if BPF_OP code = BPF_OR then Inr (acc OR k)
      else if BPF_OP code = BPF_XOR then Inr (acc XOR k)
      else if BPF_OP code = BPF_AND then Inr (acc AND k)
      else if BPF_OP code = BPF_LSH then
        (if k > 32 then Inl (VerifierError ''Illegal shift operation'')
         else if k = 32 then Inl UndefinedBehaviour
         else Inr (push_bit (unat k) acc))
      else if BPF_OP code = BPF_RSH then
        (if k > 32 then Inl (VerifierError ''Illegal shift operation'')
         else if k = 32 then Inl UndefinedBehaviour
         else Inr (drop_bit (unat k) acc))
      else Inl (VerifierError ''Invalid operator in arithmetic operation''))"

definition Alu :: "bpf_state \<Rightarrow> sock_filter \<Rightarrow> verifier_error + bpf_state" where
  "Alu st insn =
     res_bind (alu_value (sf_code insn) (st_accumulator st) (sf_k insn)) (\<lambda>v.
     Inr (st\<lparr>st_accumulator := v\<rparr>))"

subsection \<open>The evaluation loop\<close>

definition valid_action :: "u32 \<Rightarrow> bool" where
  "valid_action r \<longleftrightarrow> r AND SECCOMP_RET_ACTION \<in>
     {SECCOMP_RET_ALLOW, SECCOMP_RET_ERRNO, SECCOMP_RET_KILL, SECCOMP_RET_TRACE, SECCOMP_RET_TRAP}"

text \<open>\<open>++state.ip\<close>\<close>

definition incr_ip :: "bpf_state \<Rightarrow> bpf_state" where
  "incr_ip st = st\<lparr>st_ip := st_ip st + 1\<rparr>"

text \<open>
  One round of the loop body: \<open>Inl\<close> of the state to go on from, or \<open>Inr\<close> of what
  \<open>EvaluateBPF\<close> returns.
\<close>

definition eval_step ::
    "sock_filter list \<Rightarrow> arch_seccomp_data \<Rightarrow> bpf_state \<Rightarrow> bpf_state + (verifier_error + u32)" where
  "eval_step program d st =
     (if length program \<le> unat (st_ip st)
      then Inr (Inl (VerifierError ''Invalid instruction pointer in BPF program''))
      else
        (let insn = program ! unat (st_ip st);
             continue = (\<lambda>r. case r of Inl e \<Rightarrow> Inr (Inl e) | Inr st' \<Rightarrow> Inl (incr_ip st'))
         in if BPF_CLASS (sf_code insn) = BPF_LD then continue (Ld d st insn)
            else if BPF_CLASS (sf_code insn) = BPF_JMP
            then continue (Jmp (length program) st insn)
            else if BPF_CLASS (sf_code insn) = BPF_RET then
              (case Ret insn of
                 Inl e \<Rightarrow> Inr (Inl e)
               | Inr r \<Rightarrow>
                   if valid_action r then Inr (Inr r)
                   else Inr (Inl (VerifierError ''Unexpected return code found in BPF program'')))
            else if BPF_CLASS (sf_code insn) = BPF_ALU then continue (Alu st insn)
            else Inr (Inl (VerifierError ''Unexpected instruction in BPF program''))))"

text \<open>
  The loop itself has no bound of its own, so it is run with fuel; \<open>None\<close> means the fuel ran
  out. \<open>EvaluateBPF\<close> gives one unit per instruction and one more.
\<close>

fun eval_loop ::
    "nat \<Rightarrow> sock_filter list \<Rightarrow> arch_seccomp_data \<Rightarrow> bpf_state \<Rightarrow> (verifier_error + u32) option"
where
  "eval_loop 0 program d st = None"
| "eval_loop (Suc n) program d st =
     (case eval_step program d st of
        Inl st' \<Rightarrow> eval_loop n program d st'
      | Inr r \<Rightarrow> Some r)"

definition EvaluateBPF ::
    "sock_filter list \<Rightarrow> arch_seccomp_data \<Rightarrow> (verifier_error + u32) option" where
  "EvaluateBPF program d =
     (if length program < 1 \<or> SECCOMP_MAX_PROGRAM_SIZE \<le> length program
      then Some (Inl (VerifierError ''Invalid program length''))
      else eval_loop (Suc (length program)) program d State)"

subsection \<open>The loop ends\<close>

text \<open>Every step that goes on moves the instruction pointer forward, for every program.\<close>

lemma unat_plus_ucast_u8:
  fixes p :: u32 and o8 :: u8
  assumes "unat p < SECCOMP_MAX_PROGRAM_SIZE"
  shows "unat (p + ucast o8) = unat p + unat o8"
proof -
  have "unat o8 < 256" by (rule unat_u8_less)
  then show ?thesis using assms by (simp add: unat_word_ariths)
qed

lemma unat_Suc_small:
  fixes p :: u32
  assumes "unat p < 4294967295"
  shows "unat (p + 1) = Suc (unat p)"
  using assms by (simp add: unat_word_ariths)

lemma eval_step_forward:
  assumes "eval_step program d st = Inl st'"
    and "length program < SECCOMP_MAX_PROGRAM_SIZE"
  shows "unat (st_ip st) < unat (st_ip st') \<and> unat (st_ip st) < length program"
proof -
  let ?insn = "program ! unat (st_ip st)"
  from assms(1) have lt: "unat (st_ip st) < length program"
    by (auto simp: eval_step_def split: if_splits)
  then have small: "unat (st_ip st) < SECCOMP_MAX_PROGRAM_SIZE" using assms(2) by simp
  then have suc: "unat (st_ip st + 1) = Suc (unat (st_ip st))" by (simp add: unat_Suc_small)
  have jt: "unat (st_ip st + ucast (o8 :: u8) + 1) = Suc (unat (st_ip st) + unat o8)" for o8
  proof -
    have "unat o8 < 256" by (rule unat_u8_less)
    then show ?thesis
      using unat_plus_ucast_u8 [OF small, of o8] small by (simp add: unat_Suc_small)
  qed
  have "unat (st_ip st) < unat (st_ip st')"
    if "Jmp (length program) st ?insn = Inr st1" and "st' = incr_ip st1" for st1
    using that jt
    by (auto simp: Jmp_def incr_ip_def word_le_nat_alt split: if_splits option.splits)
  moreover have "unat (st_ip st) < unat (st_ip st')"
    if "Ld d st ?insn = Inr st1" and "st' = incr_ip st1" for st1
    using that suc by (auto simp: Ld_def incr_ip_def res_simps)
  moreover have "unat (st_ip st) < unat (st_ip st')"
    if "Alu st ?insn = Inr st1" and "st' = incr_ip st1" for st1
    using that suc by (auto simp: Alu_def incr_ip_def res_simps)
  ultimately show ?thesis
    using assms(1) lt by (auto simp: eval_step_def Let_def split: if_splits sum.splits)
qed

lemma eval_step_beyond:
  "length program \<le> unat (st_ip st) \<Longrightarrow> \<exists>r. eval_step program d st = Inr r"
  by (simp add: eval_step_def)

lemma eval_loop_enough:
  assumes "length program < SECCOMP_MAX_PROGRAM_SIZE"
    and "length program - unat (st_ip st) < fuel"
  shows "\<exists>r. eval_loop fuel program d st = Some r"
  using assms(2)
proof (induction fuel arbitrary: st)
  case 0
  then show ?case by simp
next
  case (Suc fuel)
  show ?case
  proof (cases "eval_step program d st")
    case (Inl st')
    from eval_step_forward [OF Inl assms(1)] Suc.prems
    have "length program - unat (st_ip st') < fuel" by arith
    then show ?thesis using Inl Suc.IH [of st'] by simp
  qed simp
qed

lemma eval_loop_Some_mono:
  "eval_loop fuel program d st = Some r \<Longrightarrow> fuel \<le> fuel' \<Longrightarrow>
     eval_loop fuel' program d st = Some r"
proof (induction fuel arbitrary: st fuel')
  case (Suc fuel)
  then show ?case by (cases fuel') (auto split: sum.splits)
qed simp

text \<open>
  The simulated machine always returns: whatever the program (well formed or not) and the
  input, the loop of \<open>EvaluateBPF\<close> ends within one step per instruction, with a verdict or an
  error message.
\<close>

lemma EvaluateBPF_terminates: "\<exists>r. EvaluateBPF program d = Some r"
  using eval_loop_enough [of program State "Suc (length program)" d]
  by (auto simp: EvaluateBPF_def)

text \<open>
  The one arithmetic instruction whose C++ expression has no defined value is a shift by
  exactly 32 bits: the range check of \<open>Alu\<close> refuses shifts by more than 32 only.
\<close>

lemma Alu_undefined_iff:
  "Alu st insn = Inl UndefinedBehaviour \<longleftrightarrow>
     BPF_OP (sf_code insn) \<in> {BPF_LSH, BPF_RSH} \<and> BPF_SRC (sf_code insn) = BPF_K \<and> sf_k insn = 32"
  by (simp add: Alu_def alu_value_def res_simps)

text \<open>
  a verdict of the machine is one of the five actions the kernel knows (allow, errno, kill,
  trace, trap), and never the illegal \<open>SECCOMP_RET_INVALID\<close>.
\<close>

lemma EvaluateBPF_valid_action:
  assumes "EvaluateBPF program d = Some (Inr r)"
  shows "valid_action r"
proof -
  have step: "valid_action r" if "eval_step program d st = Inr (Inr r)" for st
    using that by (auto simp: eval_step_def Let_def split: if_splits sum.splits)
  have "valid_action r" if "eval_loop fuel program d st = Some (Inr r)" for fuel st
    using that
  proof (induction fuel arbitrary: st)
    case (Suc fuel)
    then show ?case using step by (auto split: sum.splits)
  qed simp
  then show ?thesis
    using assms by (auto simp: EvaluateBPF_def simp del: eval_loop.simps split: if_splits)
qed

lemma EvaluateBPF_valid_action_witness:
  "EvaluateBPF [\<lparr>sf_code = 0x06, sf_jt = 0, sf_jf = 0, sf_k = SECCOMP_RET_ALLOW\<rparr>]
     \<lparr>sd_nr = 0, sd_arch = 0, sd_instruction_pointer = 0, sd_args = []\<rparr>
     = Some (Inr SECCOMP_RET_ALLOW)
   \<and> valid_action SECCOMP_RET_ALLOW"
proof -
  let ?prog = "[\<lparr>sf_code = 0x06, sf_jt = 0, sf_jf = 0, sf_k = SECCOMP_RET_ALLOW\<rparr>]"
  let ?d = "\<lparr>sd_nr = 0, sd_arch = 0, sd_instruction_pointer = 0, sd_args = []\<rparr>"
  have run: "EvaluateBPF ?prog ?d = Some (Inr SECCOMP_RET_ALLOW)"
    by (simp add: EvaluateBPF_def State_def eval_step_def bpf_code_defs Ret_def valid_action_def)
  show ?thesis using run EvaluateBPF_valid_action [OF run] by blast
qed

end
