(* ===== verification/Trap_Registry.thy ===== *)
theory Trap_Registry
  imports Linux_Headers
begin

text \<open>
  The interface \<open>TrapRegistry\<close> of \<^verbatim>\<open>bpf_dsl/trap_registry.h\<close>: the policy compiler registers
  trap handlers through it and gets 16-bit trap ids back. The C++ class is abstract; the
  record below holds its two virtual functions over a registry state \<open>'r\<close>, and the locale
  \<open>trap_registry\<close> states what the header promises of them. The compiler's correctness is
  proved in the locale, and \<^verbatim>\<open>seccomp-bpf/trap.cc\<close> provides the implementation.
\<close>

subsection \<open>Handlers and keys\<close>

text \<open>
  A \<open>TrapFnc\<close> is a function pointer, so only its identity matters to the registry. The
  constructors name the handlers the repository defines; \<open>UserTrapFnc n\<close> is any other one.
  The auxiliary \<open>const void*\<close> is an address, or the address of a string literal.
\<close>

datatype trap_fnc =
    NullFnc
  | ReturnErrno
  | CrashSIGSYS_Handler
  | SIGSYSCloneFailure
  | SIGSYSPrctlFailure
  | SIGSYSIoctlFailure
  | SIGSYSKillFailure
  | SIGSYSFutexFailure
  | SIGSYSSchedHandler
  | SandboxPanicTrap
  | UserTrapFnc nat

datatype void_ptr = Addr u64 | CString string

abbreviation (input) NULL :: void_ptr where "NULL \<equiv> Addr 0"

type_synonym trap_key = "trap_fnc \<times> void_ptr \<times> bool"

record 'r trap_registry_ops =
  registry_Add :: "'r \<Rightarrow> trap_fnc \<Rightarrow> void_ptr \<Rightarrow> bool \<Rightarrow> abort + (u16 \<times> 'r)"
  registry_EnableUnsafeTraps :: "'r \<Rightarrow> bool \<times> 'r"

subsection \<open>The contract\<close>

text \<open>
  \<open>handler_of r i\<close> is the tuple that trap id \<open>i\<close> stands for in registry state \<open>r\<close>. \<open>Add\<close>
  returns a non-zero id that identifies the tuple, ids stay valid for the life time of the
  registry, and registering a tuple again gives the same id.
\<close>

locale trap_registry =
  fixes ops :: "'r trap_registry_ops"
    and handler_of :: "'r \<Rightarrow> u16 \<Rightarrow> trap_key option"
    and invar :: "'r \<Rightarrow> bool"
  assumes Add_invar: "invar r \<Longrightarrow> registry_Add ops r f a s = Inr (i, r') \<Longrightarrow> invar r'"
    and Add_handler: "invar r \<Longrightarrow> registry_Add ops r f a s = Inr (i, r') \<Longrightarrow>
          handler_of r' i = Some (f, a, s)"
    and Add_nonzero: "invar r \<Longrightarrow> registry_Add ops r f a s = Inr (i, r') \<Longrightarrow> i \<noteq> 0"
    and Add_extends: "invar r \<Longrightarrow> registry_Add ops r f a s = Inr (i, r') \<Longrightarrow>
          handler_of r j = Some key \<Longrightarrow> handler_of r' j = Some key"
    and Add_again: "invar r \<Longrightarrow> registry_Add ops r f a s = Inr (i, r') \<Longrightarrow>
          registry_Add ops r' f a s = Inr (i, r')"
    and Enable_invar: "invar r \<Longrightarrow> registry_EnableUnsafeTraps ops r = (b, r') \<Longrightarrow> invar r'"
    and Enable_extends: "invar r \<Longrightarrow> registry_EnableUnsafeTraps ops r = (b, r') \<Longrightarrow>
          handler_of r j = Some key \<Longrightarrow> handler_of r' j = Some key"
    and handler_unique: "invar r \<Longrightarrow> handler_of r i = Some key \<Longrightarrow>
          handler_of r j = Some key \<Longrightarrow> i = j"
begin

text \<open>Registry states only grow: what one state promises, every later one keeps.\<close>

definition registry_le :: "'r \<Rightarrow> 'r \<Rightarrow> bool" where
  "registry_le r r' \<longleftrightarrow> (\<forall>i key. handler_of r i = Some key \<longrightarrow> handler_of r' i = Some key)"

lemma registry_le_refl [simp]: "registry_le r r"
  by (simp add: registry_le_def)

lemma registry_le_trans: "registry_le r r' \<Longrightarrow> registry_le r' r'' \<Longrightarrow> registry_le r r''"
  by (simp add: registry_le_def)

lemma Add_le: "invar r \<Longrightarrow> registry_Add ops r f a s = Inr (i, r') \<Longrightarrow> registry_le r r'"
  using Add_extends by (auto simp: registry_le_def)

lemma Enable_le: "invar r \<Longrightarrow> registry_EnableUnsafeTraps ops r = (b, r') \<Longrightarrow> registry_le r r'"
  using Enable_extends by (auto simp: registry_le_def)

lemma Add_unique:
  assumes "invar r" and "registry_Add ops r f a s = Inr (i, r')"
    and "handler_of r j = Some (f, a, s)"
  shows "i = j"
  by (rule handler_unique [OF Add_invar [OF assms(1,2)] Add_handler [OF assms(1,2)]
        Add_extends [OF assms]])

end

end
