(* ===== verification/Bpf_Dsl.thy ===== *)
theory Bpf_Dsl
  imports Bpf_Machine Trap_Registry
begin

text \<open>
  The policy language of \<^verbatim>\<open>bpf_dsl/bpf_dsl.cc\<close> and \<^verbatim>\<open>bpf_dsl/bpf_dsl.h\<close>: the expression
  trees behind \<open>ResultExpr\<close> and \<open>BoolExpr\<close>, the functions that build them, with the checks
  that abort, and \<open>Policy\<close>. The shared pointers to immutable nodes are plain trees. After the
  functions comes what an expression means for a system call, and the proofs that the
  if/else-if and switch chains mean what they read like.
\<close>

subsection \<open>Expressions\<close>

datatype bool_expr =
    ConstBoolExpr bool
  | MaskedEqualBoolExpr int nat u64 u64
  | NegateBoolExpr bool_expr
  | AndBoolExpr bool_expr bool_expr
  | OrBoolExpr bool_expr bool_expr

datatype result_expr =
    ReturnResultExpr u32
  | TrapResultExpr trap_fnc void_ptr bool
  | IfThenResultExpr bool_expr result_expr result_expr

fun HasUnsafeTraps :: "result_expr \<Rightarrow> bool" where
  "HasUnsafeTraps (ReturnResultExpr ret) = False"
| "HasUnsafeTraps (TrapResultExpr func arg safe) = (safe = False)"
| "HasUnsafeTraps (IfThenResultExpr cond t e) = (HasUnsafeTraps t \<or> HasUnsafeTraps e)"

definition IsAction :: "u32 \<Rightarrow> u32 \<Rightarrow> bool" where
  "IsAction ret action \<longleftrightarrow> ret AND SECCOMP_RET_ACTION = action"

fun IsAllow :: "result_expr \<Rightarrow> bool" where
  "IsAllow (ReturnResultExpr ret) = IsAction ret SECCOMP_RET_ALLOW"
| "IsAllow (TrapResultExpr func arg safe) = False"
| "IsAllow (IfThenResultExpr cond t e) = False"

fun IsDeny :: "result_expr \<Rightarrow> bool" where
  "IsDeny (ReturnResultExpr ret) = (IsAction ret SECCOMP_RET_ERRNO \<or> IsAction ret SECCOMP_RET_KILL)"
| "IsDeny (TrapResultExpr func arg safe) = True"
| "IsDeny (IfThenResultExpr cond t e) = False"

subsection \<open>Arguments\<close>

definition DefaultMask :: "nat \<Rightarrow> abort + u64" where
  "DefaultMask sz =
     (if sz = 4 then Inr 0xFFFFFFFF
      else if sz = 8 then Inr 0xFFFFFFFFFFFFFFFF
      else Inl (CheckFailed ''Unimplemented DefaultMask case''))"

definition ArgEq :: "int \<Rightarrow> nat \<Rightarrow> u64 \<Rightarrow> u64 \<Rightarrow> abort + bool_expr" where
  "ArgEq num sz msk val =
     res_bind (check (sz = 4 \<or> sz = 8) ''size == 4 || size == 8'') (\<lambda>_.
     Inr (MaskedEqualBoolExpr num sz msk val))"

text \<open>
  \<open>Arg<T>\<close>: the template parameter is represented by \<open>sizeof(T)\<close>, and a value of type \<open>T\<close>
  by the integer it stands for.
\<close>

record arg =
  arg_sizeof :: nat
  arg_num :: int
  arg_mask :: u64

definition Arg :: "nat \<Rightarrow> int \<Rightarrow> abort + arg" where
  "Arg sz num =
     res_bind (DefaultMask sz) (\<lambda>msk. Inr \<lparr>arg_sizeof = sz, arg_num = num, arg_mask = msk\<rparr>)"

definition arg_and :: "abort + arg \<Rightarrow> u64 \<Rightarrow> abort + arg" where
  "arg_and lhs rhs = res_bind lhs (\<lambda>a. Inr (a\<lparr>arg_mask := arg_mask a AND rhs\<rparr>))"

definition EqualTo :: "arg \<Rightarrow> int \<Rightarrow> abort + bool_expr" where
  "EqualTo a val =
     (if arg_sizeof a = 4
      then ArgEq (arg_num a) (arg_sizeof a) (arg_mask a) (ucast (of_int val :: u32))
      else ArgEq (arg_num a) (arg_sizeof a) (arg_mask a) (of_int val))"

subsection \<open>Building expressions\<close>

text \<open>
  The functions take operands that may have aborted, so that a policy reads like the nested
  calls of the code.
\<close>

definition arg_eq :: "abort + arg \<Rightarrow> int \<Rightarrow> abort + bool_expr" where
  "arg_eq lhs rhs = res_bind lhs (\<lambda>a. EqualTo a rhs)"

definition BoolConst :: "bool \<Rightarrow> abort + bool_expr" where
  "BoolConst value = Inr (ConstBoolExpr value)"

definition bpf_Not :: "abort + bool_expr \<Rightarrow> abort + bool_expr" where
  "bpf_Not cond = res_bind cond (\<lambda>c. Inr (NegateBoolExpr c))"

definition arg_neq :: "abort + arg \<Rightarrow> int \<Rightarrow> abort + bool_expr" where
  "arg_neq lhs rhs = bpf_Not (arg_eq lhs rhs)"

definition AllOf2 :: "abort + bool_expr \<Rightarrow> abort + bool_expr \<Rightarrow> abort + bool_expr" where
  "AllOf2 lhs rhs = res_bind lhs (\<lambda>l. res_bind rhs (\<lambda>r. Inr (AndBoolExpr l r)))"

definition AnyOf2 :: "abort + bool_expr \<Rightarrow> abort + bool_expr \<Rightarrow> abort + bool_expr" where
  "AnyOf2 lhs rhs = res_bind lhs (\<lambda>l. res_bind rhs (\<lambda>r. Inr (OrBoolExpr l r)))"

fun AllOf :: "(abort + bool_expr) list \<Rightarrow> abort + bool_expr" where
  "AllOf [] = BoolConst True"
| "AllOf [lhs, rhs] = AllOf2 lhs rhs"
| "AllOf (first # rest) = AllOf2 first (AllOf rest)"

fun AnyOf :: "(abort + bool_expr) list \<Rightarrow> abort + bool_expr" where
  "AnyOf [] = BoolConst False"
| "AnyOf [lhs, rhs] = AnyOf2 lhs rhs"
| "AnyOf (first # rest) = AnyOf2 first (AnyOf rest)"

definition Allow :: "abort + result_expr" where
  "Allow = Inr (ReturnResultExpr SECCOMP_RET_ALLOW)"

abbreviation (input) ERR_MIN_ERRNO :: int where "ERR_MIN_ERRNO \<equiv> 0"
abbreviation (input) ERR_MAX_ERRNO :: int where "ERR_MAX_ERRNO \<equiv> 4095"

definition Error :: "int \<Rightarrow> abort + result_expr" where
  "Error err =
     res_bind (check (err \<ge> ERR_MIN_ERRNO \<and> err \<le> ERR_MAX_ERRNO) ''errno range'') (\<lambda>_.
     Inr (ReturnResultExpr (SECCOMP_RET_ERRNO + of_int err)))"

definition Kill :: "abort + result_expr" where
  "Kill = Inr (ReturnResultExpr SECCOMP_RET_KILL)"

definition Trace :: "u16 \<Rightarrow> abort + result_expr" where
  "Trace aux = Inr (ReturnResultExpr (SECCOMP_RET_TRACE + ucast aux))"

definition Trap :: "trap_fnc \<Rightarrow> void_ptr \<Rightarrow> abort + result_expr" where
  "Trap trap_func aux = Inr (TrapResultExpr trap_func aux True)"

definition UnsafeTrap :: "trap_fnc \<Rightarrow> void_ptr \<Rightarrow> abort + result_expr" where
  "UnsafeTrap trap_func aux = Inr (TrapResultExpr trap_func aux False)"

subsection \<open>If and Switch\<close>

text \<open>An \<open>Elser\<close> is its list of clauses, the last one added first.\<close>

type_synonym elser = "(bool_expr \<times> result_expr) list"

definition ElseIf :: "abort + elser \<Rightarrow> abort + bool_expr \<Rightarrow> abort + result_expr \<Rightarrow> abort + elser" where
  "ElseIf elser cond then_result =
     res_bind elser (\<lambda>clauses. res_bind cond (\<lambda>c. res_bind then_result (\<lambda>t.
     Inr ((c, t) # clauses))))"

definition bpf_If :: "abort + bool_expr \<Rightarrow> abort + result_expr \<Rightarrow> abort + elser" where
  "bpf_If cond then_result = ElseIf (Inr []) cond then_result"

definition Else :: "abort + elser \<Rightarrow> abort + result_expr \<Rightarrow> abort + result_expr" where
  "Else elser else_result =
     res_bind elser (\<lambda>clauses. res_bind else_result (\<lambda>e.
     Inr (foldl (\<lambda>expr clause. IfThenResultExpr (fst clause) (snd clause) expr) e clauses)))"

record caser =
  caser_arg :: arg
  caser_elser :: elser

definition Switch :: "abort + arg \<Rightarrow> abort + caser" where
  "Switch a = res_bind a (\<lambda>a. Inr \<lparr>caser_arg = a, caser_elser = []\<rparr>)"

definition CasesImpl :: "abort + caser \<Rightarrow> int list \<Rightarrow> abort + result_expr \<Rightarrow> abort + caser" where
  "CasesImpl caser values result =
     res_bind caser (\<lambda>c.
     res_bind (ElseIf (Inr (caser_elser c))
                 (AnyOf (map (\<lambda>v. arg_eq (Inr (caser_arg c)) v) values)) result) (\<lambda>elser.
     Inr \<lparr>caser_arg = caser_arg c, caser_elser = elser\<rparr>))"

definition Case :: "abort + caser \<Rightarrow> int \<Rightarrow> abort + result_expr \<Rightarrow> abort + caser" where
  "Case caser v result = CasesImpl caser [v] result"

definition Default :: "abort + caser \<Rightarrow> abort + result_expr \<Rightarrow> abort + result_expr" where
  "Default caser result = res_bind caser (\<lambda>c. Else (Inr (caser_elser c)) result)"

subsection \<open>Policies\<close>

abbreviation (input) ENOSYS :: int where "ENOSYS \<equiv> 38"

record policy =
  EvaluateSyscall :: "int \<Rightarrow> abort + result_expr"
  InvalidSyscall :: "abort + result_expr"

text \<open>\<open>Policy::InvalidSyscall\<close>, which a policy inherits unless it overrides it.\<close>

definition Policy_InvalidSyscall :: "abort + result_expr" where
  "Policy_InvalidSyscall = Error ENOSYS"

subsection \<open>What expressions mean\<close>

text \<open>
  A condition is true, false, or (\<open>None\<close>) it inspects a 32-bit argument whose upper half is
  neither zero nor the sign extension of the lower half, in which case the program panics.
\<close>

definition valid_32bit :: "u64 \<Rightarrow> bool" where
  "valid_32bit a \<longleftrightarrow> hi32 a = 0 \<or> hi32 a = 0xFFFFFFFF \<and> lo32 a AND 0x80000000 \<noteq> 0"

fun eval_bool :: "arch_seccomp_data \<Rightarrow> bool_expr \<Rightarrow> bool option" where
  "eval_bool d (ConstBoolExpr b) = Some b"
| "eval_bool d (MaskedEqualBoolExpr argno width msk value) =
     (let a = sd_args d ! nat argno in
      if width = 4 then
        (if valid_32bit a then Some (lo32 a AND lo32 msk = lo32 value) else None)
      else Some (a AND msk = value))"
| "eval_bool d (NegateBoolExpr c) = map_option Not (eval_bool d c)"
| "eval_bool d (AndBoolExpr l r) =
     (case eval_bool d l of None \<Rightarrow> None | Some b \<Rightarrow> if b then eval_bool d r else Some False)"
| "eval_bool d (OrBoolExpr l r) =
     (case eval_bool d l of None \<Rightarrow> None | Some b \<Rightarrow> if b then Some True else eval_bool d r)"

datatype outcome = OReturn u32 | OTrap trap_fnc void_ptr bool

fun eval_result :: "arch_seccomp_data \<Rightarrow> result_expr \<Rightarrow> outcome option" where
  "eval_result d (ReturnResultExpr ret) = Some (OReturn ret)"
| "eval_result d (TrapResultExpr f a s) = Some (OTrap f a s)"
| "eval_result d (IfThenResultExpr c t e) =
     (case eval_bool d c of None \<Rightarrow> None | Some b \<Rightarrow> eval_result d (if b then t else e))"

text \<open>The result of the first clause whose condition holds.\<close>

fun first_match ::
    "arch_seccomp_data \<Rightarrow> (bool_expr \<times> result_expr) list \<Rightarrow> result_expr \<Rightarrow> outcome option" where
  "first_match d [] e = eval_result d e"
| "first_match d ((c, t) # clauses) e =
     (case eval_bool d c of
        None \<Rightarrow> None
      | Some b \<Rightarrow> if b then eval_result d t else first_match d clauses e)"

text \<open>The actions of a result expression are ones the kernel and the verifier know.\<close>

fun wf_result :: "result_expr \<Rightarrow> bool" where
  "wf_result (ReturnResultExpr ret) = valid_action ret"
| "wf_result (TrapResultExpr f a s) = True"
| "wf_result (IfThenResultExpr c t e) = (wf_result t \<and> wf_result e)"

text \<open>All conditions of an expression test arguments at sizes and masks the compiler accepts.\<close>

lemmas dsl_defs = DefaultMask_def ArgEq_def Arg_def arg_and_def EqualTo_def arg_eq_def arg_neq_def
  BoolConst_def bpf_Not_def AllOf2_def AnyOf2_def Allow_def Error_def Kill_def Trace_def Trap_def
  UnsafeTrap_def ElseIf_def bpf_If_def Else_def Switch_def CasesImpl_def Case_def Default_def

subsection \<open>Chains\<close>

lemma eval_result_foldl:
  "eval_result d (foldl (\<lambda>expr clause. IfThenResultExpr (fst clause) (snd clause) expr) e clauses)
     = first_match d (rev clauses) e"
proof -
  have step: "first_match d (xs @ [(c, t)]) e = first_match d xs (IfThenResultExpr c t e)" for xs c t e
    by (induction xs) (auto split: option.splits)
  show ?thesis
    by (induction clauses arbitrary: e) (auto simp: step)
qed

text \<open>\<open>Elser\<close> after a series of \<open>ElseIf\<close> calls, as an alternation in source order.\<close>

definition ElseIfs :: "abort + elser \<Rightarrow> (bool_expr \<times> result_expr) list \<Rightarrow> abort + elser" where
  "ElseIfs elser clauses = foldl (\<lambda>e (c, t). ElseIf e (Inr c) (Inr t)) elser clauses"

lemma ElseIfs_Inr: "ElseIfs (Inr cs) clauses = Inr (rev clauses @ cs)"
  by (induction clauses arbitrary: cs) (auto simp: ElseIfs_def ElseIf_def)

text \<open>
  \<open>If(c, r).ElseIf(c1, r1)...Else(e)\<close> gives the result of the first clause whose
  condition holds, in source order, and \<open>e\<close> when none does, although \<open>Elser\<close> accumulates its
  clauses in reverse and \<open>Else\<close> builds the tree from the inside out.
\<close>

lemma If_ElseIf_Else_first_match:
  "\<exists>r. Else (ElseIfs (bpf_If (Inr c) (Inr t)) clauses) (Inr e) = Inr r
     \<and> (\<forall>d. eval_result d r = first_match d ((c, t) # clauses) e)"
  by (auto simp: bpf_If_def ElseIf_def ElseIfs_Inr Else_def eval_result_foldl split: option.splits)

subsection \<open>Conjunctions and disjunctions\<close>

lemma AllOf_Inr:
  "\<exists>r. AllOf (map Inr bs) = Inr r
     \<and> (\<forall>d. (\<forall>b \<in> set bs. eval_bool d b \<noteq> None) \<longrightarrow>
          eval_bool d r = Some (\<forall>b \<in> set bs. eval_bool d b = Some True))"
proof (induction bs rule: induct_list012)
  case (3 x y zs)
  show ?case
  proof (cases zs)
    case Nil
    then show ?thesis by (auto simp: AllOf2_def split: option.splits)
  next
    case (Cons z zs')
    with 3 show ?thesis by (fastforce simp: AllOf2_def split: option.splits)
  qed
qed (auto simp: BoolConst_def AllOf2_def split: option.splits)

lemma AnyOf_Inr:
  "\<exists>r. AnyOf (map Inr bs) = Inr r
     \<and> (\<forall>d. (\<forall>b \<in> set bs. eval_bool d b \<noteq> None) \<longrightarrow>
          eval_bool d r = Some (\<exists>b \<in> set bs. eval_bool d b = Some True))"
proof (induction bs rule: induct_list012)
  case (3 x y zs)
  show ?case
  proof (cases zs)
    case Nil
    then show ?thesis by (auto simp: AnyOf2_def split: option.splits)
  next
    case (Cons z zs')
    with 3 show ?thesis by (fastforce simp: AnyOf2_def split: option.splits)
  qed
qed (auto simp: BoolConst_def AnyOf2_def split: option.splits)

text \<open>
  \<open>AllOf\<close> and \<open>AnyOf\<close> over any number of conditions are the conjunction and the
  disjunction of all of them: true of none, false of none, on every system call for which no
  condition meets an ill-formed 32-bit argument.
\<close>

lemma AllOf_AnyOf_meaning:
  "\<exists>a o'. AllOf (map Inr bs) = Inr a \<and> AnyOf (map Inr bs) = Inr o'
     \<and> (\<forall>d. (\<forall>b \<in> set bs. eval_bool d b \<noteq> None) \<longrightarrow>
          eval_bool d a = Some (\<forall>b \<in> set bs. eval_bool d b = Some True)
        \<and> eval_bool d o' = Some (\<exists>b \<in> set bs. eval_bool d b = Some True))"
  using AllOf_Inr [of bs] AnyOf_Inr [of bs] by blast

lemma AllOf_AnyOf_meaning_witness:
  "\<exists>a o'. AllOf (map Inr [ConstBoolExpr True, ConstBoolExpr False, ConstBoolExpr True]) = Inr a
     \<and> AnyOf (map Inr [ConstBoolExpr True, ConstBoolExpr False, ConstBoolExpr True]) = Inr o'
     \<and> (\<exists>d. eval_bool d a = Some False \<and> eval_bool d o' = Some True)"
  using AllOf_AnyOf_meaning [of "[ConstBoolExpr True, ConstBoolExpr False, ConstBoolExpr True]"]
  by auto

subsection \<open>Arguments\<close>

text \<open>
  The 64-bit register of a 32-bit argument holds the value zero- or sign-extended.
\<close>

lemma bit_31_last: "n < 32 \<Longrightarrow> 31 \<le> n \<Longrightarrow> n = (31::nat)"
  by simp

lemma valid_32bit_zero_extended: "valid_32bit (ucast (x :: u32))"
proof -
  have "hi32 (ucast x) = 0"
    by (rule bit_word_eqI) (auto simp: bit_hi32 bit_simps dest: bit_imp_le_length)
  then show ?thesis by (simp add: valid_32bit_def)
qed

lemma lo32_ucast [simp]: "lo32 (ucast (x :: u32)) = x"
  by (rule bit_word_eqI) (simp add: bit_lo32 bit_simps)

lemma lo32_scast [simp]: "lo32 (scast (x :: u32)) = x"
  by (rule bit_word_eqI) (auto simp: bit_lo32 bit_simps not_less min_def dest: bit_31_last)

lemma valid_32bit_sign_extended: "valid_32bit (scast (x :: u32))"
proof (cases "bit x 31")
  case True
  have "hi32 (scast x) = - 1"
    using True by (intro bit_word_eqI) (auto simp: bit_hi32 bit_simps min_def)
  moreover have "bit (x AND 0x80000000) 31" using True by (simp add: bit_simps)
  then have "x AND 0x80000000 \<noteq> 0" by (metis bit_0_eq bot_apply bot_bool_def)
  ultimately show ?thesis by (simp add: valid_32bit_def)
next
  case False
  have "hi32 (scast x) = 0"
    using False by (intro bit_word_eqI) (auto simp: bit_hi32 bit_simps min_def)
  then show ?thesis by (simp add: valid_32bit_def)
qed

text \<open>
  Comparing a 32-bit argument with a constant compares the low 32 bits, whichever way the
  caller extended them: \<open>Arg<int>(n) == v\<close> holds exactly when the argument's 32-bit value is
  \<open>v\<close> (modulo 2^32, so negative constants match), for zero- and for sign-extended registers,
  and never panics on them.
\<close>

lemma Arg32_eq_meaning:
  assumes "sd_args d ! nat n = ucast x \<or> sd_args d ! nat n = scast x"
  shows "\<exists>e. arg_eq (Arg 4 n) v = Inr e \<and> eval_bool d e = Some ((x :: u32) = of_int v)"
proof -
  have lo: "lo32 (sd_args d ! nat n) = x" and ok: "valid_32bit (sd_args d ! nat n)"
    using assms valid_32bit_zero_extended valid_32bit_sign_extended by auto
  have "lo32 0xFFFFFFFF = (0xFFFFFFFF :: u32)" by (simp add: lo32_def)
  then show ?thesis using lo ok by (simp add: dsl_defs Let_def)
qed

lemma Arg32_eq_meaning_witness:
  "\<exists>e. arg_eq (Arg 4 1) (- 100) = Inr e \<and> eval_bool
     \<lparr>sd_nr = 257, sd_arch = 0, sd_instruction_pointer = 0, sd_args = [0, 0xFFFFFFFFFFFFFF9C, 0, 0, 0, 0]\<rparr> e
     = Some True"
proof -
  have "(0xFFFFFFFFFFFFFF9C :: u64) = scast (0xFFFFFF9C :: u32)" by simp
  then show ?thesis
    using Arg32_eq_meaning [of "\<lparr>sd_nr = 257, sd_arch = 0, sd_instruction_pointer = 0,
        sd_args = [0, 0xFFFFFFFFFFFFFF9C, 0, 0, 0, 0]\<rparr>" 1 "0xFFFFFF9C" "- 100"] by simp
qed

lemma Arg64_eq_meaning:
  "\<exists>e. arg_eq (Arg 8 n) v = Inr e \<and> eval_bool d e = Some (sd_args d ! nat n = of_int v)"
  by (simp add: dsl_defs Let_def)

subsection \<open>Switches\<close>

definition arg_is :: "arch_seccomp_data \<Rightarrow> nat \<Rightarrow> int \<Rightarrow> int \<Rightarrow> bool" where
  "arg_is d sz n v \<longleftrightarrow>
     (if sz = 4 then lo32 (sd_args d ! nat n) = of_int v else sd_args d ! nat n = of_int v)"

definition arg_well_formed :: "arch_seccomp_data \<Rightarrow> nat \<Rightarrow> int \<Rightarrow> bool" where
  "arg_well_formed d sz n \<longleftrightarrow> (sz = 4 \<longrightarrow> valid_32bit (sd_args d ! nat n))"

lemma arg_eq_value:
  assumes "sz = 4 \<or> sz = 8" and "Arg sz n = Inr a"
  shows "\<exists>e. arg_eq (Inr a) v = Inr e
    \<and> (\<forall>d. arg_well_formed d sz n \<longrightarrow> eval_bool d e = Some (arg_is d sz n v))"
proof -
  have "lo32 0xFFFFFFFF = (0xFFFFFFFF :: u32)" by (simp add: lo32_def)
  then show ?thesis
    using assms by (auto simp: dsl_defs Let_def arg_is_def arg_well_formed_def)
qed

text \<open>\<open>Caser\<close> after a series of \<open>Case\<close> and \<open>Cases\<close> calls.\<close>

definition SwitchCases :: "abort + caser \<Rightarrow> (int list \<times> result_expr) list \<Rightarrow> abort + caser" where
  "SwitchCases c cases = foldl (\<lambda>c (vs, t). CasesImpl c vs (Inr t)) c cases"

fun switch_result ::
    "arch_seccomp_data \<Rightarrow> nat \<Rightarrow> int \<Rightarrow> (int list \<times> result_expr) list \<Rightarrow> result_expr \<Rightarrow> outcome option"
where
  "switch_result d sz n [] e = eval_result d e"
| "switch_result d sz n ((vs, t) # cases) e =
     (if \<exists>v \<in> set vs. arg_is d sz n v then eval_result d t else switch_result d sz n cases e)"

lemma AnyOf_arg_eq:
  assumes "sz = 4 \<or> sz = 8" and "Arg sz n = Inr a"
  shows "\<exists>c. AnyOf (map (arg_eq (Inr a)) vs) = Inr c
    \<and> (\<forall>d. arg_well_formed d sz n \<longrightarrow> eval_bool d c = Some (\<exists>v \<in> set vs. arg_is d sz n v))"
proof -
  have "\<forall>v. \<exists>e. arg_eq (Inr a) v = Inr e
    \<and> (\<forall>d. arg_well_formed d sz n \<longrightarrow> eval_bool d e = Some (arg_is d sz n v))"
    using arg_eq_value [OF assms] by blast
  then obtain f where f: "\<And>v. arg_eq (Inr a) v = Inr (f v)"
    and ev: "\<And>v d. arg_well_formed d sz n \<Longrightarrow> eval_bool d (f v) = Some (arg_is d sz n v)"
    by metis
  have m: "map (arg_eq (Inr a)) vs = map Inr (map f vs)" using f by simp
  obtain c where c: "AnyOf (map Inr (map f vs)) = Inr c"
    and evc: "\<And>d. \<forall>b \<in> set (map f vs). eval_bool d b \<noteq> None \<Longrightarrow>
      eval_bool d c = Some (\<exists>b \<in> set (map f vs). eval_bool d b = Some True)"
    using AnyOf_Inr [of "map f vs"] by blast
  have "eval_bool d c = Some (\<exists>v \<in> set vs. arg_is d sz n v)" if "arg_well_formed d sz n" for d
    using evc [of d] ev [OF that] by simp
  moreover have "AnyOf (map (arg_eq (Inr a)) vs) = Inr c" using c by (simp only: m)
  ultimately show ?thesis by blast
qed

lemma SwitchCases_Inr:
  assumes "sz = 4 \<or> sz = 8" and "Arg sz n = Inr a"
  shows "\<exists>cl. SwitchCases (Inr \<lparr>caser_arg = a, caser_elser = cl0\<rparr>) cases
      = Inr \<lparr>caser_arg = a, caser_elser = rev cl @ cl0\<rparr>
    \<and> (\<forall>d e. arg_well_formed d sz n \<longrightarrow> first_match d cl e = switch_result d sz n cases e)"
proof (induction cases arbitrary: cl0)
  case Nil
  have "SwitchCases (Inr \<lparr>caser_arg = a, caser_elser = cl0\<rparr>) []
      = Inr \<lparr>caser_arg = a, caser_elser = rev [] @ cl0\<rparr>" by (simp add: SwitchCases_def)
  moreover have "first_match d [] e = switch_result d sz n [] e" for d e by simp
  ultimately show ?case by blast
next
  case (Cons vt cases)
  obtain vs t where vt: "vt = (vs, t)" by (cases vt)
  obtain c where c: "AnyOf (map (arg_eq (Inr a)) vs) = Inr c"
    and ev: "\<And>d. arg_well_formed d sz n \<Longrightarrow> eval_bool d c = Some (\<exists>v \<in> set vs. arg_is d sz n v)"
    using AnyOf_arg_eq [OF assms] by blast
  obtain cl where cl: "SwitchCases (Inr \<lparr>caser_arg = a, caser_elser = (c, t) # cl0\<rparr>) cases
      = Inr \<lparr>caser_arg = a, caser_elser = rev cl @ (c, t) # cl0\<rparr>"
    and fm: "\<And>d e. arg_well_formed d sz n \<Longrightarrow> first_match d cl e = switch_result d sz n cases e"
    using Cons.IH by blast
  have "SwitchCases (Inr \<lparr>caser_arg = a, caser_elser = cl0\<rparr>) (vt # cases)
      = SwitchCases (Inr \<lparr>caser_arg = a, caser_elser = (c, t) # cl0\<rparr>) cases"
    using c by (simp add: SwitchCases_def CasesImpl_def ElseIf_def vt)
  with cl have "SwitchCases (Inr \<lparr>caser_arg = a, caser_elser = cl0\<rparr>) (vt # cases)
      = Inr \<lparr>caser_arg = a, caser_elser = rev ((c, t) # cl) @ cl0\<rparr>" by simp
  moreover have "first_match d ((c, t) # cl) e = switch_result d sz n (vt # cases) e"
    if "arg_well_formed d sz n" for d e
    using ev [OF that] fm [OF that] by (simp add: vt)
  ultimately show ?case by blast
qed

text \<open>
  \<open>Switch(arg).Cases(...)...Default(e)\<close> selects the first case that lists the value of the
  argument and \<open>e\<close> when none does, for 32- and 64-bit arguments.
\<close>

lemma Switch_selects_case:
  assumes "sz = 4 \<or> sz = 8"
  shows "\<exists>r. Default (SwitchCases (Switch (Arg sz n)) cases) (Inr e) = Inr r
    \<and> (\<forall>d. arg_well_formed d sz n \<longrightarrow> eval_result d r = switch_result d sz n cases e)"
proof -
  obtain a where a: "Arg sz n = Inr a"
    using assms by (auto simp: Arg_def DefaultMask_def)
  obtain cl where "SwitchCases (Inr \<lparr>caser_arg = a, caser_elser = []\<rparr>) cases
      = Inr \<lparr>caser_arg = a, caser_elser = rev cl @ []\<rparr>"
    and "\<forall>d e. arg_well_formed d sz n \<longrightarrow> first_match d cl e = switch_result d sz n cases e"
    using SwitchCases_Inr [OF assms a, of "[]" cases] by blast
  then show ?thesis
    by (simp add: Switch_def a Default_def Else_def eval_result_foldl)
qed

lemma Switch_selects_case_witness:
  "\<exists>r. Default (SwitchCases (Switch (Arg 4 0)) [([1, 2], ReturnResultExpr SECCOMP_RET_ALLOW)])
      (Inr (ReturnResultExpr SECCOMP_RET_KILL)) = Inr r
    \<and> eval_result \<lparr>sd_nr = 0, sd_arch = 0, sd_instruction_pointer = 0, sd_args = [2, 0, 0, 0, 0, 0]\<rparr> r
      = Some (OReturn SECCOMP_RET_ALLOW)"
proof -
  let ?d = "\<lparr>sd_nr = 0, sd_arch = 0, sd_instruction_pointer = 0, sd_args = [2, 0, 0, 0, 0, 0]\<rparr>"
  let ?c = "[([1, 2], ReturnResultExpr SECCOMP_RET_ALLOW)] :: (int list \<times> result_expr) list"
  have "arg_well_formed ?d 4 0" "switch_result ?d 4 0 ?c (ReturnResultExpr SECCOMP_RET_KILL)
      = Some (OReturn SECCOMP_RET_ALLOW)"
    by (simp_all add: arg_well_formed_def valid_32bit_def hi32_def arg_is_def lo32_def drop_bit_eq_div)
  then show ?thesis
    using Switch_selects_case [of 4 0 ?c "ReturnResultExpr SECCOMP_RET_KILL"] by auto
qed

subsection \<open>Well-formed results\<close>

text \<open>
  Every result the language builds carries an action the kernel knows. \<open>wf_lift\<close> states it of
  a result that may have aborted.
\<close>

definition wf_lift :: "abort + result_expr \<Rightarrow> bool" where
  "wf_lift x \<longleftrightarrow> (\<forall>r. x = Inr r \<longrightarrow> wf_result r)"

definition wf_elser :: "abort + elser \<Rightarrow> bool" where
  "wf_elser x \<longleftrightarrow> (\<forall>cs. x = Inr cs \<longrightarrow> (\<forall>(c, t) \<in> set cs. wf_result t))"

definition wf_caser :: "abort + caser \<Rightarrow> bool" where
  "wf_caser x \<longleftrightarrow> (\<forall>c. x = Inr c \<longrightarrow> (\<forall>(b, t) \<in> set (caser_elser c). wf_result t))"

named_theorems wf_dsl \<open>results built by the policy language carry known actions\<close>

lemma wf_Allow [wf_dsl]: "wf_lift Allow"
  by (simp add: wf_lift_def Allow_def valid_action_def)

lemma wf_Kill [wf_dsl]: "wf_lift Kill"
  by (simp add: wf_lift_def Kill_def valid_action_def)

lemma wf_Error [wf_dsl]: "wf_lift (Error err)"
proof -
  have "valid_action (SECCOMP_RET_ERRNO + of_int err)" if "0 \<le> err" "err \<le> 4095" for err :: int
  proof -
    have "(of_int err :: u32) = of_nat (nat err)" using that by simp
    then have "(of_int err :: u32) AND SECCOMP_RET_ACTION = 0"
      using that by (simp only: low16_of_nat)
    then show ?thesis by (simp add: valid_action_def action_plus)
  qed
  then show ?thesis by (simp add: wf_lift_def Error_def res_simps)
qed

lemma wf_Trace [wf_dsl]: "wf_lift (Trace aux)"
  by (simp add: wf_lift_def Trace_def valid_action_def action_plus low16_ucast)

lemma wf_Trap [wf_dsl]: "wf_lift (Trap f a)" "wf_lift (UnsafeTrap f a)"
  by (simp_all add: wf_lift_def Trap_def UnsafeTrap_def)

lemma wf_Inl [wf_dsl]: "wf_lift (Inl e)"
  by (simp add: wf_lift_def)

lemma wf_If [wf_dsl]: "wf_lift t \<Longrightarrow> wf_elser (bpf_If c t)"
  by (auto simp: wf_lift_def wf_elser_def bpf_If_def ElseIf_def res_simps)

lemma wf_ElseIf [wf_dsl]: "wf_elser e \<Longrightarrow> wf_lift t \<Longrightarrow> wf_elser (ElseIf e c t)"
  by (auto simp: wf_lift_def wf_elser_def ElseIf_def res_simps)

lemma wf_foldl:
  "wf_result e \<Longrightarrow> \<forall>(c, t) \<in> set cs. wf_result t \<Longrightarrow>
     wf_result (foldl (\<lambda>expr clause. IfThenResultExpr (fst clause) (snd clause) expr) e cs)"
  by (induction cs arbitrary: e) auto

lemma wf_Else [wf_dsl]: "wf_elser e \<Longrightarrow> wf_lift r \<Longrightarrow> wf_lift (Else e r)"
  by (auto simp: wf_lift_def wf_elser_def Else_def res_simps intro!: wf_foldl)

lemma wf_Switch [wf_dsl]: "wf_caser (Switch a)"
  by (auto simp: wf_caser_def Switch_def res_simps)

lemma wf_CasesImpl [wf_dsl]: "wf_caser c \<Longrightarrow> wf_lift t \<Longrightarrow> wf_caser (CasesImpl c vs t)"
  by (auto simp: wf_lift_def wf_caser_def CasesImpl_def ElseIf_def res_simps)

lemma wf_Case [wf_dsl]: "wf_caser c \<Longrightarrow> wf_lift t \<Longrightarrow> wf_caser (Case c v t)"
  by (simp add: Case_def wf_CasesImpl)

lemma wf_Default [wf_dsl]: "wf_caser c \<Longrightarrow> wf_lift r \<Longrightarrow> wf_lift (Default c r)"
  by (auto simp: wf_lift_def wf_caser_def Default_def Else_def res_simps intro!: wf_foldl)

end
