(* ===== verification/Syscall_Numbers.thy ===== *)
theory Syscall_Numbers
  imports Prelude
begin

text \<open>
  The constants of the kernel interface that the policies name: the system call numbers of
  \<^verbatim>\<open>system_headers/x86_64_linux_syscalls.h\<close>, the futex operations of
  \<^verbatim>\<open>system_headers/linux_futex.h\<close>, the clocks of \<^verbatim>\<open>system_headers/linux_time.h\<close> and the
  signal numbers of \<^verbatim>\<open>system_headers/linux_signal.h\<close>. A macro \<open>__NR_x\<close> is \<open>NR_x\<close> here. The
  last section states that the numbers are distinct and inside the range the compiler iterates
  over.
\<close>

subsection \<open>System calls\<close>

abbreviation (input) NR_read :: int where "NR_read \<equiv> 0"
abbreviation (input) NR_write :: int where "NR_write \<equiv> 1"
abbreviation (input) NR_open :: int where "NR_open \<equiv> 2"
abbreviation (input) NR_close :: int where "NR_close \<equiv> 3"
abbreviation (input) NR_stat :: int where "NR_stat \<equiv> 4"
abbreviation (input) NR_fstat :: int where "NR_fstat \<equiv> 5"
abbreviation (input) NR_lstat :: int where "NR_lstat \<equiv> 6"
abbreviation (input) NR_poll :: int where "NR_poll \<equiv> 7"
abbreviation (input) NR_lseek :: int where "NR_lseek \<equiv> 8"
abbreviation (input) NR_mmap :: int where "NR_mmap \<equiv> 9"
abbreviation (input) NR_mprotect :: int where "NR_mprotect \<equiv> 10"
abbreviation (input) NR_munmap :: int where "NR_munmap \<equiv> 11"
abbreviation (input) NR_brk :: int where "NR_brk \<equiv> 12"
abbreviation (input) NR_rt_sigaction :: int where "NR_rt_sigaction \<equiv> 13"
abbreviation (input) NR_rt_sigprocmask :: int where "NR_rt_sigprocmask \<equiv> 14"
abbreviation (input) NR_rt_sigreturn :: int where "NR_rt_sigreturn \<equiv> 15"
abbreviation (input) NR_ioctl :: int where "NR_ioctl \<equiv> 16"
abbreviation (input) NR_pread64 :: int where "NR_pread64 \<equiv> 17"
abbreviation (input) NR_pwrite64 :: int where "NR_pwrite64 \<equiv> 18"
abbreviation (input) NR_readv :: int where "NR_readv \<equiv> 19"
abbreviation (input) NR_writev :: int where "NR_writev \<equiv> 20"
abbreviation (input) NR_access :: int where "NR_access \<equiv> 21"
abbreviation (input) NR_pipe :: int where "NR_pipe \<equiv> 22"
abbreviation (input) NR_select :: int where "NR_select \<equiv> 23"
abbreviation (input) NR_sched_yield :: int where "NR_sched_yield \<equiv> 24"
abbreviation (input) NR_mremap :: int where "NR_mremap \<equiv> 25"
abbreviation (input) NR_msync :: int where "NR_msync \<equiv> 26"
abbreviation (input) NR_mincore :: int where "NR_mincore \<equiv> 27"
abbreviation (input) NR_madvise :: int where "NR_madvise \<equiv> 28"
abbreviation (input) NR_shmget :: int where "NR_shmget \<equiv> 29"
abbreviation (input) NR_shmat :: int where "NR_shmat \<equiv> 30"
abbreviation (input) NR_shmctl :: int where "NR_shmctl \<equiv> 31"
abbreviation (input) NR_dup :: int where "NR_dup \<equiv> 32"
abbreviation (input) NR_dup2 :: int where "NR_dup2 \<equiv> 33"
abbreviation (input) NR_pause :: int where "NR_pause \<equiv> 34"
abbreviation (input) NR_nanosleep :: int where "NR_nanosleep \<equiv> 35"
abbreviation (input) NR_getitimer :: int where "NR_getitimer \<equiv> 36"
abbreviation (input) NR_alarm :: int where "NR_alarm \<equiv> 37"
abbreviation (input) NR_setitimer :: int where "NR_setitimer \<equiv> 38"
abbreviation (input) NR_getpid :: int where "NR_getpid \<equiv> 39"
abbreviation (input) NR_sendfile :: int where "NR_sendfile \<equiv> 40"
abbreviation (input) NR_socket :: int where "NR_socket \<equiv> 41"
abbreviation (input) NR_connect :: int where "NR_connect \<equiv> 42"
abbreviation (input) NR_accept :: int where "NR_accept \<equiv> 43"
abbreviation (input) NR_sendto :: int where "NR_sendto \<equiv> 44"
abbreviation (input) NR_recvfrom :: int where "NR_recvfrom \<equiv> 45"
abbreviation (input) NR_sendmsg :: int where "NR_sendmsg \<equiv> 46"
abbreviation (input) NR_recvmsg :: int where "NR_recvmsg \<equiv> 47"
abbreviation (input) NR_shutdown :: int where "NR_shutdown \<equiv> 48"
abbreviation (input) NR_bind :: int where "NR_bind \<equiv> 49"
abbreviation (input) NR_listen :: int where "NR_listen \<equiv> 50"
abbreviation (input) NR_getsockname :: int where "NR_getsockname \<equiv> 51"
abbreviation (input) NR_getpeername :: int where "NR_getpeername \<equiv> 52"
abbreviation (input) NR_socketpair :: int where "NR_socketpair \<equiv> 53"
abbreviation (input) NR_setsockopt :: int where "NR_setsockopt \<equiv> 54"
abbreviation (input) NR_getsockopt :: int where "NR_getsockopt \<equiv> 55"
abbreviation (input) NR_clone :: int where "NR_clone \<equiv> 56"
abbreviation (input) NR_fork :: int where "NR_fork \<equiv> 57"
abbreviation (input) NR_vfork :: int where "NR_vfork \<equiv> 58"
abbreviation (input) NR_execve :: int where "NR_execve \<equiv> 59"
abbreviation (input) NR_exit :: int where "NR_exit \<equiv> 60"
abbreviation (input) NR_wait4 :: int where "NR_wait4 \<equiv> 61"
abbreviation (input) NR_kill :: int where "NR_kill \<equiv> 62"
abbreviation (input) NR_uname :: int where "NR_uname \<equiv> 63"
abbreviation (input) NR_semget :: int where "NR_semget \<equiv> 64"
abbreviation (input) NR_semop :: int where "NR_semop \<equiv> 65"
abbreviation (input) NR_semctl :: int where "NR_semctl \<equiv> 66"
abbreviation (input) NR_shmdt :: int where "NR_shmdt \<equiv> 67"
abbreviation (input) NR_msgget :: int where "NR_msgget \<equiv> 68"
abbreviation (input) NR_msgsnd :: int where "NR_msgsnd \<equiv> 69"
abbreviation (input) NR_msgrcv :: int where "NR_msgrcv \<equiv> 70"
abbreviation (input) NR_msgctl :: int where "NR_msgctl \<equiv> 71"
abbreviation (input) NR_fcntl :: int where "NR_fcntl \<equiv> 72"
abbreviation (input) NR_flock :: int where "NR_flock \<equiv> 73"
abbreviation (input) NR_fsync :: int where "NR_fsync \<equiv> 74"
abbreviation (input) NR_fdatasync :: int where "NR_fdatasync \<equiv> 75"
abbreviation (input) NR_truncate :: int where "NR_truncate \<equiv> 76"
abbreviation (input) NR_ftruncate :: int where "NR_ftruncate \<equiv> 77"
abbreviation (input) NR_getdents :: int where "NR_getdents \<equiv> 78"
abbreviation (input) NR_getcwd :: int where "NR_getcwd \<equiv> 79"
abbreviation (input) NR_chdir :: int where "NR_chdir \<equiv> 80"
abbreviation (input) NR_fchdir :: int where "NR_fchdir \<equiv> 81"
abbreviation (input) NR_rename :: int where "NR_rename \<equiv> 82"
abbreviation (input) NR_mkdir :: int where "NR_mkdir \<equiv> 83"
abbreviation (input) NR_rmdir :: int where "NR_rmdir \<equiv> 84"
abbreviation (input) NR_creat :: int where "NR_creat \<equiv> 85"
abbreviation (input) NR_link :: int where "NR_link \<equiv> 86"
abbreviation (input) NR_unlink :: int where "NR_unlink \<equiv> 87"
abbreviation (input) NR_symlink :: int where "NR_symlink \<equiv> 88"
abbreviation (input) NR_readlink :: int where "NR_readlink \<equiv> 89"
abbreviation (input) NR_chmod :: int where "NR_chmod \<equiv> 90"
abbreviation (input) NR_fchmod :: int where "NR_fchmod \<equiv> 91"
abbreviation (input) NR_chown :: int where "NR_chown \<equiv> 92"
abbreviation (input) NR_fchown :: int where "NR_fchown \<equiv> 93"
abbreviation (input) NR_lchown :: int where "NR_lchown \<equiv> 94"
abbreviation (input) NR_umask :: int where "NR_umask \<equiv> 95"
abbreviation (input) NR_gettimeofday :: int where "NR_gettimeofday \<equiv> 96"
abbreviation (input) NR_getrlimit :: int where "NR_getrlimit \<equiv> 97"
abbreviation (input) NR_getrusage :: int where "NR_getrusage \<equiv> 98"
abbreviation (input) NR_sysinfo :: int where "NR_sysinfo \<equiv> 99"
abbreviation (input) NR_times :: int where "NR_times \<equiv> 100"
abbreviation (input) NR_ptrace :: int where "NR_ptrace \<equiv> 101"
abbreviation (input) NR_getuid :: int where "NR_getuid \<equiv> 102"
abbreviation (input) NR_syslog :: int where "NR_syslog \<equiv> 103"
abbreviation (input) NR_getgid :: int where "NR_getgid \<equiv> 104"
abbreviation (input) NR_setuid :: int where "NR_setuid \<equiv> 105"
abbreviation (input) NR_setgid :: int where "NR_setgid \<equiv> 106"
abbreviation (input) NR_geteuid :: int where "NR_geteuid \<equiv> 107"
abbreviation (input) NR_getegid :: int where "NR_getegid \<equiv> 108"
abbreviation (input) NR_setpgid :: int where "NR_setpgid \<equiv> 109"
abbreviation (input) NR_getppid :: int where "NR_getppid \<equiv> 110"
abbreviation (input) NR_getpgrp :: int where "NR_getpgrp \<equiv> 111"
abbreviation (input) NR_setsid :: int where "NR_setsid \<equiv> 112"
abbreviation (input) NR_setreuid :: int where "NR_setreuid \<equiv> 113"
abbreviation (input) NR_setregid :: int where "NR_setregid \<equiv> 114"
abbreviation (input) NR_getgroups :: int where "NR_getgroups \<equiv> 115"
abbreviation (input) NR_setgroups :: int where "NR_setgroups \<equiv> 116"
abbreviation (input) NR_setresuid :: int where "NR_setresuid \<equiv> 117"
abbreviation (input) NR_getresuid :: int where "NR_getresuid \<equiv> 118"
abbreviation (input) NR_setresgid :: int where "NR_setresgid \<equiv> 119"
abbreviation (input) NR_getresgid :: int where "NR_getresgid \<equiv> 120"
abbreviation (input) NR_getpgid :: int where "NR_getpgid \<equiv> 121"
abbreviation (input) NR_setfsuid :: int where "NR_setfsuid \<equiv> 122"
abbreviation (input) NR_setfsgid :: int where "NR_setfsgid \<equiv> 123"
abbreviation (input) NR_getsid :: int where "NR_getsid \<equiv> 124"
abbreviation (input) NR_capget :: int where "NR_capget \<equiv> 125"
abbreviation (input) NR_capset :: int where "NR_capset \<equiv> 126"
abbreviation (input) NR_rt_sigpending :: int where "NR_rt_sigpending \<equiv> 127"
abbreviation (input) NR_rt_sigtimedwait :: int where "NR_rt_sigtimedwait \<equiv> 128"
abbreviation (input) NR_rt_sigqueueinfo :: int where "NR_rt_sigqueueinfo \<equiv> 129"
abbreviation (input) NR_rt_sigsuspend :: int where "NR_rt_sigsuspend \<equiv> 130"
abbreviation (input) NR_sigaltstack :: int where "NR_sigaltstack \<equiv> 131"
abbreviation (input) NR_utime :: int where "NR_utime \<equiv> 132"
abbreviation (input) NR_mknod :: int where "NR_mknod \<equiv> 133"
abbreviation (input) NR_uselib :: int where "NR_uselib \<equiv> 134"
abbreviation (input) NR_personality :: int where "NR_personality \<equiv> 135"
abbreviation (input) NR_ustat :: int where "NR_ustat \<equiv> 136"
abbreviation (input) NR_statfs :: int where "NR_statfs \<equiv> 137"
abbreviation (input) NR_fstatfs :: int where "NR_fstatfs \<equiv> 138"
abbreviation (input) NR_sysfs :: int where "NR_sysfs \<equiv> 139"
abbreviation (input) NR_getpriority :: int where "NR_getpriority \<equiv> 140"
abbreviation (input) NR_setpriority :: int where "NR_setpriority \<equiv> 141"
abbreviation (input) NR_sched_setparam :: int where "NR_sched_setparam \<equiv> 142"
abbreviation (input) NR_sched_getparam :: int where "NR_sched_getparam \<equiv> 143"
abbreviation (input) NR_sched_setscheduler :: int where "NR_sched_setscheduler \<equiv> 144"
abbreviation (input) NR_sched_getscheduler :: int where "NR_sched_getscheduler \<equiv> 145"
abbreviation (input) NR_sched_get_priority_max :: int where "NR_sched_get_priority_max \<equiv> 146"
abbreviation (input) NR_sched_get_priority_min :: int where "NR_sched_get_priority_min \<equiv> 147"
abbreviation (input) NR_sched_rr_get_interval :: int where "NR_sched_rr_get_interval \<equiv> 148"
abbreviation (input) NR_mlock :: int where "NR_mlock \<equiv> 149"
abbreviation (input) NR_munlock :: int where "NR_munlock \<equiv> 150"
abbreviation (input) NR_mlockall :: int where "NR_mlockall \<equiv> 151"
abbreviation (input) NR_munlockall :: int where "NR_munlockall \<equiv> 152"
abbreviation (input) NR_vhangup :: int where "NR_vhangup \<equiv> 153"
abbreviation (input) NR_modify_ldt :: int where "NR_modify_ldt \<equiv> 154"
abbreviation (input) NR_pivot_root :: int where "NR_pivot_root \<equiv> 155"
abbreviation (input) NR__sysctl :: int where "NR__sysctl \<equiv> 156"
abbreviation (input) NR_prctl :: int where "NR_prctl \<equiv> 157"
abbreviation (input) NR_arch_prctl :: int where "NR_arch_prctl \<equiv> 158"
abbreviation (input) NR_adjtimex :: int where "NR_adjtimex \<equiv> 159"
abbreviation (input) NR_setrlimit :: int where "NR_setrlimit \<equiv> 160"
abbreviation (input) NR_chroot :: int where "NR_chroot \<equiv> 161"
abbreviation (input) NR_sync :: int where "NR_sync \<equiv> 162"
abbreviation (input) NR_acct :: int where "NR_acct \<equiv> 163"
abbreviation (input) NR_settimeofday :: int where "NR_settimeofday \<equiv> 164"
abbreviation (input) NR_mount :: int where "NR_mount \<equiv> 165"
abbreviation (input) NR_umount2 :: int where "NR_umount2 \<equiv> 166"
abbreviation (input) NR_swapon :: int where "NR_swapon \<equiv> 167"
abbreviation (input) NR_swapoff :: int where "NR_swapoff \<equiv> 168"
abbreviation (input) NR_reboot :: int where "NR_reboot \<equiv> 169"
abbreviation (input) NR_sethostname :: int where "NR_sethostname \<equiv> 170"
abbreviation (input) NR_setdomainname :: int where "NR_setdomainname \<equiv> 171"
abbreviation (input) NR_iopl :: int where "NR_iopl \<equiv> 172"
abbreviation (input) NR_ioperm :: int where "NR_ioperm \<equiv> 173"
abbreviation (input) NR_create_module :: int where "NR_create_module \<equiv> 174"
abbreviation (input) NR_init_module :: int where "NR_init_module \<equiv> 175"
abbreviation (input) NR_delete_module :: int where "NR_delete_module \<equiv> 176"
abbreviation (input) NR_get_kernel_syms :: int where "NR_get_kernel_syms \<equiv> 177"
abbreviation (input) NR_query_module :: int where "NR_query_module \<equiv> 178"
abbreviation (input) NR_quotactl :: int where "NR_quotactl \<equiv> 179"
abbreviation (input) NR_nfsservctl :: int where "NR_nfsservctl \<equiv> 180"
abbreviation (input) NR_getpmsg :: int where "NR_getpmsg \<equiv> 181"
abbreviation (input) NR_putpmsg :: int where "NR_putpmsg \<equiv> 182"
abbreviation (input) NR_afs_syscall :: int where "NR_afs_syscall \<equiv> 183"
abbreviation (input) NR_tuxcall :: int where "NR_tuxcall \<equiv> 184"
abbreviation (input) NR_security :: int where "NR_security \<equiv> 185"
abbreviation (input) NR_gettid :: int where "NR_gettid \<equiv> 186"
abbreviation (input) NR_readahead :: int where "NR_readahead \<equiv> 187"
abbreviation (input) NR_setxattr :: int where "NR_setxattr \<equiv> 188"
abbreviation (input) NR_lsetxattr :: int where "NR_lsetxattr \<equiv> 189"
abbreviation (input) NR_fsetxattr :: int where "NR_fsetxattr \<equiv> 190"
abbreviation (input) NR_getxattr :: int where "NR_getxattr \<equiv> 191"
abbreviation (input) NR_lgetxattr :: int where "NR_lgetxattr \<equiv> 192"
abbreviation (input) NR_fgetxattr :: int where "NR_fgetxattr \<equiv> 193"
abbreviation (input) NR_listxattr :: int where "NR_listxattr \<equiv> 194"
abbreviation (input) NR_llistxattr :: int where "NR_llistxattr \<equiv> 195"
abbreviation (input) NR_flistxattr :: int where "NR_flistxattr \<equiv> 196"
abbreviation (input) NR_removexattr :: int where "NR_removexattr \<equiv> 197"
abbreviation (input) NR_lremovexattr :: int where "NR_lremovexattr \<equiv> 198"
abbreviation (input) NR_fremovexattr :: int where "NR_fremovexattr \<equiv> 199"
abbreviation (input) NR_tkill :: int where "NR_tkill \<equiv> 200"
abbreviation (input) NR_time :: int where "NR_time \<equiv> 201"
abbreviation (input) NR_futex :: int where "NR_futex \<equiv> 202"
abbreviation (input) NR_sched_setaffinity :: int where "NR_sched_setaffinity \<equiv> 203"
abbreviation (input) NR_sched_getaffinity :: int where "NR_sched_getaffinity \<equiv> 204"
abbreviation (input) NR_set_thread_area :: int where "NR_set_thread_area \<equiv> 205"
abbreviation (input) NR_io_setup :: int where "NR_io_setup \<equiv> 206"
abbreviation (input) NR_io_destroy :: int where "NR_io_destroy \<equiv> 207"
abbreviation (input) NR_io_getevents :: int where "NR_io_getevents \<equiv> 208"
abbreviation (input) NR_io_submit :: int where "NR_io_submit \<equiv> 209"
abbreviation (input) NR_io_cancel :: int where "NR_io_cancel \<equiv> 210"
abbreviation (input) NR_get_thread_area :: int where "NR_get_thread_area \<equiv> 211"
abbreviation (input) NR_lookup_dcookie :: int where "NR_lookup_dcookie \<equiv> 212"
abbreviation (input) NR_epoll_create :: int where "NR_epoll_create \<equiv> 213"
abbreviation (input) NR_epoll_ctl_old :: int where "NR_epoll_ctl_old \<equiv> 214"
abbreviation (input) NR_epoll_wait_old :: int where "NR_epoll_wait_old \<equiv> 215"
abbreviation (input) NR_remap_file_pages :: int where "NR_remap_file_pages \<equiv> 216"
abbreviation (input) NR_getdents64 :: int where "NR_getdents64 \<equiv> 217"
abbreviation (input) NR_set_tid_address :: int where "NR_set_tid_address \<equiv> 218"
abbreviation (input) NR_restart_syscall :: int where "NR_restart_syscall \<equiv> 219"
abbreviation (input) NR_semtimedop :: int where "NR_semtimedop \<equiv> 220"
abbreviation (input) NR_fadvise64 :: int where "NR_fadvise64 \<equiv> 221"
abbreviation (input) NR_timer_create :: int where "NR_timer_create \<equiv> 222"
abbreviation (input) NR_timer_settime :: int where "NR_timer_settime \<equiv> 223"
abbreviation (input) NR_timer_gettime :: int where "NR_timer_gettime \<equiv> 224"
abbreviation (input) NR_timer_getoverrun :: int where "NR_timer_getoverrun \<equiv> 225"
abbreviation (input) NR_timer_delete :: int where "NR_timer_delete \<equiv> 226"
abbreviation (input) NR_clock_settime :: int where "NR_clock_settime \<equiv> 227"
abbreviation (input) NR_clock_gettime :: int where "NR_clock_gettime \<equiv> 228"
abbreviation (input) NR_clock_getres :: int where "NR_clock_getres \<equiv> 229"
abbreviation (input) NR_clock_nanosleep :: int where "NR_clock_nanosleep \<equiv> 230"
abbreviation (input) NR_exit_group :: int where "NR_exit_group \<equiv> 231"
abbreviation (input) NR_epoll_wait :: int where "NR_epoll_wait \<equiv> 232"
abbreviation (input) NR_epoll_ctl :: int where "NR_epoll_ctl \<equiv> 233"
abbreviation (input) NR_tgkill :: int where "NR_tgkill \<equiv> 234"
abbreviation (input) NR_utimes :: int where "NR_utimes \<equiv> 235"
abbreviation (input) NR_vserver :: int where "NR_vserver \<equiv> 236"
abbreviation (input) NR_mbind :: int where "NR_mbind \<equiv> 237"
abbreviation (input) NR_set_mempolicy :: int where "NR_set_mempolicy \<equiv> 238"
abbreviation (input) NR_get_mempolicy :: int where "NR_get_mempolicy \<equiv> 239"
abbreviation (input) NR_mq_open :: int where "NR_mq_open \<equiv> 240"
abbreviation (input) NR_mq_unlink :: int where "NR_mq_unlink \<equiv> 241"
abbreviation (input) NR_mq_timedsend :: int where "NR_mq_timedsend \<equiv> 242"
abbreviation (input) NR_mq_timedreceive :: int where "NR_mq_timedreceive \<equiv> 243"
abbreviation (input) NR_mq_notify :: int where "NR_mq_notify \<equiv> 244"
abbreviation (input) NR_mq_getsetattr :: int where "NR_mq_getsetattr \<equiv> 245"
abbreviation (input) NR_kexec_load :: int where "NR_kexec_load \<equiv> 246"
abbreviation (input) NR_waitid :: int where "NR_waitid \<equiv> 247"
abbreviation (input) NR_add_key :: int where "NR_add_key \<equiv> 248"
abbreviation (input) NR_request_key :: int where "NR_request_key \<equiv> 249"
abbreviation (input) NR_keyctl :: int where "NR_keyctl \<equiv> 250"
abbreviation (input) NR_ioprio_set :: int where "NR_ioprio_set \<equiv> 251"
abbreviation (input) NR_ioprio_get :: int where "NR_ioprio_get \<equiv> 252"
abbreviation (input) NR_inotify_init :: int where "NR_inotify_init \<equiv> 253"
abbreviation (input) NR_inotify_add_watch :: int where "NR_inotify_add_watch \<equiv> 254"
abbreviation (input) NR_inotify_rm_watch :: int where "NR_inotify_rm_watch \<equiv> 255"
abbreviation (input) NR_migrate_pages :: int where "NR_migrate_pages \<equiv> 256"
abbreviation (input) NR_openat :: int where "NR_openat \<equiv> 257"
abbreviation (input) NR_mkdirat :: int where "NR_mkdirat \<equiv> 258"
abbreviation (input) NR_mknodat :: int where "NR_mknodat \<equiv> 259"
abbreviation (input) NR_fchownat :: int where "NR_fchownat \<equiv> 260"
abbreviation (input) NR_futimesat :: int where "NR_futimesat \<equiv> 261"
abbreviation (input) NR_newfstatat :: int where "NR_newfstatat \<equiv> 262"
abbreviation (input) NR_unlinkat :: int where "NR_unlinkat \<equiv> 263"
abbreviation (input) NR_renameat :: int where "NR_renameat \<equiv> 264"
abbreviation (input) NR_linkat :: int where "NR_linkat \<equiv> 265"
abbreviation (input) NR_symlinkat :: int where "NR_symlinkat \<equiv> 266"
abbreviation (input) NR_readlinkat :: int where "NR_readlinkat \<equiv> 267"
abbreviation (input) NR_fchmodat :: int where "NR_fchmodat \<equiv> 268"
abbreviation (input) NR_faccessat :: int where "NR_faccessat \<equiv> 269"
abbreviation (input) NR_pselect6 :: int where "NR_pselect6 \<equiv> 270"
abbreviation (input) NR_ppoll :: int where "NR_ppoll \<equiv> 271"
abbreviation (input) NR_unshare :: int where "NR_unshare \<equiv> 272"
abbreviation (input) NR_set_robust_list :: int where "NR_set_robust_list \<equiv> 273"
abbreviation (input) NR_get_robust_list :: int where "NR_get_robust_list \<equiv> 274"
abbreviation (input) NR_splice :: int where "NR_splice \<equiv> 275"
abbreviation (input) NR_tee :: int where "NR_tee \<equiv> 276"
abbreviation (input) NR_sync_file_range :: int where "NR_sync_file_range \<equiv> 277"
abbreviation (input) NR_vmsplice :: int where "NR_vmsplice \<equiv> 278"
abbreviation (input) NR_move_pages :: int where "NR_move_pages \<equiv> 279"
abbreviation (input) NR_utimensat :: int where "NR_utimensat \<equiv> 280"
abbreviation (input) NR_epoll_pwait :: int where "NR_epoll_pwait \<equiv> 281"
abbreviation (input) NR_signalfd :: int where "NR_signalfd \<equiv> 282"
abbreviation (input) NR_timerfd_create :: int where "NR_timerfd_create \<equiv> 283"
abbreviation (input) NR_eventfd :: int where "NR_eventfd \<equiv> 284"
abbreviation (input) NR_fallocate :: int where "NR_fallocate \<equiv> 285"
abbreviation (input) NR_timerfd_settime :: int where "NR_timerfd_settime \<equiv> 286"
abbreviation (input) NR_timerfd_gettime :: int where "NR_timerfd_gettime \<equiv> 287"
abbreviation (input) NR_accept4 :: int where "NR_accept4 \<equiv> 288"
abbreviation (input) NR_signalfd4 :: int where "NR_signalfd4 \<equiv> 289"
abbreviation (input) NR_eventfd2 :: int where "NR_eventfd2 \<equiv> 290"
abbreviation (input) NR_epoll_create1 :: int where "NR_epoll_create1 \<equiv> 291"
abbreviation (input) NR_dup3 :: int where "NR_dup3 \<equiv> 292"
abbreviation (input) NR_pipe2 :: int where "NR_pipe2 \<equiv> 293"
abbreviation (input) NR_inotify_init1 :: int where "NR_inotify_init1 \<equiv> 294"
abbreviation (input) NR_preadv :: int where "NR_preadv \<equiv> 295"
abbreviation (input) NR_pwritev :: int where "NR_pwritev \<equiv> 296"
abbreviation (input) NR_rt_tgsigqueueinfo :: int where "NR_rt_tgsigqueueinfo \<equiv> 297"
abbreviation (input) NR_perf_event_open :: int where "NR_perf_event_open \<equiv> 298"
abbreviation (input) NR_recvmmsg :: int where "NR_recvmmsg \<equiv> 299"
abbreviation (input) NR_fanotify_init :: int where "NR_fanotify_init \<equiv> 300"
abbreviation (input) NR_fanotify_mark :: int where "NR_fanotify_mark \<equiv> 301"
abbreviation (input) NR_prlimit64 :: int where "NR_prlimit64 \<equiv> 302"
abbreviation (input) NR_name_to_handle_at :: int where "NR_name_to_handle_at \<equiv> 303"
abbreviation (input) NR_open_by_handle_at :: int where "NR_open_by_handle_at \<equiv> 304"
abbreviation (input) NR_clock_adjtime :: int where "NR_clock_adjtime \<equiv> 305"
abbreviation (input) NR_syncfs :: int where "NR_syncfs \<equiv> 306"
abbreviation (input) NR_sendmmsg :: int where "NR_sendmmsg \<equiv> 307"
abbreviation (input) NR_setns :: int where "NR_setns \<equiv> 308"
abbreviation (input) NR_getcpu :: int where "NR_getcpu \<equiv> 309"
abbreviation (input) NR_process_vm_readv :: int where "NR_process_vm_readv \<equiv> 310"
abbreviation (input) NR_process_vm_writev :: int where "NR_process_vm_writev \<equiv> 311"
abbreviation (input) NR_kcmp :: int where "NR_kcmp \<equiv> 312"
abbreviation (input) NR_finit_module :: int where "NR_finit_module \<equiv> 313"
abbreviation (input) NR_sched_setattr :: int where "NR_sched_setattr \<equiv> 314"
abbreviation (input) NR_sched_getattr :: int where "NR_sched_getattr \<equiv> 315"
abbreviation (input) NR_renameat2 :: int where "NR_renameat2 \<equiv> 316"
abbreviation (input) NR_seccomp :: int where "NR_seccomp \<equiv> 317"
abbreviation (input) NR_getrandom :: int where "NR_getrandom \<equiv> 318"
abbreviation (input) NR_memfd_create :: int where "NR_memfd_create \<equiv> 319"

text \<open>All of them, in the order of the header.\<close>

definition syscall_table :: "int list" where
  "syscall_table =
     [NR_read, NR_write, NR_open, NR_close, NR_stat, NR_fstat, NR_lstat, NR_poll, NR_lseek,
      NR_mmap, NR_mprotect, NR_munmap, NR_brk, NR_rt_sigaction, NR_rt_sigprocmask,
      NR_rt_sigreturn, NR_ioctl, NR_pread64, NR_pwrite64, NR_readv, NR_writev, NR_access,
      NR_pipe, NR_select, NR_sched_yield, NR_mremap, NR_msync, NR_mincore, NR_madvise,
      NR_shmget, NR_shmat, NR_shmctl, NR_dup, NR_dup2, NR_pause, NR_nanosleep, NR_getitimer,
      NR_alarm, NR_setitimer, NR_getpid, NR_sendfile, NR_socket, NR_connect, NR_accept,
      NR_sendto, NR_recvfrom, NR_sendmsg, NR_recvmsg, NR_shutdown, NR_bind, NR_listen,
      NR_getsockname, NR_getpeername, NR_socketpair, NR_setsockopt, NR_getsockopt, NR_clone,
      NR_fork, NR_vfork, NR_execve, NR_exit, NR_wait4, NR_kill, NR_uname, NR_semget, NR_semop,
      NR_semctl, NR_shmdt, NR_msgget, NR_msgsnd, NR_msgrcv, NR_msgctl, NR_fcntl, NR_flock,
      NR_fsync, NR_fdatasync, NR_truncate, NR_ftruncate, NR_getdents, NR_getcwd, NR_chdir,
      NR_fchdir, NR_rename, NR_mkdir, NR_rmdir, NR_creat, NR_link, NR_unlink, NR_symlink,
      NR_readlink, NR_chmod, NR_fchmod, NR_chown, NR_fchown, NR_lchown, NR_umask,
      NR_gettimeofday, NR_getrlimit, NR_getrusage, NR_sysinfo, NR_times, NR_ptrace, NR_getuid,
      NR_syslog, NR_getgid, NR_setuid, NR_setgid, NR_geteuid, NR_getegid, NR_setpgid,
      NR_getppid, NR_getpgrp, NR_setsid, NR_setreuid, NR_setregid, NR_getgroups, NR_setgroups,
      NR_setresuid, NR_getresuid, NR_setresgid, NR_getresgid, NR_getpgid, NR_setfsuid,
      NR_setfsgid, NR_getsid, NR_capget, NR_capset, NR_rt_sigpending, NR_rt_sigtimedwait,
      NR_rt_sigqueueinfo, NR_rt_sigsuspend, NR_sigaltstack, NR_utime, NR_mknod, NR_uselib,
      NR_personality, NR_ustat, NR_statfs, NR_fstatfs, NR_sysfs, NR_getpriority,
      NR_setpriority, NR_sched_setparam, NR_sched_getparam, NR_sched_setscheduler,
      NR_sched_getscheduler, NR_sched_get_priority_max, NR_sched_get_priority_min,
      NR_sched_rr_get_interval, NR_mlock, NR_munlock, NR_mlockall, NR_munlockall, NR_vhangup,
      NR_modify_ldt, NR_pivot_root, NR__sysctl, NR_prctl, NR_arch_prctl, NR_adjtimex,
      NR_setrlimit, NR_chroot, NR_sync, NR_acct, NR_settimeofday, NR_mount, NR_umount2,
      NR_swapon, NR_swapoff, NR_reboot, NR_sethostname, NR_setdomainname, NR_iopl, NR_ioperm,
      NR_create_module, NR_init_module, NR_delete_module, NR_get_kernel_syms, NR_query_module,
      NR_quotactl, NR_nfsservctl, NR_getpmsg, NR_putpmsg, NR_afs_syscall, NR_tuxcall,
      NR_security, NR_gettid, NR_readahead, NR_setxattr, NR_lsetxattr, NR_fsetxattr,
      NR_getxattr, NR_lgetxattr, NR_fgetxattr, NR_listxattr, NR_llistxattr, NR_flistxattr,
      NR_removexattr, NR_lremovexattr, NR_fremovexattr, NR_tkill, NR_time, NR_futex,
      NR_sched_setaffinity, NR_sched_getaffinity, NR_set_thread_area, NR_io_setup,
      NR_io_destroy, NR_io_getevents, NR_io_submit, NR_io_cancel, NR_get_thread_area,
      NR_lookup_dcookie, NR_epoll_create, NR_epoll_ctl_old, NR_epoll_wait_old,
      NR_remap_file_pages, NR_getdents64, NR_set_tid_address, NR_restart_syscall,
      NR_semtimedop, NR_fadvise64, NR_timer_create, NR_timer_settime, NR_timer_gettime,
      NR_timer_getoverrun, NR_timer_delete, NR_clock_settime, NR_clock_gettime,
      NR_clock_getres, NR_clock_nanosleep, NR_exit_group, NR_epoll_wait, NR_epoll_ctl,
      NR_tgkill, NR_utimes, NR_vserver, NR_mbind, NR_set_mempolicy, NR_get_mempolicy,
      NR_mq_open, NR_mq_unlink, NR_mq_timedsend, NR_mq_timedreceive, NR_mq_notify,
      NR_mq_getsetattr, NR_kexec_load, NR_waitid, NR_add_key, NR_request_key, NR_keyctl,
      NR_ioprio_set, NR_ioprio_get, NR_inotify_init, NR_inotify_add_watch,
      NR_inotify_rm_watch, NR_migrate_pages, NR_openat, NR_mkdirat, NR_mknodat, NR_fchownat,
      NR_futimesat, NR_newfstatat, NR_unlinkat, NR_renameat, NR_linkat, NR_symlinkat,
      NR_readlinkat, NR_fchmodat, NR_faccessat, NR_pselect6, NR_ppoll, NR_unshare,
      NR_set_robust_list, NR_get_robust_list, NR_splice, NR_tee, NR_sync_file_range,
      NR_vmsplice, NR_move_pages, NR_utimensat, NR_epoll_pwait, NR_signalfd,
      NR_timerfd_create, NR_eventfd, NR_fallocate, NR_timerfd_settime, NR_timerfd_gettime,
      NR_accept4, NR_signalfd4, NR_eventfd2, NR_epoll_create1, NR_dup3, NR_pipe2,
      NR_inotify_init1, NR_preadv, NR_pwritev, NR_rt_tgsigqueueinfo, NR_perf_event_open,
      NR_recvmmsg, NR_fanotify_init, NR_fanotify_mark, NR_prlimit64, NR_name_to_handle_at,
      NR_open_by_handle_at, NR_clock_adjtime, NR_syncfs, NR_sendmmsg, NR_setns, NR_getcpu,
      NR_process_vm_readv, NR_process_vm_writev, NR_kcmp, NR_finit_module, NR_sched_setattr,
      NR_sched_getattr, NR_renameat2, NR_seccomp, NR_getrandom, NR_memfd_create]"

subsection \<open>Futex operations\<close>

abbreviation (input) FUTEX_WAIT :: int where "FUTEX_WAIT \<equiv> 0"
abbreviation (input) FUTEX_WAKE :: int where "FUTEX_WAKE \<equiv> 1"
abbreviation (input) FUTEX_FD :: int where "FUTEX_FD \<equiv> 2"
abbreviation (input) FUTEX_REQUEUE :: int where "FUTEX_REQUEUE \<equiv> 3"
abbreviation (input) FUTEX_CMP_REQUEUE :: int where "FUTEX_CMP_REQUEUE \<equiv> 4"
abbreviation (input) FUTEX_WAKE_OP :: int where "FUTEX_WAKE_OP \<equiv> 5"
abbreviation (input) FUTEX_LOCK_PI :: int where "FUTEX_LOCK_PI \<equiv> 6"
abbreviation (input) FUTEX_UNLOCK_PI :: int where "FUTEX_UNLOCK_PI \<equiv> 7"
abbreviation (input) FUTEX_TRYLOCK_PI :: int where "FUTEX_TRYLOCK_PI \<equiv> 8"
abbreviation (input) FUTEX_WAIT_BITSET :: int where "FUTEX_WAIT_BITSET \<equiv> 9"
abbreviation (input) FUTEX_WAKE_BITSET :: int where "FUTEX_WAKE_BITSET \<equiv> 10"
abbreviation (input) FUTEX_WAIT_REQUEUE_PI :: int where "FUTEX_WAIT_REQUEUE_PI \<equiv> 11"
abbreviation (input) FUTEX_CMP_REQUEUE_PI :: int where "FUTEX_CMP_REQUEUE_PI \<equiv> 12"
abbreviation (input) FUTEX_PRIVATE_FLAG :: int where "FUTEX_PRIVATE_FLAG \<equiv> 128"
abbreviation (input) FUTEX_CLOCK_REALTIME :: int where "FUTEX_CLOCK_REALTIME \<equiv> 256"
abbreviation (input) FUTEX_CMD_MASK :: int where "FUTEX_CMD_MASK \<equiv> NOT (FUTEX_PRIVATE_FLAG OR FUTEX_CLOCK_REALTIME)"
abbreviation (input) FUTEX_CMP_REQUEUE_PI_PRIVATE :: int where "FUTEX_CMP_REQUEUE_PI_PRIVATE \<equiv> FUTEX_CMP_REQUEUE_PI OR FUTEX_PRIVATE_FLAG"
abbreviation (input) FUTEX_UNLOCK_PI_PRIVATE :: int where "FUTEX_UNLOCK_PI_PRIVATE \<equiv> FUTEX_UNLOCK_PI OR FUTEX_PRIVATE_FLAG"

subsection \<open>Clocks\<close>

abbreviation (input) CLOCK_REALTIME_COARSE :: int where "CLOCK_REALTIME_COARSE \<equiv> 5"
abbreviation (input) CLOCK_MONOTONIC_COARSE :: int where "CLOCK_MONOTONIC_COARSE \<equiv> 6"

subsection \<open>Signals\<close>

abbreviation (input) LINUX_SIGHUP :: int where "LINUX_SIGHUP \<equiv> 1"
abbreviation (input) LINUX_SIGINT :: int where "LINUX_SIGINT \<equiv> 2"
abbreviation (input) LINUX_SIGQUIT :: int where "LINUX_SIGQUIT \<equiv> 3"
abbreviation (input) LINUX_SIGABRT :: int where "LINUX_SIGABRT \<equiv> 6"
abbreviation (input) LINUX_SIGBUS :: int where "LINUX_SIGBUS \<equiv> 7"
abbreviation (input) LINUX_SIGUSR1 :: int where "LINUX_SIGUSR1 \<equiv> 10"
abbreviation (input) LINUX_SIGSEGV :: int where "LINUX_SIGSEGV \<equiv> 11"
abbreviation (input) LINUX_SIGUSR2 :: int where "LINUX_SIGUSR2 \<equiv> 12"
abbreviation (input) LINUX_SIGPIPE :: int where "LINUX_SIGPIPE \<equiv> 13"
abbreviation (input) LINUX_SIGTERM :: int where "LINUX_SIGTERM \<equiv> 15"
abbreviation (input) LINUX_SIGCHLD :: int where "LINUX_SIGCHLD \<equiv> 17"
abbreviation (input) LINUX_SIGSYS :: int where "LINUX_SIGSYS \<equiv> 31"
abbreviation (input) LINUX_SIG_BLOCK :: int where "LINUX_SIG_BLOCK \<equiv> 0"
abbreviation (input) LINUX_SIG_UNBLOCK :: int where "LINUX_SIG_UNBLOCK \<equiv> 1"
abbreviation (input) LINUX_SA_SIGINFO :: int where "LINUX_SA_SIGINFO \<equiv> 4"
abbreviation (input) LINUX_SA_NODEFER :: int where "LINUX_SA_NODEFER \<equiv> 0x40000000"
abbreviation (input) LINUX_SA_RESTART :: int where "LINUX_SA_RESTART \<equiv> 0x10000000"
abbreviation (input) LINUX_SIG_DFL :: int where "LINUX_SIG_DFL \<equiv> 0"

subsection \<open>The table\<close>

lemma syscall_table_distinct: "distinct syscall_table"
  by (simp add: syscall_table_def)

lemma syscall_table_range: "\<forall>n \<in> set syscall_table. 0 \<le> n \<and> n \<le> 1024"
  by (simp add: syscall_table_def)

end
