(* ===== verification/Sigsys_Handlers.thy ===== *)
theory Sigsys_Handlers
  imports Bpf_Dsl Syscall_Numbers "HOL-Library.Signed_Division"
begin

text \<open>
  The trap handlers of \<^verbatim>\<open>seccomp-bpf-helpers/sigsys_handlers.cc\<close>, which report a system call
  the policy forbids and crash the process in a way a crash dump can be read from, and the
  handler that rewrites scheduling calls on the caller's own thread id. A write to \<open>stderr\<close>
  and the raw system calls are parameters; a store through a pointer is an event that may
  fault. Conversions of numbers to text are modelled character by character.
\<close>

subsection \<open>The process a handler runs in\<close>

text \<open>
  \<open>sys_write\<close> stands for \<open>HANDLE_EINTR(sys_write(STDERR_FILENO, p, n))\<close> on the remaining
  bytes, \<open>writable\<close> tells whether a store to an address succeeds, \<open>source_file\<close> is
  \<open>__FILE__\<close>, and \<open>syscall_call\<close> is \<open>Syscall::Call\<close>.
\<close>

record 's kernel_if =
  sys_write :: "string \<Rightarrow> 's \<Rightarrow> int \<times> 's"
  sys_gettid :: int
  sys_getpid :: int
  writable :: "u64 \<Rightarrow> bool"
  syscall_call :: "u32 \<Rightarrow> u64 list \<Rightarrow> u64"
  source_file :: string

record 's report =
  rp_os :: 's
  rp_stderr :: string
  rp_crash_key :: "string option"
  rp_stores :: "u64 list"

text \<open>How a handler ends; \<open>OutOfBoundsRead\<close> is undefined behaviour.\<close>

datatype handler_end = Returned u64 | Faulted u64 | Exited int | OutOfBoundsRead

subsection \<open>Writing to stderr\<close>

text \<open>The bytes the kernel accepted, and its state.\<close>

function write_loop :: "(string \<Rightarrow> 's \<Rightarrow> int \<times> 's) \<Rightarrow> string \<Rightarrow> 's \<Rightarrow> string \<times> 's" where
  "write_loop wr msg s =
     (if msg = [] then ([], s)
      else
        (let (ret, s) = wr msg s in
         if ret \<le> 0 \<or> nat ret > length msg then ([], s)
         else
           (let (rest, s) = write_loop wr (drop (nat ret) msg) s
            in (take (nat ret) msg @ rest, s))))"
  by pat_completeness auto
termination
  by (relation "measure (\<lambda>(wr, msg, s). length msg)") auto

declare write_loop.simps [simp del]

definition WriteToStdErr :: "'s kernel_if \<Rightarrow> string \<Rightarrow> 's report \<Rightarrow> 's report" where
  "WriteToStdErr k msg p =
     (let (written, os) = write_loop (sys_write k) msg (rp_os p)
      in p\<lparr>rp_os := os, rp_stderr := rp_stderr p @ written\<rparr>)"

subsection \<open>Numbers as text\<close>

definition SyscallNumberToOffsetFromBase :: "u32 \<Rightarrow> u32" where
  "SyscallNumberToOffsetFromBase sysno = (if sysno \<ge> 1024 then 0 else sysno)"

text \<open>The loop of \<open>PrintSyscallError\<close>: \<open>n\<close> digits are left, the last one goes to \<open>n - 1\<close>.\<close>

fun base10_loop :: "nat \<Rightarrow> u32 \<Rightarrow> string \<Rightarrow> string" where
  "base10_loop 0 rem str = str"
| "base10_loop (Suc i) rem str =
     base10_loop i (rem div 10) (str[i := char_of (48 + unat (rem mod 10))])"

definition PrintSyscallError :: "'s kernel_if \<Rightarrow> u32 \<Rightarrow> 's report \<Rightarrow> 's report" where
  "PrintSyscallError k sysno p =
     (let sysno = (if sysno \<ge> 1024 then 0 else sysno);
          sysno_base10 = base10_loop 4 sysno (replicate 4 (CHR 0x00));
          p = WriteToStdErr k (source_file k @ '':**CRASHING**:seccomp-bpf failure in syscall '') p;
          p = WriteToStdErr k sysno_base10 p
      in WriteToStdErr k [CHR 0x0A] p)"

definition kHexChars :: string where
  "kHexChars = ''0123456789abcdef'' @ [CHR 0x00]"

text \<open>
  The loop of \<open>NumberToHex\<close>: \<open>n\<close> digits are left, the last one goes to index \<open>n + 1\<close>. \<open>/\<close> and
  \<open>%\<close> on a signed type round towards zero, and a negative index reads outside the array.
\<close>

fun hex_loop :: "nat \<Rightarrow> int \<Rightarrow> string \<Rightarrow> string option" where
  "hex_loop 0 rem str = Some str"
| "hex_loop (Suc n) rem str =
     (let m = rem smod 16 in
      if m < 0 \<or> m > 16 then None
      else hex_loop n (rem sdiv 16) (str[n + 2 := kHexChars ! nat m]))"

text \<open>\<open>NumberToHex<T>\<close>, with \<open>sz = sizeof(T)\<close>: the array \<open>str_\<close>.\<close>

definition NumberToHex :: "nat \<Rightarrow> int \<Rightarrow> string option" where
  "NumberToHex sz num =
     (let str = replicate (sz * 2 + 3) (CHR ''0'');
          str = str[1 := CHR ''x''];
          str = str[sz * 2 + 2 := CHR 0x00]
      in hex_loop (sz * 2) num str)"

text \<open>\<open>memmove\<close> into an array; \<open>None\<close> when it would write past its end.\<close>

definition memmove :: "string \<Rightarrow> nat \<Rightarrow> string \<Rightarrow> string option" where
  "memmove buf offset str =
     (if offset + length str \<le> length buf
      then Some (take offset buf @ str @ drop (offset + length str) buf) else None)"

fun copy_strings :: "string list \<Rightarrow> string \<Rightarrow> nat \<Rightarrow> string option" where
  "copy_strings [] buf offset = Some buf"
| "copy_strings (s # strings) buf offset =
     Option.bind (memmove buf offset s) (\<lambda>buf. copy_strings strings buf (offset + length s))"

definition crash_key_prefixes :: "string list" where
  "crash_key_prefixes = [''nr='', '' arg1='', '' arg2='', '' arg3='', '' arg4='']"

definition SetSeccompCrashKey :: "arch_seccomp_data \<Rightarrow> 's report \<Rightarrow> 's report option" where
  "SetSeccompCrashKey args p =
     Option.bind (NumberToHex 4 (sint (sd_nr args))) (\<lambda>nr.
     Option.bind (NumberToHex 8 (uint (sd_args args ! 0))) (\<lambda>arg1.
     Option.bind (NumberToHex 8 (uint (sd_args args ! 1))) (\<lambda>arg2.
     Option.bind (NumberToHex 8 (uint (sd_args args ! 2))) (\<lambda>arg3.
     Option.bind (NumberToHex 8 (uint (sd_args args ! 3))) (\<lambda>arg4.
     let values = [c_str nr, c_str arg1, c_str arg2, c_str arg3, c_str arg4];
         crash_key_length = (length nr - 1) + (length arg1 - 1) + (length arg2 - 1)
           + (length arg3 - 1) + (length arg4 - 1) + sum_list (map length crash_key_prefixes) + 1;
         strings = concat (map2 (\<lambda>prefix v. [prefix, v]) crash_key_prefixes values)
     in Option.bind (copy_strings strings (replicate crash_key_length (CHR 0x00)) 0) (\<lambda>crash_key.
        Some (p\<lparr>rp_crash_key := Some (c_str crash_key)\<rparr>)))))))"

subsection \<open>The handlers\<close>

text \<open>
  Stores to each of the addresses in turn; the first that is not mapped ends the process, and
  after the last one the handler exits.
\<close>

fun crash_at :: "'s kernel_if \<Rightarrow> u64 list \<Rightarrow> 's report \<Rightarrow> handler_end \<times> 's report" where
  "crash_at k [] p = (Exited 1, p)"
| "crash_at k (addr # addrs) p =
     (if writable k addr then crash_at k addrs (p\<lparr>rp_stores := rp_stores p @ [addr]\<rparr>)
      else (Faulted addr, p))"

definition with_crash_key ::
    "arch_seccomp_data \<Rightarrow> 's report \<Rightarrow> ('s report \<Rightarrow> handler_end \<times> 's report) \<Rightarrow> handler_end \<times> 's report" where
  "with_crash_key args p f =
     (case SetSeccompCrashKey args p of None \<Rightarrow> (OutOfBoundsRead, p) | Some p \<Rightarrow> f p)"

definition crash_address :: "arch_seccomp_data \<Rightarrow> u32" where
  "crash_address args =
     SyscallNumberToOffsetFromBase (sd_nr args)
       OR ucast (push_bit 12 (sd_args args ! 0 AND 0xff))
       OR ucast (push_bit 20 (sd_args args ! 1 AND 0xff))"

definition run_CrashSIGSYS_Handler ::
    "'s kernel_if \<Rightarrow> arch_seccomp_data \<Rightarrow> 's report \<Rightarrow> handler_end \<times> 's report" where
  "run_CrashSIGSYS_Handler k args p =
     (let syscall = SyscallNumberToOffsetFromBase (sd_nr args);
          p = PrintSyscallError k syscall p
      in with_crash_key args p
           (crash_at k [ucast (crash_address args), ucast (crash_address args AND 0xfff)]))"

definition crash_message :: "'s kernel_if \<Rightarrow> string \<Rightarrow> string" where
  "crash_message k content = source_file k @ '':**CRASHING**:'' @ content @ [CHR 0x0A]"

definition run_SIGSYSCloneFailure ::
    "'s kernel_if \<Rightarrow> arch_seccomp_data \<Rightarrow> 's report \<Rightarrow> handler_end \<times> 's report" where
  "run_SIGSYSCloneFailure k args p =
     with_crash_key args (WriteToStdErr k (crash_message k ''clone() failure'') p)
       (let clone_flags = sd_args args ! 0
        in crash_at k [clone_flags AND 0xFFFFFF, clone_flags AND 0xFFF])"

definition run_SIGSYSPrctlFailure ::
    "'s kernel_if \<Rightarrow> arch_seccomp_data \<Rightarrow> 's report \<Rightarrow> handler_end \<times> 's report" where
  "run_SIGSYSPrctlFailure k args p =
     with_crash_key args (WriteToStdErr k (crash_message k ''prctl() failure'') p)
       (crash_at k [sd_args args ! 0 AND 0xFFF])"

definition run_SIGSYSIoctlFailure ::
    "'s kernel_if \<Rightarrow> arch_seccomp_data \<Rightarrow> 's report \<Rightarrow> handler_end \<times> 's report" where
  "run_SIGSYSIoctlFailure k args p =
     with_crash_key args (WriteToStdErr k (crash_message k ''ioctl() failure'') p)
       (crash_at k [sd_args args ! 1 AND 0xFFFF, sd_args args ! 1 AND 0xFFF])"

definition run_SIGSYSKillFailure ::
    "'s kernel_if \<Rightarrow> arch_seccomp_data \<Rightarrow> 's report \<Rightarrow> handler_end \<times> 's report" where
  "run_SIGSYSKillFailure k args p =
     with_crash_key args (WriteToStdErr k (crash_message k ''(tg)kill() failure'') p)
       (crash_at k [of_int (sys_getpid k) AND 0xFFF])"

definition run_SIGSYSFutexFailure ::
    "'s kernel_if \<Rightarrow> arch_seccomp_data \<Rightarrow> 's report \<Rightarrow> handler_end \<times> 's report" where
  "run_SIGSYSFutexFailure k args p =
     with_crash_key args (WriteToStdErr k (crash_message k ''futex() failure'') p)
       (crash_at k [ucast ((ucast (sd_args args ! 1) :: u32) AND 0xFFF)])"

text \<open>
  After the \<open>switch\<close> of \<open>SIGSYSSchedHandler\<close>, \<open>CrashSIGSYS_Handler\<close> does not return, so
  the rest of the function is never reached.
\<close>

definition sched_calls :: "int list" where
  "sched_calls =
     [NR_sched_getaffinity, NR_sched_getattr, NR_sched_getparam, NR_sched_getscheduler,
      NR_sched_rr_get_interval, NR_sched_setaffinity, NR_sched_setattr, NR_sched_setparam,
      NR_sched_setscheduler]"

definition run_SIGSYSSchedHandler ::
    "'s kernel_if \<Rightarrow> arch_seccomp_data \<Rightarrow> 's report \<Rightarrow> handler_end \<times> 's report" where
  "run_SIGSYSSchedHandler k args p =
     (if sint (sd_nr args) \<in> set sched_calls \<and> sd_args args ! 0 = of_int (sys_gettid k)
      then (Returned (syscall_call k (sd_nr args) (0 # drop 1 (sd_args args))), p)
      else run_CrashSIGSYS_Handler k args p)"

subsection \<open>The policy results\<close>

definition CrashSIGSYS :: "abort + result_expr" where "CrashSIGSYS = Trap CrashSIGSYS_Handler NULL"
definition CrashSIGSYSClone :: "abort + result_expr" where "CrashSIGSYSClone = Trap SIGSYSCloneFailure NULL"
definition CrashSIGSYSPrctl :: "abort + result_expr" where "CrashSIGSYSPrctl = Trap SIGSYSPrctlFailure NULL"
definition CrashSIGSYSIoctl :: "abort + result_expr" where "CrashSIGSYSIoctl = Trap SIGSYSIoctlFailure NULL"
definition CrashSIGSYSKill :: "abort + result_expr" where "CrashSIGSYSKill = Trap SIGSYSKillFailure NULL"
definition CrashSIGSYSFutex :: "abort + result_expr" where "CrashSIGSYSFutex = Trap SIGSYSFutexFailure NULL"
definition RewriteSchedSIGSYS :: "abort + result_expr" where "RewriteSchedSIGSYS = Trap SIGSYSSchedHandler NULL"

lemmas crash_defs = CrashSIGSYS_def CrashSIGSYSClone_def CrashSIGSYSPrctl_def CrashSIGSYSIoctl_def
  CrashSIGSYSKill_def CrashSIGSYSFutex_def RewriteSchedSIGSYS_def

subsection \<open>Writing\<close>

lemma write_loop_prefix: "\<exists>rest. msg = fst (write_loop wr msg s) @ rest"
proof (induction wr msg s rule: write_loop.induct)
  case (1 wr msg s)
  obtain ret s' where wr: "wr msg s = (ret, s')" by (cases "wr msg s")
  show ?case
  proof (cases "msg = [] \<or> ret \<le> 0 \<or> nat ret > length msg")
    case True
    then show ?thesis by (subst write_loop.simps) (auto simp: wr)
  next
    case False
    then obtain rest where "drop (nat ret) msg = fst (write_loop wr (drop (nat ret) msg) s') @ rest"
      using 1 wr by fastforce
    then have "msg = (take (nat ret) msg @ fst (write_loop wr (drop (nat ret) msg) s')) @ rest"
      by (metis append.assoc append_take_drop_id)
    then show ?thesis
      using False by (subst write_loop.simps) (auto simp: wr split: prod.splits)
  qed
qed

lemma write_loop_all:
  assumes "\<And>m s. m \<noteq> [] \<Longrightarrow> 0 < fst (wr m s) \<and> nat (fst (wr m s)) \<le> length m"
  shows "fst (write_loop wr msg s) = msg"
  using assms
proof (induction wr msg s rule: write_loop.induct)
  case (1 wr msg s)
  obtain ret s' where wr: "wr msg s = (ret, s')" by (cases "wr msg s")
  show ?case
  proof (cases "msg = []")
    case True
    then show ?thesis by (subst write_loop.simps) simp
  next
    case False
    then have ret: "0 < ret" "nat ret \<le> length msg" using 1(2) [of msg s] wr by simp_all
    then have "fst (write_loop wr (drop (nat ret) msg) s') = drop (nat ret) msg"
      using 1 False wr by simp
    then show ?thesis
      using False ret by (subst write_loop.simps) (simp add: wr split_beta Let_def)
  qed
qed

subsection \<open>Decimal digits\<close>

definition decimal_value :: "string \<Rightarrow> int" where
  "decimal_value str = foldl (\<lambda>a c. a * 10 + (of_char c - 48)) 0 str"

lemma decimal_value_snoc: "decimal_value (str @ [c]) = decimal_value str * 10 + (of_char c - 48)"
  by (simp add: decimal_value_def)

lemma of_char_digit:
  assumes "n < 10"
  shows "(of_char (char_of (48 + n :: nat)) :: int) = 48 + int n"
proof -
  have "(of_char (char_of (48 + n :: nat)) :: nat) = 48 + n"
    using assms by (simp only: of_char_of) simp
  then show ?thesis by (metis of_nat_add of_nat_numeral of_nat_of_char)
qed

lemma mod_step: "a div b mod c * b + a mod b = a mod (b * c)" if "0 < c" for a b c :: int
  using zmod_zmult2_eq [of c a b] that by (simp add: algebra_simps)

lemma base10_loop_value:
  assumes "n \<le> length str"
  shows "length (base10_loop n rem str) = length str
    \<and> drop n (base10_loop n rem str) = drop n str
    \<and> decimal_value (take n (base10_loop n rem str)) = uint rem mod 10 ^ n"
  using assms
proof (induction n arbitrary: rem str)
  case 0
  then show ?case by (simp add: decimal_value_def)
next
  case (Suc n)
  let ?c = "char_of (48 + unat (rem mod 10)) :: char"
  let ?str = "str[n := ?c]" and ?res = "base10_loop (Suc n) rem str"
  have IH: "length ?res = length str" "drop n ?res = drop n ?str"
    "decimal_value (take n ?res) = uint (rem div 10) mod 10 ^ n"
    using Suc.IH [of ?str "rem div 10"] Suc.prems by simp_all
  have less: "n < length str" using Suc.prems by simp
  then have "?res ! n # drop (Suc n) ?res = ?c # drop (Suc n) str"
    using IH(2) by (simp only: Cons_nth_drop_Suc IH(1)) (simp add: Cons_nth_drop_Suc [symmetric])
  then have nth: "?res ! n = ?c" and rest: "drop (Suc n) ?res = drop (Suc n) str" by (blast+)
  have "unat (rem mod 10) < 10" by (simp add: unat_mod)
  then have "(of_char ?c :: int) = 48 + uint (rem mod 10)"
    by (simp only: of_char_digit uint_nat)
  moreover have "take (Suc n) ?res = take n ?res @ [?c]"
    using nth IH(1) less by (simp only: take_Suc_conv_app_nth)
  ultimately have "decimal_value (take (Suc n) ?res)
      = uint rem div 10 mod 10 ^ n * 10 + uint rem mod 10"
    using IH(3) by (simp only: decimal_value_snoc uint_div uint_mod) simp
  also have "\<dots> = uint rem mod 10 ^ Suc n"
    using mod_step [of "10 ^ n" "uint rem" 10] by simp
  finally show ?case using IH(1) rest by blast
qed

text \<open>
  When the kernel takes bytes at every write, however few, \<open>PrintSyscallError\<close> gets its whole
  message out, and the four digits in it are the system call number, or 0000 for a number of
  1024 or more.
\<close>

lemma PrintSyscallError_prints:
  assumes "\<And>m s. m \<noteq> [] \<Longrightarrow> 0 < fst (sys_write k m s) \<and> nat (fst (sys_write k m s)) \<le> length m"
  shows "\<exists>digits. rp_stderr (PrintSyscallError k sysno p)
      = rp_stderr p @ (source_file k @ '':**CRASHING**:seccomp-bpf failure in syscall '') @ digits @ [CHR 0x0A]
    \<and> length digits = 4 \<and> decimal_value digits = (if sysno < 1024 then uint sysno else 0)"
proof -
  define n where "n = (if sysno \<ge> 1024 then 0 else sysno)"
  define digits where "digits = base10_loop 4 n (replicate 4 (CHR 0x00))"
  have w: "rp_stderr (WriteToStdErr k msg q) = rp_stderr q @ msg" for msg and q :: "'a report"
    using write_loop_all [where msg = msg and s = "rp_os q", OF assms] by (simp add: WriteToStdErr_def split_beta Let_def)
  have "uint n < 10 ^ 4"
    by (cases "sysno \<ge> 1024") (simp_all add: n_def word_less_def not_le)
  then have m: "uint n mod 10 ^ 4 = uint n" by simp
  have "4 \<le> length (replicate 4 (CHR 0x00))" by simp
  from base10_loop_value [OF this, of n]
  have len: "length digits = 4" and val: "decimal_value (take 4 digits) = uint n"
    unfolding digits_def m by (simp_all only: length_replicate)
  have "take 4 digits = digits" by (rule take_all) (simp only: len)
  with len val have "length digits = 4 \<and> decimal_value digits = uint n" by (simp only:)
  moreover have "rp_stderr (PrintSyscallError k sysno p)
      = rp_stderr p @ (source_file k @ '':**CRASHING**:seccomp-bpf failure in syscall '') @ digits @ [CHR 0x0A]"
    unfolding PrintSyscallError_def Let_def n_def [symmetric] digits_def [symmetric] w by (simp only: append_assoc)
  moreover have "uint n = (if sysno < 1024 then uint sysno else 0)"
    by (cases "sysno < 1024") (simp_all add: n_def not_le flip: not_less)
  ultimately show ?thesis by auto
qed

lemma PrintSyscallError_prints_witness:
  "\<exists>digits. rp_stderr (PrintSyscallError
        \<lparr>sys_write = \<lambda>m s. (1, s), sys_gettid = 7, sys_getpid = 7, writable = \<lambda>a. False,
          syscall_call = \<lambda>n a. 0, source_file = []\<rparr> 41
        \<lparr>rp_os = (), rp_stderr = [], rp_crash_key = None, rp_stores = []\<rparr>)
      = '':**CRASHING**:seccomp-bpf failure in syscall '' @ digits @ [CHR 0x0A]
    \<and> decimal_value digits = 41"
  using PrintSyscallError_prints [of
      "\<lparr>sys_write = \<lambda>m s. (1, s), sys_gettid = 7, sys_getpid = 7, writable = \<lambda>a. False,
        syscall_call = \<lambda>n a. 0, source_file = []\<rparr>" 41
      "\<lparr>rp_os = (), rp_stderr = [], rp_crash_key = None, rp_stores = []\<rparr>"]
  by (auto simp: Suc_le_eq)

subsection \<open>Hexadecimal digits\<close>

definition hex_digit :: "char \<Rightarrow> int" where
  "hex_digit c = int (length (takeWhile (\<lambda>d. d \<noteq> c) kHexChars))"

definition hex_value :: "string \<Rightarrow> int" where
  "hex_value str = foldl (\<lambda>a c. a * 16 + hex_digit c) 0 str"

lemma hex_value_snoc: "hex_value (str @ [c]) = hex_value str * 16 + hex_digit c"
  by (simp add: hex_value_def)

lemma kHexChars_digits:
  "list_all (\<lambda>m. hex_digit (kHexChars ! m) = int m \<and> kHexChars ! m \<noteq> CHR 0x00) [0..<16]"
  by code_simp

lemma hex_digit_kHexChars:
  assumes "m < 16"
  shows "hex_digit (kHexChars ! m) = int m" and "kHexChars ! m \<noteq> CHR 0x00"
proof -
  have "m \<in> set [0..<16]" using assms by (simp only: set_upt atLeastLessThan_iff) simp
  then show "hex_digit (kHexChars ! m) = int m" and "kHexChars ! m \<noteq> CHR 0x00"
    using kHexChars_digits by (auto simp only: list_all_iff)
qed

text \<open>The digits come out right for a number that is not negative.\<close>

lemma hex_loop_value:
  assumes "0 \<le> rem" and "n + 2 \<le> length str"
  shows "\<exists>res. hex_loop n rem str = Some res \<and> length res = length str
    \<and> take 2 res = take 2 str \<and> drop (n + 2) res = drop (n + 2) str
    \<and> hex_value (take n (drop 2 res)) = rem mod 16 ^ n
    \<and> (\<forall>c \<in> set (take n (drop 2 res)). c \<noteq> CHR 0x00)"
  using assms
proof (induction n arbitrary: rem str)
  case 0
  then show ?case by (simp add: hex_value_def)
next
  case (Suc n)
  let ?m = "nat (rem mod 16)"
  let ?c = "kHexChars ! ?m"
  let ?str = "str[n + 2 := ?c]"
  have sgn: "rem smod 16 = rem mod 16" "rem sdiv 16 = rem div 16"
    using Suc.prems(1) by (auto simp: signed_modulo_int_def signed_divide_int_def sgn_if)
  have m: "?m < 16" and bounds: "\<not> rem mod 16 < 0" "\<not> 16 < rem mod 16"
    using pos_mod_bound [of 16 rem] by simp_all
  have step: "hex_loop (Suc n) rem str = hex_loop n (rem div 16) ?str"
    using bounds by (simp only: hex_loop.simps Let_def sgn) simp
  have "0 \<le> rem div 16" using Suc.prems(1) by simp
  then obtain res where res: "hex_loop n (rem div 16) ?str = Some res"
    and len: "length res = length str" and pre: "take 2 res = take 2 str"
    and post: "drop (n + 2) res = drop (n + 2) ?str"
    and val: "hex_value (take n (drop 2 res)) = rem div 16 mod 16 ^ n"
    and nz: "\<forall>c \<in> set (take n (drop 2 res)). c \<noteq> CHR 0x00"
    using Suc.IH [of "rem div 16" ?str] Suc.prems(2) by auto
  have less: "n + 2 < length str" using Suc.prems(2) by simp
  then have "res ! (n + 2) # drop (Suc (n + 2)) res = ?c # drop (Suc (n + 2)) str"
    using post by (simp only: Cons_nth_drop_Suc len) (simp add: Cons_nth_drop_Suc [symmetric])
  then have nth: "res ! (n + 2) = ?c" and rest: "drop (Suc n + 2) res = drop (Suc n + 2) str"
    by (simp_all del: drop_Suc_Cons)
  have snoc: "take (Suc n) (drop 2 res) = take n (drop 2 res) @ [?c]"
    using nth less len by (simp add: take_Suc_conv_app_nth add.commute)
  have "hex_value (take (Suc n) (drop 2 res)) = rem div 16 mod 16 ^ n * 16 + rem mod 16"
    using val hex_digit_kHexChars(1) [OF m] by (simp only: snoc hex_value_snoc) simp
  also have "\<dots> = rem mod 16 ^ Suc n" using mod_step [of "16 ^ n" rem 16] by simp
  finally show ?case
    using res step len pre rest nz hex_digit_kHexChars(2) [OF m] snoc by auto
qed

text \<open>A negative number makes the loop index before the start of \<open>kHexChars\<close>.\<close>

lemma hex_loop_negative:
  assumes "rem < 0" and "- rem < 16 ^ n"
  shows "hex_loop n rem str = None"
  using assms
proof (induction n arbitrary: rem str)
  case (Suc n)
  have m: "rem smod 16 = - (- rem mod 16)" and q: "rem sdiv 16 = - (- rem div 16)"
    using Suc.prems(1) by (simp_all add: signed_modulo_int_def signed_divide_int_def)
  show ?case
  proof (cases "- rem mod 16 = 0")
    case True
    then have "- rem = 16 * (- rem div 16)" by presburger
    then have "- (- rem div 16) < 0" "- rem div 16 < 16 ^ n"
      using Suc.prems by auto
    then show ?thesis using Suc.IH [of "- (- rem div 16)"] by (simp add: Let_def m q)
  next
    case False
    then have "rem smod 16 < 0" by (simp add: m)
    then show ?thesis by (simp add: Let_def)
  qed
qed simp

lemma NumberToHex_nonneg:
  assumes "0 \<le> num" and "num < 16 ^ (sz * 2)"
  shows "\<exists>buf. NumberToHex sz num = Some buf \<and> length buf = sz * 2 + 3
    \<and> length (c_str buf) = sz * 2 + 2 \<and> take 2 (c_str buf) = [CHR ''0'', CHR ''x'']
    \<and> hex_value (drop 2 (c_str buf)) = num \<and> (\<forall>c \<in> set (c_str buf). c \<noteq> CHR 0x00)"
proof -
  define str where "str = ((replicate (sz * 2 + 3) (CHR ''0''))[1 := CHR ''x''])[sz * 2 + 2 := CHR 0x00]"
  have len: "length str = sz * 2 + 3" by (simp add: str_def)
  have pre: "take 2 str = [CHR ''0'', CHR ''x'']"
    by (simp add: str_def numeral_2_eq_2 numeral_3_eq_3)
  have post: "drop (sz * 2 + 2) str = [CHR 0x00]"
    using len by (intro nth_equalityI) (simp_all add: str_def)
  have v: "num mod 16 ^ (sz * 2) = num" using assms by (rule mod_pos_pos_trivial)
  have "sz * 2 + 2 \<le> length str" by (simp add: len)
  from hex_loop_value [OF assms(1) this]
  obtain buf where buf: "hex_loop (sz * 2) num str = Some buf" and lb: "length buf = sz * 2 + 3"
    and t: "take 2 buf = [CHR ''0'', CHR ''x'']" and d: "drop (sz * 2 + 2) buf = [CHR 0x00]"
    and val: "hex_value (take (sz * 2) (drop 2 buf)) = num"
    and nz: "\<forall>c \<in> set (take (sz * 2) (drop 2 buf)). c \<noteq> CHR 0x00"
    unfolding len pre post v by blast
  define ds where "ds = take (sz * 2) (drop 2 buf)"
  have "buf = take 2 buf @ ds @ drop (sz * 2 + 2) buf"
    unfolding ds_def by (metis append_take_drop_id drop_drop)
  then have "buf = ([CHR ''0'', CHR ''x''] @ ds) @ [CHR 0x00]" unfolding t d by (simp only: append_assoc)
  moreover have "\<forall>c \<in> set ds. c \<noteq> CHR 0x00" using nz by (simp only: ds_def)
  ultimately have "c_str buf = ([CHR ''0'', CHR ''x''] @ ds) @ takeWhile (\<lambda>c. c \<noteq> CHR 0x00) [CHR 0x00]"
    unfolding c_str_def by (simp only:) (intro takeWhile_append2, auto)
  then have "c_str buf = [CHR ''0'', CHR ''x''] @ ds" by simp
  moreover have "length ds = sz * 2" by (simp add: ds_def lb)
  ultimately show ?thesis
    using buf lb val nz by (auto simp: NumberToHex_def str_def Let_def ds_def [symmetric])
qed

lemma NumberToHex_u64:
  "\<exists>buf. NumberToHex 8 (uint (w :: u64)) = Some buf \<and> length buf = 19
    \<and> length (c_str buf) = 18 \<and> take 2 (c_str buf) = [CHR ''0'', CHR ''x'']
    \<and> hex_value (drop 2 (c_str buf)) = uint w \<and> (\<forall>c \<in> set (c_str buf). c \<noteq> CHR 0x00)"
  using NumberToHex_nonneg [of "uint w" 8] unsigned_less [of w, where 'a = int] by simp

lemma NumberToHex_i32:
  assumes "0 \<le> sint (w :: u32)"
  shows "\<exists>buf. NumberToHex 4 (sint w) = Some buf \<and> length buf = 11
    \<and> length (c_str buf) = 10 \<and> take 2 (c_str buf) = [CHR ''0'', CHR ''x'']
    \<and> hex_value (drop 2 (c_str buf)) = sint w \<and> (\<forall>c \<in> set (c_str buf). c \<noteq> CHR 0x00)"
  using NumberToHex_nonneg [of "sint w" 4] assms sint_less [of w] by simp

text \<open>
  \<open>NumberToHex\<close> is a faithful rendering of every 64-bit value: \<open>0x\<close> and sixteen digits
  which read back give the value.
\<close>

lemma NumberToHex_roundtrip:
  "\<exists>buf. NumberToHex 8 (uint (w :: u64)) = Some buf \<and> length (c_str buf) = 18
    \<and> take 2 (c_str buf) = [CHR ''0'', CHR ''x''] \<and> hex_value (drop 2 (c_str buf)) = uint w"
  using NumberToHex_u64 [of w] by blast

subsection \<open>The crash key\<close>

lemma copy_strings_Some:
  assumes "offset + sum_list (map length strings) \<le> length buf"
  shows "copy_strings strings buf offset
    = Some (take offset buf @ concat strings @ drop (offset + sum_list (map length strings)) buf)"
  using assms
proof (induction strings arbitrary: buf offset)
  case (Cons s strings)
  let ?buf = "take offset buf @ s @ drop (offset + length s) buf"
  have len: "length ?buf = length buf" using Cons.prems by simp
  have "copy_strings strings ?buf (offset + length s)
      = Some (take (offset + length s) ?buf @ concat strings
          @ drop (offset + length s + sum_list (map length strings)) ?buf)"
    using Cons.prems by (intro Cons.IH) (simp add: len)
  then show ?case using Cons.prems by (simp add: memmove_def ac_simps)
qed simp

definition hex_text :: "nat \<Rightarrow> int \<Rightarrow> string" where
  "hex_text sz num = (case NumberToHex sz num of None \<Rightarrow> [] | Some buf \<Rightarrow> c_str buf)"

definition crash_key_text :: "arch_seccomp_data \<Rightarrow> string" where
  "crash_key_text args =
     concat (map2 (\<lambda>prefix v. prefix @ v) crash_key_prefixes
       [hex_text 4 (sint (sd_nr args)), hex_text 8 (uint (sd_args args ! 0)),
        hex_text 8 (uint (sd_args args ! 1)), hex_text 8 (uint (sd_args args ! 2)),
        hex_text 8 (uint (sd_args args ! 3))])"

lemma drop_replicate_Suc: "drop n (replicate (n + 1) x) = [x]"
  by (induction n) simp_all

lemma crash_key_fits:
  assumes "\<And>s. s \<in> set strings \<Longrightarrow> CHR 0x00 \<notin> set s"
  shows "copy_strings strings (replicate (sum_list (map length strings) + 1) (CHR 0x00)) 0
      = Some (concat strings @ [CHR 0x00])"
    and "c_str (concat strings @ [CHR 0x00]) = concat strings"
proof -
  show "copy_strings strings (replicate (sum_list (map length strings) + 1) (CHR 0x00)) 0
      = Some (concat strings @ [CHR 0x00])"
    by (subst copy_strings_Some)
      (simp_all only: take_0 append_Nil add_0 drop_replicate_Suc length_replicate le_add1)
  have "CHR 0x00 \<notin> set (concat strings)" using assms by auto
  then show "c_str (concat strings @ [CHR 0x00]) = concat strings"
    unfolding c_str_def by (subst takeWhile_append2) auto
qed

lemma crash_key_prefixes_nonzero: "list_all (\<lambda>s. CHR 0x00 \<notin> set s) crash_key_prefixes"
  by code_simp

lemma SetSeccompCrashKey_nonneg:
  assumes "0 \<le> sint (sd_nr args)"
  shows "SetSeccompCrashKey args p = Some (p\<lparr>rp_crash_key := Some (crash_key_text args)\<rparr>)"
proof -
  obtain b0 where b0: "NumberToHex 4 (sint (sd_nr args)) = Some b0" "length b0 = 11"
    "length (c_str b0) = 10" "CHR 0x00 \<notin> set (c_str b0)"
    using NumberToHex_i32 [OF assms] by auto
  have arg: "\<exists>b. NumberToHex 8 (uint (sd_args args ! i)) = Some b \<and> length b = 19
      \<and> length (c_str b) = 18 \<and> CHR 0x00 \<notin> set (c_str b)" for i
    using NumberToHex_u64 [of "sd_args args ! i"] by auto
  obtain b1 b2 b3 b4 where b: "NumberToHex 8 (uint (sd_args args ! 0)) = Some b1"
    "NumberToHex 8 (uint (sd_args args ! 1)) = Some b2"
    "NumberToHex 8 (uint (sd_args args ! 2)) = Some b3"
    "NumberToHex 8 (uint (sd_args args ! 3)) = Some b4"
    and l: "length b1 = 19" "length b2 = 19" "length b3 = 19" "length b4 = 19"
      "length (c_str b1) = 18" "length (c_str b2) = 18" "length (c_str b3) = 18" "length (c_str b4) = 18"
    and z: "CHR 0x00 \<notin> set (c_str b1)" "CHR 0x00 \<notin> set (c_str b2)" "CHR 0x00 \<notin> set (c_str b3)"
      "CHR 0x00 \<notin> set (c_str b4)"
    using arg [of 0] arg [of 1] arg [of 2] arg [of 3] by blast
  define vs where "vs = [c_str b0, c_str b1, c_str b2, c_str b3, c_str b4]"
  define strings where "strings = concat (map2 (\<lambda>prefix v. [prefix, v]) crash_key_prefixes vs)"
  obtain p0 p1 p2 p3 p4 where pre: "crash_key_prefixes = [p0, p1, p2, p3, p4]"
    by (simp add: crash_key_prefixes_def)
  have nz: "CHR 0x00 \<notin> set s" if "s \<in> set strings" for s
    using that crash_key_prefixes_nonzero b0 z by (auto simp: strings_def vs_def pre)
  have len: "(length b0 - 1) + (length b1 - 1) + (length b2 - 1) + (length b3 - 1) + (length b4 - 1)
      + sum_list (map length crash_key_prefixes) + 1 = sum_list (map length strings) + 1"
    using b0 l by (simp add: strings_def vs_def pre)
  have key: "concat strings = crash_key_text args"
    by (simp add: strings_def vs_def pre crash_key_text_def hex_text_def b b0 del: One_nat_def)
  have "SetSeccompCrashKey args p
      = Option.bind (copy_strings strings (replicate (sum_list (map length strings) + 1) (CHR 0x00)) 0)
          (\<lambda>crash_key. Some (p\<lparr>rp_crash_key := Some (c_str crash_key)\<rparr>))"
    unfolding SetSeccompCrashKey_def b b0(1) Option.bind.bind_lunit Let_def len
    by (simp only: strings_def vs_def)
  also have "\<dots> = Some (p\<lparr>rp_crash_key := Some (crash_key_text args)\<rparr>)"
    using crash_key_fits [of strings, OF nz] by (simp only: Option.bind.bind_lunit key)
  finally show ?thesis .
qed

text \<open>
  C40: Writing the crash key stays inside its buffer and renders the number and the first four
  arguments in full, but only when the system call number is not negative as an \<open>int\<close>; for a
  negative number \<open>NumberToHex<int>\<close> indexes \<open>kHexChars\<close> with a negative remainder.
\<close>

theorem SetSeccompCrashKey_defined_iff:
  "SetSeccompCrashKey args p =
     (if sint (sd_nr args) < 0 then None
      else Some (p\<lparr>rp_crash_key := Some (crash_key_text args)\<rparr>))"
proof (cases "sint (sd_nr args) < 0")
  case True
  have "- sint (sd_nr args) < 16 ^ (4 * 2)"
    using sint_ge [of "sd_nr args"] by simp
  then have "NumberToHex 4 (sint (sd_nr args)) = None"
    unfolding NumberToHex_def Let_def by (rule hex_loop_negative [OF True])
  then show ?thesis using True by (simp add: SetSeccompCrashKey_def)
next
  case False
  then show ?thesis by (simp add: SetSeccompCrashKey_nonneg)
qed

subsection \<open>What the handlers do\<close>

lemma crash_at_ends:
  "fst (crash_at k addrs p) = Exited 1 \<or> (\<exists>addr \<in> set addrs. fst (crash_at k addrs p) = Faulted addr)"
  "rp_crash_key (snd (crash_at k addrs p)) = rp_crash_key p"
  by (induction addrs arbitrary: p) auto

lemma with_crash_key_Returned:
  assumes "\<And>q. fst (f q) \<noteq> Returned v"
  shows "fst (with_crash_key args p f) \<noteq> Returned v"
  using assms by (simp add: with_crash_key_def split: option.splits)

lemma crash_at_Returned [simp]: "fst (crash_at k addrs p) \<noteq> Returned v"
  using crash_at_ends(1) [of k addrs p] by auto

lemma run_CrashSIGSYS_Returned: "fst (run_CrashSIGSYS_Handler k args p) \<noteq> Returned v"
  by (simp add: run_CrashSIGSYS_Handler_def with_crash_key_Returned Let_def)

text \<open>The fields of the address the handler faults at.\<close>

lemma offset_less: "SyscallNumberToOffsetFromBase n < 1024"
  by (simp add: SyscallNumberToOffsetFromBase_def not_le)

lemma bit_less_1024:
  assumes "(x :: u32) < 1024" and "bit x n"
  shows "n < 10"
proof (rule ccontr)
  assume "\<not> n < 10"
  have "unat x < 2 ^ 10" using assms(1) by (simp add: word_less_nat_alt)
  then have "take_bit 10 (unat x) = unat x" by (simp add: take_bit_nat_eq_self)
  then show False
    using assms(2) \<open>\<not> n < 10\<close> bit_take_bit_iff [of 10 "unat x" n] by (simp add: bit_unsigned_iff)
qed

lemma bit_low_masks:
  "bit (0xff :: u32) j \<longleftrightarrow> j < 8" "bit (0xff :: u64) j \<longleftrightarrow> j < 8" "bit (0xfff :: u32) j \<longleftrightarrow> j < 12"
proof -
  have "(0xff :: u32) = mask 8" "(0xff :: u64) = mask 8" "(0xfff :: u32) = mask 12"
    by (simp_all add: mask_eq_exp_minus_1)
  then have "bit (0xff :: u32) j \<longleftrightarrow> bit (mask 8 :: u32) j"
    "bit (0xff :: u64) j \<longleftrightarrow> bit (mask 8 :: u64) j" "bit (0xfff :: u32) j \<longleftrightarrow> bit (mask 12 :: u32) j"
    by (simp_all only:)
  then show "bit (0xff :: u32) j \<longleftrightarrow> j < 8" "bit (0xff :: u64) j \<longleftrightarrow> j < 8" "bit (0xfff :: u32) j \<longleftrightarrow> j < 12"
    by (simp_all only: bit_mask_iff) (auto simp: possible_bit_def)
qed

lemma bit_shifted_byte:
  assumes "k + 8 \<le> 32"
  shows "bit (ucast (push_bit k ((a :: u64) AND 0xff)) :: u32) n \<longleftrightarrow> k \<le> n \<and> n < k + 8 \<and> bit a (n - k)"
  using assms
  by (simp only: bit_unsigned_iff bit_push_bit_iff bit_and_iff bit_low_masks) (auto simp: possible_bit_def)

lemma bit_crash_address:
  "bit (crash_address args) n \<longleftrightarrow>
     n < 12 \<and> bit (SyscallNumberToOffsetFromBase (sd_nr args)) n
     \<or> 12 \<le> n \<and> n < 20 \<and> bit (sd_args args ! 0) (n - 12)
     \<or> 20 \<le> n \<and> n < 28 \<and> bit (sd_args args ! 1) (n - 20)"
proof -
  have "bit (SyscallNumberToOffsetFromBase (sd_nr args)) n \<Longrightarrow> n < 12"
    using bit_less_1024 [OF offset_less] by fastforce
  then show ?thesis
    unfolding crash_address_def by (simp only: bit_or_iff bit_shifted_byte) auto
qed

text \<open>
  \<open>CrashSIGSYS_Handler\<close> never returns: it ends the process at an address below 256 MiB which
  tells a crash dump the system call (0 for a number of 1024 or more) and the low byte of its
  first two arguments, or at that number, or by exiting; and the crash key holds the full
  arguments. The system call number must not be negative (see \<open>SetSeccompCrashKey_defined_iff\<close>).
\<close>

lemma CrashSIGSYS_reports:
  assumes "0 \<le> sint (sd_nr args)"
  shows "fst (run_CrashSIGSYS_Handler k args p)
      \<in> {Faulted (ucast (crash_address args)), Faulted (ucast (crash_address args AND 0xfff)), Exited 1}
    \<and> rp_crash_key (snd (run_CrashSIGSYS_Handler k args p)) = Some (crash_key_text args)
    \<and> crash_address args AND 0xfff = (if sd_nr args < 1024 then sd_nr args else 0)
    \<and> drop_bit 12 (crash_address args) AND 0xff = ucast (sd_args args ! 0 AND 0xff)
    \<and> drop_bit 20 (crash_address args) = ucast (sd_args args ! 1 AND 0xff)"
proof -
  have "crash_address args AND 0xfff = SyscallNumberToOffsetFromBase (sd_nr args)"
    using bit_less_1024 [OF offset_less [of "sd_nr args"]]
    by (intro bit_word_eqI) (simp only: bit_and_iff bit_crash_address bit_low_masks, fastforce)
  moreover have "drop_bit 12 (crash_address args) AND 0xff = ucast (sd_args args ! 0 AND 0xff)"
    by (intro bit_word_eqI)
      (simp only: bit_and_iff bit_crash_address bit_low_masks bit_drop_bit_eq bit_unsigned_iff comp_def,
       auto simp: possible_bit_def)
  moreover have "drop_bit 20 (crash_address args) = ucast (sd_args args ! 1 AND 0xff)"
    using bit_less_1024 [OF offset_less [of "sd_nr args"]]
    by (intro bit_word_eqI)
      (simp only: bit_and_iff bit_crash_address bit_low_masks bit_drop_bit_eq bit_unsigned_iff comp_def,
       auto simp: possible_bit_def)
  ultimately show ?thesis
    using crash_at_ends(1) [of k "[ucast (crash_address args), ucast (crash_address args AND 0xfff)]"]
    by (auto simp: run_CrashSIGSYS_Handler_def with_crash_key_def crash_at_ends(2) Let_def
        SetSeccompCrashKey_nonneg [OF assms] SyscallNumberToOffsetFromBase_def not_le)
qed

lemma CrashSIGSYS_reports_witness:
  "fst (run_CrashSIGSYS_Handler
      \<lparr>sys_write = \<lambda>m s. (int (length m), s), sys_gettid = 7, sys_getpid = 7, writable = \<lambda>a. False,
        syscall_call = \<lambda>n a. 0, source_file = []\<rparr>
      \<lparr>sd_nr = 41, sd_arch = 0, sd_instruction_pointer = 0, sd_args = [0x10, 2, 3, 4, 5, 6]\<rparr>
      \<lparr>rp_os = (), rp_stderr = [], rp_crash_key = None, rp_stores = []\<rparr>) \<noteq> OutOfBoundsRead
   \<and> crash_address \<lparr>sd_nr = 41, sd_arch = 0, sd_instruction_pointer = 0, sd_args = [0x10, 2, 3, 4, 5, 6]\<rparr>
       AND 0xfff = 41"
  using CrashSIGSYS_reports [of
      "\<lparr>sd_nr = 41, sd_arch = 0, sd_instruction_pointer = 0, sd_args = [0x10, 2, 3, 4, 5, 6]\<rparr>"
      "\<lparr>sys_write = \<lambda>m s. (int (length m), s), sys_gettid = 7, sys_getpid = 7, writable = \<lambda>a. False,
        syscall_call = \<lambda>n a. 0, source_file = []\<rparr>"
      "\<lparr>rp_os = (), rp_stderr = [], rp_crash_key = None, rp_stores = []\<rparr>"]
  by auto

text \<open>
  \<open>SIGSYSSchedHandler\<close> executes the trapped call in exactly one case, a scheduling call whose
  target is the calling thread's own id, and then on target 0, the caller itself. In every
  other case it does not return.
\<close>

lemma SIGSYSSchedHandler_rewrites:
  "fst (run_SIGSYSSchedHandler k args p) = Returned v \<longleftrightarrow>
     sint (sd_nr args) \<in> set sched_calls \<and> sd_args args ! 0 = of_int (sys_gettid k)
     \<and> v = syscall_call k (sd_nr args) (0 # drop 1 (sd_args args))"
  by (auto simp: run_SIGSYSSchedHandler_def run_CrashSIGSYS_Returned)

text \<open>The other handlers never return.\<close>

lemma crash_handlers_never_return:
  "fst (run_SIGSYSCloneFailure k args p) \<noteq> Returned v"
  "fst (run_SIGSYSPrctlFailure k args p) \<noteq> Returned v"
  "fst (run_SIGSYSIoctlFailure k args p) \<noteq> Returned v"
  "fst (run_SIGSYSKillFailure k args p) \<noteq> Returned v"
  "fst (run_SIGSYSFutexFailure k args p) \<noteq> Returned v"
  by (simp_all add: run_SIGSYSCloneFailure_def run_SIGSYSPrctlFailure_def run_SIGSYSIoctlFailure_def
      run_SIGSYSKillFailure_def run_SIGSYSFutexFailure_def with_crash_key_Returned Let_def)

end
