(* ===== verification/Param_Restrictions.thy ===== *)
theory Param_Restrictions
  imports Sigsys_Handlers
begin

text \<open>
  The restrictions on system call parameters of
  \<^verbatim>\<open>seccomp-bpf-helpers/syscall_parameters_restrictions.cc\<close>, for x86-64 Linux with glibc:
  each function builds the result expression for one system call or family. After the
  functions comes what each expression decides, as a condition on the registers.
\<close>

subsection \<open>Constants of the C library\<close>

abbreviation (input) EPERM :: int where "EPERM \<equiv> 1"
abbreviation (input) EINVAL :: int where "EINVAL \<equiv> 22"
abbreviation (input) CLONE_VM :: u64 where "CLONE_VM \<equiv> 0x100"
abbreviation (input) CLONE_FS :: u64 where "CLONE_FS \<equiv> 0x200"
abbreviation (input) CLONE_FILES :: u64 where "CLONE_FILES \<equiv> 0x400"
abbreviation (input) CLONE_SIGHAND :: u64 where "CLONE_SIGHAND \<equiv> 0x800"
abbreviation (input) CLONE_THREAD :: u64 where "CLONE_THREAD \<equiv> 0x10000"
abbreviation (input) CLONE_SYSVSEM :: u64 where "CLONE_SYSVSEM \<equiv> 0x40000"
abbreviation (input) CLONE_SETTLS :: u64 where "CLONE_SETTLS \<equiv> 0x80000"
abbreviation (input) CLONE_PARENT_SETTID :: u64 where "CLONE_PARENT_SETTID \<equiv> 0x100000"
abbreviation (input) CLONE_CHILD_CLEARTID :: u64 where "CLONE_CHILD_CLEARTID \<equiv> 0x200000"
abbreviation (input) CLONE_DETACHED :: u64 where "CLONE_DETACHED \<equiv> 0x400000"
abbreviation (input) PR_GET_DUMPABLE :: int where "PR_GET_DUMPABLE \<equiv> 3"
abbreviation (input) PR_SET_DUMPABLE :: int where "PR_SET_DUMPABLE \<equiv> 4"
abbreviation (input) PR_SET_NAME :: int where "PR_SET_NAME \<equiv> 15"
abbreviation (input) PR_GET_NAME :: int where "PR_GET_NAME \<equiv> 16"
abbreviation (input) TCGETS :: int where "TCGETS \<equiv> 0x5401"
abbreviation (input) FIONREAD :: int where "FIONREAD \<equiv> 0x541B"
abbreviation (input) MAP_SHARED :: u64 where "MAP_SHARED \<equiv> 0x1"
abbreviation (input) MAP_PRIVATE :: u64 where "MAP_PRIVATE \<equiv> 0x2"
abbreviation (input) MAP_FIXED :: u64 where "MAP_FIXED \<equiv> 0x10"
abbreviation (input) MAP_ANONYMOUS :: u64 where "MAP_ANONYMOUS \<equiv> 0x20"
abbreviation (input) MAP_DENYWRITE :: u64 where "MAP_DENYWRITE \<equiv> 0x800"
abbreviation (input) MAP_NORESERVE :: u64 where "MAP_NORESERVE \<equiv> 0x4000"
abbreviation (input) MAP_STACK :: u64 where "MAP_STACK \<equiv> 0x20000"
abbreviation (input) PROT_READ :: u64 where "PROT_READ \<equiv> 0x1"
abbreviation (input) PROT_WRITE :: u64 where "PROT_WRITE \<equiv> 0x2"
abbreviation (input) PROT_EXEC :: u64 where "PROT_EXEC \<equiv> 0x4"
abbreviation (input) O_ACCMODE :: u64 where "O_ACCMODE \<equiv> 0x3"
abbreviation (input) O_APPEND :: u64 where "O_APPEND \<equiv> 0x400"
abbreviation (input) O_NONBLOCK :: u64 where "O_NONBLOCK \<equiv> 0x800"
abbreviation (input) O_LARGEFILE :: u64 where "O_LARGEFILE \<equiv> 0"
abbreviation (input) O_NOATIME :: u64 where "O_NOATIME \<equiv> 0x40000"
abbreviation (input) O_CLOEXEC :: u64 where "O_CLOEXEC \<equiv> 0x80000"
abbreviation (input) O_SYNC :: u64 where "O_SYNC \<equiv> 0x101000"
abbreviation (input) F_DUPFD :: int where "F_DUPFD \<equiv> 0"
abbreviation (input) F_GETFD :: int where "F_GETFD \<equiv> 1"
abbreviation (input) F_SETFD :: int where "F_SETFD \<equiv> 2"
abbreviation (input) F_GETFL :: int where "F_GETFL \<equiv> 3"
abbreviation (input) F_SETFL :: int where "F_SETFL \<equiv> 4"
abbreviation (input) F_GETLK :: int where "F_GETLK \<equiv> 5"
abbreviation (input) F_SETLK :: int where "F_SETLK \<equiv> 6"
abbreviation (input) F_SETLKW :: int where "F_SETLKW \<equiv> 7"
abbreviation (input) F_DUPFD_CLOEXEC :: int where "F_DUPFD_CLOEXEC \<equiv> 1030"
abbreviation (input) PRIO_PROCESS :: int where "PRIO_PROCESS \<equiv> 0"
abbreviation (input) RUSAGE_SELF :: int where "RUSAGE_SELF \<equiv> 0"
abbreviation (input) CLOCK_REALTIME :: int where "CLOCK_REALTIME \<equiv> 0"
abbreviation (input) CLOCK_MONOTONIC :: int where "CLOCK_MONOTONIC \<equiv> 1"
abbreviation (input) CLOCK_PROCESS_CPUTIME_ID :: int where "CLOCK_PROCESS_CPUTIME_ID \<equiv> 2"
abbreviation (input) CLOCK_THREAD_CPUTIME_ID :: int where "CLOCK_THREAD_CPUTIME_ID \<equiv> 3"
abbreviation (input) GRND_NONBLOCK :: u32 where "GRND_NONBLOCK \<equiv> 1"

subsection \<open>The platform\<close>

abbreviation (input) IsArchitectureX86_64 :: bool where "IsArchitectureX86_64 \<equiv> True"
abbreviation (input) IsArchitectureI386 :: bool where "IsArchitectureI386 \<equiv> False"
abbreviation (input) IsAndroid :: bool where "IsAndroid \<equiv> False"
abbreviation (input) IsArchitectureMips :: bool where "IsArchitectureMips \<equiv> False"
abbreviation (input) IsBuggyGlibcSemPost :: bool where "IsBuggyGlibcSemPost \<equiv> True"

subsection \<open>The restrictions\<close>

text \<open>\<open>Arg<int>\<close>, \<open>Arg<pid_t>\<close> and their like have size 4, \<open>Arg<long>\<close> and its like size 8.\<close>

definition kAndroidCloneMask :: u64 where
  "kAndroidCloneMask =
     CLONE_VM OR CLONE_FS OR CLONE_FILES OR CLONE_SIGHAND OR CLONE_THREAD OR CLONE_SYSVSEM"

definition kObsoleteAndroidCloneMask :: u64 where
  "kObsoleteAndroidCloneMask = kAndroidCloneMask OR CLONE_DETACHED"

definition kGlibcPthreadFlags :: u64 where
  "kGlibcPthreadFlags =
     CLONE_VM OR CLONE_FS OR CLONE_FILES OR CLONE_SIGHAND OR CLONE_THREAD OR CLONE_SYSVSEM
       OR CLONE_SETTLS OR CLONE_PARENT_SETTID OR CLONE_CHILD_CLEARTID"

definition RestrictCloneToThreadsAndEPERMFork :: "abort + result_expr" where
  "RestrictCloneToThreadsAndEPERMFork =
     (let flags = Arg 8 0;
          glibc_test = arg_eq flags (uint kGlibcPthreadFlags);
          android_test = AnyOf [arg_eq flags (uint kAndroidCloneMask),
            arg_eq flags (uint kObsoleteAndroidCloneMask), arg_eq flags (uint kGlibcPthreadFlags)]
      in Else (ElseIf (bpf_If (if IsAndroid then android_test else glibc_test) Allow)
                (arg_eq (arg_and flags (CLONE_VM OR CLONE_THREAD)) 0) (Error EPERM))
           CrashSIGSYSClone)"

definition RestrictPrctl :: "abort + result_expr" where
  "RestrictPrctl =
     (let option = Arg 4 0
      in Default (CasesImpl (Switch option)
           [PR_GET_NAME, PR_SET_NAME, PR_GET_DUMPABLE, PR_SET_DUMPABLE] Allow) CrashSIGSYSPrctl)"

definition RestrictIoctl :: "abort + result_expr" where
  "RestrictIoctl =
     (let request = Arg 4 1
      in Default (CasesImpl (Switch request) [TCGETS, FIONREAD] Allow) CrashSIGSYSIoctl)"

definition mmap_kAllowedMask :: u64 where
  "mmap_kAllowedMask =
     MAP_SHARED OR MAP_PRIVATE OR MAP_ANONYMOUS OR MAP_STACK OR MAP_NORESERVE OR MAP_FIXED
       OR MAP_DENYWRITE"

definition RestrictMmapFlags :: "abort + result_expr" where
  "RestrictMmapFlags =
     (let flags = Arg 4 3
      in Else (bpf_If (arg_eq (arg_and flags (NOT mmap_kAllowedMask)) 0) Allow) CrashSIGSYS)"

definition mprotect_kAllowedMask :: u64 where
  "mprotect_kAllowedMask = PROT_READ OR PROT_WRITE OR PROT_EXEC"

definition RestrictMprotectFlags :: "abort + result_expr" where
  "RestrictMprotectFlags =
     (let prot = Arg 4 2
      in Else (bpf_If (arg_eq (arg_and prot (NOT mprotect_kAllowedMask)) 0) Allow) CrashSIGSYS)"

definition kOLargeFileFlag :: u64 where
  "kOLargeFileFlag =
     (if IsArchitectureX86_64 \<or> IsArchitectureI386 \<or> IsArchitectureMips then 0x8000 else O_LARGEFILE)"

definition fcntl_kAllowedMask :: u64 where
  "fcntl_kAllowedMask =
     O_ACCMODE OR O_APPEND OR O_NONBLOCK OR O_SYNC OR kOLargeFileFlag OR O_CLOEXEC OR O_NOATIME"

definition RestrictFcntlCommands :: "abort + result_expr" where
  "RestrictFcntlCommands =
     (let cmd = Arg 4 1; long_arg = Arg 8 2
      in Default
           (Case
             (CasesImpl (Switch cmd)
               [F_GETFL, F_GETFD, F_SETFD, F_SETLK, F_SETLKW, F_GETLK, F_DUPFD, F_DUPFD_CLOEXEC]
               Allow)
             F_SETFL
             (Else (bpf_If (arg_eq (arg_and long_arg (NOT fcntl_kAllowedMask)) 0) Allow) CrashSIGSYS))
           CrashSIGSYS)"

definition RestrictKillTarget :: "int \<Rightarrow> int \<Rightarrow> abort + result_expr" where
  "RestrictKillTarget target_pid sysno =
     (if sysno = NR_kill \<or> sysno = NR_tgkill then
        (let pid = Arg 4 0
         in Else (bpf_If (arg_eq pid target_pid) Allow) CrashSIGSYSKill)
      else if sysno = NR_tkill then CrashSIGSYSKill
      else CrashSIGSYS)"

definition kAllowedFutexFlags :: u64 where
  "kAllowedFutexFlags = of_int (FUTEX_PRIVATE_FLAG OR FUTEX_CLOCK_REALTIME)"

definition RestrictFutex :: "abort + result_expr" where
  "RestrictFutex =
     (let op = Arg 4 1
      in Default
           (CasesImpl (Switch (arg_and op (NOT kAllowedFutexFlags)))
             [FUTEX_WAIT, FUTEX_WAKE, FUTEX_REQUEUE, FUTEX_CMP_REQUEUE, FUTEX_WAKE_OP,
              FUTEX_WAIT_BITSET, FUTEX_WAKE_BITSET] Allow)
           (if IsBuggyGlibcSemPost then Error EINVAL else CrashSIGSYSFutex))"

definition RestrictGetSetpriority :: "int \<Rightarrow> abort + result_expr" where
  "RestrictGetSetpriority target_pid =
     (let which = Arg 4 0; who = Arg 4 1
      in Else (bpf_If (arg_eq which PRIO_PROCESS)
                (Default (CasesImpl (Switch who) [0, target_pid] Allow) (Error EPERM)))
           CrashSIGSYS)"

definition RestrictSchedTarget :: "int \<Rightarrow> int \<Rightarrow> abort + result_expr" where
  "RestrictSchedTarget target_pid sysno =
     (if sysno \<in> set [NR_sched_getaffinity, NR_sched_getattr, NR_sched_getparam,
           NR_sched_getscheduler, NR_sched_rr_get_interval, NR_sched_setaffinity,
           NR_sched_setattr, NR_sched_setparam, NR_sched_setscheduler] then
        (let pid = Arg 4 0
         in Default (CasesImpl (Switch pid) [0, target_pid] Allow) RewriteSchedSIGSYS)
      else CrashSIGSYS)"

definition RestrictPrlimit64 :: "int \<Rightarrow> abort + result_expr" where
  "RestrictPrlimit64 target_pid =
     (let pid = Arg 4 0 in Default (CasesImpl (Switch pid) [0, target_pid] Allow) CrashSIGSYS)"

definition RestrictGetrusage :: "abort + result_expr" where
  "RestrictGetrusage =
     (let who = Arg 4 0 in Else (bpf_If (arg_eq who RUSAGE_SELF) Allow) CrashSIGSYS)"

definition RestrictClockID :: "abort + result_expr" where
  "RestrictClockID =
     (let clockid = Arg 4 0
      in Default (CasesImpl (Switch clockid)
           [CLOCK_MONOTONIC, CLOCK_MONOTONIC_COARSE, CLOCK_PROCESS_CPUTIME_ID, CLOCK_REALTIME,
            CLOCK_REALTIME_COARSE, CLOCK_THREAD_CPUTIME_ID] Allow) CrashSIGSYS)"

definition kGoodFlags :: u32 where "kGoodFlags = GRND_NONBLOCK"

definition RestrictGetRandom :: "abort + result_expr" where
  "RestrictGetRandom =
     (let flags = Arg 4 2
      in Else (bpf_If (arg_eq (arg_and flags (ucast (NOT kGoodFlags))) 0) Allow) CrashSIGSYS)"

definition RestrictPrlimitToGetrlimit :: "int \<Rightarrow> abort + result_expr" where
  "RestrictPrlimitToGetrlimit target_pid =
     (let pid = Arg 4 0; new_limit = Arg 8 2
      in Else (bpf_If (AllOf [arg_eq new_limit 0, AnyOf [arg_eq pid 0, arg_eq pid target_pid]]) Allow)
           (Error EPERM))"

subsection \<open>What the expressions decide\<close>

definition OAllow :: outcome where "OAllow = OReturn SECCOMP_RET_ALLOW"
definition OErrno :: "int \<Rightarrow> outcome" where "OErrno err = OReturn (SECCOMP_RET_ERRNO + of_int err)"
definition OCrash :: "trap_fnc \<Rightarrow> outcome" where "OCrash f = OTrap f NULL True"

text \<open>
  \<open>decides x d out\<close>: the expression was built and decides the system call \<open>d\<close> as \<open>out\<close>;
  \<open>None\<close> is the panic on an ill-formed 32-bit argument.
\<close>

definition decides :: "abort + result_expr \<Rightarrow> arch_seccomp_data \<Rightarrow> outcome option \<Rightarrow> bool" where
  "decides x d out \<longleftrightarrow> (\<exists>r. x = Inr r \<and> eval_result d r = out)"

text \<open>The condition on an argument of type \<open>int\<close>: \<open>None\<close> when it is ill-formed.\<close>

definition on_int_arg :: "arch_seccomp_data \<Rightarrow> nat \<Rightarrow> (u32 \<Rightarrow> outcome option) \<Rightarrow> outcome option" where
  "on_int_arg d n f = (if valid_32bit (sd_args d ! n) then f (lo32 (sd_args d ! n)) else None)"

lemma lo32_numeral [simp]: "lo32 (numeral k) = numeral k" "lo32 0 = 0" "lo32 1 = 1"
  by (rule bit_word_eqI, simp add: bit_lo32 bit_numeral_word_iff bit_1_iff)+

lemma lo32_not [simp]: "lo32 (NOT x) = NOT (lo32 x)"
  by (rule bit_word_eqI) (auto simp: bit_lo32 bit_simps)

lemma lo32_or [simp]: "lo32 (x OR y) = lo32 x OR lo32 y"
  by (rule bit_word_eqI) (auto simp: bit_lo32 bit_simps)

declare lo32_and [simp]

lemmas decide_simps = decides_def on_int_arg_def OAllow_def OErrno_def OCrash_def dsl_defs crash_defs
  check_def Let_def

lemma RestrictMmapFlags_decides:
  "decides RestrictMmapFlags d (on_int_arg d 3 (\<lambda>flags.
     Some (if flags AND NOT (lo32 mmap_kAllowedMask) = 0 then OAllow else OCrash CrashSIGSYS_Handler)))"
  by (simp add: RestrictMmapFlags_def decide_simps)

lemma RestrictMprotectFlags_decides:
  "decides RestrictMprotectFlags d (on_int_arg d 2 (\<lambda>prot.
     Some (if prot AND NOT (lo32 mprotect_kAllowedMask) = 0 then OAllow else OCrash CrashSIGSYS_Handler)))"
  by (simp add: RestrictMprotectFlags_def decide_simps)

lemma RestrictKillTarget_decides:
  "sysno = NR_kill \<or> sysno = NR_tgkill \<Longrightarrow>
   decides (RestrictKillTarget target_pid sysno) d (on_int_arg d 0 (\<lambda>pid.
     Some (if pid = of_int target_pid then OAllow else OCrash SIGSYSKillFailure)))"
  "decides (RestrictKillTarget target_pid NR_tkill) d (Some (OCrash SIGSYSKillFailure))"
  by (auto simp add: RestrictKillTarget_def decide_simps)

lemma RestrictClone_decides:
  "decides RestrictCloneToThreadsAndEPERMFork d (Some
     (if sd_args d ! 0 = kGlibcPthreadFlags then OAllow
      else if sd_args d ! 0 AND (CLONE_VM OR CLONE_THREAD) = 0 then OErrno EPERM
      else OCrash SIGSYSCloneFailure))"
  by (simp add: RestrictCloneToThreadsAndEPERMFork_def decide_simps)

lemma RestrictPrctl_decides:
  "decides RestrictPrctl d (on_int_arg d 0 (\<lambda>option.
     Some (if option \<in> {3, 4, 15, 16} then OAllow else OCrash SIGSYSPrctlFailure)))"
  by (simp add: RestrictPrctl_def decide_simps)

lemma RestrictIoctl_decides:
  "decides RestrictIoctl d (on_int_arg d 1 (\<lambda>request.
     Some (if request \<in> {0x5401, 0x541B} then OAllow else OCrash SIGSYSIoctlFailure)))"
  by (simp add: RestrictIoctl_def decide_simps)

lemma RestrictFcntlCommands_decides:
  "decides RestrictFcntlCommands d (on_int_arg d 1 (\<lambda>cmd.
     Some (if cmd \<in> {0, 1, 2, 3, 5, 6, 7, 1030} then OAllow
           else if cmd = 4 \<and> sd_args d ! 2 AND NOT fcntl_kAllowedMask = 0 then OAllow
           else OCrash CrashSIGSYS_Handler)))"
  by (simp add: RestrictFcntlCommands_def decide_simps)

lemma RestrictFutex_decides:
  "decides RestrictFutex d (on_int_arg d 1 (\<lambda>op.
     Some (if op AND NOT (lo32 kAllowedFutexFlags) \<in> {0, 1, 3, 4, 5, 9, 10} then OAllow
           else OErrno EINVAL)))"
  by (simp add: RestrictFutex_def decide_simps)

lemma RestrictGetSetpriority_decides:
  "decides (RestrictGetSetpriority target_pid) d (on_int_arg d 0 (\<lambda>which.
     if which = 0 then on_int_arg d 1 (\<lambda>who.
       Some (if who = 0 \<or> who = of_int target_pid then OAllow else OErrno EPERM))
     else Some (OCrash CrashSIGSYS_Handler)))"
  by (simp add: RestrictGetSetpriority_def decide_simps)

lemma RestrictSchedTarget_decides:
  "sysno \<in> set sched_calls \<Longrightarrow>
   decides (RestrictSchedTarget target_pid sysno) d (on_int_arg d 0 (\<lambda>pid.
     Some (if pid = 0 \<or> pid = of_int target_pid then OAllow else OCrash SIGSYSSchedHandler)))"
  by (simp add: RestrictSchedTarget_def sched_calls_def decide_simps)

lemma RestrictPrlimit64_decides:
  "decides (RestrictPrlimit64 target_pid) d (on_int_arg d 0 (\<lambda>pid.
     Some (if pid = 0 \<or> pid = of_int target_pid then OAllow else OCrash CrashSIGSYS_Handler)))"
  by (simp add: RestrictPrlimit64_def decide_simps)

lemma RestrictGetrusage_decides:
  "decides RestrictGetrusage d (on_int_arg d 0 (\<lambda>who.
     Some (if who = 0 then OAllow else OCrash CrashSIGSYS_Handler)))"
  by (simp add: RestrictGetrusage_def decide_simps)

lemma RestrictClockID_decides:
  "decides RestrictClockID d (on_int_arg d 0 (\<lambda>clockid.
     Some (if clockid \<in> {0, 1, 2, 3, 5, 6} then OAllow else OCrash CrashSIGSYS_Handler)))"
  by (simp add: RestrictClockID_def decide_simps)

lemma RestrictGetRandom_decides:
  "decides RestrictGetRandom d (on_int_arg d 2 (\<lambda>flags.
     Some (if flags AND NOT kGoodFlags = 0 then OAllow else OCrash CrashSIGSYS_Handler)))"
  by (simp add: RestrictGetRandom_def decide_simps)

lemma RestrictPrlimitToGetrlimit_decides:
  "decides (RestrictPrlimitToGetrlimit target_pid) d
     (if sd_args d ! 2 = 0 then on_int_arg d 0 (\<lambda>pid.
        Some (if pid = 0 \<or> pid = of_int target_pid then OAllow else OErrno EPERM))
      else Some (OErrno EPERM))"
  by (simp add: RestrictPrlimitToGetrlimit_def decide_simps)

end
