(* ===== verification/Syscall_Sets.thy ===== *)
theory Syscall_Sets
  imports Syscall_Numbers
begin

text \<open>
  The classification of system calls of \<^verbatim>\<open>seccomp-bpf-helpers/syscall_sets.cc\<close>, x86-64
  branch. Each predicate is a C++ \<open>switch\<close>: its labels are kept in groups, in order, with the
  value each group returns, the calls the code lists only to comment on them included. The
  theory ends with the claim of the file's first comment, that the sets form a partition.
\<close>

subsection \<open>Switches\<close>

type_synonym switch_cases = "(int list \<times> bool) list"

text \<open>The value of the group that has the label, \<open>false\<close> at \<open>default\<close>.\<close>

fun switch_bool :: "switch_cases \<Rightarrow> int \<Rightarrow> bool" where
  "switch_bool [] sysno = False"
| "switch_bool ((labels, ret) # rest) sysno =
     (if sysno \<in> set labels then ret else switch_bool rest sysno)"

definition case_labels :: "switch_cases \<Rightarrow> int list" where
  "case_labels cases = concat (map fst cases)"

subsection \<open>The sets\<close>

definition IsKill_cases :: switch_cases where
  "IsKill_cases =
     [([NR_kill, NR_tgkill, NR_tkill], True)]"

definition IsKill :: "int \<Rightarrow> bool" where
  "IsKill sysno = switch_bool IsKill_cases sysno"

definition IsAllowedGettime_cases :: switch_cases where
  "IsAllowedGettime_cases =
     [([NR_gettimeofday, NR_time], True),
      ([NR_adjtimex, NR_clock_adjtime, NR_clock_getres, NR_clock_gettime, NR_clock_nanosleep,
       NR_clock_settime, NR_settimeofday], False)]"

definition IsAllowedGettime :: "int \<Rightarrow> bool" where
  "IsAllowedGettime sysno = switch_bool IsAllowedGettime_cases sysno"

definition IsCurrentDirectory_cases :: switch_cases where
  "IsCurrentDirectory_cases =
     [([NR_getcwd, NR_chdir, NR_fchdir], True)]"

definition IsCurrentDirectory :: "int \<Rightarrow> bool" where
  "IsCurrentDirectory sysno = switch_bool IsCurrentDirectory_cases sysno"

definition IsUmask_cases :: switch_cases where
  "IsUmask_cases =
     [([NR_umask], True)]"

definition IsUmask :: "int \<Rightarrow> bool" where
  "IsUmask sysno = switch_bool IsUmask_cases sysno"

definition IsFileSystem_cases :: switch_cases where
  "IsFileSystem_cases =
     [([NR_access, NR_chmod, NR_chown, NR_creat, NR_futimesat, NR_lchown, NR_link, NR_lstat,
       NR_mkdir, NR_mknod, NR_open, NR_readlink, NR_rename, NR_rmdir, NR_stat, NR_symlink,
       NR_unlink, NR_uselib, NR_ustat, NR_utimes, NR_execve, NR_faccessat, NR_fchmodat,
       NR_fchownat, NR_newfstatat, NR_linkat, NR_lookup_dcookie, NR_memfd_create, NR_mkdirat,
       NR_mknodat, NR_openat, NR_readlinkat, NR_renameat, NR_renameat2, NR_statfs,
       NR_symlinkat, NR_truncate, NR_unlinkat, NR_utime, NR_utimensat], True)]"

definition IsFileSystem :: "int \<Rightarrow> bool" where
  "IsFileSystem sysno = switch_bool IsFileSystem_cases sysno"

definition IsAllowedFileSystemAccessViaFd_cases :: switch_cases where
  "IsAllowedFileSystemAccessViaFd_cases =
     [([NR_fstat], True),
      ([NR_fadvise64, NR_fdatasync, NR_flock, NR_fstatfs, NR_fsync, NR_sync_file_range], False)]"

definition IsAllowedFileSystemAccessViaFd :: "int \<Rightarrow> bool" where
  "IsAllowedFileSystemAccessViaFd sysno = switch_bool IsAllowedFileSystemAccessViaFd_cases sysno"

definition IsDeniedFileSystemAccessViaFd_cases :: switch_cases where
  "IsDeniedFileSystemAccessViaFd_cases =
     [([NR_fallocate, NR_fchmod, NR_fchown, NR_ftruncate, NR_getdents, NR_getdents64], True)]"

definition IsDeniedFileSystemAccessViaFd :: "int \<Rightarrow> bool" where
  "IsDeniedFileSystemAccessViaFd sysno = switch_bool IsDeniedFileSystemAccessViaFd_cases sysno"

definition IsGetSimpleId_cases :: switch_cases where
  "IsGetSimpleId_cases =
     [([NR_capget, NR_getegid, NR_geteuid, NR_getgid, NR_getgroups, NR_getpid, NR_getppid,
       NR_getresgid, NR_getsid, NR_gettid, NR_getuid, NR_getresuid], True)]"

definition IsGetSimpleId :: "int \<Rightarrow> bool" where
  "IsGetSimpleId sysno = switch_bool IsGetSimpleId_cases sysno"

definition IsProcessPrivilegeChange_cases :: switch_cases where
  "IsProcessPrivilegeChange_cases =
     [([NR_capset, NR_ioperm, NR_iopl, NR_setfsgid, NR_setfsuid, NR_setgid, NR_setgroups,
       NR_setregid, NR_setresgid, NR_setresuid, NR_setreuid, NR_setuid], True)]"

definition IsProcessPrivilegeChange :: "int \<Rightarrow> bool" where
  "IsProcessPrivilegeChange sysno = switch_bool IsProcessPrivilegeChange_cases sysno"

definition IsProcessGroupOrSession_cases :: switch_cases where
  "IsProcessGroupOrSession_cases =
     [([NR_setpgid, NR_getpgrp, NR_setsid, NR_getpgid], True)]"

definition IsProcessGroupOrSession :: "int \<Rightarrow> bool" where
  "IsProcessGroupOrSession sysno = switch_bool IsProcessGroupOrSession_cases sysno"

definition IsAllowedSignalHandling_cases :: switch_cases where
  "IsAllowedSignalHandling_cases =
     [([NR_rt_sigaction, NR_rt_sigprocmask, NR_rt_sigreturn], True),
      ([NR_rt_sigpending, NR_rt_sigqueueinfo, NR_rt_sigsuspend, NR_rt_sigtimedwait,
       NR_rt_tgsigqueueinfo, NR_sigaltstack, NR_signalfd, NR_signalfd4], False)]"

definition IsAllowedSignalHandling :: "int \<Rightarrow> bool" where
  "IsAllowedSignalHandling sysno = switch_bool IsAllowedSignalHandling_cases sysno"

definition IsAllowedOperationOnFd_cases :: switch_cases where
  "IsAllowedOperationOnFd_cases =
     [([NR_close, NR_dup, NR_dup2, NR_dup3, NR_shutdown], True),
      ([NR_fcntl], False)]"

definition IsAllowedOperationOnFd :: "int \<Rightarrow> bool" where
  "IsAllowedOperationOnFd sysno = switch_bool IsAllowedOperationOnFd_cases sysno"

definition IsKernelInternalApi_cases :: switch_cases where
  "IsKernelInternalApi_cases =
     [([NR_restart_syscall], True)]"

definition IsKernelInternalApi :: "int \<Rightarrow> bool" where
  "IsKernelInternalApi sysno = switch_bool IsKernelInternalApi_cases sysno"

definition IsAllowedProcessStartOrDeath_cases :: switch_cases where
  "IsAllowedProcessStartOrDeath_cases =
     [([NR_exit, NR_exit_group, NR_wait4, NR_waitid], True),
      ([NR_clone, NR_setns, NR_fork, NR_get_thread_area, NR_set_thread_area, NR_set_tid_address,
       NR_unshare, NR_vfork], False)]"

definition IsAllowedProcessStartOrDeath :: "int \<Rightarrow> bool" where
  "IsAllowedProcessStartOrDeath sysno = switch_bool IsAllowedProcessStartOrDeath_cases sysno"

definition IsAllowedFutex_cases :: switch_cases where
  "IsAllowedFutex_cases =
     [([NR_get_robust_list, NR_set_robust_list, NR_futex], False)]"

definition IsAllowedFutex :: "int \<Rightarrow> bool" where
  "IsAllowedFutex sysno = switch_bool IsAllowedFutex_cases sysno"

definition IsAllowedEpoll_cases :: switch_cases where
  "IsAllowedEpoll_cases =
     [([NR_epoll_create, NR_epoll_wait, NR_epoll_pwait, NR_epoll_create1, NR_epoll_ctl], True),
      ([NR_epoll_ctl_old, NR_epoll_wait_old], False)]"

definition IsAllowedEpoll :: "int \<Rightarrow> bool" where
  "IsAllowedEpoll sysno = switch_bool IsAllowedEpoll_cases sysno"

definition IsAllowedGetOrModifySocket_cases :: switch_cases where
  "IsAllowedGetOrModifySocket_cases =
     [([NR_pipe, NR_pipe2], True),
      ([NR_socketpair], False)]"

definition IsAllowedGetOrModifySocket :: "int \<Rightarrow> bool" where
  "IsAllowedGetOrModifySocket sysno = switch_bool IsAllowedGetOrModifySocket_cases sysno"

definition IsDeniedGetOrModifySocket_cases :: switch_cases where
  "IsDeniedGetOrModifySocket_cases =
     [([NR_accept, NR_accept4, NR_bind, NR_connect, NR_socket, NR_listen], True)]"

definition IsDeniedGetOrModifySocket :: "int \<Rightarrow> bool" where
  "IsDeniedGetOrModifySocket sysno = switch_bool IsDeniedGetOrModifySocket_cases sysno"

definition IsNetworkSocketInformation_cases :: switch_cases where
  "IsNetworkSocketInformation_cases =
     [([NR_getpeername, NR_getsockname, NR_getsockopt, NR_setsockopt], True)]"

definition IsNetworkSocketInformation :: "int \<Rightarrow> bool" where
  "IsNetworkSocketInformation sysno = switch_bool IsNetworkSocketInformation_cases sysno"

definition IsAllowedAddressSpaceAccess_cases :: switch_cases where
  "IsAllowedAddressSpaceAccess_cases =
     [([NR_brk, NR_mlock, NR_munlock, NR_munmap], True),
      ([NR_madvise, NR_mincore, NR_mlockall, NR_mmap, NR_modify_ldt, NR_mprotect, NR_mremap,
       NR_msync, NR_munlockall, NR_readahead, NR_remap_file_pages], False)]"

definition IsAllowedAddressSpaceAccess :: "int \<Rightarrow> bool" where
  "IsAllowedAddressSpaceAccess sysno = switch_bool IsAllowedAddressSpaceAccess_cases sysno"

definition IsAllowedGeneralIo_cases :: switch_cases where
  "IsAllowedGeneralIo_cases =
     [([NR_lseek, NR_poll, NR_ppoll, NR_pselect6, NR_read, NR_readv, NR_recvfrom, NR_recvmsg,
       NR_select, NR_sendmsg, NR_sendto, NR_write, NR_writev], True),
      ([NR_ioctl, NR_pread64, NR_preadv, NR_pwrite64, NR_pwritev, NR_recvmmsg, NR_sendfile,
       NR_sendmmsg, NR_splice, NR_tee, NR_vmsplice], False)]"

definition IsAllowedGeneralIo :: "int \<Rightarrow> bool" where
  "IsAllowedGeneralIo sysno = switch_bool IsAllowedGeneralIo_cases sysno"

definition IsPrctl_cases :: switch_cases where
  "IsPrctl_cases =
     [([NR_arch_prctl, NR_prctl], True)]"

definition IsPrctl :: "int \<Rightarrow> bool" where
  "IsPrctl sysno = switch_bool IsPrctl_cases sysno"

definition IsSeccomp_cases :: switch_cases where
  "IsSeccomp_cases =
     [([NR_seccomp], True)]"

definition IsSeccomp :: "int \<Rightarrow> bool" where
  "IsSeccomp sysno = switch_bool IsSeccomp_cases sysno"

definition IsAllowedBasicScheduler_cases :: switch_cases where
  "IsAllowedBasicScheduler_cases =
     [([NR_sched_yield, NR_pause, NR_nanosleep], True),
      ([NR_getpriority, NR_setpriority], False)]"

definition IsAllowedBasicScheduler :: "int \<Rightarrow> bool" where
  "IsAllowedBasicScheduler sysno = switch_bool IsAllowedBasicScheduler_cases sysno"

definition IsAdminOperation_cases :: switch_cases where
  "IsAdminOperation_cases =
     [([NR_kexec_load, NR_reboot, NR_setdomainname, NR_sethostname, NR_syslog], True)]"

definition IsAdminOperation :: "int \<Rightarrow> bool" where
  "IsAdminOperation sysno = switch_bool IsAdminOperation_cases sysno"

definition IsKernelModule_cases :: switch_cases where
  "IsKernelModule_cases =
     [([NR_create_module, NR_get_kernel_syms, NR_query_module, NR_delete_module, NR_init_module,
       NR_finit_module], True)]"

definition IsKernelModule :: "int \<Rightarrow> bool" where
  "IsKernelModule sysno = switch_bool IsKernelModule_cases sysno"

definition IsGlobalFSViewChange_cases :: switch_cases where
  "IsGlobalFSViewChange_cases =
     [([NR_pivot_root, NR_chroot, NR_sync], True)]"

definition IsGlobalFSViewChange :: "int \<Rightarrow> bool" where
  "IsGlobalFSViewChange sysno = switch_bool IsGlobalFSViewChange_cases sysno"

definition IsFsControl_cases :: switch_cases where
  "IsFsControl_cases =
     [([NR_mount, NR_nfsservctl, NR_quotactl, NR_swapoff, NR_swapon, NR_umount2], True)]"

definition IsFsControl :: "int \<Rightarrow> bool" where
  "IsFsControl sysno = switch_bool IsFsControl_cases sysno"

definition IsNuma_cases :: switch_cases where
  "IsNuma_cases =
     [([NR_get_mempolicy, NR_getcpu, NR_mbind, NR_migrate_pages, NR_move_pages, NR_set_mempolicy], True)]"

definition IsNuma :: "int \<Rightarrow> bool" where
  "IsNuma sysno = switch_bool IsNuma_cases sysno"

definition IsMessageQueue_cases :: switch_cases where
  "IsMessageQueue_cases =
     [([NR_mq_getsetattr, NR_mq_notify, NR_mq_open, NR_mq_timedreceive, NR_mq_timedsend,
       NR_mq_unlink], True)]"

definition IsMessageQueue :: "int \<Rightarrow> bool" where
  "IsMessageQueue sysno = switch_bool IsMessageQueue_cases sysno"

definition IsGlobalProcessEnvironment_cases :: switch_cases where
  "IsGlobalProcessEnvironment_cases =
     [([NR_acct, NR_getrlimit, NR_getrusage, NR_personality, NR_prlimit64, NR_setrlimit, NR_times], True)]"

definition IsGlobalProcessEnvironment :: "int \<Rightarrow> bool" where
  "IsGlobalProcessEnvironment sysno = switch_bool IsGlobalProcessEnvironment_cases sysno"

definition IsDebug_cases :: switch_cases where
  "IsDebug_cases =
     [([NR_ptrace, NR_process_vm_readv, NR_process_vm_writev, NR_kcmp], True)]"

definition IsDebug :: "int \<Rightarrow> bool" where
  "IsDebug sysno = switch_bool IsDebug_cases sysno"

definition IsGlobalSystemStatus_cases :: switch_cases where
  "IsGlobalSystemStatus_cases =
     [([NR__sysctl, NR_sysfs, NR_sysinfo, NR_uname], True)]"

definition IsGlobalSystemStatus :: "int \<Rightarrow> bool" where
  "IsGlobalSystemStatus sysno = switch_bool IsGlobalSystemStatus_cases sysno"

definition IsEventFd_cases :: switch_cases where
  "IsEventFd_cases =
     [([NR_eventfd, NR_eventfd2], True)]"

definition IsEventFd :: "int \<Rightarrow> bool" where
  "IsEventFd sysno = switch_bool IsEventFd_cases sysno"

definition IsAsyncIo_cases :: switch_cases where
  "IsAsyncIo_cases =
     [([NR_io_cancel, NR_io_destroy, NR_io_getevents, NR_io_setup, NR_io_submit], True)]"

definition IsAsyncIo :: "int \<Rightarrow> bool" where
  "IsAsyncIo sysno = switch_bool IsAsyncIo_cases sysno"

definition IsKeyManagement_cases :: switch_cases where
  "IsKeyManagement_cases =
     [([NR_add_key, NR_keyctl, NR_request_key], True)]"

definition IsKeyManagement :: "int \<Rightarrow> bool" where
  "IsKeyManagement sysno = switch_bool IsKeyManagement_cases sysno"

definition IsSystemVSemaphores_cases :: switch_cases where
  "IsSystemVSemaphores_cases =
     [([NR_semctl, NR_semget, NR_semop, NR_semtimedop], True)]"

definition IsSystemVSemaphores :: "int \<Rightarrow> bool" where
  "IsSystemVSemaphores sysno = switch_bool IsSystemVSemaphores_cases sysno"

definition IsSystemVSharedMemory_cases :: switch_cases where
  "IsSystemVSharedMemory_cases =
     [([NR_shmat, NR_shmctl, NR_shmdt, NR_shmget], True)]"

definition IsSystemVSharedMemory :: "int \<Rightarrow> bool" where
  "IsSystemVSharedMemory sysno = switch_bool IsSystemVSharedMemory_cases sysno"

definition IsSystemVMessageQueue_cases :: switch_cases where
  "IsSystemVMessageQueue_cases =
     [([NR_msgctl, NR_msgget, NR_msgrcv, NR_msgsnd], True)]"

definition IsSystemVMessageQueue :: "int \<Rightarrow> bool" where
  "IsSystemVMessageQueue sysno = switch_bool IsSystemVMessageQueue_cases sysno"

text \<open>On x86-64 only the calls that are not multiplexed through \<^verbatim>\<open>ipc\<close> exist.\<close>

definition IsAnySystemV :: "int \<Rightarrow> bool" where
  "IsAnySystemV sysno \<longleftrightarrow>
     IsSystemVMessageQueue sysno \<or> IsSystemVSemaphores sysno \<or> IsSystemVSharedMemory sysno"

definition IsAdvancedScheduler_cases :: switch_cases where
  "IsAdvancedScheduler_cases =
     [([NR_ioprio_get, NR_ioprio_set, NR_sched_get_priority_max, NR_sched_get_priority_min,
       NR_sched_getaffinity, NR_sched_getattr, NR_sched_getparam, NR_sched_getscheduler,
       NR_sched_rr_get_interval, NR_sched_setaffinity, NR_sched_setattr, NR_sched_setparam,
       NR_sched_setscheduler], True)]"

definition IsAdvancedScheduler :: "int \<Rightarrow> bool" where
  "IsAdvancedScheduler sysno = switch_bool IsAdvancedScheduler_cases sysno"

definition IsInotify_cases :: switch_cases where
  "IsInotify_cases =
     [([NR_inotify_add_watch, NR_inotify_init, NR_inotify_init1, NR_inotify_rm_watch], True)]"

definition IsInotify :: "int \<Rightarrow> bool" where
  "IsInotify sysno = switch_bool IsInotify_cases sysno"

definition IsFaNotify_cases :: switch_cases where
  "IsFaNotify_cases =
     [([NR_fanotify_init, NR_fanotify_mark], True)]"

definition IsFaNotify :: "int \<Rightarrow> bool" where
  "IsFaNotify sysno = switch_bool IsFaNotify_cases sysno"

definition IsTimer_cases :: switch_cases where
  "IsTimer_cases =
     [([NR_getitimer, NR_alarm, NR_setitimer], True)]"

definition IsTimer :: "int \<Rightarrow> bool" where
  "IsTimer sysno = switch_bool IsTimer_cases sysno"

definition IsAdvancedTimer_cases :: switch_cases where
  "IsAdvancedTimer_cases =
     [([NR_timer_create, NR_timer_delete, NR_timer_getoverrun, NR_timer_gettime,
       NR_timer_settime, NR_timerfd_create, NR_timerfd_gettime, NR_timerfd_settime], True)]"

definition IsAdvancedTimer :: "int \<Rightarrow> bool" where
  "IsAdvancedTimer sysno = switch_bool IsAdvancedTimer_cases sysno"

definition IsExtendedAttributes_cases :: switch_cases where
  "IsExtendedAttributes_cases =
     [([NR_fgetxattr, NR_flistxattr, NR_fremovexattr, NR_fsetxattr, NR_getxattr, NR_lgetxattr,
       NR_listxattr, NR_llistxattr, NR_lremovexattr, NR_lsetxattr, NR_removexattr, NR_setxattr], True)]"

definition IsExtendedAttributes :: "int \<Rightarrow> bool" where
  "IsExtendedAttributes sysno = switch_bool IsExtendedAttributes_cases sysno"

definition IsMisc_cases :: switch_cases where
  "IsMisc_cases =
     [([NR_getrandom, NR_name_to_handle_at, NR_open_by_handle_at, NR_perf_event_open, NR_syncfs,
       NR_vhangup, NR_afs_syscall, NR_getpmsg, NR_putpmsg, NR_security, NR_tuxcall, NR_vserver], True)]"

definition IsMisc :: "int \<Rightarrow> bool" where
  "IsMisc sysno = switch_bool IsMisc_cases sysno"

subsection \<open>All of them\<close>

lemmas syscall_set_defs =
  IsKill_def IsAllowedGettime_def IsCurrentDirectory_def IsUmask_def IsFileSystem_def
  IsAllowedFileSystemAccessViaFd_def IsDeniedFileSystemAccessViaFd_def IsGetSimpleId_def
  IsProcessPrivilegeChange_def IsProcessGroupOrSession_def IsAllowedSignalHandling_def
  IsAllowedOperationOnFd_def IsKernelInternalApi_def IsAllowedProcessStartOrDeath_def
  IsAllowedFutex_def IsAllowedEpoll_def IsAllowedGetOrModifySocket_def
  IsDeniedGetOrModifySocket_def IsNetworkSocketInformation_def
  IsAllowedAddressSpaceAccess_def IsAllowedGeneralIo_def IsPrctl_def IsSeccomp_def
  IsAllowedBasicScheduler_def IsAdminOperation_def IsKernelModule_def
  IsGlobalFSViewChange_def IsFsControl_def IsNuma_def IsMessageQueue_def
  IsGlobalProcessEnvironment_def IsDebug_def IsGlobalSystemStatus_def IsEventFd_def
  IsAsyncIo_def IsKeyManagement_def IsSystemVSemaphores_def IsSystemVSharedMemory_def
  IsSystemVMessageQueue_def IsAdvancedScheduler_def IsInotify_def IsFaNotify_def
  IsTimer_def IsAdvancedTimer_def IsExtendedAttributes_def IsMisc_def IsAnySystemV_def

lemmas syscall_set_cases_defs =
  IsKill_cases_def IsAllowedGettime_cases_def IsCurrentDirectory_cases_def
  IsUmask_cases_def IsFileSystem_cases_def IsAllowedFileSystemAccessViaFd_cases_def
  IsDeniedFileSystemAccessViaFd_cases_def IsGetSimpleId_cases_def
  IsProcessPrivilegeChange_cases_def IsProcessGroupOrSession_cases_def
  IsAllowedSignalHandling_cases_def IsAllowedOperationOnFd_cases_def
  IsKernelInternalApi_cases_def IsAllowedProcessStartOrDeath_cases_def
  IsAllowedFutex_cases_def IsAllowedEpoll_cases_def IsAllowedGetOrModifySocket_cases_def
  IsDeniedGetOrModifySocket_cases_def IsNetworkSocketInformation_cases_def
  IsAllowedAddressSpaceAccess_cases_def IsAllowedGeneralIo_cases_def IsPrctl_cases_def
  IsSeccomp_cases_def IsAllowedBasicScheduler_cases_def IsAdminOperation_cases_def
  IsKernelModule_cases_def IsGlobalFSViewChange_cases_def IsFsControl_cases_def
  IsNuma_cases_def IsMessageQueue_cases_def IsGlobalProcessEnvironment_cases_def
  IsDebug_cases_def IsGlobalSystemStatus_cases_def IsEventFd_cases_def IsAsyncIo_cases_def
  IsKeyManagement_cases_def IsSystemVSemaphores_cases_def IsSystemVSharedMemory_cases_def
  IsSystemVMessageQueue_cases_def IsAdvancedScheduler_cases_def IsInotify_cases_def
  IsFaNotify_cases_def IsTimer_cases_def IsAdvancedTimer_cases_def
  IsExtendedAttributes_cases_def IsMisc_cases_def

definition syscall_set_cases :: "switch_cases list" where
  "syscall_set_cases =
     [IsKill_cases, IsAllowedGettime_cases, IsCurrentDirectory_cases, IsUmask_cases,
      IsFileSystem_cases, IsAllowedFileSystemAccessViaFd_cases,
      IsDeniedFileSystemAccessViaFd_cases, IsGetSimpleId_cases, IsProcessPrivilegeChange_cases,
      IsProcessGroupOrSession_cases, IsAllowedSignalHandling_cases,
      IsAllowedOperationOnFd_cases, IsKernelInternalApi_cases,
      IsAllowedProcessStartOrDeath_cases, IsAllowedFutex_cases, IsAllowedEpoll_cases,
      IsAllowedGetOrModifySocket_cases, IsDeniedGetOrModifySocket_cases,
      IsNetworkSocketInformation_cases, IsAllowedAddressSpaceAccess_cases,
      IsAllowedGeneralIo_cases, IsPrctl_cases, IsSeccomp_cases, IsAllowedBasicScheduler_cases,
      IsAdminOperation_cases, IsKernelModule_cases, IsGlobalFSViewChange_cases,
      IsFsControl_cases, IsNuma_cases, IsMessageQueue_cases, IsGlobalProcessEnvironment_cases,
      IsDebug_cases, IsGlobalSystemStatus_cases, IsEventFd_cases, IsAsyncIo_cases,
      IsKeyManagement_cases, IsSystemVSemaphores_cases, IsSystemVSharedMemory_cases,
      IsSystemVMessageQueue_cases, IsAdvancedScheduler_cases, IsInotify_cases,
      IsFaNotify_cases, IsTimer_cases, IsAdvancedTimer_cases, IsExtendedAttributes_cases,
      IsMisc_cases]"

definition syscall_set_predicates :: "(int \<Rightarrow> bool) list" where
  "syscall_set_predicates =
     [IsKill, IsAllowedGettime, IsCurrentDirectory, IsUmask, IsFileSystem,
      IsAllowedFileSystemAccessViaFd, IsDeniedFileSystemAccessViaFd, IsGetSimpleId,
      IsProcessPrivilegeChange, IsProcessGroupOrSession, IsAllowedSignalHandling,
      IsAllowedOperationOnFd, IsKernelInternalApi, IsAllowedProcessStartOrDeath,
      IsAllowedFutex, IsAllowedEpoll, IsAllowedGetOrModifySocket, IsDeniedGetOrModifySocket,
      IsNetworkSocketInformation, IsAllowedAddressSpaceAccess, IsAllowedGeneralIo, IsPrctl,
      IsSeccomp, IsAllowedBasicScheduler, IsAdminOperation, IsKernelModule,
      IsGlobalFSViewChange, IsFsControl, IsNuma, IsMessageQueue, IsGlobalProcessEnvironment,
      IsDebug, IsGlobalSystemStatus, IsEventFd, IsAsyncIo, IsKeyManagement,
      IsSystemVSemaphores, IsSystemVSharedMemory, IsSystemVMessageQueue, IsAdvancedScheduler,
      IsInotify, IsFaNotify, IsTimer, IsAdvancedTimer, IsExtendedAttributes, IsMisc]"

definition syscall_set_labels :: "int list" where
  "syscall_set_labels = concat (map case_labels syscall_set_cases)"

subsection \<open>The partition\<close>

lemma switch_bool_labels: "switch_bool cases n \<Longrightarrow> n \<in> set (case_labels cases)"
  by (induction cases n rule: switch_bool.induct) (auto simp: case_labels_def split: if_splits)

text \<open>With distinct labels, at most one of the switches returns true.\<close>

lemma switch_bool_unique:
  assumes "distinct (concat (map case_labels css))"
  shows "length (filter (\<lambda>cs. switch_bool cs n) css) \<le> 1"
  using assms
proof (induction css)
  case (Cons cs css)
  then show ?case
  proof (cases "switch_bool cs n")
    case True
    have "filter (\<lambda>cs. switch_bool cs n) css = []"
      using Cons.prems switch_bool_labels [OF True] switch_bool_labels [of _ n]
      by (auto simp: filter_empty_conv)
    then show ?thesis using True by simp
  qed simp
qed simp

lemma syscall_set_predicates_cases:
  "syscall_set_predicates = map switch_bool syscall_set_cases"
  by (simp add: syscall_set_predicates_def syscall_set_cases_def syscall_set_defs fun_eq_iff)

text \<open>
  The labels are 320 distinct numbers between 0 and 319, so each of these occurs once.
\<close>

lemmas syscall_set_labels_simps =
  syscall_set_labels_def syscall_set_cases_def case_labels_def syscall_set_cases_defs

lemma syscall_set_labels_distinct: "distinct syscall_set_labels"
  by (simp add: syscall_set_labels_simps)

lemma syscall_set_labels_length: "length syscall_set_labels = 320"
  by (simp add: syscall_set_labels_simps)

lemma syscall_set_labels_bound: "list_all (\<lambda>n. 0 \<le> n \<and> n \<le> 319) syscall_set_labels"
  by (simp add: syscall_set_labels_simps)

lemma syscall_table_upto: "syscall_table = [0..319]"
  by code_simp

lemma syscall_set_labels_set: "set syscall_set_labels = set syscall_table"
proof -
  have "set syscall_set_labels \<subseteq> {0..319}"
    using syscall_set_labels_bound by (auto simp: list_all_iff)
  moreover have "card (set syscall_set_labels) = 320"
    by (simp only: distinct_card [OF syscall_set_labels_distinct] syscall_set_labels_length)
  ultimately have "set syscall_set_labels = {0..319}" by (intro card_subset_eq) simp_all
  then show ?thesis unfolding syscall_table_upto set_upto .
qed

text \<open>
  "The functions below cover all existing system calls [and] form a partition": every system
  call of x86-64 is a case label of exactly one of the functions, no label occurs twice, and no
  number whatever satisfies two of the predicates.
\<close>

lemma syscall_sets_partition:
  "distinct syscall_set_labels \<and> set syscall_set_labels = set syscall_table
    \<and> (\<forall>sysno. length (filter (\<lambda>is_set. is_set sysno) syscall_set_predicates) \<le> 1)"
  using switch_bool_unique [of syscall_set_cases] syscall_set_labels_set syscall_set_labels_distinct
  by (simp add: syscall_set_predicates_cases filter_map comp_def syscall_set_labels_def)

end
