(* ===== verification/Thread_Helpers.thy ===== *)
theory Thread_Helpers
  imports Prelude
begin

text \<open>
  Is the process single-threaded? \<^verbatim>\<open>services/thread_helpers.cc\<close> counts the entries of
  \<^verbatim>\<open>/proc/self/task\<close> and polls with an exponential back-off until the count is right. What
  the kernel answers is a parameter; calls that reach it are logged. The part that starts and
  stops threads of \<^verbatim>\<open>base\<close> is not here.
\<close>

subsection \<open>Logged calls\<close>

text \<open>
  An operation that makes system calls returns them in order, and then aborts or yields a
  result. The descriptor \<open>-1\<close> is the invalid one.
\<close>

type_synonym sys_fd = int
type_synonym ('c, 'a) logged = "'c list \<times> (abort + 'a)"

definition log_return :: "'a \<Rightarrow> ('c, 'a) logged" where
  "log_return x = ([], Inr x)"

definition log_call :: "'c \<Rightarrow> ('c, unit) logged" where
  "log_call c = ([c], Inr ())"

definition log_lift :: "abort + 'a \<Rightarrow> ('c, 'a) logged" where
  "log_lift r = ([], r)"

definition log_bind :: "('c, 'a) logged \<Rightarrow> ('a \<Rightarrow> ('c, 'b) logged) \<Rightarrow> ('c, 'b) logged" where
  "log_bind m f =
     (case snd m of Inl e \<Rightarrow> (fst m, Inl e) | Inr x \<Rightarrow> (fst m @ fst (f x), snd (f x)))"

lemma log_bind_return [simp]: "log_bind (log_return x) f = f x"
  by (simp add: log_bind_def log_return_def)

lemma log_bind_call [simp]: "log_bind (log_call c) f = (c # fst (f ()), snd (f ()))"
  by (simp add: log_bind_def log_call_def)

lemma log_bind_lift [simp]:
  "log_bind (log_lift (Inl e)) f = ([], Inl e)" "log_bind (log_lift (Inr x)) f = f x"
  by (simp_all add: log_bind_def log_lift_def)

lemma snd_log_bind: "snd (log_bind m f) = res_bind (snd m) (\<lambda>x. snd (f x))"
  by (cases "snd m") (simp_all add: log_bind_def)

lemma log_bindE:
  assumes "log_bind m f = (es, Inr y)"
  obtains es1 x es2 where "m = (es1, Inr x)" and "f x = (es2, Inr y)" and "es = es1 @ es2"
proof (cases "snd m")
  case (Inr x)
  then show thesis
    using assms by (intro that [of "fst m" x "fst (f x)"]) (auto simp: log_bind_def prod_eq_iff)
qed (use assms in \<open>simp add: log_bind_def\<close>)

subsection \<open>Polling\<close>

text \<open>
  The kernel's answer to the \<open>n\<close>th \<open>fstatat\<close> of \<^verbatim>\<open>self/task/\<close>: the return value and the link
  count.
\<close>

type_synonym task_stats = "nat \<Rightarrow> int \<times> nat"

datatype thread_call = StatTask sys_fd | Nanosleep nat

definition IsSingleThreadedImpl :: "task_stats \<Rightarrow> nat \<Rightarrow> sys_fd \<Rightarrow> (thread_call, bool) logged" where
  "IsSingleThreadedImpl stats n proc_fd =
     log_bind (log_lift (check (0 \<le> proc_fd) ''0 <= proc_fd'')) (\<lambda>_.
     log_bind (log_call (StatTask proc_fd)) (\<lambda>_.
     let (fstat_ret, st_nlink) = stats n in
     log_bind (log_lift (check (0 = fstat_ret) ''0 == fstat_ret'')) (\<lambda>_.
     log_bind (log_lift (check (3 \<le> st_nlink) ''3UL <= task_stat.st_nlink'')) (\<lambda>_.
     log_return (st_nlink = 3)))))"

definition IsSingleThreaded :: "task_stats \<Rightarrow> nat \<Rightarrow> sys_fd \<Rightarrow> (thread_call, bool) logged" where
  "IsSingleThreaded stats n proc_fd = IsSingleThreadedImpl stats n proc_fd"

definition IsMultiThreaded :: "task_stats \<Rightarrow> nat \<Rightarrow> sys_fd \<Rightarrow> (thread_call, bool) logged" where
  "IsMultiThreaded stats n proc_fd =
     log_bind (IsSingleThreaded stats n proc_fd) (\<lambda>b. log_return (\<not> b))"

text \<open>\<open>NDEBUG\<close> is defined in release builds.\<close>

definition kMaxIterations :: "bool \<Rightarrow> nat" where
  "kMaxIterations NDEBUG = (if NDEBUG then 30 else 25)"

text \<open>
  \<open>cb i\<close> is the \<open>i\<close>th run of the callback; \<open>nanosleep\<close> succeeds in the end, as
  \<open>HANDLE_EINTR\<close> retries it. \<open>LOG(FATAL)\<close> ends the process.
\<close>

function run_while_true ::
    "nat \<Rightarrow> (nat \<Rightarrow> (thread_call, bool) logged) \<Rightarrow> string \<Rightarrow> nat \<Rightarrow> (thread_call, unit) logged" where
  "run_while_true kMax cb message i =
     (if i < kMax then
        log_bind (cb i) (\<lambda>b.
        if \<not> b then log_return ()
        else log_bind (log_call (Nanosleep (push_bit i 1))) (\<lambda>_.
          run_while_true kMax cb message (i + 1)))
      else log_lift (Inl (CheckFailed message)))"
  by pat_completeness auto
termination
  by (relation "measure (\<lambda>(kMax, cb, message, i). kMax - i)") auto

definition RunWhileTrue ::
    "bool \<Rightarrow> (nat \<Rightarrow> (thread_call, bool) logged) \<Rightarrow> string \<Rightarrow> (thread_call, unit) logged" where
  "RunWhileTrue NDEBUG cb message = run_while_true (kMaxIterations NDEBUG) cb message 0"

definition kAssertSingleThreadedError :: string where
  "kAssertSingleThreadedError = ''Current process is not mono-threaded!''"

definition AssertSingleThreaded :: "bool \<Rightarrow> task_stats \<Rightarrow> sys_fd \<Rightarrow> (thread_call, unit) logged" where
  "AssertSingleThreaded NDEBUG stats proc_fd =
     RunWhileTrue NDEBUG (\<lambda>i. IsMultiThreaded stats i proc_fd) kAssertSingleThreadedError"

declare run_while_true.simps [simp del]

subsection \<open>What polling guarantees\<close>

definition slept :: "thread_call list \<Rightarrow> nat" where
  "slept es = sum_list (map (\<lambda>e. case e of Nanosleep t \<Rightarrow> t | StatTask fd \<Rightarrow> 0) es)"

lemma slept_append [simp]: "slept (xs @ ys) = slept xs + slept ys"
  by (simp add: slept_def)

lemma IsMultiThreaded_cases:
  "IsMultiThreaded stats n fd =
     (if fd < 0 then ([], Inl (CheckFailed ''0 <= proc_fd''))
      else ([StatTask fd],
        if fst (stats n) \<noteq> 0 then Inl (CheckFailed ''0 == fstat_ret'')
        else if snd (stats n) < 3 then Inl (CheckFailed ''3UL <= task_stat.st_nlink'')
        else Inr (snd (stats n) \<noteq> 3)))"
  by (simp add: IsMultiThreaded_def IsSingleThreaded_def IsSingleThreadedImpl_def log_bind_def
      log_lift_def log_call_def log_return_def check_def split: prod.splits)

lemma run_while_true_return:
  assumes "run_while_true kMax (\<lambda>i. IsMultiThreaded stats i fd) msg i = (es, Inr ())"
  shows "\<exists>n. i \<le> n \<and> n < kMax \<and> stats n = (0, 3) \<and> slept es + 2 ^ i = 2 ^ n
    \<and> (\<forall>m. i \<le> m \<longrightarrow> m < n \<longrightarrow> fst (stats m) = 0 \<and> 3 < snd (stats m))"
  using assms
proof (induction "kMax - i" arbitrary: i es)
  case 0
  then show ?case by (simp add: run_while_true.simps log_lift_def)
next
  case (Suc k)
  then have "i < kMax" by simp
  with Suc.prems show ?case
  proof (cases "stats i = (0, 3)")
    case True
    with Suc.prems \<open>i < kMax\<close> have "es = [StatTask fd]"
      by (auto simp: run_while_true.simps [of kMax _ _ i] IsMultiThreaded_cases log_bind_def log_return_def
          split: if_splits)
    then show ?thesis using True \<open>i < kMax\<close> by (intro exI [of _ i]) (simp add: slept_def)
  next
    case False
    with Suc.prems \<open>i < kMax\<close> obtain es' where
      rec: "run_while_true kMax (\<lambda>i. IsMultiThreaded stats i fd) msg (i + 1) = (es', Inr ())"
      and es: "es = StatTask fd # Nanosleep (2 ^ i) # es'"
      and here: "fst (stats i) = 0" "3 < snd (stats i)"
      by (auto simp: run_while_true.simps [of kMax _ _ i] IsMultiThreaded_cases log_bind_def log_return_def
          log_call_def prod_eq_iff push_bit_eq_mult split: if_splits sum.splits)
    obtain n where n: "i + 1 \<le> n" "n < kMax" "stats n = (0, 3)" "slept es' + 2 ^ (i + 1) = 2 ^ n"
      "\<forall>m. i + 1 \<le> m \<longrightarrow> m < n \<longrightarrow> fst (stats m) = 0 \<and> 3 < snd (stats m)"
    proof -
      have "k = kMax - (i + 1)" using Suc.hyps(2) by simp
      from Suc.hyps(1) [OF this rec] show thesis using that by blast
    qed
    have "slept es + 2 ^ i = 2 ^ n" using n(4) es by (simp add: slept_def)
    moreover have "\<forall>m. i \<le> m \<longrightarrow> m < n \<longrightarrow> fst (stats m) = 0 \<and> 3 < snd (stats m)"
      using n(5) here by (metis Suc_eq_plus1 le_antisym not_less_eq_eq)
    ultimately show ?thesis using n by (intro exI [of _ n]) auto
  qed
qed

lemma run_while_true_total:
  assumes "i \<le> n" and "n < kMax" and "stats n = (0, 3)" and "0 \<le> fd"
    and "\<forall>m. i \<le> m \<longrightarrow> m < n \<longrightarrow> fst (stats m) = 0 \<and> 3 \<le> snd (stats m)"
  shows "\<exists>es. run_while_true kMax (\<lambda>i. IsMultiThreaded stats i fd) msg i = (es, Inr ())"
  using assms
proof (induction "n - i" arbitrary: i)
  case 0
  then have "i = n" by simp
  with 0 show ?case
    by (simp add: run_while_true.simps [of kMax _ _ n] IsMultiThreaded_cases log_bind_def log_return_def)
next
  case (Suc k)
  have "k = n - (i + 1)" "i + 1 \<le> n" using Suc.hyps(2) by simp_all
  then obtain es where "run_while_true kMax (\<lambda>i. IsMultiThreaded stats i fd) msg (i + 1) = (es, Inr ())"
    using Suc.hyps(1) [of "i + 1"] Suc.prems by auto
  moreover have "fst (stats i) = 0" "3 \<le> snd (stats i)" "i < kMax" using Suc.prems Suc.hyps(2) by auto
  ultimately show ?case using Suc.prems
    by (cases "snd (stats i) = 3")
       (auto simp: run_while_true.simps [of kMax _ _ i] IsMultiThreaded_cases log_bind_def log_return_def log_call_def)
qed

lemma AssertSingleThreaded_returns_iff:
  "(\<exists>es. AssertSingleThreaded NDEBUG stats fd = (es, Inr ())) \<longleftrightarrow>
     0 \<le> fd \<and> (\<exists>n < kMaxIterations NDEBUG. stats n = (0, 3)
       \<and> (\<forall>m < n. fst (stats m) = 0 \<and> 3 \<le> snd (stats m)))"
  (is "?l \<longleftrightarrow> ?r")
proof
  assume ?l
  then obtain es where es: "run_while_true (kMaxIterations NDEBUG) (\<lambda>i. IsMultiThreaded stats i fd)
      kAssertSingleThreadedError 0 = (es, Inr ())"
    by (auto simp: AssertSingleThreaded_def RunWhileTrue_def)
  then have "0 \<le> fd"
    by (auto simp: run_while_true.simps IsMultiThreaded_cases log_bind_def log_lift_def split: if_splits)
  with run_while_true_return [OF es] show ?r by (auto intro: less_imp_le)
next
  assume ?r
  then show ?l
    unfolding AssertSingleThreaded_def RunWhileTrue_def using run_while_true_total by blast
qed

lemma run_while_true_gives_up:
  assumes "0 \<le> fd" and "\<forall>m < kMax. fst (stats m) = 0 \<and> 3 < snd (stats m)" and "i \<le> kMax"
  shows "\<exists>es. run_while_true kMax (\<lambda>i. IsMultiThreaded stats i fd) msg i = (es, Inl (CheckFailed msg))
    \<and> slept es + 2 ^ i = 2 ^ kMax"
  using assms
proof (induction "kMax - i" arbitrary: i)
  case 0
  then show ?case by (simp add: run_while_true.simps log_lift_def slept_def)
next
  case (Suc k)
  have "k = kMax - (i + 1)" "i < kMax" using Suc.hyps(2) by simp_all
  then obtain es where "run_while_true kMax (\<lambda>i. IsMultiThreaded stats i fd) msg (i + 1) = (es, Inl (CheckFailed msg))"
    "slept es + 2 ^ (i + 1) = 2 ^ kMax"
    using Suc.hyps(1) [of "i + 1"] Suc.prems by auto
  then show ?case using Suc.prems \<open>i < kMax\<close>
    by (auto simp: run_while_true.simps [of kMax _ _ i] IsMultiThreaded_cases log_bind_def log_return_def
        log_call_def slept_def push_bit_eq_mult)
qed

text \<open>
  The back-off of \<open>RunWhileTrue\<close>. If the kernel starts to report a single thread once
  \<open>T\<close> nanoseconds have been slept, \<open>AssertSingleThreaded\<close> either returns after sleeping at most
  \<open>2 * T\<close>, "twice as much as the bare minimum", or, when \<open>T\<close> is not reached by the last poll,
  aborts after exactly \<open>2 ^ kMaxIterations - 1\<close> nanoseconds: 1.07 s in release builds and 33.6 ms
  in debug builds, half of what the comments in the code say.
\<close>

lemma AssertSingleThreaded_backoff:
  assumes "0 \<le> fd" and "\<forall>i. fst (stats i) = 0 \<and> 3 \<le> snd (stats i) \<and> (snd (stats i) = 3 \<longleftrightarrow> T < 2 ^ i)"
  shows "if T < 2 ^ (kMaxIterations NDEBUG - 1)
    then \<exists>es. AssertSingleThreaded NDEBUG stats fd = (es, Inr ()) \<and> slept es \<le> 2 * T
    else \<exists>es. AssertSingleThreaded NDEBUG stats fd = (es, Inl (CheckFailed kAssertSingleThreadedError))
      \<and> slept es = 2 ^ kMaxIterations NDEBUG - 1"
proof (cases "T < 2 ^ (kMaxIterations NDEBUG - 1)")
  case True
  have "stats (kMaxIterations NDEBUG - 1) = (0, 3)" "kMaxIterations NDEBUG - 1 < kMaxIterations NDEBUG"
    using assms(2) True by (auto simp: prod_eq_iff kMaxIterations_def)
  then have "\<exists>es. AssertSingleThreaded NDEBUG stats fd = (es, Inr ())"
    unfolding AssertSingleThreaded_returns_iff using assms by blast
  then obtain es where es: "AssertSingleThreaded NDEBUG stats fd = (es, Inr ())" by blast
  then obtain n where n: "slept es + 1 = 2 ^ n" "\<forall>m < n. 3 < snd (stats m)"
    using run_while_true_return unfolding AssertSingleThreaded_def RunWhileTrue_def
    by (metis power_0 zero_le)
  have "slept es \<le> 2 * T"
  proof (cases n)
    case (Suc m)
    then have "2 ^ m \<le> T" using n(2) assms(2) by (metis lessI linorder_not_less)
    then show ?thesis using n(1) Suc by simp
  qed (use n in simp)
  then show ?thesis using True es by auto
next
  case False
  have "3 < snd (stats m)" if "m < kMaxIterations NDEBUG" for m
  proof -
    have "(2 :: nat) ^ m \<le> 2 ^ (kMaxIterations NDEBUG - 1)" using that by (intro power_increasing) simp_all
    then show ?thesis using False assms(2) by (metis le_less linorder_not_less order_le_less_trans)
  qed
  then show ?thesis
    using False assms run_while_true_gives_up [of fd "kMaxIterations NDEBUG" stats 0 kAssertSingleThreadedError]
    unfolding AssertSingleThreaded_def RunWhileTrue_def by fastforce
qed

lemma AssertSingleThreaded_backoff_witness:
  "\<exists>es. AssertSingleThreaded True (\<lambda>i. (0, if 5 < (2 :: nat) ^ i then 3 else 4)) 7 = (es, Inr ()) \<and> slept es \<le> 10"
  using AssertSingleThreaded_backoff [of 7 "\<lambda>i. (0, if 5 < (2 :: nat) ^ i then 3 else 4)" 5 True]
  by (auto simp: kMaxIterations_def)

end
