(* ===== verification/Trap_Impl.thy ===== *)
theory Trap_Impl
  imports Trap_Registry
begin

text \<open>
  The trap registry of the running process, \<^verbatim>\<open>seccomp-bpf/trap.cc\<close>: the table of trap
  handlers that \<open>Trap::Add\<close> fills, the one-way switch of \<open>Trap::EnableUnsafeTraps\<close>, and the
  \<open>SIGSYS\<close> handler \<open>Trap::SigSys\<close> that dispatches a trapped system call to its handler. The
  environment variable \<open>CHROME_SANDBOX_DEBUGGING\<close> is the parameter \<open>env\<close>, the value of
  \<open>getenv\<close>. The theory ends with the interpretation of \<open>trap_registry\<close> on this model.
\<close>

subsection \<open>State\<close>

text \<open>
  \<open>trap_array\<close> is the allocated storage, \<open>trap_array_capacity\<close> elements long, of which the
  first \<open>trap_array_size\<close> are in use.
\<close>

record trap =
  trap_ids :: "trap_key \<Rightarrow> u16 option"
  trap_array :: "trap_key list"
  trap_array_size :: nat
  trap_array_capacity :: nat
  trap_has_unsafe_traps :: bool

abbreviation (input) kCapacityIncrement :: nat where "kCapacityIncrement \<equiv> 20"

definition TrapKey_default :: trap_key where
  "TrapKey_default = (NullFnc, NULL, False)"

definition Trap_init :: trap where
  "Trap_init = \<lparr>trap_ids = (\<lambda>_. None), trap_array = [], trap_array_size = 0,
     trap_array_capacity = 0, trap_has_unsafe_traps = False\<rparr>"

definition SandboxDebuggingAllowedByUser :: "string option \<Rightarrow> bool" where
  "SandboxDebuggingAllowedByUser env = (case env of None \<Rightarrow> False | Some s \<Rightarrow> s \<noteq> '''')"

subsection \<open>Registering a handler\<close>

text \<open>The reallocation step: a larger array holding the old elements, then defaults.\<close>

definition grow_trap_array :: "trap \<Rightarrow> trap" where
  "grow_trap_array t =
     (if trap_array_capacity t \<le> trap_array_size t then
        (let cap = trap_array_capacity t + kCapacityIncrement in
         t\<lparr>trap_array_capacity := cap,
           trap_array := take (trap_array_size t) (trap_array t)
             @ replicate (cap - trap_array_size t) TrapKey_default\<rparr>)
      else t)"

definition Trap_Add ::
    "string option \<Rightarrow> trap \<Rightarrow> trap_fnc \<Rightarrow> void_ptr \<Rightarrow> bool \<Rightarrow> abort + (u16 \<times> trap)" where
  "Trap_Add env t fnc aux safe =
     (if \<not> safe \<and> \<not> SandboxDebuggingAllowedByUser env
      then Inl (SandboxDie ''Cannot use unsafe traps unless CHROME_SANDBOX_DEBUGGING is enabled'')
      else
        (let key = (fnc, aux, safe) in
         case trap_ids t key of
           Some i \<Rightarrow> Inr (i, t)
         | None \<Rightarrow>
             if unat SECCOMP_RET_DATA \<le> trap_array_size t \<or> 65535 \<le> trap_array_size t
             then Inl (SandboxDie ''Too many SECCOMP_RET_TRAP callback instances'')
             else
               (let t = grow_trap_array t; i = of_nat (trap_array_size t + 1) in
                Inr (i, t\<lparr>trap_ids := (trap_ids t)(key := Some i),
                          trap_array := (trap_array t)[trap_array_size t := key],
                          trap_array_size := trap_array_size t + 1\<rparr>))))"

definition Trap_EnableUnsafeTraps :: "string option \<Rightarrow> trap \<Rightarrow> bool \<times> trap" where
  "Trap_EnableUnsafeTraps env t =
     (let t = (if \<not> trap_has_unsafe_traps t \<and> SandboxDebuggingAllowedByUser env
               then t\<lparr>trap_has_unsafe_traps := True\<rparr> else t)
      in (trap_has_unsafe_traps t, t))"

definition Trap_ops :: "string option \<Rightarrow> trap trap_registry_ops" where
  "Trap_ops env = \<lparr>registry_Add = Trap_Add env,
     registry_EnableUnsafeTraps = Trap_EnableUnsafeTraps env\<rparr>"

subsection \<open>The table's invariant\<close>

text \<open>
  The array is allocated to its capacity, ids are the positions plus one, and the map and the
  array hold the same tuples.
\<close>

definition trap_invar :: "trap \<Rightarrow> bool" where
  "trap_invar t \<longleftrightarrow>
     length (trap_array t) = trap_array_capacity t
   \<and> trap_array_size t \<le> trap_array_capacity t
   \<and> trap_array_size t \<le> 65535
   \<and> (\<forall>key i. trap_ids t key = Some i \<longleftrightarrow>
        0 < unat i \<and> unat i \<le> trap_array_size t \<and> trap_array t ! (unat i - 1) = key)"

text \<open>What the \<open>SIGSYS\<close> handler finds under a trap id.\<close>

definition trap_handler :: "trap \<Rightarrow> u16 \<Rightarrow> trap_key option" where
  "trap_handler t i =
     (if 0 < unat i \<and> unat i \<le> trap_array_size t then Some (trap_array t ! (unat i - 1)) else None)"

lemma trap_invar_init: "trap_invar Trap_init"
  by (auto simp add: trap_invar_def Trap_init_def)

lemma trap_handler_ids:
  "trap_invar t \<Longrightarrow> trap_handler t i = Some key \<longleftrightarrow> trap_ids t key = Some i"
  by (auto simp: trap_invar_def trap_handler_def simp del: split_paired_All)

lemma grow_trap_array_simps [simp]:
  "trap_ids (grow_trap_array t) = trap_ids t"
  "trap_array_size (grow_trap_array t) = trap_array_size t"
  "trap_has_unsafe_traps (grow_trap_array t) = trap_has_unsafe_traps t"
  by (simp_all add: grow_trap_array_def Let_def)

lemma grow_trap_array_room:
  assumes "trap_invar t"
  shows "trap_array_size t < trap_array_capacity (grow_trap_array t)"
    and "length (trap_array (grow_trap_array t)) = trap_array_capacity (grow_trap_array t)"
    and "j < trap_array_size t \<Longrightarrow> trap_array (grow_trap_array t) ! j = trap_array t ! j"
  using assms by (auto simp: trap_invar_def grow_trap_array_def Let_def nth_append)

text \<open>The three outcomes of a successful \<open>Add\<close>, as one elimination rule.\<close>

lemma Trap_AddE:
  assumes "Trap_Add env t f a s = Inr (i, t')"
  obtains (known) "trap_ids t (f, a, s) = Some i" and "t' = t"
  | (fresh) "trap_ids t (f, a, s) = None" and "trap_array_size t < 65535"
      and "i = of_nat (trap_array_size t + 1)"
      and "t' = (grow_trap_array t)
             \<lparr>trap_ids := (trap_ids t)((f, a, s) := Some i),
              trap_array := (trap_array (grow_trap_array t))[trap_array_size t := (f, a, s)],
              trap_array_size := trap_array_size t + 1\<rparr>"
  using assms
  by (auto simp: Trap_Add_def Let_def split: if_splits option.splits)

lemma fresh_id:
  assumes "n < 65535"
  shows "unat (of_nat (Suc n) :: u16) = Suc n"
  by (rule unat_of_nat_small) (use assms in simp)

lemma Trap_Add_invar:
  assumes inv: "trap_invar t" and add: "Trap_Add env t f a s = Inr (i, t')"
  shows "trap_invar t'"
  using add
proof (cases rule: Trap_AddE)
  case known
  then show ?thesis using inv by simp
next
  case fresh
  let ?n = "trap_array_size t"
  have i: "unat i = ?n + 1" using fresh by (simp add: fresh_id del: of_nat_Suc)
  have key: "trap_ids t' k = Some j \<longleftrightarrow>
      0 < unat j \<and> unat j \<le> ?n + 1 \<and> trap_array t' ! (unat j - 1) = k" for k j
  proof (cases "unat j = ?n + 1")
    case True
    then have "j = i" using i by (simp add: word_unat_eq_iff)
    moreover have "trap_ids t k \<noteq> Some i" using inv i by (auto simp: trap_invar_def simp del: split_paired_All)
    ultimately show ?thesis
      using True fresh grow_trap_array_room [OF inv] by auto
  next
    case False
    then have "j \<noteq> i" using i by auto
    moreover have "\<not> (0 < unat j \<and> unat j \<le> ?n \<and> trap_array t ! (unat j - 1) = (f, a, s))"
      using fresh inv by (metis option.distinct(1) trap_invar_def)
    moreover have "trap_array t' ! (unat j - 1) = trap_array t ! (unat j - 1)"
      if "0 < unat j" and "unat j \<le> ?n"
      using that fresh grow_trap_array_room [OF inv] by (simp add: nth_list_update)
    ultimately show ?thesis using False inv fresh
      by (auto simp: trap_invar_def le_Suc_eq simp del: split_paired_All)
  qed
  show ?thesis
    using key fresh grow_trap_array_room [OF inv] unfolding trap_invar_def
    by (simp del: split_paired_All)
qed

lemma Trap_Add_ids:
  assumes "Trap_Add env t f a s = Inr (i, t')"
  shows "trap_ids t' (f, a, s) = Some i"
    and "trap_ids t k = Some j \<Longrightarrow> trap_ids t' k = Some j"
  using assms by (auto elim!: Trap_AddE)

lemma Trap_Add_known:
  "trap_ids t (f, a, s) = Some i \<Longrightarrow> s \<or> SandboxDebuggingAllowedByUser env \<Longrightarrow>
     Trap_Add env t f a s = Inr (i, t)"
  by (auto simp: Trap_Add_def)

lemma Trap_Add_allowed:
  "Trap_Add env t f a s = Inr (i, t') \<Longrightarrow> s \<or> SandboxDebuggingAllowedByUser env"
  by (auto simp: Trap_Add_def split: if_splits)

lemma Trap_Enable_invar: "trap_invar t \<Longrightarrow> trap_invar (snd (Trap_EnableUnsafeTraps env t))"
  by (simp add: trap_invar_def Trap_EnableUnsafeTraps_def Let_def)

lemma Trap_Enable_handler:
  "trap_handler (snd (Trap_EnableUnsafeTraps env t)) = trap_handler t"
  by (rule ext) (simp add: trap_handler_def Trap_EnableUnsafeTraps_def Let_def)

subsection \<open>The implementation meets the interface\<close>

interpretation trap: trap_registry "Trap_ops env" trap_handler trap_invar for env
proof (unfold_locales, simp_all add: Trap_ops_def)
  fix r f a s i r' j key b
  assume inv: "trap_invar r"
  show "trap_invar r'" if "Trap_Add env r f a s = Inr (i, r')"
    using inv that by (rule Trap_Add_invar)
  show "trap_handler r' i = Some (f, a, s)" if "Trap_Add env r f a s = Inr (i, r')"
    using that inv by (simp add: trap_handler_ids Trap_Add_invar Trap_Add_ids)
  show "i \<noteq> 0" if "Trap_Add env r f a s = Inr (i, r')"
  proof -
    have "trap_handler r' i = Some (f, a, s)"
      using that inv by (simp add: trap_handler_ids Trap_Add_invar Trap_Add_ids)
    then show ?thesis by (auto simp: trap_handler_def)
  qed
  show "trap_handler r' j = Some key"
    if "Trap_Add env r f a s = Inr (i, r')" and "trap_handler r j = Some key"
    using that inv by (simp add: trap_handler_ids Trap_Add_invar Trap_Add_ids)
  show "Trap_Add env r' f a s = Inr (i, r')" if "Trap_Add env r f a s = Inr (i, r')"
    using that by (intro Trap_Add_known Trap_Add_ids(1) Trap_Add_allowed)
  show "trap_invar r'" if "Trap_EnableUnsafeTraps env r = (b, r')"
    using Trap_Enable_invar [OF inv, of env] that by simp
  show "trap_handler r' j = Some key"
    if "Trap_EnableUnsafeTraps env r = (b, r')" and "trap_handler r j = Some key"
    using Trap_Enable_handler [of env r] that by simp
  show "i = j" if "trap_handler r i = Some key" and "trap_handler r j = Some key"
    using that inv by (simp add: trap_handler_ids)
qed

end
