(* ===== verification/Trap_Signal.thy ===== *)
theory Trap_Signal
  imports Trap_Impl Syscall_Numbers
begin

text \<open>
  The rest of \<^verbatim>\<open>seccomp-bpf/trap.cc\<close>: the global instance and the \<open>SIGSYS\<close> handler
  \<open>Trap::SigSys\<close>, which finds the handler of a trapped system call, shows it the system call,
  and writes its return code into the register that will hold the system call's result
  (\<open>Syscall::PutValueInUcontext\<close> of \<^verbatim>\<open>seccomp-bpf/syscall.cc\<close>). Trap handlers and the raw
  system call \<open>Syscall::Call\<close>, which is assembly, are parameters.
\<close>

subsection \<open>Signal data\<close>

abbreviation (input) SYS_SECCOMP :: int where "SYS_SECCOMP \<equiv> 1"

text \<open>The registers \<open>SECCOMP_REG\<close> reads, and the signal mask of the interrupted context.\<close>

record ucontext =
  uc_rax :: u64
  uc_rip :: u64
  uc_rdi :: u64
  uc_rsi :: u64
  uc_rdx :: u64
  uc_r10 :: u64
  uc_r8 :: u64
  uc_r9 :: u64
  uc_sigmask :: "int set"

definition SECCOMP_RESULT :: "ucontext \<Rightarrow> u64" where "SECCOMP_RESULT ctx = uc_rax ctx"
definition SECCOMP_SYSCALL :: "ucontext \<Rightarrow> u64" where "SECCOMP_SYSCALL ctx = uc_rax ctx"
definition SECCOMP_IP :: "ucontext \<Rightarrow> u64" where "SECCOMP_IP ctx = uc_rip ctx"
definition SECCOMP_PARM1 :: "ucontext \<Rightarrow> u64" where "SECCOMP_PARM1 ctx = uc_rdi ctx"
definition SECCOMP_PARM2 :: "ucontext \<Rightarrow> u64" where "SECCOMP_PARM2 ctx = uc_rsi ctx"
definition SECCOMP_PARM3 :: "ucontext \<Rightarrow> u64" where "SECCOMP_PARM3 ctx = uc_rdx ctx"
definition SECCOMP_PARM4 :: "ucontext \<Rightarrow> u64" where "SECCOMP_PARM4 ctx = uc_r10 ctx"
definition SECCOMP_PARM5 :: "ucontext \<Rightarrow> u64" where "SECCOMP_PARM5 ctx = uc_r8 ctx"
definition SECCOMP_PARM6 :: "ucontext \<Rightarrow> u64" where "SECCOMP_PARM6 ctx = uc_r9 ctx"

lemmas seccomp_reg_defs = SECCOMP_RESULT_def SECCOMP_SYSCALL_def SECCOMP_IP_def SECCOMP_PARM1_def
  SECCOMP_PARM2_def SECCOMP_PARM3_def SECCOMP_PARM4_def SECCOMP_PARM5_def SECCOMP_PARM6_def

definition PutValueInUcontext :: "u64 \<Rightarrow> ucontext \<Rightarrow> ucontext" where
  "PutValueInUcontext ret_val ctx = ctx\<lparr>uc_rax := ret_val\<rparr>"

record arch_sigsys =
  sigsys_ip :: u64
  sigsys_nr :: u32
  sigsys_arch :: u32

record siginfo =
  si_code :: int
  si_errno :: int
  si_fields :: arch_sigsys

text \<open>What a handler may change of the thread: \<open>errno\<close> and the set of blocked signals.\<close>

record thread =
  th_errno :: int
  th_blocked :: "int set"

definition GetIsInSigHandler :: "ucontext \<Rightarrow> bool" where
  "GetIsInSigHandler ctx \<longleftrightarrow> LINUX_SIGBUS \<in> uc_sigmask ctx"

text \<open>\<open>mask_ok\<close>: whether \<open>sigprocmask\<close> succeeds.\<close>

definition SetIsInSigHandler :: "bool \<Rightarrow> thread \<Rightarrow> abort + thread" where
  "SetIsInSigHandler mask_ok th =
     res_bind (die_unless mask_ok ''Failed to block SIGBUS'') (\<lambda>_.
     Inr (th\<lparr>th_blocked := insert LINUX_SIGBUS (th_blocked th)\<rparr>))"

record sigaction =
  sa_handler_is_default :: bool
  sa_flags :: int

definition IsDefaultSignalAction :: "sigaction \<Rightarrow> bool" where
  "IsDefaultSignalAction sa =
     (if sa_flags sa AND LINUX_SA_SIGINFO \<noteq> 0 \<or> \<not> sa_handler_is_default sa then False else True)"

text \<open>
  The constructor: \<open>sigaction_ret\<close> and \<open>sigprocmask_ret\<close> are what the two system calls return.
  An existing handler is only logged.
\<close>

definition Trap_new :: "int \<Rightarrow> int \<Rightarrow> abort + trap" where
  "Trap_new sigaction_ret sigprocmask_ret =
     res_bind (die_unless (\<not> sigaction_ret < 0) ''Failed to configure SIGSYS handler'') (\<lambda>_.
     res_bind (die_unless (sigprocmask_ret = 0) ''Failed to configure SIGSYS handler'') (\<lambda>_.
     Inr Trap_init))"

text \<open>\<open>Trap::Registry\<close> returns the global instance, which it creates once.\<close>

definition Registry :: "int \<Rightarrow> int \<Rightarrow> trap option \<Rightarrow> abort + (trap \<times> trap option)" where
  "Registry sigaction_ret sigprocmask_ret global_trap =
     (case global_trap of
        Some t \<Rightarrow> Inr (t, Some t)
      | None \<Rightarrow>
          res_bind (Trap_new sigaction_ret sigprocmask_ret) (\<lambda>t. Inr (t, Some t)))"

subsection \<open>The handler\<close>

type_synonym handler_fun = "trap_fnc \<Rightarrow> arch_seccomp_data \<Rightarrow> void_ptr \<Rightarrow> thread \<Rightarrow> abort + (u64 \<times> thread)"

text \<open>
  \<open>call_fnc\<close> runs a trap handler, \<open>syscall_call\<close> is \<open>Syscall::Call\<close> with a number and six
  parameters. The result is the context the signal returns to.
\<close>

definition SigSys ::
    "handler_fun \<Rightarrow> (u32 \<Rightarrow> u64 list \<Rightarrow> u64) \<Rightarrow> bool \<Rightarrow> trap \<Rightarrow> int \<Rightarrow> siginfo \<Rightarrow> ucontext option \<Rightarrow> thread
       \<Rightarrow> abort + (ucontext option \<times> thread)" where
  "SigSys call_fnc syscall_call mask_ok t nr info ctx_ptr th =
     (let old_errno = th_errno th in
      case ctx_ptr of
        None \<Rightarrow> Inr (None, th\<lparr>th_errno := old_errno\<rparr>)
      | Some ctx \<Rightarrow>
          if nr \<noteq> LINUX_SIGSYS \<or> si_code info \<noteq> SYS_SECCOMP \<or> si_errno info \<le> 0
             \<or> nat (si_errno info) > trap_array_size t
          then Inr (Some ctx, th\<lparr>th_errno := old_errno\<rparr>)
          else
            (let sigsys = si_fields info;
                 sigsys_nr_is_bad = (sigsys_nr sigsys \<noteq> ucast (SECCOMP_SYSCALL ctx))
             in
             res_bind (die_unless (\<not> (sigsys_ip sigsys \<noteq> SECCOMP_IP ctx \<or> sigsys_nr_is_bad
                  \<or> sigsys_arch sigsys \<noteq> SECCOMP_ARCH))
                ''Sanity checks are failing after receiving SIGSYS.'') (\<lambda>_.
             res_bind
               (if trap_has_unsafe_traps t \<and> GetIsInSigHandler ctx then
                  (let th = th\<lparr>th_errno := old_errno\<rparr> in
                   res_bind (die_unless (\<not> sint (sigsys_nr sigsys) = NR_clone)
                     ''Cannot call clone() from an UnsafeTrap() handler.'') (\<lambda>_.
                   Inr (syscall_call (ucast (SECCOMP_SYSCALL ctx))
                          [SECCOMP_PARM1 ctx, SECCOMP_PARM2 ctx, SECCOMP_PARM3 ctx,
                           SECCOMP_PARM4 ctx, SECCOMP_PARM5 ctx, SECCOMP_PARM6 ctx], th)))
                else
                  (let (fnc, aux, safe) = trap_array t ! (nat (si_errno info) - 1) in
                   res_bind (if \<not> safe then SetIsInSigHandler mask_ok th else Inr th) (\<lambda>th.
                   let data = \<lparr>sd_nr = ucast (SECCOMP_SYSCALL ctx), sd_arch = SECCOMP_ARCH,
                         sd_instruction_pointer = sigsys_ip sigsys,
                         sd_args = [SECCOMP_PARM1 ctx, SECCOMP_PARM2 ctx, SECCOMP_PARM3 ctx,
                                    SECCOMP_PARM4 ctx, SECCOMP_PARM5 ctx, SECCOMP_PARM6 ctx]\<rparr>
                   in call_fnc fnc data aux th))) (\<lambda>(rc, th).
             Inr (Some (PutValueInUcontext rc ctx), th\<lparr>th_errno := old_errno\<rparr>)))))"

text \<open>\<open>Trap::SigSysAction\<close> is the function the kernel calls.\<close>

definition SigSysAction ::
    "handler_fun \<Rightarrow> (u32 \<Rightarrow> u64 list \<Rightarrow> u64) \<Rightarrow> bool \<Rightarrow> trap option \<Rightarrow> int \<Rightarrow> siginfo \<Rightarrow> ucontext option
       \<Rightarrow> thread \<Rightarrow> abort + (ucontext option \<times> thread)" where
  "SigSysAction call_fnc syscall_call mask_ok global_trap nr info ctx th =
     (case global_trap of
        None \<Rightarrow> Inl (SandboxDie ''This can't happen. Found no global singleton instance for Trap() handling.'')
      | Some t \<Rightarrow> SigSys call_fnc syscall_call mask_ok t nr info ctx th)"

subsection \<open>Properties of the registry\<close>

text \<open>
  C7: \<open>Trap::Add\<close> keeps the promises of \<open>trap_registry.h\<close>: the id it returns is not zero, the
  \<open>SIGSYS\<close> handler finds the tuple under it and under no other id, ids handed out before stay
  valid, and registering the tuple again gives the same id and changes nothing.
\<close>

theorem Trap_Add_contract:
  assumes "trap_invar t" and "Trap_Add env t fnc aux safe = Inr (i, t')"
  shows "trap_invar t' \<and> i \<noteq> 0
    \<and> (\<forall>j. trap_handler t' j = Some (fnc, aux, safe) \<longleftrightarrow> j = i)
    \<and> (\<forall>j key. trap_handler t j = Some key \<longrightarrow> trap_handler t' j = Some key)
    \<and> Trap_Add env t' fnc aux safe = Inr (i, t')"
proof -
  have add: "registry_Add (Trap_ops env) t fnc aux safe = Inr (i, t')"
    using assms(2) by (simp add: Trap_ops_def)
  note inv' = trap.Add_invar [OF assms(1) add]
  note handler = trap.Add_handler [OF assms(1) add]
  have "trap_handler t' j = Some (fnc, aux, safe) \<longleftrightarrow> j = i" for j
    using handler trap.handler_unique [OF inv' _ handler] by blast
  moreover have "Trap_Add env t' fnc aux safe = Inr (i, t')"
    using trap.Add_again [OF assms(1) add] by (simp add: Trap_ops_def)
  ultimately show ?thesis
    using inv' trap.Add_nonzero [OF assms(1) add] trap.Add_extends [OF assms(1) add] by blast
qed

theorem Trap_Add_contract_witness:
  "\<exists>i t'. Trap_Add None Trap_init CrashSIGSYS_Handler NULL True = Inr (i, t') \<and> i \<noteq> 0
     \<and> trap_handler t' i = Some (CrashSIGSYS_Handler, NULL, True)"
proof -
  have "\<exists>i t'. Trap_Add None Trap_init CrashSIGSYS_Handler NULL True = Inr (i, t')"
    by (simp add: Trap_Add_def Trap_init_def Let_def)
  then show ?thesis using Trap_Add_contract [OF trap_invar_init] by blast
qed

text \<open>The states of the registry in a process whose environment is \<open>env\<close>.\<close>

inductive trap_reachable :: "string option \<Rightarrow> trap \<Rightarrow> bool" for env where
  init: "trap_reachable env Trap_init"
| add: "trap_reachable env t \<Longrightarrow> Trap_Add env t f a s = Inr (i, t') \<Longrightarrow> trap_reachable env t'"
| enable: "trap_reachable env t \<Longrightarrow> trap_reachable env (snd (Trap_EnableUnsafeTraps env t))"

text \<open>
  C8: Without \<open>CHROME_SANDBOX_DEBUGGING\<close> nothing ever weakens the registry: in every reachable
  state unsafe traps are off and every registered handler is safe. With any environment, unsafe
  traps are a one-way fuse.
\<close>

theorem unsafe_traps_need_debugging:
  assumes "trap_reachable env t"
  shows "trap_invar t
    \<and> (\<not> SandboxDebuggingAllowedByUser env \<longrightarrow> \<not> trap_has_unsafe_traps t
        \<and> (\<forall>i f a s. trap_handler t i = Some (f, a, s) \<longrightarrow> s))
    \<and> (trap_has_unsafe_traps t \<longrightarrow>
        trap_has_unsafe_traps (snd (Trap_EnableUnsafeTraps env t))
      \<and> (\<forall>f a s i t'. Trap_Add env t f a s = Inr (i, t') \<longrightarrow> trap_has_unsafe_traps t'))"
proof -
  have fuse: "trap_has_unsafe_traps t' = trap_has_unsafe_traps t"
    if "Trap_Add env t f a s = Inr (i, t')" for t f a s i t'
    using that by (cases rule: Trap_AddE) simp_all
  have safe: "trap_invar t \<and> (\<not> SandboxDebuggingAllowedByUser env \<longrightarrow> \<not> trap_has_unsafe_traps t
      \<and> (\<forall>f a s. trap_ids t (f, a, s) \<noteq> None \<longrightarrow> s))"
    using assms
  proof (induction rule: trap_reachable.induct)
    case init
    then show ?case using trap_invar_init by (simp add: Trap_init_def)
  next
    case (add t f a s i t')
    have "trap_ids t' key \<noteq> None \<longrightarrow> trap_ids t key \<noteq> None \<or> key = (f, a, s)" for key
      using add.hyps(2) by (cases rule: Trap_AddE) auto
    moreover have "s" if "\<not> SandboxDebuggingAllowedByUser env"
      using Trap_Add_allowed [OF add.hyps(2)] that by simp
    ultimately show ?case
      using add.IH fuse [OF add.hyps(2)] Trap_Add_invar [OF _ add.hyps(2)] by blast
  next
    case (enable t)
    then show ?case
      using Trap_Enable_invar [of t env]
      by (auto simp: Trap_EnableUnsafeTraps_def Let_def split: if_splits)
  qed
  have "s" if "\<not> SandboxDebuggingAllowedByUser env" and "trap_handler t i = Some (f, a, s)" for i f a s
    using safe that trap_handler_ids [of t i "(f, a, s)"] by fastforce
  moreover have "trap_has_unsafe_traps (snd (Trap_EnableUnsafeTraps env t))" if "trap_has_unsafe_traps t"
    using that by (simp add: Trap_EnableUnsafeTraps_def Let_def)
  ultimately show ?thesis using safe fuse by blast
qed

theorem unsafe_traps_need_debugging_witness:
  "\<exists>t. Trap_Add None Trap_init ReturnErrno (Addr 1) True = Inr (1, t) \<and> \<not> trap_has_unsafe_traps t"
proof -
  have "\<exists>t. Trap_Add None Trap_init ReturnErrno (Addr 1) True = Inr (1, t)"
    by (simp add: Trap_Add_def Trap_init_def Let_def)
  then obtain t where t: "Trap_Add None Trap_init ReturnErrno (Addr 1) True = Inr (1, t)" by blast
  have "trap_reachable None t" using trap_reachable.init t by (rule trap_reachable.add)
  from unsafe_traps_need_debugging [OF this] t show ?thesis
    by (auto simp: SandboxDebuggingAllowedByUser_def)
qed

subsection \<open>Properties of the handler\<close>

text \<open>The system call that a context was interrupted in, as a filter sees it, and its arguments.\<close>

definition call_args :: "ucontext \<Rightarrow> u64 list" where
  "call_args ctx = [uc_rdi ctx, uc_rsi ctx, uc_rdx ctx, uc_r10 ctx, uc_r8 ctx, uc_r9 ctx]"

definition interrupted_call :: "ucontext \<Rightarrow> arch_seccomp_data" where
  "interrupted_call ctx = \<lparr>sd_nr = ucast (uc_rax ctx), sd_arch = SECCOMP_ARCH,
     sd_instruction_pointer = uc_rip ctx, sd_args = call_args ctx\<rparr>"

text \<open>
  The signal data of the kernel, as seccomp(2) documents them: the 16 bits of data of the filter's value,
  and where the system call was made from, its number and its architecture.
\<close>

definition seccomp_siginfo :: "u32 \<Rightarrow> arch_seccomp_data \<Rightarrow> siginfo" where
  "seccomp_siginfo v d = \<lparr>si_code = SYS_SECCOMP, si_errno = int (unat (v AND SECCOMP_RET_DATA)),
     si_fields = \<lparr>sigsys_ip = sd_instruction_pointer d, sigsys_nr = sd_nr d, sigsys_arch = sd_arch d\<rparr>\<rparr>"

lemma wf_interrupted_call [simp]: "wf_seccomp_data (interrupted_call ctx)"
  by (simp add: wf_seccomp_data_def interrupted_call_def call_args_def)

text \<open>The handler's answer to the signal of a trapped system call, with the branches of the code.\<close>

lemma SigSys_trapped:
  assumes "trap_handler t i = Some (fnc, aux, safe)" and "v AND SECCOMP_RET_DATA = ucast i"
  shows "SigSys call_fnc syscall_call mask_ok t LINUX_SIGSYS (seccomp_siginfo v (interrupted_call ctx)) (Some ctx) th
    = res_bind
        (if trap_has_unsafe_traps t \<and> GetIsInSigHandler ctx then
           res_bind (die_unless (sint (ucast (uc_rax ctx) :: u32) \<noteq> NR_clone) ''Cannot call clone() from an UnsafeTrap() handler.'')
             (\<lambda>_. Inr (syscall_call (ucast (uc_rax ctx)) (call_args ctx), th))
         else
           res_bind (if \<not> safe then SetIsInSigHandler mask_ok th else Inr th) (\<lambda>th.
           call_fnc fnc (interrupted_call ctx) aux th))
        (\<lambda>(rc, th'). Inr (Some (ctx\<lparr>uc_rax := rc\<rparr>), th'\<lparr>th_errno := th_errno th\<rparr>))"
proof -
  have i: "0 < unat i" "\<not> trap_array_size t < unat i" "trap_array t ! (unat i - 1) = (fnc, aux, safe)"
    using assms(1) by (auto simp: trap_handler_def split: if_splits)
  define m where "m = unat i"
  have e: "si_errno (seccomp_siginfo v (interrupted_call ctx)) = int m"
    unfolding seccomp_siginfo_def assms(2) m_def by (simp add: unsigned_ucast_eq take_bit_nat_eq_self)
  have m: "0 < m" "\<not> trap_array_size t < m" "trap_array t ! (m - 1) = (fnc, aux, safe)" using i by (simp_all add: m_def)
  have fields: "si_code (seccomp_siginfo v (interrupted_call ctx)) = SYS_SECCOMP"
    "si_fields (seccomp_siginfo v (interrupted_call ctx))
      = \<lparr>sigsys_ip = uc_rip ctx, sigsys_nr = ucast (uc_rax ctx), sigsys_arch = SECCOMP_ARCH\<rparr>"
    by (simp_all add: seccomp_siginfo_def interrupted_call_def)
  show ?thesis
    unfolding SigSys_def Let_def fields e option.case
    using m by (simp add: seccomp_reg_defs PutValueInUcontext_def interrupted_call_def call_args_def)
qed

text \<open>
  A \<open>SIGSYS\<close> that no filter raised is ignored: with a foreign signal number or code, an id
  the registry never handed out, or no context, no handler runs and neither registers nor
  \<open>errno\<close> change.
\<close>

lemma SigSys_ignores_foreign_signals:
  assumes "nr \<noteq> LINUX_SIGSYS \<or> si_code info \<noteq> SYS_SECCOMP \<or> ctx = None
    \<or> \<not> (0 < si_errno info \<and> nat (si_errno info) \<le> trap_array_size t)"
  shows "SigSys call_fnc syscall_call mask_ok t nr info ctx th = Inr (ctx, th)"
  using assms by (cases ctx) (auto simp: SigSys_def Let_def)

end
