(* ===== verification/Code_Gen.thy ===== *)
theory Code_Gen
  imports Bpf_Machine
begin

text \<open>
  The assembler of \<^verbatim>\<open>bpf_dsl/codegen.cc\<close>: it turns a DAG of instruction nodes, built bottom up
  with \<open>MakeInstruction\<close>, into a BPF program with forward jumps of at most 255 instructions.
  The program is kept in reverse, so that a node, an index into it, stays valid as
  instructions are added. After the operations come the semantics of a node
  (\<open>dag_exec\<close>), the invariant of the generator, and the proof that running a compiled program
  on the machine of \<open>Bpf_Machine\<close> does what its head node means.
\<close>

subsection \<open>State\<close>

type_synonym node = nat

text \<open>\<open>kNullNode\<close> is \<open>-1\<close> as a \<open>size_t\<close>.\<close>

abbreviation (input) kNullNode :: node where "kNullNode \<equiv> 18446744073709551615"

abbreviation (input) kBranchRange :: nat where "kBranchRange \<equiv> 255"

type_synonym memo_key = "u16 \<times> u32 \<times> node \<times> node"

record code_gen =
  cg_program :: "sock_filter list"
  cg_equivalent :: "node list"
  cg_memos :: "memo_key \<Rightarrow> node option"

definition CodeGen_init :: code_gen where
  "CodeGen_init = \<lparr>cg_program = [], cg_equivalent = [], cg_memos = (\<lambda>_. None)\<rparr>"

subsection \<open>Operations\<close>

definition Offset :: "code_gen \<Rightarrow> node \<Rightarrow> abort + nat" where
  "Offset g target =
     res_bind (check (target < length (cg_program g)) ''Bogus offset target node'') (\<lambda>_.
     Inr ((length (cg_program g) - 1) - target))"

text \<open>\<open>std::vector::at\<close> aborts when the index is out of range.\<close>

definition equivalent_at :: "code_gen \<Rightarrow> node \<Rightarrow> abort + node" where
  "equivalent_at g target =
     res_bind (check (target < length (cg_equivalent g)) ''vector::at'') (\<lambda>_.
     Inr (cg_equivalent g ! target))"

definition Append :: "code_gen \<Rightarrow> u16 \<Rightarrow> u32 \<Rightarrow> nat \<Rightarrow> nat \<Rightarrow> abort + (node \<times> code_gen)" where
  "Append g code k jt jf =
     res_bind
       (if BPF_CLASS code = BPF_JMP \<and> BPF_OP code \<noteq> BPF_JA
        then res_bind (check (jt \<le> kBranchRange) ''jt <= kBranchRange'') (\<lambda>_.
             check (jf \<le> kBranchRange) ''jf <= kBranchRange'')
        else res_bind (check (0 = jt) ''0U == jt'') (\<lambda>_.
             check (0 = jf) ''0U == jf'')) (\<lambda>_.
     res_bind (check (length (cg_program g) < BPF_MAXINSNS) ''program_.size() < BPF_MAXINSNS'') (\<lambda>_.
     res_bind (check (length (cg_program g) = length (cg_equivalent g))
                ''program_.size() == equivalent_.size()'') (\<lambda>_.
     let res = length (cg_program g) in
     Inr (res, g\<lparr>cg_program := cg_program g @
                   [\<lparr>sf_code = code, sf_jt = of_nat jt, sf_jf = of_nat jf, sf_k = k\<rparr>],
                 cg_equivalent := cg_equivalent g @ [res]\<rparr>))))"

definition WithinRange :: "code_gen \<Rightarrow> node \<Rightarrow> nat \<Rightarrow> abort + (node \<times> code_gen)" where
  "WithinRange g target rng =
     res_bind (Offset g target) (\<lambda>off.
     if off \<le> rng then Inr (target, g)
     else
       res_bind (equivalent_at g target) (\<lambda>eq.
       res_bind (Offset g eq) (\<lambda>eq_off.
       if eq_off \<le> rng then Inr (eq, g)
       else
         res_bind (Append g (BPF_JMP OR BPF_JA) (of_nat off) 0 0) (\<lambda>(jump, g).
         Inr (jump, g\<lparr>cg_equivalent := (cg_equivalent g)[target := jump]\<rparr>)))))"

definition AppendInstruction ::
    "code_gen \<Rightarrow> u16 \<Rightarrow> u32 \<Rightarrow> node \<Rightarrow> node \<Rightarrow> abort + (node \<times> code_gen)" where
  "AppendInstruction g code k jt jf =
     (if BPF_CLASS code = BPF_JMP then
        res_bind (check (BPF_JA \<noteq> BPF_OP code) ''CodeGen inserts JAs as needed'') (\<lambda>_.
        res_bind (WithinRange g jt (kBranchRange - 1)) (\<lambda>(jt, g).
        res_bind (WithinRange g jf kBranchRange) (\<lambda>(jf, g).
        res_bind (Offset g jt) (\<lambda>jt_off.
        res_bind (Offset g jf) (\<lambda>jf_off.
        Append g code k jt_off jf_off)))))
      else
        res_bind (check (kNullNode = jf) ''Non-branch instructions shouldn't provide jf'') (\<lambda>_.
        if BPF_CLASS code = BPF_RET then
          res_bind (check (kNullNode = jt) ''Return instructions shouldn't provide jt'') (\<lambda>_.
          Append g code k 0 0)
        else
          res_bind (WithinRange g jt 0) (\<lambda>(jt, g).
          res_bind (Offset g jt) (\<lambda>off.
          res_bind (check (0 = off) ''ICE: Failed to setup next instruction'') (\<lambda>_.
          Append g code k 0 0)))))"

definition MakeInstruction ::
    "code_gen \<Rightarrow> u16 \<Rightarrow> u32 \<Rightarrow> node \<Rightarrow> node \<Rightarrow> abort + (node \<times> code_gen)" where
  "MakeInstruction g code k jt jf =
     (case cg_memos g (code, k, jt, jf) of
        Some node \<Rightarrow> Inr (node, g)
      | None \<Rightarrow>
          res_bind (AppendInstruction
                      (g\<lparr>cg_memos := (cg_memos g)((code, k, jt, jf) \<mapsto> kNullNode)\<rparr>) code k jt jf)
            (\<lambda>(node, g). Inr (node, g\<lparr>cg_memos := (cg_memos g)((code, k, jt, jf) \<mapsto> node)\<rparr>)))"

definition CodeGen_Compile :: "code_gen \<Rightarrow> node \<Rightarrow> abort + sock_filter list" where
  "CodeGen_Compile g head =
     res_bind (Offset g head) (\<lambda>off. Inr (drop off (rev (cg_program g))))"

subsection \<open>What a node means\<close>

text \<open>
  The effect of one instruction on the accumulator, apart from where control goes next, in
  terms of the machine's own instruction functions.
\<close>

datatype effect = EFail | EReturn u32 | EFall u32 bool | EBranch bool | EJump nat

definition insn_effect :: "arch_seccomp_data \<Rightarrow> u16 \<Rightarrow> u32 \<Rightarrow> u32 \<Rightarrow> bool \<Rightarrow> effect" where
  "insn_effect d code k acc valid =
     (let insn = \<lparr>sf_code = code, sf_jt = 0, sf_jf = 0, sf_k = k\<rparr>
      in if BPF_CLASS code = BPF_LD then
           (case ld_value d insn of Inl _ \<Rightarrow> EFail | Inr v \<Rightarrow> EFall v True)
         else if BPF_CLASS code = BPF_JMP then
           (if BPF_OP code = BPF_JA then EJump (unat k)
            else if BPF_SRC code \<noteq> BPF_K \<or> \<not> valid then EFail
            else (case jump_test code acc k of None \<Rightarrow> EFail | Some b \<Rightarrow> EBranch b))
         else if BPF_CLASS code = BPF_RET then
           (case Ret insn of Inl _ \<Rightarrow> EFail | Inr r \<Rightarrow> if valid_action r then EReturn r else EFail)
         else if BPF_CLASS code = BPF_ALU then
           (case alu_value code acc k of Inl _ \<Rightarrow> EFail | Inr v \<Rightarrow> EFall v valid)
         else EFail)"

text \<open>
  Running the reversed program from node \<open>n\<close>: the successor of \<open>n\<close> is \<open>n - 1\<close>, and a jump
  skips further down. \<open>None\<close> is a run the machine would refuse.
\<close>

function dag_exec ::
    "sock_filter list \<Rightarrow> arch_seccomp_data \<Rightarrow> node \<Rightarrow> u32 \<Rightarrow> bool \<Rightarrow> u32 option" where
  "dag_exec P d n acc valid =
     (case insn_effect d (sf_code (P ! n)) (sf_k (P ! n)) acc valid of
        EFail \<Rightarrow> None
      | EReturn r \<Rightarrow> Some r
      | EFall acc' valid' \<Rightarrow>
          if 0 < n \<and> sf_jt (P ! n) = 0 \<and> sf_jf (P ! n) = 0
          then dag_exec P d (n - 1) acc' valid' else None
      | EBranch b \<Rightarrow>
          if unat (sf_jt (P ! n)) < n \<and> unat (sf_jf (P ! n)) < n
          then dag_exec P d (n - 1 - unat (if b then sf_jt (P ! n) else sf_jf (P ! n))) acc valid
          else None
      | EJump k \<Rightarrow> if k < n then dag_exec P d (n - 1 - k) acc valid else None)"
  by pat_completeness auto
termination
  by (relation "measure (\<lambda>(P, d, n, acc, valid). n)") auto

declare dag_exec.simps [simp del]

text \<open>A node's meaning does not change when instructions are added.\<close>

lemma dag_exec_append:
  "n < length P \<Longrightarrow> dag_exec (P @ Q) d n acc valid = dag_exec P d n acc valid"
proof (induction P d n acc valid rule: dag_exec.induct)
  case (1 P d n acc valid)
  show ?case
    unfolding dag_exec.simps [of "P @ Q" d n acc valid] dag_exec.simps [of P d n acc valid]
    using 1 by (auto simp: nth_append split: effect.splits)
qed


subsection \<open>The machine runs what the node means\<close>

text \<open>One step of the machine, by the effect of the instruction it fetches.\<close>

lemma eval_step_fall:
  assumes "unat (st_ip st) < length Q" and "Q ! unat (st_ip st) = i"
    and "insn_effect d (sf_code i) (sf_k i) (st_accumulator st) (st_acc_is_valid st) = EFall a v"
    and "sf_jt i = 0" and "sf_jf i = 0"
  shows "eval_step Q d st = Inl \<lparr>st_ip = st_ip st + 1, st_accumulator = a, st_acc_is_valid = v\<rparr>"
proof -
  have i: "\<lparr>sf_code = sf_code i, sf_jt = 0, sf_jf = 0, sf_k = sf_k i\<rparr> = i" using assms by simp
  show ?thesis
    using assms
    by (auto simp: eval_step_def insn_effect_def i incr_ip_def Ld_def Alu_def Let_def
        split: if_splits sum.splits option.splits)
qed

lemma eval_step_return:
  assumes "unat (st_ip st) < length Q" and "Q ! unat (st_ip st) = i"
    and "insn_effect d (sf_code i) (sf_k i) (st_accumulator st) (st_acc_is_valid st) = EReturn r"
  shows "eval_step Q d st = Inr (Inr r)"
  using assms
  by (auto simp: eval_step_def insn_effect_def Ret_def Let_def split: if_splits sum.splits option.splits)

lemma eval_step_branch:
  assumes "unat (st_ip st) < length Q" and "Q ! unat (st_ip st) = i"
    and "insn_effect d (sf_code i) (sf_k i) (st_accumulator st) (st_acc_is_valid st) = EBranch b"
    and "unat (st_ip st + ucast (sf_jt i) + 1) < length Q"
    and "unat (st_ip st + ucast (sf_jf i) + 1) < length Q"
  shows "eval_step Q d st = Inl (st\<lparr>st_ip := st_ip st + ucast (if b then sf_jt i else sf_jf i) + 1\<rparr>)"
  using assms
  by (auto simp: eval_step_def insn_effect_def Jmp_def incr_ip_def Let_def
      split: if_splits sum.splits option.splits)

lemma eval_step_jump:
  assumes "unat (st_ip st) < length Q" and "Q ! unat (st_ip st) = i"
    and "insn_effect d (sf_code i) (sf_k i) (st_accumulator st) (st_acc_is_valid st) = EJump k"
    and "unat (st_ip st + sf_k i + 1) < length Q" and "st_ip st < st_ip st + sf_k i + 1"
  shows "eval_step Q d st = Inl (st\<lparr>st_ip := st_ip st + sf_k i + 1\<rparr>) \<and> k = unat (sf_k i)"
  using assms
  by (auto simp: eval_step_def insn_effect_def Jmp_def incr_ip_def Let_def
      split: if_splits sum.splits option.splits)

text \<open>
  A program cut from the reversed one at its head \<open>h\<close> has node \<open>n\<close> at instruction pointer
  \<open>h - n\<close>.
\<close>

definition ip_of :: "nat \<Rightarrow> node \<Rightarrow> u32" where
  "ip_of h n = of_nat (h - n)"

lemma unat_ip_of: "h < BPF_MAXINSNS \<Longrightarrow> unat (ip_of h n) = h - n"
  unfolding ip_of_def by (rule unat_of_nat_small) simp

lemma ip_of_skip:
  assumes "unat (m :: u32) < n" and "n \<le> h"
  shows "ip_of h n + m + 1 = ip_of h (n - 1 - unat m)"
proof -
  have "h - (n - 1 - unat m) = (h - n) + unat m + 1" using assms by arith
  moreover have "(of_nat (unat m) :: u32) = m" by simp
  ultimately show ?thesis by (simp only: ip_of_def of_nat_add of_nat_1)
qed

lemma machine_simulates_dag:
  assumes "dag_exec P d n acc valid = Some r"
    and "n \<le> h" and "h < length P" and "length P \<le> BPF_MAXINSNS"
  shows "eval_loop (Suc n) (rev (take (Suc h) P)) d
           \<lparr>st_ip = ip_of h n, st_accumulator = acc, st_acc_is_valid = valid\<rparr> = Some (Inr r)"
  using assms
proof (induction P d n acc valid rule: dag_exec.induct)
  case (1 P d n acc valid)
  let ?Q = "rev (take (Suc h) P)"
  let ?st = "\<lparr>st_ip = ip_of h n, st_accumulator = acc, st_acc_is_valid = valid\<rparr>"
  let ?i = "P ! n"
  have h: "h < BPF_MAXINSNS" using "1.prems" by simp
  have lt: "unat (st_ip ?st) < length ?Q" using unat_ip_of [OF h] "1.prems" by simp
  have fetch: "?Q ! unat (st_ip ?st) = ?i"
    using unat_ip_of [OF h] "1.prems" by (simp add: nth_rev_take)
  have inside: "unat (ip_of h m) < length ?Q" for m using unat_ip_of [OF h] "1.prems" by simp
  have go: ?case
    if "eval_loop (Suc m) ?Q d \<lparr>st_ip = ip_of h m, st_accumulator = a, st_acc_is_valid = v\<rparr> = Some (Inr r)"
      and "eval_step ?Q d ?st = Inl \<lparr>st_ip = ip_of h m, st_accumulator = a, st_acc_is_valid = v\<rparr>"
      and "m < n" for m a v
    using eval_loop_Some_mono [OF that(1), of n] that(2,3) by simp
  show ?case
  proof (cases "insn_effect d (sf_code ?i) (sf_k ?i) acc valid")
    case EFail
    then show ?thesis using "1.prems"(1) by (simp add: dag_exec.simps [of P])
  next
    case (EReturn r')
    with "1.prems"(1) eval_step_return [OF lt fetch] show ?thesis
      by (simp add: dag_exec.simps [of P])
  next
    case (EFall a v)
    from "1.prems"(1) EFall have n: "0 < n" "sf_jt ?i = 0" "sf_jf ?i = 0"
      and ex: "dag_exec P d (n - 1) a v = Some r"
      by (auto simp: dag_exec.simps [of P] split: if_splits)
    have "eval_step ?Q d ?st =
        Inl \<lparr>st_ip = ip_of h (n - 1), st_accumulator = a, st_acc_is_valid = v\<rparr>"
      using eval_step_fall [OF lt fetch _ n(2,3)] EFall ip_of_skip [of 0 n h] n "1.prems" by simp
    from go [OF _ this] "1.IH"(1) [OF EFall _ ex] n "1.prems" show ?thesis by simp
  next
    case (EBranch b)
    let ?o = "if b then sf_jt ?i else sf_jf ?i"
    from "1.prems"(1) EBranch have n: "unat (sf_jt ?i) < n" "unat (sf_jf ?i) < n"
      and ex: "dag_exec P d (n - 1 - unat ?o) acc valid = Some r"
      by (auto simp: dag_exec.simps [of P] split: if_splits)
    have skip: "ip_of h n + ucast o8 + 1 = ip_of h (n - 1 - unat o8)" if "unat o8 < n" for o8 :: u8
      using ip_of_skip [of "ucast o8" n h] that "1.prems" by simp
    have "eval_step ?Q d ?st =
        Inl \<lparr>st_ip = ip_of h (n - 1 - unat ?o), st_accumulator = acc, st_acc_is_valid = valid\<rparr>"
      using eval_step_branch [OF lt fetch] EBranch skip [OF n(1)] skip [OF n(2)] inside by simp
    from go [OF _ this] "1.IH"(2) [OF EBranch _ ex] n "1.prems" show ?thesis by simp
  next
    case (EJump k)
    from "1.prems"(1) EJump have n: "k < n" and ex: "dag_exec P d (n - 1 - k) acc valid = Some r"
      by (auto simp: dag_exec.simps [of P] split: if_splits)
    have k: "k = unat (sf_k ?i)"
      using EJump by (auto simp: insn_effect_def Let_def split: if_splits sum.splits option.splits)
    have skip: "ip_of h n + sf_k ?i + 1 = ip_of h (n - 1 - k)"
      using ip_of_skip [of "sf_k ?i" n h] n k "1.prems" by simp
    have up: "ip_of h n < ip_of h (n - 1 - k)"
      using n "1.prems" by (simp add: word_less_nat_alt unat_ip_of [OF h])
    have "eval_step ?Q d ?st =
        Inl \<lparr>st_ip = ip_of h (n - 1 - k), st_accumulator = acc, st_acc_is_valid = valid\<rparr>"
      using eval_step_jump [OF lt fetch] EJump skip up inside by simp
    from go [OF _ this] "1.IH"(3) [OF EJump _ ex] n "1.prems" show ?thesis by simp
  qed
qed

subsection \<open>The generator's invariant\<close>

definition same_node :: "sock_filter list \<Rightarrow> node \<Rightarrow> node \<Rightarrow> bool" where
  "same_node P m n \<longleftrightarrow> (\<forall>d acc valid. dag_exec P d m acc valid = dag_exec P d n acc valid)"

text \<open>
  \<open>node_runs P n code k jt jf\<close>: node \<open>n\<close> executes the instruction \<open>(code, k)\<close> and goes on at
  the nodes \<open>jt\<close> and \<open>jf\<close>, however far away they are.
\<close>

definition node_runs :: "sock_filter list \<Rightarrow> node \<Rightarrow> u16 \<Rightarrow> u32 \<Rightarrow> node \<Rightarrow> node \<Rightarrow> bool" where
  "node_runs P n code k jt jf \<longleftrightarrow>
     (\<forall>d acc valid. dag_exec P d n acc valid =
        (case insn_effect d code k acc valid of
           EReturn r \<Rightarrow> Some r
         | EFall acc' valid' \<Rightarrow> dag_exec P d jt acc' valid'
         | EBranch b \<Rightarrow> dag_exec P d (if b then jt else jf) acc valid
         | _ \<Rightarrow> None))"

definition targets_ok :: "sock_filter list \<Rightarrow> u16 \<Rightarrow> node \<Rightarrow> node \<Rightarrow> bool" where
  "targets_ok P code jt jf \<longleftrightarrow>
     (BPF_CLASS code = BPF_JMP \<longrightarrow> BPF_OP code \<noteq> BPF_JA \<and> jt < length P \<and> jf < length P)
   \<and> (BPF_CLASS code \<noteq> BPF_JMP \<longrightarrow> BPF_CLASS code \<noteq> BPF_RET \<longrightarrow> jt < length P)"

definition program_ok :: "code_gen \<Rightarrow> bool" where
  "program_ok g \<longleftrightarrow>
     length (cg_equivalent g) = length (cg_program g)
   \<and> length (cg_program g) \<le> BPF_MAXINSNS
   \<and> (\<forall>t < length (cg_program g).
        cg_equivalent g ! t < length (cg_program g)
        \<and> same_node (cg_program g) (cg_equivalent g ! t) t)"

definition memos_ok :: "code_gen \<Rightarrow> bool" where
  "memos_ok g \<longleftrightarrow>
     (\<forall>code k jt jf n. cg_memos g (code, k, jt, jf) = Some n \<longrightarrow>
        n < length (cg_program g) \<and> targets_ok (cg_program g) code jt jf
        \<and> node_runs (cg_program g) n code k jt jf)"

definition gen_invar :: "code_gen \<Rightarrow> bool" where
  "gen_invar g \<longleftrightarrow> program_ok g \<and> memos_ok g"

definition extends :: "code_gen \<Rightarrow> code_gen \<Rightarrow> bool" where
  "extends g g' \<longleftrightarrow> (\<exists>added. cg_program g' = cg_program g @ added)"

lemma extends_refl [simp]: "extends g g"
  by (simp add: extends_def)

lemma extends_trans: "extends g g' \<Longrightarrow> extends g' g'' \<Longrightarrow> extends g g''"
  by (auto simp: extends_def)

lemma extends_length: "extends g g' \<Longrightarrow> length (cg_program g) \<le> length (cg_program g')"
  by (auto simp: extends_def)

lemma extends_dag_exec:
  "extends g g' \<Longrightarrow> n < length (cg_program g) \<Longrightarrow>
     dag_exec (cg_program g') d n acc valid = dag_exec (cg_program g) d n acc valid"
  by (auto simp: extends_def dag_exec_append)

lemma extends_same_node:
  "extends g g' \<Longrightarrow> m < length (cg_program g) \<Longrightarrow> n < length (cg_program g) \<Longrightarrow>
     same_node (cg_program g) m n \<Longrightarrow> same_node (cg_program g') m n"
  by (simp add: same_node_def extends_dag_exec)

lemma insn_effect_fall:
  "insn_effect d code k acc valid = EFall a v \<Longrightarrow>
     BPF_CLASS code \<noteq> BPF_JMP \<and> BPF_CLASS code \<noteq> BPF_RET"
  by (auto simp: insn_effect_def Let_def split: if_splits option.splits sum.splits)

lemma insn_effect_branch:
  "insn_effect d code k acc valid = EBranch b \<Longrightarrow> BPF_CLASS code = BPF_JMP \<and> BPF_OP code \<noteq> BPF_JA"
  by (auto simp: insn_effect_def Let_def split: if_splits option.splits sum.splits)

lemma insn_effect_jump:
  "insn_effect d code k acc valid = EJump m \<Longrightarrow> BPF_CLASS code = BPF_JMP \<and> BPF_OP code = BPF_JA"
  by (auto simp: insn_effect_def Let_def split: if_splits option.splits sum.splits)

lemma insn_effect_return:
  "insn_effect d code k acc valid = EReturn r \<Longrightarrow> BPF_CLASS code = BPF_RET"
  by (auto simp: insn_effect_def Let_def split: if_splits option.splits sum.splits)

lemma insn_effect_ja [simp]: "insn_effect d (BPF_JMP OR BPF_JA) k acc valid = EJump (unat k)"
  by (simp add: insn_effect_def bpf_code_defs)

lemma extends_node_runs:
  assumes ext: "extends g g'" and n: "n < length (cg_program g)"
    and ok: "targets_ok (cg_program g) code jt jf"
    and runs: "node_runs (cg_program g) n code k jt jf"
  shows "node_runs (cg_program g') n code k jt jf \<and> targets_ok (cg_program g') code jt jf"
proof
  show "targets_ok (cg_program g') code jt jf"
    using ok extends_length [OF ext] by (auto simp: targets_ok_def)
  show "node_runs (cg_program g') n code k jt jf"
    unfolding node_runs_def
  proof (intro allI)
    fix d acc valid
    have old: "dag_exec (cg_program g') d n acc valid = dag_exec (cg_program g) d n acc valid"
      using ext n by (rule extends_dag_exec)
    show "dag_exec (cg_program g') d n acc valid = (case insn_effect d code k acc valid of
           EReturn r \<Rightarrow> Some r
         | EFall acc' valid' \<Rightarrow> dag_exec (cg_program g') d jt acc' valid'
         | EBranch b \<Rightarrow> dag_exec (cg_program g') d (if b then jt else jf) acc valid
         | _ \<Rightarrow> None)"
    proof (cases "insn_effect d code k acc valid")
      case (EFall a v)
      then have "jt < length (cg_program g)"
        using ok insn_effect_fall [OF EFall] by (simp add: targets_ok_def)
      then show ?thesis using old runs EFall extends_dag_exec [OF ext] by (simp add: node_runs_def)
    next
      case (EBranch b)
      then have "jt < length (cg_program g)" "jf < length (cg_program g)"
        using ok insn_effect_branch [OF EBranch] by (simp_all add: targets_ok_def)
      then show ?thesis using old runs EBranch extends_dag_exec [OF ext] by (simp add: node_runs_def)
    qed (use old runs in \<open>simp_all add: node_runs_def\<close>)
  qed
qed

lemma extends_memos_ok:
  assumes "memos_ok g" and "extends g g'" and "cg_memos g' = cg_memos g"
  shows "memos_ok g'"
  unfolding memos_ok_def
proof (intro allI impI)
  fix code k jt jf n
  assume "cg_memos g' (code, k, jt, jf) = Some n"
  with assms(1,3) have old: "n < length (cg_program g)" "targets_ok (cg_program g) code jt jf"
    "node_runs (cg_program g) n code k jt jf" by (simp_all add: memos_ok_def)
  then show "n < length (cg_program g') \<and> targets_ok (cg_program g') code jt jf
      \<and> node_runs (cg_program g') n code k jt jf"
    using extends_node_runs [OF assms(2) old] extends_length [OF assms(2)] by simp
qed

lemma Inr_Pair_eq: "Inr (a, b) = Inr (c, d) \<longleftrightarrow> a = c \<and> b = d"
  by simp

lemma gen_invar_init: "gen_invar CodeGen_init"
  by (simp add: gen_invar_def program_ok_def memos_ok_def CodeGen_init_def)

subsection \<open>The operations keep the invariant\<close>

lemma Offset_eq_Inr [res_simps]:
  "Offset g target = Inr off \<longleftrightarrow>
     target < length (cg_program g) \<and> off = length (cg_program g) - 1 - target"
  by (auto simp: Offset_def res_simps)

lemma equivalent_at_eq_Inr [res_simps]:
  "equivalent_at g target = Inr e \<longleftrightarrow>
     target < length (cg_equivalent g) \<and> e = cg_equivalent g ! target"
  by (auto simp: equivalent_at_def res_simps)

text \<open>What a successful \<open>Append\<close> did, on every branch.\<close>

lemma Append_InrD:
  assumes "Append g code k jt jf = Inr (n, g')"
  shows "n = length (cg_program g)"
    and "length (cg_program g) < BPF_MAXINSNS"
    and "length (cg_equivalent g) = length (cg_program g)"
    and "g' = g\<lparr>cg_program := cg_program g @
                   [\<lparr>sf_code = code, sf_jt = of_nat jt, sf_jf = of_nat jf, sf_k = k\<rparr>],
                 cg_equivalent := cg_equivalent g @ [length (cg_program g)]\<rparr>"
    and "BPF_CLASS code = BPF_JMP \<and> BPF_OP code \<noteq> BPF_JA \<Longrightarrow> jt \<le> 255 \<and> jf \<le> 255"
    and "\<not> (BPF_CLASS code = BPF_JMP \<and> BPF_OP code \<noteq> BPF_JA) \<Longrightarrow> jt = 0 \<and> jf = 0"
  using assms by (auto simp: Append_def Let_def res_simps split: if_splits)

lemma Append_ok:
  assumes app: "Append g code k jt jf = Inr (n, g')" and ok: "program_ok g"
  shows "program_ok g'" and "extends g g'" and "cg_memos g' = cg_memos g"
    and "n < length (cg_program g')" and "length (cg_program g') = Suc n"
    and "cg_program g' ! n = \<lparr>sf_code = code, sf_jt = of_nat jt, sf_jf = of_nat jf, sf_k = k\<rparr>"
    and "length (cg_program g) = n"
proof -
  note D = Append_InrD [OF app]
  show ext: "extends g g'" using D(4) by (simp add: extends_def)
  show "cg_memos g' = cg_memos g" and "n < length (cg_program g')"
    and "length (cg_program g') = Suc n"
    and "cg_program g' ! n = \<lparr>sf_code = code, sf_jt = of_nat jt, sf_jf = of_nat jf, sf_k = k\<rparr>"
    and "length (cg_program g) = n"
    using D(1,4) by simp_all
  have "same_node (cg_program g') (cg_equivalent g' ! t) t" if "t < length (cg_program g')" for t
  proof (cases "t < length (cg_program g)")
    case True
    then have "cg_equivalent g' ! t = cg_equivalent g ! t" using D(3,4) by (simp add: nth_append)
    then show ?thesis using ok True extends_same_node [OF ext] by (simp add: program_ok_def)
  next
    case False
    then have "t = length (cg_program g)" using that D(4) by simp
    then have "cg_equivalent g' ! t = t" using D(3,4) by (simp add: nth_append)
    then show ?thesis by (simp add: same_node_def)
  qed
  moreover have "cg_equivalent g' ! t < length (cg_program g')" if "t < length (cg_program g')" for t
    using that ok D(3,4) by (auto simp: program_ok_def nth_append less_Suc_eq)
  ultimately show "program_ok g'" using D by (simp add: program_ok_def)
qed

text \<open>
  \<open>WithinRange\<close> returns a node that behaves like the target and is close enough, adding at
  most one instruction.
\<close>

lemma WithinRange_cases:
  assumes "WithinRange g target rng = Inr (m, g')"
  obtains (near) "m = target" and "g' = g" and "length (cg_program g) - 1 - target \<le> rng"
  | (eq) "m = cg_equivalent g ! target" and "g' = g" and "length (cg_program g) - 1 - m \<le> rng"
  | (jump) g1 off where "off = length (cg_program g) - 1 - target"
      and "Append g (BPF_JMP OR BPF_JA) (of_nat off) 0 0 = Inr (m, g1)"
      and "g' = g1\<lparr>cg_equivalent := (cg_equivalent g1)[target := m]\<rparr>"
proof -
  define off where "off = length (cg_program g) - 1 - target"
  obtain x where x: "Offset g target = Inr x"
    and rest: "(if x \<le> rng then Inr (target, g)
      else res_bind (equivalent_at g target) (\<lambda>eq.
       res_bind (Offset g eq) (\<lambda>eq_off.
       if eq_off \<le> rng then Inr (eq, g)
       else res_bind (Append g (BPF_JMP OR BPF_JA) (of_nat x) 0 0) (\<lambda>(jump, g).
         Inr (jump, g\<lparr>cg_equivalent := (cg_equivalent g)[target := jump]\<rparr>))))) = Inr (m, g')"
    using assms unfolding WithinRange_def by (rule res_bindE)
  have xo: "x = off" using x unfolding Offset_eq_Inr off_def by (rule conjunct2)
  show thesis
  proof (cases "x \<le> rng")
    case True
    then have "m = target" and "g' = g" using rest by (simp_all only: if_True Inr_Pair_eq)
    then show thesis using near True xo off_def by blast
  next
    case False
    with rest have "res_bind (equivalent_at g target) (\<lambda>eq.
       res_bind (Offset g eq) (\<lambda>eq_off.
       if eq_off \<le> rng then Inr (eq, g)
       else res_bind (Append g (BPF_JMP OR BPF_JA) (of_nat x) 0 0) (\<lambda>(jump, g).
         Inr (jump, g\<lparr>cg_equivalent := (cg_equivalent g)[target := jump]\<rparr>)))) = Inr (m, g')"
      by (simp only: if_False)
    then obtain e where e: "equivalent_at g target = Inr e" and rest1: "res_bind (Offset g e) (\<lambda>eq_off.
       if eq_off \<le> rng then Inr (e, g)
       else res_bind (Append g (BPF_JMP OR BPF_JA) (of_nat x) 0 0) (\<lambda>(jump, g).
         Inr (jump, g\<lparr>cg_equivalent := (cg_equivalent g)[target := jump]\<rparr>))) = Inr (m, g')"
      by (rule res_bindE)
    from rest1 obtain eo where eo: "Offset g e = Inr eo"
      and rest': "(if eo \<le> rng then Inr (e, g)
       else res_bind (Append g (BPF_JMP OR BPF_JA) (of_nat x) 0 0) (\<lambda>(jump, g).
         Inr (jump, g\<lparr>cg_equivalent := (cg_equivalent g)[target := jump]\<rparr>))) = Inr (m, g')"
      by (rule res_bindE)
    show thesis
    proof (cases "eo \<le> rng")
      case True
      then have "m = e" and "g' = g" using rest' by (simp_all only: if_True Inr_Pair_eq)
      then show thesis using eq e eo True unfolding Offset_eq_Inr equivalent_at_eq_Inr by blast
    next
      case far: False
      with rest' have "res_bind (Append g (BPF_JMP OR BPF_JA) (of_nat x) 0 0) (\<lambda>(jump, g).
         Inr (jump, g\<lparr>cg_equivalent := (cg_equivalent g)[target := jump]\<rparr>)) = Inr (m, g')"
        by (simp only: if_False)
      then obtain r where app: "Append g (BPF_JMP OR BPF_JA) (of_nat x) 0 0 = Inr r"
        and fin: "(case r of (j, g1) \<Rightarrow>
            Inr (j, g1\<lparr>cg_equivalent := (cg_equivalent g1)[target := j]\<rparr>)) = (Inr (m, g') :: abort + node \<times> code_gen)"
        by (rule res_bindE)
      obtain j g1 where r: "r = (j, g1)" by (cases r)
      from fin have "j = m" and "g1\<lparr>cg_equivalent := (cg_equivalent g1)[target := j]\<rparr> = g'"
        unfolding r prod.case Inr_Pair_eq by blast+
      then show thesis using jump [OF off_def] app r xo by blast
    qed
  qed
qed

lemma WithinRange_ok:
  assumes wr: "WithinRange g target rng = Inr (m, g')" and ok: "program_ok g"
  shows "program_ok g'" and "extends g g'" and "cg_memos g' = cg_memos g"
    and "m < length (cg_program g')" and "target < length (cg_program g)"
    and "same_node (cg_program g') m target"
    and "length (cg_program g') - 1 - m \<le> rng"
    and "length (cg_program g') \<le> Suc (length (cg_program g))"
proof -
  let ?P = "cg_program g"
  let ?e = "cg_equivalent g ! target"
  from wr show t: "target < length ?P"
    unfolding WithinRange_def by (elim res_bindE) (simp only: Offset_eq_Inr)
  from ok t have e: "?e < length ?P" "same_node ?P ?e target" and len: "length ?P \<le> 4096"
    by (simp_all add: program_ok_def)
  have all: "program_ok g' \<and> extends g g' \<and> cg_memos g' = cg_memos g \<and> m < length (cg_program g')
    \<and> same_node (cg_program g') m target \<and> length (cg_program g') - 1 - m \<le> rng
    \<and> length (cg_program g') \<le> Suc (length (cg_program g))"
    using wr
  proof (cases rule: WithinRange_cases)
    case near
    then show ?thesis using ok t by (simp add: same_node_def)
  next
    case eq
    then show ?thesis using ok e by simp
  next
    case (jump g1 off)
    note A = Append_ok [OF jump(2) ok]
    let ?P1 = "cg_program g1"
    have m: "m = length ?P" using A(7) by simp
    have k: "unat (of_nat off :: u32) = off"
      by (rule unat_of_nat_small) (use len jump(1) in simp)
    have prev: "m - 1 - off = target" and fwd: "off < m" using m t jump(1) by arith+
    have "dag_exec ?P1 d m acc valid = dag_exec ?P1 d target acc valid" for d acc valid
      using A(6) k prev fwd insn_effect_ja [of d "of_nat off" acc valid]
      by (simp add: dag_exec.simps [of ?P1 d m])
    then have same: "same_node ?P1 m target" by (simp add: same_node_def)
    have "cg_equivalent g' ! y < length (cg_program g') \<and>
        same_node (cg_program g') (cg_equivalent g' ! y) y" if "y < length (cg_program g')" for y
      using that A(1,4) same jump(3) by (cases "y = target") (simp_all add: program_ok_def)
    then have "program_ok g'" using A(1) jump(3) by (simp add: program_ok_def)
    then show ?thesis
      using A same jump(3) by (simp add: extends_def)
  qed
  then show "program_ok g'" "extends g g'" "cg_memos g' = cg_memos g" "m < length (cg_program g')"
    "same_node (cg_program g') m target" "length (cg_program g') - 1 - m \<le> rng"
    "length (cg_program g') \<le> Suc (length (cg_program g))" by blast+
qed

text \<open>What an instruction runs, read off its encoded offsets.\<close>

lemma encoded_node_runs:
  assumes i: "P ! n = \<lparr>sf_code = code, sf_jt = of_nat jo, sf_jf = of_nat fo, sf_k = k\<rparr>"
    and branch: "BPF_CLASS code = BPF_JMP \<Longrightarrow> BPF_OP code \<noteq> BPF_JA \<and> jo \<le> 255 \<and> fo \<le> 255
      \<and> jo < n \<and> fo < n \<and> same_node P (n - 1 - jo) jt \<and> same_node P (n - 1 - fo) jf"
    and fall: "BPF_CLASS code \<noteq> BPF_JMP \<Longrightarrow> jo = 0 \<and> fo = 0"
    and succ: "BPF_CLASS code \<noteq> BPF_JMP \<Longrightarrow> BPF_CLASS code \<noteq> BPF_RET \<Longrightarrow>
      0 < n \<and> same_node P (n - 1) jt"
  shows "node_runs P n code k jt jf"
  unfolding node_runs_def
proof (intro allI)
  fix d acc valid
  show "dag_exec P d n acc valid = (case insn_effect d code k acc valid of
           EReturn r \<Rightarrow> Some r
         | EFall acc' valid' \<Rightarrow> dag_exec P d jt acc' valid'
         | EBranch b \<Rightarrow> dag_exec P d (if b then jt else jf) acc valid
         | _ \<Rightarrow> None)"
  proof (cases "insn_effect d code k acc valid")
    case (EFall a v)
    then show ?thesis
      using i fall succ insn_effect_fall [OF EFall] by (simp add: dag_exec.simps [of P d n] same_node_def)
  next
    case (EBranch b)
    note B = branch [OF conjunct1 [OF insn_effect_branch [OF EBranch]]]
    have jo: "unat (of_nat jo :: u8) = jo" and fo: "unat (of_nat fo :: u8) = fo"
      using B by (simp_all add: unat_of_nat_small)
    show ?thesis
      using i EBranch B jo fo by (simp add: dag_exec.simps [of P d n] same_node_def)
  next
    case (EJump m)
    then show ?thesis using branch insn_effect_jump [OF EJump] by blast
  qed (use i in \<open>simp_all add: dag_exec.simps [of P d n]\<close>)
qed

definition added_ok :: "nat \<Rightarrow> code_gen \<Rightarrow> u16 \<Rightarrow> u32 \<Rightarrow> node \<Rightarrow> node \<Rightarrow> node \<Rightarrow> code_gen \<Rightarrow> bool" where
  "added_ok b g code k jt jf n g' \<longleftrightarrow>
     program_ok g' \<and> extends g g' \<and> cg_memos g' = cg_memos g
   \<and> n < length (cg_program g') \<and> targets_ok (cg_program g') code jt jf
   \<and> node_runs (cg_program g') n code k jt jf
   \<and> length (cg_program g') \<le> length (cg_program g) + b"

lemma AppendInstruction_branch_ok:
  assumes cls: "BPF_CLASS code = BPF_JMP" "BPF_OP code \<noteq> BPF_JA" and ok: "program_ok g"
    and w1: "WithinRange g jt 254 = Inr (jt', g1)" and w2: "WithinRange g1 jf 255 = Inr (jf', g2)"
    and app: "Append g2 code k (length (cg_program g2) - 1 - jt') (length (cg_program g2) - 1 - jf')
      = Inr (n, g')"
  shows "added_ok 3 g code k jt jf n g'"
proof -
  note W1 = WithinRange_ok [OF w1 ok]
  note W2 = WithinRange_ok [OF w2 W1(1)]
  note A = Append_ok [OF app W2(1)]
  note D = Append_InrD [OF app]
  have l: "length (cg_program g1) \<le> n" "n = length (cg_program g2)"
    using A(7) extends_length [OF W2(2)] by simp_all
  have jt': "jt' < n" and jf': "jf' < n" using W1(4) W2(4) l by simp_all
  have "extends g1 g'" using W2(2) A(2) by (rule extends_trans)
  then have s1: "same_node (cg_program g') jt' jt"
    using extends_same_node W1(4,5,6) extends_length [OF W1(2)] by (meson order_less_le_trans)
  have s2: "same_node (cg_program g') jf' jf"
    using extends_same_node [OF A(2)] W2(4,5,6) extends_length [OF W2(2)]
    by (meson order_less_le_trans)
  define jo fo where "jo = length (cg_program g2) - 1 - jt'" and "fo = length (cg_program g2) - 1 - jf'"
  have off: "n - 1 - jo = jt'" "n - 1 - fo = jf'" "jo < n" "fo < n"
    using jt' jf' l unfolding jo_def fo_def by arith+
  have app': "Append g2 code k jo fo = Inr (n, g')" using app by (simp only: jo_def fo_def)
  have "node_runs (cg_program g') n code k jt jf"
    by (rule encoded_node_runs [OF Append_ok(6) [OF app' W2(1)]])
       (use cls Append_InrD(5) [OF app'] off s1 s2 in \<open>simp_all only: simp_thms\<close>)
  moreover have "jt < length (cg_program g')" "jf < length (cg_program g')"
    using W1(5) W2(5) extends_length [OF W1(2)] l A(4) by linarith+
  ultimately show ?thesis
    using cls A W1 W2 extends_trans [OF extends_trans [OF W1(2) W2(2)] A(2)]
    by (simp add: added_ok_def targets_ok_def)
qed

lemma AppendInstruction_fall_ok:
  assumes cls: "BPF_CLASS code \<noteq> BPF_JMP" "BPF_CLASS code \<noteq> BPF_RET" and ok: "program_ok g"
    and w: "WithinRange g jt 0 = Inr (jt', g1)" and off: "Offset g1 jt' = Inr 0"
    and app: "Append g1 code k 0 0 = Inr (n, g')"
  shows "added_ok 3 g code k jt jf n g'"
proof -
  note W = WithinRange_ok [OF w ok]
  note A = Append_ok [OF app W(1)]
  have jt': "jt' = n - 1" "0 < n" using off W(4) A(7) by (auto simp: Offset_eq_Inr)
  have "same_node (cg_program g') jt' jt"
    using extends_same_node [OF A(2)] W(4,5,6) extends_length [OF W(2)]
    by (meson order_less_le_trans)
  then have "node_runs (cg_program g') n code k jt jf"
    using cls jt' by (intro encoded_node_runs [OF A(6)]) simp_all
  moreover have "jt < length (cg_program g')"
    using W(5) extends_length [OF W(2)] A(4,7) by linarith
  ultimately show ?thesis
    using cls A W extends_trans [OF W(2) A(2)] by (simp add: added_ok_def targets_ok_def)
qed

lemma AppendInstruction_ret_ok:
  assumes cls: "BPF_CLASS code = BPF_RET" and ok: "program_ok g"
    and app: "Append g code k 0 0 = Inr (n, g')"
  shows "added_ok 3 g code k jt jf n g'"
proof -
  note A = Append_ok [OF app ok]
  have ne: "(BPF_RET :: u16) \<noteq> BPF_JMP" by simp
  have "node_runs (cg_program g') n code k jt jf"
    using cls ne by (intro encoded_node_runs [OF A(6)]) simp_all
  then show ?thesis using cls ne A by (simp add: added_ok_def targets_ok_def)
qed

lemma AppendInstruction_ok:
  assumes ap: "AppendInstruction g code k jt jf = Inr (n, g')" and ok: "program_ok g"
  shows "added_ok 3 g code k jt jf n g'"
proof (cases "BPF_CLASS code = BPF_JMP")
  case True
  note ap1 = ap [unfolded AppendInstruction_def if_P [OF True]]
  from ap1 have ja: "BPF_OP code \<noteq> BPF_JA" by (rule checkE) simp
  from ap1 obtain x1 where "WithinRange g jt (kBranchRange - 1) = Inr x1"
    and r1: "(case x1 of (jt, g) \<Rightarrow> res_bind (WithinRange g jf kBranchRange) (\<lambda>(jf, g).
        res_bind (Offset g jt) (\<lambda>jt_off. res_bind (Offset g jf) (\<lambda>jf_off.
        Append g code k jt_off jf_off)))) = Inr (n, g')"
    by (elim checkE) (erule res_bindE)
  moreover obtain jt' g1 where "x1 = (jt', g1)" by (cases x1)
  ultimately have w1: "WithinRange g jt 254 = Inr (jt', g1)"
    and r1: "res_bind (WithinRange g1 jf kBranchRange) (\<lambda>(jf, g).
        res_bind (Offset g jt') (\<lambda>jt_off. res_bind (Offset g jf) (\<lambda>jf_off.
        Append g code k jt_off jf_off))) = Inr (n, g')" by simp_all
  from r1 obtain x2 where "WithinRange g1 jf kBranchRange = Inr x2"
    and r2: "(case x2 of (jf, g) \<Rightarrow>
        res_bind (Offset g jt') (\<lambda>jt_off. res_bind (Offset g jf) (\<lambda>jf_off.
        Append g code k jt_off jf_off))) = Inr (n, g')" by (rule res_bindE)
  moreover obtain jf' g2 where "x2 = (jf', g2)" by (cases x2)
  ultimately have w2: "WithinRange g1 jf 255 = Inr (jf', g2)"
    and r2: "res_bind (Offset g2 jt') (\<lambda>jt_off. res_bind (Offset g2 jf') (\<lambda>jf_off.
        Append g2 code k jt_off jf_off)) = Inr (n, g')" by simp_all
  from r2 have "Append g2 code k (length (cg_program g2) - 1 - jt') (length (cg_program g2) - 1 - jf')
      = Inr (n, g')"
    by (elim res_bindE) (simp only: Offset_eq_Inr)
  with True ja ok w1 w2 show ?thesis by (rule AppendInstruction_branch_ok)
next
  case False
  show ?thesis
  proof (cases "BPF_CLASS code = BPF_RET")
    case True
    from ap [unfolded AppendInstruction_def if_not_P [OF False] if_P [OF True]]
    have "Append g code k 0 0 = Inr (n, g')" by (elim checkE)
    with True ok show ?thesis by (rule AppendInstruction_ret_ok)
  next
    case ret: False
    from ap [unfolded AppendInstruction_def if_not_P [OF False] if_not_P [OF ret]]
    obtain x where w: "WithinRange g jt 0 = Inr x"
      and r: "(case x of (jt, g) \<Rightarrow> res_bind (Offset g jt) (\<lambda>off.
          res_bind (check (0 = off) ''ICE: Failed to setup next instruction'') (\<lambda>_.
          Append g code k 0 0))) = Inr (n, g')"
      by (elim checkE) (erule res_bindE)
    obtain jt' g1 where x: "x = (jt', g1)" by (cases x)
    from r have "Offset g1 jt' = Inr 0" and "Append g1 code k 0 0 = Inr (n, g')"
      by (auto simp: x elim!: res_bindE checkE)
    with False ret ok w x show ?thesis by (intro AppendInstruction_fall_ok) simp_all
  qed
qed

text \<open>What a successful \<open>MakeInstruction\<close> gives, whether it met a memo or emitted code.\<close>

lemma MakeInstruction_ok:
  assumes mk: "MakeInstruction g code k jt jf = Inr (n, g')" and inv: "gen_invar g"
  shows "gen_invar g'" and "extends g g'" and "n < length (cg_program g')"
    and "targets_ok (cg_program g') code jt jf" and "node_runs (cg_program g') n code k jt jf"
    and "cg_memos g' (code, k, jt, jf) = Some n"
    and "length (cg_program g') \<le> length (cg_program g) + 3"
proof -
  have "gen_invar g' \<and> extends g g' \<and> n < length (cg_program g')
    \<and> targets_ok (cg_program g') code jt jf \<and> node_runs (cg_program g') n code k jt jf
    \<and> cg_memos g' (code, k, jt, jf) = Some n
    \<and> length (cg_program g') \<le> length (cg_program g) + 3"
  proof (cases "cg_memos g (code, k, jt, jf)")
    case (Some m)
    then show ?thesis using mk inv by (simp add: MakeInstruction_def gen_invar_def memos_ok_def)
  next
    case None
    let ?g0 = "g\<lparr>cg_memos := (cg_memos g)((code, k, jt, jf) \<mapsto> kNullNode)\<rparr>"
    from mk None obtain g1 where ap: "AppendInstruction ?g0 code k jt jf = Inr (n, g1)"
      and g': "g' = g1\<lparr>cg_memos := (cg_memos g1)((code, k, jt, jf) \<mapsto> n)\<rparr>"
      by (auto simp: MakeInstruction_def res_bind_eq_Inr split: prod.splits)
    from inv have "program_ok ?g0" by (simp add: gen_invar_def program_ok_def)
    with ap have added: "added_ok 3 ?g0 code k jt jf n g1" by (rule AppendInstruction_ok)
    let ?old = "g1\<lparr>cg_memos := cg_memos g\<rparr>"
    have ext: "extends g ?old" using added by (simp add: added_ok_def extends_def)
    have "memos_ok g" using inv by (simp only: gen_invar_def)
    then have "memos_ok ?old" using ext by (rule extends_memos_ok) simp
    then have "memos_ok g'"
      using added by (auto simp: g' added_ok_def memos_ok_def)
    then show ?thesis
      using added by (simp add: g' added_ok_def gen_invar_def program_ok_def extends_def)
  qed
  then show "gen_invar g'" "extends g g'" "n < length (cg_program g')"
    "targets_ok (cg_program g') code jt jf" "node_runs (cg_program g') n code k jt jf"
    "cg_memos g' (code, k, jt, jf) = Some n"
    "length (cg_program g') \<le> length (cg_program g) + 3" by blast+
qed

lemma CodeGen_Compile_take:
  assumes "CodeGen_Compile g head = Inr prog"
  shows "head < length (cg_program g)" and "prog = rev (take (Suc head) (cg_program g))"
    and "length prog = Suc head"
proof -
  let ?P = "cg_program g"
  from assms have head: "head < length ?P" and "prog = drop (length ?P - 1 - head) (rev ?P)"
    by (simp_all only: CodeGen_Compile_def res_bind_eq_Inr Offset_eq_Inr) blast+
  then show "head < length ?P" "prog = rev (take (Suc head) ?P)" "length prog = Suc head"
    by (simp_all add: rev_take)
qed

lemma CodeGen_Compile_runs:
  assumes "CodeGen_Compile g head = Inr prog" and "gen_invar g"
    and "dag_exec (cg_program g) d head 0 False = Some r"
  shows "EvaluateBPF prog d = Some (Inr r)"
proof -
  let ?P = "cg_program g"
  note head = CodeGen_Compile_take(1) [OF assms(1)] and prog = CodeGen_Compile_take(2) [OF assms(1)]
    and lp = CodeGen_Compile_take(3) [OF assms(1)]
  have len: "length ?P \<le> BPF_MAXINSNS" using assms(2) by (simp add: gen_invar_def program_ok_def)
  have "eval_loop (Suc head) prog d \<lparr>st_ip = ip_of head head, st_accumulator = 0, st_acc_is_valid = False\<rparr>
      = Some (Inr r)"
    using machine_simulates_dag [OF assms(3) _ head len] by (simp only: prog)
  then have "eval_loop (Suc head) prog d State = Some (Inr r)"
    by (simp add: State_def ip_of_def)
  then have "eval_loop (Suc (Suc head)) prog d State = Some (Inr r)"
    by (rule eval_loop_Some_mono) simp
  then show ?thesis using lp head len by (simp add: EvaluateBPF_def del: eval_loop.simps)
qed

subsection \<open>The generator's checks do not fail\<close>

text \<open>The arguments \<open>MakeInstruction\<close> asks for, by instruction class.\<close>

definition args_ok :: "code_gen \<Rightarrow> u16 \<Rightarrow> node \<Rightarrow> node \<Rightarrow> bool" where
  "args_ok g code jt jf \<longleftrightarrow>
     (if BPF_CLASS code = BPF_JMP
      then BPF_OP code \<noteq> BPF_JA \<and> jt < length (cg_program g) \<and> jf < length (cg_program g)
      else jf = kNullNode \<and>
        (if BPF_CLASS code = BPF_RET then jt = kNullNode else jt < length (cg_program g)))"

lemma Append_total:
  assumes "program_ok g" and "length (cg_program g) < BPF_MAXINSNS"
    and "if BPF_CLASS code = BPF_JMP \<and> BPF_OP code \<noteq> BPF_JA then jt \<le> 255 \<and> jf \<le> 255
      else jt = 0 \<and> jf = 0"
  shows "\<exists>n g'. Append g code k jt jf = Inr (n, g')"
  using assms by (auto simp: Append_def program_ok_def Let_def)

lemma WithinRange_total:
  assumes ok: "program_ok g" and t: "target < length (cg_program g)"
    and room: "length (cg_program g) < BPF_MAXINSNS"
  shows "\<exists>m g'. WithinRange g target rng = Inr (m, g')"
proof -
  let ?P = "cg_program g"
  define off where "off = length ?P - 1 - target"
  let ?e = "cg_equivalent g ! target"
  have e: "?e < length ?P" using ok t by (simp only: program_ok_def)
  have o1: "Offset g target = Inr off" using t by (simp only: Offset_eq_Inr off_def)
  have o2: "equivalent_at g target = Inr ?e"
    using t ok by (simp only: equivalent_at_eq_Inr program_ok_def)
  have o3: "Offset g ?e = Inr (length ?P - 1 - ?e)" using e by (simp only: Offset_eq_Inr)
  have "\<exists>n g'. Append g (BPF_JMP OR BPF_JA) (of_nat off) 0 0 = Inr (n, g')"
    by (rule Append_total [OF ok room]) (simp add: bpf_code_defs)
  then obtain n g1 where a: "Append g (BPF_JMP OR BPF_JA) (of_nat off) 0 0 = Inr (n, g1)" by blast
  show ?thesis
    unfolding WithinRange_def o1 res_bind_Inr o2 o3 a prod.case
    by (cases "off \<le> rng"; cases "length ?P - 1 - ?e \<le> rng") (simp_all only: if_True if_False, blast+)
qed

lemma AppendInstruction_total:
  assumes ok: "program_ok g" and args: "args_ok g code jt jf"
    and room: "length (cg_program g) + 3 \<le> BPF_MAXINSNS"
  shows "\<exists>n g'. AppendInstruction g code k jt jf = Inr (n, g')"
proof (cases "BPF_CLASS code = BPF_JMP")
  case True
  with args have a: "BPF_JA \<noteq> BPF_OP code" "jt < length (cg_program g)" "jf < length (cg_program g)"
    by (auto simp: args_ok_def)
  obtain jt' g1 where w1: "WithinRange g jt (kBranchRange - 1) = Inr (jt', g1)"
    using WithinRange_total [OF ok a(2), of "kBranchRange - 1"] room by auto
  note W1 = WithinRange_ok [OF w1 ok]
  have "jf < length (cg_program g1)" using a(3) extends_length [OF W1(2)] by simp
  then obtain jf' g2 where w2: "WithinRange g1 jf kBranchRange = Inr (jf', g2)"
    using WithinRange_total [OF W1(1), of jf kBranchRange] W1(8) room by auto
  note W2 = WithinRange_ok [OF w2 W1(1)]
  define jo fo where "jo = length (cg_program g2) - 1 - jt'" and "fo = length (cg_program g2) - 1 - jf'"
  have "jt' < length (cg_program g2)" using W1(4) extends_length [OF W2(2)] by simp
  then have o1: "Offset g2 jt' = Inr jo" by (simp only: Offset_eq_Inr jo_def)
  have o2: "Offset g2 jf' = Inr fo" using W2(4) by (simp only: Offset_eq_Inr fo_def)
  have "jo \<le> 255" using W1(7) W2(8) unfolding jo_def by linarith
  moreover have "fo \<le> 255" using W2(7) unfolding fo_def by simp
  ultimately have "\<exists>n g'. Append g2 code k jo fo = Inr (n, g')"
    using W1(8) W2(8) room a(1) True by (intro Append_total [OF W2(1)]) simp_all
  then show ?thesis
    unfolding AppendInstruction_def if_P [OF True] w1 res_bind_Inr prod.case w2 o1 o2
    using a(1) by simp
next
  case False
  show ?thesis
  proof (cases "BPF_CLASS code = BPF_RET")
    case True
    then have "\<exists>n g'. Append g code k 0 0 = Inr (n, g')"
      using False room by (intro Append_total [OF ok]) simp_all
    then show ?thesis
      using args False True by (simp add: AppendInstruction_def args_ok_def)
  next
    case ret: False
    with args False have a: "jt < length (cg_program g)" "jf = kNullNode" by (auto simp: args_ok_def)
    obtain jt' g1 where w: "WithinRange g jt 0 = Inr (jt', g1)"
      using WithinRange_total [OF ok a(1), of 0] room by auto
    note W = WithinRange_ok [OF w ok]
    have o: "Offset g1 jt' = Inr 0" using W(4,7) by (simp add: Offset_eq_Inr)
    have "\<exists>n g'. Append g1 code k 0 0 = Inr (n, g')"
      using False W(8) room by (intro Append_total [OF W(1)]) simp_all
    then show ?thesis
      unfolding AppendInstruction_def if_not_P [OF False] if_not_P [OF ret] w res_bind_Inr prod.case o
      using a(2) by simp
  qed
qed

subsection \<open>Only forward jumps inside the program\<close>

text \<open>
  The static checks the kernel's classic BPF loader makes of control flow: every jump lands
  inside the program, and only a return instruction can be the last one. \<open>n\<close> is the number of
  instructions after the given one.
\<close>

definition insn_shape :: "nat \<Rightarrow> sock_filter \<Rightarrow> bool" where
  "insn_shape n i \<longleftrightarrow>
     (if BPF_CLASS (sf_code i) = BPF_JMP then
        (if BPF_OP (sf_code i) = BPF_JA then unat (sf_k i) < n
         else unat (sf_jt i) < n \<and> unat (sf_jf i) < n)
      else BPF_CLASS (sf_code i) = BPF_RET \<or> 0 < n)"

definition shape_ok :: "sock_filter list \<Rightarrow> bool" where
  "shape_ok P \<longleftrightarrow> (\<forall>n < length P. insn_shape n (P ! n))"

lemma Append_shape:
  assumes "Append g code k jt jf = Inr (n, g')" and "shape_ok (cg_program g)"
    and "insn_shape n \<lparr>sf_code = code, sf_jt = of_nat jt, sf_jf = of_nat jf, sf_k = k\<rparr>"
  shows "shape_ok (cg_program g')"
  using assms(2,3) Append_InrD(1,4) [OF assms(1)]
  by (auto simp: shape_ok_def nth_append less_Suc_eq)

lemma WithinRange_shape:
  assumes wr: "WithinRange g target rng = Inr (m, g')" and ok: "program_ok g"
    and shape: "shape_ok (cg_program g)"
  shows "shape_ok (cg_program g')"
  using wr
proof (cases rule: WithinRange_cases)
  case (jump g1 off)
  have "off < length (cg_program g)" using WithinRange_ok(5) [OF wr ok] jump(1) by arith
  moreover have "length (cg_program g) \<le> 4096" using ok by (simp add: program_ok_def)
  moreover have "n = length (cg_program g)" if "Append g (BPF_JMP OR BPF_JA) (of_nat off) 0 0 = Inr (n, g1)" for n
    using Append_InrD(1) [OF that] .
  ultimately have "insn_shape m \<lparr>sf_code = BPF_JMP OR BPF_JA, sf_jt = of_nat 0, sf_jf = of_nat 0, sf_k = of_nat off\<rparr>"
    using jump(2) by (auto simp: insn_shape_def bpf_code_defs unat_of_nat_small)
  then show ?thesis using Append_shape [OF jump(2) shape] jump(3) by simp
qed (use shape in simp_all)

lemma AppendInstruction_shape:
  assumes ap: "AppendInstruction g code k jt jf = Inr (n, g')" and ok: "program_ok g"
    and shape: "shape_ok (cg_program g)"
  shows "shape_ok (cg_program g')"
proof (cases "BPF_CLASS code = BPF_JMP")
  case True
  note ap1 = ap [unfolded AppendInstruction_def if_P [OF True]]
  from ap1 have ja: "BPF_OP code \<noteq> BPF_JA" by (rule checkE) simp
  from ap1 obtain jt' g1 where w1: "WithinRange g jt (kBranchRange - 1) = Inr (jt', g1)"
    and r1: "res_bind (WithinRange g1 jf kBranchRange) (\<lambda>(jf, g).
        res_bind (Offset g jt') (\<lambda>jt_off. res_bind (Offset g jf) (\<lambda>jf_off.
        Append g code k jt_off jf_off))) = Inr (n, g')"
    by (elim checkE) (erule res_bindE, clarsimp simp only: prod.case split: prod.splits)
  from r1 obtain jf' g2 where w2: "WithinRange g1 jf kBranchRange = Inr (jf', g2)"
    and r2: "res_bind (Offset g2 jt') (\<lambda>jt_off. res_bind (Offset g2 jf') (\<lambda>jf_off.
        Append g2 code k jt_off jf_off)) = Inr (n, g')"
    by (erule_tac res_bindE) (clarsimp simp only: prod.case split: prod.splits)
  from r2 obtain jo fo where o1: "Offset g2 jt' = Inr jo" and o2: "Offset g2 jf' = Inr fo"
    and app: "Append g2 code k jo fo = Inr (n, g')"
    by (elim res_bindE) blast
  note W1 = WithinRange_ok [OF w1 ok]
  have s2: "shape_ok (cg_program g2)"
    using WithinRange_shape [OF w2 W1(1)] WithinRange_shape [OF w1 ok shape] by blast
  have "jo < n" "fo < n"
    using o1 o2 Append_InrD(1) [OF app] unfolding Offset_eq_Inr by arith+
  moreover have "jo \<le> 255 \<and> fo \<le> 255" using Append_InrD(5) [OF app] True ja by blast
  ultimately show ?thesis
    using True ja by (intro Append_shape [OF app s2]) (simp add: insn_shape_def unat_of_nat_small)
next
  case False
  show ?thesis
  proof (cases "BPF_CLASS code = BPF_RET")
    case True
    from ap [unfolded AppendInstruction_def if_not_P [OF False] if_P [OF True]]
    have app: "Append g code k 0 0 = Inr (n, g')" by (elim checkE)
    show ?thesis using False True by (intro Append_shape [OF app shape]) (simp add: insn_shape_def)
  next
    case ret: False
    from ap [unfolded AppendInstruction_def if_not_P [OF False] if_not_P [OF ret]]
    obtain jt' g1 where w: "WithinRange g jt 0 = Inr (jt', g1)"
      and r: "res_bind (Offset g1 jt') (\<lambda>off.
          res_bind (check (0 = off) ''ICE: Failed to setup next instruction'') (\<lambda>_.
          Append g1 code k 0 0)) = Inr (n, g')"
      by (elim checkE) (erule res_bindE, clarsimp simp only: prod.case split: prod.splits)
    from r have o: "Offset g1 jt' = Inr 0" and app: "Append g1 code k 0 0 = Inr (n, g')"
      by (auto elim!: res_bindE checkE)
    have "0 < n" using o Append_InrD(1) [OF app] unfolding Offset_eq_Inr by linarith
    then show ?thesis
      using False ret WithinRange_shape [OF w ok shape]
      by (intro Append_shape [OF app]) (simp_all add: insn_shape_def)
  qed
qed

lemma MakeInstruction_shape:
  assumes mk: "MakeInstruction g code k jt jf = Inr (n, g')" and inv: "gen_invar g"
    and shape: "shape_ok (cg_program g)"
  shows "shape_ok (cg_program g')"
proof (cases "cg_memos g (code, k, jt, jf)")
  case (Some m)
  then show ?thesis using mk shape by (simp add: MakeInstruction_def)
next
  case None
  let ?g0 = "g\<lparr>cg_memos := (cg_memos g)((code, k, jt, jf) \<mapsto> kNullNode)\<rparr>"
  from mk None obtain g1 where ap: "AppendInstruction ?g0 code k jt jf = Inr (n, g1)"
    and g': "g' = g1\<lparr>cg_memos := (cg_memos g1)((code, k, jt, jf) \<mapsto> n)\<rparr>"
    by (auto simp: MakeInstruction_def res_bind_eq_Inr split: prod.splits)
  from inv have "program_ok ?g0" by (simp add: gen_invar_def program_ok_def)
  with AppendInstruction_shape [OF ap] shape show ?thesis by (simp add: g')
qed

subsection \<open>Generators in use\<close>

text \<open>The states of a generator that a client of \<open>MakeInstruction\<close> can bring about.\<close>

inductive gen_reachable :: "code_gen \<Rightarrow> bool" where
  init: "gen_reachable CodeGen_init"
| make: "gen_reachable g \<Longrightarrow> MakeInstruction g code k jt jf = Inr (n, g') \<Longrightarrow> gen_reachable g'"

lemma gen_reachable_invar: "gen_reachable g \<Longrightarrow> gen_invar g \<and> shape_ok (cg_program g)"
proof (induction rule: gen_reachable.induct)
  case init
  then show ?case using gen_invar_init by (simp add: shape_ok_def CodeGen_init_def)
next
  case (make g code k jt jf n g')
  then show ?case using MakeInstruction_ok(1) MakeInstruction_shape by blast
qed

text \<open>A small generator for the examples: \<open>ret ALLOW\<close>, \<open>ret KILL\<close> and a test of the number.\<close>

definition example_gen :: "abort + (node \<times> code_gen)" where
  "example_gen =
     res_bind (MakeInstruction CodeGen_init BPF_RET SECCOMP_RET_ALLOW kNullNode kNullNode) (\<lambda>(a, g).
     res_bind (MakeInstruction g BPF_RET SECCOMP_RET_KILL kNullNode kNullNode) (\<lambda>(b, g).
     res_bind (MakeInstruction g (BPF_JMP OR BPF_JEQ OR BPF_K) 39 a b) (\<lambda>(c, g).
     MakeInstruction g (BPF_LD OR BPF_W OR BPF_ABS) SECCOMP_NR_IDX c kNullNode)))"

definition example_state :: code_gen where
  "example_state = \<lparr>
     cg_program =
       [\<lparr>sf_code = BPF_RET, sf_jt = 0, sf_jf = 0, sf_k = SECCOMP_RET_ALLOW\<rparr>,
        \<lparr>sf_code = BPF_RET, sf_jt = 0, sf_jf = 0, sf_k = SECCOMP_RET_KILL\<rparr>,
        \<lparr>sf_code = 21, sf_jt = 1, sf_jf = 0, sf_k = 39\<rparr>,
        \<lparr>sf_code = 32, sf_jt = 0, sf_jf = 0, sf_k = 0\<rparr>],
     cg_equivalent = [0, Suc 0, Suc (Suc 0), Suc (Suc (Suc 0))],
     cg_memos =
       [(BPF_RET, SECCOMP_RET_ALLOW, kNullNode, kNullNode) \<mapsto> 0,
        (BPF_RET, SECCOMP_RET_KILL, kNullNode, kNullNode) \<mapsto> Suc 0,
        (21, 39, 0, Suc 0) \<mapsto> Suc (Suc 0),
        (32, 0, Suc (Suc 0), kNullNode) \<mapsto> Suc (Suc (Suc 0))]\<rparr>"

lemmas make_simps = MakeInstruction_def AppendInstruction_def Append_def WithinRange_def Offset_def
  bpf_code_defs

lemma example_gen_value: "example_gen = Inr (Suc (Suc (Suc 0)), example_state)"
  by (simp add: example_gen_def example_state_def CodeGen_init_def make_simps SECCOMP_NR_IDX_def)

lemma example_state_reachable: "gen_reachable example_state"
proof -
  from example_gen_value obtain a g1 b g2 c g3 where
    1: "MakeInstruction CodeGen_init BPF_RET SECCOMP_RET_ALLOW kNullNode kNullNode = Inr (a, g1)"
    and 2: "MakeInstruction g1 BPF_RET SECCOMP_RET_KILL kNullNode kNullNode = Inr (b, g2)"
    and 3: "MakeInstruction g2 (BPF_JMP OR BPF_JEQ OR BPF_K) 39 a b = Inr (c, g3)"
    and 4: "MakeInstruction g3 (BPF_LD OR BPF_W OR BPF_ABS) SECCOMP_NR_IDX c kNullNode
      = Inr (Suc (Suc (Suc 0)), example_state)"
    unfolding example_gen_def by (elim res_bind_pairE)
  show ?thesis
    by (rule gen_reachable.make [OF gen_reachable.make [OF gen_reachable.make
          [OF gen_reachable.make [OF gen_reachable.init 1] 2] 3] 4])
qed

lemma Compile_shape:
  assumes "CodeGen_Compile g head = Inr prog" and "gen_invar g" and "shape_ok (cg_program g)"
  shows "0 < length prog \<and> length prog \<le> BPF_MAXINSNS
    \<and> (\<forall>i < length prog. insn_shape (length prog - 1 - i) (prog ! i))"
proof -
  note C = CodeGen_Compile_take [OF assms(1)]
  have "length (cg_program g) \<le> BPF_MAXINSNS"
    using assms(2) by (simp add: gen_invar_def program_ok_def)
  moreover have "insn_shape (length prog - 1 - i) (prog ! i)" if "i < length prog" for i
    using that C assms(3) by (simp add: rev_nth shape_ok_def)
  ultimately show ?thesis using C by simp
qed

subsection \<open>Properties of the generator\<close>

text \<open>
  C10: \<open>CodeGen::MakeInstruction\<close> is sound. Whatever instructions the generator holds, the node
  it returns executes the requested instruction and continues at the requested nodes, through
  however many jumps the 8-bit offsets made it emit; and every earlier node keeps its meaning.
\<close>

theorem MakeInstruction_sound:
  assumes "gen_reachable g" and "MakeInstruction g code k jt jf = Inr (n, g')"
  shows "node_runs (cg_program g') n code k jt jf
    \<and> (\<forall>m d acc valid. m < length (cg_program g) \<longrightarrow>
         dag_exec (cg_program g') d m acc valid = dag_exec (cg_program g) d m acc valid)"
  using MakeInstruction_ok(2,5) [OF assms(2)] gen_reachable_invar [OF assms(1)] extends_dag_exec
  by blast

theorem MakeInstruction_sound_witness:
  "\<exists>n g'. MakeInstruction example_state BPF_RET SECCOMP_RET_TRAP kNullNode kNullNode = Inr (n, g')
     \<and> node_runs (cg_program g') n BPF_RET SECCOMP_RET_TRAP kNullNode kNullNode
     \<and> (\<forall>d. dag_exec (cg_program g') d 0 0 False = dag_exec (cg_program example_state) d 0 0 False)"
proof -
  have "\<exists>n g'. MakeInstruction example_state BPF_RET SECCOMP_RET_TRAP kNullNode kNullNode = Inr (n, g')"
    by (simp add: example_state_def make_simps)
  then obtain n g' where
    m: "MakeInstruction example_state BPF_RET SECCOMP_RET_TRAP kNullNode kNullNode = Inr (n, g')" by blast
  have "0 < length (cg_program example_state)" by (simp add: example_state_def)
  with MakeInstruction_sound [OF example_state_reachable m] m show ?thesis by blast
qed

text \<open>
  None of the generator's internal checks can fail. Given arguments of the form the
  instruction's class asks for and room for three more instructions, \<open>MakeInstruction\<close> returns:
  the offsets it computes fit in eight bits even when it emits jumps for both targets, and the
  instruction it arranges to fall through to is adjacent.
\<close>

lemma MakeInstruction_never_aborts:
  assumes "gen_reachable g" and "args_ok g code jt jf"
    and "length (cg_program g) + 3 \<le> BPF_MAXINSNS"
  shows "\<exists>n g'. MakeInstruction g code k jt jf = Inr (n, g')"
proof (cases "cg_memos g (code, k, jt, jf)")
  case (Some m)
  then show ?thesis by (simp add: MakeInstruction_def)
next
  case None
  let ?g0 = "g\<lparr>cg_memos := (cg_memos g)((code, k, jt, jf) \<mapsto> kNullNode)\<rparr>"
  have "program_ok ?g0"
    using gen_reachable_invar [OF assms(1)] by (simp add: gen_invar_def program_ok_def)
  moreover have "args_ok ?g0 code jt jf" using assms(2) by (simp add: args_ok_def)
  ultimately have "\<exists>n g'. AppendInstruction ?g0 code k jt jf = Inr (n, g')"
    using assms(3) by (intro AppendInstruction_total) simp_all
  then show ?thesis using None by (auto simp: MakeInstruction_def)
qed

lemma MakeInstruction_never_aborts_witness:
  "\<exists>n g'. MakeInstruction example_state (BPF_JMP OR BPF_JSET OR BPF_K) 7 0 1 = Inr (n, g')"
  by (rule MakeInstruction_never_aborts [OF example_state_reachable])
     (simp_all add: args_ok_def example_state_def bpf_code_defs)

text \<open>
  Common subexpressions are shared: making the same instruction again returns the same
  node and leaves the generator as it was.
\<close>

lemma MakeInstruction_memoized:
  assumes "gen_reachable g" and "MakeInstruction g code k jt jf = Inr (n, g')"
  shows "MakeInstruction g' code k jt jf = Inr (n, g')"
  using MakeInstruction_ok(6) [OF assms(2)] gen_reachable_invar [OF assms(1)]
  by (simp add: MakeInstruction_def)

lemma MakeInstruction_memoized_witness:
  "\<exists>n g'. MakeInstruction example_state BPF_RET 7 kNullNode kNullNode = Inr (n, g')
     \<and> MakeInstruction g' BPF_RET 7 kNullNode kNullNode = Inr (n, g')"
proof -
  have "\<exists>n g'. MakeInstruction example_state BPF_RET 7 kNullNode kNullNode = Inr (n, g')"
    by (simp add: example_state_def make_simps)
  then show ?thesis using MakeInstruction_memoized [OF example_state_reachable] by blast
qed

text \<open>
  Every program \<open>CodeGen::Compile\<close> returns passes the static checks of the kernel's BPF
  loader: it is not empty, has at most \<open>BPF_MAXINSNS\<close> instructions, every jump goes forward to
  an instruction of the program, and control cannot run off its end.
\<close>

lemma CodeGen_Compile_well_formed:
  assumes "gen_reachable g" and "CodeGen_Compile g head = Inr prog"
  shows "0 < length prog \<and> length prog \<le> BPF_MAXINSNS
    \<and> (\<forall>i < length prog. insn_shape (length prog - 1 - i) (prog ! i))"
  using gen_reachable_invar [OF assms(1)] by (intro Compile_shape [OF assms(2)]) simp_all

lemma CodeGen_Compile_well_formed_witness:
  "\<exists>prog. CodeGen_Compile example_state 3 = Inr prog \<and> length prog \<le> BPF_MAXINSNS
     \<and> insn_shape (length prog - 1 - 1) (prog ! 1)"
proof -
  have "\<exists>prog. CodeGen_Compile example_state 3 = Inr prog \<and> 1 < length prog"
    by (simp add: CodeGen_Compile_def Offset_def example_state_def)
  then obtain prog where c: "CodeGen_Compile example_state 3 = Inr prog" and l: "1 < length prog" by blast
  from CodeGen_Compile_well_formed [OF example_state_reachable c] c l show ?thesis by blast
qed

text \<open>
  C3: A compiled program, run on the BPF machine of the verifier, returns what its head node
  means: the reversed program that is sliced at the head and its relative jumps simulate the
  node graph step by step.
\<close>

theorem CodeGen_Compile_refines:
  assumes "gen_reachable g" and "CodeGen_Compile g head = Inr prog"
    and "dag_exec (cg_program g) d head 0 False = Some r"
  shows "EvaluateBPF prog d = Some (Inr r)"
  using CodeGen_Compile_runs [OF assms(2) _ assms(3)] gen_reachable_invar [OF assms(1)] by blast

theorem CodeGen_Compile_refines_witness:
  "\<exists>prog. CodeGen_Compile example_state 3 = Inr prog
     \<and> EvaluateBPF prog \<lparr>sd_nr = 39, sd_arch = AUDIT_ARCH_X86_64, sd_instruction_pointer = 0,
         sd_args = [0, 0, 0, 0, 0, 0]\<rparr> = Some (Inr SECCOMP_RET_ALLOW)"
  (is "\<exists>prog. _ \<and> EvaluateBPF _ ?d = _")
proof -
  have "\<exists>prog. CodeGen_Compile example_state 3 = Inr prog"
    by (simp add: CodeGen_Compile_def Offset_def example_state_def)
  moreover have "dag_exec (cg_program example_state) ?d 3 0 False = Some SECCOMP_RET_ALLOW"
  proof -
    let ?P = "cg_program example_state"
    note ev = example_state_def insn_effect_def bpf_code_defs
    have "dag_exec ?P ?d 0 39 True = Some SECCOMP_RET_ALLOW"
      by (subst dag_exec.simps) (simp add: ev Ret_def valid_action_def)
    then have "dag_exec ?P ?d 2 39 True = Some SECCOMP_RET_ALLOW"
      by (subst dag_exec.simps) (simp add: ev jump_test_def)
    then show ?thesis
      by (subst dag_exec.simps) (simp add: ev ld_value_def seccomp_data_words_def)
  qed
  ultimately show ?thesis using CodeGen_Compile_refines [OF example_state_reachable] by blast
qed

end
