(* ===== verification/Syscall_Set.thy ===== *)
theory Syscall_Set
  imports Prelude
begin

text \<open>
  The iterator over system call numbers of \<^verbatim>\<open>bpf_dsl/syscall_set.cc\<close>, for the ranges that
  \<^verbatim>\<open>bpf_dsl/linux_syscall_ranges.h\<close> gives on x86-64. The theory proves that iteration ends,
  which numbers each of the three sets enumerates, and in which order.
\<close>

subsection \<open>Ranges\<close>

abbreviation (input) MIN_SYSCALL :: u32 where "MIN_SYSCALL \<equiv> 0"
abbreviation (input) MAX_PUBLIC_SYSCALL :: u32 where "MAX_PUBLIC_SYSCALL \<equiv> 1024"
abbreviation (input) MAX_SYSCALL :: u32 where "MAX_SYSCALL \<equiv> MAX_PUBLIC_SYSCALL"

record syscall_range =
  range_first :: u32
  range_last :: u32

definition kValidSyscallRanges :: "syscall_range list" where
  "kValidSyscallRanges = [\<lparr>range_first = MIN_SYSCALL, range_last = MAX_PUBLIC_SYSCALL\<rparr>]"

datatype syscall_set = Set_ALL | Set_VALID_ONLY | Set_INVALID_ONLY

definition IsValid :: "u32 \<Rightarrow> bool" where
  "IsValid num = list_ex (\<lambda>r. num \<ge> range_first r \<and> num \<le> range_last r) kValidSyscallRanges"

subsection \<open>The iterator\<close>

record iterator =
  it_set :: syscall_set
  it_done :: bool
  it_num :: u32

text \<open>The loop over the ranges: \<open>None\<close> when no range returned.\<close>

fun next_in_ranges :: "bool \<Rightarrow> bool \<Rightarrow> u32 \<Rightarrow> syscall_range list \<Rightarrow> u32 option" where
  "next_in_ranges want_valid want_invalid num [] = None"
| "next_in_ranges want_valid want_invalid num (r # rs) =
     (if want_invalid \<and> range_first r > 0 \<and> num < range_first r - 1 then Some (range_first r - 1)
      else if want_valid \<and> num < range_first r then Some (range_first r)
      else if want_valid \<and> num < range_last r then Some (num + 1)
      else if want_invalid \<and> num \<le> range_last r then Some (range_last r + 1)
      else next_in_ranges want_valid want_invalid num rs)"

definition NextSyscall :: "iterator \<Rightarrow> u32" where
  "NextSyscall it =
     (let want_valid = (it_set it \<noteq> Set_INVALID_ONLY); want_invalid = (it_set it \<noteq> Set_VALID_ONLY) in
      case next_in_ranges want_valid want_invalid (it_num it) kValidSyscallRanges of
        Some n \<Rightarrow> n
      | None \<Rightarrow>
          if want_invalid \<and> it_num it < 0x7FFFFFFF then 0x7FFFFFFF
          else if want_invalid \<and> it_num it < 0x80000000 then 0x80000000
          else if want_invalid \<and> it_num it < 0xFFFFFFFF then 0xFFFFFFFF
          else 0)"

definition Iterator_incr :: "iterator \<Rightarrow> iterator" where
  "Iterator_incr it =
     (let it = it\<lparr>it_num := NextSyscall it\<rparr> in
      if it_num it = 0 then it\<lparr>it_done := True\<rparr> else it)"

definition Iterator :: "syscall_set \<Rightarrow> bool \<Rightarrow> iterator" where
  "Iterator s done' =
     (let it = \<lparr>it_set = s, it_done = done', it_num = 0\<rparr> in
      if \<not> done' \<and> s = (if IsValid (it_num it) then Set_INVALID_ONLY else Set_VALID_ONLY)
      then Iterator_incr it else it)"

definition Set_begin :: "syscall_set \<Rightarrow> iterator" where
  "Set_begin s = Iterator s False"

definition Set_end :: "syscall_set \<Rightarrow> iterator" where
  "Set_end s = Iterator s True"

definition Iterator_eq :: "iterator \<Rightarrow> iterator \<Rightarrow> bool" where
  "Iterator_eq lhs rhs \<longleftrightarrow> it_done lhs = it_done rhs \<and> it_num lhs = it_num rhs"

subsection \<open>Range-based for loops end\<close>

lemma Set_end_fields [simp]: "it_done (Set_end s)" "it_num (Set_end s) = 0" "it_set (Set_end s) = s"
  by (simp_all add: Set_end_def Iterator_def Let_def)

lemma NextSyscall_single:
  "NextSyscall it =
     (if it_set it \<noteq> Set_INVALID_ONLY \<and> it_num it < 1024 then it_num it + 1
      else if it_set it \<noteq> Set_VALID_ONLY \<and> it_num it \<le> 1024 then 1025
      else if it_set it \<noteq> Set_VALID_ONLY \<and> it_num it < 0x7FFFFFFF then 0x7FFFFFFF
      else if it_set it \<noteq> Set_VALID_ONLY \<and> it_num it < 0x80000000 then 0x80000000
      else if it_set it \<noteq> Set_VALID_ONLY \<and> it_num it < 0xFFFFFFFF then 0xFFFFFFFF
      else 0)"
  by (auto simp: NextSyscall_def kValidSyscallRanges_def Let_def)

lemma NextSyscall_increases: "NextSyscall it \<noteq> 0 \<Longrightarrow> it_num it < NextSyscall it"
proof -
  have "n < n + 1" if "n < 1024" for n :: u32
    using that by (simp add: word_less_nat_alt unat_word_ariths)
  then show "NextSyscall it \<noteq> 0 \<Longrightarrow> it_num it < NextSyscall it"
    by (auto simp: NextSyscall_single split: if_splits intro: order_le_less_trans)
qed

text \<open>
  \<open>for (uint32_t sysnum : set)\<close>: the numbers that \<open>*it\<close> yields until \<open>it == set.end()\<close>.
\<close>

function iterate :: "iterator \<Rightarrow> u32 list" where
  "iterate it =
     (if Iterator_eq it (Set_end (it_set it)) then []
      else it_num it # iterate (Iterator_incr it))"
  by pat_completeness auto
termination
proof (relation "measure (\<lambda>it. if it_done it \<and> it_num it = 0 then 0 else 4294967296 - unat (it_num it))", simp)
  fix it
  assume "\<not> Iterator_eq it (Set_end (it_set it))"
  then have "\<not> (it_done it \<and> it_num it = 0)" by (simp add: Iterator_eq_def)
  moreover have "unat (it_num it) < unat (NextSyscall it)" if "NextSyscall it \<noteq> 0"
    using NextSyscall_increases [OF that] by (simp add: word_less_nat_alt)
  moreover have "unat (it_num it) < 4294967296" by (rule unat_u32_less)
  ultimately show "(Iterator_incr it, it) \<in>
      measure (\<lambda>it. if it_done it \<and> it_num it = 0 then 0 else 4294967296 - unat (it_num it))"
    by (auto simp: Iterator_incr_def Let_def)
qed

declare iterate.simps [simp del]

definition elements :: "syscall_set \<Rightarrow> u32 list" where
  "elements s = iterate (Set_begin s)"

subsection \<open>What the sets enumerate\<close>

lemma IsValid_iff: "IsValid n \<longleftrightarrow> n \<le> 1024"
  by (simp add: IsValid_def kValidSyscallRanges_def)

abbreviation (input) at_num :: "syscall_set \<Rightarrow> u32 \<Rightarrow> iterator" where
  "at_num s n \<equiv> \<lparr>it_set = s, it_done = False, it_num = n\<rparr>"

lemma iterate_at:
  "iterate (at_num s n) =
     n # (if NextSyscall (at_num s n) = 0 then [] else iterate (at_num s (NextSyscall (at_num s n))))"
proof -
  have fin: "iterate \<lparr>it_set = s, it_done = True, it_num = 0\<rparr> = []"
    by (subst iterate.simps) (simp add: Iterator_eq_def)
  show ?thesis
    by (subst iterate.simps) (simp add: Iterator_eq_def Iterator_incr_def Let_def fin)
qed

lemma iterate_upto:
  assumes "s \<noteq> Set_INVALID_ONLY" and "n \<le> 1024"
  shows "iterate (at_num s (of_nat n)) = map of_nat [n..<1024] @ iterate (at_num s 1024)"
  using assms(2)
proof (induction "1024 - n" arbitrary: n)
  case 0
  then show ?case by simp
next
  case (Suc m)
  then have n: "n < 1024" and u: "unat (of_nat n :: u32) = n" by (simp_all add: unat_of_nat_small)
  have "(of_nat n :: u32) < 1024" using n u by (simp add: word_less_nat_alt)
  then have nx: "NextSyscall (at_num s (of_nat n)) = of_nat (Suc n)"
    using assms(1) by (simp add: NextSyscall_single add.commute)
  have "unat (of_nat (Suc n) :: u32) = Suc n" using n by (intro unat_of_nat_small) simp
  then have nz: "(of_nat (Suc n) :: u32) \<noteq> 0" by (metis nat.distinct(1) unat_0)
  have "iterate (at_num s (of_nat (Suc n))) = map of_nat [Suc n..<1024] @ iterate (at_num s 1024)"
    using Suc n by (intro Suc.hyps(1)) simp_all
  moreover have "iterate (at_num s (of_nat n)) = of_nat n # iterate (at_num s (of_nat (Suc n)))"
    by (subst iterate_at) (simp only: nx nz if_False)
  ultimately show ?case using n by (simp only: upt_conv_Cons list.map append.simps)
qed

lemma begin_at: "s \<noteq> Set_INVALID_ONLY \<Longrightarrow> Set_begin s = at_num s (of_nat 0)"
  by (cases s) (simp_all add: Set_begin_def Iterator_def Let_def IsValid_iff)

lemma elements_valid: "elements Set_VALID_ONLY = map of_nat [0..<1025]"
proof -
  have "iterate (at_num Set_VALID_ONLY 1024) = [1024]"
    by (subst iterate_at) (simp add: NextSyscall_single)
  moreover have "[0..<1025] = [0..<1024] @ [1024]" using upt_Suc_append [of 0 1024] by simp
  ultimately show ?thesis
    using iterate_upto [of Set_VALID_ONLY 0] by (simp add: elements_def begin_at)
qed

lemma elements_all:
  "elements Set_ALL = map of_nat [0..<1025] @ [1025, 0x7FFFFFFF, 0x80000000, 0xFFFFFFFF]"
proof -
  have "iterate (at_num Set_ALL 1024) = [1024, 1025, 0x7FFFFFFF, 0x80000000, 0xFFFFFFFF]"
    by (simp add: iterate_at NextSyscall_single)
  moreover have "[0..<1025] = [0..<1024] @ [1024]" using upt_Suc_append [of 0 1024] by simp
  ultimately show ?thesis
    using iterate_upto [of Set_ALL 0] by (simp add: elements_def begin_at)
qed

lemma elements_invalid: "elements Set_INVALID_ONLY = [1025, 0x7FFFFFFF, 0x80000000, 0xFFFFFFFF]"
proof -
  have "Set_begin Set_INVALID_ONLY = at_num Set_INVALID_ONLY 1025"
    by (simp add: Set_begin_def Iterator_def Iterator_incr_def Let_def IsValid_iff NextSyscall_single)
  then show ?thesis by (simp add: elements_def iterate_at NextSyscall_single)
qed

lemma SyscallSet_elements_valid: "n \<in> set (elements Set_VALID_ONLY) \<longleftrightarrow> IsValid n"
proof
  assume "n \<in> set (elements Set_VALID_ONLY)"
  then obtain m where "m < 1025" "n = of_nat m" by (auto simp: elements_valid)
  then show "IsValid n" by (simp add: IsValid_iff word_le_nat_alt unat_of_nat_small)
next
  assume "IsValid n"
  then have "unat n < 1025" by (simp add: IsValid_iff word_le_nat_alt)
  then have "n \<in> of_nat ` {0..<1025}" by (intro image_eqI [of _ _ "unat n"]) simp_all
  then show "n \<in> set (elements Set_VALID_ONLY)" by (simp add: elements_valid)
qed

text \<open>
  C11: Iterating over a \<open>SyscallSet\<close> ends and enumerates exactly the numbers the header
  promises, in increasing order: every valid number one by one, and of the invalid ones the
  first after the valid range and the three at the boundaries of the signed and unsigned
  numbers. \<open>ValidOnly\<close> and \<open>InvalidOnly\<close> split \<open>All\<close> by \<open>IsValid\<close>.
\<close>

theorem SyscallSet_elements:
  "elements Set_ALL = elements Set_VALID_ONLY @ elements Set_INVALID_ONLY
   \<and> set (elements Set_VALID_ONLY) = {n. IsValid n}
   \<and> set (elements Set_INVALID_ONLY) = {MAX_SYSCALL + 1, 0x7FFFFFFF, 0x80000000, 0xFFFFFFFF}
   \<and> sorted (elements Set_ALL) \<and> distinct (elements Set_ALL)"
proof -
  have all: "elements Set_ALL = elements Set_VALID_ONLY @ elements Set_INVALID_ONLY"
    by (simp only: elements_all elements_valid elements_invalid)
  note mem = SyscallSet_elements_valid
  have sd: "sorted_wrt (<) (elements Set_VALID_ONLY)"
    unfolding elements_valid sorted_wrt_map
    by (rule sorted_wrt_mono_rel [of _ "(<)"])
       (auto simp: word_less_nat_alt unat_of_nat_small)
  have below: "x < y" if "x \<in> set (elements Set_VALID_ONLY)" and "1024 < y" for x y
    using that(1) unfolding mem IsValid_iff by (rule order_le_less_trans) (rule that(2))
  have "sorted_wrt (<) (elements Set_ALL)"
    using sd unfolding all sorted_wrt_append elements_invalid
    by (simp add: below)
  then have "sorted (elements Set_ALL) \<and> distinct (elements Set_ALL)"
    by (simp add: strict_sorted_iff)
  moreover have "set (elements Set_INVALID_ONLY) = {MAX_SYSCALL + 1, 0x7FFFFFFF, 0x80000000, 0xFFFFFFFF}"
    by (simp add: elements_invalid)
  ultimately show ?thesis using all mem by blast
qed

end
