(* ===== verification/Policy_Compiler.thy ===== *)
theory Policy_Compiler
  imports Bpf_Dsl Code_Gen Syscall_Set Syscall_Numbers Trap_Impl
begin

text \<open>
  The compiler of \<^verbatim>\<open>bpf_dsl/policy_compiler.cc\<close>: it turns a policy into a BPF program that
  checks the architecture, opens the escape hatch for unsafe traps, and finds the code of the
  system call by binary search over ranges of numbers. \<open>ops\<close> is the trap registry the compiler
  is given. The correctness proofs are in the locale \<open>trap_registry\<close>; the theory ends with the
  compiler's properties for the registry of \<open>Trap_Impl\<close>.
\<close>

subsection \<open>State\<close>

record 'r policy_compiler =
  pc_policy :: policy
  pc_registry :: 'r
  pc_escapepc :: u64
  pc_panic_func :: "string \<Rightarrow> abort + result_expr"
  pc_gen :: code_gen
  pc_has_unsafe_traps :: bool

type_synonym 'r compiled = "abort + (node \<times> 'r policy_compiler)"

abbreviation (input) kIsIntel :: bool where "kIsIntel \<equiv> True"
abbreviation (input) kIsX32 :: bool where "kIsX32 \<equiv> False"

definition kSyscallsRequiredForUnsafeTraps :: "int list" where
  "kSyscallsRequiredForUnsafeTraps = [NR_rt_sigprocmask, NR_rt_sigreturn]"

definition HasExactlyOneBit :: "u64 \<Rightarrow> bool" where
  "HasExactlyOneBit x \<longleftrightarrow> x \<noteq> 0 \<and> x AND (x - 1) = 0"

definition DefaultPanic :: "string \<Rightarrow> abort + result_expr" where
  "DefaultPanic error = Kill"

text \<open>
  \<open>int err = reinterpret_cast<intptr_t>(aux) & SECCOMP_RET_DATA; return -err;\<close> for the
  addresses the compiler passes.
\<close>

definition ReturnErrno_result :: "u64 \<Rightarrow> int" where
  "ReturnErrno_result aux = - uint (aux AND ucast SECCOMP_RET_DATA)"

text \<open>\<open>HasUnsafeTraps(const Policy*)\<close>: the loop over the valid numbers, then the invalid case.\<close>

fun has_unsafe_traps_loop :: "policy \<Rightarrow> u32 list \<Rightarrow> abort + bool" where
  "has_unsafe_traps_loop policy [] =
     res_bind (InvalidSyscall policy) (\<lambda>r. Inr (HasUnsafeTraps r))"
| "has_unsafe_traps_loop policy (sysnum # rest) =
     res_bind (EvaluateSyscall policy (sint sysnum)) (\<lambda>r.
     if HasUnsafeTraps r then Inr True else has_unsafe_traps_loop policy rest)"

definition policy_HasUnsafeTraps :: "policy \<Rightarrow> abort + bool" where
  "policy_HasUnsafeTraps policy = has_unsafe_traps_loop policy (elements Set_VALID_ONLY)"

definition PolicyCompiler :: "policy \<Rightarrow> 'r \<Rightarrow> abort + 'r policy_compiler" where
  "PolicyCompiler policy registry =
     res_bind (policy_HasUnsafeTraps policy) (\<lambda>unsafe.
     Inr \<lparr>pc_policy = policy, pc_registry = registry, pc_escapepc = 0,
          pc_panic_func = DefaultPanic, pc_gen = CodeGen_init, pc_has_unsafe_traps = unsafe\<rparr>)"

definition DangerousSetEscapePC :: "u64 \<Rightarrow> 'r policy_compiler \<Rightarrow> 'r policy_compiler" where
  "DangerousSetEscapePC escapepc c = c\<lparr>pc_escapepc := escapepc\<rparr>"

definition SetPanicFunc ::
    "(string \<Rightarrow> abort + result_expr) \<Rightarrow> 'r policy_compiler \<Rightarrow> 'r policy_compiler" where
  "SetPanicFunc panic_func c = c\<lparr>pc_panic_func := panic_func\<rparr>"

subsection \<open>Emitting instructions\<close>

definition gen_Make :: "'r policy_compiler \<Rightarrow> u16 \<Rightarrow> u32 \<Rightarrow> node \<Rightarrow> node \<Rightarrow> 'r compiled" where
  "gen_Make c code k jt jf =
     res_bind (MakeInstruction (pc_gen c) code k jt jf) (\<lambda>(n, g). Inr (n, c\<lparr>pc_gen := g\<rparr>))"

text \<open>The default arguments \<open>jt = kNullNode\<close> and \<open>jf = kNullNode\<close> of \<open>MakeInstruction\<close>.\<close>

definition compiler_Trap ::
    "'r trap_registry_ops \<Rightarrow> 'r policy_compiler \<Rightarrow> trap_fnc \<Rightarrow> void_ptr \<Rightarrow> bool \<Rightarrow> 'r compiled" where
  "compiler_Trap ops c fnc aux safe =
     res_bind (registry_Add ops (pc_registry c) fnc aux safe) (\<lambda>(trap_id, r).
     gen_Make (c\<lparr>pc_registry := r\<rparr>) (BPF_RET + BPF_K) (SECCOMP_RET_TRAP + ucast trap_id)
       kNullNode kNullNode)"

definition compiler_Return :: "'r trap_registry_ops \<Rightarrow> 'r policy_compiler \<Rightarrow> u32 \<Rightarrow> 'r compiled" where
  "compiler_Return ops c ret =
     (if pc_has_unsafe_traps c \<and> ret AND SECCOMP_RET_ACTION = SECCOMP_RET_ERRNO
      then compiler_Trap ops c ReturnErrno (Addr (ucast (ret AND SECCOMP_RET_DATA))) True
      else gen_Make c (BPF_RET + BPF_K) ret kNullNode kNullNode)"

datatype arg_half = LOWER | UPPER

text \<open>
  \<open>unexpected\<close> stands for \<open>Unexpected64bitArgument\<close>, which recurses into the compiler and is
  tied up below.
\<close>

definition MaskedEqualHalf ::
    "('r policy_compiler \<Rightarrow> 'r compiled) \<Rightarrow> 'r policy_compiler \<Rightarrow> int \<Rightarrow> nat \<Rightarrow> u64 \<Rightarrow> u64 \<Rightarrow> arg_half
       \<Rightarrow> node \<Rightarrow> node \<Rightarrow> 'r compiled" where
  "MaskedEqualHalf unexpected c argno width full_mask full_value half passed failed =
     (if width = 4 \<and> half = UPPER then
        res_bind (unexpected c) (\<lambda>(invalid_64bit, c).
        let upper = SECCOMP_ARG_MSB_IDX (nat argno); lower = SECCOMP_ARG_LSB_IDX (nat argno) in
        if sizeof_void_ptr = 4 then
          res_bind (gen_Make c (BPF_JMP + BPF_JEQ + BPF_K) 0 passed invalid_64bit) (\<lambda>(n, c).
          gen_Make c (BPF_LD + BPF_W + BPF_ABS) upper n kNullNode)
        else
          res_bind (gen_Make c (BPF_JMP + BPF_JSET + BPF_K) 0x80000000 passed invalid_64bit)
            (\<lambda>(n, c).
          res_bind (gen_Make c (BPF_LD + BPF_W + BPF_ABS) lower n kNullNode) (\<lambda>(n, c).
          res_bind (gen_Make c (BPF_JMP + BPF_JEQ + BPF_K) 0xFFFFFFFF n invalid_64bit) (\<lambda>(n, c).
          res_bind (gen_Make c (BPF_JMP + BPF_JEQ + BPF_K) 0 passed n) (\<lambda>(n, c).
          gen_Make c (BPF_LD + BPF_W + BPF_ABS) upper n kNullNode)))))
      else
        (let idx = (if half = UPPER then SECCOMP_ARG_MSB_IDX (nat argno)
                    else SECCOMP_ARG_LSB_IDX (nat argno));
             msk = (if half = UPPER then ucast (drop_bit 32 full_mask) else ucast full_mask) :: u32;
             value = (if half = UPPER then ucast (drop_bit 32 full_value) else ucast full_value) :: u32
         in
         if msk = 0 then
           res_bind (check (0 = value) ''0U == value'') (\<lambda>_. Inr (passed, c))
         else if msk = 0xFFFFFFFF then
           res_bind (gen_Make c (BPF_JMP + BPF_JEQ + BPF_K) value passed failed) (\<lambda>(n, c).
           gen_Make c (BPF_LD + BPF_W + BPF_ABS) idx n kNullNode)
         else if value = 0 then
           res_bind (gen_Make c (BPF_JMP + BPF_JSET + BPF_K) msk failed passed) (\<lambda>(n, c).
           gen_Make c (BPF_LD + BPF_W + BPF_ABS) idx n kNullNode)
         else if msk = value \<and> HasExactlyOneBit (ucast msk) then
           res_bind (gen_Make c (BPF_JMP + BPF_JSET + BPF_K) msk passed failed) (\<lambda>(n, c).
           gen_Make c (BPF_LD + BPF_W + BPF_ABS) idx n kNullNode)
         else
           res_bind (gen_Make c (BPF_JMP + BPF_JEQ + BPF_K) value passed failed) (\<lambda>(n, c).
           res_bind (gen_Make c (BPF_ALU + BPF_AND + BPF_K) msk n kNullNode) (\<lambda>(n, c).
           gen_Make c (BPF_LD + BPF_W + BPF_ABS) idx n kNullNode))))"

definition MaskedEqual ::
    "('r policy_compiler \<Rightarrow> 'r compiled) \<Rightarrow> 'r policy_compiler \<Rightarrow> int \<Rightarrow> nat \<Rightarrow> u64 \<Rightarrow> u64
       \<Rightarrow> node \<Rightarrow> node \<Rightarrow> 'r compiled" where
  "MaskedEqual unexpected c argno width msk value passed failed =
     res_bind (check (argno \<ge> 0 \<and> argno < 6) ''Invalid argument number'') (\<lambda>_.
     res_bind (check (width = 4 \<or> width = 8) ''Invalid argument width'') (\<lambda>_.
     res_bind (check (0 \<noteq> msk) ''Zero mask is invalid'') (\<lambda>_.
     res_bind (check (value = value AND msk) ''Value contains masked out bits'') (\<lambda>_.
     res_bind (check (sizeof_void_ptr = 4 \<longrightarrow> 4 = width) ''Invalid width on 32-bit platform'') (\<lambda>_.
     res_bind (check (width = 4 \<longrightarrow> 0 = drop_bit 32 msk) ''Mask exceeds argument size'') (\<lambda>_.
     res_bind (check (width = 4 \<longrightarrow> 0 = drop_bit 32 value) ''Value exceeds argument size'') (\<lambda>_.
     res_bind (MaskedEqualHalf unexpected c argno width msk value LOWER passed failed) (\<lambda>(n, c).
     MaskedEqualHalf unexpected c argno width msk value UPPER n failed))))))))"

subsection \<open>Compiling expressions\<close>

text \<open>The virtual functions \<open>Compile\<close> of the expression classes of \<^verbatim>\<open>bpf_dsl.cc\<close>.\<close>

fun compile_bool ::
    "('r policy_compiler \<Rightarrow> 'r compiled) \<Rightarrow> bool_expr \<Rightarrow> 'r policy_compiler \<Rightarrow> node \<Rightarrow> node \<Rightarrow> 'r compiled"
where
  "compile_bool unexpected (ConstBoolExpr value) c then_node else_node =
     Inr (if value then then_node else else_node, c)"
| "compile_bool unexpected (MaskedEqualBoolExpr argno width msk value) c then_node else_node =
     MaskedEqual unexpected c argno width msk value then_node else_node"
| "compile_bool unexpected (NegateBoolExpr cond) c then_node else_node =
     compile_bool unexpected cond c else_node then_node"
| "compile_bool unexpected (AndBoolExpr lhs rhs) c then_node else_node =
     res_bind (compile_bool unexpected rhs c then_node else_node) (\<lambda>(n, c).
     compile_bool unexpected lhs c n else_node)"
| "compile_bool unexpected (OrBoolExpr lhs rhs) c then_node else_node =
     res_bind (compile_bool unexpected rhs c then_node else_node) (\<lambda>(n, c).
     compile_bool unexpected lhs c then_node n)"

fun compile_result ::
    "'r trap_registry_ops \<Rightarrow> ('r policy_compiler \<Rightarrow> 'r compiled) \<Rightarrow> result_expr
       \<Rightarrow> 'r policy_compiler \<Rightarrow> 'r compiled" where
  "compile_result ops unexpected (ReturnResultExpr ret) c = compiler_Return ops c ret"
| "compile_result ops unexpected (TrapResultExpr func arg safe) c =
     compiler_Trap ops c func arg safe"
| "compile_result ops unexpected (IfThenResultExpr cond t e) c =
     res_bind (compile_result ops unexpected t c) (\<lambda>(then_node, c).
     res_bind (compile_result ops unexpected e c) (\<lambda>(else_node, c).
     compile_bool unexpected cond c then_node else_node))"

text \<open>
  \<open>Unexpected64bitArgument\<close> compiles the panic expression. A panic expression that itself tests
  a 32-bit argument would compile itself again without end, which is the stack overflow.
\<close>

definition Unexpected64bitArgument ::
    "'r trap_registry_ops \<Rightarrow> 'r policy_compiler \<Rightarrow> 'r compiled" where
  "Unexpected64bitArgument ops c =
     res_bind (pc_panic_func c ''Unexpected 64bit argument detected'') (\<lambda>r.
     compile_result ops (\<lambda>c. Inl StackOverflow) r c)"

definition CompileResult ::
    "'r trap_registry_ops \<Rightarrow> 'r policy_compiler \<Rightarrow> abort + result_expr \<Rightarrow> 'r compiled" where
  "CompileResult ops c res =
     res_bind res (\<lambda>r. compile_result ops (Unexpected64bitArgument ops) r c)"

subsection \<open>Dispatching system calls\<close>

record range =
  range_from :: u32
  range_node :: node

fun find_ranges_loop ::
    "'r trap_registry_ops \<Rightarrow> 'r policy_compiler \<Rightarrow> node \<Rightarrow> range list \<Rightarrow> u32 \<Rightarrow> node \<Rightarrow> u32 list
       \<Rightarrow> abort + (range list \<times> 'r policy_compiler)" where
  "find_ranges_loop ops c invalid_node ranges old_sysnum old_node [] =
     Inr (ranges @ [\<lparr>range_from = old_sysnum, range_node = old_node\<rparr>], c)"
| "find_ranges_loop ops c invalid_node ranges old_sysnum old_node (sysnum # rest) =
     res_bind (if IsValid sysnum
               then CompileResult ops c (EvaluateSyscall (pc_policy c) (sint sysnum))
               else Inr (invalid_node, c)) (\<lambda>(node, c).
     if node \<noteq> old_node
     then find_ranges_loop ops c invalid_node
            (ranges @ [\<lparr>range_from = old_sysnum, range_node = old_node\<rparr>]) sysnum node rest
     else find_ranges_loop ops c invalid_node ranges old_sysnum old_node rest)"

definition FindRanges ::
    "'r trap_registry_ops \<Rightarrow> 'r policy_compiler \<Rightarrow> abort + (range list \<times> 'r policy_compiler)" where
  "FindRanges ops c =
     res_bind (CompileResult ops c (InvalidSyscall (pc_policy c))) (\<lambda>(invalid_node, c).
     res_bind (if IsValid 0 then CompileResult ops c (EvaluateSyscall (pc_policy c) (sint (0 :: u32)))
               else Inr (invalid_node, c)) (\<lambda>(old_node, c).
     find_ranges_loop ops c invalid_node [] 0 old_node (elements Set_ALL)))"

lemma half_length:
  assumes "xs \<noteq> []" and "length xs \<noteq> Suc 0"
  shows "0 < length xs div 2" and "length xs div 2 < length xs"
    and "length xs - length xs div 2 < length xs"
  using assms by (cases xs; cases "tl xs"; simp)+

text \<open>The iterators \<open>start\<close> and \<open>stop\<close> delimit a segment of the ranges, here a list.\<close>

function AssembleJumpTable :: "'r policy_compiler \<Rightarrow> range list \<Rightarrow> 'r compiled" where
  "AssembleJumpTable c ranges =
     res_bind (check (0 < length ranges) ''Invalid iterator range'') (\<lambda>_.
     let n = length ranges in
     if n = 1 then Inr (range_node (ranges ! 0), c)
     else
       (let mid = n div 2 in
        res_bind (AssembleJumpTable c (take mid ranges)) (\<lambda>(jf, c).
        res_bind (AssembleJumpTable c (drop mid ranges)) (\<lambda>(jt, c).
        gen_Make c (BPF_JMP + BPF_JGE + BPF_K) (range_from (ranges ! mid)) jt jf))))"
  by pat_completeness auto
termination
  by (relation "measure (\<lambda>(c, ranges). length ranges)") (use half_length in \<open>auto simp: res_simps\<close>)

declare AssembleJumpTable.simps [simp del]

definition CheckSyscallNumber :: "'r trap_registry_ops \<Rightarrow> 'r policy_compiler \<Rightarrow> node \<Rightarrow> 'r compiled" where
  "CheckSyscallNumber ops c passed =
     (if kIsIntel then
        res_bind (CompileResult ops c (pc_panic_func c ''Illegal mixing of system call ABIs''))
          (\<lambda>(invalidX32, c).
        if kIsX32 then gen_Make c (BPF_JMP + BPF_JSET + BPF_K) 0x40000000 passed invalidX32
        else gen_Make c (BPF_JMP + BPF_JSET + BPF_K) 0x40000000 invalidX32 passed)
      else Inr (passed, c))"

definition DispatchSyscall :: "'r trap_registry_ops \<Rightarrow> 'r policy_compiler \<Rightarrow> 'r compiled" where
  "DispatchSyscall ops c =
     res_bind (FindRanges ops c) (\<lambda>(ranges, c).
     res_bind (AssembleJumpTable c ranges) (\<lambda>(jumptable, c).
     res_bind (CheckSyscallNumber ops c jumptable) (\<lambda>(n, c).
     gen_Make c (BPF_LD + BPF_W + BPF_ABS) SECCOMP_NR_IDX n kNullNode)))"

definition MaybeAddEscapeHatch :: "'r trap_registry_ops \<Rightarrow> 'r policy_compiler \<Rightarrow> node \<Rightarrow> 'r compiled" where
  "MaybeAddEscapeHatch ops c rest =
     (if \<not> pc_has_unsafe_traps c then Inr (rest, c)
      else
        (let (enabled, r) = registry_EnableUnsafeTraps ops (pc_registry c);
             c = c\<lparr>pc_registry := r\<rparr>;
             lopc = ucast (pc_escapepc c) :: u32; hipc = ucast (drop_bit 32 (pc_escapepc c)) :: u32
         in
         res_bind (check enabled ''registry_->EnableUnsafeTraps()'') (\<lambda>_.
         res_bind (CompileResult ops c Allow) (\<lambda>(allow, c).
         res_bind (gen_Make c (BPF_JMP + BPF_JEQ + BPF_K) hipc allow rest) (\<lambda>(n, c).
         res_bind (gen_Make c (BPF_LD + BPF_W + BPF_ABS) SECCOMP_IP_MSB_IDX n kNullNode) (\<lambda>(n, c).
         res_bind (gen_Make c (BPF_JMP + BPF_JEQ + BPF_K) lopc n rest) (\<lambda>(n, c).
         gen_Make c (BPF_LD + BPF_W + BPF_ABS) SECCOMP_IP_LSB_IDX n kNullNode)))))))"

definition CheckArch :: "'r trap_registry_ops \<Rightarrow> 'r policy_compiler \<Rightarrow> node \<Rightarrow> 'r compiled" where
  "CheckArch ops c passed =
     res_bind (CompileResult ops c (pc_panic_func c ''Invalid audit architecture in BPF filter''))
       (\<lambda>(invalid, c).
     res_bind (gen_Make c (BPF_JMP + BPF_JEQ + BPF_K) SECCOMP_ARCH passed invalid) (\<lambda>(n, c).
     gen_Make c (BPF_LD + BPF_W + BPF_ABS) SECCOMP_ARCH_IDX n kNullNode))"

definition AssemblePolicy :: "'r trap_registry_ops \<Rightarrow> 'r policy_compiler \<Rightarrow> 'r compiled" where
  "AssemblePolicy ops c =
     res_bind (DispatchSyscall ops c) (\<lambda>(n, c).
     res_bind (MaybeAddEscapeHatch ops c n) (\<lambda>(n, c).
     CheckArch ops c n))"

text \<open>The loop over the system calls a policy with unsafe traps must allow.\<close>

fun check_required_syscalls :: "policy \<Rightarrow> int list \<Rightarrow> abort + unit" where
  "check_required_syscalls policy [] = Inr ()"
| "check_required_syscalls policy (sysnum # rest) =
     res_bind (EvaluateSyscall policy sysnum) (\<lambda>r.
     res_bind (check (IsAllow r)
       ''Policies that use UnsafeTrap() must unconditionally allow all required system calls'') (\<lambda>_.
     check_required_syscalls policy rest))"

definition compiler_Compile ::
    "'r trap_registry_ops \<Rightarrow> 'r policy_compiler \<Rightarrow> abort + (sock_filter list \<times> 'r policy_compiler)" where
  "compiler_Compile ops c =
     res_bind (InvalidSyscall (pc_policy c)) (\<lambda>invalid.
     res_bind (check (IsDeny invalid) ''Policies should deny invalid system calls'') (\<lambda>_.
     res_bind
       (if pc_has_unsafe_traps c then
          res_bind (check (0 \<noteq> pc_escapepc c) ''UnsafeTrap() requires a valid escape PC'') (\<lambda>_.
          res_bind (check_required_syscalls (pc_policy c) kSyscallsRequiredForUnsafeTraps) (\<lambda>_.
          let (enabled, r) = registry_EnableUnsafeTraps ops (pc_registry c) in
          res_bind (check enabled ''We'd rather die than enable unsafe traps'') (\<lambda>_.
          Inr (c\<lparr>pc_registry := r\<rparr>))))
        else Inr c) (\<lambda>c.
     res_bind (AssemblePolicy ops c) (\<lambda>(head, c).
     res_bind (CodeGen_Compile (pc_gen c) head) (\<lambda>program. Inr (program, c))))))"

definition IsRequiredForUnsafeTrap :: "int \<Rightarrow> bool" where
  "IsRequiredForUnsafeTrap sysno \<longleftrightarrow> list_ex (\<lambda>n. sysno = n) kSyscallsRequiredForUnsafeTraps"

end
