(* ===== verification/Compiler_Correct.thy ===== *)
theory Compiler_Correct
  imports Policy_Compiler
begin

text \<open>
  Correctness of the policy compiler. Every step of \<open>Policy_Compiler\<close> is shown to build a node
  that yields the outcome its source expression has for the system call, whatever registry
  implements \<open>trap_registry\<close>; the registry of \<open>Trap_Impl\<close> is plugged in at the end.
\<close>

subsection \<open>Words of the system call data\<close>

definition data_word :: "arch_seccomp_data \<Rightarrow> u32 \<Rightarrow> u32" where
  "data_word d k = seccomp_data_words d ! (unat k div 4)"

definition word_index :: "u32 \<Rightarrow> bool" where
  "word_index k \<longleftrightarrow> unat k < sizeof_seccomp_data \<and> k AND 3 = 0"

lemma word_index_fields [simp]:
  "word_index SECCOMP_NR_IDX" "word_index SECCOMP_ARCH_IDX"
  "word_index SECCOMP_IP_MSB_IDX" "word_index SECCOMP_IP_LSB_IDX"
  by (simp_all add: word_index_def seccomp_idx_defs)

lemma data_word_fields [simp]:
  "data_word d SECCOMP_NR_IDX = sd_nr d"
  "data_word d SECCOMP_ARCH_IDX = sd_arch d"
  "data_word d SECCOMP_IP_LSB_IDX = lo32 (sd_instruction_pointer d)"
  "data_word d SECCOMP_IP_MSB_IDX = hi32 (sd_instruction_pointer d)"
  by (simp_all add: data_word_def seccomp_idx_defs seccomp_data_words_def)

lemma less_6_cases:
  fixes n :: nat
  assumes "n < 6"
  obtains "n = 0" | "n = 1" | "n = 2" | "n = 3" | "n = 4" | "n = 5"
  using assms by linarith

lemma word_index_args [simp]:
  assumes "n < 6"
  shows "word_index (SECCOMP_ARG_MSB_IDX n)" and "word_index (SECCOMP_ARG_LSB_IDX n)"
  using assms by (cases rule: less_6_cases; simp add: word_index_def seccomp_idx_defs)+

lemma data_word_args [simp]:
  assumes "n < 6" and "wf_seccomp_data d"
  shows "data_word d (SECCOMP_ARG_MSB_IDX n) = hi32 (sd_args d ! n)"
    and "data_word d (SECCOMP_ARG_LSB_IDX n) = lo32 (sd_args d ! n)"
proof -
  obtain a0 a1 a2 a3 a4 a5 where a: "sd_args d = [a0, a1, a2, a3, a4, a5]"
    using assms(2) by (auto simp: wf_seccomp_data_def numeral_eq_Suc length_Suc_conv)
  show "data_word d (SECCOMP_ARG_MSB_IDX n) = hi32 (sd_args d ! n)"
    and "data_word d (SECCOMP_ARG_LSB_IDX n) = lo32 (sd_args d ! n)"
    using assms(1) by (cases rule: less_6_cases; simp add: a data_word_def seccomp_idx_defs seccomp_data_words_def)+
qed

subsection \<open>The instructions the compiler emits\<close>

lemma effect_ld:
  "word_index k \<Longrightarrow> insn_effect d (BPF_LD + BPF_W + BPF_ABS) k acc valid = EFall (data_word d k) True"
  by (simp add: insn_effect_def ld_value_def bpf_code_defs word_index_def data_word_def)

lemma effect_jeq: "insn_effect d (BPF_JMP + BPF_JEQ + BPF_K) k acc True = EBranch (acc = k)"
  by (simp add: insn_effect_def jump_test_def bpf_code_defs)

lemma effect_jge: "insn_effect d (BPF_JMP + BPF_JGE + BPF_K) k acc True = EBranch (k \<le> acc)"
  by (simp add: insn_effect_def jump_test_def bpf_code_defs)

lemma effect_jset: "insn_effect d (BPF_JMP + BPF_JSET + BPF_K) k acc True = EBranch (acc AND k \<noteq> 0)"
  by (simp add: insn_effect_def jump_test_def bpf_code_defs)

lemma effect_and: "insn_effect d (BPF_ALU + BPF_AND + BPF_K) k acc True = EFall (acc AND k) True"
  by (simp add: insn_effect_def alu_value_def bpf_code_defs)

lemma effect_ret: "valid_action k \<Longrightarrow> insn_effect d (BPF_RET + BPF_K) k acc valid = EReturn k"
  by (simp add: insn_effect_def Ret_def bpf_code_defs)

lemma one_bit_and:
  fixes x w :: u64
  assumes "HasExactlyOneBit x" and "w AND x \<noteq> 0"
  shows "w AND x = x"
proof -
  have nz: "x \<noteq> 0" and dis: "x AND (x - 1) = 0" using assms(1) by (simp_all add: HasExactlyOneBit_def)
  have "1 \<le> unat x" using nz by (simp add: Suc_le_eq unat_gt_0)
  then obtain n where n: "2 ^ n \<le> unat x" "unat x < 2 ^ (n + 1)"
    using ex_power_ivl1 [of 2 "unat x"] by auto
  have "unat x = 2 ^ n"
  proof (rule ccontr)
    assume "unat x \<noteq> 2 ^ n"
    then have "unat x div 2 ^ n = 1" "(unat x - 1) div 2 ^ n = 1"
      using n by (simp_all add: div_nat_eqI)
    then have "bit (unat x) n" "bit (unat x - 1) n" by (simp_all add: bit_iff_odd)
    moreover have "unat (x - 1) = unat x - 1" using nz by (rule unat_minus_one)
    ultimately have "bit (unat x) n" "bit (unat (x - 1)) n" by simp_all
    then have "bit (x AND (x - 1)) n" by (simp add: bit_and_iff bit_unsigned_iff)
    then show False using dis by simp
  qed
  have "x = of_nat (unat x)" by simp
  also have "\<dots> = 2 ^ n" using \<open>unat x = 2 ^ n\<close> by simp
  finally have x: "x = 2 ^ n" .
  then have "bit w n" using assms(2) by (simp add: and_exp_eq_0_iff_not_bit)
  then show ?thesis unfolding x by (intro bit_word_eqI) (auto simp: bit_and_iff bit_exp_iff)
qed

lemma one_bit_test:
  assumes "HasExactlyOneBit (ucast (m :: u32))"
  shows "w AND m \<noteq> 0 \<longleftrightarrow> w AND m = m"
proof
  assume "w AND m \<noteq> 0"
  have inj: "ucast a = (ucast b :: u64) \<longleftrightarrow> a = b" for a b :: u32
    by (metis lo32_ucast)
  have u: "(ucast w :: u64) AND ucast m = ucast (w AND m)"
    by (rule bit_word_eqI) (auto simp: bit_simps)
  have "(ucast w :: u64) AND ucast m \<noteq> 0" using \<open>w AND m \<noteq> 0\<close> inj [of "w AND m" 0] by (simp add: u)
  with assms have "(ucast w :: u64) AND ucast m = ucast m" by (rule one_bit_and)
  then show "w AND m = m" by (simp add: u inj)
next
  have "m \<noteq> 0" using assms by (auto simp: HasExactlyOneBit_def)
  then show "w AND m = m \<Longrightarrow> w AND m \<noteq> 0" by simp
qed

subsection \<open>Outcomes\<close>

text \<open>
  When unsafe traps are enabled, \<open>Return\<close> turns an errno result into a trap that returns it.
\<close>

fun actual_outcome :: "bool \<Rightarrow> outcome \<Rightarrow> outcome" where
  "actual_outcome unsafe (OReturn r) =
     (if unsafe \<and> r AND SECCOMP_RET_ACTION = SECCOMP_RET_ERRNO
      then OTrap ReturnErrno (Addr (ucast (r AND SECCOMP_RET_DATA))) True else OReturn r)"
| "actual_outcome unsafe (OTrap f a s) = OTrap f a s"

text \<open>
  The outcome of an ill-formed 32-bit argument is that of the panic expression. The fall-back
  \<open>KILL\<close> covers panic functions that abort, and so never let a program be compiled.
\<close>

definition unexpected_outcome :: "'r policy_compiler \<Rightarrow> arch_seccomp_data \<Rightarrow> outcome" where
  "unexpected_outcome c d =
     (case pc_panic_func c ''Unexpected 64bit argument detected'' of
        Inl e \<Rightarrow> OReturn SECCOMP_RET_KILL
      | Inr r \<Rightarrow> (case eval_result d r of
            None \<Rightarrow> OReturn SECCOMP_RET_KILL
          | Some oc \<Rightarrow> actual_outcome (pc_has_unsafe_traps c) oc))"

definition result_outcome ::
    "'r policy_compiler \<Rightarrow> abort + result_expr \<Rightarrow> arch_seccomp_data \<Rightarrow> outcome" where
  "result_outcome c res d =
     (case res of
        Inl e \<Rightarrow> OReturn SECCOMP_RET_KILL
      | Inr r \<Rightarrow> (case eval_result d r of
            None \<Rightarrow> unexpected_outcome c d
          | Some oc \<Rightarrow> actual_outcome (pc_has_unsafe_traps c) oc))"

text \<open>What the policy prescribes for a system call: the specification of the whole filter.\<close>

definition syscall_outcome :: "'r policy_compiler \<Rightarrow> u32 \<Rightarrow> arch_seccomp_data \<Rightarrow> outcome" where
  "syscall_outcome c nr d =
     result_outcome c (if IsValid nr then EvaluateSyscall (pc_policy c) (sint nr)
                       else InvalidSyscall (pc_policy c)) d"

definition filter_outcome :: "'r policy_compiler \<Rightarrow> arch_seccomp_data \<Rightarrow> outcome" where
  "filter_outcome c d =
     (if sd_arch d \<noteq> SECCOMP_ARCH
      then result_outcome c (pc_panic_func c ''Invalid audit architecture in BPF filter'') d
      else if pc_has_unsafe_traps c \<and> sd_instruction_pointer d = pc_escapepc c
      then OReturn SECCOMP_RET_ALLOW
      else if sd_nr d AND 0x40000000 \<noteq> 0
      then result_outcome c (pc_panic_func c ''Illegal mixing of system call ABIs'') d
      else syscall_outcome c (sd_nr d) d)"

text \<open>The results a policy and a panic function return carry known actions.\<close>

definition wf_policy :: "policy \<Rightarrow> bool" where
  "wf_policy p \<longleftrightarrow> (\<forall>n. wf_lift (EvaluateSyscall p n)) \<and> wf_lift (InvalidSyscall p)"

definition wf_panic :: "(string \<Rightarrow> abort + result_expr) \<Rightarrow> bool" where
  "wf_panic f \<longleftrightarrow> (\<forall>msg. wf_lift (f msg))"

subsection \<open>Instructions that the kernel knows\<close>

text \<open>
  The static checks of \<open>seccomp_check_filter\<close> on single instructions: loads are of whole words of the
  system call data, and operations are among those that the compiler uses. Returns must name an action.
\<close>

definition insn_known :: "u16 \<Rightarrow> u32 \<Rightarrow> bool" where
  "insn_known code k \<longleftrightarrow>
     code = BPF_LD + BPF_W + BPF_ABS \<and> word_index k
   \<or> code = BPF_ALU + BPF_AND + BPF_K
   \<or> code \<in> {BPF_JMP + BPF_JA, BPF_JMP + BPF_JEQ + BPF_K, BPF_JMP + BPF_JSET + BPF_K, BPF_JMP + BPF_JGE + BPF_K}
   \<or> code = BPF_RET + BPF_K \<and> valid_action k"

definition insns_known :: "sock_filter list \<Rightarrow> bool" where
  "insns_known P \<longleftrightarrow> (\<forall>i \<in> set P. insn_known (sf_code i) (sf_k i))"

lemma Append_known:
  "Append g code k jt jf = Inr (n, g') \<Longrightarrow> insn_known code k \<Longrightarrow> insns_known (cg_program g) \<Longrightarrow> insns_known (cg_program g')"
  by (auto simp: insns_known_def dest!: Append_InrD(4))

lemma WithinRange_known:
  assumes "WithinRange g target rng = Inr (m, g')" and "insns_known (cg_program g)"
  shows "insns_known (cg_program g')"
  using assms(1)
proof (cases rule: WithinRange_cases)
  case (jump g1 off)
  have "insn_known (BPF_JMP OR BPF_JA) (of_nat off)" by (simp add: insn_known_def bpf_code_defs)
  from Append_known [OF jump(2) this assms(2)] show ?thesis by (simp add: jump(3))
qed (use assms(2) in simp_all)

lemma AppendInstruction_known:
  assumes "AppendInstruction g code k jt jf = Inr (n, g')" and "insn_known code k" and "insns_known (cg_program g)"
  shows "insns_known (cg_program g')"
  using assms(1) unfolding AppendInstruction_def
  by (auto simp: res_simps split: if_splits prod.splits
      dest: WithinRange_known Append_known [OF _ assms(2)] intro: assms(3))

lemma MakeInstruction_known:
  assumes "MakeInstruction g code k jt jf = Inr (n, g')" and "insn_known code k" and "insns_known (cg_program g)"
  shows "insns_known (cg_program g')"
  using assms AppendInstruction_known
  by (fastforce simp: MakeInstruction_def res_bind_eq_Inr split: option.splits prod.splits)

lemma insn_known_ops:
  "word_index k \<Longrightarrow> insn_known (BPF_LD + BPF_W + BPF_ABS) k" "insn_known (BPF_ALU + BPF_AND + BPF_K) k"
  "insn_known (BPF_JMP + BPF_JEQ + BPF_K) k" "insn_known (BPF_JMP + BPF_JSET + BPF_K) k"
  "insn_known (BPF_JMP + BPF_JGE + BPF_K) k" "valid_action k \<Longrightarrow> insn_known (BPF_RET + BPF_K) k"
  by (simp_all add: insn_known_def bpf_code_defs)

subsection \<open>Nodes that yield an outcome\<close>

context trap_registry
begin

definition denotes :: "'r policy_compiler \<Rightarrow> outcome \<Rightarrow> u32 \<Rightarrow> bool" where
  "denotes c oc v \<longleftrightarrow>
     (case oc of
        OReturn r \<Rightarrow> v = r
      | OTrap f a s \<Rightarrow> \<exists>i. v = SECCOMP_RET_TRAP + ucast i \<and> handler_of (pc_registry c) i = Some (f, a, s))"

definition compiler_ok :: "'r policy_compiler \<Rightarrow> bool" where
  "compiler_ok c \<longleftrightarrow> gen_reachable (pc_gen c) \<and> insns_known (cg_program (pc_gen c)) \<and> invar (pc_registry c)
     \<and> wf_policy (pc_policy c) \<and> wf_panic (pc_panic_func c)"

definition same_config :: "'r policy_compiler \<Rightarrow> 'r policy_compiler \<Rightarrow> bool" where
  "same_config c c' \<longleftrightarrow> pc_policy c' = pc_policy c \<and> pc_escapepc c' = pc_escapepc c
     \<and> pc_panic_func c' = pc_panic_func c \<and> pc_has_unsafe_traps c' = pc_has_unsafe_traps c"

text \<open>One compiler state leads to another: code and trap ids are only added.\<close>

definition leads :: "'r policy_compiler \<Rightarrow> 'r policy_compiler \<Rightarrow> bool" where
  "leads c c' \<longleftrightarrow> compiler_ok c' \<and> same_config c c'
     \<and> extends (pc_gen c) (pc_gen c') \<and> registry_le (pc_registry c) (pc_registry c')"

abbreviation prog_of :: "'r policy_compiler \<Rightarrow> sock_filter list" where
  "prog_of c \<equiv> cg_program (pc_gen c)"

text \<open>
  \<open>tests c n h\<close>: entered with \<open>a\<close> in the accumulator, node \<open>n\<close> returns the outcome \<open>h d a\<close> on
  every system call \<open>d\<close>. \<open>yields c n f\<close>: the outcome does not depend on the accumulator, which
  may be unset.
\<close>

definition tests :: "'r policy_compiler \<Rightarrow> node \<Rightarrow> (arch_seccomp_data \<Rightarrow> u32 \<Rightarrow> outcome) \<Rightarrow> bool" where
  "tests c n h \<longleftrightarrow> n < length (prog_of c)
     \<and> (\<forall>d a. wf_seccomp_data d \<longrightarrow> (\<exists>v. dag_exec (prog_of c) d n a True = Some v \<and> denotes c (h d a) v))"

definition yields :: "'r policy_compiler \<Rightarrow> node \<Rightarrow> (arch_seccomp_data \<Rightarrow> outcome) \<Rightarrow> bool" where
  "yields c n f \<longleftrightarrow> n < length (prog_of c)
     \<and> (\<forall>d a w. wf_seccomp_data d \<longrightarrow> (\<exists>v. dag_exec (prog_of c) d n a w = Some v \<and> denotes c (f d) v))"

lemma leads_refl: "compiler_ok c \<Longrightarrow> leads c c"
  by (simp add: leads_def same_config_def)

lemma leads_trans: "leads a b \<Longrightarrow> leads b c \<Longrightarrow> leads a c"
  by (auto simp: leads_def same_config_def intro: extends_trans registry_le_trans)

lemma leads_ok: "leads c c' \<Longrightarrow> compiler_ok c'"
  by (simp add: leads_def)

lemma denotes_mono: "denotes c oc v \<Longrightarrow> leads c c' \<Longrightarrow> denotes c' oc v"
  by (auto simp: denotes_def leads_def registry_le_def split: outcome.splits)

lemma leads_dag_exec:
  "leads c c' \<Longrightarrow> n < length (prog_of c) \<Longrightarrow> dag_exec (prog_of c') d n a w = dag_exec (prog_of c) d n a w"
  by (simp add: leads_def extends_dag_exec)

lemma leads_length: "leads c c' \<Longrightarrow> n < length (prog_of c) \<Longrightarrow> n < length (prog_of c')"
  using extends_length by (fastforce simp: leads_def)

lemma tests_mono: "tests c n h \<Longrightarrow> leads c c' \<Longrightarrow> tests c' n h"
  unfolding tests_def using leads_dag_exec leads_length denotes_mono by metis

lemma yields_mono: "yields c n f \<Longrightarrow> leads c c' \<Longrightarrow> yields c' n f"
  unfolding yields_def using leads_dag_exec leads_length denotes_mono by metis

lemma yields_tests: "yields c n f \<Longrightarrow> tests c n (\<lambda>d a. f d)"
  by (auto simp: yields_def tests_def)

lemma outcome_config:
  assumes "leads c c'"
  shows "unexpected_outcome c' = unexpected_outcome c" and "result_outcome c' = result_outcome c"
    and "syscall_outcome c' = syscall_outcome c" and "filter_outcome c' = filter_outcome c"
proof -
  have eq: "pc_policy c' = pc_policy c" "pc_escapepc c' = pc_escapepc c"
    "pc_panic_func c' = pc_panic_func c" "pc_has_unsafe_traps c' = pc_has_unsafe_traps c"
    using assms by (simp_all add: leads_def same_config_def)
  show u: "unexpected_outcome c' = unexpected_outcome c"
    by (rule ext) (simp only: unexpected_outcome_def eq)
  show r: "result_outcome c' = result_outcome c"
    by (intro ext) (simp only: result_outcome_def eq u)
  show s: "syscall_outcome c' = syscall_outcome c"
    by (intro ext) (simp only: syscall_outcome_def eq r)
  show "filter_outcome c' = filter_outcome c"
    by (intro ext) (simp only: filter_outcome_def eq r s)
qed

subsection \<open>One instruction\<close>

lemma gen_Make_ok:
  assumes "gen_Make c code k jt jf = Inr (n, c')" and "compiler_ok c" and "insn_known code k"
  shows "leads c c'" and "n < length (prog_of c')"
    and "node_runs (prog_of c') n code k jt jf"
    and "targets_ok (prog_of c') code jt jf"
proof -
  obtain g where mk: "MakeInstruction (pc_gen c) code k jt jf = Inr (n, g)" and c': "c' = c\<lparr>pc_gen := g\<rparr>"
    using assms(1) unfolding gen_Make_def by (elim res_bind_pairE) simp
  have inv: "gen_invar (pc_gen c)" and reach: "gen_reachable (pc_gen c)"
    using assms(2) gen_reachable_invar by (auto simp: compiler_ok_def)
  note M = MakeInstruction_ok [OF mk inv]
  have "gen_reachable g" using reach mk by (rule gen_reachable.make)
  moreover have "insns_known (cg_program g)"
    using MakeInstruction_known [OF mk assms(3)] assms(2) by (simp add: compiler_ok_def)
  ultimately show "leads c c'" using assms(2) M(2) by (simp add: leads_def same_config_def compiler_ok_def c')
  show "n < length (prog_of c')" "node_runs (prog_of c') n code k jt jf"
    "targets_ok (prog_of c') code jt jf"
    using M(3,4,5) by (simp_all add: c')
qed

lemma Make_ret:
  assumes "gen_Make c (BPF_RET + BPF_K) k jt jf = Inr (n, c')" and "compiler_ok c"
    and "valid_action k" and "\<And>d. denotes c' (f d) k"
  shows "leads c c'" and "yields c' n f"
  using gen_Make_ok [OF assms(1,2) insn_known_ops(6) [OF assms(3)]] effect_ret [OF assms(3)] assms(4)
  by (simp_all add: yields_def node_runs_def)

lemma Make_ld:
  assumes "gen_Make c (BPF_LD + BPF_W + BPF_ABS) k jt jf = Inr (n, c')" and "compiler_ok c"
    and "word_index k" and "tests c jt h"
  shows "leads c c'" and "yields c' n (\<lambda>d. h d (data_word d k))"
proof -
  note M = gen_Make_ok [OF assms(1,2) insn_known_ops(1) [OF assms(3)]]
  show "leads c c'" by (rule M(1))
  then have "tests c' jt h" by (rule tests_mono [OF assms(4)])
  then show "yields c' n (\<lambda>d. h d (data_word d k))"
    using M(2,3) effect_ld [OF assms(3)] by (simp add: yields_def tests_def node_runs_def)
qed

text \<open>The three conditional jumps, which test the accumulator.\<close>

lemma Make_jump:
  assumes "gen_Make c code k jt jf = Inr (n, c')" and "compiler_ok c"
    and "tests c jt f" and "tests c jf g"
    and "\<And>d a. insn_effect d code k a True = EBranch (p a)" and "insn_known code k"
  shows "leads c c'" and "tests c' n (\<lambda>d a. if p a then f d a else g d a)"
proof -
  note M = gen_Make_ok [OF assms(1,2,6)]
  show "leads c c'" by (rule M(1))
  then have "tests c' jt f" "tests c' jf g" using tests_mono assms(3,4) by blast+
  then show "tests c' n (\<lambda>d a. if p a then f d a else g d a)"
    using M(2,3) assms(5) by (simp add: tests_def node_runs_def)
qed

lemmas Make_jeq = Make_jump [OF _ _ _ _ effect_jeq insn_known_ops(3)]
lemmas Make_jset = Make_jump [OF _ _ _ _ effect_jset insn_known_ops(4)]
lemmas Make_jge = Make_jump [OF _ _ _ _ effect_jge insn_known_ops(5)]

lemma Make_and:
  assumes "gen_Make c (BPF_ALU + BPF_AND + BPF_K) k jt jf = Inr (n, c')" and "compiler_ok c"
    and "tests c jt h"
  shows "leads c c'" and "tests c' n (\<lambda>d a. h d (a AND k))"
proof -
  note M = gen_Make_ok [OF assms(1,2) insn_known_ops(2)]
  show "leads c c'" by (rule M(1))
  then have "tests c' jt h" by (rule tests_mono [OF assms(3)])
  then show "tests c' n (\<lambda>d a. h d (a AND k))"
    using M(2,3) effect_and by (simp add: tests_def node_runs_def)
qed

lemma yields_cong:
  "yields c n f \<Longrightarrow> (\<And>d. wf_seccomp_data d \<Longrightarrow> f d = g d) \<Longrightarrow> yields c n g"
  by (simp add: yields_def)

subsection \<open>Conditions\<close>

text \<open>The contract of \<open>Unexpected64bitArgument\<close>, relative to the configuration \<open>c0\<close>.\<close>

definition panics :: "'r policy_compiler \<Rightarrow> ('r policy_compiler \<Rightarrow> 'r compiled) \<Rightarrow> bool" where
  "panics c0 u \<longleftrightarrow> (\<forall>c n c'. u c = Inr (n, c') \<longrightarrow> compiler_ok c \<longrightarrow> same_config c0 c \<longrightarrow>
     leads c c' \<and> yields c' n (unexpected_outcome c0))"

lemma panicsD:
  assumes "panics c0 u" and "u c = Inr (n, c')" and "compiler_ok c" and "same_config c0 c"
  shows "leads c c'" and "yields c' n (unexpected_outcome c0)"
  using assms by (auto simp: panics_def)

lemma same_config_leads: "same_config c0 c \<Longrightarrow> leads c c' \<Longrightarrow> same_config c0 c'"
  by (simp add: leads_def same_config_def)

lemma not_32bit: "(sizeof_void_ptr = 4) = False"
  by simp

text \<open>The check of the upper half of a 32-bit argument.\<close>

lemma upper_half_32_ok:
  assumes m: "MaskedEqualHalf u c argno 4 msk val UPPER passed failed = Inr (n, c')"
    and ok: "compiler_ok c" and u: "panics c0 u" and cfg: "same_config c0 c"
    and arg: "nat argno < 6" and p: "yields c passed f"
  shows "leads c c' \<and> yields c' n
    (\<lambda>d. if valid_32bit (sd_args d ! nat argno) then f d else unexpected_outcome c0 d)"
proof -
  from m obtain i c1 n2 c2 n3 c3 n4 c4 n5 c5 where inv: "u c = Inr (i, c1)"
    and m2: "gen_Make c1 (BPF_JMP + BPF_JSET + BPF_K) 0x80000000 passed i = Inr (n2, c2)"
    and m3: "gen_Make c2 (BPF_LD + BPF_W + BPF_ABS) (SECCOMP_ARG_LSB_IDX (nat argno)) n2 kNullNode = Inr (n3, c3)"
    and m4: "gen_Make c3 (BPF_JMP + BPF_JEQ + BPF_K) 0xFFFFFFFF n3 i = Inr (n4, c4)"
    and m5: "gen_Make c4 (BPF_JMP + BPF_JEQ + BPF_K) 0 passed n4 = Inr (n5, c5)"
    and m6: "gen_Make c5 (BPF_LD + BPF_W + BPF_ABS) (SECCOMP_ARG_MSB_IDX (nat argno)) n5 kNullNode = Inr (n, c')"
    unfolding MaskedEqualHalf_def Let_def
    by (simp only: simp_thms if_True if_False not_32bit) (elim res_bind_pairE)
  note U = panicsD [OF u inv ok cfg]
  note s2 = Make_jset [OF m2 leads_ok [OF U(1)] yields_tests [OF yields_mono [OF p U(1)]] yields_tests [OF U(2)]]
  note s3 = Make_ld [OF m3 leads_ok [OF s2(1)] word_index_args(2) [OF arg] s2(2)]
  note l3 = leads_trans [OF s2(1) s3(1)]
  note s4 = Make_jeq [OF m4 leads_ok [OF s3(1)] yields_tests [OF s3(2)] yields_tests [OF yields_mono [OF U(2) l3]]]
  note l4 = leads_trans [OF U(1) leads_trans [OF l3 s4(1)]]
  note s5 = Make_jeq [OF m5 leads_ok [OF s4(1)] yields_tests [OF yields_mono [OF p l4]] s4(2)]
  note s6 = Make_ld [OF m6 leads_ok [OF s5(1)] word_index_args(1) [OF arg] s5(2)]
  have "leads c c'" by (rule leads_trans [OF l4 leads_trans [OF s5(1) s6(1)]])
  moreover have "yields c' n
    (\<lambda>d. if valid_32bit (sd_args d ! nat argno) then f d else unexpected_outcome c0 d)"
    by (rule yields_cong [OF s6(2)]) (auto simp: arg valid_32bit_def)
  ultimately show ?thesis ..
qed

text \<open>The test of one half of an argument against one half of mask and val.\<close>

definition half_of :: "arg_half \<Rightarrow> u64 \<Rightarrow> u32" where
  "half_of half x = (if half = UPPER then hi32 x else lo32 x)"

lemma masked_half_ok:
  assumes m: "MaskedEqualHalf u c argno width msk val half passed failed = Inr (n, c')"
    and full: "\<not> (width = 4 \<and> half = UPPER)"
    and ok: "compiler_ok c" and arg: "nat argno < 6"
    and p: "yields c passed f" and q: "yields c failed g"
  shows "leads c c' \<and> yields c' n (\<lambda>d.
    if half_of half (sd_args d ! nat argno) AND half_of half msk = half_of half val then f d else g d)"
proof -
  define idx where "idx = (if half = UPPER then SECCOMP_ARG_MSB_IDX (nat argno)
    else SECCOMP_ARG_LSB_IDX (nat argno))"
  let ?m = "half_of half msk" and ?v = "half_of half val"
  let ?out = "\<lambda>d. if half_of half (sd_args d ! nat argno) AND ?m = ?v then f d else g d"
  have idx: "word_index idx" "wf_seccomp_data d \<Longrightarrow> data_word d idx = half_of half (sd_args d ! nat argno)" for d
    using arg by (simp_all add: idx_def half_of_def)
  have half: "(if half = UPPER then ucast (drop_bit 32 x) else ucast x) = half_of half x" for x
    by (simp add: half_of_def hi32_def lo32_def)
  note m' = m [unfolded MaskedEqualHalf_def if_not_P [OF full] Let_def half, folded idx_def]
  have tp: "tests c passed (\<lambda>d a. f d)" and tq: "tests c failed (\<lambda>d a. g d)"
    using p q by (simp_all add: yields_tests)
  have test_load: "leads c c' \<and> yields c' n ?out"
    if "gen_Make c1 (BPF_LD + BPF_W + BPF_ABS) idx n1 kNullNode = Inr (n, c')"
      and "leads c c1" and "tests c1 n1 h"
      and "\<And>d. h d (half_of half (sd_args d ! nat argno)) = ?out d" for n1 c1 h
  proof -
    note L = Make_ld [OF that(1) leads_ok [OF that(2)] idx(1) that(3)]
    have "yields c' n ?out" by (rule yields_cong [OF L(2)]) (simp add: idx(2) that(4))
    then show ?thesis using leads_trans [OF that(2) L(1)] by blast
  qed
  consider (zero) "?m = 0" | (all) "?m = 0xFFFFFFFF" | (clear) "?m \<noteq> 0" "?m \<noteq> 0xFFFFFFFF" "?v = 0"
    | (bit) "?m \<noteq> 0" "?m \<noteq> 0xFFFFFFFF" "?v \<noteq> 0" "?m = ?v \<and> HasExactlyOneBit (ucast ?m)"
    | (gen) "?m \<noteq> 0" "?m \<noteq> 0xFFFFFFFF" "?v \<noteq> 0" "\<not> (?m = ?v \<and> HasExactlyOneBit (ucast ?m))"
    by blast
  then show ?thesis
  proof cases
    case zero
    with m' have "n = passed" "c' = c" "?v = 0" by (auto simp: res_simps)
    then show ?thesis using zero p leads_refl [OF ok] by simp
  next
    case all
    then have nz: "?m \<noteq> 0" by simp
    from m' obtain n1 c1 where
      j: "gen_Make c (BPF_JMP + BPF_JEQ + BPF_K) ?v passed failed = Inr (n1, c1)"
      and l: "gen_Make c1 (BPF_LD + BPF_W + BPF_ABS) idx n1 kNullNode = Inr (n, c')"
      unfolding if_not_P [OF nz] if_P [OF all] by (elim res_bind_pairE)
    note J = Make_jeq [OF j ok tp tq]
    show ?thesis by (rule test_load [OF l J]) (simp add: all)
  next
    case clear
    from m' obtain n1 c1 where
      j: "gen_Make c (BPF_JMP + BPF_JSET + BPF_K) ?m failed passed = Inr (n1, c1)"
      and l: "gen_Make c1 (BPF_LD + BPF_W + BPF_ABS) idx n1 kNullNode = Inr (n, c')"
      unfolding if_not_P [OF clear(1)] if_not_P [OF clear(2)] if_P [OF clear(3)] by (elim res_bind_pairE)
    note J = Make_jset [OF j ok tq tp]
    show ?thesis by (rule test_load [OF l J]) (simp add: clear)
  next
    case bit
    from m' obtain n1 c1 where
      j: "gen_Make c (BPF_JMP + BPF_JSET + BPF_K) ?m passed failed = Inr (n1, c1)"
      and l: "gen_Make c1 (BPF_LD + BPF_W + BPF_ABS) idx n1 kNullNode = Inr (n, c')"
      unfolding if_not_P [OF bit(1)] if_not_P [OF bit(2)] if_not_P [OF bit(3)] if_P [OF bit(4)]
      by (elim res_bind_pairE)
    note J = Make_jset [OF j ok tp tq]
    have t: "w AND ?m \<noteq> 0 \<longleftrightarrow> w AND ?m = ?v" for w
      using one_bit_test [OF conjunct2 [OF bit(4)], of w] conjunct1 [OF bit(4)] by metis
    show ?thesis
      by (rule test_load [OF l J]) (simp only: t)
  next
    case gen
    from m' obtain n1 c1 n2 c2 where
      j: "gen_Make c (BPF_JMP + BPF_JEQ + BPF_K) ?v passed failed = Inr (n1, c1)"
      and a: "gen_Make c1 (BPF_ALU + BPF_AND + BPF_K) ?m n1 kNullNode = Inr (n2, c2)"
      and l: "gen_Make c2 (BPF_LD + BPF_W + BPF_ABS) idx n2 kNullNode = Inr (n, c')"
      unfolding if_not_P [OF gen(1)] if_not_P [OF gen(2)] if_not_P [OF gen(3)] if_not_P [OF gen(4)]
      by (elim res_bind_pairE)
    note J = Make_jeq [OF j ok tp tq]
    note A = Make_and [OF a leads_ok [OF J(1)] J(2)]
    show ?thesis by (rule test_load [OF l leads_trans [OF J(1) A(1)] A(2)]) simp
  qed
qed

text \<open>The outcome of a branch on a condition.\<close>

definition bool_outcome ::
    "'r policy_compiler \<Rightarrow> bool_expr \<Rightarrow> (arch_seccomp_data \<Rightarrow> outcome) \<Rightarrow> (arch_seccomp_data \<Rightarrow> outcome)
       \<Rightarrow> arch_seccomp_data \<Rightarrow> outcome" where
  "bool_outcome c b f g d =
     (case eval_bool d b of None \<Rightarrow> unexpected_outcome c d | Some x \<Rightarrow> if x then f d else g d)"

lemma MaskedEqual_ok:
  assumes m: "MaskedEqual u c argno width msk val passed failed = Inr (n, c')"
    and ok: "compiler_ok c" and u: "panics c0 u" and cfg: "same_config c0 c"
    and p: "yields c passed f" and q: "yields c failed g"
  shows "leads c c' \<and> yields c' n (bool_outcome c0 (MaskedEqualBoolExpr argno width msk val) f g)"
proof -
  from m obtain n1 c1 where a: "argno \<ge> 0 \<and> argno < 6" and w: "width = 4 \<or> width = 8"
    and lo: "MaskedEqualHalf u c argno width msk val LOWER passed failed = Inr (n1, c1)"
    and hi: "MaskedEqualHalf u c1 argno width msk val UPPER n1 failed = Inr (n, c')"
    unfolding MaskedEqual_def by (elim checkE res_bind_pairE)
  from a have arg: "nat argno < 6" by (simp add: nat_less_iff)
  have L: "leads c c1" "yields c1 n1 (\<lambda>d.
      if lo32 (sd_args d ! nat argno) AND lo32 msk = lo32 val then f d else g d)"
    using masked_half_ok [OF lo _ ok arg p q] by (simp_all add: half_of_def)
  have q1: "yields c1 failed g" by (rule yields_mono [OF q L(1)])
  show ?thesis
  proof (cases "width = 4")
    case True
    have "leads c1 c'" "yields c' n (\<lambda>d. if valid_32bit (sd_args d ! nat argno)
        then if lo32 (sd_args d ! nat argno) AND lo32 msk = lo32 val then f d else g d
        else unexpected_outcome c0 d)"
      using upper_half_32_ok [OF hi [unfolded True] leads_ok [OF L(1)] u same_config_leads [OF cfg L(1)] arg L(2)]
      by simp_all
    note U = this
    have "yields c' n (bool_outcome c0 (MaskedEqualBoolExpr argno width msk val) f g)"
      by (rule yields_cong [OF U(2)]) (simp add: bool_outcome_def True Let_def)
    then show ?thesis using leads_trans [OF L(1) U(1)] by blast
  next
    case False
    have H: "leads c1 c'" "yields c' n (\<lambda>d. if hi32 (sd_args d ! nat argno) AND hi32 msk = hi32 val
        then if lo32 (sd_args d ! nat argno) AND lo32 msk = lo32 val then f d else g d else g d)"
      using masked_half_ok [OF hi _ leads_ok [OF L(1)] arg L(2) q1] False by (simp_all add: half_of_def)
    have "yields c' n (bool_outcome c0 (MaskedEqualBoolExpr argno width msk val) f g)"
      by (rule yields_cong [OF H(2)]) (simp add: bool_outcome_def False Let_def lo_hi_eq_iff [of _ val])
    then show ?thesis using leads_trans [OF L(1) H(1)] by blast
  qed
qed

lemma compile_bool_ok:
  assumes u: "panics c0 u"
  shows "compile_bool u b c t e = Inr (n, c') \<Longrightarrow> compiler_ok c \<Longrightarrow> same_config c0 c \<Longrightarrow>
    yields c t f \<Longrightarrow> yields c e g \<Longrightarrow> leads c c' \<and> yields c' n (bool_outcome c0 b f g)"
proof (induction b arbitrary: c t e n c' f g)
  case (ConstBoolExpr v)
  then have "n = (if v then t else e)" "c' = c" by auto
  then show ?case
    using ConstBoolExpr leads_refl by (cases v) (auto simp: bool_outcome_def elim!: yields_cong)
next
  case (MaskedEqualBoolExpr argno width msk val)
  then show ?case using MaskedEqual_ok u by simp
next
  case (NegateBoolExpr b)
  have "leads c c' \<and> yields c' n (bool_outcome c0 b g f)"
    using NegateBoolExpr.prems by (intro NegateBoolExpr.IH) simp_all
  moreover have "bool_outcome c0 b g f d = bool_outcome c0 (NegateBoolExpr b) f g d" for d
    by (simp add: bool_outcome_def split: option.split)
  ultimately show ?case using yields_cong by blast
next
  case (AndBoolExpr l r)
  then obtain n1 c1 where r: "compile_bool u r c t e = Inr (n1, c1)"
    and l: "compile_bool u l c1 n1 e = Inr (n, c')" by (auto elim!: res_bind_pairE)
  have R: "leads c c1 \<and> yields c1 n1 (bool_outcome c0 r f g)"
    using AndBoolExpr.prems r by (intro AndBoolExpr.IH(2))
  then have L: "leads c1 c' \<and> yields c' n (bool_outcome c0 l (bool_outcome c0 r f g) g)"
    using AndBoolExpr.prems l by (intro AndBoolExpr.IH(1)) (auto intro: leads_ok same_config_leads yields_mono)
  moreover have "bool_outcome c0 l (bool_outcome c0 r f g) g d = bool_outcome c0 (AndBoolExpr l r) f g d" for d
    by (simp add: bool_outcome_def split: option.split)
  ultimately show ?case using R leads_trans yields_cong by blast
next
  case (OrBoolExpr l r)
  then obtain n1 c1 where r: "compile_bool u r c t e = Inr (n1, c1)"
    and l: "compile_bool u l c1 t n1 = Inr (n, c')" by (auto elim!: res_bind_pairE)
  have R: "leads c c1 \<and> yields c1 n1 (bool_outcome c0 r f g)"
    using OrBoolExpr.prems r by (intro OrBoolExpr.IH(2))
  then have L: "leads c1 c' \<and> yields c' n (bool_outcome c0 l f (bool_outcome c0 r f g))"
    using OrBoolExpr.prems l by (intro OrBoolExpr.IH(1)) (auto intro: leads_ok same_config_leads yields_mono)
  moreover have "bool_outcome c0 l f (bool_outcome c0 r f g) d = bool_outcome c0 (OrBoolExpr l r) f g d" for d
    by (simp add: bool_outcome_def split: option.split)
  ultimately show ?case using R leads_trans yields_cong by blast
qed

subsection \<open>Results\<close>

lemma compiler_Trap_ok:
  assumes t: "compiler_Trap ops c f a s = Inr (n, c')" and ok: "compiler_ok c"
  shows "leads c c' \<and> yields c' n (\<lambda>_. OTrap f a s)"
proof -
  from t obtain i r where add: "registry_Add ops (pc_registry c) f a s = Inr (i, r)"
    and mk: "gen_Make (c\<lparr>pc_registry := r\<rparr>) (BPF_RET + BPF_K) (SECCOMP_RET_TRAP + ucast i)
       kNullNode kNullNode = Inr (n, c')"
    unfolding compiler_Trap_def by (elim res_bind_pairE)
  have inv: "invar (pc_registry c)" using ok by (simp add: compiler_ok_def)
  let ?c = "c\<lparr>pc_registry := r\<rparr>"
  have okc: "compiler_ok ?c" using ok Add_invar [OF inv add] by (simp add: compiler_ok_def)
  have ld: "leads c ?c"
    using okc Add_le [OF inv add] by (simp add: leads_def same_config_def)
  have act: "valid_action (SECCOMP_RET_TRAP + ucast i)"
    by (simp add: valid_action_def action_plus low16_ucast)
  have "denotes ?c (OTrap f a s) (SECCOMP_RET_TRAP + ucast i)"
    using Add_handler [OF inv add] by (auto simp: denotes_def)
  then have "denotes c' (OTrap f a s) (SECCOMP_RET_TRAP + ucast i)"
    using denotes_mono gen_Make_ok(1) [OF mk okc insn_known_ops(6) [OF act]] by blast
  from Make_ret [OF mk okc act this] show ?thesis
    using leads_trans [OF ld] by blast
qed

lemma compiler_Return_ok:
  assumes r: "compiler_Return ops c ret = Inr (n, c')" and ok: "compiler_ok c" and act: "valid_action ret"
  shows "leads c c' \<and> yields c' n (\<lambda>_. actual_outcome (pc_has_unsafe_traps c) (OReturn ret))"
proof (cases "pc_has_unsafe_traps c \<and> ret AND SECCOMP_RET_ACTION = SECCOMP_RET_ERRNO")
  case True
  note r' = r [unfolded compiler_Return_def if_P [OF True]]
  show ?thesis using compiler_Trap_ok [OF r' ok] True by simp
next
  case False
  note r' = r [unfolded compiler_Return_def if_not_P [OF False]]
  have "actual_outcome (pc_has_unsafe_traps c) (OReturn ret) = OReturn ret" using False by simp
  moreover have "denotes c' (OReturn ret) ret" by (simp add: denotes_def)
  ultimately show ?thesis using Make_ret [OF r' ok act] by simp
qed

definition expr_outcome :: "'r policy_compiler \<Rightarrow> result_expr \<Rightarrow> arch_seccomp_data \<Rightarrow> outcome" where
  "expr_outcome c r d =
     (case eval_result d r of
        None \<Rightarrow> unexpected_outcome c d
      | Some oc \<Rightarrow> actual_outcome (pc_has_unsafe_traps c) oc)"

lemma compile_result_ok:
  assumes u: "panics c0 u"
  shows "compile_result ops u r c = Inr (n, c') \<Longrightarrow> compiler_ok c \<Longrightarrow> same_config c0 c \<Longrightarrow>
    wf_result r \<Longrightarrow> leads c c' \<and> yields c' n (expr_outcome c0 r)"
proof (induction r arbitrary: c n c')
  case (ReturnResultExpr ret)
  have "pc_has_unsafe_traps c = pc_has_unsafe_traps c0"
    using ReturnResultExpr by (simp add: same_config_def)
  moreover have "leads c c' \<and> yields c' n (\<lambda>_. actual_outcome (pc_has_unsafe_traps c) (OReturn ret))"
    using ReturnResultExpr by (intro compiler_Return_ok) simp_all
  ultimately show ?case using yields_cong by (simp add: expr_outcome_def)
next
  case (TrapResultExpr f a s)
  have "leads c c' \<and> yields c' n (\<lambda>_. OTrap f a s)"
    using TrapResultExpr by (intro compiler_Trap_ok) simp_all
  then show ?case using yields_cong by (simp add: expr_outcome_def)
next
  case (IfThenResultExpr b t e)
  then obtain n1 c1 n2 c2 where 1: "compile_result ops u t c = Inr (n1, c1)"
    and 2: "compile_result ops u e c1 = Inr (n2, c2)"
    and 3: "compile_bool u b c2 n1 n2 = Inr (n, c')" by (auto elim!: res_bind_pairE)
  have T: "leads c c1 \<and> yields c1 n1 (expr_outcome c0 t)"
    using IfThenResultExpr.prems 1 by (intro IfThenResultExpr.IH(1)) simp_all
  then have E: "leads c1 c2 \<and> yields c2 n2 (expr_outcome c0 e)"
    using IfThenResultExpr.prems 2
    by (intro IfThenResultExpr.IH(2)) (auto intro: leads_ok same_config_leads)
  then have "leads c2 c' \<and> yields c' n (bool_outcome c0 b (expr_outcome c0 t) (expr_outcome c0 e))"
    using T IfThenResultExpr.prems
    by (intro compile_bool_ok [OF u 3]) (auto intro: leads_ok same_config_leads yields_mono)
  moreover have "bool_outcome c0 b (expr_outcome c0 t) (expr_outcome c0 e) d
      = expr_outcome c0 (IfThenResultExpr b t e) d" for d
    by (simp add: bool_outcome_def expr_outcome_def split: option.split)
  ultimately show ?case using T E leads_trans yields_cong by blast
qed

lemma Unexpected64bitArgument_ok: "compiler_ok c0 \<Longrightarrow> panics c0 (Unexpected64bitArgument ops)"
  unfolding panics_def
proof (intro allI impI)
  fix c n c'
  assume un: "Unexpected64bitArgument ops c = Inr (n, c')" and ok: "compiler_ok c"
    and cfg: "same_config c0 c"
  then obtain r where r: "pc_panic_func c ''Unexpected 64bit argument detected'' = Inr r"
    and cr: "compile_result ops (\<lambda>c. Inl StackOverflow) r c = Inr (n, c')"
    unfolding Unexpected64bitArgument_def by (elim res_bindE)
  have "wf_result r" using ok r by (auto simp: compiler_ok_def wf_panic_def wf_lift_def)
  moreover have "panics c0 (\<lambda>c. Inl StackOverflow)" by (simp add: panics_def)
  ultimately have "leads c c' \<and> yields c' n (expr_outcome c0 r)"
    using cr ok cfg by (intro compile_result_ok)
  moreover have "expr_outcome c0 r d = unexpected_outcome c0 d" for d
    using r cfg
    by (simp add: expr_outcome_def unexpected_outcome_def same_config_def split: option.split)
  ultimately show "leads c c' \<and> yields c' n (unexpected_outcome c0)" using yields_cong by blast
qed

lemma CompileResult_ok:
  assumes r: "CompileResult ops c res = Inr (n, c')" and ok: "compiler_ok c" and wf: "wf_lift res"
  shows "leads c c'" and "yields c' n (result_outcome c res)"
proof -
  from r obtain e where e: "res = Inr e"
    and ce: "compile_result ops (Unexpected64bitArgument ops) e c = Inr (n, c')"
    unfolding CompileResult_def by (elim res_bindE)
  have "leads c c' \<and> yields c' n (expr_outcome c e)"
    using compile_result_ok [OF Unexpected64bitArgument_ok [OF ok] ce ok] wf e
    by (simp add: wf_lift_def same_config_def)
  moreover have "expr_outcome c e d = result_outcome c res d" for d
    by (simp add: expr_outcome_def result_outcome_def e split: option.split)
  ultimately show "leads c c'" and "yields c' n (result_outcome c res)" using yields_cong by blast+
qed

end

subsection \<open>Ranges\<close>

text \<open>The node that a list of ranges, in ascending order, assigns to a number.\<close>

definition lookup :: "range list \<Rightarrow> u32 \<Rightarrow> node" where
  "lookup rs a = range_node (last (filter (\<lambda>r. range_from r \<le> a) rs))"

lemma lookup_snoc:
  "lookup (rs @ [r]) a = (if range_from r \<le> a then range_node r else lookup rs a)"
  by (simp add: lookup_def)

lemma lookup_append_right:
  "range_from r \<le> a \<Longrightarrow> lookup (ls @ r # rs) a = lookup (r # rs) a"
  by (simp add: lookup_def)

lemma lookup_append_left:
  "\<forall>r \<in> set rs. a < range_from r \<Longrightarrow> lookup (ls @ rs) a = lookup ls a"
  by (simp add: lookup_def linorder_not_le [symmetric])

definition ascending :: "range list \<Rightarrow> bool" where
  "ascending rs \<longleftrightarrow> sorted (map range_from rs)"

text \<open>
  The enumeration may only skip numbers that are treated alike: from an invalid number on,
  up to the next enumerated one.
\<close>

fun gaps_invalid :: "u32 \<Rightarrow> u32 list \<Rightarrow> bool" where
  "gaps_invalid x [] \<longleftrightarrow> True"
| "gaps_invalid x (y # ys) \<longleftrightarrow> x \<le> y
     \<and> (\<forall>a. x < a \<longrightarrow> a < y \<longrightarrow> \<not> IsValid x \<and> \<not> IsValid a) \<and> gaps_invalid y ys"

lemma gaps_invalid_upt:
  assumes "m \<le> n" and "n \<le> 1025" and "gaps_invalid (of_nat n) ys"
  shows "gaps_invalid (of_nat m) (map of_nat [Suc m..<Suc n] @ ys)"
  using assms
proof (induction "n - m" arbitrary: m)
  case 0
  then show ?case by simp
next
  case (Suc k)
  then have m: "m < n" by simp
  have u: "unat (of_nat i :: u32) = i" if "i \<le> 1025" for i
    using that by (intro unat_of_nat_small) simp
  have "gaps_invalid (of_nat (Suc m)) (map of_nat [Suc (Suc m)..<Suc n] @ ys)"
    using Suc m by (intro Suc.hyps(1)) simp_all
  moreover have "(of_nat m :: u32) \<le> of_nat (Suc m)"
    using u [of m] u [of "Suc m"] m Suc.prems by (simp only: word_le_nat_alt)
  moreover have "\<not> (of_nat m < a \<and> a < (of_nat (Suc m) :: u32))" for a
    using u [of m] u [of "Suc m"] m Suc.prems by (simp only: word_less_nat_alt) linarith
  moreover have "[Suc m..<Suc n] = Suc m # [Suc (Suc m)..<Suc n]"
    using m by (simp add: upt_conv_Cons)
  ultimately show ?case by (simp only: list.map append.simps gaps_invalid.simps) blast
qed

lemma gaps_invalid_all: "gaps_invalid 0 (elements Set_ALL)"
proof -
  have "gaps_invalid (of_nat 1024) [1025, 0x7FFFFFFF, 0x80000000, 0xFFFFFFFF]"
    by (simp add: IsValid_iff word_less_nat_alt word_le_nat_alt)
  then have "gaps_invalid (of_nat 0) (map of_nat [Suc 0..<Suc 1024] @ [1025, 0x7FFFFFFF, 0x80000000, 0xFFFFFFFF])"
    by (intro gaps_invalid_upt) simp_all
  moreover have "[0..<1025] = 0 # [Suc 0..<Suc 1024]"
    using upt_conv_Cons [of 0 1025] by (simp only: zero_less_numeral eval_nat_numeral)
  moreover have "gaps_invalid 0 (0 # ys)" if "gaps_invalid 0 ys" for ys
    using that by simp
  moreover have "(of_nat 0 :: u32) = 0" by simp
  ultimately show ?thesis by (simp only: elements_all list.map append.simps)
qed

lemma u32_max: "(a :: u32) \<le> 0xFFFFFFFF"
  using unat_u32_less [of a] by (simp add: word_le_nat_alt)

lemma lookup_mem:
  assumes "rs \<noteq> []" and "range_from (hd rs) \<le> a"
  shows "\<exists>r \<in> set rs. lookup rs a = range_node r"
proof -
  have "hd rs \<in> set (filter (\<lambda>r. range_from r \<le> a) rs)" using assms by simp
  then have "last (filter (\<lambda>r. range_from r \<le> a) rs) \<in> set (filter (\<lambda>r. range_from r \<le> a) rs)"
    by (intro last_in_set) (rule notI, simp only: list.set empty_iff)
  then have "last (filter (\<lambda>r. range_from r \<le> a) rs) \<in> set rs" by simp
  then show ?thesis unfolding lookup_def by blast
qed

lemma ascending_append:
  "ascending (ls @ rs) \<longleftrightarrow> ascending ls \<and> ascending rs
     \<and> (\<forall>l \<in> set ls. \<forall>r \<in> set rs. range_from l \<le> range_from r)"
  by (auto simp: ascending_def sorted_append)

lemma lookup_split:
  assumes "ascending (ls @ r # rs)"
  shows "lookup (ls @ r # rs) a = (if range_from r \<le> a then lookup (r # rs) a else lookup ls a)"
proof (cases "range_from r \<le> a")
  case True
  then show ?thesis by (simp add: lookup_append_right)
next
  case False
  have "a < range_from s" if "s \<in> set (r # rs)" for s
  proof -
    have "ascending (r # rs)" using assms by (simp add: ascending_append)
    then have "range_from r \<le> range_from s" using that by (auto simp: ascending_def)
    then show ?thesis using False by simp
  qed
  then show ?thesis using False by (simp add: lookup_append_left)
qed

context trap_registry
begin

lemma AssembleJumpTable_ok:
  "AssembleJumpTable c rs = Inr (n, c') \<Longrightarrow> compiler_ok c \<Longrightarrow> ascending rs \<Longrightarrow>
   \<forall>r \<in> set rs. range_node r < length (prog_of c) \<Longrightarrow>
     leads c c' \<and> n < length (prog_of c')
   \<and> (\<forall>d a. range_from (hd rs) \<le> a \<longrightarrow>
        dag_exec (prog_of c') d n a True = dag_exec (prog_of c') d (lookup rs a) a True)"
proof (induction "length rs" arbitrary: c rs n c' rule: less_induct)
  case less
  note tab = less.prems(1) [unfolded AssembleJumpTable.simps [of c rs] Let_def]
  from tab have ne: "rs \<noteq> []" by (elim checkE) simp
  show ?case
  proof (cases "length rs = 1")
    case True
    then obtain r where r: "rs = [r]" by (auto simp: length_Suc_conv)
    with tab have "n = range_node r" "c' = c" by simp_all
    then show ?thesis
      using less.prems(2,4) r leads_refl by (simp add: lookup_def)
  next
    case False
    define mid where "mid = length rs div 2"
    from tab obtain jf c1 jt c2 where
      1: "AssembleJumpTable c (take mid rs) = Inr (jf, c1)"
      and 2: "AssembleJumpTable c1 (drop mid rs) = Inr (jt, c2)"
      and 3: "gen_Make c2 (BPF_JMP + BPF_JGE + BPF_K) (range_from (rs ! mid)) jt jf = Inr (n, c')"
      unfolding if_not_P [OF False] mid_def [symmetric] by (elim checkE res_bind_pairE)
    have mid: "0 < mid" "mid < length rs" "length rs - mid < length rs"
      using half_length [OF ne] False by (simp_all add: mid_def)
    have split: "rs = take mid rs @ rs ! mid # drop (Suc mid) rs" using mid by (simp add: id_take_nth_drop)
    have dr: "drop mid rs = rs ! mid # drop (Suc mid) rs" using mid by (simp add: Cons_nth_drop_Suc)
    have asc: "ascending (take mid rs)" "ascending (drop mid rs)"
      using less.prems(3) ascending_append [of "take mid rs" "drop mid rs"] by simp_all
    have nodes: "\<forall>r \<in> set (take mid rs). range_node r < length (prog_of c)"
      "\<forall>r \<in> set (drop mid rs). range_node r < length (prog_of c)"
      using less.prems(4) by (auto dest: in_set_takeD in_set_dropD)
    have L: "leads c c1" "jf < length (prog_of c1)"
      "\<And>d a. range_from (hd (take mid rs)) \<le> a \<Longrightarrow>
        dag_exec (prog_of c1) d jf a True = dag_exec (prog_of c1) d (lookup (take mid rs) a) a True"
      using less.hyps [OF _ 1 less.prems(2) asc(1) nodes(1)] mid by simp_all
    have nodes1: "\<forall>r \<in> set (drop mid rs). range_node r < length (prog_of c1)"
      using nodes(2) leads_length [OF L(1)] by blast
    have R: "leads c1 c2" "jt < length (prog_of c2)"
      "\<And>d a. range_from (rs ! mid) \<le> a \<Longrightarrow>
        dag_exec (prog_of c2) d jt a True = dag_exec (prog_of c2) d (lookup (drop mid rs) a) a True"
      using less.hyps [OF _ 2 leads_ok [OF L(1)] asc(2) nodes1] mid by (simp_all add: dr)
    note M = gen_Make_ok [OF 3 leads_ok [OF R(1)] insn_known_ops(5)]
    note l2 = leads_trans [OF R(1) M(1)]
    have "dag_exec (prog_of c') d n a True = dag_exec (prog_of c') d (lookup rs a) a True"
      if a: "range_from (hd rs) \<le> a" for d a
    proof -
      have go: "dag_exec (prog_of c') d n a True
          = dag_exec (prog_of c') d (if range_from (rs ! mid) \<le> a then jt else jf) a True"
        using M(3) effect_jge by (simp add: node_runs_def)
      have look: "lookup rs a = (if range_from (rs ! mid) \<le> a then lookup (drop mid rs) a
          else lookup (take mid rs) a)"
        using lookup_split [of "take mid rs" "rs ! mid" "drop (Suc mid) rs" a] split less.prems(3) dr
        by simp
      show ?thesis
      proof (cases "range_from (rs ! mid) \<le> a")
        case True
        have "\<exists>r \<in> set (drop mid rs). lookup (drop mid rs) a = range_node r"
          using True dr by (intro lookup_mem) simp_all
        then have "lookup (drop mid rs) a < length (prog_of c2)"
          using nodes1 leads_length [OF R(1)] by fastforce
        then show ?thesis
          using go look True R(2,3) leads_dag_exec [OF M(1)] by simp
      next
        case jf: False
        have hd: "range_from (hd (take mid rs)) \<le> a" "take mid rs \<noteq> []"
          using a mid ne by simp_all
        then have "\<exists>r \<in> set (take mid rs). lookup (take mid rs) a = range_node r"
          by (intro lookup_mem)
        then have "lookup (take mid rs) a < length (prog_of c1)"
          using nodes(1) leads_length [OF L(1)] by fastforce
        then show ?thesis
          using go look jf L(2) L(3) [OF hd(1)] leads_dag_exec [OF l2] by simp
      qed
    qed
    then show ?thesis
      using M(2) leads_trans [OF L(1) l2] by blast
  qed
qed

text \<open>The ranges found so far assign the right code to every number up to \<open>x\<close>.\<close>

definition covers :: "'r policy_compiler \<Rightarrow> 'r policy_compiler \<Rightarrow> range list \<Rightarrow> u32 \<Rightarrow> bool" where
  "covers c0 c rs x \<longleftrightarrow> rs \<noteq> [] \<and> ascending rs \<and> range_from (hd rs) = 0
     \<and> (\<forall>r \<in> set rs. range_from r \<le> x \<and> range_node r < length (prog_of c))
     \<and> (\<forall>a \<le> x. yields c (lookup rs a) (syscall_outcome c0 a))"

lemma covers_mono: "covers c0 c rs x \<Longrightarrow> leads c c' \<Longrightarrow> covers c0 c' rs x"
  using yields_mono leads_length by (simp add: covers_def) blast

lemma covers_snoc:
  assumes "covers c0 c rs x" and "x \<le> y" and "yields c node (syscall_outcome c0 y)"
    and gap: "\<And>a. x < a \<Longrightarrow> a < y \<Longrightarrow> yields c (lookup rs a) (syscall_outcome c0 a)"
  shows "covers c0 c (rs @ [\<lparr>range_from = y, range_node = node\<rparr>]) y"
    and "lookup rs y = node \<Longrightarrow> covers c0 c rs y"
proof -
  have below: "yields c (lookup rs a) (syscall_outcome c0 a)" if "a < y" for a
    using assms(1) gap that by (cases "a \<le> x") (simp_all add: covers_def)
  have froms: "range_from r \<le> y" if "r \<in> set rs" for r
    using assms(1,2) that by (auto simp: covers_def)
  have "yields c (lookup (rs @ [\<lparr>range_from = y, range_node = node\<rparr>]) a) (syscall_outcome c0 a)"
    if "a \<le> y" for a
    using that below assms(3) by (cases "a = y") (simp_all add: lookup_snoc)
  moreover have "node < length (prog_of c)" using assms(3) by (simp add: yields_def)
  ultimately show "covers c0 c (rs @ [\<lparr>range_from = y, range_node = node\<rparr>]) y"
    using assms(1) froms by (auto simp: covers_def ascending_def sorted_append)
  assume "lookup rs y = node"
  then have "yields c (lookup rs a) (syscall_outcome c0 a)" if "a \<le> y" for a
    using that below assms(3) by (cases "a = y") simp_all
  then show "covers c0 c rs y" using assms(1) froms by (simp add: covers_def)
qed

lemma syscall_outcome_invalid:
  "\<not> IsValid a \<Longrightarrow> syscall_outcome c a = result_outcome c (InvalidSyscall (pc_policy c))"
  by (rule ext) (simp add: syscall_outcome_def)

text \<open>One number's node, as the loop computes it.\<close>

lemma syscall_node_ok:
  assumes node: "(if IsValid y then CompileResult ops c (EvaluateSyscall (pc_policy c) (sint y))
      else Inr (bad, c)) = Inr (node, c1)"
    and ok: "compiler_ok c" and ld: "leads c0 c"
    and bad: "yields c bad (result_outcome c0 (InvalidSyscall (pc_policy c0)))"
  shows "leads c c1" and "yields c1 node (syscall_outcome c0 y)"
proof -
  have pol: "pc_policy c = pc_policy c0" using ld by (simp add: leads_def same_config_def)
  have "leads c c1 \<and> yields c1 node (syscall_outcome c0 y)"
  proof (cases "IsValid y")
    case True
    have "wf_lift (EvaluateSyscall (pc_policy c) (sint y))"
      using ok by (simp add: compiler_ok_def wf_policy_def)
    then have "leads c c1 \<and> yields c1 node (result_outcome c (EvaluateSyscall (pc_policy c) (sint y)))"
      using CompileResult_ok [of c _ node c1] node True ok by simp
    moreover have "result_outcome c (EvaluateSyscall (pc_policy c) (sint y)) = syscall_outcome c0 y"
      using True outcome_config [OF ld] pol by (intro ext) (simp add: syscall_outcome_def)
    ultimately show ?thesis by simp
  next
    case False
    then show ?thesis using node bad leads_refl [OF ok] by (simp add: syscall_outcome_invalid)
  qed
  then show "leads c c1" and "yields c1 node (syscall_outcome c0 y)" by blast+
qed

lemma find_ranges_loop_ok:
  "find_ranges_loop ops c bad ranges osn on xs = Inr (rs, c') \<Longrightarrow> leads c0 c \<Longrightarrow>
   yields c bad (result_outcome c0 (InvalidSyscall (pc_policy c0))) \<Longrightarrow> osn \<le> x \<Longrightarrow>
   covers c0 c (ranges @ [\<lparr>range_from = osn, range_node = on\<rparr>]) x \<Longrightarrow> gaps_invalid x xs \<Longrightarrow>
     leads c c' \<and> covers c0 c' rs (last (x # xs))"
proof (induction xs arbitrary: c ranges osn on x)
  case Nil
  then show ?case using leads_refl [OF leads_ok] by auto
next
  case (Cons y ys)
  let ?rs = "ranges @ [\<lparr>range_from = osn, range_node = on\<rparr>]"
  have ok: "compiler_ok c" by (rule leads_ok [OF Cons.prems(2)])
  from Cons.prems(1) obtain node c1 where
    node: "(if IsValid y then CompileResult ops c (EvaluateSyscall (pc_policy c) (sint y))
      else Inr (bad, c)) = Inr (node, c1)"
    and rest: "(if node \<noteq> on then find_ranges_loop ops c1 bad ?rs y node ys
      else find_ranges_loop ops c1 bad ranges osn on ys) = Inr (rs, c')"
    unfolding find_ranges_loop.simps by (elim res_bind_pairE)
  note N = syscall_node_ok [OF node ok Cons.prems(2,3)]
  have le: "x \<le> y" using Cons.prems(6) by simp
  have cov: "covers c0 c1 ?rs x" using Cons.prems(5) N(1) by (rule covers_mono)
  have on: "lookup ?rs a = on" if "osn \<le> a" for a using that by (simp add: lookup_snoc)
  have gap: "yields c1 (lookup ?rs a) (syscall_outcome c0 a)" if "x < a" "a < y" for a
  proof -
    have "\<not> IsValid x" "\<not> IsValid a" using Cons.prems(6) that by auto
    then have same: "syscall_outcome c0 a = syscall_outcome c0 x"
      by (simp add: syscall_outcome_invalid)
    have "yields c1 (lookup ?rs x) (syscall_outcome c0 x)" using cov by (simp add: covers_def)
    then show ?thesis using on [of x] on [of a] Cons.prems(4) that same by simp
  qed
  note S = covers_snoc [OF cov le N(2) gap]
  have ld: "leads c0 c1" by (rule leads_trans [OF Cons.prems(2) N(1)])
  have bad: "yields c1 bad (result_outcome c0 (InvalidSyscall (pc_policy c0)))"
    by (rule yields_mono [OF Cons.prems(3) N(1)])
  have gs: "gaps_invalid y ys" using Cons.prems(6) by simp
  have "leads c1 c' \<and> covers c0 c' rs (last (y # ys))"
  proof (cases "node = on")
    case True
    then have "covers c0 c1 ?rs y" using S(2) on [of y] Cons.prems(4) le by simp
    then show ?thesis
      using rest True Cons.prems(4) le gs bad ld by (intro Cons.IH [of c1 ranges osn on]) simp_all
  next
    case False
    then show ?thesis
      using rest S(1) gs bad ld by (intro Cons.IH [of c1 ?rs y node]) simp_all
  qed
  then show ?case using leads_trans [OF N(1)] by auto
qed

lemma FindRanges_ok:
  assumes f: "FindRanges ops c = Inr (rs, c')" and ok: "compiler_ok c"
  shows "leads c c'" and "covers c c' rs 0xFFFFFFFF"
proof -
  from f obtain bad c1 on c2 where
    1: "CompileResult ops c (InvalidSyscall (pc_policy c)) = Inr (bad, c1)"
    and 2: "(if IsValid 0 then CompileResult ops c1 (EvaluateSyscall (pc_policy c1) (sint (0 :: u32)))
       else Inr (bad, c1)) = Inr (on, c2)"
    and 3: "find_ranges_loop ops c2 bad [] 0 on (elements Set_ALL) = Inr (rs, c')"
    unfolding FindRanges_def by (elim res_bind_pairE)
  have "wf_lift (InvalidSyscall (pc_policy c))" using ok by (simp add: compiler_ok_def wf_policy_def)
  note I = CompileResult_ok [OF 1 ok this]
  note N = syscall_node_ok [OF 2 leads_ok [OF I(1)] I]
  note ld = leads_trans [OF I(1) N(1)]
  have "covers c c2 ([] @ [\<lparr>range_from = 0, range_node = on\<rparr>]) 0"
    using N(2) by (simp add: covers_def ascending_def lookup_def yields_def)
  then have "leads c2 c' \<and> covers c c' rs (last (0 # elements Set_ALL))"
    using gaps_invalid_all by (intro find_ranges_loop_ok [OF 3 ld yields_mono [OF I(2) N(1)]]) simp_all
  moreover have "last (0 # elements Set_ALL) = 0xFFFFFFFF" by (simp add: elements_all)
  ultimately show "leads c c'" and "covers c c' rs 0xFFFFFFFF" using leads_trans [OF ld] by auto
qed

subsection \<open>The whole filter\<close>

lemma DispatchSyscall_ok:
  assumes disp: "DispatchSyscall ops c = Inr (n, c')" and ok: "compiler_ok c"
  shows "leads c c'"
    and "yields c' n (\<lambda>d. if sd_nr d AND 0x40000000 \<noteq> 0
      then result_outcome c (pc_panic_func c ''Illegal mixing of system call ABIs'') d
      else syscall_outcome c (sd_nr d) d)"
proof -
  from disp obtain rs c1 j c2 m c3 where 1: "FindRanges ops c = Inr (rs, c1)"
    and 2: "AssembleJumpTable c1 rs = Inr (j, c2)"
    and 3: "CheckSyscallNumber ops c2 j = Inr (m, c3)"
    and 4: "gen_Make c3 (BPF_LD + BPF_W + BPF_ABS) SECCOMP_NR_IDX m kNullNode = Inr (n, c')"
    unfolding DispatchSyscall_def by (elim res_bind_pairE)
  note F = FindRanges_ok [OF 1 ok]
  have T: "leads c1 c2" "j < length (prog_of c2)"
    "\<And>d a. dag_exec (prog_of c2) d j a True = dag_exec (prog_of c2) d (lookup rs a) a True"
    using AssembleJumpTable_ok [OF 2 leads_ok [OF F(1)]] F(2) by (auto simp: covers_def)
  have "yields c2 (lookup rs a) (syscall_outcome c a)" for a
  proof -
    have "yields c1 (lookup rs a) (syscall_outcome c a)" using F(2) u32_max [of a] by (simp add: covers_def)
    then show ?thesis using T(1) by (rule yields_mono)
  qed
  then have table: "tests c2 j (\<lambda>d a. syscall_outcome c a d)"
    using T(2,3) by (simp add: tests_def yields_def)
  note l2 = leads_trans [OF F(1) T(1)]
  have pan: "pc_panic_func c2 = pc_panic_func c" using l2 by (simp add: leads_def same_config_def)
  from 3 obtain p c4 where
    5: "CompileResult ops c2 (pc_panic_func c2 ''Illegal mixing of system call ABIs'') = Inr (p, c4)"
    and 6: "gen_Make c4 (BPF_JMP + BPF_JSET + BPF_K) 0x40000000 p j = Inr (m, c3)"
    unfolding CheckSyscallNumber_def by (simp only: if_True if_False) (elim res_bind_pairE)
  have "wf_lift (pc_panic_func c2 ''Illegal mixing of system call ABIs'')"
    using leads_ok [OF l2] by (simp add: compiler_ok_def wf_panic_def)
  note P = CompileResult_ok [OF 5 leads_ok [OF l2] this]
  note J = Make_jset [OF 6 leads_ok [OF P(1)] yields_tests [OF P(2)] tests_mono [OF table P(1)]]
  note L = Make_ld [OF 4 leads_ok [OF J(1)] word_index_fields(1) J(2)]
  show "leads c c'" by (rule leads_trans [OF l2 leads_trans [OF P(1) leads_trans [OF J(1) L(1)]]])
  show "yields c' n (\<lambda>d. if sd_nr d AND 0x40000000 \<noteq> 0
      then result_outcome c (pc_panic_func c ''Illegal mixing of system call ABIs'') d
      else syscall_outcome c (sd_nr d) d)"
    by (rule yields_cong [OF L(2)]) (simp only: data_word_fields outcome_config(2) [OF l2] pan)
qed

lemma MaybeAddEscapeHatch_ok:
  assumes esc: "MaybeAddEscapeHatch ops c rest = Inr (n, c')" and ok: "compiler_ok c"
    and rest: "yields c rest f"
  shows "leads c c'"
    and "yields c' n (\<lambda>d. if pc_has_unsafe_traps c \<and> sd_instruction_pointer d = pc_escapepc c
      then OReturn SECCOMP_RET_ALLOW else f d)"
proof -
  let ?out = "\<lambda>d. if pc_has_unsafe_traps c \<and> sd_instruction_pointer d = pc_escapepc c
      then OReturn SECCOMP_RET_ALLOW else f d"
  have "leads c c' \<and> yields c' n ?out"
  proof (cases "pc_has_unsafe_traps c")
    case False
    then have "n = rest" "c' = c" using esc by (simp_all add: MaybeAddEscapeHatch_def)
    then show ?thesis using False rest leads_refl [OF ok] by simp
  next
    case True
    obtain b r where en: "registry_EnableUnsafeTraps ops (pc_registry c) = (b, r)"
      by (cases "registry_EnableUnsafeTraps ops (pc_registry c)")
    let ?c = "c\<lparr>pc_registry := r\<rparr>"
    have reg: "invar (pc_registry c)" using ok by (simp add: compiler_ok_def)
    have okc: "compiler_ok ?c" using ok Enable_invar [OF reg en] by (simp add: compiler_ok_def)
    have l0: "leads c ?c"
      using okc Enable_le [OF reg en] by (simp add: leads_def same_config_def)
    have pc: "pc_escapepc ?c = pc_escapepc c" by simp
    define lopc hipc :: u32 where "lopc = lo32 (pc_escapepc c)" and "hipc = hi32 (pc_escapepc c)"
    from esc True obtain a c1 n1 c2 n2 c3 n3 c4 where
      1: "CompileResult ops ?c Allow = Inr (a, c1)"
      and 2: "gen_Make c1 (BPF_JMP + BPF_JEQ + BPF_K) hipc a rest = Inr (n1, c2)"
      and 3: "gen_Make c2 (BPF_LD + BPF_W + BPF_ABS) SECCOMP_IP_MSB_IDX n1 kNullNode = Inr (n2, c3)"
      and 4: "gen_Make c3 (BPF_JMP + BPF_JEQ + BPF_K) lopc n2 rest = Inr (n3, c4)"
      and 5: "gen_Make c4 (BPF_LD + BPF_W + BPF_ABS) SECCOMP_IP_LSB_IDX n3 kNullNode = Inr (n, c')"
      unfolding MaybeAddEscapeHatch_def en Let_def prod.case lopc_def hipc_def lo32_def hi32_def
      by (simp only: not_True_eq_False if_False pc) (elim checkE res_bind_pairE)
    note A = CompileResult_ok [OF 1 okc wf_Allow]
    have allow: "result_outcome ?c Allow d = OReturn SECCOMP_RET_ALLOW" for d
      by (simp add: result_outcome_def Allow_def)
    note l1 = leads_trans [OF l0 A(1)]
    note J2 = Make_jeq [OF 2 leads_ok [OF l1] yields_tests [OF A(2)] yields_tests [OF yields_mono [OF rest l1]]]
    note L3 = Make_ld [OF 3 leads_ok [OF J2(1)] word_index_fields(3) J2(2)]
    note l3 = leads_trans [OF l1 leads_trans [OF J2(1) L3(1)]]
    note J4 = Make_jeq [OF 4 leads_ok [OF l3] yields_tests [OF L3(2)] yields_tests [OF yields_mono [OF rest l3]]]
    note L5 = Make_ld [OF 5 leads_ok [OF J4(1)] word_index_fields(4) J4(2)]
    have "yields c' n ?out"
      by (rule yields_cong [OF L5(2)])
         (auto simp: True allow lopc_def hipc_def lo_hi_eq_iff [of _ "pc_escapepc c"])
    then show ?thesis using leads_trans [OF l3 leads_trans [OF J4(1) L5(1)]] by blast
  qed
  then show "leads c c'" "yields c' n ?out" by blast+
qed

lemma CheckArch_ok:
  assumes arch: "CheckArch ops c passed = Inr (n, c')" and ok: "compiler_ok c"
    and p: "yields c passed f"
  shows "leads c c'"
    and "yields c' n (\<lambda>d. if sd_arch d \<noteq> SECCOMP_ARCH
      then result_outcome c (pc_panic_func c ''Invalid audit architecture in BPF filter'') d else f d)"
proof -
  from arch obtain i c1 m c2 where
    1: "CompileResult ops c (pc_panic_func c ''Invalid audit architecture in BPF filter'') = Inr (i, c1)"
    and 2: "gen_Make c1 (BPF_JMP + BPF_JEQ + BPF_K) SECCOMP_ARCH passed i = Inr (m, c2)"
    and 3: "gen_Make c2 (BPF_LD + BPF_W + BPF_ABS) SECCOMP_ARCH_IDX m kNullNode = Inr (n, c')"
    unfolding CheckArch_def by (elim res_bind_pairE)
  have "wf_lift (pc_panic_func c ''Invalid audit architecture in BPF filter'')"
    using ok by (simp add: compiler_ok_def wf_panic_def)
  note P = CompileResult_ok [OF 1 ok this]
  note J = Make_jeq [OF 2 leads_ok [OF P(1)] yields_tests [OF yields_mono [OF p P(1)]] yields_tests [OF P(2)]]
  note L = Make_ld [OF 3 leads_ok [OF J(1)] word_index_fields(2) J(2)]
  show "leads c c'" by (rule leads_trans [OF P(1) leads_trans [OF J(1) L(1)]])
  show "yields c' n (\<lambda>d. if sd_arch d \<noteq> SECCOMP_ARCH
      then result_outcome c (pc_panic_func c ''Invalid audit architecture in BPF filter'') d else f d)"
    by (rule yields_cong [OF L(2)]) (simp add: data_word_fields)
qed

lemma AssemblePolicy_ok:
  assumes as: "AssemblePolicy ops c = Inr (n, c')" and ok: "compiler_ok c"
  shows "leads c c'" and "yields c' n (filter_outcome c)"
proof -
  from as obtain n1 c1 n2 c2 where 1: "DispatchSyscall ops c = Inr (n1, c1)"
    and 2: "MaybeAddEscapeHatch ops c1 n1 = Inr (n2, c2)"
    and 3: "CheckArch ops c2 n2 = Inr (n, c')"
    unfolding AssemblePolicy_def by (elim res_bind_pairE)
  note D = DispatchSyscall_ok [OF 1 ok]
  note E = MaybeAddEscapeHatch_ok [OF 2 leads_ok [OF D(1)] D(2)]
  note A = CheckArch_ok [OF 3 leads_ok [OF E(1)] E(2)]
  note l2 = leads_trans [OF D(1) E(1)]
  have eq: "pc_panic_func c2 = pc_panic_func c" "pc_escapepc c1 = pc_escapepc c"
    "pc_has_unsafe_traps c1 = pc_has_unsafe_traps c"
    using D(1) l2 by (simp_all add: leads_def same_config_def)
  show "leads c c'" by (rule leads_trans [OF l2 A(1)])
  show "yields c' n (filter_outcome c)"
    by (rule yields_cong [OF A(2)])
       (simp only: filter_outcome_def eq outcome_config(2) [OF l2] not_not)
qed

text \<open>
  The compiler's correctness: whenever \<open>Compile\<close> returns, the program decides every system
  call as the policy prescribes, and it does so without the verifier finding fault with it.
\<close>

lemma Compile_ok:
  assumes comp: "compiler_Compile ops c = Inr (prog, c')" and ok: "compiler_ok c"
    and wf: "wf_seccomp_data d"
  shows "leads c c'" and "\<exists>v. EvaluateBPF prog d = Some (Inr v) \<and> denotes c' (filter_outcome c d) v"
proof -
  from comp obtain invalid c0 head c1 where
    0: "(if pc_has_unsafe_traps c then
          res_bind (check (0 \<noteq> pc_escapepc c) ''UnsafeTrap() requires a valid escape PC'') (\<lambda>_.
          res_bind (check_required_syscalls (pc_policy c) kSyscallsRequiredForUnsafeTraps) (\<lambda>_.
          let (enabled, r) = registry_EnableUnsafeTraps ops (pc_registry c) in
          res_bind (check enabled ''We'd rather die than enable unsafe traps'') (\<lambda>_.
          Inr (c\<lparr>pc_registry := r\<rparr>))))
        else Inr c) = Inr c0"
    and 1: "AssemblePolicy ops c0 = Inr (head, c1)"
    and 2: "res_bind (CodeGen_Compile (pc_gen c1) head) (\<lambda>program. Inr (program, c1)) = Inr (prog, c')"
    unfolding compiler_Compile_def
    by (erule_tac res_bindE, erule_tac checkE, erule_tac res_bindE, erule_tac res_bind_pairE) blast
  have c0: "leads c c0"
  proof (cases "pc_has_unsafe_traps c")
    case False
    then show ?thesis using 0 leads_refl [OF ok] by simp
  next
    case True
    obtain b r where en: "registry_EnableUnsafeTraps ops (pc_registry c) = (b, r)"
      by (cases "registry_EnableUnsafeTraps ops (pc_registry c)")
    have reg: "invar (pc_registry c)" using ok by (simp add: compiler_ok_def)
    have "c0 = c\<lparr>pc_registry := r\<rparr>"
      using 0 True en by (auto simp: res_simps)
    then show ?thesis
      using ok Enable_invar [OF reg en] Enable_le [OF reg en]
      by (simp add: leads_def same_config_def compiler_ok_def)
  qed
  note A = AssemblePolicy_ok [OF 1 leads_ok [OF c0]]
  from 2 have cg: "CodeGen_Compile (pc_gen c1) head = Inr prog" and c': "c' = c1"
    by (auto simp: res_simps)
  show "leads c c'" using leads_trans [OF c0 A(1)] c' by simp
  have "yields c1 head (filter_outcome c)" using A(2) outcome_config(4) [OF c0] by simp
  then obtain v where v: "dag_exec (prog_of c1) d head 0 False = Some v"
    and den: "denotes c1 (filter_outcome c d) v" using wf unfolding yields_def by blast
  have "gen_reachable (pc_gen c1)" using leads_ok [OF A(1)] by (simp add: compiler_ok_def)
  then have "gen_invar (pc_gen c1)" using gen_reachable_invar by blast
  then have "EvaluateBPF prog d = Some (Inr v)" using cg v by (intro CodeGen_Compile_runs)
  then show "\<exists>v. EvaluateBPF prog d = Some (Inr v) \<and> denotes c' (filter_outcome c d) v"
    using den c' by blast
qed

end

end
