(* ===== verification/Filter_Properties.thy ===== *)
theory Filter_Properties
  imports Compiler_Correct
begin

text \<open>
  The properties of compiled filters, for the trap registry of \<open>Trap_Impl\<close>: the program
  decides every system call as the policy says, it fails closed, the kernel can load it, and
  the escape hatch for unsafe traps is guarded.
\<close>

subsection \<open>The compiler with the process's trap registry\<close>

text \<open>
  What a filter returns for an outcome: the value itself, or a trap id under which the
  registry finds the handler.
\<close>

fun returns :: "trap policy_compiler \<Rightarrow> outcome \<Rightarrow> u32 \<Rightarrow> bool" where
  "returns c (OReturn r) v \<longleftrightarrow> v = r"
| "returns c (OTrap f a s) v \<longleftrightarrow>
     (\<exists>i. v = SECCOMP_RET_TRAP + ucast i \<and> trap_handler (pc_registry c) i = Some (f, a, s))"

lemma denotes_returns: "trap.denotes c oc v = returns c oc v"
  by (cases oc) (simp_all add: trap.denotes_def)

text \<open>A compiler set up for a policy, as \<open>SandboxBPF::AssembleFilter\<close> sets it up.\<close>

definition compiler_for ::
    "policy \<Rightarrow> trap \<Rightarrow> u64 \<Rightarrow> (string \<Rightarrow> abort + result_expr) \<Rightarrow> abort + trap policy_compiler" where
  "compiler_for policy registry escapepc panic =
     res_bind (PolicyCompiler policy registry) (\<lambda>c.
     Inr (SetPanicFunc panic (DangerousSetEscapePC escapepc c)))"

lemma compiler_for_ok:
  assumes "compiler_for policy t escapepc panic = Inr c" and "trap_invar t"
    and "wf_policy policy" and "wf_panic panic"
  shows "trap.compiler_ok c" and "pc_policy c = policy" and "pc_panic_func c = panic"
    and "pc_escapepc c = escapepc" and "pc_registry c = t"
    and "policy_HasUnsafeTraps policy = Inr (pc_has_unsafe_traps c)"
proof -
  have c: "\<exists>u. policy_HasUnsafeTraps policy = Inr u \<and> c = \<lparr>pc_policy = policy, pc_registry = t,
      pc_escapepc = escapepc, pc_panic_func = panic, pc_gen = CodeGen_init, pc_has_unsafe_traps = u\<rparr>"
    using assms(1)
    by (auto simp: compiler_for_def PolicyCompiler_def SetPanicFunc_def DangerousSetEscapePC_def res_simps)
  then show "trap.compiler_ok c" "pc_policy c = policy" "pc_panic_func c = panic"
    "pc_escapepc c = escapepc" "pc_registry c = t"
    "policy_HasUnsafeTraps policy = Inr (pc_has_unsafe_traps c)"
    using assms(2-4) gen_reachable.init by (auto simp: trap.compiler_ok_def insns_known_def CodeGen_init_def)
qed

subsection \<open>An example policy\<close>

text \<open>System call 0 fails with \<open>EPERM\<close>, every other one is allowed.\<close>

definition example_policy :: policy where
  "example_policy = \<lparr>EvaluateSyscall = (\<lambda>n. if n = 0 then Error 1 else Allow),
     InvalidSyscall = Policy_InvalidSyscall\<rparr>"

lemma example_policy_wf: "wf_policy example_policy" "wf_panic DefaultPanic"
  using wf_Error wf_Allow wf_Kill
  by (simp_all add: wf_policy_def wf_panic_def example_policy_def Policy_InvalidSyscall_def DefaultPanic_def)

lemma has_unsafe_traps_loop_invalid:
  assumes "\<forall>n \<in> set ns. \<exists>r. EvaluateSyscall p (sint n) = Inr r \<and> \<not> HasUnsafeTraps r"
    and "InvalidSyscall p = Inr i"
  shows "has_unsafe_traps_loop p ns = Inr (HasUnsafeTraps i)"
  using assms by (induction ns) auto

lemma find_ranges_loop_same:
  assumes "\<forall>y \<in> set xs. IsValid y \<and> CompileResult ops c (EvaluateSyscall (pc_policy c) (sint y)) = Inr (on, c)"
  shows "find_ranges_loop ops c bad ranges osn on (xs @ ys) = find_ranges_loop ops c bad ranges osn on ys"
  using assms by (induction xs) auto

definition example_compiler :: "trap policy_compiler" where
  "example_compiler = \<lparr>pc_policy = example_policy, pc_registry = Trap_init, pc_escapepc = 0,
     pc_panic_func = DefaultPanic, pc_gen = CodeGen_init, pc_has_unsafe_traps = False\<rparr>"

lemma example_compiler_for: "compiler_for example_policy Trap_init 0 DefaultPanic = Inr example_compiler"
proof -
  have "policy_HasUnsafeTraps example_policy = Inr (HasUnsafeTraps (ReturnResultExpr 0x50026))"
    unfolding policy_HasUnsafeTraps_def
    by (rule has_unsafe_traps_loop_invalid)
       (auto simp: example_policy_def Policy_InvalidSyscall_def Error_def Allow_def)
  then show ?thesis
    by (simp add: compiler_for_def PolicyCompiler_def SetPanicFunc_def DangerousSetEscapePC_def
        example_compiler_def)
qed

lemma elements_all_split:
  obtains xs where "elements Set_ALL = 0 # 1 # xs @ [1025, 0x7FFFFFFF, 0x80000000, 0xFFFFFFFF]"
    and "\<forall>y \<in> set xs. IsValid y \<and> sint y \<noteq> 0"
proof
  have "[0..<1025] = 0 # 1 # [2..<1025]"
    using upt_conv_Cons [of 0 1025] upt_conv_Cons [of 1 1025]
    by (simp only: zero_less_numeral one_less_numeral_iff) (simp add: numeral_2_eq_2)
  then show "elements Set_ALL =
      0 # 1 # map of_nat [2..<1025] @ [1025, 0x7FFFFFFF, 0x80000000, 0xFFFFFFFF]"
    by (simp only: elements_all list.map append.simps) simp
  have nz: "(of_nat n :: u32) \<noteq> 0" if "2 \<le> n" "n < 1025" for n
  proof -
    have "unat (of_nat n :: u32) = n" using that by (intro unat_of_nat_small) simp
    then show ?thesis using that by (metis not_numeral_le_zero unat_0)
  qed
  have val: "IsValid (of_nat n)" if "n < 1025" for n
    using that by (simp add: IsValid_iff word_le_nat_alt unat_of_nat_small)
  have "IsValid y \<and> y \<noteq> 0" if mem: "y \<in> set (map of_nat [2..<1025])" for y
  proof -
    obtain n where "y = of_nat n" "n \<in> {2..<1025}" using mem unfolding set_map set_upt by blast
    then show ?thesis using nz val by simp
  qed
  moreover have "sint y \<noteq> 0" if "y \<noteq> 0" for y :: u32 using that by (simp add: signed_eq_0_iff)
  ultimately show "\<forall>y \<in> set (map of_nat [2..<1025]). IsValid y \<and> sint y \<noteq> 0" by blast
qed

definition example_ranges_gen :: code_gen where
  "example_ranges_gen = \<lparr>
     cg_program = [\<lparr>sf_code = BPF_RET, sf_jt = 0, sf_jf = 0, sf_k = 0x50026\<rparr>,
       \<lparr>sf_code = BPF_RET, sf_jt = 0, sf_jf = 0, sf_k = 0x50001\<rparr>,
       \<lparr>sf_code = BPF_RET, sf_jt = 0, sf_jf = 0, sf_k = SECCOMP_RET_ALLOW\<rparr>],
     cg_equivalent = [0, Suc 0, Suc (Suc 0)],
     cg_memos = [(BPF_RET, 0x50026, kNullNode, kNullNode) \<mapsto> 0,
       (BPF_RET, 0x50001, kNullNode, kNullNode) \<mapsto> Suc 0,
       (BPF_RET, SECCOMP_RET_ALLOW, kNullNode, kNullNode) \<mapsto> Suc (Suc 0)]\<rparr>"

lemmas compile_simps = CompileResult_def compiler_Return_def gen_Make_def example_compiler_def
  example_policy_def Policy_InvalidSyscall_def Error_def Allow_def Kill_def DefaultPanic_def

lemma example_ranges:
  "FindRanges (Trap_ops None) example_compiler =
     Inr ([\<lparr>range_from = 0, range_node = Suc 0\<rparr>, \<lparr>range_from = 1, range_node = Suc (Suc 0)\<rparr>,
           \<lparr>range_from = 1025, range_node = 0\<rparr>], example_compiler\<lparr>pc_gen := example_ranges_gen\<rparr>)"
proof -
  obtain xs where el: "elements Set_ALL = 0 # 1 # xs @ [1025, 0x7FFFFFFF, 0x80000000, 0xFFFFFFFF]"
    and xs: "\<forall>y \<in> set xs. IsValid y \<and> sint y \<noteq> 0" by (rule elements_all_split)
  note ev = FindRanges_def compile_simps make_simps CodeGen_init_def IsValid_iff example_ranges_gen_def
  show ?thesis
    using xs by (simp add: ev el find_ranges_loop_same cong: ball_cong)
qed

lemma example_compiles:
  obtains prog c' where "compiler_Compile (Trap_ops None) example_compiler = Inr (prog, c')"
proof -
  have req: "InvalidSyscall (pc_policy example_compiler) = Inr (ReturnResultExpr 0x50026)"
    "pc_has_unsafe_traps example_compiler = False"
    by (simp_all add: example_compiler_def example_policy_def Policy_InvalidSyscall_def Error_def)
  have "\<exists>prog c'. compiler_Compile (Trap_ops None) example_compiler = Inr (prog, c')"
    by (simp add: compiler_Compile_def req AssemblePolicy_def DispatchSyscall_def example_ranges
        IsAction_def, simp add: example_ranges_gen_def AssembleJumpTable.simps Let_def
        CheckSyscallNumber_def MaybeAddEscapeHatch_def CheckArch_def compile_simps make_simps seccomp_idx_defs
        CodeGen_Compile_def)
  then show thesis using that by blast
qed

subsection \<open>Correctness\<close>

lemma compiled_filter_decides:
  assumes "compiler_for policy t escapepc panic = Inr c" and "trap_invar t"
    and "wf_policy policy" and "wf_panic panic"
    and "compiler_Compile (Trap_ops env) c = Inr (prog, c')"
    and "wf_seccomp_data d"
  shows "\<exists>v. EvaluateBPF prog d = Some (Inr v) \<and> returns c' (filter_outcome c d) v"
  using trap.Compile_ok(2) [OF assms(5) compiler_for_ok(1) [OF assms(1-4)] assms(6)]
  by (simp add: denotes_returns)

text \<open>
  C1: A compiled policy is enforced. If \<open>PolicyCompiler::Compile\<close> returns a program, then for
  every system call (every number, architecture, instruction pointer and arguments) the program
  runs to a return instruction and returns what the policy prescribes: the panic result for a
  foreign architecture or an x32 number, \<open>ALLOW\<close> for calls from the escape address if the
  policy has unsafe traps, the result of \<open>EvaluateSyscall\<close> for valid numbers and of
  \<open>InvalidSyscall\<close> for all others, with trap ids under which the registry finds the handlers.
  Coalescing of ranges, the binary search, the splitting of 64-bit comparisons into 32-bit ones
  and the choice of instructions for masks do not change that.
\<close>

theorem Compile_enforces_policy:
  assumes "compiler_for policy t escapepc panic = Inr c" and "trap_invar t"
    and "wf_policy policy" and "wf_panic panic"
    and "compiler_Compile (Trap_ops env) c = Inr (prog, c')"
    and "wf_seccomp_data d"
  shows "\<exists>v. EvaluateBPF prog d = Some (Inr v) \<and> returns c' (filter_outcome c d) v"
  using assms by (rule compiled_filter_decides)

theorem Compile_enforces_policy_witness:
  "\<exists>prog c'. compiler_Compile (Trap_ops None) example_compiler = Inr (prog, c')
     \<and> EvaluateBPF prog \<lparr>sd_nr = 0, sd_arch = SECCOMP_ARCH, sd_instruction_pointer = 0,
          sd_args = [0, 0, 0, 0, 0, 0]\<rparr> = Some (Inr 0x50001)"
proof -
  let ?d = "\<lparr>sd_nr = 0, sd_arch = SECCOMP_ARCH, sd_instruction_pointer = 0, sd_args = [0, 0, 0, 0, 0, 0]\<rparr>"
  obtain prog c' where comp: "compiler_Compile (Trap_ops None) example_compiler = Inr (prog, c')"
    by (rule example_compiles)
  have "filter_outcome example_compiler ?d = OReturn 0x50001"
    by (simp add: filter_outcome_def example_compiler_def syscall_outcome_def result_outcome_def
        IsValid_iff example_policy_def Error_def)
  moreover have "wf_seccomp_data ?d" by (simp add: wf_seccomp_data_def)
  ultimately show ?thesis
    using comp Compile_enforces_policy [OF example_compiler_for trap_invar_init example_policy_wf comp]
    by fastforce
qed

subsection \<open>Failing closed\<close>

lemma Compile_InrD:
  assumes "compiler_Compile ops c = Inr (prog, c')"
  shows "\<exists>i. InvalidSyscall (pc_policy c) = Inr i \<and> IsDeny i"
    and "\<exists>c0 head c1. AssemblePolicy ops c0 = Inr (head, c1) \<and> c' = c1
      \<and> CodeGen_Compile (pc_gen c1) head = Inr prog"
    and "pc_has_unsafe_traps c \<Longrightarrow> pc_escapepc c \<noteq> 0
      \<and> check_required_syscalls (pc_policy c) kSyscallsRequiredForUnsafeTraps = Inr ()
      \<and> fst (registry_EnableUnsafeTraps ops (pc_registry c))"
  using assms unfolding compiler_Compile_def
  by (auto simp: res_bind_eq_Inr check_eq_Inr split: if_splits prod.splits)

definition deny_action :: "u32 \<Rightarrow> bool" where
  "deny_action v \<longleftrightarrow> v AND SECCOMP_RET_ACTION \<in> {SECCOMP_RET_ERRNO, SECCOMP_RET_KILL, SECCOMP_RET_TRAP}"

lemma returns_deny:
  assumes "IsDeny i" and "eval_result d i = Some oc" and "returns c (actual_outcome u oc) v"
  shows "deny_action v"
  using assms
  by (cases i) (auto simp: deny_action_def IsAction_def action_plus low16_ucast split: if_splits)

lemma IsDeny_eval: "IsDeny i \<Longrightarrow> \<exists>oc. eval_result d i = Some oc"
  by (cases i) auto

text \<open>A panic function whose results deny, as \<open>DefaultPanic\<close> and that of \<open>StartSandbox\<close> do.\<close>

definition panic_denies :: "(string \<Rightarrow> abort + result_expr) \<Rightarrow> bool" where
  "panic_denies panic \<longleftrightarrow> (\<forall>msg. \<exists>i. panic msg = Inr i \<and> IsDeny i)"

lemma DefaultPanic_denies: "panic_denies DefaultPanic"
  by (simp add: panic_denies_def DefaultPanic_def Kill_def IsAction_def)

lemma result_outcome_deny:
  assumes "res = Inr i" and "IsDeny i" and "returns c' (result_outcome c res d) v"
  shows "deny_action v"
proof -
  obtain oc where oc: "eval_result d i = Some oc" using IsDeny_eval [OF assms(2)] by blast
  then have "result_outcome c res d = actual_outcome (pc_has_unsafe_traps c) oc"
    using assms(1) by (simp add: result_outcome_def)
  then show ?thesis using returns_deny [OF assms(2) oc] assms(3) by metis
qed

text \<open>
  C2: A compiled filter fails closed, whatever the policy and whatever panic function with denying
  results it was compiled with. A call of a foreign architecture is denied (by an errno, a kill or a
  trap) wherever it is made from. A call with bit 30 set, or with a number outside of the valid range,
  is denied too, with one exception: if the policy has unsafe traps, every call of the right architecture
  that is made from the escape address is allowed before its number is looked at.
\<close>

theorem Compile_fails_closed:
  assumes "compiler_for policy t escapepc panic = Inr c" and "trap_invar t"
    and "wf_policy policy" and "wf_panic panic" and "panic_denies panic"
    and "compiler_Compile (Trap_ops env) c = Inr (prog, c')"
    and "wf_seccomp_data d"
  shows "\<exists>v. EvaluateBPF prog d = Some (Inr v)
    \<and> (sd_arch d \<noteq> SECCOMP_ARCH \<longrightarrow> deny_action v)
    \<and> (sd_arch d = SECCOMP_ARCH \<and> (sd_nr d AND 0x40000000 \<noteq> 0 \<or> \<not> IsValid (sd_nr d)) \<longrightarrow>
        (if policy_HasUnsafeTraps policy = Inr True \<and> sd_instruction_pointer d = escapepc
         then v = SECCOMP_RET_ALLOW else deny_action v))"
proof -
  note C = compiler_for_ok [OF assms(1-4)]
  obtain v where ev: "EvaluateBPF prog d = Some (Inr v)" and ret: "returns c' (filter_outcome c d) v"
    using compiled_filter_decides [OF assms(1-4,6,7)] by blast
  have panic: "deny_action v" if "filter_outcome c d = result_outcome c (pc_panic_func c msg) d" for msg
    using assms(5) C(3) ret that result_outcome_deny unfolding panic_denies_def by metis
  have invalid: "deny_action v" if "filter_outcome c d = result_outcome c (InvalidSyscall (pc_policy c)) d"
    using Compile_InrD(1) [OF assms(6)] ret that result_outcome_deny by metis
  show ?thesis
    using ev panic invalid C(4,6) ret
    by (intro exI [of _ v]) (auto simp: filter_outcome_def syscall_outcome_def split: if_splits)
qed

theorem Compile_fails_closed_witness:
  "\<exists>prog c' v. compiler_Compile (Trap_ops None) example_compiler = Inr (prog, c')
     \<and> EvaluateBPF prog \<lparr>sd_nr = 0x7FFFFFFF, sd_arch = SECCOMP_ARCH, sd_instruction_pointer = 0,
          sd_args = [0, 0, 0, 0, 0, 0]\<rparr> = Some (Inr v) \<and> deny_action v"
proof -
  let ?d = "\<lparr>sd_nr = 0x7FFFFFFF, sd_arch = SECCOMP_ARCH, sd_instruction_pointer = 0, sd_args = [0, 0, 0, 0, 0, 0]\<rparr>"
  obtain prog c' where comp: "compiler_Compile (Trap_ops None) example_compiler = Inr (prog, c')"
    by (rule example_compiles)
  have "wf_seccomp_data ?d" "\<not> IsValid (sd_nr ?d)" by (simp_all add: wf_seccomp_data_def IsValid_iff)
  moreover have "\<not> pc_has_unsafe_traps example_compiler" by (simp add: example_compiler_def)
  then have "policy_HasUnsafeTraps example_policy \<noteq> Inr True"
    using compiler_for_ok(6) [OF example_compiler_for trap_invar_init example_policy_wf] by simp
  ultimately show ?thesis
    using comp Compile_fails_closed [OF example_compiler_for trap_invar_init example_policy_wf DefaultPanic_denies comp, of ?d]
    by auto
qed

lemma compiled_filter_shape:
  assumes "compiler_for policy t escapepc panic = Inr c" and "trap_invar t"
    and "wf_policy policy" and "wf_panic panic"
    and "compiler_Compile (Trap_ops env) c = Inr (prog, c')"
  shows "0 < length prog \<and> length prog \<le> BPF_MAXINSNS
    \<and> (\<forall>i < length prog. insn_shape (length prog - 1 - i) (prog ! i)) \<and> insns_known prog"
proof -
  have "wf_seccomp_data \<lparr>sd_nr = 0, sd_arch = 0, sd_instruction_pointer = 0, sd_args = replicate 6 0\<rparr>"
    by (simp add: wf_seccomp_data_def)
  from trap.Compile_ok(1) [OF assms(5) compiler_for_ok(1) [OF assms(1-4)] this]
  have reach: "gen_reachable (pc_gen c')" and known: "insns_known (cg_program (pc_gen c'))"
    by (simp_all add: trap.leads_def trap.compiler_ok_def)
  obtain head where cg: "CodeGen_Compile (pc_gen c') head = Inr prog"
    using Compile_InrD(2) [OF assms(5)] by blast
  have inv: "gen_invar (pc_gen c')" and shape: "shape_ok (cg_program (pc_gen c'))"
    using gen_reachable_invar [OF reach] by simp_all
  have "insns_known prog"
    using known CodeGen_Compile_take [OF cg] by (auto simp: insns_known_def dest: in_set_takeD)
  with Compile_shape [OF cg inv shape] show ?thesis by simp
qed

text \<open>
  C5: What \<open>Compile\<close> returns passes the static checks of the kernel's loader. The filter has at least one
  and at most \<open>BPF_MAXINSNS\<close> instructions, all its jumps go forward to an instruction of the filter, and it
  cannot run off its end. Every instruction, reachable or not, is a load of an aligned word inside of
  \<open>struct seccomp_data\<close>, a mask, one of the four jumps, or a return whose value names a known action.
\<close>

theorem Compile_loadable:
  assumes "compiler_for policy t escapepc panic = Inr c" and "trap_invar t"
    and "wf_policy policy" and "wf_panic panic"
    and "compiler_Compile (Trap_ops env) c = Inr (prog, c')"
  shows "0 < length prog \<and> length prog \<le> BPF_MAXINSNS
    \<and> (\<forall>i < length prog. insn_shape (length prog - 1 - i) (prog ! i))
    \<and> (\<forall>i \<in> set prog. insn_known (sf_code i) (sf_k i))"
  using compiled_filter_shape [OF assms] by (simp add: insns_known_def)

theorem Compile_loadable_witness:
  "\<exists>prog c'. compiler_Compile (Trap_ops None) example_compiler = Inr (prog, c') \<and> length prog \<le> BPF_MAXINSNS"
proof -
  obtain prog c' where comp: "compiler_Compile (Trap_ops None) example_compiler = Inr (prog, c')"
    by (rule example_compiles)
  then show ?thesis
    using Compile_loadable [OF example_compiler_for trap_invar_init example_policy_wf comp] by blast
qed

subsection \<open>Unsafe traps\<close>

lemma has_unsafe_traps_loop_iff:
  "has_unsafe_traps_loop p ns = Inr b \<Longrightarrow>
     b \<longleftrightarrow> (\<exists>n \<in> set ns. \<exists>r. EvaluateSyscall p (sint n) = Inr r \<and> HasUnsafeTraps r)
         \<or> (\<exists>r. InvalidSyscall p = Inr r \<and> HasUnsafeTraps r)"
  by (induction ns) (auto simp: res_bind_eq_Inr split: if_splits)

lemma Compile_guards_unsafe_traps:
  assumes "compiler_for policy t escapepc panic = Inr c"
    and "compiler_Compile (Trap_ops env) c = Inr (prog, c')"
    and "IsValid n \<and> EvaluateSyscall policy (sint n) = Inr r \<or> InvalidSyscall policy = Inr r"
    and "HasUnsafeTraps r"
  shows "(trap_has_unsafe_traps t \<or> SandboxDebuggingAllowedByUser env) \<and> escapepc \<noteq> 0
    \<and> (\<forall>nr \<in> set kSyscallsRequiredForUnsafeTraps. \<exists>r. EvaluateSyscall policy nr = Inr r \<and> IsAllow r)"
proof -
  have c: "\<exists>u. policy_HasUnsafeTraps policy = Inr u \<and> c = \<lparr>pc_policy = policy, pc_registry = t,
      pc_escapepc = escapepc, pc_panic_func = panic, pc_gen = CodeGen_init, pc_has_unsafe_traps = u\<rparr>"
    using assms(1)
    by (auto simp: compiler_for_def PolicyCompiler_def SetPanicFunc_def DangerousSetEscapePC_def res_simps)
  have "n \<in> set (elements Set_VALID_ONLY)" if "IsValid n"
    using that SyscallSet_elements_valid by blast
  then have "pc_has_unsafe_traps c"
    using c assms(3,4) has_unsafe_traps_loop_iff unfolding policy_HasUnsafeTraps_def by fastforce
  note G = Compile_InrD(3) [OF assms(2) this]
  have req: "\<exists>r. EvaluateSyscall policy nr = Inr r \<and> IsAllow r"
    if "check_required_syscalls policy ns = Inr ()" and "nr \<in> set ns" for ns nr
    using that by (induction ns) (auto simp: res_bind_eq_Inr check_eq_Inr)
  have "fst (Trap_EnableUnsafeTraps env t)" using G c by (auto simp: Trap_ops_def)
  then have "trap_has_unsafe_traps t \<or> SandboxDebuggingAllowedByUser env"
    by (auto simp: Trap_EnableUnsafeTraps_def Let_def split: if_splits)
  then show ?thesis using G c req by auto
qed

text \<open>
  C4: A policy with an unsafe trap anywhere, under any valid number or in \<open>InvalidSyscall\<close>, is
  refused (the process aborts instead of installing a filter with a backdoor) unless the user
  set \<open>CHROME_SANDBOX_DEBUGGING\<close> or the process had enabled unsafe traps before, an escape
  address is set, and the policy unconditionally allows the system calls that returning from a
  signal handler needs.
\<close>

theorem Compile_refuses_unsafe_traps:
  assumes "compiler_for policy t escapepc panic = Inr c"
    and "IsValid n \<and> EvaluateSyscall policy (sint n) = Inr r \<or> InvalidSyscall policy = Inr r"
    and "HasUnsafeTraps r"
    and "\<not> (trap_has_unsafe_traps t \<or> SandboxDebuggingAllowedByUser env) \<or> escapepc = 0
      \<or> (\<exists>nr \<in> set kSyscallsRequiredForUnsafeTraps.
            \<forall>r. EvaluateSyscall policy nr = Inr r \<longrightarrow> \<not> IsAllow r)"
  shows "\<exists>e. compiler_Compile (Trap_ops env) c = Inl e"
proof (cases "compiler_Compile (Trap_ops env) c")
  case (Inr x)
  then obtain prog c' where comp: "compiler_Compile (Trap_ops env) c = Inr (prog, c')" by (cases x) simp
  show ?thesis using Compile_guards_unsafe_traps [OF assms(1) comp assms(2,3)] assms(4) by blast
qed simp

theorem Compile_refuses_unsafe_traps_witness:
  "\<exists>c e. compiler_for \<lparr>EvaluateSyscall = (\<lambda>n. Allow), InvalidSyscall = UnsafeTrap (UserTrapFnc 0) NULL\<rparr>
       Trap_init 4096 DefaultPanic = Inr c
     \<and> compiler_Compile (Trap_ops None) c = Inl e"
  (is "\<exists>c e. compiler_for ?p _ _ _ = Inr c \<and> _")
proof -
  have "policy_HasUnsafeTraps ?p = Inr (HasUnsafeTraps (TrapResultExpr (UserTrapFnc 0) NULL False))"
    unfolding policy_HasUnsafeTraps_def
    by (rule has_unsafe_traps_loop_invalid) (auto simp: Allow_def UnsafeTrap_def)
  then have "\<exists>c. compiler_for ?p Trap_init 4096 DefaultPanic = Inr c"
    by (simp add: compiler_for_def PolicyCompiler_def)
  then obtain c where c: "compiler_for ?p Trap_init 4096 DefaultPanic = Inr c" by blast
  have "\<exists>e. compiler_Compile (Trap_ops None) c = Inl e"
    by (rule Compile_refuses_unsafe_traps [OF c, of 0 "TrapResultExpr (UserTrapFnc 0) NULL False"])
       (simp_all add: UnsafeTrap_def Trap_init_def SandboxDebuggingAllowedByUser_def)
  with c show ?thesis by blast
qed

end
