(* ===== verification/Compiler_Total.thy ===== *)
theory Compiler_Total
  imports Filter_Properties
begin

text \<open>
  The compiler does not abort. For a policy without unsafe traps whose expressions are well
  formed, and whose distinct results are small enough in total, \<open>PolicyCompiler::Compile\<close>
  returns a filter. The bound counts calls of \<open>MakeInstruction\<close>, each of which emits at most
  three instructions; that every expression counts once, however many system calls it is the
  result of, is the effect of memoization.
\<close>

subsection \<open>States with more memos\<close>

definition same_setup :: "trap policy_compiler \<Rightarrow> trap policy_compiler \<Rightarrow> bool" where
  "same_setup c c' \<longleftrightarrow> pc_policy c' = pc_policy c \<and> pc_panic_func c' = pc_panic_func c
     \<and> pc_has_unsafe_traps c' = pc_has_unsafe_traps c"

definition memo_le :: "trap policy_compiler \<Rightarrow> trap policy_compiler \<Rightarrow> bool" where
  "memo_le c c' \<longleftrightarrow> same_setup c c'
     \<and> (\<forall>key n. cg_memos (pc_gen c) key = Some n \<longrightarrow> cg_memos (pc_gen c') key = Some n)
     \<and> (\<forall>key i. trap_ids (pc_registry c) key = Some i \<longrightarrow> trap_ids (pc_registry c') key = Some i)
     \<and> length (cg_program (pc_gen c)) \<le> length (cg_program (pc_gen c'))"

abbreviation size_of :: "trap policy_compiler \<Rightarrow> nat" where
  "size_of c \<equiv> length (cg_program (pc_gen c))"

abbreviation traps_of :: "trap policy_compiler \<Rightarrow> nat" where
  "traps_of c \<equiv> trap_array_size (pc_registry c)"

definition sound :: "trap policy_compiler \<Rightarrow> bool" where
  "sound c \<longleftrightarrow> gen_invar (pc_gen c) \<and> trap_invar (pc_registry c)"

text \<open>Room for \<open>k\<close> more calls, and a state reached by at most \<open>k\<close> calls.\<close>

definition room :: "nat \<Rightarrow> trap policy_compiler \<Rightarrow> bool" where
  "room k c \<longleftrightarrow> size_of c + 3 * k \<le> BPF_MAXINSNS \<and> traps_of c + k \<le> 65535"

definition grows :: "nat \<Rightarrow> trap policy_compiler \<Rightarrow> trap policy_compiler \<Rightarrow> bool" where
  "grows k c c' \<longleftrightarrow> sound c' \<and> memo_le c c' \<and> size_of c' \<le> size_of c + 3 * k \<and> traps_of c' \<le> traps_of c + k"

text \<open>\<open>settled f c n\<close>: from \<open>c\<close> on, \<open>f\<close> finds the node \<open>n\<close> in the memos and changes nothing.\<close>

definition settled :: "(trap policy_compiler \<Rightarrow> trap compiled) \<Rightarrow> trap policy_compiler \<Rightarrow> node \<Rightarrow> bool" where
  "settled f c n \<longleftrightarrow> n < size_of c \<and> (\<forall>c'. memo_le c c' \<longrightarrow> f c' = Inr (n, c'))"

definition builds ::
    "nat \<Rightarrow> (trap policy_compiler \<Rightarrow> trap compiled) \<Rightarrow> trap policy_compiler \<Rightarrow> node \<Rightarrow> trap policy_compiler \<Rightarrow> bool"
where
  "builds k f c n c' \<longleftrightarrow> f c = Inr (n, c') \<and> grows k c c' \<and> settled f c' n"

lemma same_setup_refl [simp]: "same_setup c c"
  by (simp add: same_setup_def)

lemma memo_le_refl [simp]: "memo_le c c"
  by (simp add: memo_le_def)

lemma memo_le_trans: "memo_le a b \<Longrightarrow> memo_le b c \<Longrightarrow> memo_le a c"
  unfolding memo_le_def same_setup_def by (auto simp del: split_paired_All)

lemma memo_le_setup: "memo_le c c' \<Longrightarrow> same_setup c c'"
  by (simp add: memo_le_def)

lemma same_setup_trans: "same_setup a b \<Longrightarrow> same_setup b c \<Longrightarrow> same_setup a c"
  by (simp add: same_setup_def)

lemma memo_le_size: "memo_le c c' \<Longrightarrow> n < size_of c \<Longrightarrow> n < size_of c'"
  by (simp add: memo_le_def)

lemma growsD:
  assumes "grows k c c'"
  shows "sound c'" and "memo_le c c'" and "room (k + m) c \<Longrightarrow> room m c'"
  using assms by (auto simp: grows_def room_def)

lemma grows_refl: "sound c \<Longrightarrow> grows k c c"
  by (simp add: grows_def)

lemma grows_trans: "grows k a b \<Longrightarrow> grows m b c \<Longrightarrow> grows (k + m) a c"
  using memo_le_trans by (fastforce simp: grows_def)

lemma room_mono: "room k c \<Longrightarrow> m \<le> k \<Longrightarrow> room m c"
  by (simp add: room_def)

lemma grows_mono: "grows k c c' \<Longrightarrow> k \<le> m \<Longrightarrow> grows m c c'"
  by (simp add: grows_def)

lemma settled_mono: "settled f c n \<Longrightarrow> memo_le c c' \<Longrightarrow> settled f c' n"
  unfolding settled_def using memo_le_trans memo_le_size by blast

lemma settled_run: "settled f c n \<Longrightarrow> f c = Inr (n, c)"
  by (simp add: settled_def)

lemma buildsD:
  assumes "builds k f c n c'"
  shows "f c = Inr (n, c')" and "grows k c c'" and "settled f c' n" and "n < size_of c'"
  using assms by (simp_all add: builds_def settled_def)

text \<open>Sequencing.\<close>

lemma builds_bind:
  assumes f: "builds k f c n c1" and g: "builds m (g n) c1 n' c2"
  shows "builds (k + m) (\<lambda>c. res_bind (f c) (\<lambda>(n, c). g n c)) c n' c2"
proof -
  have le: "memo_le c1 c2" using g by (simp add: builds_def grows_def)
  have "settled (\<lambda>c. res_bind (f c) (\<lambda>(n, c). g n c)) c2 n'"
    using settled_mono [OF buildsD(3) [OF f] le] buildsD(3) [OF g] by (simp add: settled_def)
  then show ?thesis
    using buildsD(1,2) [OF f] buildsD(1,2) [OF g] grows_trans by (fastforce simp: builds_def)
qed

lemma builds_mono: "builds k f c n c' \<Longrightarrow> k \<le> m \<Longrightarrow> builds m f c n c'"
  using grows_mono by (auto simp: builds_def)

lemma builds_cong:
  assumes "builds k f c n c'" and "\<And>c'. same_setup c c' \<Longrightarrow> g c' = f c'"
  shows "builds k g c n c'"
proof -
  have "same_setup c c''" if "memo_le c' c''" for c''
    using that assms(1) same_setup_trans memo_le_setup by (fastforce simp: builds_def grows_def)
  then show ?thesis using assms by (simp add: builds_def settled_def)
qed

lemma builds_return: "sound c \<Longrightarrow> n < size_of c \<Longrightarrow> builds k (\<lambda>c. Inr (n, c)) c n c"
  by (simp add: builds_def settled_def grows_refl)

subsection \<open>One instruction\<close>

lemma MakeInstruction_memos:
  assumes "MakeInstruction g code k jt jf = Inr (n, g')" and "gen_invar g"
    and "cg_memos g key = Some m"
  shows "cg_memos g' key = Some m"
proof (cases "cg_memos g (code, k, jt, jf)")
  case (Some i)
  then show ?thesis using assms by (simp add: MakeInstruction_def)
next
  case None
  let ?g0 = "g\<lparr>cg_memos := (cg_memos g)((code, k, jt, jf) \<mapsto> kNullNode)\<rparr>"
  from assms(1) None obtain g1 where ap: "AppendInstruction ?g0 code k jt jf = Inr (n, g1)"
    and g': "g' = g1\<lparr>cg_memos := (cg_memos g1)((code, k, jt, jf) \<mapsto> n)\<rparr>"
    by (auto simp: MakeInstruction_def res_bind_eq_Inr split: prod.splits)
  from assms(2) have "program_ok ?g0" by (simp add: gen_invar_def program_ok_def)
  with ap have "added_ok 3 ?g0 code k jt jf n g1" by (rule AppendInstruction_ok)
  then have "cg_memos g1 = cg_memos ?g0" by (simp add: added_ok_def)
  moreover have "key \<noteq> (code, k, jt, jf)" using None assms(3) by auto
  ultimately show ?thesis using assms(3) by (simp add: g')
qed

lemma Make_total:
  assumes "sound c" and "size_of c + 3 \<le> BPF_MAXINSNS" and "args_ok (pc_gen c) code jt jf"
  shows "\<exists>n c'. builds 1 (\<lambda>c. gen_Make c code k jt jf) c n c' \<and> pc_registry c' = pc_registry c"
proof -
  let ?g = "pc_gen c"
  have inv: "gen_invar ?g" using assms(1) by (simp add: sound_def)
  have "\<exists>n g. MakeInstruction ?g code k jt jf = Inr (n, g)"
  proof (cases "cg_memos ?g (code, k, jt, jf)")
    case (Some m)
    then show ?thesis by (simp add: MakeInstruction_def)
  next
    case None
    let ?g0 = "?g\<lparr>cg_memos := (cg_memos ?g)((code, k, jt, jf) \<mapsto> kNullNode)\<rparr>"
    have "program_ok ?g0" using inv by (simp add: gen_invar_def program_ok_def)
    moreover have "args_ok ?g0 code jt jf" using assms(3) by (simp add: args_ok_def)
    ultimately have "\<exists>n g. AppendInstruction ?g0 code k jt jf = Inr (n, g)"
      using assms(2) by (intro AppendInstruction_total) simp_all
    then show ?thesis using None by (auto simp: MakeInstruction_def)
  qed
  then obtain n g where mk: "MakeInstruction ?g code k jt jf = Inr (n, g)" by blast
  note M = MakeInstruction_ok [OF mk inv]
  let ?c = "c\<lparr>pc_gen := g\<rparr>"
  have run: "gen_Make c code k jt jf = Inr (n, ?c)" by (simp add: gen_Make_def mk)
  have "memo_le c ?c"
    using MakeInstruction_memos [OF mk inv] extends_length [OF M(2)]
    by (simp add: memo_le_def same_setup_def)
  then have "grows 1 c ?c" using M(1,7) assms(1) by (simp add: grows_def sound_def)
  moreover have "settled (\<lambda>c. gen_Make c code k jt jf) ?c n"
    using M(3,6) by (auto simp: settled_def memo_le_def gen_Make_def MakeInstruction_def simp del: split_paired_All)
  ultimately show ?thesis using run by (auto simp: builds_def)
qed

lemma builds_Make:
  assumes "sound c" and "room 1 c" and "args_ok (pc_gen c) code jt jf"
  shows "\<exists>n c'. builds 1 (\<lambda>c. gen_Make c code k jt jf) c n c'"
  using Make_total [OF assms(1) _ assms(3), of k] assms(2) by (auto simp: room_def)

lemma builds_Trap:
  assumes "sound c" and "room 1 c"
  shows "\<exists>n c'. builds 1 (\<lambda>c. compiler_Trap (Trap_ops env) c f a True) c n c'"
proof -
  let ?t = "pc_registry c"
  have "\<exists>i t. Trap_Add env ?t f a True = Inr (i, t) \<and> trap_array_size t \<le> trap_array_size ?t + 1"
    using assms(2) by (auto simp: Trap_Add_def room_def Let_def split: option.splits)
  then obtain i t where add: "Trap_Add env ?t f a True = Inr (i, t)"
    and size: "trap_array_size t \<le> trap_array_size ?t + 1" by blast
  let ?c1 = "c\<lparr>pc_registry := t\<rparr>"
  have inv: "trap_invar t" using Trap_Add_invar [OF _ add] assms(1) by (simp add: sound_def)
  have "sound ?c1" using assms(1) inv by (simp add: sound_def)
  moreover have "size_of ?c1 + 3 \<le> BPF_MAXINSNS" using assms(2) by (simp add: room_def)
  moreover have "args_ok (pc_gen ?c1) (BPF_RET + BPF_K) kNullNode kNullNode"
    by (simp add: args_ok_def bpf_code_defs)
  ultimately obtain n c2 where
    mk: "builds 1 (\<lambda>c. gen_Make c (BPF_RET + BPF_K) (SECCOMP_RET_TRAP + ucast i) kNullNode kNullNode) ?c1 n c2"
    and reg: "pc_registry c2 = t"
    using Make_total [of ?c1 "BPF_RET + BPF_K" kNullNode kNullNode "SECCOMP_RET_TRAP + ucast i"] by auto
  have run: "compiler_Trap (Trap_ops env) c f a True = Inr (n, c2)"
    using add buildsD(1) [OF mk] by (simp add: compiler_Trap_def Trap_ops_def)
  have "memo_le c ?c1" using Trap_Add_ids(2) [OF add] by (simp add: memo_le_def same_setup_def)
  then have "grows 1 c c2"
    using buildsD(2) [OF mk] size memo_le_trans by (auto simp: grows_def reg)
  moreover have "settled (\<lambda>c. compiler_Trap (Trap_ops env) c f a True) c2 n"
  proof -
    have "compiler_Trap (Trap_ops env) c' f a True = Inr (n, c')" if le: "memo_le c2 c'" for c'
    proof -
      have "trap_ids (pc_registry c') (f, a, True) = Some i"
        using le Trap_Add_ids(1) [OF add] by (simp add: memo_le_def reg)
      then have "Trap_Add env (pc_registry c') f a True = Inr (i, pc_registry c')"
        by (rule Trap_Add_known) simp
      moreover have "gen_Make c' (BPF_RET + BPF_K) (SECCOMP_RET_TRAP + ucast i) kNullNode kNullNode = Inr (n, c')"
        using buildsD(3) [OF mk] le by (simp add: settled_def)
      ultimately show ?thesis by (simp add: compiler_Trap_def Trap_ops_def)
    qed
    then show ?thesis using buildsD(4) [OF mk] by (simp add: settled_def)
  qed
  ultimately show ?thesis using run by (auto simp: builds_def)
qed

lemma builds_Return:
  assumes "sound c" and "room 1 c"
  shows "\<exists>n c'. builds 1 (\<lambda>c. compiler_Return (Trap_ops env) c ret) c n c'"
proof (cases "pc_has_unsafe_traps c \<and> ret AND SECCOMP_RET_ACTION = SECCOMP_RET_ERRNO")
  case True
  obtain n c' where b: "builds 1 (\<lambda>c. compiler_Trap (Trap_ops env) c ReturnErrno
      (Addr (ucast (ret AND SECCOMP_RET_DATA))) True) c n c'"
    using builds_Trap [OF assms] by blast
  have "builds 1 (\<lambda>c. compiler_Return (Trap_ops env) c ret) c n c'"
    by (rule builds_cong [OF b]) (use True in \<open>simp add: compiler_Return_def same_setup_def\<close>)
  then show ?thesis by blast
next
  case False
  have "args_ok (pc_gen c) (BPF_RET + BPF_K) kNullNode kNullNode"
    by (simp add: args_ok_def bpf_code_defs)
  then obtain n c' where b: "builds 1 (\<lambda>c. gen_Make c (BPF_RET + BPF_K) ret kNullNode kNullNode) c n c'"
    using builds_Make [OF assms] by blast
  have "builds 1 (\<lambda>c. compiler_Return (Trap_ops env) c ret) c n c'"
    by (rule builds_cong [OF b]) (use False in \<open>auto simp: compiler_Return_def same_setup_def\<close>)
  then show ?thesis by blast
qed

subsection \<open>Conditions\<close>

lemma args_ok_jump:
  "j1 < size_of c \<Longrightarrow> j2 < size_of c \<Longrightarrow> args_ok (pc_gen c) (BPF_JMP + BPF_JEQ + BPF_K) j1 j2"
  "j1 < size_of c \<Longrightarrow> j2 < size_of c \<Longrightarrow> args_ok (pc_gen c) (BPF_JMP + BPF_JSET + BPF_K) j1 j2"
  "j1 < size_of c \<Longrightarrow> j2 < size_of c \<Longrightarrow> args_ok (pc_gen c) (BPF_JMP + BPF_JGE + BPF_K) j1 j2"
  "j1 < size_of c \<Longrightarrow> args_ok (pc_gen c) (BPF_LD + BPF_W + BPF_ABS) j1 kNullNode"
  "j1 < size_of c \<Longrightarrow> args_ok (pc_gen c) (BPF_ALU + BPF_AND + BPF_K) j1 kNullNode"
  by (simp_all add: args_ok_def bpf_code_defs)

text \<open>An action that succeeds within \<open>k\<close> calls wherever there is room, for one setup.\<close>

definition completes :: "nat \<Rightarrow> trap policy_compiler \<Rightarrow> (trap policy_compiler \<Rightarrow> trap compiled) \<Rightarrow> bool" where
  "completes k c0 f \<longleftrightarrow>
     (\<forall>c. sound c \<longrightarrow> room k c \<longrightarrow> memo_le c0 c \<longrightarrow> (\<exists>n c'. builds k f c n c'))"

lemma completesE:
  assumes "completes k c0 f" and "sound c" and "room (k + m) c" and "memo_le c0 c"
  obtains n c' where "builds k f c n c'" and "sound c'" and "room m c'" and "memo_le c0 c'" and "n < size_of c'"
proof -
  have "room k c" using assms(3) by (simp add: room_def)
  then obtain n c' where b: "builds k f c n c'" using assms by (auto simp: completes_def)
  note g = buildsD(2) [OF b]
  show thesis
    using that [OF b growsD(1) [OF g] growsD(3) [OF g assms(3)]
        memo_le_trans [OF assms(4) growsD(2) [OF g]] buildsD(4) [OF b]] .
qed

lemma completes_bind:
  assumes "completes k c0 f" and "\<And>n c. n < size_of c \<Longrightarrow> memo_le c0 c \<Longrightarrow> sound c \<Longrightarrow> completes m c (g n)"
  shows "completes (k + m) c0 (\<lambda>c. res_bind (f c) (\<lambda>(n, c). g n c))"
  unfolding completes_def
proof (intro allI impI)
  fix c assume c: "sound c" "room (k + m) c" "memo_le c0 c"
  obtain n c1 where f: "builds k f c n c1" and c1: "sound c1" "room m c1" "memo_le c0 c1" "n < size_of c1"
    by (rule completesE [OF assms(1) c])
  obtain n' c2 where g: "builds m (g n) c1 n' c2"
    using assms(2) [OF c1(4,3,1)] c1 by (auto simp: completes_def)
  from builds_bind [where g = g, OF f g]
  show "\<exists>n c'. builds (k + m) (\<lambda>c. res_bind (f c) (\<lambda>(n, c). g n c)) c n c'" by blast
qed

lemma completes_weaken: "completes k c0 f \<Longrightarrow> k \<le> m \<Longrightarrow> completes m c0 f"
  unfolding completes_def using builds_mono room_mono by blast

lemma completes_later: "completes k c0 f \<Longrightarrow> memo_le c0 c \<Longrightarrow> completes k c f"
  unfolding completes_def using memo_le_trans by blast

lemma completes_Make:
  assumes "\<And>c. memo_le c0 c \<Longrightarrow> args_ok (pc_gen c) code jt jf"
  shows "completes 1 c0 (\<lambda>c. gen_Make c code k jt jf)"
  unfolding completes_def using builds_Make assms by blast

lemma completes_node: "n < size_of c0 \<Longrightarrow> completes k c0 (\<lambda>c. Inr (n, c))"
  unfolding completes_def using builds_return memo_le_size by blast

lemma completes_jump:
  assumes "j1 < size_of c0" and "j2 < size_of c0"
  shows "completes 1 c0 (\<lambda>c. gen_Make c (BPF_JMP + BPF_JEQ + BPF_K) k j1 j2)"
    and "completes 1 c0 (\<lambda>c. gen_Make c (BPF_JMP + BPF_JSET + BPF_K) k j1 j2)"
    and "completes 1 c0 (\<lambda>c. gen_Make c (BPF_JMP + BPF_JGE + BPF_K) k j1 j2)"
proof -
  have j: "memo_le c0 c \<Longrightarrow> j1 < size_of c" "memo_le c0 c \<Longrightarrow> j2 < size_of c" for c
    using assms by (simp_all add: memo_le_def)
  show "completes 1 c0 (\<lambda>c. gen_Make c (BPF_JMP + BPF_JEQ + BPF_K) k j1 j2)"
    by (rule completes_Make, rule args_ok_jump(1)) (erule j)+
  show "completes 1 c0 (\<lambda>c. gen_Make c (BPF_JMP + BPF_JSET + BPF_K) k j1 j2)"
    by (rule completes_Make, rule args_ok_jump(2)) (erule j)+
  show "completes 1 c0 (\<lambda>c. gen_Make c (BPF_JMP + BPF_JGE + BPF_K) k j1 j2)"
    by (rule completes_Make, rule args_ok_jump(3)) (erule j)+
qed

lemma completes_fall:
  assumes "j1 < size_of c0"
  shows "completes 1 c0 (\<lambda>c. gen_Make c (BPF_LD + BPF_W + BPF_ABS) k j1 kNullNode)"
    and "completes 1 c0 (\<lambda>c. gen_Make c (BPF_ALU + BPF_AND + BPF_K) k j1 kNullNode)"
proof -
  have j: "memo_le c0 c \<Longrightarrow> j1 < size_of c" for c
    using assms by (simp add: memo_le_def)
  show "completes 1 c0 (\<lambda>c. gen_Make c (BPF_LD + BPF_W + BPF_ABS) k j1 kNullNode)"
    by (rule completes_Make, rule args_ok_jump(4)) (erule j)
  show "completes 1 c0 (\<lambda>c. gen_Make c (BPF_ALU + BPF_AND + BPF_K) k j1 kNullNode)"
    by (rule completes_Make, rule args_ok_jump(5)) (erule j)
qed

lemma completes_then_ld:
  assumes "completes k c0 f"
  shows "completes (k + 1) c0 (\<lambda>c. res_bind (f c) (\<lambda>(n, c). gen_Make c (BPF_LD + BPF_W + BPF_ABS) idx n kNullNode))"
  by (rule completes_bind [OF assms]) (rule completes_fall(1))

lemma upper_half_32_total:
  assumes u: "completes 1 c0 u" and p: "passed < size_of c0"
  shows "completes 6 c0 (\<lambda>c. MaskedEqualHalf u c argno 4 msk val UPPER passed failed)"
proof -
  have not_32bit: "(sizeof_void_ptr = 4) = False" by simp
  have "completes (1 + (1 + (1 + (1 + (1 + 1))))) c0 (\<lambda>c. MaskedEqualHalf u c argno 4 msk val UPPER passed failed)"
    unfolding MaskedEqualHalf_def Let_def
    apply (simp only: simp_thms if_True if_False not_32bit)
    apply (rule completes_bind [OF u])
    apply (rule completes_bind [OF completes_jump(2)], (meson memo_le_size p)+)
    apply (rule completes_bind [OF completes_fall(1)], assumption)
    apply (rule completes_bind [OF completes_jump(1)], (meson memo_le_size p)+)
    apply (rule completes_bind [OF completes_jump(1)], (meson memo_le_size p)+)
    apply (rule completes_fall(1), assumption)
    done
  then show ?thesis by (rule completes_weaken) simp
qed

lemma masked_half_total:
  assumes full: "\<not> (width = 4 \<and> half = UPPER)"
    and p: "passed < size_of c0" and q: "failed < size_of c0"
    and val: "trap.half_of half val = trap.half_of half val AND trap.half_of half msk"
  shows "completes 3 c0 (\<lambda>c. MaskedEqualHalf u c argno width msk val half passed failed)"
proof -
  let ?m = "trap.half_of half msk" and ?v = "trap.half_of half val"
  have half: "(if half = UPPER then ucast (drop_bit 32 x) else ucast x) = trap.half_of half x" for x
    by (simp add: trap.half_of_def hi32_def lo32_def)
  have two: "completes (1 + 1) c0 f \<Longrightarrow> completes 3 c0 f" for f
    by (erule completes_weaken) simp
  have three': "completes (1 + (1 + 1)) c0 f \<Longrightarrow> completes 3 c0 f" for f
    by (erule completes_weaken) simp
  note jeq = completes_jump(1) [OF p q] and jset = completes_jump(2) [OF p q] and jset' = completes_jump(2) [OF q p]
  consider "?m = 0" | "?m \<noteq> 0" "?m = 0xFFFFFFFF" | "?m \<noteq> 0" "?m \<noteq> 0xFFFFFFFF" "?v = 0"
    | "?m \<noteq> 0" "?m \<noteq> 0xFFFFFFFF" "?v \<noteq> 0" "?m = ?v \<and> HasExactlyOneBit (ucast ?m)"
    | "?m \<noteq> 0" "?m \<noteq> 0xFFFFFFFF" "?v \<noteq> 0" "\<not> (?m = ?v \<and> HasExactlyOneBit (ucast ?m))" by blast
  then show ?thesis
  proof cases
    case 1
    then have "0 = ?v" using val by simp
    then show ?thesis
      unfolding MaskedEqualHalf_def if_not_P [OF full] Let_def half if_P [OF 1]
      using completes_node [OF p] by simp
  next
    case 2
    show ?thesis
      unfolding MaskedEqualHalf_def if_not_P [OF full] Let_def half if_not_P [OF 2(1)] if_P [OF 2(2)]
      by (rule two, rule completes_then_ld, rule jeq)
  next
    case 3
    show ?thesis
      unfolding MaskedEqualHalf_def if_not_P [OF full] Let_def half if_not_P [OF 3(1)] if_not_P [OF 3(2)]
        if_P [OF 3(3)]
      by (rule two, rule completes_then_ld, rule jset')
  next
    case 4
    show ?thesis
      unfolding MaskedEqualHalf_def if_not_P [OF full] Let_def half if_not_P [OF 4(1)] if_not_P [OF 4(2)]
        if_not_P [OF 4(3)] if_P [OF 4(4)]
      by (rule two, rule completes_then_ld, rule jset)
  next
    case 5
    have "completes (1 + (1 + 1)) c0 (\<lambda>c. res_bind (gen_Make c (BPF_JMP + BPF_JEQ + BPF_K) ?v passed failed)
        (\<lambda>(n, c). res_bind (gen_Make c (BPF_ALU + BPF_AND + BPF_K) ?m n kNullNode)
        (\<lambda>(n, c). gen_Make c (BPF_LD + BPF_W + BPF_ABS)
           (if half = UPPER then SECCOMP_ARG_MSB_IDX (nat argno) else SECCOMP_ARG_LSB_IDX (nat argno))
           n kNullNode)))"
      by (rule completes_bind [OF jeq], rule completes_bind [OF completes_fall(2)], assumption, rule completes_fall(1))
    then show ?thesis
      unfolding MaskedEqualHalf_def if_not_P [OF full] Let_def half if_not_P [OF 5(1)] if_not_P [OF 5(2)]
        if_not_P [OF 5(3)] if_not_P [OF 5(4)]
      by (rule three')
  qed
qed

subsection \<open>Expressions\<close>

text \<open>What the compiler's checks ask of a comparison, and how many calls a condition takes.\<close>

fun bool_ok :: "bool_expr \<Rightarrow> bool" where
  "bool_ok (ConstBoolExpr b) = True"
| "bool_ok (MaskedEqualBoolExpr argno width msk val) =
     (0 \<le> argno \<and> argno < 6 \<and> (width = 4 \<or> width = 8) \<and> msk \<noteq> 0 \<and> val = val AND msk
      \<and> (width = 4 \<longrightarrow> drop_bit 32 msk = 0 \<and> drop_bit 32 val = 0))"
| "bool_ok (NegateBoolExpr e) = bool_ok e"
| "bool_ok (AndBoolExpr l r) = (bool_ok l \<and> bool_ok r)"
| "bool_ok (OrBoolExpr l r) = (bool_ok l \<and> bool_ok r)"

fun bool_cost :: "bool_expr \<Rightarrow> nat" where
  "bool_cost (ConstBoolExpr b) = 0"
| "bool_cost (MaskedEqualBoolExpr argno width msk val) = (if width = 4 then 9 else 6)"
| "bool_cost (NegateBoolExpr e) = bool_cost e"
| "bool_cost (AndBoolExpr l r) = bool_cost l + bool_cost r"
| "bool_cost (OrBoolExpr l r) = bool_cost l + bool_cost r"

fun result_ok :: "result_expr \<Rightarrow> bool" where
  "result_ok (ReturnResultExpr ret) = True"
| "result_ok (TrapResultExpr f a safe) = safe"
| "result_ok (IfThenResultExpr c t e) = (bool_ok c \<and> result_ok t \<and> result_ok e)"

fun result_cost :: "result_expr \<Rightarrow> nat" where
  "result_cost (ReturnResultExpr ret) = 1"
| "result_cost (TrapResultExpr f a safe) = 1"
| "result_cost (IfThenResultExpr c t e) = result_cost t + result_cost e + bool_cost c"

text \<open>A panic function whose results are plain returns or safe traps.\<close>

definition panic_ok :: "(string \<Rightarrow> abort + result_expr) \<Rightarrow> bool" where
  "panic_ok panic \<longleftrightarrow> (\<forall>msg. \<exists>r. panic msg = Inr r \<and> result_ok r \<and> (\<forall>c t e. r \<noteq> IfThenResultExpr c t e))"

lemma half_of_and: "val = val AND msk \<Longrightarrow> trap.half_of half val = trap.half_of half val AND trap.half_of half msk"
  by (metis hi32_and lo32_and trap.half_of_def)

lemma MaskedEqual_total:
  assumes u: "completes 1 c0 u" and p: "passed < size_of c0" and q: "failed < size_of c0"
    and ok: "bool_ok (MaskedEqualBoolExpr argno width msk val)"
  shows "completes (if width = 4 then 9 else 6) c0 (\<lambda>c. MaskedEqual u c argno width msk val passed failed)"
proof -
  have "MaskedEqual u c argno width msk val passed failed =
      res_bind (MaskedEqualHalf u c argno width msk val LOWER passed failed)
        (\<lambda>(n, c). MaskedEqualHalf u c argno width msk val UPPER n failed)" for c
    using ok by (simp add: MaskedEqual_def)
  moreover have "completes (3 + (if width = 4 then 6 else 3)) c0
    (\<lambda>c. res_bind (MaskedEqualHalf u c argno width msk val LOWER passed failed)
        (\<lambda>(n, c). MaskedEqualHalf u c argno width msk val UPPER n failed))"
  proof (rule completes_bind)
    show "completes 3 c0 (\<lambda>c. MaskedEqualHalf u c argno width msk val LOWER passed failed)"
      using ok by (intro masked_half_total p q half_of_and) auto
  next
    fix n c assume c: "n < size_of c" "memo_le c0 c"
    show "completes (if width = 4 then 6 else 3) c (\<lambda>c. MaskedEqualHalf u c argno width msk val UPPER n failed)"
    proof (cases "width = 4")
      case True
      then show ?thesis using upper_half_32_total [OF completes_later [OF u c(2)] c(1)] by simp
    next
      case False
      then show ?thesis
        using ok masked_half_total [OF _ c(1) memo_le_size [OF c(2) q]] half_of_and by simp
    qed
  qed
  ultimately show ?thesis by (simp split: if_splits)
qed

lemma compile_bool_total:
  assumes "completes 1 c0 u" and "bool_ok b" and "t < size_of c0" and "e < size_of c0"
  shows "completes (bool_cost b) c0 (\<lambda>c. compile_bool u b c t e)"
  using assms
proof (induction b arbitrary: c0 t e)
  case (ConstBoolExpr x)
  then show ?case using completes_node by (cases x) simp_all
next
  case (MaskedEqualBoolExpr argno width msk val)
  then show ?case using MaskedEqual_total by simp
next
  case (AndBoolExpr l r)
  have "completes (bool_cost r + bool_cost l) c0
      (\<lambda>c. res_bind (compile_bool u r c t e) (\<lambda>(n, c). compile_bool u l c n e))"
    using AndBoolExpr.prems
    by (intro completes_bind AndBoolExpr.IH) (auto intro: completes_later memo_le_size)
  then show ?case by (simp add: add.commute)
next
  case (OrBoolExpr l r)
  have "completes (bool_cost r + bool_cost l) c0
      (\<lambda>c. res_bind (compile_bool u r c t e) (\<lambda>(n, c). compile_bool u l c t n))"
    using OrBoolExpr.prems
    by (intro completes_bind OrBoolExpr.IH) (auto intro: completes_later memo_le_size)
  then show ?case by (simp add: add.commute)
qed simp

lemma compile_result_total:
  assumes "completes 1 c0 u" and "result_ok r"
  shows "completes (result_cost r) c0 (\<lambda>c. compile_result (Trap_ops env) u r c)"
  using assms
proof (induction r arbitrary: c0)
  case (ReturnResultExpr ret)
  then show ?case using builds_Return by (simp add: completes_def)
next
  case (TrapResultExpr f a safe)
  then show ?case using builds_Trap by (simp add: completes_def)
next
  case (IfThenResultExpr b t e)
  have "completes (result_cost t + (result_cost e + bool_cost b)) c0
    (\<lambda>c. res_bind (compile_result (Trap_ops env) u t c) (\<lambda>(then_node, c).
      res_bind (compile_result (Trap_ops env) u e c) (\<lambda>(else_node, c).
      compile_bool u b c then_node else_node)))"
    using IfThenResultExpr.prems
    by (intro completes_bind IfThenResultExpr.IH compile_bool_total) (auto intro: completes_later memo_le_size)
  then show ?case by (simp add: add.assoc)
qed

lemma Unexpected64bitArgument_total:
  assumes "panic_ok (pc_panic_func c0)"
  shows "completes 1 c0 (Unexpected64bitArgument (Trap_ops env))"
proof -
  obtain r where r: "pc_panic_func c0 ''Unexpected 64bit argument detected'' = Inr r" "result_ok r"
    "\<forall>c t e. r \<noteq> IfThenResultExpr c t e" using assms unfolding panic_ok_def by blast
  have simple: "\<exists>n c'. builds 1 (\<lambda>c. compile_result (Trap_ops env) u r c) c n c'"
    if "sound c" "room 1 c" for c u
    using r builds_Return [OF that] builds_Trap [OF that] by (cases r) auto
  show ?thesis
    unfolding completes_def
  proof (intro allI impI)
    fix c assume c: "sound c" "room 1 c" "memo_le c0 c"
    obtain n c' where b: "builds 1 (\<lambda>c. compile_result (Trap_ops env) (\<lambda>c. Inl StackOverflow) r c) c n c'"
      using simple [OF c(1,2)] by blast
    have "builds 1 (Unexpected64bitArgument (Trap_ops env)) c n c'"
      by (rule builds_cong [OF b])
        (use c(3) r(1) in \<open>simp add: Unexpected64bitArgument_def memo_le_def same_setup_def\<close>)
    then show "\<exists>n c'. builds 1 (Unexpected64bitArgument (Trap_ops env)) c n c'" by blast
  qed
qed

subsection \<open>Ranges\<close>

abbreviation compile_expr :: "string option \<Rightarrow> result_expr \<Rightarrow> trap policy_compiler \<Rightarrow> trap compiled" where
  "compile_expr env r \<equiv> (\<lambda>c. CompileResult (Trap_ops env) c (Inr r))"

lemma compile_expr_total:
  assumes "panic_ok (pc_panic_func c0)" and "result_ok r"
  shows "completes (result_cost r) c0 (compile_expr env r)"
  using compile_result_total [OF Unexpected64bitArgument_total [OF assms(1)] assms(2)]
  by (simp add: CompileResult_def)

lemma settled_unique: "settled f c m \<Longrightarrow> settled f c n \<Longrightarrow> m = n"
  using settled_run [of f c m] settled_run [of f c n] by simp

text \<open>How often the entries of a list differ from the one before.\<close>

fun changes :: "'a \<Rightarrow> 'a list \<Rightarrow> nat" where
  "changes x [] = 0"
| "changes x (y # ys) = (if y = x then 0 else 1) + changes y ys"

text \<open>One step: an expression that is not compiled yet is taken off the set \<open>T\<close> of pending ones.\<close>

lemma find_ranges_step:
  assumes "sound c" and "panic_ok (pc_panic_func c)" and "finite T" and "room (sum result_cost T) c"
    and "result_ok e" and "(\<exists>m. settled (compile_expr env e) c m) \<or> e \<in> T"
  shows "\<exists>m c1 k T1. compile_expr env e c = Inr (m, c1) \<and> settled (compile_expr env e) c1 m
    \<and> grows k c c1 \<and> T - {e} \<subseteq> T1 \<and> T1 \<subseteq> T \<and> k + sum result_cost T1 = sum result_cost T"
proof (cases "\<exists>m. settled (compile_expr env e) c m")
  case True
  then obtain m where m: "settled (compile_expr env e) c m" by blast
  show ?thesis
    using settled_run [OF m] m grows_refl [OF assms(1)] by (intro exI [of _ m] exI [of _ c] exI [of _ 0] exI [of _ T]) auto
next
  case False
  then have e: "e \<in> T" using assms(6) by blast
  have sum: "result_cost e + sum result_cost (T - {e}) = sum result_cost T"
    using assms(3) e by (simp add: sum.remove)
  then have "room (result_cost e) c" using room_mono [OF assms(4)] by simp
  then obtain m c1 where b: "builds (result_cost e) (compile_expr env e) c m c1"
    using compile_expr_total [OF assms(2,5), of env] assms(1) unfolding completes_def by (meson memo_le_refl)
  show ?thesis
    using buildsD(1-3) [OF b] sum
    by (intro exI [of _ m] exI [of _ c1] exI [of _ "result_cost e"] exI [of _ "T - {e}"]) auto
qed

lemma find_ranges_loop_total:
  assumes "sound c" and "panic_ok (pc_panic_func c)" and "finite T" and "room (sum result_cost T) c"
    and "\<forall>n \<in> set ns. result_ok (expr n)
      \<and> (if IsValid n then EvaluateSyscall (pc_policy c) (sint n) = Inr (expr n) else expr n = invalid)
      \<and> ((\<exists>m. settled (compile_expr env (expr n)) c m) \<or> expr n \<in> T)"
    and "settled (compile_expr env invalid) c bad" and "settled (compile_expr env cur) c on"
  shows "\<exists>rs c'. find_ranges_loop (Trap_ops env) c bad ranges osn on ns = Inr (ranges @ rs, c')
    \<and> grows (sum result_cost T) c c' \<and> rs \<noteq> [] \<and> length rs \<le> 1 + changes cur (map expr ns)
    \<and> (\<forall>r \<in> set rs. range_node r < size_of c')"
  using assms
proof (induction ns arbitrary: c T ranges osn on cur)
  case Nil
  have "on < size_of c" using Nil.prems(7) by (simp add: settled_def)
  then show ?case using grows_refl [OF Nil.prems(1)] by simp
next
  case (Cons n ns)
  let ?e = "expr n"
  have en: "result_ok ?e" "(\<exists>m. settled (compile_expr env ?e) c m) \<or> ?e \<in> T"
    and ev: "if IsValid n then EvaluateSyscall (pc_policy c) (sint n) = Inr ?e else ?e = invalid"
    using Cons.prems(5) by auto
  obtain m c1 k T1 where run: "compile_expr env ?e c = Inr (m, c1)"
    and m: "settled (compile_expr env ?e) c1 m" and g: "grows k c c1"
    and T1: "T - {?e} \<subseteq> T1" "T1 \<subseteq> T" "k + sum result_cost T1 = sum result_cost T"
    using find_ranges_step [OF Cons.prems(1-4) en] by blast
  note G = growsD(1,2) [OF g]
  have node: "(if IsValid n then CompileResult (Trap_ops env) c (EvaluateSyscall (pc_policy c) (sint n))
      else Inr (bad, c)) = Inr (m, c1)"
    using ev run settled_run [OF Cons.prems(6)] by (auto split: if_splits)
  have same: "pc_policy c1 = pc_policy c" "pc_panic_func c1 = pc_panic_func c"
    using G(2) by (simp_all add: memo_le_def same_setup_def)
  have rest: "\<forall>n' \<in> set ns. result_ok (expr n')
      \<and> (if IsValid n' then EvaluateSyscall (pc_policy c1) (sint n') = Inr (expr n') else expr n' = invalid)
      \<and> ((\<exists>m. settled (compile_expr env (expr n')) c1 m) \<or> expr n' \<in> T1)"
  proof
    fix n' assume n': "n' \<in> set ns"
    have "(\<exists>m. settled (compile_expr env (expr n')) c1 m) \<or> expr n' \<in> T1"
      using Cons.prems(5) n' settled_mono [OF _ G(2)] m T1(1) by (cases "expr n' = ?e") force+
    then show "result_ok (expr n')
      \<and> (if IsValid n' then EvaluateSyscall (pc_policy c1) (sint n') = Inr (expr n') else expr n' = invalid)
      \<and> ((\<exists>m. settled (compile_expr env (expr n')) c1 m) \<or> expr n' \<in> T1)"
      using Cons.prems(5) n' same by simp
  qed
  have "room (sum result_cost T1) c1" using growsD(3) [OF g] Cons.prems(4) T1(3) by simp
  note IH = Cons.IH [OF G(1) _ finite_subset [OF T1(2) Cons.prems(3)] this rest
      settled_mono [OF Cons.prems(6) G(2)] m, unfolded same, OF Cons.prems(2)]
  have len: "m = on \<or> ?e \<noteq> cur"
    using settled_unique [OF m] settled_mono [OF Cons.prems(7) G(2)] by metis
  have completes: "grows (sum result_cost T) c c'" if "grows (sum result_cost T1) c1 c'" for c'
    using grows_trans [OF g that] T1(3) by simp
  show ?case
  proof (cases "m = on")
    case True
    obtain rs c' where "find_ranges_loop (Trap_ops env) c1 bad ranges osn m ns = Inr (ranges @ rs, c')"
      and "grows (sum result_cost T1) c1 c'" "rs \<noteq> []" "length rs \<le> 1 + changes ?e (map expr ns)"
      and "\<forall>r \<in> set rs. range_node r < size_of c'"
      using IH by blast
    then show ?thesis using node True completes by (intro exI [of _ rs] exI [of _ c']) auto
  next
    case False
    let ?r = "\<lparr>range_from = osn, range_node = on\<rparr>"
    obtain rs c' where f: "find_ranges_loop (Trap_ops env) c1 bad (ranges @ [?r]) n m ns
        = Inr ((ranges @ [?r]) @ rs, c')"
      and g': "grows (sum result_cost T1) c1 c'" and rs: "length rs \<le> 1 + changes ?e (map expr ns)"
      and nodes: "\<forall>r \<in> set rs. range_node r < size_of c'"
      using IH by blast
    have "on < size_of c'"
      using Cons.prems(7) growsD(2) [OF completes [OF g']] by (auto simp: settled_def memo_le_def)
    moreover have "length (?r # rs) \<le> 1 + changes cur (map expr (n # ns))"
      using rs len False by simp
    ultimately show ?thesis
      using f node False completes [OF g'] nodes by (intro exI [of _ "?r # rs"] exI [of _ c']) simp
  qed
qed

lemma AssembleJumpTable_total:
  assumes "ranges \<noteq> []" and "\<forall>r \<in> set ranges. range_node r < size_of c0"
  shows "completes (length ranges - 1) c0 (\<lambda>c. AssembleJumpTable c ranges)"
  using assms
proof (induction "length ranges" arbitrary: ranges c0 rule: less_induct)
  case less
  show ?case
  proof (cases "length ranges = 1")
    case True
    then have run: "(\<lambda>c. AssembleJumpTable c ranges) = (\<lambda>c. Inr (range_node (ranges ! 0), c))"
      by (intro ext, subst AssembleJumpTable.simps) (simp add: Let_def)
    have "range_node (ranges ! 0) < size_of c0" using less.prems by simp
    then show ?thesis unfolding run by (rule completes_node)
  next
    case False
    define mid where "mid = length ranges div 2"
    have mid: "0 < mid" "mid < length ranges"
      using half_length [of ranges] False less.prems(1) by (simp_all add: mid_def)
    have run: "AssembleJumpTable c ranges =
      res_bind (AssembleJumpTable c (take mid ranges)) (\<lambda>(jf, c).
      res_bind (AssembleJumpTable c (drop mid ranges)) (\<lambda>(jt, c).
      gen_Make c (BPF_JMP + BPF_JGE + BPF_K) (range_from (ranges ! mid)) jt jf))" for c
      using False less.prems(1) by (subst AssembleJumpTable.simps) (simp add: Let_def mid_def)
    have l: "completes (mid - 1) c0 (\<lambda>c. AssembleJumpTable c (take mid ranges))"
      using less.hyps [of "take mid ranges" c0] mid less.prems by (auto dest: in_set_takeD)
    have r: "completes (length ranges - mid - 1) c (\<lambda>c. AssembleJumpTable c (drop mid ranges))"
      if "memo_le c0 c" for c
      using less.hyps [of "drop mid ranges" c] mid less.prems memo_le_size [OF that]
      by (auto dest: in_set_dropD)
    have "completes (mid - 1 + (length ranges - mid - 1 + 1)) c0 (\<lambda>c. AssembleJumpTable c ranges)"
      unfolding run
    proof (rule completes_bind [OF l], rule completes_bind [OF r], assumption)
      fix jf c jt c1
      assume "jf < size_of c" "jt < size_of c1" "memo_le c c1"
      then show "completes 1 c1 (\<lambda>c. gen_Make c (BPF_JMP + BPF_JGE + BPF_K) (range_from (ranges ! mid)) jt jf)"
        by (intro completes_jump(3)) (auto dest: memo_le_size)
    qed
    then show ?thesis using mid by (simp add: Suc_diff_Suc)
  qed
qed

subsection \<open>The whole compiler\<close>

text \<open>The result of a policy for a number.\<close>

definition expr_of :: "policy \<Rightarrow> u32 \<Rightarrow> abort + result_expr" where
  "expr_of policy n = (if IsValid n then EvaluateSyscall policy (sint n) else InvalidSyscall policy)"

text \<open>
  A policy that fits: none of its results aborts or is an unsafe trap, the invalid case is a
  denial, and the distinct results, each counted once, plus the borders between ranges and six
  calls for the frame fit the 4096 instructions of a filter at three for each call.
\<close>

definition policy_fits :: "policy \<Rightarrow> result_expr set \<Rightarrow> nat \<Rightarrow> bool" where
  "policy_fits policy E k \<longleftrightarrow>
     finite E \<and> (\<forall>e \<in> E. result_ok e) \<and> (\<forall>n. \<exists>e \<in> E. expr_of policy n = Inr e)
   \<and> (\<forall>e. InvalidSyscall policy = Inr e \<longrightarrow> IsDeny e)
   \<and> sum result_cost E + changes (expr_of policy 0) (map (expr_of policy) (elements Set_ALL)) + 6 \<le> k
   \<and> 3 * k \<le> BPF_MAXINSNS"

lemma changes_Inr: "changes (Inr x) (map Inr ys) = changes x ys"
  by (induction ys arbitrary: x) auto

lemma FindRanges_total:
  assumes "sound c" and "panic_ok (pc_panic_func c)" and fits: "policy_fits (pc_policy c) E k"
    and "room k c"
  shows "\<exists>rs c'. FindRanges (Trap_ops env) c = Inr (rs, c')
    \<and> grows (sum result_cost E) c c' \<and> rs \<noteq> []
    \<and> sum result_cost E + (length rs - 1) + 6 \<le> k
    \<and> (\<forall>r \<in> set rs. range_node r < size_of c')"
proof -
  let ?p = "pc_policy c"
  have E: "finite E" "\<And>e. e \<in> E \<Longrightarrow> result_ok e" "\<And>n. \<exists>e \<in> E. expr_of ?p n = Inr e"
    and k: "sum result_cost E + changes (expr_of ?p 0) (map (expr_of ?p) (elements Set_ALL)) + 6 \<le> k"
    using fits by (simp_all only: policy_fits_def)
  obtain expr where expr: "\<And>n. expr n \<in> E" "\<And>n. expr_of ?p n = Inr (expr n)"
    using E(3) by metis
  let ?i = "expr 0xFFFFFFFF"
  have invalid: "InvalidSyscall ?p = Inr ?i"
    using expr(2) [of "0xFFFFFFFF"] by (simp add: expr_of_def IsValid_iff)
  have valid0: "IsValid 0" "EvaluateSyscall ?p (sint (0 :: u32)) = Inr (expr 0)"
    using expr(2) [of 0] by (simp_all add: expr_of_def IsValid_iff)
  have "room (sum result_cost E) c" using room_mono [OF assms(4)] k by simp
  then obtain bad c1 k1 T1 where r1: "compile_expr env ?i c = Inr (bad, c1)"
    and s1: "settled (compile_expr env ?i) c1 bad" and g1: "grows k1 c c1"
    and T1: "E - {?i} \<subseteq> T1" "T1 \<subseteq> E" "k1 + sum result_cost T1 = sum result_cost E"
    using find_ranges_step [OF assms(1,2) E(1) _ E(2), of ?i env] expr(1) by blast
  note G1 = growsD(1,2) [OF g1]
  have same1: "pc_policy c1 = ?p" "pc_panic_func c1 = pc_panic_func c"
    using G1(2) by (simp_all add: memo_le_def same_setup_def)
  have "room (sum result_cost T1) c1"
    using growsD(3) [OF g1] T1(3) \<open>room (sum result_cost E) c\<close> by simp
  moreover have "(\<exists>m. settled (compile_expr env (expr 0)) c1 m) \<or> expr 0 \<in> T1"
    using s1 T1(1) expr(1) [of 0] by (cases "expr 0 = ?i") auto
  moreover have "result_ok (expr 0)" using E(2) expr(1) by blast
  ultimately obtain old c2 k2 T2 where r2: "compile_expr env (expr 0) c1 = Inr (old, c2)"
    and s2: "settled (compile_expr env (expr 0)) c2 old" and g2: "grows k2 c1 c2"
    and T2: "T1 - {expr 0} \<subseteq> T2" "T2 \<subseteq> T1" "k2 + sum result_cost T2 = sum result_cost T1"
    using find_ranges_step [OF G1(1) _ finite_subset [OF T1(2) E(1)], unfolded same1, OF assms(2)]
    by blast
  note G2 = growsD(1,2) [OF g2]
  have same2: "pc_policy c2 = ?p" "pc_panic_func c2 = pc_panic_func c"
    using G2(2) same1 by (simp_all add: memo_le_def same_setup_def)
  have s1': "settled (compile_expr env ?i) c2 bad" using s1 G2(2) by (rule settled_mono)
  have pending: "\<forall>n \<in> set (elements Set_ALL). result_ok (expr n)
      \<and> (if IsValid n then EvaluateSyscall ?p (sint n) = Inr (expr n) else expr n = ?i)
      \<and> ((\<exists>m. settled (compile_expr env (expr n)) c2 m) \<or> expr n \<in> T2)"
  proof
    fix n :: u32
    have "(\<exists>m. settled (compile_expr env (expr n)) c2 m) \<or> expr n \<in> T2"
      using s1' s2 T1(1) T2(1) expr(1) [of n] by (cases "expr n = ?i"; cases "expr n = expr 0") auto
    moreover have "if IsValid n then EvaluateSyscall ?p (sint n) = Inr (expr n) else expr n = ?i"
      using expr(2) [of n] invalid by (simp add: expr_of_def split: if_splits)
    ultimately show "result_ok (expr n)
      \<and> (if IsValid n then EvaluateSyscall ?p (sint n) = Inr (expr n) else expr n = ?i)
      \<and> ((\<exists>m. settled (compile_expr env (expr n)) c2 m) \<or> expr n \<in> T2)"
      using E(2) expr(1) by blast
  qed
  have "room (sum result_cost T2) c2"
    using growsD(3) [OF g2] T2(3) \<open>room (sum result_cost T1) c1\<close> by simp
  from find_ranges_loop_total [OF G2(1) _ finite_subset [OF T2(2) finite_subset [OF T1(2) E(1)]] this _ s1' s2,
      unfolded same2, OF assms(2) pending, of "[]" 0]
  obtain rs c' where loop: "find_ranges_loop (Trap_ops env) c2 bad [] 0 old (elements Set_ALL) = Inr (rs, c')"
    and g3: "grows (sum result_cost T2) c2 c'" and rs: "rs \<noteq> []"
    and len: "length rs \<le> 1 + changes (expr 0) (map expr (elements Set_ALL))"
    and nodes: "\<forall>r \<in> set rs. range_node r < size_of c'"
    by auto
  have "FindRanges (Trap_ops env) c = Inr (rs, c')"
    unfolding FindRanges_def using loop r1 r2 invalid valid0 same1 by simp
  moreover have "grows (sum result_cost E) c c'"
    using grows_trans [OF grows_trans [OF g1 g2] g3] T1(3) T2(3) by (simp add: add.assoc)
  moreover have "expr_of ?p = (\<lambda>n. Inr (expr n))" using expr(2) by (rule ext)
  then have "changes (expr_of ?p 0) (map (expr_of ?p) (elements Set_ALL))
      = changes (expr 0) (map expr (elements Set_ALL))"
    using changes_Inr [of "expr 0" "map expr (elements Set_ALL)"]
    by (simp only: map_map comp_def)
  ultimately show ?thesis using rs len nodes k by fastforce
qed

text \<open>The panic results the frame of the filter needs.\<close>

lemma panic_total:
  assumes "panic_ok (pc_panic_func c0)"
  shows "completes 1 c0 (\<lambda>c. CompileResult (Trap_ops env) c (pc_panic_func c msg))"
proof -
  obtain r where r: "pc_panic_func c0 msg = Inr r" "result_ok r" "\<forall>c t e. r \<noteq> IfThenResultExpr c t e"
    using assms unfolding panic_ok_def by blast
  have cost: "result_cost r = 1" using r(3) by (cases r) auto
  have t: "completes 1 c0 (compile_expr env r)"
    using compile_expr_total [OF assms r(2), of env] by (simp only: cost)
  show ?thesis
    unfolding completes_def
  proof (intro allI impI)
    fix c assume c: "sound c" "room 1 c" "memo_le c0 c"
    obtain n c' where b: "builds 1 (compile_expr env r) c n c'"
      using t c unfolding completes_def by blast
    have "builds 1 (\<lambda>c. CompileResult (Trap_ops env) c (pc_panic_func c msg)) c n c'"
      by (rule builds_cong [OF b]) (use c(3) r(1) in \<open>simp add: memo_le_def same_setup_def\<close>)
    then show "\<exists>n c'. builds 1 (\<lambda>c. CompileResult (Trap_ops env) c (pc_panic_func c msg)) c n c'" by blast
  qed
qed

lemma CheckSyscallNumber_total:
  assumes "panic_ok (pc_panic_func c0)" and "passed < size_of c0"
  shows "completes 2 c0 (\<lambda>c. CheckSyscallNumber (Trap_ops env) c passed)"
proof -
  have "completes (1 + 1) c0 (\<lambda>c. res_bind (CompileResult (Trap_ops env) c
      (pc_panic_func c ''Illegal mixing of system call ABIs'')) (\<lambda>(bad, c).
      gen_Make c (BPF_JMP + BPF_JSET + BPF_K) 0x40000000 bad passed))"
    by (rule completes_bind [OF panic_total [OF assms(1)]], rule completes_jump(2))
       (auto dest: memo_le_size [OF _ assms(2)])
  then show ?thesis by (simp add: CheckSyscallNumber_def numeral_2_eq_2)
qed

lemma CheckArch_total:
  assumes "panic_ok (pc_panic_func c0)" and "passed < size_of c0"
  shows "completes 3 c0 (\<lambda>c. CheckArch (Trap_ops env) c passed)"
proof -
  have "completes (1 + (1 + 1)) c0 (\<lambda>c. CheckArch (Trap_ops env) c passed)"
    unfolding CheckArch_def
    by (rule completes_bind [OF panic_total [OF assms(1)]], rule completes_then_ld, rule completes_jump(1))
       (auto dest: memo_le_size [OF _ assms(2)])
  then show ?thesis by (rule completes_weaken) simp
qed

lemma DispatchSyscall_total:
  assumes "sound c" and "panic_ok (pc_panic_func c)" and fits: "policy_fits (pc_policy c) E k"
    and "room k c"
  shows "\<exists>n c'. DispatchSyscall (Trap_ops env) c = Inr (n, c') \<and> grows (k - 3) c c' \<and> n < size_of c'"
proof -
  obtain rs c1 where fr: "FindRanges (Trap_ops env) c = Inr (rs, c1)"
    and g1: "grows (sum result_cost E) c c1" and rs: "rs \<noteq> []"
    and k: "sum result_cost E + (length rs - 1) + 6 \<le> k"
    and nodes: "\<forall>r \<in> set rs. range_node r < size_of c1"
    using FindRanges_total [OF assms] by blast
  have panic: "panic_ok (pc_panic_func c1)"
    using growsD(2) [OF g1] assms(2) by (simp add: memo_le_def same_setup_def)
  have "completes (length rs - 1 + (2 + 1)) c1 (\<lambda>c. res_bind (AssembleJumpTable c rs) (\<lambda>(n, c).
      res_bind (CheckSyscallNumber (Trap_ops env) c n) (\<lambda>(n, c).
      gen_Make c (BPF_LD + BPF_W + BPF_ABS) SECCOMP_NR_IDX n kNullNode)))"
  proof (rule completes_bind [OF AssembleJumpTable_total [OF rs nodes]], rule completes_then_ld)
    fix n c' assume "n < size_of c'" "memo_le c1 c'"
    then show "completes 2 c' (\<lambda>c. CheckSyscallNumber (Trap_ops env) c n)"
      using panic by (intro CheckSyscallNumber_total) (simp_all add: memo_le_def same_setup_def)
  qed
  moreover have "room (length rs - 1 + (2 + 1)) c1"
    using growsD(3) [OF g1] room_mono [OF assms(4)] k by simp
  ultimately obtain n c2 where b: "builds (length rs - 1 + (2 + 1)) (\<lambda>c. res_bind (AssembleJumpTable c rs) (\<lambda>(n, c).
      res_bind (CheckSyscallNumber (Trap_ops env) c n) (\<lambda>(n, c).
      gen_Make c (BPF_LD + BPF_W + BPF_ABS) SECCOMP_NR_IDX n kNullNode))) c1 n c2"
    using growsD(1) [OF g1] unfolding completes_def by (meson memo_le_refl)
  have "DispatchSyscall (Trap_ops env) c = Inr (n, c2)"
    unfolding DispatchSyscall_def using fr buildsD(1) [OF b] by simp
  moreover have "grows (k - 3) c c2"
    by (rule grows_mono [OF grows_trans [OF g1 buildsD(2) [OF b]]]) (use k in simp)
  ultimately show ?thesis using buildsD(4) [OF b] by blast
qed

lemma compiler_Compile_total:
  assumes "sound c" and "panic_ok (pc_panic_func c)" and fits: "policy_fits (pc_policy c) E k"
    and "room k c" and "\<not> pc_has_unsafe_traps c"
  shows "\<exists>prog c'. compiler_Compile (Trap_ops env) c = Inr (prog, c')"
proof -
  have "6 \<le> k" using fits by (simp add: policy_fits_def)
  obtain i where i: "InvalidSyscall (pc_policy c) = Inr i" "IsDeny i"
  proof -
    have "expr_of (pc_policy c) 0xFFFFFFFF = InvalidSyscall (pc_policy c)"
      by (simp add: expr_of_def IsValid_iff)
    then show thesis using fits that unfolding policy_fits_def by metis
  qed
  obtain n c1 where d: "DispatchSyscall (Trap_ops env) c = Inr (n, c1)"
    and g1: "grows (k - 3) c c1" and n: "n < size_of c1"
    using DispatchSyscall_total [OF assms(1-4)] by blast
  have panic: "panic_ok (pc_panic_func c1)" and unsafe: "\<not> pc_has_unsafe_traps c1"
    using growsD(2) [OF g1] assms(2,5) by (simp_all add: memo_le_def same_setup_def)
  have "room 3 c1" using growsD(3) [OF g1, of 3] assms(4) \<open>6 \<le> k\<close> by simp
  then obtain h c2 where b: "builds 3 (\<lambda>c. CheckArch (Trap_ops env) c n) c1 h c2"
    using CheckArch_total [OF panic n, of env] growsD(1) [OF g1] unfolding completes_def by (meson memo_le_refl)
  have "AssemblePolicy (Trap_ops env) c = Inr (h, c2)"
    using d unsafe buildsD(1) [OF b] by (simp add: AssemblePolicy_def MaybeAddEscapeHatch_def)
  moreover have "\<exists>prog. CodeGen_Compile (pc_gen c2) h = Inr prog"
    using buildsD(4) [OF b] by (simp add: CodeGen_Compile_def Offset_def)
  ultimately show ?thesis using i assms(5) by (auto simp: compiler_Compile_def)
qed

lemma result_ok_safe: "result_ok r \<Longrightarrow> \<not> HasUnsafeTraps r"
  by (induction r) auto

lemma changes_same: "\<forall>y \<in> set ys. y = x \<Longrightarrow> changes x (ys @ zs) = changes x zs"
  by (induction ys) auto

lemma fits_safe:
  assumes "policy_fits policy E k"
  shows "policy_HasUnsafeTraps policy = Inr False"
proof -
  have completes: "\<exists>e. expr_of policy n = Inr e \<and> result_ok e" for n
    using assms unfolding policy_fits_def by blast
  obtain i where i: "InvalidSyscall policy = Inr i" "result_ok i"
    using completes [of "0xFFFFFFFF"] by (auto simp: expr_of_def IsValid_iff)
  have "\<exists>r. EvaluateSyscall policy (sint n) = Inr r \<and> \<not> HasUnsafeTraps r"
    if "n \<in> set (elements Set_VALID_ONLY)" for n
    using that completes [of n] SyscallSet_elements_valid [of n] result_ok_safe by (auto simp: expr_of_def)
  then show ?thesis
    using has_unsafe_traps_loop_invalid [OF _ i(1)] result_ok_safe [OF i(2)]
    unfolding policy_HasUnsafeTraps_def by simp
qed

lemma compiler_succeeds:
  assumes "policy_fits policy E k" and "panic_ok panic" and "trap_invar t"
    and "trap_array_size t + k \<le> 65535"
  shows "\<exists>c prog c'. compiler_for policy t escapepc panic = Inr c
    \<and> compiler_Compile (Trap_ops env) c = Inr (prog, c')"
proof -
  have "policy_HasUnsafeTraps policy = Inr False" by (rule fits_safe [OF assms(1)])
  then obtain c where c: "compiler_for policy t escapepc panic = Inr c"
    and cfg: "pc_policy c = policy" "pc_panic_func c = panic" "\<not> pc_has_unsafe_traps c"
      "pc_registry c = t" "pc_gen c = CodeGen_init"
    by (auto simp: compiler_for_def PolicyCompiler_def SetPanicFunc_def DangerousSetEscapePC_def)
  have "sound c" using gen_invar_init assms(3) cfg by (simp add: sound_def)
  moreover have "room k c"
    using assms(1,4) cfg by (simp add: room_def policy_fits_def CodeGen_init_def)
  ultimately show ?thesis
    using compiler_Compile_total [of c E k env] c assms(1,2) cfg by auto
qed

text \<open>
  C32: \<open>PolicyCompiler::Compile\<close> succeeds. For every policy that fits, whatever handlers are
  already registered as long as the registry has room, the constructor and \<open>Compile\<close> run through
  all their checks and return a filter.
\<close>

theorem Compile_succeeds:
  assumes "policy_fits policy E k" and "panic_ok panic" and "trap_invar t"
    and "trap_array_size t + k \<le> 65535"
  shows "\<exists>c prog c'. compiler_for policy t escapepc panic = Inr c
    \<and> compiler_Compile (Trap_ops env) c = Inr (prog, c')"
  using assms by (rule compiler_succeeds)

lemma example_policy_fits:
  "policy_fits example_policy {ReturnResultExpr 0x50001, ReturnResultExpr SECCOMP_RET_ALLOW, ReturnResultExpr 0x50026} 11"
proof -
  obtain xs where el: "elements Set_ALL = 0 # 1 # xs @ [1025, 0x7FFFFFFF, 0x80000000, 0xFFFFFFFF]"
    and xs: "\<forall>y \<in> set xs. IsValid y \<and> sint y \<noteq> 0" by (rule elements_all_split)
  have e: "expr_of example_policy n =
      Inr (ReturnResultExpr (if \<not> IsValid n then 0x50026 else if sint n = 0 then 0x50001 else SECCOMP_RET_ALLOW))" for n
    by (simp add: expr_of_def example_policy_def Policy_InvalidSyscall_def Error_def Allow_def)
  have "changes (expr_of example_policy 0) (map (expr_of example_policy) (elements Set_ALL)) = 2"
    using xs by (simp add: el e IsValid_iff changes_same cong: ball_cong)
  then show ?thesis
    by (simp add: policy_fits_def e) (simp add: example_policy_def Policy_InvalidSyscall_def Error_def IsAction_def)
qed

theorem Compile_succeeds_witness:
  "\<exists>c prog c'. compiler_for example_policy Trap_init 0 DefaultPanic = Inr c
    \<and> compiler_Compile (Trap_ops None) c = Inr (prog, c')"
proof (rule Compile_succeeds [OF example_policy_fits _ trap_invar_init])
  show "panic_ok DefaultPanic" by (simp add: panic_ok_def DefaultPanic_def Kill_def)
qed (simp add: Trap_init_def)

end
