(* ===== verification/Sandbox_Bpf.thy ===== *)
theory Sandbox_Bpf
  imports Thread_Helpers Trap_Signal Compiler_Total
begin

text \<open>
  Starting the sandbox, \<^verbatim>\<open>seccomp-bpf/sandbox_bpf.cc\<close>: probing the kernel, compiling the policy
  and installing the filter. The kernel is a record of its answers; the calls that matter are
  logged in order.
\<close>

subsection \<open>The kernel\<close>

text \<open>Return values come with \<open>errno\<close> where the code looks at it.\<close>

record kernel =
  k_valgrind :: bool
  k_prctl_seccomp_null :: "int \<times> int"
  k_seccomp_tsync_null :: "int \<times> int"
  k_escape_call :: "u64 \<times> int"
  k_open_proc :: sys_fd
  k_close :: "sys_fd \<Rightarrow> int \<times> int"
  k_task_stats :: task_stats
  k_sigaction :: int
  k_sigprocmask :: int
  k_debugging_env :: "string option"
  k_no_new_privs :: int
  k_install_tsync :: int
  k_install_prctl :: int

abbreviation (input) ENOSYS_errno :: int where "ENOSYS_errno \<equiv> 38"
abbreviation (input) EFAULT_errno :: int where "EFAULT_errno \<equiv> 14"
abbreviation (input) EINVAL_errno :: int where "EINVAL_errno \<equiv> 22"
abbreviation (input) EBADF_errno :: int where "EBADF_errno \<equiv> 9"

record sock_fprog =
  fprog_len :: u16
  fprog_filter :: "sock_filter list"

datatype sandbox_call =
    OpenProc
  | Close sys_fd
  | Threads thread_call
  | NoNewPrivs
  | SeccompTsync sock_fprog
  | PrctlSeccomp sock_fprog

type_synonym 'a sandbox_run = "(sandbox_call, 'a) logged"

subsection \<open>Probing\<close>

definition IsRunningOnValgrind :: "kernel \<Rightarrow> bool" where
  "IsRunningOnValgrind k = k_valgrind k"

definition KernelSupportsSeccompBPF :: "kernel \<Rightarrow> bool" where
  "KernelSupportsSeccompBPF k =
     (let (rv, err) = k_prctl_seccomp_null k in if rv = -1 \<and> EFAULT_errno = err then True else False)"

text \<open>The probe for LG's kernels is compiled on Android only.\<close>

definition KernelHasLGBug :: bool where
  "KernelHasLGBug = False"

definition KernelSupportsSeccompTsync :: "kernel \<Rightarrow> abort + bool" where
  "KernelSupportsSeccompTsync k =
     (if KernelHasLGBug then Inr False
      else
        (let (rv, err) = k_seccomp_tsync_null k in
         if rv = -1 \<and> err = EFAULT_errno then Inr True
         else
           res_bind (check (-1 = rv) ''-1 == rv'') (\<lambda>_.
           res_bind (check (ENOSYS_errno = err \<or> EINVAL_errno = err) ''ENOSYS == errno || EINVAL == errno'')
             (\<lambda>_. Inr False))))"

definition EscapePC :: "kernel \<Rightarrow> u64" where
  "EscapePC k =
     (let (rv, err) = k_escape_call k in if rv = - 1 \<and> err = ENOSYS_errno then 0 else rv)"

definition SandboxPanic :: "string \<Rightarrow> abort + result_expr" where
  "SandboxPanic error = Trap SandboxPanicTrap (CString error)"

datatype seccomp_level = SINGLE_THREADED | MULTI_THREADED

definition SupportsSeccompSandbox :: "kernel \<Rightarrow> seccomp_level \<Rightarrow> abort + bool" where
  "SupportsSeccompSandbox k level =
     (if IsRunningOnValgrind k then Inr False
      else case level of
        SINGLE_THREADED \<Rightarrow> Inr (KernelSupportsSeccompBPF k)
      | MULTI_THREADED \<Rightarrow> KernelSupportsSeccompTsync k)"

subsection \<open>Files\<close>

text \<open>\<open>ScopedFD\<close>: closing a valid descriptor aborts only if it was not open.\<close>

definition scoped_close :: "kernel \<Rightarrow> sys_fd \<Rightarrow> unit sandbox_run" where
  "scoped_close k fd =
     (if fd = -1 then log_return ()
      else log_bind (log_call (Close fd)) (\<lambda>_.
        let (ret, err) = k_close k fd in
        log_lift (check (ret = 0 \<or> err \<noteq> EBADF_errno) ''0 == ret'')))"

definition ProcUtil_OpenProc :: "kernel \<Rightarrow> sys_fd sandbox_run" where
  "ProcUtil_OpenProc k =
     log_bind (log_call OpenProc) (\<lambda>_.
     log_bind (log_lift (check (k_open_proc k \<noteq> -1) ''directory_fd.is_valid()'')) (\<lambda>_.
     log_return (k_open_proc k)))"

definition log_map :: "('c \<Rightarrow> 'd) \<Rightarrow> ('c, 'a) logged \<Rightarrow> ('d, 'a) logged" where
  "log_map f m = (map f (fst m), snd m)"

subsection \<open>The sandbox\<close>

record sandbox_bpf =
  sb_proc_fd :: sys_fd
  sb_has_started :: bool
  sb_policy :: "policy option"

definition SandboxBPF :: "policy option \<Rightarrow> sandbox_bpf" where
  "SandboxBPF policy = \<lparr>sb_proc_fd = -1, sb_has_started = False, sb_policy = policy\<rparr>"

definition IsValidSyscallNumber :: "int \<Rightarrow> bool" where
  "IsValidSyscallNumber sysnum = IsValid (of_int sysnum)"

definition SandboxBPF_IsRequiredForUnsafeTrap :: "int \<Rightarrow> bool" where
  "SandboxBPF_IsRequiredForUnsafeTrap sysno = IsRequiredForUnsafeTrap sysno"

definition ForwardSyscall :: "(u32 \<Rightarrow> u64 list \<Rightarrow> u64) \<Rightarrow> arch_seccomp_data \<Rightarrow> u64" where
  "ForwardSyscall syscall_call args =
     syscall_call (sd_nr args)
       [sd_args args ! 0, sd_args args ! 1, sd_args args ! 2, sd_args args ! 3, sd_args args ! 4,
        sd_args args ! 5]"

definition SetProcFd :: "kernel \<Rightarrow> sys_fd \<Rightarrow> sandbox_bpf \<Rightarrow> sandbox_bpf sandbox_run" where
  "SetProcFd k proc_fd sb =
     log_bind (scoped_close k (sb_proc_fd sb)) (\<lambda>_. log_return (sb\<lparr>sb_proc_fd := proc_fd\<rparr>))"

text \<open>\<open>global_trap\<close> is the process's trap registry, if it exists already.\<close>

definition AssembleFilter ::
    "kernel \<Rightarrow> policy \<Rightarrow> trap option \<Rightarrow> abort + (sock_filter list \<times> trap option)" where
  "AssembleFilter k policy global_trap =
     res_bind (Registry (k_sigaction k) (k_sigprocmask k) global_trap) (\<lambda>(registry, global_trap).
     res_bind (PolicyCompiler policy registry) (\<lambda>compiler.
     let compiler = (if SandboxDebuggingAllowedByUser (k_debugging_env k)
                     then DangerousSetEscapePC (EscapePC k) compiler else compiler);
         compiler = SetPanicFunc SandboxPanic compiler in
     res_bind (compiler_Compile (Trap_ops (k_debugging_env k)) compiler) (\<lambda>(program, compiler).
     Inr (program, Some (pc_registry compiler)))))"

definition InstallFilter ::
    "kernel \<Rightarrow> bool \<Rightarrow> trap option \<Rightarrow> sandbox_bpf \<Rightarrow> (sandbox_bpf \<times> trap option) sandbox_run" where
  "InstallFilter k must_sync_threads global_trap sb =
     log_bind (log_lift (case sb_policy sb of
         None \<Rightarrow> Inl (CheckFailed ''policy_'')
       | Some policy \<Rightarrow> AssembleFilter k policy global_trap)) (\<lambda>(program, global_trap).
     let prog = \<lparr>fprog_len = of_nat (length program), fprog_filter = program\<rparr>;
         sb = sb\<lparr>sb_policy := None\<rparr> in
     log_bind (log_call NoNewPrivs) (\<lambda>_.
     log_bind (log_lift (die_unless (k_no_new_privs k = 0) ''Kernel refuses to enable no-new-privs'')) (\<lambda>_.
     log_bind
       (if must_sync_threads then
          log_bind (log_call (SeccompTsync prog)) (\<lambda>_.
          log_lift (die_unless (k_install_tsync k = 0)
            ''Kernel refuses to turn on and synchronize threads for BPF filters''))
        else
          log_bind (log_call (PrctlSeccomp prog)) (\<lambda>_.
          log_lift (die_unless (k_install_prctl k = 0) ''Kernel refuses to turn on BPF filters'')))
       (\<lambda>_. log_return (sb\<lparr>sb_has_started := True\<rparr>, global_trap)))))"

definition StartSandbox ::
    "bool \<Rightarrow> kernel \<Rightarrow> seccomp_level \<Rightarrow> trap option \<Rightarrow> sandbox_bpf
       \<Rightarrow> (bool \<times> sandbox_bpf \<times> trap option) sandbox_run" where
  "StartSandbox NDEBUG k seccomp_level global_trap sb =
     (if sb_has_started sb then
        log_lift (Inl (SandboxDie
          ''Cannot repeatedly start sandbox. Create a separate Sandbox object instead.''))
      else
        log_bind (if sb_proc_fd sb = -1
                  then log_bind (ProcUtil_OpenProc k) (\<lambda>fd. SetProcFd k fd sb)
                  else log_return sb) (\<lambda>sb.
        log_bind (log_lift (KernelSupportsSeccompTsync k)) (\<lambda>supports_tsync.
        log_bind
          (case seccomp_level of
             SINGLE_THREADED \<Rightarrow>
               log_map Threads (AssertSingleThreaded NDEBUG (k_task_stats k) (sb_proc_fd sb))
           | MULTI_THREADED \<Rightarrow>
               log_lift (die_unless supports_tsync
                 ''Cannot start sandbox; kernel does not support synchronizing filters for a threadgroup''))
          (\<lambda>_.
        log_bind (scoped_close k (sb_proc_fd sb)) (\<lambda>_.
        let sb = sb\<lparr>sb_proc_fd := -1\<rparr> in
        log_bind (InstallFilter k (supports_tsync \<or> seccomp_level = MULTI_THREADED) global_trap sb)
          (\<lambda>(sb, global_trap). log_return (True, sb, global_trap)))))))"


subsection \<open>The compiler it sets up\<close>

definition escape_pc :: "kernel \<Rightarrow> u64" where
  "escape_pc k = (if SandboxDebuggingAllowedByUser (k_debugging_env k) then EscapePC k else 0)"

text \<open>The registry the filter's trap ids refer to.\<close>

definition registry_of :: "trap option \<Rightarrow> trap" where
  "registry_of g = (case g of None \<Rightarrow> Trap_init | Some t \<Rightarrow> t)"

lemma PolicyCompiler_escape: "PolicyCompiler policy t = Inr c \<Longrightarrow> DangerousSetEscapePC 0 c = c"
  by (auto simp: PolicyCompiler_def DangerousSetEscapePC_def res_simps)

lemma AssembleFilter_iff:
  "AssembleFilter k policy g = Inr (prog, g') \<longleftrightarrow>
     (g = None \<longrightarrow> \<not> k_sigaction k < 0 \<and> k_sigprocmask k = 0)
   \<and> (\<exists>c c'. compiler_for policy (registry_of g) (escape_pc k) SandboxPanic = Inr c
        \<and> compiler_Compile (Trap_ops (k_debugging_env k)) c = Inr (prog, c') \<and> g' = Some (pc_registry c'))"
  (is "?l \<longleftrightarrow> ?r \<and> ?c")
proof -
  have reg: "Registry (k_sigaction k) (k_sigprocmask k) g = Inr x \<longleftrightarrow>
      ?r \<and> x = (registry_of g, Some (registry_of g))" for x
    by (cases g) (auto simp: Registry_def Trap_new_def registry_of_def res_simps)
  have c: "res_bind (PolicyCompiler policy t) (\<lambda>c. f (SetPanicFunc SandboxPanic
        (if SandboxDebuggingAllowedByUser (k_debugging_env k) then DangerousSetEscapePC (EscapePC k) c else c)))
      = res_bind (compiler_for policy t (escape_pc k) SandboxPanic) f" for t f
    using PolicyCompiler_escape [of policy t]
    by (cases "PolicyCompiler policy t") (auto simp: compiler_for_def escape_pc_def)
  have "AssembleFilter k policy g = res_bind (Registry (k_sigaction k) (k_sigprocmask k) g) (\<lambda>(t, g).
      res_bind (compiler_for policy t (escape_pc k) SandboxPanic) (\<lambda>c.
      res_bind (compiler_Compile (Trap_ops (k_debugging_env k)) c) (\<lambda>(program, c).
      Inr (program, Some (pc_registry c)))))"
    unfolding AssembleFilter_def Let_def
      c [of _ "\<lambda>c. res_bind (compiler_Compile (Trap_ops (k_debugging_env k)) c)
        (\<lambda>(program, c). Inr (program, Some (pc_registry c)))"] ..
  note asm = this
  show ?thesis
  proof (cases ?r)
    case True
    then have "Registry (k_sigaction k) (k_sigprocmask k) g = Inr (registry_of g, Some (registry_of g))"
      using reg by blast
    then show ?thesis using True unfolding asm by (auto simp: res_bind_eq_Inr)
  next
    case False
    then have "Registry (k_sigaction k) (k_sigprocmask k) g \<noteq> Inr x" for x using reg by blast
    then show ?thesis using False unfolding asm by (auto simp: res_bind_eq_Inr)
  qed
qed

lemma SandboxPanic_wf: "wf_panic SandboxPanic"
  using wf_Trap(1) by (simp add: wf_panic_def SandboxPanic_def)

lemma SandboxPanic_ok: "panic_ok SandboxPanic"
  by (simp add: panic_ok_def SandboxPanic_def Trap_def)

lemma SandboxPanic_denies: "panic_denies SandboxPanic"
  by (simp add: panic_denies_def SandboxPanic_def Trap_def)

definition global_trap_ok :: "trap option \<Rightarrow> bool" where
  "global_trap_ok g \<longleftrightarrow> trap_invar (registry_of g)"

lemma global_trap_ok_None [simp]: "global_trap_ok None"
  by (simp add: global_trap_ok_def registry_of_def trap_invar_init)

lemma AssembleFilter_loadable:
  assumes "AssembleFilter k policy g = Inr (prog, g')" and "global_trap_ok g" and "wf_policy policy"
  shows "0 < length prog" and "length prog \<le> BPF_MAXINSNS"
proof -
  obtain c c' where c: "compiler_for policy (registry_of g) (escape_pc k) SandboxPanic = Inr c"
    "compiler_Compile (Trap_ops (k_debugging_env k)) c = Inr (prog, c')"
    using assms(1) unfolding AssembleFilter_iff by blast
  have "trap_invar (registry_of g)" using assms(2) by (simp add: global_trap_ok_def)
  from compiled_filter_shape [OF c(1) this assms(3) SandboxPanic_wf c(2)]
  show "0 < length prog" "length prog \<le> BPF_MAXINSNS" by blast+
qed

subsection \<open>Starting\<close>

lemma log_mapE:
  assumes "log_map f m = (es, Inr y)"
  obtains es' where "m = (es', Inr y)" and "es = map f es'"
  using assms by (cases m) (auto simp: log_map_def)

lemma InstallFilter_InrE:
  assumes "InstallFilter k sync g sb = (log, Inr (sb', g'))"
  obtains policy prog where "sb_policy sb = Some policy"
    and "AssembleFilter k policy g = Inr (prog, g')"
    and "sb' = sb\<lparr>sb_policy := None, sb_has_started := True\<rparr>" and "k_no_new_privs k = 0"
    and "log = (let fp = \<lparr>fprog_len = of_nat (length prog), fprog_filter = prog\<rparr>
       in [NoNewPrivs, if sync then SeccompTsync fp else PrctlSeccomp fp])"
    and "if sync then k_install_tsync k = 0 else k_install_prctl k = 0"
proof -
  obtain policy where pol: "sb_policy sb = Some policy"
    using assms by (cases "sb_policy sb") (simp_all add: InstallFilter_def log_bind_def log_lift_def)
  obtain prog g1 where asm: "AssembleFilter k policy g = Inr (prog, g1)"
    using assms pol by (cases "AssembleFilter k policy g") (auto simp: InstallFilter_def log_bind_def log_lift_def)
  have run: "sb' = sb\<lparr>sb_policy := None, sb_has_started := True\<rparr> \<and> g1 = g' \<and> k_no_new_privs k = 0
    \<and> log = (let fp = \<lparr>fprog_len = of_nat (length prog), fprog_filter = prog\<rparr>
         in [NoNewPrivs, if sync then SeccompTsync fp else PrctlSeccomp fp])
    \<and> (if sync then k_install_tsync k = 0 else k_install_prctl k = 0)"
    using assms unfolding InstallFilter_def pol option.case asm
    by (auto simp: Let_def die_unless_def log_lift_def log_bind_def log_call_def log_return_def split: if_splits)
  then show thesis by (intro that [OF pol]) (use asm in auto)
qed

text \<open>Calls that precede the installation of a filter.\<close>

fun preparatory :: "sandbox_call \<Rightarrow> bool" where
  "preparatory OpenProc = True"
| "preparatory (Close fd) = True"
| "preparatory (Threads c) = True"
| "preparatory NoNewPrivs = False"
| "preparatory (SeccompTsync p) = False"
| "preparatory (PrctlSeccomp p) = False"

lemma scoped_close_log:
  "scoped_close k fd = (es, r) \<Longrightarrow> es = (if fd = -1 then [] else [Close fd])"
  by (auto simp: scoped_close_def log_return_def log_bind_def log_call_def log_lift_def
      split: if_splits prod.splits)

lemma open_proc_log:
  assumes "log_bind (ProcUtil_OpenProc k) (\<lambda>fd. SetProcFd k fd sb) = (es, Inr sb')" and "sb_proc_fd sb = -1"
  shows "es = [OpenProc]" and "sb' = sb\<lparr>sb_proc_fd := k_open_proc k\<rparr>" and "k_open_proc k \<noteq> -1"
  using assms
  by (auto simp: ProcUtil_OpenProc_def SetProcFd_def scoped_close_def log_return_def log_bind_def log_call_def
      log_lift_def check_def split: if_splits)

lemma StartSandbox_InrE:
  assumes "StartSandbox NDEBUG k level g sb = (log, Inr (b, sb', g'))"
  obtains tsync fd pre post where "b" and "\<not> sb_has_started sb" and "fd \<noteq> -1"
    and "KernelSupportsSeccompTsync k = Inr tsync" and "level = MULTI_THREADED \<Longrightarrow> tsync"
    and "level = SINGLE_THREADED \<Longrightarrow> \<exists>es. AssertSingleThreaded NDEBUG (k_task_stats k) fd = (es, Inr ())"
    and "InstallFilter k (tsync \<or> level = MULTI_THREADED) g (sb\<lparr>sb_proc_fd := -1\<rparr>) = (post, Inr (sb', g'))"
    and "log = pre @ [Close fd] @ post" and "list_all preparatory pre"
proof -
  let ?fd = "if sb_proc_fd sb = -1 then k_open_proc k else sb_proc_fd sb"
  have ns: "\<not> sb_has_started sb"
    using assms by (auto simp: StartSandbox_def log_lift_def split: if_splits)
  from assms obtain es1 sb1 es2 where
    o: "(if sb_proc_fd sb = -1 then log_bind (ProcUtil_OpenProc k) (\<lambda>fd. SetProcFd k fd sb)
          else log_return sb) = (es1, Inr sb1)"
    and r: "log_bind (log_lift (KernelSupportsSeccompTsync k)) (\<lambda>supports_tsync.
        log_bind
          (case level of
             SINGLE_THREADED \<Rightarrow>
               log_map Threads (AssertSingleThreaded NDEBUG (k_task_stats k) (sb_proc_fd sb1))
           | MULTI_THREADED \<Rightarrow>
               log_lift (die_unless supports_tsync
                 ''Cannot start sandbox; kernel does not support synchronizing filters for a threadgroup''))
          (\<lambda>_.
        log_bind (scoped_close k (sb_proc_fd sb1)) (\<lambda>_.
        let sb = sb1\<lparr>sb_proc_fd := -1\<rparr> in
        log_bind (InstallFilter k (supports_tsync \<or> level = MULTI_THREADED) g sb)
          (\<lambda>(sb, global_trap). log_return (True, sb, global_trap))))) = (es2, Inr (b, sb', g'))"
    and l1: "log = es1 @ es2"
    unfolding StartSandbox_def if_not_P [OF ns] by (rule log_bindE)
  have sb1: "sb1 = sb\<lparr>sb_proc_fd := ?fd\<rparr>" "?fd \<noteq> -1" "list_all preparatory es1"
    using o open_proc_log [of k sb es1 sb1] by (auto simp: log_return_def split: if_splits)
  from r obtain tsync where t: "KernelSupportsSeccompTsync k = Inr tsync"
    by (cases "KernelSupportsSeccompTsync k") (simp_all add: log_bind_def log_lift_def)
  from r [unfolded t log_bind_lift] obtain es3 u es4 where
    th: "(case level of
             SINGLE_THREADED \<Rightarrow> log_map Threads (AssertSingleThreaded NDEBUG (k_task_stats k) (sb_proc_fd sb1))
           | MULTI_THREADED \<Rightarrow>
               log_lift (die_unless tsync
                 ''Cannot start sandbox; kernel does not support synchronizing filters for a threadgroup''))
       = (es3, Inr u)"
    and r2: "log_bind (scoped_close k (sb_proc_fd sb1)) (\<lambda>_.
        let sb = sb1\<lparr>sb_proc_fd := -1\<rparr> in
        log_bind (InstallFilter k (tsync \<or> level = MULTI_THREADED) g sb)
          (\<lambda>(sb, global_trap). log_return (True, sb, global_trap))) = (es4, Inr (b, sb', g'))"
    and l2: "es2 = es3 @ es4"
    by (rule log_bindE)
  from r2 obtain es5 v es6 where c: "scoped_close k (sb_proc_fd sb1) = (es5, Inr v)"
    and r3: "log_bind (InstallFilter k (tsync \<or> level = MULTI_THREADED) g (sb1\<lparr>sb_proc_fd := -1\<rparr>))
          (\<lambda>(sb, global_trap). log_return (True, sb, global_trap)) = (es6, Inr (b, sb', g'))"
    and l3: "es4 = es5 @ es6"
    unfolding Let_def by (rule log_bindE)
  have i: "InstallFilter k (tsync \<or> level = MULTI_THREADED) g (sb\<lparr>sb_proc_fd := -1\<rparr>) = (es6, Inr (sb', g'))"
    and b using r3 sb1 by (auto simp: log_return_def elim!: log_bindE)
  have p3: "list_all preparatory es3" and p5: "es5 = [Close ?fd]"
    using th scoped_close_log [OF c] sb1
    by (auto simp: log_lift_def list_all_iff split: seccomp_level.splits elim!: log_mapE)
  show thesis
    by (rule that [OF \<open>b\<close> ns sb1(2) t _ _ i, where pre = "es1 @ es3"])
       (use th l1 l2 l3 p3 p5 sb1 in \<open>auto simp: log_lift_def die_unless_def split: if_splits elim!: log_mapE\<close>)
qed

lemma log_bind_Inr: "m = (es, Inr x) \<Longrightarrow> log_bind m f = (es @ fst (f x), snd (f x))"
  by (simp add: log_bind_def)

text \<open>A kernel that grants what the sandbox asks for.\<close>

definition cooperative :: "kernel \<Rightarrow> seccomp_level \<Rightarrow> bool" where
  "cooperative k level \<longleftrightarrow>
     k_open_proc k \<ge> 0 \<and> (\<forall>fd. fst (k_close k fd) = 0) \<and> \<not> k_sigaction k < 0 \<and> k_sigprocmask k = 0
   \<and> k_no_new_privs k = 0 \<and> k_install_tsync k = 0 \<and> k_install_prctl k = 0
   \<and> (k_seccomp_tsync_null k = (-1, EFAULT_errno)
      \<or> level = SINGLE_THREADED \<and> k_seccomp_tsync_null k = (-1, ENOSYS_errno))
   \<and> (level = SINGLE_THREADED \<longrightarrow> k_task_stats k 0 = (0, 3))"

lemma scoped_close_ok: "fst (k_close k fd) = 0 \<Longrightarrow> \<exists>es. scoped_close k fd = (es, Inr ())"
  by (auto simp: scoped_close_def log_return_def log_lift_def split: prod.splits)

lemma InstallFilter_ok:
  assumes "sb_policy sb = Some policy" and "AssembleFilter k policy g = Inr (prog, g')"
    and "k_no_new_privs k = 0" and "k_install_tsync k = 0" and "k_install_prctl k = 0"
  shows "\<exists>es. InstallFilter k sync g sb = (es, Inr (sb\<lparr>sb_policy := None, sb_has_started := True\<rparr>, g'))"
  using assms by (simp add: InstallFilter_def Let_def log_lift_def log_bind_def log_call_def log_return_def)

lemma StartSandbox_ok:
  assumes "cooperative k level" and "\<not> sb_has_started sb" and "sb_proc_fd sb \<ge> -1"
    and "sb_policy sb = Some policy" and "AssembleFilter k policy g = Inr (prog, g')"
  shows "\<exists>log sb'. StartSandbox NDEBUG k level g sb = (log, Inr (True, sb', g'))"
proof -
  define fd where "fd = (if sb_proc_fd sb = -1 then k_open_proc k else sb_proc_fd sb)"
  note coop = assms(1) [unfolded cooperative_def]
  have fd: "0 \<le> fd" using coop assms(3) by (simp add: fd_def)
  have "\<exists>es. (if sb_proc_fd sb = -1 then log_bind (ProcUtil_OpenProc k) (\<lambda>fd. SetProcFd k fd sb)
      else log_return sb) = (es, Inr (sb\<lparr>sb_proc_fd := fd\<rparr>))"
    using coop by (auto simp: ProcUtil_OpenProc_def SetProcFd_def scoped_close_def log_return_def
        log_lift_def log_bind_def log_call_def fd_def)
  then obtain es1 where o: "(if sb_proc_fd sb = -1 then log_bind (ProcUtil_OpenProc k) (\<lambda>fd. SetProcFd k fd sb)
      else log_return sb) = (es1, Inr (sb\<lparr>sb_proc_fd := fd\<rparr>))" by blast
  obtain tsync where t: "KernelSupportsSeccompTsync k = Inr tsync" "level = MULTI_THREADED \<longrightarrow> tsync"
    using coop by (auto simp: KernelSupportsSeccompTsync_def KernelHasLGBug_def)
  have "\<exists>es. AssertSingleThreaded NDEBUG (k_task_stats k) fd = (es, Inr ())" if "level = SINGLE_THREADED"
    unfolding AssertSingleThreaded_returns_iff using coop fd that
    by (intro conjI exI [of _ 0]) (auto simp: kMaxIterations_def)
  then have "\<exists>es. (case level of
             SINGLE_THREADED \<Rightarrow> log_map Threads (AssertSingleThreaded NDEBUG (k_task_stats k) fd)
           | MULTI_THREADED \<Rightarrow>
               log_lift (die_unless tsync
                 ''Cannot start sandbox; kernel does not support synchronizing filters for a threadgroup''))
       = (es, Inr ())"
    using t(2) by (cases level) (auto simp: log_map_def log_lift_def)
  then obtain es2 where th: "(case level of
             SINGLE_THREADED \<Rightarrow> log_map Threads (AssertSingleThreaded NDEBUG (k_task_stats k) fd)
           | MULTI_THREADED \<Rightarrow>
               log_lift (die_unless tsync
                 ''Cannot start sandbox; kernel does not support synchronizing filters for a threadgroup''))
       = (es2, Inr ())" by blast
  obtain es3 where c: "scoped_close k fd = (es3, Inr ())" using scoped_close_ok coop by blast
  obtain es4 sb' where i: "InstallFilter k (tsync \<or> level = MULTI_THREADED) g (sb\<lparr>sb_proc_fd := -1\<rparr>) = (es4, Inr (sb', g'))"
    using InstallFilter_ok [of "sb\<lparr>sb_proc_fd := -1\<rparr>", OF _ assms(5)] assms(4) coop by fastforce
  have p: "sb_proc_fd (sb\<lparr>sb_proc_fd := fd\<rparr>) = fd" by simp
  show ?thesis
    unfolding StartSandbox_def if_not_P [OF assms(2)] log_bind_Inr [OF o] t(1) log_bind_lift p
      log_bind_Inr [OF th] log_bind_Inr [OF c]
    by (simp add: i log_bind_Inr log_return_def)
qed

lemma AssembleFilter_ok:
  assumes "policy_fits policy E n" and "global_trap_ok g" and "trap_array_size (registry_of g) + n \<le> 65535"
    and "\<not> k_sigaction k < 0" and "k_sigprocmask k = 0"
  shows "\<exists>prog g'. AssembleFilter k policy g = Inr (prog, g')"
  using compiler_succeeds [OF assms(1) SandboxPanic_ok _ assms(3), of "escape_pc k" "k_debugging_env k"] assms(2,4,5)
  unfolding AssembleFilter_iff by (auto simp: global_trap_ok_def)

lemma sandbox_starts:
  assumes "cooperative k level" and "policy_fits policy E n" and "global_trap_ok g"
    and "trap_array_size (registry_of g) + n \<le> 65535"
  shows "\<exists>log sb' g'. StartSandbox NDEBUG k level g (SandboxBPF (Some policy)) = (log, Inr (True, sb', g'))"
proof -
  obtain prog g' where a: "AssembleFilter k policy g = Inr (prog, g')"
    using AssembleFilter_ok [OF assms(2,3,4)] assms(1) unfolding cooperative_def by blast
  show ?thesis using StartSandbox_ok [OF assms(1) _ _ _ a, of "SandboxBPF (Some policy)" NDEBUG] by (auto simp: SandboxBPF_def)
qed

text \<open>
  The sandbox starts. On a kernel that grants its requests (with \<open>TSYNC\<close> for several threads,
  and with one thread otherwise), a fresh \<open>SandboxBPF\<close> object with a policy that fits the limits
  of a filter is started, whatever traps the process registered before.
\<close>

lemma StartSandbox_starts:
  assumes "cooperative k level" and "policy_fits policy E n" and "global_trap_ok g"
    and "trap_array_size (registry_of g) + n \<le> 65535"
  shows "\<exists>log sb' g'. StartSandbox NDEBUG k level g (SandboxBPF (Some policy)) = (log, Inr (True, sb', g'))"
  using assms by (rule sandbox_starts)

definition example_kernel :: kernel where
  "example_kernel = \<lparr>k_valgrind = False, k_prctl_seccomp_null = (-1, EFAULT_errno),
     k_seccomp_tsync_null = (-1, EFAULT_errno), k_escape_call = (4096, 0), k_open_proc = 5,
     k_close = (\<lambda>fd. (0, 0)), k_task_stats = (\<lambda>n. (0, 3)), k_sigaction = 0, k_sigprocmask = 0,
     k_debugging_env = None, k_no_new_privs = 0, k_install_tsync = 0, k_install_prctl = 0\<rparr>"

lemma example_cooperative: "cooperative example_kernel level"
  by (simp add: cooperative_def example_kernel_def)

lemma example_run:
  obtains log b sb' g' where "StartSandbox True example_kernel SINGLE_THREADED None
    (SandboxBPF (Some example_policy)) = (log, Inr (b, sb', g'))"
proof -
  have "trap_array_size (registry_of None) + 11 \<le> 65535" by (simp add: registry_of_def Trap_init_def)
  from sandbox_starts [OF example_cooperative example_policy_fits global_trap_ok_None this] that
  show thesis by blast
qed

lemma StartSandbox_starts_witness:
  "\<exists>log sb' g'. StartSandbox True example_kernel MULTI_THREADED None (SandboxBPF (Some example_policy))
     = (log, Inr (True, sb', g'))"
  by (rule StartSandbox_starts [OF example_cooperative example_policy_fits global_trap_ok_None])
     (simp add: registry_of_def Trap_init_def)

text \<open>The filter decides every system call as the policy and the panic function say.\<close>

definition enforces :: "kernel \<Rightarrow> policy \<Rightarrow> trap option \<Rightarrow> trap option \<Rightarrow> sock_filter list \<Rightarrow> bool" where
  "enforces k policy g g' prog \<longleftrightarrow>
     (\<exists>c c'. compiler_for policy (registry_of g) (escape_pc k) SandboxPanic = Inr c
        \<and> g' = Some (pc_registry c')
        \<and> (\<forall>d. wf_seccomp_data d \<longrightarrow>
              (\<exists>v. EvaluateBPF prog d = Some (Inr v) \<and> returns c' (filter_outcome c d) v)))"

lemma AssembleFilter_enforces:
  assumes "AssembleFilter k policy g = Inr (prog, g')" and "global_trap_ok g" and "wf_policy policy"
  shows "enforces k policy g g' prog"
proof -
  obtain c c' where c: "compiler_for policy (registry_of g) (escape_pc k) SandboxPanic = Inr c"
    "compiler_Compile (Trap_ops (k_debugging_env k)) c = Inr (prog, c')" "g' = Some (pc_registry c')"
    using assms(1) unfolding AssembleFilter_iff by blast
  have "trap_invar (registry_of g)" using assms(2) by (simp add: global_trap_ok_def)
  from compiled_filter_decides [OF c(1) this assms(3) SandboxPanic_wf c(2)] c(1,3) show ?thesis
    unfolding enforces_def by blast
qed

text \<open>
  C30: \<open>StartSandbox\<close> does not return unless the process is sandboxed. When it returns, the
  result is true, the last two system calls were \<open>PR_SET_NO_NEW_PRIVS\<close> and the installation of a
  filter, both accepted by the kernel, no filter was installed before, the length in
  \<open>sock_fprog\<close>, which is only 16 bits wide, is the length of the program, and the program
  enforces the policy the object was given; the object is marked started and has given up its
  policy and its descriptor of \<^verbatim>\<open>/proc\<close>.
\<close>

theorem StartSandbox_installs_policy:
  assumes "StartSandbox NDEBUG k level g sb = (log, Inr (b, sb', g'))" and "sb_policy sb = Some policy"
    and "wf_policy policy" and "global_trap_ok g"
  shows "b \<and> sb' = \<lparr>sb_proc_fd = -1, sb_has_started = True, sb_policy = None\<rparr> \<and> k_no_new_privs k = 0
    \<and> (\<exists>pre fp install. log = pre @ [NoNewPrivs, install] \<and> list_all preparatory pre
        \<and> (install = SeccompTsync fp \<and> k_install_tsync k = 0 \<or> install = PrctlSeccomp fp \<and> k_install_prctl k = 0)
        \<and> unat (fprog_len fp) = length (fprog_filter fp)
        \<and> enforces k policy g g' (fprog_filter fp))"
proof -
  from assms(1) obtain tsync fd pre post where b: "b" and log: "log = pre @ [Close fd] @ post"
    and pre: "list_all preparatory pre"
    and i: "InstallFilter k (tsync \<or> level = MULTI_THREADED) g (sb\<lparr>sb_proc_fd := -1\<rparr>) = (post, Inr (sb', g'))"
    by (rule StartSandbox_InrE)
  from i obtain prog where a: "AssembleFilter k policy g = Inr (prog, g')"
    and sb': "sb' = sb\<lparr>sb_proc_fd := -1, sb_policy := None, sb_has_started := True\<rparr>"
    and n: "k_no_new_privs k = 0"
    and post: "post = (let fp = \<lparr>fprog_len = of_nat (length prog), fprog_filter = prog\<rparr>
       in [NoNewPrivs, if tsync \<or> level = MULTI_THREADED then SeccompTsync fp else PrctlSeccomp fp])"
    and ok: "if tsync \<or> level = MULTI_THREADED then k_install_tsync k = 0 else k_install_prctl k = 0"
    by (rule InstallFilter_InrE) (use assms(2) in auto)
  have "unat (of_nat (length prog) :: u16) = length prog"
    using AssembleFilter_loadable(2) [OF a assms(4,3)] by (intro unat_of_nat_small) simp
  moreover have "enforces k policy g g' prog" by (rule AssembleFilter_enforces [OF a assms(4,3)])
  moreover have "sb' = \<lparr>sb_proc_fd = -1, sb_has_started = True, sb_policy = None\<rparr>"
    unfolding sb' by (cases sb) simp
  ultimately show ?thesis
    using b n ok pre by (intro conjI exI [of _ "pre @ [Close fd]"]
        exI [of _ "\<lparr>fprog_len = of_nat (length prog), fprog_filter = prog\<rparr>"] exI [of _ "last post"])
      (simp_all add: log post Let_def)
qed

theorem StartSandbox_installs_policy_witness:
  "\<exists>log sb' g' prog. StartSandbox True example_kernel SINGLE_THREADED None (SandboxBPF (Some example_policy))
     = (log, Inr (True, sb', g')) \<and> enforces example_kernel example_policy None g' prog"
proof (rule example_run)
  fix log b sb' g'
  assume run: "StartSandbox True example_kernel SINGLE_THREADED None (SandboxBPF (Some example_policy))
    = (log, Inr (b, sb', g'))"
  show ?thesis
    using StartSandbox_installs_policy [OF run _ example_policy_wf(1) global_trap_ok_None] run
    by (auto simp: SandboxBPF_def)
qed

text \<open>
  C31: Threads. A sandbox for a single thread is only started after the kernel reported exactly
  one thread, one for several threads only by synchronizing the filter to all of them; and the
  descriptor of \<^verbatim>\<open>/proc\<close> is closed before the filter is installed.
\<close>

theorem StartSandbox_thread_safe:
  assumes "StartSandbox NDEBUG k level g sb = (log, Inr (b, sb', g'))"
  shows "(level = SINGLE_THREADED \<longrightarrow> (\<exists>n < kMaxIterations NDEBUG. k_task_stats k n = (0, 3)))
    \<and> (level = MULTI_THREADED \<longrightarrow> (\<exists>fp. last log = SeccompTsync fp))
    \<and> (\<exists>pre fd post. log = pre @ [Close fd] @ post \<and> list_all preparatory pre \<and> \<not> list_ex preparatory post)"
proof -
  from assms obtain tsync fd pre post where log: "log = pre @ [Close fd] @ post"
    and pre: "list_all preparatory pre"
    and i: "InstallFilter k (tsync \<or> level = MULTI_THREADED) g (sb\<lparr>sb_proc_fd := -1\<rparr>) = (post, Inr (sb', g'))"
    and s: "level = SINGLE_THREADED \<Longrightarrow> \<exists>es. AssertSingleThreaded NDEBUG (k_task_stats k) fd = (es, Inr ())"
    by (rule StartSandbox_InrE) blast
  from i obtain prog where
    post: "post = (let fp = \<lparr>fprog_len = of_nat (length prog), fprog_filter = prog\<rparr>
       in [NoNewPrivs, if tsync \<or> level = MULTI_THREADED then SeccompTsync fp else PrctlSeccomp fp])"
    by (rule InstallFilter_InrE)
  have one: "\<exists>n < kMaxIterations NDEBUG. k_task_stats k n = (0, 3)" if "level = SINGLE_THREADED"
    using s [OF that] AssertSingleThreaded_returns_iff by blast
  have all: "\<exists>fp. last log = SeccompTsync fp" if "level = MULTI_THREADED"
    using that by (simp add: log post Let_def)
  have "\<not> list_ex preparatory post" by (simp add: post Let_def)
  then show ?thesis using one all log pre by blast
qed

theorem StartSandbox_thread_safe_witness:
  "\<exists>log b sb' g' pre fd post. StartSandbox True example_kernel SINGLE_THREADED None
       (SandboxBPF (Some example_policy)) = (log, Inr (b, sb', g'))
     \<and> log = pre @ [Close fd] @ post \<and> \<not> list_ex preparatory post"
proof (rule example_run)
  fix log b sb' g'
  assume run: "StartSandbox True example_kernel SINGLE_THREADED None (SandboxBPF (Some example_policy))
    = (log, Inr (b, sb', g'))"
  show ?thesis using StartSandbox_thread_safe [OF run] run by blast
qed

text \<open>
  A sandbox is started once: after \<open>StartSandbox\<close> returned, every further call, with any
  level, dies without making a system call.
\<close>

lemma StartSandbox_once:
  assumes "StartSandbox NDEBUG k level g sb = (log, Inr (b, sb', g'))"
  shows "\<exists>msg. StartSandbox NDEBUG k2 level2 g2 sb' = ([], Inl (SandboxDie msg))"
proof -
  from assms obtain tsync post where
    "InstallFilter k (tsync \<or> level = MULTI_THREADED) g (sb\<lparr>sb_proc_fd := -1\<rparr>) = (post, Inr (sb', g'))"
    by (rule StartSandbox_InrE)
  then have "sb_has_started sb'" by (rule InstallFilter_InrE) simp
  then show ?thesis by (simp add: StartSandbox_def log_lift_def)
qed

lemma StartSandbox_once_witness:
  "\<exists>log b sb' g' msg. StartSandbox True example_kernel SINGLE_THREADED None
       (SandboxBPF (Some example_policy)) = (log, Inr (b, sb', g'))
     \<and> StartSandbox True example_kernel MULTI_THREADED g' sb' = ([], Inl (SandboxDie msg))"
proof (rule example_run)
  fix log b sb' g'
  assume run: "StartSandbox True example_kernel SINGLE_THREADED None (SandboxBPF (Some example_policy))
    = (log, Inr (b, sb', g'))"
  show ?thesis using StartSandbox_once [OF run] run by blast
qed

end
