(* ===== verification/Baseline_Policy.thy ===== *)
theory Baseline_Policy
  imports Param_Restrictions Syscall_Sets Sandbox_Bpf
begin

text \<open>
  The policy all sandboxed processes start from,
  \<^verbatim>\<open>seccomp-bpf-helpers/baseline_policy.cc\<close>, in the build without sanitizers. After the policy
  come its compilation, which succeeds for every errno and process id, and what the compiled
  filter guarantees.
\<close>

subsection \<open>Constants of the C library\<close>

abbreviation (input) MADV_DONTNEED :: int where "MADV_DONTNEED \<equiv> 4"
abbreviation (input) MADV_FREE :: int where "MADV_FREE \<equiv> 8"
abbreviation (input) AF_UNIX :: int where "AF_UNIX \<equiv> 1"
abbreviation (input) SOL_SOCKET :: int where "SOL_SOCKET \<equiv> 1"
abbreviation (input) SO_PEEK_OFF :: int where "SO_PEEK_OFF \<equiv> 42"

subsection \<open>The policy\<close>

definition IsBaselinePolicyAllowed :: "int \<Rightarrow> bool" where
  "IsBaselinePolicyAllowed sysno \<longleftrightarrow>
     IsAllowedAddressSpaceAccess sysno \<or> IsAllowedBasicScheduler sysno \<or> IsAllowedEpoll sysno
   \<or> IsAllowedFileSystemAccessViaFd sysno \<or> IsAllowedFutex sysno \<or> IsAllowedGeneralIo sysno
   \<or> IsAllowedGetOrModifySocket sysno \<or> IsAllowedGettime sysno
   \<or> IsAllowedProcessStartOrDeath sysno \<or> IsAllowedSignalHandling sysno \<or> IsGetSimpleId sysno
   \<or> IsKernelInternalApi sysno \<or> IsAllowedOperationOnFd sysno"

definition IsBaselinePolicyWatched :: "int \<Rightarrow> bool" where
  "IsBaselinePolicyWatched sysno \<longleftrightarrow>
     IsAdminOperation sysno \<or> IsAdvancedScheduler sysno \<or> IsAdvancedTimer sysno
   \<or> IsAsyncIo sysno \<or> IsDebug sysno \<or> IsEventFd sysno \<or> IsExtendedAttributes sysno
   \<or> IsFaNotify sysno \<or> IsFsControl sysno \<or> IsGlobalFSViewChange sysno
   \<or> IsGlobalProcessEnvironment sysno \<or> IsGlobalSystemStatus sysno \<or> IsInotify sysno
   \<or> IsKernelModule sysno \<or> IsKeyManagement sysno \<or> IsKill sysno \<or> IsMessageQueue sysno
   \<or> IsMisc sysno \<or> IsNetworkSocketInformation sysno \<or> IsNuma sysno \<or> IsPrctl sysno
   \<or> IsProcessGroupOrSession sysno \<or> IsTimer sysno"

definition RestrictMadvise :: "abort + result_expr" where
  "RestrictMadvise =
     (let advice = Arg 4 2
      in Else (bpf_If (AnyOf [arg_eq advice MADV_DONTNEED, arg_eq advice MADV_FREE]) Allow) (Error EPERM))"

definition RestrictSocketpair :: "abort + result_expr" where
  "RestrictSocketpair =
     (let domain = Arg 4 0 in Else (bpf_If (arg_eq domain AF_UNIX) Allow) CrashSIGSYS)"

definition RestrictSockopt :: "abort + result_expr" where
  "RestrictSockopt =
     (let level = Arg 4 1; optname = Arg 4 2
      in Else (bpf_If (AllOf [arg_eq level SOL_SOCKET, arg_eq optname SO_PEEK_OFF]) Allow) CrashSIGSYS)"

definition EvaluateSyscallImpl :: "int \<Rightarrow> int \<Rightarrow> int \<Rightarrow> abort + result_expr" where
  "EvaluateSyscallImpl fs_denied_errno current_pid sysno =
     (if IsBaselinePolicyAllowed sysno then Allow
      else if sysno = NR_clock_gettime then RestrictClockID
      else if sysno = NR_clone then RestrictCloneToThreadsAndEPERMFork
      else if sysno = NR_fcntl then RestrictFcntlCommands
      else if sysno = NR_fork then Error EPERM
      else if sysno = NR_futex then RestrictFutex
      else if sysno = NR_set_robust_list then Error EPERM
      else if sysno = NR_getpriority \<or> sysno = NR_setpriority then RestrictGetSetpriority current_pid
      else if sysno = NR_getrandom then RestrictGetRandom
      else if sysno = NR_madvise then RestrictMadvise
      else if sysno = NR_mmap then RestrictMmapFlags
      else if sysno = NR_mprotect then RestrictMprotectFlags
      else if sysno = NR_prctl then RestrictPrctl
      else if sysno = NR_socketpair then RestrictSocketpair
      else if IsKill sysno then RestrictKillTarget current_pid sysno
      else if IsFileSystem sysno \<or> IsCurrentDirectory sysno then Error fs_denied_errno
      else if IsSeccomp sysno then Error EPERM
      else if IsAnySystemV sysno then Error EPERM
      else if IsUmask sysno \<or> IsDeniedFileSystemAccessViaFd sysno \<or> IsDeniedGetOrModifySocket sysno
              \<or> IsProcessPrivilegeChange sysno then Error EPERM
      else if sysno = NR_getsockopt \<or> sysno = NR_setsockopt then RestrictSockopt
      else if IsBaselinePolicyWatched sysno then CrashSIGSYS
      else CrashSIGSYS)"

record baseline_policy =
  bp_fs_denied_errno :: int
  bp_policy_pid :: int

text \<open>The constructors; \<open>pid\<close> is what \<open>sys_getpid\<close> returns.\<close>

definition BaselinePolicy :: "int \<Rightarrow> int \<Rightarrow> baseline_policy" where
  "BaselinePolicy fs_denied_errno pid = \<lparr>bp_fs_denied_errno = fs_denied_errno, bp_policy_pid = pid\<rparr>"

definition BaselinePolicy_default :: "int \<Rightarrow> baseline_policy" where
  "BaselinePolicy_default pid = BaselinePolicy EPERM pid"

definition BaselinePolicy_EvaluateSyscall :: "baseline_policy \<Rightarrow> int \<Rightarrow> abort + result_expr" where
  "BaselinePolicy_EvaluateSyscall p sysno = EvaluateSyscallImpl (bp_fs_denied_errno p) (bp_policy_pid p) sysno"

definition BaselinePolicy_InvalidSyscall :: "baseline_policy \<Rightarrow> abort + result_expr" where
  "BaselinePolicy_InvalidSyscall p = CrashSIGSYS"

text \<open>The \<open>Policy\<close> object the compiler sees.\<close>

definition baseline :: "baseline_policy \<Rightarrow> policy" where
  "baseline p = \<lparr>EvaluateSyscall = BaselinePolicy_EvaluateSyscall p,
     InvalidSyscall = BaselinePolicy_InvalidSyscall p\<rparr>"

subsection \<open>The results it can give\<close>

definition baseline_results :: "baseline_policy \<Rightarrow> (abort + result_expr) list" where
  "baseline_results p =
     [Allow, Error EPERM, Error (bp_fs_denied_errno p), CrashSIGSYS, CrashSIGSYSKill,
      RestrictKillTarget (bp_policy_pid p) NR_kill, RestrictClockID,
      RestrictCloneToThreadsAndEPERMFork, RestrictFcntlCommands, RestrictFutex,
      RestrictGetSetpriority (bp_policy_pid p), RestrictGetRandom, RestrictMadvise,
      RestrictMmapFlags, RestrictMprotectFlags, RestrictPrctl, RestrictSocketpair, RestrictSockopt]"

lemma if_in: "x \<in> S \<Longrightarrow> y \<in> S \<Longrightarrow> (if b then x else y) \<in> S"
  by simp

lemma RestrictKillTarget_in:
  "RestrictKillTarget pid n \<in> {RestrictKillTarget pid NR_kill, CrashSIGSYSKill, CrashSIGSYS}"
  by (auto simp: RestrictKillTarget_def)

lemma baseline_results_complete: "BaselinePolicy_EvaluateSyscall p n \<in> set (baseline_results p)"
proof -
  have "RestrictKillTarget (bp_policy_pid p) n \<in> set (baseline_results p)"
    using RestrictKillTarget_in [of "bp_policy_pid p" n] by (auto simp: baseline_results_def)
  then show ?thesis
    unfolding BaselinePolicy_EvaluateSyscall_def EvaluateSyscallImpl_def
    by (intro if_in) (simp_all add: baseline_results_def)
qed

definition builds_to :: "abort + result_expr \<Rightarrow> nat \<Rightarrow> bool" where
  "builds_to x k \<longleftrightarrow> (\<exists>r. x = Inr r \<and> result_ok r \<and> result_cost r = k)"

lemmas restrict_defs = RestrictClockID_def RestrictCloneToThreadsAndEPERMFork_def
  RestrictFcntlCommands_def RestrictFutex_def RestrictGetSetpriority_def RestrictGetRandom_def
  RestrictMadvise_def RestrictMmapFlags_def RestrictMprotectFlags_def RestrictPrctl_def
  RestrictSocketpair_def RestrictSockopt_def RestrictKillTarget_def

lemma drop_bit_ucast32: "drop_bit 32 (ucast (x :: u32) :: u64) = 0"
  by (rule bit_word_eqI) (auto simp: bit_simps dest: bit_imp_le_length)

lemma ucast32_and: "(ucast (x :: u32) :: u64) AND 0xFFFFFFFF = ucast x"
proof -
  have m: "(0xFFFFFFFF :: u64) = mask 32" by (simp add: mask_eq_exp_minus_1)
  show ?thesis
    unfolding m by (rule bit_word_eqI) (auto simp: bit_simps dest: bit_imp_le_length)
qed

lemma builds_to_Inr: "builds_to (Inr r) k \<longleftrightarrow> result_ok r \<and> result_cost r = k"
  by (simp add: builds_to_def)

lemmas build_simps = builds_to_Inr dsl_defs crash_defs check_def Let_def drop_bit_ucast32 ucast32_and
  kGlibcPthreadFlags_def mmap_kAllowedMask_def mprotect_kAllowedMask_def fcntl_kAllowedMask_def
  kOLargeFileFlag_def kAllowedFutexFlags_def kGoodFlags_def

lemma restrictions_build:
  "builds_to (RestrictKillTarget pid NR_kill) 11" "builds_to RestrictClockID 56"
  "builds_to RestrictCloneToThreadsAndEPERMFork 15" "builds_to RestrictFcntlCommands 91"
  "builds_to RestrictFutex 65" "builds_to (RestrictGetSetpriority pid) 30"
  "builds_to RestrictGetRandom 11" "builds_to RestrictMadvise 20" "builds_to RestrictMmapFlags 11"
  "builds_to RestrictMprotectFlags 11" "builds_to RestrictPrctl 38" "builds_to RestrictSocketpair 11"
  "builds_to RestrictSockopt 20"
  by (simp_all add: restrict_defs build_simps)

lemma replies_build:
  "builds_to Allow 1" "builds_to CrashSIGSYS 1" "builds_to CrashSIGSYSKill 1"
  "0 \<le> err \<Longrightarrow> err \<le> 4095 \<Longrightarrow> builds_to (Error err) 1"
  by (simp_all add: build_simps)

definition baseline_costs :: "nat list" where
  "baseline_costs = [1, 1, 1, 1, 1, 11, 56, 15, 91, 65, 30, 11, 20, 11, 11, 38, 11, 20]"

lemma baseline_results_build:
  assumes "0 \<le> bp_fs_denied_errno p" and "bp_fs_denied_errno p \<le> 4095"
  shows "list_all2 builds_to (baseline_results p) baseline_costs"
  unfolding baseline_results_def baseline_costs_def
  by (intro list.rel_intros restrictions_build replies_build assms) simp_all


subsection \<open>The policy fits a filter\<close>

definition results_of :: "(abort + result_expr) list \<Rightarrow> result_expr set" where
  "results_of xs = {r. Inr r \<in> set xs}"

lemma results_of_cost:
  "list_all2 builds_to xs ks \<Longrightarrow> finite (results_of xs) \<and> (\<forall>r \<in> results_of xs. result_ok r)
     \<and> sum result_cost (results_of xs) \<le> sum_list ks"
proof (induction rule: list_all2_induct)
  case (Cons x xs k ks)
  then obtain r where r: "x = Inr r" "result_ok r" "result_cost r = k" by (auto simp: builds_to_def)
  have "results_of (x # xs) = insert r (results_of xs)" by (auto simp: results_of_def r)
  with Cons r show ?case by (auto simp: sum.insert_if)
qed (simp add: results_of_def)

text \<open>No predicate of \<open>Syscall_Sets\<close> holds of a number past the last system call.\<close>

lemma switch_bool_beyond:
  assumes "cs \<in> set syscall_set_cases" and "319 < n"
  shows "\<not> switch_bool cs n"
proof
  assume "switch_bool cs n"
  then have "n \<in> set syscall_set_labels"
    using switch_bool_labels assms(1) unfolding syscall_set_labels_def by fastforce
  then show False using assms(2) syscall_set_labels_bound by (auto simp: list_all_iff)
qed

lemma syscall_sets_beyond:
  assumes "P \<in> set syscall_set_predicates" and "319 < n"
  shows "\<not> P n"
  using assms switch_bool_beyond unfolding syscall_set_predicates_cases by auto

lemma baseline_beyond:
  assumes "319 < n"
  shows "BaselinePolicy_EvaluateSyscall p n = CrashSIGSYS"
proof -
  have sets: "\<not> P n" if "P \<in> set syscall_set_predicates" for P
    using that assms by (rule syscall_sets_beyond)
  have no: "\<not> IsBaselinePolicyAllowed n" "\<not> IsAnySystemV n" "\<not> IsKill n" "\<not> IsFileSystem n"
    "\<not> IsCurrentDirectory n" "\<not> IsSeccomp n" "\<not> IsUmask n" "\<not> IsDeniedFileSystemAccessViaFd n"
    "\<not> IsDeniedGetOrModifySocket n" "\<not> IsProcessPrivilegeChange n"
    unfolding IsBaselinePolicyAllowed_def IsAnySystemV_def
    by (simp_all add: sets syscall_set_predicates_def)
  show ?thesis
    using assms by (simp add: BaselinePolicy_EvaluateSyscall_def EvaluateSyscallImpl_def no)
qed

lemma changes_tail:
  assumes "\<forall>y \<in> set ys. y = z"
  shows "changes x (xs @ ys) \<le> length xs + 1"
  using assms
proof (induction xs arbitrary: x)
  case Nil
  then show ?case
    using changes_same [of "tl ys" z "[]"] by (cases ys) auto
next
  case (Cons a xs)
  then show ?case using Cons.IH [of a] by (auto intro: le_SucI)
qed

lemma sint_of_nat_small: "n < 2 ^ 31 \<Longrightarrow> sint (of_nat n :: u32) = int n"
  by (simp add: signed_of_nat signed_take_bit_int_eq_self)

lemma split_calls: "[0..<1025] = [0..<320] @ [320..<1025]"
proof -
  have "(1025 :: nat) = 320 + 705" by simp
  then show ?thesis by (simp only:) (rule upt_add_eq_append, simp)
qed

definition baseline_calls :: nat where
  "baseline_calls = sum_list baseline_costs + 321 + 6"


lemma elements_beyond:
  obtains xs where "elements Set_ALL = map of_nat [0..<320] @ xs"
    and "\<forall>y \<in> set xs. \<not> IsValid y \<or> 319 < sint y"
proof
  show "elements Set_ALL = map of_nat [0..<320]
      @ (map of_nat [320..<1025] @ [1025, 0x7FFFFFFF, 0x80000000, 0xFFFFFFFF])"
    by (simp only: elements_all split_calls map_append append_assoc)
  have "319 < sint y" if mem: "y \<in> set (map of_nat [320..<1025])" for y :: u32
  proof -
    obtain m where "y = of_nat m" "320 \<le> m" "m < 1025" using mem unfolding set_map set_upt image_iff atLeastLessThan_iff Bex_def by blast
    then show ?thesis by (simp add: sint_of_nat_small)
  qed
  moreover have "\<forall>y \<in> set [1025, 0x7FFFFFFF, 0x80000000, 0xFFFFFFFF]. \<not> IsValid y"
    by (simp add: IsValid_iff)
  ultimately show "\<forall>y \<in> set (map of_nat [320..<1025] @ [1025, 0x7FFFFFFF, 0x80000000, 0xFFFFFFFF]).
      \<not> IsValid y \<or> 319 < sint y"
    unfolding set_append by blast
qed

lemma baseline_fits:
  assumes "0 \<le> bp_fs_denied_errno p" and "bp_fs_denied_errno p \<le> 4095"
  shows "policy_fits (baseline p) (results_of (baseline_results p)) baseline_calls"
proof -
  let ?E = "results_of (baseline_results p)"
  note all = results_of_cost [OF baseline_results_build [OF assms]]
  have inv: "InvalidSyscall (baseline p) = CrashSIGSYS"
    by (simp add: baseline_def BaselinePolicy_InvalidSyscall_def)
  have ev: "EvaluateSyscall (baseline p) = BaselinePolicy_EvaluateSyscall p"
    by (simp add: baseline_def)
  have mem: "expr_of (baseline p) n \<in> set (baseline_results p)" for n
    unfolding expr_of_def inv ev
    by (intro if_in baseline_results_complete) (simp add: baseline_results_def)
  have "list_all (\<lambda>x. \<exists>r. x = Inr r) (baseline_results p)"
    using baseline_results_build [OF assms]
    by (auto simp: list_all2_conv_all_nth list_all_length builds_to_def)
  then have ex: "\<exists>e \<in> ?E. expr_of (baseline p) n = Inr e" for n
    using mem [of n] by (auto simp: results_of_def list_all_iff)
  obtain xs where el: "elements Set_ALL = map of_nat [0..<320] @ xs"
    and xs: "\<forall>y \<in> set xs. \<not> IsValid y \<or> 319 < sint y" by (rule elements_beyond)
  have "\<forall>y \<in> set (map (expr_of (baseline p)) xs). y = CrashSIGSYS"
    using xs baseline_beyond unfolding expr_of_def inv ev by auto
  from changes_tail [OF this] have
    "changes (expr_of (baseline p) 0) (map (expr_of (baseline p)) (elements Set_ALL)) \<le> length [0 :: nat..<320] + 1"
    unfolding el map_append by (metis length_map)
  then have "changes (expr_of (baseline p) 0) (map (expr_of (baseline p)) (elements Set_ALL)) \<le> 321"
    unfolding length_upt by linarith
  then have cost: "sum result_cost ?E + changes (expr_of (baseline p) 0) (map (expr_of (baseline p)) (elements Set_ALL)) + 6
      \<le> baseline_calls"
    using all unfolding baseline_calls_def by linarith
  have "IsDeny e" if "InvalidSyscall (baseline p) = Inr e" for e
    using that inv by (auto simp: crash_defs dsl_defs)
  then show ?thesis
    using all ex cost unfolding policy_fits_def by (simp add: baseline_calls_def baseline_costs_def)
qed


subsection \<open>The compiled baseline filter\<close>

lemma crash_wf:
  "wf_lift CrashSIGSYS" "wf_lift CrashSIGSYSKill" "wf_lift CrashSIGSYSPrctl"
  "wf_lift CrashSIGSYSClone" "wf_lift CrashSIGSYSFutex"
  by (simp_all add: crash_defs wf_dsl)

lemmas wf_intros = wf_If wf_ElseIf wf_Else wf_Switch wf_CasesImpl wf_Case wf_Default wf_Allow wf_Error crash_wf

lemma restrictions_wf:
  "wf_lift (RestrictKillTarget pid NR_kill)" "wf_lift RestrictClockID"
  "wf_lift RestrictCloneToThreadsAndEPERMFork" "wf_lift RestrictFcntlCommands"
  "wf_lift RestrictFutex" "wf_lift (RestrictGetSetpriority pid)"
  "wf_lift RestrictGetRandom" "wf_lift RestrictMadvise" "wf_lift RestrictMmapFlags"
  "wf_lift RestrictMprotectFlags" "wf_lift RestrictPrctl" "wf_lift RestrictSocketpair"
  "wf_lift RestrictSockopt"
  unfolding restrict_defs Let_def by (simp_all only: simp_thms if_True if_False) (intro wf_intros)+

lemma baseline_wf: "wf_policy (baseline p)"
proof -
  have "list_all wf_lift (baseline_results p)"
    by (simp add: baseline_results_def restrictions_wf crash_wf wf_Allow wf_Error)
  then have "wf_lift x" if "x \<in> set (baseline_results p)" for x
    using that by (simp add: list_all_iff)
  then show ?thesis
    using baseline_results_complete crash_wf(1)
    by (simp add: wf_policy_def baseline_def BaselinePolicy_InvalidSyscall_def)
qed

text \<open>
  What the value a filter returns stands for: itself, or a trap id under which the process's
  registry has the handler.
\<close>

fun answers :: "trap option \<Rightarrow> outcome \<Rightarrow> u32 \<Rightarrow> bool" where
  "answers g (OReturn r) v \<longleftrightarrow> v = r"
| "answers g (OTrap f a s) v \<longleftrightarrow>
     (\<exists>i. v = SECCOMP_RET_TRAP + ucast i \<and> trap_handler (registry_of g) i = Some (f, a, s))"

lemma returns_answers: "returns c oc v \<longleftrightarrow> answers (Some (pc_registry c)) oc v"
  by (cases oc) (simp_all add: registry_of_def)

text \<open>System call \<open>n\<close> with the given arguments, made from the instruction at \<open>ip\<close>.\<close>

definition syscall_data :: "int \<Rightarrow> u64 \<Rightarrow> u64 list \<Rightarrow> arch_seccomp_data" where
  "syscall_data n ip args =
     \<lparr>sd_nr = of_int n, sd_arch = SECCOMP_ARCH, sd_instruction_pointer = ip, sd_args = args\<rparr>"

definition ill_formed_int :: outcome where
  "ill_formed_int = OTrap SandboxPanicTrap (CString ''Unexpected 64bit argument detected'') True"

definition baseline_filter :: "kernel \<Rightarrow> baseline_policy \<Rightarrow> trap option \<Rightarrow> sock_filter list \<Rightarrow> trap option \<Rightarrow> bool" where
  "baseline_filter k p g prog g' \<longleftrightarrow>
     AssembleFilter k (baseline p) g = Inr (prog, g') \<and> global_trap_ok g
   \<and> 0 \<le> bp_fs_denied_errno p \<and> bp_fs_denied_errno p \<le> 4095"

lemma small_nr:
  assumes "0 \<le> n" and "n \<le> 1024"
  shows "sint (of_int n :: u32) = n" and "IsValid (of_int n)" and "(of_int n :: u32) AND 0x40000000 = 0"
proof -
  obtain m where m: "n = int m" "m \<le> 1024" using assms by (metis nonneg_int_cases of_nat_le_iff of_nat_numeral)
  show "sint (of_int n :: u32) = n" using m sint_of_nat_small [of m] by simp
  have u: "unat (of_nat m :: u32) = m" using m by (intro unat_of_nat_small) simp
  then show "IsValid (of_int n)" using m by (simp add: IsValid_iff word_le_nat_alt)
  have p: "(0x40000000 :: u32) = 2 ^ 30" by simp
  have "\<not> bit (unat (of_nat m :: u32)) 30" unfolding u using m by (simp add: bit_iff_odd)
  then have "\<not> bit (of_nat m :: u32) 30" by (simp add: bit_unsigned_iff)
  then show "(of_int n :: u32) AND 0x40000000 = 0"
    unfolding p and_exp_eq_0_iff_not_bit m(1) by simp
qed

lemma baseline_filter_decides:
  assumes f: "baseline_filter k p g prog g'" and n: "0 \<le> n" "n \<le> 1024" and args: "length args = 6"
    and dec: "decides (BaselinePolicy_EvaluateSyscall p n) (syscall_data n ip args) oc"
  shows "\<exists>v. EvaluateBPF prog (syscall_data n ip args) = Some (Inr v)
    \<and> answers g' (case oc of Some out \<Rightarrow> out | None \<Rightarrow> ill_formed_int) v"
proof -
  let ?d = "syscall_data n ip args"
  obtain c c' where c: "compiler_for (baseline p) (registry_of g) (escape_pc k) SandboxPanic = Inr c"
    "compiler_Compile (Trap_ops (k_debugging_env k)) c = Inr (prog, c')" "g' = Some (pc_registry c')"
    and inv: "trap_invar (registry_of g)"
    using f unfolding baseline_filter_def AssembleFilter_iff global_trap_ok_def by blast
  have wf: "wf_seccomp_data ?d" using args by (simp add: wf_seccomp_data_def syscall_data_def)
  note C = compiler_for_ok [OF c(1) inv baseline_wf SandboxPanic_wf]
  have safe: "\<not> pc_has_unsafe_traps c"
    using fits_safe [OF baseline_fits] f C(6) by (auto simp: baseline_filter_def)
  obtain r where r: "BaselinePolicy_EvaluateSyscall p n = Inr r" "eval_result ?d r = oc"
    using dec by (auto simp: decides_def)
  have act: "actual_outcome False oc = oc" for oc by (cases oc) simp_all
  have "filter_outcome c ?d = (case oc of Some out \<Rightarrow> out | None \<Rightarrow> ill_formed_int)"
    using r safe by (simp add: filter_outcome_def syscall_data_def small_nr [OF n] syscall_outcome_def C
        result_outcome_def unexpected_outcome_def SandboxPanic_def Trap_def ill_formed_int_def act
        baseline_def split: option.splits)
  then show ?thesis
    using compiled_filter_decides [OF c(1) inv baseline_wf SandboxPanic_wf c(2) wf] c(3)
    by (auto simp: returns_answers)
qed


subsection \<open>What it allows\<close>

definition filter_allows :: "sock_filter list \<Rightarrow> arch_seccomp_data \<Rightarrow> bool" where
  "filter_allows prog d \<longleftrightarrow> EvaluateBPF prog d = Some (Inr SECCOMP_RET_ALLOW)"

lemma trap_not_allow: "SECCOMP_RET_TRAP + ucast (i :: u16) \<noteq> SECCOMP_RET_ALLOW"
proof
  assume "SECCOMP_RET_TRAP + ucast i = SECCOMP_RET_ALLOW"
  then have "(SECCOMP_RET_TRAP + ucast i) AND SECCOMP_RET_ACTION = SECCOMP_RET_ALLOW AND SECCOMP_RET_ACTION"
    by (rule arg_cong)
  then show False by (simp add: action_plus low16_ucast)
qed

lemma answers_allow: "answers g oc v \<Longrightarrow> v = SECCOMP_RET_ALLOW \<longleftrightarrow> oc = OAllow"
  using trap_not_allow by (cases oc) (auto simp: OAllow_def)

lemma baseline_filter_allows:
  assumes f: "baseline_filter k p g prog g'" and n: "0 \<le> n" "n \<le> 1024" and args: "length args = 6"
    and dec: "decides (BaselinePolicy_EvaluateSyscall p n) (syscall_data n ip args) oc"
  shows "filter_allows prog (syscall_data n ip args) \<longleftrightarrow> oc = Some OAllow"
proof -
  obtain v where v: "EvaluateBPF prog (syscall_data n ip args) = Some (Inr v)"
    "answers g' (case oc of Some out \<Rightarrow> out | None \<Rightarrow> ill_formed_int) v"
    using baseline_filter_decides [OF assms] by blast
  show ?thesis
    using answers_allow [OF v(2)] v(1)
    by (auto simp: filter_allows_def ill_formed_int_def OAllow_def split: option.splits)
qed

lemma on_int_arg_allow:
  "on_int_arg d i f = Some OAllow \<longleftrightarrow> valid_32bit (sd_args d ! i) \<and> f (lo32 (sd_args d ! i)) = Some OAllow"
  by (simp add: on_int_arg_def)

lemma not_allow [simp]: "OErrno EPERM \<noteq> OAllow" "OErrno EINVAL \<noteq> OAllow" "OCrash f \<noteq> OAllow"
  by (simp_all add: OErrno_def OAllow_def OCrash_def)

lemma baseline_calls_restricted:
  "BaselinePolicy_EvaluateSyscall p NR_kill = RestrictKillTarget (bp_policy_pid p) NR_kill"
  "BaselinePolicy_EvaluateSyscall p NR_tgkill = RestrictKillTarget (bp_policy_pid p) NR_tgkill"
  "BaselinePolicy_EvaluateSyscall p NR_tkill = RestrictKillTarget (bp_policy_pid p) NR_tkill"
  "BaselinePolicy_EvaluateSyscall p NR_clone = RestrictCloneToThreadsAndEPERMFork"
  "BaselinePolicy_EvaluateSyscall p NR_fork = Error EPERM"
  "BaselinePolicy_EvaluateSyscall p NR_getpriority = RestrictGetSetpriority (bp_policy_pid p)"
  "BaselinePolicy_EvaluateSyscall p NR_setpriority = RestrictGetSetpriority (bp_policy_pid p)"
  "BaselinePolicy_EvaluateSyscall p NR_mmap = RestrictMmapFlags"
  "BaselinePolicy_EvaluateSyscall p NR_mprotect = RestrictMprotectFlags"
  "BaselinePolicy_EvaluateSyscall p NR_madvise = RestrictMadvise"
  "BaselinePolicy_EvaluateSyscall p NR_fcntl = RestrictFcntlCommands"
  "BaselinePolicy_EvaluateSyscall p NR_futex = RestrictFutex"
  "BaselinePolicy_EvaluateSyscall p NR_prctl = RestrictPrctl"
  "BaselinePolicy_EvaluateSyscall p NR_socketpair = RestrictSocketpair"
  "BaselinePolicy_EvaluateSyscall p NR_getsockopt = RestrictSockopt"
  "BaselinePolicy_EvaluateSyscall p NR_setsockopt = RestrictSockopt"
  "BaselinePolicy_EvaluateSyscall p NR_clock_gettime = RestrictClockID"
  "BaselinePolicy_EvaluateSyscall p NR_getrandom = RestrictGetRandom"
  by (simp_all add: BaselinePolicy_EvaluateSyscall_def EvaluateSyscallImpl_def IsBaselinePolicyAllowed_def
      syscall_set_defs syscall_set_cases_defs)

lemma baseline_calls_denied:
  "BaselinePolicy_EvaluateSyscall p NR_vfork = CrashSIGSYS"
  by (simp_all add: BaselinePolicy_EvaluateSyscall_def EvaluateSyscallImpl_def IsBaselinePolicyAllowed_def
      IsAnySystemV_def syscall_set_defs syscall_set_cases_defs)

lemma inline_restrictions_decide:
  "decides RestrictMadvise d (on_int_arg d 2 (\<lambda>advice.
     Some (if advice \<in> {4, 8} then OAllow else OErrno EPERM)))"
  "decides RestrictSocketpair d (on_int_arg d 0 (\<lambda>domain.
     Some (if domain = 1 then OAllow else OCrash CrashSIGSYS_Handler)))"
  "decides RestrictSockopt d (on_int_arg d 1 (\<lambda>level.
     if level = 1 then on_int_arg d 2 (\<lambda>optname.
       Some (if optname = 42 then OAllow else OCrash CrashSIGSYS_Handler))
     else Some (OCrash CrashSIGSYS_Handler)))"
  by (simp_all add: RestrictMadvise_def RestrictSocketpair_def RestrictSockopt_def decide_simps)

lemma replies_decide:
  "0 \<le> err \<Longrightarrow> err \<le> 4095 \<Longrightarrow> decides (Error err) d (Some (OErrno err))"
  "decides CrashSIGSYS d (Some (OCrash CrashSIGSYS_Handler))"
  "decides Allow d (Some OAllow)"
  by (simp_all add: decide_simps)

text \<open>The condition under which a baseline filter allows one call, from what the policy decides.\<close>

lemma baseline_allows_call:
  assumes "baseline_filter k p g prog g'" and "length args = 6" and "0 \<le> n" and "n \<le> 1024"
    and "BaselinePolicy_EvaluateSyscall p n = x" and "decides x (syscall_data n ip args) oc"
  shows "filter_allows prog (syscall_data n ip args) \<longleftrightarrow> oc = Some OAllow"
  using baseline_filter_allows [OF assms(1,3,4,2)] assms(5,6) by simp

lemmas baseline_allow_simps = on_int_arg_allow syscall_data_def

text \<open>
  C27: Under the baseline policy a process reaches no other process and makes no new one: \<open>kill\<close> and
  \<open>tgkill\<close> are allowed exactly for its own process id, \<open>tkill\<close>, \<open>fork\<close> and \<open>vfork\<close> never, \<open>clone\<close>
  exactly with the flags of \<open>pthread_create\<close>, and priorities are its own.
\<close>

theorem baseline_confines_processes:
  assumes "baseline_filter k p g prog g'" and "length args = 6"
  shows "(filter_allows prog (syscall_data NR_kill ip args) \<longleftrightarrow>
        valid_32bit (args ! 0) \<and> lo32 (args ! 0) = of_int (bp_policy_pid p))
    \<and> (filter_allows prog (syscall_data NR_tgkill ip args) \<longleftrightarrow>
        valid_32bit (args ! 0) \<and> lo32 (args ! 0) = of_int (bp_policy_pid p))
    \<and> \<not> filter_allows prog (syscall_data NR_tkill ip args)
    \<and> \<not> filter_allows prog (syscall_data NR_fork ip args)
    \<and> \<not> filter_allows prog (syscall_data NR_vfork ip args)
    \<and> (filter_allows prog (syscall_data NR_clone ip args) \<longleftrightarrow> args ! 0 = kGlibcPthreadFlags)
    \<and> (filter_allows prog (syscall_data NR_setpriority ip args) \<longleftrightarrow>
        valid_32bit (args ! 0) \<and> lo32 (args ! 0) = 0
        \<and> valid_32bit (args ! 1) \<and> lo32 (args ! 1) \<in> {0, of_int (bp_policy_pid p)})"
proof (intro conjI)
  note allows = baseline_allows_call [OF assms]
  note ev = baseline_calls_restricted [of p]
  show "filter_allows prog (syscall_data NR_kill ip args) \<longleftrightarrow>
      valid_32bit (args ! 0) \<and> lo32 (args ! 0) = of_int (bp_policy_pid p)"
    by (subst allows [OF _ _ ev(1) RestrictKillTarget_decides(1)]) (simp_all add: baseline_allow_simps)
  show "filter_allows prog (syscall_data NR_tgkill ip args) \<longleftrightarrow>
      valid_32bit (args ! 0) \<and> lo32 (args ! 0) = of_int (bp_policy_pid p)"
    by (subst allows [OF _ _ ev(2) RestrictKillTarget_decides(1)]) (simp_all add: baseline_allow_simps)
  show "\<not> filter_allows prog (syscall_data NR_tkill ip args)"
    by (subst allows [OF _ _ ev(3) RestrictKillTarget_decides(2)]) simp_all
  show "\<not> filter_allows prog (syscall_data NR_fork ip args)"
    by (subst allows [OF _ _ ev(5) replies_decide(1)]) simp_all
  show "\<not> filter_allows prog (syscall_data NR_vfork ip args)"
    by (subst allows [OF _ _ baseline_calls_denied(1) replies_decide(2)]) simp_all
  show "filter_allows prog (syscall_data NR_clone ip args) \<longleftrightarrow> args ! 0 = kGlibcPthreadFlags"
    by (subst allows [OF _ _ ev(4) RestrictClone_decides]) (simp_all add: syscall_data_def)
  show "filter_allows prog (syscall_data NR_setpriority ip args) \<longleftrightarrow>
        valid_32bit (args ! 0) \<and> lo32 (args ! 0) = 0
        \<and> valid_32bit (args ! 1) \<and> lo32 (args ! 1) \<in> {0, of_int (bp_policy_pid p)}"
    by (subst allows [OF _ _ ev(7) RestrictGetSetpriority_decides]) (simp_all add: baseline_allow_simps)
qed

text \<open>The witness's filter: the baseline policy of process 42, compiled on the example kernel.\<close>

lemma baseline_filter_exists:
  assumes "0 \<le> err" and "err \<le> 4095"
  obtains prog g' where "baseline_filter example_kernel (BaselinePolicy err pid) None prog g'"
proof -
  have p: "0 \<le> bp_fs_denied_errno (BaselinePolicy err pid)" "bp_fs_denied_errno (BaselinePolicy err pid) \<le> 4095"
    using assms by (simp_all add: BaselinePolicy_def)
  have "trap_array_size (registry_of None) + baseline_calls \<le> 65535"
    by (simp add: registry_of_def Trap_init_def baseline_calls_def baseline_costs_def)
  from AssembleFilter_ok [OF baseline_fits [OF p] global_trap_ok_None this, of example_kernel] p that
  show thesis by (auto simp: baseline_filter_def example_kernel_def)
qed

theorem baseline_confines_processes_witness:
  "\<exists>prog. filter_allows prog (syscall_data NR_kill 0 [42, 9, 0, 0, 0, 0])
     \<and> \<not> filter_allows prog (syscall_data NR_kill 0 [1, 9, 0, 0, 0, 0])"
proof -
  obtain prog g' where f: "baseline_filter example_kernel (BaselinePolicy 1 42) None prog g'"
    by (rule baseline_filter_exists [of 1 42]) simp_all
  show ?thesis
    using baseline_confines_processes [OF f, of "[42, 9, 0, 0, 0, 0]" 0]
      baseline_confines_processes [OF f, of "[1, 9, 0, 0, 0, 0]" 0]
    by (intro exI [of _ prog]) (simp add: valid_32bit_def hi32_def BaselinePolicy_def)
qed

text \<open>
  C28: Under the baseline policy memory is mapped, protected and advised with the listed flags only:
  the flags of \<open>mmap\<close>, the protection of \<open>mprotect\<close> and the advice of \<open>madvise\<close> are well-formed
  integers without a bit or value the code does not name.
\<close>

theorem baseline_restricts_memory:
  assumes "baseline_filter k p g prog g'" and "length args = 6"
  shows "(filter_allows prog (syscall_data NR_mmap ip args) \<longleftrightarrow>
        valid_32bit (args ! 3) \<and> lo32 (args ! 3) AND NOT (lo32 mmap_kAllowedMask) = 0)
    \<and> (filter_allows prog (syscall_data NR_mprotect ip args) \<longleftrightarrow>
        valid_32bit (args ! 2) \<and> lo32 (args ! 2) AND NOT (lo32 mprotect_kAllowedMask) = 0)
    \<and> (filter_allows prog (syscall_data NR_madvise ip args) \<longleftrightarrow>
        valid_32bit (args ! 2) \<and> lo32 (args ! 2) \<in> {of_int MADV_DONTNEED, of_int MADV_FREE})"
proof (intro conjI)
  note allows = baseline_allows_call [OF assms]
  note ev = baseline_calls_restricted [of p]
  show "filter_allows prog (syscall_data NR_mmap ip args) \<longleftrightarrow>
      valid_32bit (args ! 3) \<and> lo32 (args ! 3) AND NOT (lo32 mmap_kAllowedMask) = 0"
    by (subst allows [OF _ _ ev(8) RestrictMmapFlags_decides]) (simp_all add: baseline_allow_simps)
  show "filter_allows prog (syscall_data NR_mprotect ip args) \<longleftrightarrow>
      valid_32bit (args ! 2) \<and> lo32 (args ! 2) AND NOT (lo32 mprotect_kAllowedMask) = 0"
    by (subst allows [OF _ _ ev(9) RestrictMprotectFlags_decides]) (simp_all add: baseline_allow_simps)
  show "filter_allows prog (syscall_data NR_madvise ip args) \<longleftrightarrow>
      valid_32bit (args ! 2) \<and> lo32 (args ! 2) \<in> {of_int MADV_DONTNEED, of_int MADV_FREE}"
    by (subst allows [OF _ _ ev(10) inline_restrictions_decide(1)]) (simp_all add: baseline_allow_simps)
qed

theorem baseline_restricts_memory_witness:
  "\<exists>prog. filter_allows prog (syscall_data NR_mprotect 0 [0, 4096, 5, 0, 0, 0])
     \<and> \<not> filter_allows prog (syscall_data NR_mprotect 0 [0, 4096, 8, 0, 0, 0])"
proof -
  obtain prog g' where f: "baseline_filter example_kernel (BaselinePolicy 1 42) None prog g'"
    by (rule baseline_filter_exists [of 1 42]) simp_all
  show ?thesis
    using baseline_restricts_memory [OF f, of "[0, 4096, 5, 0, 0, 0]" 0]
      baseline_restricts_memory [OF f, of "[0, 4096, 8, 0, 0, 0]" 0]
    by (intro exI [of _ prog]) (simp add: valid_32bit_def hi32_def mprotect_kAllowedMask_def)
qed

text \<open>
  The other calls the baseline policy allows for some arguments only: \<open>fcntl\<close> commands and
  the status flags \<open>F_SETFL\<close> may set, \<open>futex\<close> operations, \<open>prctl\<close> options, \<open>socketpair\<close> domains,
  socket options, clocks and the flags of \<open>getrandom\<close>.
\<close>

lemma baseline_restricts_arguments:
  assumes "baseline_filter k p g prog g'" and "length args = 6"
  shows "(filter_allows prog (syscall_data NR_fcntl ip args) \<longleftrightarrow> valid_32bit (args ! 1)
        \<and> (lo32 (args ! 1) \<in> of_int ` {F_GETFL, F_GETFD, F_SETFD, F_SETLK, F_SETLKW, F_GETLK, F_DUPFD, F_DUPFD_CLOEXEC}
           \<or> lo32 (args ! 1) = of_int F_SETFL \<and> args ! 2 AND NOT fcntl_kAllowedMask = 0))
    \<and> (filter_allows prog (syscall_data NR_futex ip args) \<longleftrightarrow> valid_32bit (args ! 1)
        \<and> lo32 (args ! 1) AND NOT (lo32 kAllowedFutexFlags) \<in> {0, 1, 3, 4, 5, 9, 10})
    \<and> (filter_allows prog (syscall_data NR_prctl ip args) \<longleftrightarrow> valid_32bit (args ! 0)
        \<and> lo32 (args ! 0) \<in> of_int ` {PR_GET_NAME, PR_SET_NAME, PR_GET_DUMPABLE, PR_SET_DUMPABLE})
    \<and> (filter_allows prog (syscall_data NR_socketpair ip args) \<longleftrightarrow> valid_32bit (args ! 0)
        \<and> lo32 (args ! 0) = of_int AF_UNIX)
    \<and> (filter_allows prog (syscall_data NR_setsockopt ip args) \<longleftrightarrow> valid_32bit (args ! 1)
        \<and> lo32 (args ! 1) = of_int SOL_SOCKET \<and> valid_32bit (args ! 2) \<and> lo32 (args ! 2) = of_int SO_PEEK_OFF)
    \<and> (filter_allows prog (syscall_data NR_clock_gettime ip args) \<longleftrightarrow> valid_32bit (args ! 0)
        \<and> lo32 (args ! 0) \<in> {0, 1, 2, 3, 5, 6})
    \<and> (filter_allows prog (syscall_data NR_getrandom ip args) \<longleftrightarrow> valid_32bit (args ! 2)
        \<and> lo32 (args ! 2) AND NOT kGoodFlags = 0)"
proof (intro conjI)
  note allows = baseline_allows_call [OF assms]
  note ev = baseline_calls_restricted [of p]
  show "filter_allows prog (syscall_data NR_fcntl ip args) \<longleftrightarrow> valid_32bit (args ! 1)
      \<and> (lo32 (args ! 1) \<in> of_int ` {F_GETFL, F_GETFD, F_SETFD, F_SETLK, F_SETLKW, F_GETLK, F_DUPFD, F_DUPFD_CLOEXEC}
         \<or> lo32 (args ! 1) = of_int F_SETFL \<and> args ! 2 AND NOT fcntl_kAllowedMask = 0)"
    by (subst allows [OF _ _ ev(11) RestrictFcntlCommands_decides]) (auto simp: baseline_allow_simps)
  show "filter_allows prog (syscall_data NR_futex ip args) \<longleftrightarrow> valid_32bit (args ! 1)
      \<and> lo32 (args ! 1) AND NOT (lo32 kAllowedFutexFlags) \<in> {0, 1, 3, 4, 5, 9, 10}"
    by (subst allows [OF _ _ ev(12) RestrictFutex_decides]) (simp_all add: baseline_allow_simps)
  show "filter_allows prog (syscall_data NR_prctl ip args) \<longleftrightarrow> valid_32bit (args ! 0)
      \<and> lo32 (args ! 0) \<in> of_int ` {PR_GET_NAME, PR_SET_NAME, PR_GET_DUMPABLE, PR_SET_DUMPABLE}"
    by (subst allows [OF _ _ ev(13) RestrictPrctl_decides]) (auto simp: baseline_allow_simps)
  show "filter_allows prog (syscall_data NR_socketpair ip args) \<longleftrightarrow> valid_32bit (args ! 0)
      \<and> lo32 (args ! 0) = of_int AF_UNIX"
    by (subst allows [OF _ _ ev(14) inline_restrictions_decide(2)]) (simp_all add: baseline_allow_simps)
  show "filter_allows prog (syscall_data NR_setsockopt ip args) \<longleftrightarrow> valid_32bit (args ! 1)
      \<and> lo32 (args ! 1) = of_int SOL_SOCKET \<and> valid_32bit (args ! 2) \<and> lo32 (args ! 2) = of_int SO_PEEK_OFF"
    by (subst allows [OF _ _ ev(16) inline_restrictions_decide(3)]) (simp_all add: baseline_allow_simps)
  show "filter_allows prog (syscall_data NR_clock_gettime ip args) \<longleftrightarrow> valid_32bit (args ! 0)
      \<and> lo32 (args ! 0) \<in> {0, 1, 2, 3, 5, 6}"
    by (subst allows [OF _ _ ev(17) RestrictClockID_decides]) (simp_all add: baseline_allow_simps)
  show "filter_allows prog (syscall_data NR_getrandom ip args) \<longleftrightarrow> valid_32bit (args ! 2)
      \<and> lo32 (args ! 2) AND NOT kGoodFlags = 0"
    by (subst allows [OF _ _ ev(18) RestrictGetRandom_decides]) (simp_all add: baseline_allow_simps)
qed

lemma baseline_restricts_arguments_witness:
  "\<exists>prog. filter_allows prog (syscall_data NR_socketpair 0 [1, 0, 0, 0, 0, 0])
     \<and> \<not> filter_allows prog (syscall_data NR_socketpair 0 [2, 0, 0, 0, 0, 0])"
proof -
  obtain prog g' where f: "baseline_filter example_kernel (BaselinePolicy 1 42) None prog g'"
    by (rule baseline_filter_exists [of 1 42]) simp_all
  show ?thesis
    using baseline_restricts_arguments [OF f, of "[1, 0, 0, 0, 0, 0]" 0]
      baseline_restricts_arguments [OF f, of "[2, 0, 0, 0, 0, 0]" 0]
    by (intro exI [of _ prog]) (simp add: valid_32bit_def hi32_def)
qed

subsection \<open>What it never allows\<close>

text \<open>The calls with a result that depends on the arguments, and the sets denied as a whole.\<close>

definition baseline_restricted_calls :: "int list" where
  "baseline_restricted_calls =
     [NR_clock_gettime, NR_clone, NR_fcntl, NR_futex, NR_getpriority, NR_setpriority, NR_getrandom,
      NR_madvise, NR_mmap, NR_mprotect, NR_prctl, NR_socketpair, NR_kill, NR_tgkill, NR_getsockopt,
      NR_setsockopt]"

definition baseline_denied_cases :: "switch_cases list" where
  "baseline_denied_cases =
     [IsCurrentDirectory_cases, IsUmask_cases, IsFileSystem_cases, IsDeniedFileSystemAccessViaFd_cases,
      IsProcessPrivilegeChange_cases, IsProcessGroupOrSession_cases, IsDeniedGetOrModifySocket_cases,
      IsSeccomp_cases, IsAdminOperation_cases, IsKernelModule_cases, IsGlobalFSViewChange_cases,
      IsFsControl_cases, IsNuma_cases, IsMessageQueue_cases, IsGlobalProcessEnvironment_cases,
      IsDebug_cases, IsGlobalSystemStatus_cases, IsEventFd_cases, IsAsyncIo_cases,
      IsKeyManagement_cases, IsSystemVSemaphores_cases, IsSystemVSharedMemory_cases,
      IsSystemVMessageQueue_cases, IsAdvancedScheduler_cases, IsInotify_cases, IsFaNotify_cases,
      IsTimer_cases, IsAdvancedTimer_cases, IsExtendedAttributes_cases]"

definition baseline_denied_sets :: "(int \<Rightarrow> bool) list" where
  "baseline_denied_sets =
     [IsCurrentDirectory, IsUmask, IsFileSystem, IsDeniedFileSystemAccessViaFd,
      IsProcessPrivilegeChange, IsProcessGroupOrSession, IsDeniedGetOrModifySocket,
      IsSeccomp, IsAdminOperation, IsKernelModule, IsGlobalFSViewChange,
      IsFsControl, IsNuma, IsMessageQueue, IsGlobalProcessEnvironment,
      IsDebug, IsGlobalSystemStatus, IsEventFd, IsAsyncIo,
      IsKeyManagement, IsSystemVSemaphores, IsSystemVSharedMemory,
      IsSystemVMessageQueue, IsAdvancedScheduler, IsInotify, IsFaNotify,
      IsTimer, IsAdvancedTimer, IsExtendedAttributes]"

lemma baseline_denied_sets_cases: "baseline_denied_sets = map switch_bool baseline_denied_cases"
  by (simp add: baseline_denied_sets_def baseline_denied_cases_def syscall_set_defs fun_eq_iff)

lemma baseline_denied_labels:
  "list_all (\<lambda>n. \<not> IsBaselinePolicyAllowed n \<and> n \<notin> set baseline_restricted_calls \<and> 0 \<le> n \<and> n \<le> 1024)
     (concat (map case_labels baseline_denied_cases))"
  by code_simp

lemma baseline_denied:
  assumes "P \<in> set baseline_denied_sets" and "P n"
  shows "\<not> IsBaselinePolicyAllowed n" and "n \<notin> set baseline_restricted_calls" and "0 \<le> n" and "n \<le> 1024"
proof -
  obtain cs where "cs \<in> set baseline_denied_cases" "switch_bool cs n"
    using assms unfolding baseline_denied_sets_cases by auto
  then have "n \<in> set (concat (map case_labels baseline_denied_cases))"
    using switch_bool_labels by auto
  then show "\<not> IsBaselinePolicyAllowed n" "n \<notin> set baseline_restricted_calls" "0 \<le> n" "n \<le> 1024"
    using baseline_denied_labels unfolding list_all_iff by blast+
qed

lemma baseline_denied_result:
  assumes "\<not> IsBaselinePolicyAllowed n" and "n \<notin> set baseline_restricted_calls"
  shows "BaselinePolicy_EvaluateSyscall p n \<in> {Error EPERM, Error (bp_fs_denied_errno p), CrashSIGSYS, CrashSIGSYSKill}"
  using assms unfolding BaselinePolicy_EvaluateSyscall_def EvaluateSyscallImpl_def baseline_restricted_calls_def
  by (simp add: RestrictKillTarget_def)

lemma errno_action: "0 \<le> err \<Longrightarrow> err \<le> 4095 \<Longrightarrow> (SECCOMP_RET_ERRNO + of_int err) AND SECCOMP_RET_ACTION = SECCOMP_RET_ERRNO"
  using low16_of_nat [of "nat err"] by (simp add: action_plus)

text \<open>
  An answer that refuses a call: the action is an errno, which is \<open>EPERM\<close> or the one for files, or a trap
  whose handler crashes the process.
\<close>

definition refused :: "baseline_policy \<Rightarrow> trap option \<Rightarrow> u32 \<Rightarrow> bool" where
  "refused p g v \<longleftrightarrow>
     v AND SECCOMP_RET_ACTION = SECCOMP_RET_ERRNO
       \<and> (v = SECCOMP_RET_ERRNO + of_int EPERM \<or> v = SECCOMP_RET_ERRNO + of_int (bp_fs_denied_errno p))
   \<or> v AND SECCOMP_RET_ACTION = SECCOMP_RET_TRAP
       \<and> (\<exists>i f. v = SECCOMP_RET_TRAP + ucast i \<and> f \<in> {CrashSIGSYS_Handler, SIGSYSKillFailure}
            \<and> trap_handler (registry_of g) i = Some (f, NULL, True))"

lemma answers_refused:
  assumes "answers g oc v" and "0 \<le> bp_fs_denied_errno p" and "bp_fs_denied_errno p \<le> 4095"
  shows "oc = OCrash f \<Longrightarrow> f \<in> {CrashSIGSYS_Handler, SIGSYSKillFailure} \<Longrightarrow> refused p g v"
    and "oc = OErrno EPERM \<or> oc = OErrno (bp_fs_denied_errno p) \<Longrightarrow> refused p g v"
proof -
  show "refused p g v" if "oc = OCrash f" "f \<in> {CrashSIGSYS_Handler, SIGSYSKillFailure}"
    using assms(1) that by (auto simp: refused_def OCrash_def action_plus low16_ucast)
  show "refused p g v" if "oc = OErrno EPERM \<or> oc = OErrno (bp_fs_denied_errno p)"
    using assms that errno_action [of EPERM] errno_action [of "bp_fs_denied_errno p"] by (auto simp: refused_def OErrno_def)
qed

text \<open>
  C26: What the baseline policy never allows, whatever the arguments: changing the file system, the
  working directory, privileges, process groups, kernel modules, mounts, the clock, debugging,
  key rings, System V objects, asynchronous I/O, timers and the rest of the listed sets. Each such
  call fails with \<open>EPERM\<close> or the errno the policy was given, or is trapped with a handler that crashes the
  process; it is neither let through nor killed by the kernel. The calls on files fail with the errno the
  policy was given.
\<close>

theorem baseline_denies:
  assumes "baseline_filter k p g prog g'" and "length args = 6"
    and "P \<in> set baseline_denied_sets" and "P n"
  shows "\<exists>v. EvaluateBPF prog (syscall_data n ip args) = Some (Inr v) \<and> refused p g' v
    \<and> (IsFileSystem n \<or> IsCurrentDirectory n \<longrightarrow> v = SECCOMP_RET_ERRNO + of_int (bp_fs_denied_errno p))"
proof -
  let ?e = "bp_fs_denied_errno p"
  have e: "0 \<le> ?e" "?e \<le> 4095" using assms(1) by (simp_all add: baseline_filter_def)
  note D = baseline_denied [OF assms(3,4)]
  note dec = baseline_filter_decides [OF assms(1) D(3,4) assms(2)]
  have fs: "BaselinePolicy_EvaluateSyscall p n = Error ?e" if "IsFileSystem n \<or> IsCurrentDirectory n"
  proof -
    have "\<not> IsKill n \<and> n \<notin> {NR_fork, NR_set_robust_list, NR_getsockopt}"
      using that by (auto simp: syscall_set_defs syscall_set_cases_defs)
    then show ?thesis
      using that D(1,2) by (simp add: BaselinePolicy_EvaluateSyscall_def EvaluateSyscallImpl_def
          baseline_restricted_calls_def)
  qed
  have "\<exists>oc. decides (BaselinePolicy_EvaluateSyscall p n) (syscall_data n ip args) (Some oc)
      \<and> ((oc = OErrno EPERM \<or> oc = OErrno ?e) \<or> (\<exists>f \<in> {CrashSIGSYS_Handler, SIGSYSKillFailure}. oc = OCrash f))"
    using baseline_denied_result [OF D(1,2), of p] e
    by (auto simp: decides_def Error_def OErrno_def OCrash_def crash_defs dsl_defs check_def)
  then obtain oc where oc: "decides (BaselinePolicy_EvaluateSyscall p n) (syscall_data n ip args) (Some oc)"
    "(oc = OErrno EPERM \<or> oc = OErrno ?e) \<or> (\<exists>f \<in> {CrashSIGSYS_Handler, SIGSYSKillFailure}. oc = OCrash f)" by blast
  obtain v where v: "EvaluateBPF prog (syscall_data n ip args) = Some (Inr v)" "answers g' oc v"
    using dec [OF oc(1)] by auto
  have "refused p g' v" using oc(2) answers_refused [OF v(2) e] by blast
  moreover have "v = SECCOMP_RET_ERRNO + of_int ?e" if "IsFileSystem n \<or> IsCurrentDirectory n"
  proof -
    have "oc = OErrno ?e"
      using oc(1) e unfolding fs [OF that] by (auto simp: decides_def Error_def OErrno_def)
    then show ?thesis using v(2) by (simp add: OErrno_def)
  qed
  ultimately show ?thesis using v(1) by blast
qed

theorem baseline_denies_witness:
  "\<exists>prog g' v. EvaluateBPF prog (syscall_data NR_open 0 [0, 0, 0, 0, 0, 0]) = Some (Inr (SECCOMP_RET_ERRNO + 13))
     \<and> EvaluateBPF prog (syscall_data NR_ptrace 0 [0, 0, 0, 0, 0, 0]) = Some (Inr v) \<and> refused (BaselinePolicy 13 42) g' v"
proof -
  obtain prog g' where f: "baseline_filter example_kernel (BaselinePolicy 13 42) None prog g'"
    by (rule baseline_filter_exists [of 13 42]) simp_all
  have "IsFileSystem NR_open" "IsDebug NR_ptrace" by (simp_all add: syscall_set_defs syscall_set_cases_defs)
  then show ?thesis
    using baseline_denies [OF f, of "[0, 0, 0, 0, 0, 0]" IsFileSystem NR_open 0]
      baseline_denies [OF f, of "[0, 0, 0, 0, 0, 0]" IsDebug NR_ptrace 0]
    by (fastforce simp: baseline_denied_sets_def BaselinePolicy_def)
qed

text \<open>
  C29: The baseline sandbox starts: for every errno and process id the policy can be given, its filter
  compiles within the kernel's limit of 4096 instructions, and \<open>StartSandbox\<close> succeeds on a kernel
  that grants its requests, unless the process has registered nearly all of the 65535 traps.
\<close>

theorem baseline_sandbox_starts:
  assumes "cooperative k level" and "0 \<le> err" and "err \<le> 4095" and "global_trap_ok g"
    and "trap_array_size (registry_of g) + 722 \<le> 65535"
  shows "\<exists>log sb' g'. StartSandbox NDEBUG k level g (SandboxBPF (Some (baseline (BaselinePolicy err pid))))
    = (log, Inr (True, sb', g'))"
  using assms baseline_fits [of "BaselinePolicy err pid"]
  by (intro sandbox_starts [where n = baseline_calls])
     (simp_all add: BaselinePolicy_def baseline_calls_def baseline_costs_def)

theorem baseline_sandbox_starts_witness:
  "\<exists>log sb' g'. StartSandbox True example_kernel SINGLE_THREADED None
     (SandboxBPF (Some (baseline (BaselinePolicy 13 42)))) = (log, Inr (True, sb', g'))"
  by (rule baseline_sandbox_starts [OF example_cooperative])
     (simp_all add: registry_of_def Trap_init_def)

end
