(* ===== verification/Trap_Delivery.thy ===== *)
theory Trap_Delivery
  imports Compiler_Total Trap_Signal
begin

text \<open>
  The way of a trapped system call: from the policy's decision through the compiled filter and the signal
  that the kernel raises for its value, to the handler that \<open>Trap::SigSys\<close> calls.
\<close>

lemma low16_trap: "(SECCOMP_RET_TRAP + ucast (i :: u16)) AND SECCOMP_RET_DATA = ucast i"
  "(SECCOMP_RET_TRAP + ucast (i :: u16)) AND SECCOMP_RET_ACTION = SECCOMP_RET_TRAP"
  by (simp_all add: action_plus low16_ucast)

lemma trapped_answer:
  assumes h: "trap_handler t i = Some (fnc, aux, safe)" and v: "v AND SECCOMP_RET_DATA = ucast i"
  shows "let answer = SigSys call_fnc syscall_call mask_ok t LINUX_SIGSYS (seccomp_siginfo v (interrupted_call ctx)) (Some ctx) th;
           th1 = (if safe then th else th\<lparr>th_blocked := insert LINUX_SIGBUS (th_blocked th)\<rparr>) in
       if trap_has_unsafe_traps t \<and> GetIsInSigHandler ctx then
         (if sd_nr (interrupted_call ctx) = of_int NR_clone then \<exists>msg. answer = Inl (SandboxDie msg)
          else answer = Inr (Some (ctx\<lparr>uc_rax := syscall_call (sd_nr (interrupted_call ctx)) (call_args ctx)\<rparr>), th))
       else if \<not> safe \<and> \<not> mask_ok then \<exists>msg. answer = Inl (SandboxDie msg)
       else
         (case call_fnc fnc (interrupted_call ctx) aux th1 of
            Inl e \<Rightarrow> answer = Inl e
          | Inr (rc, th2) \<Rightarrow> answer = Inr (Some (ctx\<lparr>uc_rax := rc\<rparr>), th2\<lparr>th_errno := th_errno th\<rparr>))"
proof -
  have "sint w = NR_clone \<longleftrightarrow> w = of_int NR_clone" for w :: u32
  proof
    assume "sint w = NR_clone"
    then have "of_int (sint w) = (of_int NR_clone :: u32)" by (rule arg_cong)
    then show "w = of_int NR_clone" by simp
  qed simp
  then have clone: "sint (ucast (uc_rax ctx) :: u32) \<noteq> NR_clone \<longleftrightarrow> sd_nr (interrupted_call ctx) \<noteq> of_int NR_clone"
    by (simp add: interrupted_call_def)
  have nr: "ucast (uc_rax ctx) = sd_nr (interrupted_call ctx)" by (simp add: interrupted_call_def)
  note answer = SigSys_trapped [OF h v, where ctx = ctx, unfolded clone, unfolded nr]
  show ?thesis
  proof (cases "trap_has_unsafe_traps t \<and> GetIsInSigHandler ctx")
    case True
    show ?thesis unfolding Let_def answer if_P [OF True] by (simp add: die_unless_def)
  next
    case False
    show ?thesis
      unfolding Let_def answer if_not_P [OF False]
      by (cases safe; cases mask_ok) (simp_all add: die_unless_def SetIsInSigHandler_def split: sum.split)
  qed
qed

text \<open>
  C6: A system call that the policy traps reaches its handler. The compiled filter answers it with a trap
  id, and the kernel's signal for this value makes \<open>Trap::SigSys\<close> call the very handler that the policy
  named, safe or not, with its auxiliary pointer and with the system call as the filter saw it; an unsafe
  handler runs with \<open>SIGBUS\<close> blocked, which marks its system calls (the process dies if that fails). The handler's result goes into
  the result register, no other register changes, and \<open>errno\<close> is what it was. The exception are
  nested calls: when unsafe traps are on and the interrupted context is that of an unsafe handler, the
  handler is not run, the system call is made instead, and \<open>clone\<close> ends the process. The registry may have
  grown since the filter was compiled.
\<close>

theorem trapped_call_delivered:
  assumes "compiler_for policy t0 escapepc panic = Inr c" and "trap_invar t0"
    and "wf_policy policy" and "wf_panic panic"
    and "compiler_Compile (Trap_ops env) c = Inr (prog, c')"
    and "\<forall>j key. trap_handler (pc_registry c') j = Some key \<longrightarrow> trap_handler t j = Some key"
    and "filter_outcome c (interrupted_call ctx) = OTrap fnc aux safe"
  shows "\<exists>v. EvaluateBPF prog (interrupted_call ctx) = Some (Inr v) \<and> v AND SECCOMP_RET_ACTION = SECCOMP_RET_TRAP
    \<and> (let answer = SigSys call_fnc syscall_call mask_ok t LINUX_SIGSYS (seccomp_siginfo v (interrupted_call ctx)) (Some ctx) th;
           th1 = (if safe then th else th\<lparr>th_blocked := insert LINUX_SIGBUS (th_blocked th)\<rparr>) in
       if trap_has_unsafe_traps t \<and> GetIsInSigHandler ctx then
         (if sd_nr (interrupted_call ctx) = of_int NR_clone then \<exists>msg. answer = Inl (SandboxDie msg)
          else answer = Inr (Some (ctx\<lparr>uc_rax := syscall_call (sd_nr (interrupted_call ctx)) (call_args ctx)\<rparr>), th))
       else if \<not> safe \<and> \<not> mask_ok then \<exists>msg. answer = Inl (SandboxDie msg)
       else
         (case call_fnc fnc (interrupted_call ctx) aux th1 of
            Inl e \<Rightarrow> answer = Inl e
          | Inr (rc, th2) \<Rightarrow> answer = Inr (Some (ctx\<lparr>uc_rax := rc\<rparr>), th2\<lparr>th_errno := th_errno th\<rparr>)))"
proof -
  obtain v where v: "EvaluateBPF prog (interrupted_call ctx) = Some (Inr v)"
    "returns c' (filter_outcome c (interrupted_call ctx)) v"
    using compiled_filter_decides [OF assms(1-5) wf_interrupted_call] by blast
  then obtain i where i: "v = SECCOMP_RET_TRAP + ucast i" "trap_handler (pc_registry c') i = Some (fnc, aux, safe)"
    unfolding assms(7) by auto
  note v16 = low16_trap [of i, folded i(1)]
  have h: "trap_handler t i = Some (fnc, aux, safe)" using assms(6) i(2) by blast
  show ?thesis using v(1) v16(2) trapped_answer [OF h v16(1)] by blast
qed

text \<open>A policy that traps system call 0.\<close>

definition trap_policy :: policy where
  "trap_policy = \<lparr>EvaluateSyscall = (\<lambda>n. if n = 0 then Trap ReturnErrno (Addr 1) else Allow),
     InvalidSyscall = Policy_InvalidSyscall\<rparr>"

lemma trap_policy_wf: "wf_policy trap_policy"
  using wf_Trap(1) wf_Allow example_policy_wf(1) by (simp add: wf_policy_def trap_policy_def example_policy_def)

lemma trap_policy_fits:
  "policy_fits trap_policy {TrapResultExpr ReturnErrno (Addr 1) True, ReturnResultExpr SECCOMP_RET_ALLOW, ReturnResultExpr 0x50026} 11"
proof -
  obtain xs where el: "elements Set_ALL = 0 # 1 # xs @ [1025, 0x7FFFFFFF, 0x80000000, 0xFFFFFFFF]"
    and xs: "\<forall>y \<in> set xs. IsValid y \<and> sint y \<noteq> 0" by (rule elements_all_split)
  have e: "expr_of trap_policy n =
      Inr (if \<not> IsValid n then ReturnResultExpr 0x50026 else if sint n = 0 then TrapResultExpr ReturnErrno (Addr 1) True
        else ReturnResultExpr SECCOMP_RET_ALLOW)" for n
    by (simp add: expr_of_def trap_policy_def Policy_InvalidSyscall_def Error_def Allow_def Trap_def)
  have "changes (expr_of trap_policy 0) (map (expr_of trap_policy) (elements Set_ALL)) = 2"
    using xs by (simp add: el e IsValid_iff changes_same cong: ball_cong)
  then show ?thesis
    by (simp add: policy_fits_def e) (simp add: trap_policy_def Policy_InvalidSyscall_def Error_def IsAction_def)
qed

definition trapped_context :: ucontext where
  "trapped_context = \<lparr>uc_rax = 0, uc_rip = 7, uc_rdi = 1, uc_rsi = 2, uc_rdx = 3, uc_r10 = 4, uc_r8 = 5, uc_r9 = 6,
     uc_sigmask = {}\<rparr>"

theorem trapped_call_delivered_witness:
  "\<exists>c prog c' v. compiler_for trap_policy Trap_init 0 DefaultPanic = Inr c
    \<and> compiler_Compile (Trap_ops None) c = Inr (prog, c') \<and> EvaluateBPF prog (interrupted_call trapped_context) = Some (Inr v)
    \<and> SigSys (\<lambda>f d a th. Inr (- 1, th\<lparr>th_errno := 99\<rparr>)) (\<lambda>n ps. 0) True (pc_registry c') LINUX_SIGSYS
        (seccomp_siginfo v (interrupted_call trapped_context)) (Some trapped_context) \<lparr>th_errno = 5, th_blocked = {}\<rparr>
      = Inr (Some (trapped_context\<lparr>uc_rax := - 1\<rparr>), \<lparr>th_errno = 5, th_blocked = {}\<rparr>)"
proof -
  have "panic_ok DefaultPanic" by (simp add: panic_ok_def DefaultPanic_def Kill_def)
  from compiler_succeeds [OF trap_policy_fits this trap_invar_init, of 0 None] obtain c prog c'
    where c: "compiler_for trap_policy Trap_init 0 DefaultPanic = Inr c" "compiler_Compile (Trap_ops None) c = Inr (prog, c')"
    by (auto simp: Trap_init_def)
  note C = compiler_for_ok [OF c(1) trap_invar_init trap_policy_wf example_policy_wf(2)]
  have "\<not> pc_has_unsafe_traps c" using C(6) fits_safe [OF trap_policy_fits] by simp
  then have oc: "filter_outcome c (interrupted_call trapped_context) = OTrap ReturnErrno (Addr 1) True"
    by (simp add: filter_outcome_def interrupted_call_def trapped_context_def syscall_outcome_def IsValid_iff C(2)
        trap_policy_def Trap_def result_outcome_def)
  have "\<not> GetIsInSigHandler trapped_context" by (simp add: GetIsInSigHandler_def trapped_context_def)
  then show ?thesis
    using c trapped_call_delivered [OF c(1) trap_invar_init trap_policy_wf example_policy_wf(2) c(2) _ oc, of "pc_registry c'"
      "\<lambda>f d a th. Inr (- 1, th\<lparr>th_errno := 99\<rparr>)" "\<lambda>n ps. 0" True "\<lparr>th_errno = 5, th_blocked = {}\<rparr>"]
    by (auto simp: Let_def)
qed

end
