(* ===== verification/Number_Strings.thy ===== *)
theory Number_Strings
  imports Prelude "HOL-Library.Signed_Division"
begin

text \<open>
  Numbers and strings, \<^verbatim>\<open>base/strings/string_number_conversions.cc\<close>: the decimal string of an integer and the
  parser that every \<open>StringTo...\<close> for integers is an instance of, and bytes as hexadecimal digits. Integers are kept
  in the range of their type; an operation on a signed type that leaves it is an error. The theory ends with what the
  parser accepts, for every type and base, and with the round trips.
\<close>

subsection \<open>The types\<close>

text \<open>The size in bytes and whether the type is signed, with \<open>std::numeric_limits\<close>.\<close>

record int_type =
  it_size :: nat
  it_signed :: bool

definition it_min :: "int_type \<Rightarrow> int" where
  "it_min t = (if it_signed t then - (2 ^ (8 * it_size t - 1)) else 0)"

definition it_max :: "int_type \<Rightarrow> int" where
  "it_max t = (if it_signed t then 2 ^ (8 * it_size t - 1) - 1 else 2 ^ (8 * it_size t) - 1)"

definition Int32 :: int_type where "Int32 = \<lparr>it_size = 4, it_signed = True\<rparr>"
definition Uint32_type :: int_type where "Uint32_type = \<lparr>it_size = 4, it_signed = False\<rparr>"
definition Int64_type :: int_type where "Int64_type = \<lparr>it_size = 8, it_signed = True\<rparr>"
definition Uint64_type :: int_type where "Uint64_type = \<lparr>it_size = 8, it_signed = False\<rparr>"

text \<open>The value of an expression of the type: unsigned arithmetic wraps, signed arithmetic must not leave the range.\<close>

definition it_value :: "int_type \<Rightarrow> int \<Rightarrow> abort + int" where
  "it_value t v =
     (if it_signed t then
        (if it_min t \<le> v \<and> v \<le> it_max t then Inr v else Inl (CheckFailed ''signed overflow''))
      else Inr (v mod 2 ^ (8 * it_size t)))"

subsection \<open>Writing\<close>

text \<open>One digit for each round, from the last one.\<close>

fun int_digits :: "nat \<Rightarrow> string \<Rightarrow> string" where
  "int_digits res i =
     (let i = char_of (res mod 10 + 48) # i; res = res div 10 in
      if res \<noteq> 0 then int_digits res i else i)"

declare int_digits.simps [simp del]

definition IntToString :: "int \<Rightarrow> string" where
  "IntToString v = (let i = int_digits (nat \<bar>v\<bar>) [] in if v < 0 then CHR ''-'' # i else i)"

definition kOutputBufSize :: "int_type \<Rightarrow> nat" where
  "kOutputBufSize t = 3 * it_size t + (if it_signed t then 1 else 0)"

subsection \<open>Parsing\<close>

definition CharToDigit :: "int \<Rightarrow> char \<Rightarrow> int option" where
  "CharToDigit b c =
     (let c = int (of_char c :: nat) in
      if b \<le> 10 then (if 48 \<le> c \<and> c < 48 + b then Some (c - 48) else None)
      else if 48 \<le> c \<and> c \<le> 57 then Some (c - 48)
      else if 97 \<le> c \<and> c < 97 + b - 10 then Some (c - 97 + 10)
      else if 65 \<le> c \<and> c < 65 + b - 10 then Some (c - 65 + 10)
      else None)"

text \<open>\<open>isspace\<close> in the C locale.\<close>

definition LocalIsWhitespace :: "char \<Rightarrow> bool" where
  "LocalIsWhitespace c \<longleftrightarrow> (of_char c :: nat) \<in> {9, 10, 11, 12, 13, 32}"

datatype number_sign = Positive | Negative

text \<open>Whether another digit fits; the bound that is the output if it does not.\<close>

fun CheckBounds :: "int_type \<Rightarrow> int \<Rightarrow> number_sign \<Rightarrow> int \<Rightarrow> int \<Rightarrow> bool" where
  "CheckBounds t b Positive output new_digit =
     (if output > it_max t sdiv b \<or> output = it_max t sdiv b \<and> new_digit > it_max t smod b then False else True)"
| "CheckBounds t b Negative output new_digit =
     (if output < it_min t sdiv b \<or> output = it_min t sdiv b \<and> new_digit > 0 - it_min t smod b then False else True)"

fun sign_bound :: "int_type \<Rightarrow> number_sign \<Rightarrow> int" where
  "sign_bound t Positive = it_max t"
| "sign_bound t Negative = it_min t"

fun Increment :: "int_type \<Rightarrow> number_sign \<Rightarrow> int \<Rightarrow> int \<Rightarrow> abort + int" where
  "Increment t Positive increment output = it_value t (output + increment)"
| "Increment t Negative increment output = it_value t (output - increment)"

text \<open>The loop over the digits; \<open>first\<close> for \<open>current == begin\<close>. The result is the validity and the output.\<close>

fun digit_loop :: "int_type \<Rightarrow> int \<Rightarrow> number_sign \<Rightarrow> bool \<Rightarrow> string \<Rightarrow> int \<Rightarrow> abort + (bool \<times> int)" where
  "digit_loop t b sign first [] output = Inr (True, output)"
| "digit_loop t b sign first (c # cs) output =
     (case CharToDigit b c of
        None \<Rightarrow> Inr (False, output)
      | Some new_digit \<Rightarrow>
          if \<not> first \<and> \<not> CheckBounds t b sign output new_digit then Inr (False, sign_bound t sign)
          else
            res_bind (if first then Inr output else it_value t (output * b)) (\<lambda>output.
            res_bind (Increment t sign new_digit output) (\<lambda>output.
            digit_loop t b sign False cs output)))"

definition skip_hex_prefix :: "int \<Rightarrow> string \<Rightarrow> string" where
  "skip_hex_prefix b s =
     (if b = 16 \<and> length s > 2 \<and> s ! 0 = CHR ''0'' \<and> (s ! 1 = CHR ''x'' \<or> s ! 1 = CHR ''X'') then drop 2 s else s)"

definition Base_Invoke :: "int_type \<Rightarrow> int \<Rightarrow> number_sign \<Rightarrow> string \<Rightarrow> abort + (bool \<times> int)" where
  "Base_Invoke t b sign s =
     (if s = [] then Inr (False, 0) else digit_loop t b sign True (skip_hex_prefix b s) 0)"

definition IteratorRangeToNumber :: "int_type \<Rightarrow> int \<Rightarrow> string \<Rightarrow> abort + (bool \<times> int)" where
  "IteratorRangeToNumber t b s =
     (let begin = dropWhile LocalIsWhitespace s;
          valid = (begin = s) in
      if begin \<noteq> [] \<and> hd begin = CHR ''-'' then
        (if \<not> it_signed t then Inr (False, 0)
         else res_bind (Base_Invoke t b Negative (tl begin)) (\<lambda>(ok, output). Inr (valid \<and> ok, output)))
      else
        (let begin = (if begin \<noteq> [] \<and> hd begin = CHR ''+'' then tl begin else begin) in
         res_bind (Base_Invoke t b Positive begin) (\<lambda>(ok, output). Inr (valid \<and> ok, output))))"









subsection \<open>Bytes\<close>

definition kHexChars :: string where "kHexChars = ''0123456789ABCDEF''"

definition hex_byte :: "u8 \<Rightarrow> string" where
  "hex_byte b = [kHexChars ! unat (drop_bit 4 b AND 0xf), kHexChars ! unat (b AND 0xf)]"

definition HexEncode :: "u8 list \<Rightarrow> string" where
  "HexEncode bytes = concat (map hex_byte bytes)"

text \<open>The result and the bytes in the output, also when a digit is wrong.\<close>

fun hex_bytes_loop :: "string \<Rightarrow> u8 list \<Rightarrow> bool \<times> u8 list" where
  "hex_bytes_loop (h # l # s) out =
     (case (CharToDigit 16 h, CharToDigit 16 l) of
        (Some msb, Some lsb) \<Rightarrow> hex_bytes_loop s (out @ [push_bit 4 (of_int msb) OR of_int lsb])
      | _ \<Rightarrow> (False, out))"
| "hex_bytes_loop _ out = (True, out)"

definition HexStringToBytes :: "string \<Rightarrow> bool \<times> u8 list" where
  "HexStringToBytes input = (let count = length input in
     if count = 0 \<or> count mod 2 \<noteq> 0 then (False, []) else hex_bytes_loop input [])"

subsection \<open>What the parser accepts\<close>

text \<open>
  The number that a string denotes, without any bound, as the reference for the parser: digits are read by
  Horner's rule.
\<close>

text \<open>A digit's value is its place among the digits, small or capital; the base is at most 16.\<close>

definition digit_value :: "int \<Rightarrow> char \<Rightarrow> int option" where
  "digit_value b c =
     map_of (zip (take (nat b) ''0123456789abcdef'' @ take (nat b) ''0123456789ABCDEF'') ([0..b - 1] @ [0..b - 1])) c"

fun without_0x :: "int \<Rightarrow> string \<Rightarrow> string" where
  "without_0x b (z # x # ds) = (if b = 16 \<and> z = CHR ''0'' \<and> x \<in> {CHR ''x'', CHR ''X''} \<and> ds \<noteq> [] then ds else z # x # ds)"
| "without_0x b s = s"

definition read_natural :: "int \<Rightarrow> string \<Rightarrow> int option" where
  "read_natural b s =
     (if s = [] then None
      else map_option (foldl (\<lambda>v d. v * b + d) 0) (those (map (digit_value b) (without_0x b s))))"

definition read_number :: "int_type \<Rightarrow> int \<Rightarrow> string \<Rightarrow> int option" where
  "read_number t b s =
     (if s \<noteq> [] \<and> hd s = CHR ''-'' then (if it_signed t then map_option uminus (read_natural b (tl s)) else None)
      else if s \<noteq> [] \<and> hd s = CHR ''+'' then read_natural b (tl s)
      else read_natural b s)"

lemma CharToDigit_values:
  "list_all (\<lambda>c. CharToDigit 10 c = digit_value 10 c \<and> CharToDigit 16 c = digit_value 16 c) Enum.enum"
  by code_simp

lemma CharToDigit_value: "b \<in> {10, 16} \<Longrightarrow> CharToDigit b = digit_value b"
  using CharToDigit_values by (auto simp: list_all_iff fun_eq_iff enum_UNIV)

text \<open>The same by one step per digit.\<close>

fun read_digits :: "int \<Rightarrow> int \<Rightarrow> string \<Rightarrow> int option" where
  "read_digits b v [] = Some v"
| "read_digits b v (c # cs) = (case CharToDigit b c of None \<Rightarrow> None | Some d \<Rightarrow> read_digits b (v * b + d) cs)"

lemma read_digits_foldl: "read_digits b v cs = map_option (foldl (\<lambda>v d. v * b + d) v) (those (map (CharToDigit b) cs))"
  by (induction cs arbitrary: v) (auto split: option.split simp: option.map_comp o_def)

lemma skip_hex_prefix_eq: "skip_hex_prefix b s = without_0x b s"
  by (cases "(b, s)" rule: without_0x.cases) (auto simp: skip_hex_prefix_def numeral_2_eq_2)

lemma read_natural_digits:
  "b \<in> {10, 16} \<Longrightarrow> read_natural b s = (if s = [] then None else read_digits b 0 (skip_hex_prefix b s))"
  by (simp only: read_natural_def read_digits_foldl skip_hex_prefix_eq CharToDigit_value)

definition int_type_ok :: "int_type \<Rightarrow> bool" where
  "int_type_ok t \<longleftrightarrow> it_size t \<in> {4, 8}"

lemma type_bounds:
  assumes "int_type_ok t"
  shows "it_min t \<le> 0" "16 < it_max t" "it_signed t \<Longrightarrow> it_min t < -16"
    "\<not> it_signed t \<Longrightarrow> 2 ^ (8 * it_size t) = it_max t + 1"
  using assms by (auto simp: int_type_ok_def it_min_def it_max_def)

lemma it_value_in: "int_type_ok t \<Longrightarrow> it_min t \<le> v \<Longrightarrow> v \<le> it_max t \<Longrightarrow> it_value t v = Inr v"
  using type_bounds(4) by (auto simp: it_value_def it_min_def)

lemma CharToDigit_bounds: "CharToDigit b c = Some d \<Longrightarrow> 0 \<le> d \<and> d < b"
  by (auto simp: CharToDigit_def Let_def split: if_splits)

lemma div_bound:
  fixes x d b m :: int
  assumes "0 < b" and "0 \<le> m" and "0 \<le> d" and "d < b"
  shows "x > m div b \<or> x = m div b \<and> d > m mod b \<longleftrightarrow> m < x * b + d"
proof -
  have m: "m = (m div b) * b + m mod b" "0 \<le> m mod b" "m mod b < b" using assms(1) by simp_all
  consider "x < m div b" | "x = m div b" | "x > m div b" by linarith
  then show ?thesis
  proof cases
    case 1
    then have "(x + 1) * b \<le> (m div b) * b" using assms(1) by (intro mult_right_mono) auto
    then have "x * b + b \<le> (m div b) * b" by (simp add: distrib_right)
    then have "x * b + d \<le> m" using m(1,2) assms(4) by linarith
    then show ?thesis using 1 by linarith
  next
    case 2
    have "m < (m div b) * b + d \<longleftrightarrow> m mod b < d" using m(1) by linarith
    then show ?thesis using 2 by simp
  next
    case 3
    then have "(m div b + 1) * b \<le> x * b" using assms(1) by (intro mult_right_mono) auto
    then have "(m div b) * b + b \<le> x * b" by (simp add: distrib_right)
    then have "m < x * b + d" using m(1,3) assms(3) by linarith
    then show ?thesis using 3 by linarith
  qed
qed

lemma CheckBounds_iff:
  assumes "int_type_ok t" and "0 < b" and "0 \<le> d" and "d < b"
  shows "CheckBounds t b Positive v d \<longleftrightarrow> v * b + d \<le> it_max t"
    and "it_signed t \<Longrightarrow> CheckBounds t b Negative v d \<longleftrightarrow> it_min t \<le> v * b - d"
proof -
  have "0 < it_max t" using type_bounds(2) [OF assms(1)] by simp
  moreover have "it_max t sdiv b = it_max t div b" "it_max t smod b = it_max t mod b"
    using calculation assms(2) by (simp_all add: signed_divide_int_eq_divide_int signed_modulo_int_eq_modulo_int)
  ultimately show "CheckBounds t b Positive v d \<longleftrightarrow> v * b + d \<le> it_max t"
    using div_bound [OF assms(2) _ assms(3,4), of "it_max t" v] by auto
next
  define m where "m = - it_min t"
  have m: "0 \<le> m" "it_min t = - m" using type_bounds(1) [OF assms(1)] by (simp_all add: m_def)
  have sd: "it_min t sdiv b = - (m div b)" "it_min t smod b = - (m mod b)"
    unfolding m(2) using m(1) assms(2) by (cases "m = 0"; simp add: smod_int_alt_def signed_divide_int_def)+
  have "v < - (m div b) \<or> v = - (m div b) \<and> d > m mod b \<longleftrightarrow> \<not> it_min t \<le> v * b - d"
    using div_bound [OF assms(2) m(1) assms(3,4), of "- v"] unfolding m(2) by auto
  then show "CheckBounds t b Negative v d \<longleftrightarrow> it_min t \<le> v * b - d" by (simp add: sd)
qed


text \<open>The digits read so far only grow, so once they leave the range they stay outside.\<close>

lemma read_digits_mono:
  assumes "read_digits b v cs = Some w" and "0 \<le> v" and "0 < b"
  shows "v \<le> w"
  using assms
proof (induction cs arbitrary: v)
  case (Cons c cs)
  then obtain d where d: "CharToDigit b c = Some d" "read_digits b (v * b + d) cs = Some w"
    by (auto split: option.splits)
  have "0 \<le> d" using CharToDigit_bounds [OF d(1)] by simp
  moreover have "v * 1 \<le> v * b" using Cons.prems(2,3) by (intro mult_left_mono) auto
  ultimately show ?case using Cons.IH [OF d(2)] Cons.prems(2,3) by simp
qed simp

text \<open>The value with its sign, and whether it is in range.\<close>

fun signed_value :: "number_sign \<Rightarrow> int \<Rightarrow> int" where
  "signed_value Positive v = v"
| "signed_value Negative v = - v"

lemma signed_value_fun [simp]: "signed_value Positive = (\<lambda>v. v)" "signed_value Negative = uminus"
  by (simp_all add: fun_eq_iff)

definition fits :: "int_type \<Rightarrow> int \<Rightarrow> bool" where
  "fits t v \<longleftrightarrow> it_min t \<le> v \<and> v \<le> it_max t"

lemma digit_loop_spec:
  assumes t: "int_type_ok t" and b: "0 < b" "b \<le> 16" and sign: "sign = Negative \<Longrightarrow> it_signed t"
    and "0 \<le> v" and "fits t (signed_value sign v)" and "first \<Longrightarrow> v = 0"
  shows "\<exists>out. digit_loop t b sign first cs (signed_value sign v)
      = Inr (\<exists>w. read_digits b v cs = Some w \<and> fits t (signed_value sign w), out)
    \<and> (\<forall>w. read_digits b v cs = Some w \<and> fits t (signed_value sign w) \<longrightarrow> out = signed_value sign w)"
  using assms(5-)
proof (induction cs arbitrary: v first)
  case (Cons c cs)
  show ?case
  proof (cases "CharToDigit b c")
    case (Some d)
    have d: "0 \<le> d" "d < b" using CharToDigit_bounds [OF Some] by simp_all
    have sv: "signed_value sign (v * b) = signed_value sign v * b" by (cases sign) simp_all
    have nonneg: "0 \<le> v * b" using b(1) Cons.prems(1) by simp
    have le: "v \<le> v * b" using mult_left_mono [of 1 b v] b(1) Cons.prems(1) by simp
    have check: "CheckBounds t b sign (signed_value sign v) d \<longleftrightarrow> fits t (signed_value sign (v * b + d))"
      using CheckBounds_iff [OF t b(1) d, of "signed_value sign v"] sign nonneg d(1) type_bounds(1,2) [OF t]
      by (cases sign) (simp_all add: fits_def del: CheckBounds.simps)
    show ?thesis
    proof (cases "fits t (signed_value sign (v * b + d))")
      case True
      have "fits t (signed_value sign (v * b))"
        using True d(1) type_bounds(1,2) [OF t] nonneg by (cases sign) (simp_all add: fits_def)
      then have "it_value t (signed_value sign v * b) = Inr (signed_value sign (v * b))"
        using it_value_in [OF t] unfolding sv [symmetric] by (simp add: fits_def)
      moreover have "Increment t sign d (signed_value sign (v * b)) = Inr (signed_value sign (v * b + d))"
        using it_value_in [OF t] True by (cases sign) (simp_all add: fits_def)
      moreover have "first \<Longrightarrow> v * b = v" using Cons.prems(3) by simp
      ultimately have "digit_loop t b sign first (c # cs) (signed_value sign v)
          = digit_loop t b sign False cs (signed_value sign (v * b + d))"
        using Some check True by (cases first) (auto simp: res_simps)
      then show ?thesis using Cons.IH [of "v * b + d" False] True d(1) Cons.prems(1) b(1) Some by simp
    next
      case False
      have nofit: "\<not> fits t (signed_value sign w)" if "read_digits b (v * b + d) cs = Some w" for w
      proof -
        have "v * b + d \<le> w" using read_digits_mono [OF that] Cons.prems(1) b(1) d(1) by simp
        then show ?thesis using False type_bounds(1,2) [OF t] d(1) le Cons.prems(1) by (cases sign) (auto simp: fits_def)
      qed
      have "\<not> first"
      proof
        assume first
        then have "v = 0" using Cons.prems(3) by simp
        then show False using False type_bounds [OF t] d b(2) sign by (cases sign) (auto simp: fits_def)
      qed
      then show ?thesis using Some check False nofit by auto
    qed
  qed simp
qed simp

lemma Base_Invoke_spec:
  assumes "int_type_ok t" and "b \<in> {10, 16}" and "sign = Negative \<Longrightarrow> it_signed t"
  shows "\<exists>out. Base_Invoke t b sign s = Inr (\<exists>w. read_natural b s = Some w \<and> fits t (signed_value sign w), out)
    \<and> (\<forall>w. read_natural b s = Some w \<and> fits t (signed_value sign w) \<longrightarrow> out = signed_value sign w)"
proof (cases "s = []")
  case False
  have b: "0 < b" "b \<le> 16" using assms(2) by auto
  have "fits t (signed_value sign 0)" using type_bounds(1,2) [OF assms(1)] by (cases sign) (simp_all add: fits_def)
  moreover have "signed_value sign 0 = 0" by (cases sign) simp_all
  ultimately show ?thesis
    using digit_loop_spec [where sign = sign and first = True and v = 0 and cs = "skip_hex_prefix b s", OF assms(1) b assms(3)] False
    by (simp add: Base_Invoke_def read_natural_digits [OF assms(2)])
qed (simp add: Base_Invoke_def read_natural_def)

text \<open>The number, if the string denotes one of the type; and what the parser yields, the output only when it is valid.\<close>

definition number_in_range :: "int_type \<Rightarrow> int \<Rightarrow> string \<Rightarrow> int option" where
  "number_in_range t b s = (case read_number t b s of None \<Rightarrow> None | Some v \<Rightarrow> if fits t v then Some v else None)"

definition parsed :: "abort + (bool \<times> int) \<Rightarrow> abort + int option" where
  "parsed r = res_bind r (\<lambda>(ok, output). Inr (if ok then Some output else None))"

lemma parsed_Base_Invoke:
  assumes "int_type_ok t" and "b \<in> {10, 16}" and "sign = Negative \<Longrightarrow> it_signed t"
  shows "parsed (Base_Invoke t b sign s) = Inr (case map_option (signed_value sign) (read_natural b s) of
      None \<Rightarrow> None | Some v \<Rightarrow> if fits t v then Some v else None)"
    and "parsed (res_bind (Base_Invoke t b sign s) (\<lambda>(ok, output). Inr (False, output))) = Inr None"
proof -
  obtain out where out: "Base_Invoke t b sign s = Inr (\<exists>w. read_natural b s = Some w \<and> fits t (signed_value sign w), out)"
    "\<forall>w. read_natural b s = Some w \<and> fits t (signed_value sign w) \<longrightarrow> out = signed_value sign w"
    using Base_Invoke_spec [where s = s, OF assms] by blast
  show "parsed (Base_Invoke t b sign s) = Inr (case map_option (signed_value sign) (read_natural b s) of
      None \<Rightarrow> None | Some v \<Rightarrow> if fits t v then Some v else None)"
    using out(2) by (cases "read_natural b s") (simp_all add: out(1) parsed_def)
  show "parsed (res_bind (Base_Invoke t b sign s) (\<lambda>(ok, output). Inr (False, output))) = Inr None"
    by (simp add: out(1) parsed_def)
qed

lemma parsed_valid [simp]: "parsed (res_bind r (\<lambda>(ok, output). Inr (ok, output))) = parsed r"
    "parsed (res_bind r Inr) = parsed r"
  by (cases r; auto simp: parsed_def)+

lemma whitespace_no_number:
  assumes "LocalIsWhitespace c" and "b \<in> {10, 16}"
  shows "read_number t b (c # cs) = None"
proof -
  have n: "(of_char c :: nat) \<in> {9, 10, 11, 12, 13, 32}" using assms(1) by (simp add: LocalIsWhitespace_def)
  then have "c \<noteq> CHR ''-''" "c \<noteq> CHR ''+''" "c \<noteq> CHR ''0''" by auto
  moreover have "CharToDigit b c = None" using n by (auto simp: CharToDigit_def)
  moreover have "skip_hex_prefix b (c # cs) = c # cs" using calculation by (simp add: skip_hex_prefix_def)
  ultimately show ?thesis by (simp add: read_number_def read_natural_digits [OF assms(2)])
qed

lemma IteratorRangeToNumber_correct:
  assumes "int_type_ok t" and "b \<in> {10, 16}"
  shows "parsed (IteratorRangeToNumber t b s) = Inr (number_in_range t b s)"
proof (cases "s \<noteq> [] \<and> LocalIsWhitespace (hd s)")
  case True
  then obtain c cs where s: "s = c # cs" "LocalIsWhitespace c" by (cases s) auto
  define rest where "rest = dropWhile LocalIsWhitespace s"
  have "length rest \<le> length cs" using s by (simp add: rest_def length_dropWhile_le)
  then have "rest \<noteq> s" using s(1) by (metis Suc_n_not_le_n length_Cons)
  moreover have "parsed (Inr (False, 0)) = Inr None" by (simp add: parsed_def)
  ultimately have "parsed (IteratorRangeToNumber t b s) = Inr None"
    using parsed_Base_Invoke(2) [OF assms, of Positive] parsed_Base_Invoke(2) [OF assms, of Negative]
    by (simp add: IteratorRangeToNumber_def Let_def flip: rest_def)
  then show ?thesis using whitespace_no_number [OF s(2) assms(2), of t cs] s(1) by (simp add: number_in_range_def)
next
  case False
  then have d: "dropWhile LocalIsWhitespace s = s" by (cases s) auto
  show ?thesis
  proof (cases "s \<noteq> [] \<and> hd s = CHR ''-''")
    case True
    then obtain s' where s: "s = CHR ''-'' # s'" by (cases s) auto
    show ?thesis
    proof (cases "it_signed t")
      case True
      then show ?thesis using parsed_Base_Invoke(1) [OF assms True] d
        by (simp add: IteratorRangeToNumber_def number_in_range_def read_number_def s split: option.split)
    next
      case False
      then show ?thesis using d by (simp add: IteratorRangeToNumber_def number_in_range_def read_number_def s parsed_def)
    qed
  next
    case False
    have "read_number t b s = read_natural b (if s \<noteq> [] \<and> hd s = CHR ''+'' then tl s else s)"
      using False by (auto simp: read_number_def)
    then show ?thesis using parsed_Base_Invoke(1) [OF assms, of Positive] d False
      by (auto simp: IteratorRangeToNumber_def number_in_range_def option.map_ident)
  qed
qed


subsection \<open>What the writer writes\<close>

lemma CharToDigit_written: "m < 10 \<Longrightarrow> CharToDigit 10 (char_of (m + 48 :: nat)) = Some (int m)"
  by (simp add: CharToDigit_def Let_def of_char_of)

lemma read_int_digits: "read_digits 10 0 (int_digits res acc) = read_digits 10 (int res) acc"
proof (induction res acc rule: int_digits.induct)
  case (1 res i)
  have d: "CharToDigit 10 (char_of (res mod 10 + 48)) = Some (int (res mod 10))"
    by (intro CharToDigit_written) simp
  have "int (res div 10) * 10 + int (res mod 10) = int res" by (simp add: zmod_int zdiv_int)
  then show ?case
    using 1 d by (cases "res div 10 = 0") (simp_all add: int_digits.simps [of res] Let_def)
qed

lemma int_digits_step:
  "int_digits res i = (if res div 10 = 0 then char_of (res mod 10 + 48) # i else int_digits (res div 10) (char_of (res mod 10 + 48) # i))"
  by (subst int_digits.simps) (simp add: Let_def)

lemma int_digits_Cons: "\<exists>(d :: nat) ds. int_digits res acc = char_of (d + 48) # ds \<and> d < 10"
proof (induction res arbitrary: acc rule: less_induct)
  case (less res)
  show ?case
  proof (cases "res div 10 = 0")
    case True
    then have "int_digits res acc = char_of (res mod 10 + 48) # acc" by (simp only: int_digits_step [of res] simp_thms if_True)
    moreover have "res mod 10 < 10" by simp
    ultimately show ?thesis by blast
  next
    case False
    then have "res div 10 < res" by auto
    from less [OF this] show ?thesis using False by (simp only: int_digits_step [of res] if_False)
  qed
qed

lemma length_int_digits: "res < 10 ^ k \<Longrightarrow> 0 < k \<Longrightarrow> length (int_digits res acc) \<le> k + length acc"
proof (induction k arbitrary: res acc)
  case (Suc k)
  show ?case
  proof (cases "res div 10 = 0")
    case True
    then show ?thesis by (simp only: int_digits_step [of res] simp_thms if_True) simp
  next
    case False
    have lt: "res div 10 < 10 ^ k" using Suc.prems(1) by (simp add: less_mult_imp_div_less mult.commute)
    then have "0 < k" using False by (cases k) auto
    from Suc.IH [OF lt this, of "char_of (res mod 10 + 48) # acc"] show ?thesis
      using False by (simp only: int_digits_step [of res] if_False) simp
  qed
qed simp

text \<open>The buffer is never filled: the checks \<open>i != outbuf\<close> hold.\<close>

lemma IntToString_fits_buffer:
  assumes "t \<in> {Int32, Uint32_type, Int64_type, Uint64_type}" and "fits t v"
  shows "length (IntToString v) < kOutputBufSize t"
proof -
  define k :: nat where "k = (if it_size t = 4 then 10 else if it_signed t then 19 else 20)"
  have "nat \<bar>v\<bar> < 10 ^ k" "0 < k"
    using assms by (auto simp: k_def fits_def it_min_def it_max_def Int32_def Uint32_type_def Int64_type_def Uint64_type_def)
  then have "length (int_digits (nat \<bar>v\<bar>) []) \<le> k" using length_int_digits [of "nat \<bar>v\<bar>" k "[]"] by simp
  moreover have "\<not> it_signed t \<Longrightarrow> \<not> v < 0" using assms(2) by (simp add: fits_def it_min_def)
  ultimately show ?thesis
    using assms(1) by (auto simp: IntToString_def kOutputBufSize_def k_def Let_def
        Int32_def Uint32_type_def Int64_type_def Uint64_type_def)
qed

lemma read_natural_written: "read_natural 10 (int_digits n []) = Some (int n)"
  using read_int_digits [of n "[]"] int_digits_Cons [of n "[]"] by (auto simp: read_natural_digits skip_hex_prefix_def)

lemma read_number_written:
  assumes "it_signed t \<or> 0 \<le> v"
  shows "read_number t 10 (IntToString v) = Some v"
proof -
  obtain d :: nat and ds where d: "int_digits (nat \<bar>v\<bar>) [] = char_of (d + 48) # ds" "d < 10" using int_digits_Cons by blast
  have ne: "(char_of (d + 48) :: char) \<noteq> x" if "(of_char x :: nat) < 48" for x
  proof
    assume eq: "(char_of (d + 48) :: char) = x"
    have "(of_char (char_of (d + 48) :: char) :: nat) = d + 48" using d(2) by (simp add: of_char_of)
    then show False using that unfolding eq by simp
  qed
  have "(char_of (d + 48) :: char) \<noteq> CHR ''-''" "(char_of (d + 48) :: char) \<noteq> CHR ''+''" by (rule ne, simp)+
  then show ?thesis
    using assms read_natural_written [of "nat \<bar>v\<bar>"] d(1) by (auto simp: read_number_def IntToString_def Let_def)
qed

text \<open>What is written is read back, by the parser of the same type.\<close>

lemma IntToString_parsed:
  assumes "t \<in> {Int32, Uint32_type, Int64_type, Uint64_type}" and "fits t v"
  shows "parsed (IteratorRangeToNumber t 10 (IntToString v)) = Inr (Some v)"
proof -
  have t: "int_type_ok t" using assms(1) by (auto simp: int_type_ok_def Int32_def Uint32_type_def Int64_type_def Uint64_type_def)
  have "it_signed t \<or> 0 \<le> v" using assms(2) by (cases "it_signed t") (simp_all add: fits_def it_min_def)
  from read_number_written [OF this] show ?thesis
    using IteratorRangeToNumber_correct [OF t, of 10] assms(2) by (simp add: number_in_range_def)
qed

lemma hex_digits: "list_all (\<lambda>n. CharToDigit 16 (kHexChars ! n) = Some (int n)) [0..<16]"
  by code_simp

lemma hex_nibble:
  fixes b :: u8
  shows "CharToDigit 16 (kHexChars ! unat (b AND 0xf)) = Some (uint (b AND 0xf))"
proof -
  have "b AND 0xf \<le> 0xf" by (rule word_and_le1)
  then have "unat (b AND 0xf) < 16" by (simp add: word_le_nat_alt)
  then show ?thesis using hex_digits by (simp add: list_all_iff)
qed

lemma hex_byte_join: "push_bit 4 (drop_bit 4 b AND 0xf) OR (b AND 0xf) = (b :: u8)"
proof (rule bit_word_eqI)
  fix n assume "n < LENGTH(8)"
  then have "n \<in> {0, 1, 2, 3, 4, 5, 6, 7}" by auto
  then show "bit (push_bit 4 (drop_bit 4 b AND 0xf) OR (b AND 0xf)) n \<longleftrightarrow> bit b n"
    by (auto simp: bit_simps)
qed

lemma hex_bytes_loop_encoded: "hex_bytes_loop (HexEncode bytes) out = (True, out @ bytes)"
proof (induction bytes arbitrary: out)
  case (Cons b bytes)
  then show ?case
    using hex_byte_join [of b] by (simp add: HexEncode_def hex_byte_def hex_nibble)
qed (simp add: HexEncode_def)

lemma HexEncode_decoded: "bytes \<noteq> [] \<Longrightarrow> HexStringToBytes (HexEncode bytes) = (True, bytes)"
proof -
  assume "bytes \<noteq> []"
  moreover have "length (HexEncode bytes) = 2 * length bytes" by (induction bytes) (simp_all add: HexEncode_def hex_byte_def)
  ultimately show ?thesis using hex_bytes_loop_encoded [of bytes "[]"] by (simp add: HexStringToBytes_def)
qed


end
