(* ===== verification/Byte_Memory.thy ===== *)
theory Byte_Memory
  imports Prelude
begin

text \<open>
  Bytes, their little-endian numbers, and memory addressed by byte: what the serialization of
  pickles, the policy memory and the cross-call buffers share.
\<close>

subsection \<open>Bytes\<close>

type_synonym bytes = "u8 list"

text \<open>The little-endian bytes of a number of \<open>n\<close> bytes, and back.\<close>

fun le_bytes :: "nat \<Rightarrow> 'a::len word \<Rightarrow> bytes" where
  "le_bytes 0 w = []"
| "le_bytes (Suc n) w = ucast w # le_bytes n (drop_bit 8 w)"

fun le_value :: "bytes \<Rightarrow> 'a::len word" where
  "le_value [] = 0"
| "le_value (b # bs) = ucast b OR push_bit 8 (le_value bs)"

lemma length_le_bytes [simp]: "length (le_bytes n w) = n"
  by (induction n arbitrary: w) simp_all

lemma le_value_bytes: "le_value (le_bytes n (w :: 'a::len word)) = take_bit (8 * n) w"
proof (induction n arbitrary: w)
  case (Suc n)
  show ?case
  proof (rule bit_word_eqI)
    fix m assume "m < LENGTH('a)"
    then show "bit (le_value (le_bytes (Suc n) w) :: 'a word) m = bit (take_bit (8 * Suc n) w) m"
      by (cases "m < 8") (auto simp: Suc bit_simps dest: bit_imp_le_length)
  qed
qed simp

lemma le_value_exact [simp]:
  "le_value (le_bytes 4 w) = (w :: u32)" "le_value (le_bytes 2 w') = (w' :: u16)" "le_value (le_bytes 8 w'') = (w'' :: u64)"
  by (simp_all add: le_value_bytes take_bit_word_eq_self)

lemma ucast_u64_u32 [simp]: "(ucast (ucast (x :: u32) :: u64) :: u32) = x"
  by (rule bit_word_eqI) (auto simp: bit_simps)

subsection \<open>Memory\<close>

type_synonym mem = "nat \<Rightarrow> u8"

definition load_bytes :: "mem \<Rightarrow> nat \<Rightarrow> nat \<Rightarrow> bytes" where
  "load_bytes m a n = map m [a..<a + n]"

definition store_bytes :: "nat \<Rightarrow> bytes \<Rightarrow> mem \<Rightarrow> mem" where
  "store_bytes a bs m = (\<lambda>x. if a \<le> x \<and> x < a + length bs then bs ! (x - a) else m x)"

text \<open>Two memories agree on the \<open>n\<close> bytes from \<open>a\<close>.\<close>

definition same_bytes :: "nat \<Rightarrow> nat \<Rightarrow> mem \<Rightarrow> mem \<Rightarrow> bool" where
  "same_bytes a n m m' \<longleftrightarrow> (\<forall>x. a \<le> x \<and> x < a + n \<longrightarrow> m x = m' x)"

lemma length_load_bytes [simp]: "length (load_bytes m a n) = n"
  by (simp add: load_bytes_def)

lemma load_bytes_append: "load_bytes m a (n + k) = load_bytes m a n @ load_bytes m (a + n) k"
  using upt_add_eq_append [of a "a + n" k] by (simp add: load_bytes_def add.assoc)

lemma load_store_same [simp]: "length bs = n \<Longrightarrow> load_bytes (store_bytes a bs m) a n = bs"
  by (rule nth_equalityI) (simp_all add: load_bytes_def store_bytes_def)

lemma same_bytes_refl [simp]: "same_bytes a n m m"
  by (simp add: same_bytes_def)

lemma same_bytes_trans: "same_bytes a n m m' \<Longrightarrow> same_bytes a n m' m'' \<Longrightarrow> same_bytes a n m m''"
  by (simp add: same_bytes_def)

lemma same_bytes_sub: "same_bytes a n m m' \<Longrightarrow> a \<le> b \<Longrightarrow> b + k \<le> a + n \<Longrightarrow> same_bytes b k m m'"
  by (auto simp: same_bytes_def)

lemma same_bytes_store: "b + length bs \<le> a \<or> a + n \<le> b \<Longrightarrow> same_bytes a n m (store_bytes b bs m)"
  by (auto simp: same_bytes_def store_bytes_def)

lemma load_same: "same_bytes a n m m' \<Longrightarrow> load_bytes m' a n = load_bytes m a n"
  by (simp add: load_bytes_def same_bytes_def)

lemma load_store_disjoint:
  "b + length bs \<le> a \<or> a + n \<le> b \<Longrightarrow> load_bytes (store_bytes b bs m) a n = load_bytes m a n"
  by (rule load_same) (rule same_bytes_store)

text \<open>Wide characters, two bytes each.\<close>

type_synonym wstring = "u16 list"

abbreviation wide_bytes :: "wstring \<Rightarrow> bytes" where
  "wide_bytes s \<equiv> concat (map (le_bytes 2) s)"

fun u16_list :: "bytes \<Rightarrow> u16 list" where
  "u16_list (a # b # bs) = le_value [a, b] # u16_list bs"
| "u16_list bs = []"

lemma u16_list_bytes [simp]: "u16_list (wide_bytes s) = s"
proof (induction s)
  case (Cons w s)
  have "le_bytes 2 w = [ucast w, ucast (drop_bit 8 w)]" by (simp add: numeral_2_eq_2)
  moreover have "le_value [ucast w, ucast (drop_bit 8 w)] = w" using le_value_exact(2) [of w] calculation by simp
  ultimately show ?case using Cons by simp
qed simp

lemma length_u16_bytes [simp]: "length (wide_bytes s) = 2 * length s"
  by (induction s) simp_all

end
