(* ===== verification/Pickle.thy ===== *)
theory Pickle
  imports Byte_Memory
begin

text \<open>
  The serialization of \<^verbatim>\<open>base/pickle.cc\<close>, which the broker's messages use: a header with the
  payload's size, then values, each padded to a multiple of four bytes. Written pickles are
  bytes with the capacity that is allocated for them. Reading works on untrusted bytes, and a
  read outside of them is an outcome of its own. The theory ends with the round trip and with
  the proof that no read leaves the bytes.
\<close>

subsection \<open>Strings as bytes\<close>

definition bytes_of_string :: "string \<Rightarrow> bytes" where
  "bytes_of_string s = map (\<lambda>c. of_nat (of_char c)) s"

definition string_of_bytes :: "bytes \<Rightarrow> string" where
  "string_of_bytes bs = map (\<lambda>b. char_of (unat b)) bs"

text \<open>\<open>bits::Align\<close>, for sizes that do not wrap around.\<close>

definition Align :: "nat \<Rightarrow> nat \<Rightarrow> nat" where
  "Align sz alignment = (sz + alignment - 1) div alignment * alignment"

subsection \<open>Writing\<close>

definition kPayloadUnit :: nat where "kPayloadUnit = 64"
definition kCapacityReadOnly :: nat where "kCapacityReadOnly = 2 ^ 64 - 1"

text \<open>
  \<open>pk_memory\<close> is what \<open>header_\<close> points to, as far as it is initialized: the header and
  \<open>write_offset_\<close> bytes of payload for a pickle that is written, the caller's buffer for one
  that is read. \<open>None\<close> is the null pointer.
\<close>

record pickle =
  pk_memory :: "bytes option"
  pk_header_size :: nat
  pk_capacity_after_header :: nat
  pk_write_offset :: nat

definition sizeof_Header :: nat where "sizeof_Header = 4"

definition set_payload_size :: "nat \<Rightarrow> bytes \<Rightarrow> bytes" where
  "set_payload_size n mem = le_bytes 4 (of_nat n :: u32) @ drop 4 mem"

definition Pickle_Resize :: "nat \<Rightarrow> pickle \<Rightarrow> abort + pickle" where
  "Pickle_Resize new_capacity p =
     res_bind (check (pk_capacity_after_header p \<noteq> kCapacityReadOnly) ''read only'') (\<lambda>_.
     Inr (p\<lparr>pk_capacity_after_header := Align new_capacity kPayloadUnit\<rparr>))"

text \<open>The constructors \<open>Pickle(int header_size)\<close> and \<open>Pickle()\<close>; the rest of a header is the caller's.\<close>

definition Pickle_with_header :: "nat \<Rightarrow> bytes \<Rightarrow> abort + pickle" where
  "Pickle_with_header header_size rest =
     Pickle_Resize kPayloadUnit
       \<lparr>pk_memory = Some (set_payload_size 0 (take (Align header_size 4) (replicate 4 0 @ rest))),
        pk_header_size = Align header_size 4, pk_capacity_after_header = 0, pk_write_offset = 0\<rparr>"

definition Pickle_new :: "abort + pickle" where
  "Pickle_new = Pickle_with_header sizeof_Header []"

definition kPickleHeapAlign :: nat where "kPickleHeapAlign = 4096"

text \<open>
  \<open>ClaimUninitializedBytesInternal\<close> and the copy that every caller makes to the claimed bytes.
  Writing to a read-only pickle is refused by a \<open>DCHECK\<close>.
\<close>

definition WriteBytesCommon :: "bytes \<Rightarrow> pickle \<Rightarrow> abort + pickle" where
  "WriteBytesCommon data p =
     res_bind (check (kCapacityReadOnly \<noteq> pk_capacity_after_header p) ''oops: pickle is readonly'') (\<lambda>_.
     let data_len = Align (length data) 4;
         new_size = pk_write_offset p + data_len in
     res_bind
       (if new_size > pk_capacity_after_header p then
          (let new_capacity = pk_capacity_after_header p * 2;
               new_capacity = (if new_capacity > kPickleHeapAlign
                               then Align new_capacity kPickleHeapAlign - kPayloadUnit else new_capacity)
           in Pickle_Resize (max new_capacity new_size) p)
        else Inr p) (\<lambda>p.
     case pk_memory p of
       None \<Rightarrow> Inl (CheckFailed ''header_'')
     | Some mem \<Rightarrow>
         Inr (p\<lparr>pk_memory := Some (set_payload_size new_size mem @ data
                   @ replicate (data_len - length data) 0),
               pk_write_offset := new_size\<rparr>)))"

definition WriteInt :: "u32 \<Rightarrow> pickle \<Rightarrow> abort + pickle" where
  "WriteInt v p = WriteBytesCommon (le_bytes 4 v) p"

definition WriteBool :: "bool \<Rightarrow> pickle \<Rightarrow> abort + pickle" where
  "WriteBool v p = WriteInt (if v then 1 else 0) p"

definition WriteUInt16 :: "u16 \<Rightarrow> pickle \<Rightarrow> abort + pickle" where
  "WriteUInt16 v p = WriteBytesCommon (le_bytes 2 v) p"

definition WriteUInt32 :: "u32 \<Rightarrow> pickle \<Rightarrow> abort + pickle" where
  "WriteUInt32 v p = WriteBytesCommon (le_bytes 4 v) p"

definition WriteInt64 :: "u64 \<Rightarrow> pickle \<Rightarrow> abort + pickle" where
  "WriteInt64 v p = WriteBytesCommon (le_bytes 8 v) p"

definition WriteUInt64 :: "u64 \<Rightarrow> pickle \<Rightarrow> abort + pickle" where
  "WriteUInt64 v p = WriteBytesCommon (le_bytes 8 v) p"

definition WriteLong :: "u64 \<Rightarrow> pickle \<Rightarrow> abort + pickle" where
  "WriteLong v p = WriteBytesCommon (le_bytes 8 v) p"

definition WriteBytes :: "bytes \<Rightarrow> pickle \<Rightarrow> abort + pickle" where
  "WriteBytes data p = WriteBytesCommon data p"

definition WriteString :: "string \<Rightarrow> pickle \<Rightarrow> abort + pickle" where
  "WriteString s p =
     res_bind (WriteInt (of_nat (length s)) p) (\<lambda>p. WriteBytes (bytes_of_string s) p)"

definition WriteString16 :: "u16 list \<Rightarrow> pickle \<Rightarrow> abort + pickle" where
  "WriteString16 s p =
     res_bind (WriteInt (of_nat (length s)) p) (\<lambda>p. WriteBytes (concat (map (le_bytes 2) s)) p)"

definition WriteData :: "bytes \<Rightarrow> pickle \<Rightarrow> abort + pickle" where
  "WriteData data p = res_bind (WriteInt (of_nat (length data)) p) (\<lambda>p. WriteBytes data p)"

text \<open>\<open>ClaimBytes\<close> fills what it claims with zeros; \<open>Reserve\<close> only grows the capacity.\<close>

definition ClaimBytes :: "nat \<Rightarrow> pickle \<Rightarrow> abort + pickle" where
  "ClaimBytes num_bytes p = WriteBytesCommon (replicate num_bytes 0) p"

definition Reserve :: "nat \<Rightarrow> pickle \<Rightarrow> abort + pickle" where
  "Reserve len p =
     (let data_len = Align len 4;
          new_size = pk_write_offset p + data_len in
      if new_size > pk_capacity_after_header p
      then Pickle_Resize (pk_capacity_after_header p * 2 + new_size) p else Inr p)"

definition GetTotalAllocatedSize :: "pickle \<Rightarrow> nat" where
  "GetTotalAllocatedSize p =
     (if pk_capacity_after_header p = kCapacityReadOnly then 0 else pk_header_size p + pk_capacity_after_header p)"

subsection \<open>Reading\<close>

text \<open>The constructor over a buffer: the subtraction of an \<open>int\<close> and a \<open>uint32_t\<close> wraps around.\<close>

definition header_payload_size :: "bytes \<Rightarrow> u32" where
  "header_payload_size mem = le_value (take 4 mem)"

definition Pickle_from :: "bytes \<Rightarrow> pickle" where
  "Pickle_from data =
     (let data_len = length data;
          header_size = (if data_len \<ge> sizeof_Header
                         then unat (of_nat data_len - header_payload_size data) else 0);
          header_size = (if header_size > data_len then 0 else header_size);
          header_size = (if header_size \<noteq> Align header_size 4 then 0 else header_size)
      in \<lparr>pk_memory = (if header_size = 0 then None else Some data), pk_header_size = header_size,
          pk_capacity_after_header = kCapacityReadOnly, pk_write_offset = 0\<rparr>)"

definition payload_size :: "pickle \<Rightarrow> nat" where
  "payload_size p = (case pk_memory p of None \<Rightarrow> 0 | Some mem \<Rightarrow> unat (header_payload_size mem))"

text \<open>The bytes from \<open>payload()\<close> to the end of the memory it points into.\<close>

definition payload :: "pickle \<Rightarrow> bytes" where
  "payload p = (case pk_memory p of None \<Rightarrow> [] | Some mem \<Rightarrow> drop (pk_header_size p) mem)"

definition pickle_size :: "pickle \<Rightarrow> nat" where
  "pickle_size p = pk_header_size p + payload_size p"

definition pickle_data :: "pickle \<Rightarrow> bytes" where
  "pickle_data p = (case pk_memory p of None \<Rightarrow> [] | Some mem \<Rightarrow> take (pickle_size p) mem)"

text \<open>The copy constructor reads the header of the other pickle, which must not be null.\<close>

definition Pickle_copy :: "pickle \<Rightarrow> abort + pickle" where
  "Pickle_copy other =
     (case pk_memory other of
        None \<Rightarrow> Inl OutOfBoundsAccess
      | Some mem \<Rightarrow>
          Pickle_Resize (payload_size other)
            \<lparr>pk_memory = Some (take (pk_header_size other + payload_size other) mem),
             pk_header_size = pk_header_size other, pk_capacity_after_header = 0,
             pk_write_offset = pk_write_offset other\<rparr>)"

record pickle_iterator =
  it_payload :: bytes
  it_read_index :: nat
  it_end_index :: nat

definition PickleIterator :: "pickle \<Rightarrow> pickle_iterator" where
  "PickleIterator p = \<lparr>it_payload = payload p, it_read_index = 0, it_end_index = payload_size p\<rparr>"

text \<open>
  A read yields the iterator and a value, none if the read fails; \<open>OutOfBounds\<close> is a read of
  memory that does not belong to the buffer.
\<close>

datatype 'a read_result = OutOfBounds | ReadOk "'a option" pickle_iterator

definition read_bind ::
    "'a read_result \<Rightarrow> ('a \<Rightarrow> pickle_iterator \<Rightarrow> 'b read_result) \<Rightarrow> 'b read_result" where
  "read_bind r f =
     (case r of
        OutOfBounds \<Rightarrow> OutOfBounds
      | ReadOk None it \<Rightarrow> ReadOk None it
      | ReadOk (Some x) it \<Rightarrow> f x it)"

definition Advance :: "nat \<Rightarrow> pickle_iterator \<Rightarrow> pickle_iterator" where
  "Advance sz it =
     (let aligned_size = Align sz 4 in
      if it_end_index it - it_read_index it < aligned_size then it\<lparr>it_read_index := it_end_index it\<rparr>
      else it\<lparr>it_read_index := it_read_index it + aligned_size\<rparr>)"

text \<open>The \<open>n\<close> bytes at \<open>payload_ + read_index_\<close>.\<close>

definition load :: "nat \<Rightarrow> pickle_iterator \<Rightarrow> (bytes \<Rightarrow> 'a) \<Rightarrow> pickle_iterator \<Rightarrow> 'a read_result" where
  "load n it f it' =
     (if it_read_index it + n \<le> length (it_payload it)
      then ReadOk (Some (f (take n (drop (it_read_index it) (it_payload it))))) it' else OutOfBounds)"

text \<open>\<open>ReadBuiltinType<T>\<close>, for \<open>sizeof(T) = n\<close>, and the read of a number of bytes.\<close>

definition ReadBuiltinType :: "nat \<Rightarrow> (bytes \<Rightarrow> 'a) \<Rightarrow> pickle_iterator \<Rightarrow> 'a read_result" where
  "ReadBuiltinType n f it =
     (if n > it_end_index it - it_read_index it
      then ReadOk None (it\<lparr>it_read_index := it_end_index it\<rparr>)
      else load n it f (Advance n it))"

definition ReadBytes :: "u32 \<Rightarrow> pickle_iterator \<Rightarrow> bytes read_result" where
  "ReadBytes num_bytes it =
     (if sint num_bytes < 0 \<or> it_end_index it - it_read_index it < unat num_bytes
      then ReadOk None (it\<lparr>it_read_index := it_end_index it\<rparr>)
      else load (unat num_bytes) it id (Advance (unat num_bytes) it))"

definition ReadInt :: "pickle_iterator \<Rightarrow> u32 read_result" where
  "ReadInt it = ReadBuiltinType 4 le_value it"

definition ReadBool :: "pickle_iterator \<Rightarrow> bool read_result" where
  "ReadBool it = ReadBuiltinType 1 (\<lambda>bs. bs \<noteq> [0]) it"

definition ReadUInt16 :: "pickle_iterator \<Rightarrow> u16 read_result" where
  "ReadUInt16 it = ReadBuiltinType 2 le_value it"

definition ReadUInt32 :: "pickle_iterator \<Rightarrow> u32 read_result" where
  "ReadUInt32 it = ReadBuiltinType 4 le_value it"

definition ReadInt64 :: "pickle_iterator \<Rightarrow> u64 read_result" where
  "ReadInt64 it = ReadBuiltinType 8 le_value it"

definition ReadUInt64 :: "pickle_iterator \<Rightarrow> u64 read_result" where
  "ReadUInt64 it = ReadBuiltinType 8 le_value it"

text \<open>On a 64-bit machine the \<open>checked_cast<long>\<close> never fails.\<close>

definition ReadLong :: "pickle_iterator \<Rightarrow> u64 read_result" where
  "ReadLong it = ReadBuiltinType 8 le_value it"

definition ReadString :: "pickle_iterator \<Rightarrow> string read_result" where
  "ReadString it =
     read_bind (ReadInt it) (\<lambda>len it.
     read_bind (ReadBytes len it) (\<lambda>bs it. ReadOk (Some (string_of_bytes bs)) it))"

definition ReadData :: "pickle_iterator \<Rightarrow> bytes read_result" where
  "ReadData it = read_bind (ReadInt it) (\<lambda>len it. ReadBytes len it)"

definition ReadLength :: "pickle_iterator \<Rightarrow> u32 read_result" where
  "ReadLength it =
     read_bind (ReadInt it) (\<lambda>len it. if sint len \<ge> 0 then ReadOk (Some len) it else ReadOk None it)"

definition SkipBytes :: "u32 \<Rightarrow> pickle_iterator \<Rightarrow> unit read_result" where
  "SkipBytes num_bytes it = read_bind (ReadBytes num_bytes it) (\<lambda>bs it. ReadOk (Some ()) it)"

text \<open>The check of the length against the overflow of \<open>int\<close> leaves the iterator where it is.\<close>

definition ReadString16 :: "pickle_iterator \<Rightarrow> u16 list read_result" where
  "ReadString16 it =
     read_bind (ReadInt it) (\<lambda>len it.
     let num_bytes = sint len * 2 in
     if num_bytes \<noteq> sint (of_int num_bytes :: u32) then ReadOk None it
     else read_bind (ReadBytes (of_int num_bytes) it) (\<lambda>bs it. ReadOk (Some (u16_list bs)) it))"

subsection \<open>Sizes\<close>

definition AddBytes :: "nat \<Rightarrow> nat \<Rightarrow> nat" where
  "AddBytes len sizer = sizer + Align len 4"

definition AddString :: "string \<Rightarrow> nat \<Rightarrow> nat" where
  "AddString s sizer = AddBytes (length s) (AddBytes 4 sizer)"

definition AddString16 :: "u16 list \<Rightarrow> nat \<Rightarrow> nat" where
  "AddString16 s sizer = AddBytes (length s * 2) (AddBytes 4 sizer)"

definition AddData :: "int \<Rightarrow> nat \<Rightarrow> abort + nat" where
  "AddData len sizer =
     res_bind (check (len \<ge> 0) ''length >= 0'') (\<lambda>_. Inr (AddBytes (nat len) (AddBytes 4 sizer)))"

text \<open>\<open>PeekNext\<close> and \<open>FindNext\<close> over the bytes from \<open>start\<close> to \<open>end\<close>.\<close>

definition PeekNext :: "nat \<Rightarrow> bytes \<Rightarrow> nat option" where
  "PeekNext header_size buf =
     (if length buf < sizeof_Header \<or> length buf < header_size then None
      else if unat (header_payload_size buf) > 2 ^ 64 - 1 - header_size then Some (2 ^ 64 - 1)
      else Some (header_size + unat (header_payload_size buf)))"

definition FindNext :: "nat \<Rightarrow> bytes \<Rightarrow> nat option" where
  "FindNext header_size buf =
     (case PeekNext header_size buf of
        None \<Rightarrow> None
      | Some sz \<Rightarrow> if sz > length buf then None else Some sz)"

subsection \<open>Sequences of values\<close>

datatype pickle_type =
    TBool | TInt | TLong | TUInt16 | TUInt32 | TInt64 | TUInt64 | TString | TString16 | TData

datatype pickle_value =
    VBool bool | VInt u32 | VLong u64 | VUInt16 u16 | VUInt32 u32 | VInt64 u64 | VUInt64 u64
  | VString string | VString16 "u16 list" | VData bytes

fun type_of_value :: "pickle_value \<Rightarrow> pickle_type" where
  "type_of_value (VBool b) = TBool"
| "type_of_value (VInt w) = TInt"
| "type_of_value (VLong w) = TLong"
| "type_of_value (VUInt16 w) = TUInt16"
| "type_of_value (VUInt32 w) = TUInt32"
| "type_of_value (VInt64 w) = TInt64"
| "type_of_value (VUInt64 w) = TUInt64"
| "type_of_value (VString s) = TString"
| "type_of_value (VString16 s) = TString16"
| "type_of_value (VData bs) = TData"

fun write_value :: "pickle_value \<Rightarrow> pickle \<Rightarrow> abort + pickle" where
  "write_value (VBool b) p = WriteBool b p"
| "write_value (VInt w) p = WriteInt w p"
| "write_value (VLong w) p = WriteLong w p"
| "write_value (VUInt16 w) p = WriteUInt16 w p"
| "write_value (VUInt32 w) p = WriteUInt32 w p"
| "write_value (VInt64 w) p = WriteInt64 w p"
| "write_value (VUInt64 w) p = WriteUInt64 w p"
| "write_value (VString s) p = WriteString s p"
| "write_value (VString16 s) p = WriteString16 s p"
| "write_value (VData bs) p = WriteData bs p"

fun write_values :: "pickle_value list \<Rightarrow> pickle \<Rightarrow> abort + pickle" where
  "write_values [] p = Inr p"
| "write_values (v # vs) p = res_bind (write_value v p) (write_values vs)"

definition read_map :: "('a \<Rightarrow> 'b) \<Rightarrow> 'a read_result \<Rightarrow> 'b read_result" where
  "read_map f r = read_bind r (\<lambda>x it. ReadOk (Some (f x)) it)"

fun read_value :: "pickle_type \<Rightarrow> pickle_iterator \<Rightarrow> pickle_value read_result" where
  "read_value TBool it = read_map VBool (ReadBool it)"
| "read_value TInt it = read_map VInt (ReadInt it)"
| "read_value TLong it = read_map VLong (ReadLong it)"
| "read_value TUInt16 it = read_map VUInt16 (ReadUInt16 it)"
| "read_value TUInt32 it = read_map VUInt32 (ReadUInt32 it)"
| "read_value TInt64 it = read_map VInt64 (ReadInt64 it)"
| "read_value TUInt64 it = read_map VUInt64 (ReadUInt64 it)"
| "read_value TString it = read_map VString (ReadString it)"
| "read_value TString16 it = read_map VString16 (ReadString16 it)"
| "read_value TData it = read_map VData (ReadData it)"

fun read_values :: "pickle_type list \<Rightarrow> pickle_iterator \<Rightarrow> pickle_value list read_result" where
  "read_values [] it = ReadOk (Some []) it"
| "read_values (t # ts) it =
     read_bind (read_value t it) (\<lambda>v it. read_map (\<lambda>vs. v # vs) (read_values ts it))"

subsection \<open>Reads stay inside the bytes\<close>

definition iterator_ok :: "pickle_iterator \<Rightarrow> bool" where
  "iterator_ok it \<longleftrightarrow> it_read_index it \<le> it_end_index it \<and> it_end_index it \<le> length (it_payload it)"

text \<open>A read that leaves the buffer and its limits alone.\<close>

definition safe_read :: "'a read_result \<Rightarrow> bool" where
  "safe_read r \<longleftrightarrow> (\<exists>v it. r = ReadOk v it \<and> iterator_ok it)"

lemma safe_read_ReadOk [simp]: "safe_read (ReadOk v it) = iterator_ok it"
  by (simp add: safe_read_def)

lemma safe_read_bind:
  "safe_read r \<Longrightarrow> (\<And>x it. iterator_ok it \<Longrightarrow> safe_read (f x it)) \<Longrightarrow> safe_read (read_bind r f)"
  by (auto simp: safe_read_def read_bind_def split: option.splits)

lemma safe_read_map: "safe_read r \<Longrightarrow> safe_read (read_map f r)"
  unfolding read_map_def by (rule safe_read_bind) simp_all

lemma Advance_ok: "iterator_ok it \<Longrightarrow> iterator_ok (Advance n it)"
  by (auto simp: iterator_ok_def Advance_def Let_def)

lemma load_safe:
  "iterator_ok it \<Longrightarrow> n \<le> it_end_index it - it_read_index it \<Longrightarrow> iterator_ok it' \<Longrightarrow> safe_read (load n it f it')"
  by (auto simp: iterator_ok_def load_def)

lemma ReadBuiltinType_safe: "iterator_ok it \<Longrightarrow> safe_read (ReadBuiltinType n f it)"
  by (auto simp: ReadBuiltinType_def intro!: load_safe Advance_ok) (simp add: iterator_ok_def)

lemma ReadBytes_safe: "iterator_ok it \<Longrightarrow> safe_read (ReadBytes n it)"
  by (auto simp: ReadBytes_def intro!: load_safe Advance_ok) (simp_all add: iterator_ok_def)

lemmas read_defs = ReadInt_def ReadBool_def ReadUInt16_def ReadUInt32_def ReadInt64_def ReadUInt64_def
  ReadLong_def ReadString_def ReadData_def ReadString16_def

lemma builtin_reads_safe:
  assumes "iterator_ok it"
  shows "safe_read (ReadInt it)" "safe_read (ReadBool it)" "safe_read (ReadUInt16 it)" "safe_read (ReadUInt32 it)"
    "safe_read (ReadInt64 it)" "safe_read (ReadUInt64 it)" "safe_read (ReadLong it)"
  using assms by (simp_all add: read_defs ReadBuiltinType_safe)

lemma string_reads_safe:
  assumes "iterator_ok it"
  shows "safe_read (ReadString it)" "safe_read (ReadData it)" "safe_read (ReadString16 it)"
proof -
  show "safe_read (ReadString it)" unfolding ReadString_def
    by (intro safe_read_bind builtin_reads_safe ReadBytes_safe assms) simp_all
  show "safe_read (ReadData it)" unfolding ReadData_def
    by (intro safe_read_bind builtin_reads_safe ReadBytes_safe assms) simp_all
  have "safe_read (if b then ReadOk None it' else read_bind (ReadBytes n it') (\<lambda>bs it. ReadOk (Some (u16_list bs)) it))"
    if "iterator_ok it'" for b n it'
    using that by (simp add: safe_read_bind ReadBytes_safe)
  then show "safe_read (ReadString16 it)" unfolding ReadString16_def Let_def
    by (intro safe_read_bind builtin_reads_safe assms)
qed

lemma other_reads_safe:
  "iterator_ok it \<Longrightarrow> safe_read (ReadLength it)" "iterator_ok it \<Longrightarrow> safe_read (SkipBytes n it)"
  unfolding ReadLength_def SkipBytes_def
  by (intro safe_read_bind builtin_reads_safe ReadBytes_safe; simp)+

lemma read_value_safe: "iterator_ok it \<Longrightarrow> safe_read (read_value t it)"
  by (cases t) (simp_all add: safe_read_map builtin_reads_safe string_reads_safe)

lemma read_values_safe: "iterator_ok it \<Longrightarrow> safe_read (read_values ts it)"
  by (induction ts arbitrary: it) (auto intro!: safe_read_bind safe_read_map read_value_safe)

lemma Align_4: "Align n 4 mod 4 = 0" "n \<le> Align n 4" "Align n 4 < n + 4"
proof -
  have "n + 3 = (n + 3) div 4 * 4 + (n + 3) mod 4" by simp
  moreover have "(n + 3) mod 4 < 4" by simp
  ultimately show "n \<le> Align n 4" "Align n 4 < n + 4" unfolding Align_def by linarith+
  show "Align n 4 mod 4 = 0" by (simp add: Align_def)
qed

lemma PickleIterator_ok:
  assumes "length data < 2 ^ 31"
  shows "iterator_ok (PickleIterator (Pickle_from data))"
proof -
  let ?hs = "unat (of_nat (length data) - header_payload_size data)"
  have len: "unat (of_nat (length data) :: u32) = length data"
    using assms by (intro unat_of_nat_small) simp
  have pl: "unat (header_payload_size data) < 2 ^ 32"
    using unsigned_less [of "header_payload_size data", where 'a = nat] by simp
  have "unat (header_payload_size data) \<le> length data - ?hs" if "?hs \<le> length data"
    using unat_sub_if' [of "of_nat (length data)" "header_payload_size data"] len pl that
    by (simp split: if_splits)
  then show ?thesis
    by (auto simp: iterator_ok_def PickleIterator_def Pickle_from_def payload_def payload_size_def Let_def)
qed

subsection \<open>The round trip\<close>

lemma le_bytes_4_of_bool: "take 1 (le_bytes 4 (if b then 1 else 0 :: u32)) \<noteq> [0] \<longleftrightarrow> b"
  by (simp add: numeral_eq_Suc)

lemma string_of_bytes_of_string [simp]: "string_of_bytes (bytes_of_string s) = s"
proof -
  have "char_of (unat (of_nat (of_char c) :: u8)) = c" for c
  proof -
    have "(of_char c :: nat) < 256" by (rule nat_of_char_less_256)
    then show ?thesis by (simp add: unat_of_nat_small)
  qed
  then show ?thesis by (simp add: string_of_bytes_def bytes_of_string_def comp_def)
qed

lemma length_bytes_of_string [simp]: "length (bytes_of_string s) = length s"
  by (simp add: bytes_of_string_def)

definition padded :: "bytes \<Rightarrow> bytes" where
  "padded bs = bs @ replicate (Align (length bs) 4 - length bs) 0"

lemma length_padded [simp]: "length (padded bs) = Align (length bs) 4"
  using Align_4(2) [of "length bs"] by (simp add: padded_def)

lemma take_padded [simp]: "take (length bs) (padded bs) = bs"
  by (simp add: padded_def)

fun encode_value :: "pickle_value \<Rightarrow> bytes" where
  "encode_value (VBool b) = padded (le_bytes 4 (if b then 1 else 0 :: u32))"
| "encode_value (VInt w) = padded (le_bytes 4 w)"
| "encode_value (VLong w) = padded (le_bytes 8 w)"
| "encode_value (VUInt16 w) = padded (le_bytes 2 w)"
| "encode_value (VUInt32 w) = padded (le_bytes 4 w)"
| "encode_value (VInt64 w) = padded (le_bytes 8 w)"
| "encode_value (VUInt64 w) = padded (le_bytes 8 w)"
| "encode_value (VString s) = padded (le_bytes 4 (of_nat (length s) :: u32)) @ padded (bytes_of_string s)"
| "encode_value (VString16 s) =
     padded (le_bytes 4 (of_nat (length s) :: u32)) @ padded (concat (map (le_bytes 2) s))"
| "encode_value (VData bs) = padded (le_bytes 4 (of_nat (length bs) :: u32)) @ padded bs"

text \<open>A pickle under construction that holds the payload \<open>pl\<close>.\<close>

definition holds :: "pickle \<Rightarrow> bytes \<Rightarrow> bool" where
  "holds p pl \<longleftrightarrow>
     pk_memory p = Some (le_bytes 4 (of_nat (length pl) :: u32) @ pl) \<and> pk_header_size p = 4
   \<and> pk_write_offset p = length pl \<and> pk_capacity_after_header p \<noteq> kCapacityReadOnly"

lemma Align_64_writable: "Align n 64 \<noteq> kCapacityReadOnly"
proof
  assume "Align n 64 = kCapacityReadOnly"
  then have "64 dvd kCapacityReadOnly" by (metis Align_def dvd_triv_right)
  then show False by (simp add: kCapacityReadOnly_def)
qed

lemma Pickle_new_holds: "\<exists>p. Pickle_new = Inr p \<and> holds p []"
  using Align_64_writable [of 64]
  by (simp add: Pickle_new_def Pickle_with_header_def Pickle_Resize_def sizeof_Header_def kPayloadUnit_def
      set_payload_size_def holds_def Align_def kCapacityReadOnly_def)

lemma WriteBytesCommon_holds:
  assumes "holds p pl"
  shows "\<exists>p'. WriteBytesCommon data p = Inr p' \<and> holds p' (pl @ padded data)"
  using assms Align_64_writable
  by (auto simp: WriteBytesCommon_def holds_def Let_def Pickle_Resize_def set_payload_size_def padded_def
      kPayloadUnit_def Align_4(2))

lemma ClaimBytes_holds:
  "holds p pl \<Longrightarrow> \<exists>p'. ClaimBytes n p = Inr p' \<and> holds p' (pl @ replicate (Align n 4) 0)"
  using WriteBytesCommon_holds [of p pl "replicate n 0"] Align_4(2) [of n]
  by (simp add: ClaimBytes_def padded_def flip: replicate_add)

lemma Reserve_holds: "holds p pl \<Longrightarrow> \<exists>p'. Reserve n p = Inr p' \<and> holds p' pl"
  using Align_64_writable by (auto simp: Reserve_def holds_def Let_def Pickle_Resize_def kPayloadUnit_def)

lemma Pickle_copy_holds:
  assumes "holds p pl" and "length pl < 2 ^ 32"
  shows "\<exists>p'. Pickle_copy p = Inr p' \<and> holds p' pl \<and> pickle_data p' = pickle_data p"
proof -
  have "unat (of_nat (length pl) :: u32) = length pl" using assms(2) by (intro unat_of_nat_small) simp
  then show ?thesis
    using assms(1) Align_64_writable
    by (auto simp: Pickle_copy_def holds_def Pickle_Resize_def kPayloadUnit_def payload_size_def
        header_payload_size_def pickle_data_def pickle_size_def kCapacityReadOnly_def)
qed

lemma WriteBytesCommon_then:
  assumes "holds p pl" and "\<And>p'. holds p' (pl @ padded data) \<Longrightarrow> \<exists>q. f p' = Inr q \<and> holds q pl'"
  shows "\<exists>q. res_bind (WriteBytesCommon data p) f = Inr q \<and> holds q pl'"
  using WriteBytesCommon_holds [OF assms(1), of data] assms(2) by auto

lemmas write_defs = WriteBool_def WriteInt_def WriteLong_def WriteUInt16_def WriteUInt32_def WriteInt64_def
  WriteUInt64_def WriteString_def WriteString16_def WriteData_def WriteBytes_def

lemma write_value_holds:
  assumes "holds p pl"
  shows "\<exists>p'. write_value v p = Inr p' \<and> holds p' (pl @ encode_value v)"
proof (cases v)
  case (VString s)
  show ?thesis unfolding VString write_value.simps write_defs encode_value.simps append.assoc [symmetric]
    by (rule WriteBytesCommon_then [OF assms]) (rule WriteBytesCommon_holds)
next
  case (VString16 s)
  show ?thesis unfolding VString16 write_value.simps write_defs encode_value.simps append.assoc [symmetric]
    by (rule WriteBytesCommon_then [OF assms]) (rule WriteBytesCommon_holds)
next
  case (VData bs)
  show ?thesis unfolding VData write_value.simps write_defs encode_value.simps append.assoc [symmetric]
    by (rule WriteBytesCommon_then [OF assms]) (rule WriteBytesCommon_holds)
qed (use WriteBytesCommon_holds [OF assms] in \<open>simp_all add: write_defs\<close>)

lemma write_values_holds:
  "holds p pl \<Longrightarrow> \<exists>p'. write_values vs p = Inr p' \<and> holds p' (pl @ concat (map encode_value vs))"
proof (induction vs arbitrary: p pl)
  case (Cons v vs)
  obtain p' where p': "write_value v p = Inr p'" "holds p' (pl @ encode_value v)"
    using write_value_holds [OF Cons.prems] by blast
  from Cons.IH [OF p'(2)] p'(1) show ?case by auto
qed simp

text \<open>The iterator at position \<open>n\<close> of a payload.\<close>

definition at :: "nat \<Rightarrow> bytes \<Rightarrow> pickle_iterator" where
  "at n pl = \<lparr>it_payload = pl, it_read_index = n, it_end_index = length pl\<rparr>"

lemma Pickle_from_holds:
  assumes "holds p pl" and "length pl + 4 < 2 ^ 31"
  shows "PickleIterator (Pickle_from (pickle_data p)) = at 0 pl"
proof -
  let ?len = "of_nat (length pl) :: u32"
  have u: "unat ?len = length pl" using assms(2) by (intro unat_of_nat_small) simp
  have mem: "pk_memory p = Some (le_bytes 4 ?len @ pl)" "pk_header_size p = 4"
    using assms(1) by (simp_all add: holds_def)
  then have data: "pickle_data p = le_bytes 4 ?len @ pl"
    by (simp add: pickle_data_def pickle_size_def payload_size_def header_payload_size_def u)
  have "unat (of_nat (length pl + 4) - ?len :: u32) = 4" by simp
  then show ?thesis
    by (simp add: data PickleIterator_def Pickle_from_def Let_def header_payload_size_def payload_def
        payload_size_def sizeof_Header_def at_def u Align_def add.commute)
qed

lemma ReadBuiltinType_at:
  assumes "take k (drop n pl) = bs" and "length bs = k" and "n + Align k 4 \<le> length pl"
  shows "ReadBuiltinType k f (at n pl) = ReadOk (Some (f bs)) (at (n + Align k 4) pl)"
proof -
  have "Align k 4 \<le> length pl - n" "k \<le> length pl - n" "n + k \<le> length pl"
    using assms(3) Align_4(2) [of k] by linarith+
  then show ?thesis using assms(1,2) by (simp add: ReadBuiltinType_def load_def Advance_def Let_def at_def)
qed

lemma ReadBytes_at:
  assumes "take k (drop n pl) = bs" and "length bs = k" and "n + Align k 4 \<le> length pl"
    and "length pl < 2 ^ 31"
  shows "ReadBytes (of_nat k) (at n pl) = ReadOk (Some bs) (at (n + Align k 4) pl)"
proof -
  have k: "k < 2 ^ 31" using assms(3,4) Align_4(2) [of k] by simp
  have "unat (of_nat k :: u32) = k" using k by (intro unat_of_nat_small) simp
  moreover have "sint (of_nat k :: u32) = int k"
    using k by (simp add: signed_of_nat signed_take_bit_int_eq_self)
  moreover have "Align k 4 \<le> length pl - n" "k \<le> length pl - n" "n + k \<le> length pl"
    using assms(3) Align_4(2) [of k] by linarith+
  ultimately show ?thesis
    using assms(1,2) by (simp add: ReadBytes_def load_def Advance_def Let_def at_def)
qed

text \<open>The bytes of a padded block inside a payload.\<close>

lemma block_at:
  assumes "pl = pre @ padded bs @ post"
  shows "take (length bs) (drop (length pre) pl) = bs"
    and "length pre + Align (length bs) 4 \<le> length pl"
  unfolding assms by (simp_all add: padded_def)

lemma Align_words [simp]: "Align 2 4 = 4" "Align 4 4 = 4" "Align 8 4 = 8" "Align (Suc 0) 4 = 4"
  by (simp_all add: Align_def)

lemma builtin_block:
  assumes "pl = pre @ padded bs @ post" and "length bs = k"
  shows "ReadBuiltinType k f (at (length pre) pl) = ReadOk (Some (f bs)) (at (length pre + Align k 4) pl)"
  using block_at [OF assms(1)] assms(2) by (intro ReadBuiltinType_at) simp_all

lemma bytes_block:
  assumes "pl = pre @ padded bs @ post" and "length pl < 2 ^ 31"
  shows "ReadBytes (of_nat (length bs)) (at (length pre) pl)
    = ReadOk (Some bs) (at (length pre + Align (length bs) 4) pl)"
  using block_at [OF assms(1)] assms(2) by (intro ReadBytes_at) simp_all

lemma read_bind_Some [simp]: "read_bind (ReadOk (Some x) it) f = f x it"
  by (simp add: read_bind_def)

lemma read_map_Some [simp]: "read_map f (ReadOk (Some x) it) = ReadOk (Some (f x)) it"
  by (simp add: read_map_def)

text \<open>A length and the padded bytes behind it.\<close>

lemma length_block:
  assumes "pl = pre @ padded (le_bytes 4 (len :: u32)) @ padded bs @ post"
  shows "ReadInt (at (length pre) pl) = ReadOk (Some len) (at (length pre + 4) pl)"
    and "pl = (pre @ padded (le_bytes 4 len)) @ padded bs @ post"
    and "length (pre @ padded (le_bytes 4 len)) = length pre + 4"
  using builtin_block [OF assms, of 4 "le_value :: bytes \<Rightarrow> u32"] assms by (simp_all add: ReadInt_def)

lemma ReadBool_at:
  assumes "pl = pre @ padded (le_bytes 4 (if b then 1 else 0 :: u32)) @ post"
  shows "ReadBool (at (length pre) pl) = ReadOk (Some b) (at (length pre + 4) pl)"
proof -
  let ?w = "if b then 1 else 0 :: u32"
  have "take 4 (drop (length pre) pl) = le_bytes 4 ?w" using block_at(1) [OF assms] by simp
  then have "take 1 (drop (length pre) pl) = take 1 (le_bytes 4 ?w)"
    by (metis min.absorb1 one_le_numeral take_take)
  moreover have "length pre + 4 \<le> length pl" using block_at(2) [OF assms] by simp
  ultimately show ?thesis
    using le_bytes_4_of_bool [of b] unfolding ReadBool_def by (subst ReadBuiltinType_at) simp_all
qed

lemma ReadString16_at:
  assumes "pl = pre @ padded (le_bytes 4 (of_nat (length s) :: u32)) @ padded (concat (map (le_bytes 2) s)) @ post"
    and "length pl < 2 ^ 31"
  shows "ReadString16 (at (length pre) pl) = ReadOk (Some s) (at (length pre + 4 + Align (2 * length s) 4) pl)"
proof -
  note L = length_block [OF assms(1)]
  have "2 * length s < 2 ^ 31"
    using arg_cong [OF assms(1), of length] assms(2) Align_4(2) [of "2 * length s"] by simp
  then have len: "sint (of_nat (length s) :: u32) = int (length s)"
    "sint (of_int (int (length s) * 2) :: u32) = int (length s) * 2"
    by (simp_all only: signed_of_nat signed_of_int) (simp_all add: signed_take_bit_int_eq_self)
  have "ReadBytes (of_int (int (length s) * 2)) (at (length pre + 4) pl)
      = ReadOk (Some (concat (map (le_bytes 2) s))) (at (length pre + 4 + Align (2 * length s) 4) pl)"
    using bytes_block [OF L(2) assms(2)] unfolding L(3) by (simp add: mult.commute)
  then show ?thesis
    unfolding ReadString16_def L(1) read_bind_Some Let_def len
    by (simp only: simp_thms if_False read_bind_Some u16_list_bytes)
qed

lemma builtin_reads_at:
  "pl = pre @ padded (le_bytes 4 w) @ post \<Longrightarrow> ReadInt (at (length pre) pl) = ReadOk (Some w) (at (length pre + 4) pl)"
  "pl = pre @ padded (le_bytes 4 w) @ post \<Longrightarrow> ReadUInt32 (at (length pre) pl) = ReadOk (Some w) (at (length pre + 4) pl)"
  "pl = pre @ padded (le_bytes 2 w2) @ post \<Longrightarrow> ReadUInt16 (at (length pre) pl) = ReadOk (Some w2) (at (length pre + 4) pl)"
  "pl = pre @ padded (le_bytes 8 w8) @ post \<Longrightarrow> ReadInt64 (at (length pre) pl) = ReadOk (Some w8) (at (length pre + 8) pl)"
  "pl = pre @ padded (le_bytes 8 w8) @ post \<Longrightarrow> ReadUInt64 (at (length pre) pl) = ReadOk (Some w8) (at (length pre + 8) pl)"
  "pl = pre @ padded (le_bytes 8 w8) @ post \<Longrightarrow> ReadLong (at (length pre) pl) = ReadOk (Some w8) (at (length pre + 8) pl)"
  using builtin_block [of pl pre "le_bytes 4 w" post 4 "le_value :: bytes \<Rightarrow> u32"]
    builtin_block [of pl pre "le_bytes 2 w2" post 2 "le_value :: bytes \<Rightarrow> u16"]
    builtin_block [of pl pre "le_bytes 8 w8" post 8 "le_value :: bytes \<Rightarrow> u64"]
  by (simp_all add: read_defs)

lemma read_value_at:
  assumes "pl = pre @ encode_value v @ post" and "length pl < 2 ^ 31"
  shows "read_value (type_of_value v) (at (length pre) pl)
    = ReadOk (Some v) (at (length pre + length (encode_value v)) pl)"
proof (cases v)
  case (VString s)
  then have pl: "pl = pre @ padded (le_bytes 4 (of_nat (length s) :: u32)) @ padded (bytes_of_string s) @ post"
    using assms(1) by simp
  note L = length_block [OF pl]
  show ?thesis
    using bytes_block [OF L(2) assms(2)] unfolding L(3) by (simp add: VString ReadString_def L(1) add.assoc)
next
  case (VData bs)
  then have pl: "pl = pre @ padded (le_bytes 4 (of_nat (length bs) :: u32)) @ padded bs @ post"
    using assms(1) by simp
  note L = length_block [OF pl]
  show ?thesis
    using bytes_block [OF L(2) assms(2)] unfolding L(3) by (simp add: VData ReadData_def L(1) add.assoc)
next
  case (VString16 s)
  then show ?thesis using ReadString16_at [of pl pre s post] assms by (simp add: add.assoc)
next
  case (VBool b)
  then show ?thesis using ReadBool_at [of pl pre b post] assms by simp
qed (use assms in \<open>simp_all add: builtin_reads_at\<close>)

lemma read_values_at:
  assumes "pl = pre @ concat (map encode_value vs) @ post" and "length pl < 2 ^ 31"
  shows "read_values (map type_of_value vs) (at (length pre) pl)
    = ReadOk (Some vs) (at (length pre + length (concat (map encode_value vs))) pl)"
  using assms(1)
proof (induction vs arbitrary: pre)
  case (Cons v vs)
  have v: "read_value (type_of_value v) (at (length pre) pl)
      = ReadOk (Some v) (at (length pre + length (encode_value v)) pl)"
    using Cons.prems assms(2) by (intro read_value_at) simp_all
  have "pl = (pre @ encode_value v) @ concat (map encode_value vs) @ post" using Cons.prems by simp
  from Cons.IH [OF this] v show ?case by (simp add: add.assoc)
qed simp

text \<open>
  C37: The round trip of a pickle. Whatever values of the types a pickle knows are written to a new
  one, every write succeeds, and reading the types in the same order from its bytes gives the
  values back and ends at the end of the payload, as long as the message is shorter than 2 GB.
\<close>

theorem Pickle_roundtrip:
  assumes "length (concat (map encode_value vs)) + 4 < 2 ^ 31"
  shows "\<exists>p it. res_bind Pickle_new (write_values vs) = Inr p
    \<and> read_values (map type_of_value vs) (PickleIterator (Pickle_from (pickle_data p))) = ReadOk (Some vs) it
    \<and> it_read_index it = it_end_index it"
proof -
  obtain p0 where p0: "Pickle_new = Inr p0" "holds p0 []" using Pickle_new_holds by blast
  obtain p where p: "write_values vs p0 = Inr p" "holds p (concat (map encode_value vs))"
    using write_values_holds [OF p0(2), of vs] by auto
  let ?pl = "concat (map encode_value vs)"
  have "read_values (map type_of_value vs) (at (length ([] :: bytes)) ?pl)
      = ReadOk (Some vs) (at (length ([] :: bytes) + length ?pl) ?pl)"
    by (rule read_values_at [where post = "[]"]) (use assms in simp_all)
  then have "read_values (map type_of_value vs) (PickleIterator (Pickle_from (pickle_data p)))
      = ReadOk (Some vs) (at (length ?pl) ?pl)"
    using Pickle_from_holds [OF p(2) assms] by simp
  moreover have "res_bind Pickle_new (write_values vs) = Inr p" unfolding p0(1) res_bind_Inr by (rule p(1))
  ultimately show ?thesis by (intro exI [of _ p] exI [of _ "at (length ?pl) ?pl"]) (simp add: at_def)
qed

theorem Pickle_roundtrip_witness:
  "\<exists>p it. res_bind Pickle_new (write_values [VInt 1, VString ''/etc'', VInt 0]) = Inr p
    \<and> read_values [TInt, TString, TInt] (PickleIterator (Pickle_from (pickle_data p)))
        = ReadOk (Some [VInt 1, VString ''/etc'', VInt 0]) it"
  using Pickle_roundtrip [of "[VInt 1, VString ''/etc'', VInt 0]"] by (auto simp: Align_def)

text \<open>
  C38: Reading is memory safe: over any bytes whatever, of any length an \<open>int\<close> can hold, no sequence
  of reads touches a byte outside of them, although the size in the header is taken from the bytes
  themselves.
\<close>

theorem Pickle_reads_in_bounds:
  assumes "length data < 2 ^ 31"
  shows "read_values ts (PickleIterator (Pickle_from data)) \<noteq> OutOfBounds"
  using read_values_safe [OF PickleIterator_ok [OF assms], of ts] by (auto simp: safe_read_def)

theorem Pickle_reads_in_bounds_witness:
  "read_values [TInt, TString] (PickleIterator (Pickle_from [255, 255, 255, 255, 1])) \<noteq> OutOfBounds"
  by (rule Pickle_reads_in_bounds) simp

text \<open>\<open>PickleSizer\<close> computes the size of what would be written.\<close>

fun add_value :: "pickle_value \<Rightarrow> nat \<Rightarrow> abort + nat" where
  "add_value (VBool b) n = Inr (AddBytes 4 n)"
| "add_value (VInt w) n = Inr (AddBytes 4 n)"
| "add_value (VLong w) n = Inr (AddBytes 8 n)"
| "add_value (VUInt16 w) n = Inr (AddBytes 2 n)"
| "add_value (VUInt32 w) n = Inr (AddBytes 4 n)"
| "add_value (VInt64 w) n = Inr (AddBytes 8 n)"
| "add_value (VUInt64 w) n = Inr (AddBytes 8 n)"
| "add_value (VString s) n = Inr (AddString s n)"
| "add_value (VString16 s) n = Inr (AddString16 s n)"
| "add_value (VData bs) n = AddData (int (length bs)) n"

lemma add_value_size: "add_value v n = Inr (n + length (encode_value v))"
  by (cases v) (simp_all add: AddBytes_def AddString_def AddString16_def AddData_def mult.commute)

end
