(* ===== verification/Broker_Policy.thy ===== *)
theory Broker_Policy
  imports Prelude "HOL-Library.Sublist"
begin

text \<open>
  Which files the broker opens for a sandboxed process:
  \<^verbatim>\<open>syscall_broker/broker_file_permission.cc\<close> and \<^verbatim>\<open>syscall_broker/broker_policy.cc\<close>. A
  \<open>const char*\<close> is a string without null characters, or \<open>None\<close>; flags and modes are \<open>int\<close> words.
\<close>

subsection \<open>Constants of the C library and of the broker\<close>

abbreviation (input) O_ACCMODE :: u32 where "O_ACCMODE \<equiv> 0x3"
abbreviation (input) O_RDONLY :: u32 where "O_RDONLY \<equiv> 0x0"
abbreviation (input) O_WRONLY :: u32 where "O_WRONLY \<equiv> 0x1"
abbreviation (input) O_RDWR :: u32 where "O_RDWR \<equiv> 0x2"
abbreviation (input) O_CREAT :: u32 where "O_CREAT \<equiv> 0x40"
abbreviation (input) O_EXCL :: u32 where "O_EXCL \<equiv> 0x80"
abbreviation (input) O_NOCTTY :: u32 where "O_NOCTTY \<equiv> 0x100"
abbreviation (input) O_TRUNC :: u32 where "O_TRUNC \<equiv> 0x200"
abbreviation (input) O_APPEND :: u32 where "O_APPEND \<equiv> 0x400"
abbreviation (input) O_NONBLOCK :: u32 where "O_NONBLOCK \<equiv> 0x800"
abbreviation (input) O_NDELAY :: u32 where "O_NDELAY \<equiv> 0x800"
abbreviation (input) O_ASYNC :: u32 where "O_ASYNC \<equiv> 0x2000"
abbreviation (input) O_DIRECT :: u32 where "O_DIRECT \<equiv> 0x4000"
abbreviation (input) O_LARGEFILE :: u32 where "O_LARGEFILE \<equiv> 0x0"
abbreviation (input) O_DIRECTORY :: u32 where "O_DIRECTORY \<equiv> 0x10000"
abbreviation (input) O_NOFOLLOW :: u32 where "O_NOFOLLOW \<equiv> 0x20000"
abbreviation (input) O_NOATIME :: u32 where "O_NOATIME \<equiv> 0x40000"
abbreviation (input) O_CLOEXEC :: u32 where "O_CLOEXEC \<equiv> 0x80000"
abbreviation (input) O_SYNC :: u32 where "O_SYNC \<equiv> 0x101000"
abbreviation (input) F_OK :: u32 where "F_OK \<equiv> 0"
abbreviation (input) W_OK :: u32 where "W_OK \<equiv> 2"
abbreviation (input) R_OK :: u32 where "R_OK \<equiv> 4"

definition kCurrentProcessOpenFlagsMask :: u32 where "kCurrentProcessOpenFlagsMask = O_CLOEXEC"
definition kMaxMessageLength :: nat where "kMaxMessageLength = 4096"

subsection \<open>Permissions\<close>

record broker_file_permission =
  fp_path :: string
  fp_recursive :: bool
  fp_unlink :: bool
  fp_allow_read :: bool
  fp_allow_write :: bool
  fp_allow_create :: bool

definition BrokerFilePermission ::
    "string \<Rightarrow> bool \<Rightarrow> bool \<Rightarrow> bool \<Rightarrow> bool \<Rightarrow> bool \<Rightarrow> abort + broker_file_permission" where
  "BrokerFilePermission path recursive unlink allow_read allow_write allow_create =
     res_bind (check (length path > 0) ''Invalid BrokerFilePermission'') (\<lambda>_.
     res_bind (check (path ! 0 = CHR ''/'') ''Invalid BrokerFilePermission'') (\<lambda>_.
     res_bind (if unlink then check allow_create ''Invalid BrokerFilePermission'' else Inr ()) (\<lambda>_.
     let last_char = last path in
     res_bind (if recursive then check (last_char = CHR ''/'') ''Invalid BrokerFilePermission''
               else check (last_char \<noteq> CHR ''/'') ''Invalid BrokerFilePermission'') (\<lambda>_.
     Inr \<lparr>fp_path = path, fp_recursive = recursive, fp_unlink = unlink, fp_allow_read = allow_read,
          fp_allow_write = allow_write, fp_allow_create = allow_create\<rparr>))))"

definition ReadOnly :: "string \<Rightarrow> abort + broker_file_permission" where
  "ReadOnly path = BrokerFilePermission path False False True False False"

definition ReadOnlyRecursive :: "string \<Rightarrow> abort + broker_file_permission" where
  "ReadOnlyRecursive path = BrokerFilePermission path True False True False False"

definition WriteOnly :: "string \<Rightarrow> abort + broker_file_permission" where
  "WriteOnly path = BrokerFilePermission path False False False True False"

definition ReadWrite :: "string \<Rightarrow> abort + broker_file_permission" where
  "ReadWrite path = BrokerFilePermission path False False True True False"

definition ReadWriteCreate :: "string \<Rightarrow> abort + broker_file_permission" where
  "ReadWriteCreate path = BrokerFilePermission path False False True True True"

definition ReadWriteCreateUnlink :: "string \<Rightarrow> abort + broker_file_permission" where
  "ReadWriteCreateUnlink path = BrokerFilePermission path False True True True True"

definition ReadWriteCreateUnlinkRecursive :: "string \<Rightarrow> abort + broker_file_permission" where
  "ReadWriteCreateUnlinkRecursive path = BrokerFilePermission path True True True True True"

definition ValidatePath :: "string option \<Rightarrow> bool" where
  "ValidatePath path_ptr =
     (case path_ptr of
        None \<Rightarrow> False
      | Some path \<Rightarrow>
          (let len = length path in
           if len = 0 then False
           else if path ! 0 \<noteq> CHR ''/'' then False
           else if len > 1 \<and> path ! (len - 1) = CHR ''/'' then False
           else if len \<ge> 3 \<and> path ! (len - 3) = CHR ''/'' \<and> path ! (len - 2) = CHR ''.''
                \<and> path ! (len - 1) = CHR ''.'' then False
           else if list_ex (\<lambda>i. path ! i = CHR ''/'' \<and> len - i > 3 \<and> path ! (i + 1) = CHR ''.''
                  \<and> path ! (i + 2) = CHR ''.'' \<and> path ! (i + 3) = CHR ''/'') [0..<len] then False
           else True))"

text \<open>\<open>strncmp(a, b, strlen(b)) == 0\<close> and \<open>strcmp(a, b) == 0\<close>.\<close>

definition MatchPath :: "broker_file_permission \<Rightarrow> string \<Rightarrow> bool" where
  "MatchPath perm requested_filename =
     (let path = c_str (fp_path perm) in
      if fp_recursive perm \<and> take (length path) requested_filename = path then True
      else if requested_filename = path then True
      else False)"

text \<open>
  The result is the file to access, which is set exactly when the code returns true. Where the
  caller passes a null pointer for it, only whether there is one matters.
\<close>

definition CheckAccess :: "broker_file_permission \<Rightarrow> string option \<Rightarrow> u32 \<Rightarrow> string option" where
  "CheckAccess perm requested_ptr md =
     (if md \<noteq> F_OK \<and> md AND NOT (R_OK OR W_OK) \<noteq> 0 then None
      else if \<not> ValidatePath requested_ptr then None
      else
        (let requested_filename = the requested_ptr in
         if \<not> MatchPath perm requested_filename then None
         else
           (let allowed =
              (if md = F_OK then fp_allow_read perm \<or> fp_allow_write perm
               else if md = R_OK then fp_allow_read perm
               else if md = W_OK then fp_allow_write perm
               else if md = R_OK OR W_OK then fp_allow_read perm \<and> fp_allow_write perm
               else False)
            in if allowed
               then Some (if \<not> fp_recursive perm then c_str (fp_path perm) else requested_filename)
               else None)))"

definition known_flags :: u32 where
  "known_flags =
     O_APPEND OR O_ASYNC OR O_CLOEXEC OR O_CREAT OR O_DIRECT OR O_DIRECTORY OR O_EXCL OR O_LARGEFILE
       OR O_NOATIME OR O_NOCTTY OR O_NOFOLLOW OR O_NONBLOCK OR O_NDELAY OR O_SYNC OR O_TRUNC"

text \<open>The file to open and whether to unlink it afterwards.\<close>

definition CheckOpen :: "broker_file_permission \<Rightarrow> string option \<Rightarrow> u32 \<Rightarrow> (string \<times> bool) option" where
  "CheckOpen perm requested_ptr flags =
     (if \<not> ValidatePath requested_ptr then None
      else
        (let requested_filename = the requested_ptr; access_mode = flags AND O_ACCMODE in
         if \<not> MatchPath perm requested_filename then None
         else if access_mode \<noteq> O_RDONLY \<and> access_mode \<noteq> O_WRONLY \<and> access_mode \<noteq> O_RDWR then None
         else if \<not> fp_allow_read perm \<and> (access_mode = O_RDONLY \<or> access_mode = O_RDWR) then None
         else if \<not> fp_allow_write perm \<and> (access_mode = O_WRONLY \<or> access_mode = O_RDWR) then None
         else if \<not> fp_allow_create perm \<and> flags AND O_CREAT \<noteq> 0 then None
         else if flags AND O_CREAT \<noteq> 0 \<and> \<not> flags AND O_EXCL \<noteq> 0 then None
         else if fp_unlink perm \<and> \<not> flags AND O_CREAT \<noteq> 0 then None
         else if flags AND kCurrentProcessOpenFlagsMask \<noteq> 0 then None
         else
           (let creation_and_status_flags = flags AND NOT O_ACCMODE;
                unknown_flags = NOT known_flags;
                has_unknown_flags = creation_and_status_flags AND unknown_flags \<noteq> 0
            in if has_unknown_flags then None
               else Some (if \<not> fp_recursive perm then c_str (fp_path perm) else requested_filename,
                          fp_unlink perm))))"

subsection \<open>Policies\<close>

record broker_policy =
  br_denied_errno :: int
  br_permissions :: "broker_file_permission list"

definition BrokerPolicy :: "int \<Rightarrow> broker_file_permission list \<Rightarrow> broker_policy" where
  "BrokerPolicy denied_errno permissions =
     \<lparr>br_denied_errno = denied_errno, br_permissions = permissions\<rparr>"

text \<open>The loops over the array of permissions.\<close>

fun access_loop :: "broker_file_permission list \<Rightarrow> string option \<Rightarrow> u32 \<Rightarrow> string option" where
  "access_loop [] requested md = None"
| "access_loop (perm # perms) requested md =
     (case CheckAccess perm requested md of
        Some file \<Rightarrow> Some file
      | None \<Rightarrow> access_loop perms requested md)"

fun open_loop :: "broker_file_permission list \<Rightarrow> string option \<Rightarrow> u32 \<Rightarrow> (string \<times> bool) option" where
  "open_loop [] requested flags = None"
| "open_loop (perm # perms) requested flags =
     (case CheckOpen perm requested flags of
        Some file \<Rightarrow> Some file
      | None \<Rightarrow> open_loop perms requested flags)"

text \<open>Callers pass a pointer to a null pointer for the file, so the fatal branch is not taken.\<close>

definition GetFileNameIfAllowedToAccess :: "broker_policy \<Rightarrow> string option \<Rightarrow> u32 \<Rightarrow> string option" where
  "GetFileNameIfAllowedToAccess policy requested md = access_loop (br_permissions policy) requested md"

definition GetFileNameIfAllowedToOpen ::
    "broker_policy \<Rightarrow> string option \<Rightarrow> u32 \<Rightarrow> (string \<times> bool) option" where
  "GetFileNameIfAllowedToOpen policy requested flags = open_loop (br_permissions policy) requested flags"

subsection \<open>Paths as lists of names\<close>

function split_path :: "string \<Rightarrow> string list" where
  "split_path p =
     takeWhile (\<lambda>c. c \<noteq> CHR ''/'') p
       # (case dropWhile (\<lambda>c. c \<noteq> CHR ''/'') p of [] \<Rightarrow> [] | _ # rest \<Rightarrow> split_path rest)"
  by pat_completeness auto
termination
proof (relation "measure length", simp)
  fix p :: string and c rest
  assume "dropWhile (\<lambda>c. c \<noteq> CHR ''/'') p = c # rest"
  then have "length (c # rest) \<le> length p" by (metis length_dropWhile_le)
  then show "(rest, p) \<in> measure length" by simp
qed

declare split_path.simps [simp del]

lemma split_path_name: "CHR ''/'' \<notin> set n \<Longrightarrow> split_path n = [n]"
proof -
  assume "CHR ''/'' \<notin> set n"
  then have "\<forall>c \<in> set n. c \<noteq> CHR ''/''" by auto
  then have "takeWhile (\<lambda>c. c \<noteq> CHR ''/'') n = n" and "dropWhile (\<lambda>c. c \<noteq> CHR ''/'') n = []"
    by (simp_all add: takeWhile_eq_all_conv dropWhile_eq_Nil_conv)
  then show ?thesis by (subst split_path.simps) (simp only: list.case)
qed

lemma split_path_slash: "split_path (a @ CHR ''/'' # b) = split_path a @ split_path b"
proof (induction a rule: split_path.induct)
  case (1 a)
  let ?P = "\<lambda>c. c \<noteq> CHR ''/''"
  show ?case
  proof (cases "dropWhile ?P a")
    case Nil
    then have all: "\<forall>c \<in> set a. ?P c" by (simp add: dropWhile_eq_Nil_conv)
    then have tw: "takeWhile ?P (a @ CHR ''/'' # b) = a" and dw: "dropWhile ?P (a @ CHR ''/'' # b) = CHR ''/'' # b"
      by (simp_all add: takeWhile_append2 dropWhile_append2)
    have "split_path a = [a]" using all by (intro split_path_name) auto
    then show ?thesis by (subst split_path.simps) (simp only: tw dw list.case append_Cons append_Nil)
  next
    case (Cons c rest)
    have c: "c = CHR ''/''" using hd_dropWhile [of ?P a] Cons by auto
    obtain t where t: "a = t @ c # rest" "\<forall>x \<in> set t. ?P x"
      using Cons takeWhile_dropWhile_id [of ?P a] set_takeWhileD [of _ ?P a] by metis
    have tw: "takeWhile ?P (a @ CHR ''/'' # b) = takeWhile ?P a"
      and dw: "dropWhile ?P (a @ CHR ''/'' # b) = c # rest @ CHR ''/'' # b"
      unfolding t(1) using c t(2) by (simp_all add: takeWhile_append dropWhile_append)
    show ?thesis
      by (subst (1 2) split_path.simps) (simp only: tw dw Cons list.case append_Cons 1 [OF Cons])
  qed
qed

lemma split_path_mem:
  assumes "n \<in> set (split_path p)"
  shows "\<exists>pre post. p = pre @ n @ post \<and> (pre = [] \<or> last pre = CHR ''/'') \<and> (post = [] \<or> hd post = CHR ''/'')
    \<and> CHR ''/'' \<notin> set n"
  using assms
proof (induction p rule: split_path.induct)
  case (1 p)
  let ?P = "\<lambda>c. c \<noteq> CHR ''/''"
  consider (first) "n = takeWhile ?P p"
    | (later) c rest where "dropWhile ?P p = c # rest" "n \<in> set (split_path rest)"
  proof -
    have "n \<in> set (takeWhile ?P p # (case dropWhile ?P p of [] \<Rightarrow> [] | _ # rest \<Rightarrow> split_path rest))"
      using 1(2) unfolding split_path.simps [of p, symmetric] .
    then show thesis using first later by (cases "dropWhile ?P p") auto
  qed
  then show ?case
  proof cases
    case first
    have "p = [] @ n @ dropWhile ?P p" using first by simp
    moreover have "dropWhile ?P p = [] \<or> hd (dropWhile ?P p) = CHR ''/''"
      using hd_dropWhile [of ?P p] by blast
    moreover have "CHR ''/'' \<notin> set n" using first by (auto dest: set_takeWhileD)
    ultimately show ?thesis by blast
  next
    case later
    obtain pre post where r: "rest = pre @ n @ post" "pre = [] \<or> last pre = CHR ''/''"
      "post = [] \<or> hd post = CHR ''/''" "CHR ''/'' \<notin> set n"
      using 1(1) [OF later] by blast
    have "c = CHR ''/''" using later(1) hd_dropWhile [of ?P p] by auto
    then have "p = (takeWhile ?P p @ CHR ''/'' # pre) @ n @ post"
      using later(1) r(1) by (metis append.assoc append_Cons takeWhile_dropWhile_id)
    moreover have "last (takeWhile ?P p @ CHR ''/'' # pre) = CHR ''/''" using r(2) by (auto split: if_splits)
    ultimately show ?thesis using r(3,4) by blast
  qed
qed

lemma ValidatePath_iff_names:
  "ValidatePath (Some p) \<longleftrightarrow>
     p \<noteq> [] \<and> hd p = CHR ''/'' \<and> (p = ''/'' \<or> last p \<noteq> CHR ''/'') \<and> ''..'' \<notin> set (split_path p)"
proof -
  let ?trailing = "length p \<ge> 3 \<and> p ! (length p - 3) = CHR ''/'' \<and> p ! (length p - 2) = CHR ''.''
    \<and> p ! (length p - 1) = CHR ''.''"
  let ?inside = "list_ex (\<lambda>i. p ! i = CHR ''/'' \<and> length p - i > 3 \<and> p ! (i + 1) = CHR ''.''
    \<and> p ! (i + 2) = CHR ''.'' \<and> p ! (i + 3) = CHR ''/'') [0..<length p]"
  have dots: "''..'' \<in> set (split_path p) \<longleftrightarrow> ?trailing \<or> ?inside" if abs: "p \<noteq> []" "hd p = CHR ''/''"
  proof
    assume "''..'' \<in> set (split_path p)"
    then obtain pre post where p: "p = pre @ ''..'' @ post" "pre = [] \<or> last pre = CHR ''/''"
      "post = [] \<or> hd post = CHR ''/''" using split_path_mem by blast
    then obtain pre' where pre: "pre = pre' @ ''/''"
      using abs p by (cases pre rule: rev_cases) auto
    show "?trailing \<or> ?inside"
    proof (cases post)
      case Nil
      then show ?thesis unfolding p(1) pre by (simp add: nth_append)
    next
      case (Cons c post')
      then have "c = CHR ''/''" using p(3) by simp
      then have ?inside unfolding p(1) pre Cons list_ex_iff
        by (intro bexI [of _ "length pre'"]) (simp_all add: nth_append)
      then show ?thesis ..
    qed
  next
    assume "?trailing \<or> ?inside"
    then consider (trailing) ?trailing | (inside) ?inside by blast
    then show "''..'' \<in> set (split_path p)"
    proof cases
      case trailing
      then obtain n where n: "length p = n + 3" by (metis add.commute le_Suc_ex)
      have "drop n p = ''/..''"
        using trailing n Cons_nth_drop_Suc [of n p] Cons_nth_drop_Suc [of "n + 1" p] Cons_nth_drop_Suc [of "n + 2" p]
        by simp
      then have "drop (length p - 3) p = ''/..''" by (simp add: n)
      then have "p = take (length p - 3) p @ CHR ''/'' # ''..''" by (metis append_take_drop_id)
      then show ?thesis
        using split_path_slash [of "take (length p - 3) p" "''..''"] split_path_name [of "''..''"] by simp
    next
      case inside
      then obtain i where i: "i + 3 < length p" "p ! i = CHR ''/''" "p ! (i + 1) = CHR ''.''"
        "p ! (i + 2) = CHR ''.''" "p ! (i + 3) = CHR ''/''"
        by (auto simp: list_ex_iff less_diff_conv add.commute)
      have "drop i p = p ! i # drop (i + 1) p" "drop (i + 1) p = p ! (i + 1) # drop (i + 2) p"
        "drop (i + 2) p = p ! (i + 2) # drop (i + 3) p" "drop (i + 3) p = p ! (i + 3) # drop (i + 4) p"
        using i(1) by (simp_all add: Cons_nth_drop_Suc numeral_eq_Suc)
      then have "drop i p = ''/..'' @ CHR ''/'' # drop (i + 4) p" using i by simp
      then have "p = take i p @ CHR ''/'' # (''..'' @ CHR ''/'' # drop (i + 4) p)"
        by (metis append_Cons append_Nil append_take_drop_id)
      then show ?thesis
        using split_path_slash [of "take i p" "''..'' @ CHR ''/'' # drop (i + 4) p"]
          split_path_slash [of "''..''" "drop (i + 4) p"] split_path_name [of "''..''"] by simp
    qed
  qed
  show ?thesis
    using dots by (cases p) (auto simp: ValidatePath_def Let_def last_conv_nth)
qed

text \<open>
  C36: \<open>ValidatePath\<close> with its index loop accepts exactly the absolute paths without a trailing slash
  (but the root directory itself) none of whose components is \<open>..\<close>.
\<close>

theorem ValidatePath_iff:
  "ValidatePath (Some p) \<longleftrightarrow>
     p \<noteq> [] \<and> hd p = CHR ''/'' \<and> (p = ''/'' \<or> last p \<noteq> CHR ''/'') \<and> ''..'' \<notin> set (split_path p)"
  by (rule ValidatePath_iff_names)

theorem ValidatePath_iff_witness:
  "ValidatePath (Some ''/etc/..hosts'') \<and> \<not> ValidatePath (Some ''/etc/..'')"
proof -
  have "split_path ''/etc/..hosts'' = [[], ''etc'', ''..hosts'']" "split_path ''/etc/..'' = [[], ''etc'', ''..'']"
    by code_simp+
  then show ?thesis
    using ValidatePath_iff [of "''/etc/..hosts''"] ValidatePath_iff [of "''/etc/..''"] by simp
qed

subsection \<open>What a policy lets through\<close>

text \<open>
  The directory or file a path names when every component is a directory and none a link:
  empty components and \<open>.\<close> are skipped, \<open>..\<close> goes up.
\<close>

fun resolve_names :: "string list \<Rightarrow> string list \<Rightarrow> string list" where
  "resolve_names up [] = rev up"
| "resolve_names up (n # ns) =
     (if n = [] \<or> n = ''.'' then resolve_names up ns
      else if n = ''..'' then resolve_names (tl up) ns
      else resolve_names (n # up) ns)"

definition resolve :: "string \<Rightarrow> string list" where
  "resolve p = resolve_names [] (split_path p)"

lemma resolve_names_plain:
  "''..'' \<notin> set ns \<Longrightarrow> resolve_names up ns = rev up @ filter (\<lambda>n. n \<noteq> [] \<and> n \<noteq> ''.'') ns"
  by (induction ns arbitrary: up) auto

lemma split_path_Nil [simp]: "split_path [] = [[]]"
  by (rule split_path_name) simp

lemma resolve_below:
  assumes "''..'' \<notin> set (split_path (dir @ rest))" and "dir \<noteq> []" and "last dir = CHR ''/''"
  shows "prefix (resolve dir) (resolve (dir @ rest))"
proof -
  obtain d where d: "dir = d @ ''/''" using assms(2,3) by (cases dir rule: rev_cases) auto
  have "split_path (dir @ rest) = split_path d @ split_path rest" "split_path dir = split_path d @ [[]]"
    using split_path_slash [of d rest] split_path_slash [of d "[]"] by (simp_all add: d)
  then show ?thesis using assms(1) by (auto simp: resolve_def resolve_names_plain)
qed

text \<open>A permission the constructor made, for a path without null characters.\<close>

definition permission_ok :: "broker_file_permission \<Rightarrow> bool" where
  "permission_ok perm \<longleftrightarrow>
     BrokerFilePermission (fp_path perm) (fp_recursive perm) (fp_unlink perm) (fp_allow_read perm)
       (fp_allow_write perm) (fp_allow_create perm) = Inr perm
   \<and> CHR 0x00 \<notin> set (fp_path perm)"

lemma c_str_plain: "CHR 0x00 \<notin> set s \<Longrightarrow> c_str s = s"
  by (auto simp: c_str_def takeWhile_eq_all_conv)

lemma permission_okD:
  assumes "permission_ok perm"
  shows "c_str (fp_path perm) = fp_path perm" and "fp_path perm \<noteq> []"
    and "last (fp_path perm) = CHR ''/'' \<longleftrightarrow> fp_recursive perm"
    and "fp_unlink perm \<Longrightarrow> fp_allow_create perm"
  using assms c_str_plain unfolding permission_ok_def BrokerFilePermission_def Let_def
  by (auto simp: res_simps split: if_splits)

text \<open>The file is the permission's own, or resolves to something below its directory.\<close>

definition within :: "broker_file_permission \<Rightarrow> string \<Rightarrow> bool" where
  "within perm file \<longleftrightarrow>
     (if fp_recursive perm then prefix (resolve (fp_path perm)) (resolve file) else file = fp_path perm)"

lemma MatchPath_within:
  assumes "permission_ok perm" and "MatchPath perm req" and "''..'' \<notin> set (split_path req)"
  shows "within perm req"
proof (cases "fp_recursive perm")
  case True
  note P = permission_okD [OF assms(1)]
  have "take (length (fp_path perm)) req = fp_path perm"
    using assms(2) P(1) by (auto simp: MatchPath_def Let_def split: if_splits)
  then have "req = fp_path perm @ drop (length (fp_path perm)) req" by (metis append_take_drop_id)
  then show ?thesis
    using resolve_below [of "fp_path perm" "drop (length (fp_path perm)) req"] P(2,3) True assms(3)
    by (simp add: within_def)
next
  case False
  then show ?thesis using assms(2) permission_okD(1) [OF assms(1)]
    by (auto simp: MatchPath_def within_def Let_def split: if_splits)
qed

lemma open_loop_SomeD:
  "open_loop perms req flags = Some r \<Longrightarrow> \<exists>perm \<in> set perms. CheckOpen perm req flags = Some r"
  by (induction perms) (auto split: option.splits)

lemma access_loop_SomeD:
  "access_loop perms req md = Some r \<Longrightarrow> \<exists>perm \<in> set perms. CheckAccess perm req md = Some r"
  by (induction perms) (auto split: option.splits)

lemma CheckOpen_SomeD:
  assumes "CheckOpen perm req_ptr flags = Some (file, unlink)"
  shows "\<exists>req. req_ptr = Some req \<and> ValidatePath (Some req) \<and> MatchPath perm req \<and> file = req"
    and "unlink = fp_unlink perm" and "flags AND O_ACCMODE \<in> {O_RDONLY, O_WRONLY, O_RDWR}"
    and "flags AND O_ACCMODE \<in> {O_RDONLY, O_RDWR} \<Longrightarrow> fp_allow_read perm"
    and "flags AND O_ACCMODE \<in> {O_WRONLY, O_RDWR} \<Longrightarrow> fp_allow_write perm"
    and "flags AND O_CREAT \<noteq> 0 \<Longrightarrow> fp_allow_create perm \<and> flags AND O_EXCL \<noteq> 0"
    and "fp_unlink perm \<Longrightarrow> flags AND O_CREAT \<noteq> 0"
    and "flags AND O_CLOEXEC = 0" and "(flags AND NOT O_ACCMODE) AND NOT known_flags = 0"
proof -
  obtain req where req: "req_ptr = Some req" "ValidatePath (Some req)"
    using assms by (cases req_ptr) (auto simp: CheckOpen_def ValidatePath_def split: if_splits)
  note a = assms [unfolded CheckOpen_def Let_def req(1) option.sel kCurrentProcessOpenFlagsMask_def]
  have m: "MatchPath perm req" using a by (auto split: if_splits)
  then have "file = req" using a by (auto simp: MatchPath_def Let_def split: if_splits)
  with req m show "\<exists>req. req_ptr = Some req \<and> ValidatePath (Some req) \<and> MatchPath perm req \<and> file = req" by blast
  show "unlink = fp_unlink perm" "flags AND O_ACCMODE \<in> {O_RDONLY, O_WRONLY, O_RDWR}"
    "flags AND O_ACCMODE \<in> {O_RDONLY, O_RDWR} \<Longrightarrow> fp_allow_read perm"
    "flags AND O_ACCMODE \<in> {O_WRONLY, O_RDWR} \<Longrightarrow> fp_allow_write perm"
    "flags AND O_CREAT \<noteq> 0 \<Longrightarrow> fp_allow_create perm \<and> flags AND O_EXCL \<noteq> 0"
    "fp_unlink perm \<Longrightarrow> flags AND O_CREAT \<noteq> 0"
    "flags AND O_CLOEXEC = 0" "(flags AND NOT O_ACCMODE) AND NOT known_flags = 0"
    using a by (simp_all split: if_splits)
qed

text \<open>
  C35: What the broker opens. A request is granted only on the strength of one permission of the
  policy; the file handed to \<open>open\<close> is that permission's file or, for a recursive permission, resolves to a
  path below its directory, whatever the request's text; reading, writing and creating are granted only
  with the permission's consent, creation only exclusively, temporary files only together with their
  unlinking, and no flag that is unknown or acts on the process is passed on.
\<close>

theorem GetFileNameIfAllowedToOpen_confined:
  assumes "GetFileNameIfAllowedToOpen policy req flags = Some (file, unlink)"
    and "list_all permission_ok (br_permissions policy)"
  shows "\<exists>perm \<in> set (br_permissions policy). within perm file \<and> req = Some file
    \<and> (flags AND O_ACCMODE \<in> {O_RDONLY, O_RDWR} \<longrightarrow> fp_allow_read perm)
    \<and> (flags AND O_ACCMODE \<in> {O_WRONLY, O_RDWR} \<longrightarrow> fp_allow_write perm)
    \<and> flags AND O_ACCMODE \<in> {O_RDONLY, O_WRONLY, O_RDWR}
    \<and> (flags AND O_CREAT \<noteq> 0 \<longrightarrow> fp_allow_create perm \<and> flags AND O_EXCL \<noteq> 0)
    \<and> (unlink \<longleftrightarrow> fp_unlink perm) \<and> (unlink \<longrightarrow> flags AND O_CREAT \<noteq> 0)
    \<and> flags AND O_CLOEXEC = 0 \<and> (flags AND NOT O_ACCMODE) AND NOT known_flags = 0"
proof -
  obtain perm where perm: "perm \<in> set (br_permissions policy)" "CheckOpen perm req flags = Some (file, unlink)"
    using open_loop_SomeD [OF assms(1) [unfolded GetFileNameIfAllowedToOpen_def]] by blast
  note D = CheckOpen_SomeD [OF perm(2)]
  have "permission_ok perm" using assms(2) perm(1) by (simp add: list_all_iff)
  moreover have "req = Some file" "ValidatePath (Some file)" "MatchPath perm file" using D(1) by auto
  ultimately have "within perm file" using MatchPath_within by (simp add: ValidatePath_iff_names)
  then show ?thesis using perm(1) D \<open>req = Some file\<close> by blast
qed

theorem GetFileNameIfAllowedToOpen_confined_witness:
  "\<exists>perm. ReadOnlyRecursive ''/proc/'' = Inr perm
     \<and> GetFileNameIfAllowedToOpen (BrokerPolicy 1 [perm]) (Some ''/proc/self/maps'') O_RDONLY
         = Some (''/proc/self/maps'', False)
     \<and> within perm ''/proc/self/maps''"
proof -
  define perm where "perm = \<lparr>fp_path = ''/proc/'', fp_recursive = True, fp_unlink = False,
    fp_allow_read = True, fp_allow_write = False, fp_allow_create = False\<rparr>"
  have new: "ReadOnlyRecursive ''/proc/'' = Inr perm"
    by (simp add: ReadOnlyRecursive_def BrokerFilePermission_def perm_def)
  have ok: "list_all permission_ok (br_permissions (BrokerPolicy 1 [perm]))"
    by (simp add: BrokerPolicy_def permission_ok_def BrokerFilePermission_def perm_def)
  have "GetFileNameIfAllowedToOpen (BrokerPolicy 1 [perm]) (Some ''/proc/self/maps'') O_RDONLY
      = Some (''/proc/self/maps'', False)"
    unfolding perm_def by code_simp
  with new GetFileNameIfAllowedToOpen_confined [OF this ok] show ?thesis by (auto simp: BrokerPolicy_def)
qed

lemma CheckAccess_open:
  assumes "\<not> fp_unlink perm"
  shows "CheckAccess perm req R_OK = map_option fst (CheckOpen perm req O_RDONLY)"
    and "CheckAccess perm req W_OK = map_option fst (CheckOpen perm req O_WRONLY)"
    and "CheckAccess perm req (R_OK OR W_OK) = map_option fst (CheckOpen perm req O_RDWR)"
  using assms by (simp_all add: CheckAccess_def CheckOpen_def Let_def kCurrentProcessOpenFlagsMask_def known_flags_def)

text \<open>
  "We're checking if calling access() should even be allowed with the same policy we would use
  for open()": for a policy without temporary files, \<open>access\<close> with \<open>R_OK\<close>, \<open>W_OK\<close> or both is granted
  exactly when opening the file for reading, writing or both is, and for the same file.
\<close>

lemma access_agrees_with_open:
  assumes "list_all (\<lambda>perm. \<not> fp_unlink perm) (br_permissions policy)"
  shows "GetFileNameIfAllowedToAccess policy req R_OK = map_option fst (GetFileNameIfAllowedToOpen policy req O_RDONLY)
    \<and> GetFileNameIfAllowedToAccess policy req W_OK = map_option fst (GetFileNameIfAllowedToOpen policy req O_WRONLY)
    \<and> GetFileNameIfAllowedToAccess policy req (R_OK OR W_OK)
        = map_option fst (GetFileNameIfAllowedToOpen policy req O_RDWR)"
proof -
  have loop: "access_loop perms req md = map_option fst (open_loop perms req flags)"
    if "\<And>perm. perm \<in> set perms \<Longrightarrow> CheckAccess perm req md = map_option fst (CheckOpen perm req flags)"
    for perms md flags
    using that by (induction perms) (auto split: option.splits)
  show ?thesis
    unfolding GetFileNameIfAllowedToAccess_def GetFileNameIfAllowedToOpen_def
    using assms CheckAccess_open by (intro conjI loop) (auto simp: list_all_iff)
qed

lemma access_agrees_with_open_witness:
  "\<exists>perm. ReadOnly ''/etc/hosts'' = Inr perm
     \<and> GetFileNameIfAllowedToAccess (BrokerPolicy 1 [perm]) (Some ''/etc/hosts'') R_OK
         = map_option fst (GetFileNameIfAllowedToOpen (BrokerPolicy 1 [perm]) (Some ''/etc/hosts'') O_RDONLY)"
proof -
  define perm where "perm = \<lparr>fp_path = ''/etc/hosts'', fp_recursive = False, fp_unlink = False,
    fp_allow_read = True, fp_allow_write = False, fp_allow_create = False\<rparr>"
  have "ReadOnly ''/etc/hosts'' = Inr perm" by (simp add: ReadOnly_def BrokerFilePermission_def perm_def)
  moreover have "list_all (\<lambda>perm. \<not> fp_unlink perm) (br_permissions (BrokerPolicy 1 [perm]))"
    by (simp add: BrokerPolicy_def perm_def)
  ultimately show ?thesis using access_agrees_with_open by blast
qed

end
