(* ===== verification/Broker_Ipc.thy ===== *)
theory Broker_Ipc
  imports Pickle Broker_Policy Thread_Helpers
begin

text \<open>
  The broker and its client, \<^verbatim>\<open>syscall_broker/broker_host.cc\<close>, \<^verbatim>\<open>syscall_broker/broker_client.cc\<close>
  and \<^verbatim>\<open>syscall_broker/broker_process.cc\<close>: a sandboxed process sends a pickled request over a
  socket, the broker checks it against its policy, makes the system call and answers with a
  result and perhaps a file descriptor. The host logs its system calls; the kernel's answers and,
  for the client, the transport are parameters.
\<close>

subsection \<open>Messages\<close>

abbreviation (input) COMMAND_OPEN :: u32 where "COMMAND_OPEN \<equiv> 1"
abbreviation (input) COMMAND_ACCESS :: u32 where "COMMAND_ACCESS \<equiv> 2"
abbreviation (input) EFAULT :: int where "EFAULT \<equiv> 14"
abbreviation (input) ENOMEM :: int where "ENOMEM \<equiv> 12"
abbreviation (input) ENOSYS :: int where "ENOSYS \<equiv> 38"
abbreviation (input) ECONNRESET :: int where "ECONNRESET \<equiv> 104"
abbreviation (input) MSG_CMSG_CLOEXEC :: u32 where "MSG_CMSG_CLOEXEC \<equiv> 0x40000000"

record broker_reply =
  reply_fd :: int
  reply_data :: bytes
  reply_fds :: "int list"

datatype broker_call =
    OpenAt string u32 u32
  | LibcOpen string u32 u32
  | UnlinkFile string
  | AccessFile string u32
  | SendReply broker_reply
  | CloseFile int

text \<open>Results of system calls come with \<open>errno\<close>.\<close>

record broker_kernel =
  bk_valgrind :: bool
  bk_openat :: "string \<Rightarrow> u32 \<Rightarrow> u32 \<Rightarrow> int \<times> int"
  bk_libc_open :: "string \<Rightarrow> u32 \<Rightarrow> u32 \<Rightarrow> int \<times> int"
  bk_access :: "string \<Rightarrow> u32 \<Rightarrow> int \<times> int"
  bk_sendmsg :: "broker_reply \<Rightarrow> int"

subsection \<open>The host\<close>

definition sys_open :: "broker_kernel \<Rightarrow> string \<Rightarrow> u32 \<Rightarrow> (broker_call, int \<times> int) logged" where
  "sys_open k pathname flags =
     (let md = (if flags AND O_CREAT \<noteq> 0 then 0x180 else 0) in
      if bk_valgrind k
      then log_bind (log_call (LibcOpen pathname flags md)) (\<lambda>_. log_return (bk_libc_open k pathname flags md))
      else log_bind (log_call (OpenAt pathname flags md)) (\<lambda>_. log_return (bk_openat k pathname flags md)))"

definition OpenFileForIPC ::
    "broker_kernel \<Rightarrow> broker_policy \<Rightarrow> string \<Rightarrow> u32 \<Rightarrow> pickle \<Rightarrow> (broker_call, pickle \<times> int list) logged" where
  "OpenFileForIPC k policy requested_filename flags write_pickle =
     (case GetFileNameIfAllowedToOpen policy (Some (c_str requested_filename)) flags of
        Some (file_to_open, unlink_after_open) \<Rightarrow>
          log_bind (sys_open k file_to_open flags) (\<lambda>(opened_fd, err).
          if opened_fd < 0
          then log_bind (log_lift (WriteInt (of_int (- err)) write_pickle)) (\<lambda>p. log_return (p, []))
          else
            log_bind (if unlink_after_open then log_call (UnlinkFile file_to_open) else log_return ()) (\<lambda>_.
            log_bind (log_lift (WriteInt 0 write_pickle)) (\<lambda>p. log_return (p, [opened_fd]))))
      | None \<Rightarrow>
          log_bind (log_lift (WriteInt (of_int (- br_denied_errno policy)) write_pickle)) (\<lambda>p.
          log_return (p, [])))"

definition AccessFileForIPC ::
    "broker_kernel \<Rightarrow> broker_policy \<Rightarrow> string \<Rightarrow> u32 \<Rightarrow> pickle \<Rightarrow> (broker_call, pickle) logged" where
  "AccessFileForIPC k policy requested_filename md write_pickle =
     (case GetFileNameIfAllowedToAccess policy (Some (c_str requested_filename)) md of
        Some file_to_access \<Rightarrow>
          log_bind (log_call (AccessFile file_to_access md)) (\<lambda>_.
          let (access_ret, access_errno) = bk_access k file_to_access md in
          if access_ret = 0 then log_lift (WriteInt 0 write_pickle)
          else log_lift (WriteInt (of_int (- access_errno)) write_pickle))
      | None \<Rightarrow> log_lift (WriteInt (of_int (- br_denied_errno policy)) write_pickle))"

definition close_all :: "int list \<Rightarrow> broker_call list" where
  "close_all fds = map CloseFile fds"

text \<open>A failed read makes the code return false.\<close>

definition HandleRemoteCommand ::
    "broker_kernel \<Rightarrow> broker_policy \<Rightarrow> u32 \<Rightarrow> int \<Rightarrow> pickle_iterator \<Rightarrow> (broker_call, bool) logged" where
  "HandleRemoteCommand k policy command_type reply_ipc it =
     (case read_bind (ReadString it) (\<lambda>name it. read_map (Pair name) (ReadInt it)) of
        OutOfBounds \<Rightarrow> log_lift (Inl OutOfBoundsAccess)
      | ReadOk None it \<Rightarrow> log_return False
      | ReadOk (Some (requested_filename, flags)) it \<Rightarrow>
          log_bind (log_lift Pickle_new) (\<lambda>write_pickle.
          log_bind
            (if command_type = COMMAND_ACCESS then
               log_bind (AccessFileForIPC k policy requested_filename flags write_pickle) (\<lambda>p.
               log_return (p, []))
             else if command_type = COMMAND_OPEN then
               OpenFileForIPC k policy requested_filename flags write_pickle
             else log_return (write_pickle, [])) (\<lambda>(write_pickle, opened_files).
          log_bind (log_lift (check (pickle_size write_pickle \<le> kMaxMessageLength) ''kMaxMessageLength'')) (\<lambda>_.
          let reply = \<lparr>reply_fd = reply_ipc, reply_data = pickle_data write_pickle, reply_fds = opened_files\<rparr>;
              sent = bk_sendmsg k reply in
          log_bind (log_call (SendReply reply)) (\<lambda>_.
          log_bind (close_all opened_files, Inr ()) (\<lambda>_.
          log_return (if sent \<le> 0 then False else True)))))))"

text \<open>What \<open>RecvMsg\<close> gives: the return value, \<open>errno\<close>, the bytes received and the descriptors.\<close>

record received =
  rv_len :: int
  rv_errno :: int
  rv_buf :: bytes
  rv_fds :: "int list"

datatype request_status = LOST_CLIENT | SUCCESS | FAILURE

text \<open>The descriptors that came with the message are closed when the function returns.\<close>

definition HandleRequest ::
    "broker_kernel \<Rightarrow> broker_policy \<Rightarrow> received \<Rightarrow> (broker_call, request_status) logged" where
  "HandleRequest k policy msg =
     (let fds = filter (\<lambda>fd. fd \<noteq> -1) (rv_fds msg) in
      if rv_len msg = 0 \<or> rv_len msg = -1 \<and> rv_errno msg = ECONNRESET
      then (close_all fds, Inr LOST_CLIENT)
      else if rv_len msg < 0 \<or> length (rv_fds msg) \<noteq> 1 \<or> rv_fds msg ! 0 < 0
      then (close_all fds, Inr FAILURE)
      else
        (let temporary_ipc = rv_fds msg ! 0 in
         case ReadInt (PickleIterator (Pickle_from (take (nat (rv_len msg)) (rv_buf msg)))) of
           OutOfBounds \<Rightarrow> log_lift (Inl OutOfBoundsAccess)
         | ReadOk None it \<Rightarrow> (close_all [temporary_ipc], Inr FAILURE)
         | ReadOk (Some command_type) it \<Rightarrow>
             log_bind
               (if command_type = COMMAND_ACCESS \<or> command_type = COMMAND_OPEN
                then HandleRemoteCommand k policy command_type temporary_ipc it
                else log_return False) (\<lambda>command_handled.
             log_bind (close_all [temporary_ipc], Inr ()) (\<lambda>_.
             log_return (if command_handled then SUCCESS else FAILURE)))))"

text \<open>
  The loop of the broker process, over the messages that arrive. It ends when the client is gone, by
  \<open>_exit\<close>, or where the messages given end.
\<close>

fun broker_loop :: "broker_policy \<Rightarrow> (broker_kernel \<times> received) list \<Rightarrow> (broker_call, unit) logged" where
  "broker_loop policy [] = log_return ()"
| "broker_loop policy ((k, msg) # msgs) =
     log_bind (HandleRequest k policy msg) (\<lambda>status.
     case status of
       LOST_CLIENT \<Rightarrow> log_return ()
     | SUCCESS \<Rightarrow> broker_loop policy msgs
     | FAILURE \<Rightarrow> broker_loop policy msgs)"

subsection \<open>The client\<close>

record broker_client =
  bc_policy :: broker_policy
  bc_fast_check_in_client :: bool
  bc_quiet_failures_for_tests :: bool

text \<open>
  \<open>SendRecvMsgWithFlags\<close>: the message's bytes and the flags for receiving the reply, to the length
  of the reply, the reply and the descriptor that came with it, or \<open>-1\<close>.
\<close>

type_synonym transport = "bytes \<Rightarrow> u32 \<Rightarrow> int \<times> bytes \<times> int"

definition request_pickle :: "u32 \<Rightarrow> string \<Rightarrow> u32 \<Rightarrow> abort + pickle" where
  "request_pickle syscall_type pathname flags =
     res_bind Pickle_new (\<lambda>p.
     res_bind (WriteInt syscall_type p) (\<lambda>p.
     res_bind (WriteString pathname p) (\<lambda>p.
     WriteInt flags p)))"

definition PathAndFlagsSyscall ::
    "broker_client \<Rightarrow> transport \<Rightarrow> u32 \<Rightarrow> string option \<Rightarrow> u32 \<Rightarrow> abort + int" where
  "PathAndFlagsSyscall client transport syscall_type pathname_ptr flags =
     res_bind (check (syscall_type = COMMAND_OPEN \<or> syscall_type = COMMAND_ACCESS) ''syscall_type'') (\<lambda>_.
     case pathname_ptr of
       None \<Rightarrow> Inr (- EFAULT)
     | Some pathname \<Rightarrow>
         (let local_flags = syscall_type = COMMAND_OPEN \<and> flags AND kCurrentProcessOpenFlagsMask \<noteq> 0;
              recvmsg_flags = (if local_flags then MSG_CMSG_CLOEXEC else 0);
              flags = (if local_flags then flags AND NOT O_CLOEXEC else flags)
          in
          if bc_fast_check_in_client client \<and> syscall_type = COMMAND_OPEN
             \<and> GetFileNameIfAllowedToOpen (bc_policy client) (Some pathname) flags = None
          then Inr (- br_denied_errno (bc_policy client))
          else if bc_fast_check_in_client client \<and> syscall_type = COMMAND_ACCESS
             \<and> GetFileNameIfAllowedToAccess (bc_policy client) (Some pathname) flags = None
          then Inr (- br_denied_errno (bc_policy client))
          else
            res_bind (request_pickle syscall_type pathname flags) (\<lambda>write_pickle.
            res_bind (check (pickle_size write_pickle \<le> kMaxMessageLength) ''kMaxMessageLength'') (\<lambda>_.
            let (msg_len, reply_buf, returned_fd) = transport (pickle_data write_pickle) recvmsg_flags in
            if msg_len \<le> 0 then Inr (- ENOMEM)
            else
              (case ReadInt (PickleIterator (Pickle_from (take (nat msg_len) reply_buf))) of
                 OutOfBounds \<Rightarrow> Inl OutOfBoundsAccess
               | ReadOk None it \<Rightarrow> Inr (- ENOMEM)
               | ReadOk (Some return_value) it \<Rightarrow>
                   if syscall_type = COMMAND_ACCESS then
                     res_bind (check (returned_fd = -1) ''returned_fd == -1'') (\<lambda>_. Inr (sint return_value))
                   else if syscall_type = COMMAND_OPEN then
                     (if sint return_value < 0 then
                        res_bind (check (returned_fd = -1) ''returned_fd == -1'') (\<lambda>_. Inr (sint return_value))
                      else
                        res_bind (check (returned_fd \<ge> 0) ''returned_fd >= 0'') (\<lambda>_. Inr returned_fd))
                   else Inr (- ENOSYS))))))"

definition BrokerClient :: "broker_policy \<Rightarrow> bool \<Rightarrow> bool \<Rightarrow> broker_client" where
  "BrokerClient policy fast_check quiet =
     \<lparr>bc_policy = policy, bc_fast_check_in_client = fast_check, bc_quiet_failures_for_tests = quiet\<rparr>"

definition Client_Access :: "broker_client \<Rightarrow> transport \<Rightarrow> string option \<Rightarrow> u32 \<Rightarrow> abort + int" where
  "Client_Access client transport pathname md = PathAndFlagsSyscall client transport COMMAND_ACCESS pathname md"

definition Client_Open :: "broker_client \<Rightarrow> transport \<Rightarrow> string option \<Rightarrow> u32 \<Rightarrow> abort + int" where
  "Client_Open client transport pathname flags = PathAndFlagsSyscall client transport COMMAND_OPEN pathname flags"

subsection \<open>The broker process\<close>

datatype process_call =
    SocketPair | ShutdownReader | ShutdownWriter | CloseReader | CloseWriter
  | Fork | InitCallback | BrokerCall broker_call | ExitBroker int
  | KillBroker int | WaitBroker int

text \<open>\<open>BrokerChannel::CreatePair\<close>, where every call succeeds.\<close>

definition CreatePair :: "(process_call, unit) logged" where
  "CreatePair = ([SocketPair, ShutdownReader, ShutdownWriter], Inr ())"

record broker_process =
  bp_initialized :: bool
  bp_fast_check_in_client :: bool
  bp_quiet_failures_for_tests :: bool
  bp_broker_pid :: int
  bp_policy :: broker_policy
  bp_broker_client :: "broker_client option"


text \<open>
  \<open>Init\<close>, given the number of threads, what \<open>fork\<close> and the callback return and the messages that
  reach the child. It returns in the parent only; the child ends with \<open>_exit\<close> (\<open>None\<close>).
\<close>

definition BrokerProcess_Init ::
    "nat \<Rightarrow> int \<Rightarrow> bool \<Rightarrow> (broker_kernel \<times> received) list \<Rightarrow> broker_process
      \<Rightarrow> (process_call, (broker_process \<times> bool) option) logged" where
  "BrokerProcess_Init threads child_pid callback_result msgs bp =
     log_bind (log_lift (check (\<not> bp_initialized bp) ''!initialized_'')) (\<lambda>_.
     log_bind CreatePair (\<lambda>_.
     log_bind (log_lift (check (threads = 1) ''1 == GetNumberOfThreads'')) (\<lambda>_.
     log_bind (log_call Fork) (\<lambda>_.
     if child_pid = -1 then ([CloseWriter, CloseReader], Inr (Some (bp, False)))
     else if child_pid \<noteq> 0 then
       log_bind (log_call CloseReader) (\<lambda>_.
       log_return (Some
         (bp\<lparr>bp_broker_pid := child_pid,
             bp_broker_client := Some (BrokerClient (bp_policy bp) (bp_fast_check_in_client bp)
               (bp_quiet_failures_for_tests bp)),
             bp_initialized := True\<rparr>, True)))
     else
       log_bind (log_call CloseWriter) (\<lambda>_.
       log_bind (log_call InitCallback) (\<lambda>_.
       log_bind (log_lift (check callback_result ''broker_process_init_callback.Run()'')) (\<lambda>_.
       log_bind (let (calls, r) = broker_loop (bp_policy bp) msgs in (map BrokerCall calls, r)) (\<lambda>_.
       log_bind (log_call (ExitBroker 1)) (\<lambda>_. log_return None)))))))))"

definition CloseChannel :: "broker_process \<Rightarrow> (process_call, broker_process) logged" where
  "CloseChannel bp =
     ((case bp_broker_client bp of None \<Rightarrow> [] | Some c \<Rightarrow> [CloseWriter]), Inr (bp\<lparr>bp_broker_client := None\<rparr>))"

text \<open>The destructor; what \<open>kill\<close> and \<open>waitid\<close> return are parameters.\<close>

definition BrokerProcess_destroy :: "int \<Rightarrow> int \<Rightarrow> broker_process \<Rightarrow> (process_call, unit) logged" where
  "BrokerProcess_destroy kill_result wait_result bp =
     (if bp_initialized bp then
        log_bind (case bp_broker_client bp of Some c \<Rightarrow> CloseChannel bp | None \<Rightarrow> log_return bp) (\<lambda>bp.
        log_bind (log_call (KillBroker (bp_broker_pid bp))) (\<lambda>_.
        log_bind (log_lift (check (0 = kill_result) ''kill'')) (\<lambda>_.
        log_bind (log_call (WaitBroker (bp_broker_pid bp))) (\<lambda>_.
        log_lift (check (0 = wait_result) ''waitid'')))))
      else log_return ())"

text \<open>A call without a client, after \<open>CloseChannel\<close>, is a null pointer dereference.\<close>

definition BrokerProcess_Access :: "broker_process \<Rightarrow> transport \<Rightarrow> string option \<Rightarrow> u32 \<Rightarrow> abort + int" where
  "BrokerProcess_Access bp transport pathname md =
     res_bind (check (bp_initialized bp) ''initialized_'') (\<lambda>_.
     case bp_broker_client bp of
       None \<Rightarrow> Inl OutOfBoundsAccess
     | Some client \<Rightarrow> Client_Access client transport pathname md)"

definition BrokerProcess_Open :: "broker_process \<Rightarrow> transport \<Rightarrow> string option \<Rightarrow> u32 \<Rightarrow> abort + int" where
  "BrokerProcess_Open bp transport pathname flags =
     res_bind (check (bp_initialized bp) ''initialized_'') (\<lambda>_.
     case bp_broker_client bp of
       None \<Rightarrow> Inl OutOfBoundsAccess
     | Some client \<Rightarrow> Client_Open client transport pathname flags)"

subsection \<open>What a request does\<close>

text \<open>
  The effect of a request in one step: the system calls made, the value written into the reply and
  the descriptors sent with it.
\<close>

definition kernel_open :: "broker_kernel \<Rightarrow> string \<Rightarrow> u32 \<Rightarrow> int \<times> int" where
  "kernel_open k f flags =
     (let md = (if flags AND O_CREAT \<noteq> 0 then 0x180 else 0) in
      if bk_valgrind k then bk_libc_open k f flags md else bk_openat k f flags md)"

definition open_call :: "broker_kernel \<Rightarrow> string \<Rightarrow> u32 \<Rightarrow> broker_call" where
  "open_call k f flags =
     (let md = (if flags AND O_CREAT \<noteq> 0 then 0x180 else 0) in
      if bk_valgrind k then LibcOpen f flags md else OpenAt f flags md)"

definition open_effect ::
    "broker_kernel \<Rightarrow> broker_policy \<Rightarrow> string \<Rightarrow> u32 \<Rightarrow> broker_call list \<times> int \<times> int list" where
  "open_effect k policy name flags =
     (case GetFileNameIfAllowedToOpen policy (Some name) flags of
        None \<Rightarrow> ([], - br_denied_errno policy, [])
      | Some (f, unlink) \<Rightarrow>
          let (fd, err) = kernel_open k f flags in
          if fd < 0 then ([open_call k f flags], - err, [])
          else (open_call k f flags # (if unlink then [UnlinkFile f] else []), 0, [fd]))"

definition access_effect ::
    "broker_kernel \<Rightarrow> broker_policy \<Rightarrow> string \<Rightarrow> u32 \<Rightarrow> broker_call list \<times> int \<times> int list" where
  "access_effect k policy name md =
     (case GetFileNameIfAllowedToAccess policy (Some name) md of
        None \<Rightarrow> ([], - br_denied_errno policy, [])
      | Some f \<Rightarrow>
          let (ret, err) = bk_access k f md in ([AccessFile f md], if ret = 0 then 0 else - err, []))"

definition command_effect ::
    "broker_kernel \<Rightarrow> broker_policy \<Rightarrow> u32 \<Rightarrow> string \<Rightarrow> u32 \<Rightarrow> broker_call list \<times> int \<times> int list" where
  "command_effect k policy command_type name flags =
     (if command_type = COMMAND_ACCESS then access_effect k policy name flags
      else open_effect k policy name flags)"

definition reply_with :: "int \<Rightarrow> int \<Rightarrow> int list \<Rightarrow> broker_reply" where
  "reply_with fd value fds =
     \<lparr>reply_fd = fd, reply_data = le_bytes 4 (4 :: u32) @ le_bytes 4 (of_int value :: u32), reply_fds = fds\<rparr>"

lemma WriteInt_reply:
  assumes "holds p []"
  shows "\<exists>p'. WriteInt v p = Inr p' \<and> holds p' (le_bytes 4 v)"
  using WriteBytesCommon_holds [OF assms, of "le_bytes 4 v"] by (simp add: WriteInt_def padded_def)

lemma OpenFileForIPC_effect:
  assumes "holds p []" and "open_effect k policy (c_str name) flags = (calls, value, fds)"
  shows "\<exists>p'. OpenFileForIPC k policy name flags p = (calls, Inr (p', fds)) \<and> holds p' (le_bytes 4 (of_int value :: u32))"
proof (cases "GetFileNameIfAllowedToOpen policy (Some (c_str name)) flags")
  case None
  with assms(2) WriteInt_reply [OF assms(1), of "of_int value"] show ?thesis
    by (auto simp: open_effect_def OpenFileForIPC_def log_return_def)
next
  case (Some r)
  obtain f ul where r: "r = (f, ul)" by (cases r)
  obtain fd err where fd: "kernel_open k f flags = (fd, err)" by (cases "kernel_open k f flags")
  have op: "sys_open k f flags = ([open_call k f flags], Inr (fd, err))"
    using fd by (simp add: sys_open_def open_call_def kernel_open_def Let_def log_return_def split: if_splits)
  obtain p1 where p1: "WriteInt (of_int (- err)) p = Inr p1" "holds p1 (le_bytes 4 (of_int (- err) :: u32))"
    using WriteInt_reply [OF assms(1)] by blast
  obtain p2 where p2: "WriteInt 0 p = Inr p2" "holds p2 (le_bytes 4 (0 :: u32))"
    using WriteInt_reply [OF assms(1)] by blast
  show ?thesis
    using assms(2) Some r fd op p1 p2
    by (cases "fd < 0"; cases ul) (auto simp: open_effect_def OpenFileForIPC_def log_bind_def log_return_def log_call_def log_lift_def)
qed

lemma AccessFileForIPC_effect:
  assumes "holds p []" and "access_effect k policy (c_str name) md = (calls, value, fds)"
  shows "\<exists>p'. AccessFileForIPC k policy name md p = (calls, Inr p') \<and> fds = []
    \<and> holds p' (le_bytes 4 (of_int value :: u32))"
proof (cases "GetFileNameIfAllowedToAccess policy (Some (c_str name)) md")
  case None
  with assms(2) WriteInt_reply [OF assms(1), of "of_int value"] show ?thesis
    by (auto simp: access_effect_def AccessFileForIPC_def log_return_def log_lift_def)
next
  case (Some f)
  obtain ret err where "bk_access k f md = (ret, err)" by (cases "bk_access k f md")
  with assms(2) Some WriteInt_reply [OF assms(1), of "of_int value"] show ?thesis
    by (auto simp: access_effect_def AccessFileForIPC_def log_return_def log_lift_def split: if_splits)
qed

lemma holds_reply:
  assumes "holds p (le_bytes 4 (v :: u32))"
  shows "pickle_size p = 8" and "pickle_data p = le_bytes 4 (4 :: u32) @ le_bytes 4 v"
  using assms
  by (simp_all add: holds_def pickle_size_def pickle_data_def payload_size_def header_payload_size_def)

text \<open>A command whose arguments can be read does what the effect says, replies and closes what it opened.\<close>

lemma HandleRemoteCommand_effect:
  assumes "read_bind (ReadString it) (\<lambda>name it. read_map (Pair name) (ReadInt it)) = ReadOk (Some (name, flags)) it'"
    and "command_type = COMMAND_ACCESS \<or> command_type = COMMAND_OPEN"
    and "command_effect k policy command_type (c_str name) flags = (calls, value, fds)"
  shows "HandleRemoteCommand k policy command_type reply_ipc it =
    (calls @ SendReply (reply_with reply_ipc value fds) # close_all fds,
     Inr (bk_sendmsg k (reply_with reply_ipc value fds) > 0))"
proof -
  obtain p where p: "Pickle_new = Inr p" "holds p []" using Pickle_new_holds by blast
  let ?run = "if command_type = COMMAND_ACCESS then
      log_bind (AccessFileForIPC k policy name flags p) (\<lambda>p. log_return (p, []))
    else if command_type = COMMAND_OPEN then OpenFileForIPC k policy name flags p
    else log_return (p, [])"
  obtain p' where p': "?run = (calls, Inr (p', fds))" "holds p' (le_bytes 4 (of_int value :: u32))"
  proof (cases "command_type = COMMAND_ACCESS")
    case True
    with AccessFileForIPC_effect [OF p(2)] assms(3) show thesis
      by (fastforce simp: command_effect_def log_bind_def log_return_def intro: that)
  next
    case False
    with OpenFileForIPC_effect [OF p(2)] assms(2,3) show thesis
      by (fastforce simp: command_effect_def intro: that)
  qed
  note h = holds_reply [OF p'(2)]
  show ?thesis
    unfolding HandleRemoteCommand_def assms(1) p(1)
    by (simp only: read_result.case option.case prod.case log_bind_lift(2) p'(1))
      (simp add: log_bind_def log_return_def log_lift_def log_call_def Let_def h reply_with_def kMaxMessageLength_def)
qed

subsection \<open>The host keeps to its policy\<close>

text \<open>Is a system call of the broker one that its policy allows?\<close>

fun call_allowed :: "broker_policy \<Rightarrow> broker_call \<Rightarrow> bool" where
  "call_allowed policy (OpenAt f flags md) \<longleftrightarrow>
     map_option fst (GetFileNameIfAllowedToOpen policy (Some f) flags) = Some f"
| "call_allowed policy (LibcOpen f flags md) \<longleftrightarrow>
     map_option fst (GetFileNameIfAllowedToOpen policy (Some f) flags) = Some f"
| "call_allowed policy (UnlinkFile f) \<longleftrightarrow>
     (\<exists>flags. GetFileNameIfAllowedToOpen policy (Some f) flags = Some (f, True))"
| "call_allowed policy (AccessFile f md) \<longleftrightarrow> GetFileNameIfAllowedToAccess policy (Some f) md = Some f"
| "call_allowed policy (SendReply r) \<longleftrightarrow> True"
| "call_allowed policy (CloseFile fd) \<longleftrightarrow> True"

text \<open>The descriptors that calls open, send to the client and close.\<close>

fun opened_by :: "broker_kernel \<Rightarrow> broker_call list \<Rightarrow> int list" where
  "opened_by k [] = []"
| "opened_by k (OpenAt f flags md # cs) =
     (if fst (bk_openat k f flags md) \<ge> 0 then [fst (bk_openat k f flags md)] else []) @ opened_by k cs"
| "opened_by k (LibcOpen f flags md # cs) =
     (if fst (bk_libc_open k f flags md) \<ge> 0 then [fst (bk_libc_open k f flags md)] else []) @ opened_by k cs"
| "opened_by k (_ # cs) = opened_by k cs"

fun replies_in :: "broker_call list \<Rightarrow> broker_reply list" where
  "replies_in [] = []"
| "replies_in (SendReply r # cs) = r # replies_in cs"
| "replies_in (_ # cs) = replies_in cs"

definition sent_by :: "broker_call list \<Rightarrow> int list" where
  "sent_by cs = concat (map reply_fds (replies_in cs))"

fun closed_by :: "broker_call list \<Rightarrow> int list" where
  "closed_by [] = []"
| "closed_by (CloseFile fd # cs) = fd # closed_by cs"
| "closed_by (_ # cs) = closed_by cs"

lemma opened_by_append [simp]: "opened_by k (xs @ ys) = opened_by k xs @ opened_by k ys"
  by (induction k xs rule: opened_by.induct) auto

lemma replies_in_append [simp]: "replies_in (xs @ ys) = replies_in xs @ replies_in ys"
  by (induction xs rule: replies_in.induct) auto

lemma closed_by_append [simp]: "closed_by (xs @ ys) = closed_by xs @ closed_by ys"
  by (induction xs rule: closed_by.induct) auto

lemma close_all_simps [simp]:
  "closed_by (close_all fds) = fds" "replies_in (close_all fds) = []" "opened_by k (close_all fds) = []"
  "list_all (call_allowed policy) (close_all fds)"
  by (induction fds) (simp_all add: close_all_def)

lemma CheckAccess_name: "CheckAccess perm (Some name) md = Some f \<Longrightarrow> f = name"
  by (auto simp: CheckAccess_def MatchPath_def Let_def split: if_splits)

lemma allowed_names:
  assumes "GetFileNameIfAllowedToOpen policy (Some name) flags = Some (f, ul)"
  shows "f = name"
proof -
  obtain perm where "CheckOpen perm (Some name) flags = Some (f, ul)"
    using assms open_loop_SomeD unfolding GetFileNameIfAllowedToOpen_def by blast
  from CheckOpen_SomeD(1) [OF this] show ?thesis by simp
qed

lemma allowed_access_names:
  assumes "GetFileNameIfAllowedToAccess policy (Some name) md = Some f"
  shows "f = name"
  using assms access_loop_SomeD CheckAccess_name unfolding GetFileNameIfAllowedToAccess_def by blast

lemma command_effect_safe:
  assumes "command_effect k policy command_type name flags = (calls, value, fds)"
  shows "list_all (call_allowed policy) calls" and "opened_by k calls = fds"
    and "closed_by calls = []" and "replies_in calls = []" and "\<forall>fd \<in> set fds. 0 \<le> fd"
proof -
  have "list_all (call_allowed policy) calls \<and> opened_by k calls = fds \<and> closed_by calls = [] \<and> replies_in calls = []
    \<and> (\<forall>fd \<in> set fds. 0 \<le> fd)"
  proof (cases "command_type = COMMAND_ACCESS")
    case True
    show ?thesis
    proof (cases "GetFileNameIfAllowedToAccess policy (Some name) flags")
      case (Some f)
      with allowed_access_names [OF Some] assms True show ?thesis
        by (cases "bk_access k name flags") (auto simp: command_effect_def access_effect_def)
    qed (use assms True in \<open>auto simp: command_effect_def access_effect_def\<close>)
  next
    case False
    show ?thesis
    proof (cases "GetFileNameIfAllowedToOpen policy (Some name) flags")
      case None
      with assms False show ?thesis by (auto simp: command_effect_def open_effect_def)
    next
      case (Some r)
      then obtain ul where r: "r = (name, ul)" by (cases r) (auto dest: allowed_names)
      with Some assms False show ?thesis
        by (cases "bk_valgrind k"; cases "kernel_open k name flags")
          (auto simp: command_effect_def open_effect_def kernel_open_def open_call_def Let_def split: if_splits)
    qed
  qed
  then show "list_all (call_allowed policy) calls" "opened_by k calls = fds"
    "closed_by calls = []" "replies_in calls = []" "\<forall>fd \<in> set fds. 0 \<le> fd" by blast+
qed

lemma HandleRemoteCommand_cases:
  assumes "iterator_ok it" and "command_type = COMMAND_ACCESS \<or> command_type = COMMAND_OPEN"
  obtains "HandleRemoteCommand k policy command_type reply_ipc it = ([], Inr False)"
  | name flags calls val fds handled where "command_effect k policy command_type name flags = (calls, val, fds)"
    and "HandleRemoteCommand k policy command_type reply_ipc it =
      (calls @ SendReply (reply_with reply_ipc val fds) # close_all fds, Inr handled)"
proof -
  let ?r = "read_bind (ReadString it) (\<lambda>name it. read_map (Pair name) (ReadInt it))"
  have "safe_read ?r"
    by (intro safe_read_bind string_reads_safe safe_read_map builtin_reads_safe assms(1))
  then obtain v it' where r: "?r = ReadOk v it'" by (auto simp: safe_read_def)
  show thesis
  proof (cases v)
    case None
    with r show thesis by (intro that(1)) (simp add: HandleRemoteCommand_def log_return_def)
  next
    case (Some a)
    obtain name flags where a: "a = (name, flags)" by (cases a)
    obtain calls val fds where "command_effect k policy command_type (c_str name) flags = (calls, val, fds)"
      by (cases "command_effect k policy command_type (c_str name) flags")
    with HandleRemoteCommand_effect [OF _ assms(2) this] r Some a show thesis by (intro that(2)) simp_all
  qed
qed

text \<open>What every request comes to, whatever bytes it holds.\<close>

definition request_safe :: "broker_kernel \<Rightarrow> broker_policy \<Rightarrow> received \<Rightarrow> broker_call list \<Rightarrow> bool" where
  "request_safe k policy msg calls \<longleftrightarrow>
     list_all (call_allowed policy) calls \<and> sent_by calls = opened_by k calls
   \<and> closed_by calls = opened_by k calls @ filter (\<lambda>fd. fd \<noteq> -1) (rv_fds msg)"

lemma HandleRequest_safe:
  assumes "rv_len msg \<le> int kMaxMessageLength"
  shows "\<exists>calls status. HandleRequest k policy msg = (calls, Inr status) \<and> request_safe k policy msg calls"
proof -
  let ?lost = "rv_len msg = 0 \<or> rv_len msg = -1 \<and> rv_errno msg = ECONNRESET"
  let ?bad = "rv_len msg < 0 \<or> length (rv_fds msg) \<noteq> 1 \<or> rv_fds msg ! 0 < 0"
  show ?thesis
  proof (cases "?lost \<or> ?bad")
    case True
    then have "\<exists>status. HandleRequest k policy msg = (close_all (filter (\<lambda>fd. fd \<noteq> -1) (rv_fds msg)), Inr status)"
      unfolding HandleRequest_def Let_def by (cases ?lost) simp_all
    then show ?thesis by (auto simp: request_safe_def sent_by_def)
  next
    case False
    then obtain fd where fd: "rv_fds msg = [fd]" "\<not> fd < 0" "fd \<noteq> -1" by (auto simp: length_Suc_conv)
    let ?data = "take (nat (rv_len msg)) (rv_buf msg)"
    have "length ?data < 2 ^ 31" using assms by (simp add: kMaxMessageLength_def)
    then have ok: "iterator_ok (PickleIterator (Pickle_from ?data))" by (rule PickleIterator_ok)
    then have "safe_read (ReadInt (PickleIterator (Pickle_from ?data)))" by (rule builtin_reads_safe)
    then obtain v it where r: "ReadInt (PickleIterator (Pickle_from ?data)) = ReadOk v it" and it: "iterator_ok it"
      by (auto simp: safe_read_def)
    note unfold = HandleRequest_def Let_def r fd
    show ?thesis
    proof (cases "\<exists>c. v = Some c \<and> (c = COMMAND_ACCESS \<or> c = COMMAND_OPEN)")
      case False
      with \<open>\<not> (?lost \<or> ?bad)\<close> fd show ?thesis
        by (cases v) (auto simp: unfold request_safe_def sent_by_def log_bind_def log_return_def)
    next
      case True
      then obtain c where c: "v = Some c" "c = COMMAND_ACCESS \<or> c = COMMAND_OPEN" by blast
      have run: "HandleRequest k policy msg =
          log_bind (HandleRemoteCommand k policy c fd it) (\<lambda>command_handled.
          log_bind (close_all [fd], Inr ()) (\<lambda>_. log_return (if command_handled then SUCCESS else FAILURE)))"
        using \<open>\<not> (?lost \<or> ?bad)\<close> fd c by (simp add: unfold)
      show ?thesis
        using it c(2)
      proof (cases rule: HandleRemoteCommand_cases [of it c k policy fd])
        case 1
        then show ?thesis using fd by (simp add: run request_safe_def sent_by_def log_bind_def log_return_def)
      next
        case (2 name flags calls val fds handled)
        then show ?thesis
          using fd command_effect_safe [OF 2(1)]
          by (simp add: run request_safe_def sent_by_def log_bind_def log_return_def reply_with_def)
      qed
    qed
  qed
qed

text \<open>A kernel that opens one file as descriptor 9 and knows no other.\<close>

definition one_file_kernel :: broker_kernel where
  "one_file_kernel =
     \<lparr>bk_valgrind = False,
      bk_openat = (\<lambda>f flags md. if f = ''/etc/hosts'' then (9, 0) else (-1, 2)),
      bk_libc_open = (\<lambda>f flags md. (-1, 2)),
      bk_access = (\<lambda>f md. if f = ''/etc/hosts'' then (0, 0) else (-1, 2)),
      bk_sendmsg = (\<lambda>r. 8)\<rparr>"

text \<open>
  C34: Handling a request is safe whatever bytes arrive in the broker's buffer and however many
  descriptors come with them: the broker does not abort and does not read outside of the message,
  makes no system call on a file but those its policy allows, sends every descriptor it opened
  back, and in the end has closed each of them and every descriptor it received, once.
\<close>

theorem broker_request_safe:
  assumes "rv_len msg \<le> int kMaxMessageLength"
  shows "\<exists>calls status. HandleRequest k policy msg = (calls, Inr status)
    \<and> list_all (call_allowed policy) calls \<and> sent_by calls = opened_by k calls
    \<and> closed_by calls = opened_by k calls @ filter (\<lambda>fd. fd \<noteq> -1) (rv_fds msg)"
  using HandleRequest_safe [OF assms] by (simp add: request_safe_def)


theorem broker_request_safe_witness:
  "\<exists>perm calls status. ReadOnly ''/etc/hosts'' = Inr perm
     \<and> HandleRequest one_file_kernel (BrokerPolicy 1 [perm])
         \<lparr>rv_len = 4, rv_errno = 0, rv_buf = [255, 255, 255, 255], rv_fds = [5, 6]\<rparr> = (calls, Inr status)
     \<and> closed_by calls = opened_by one_file_kernel calls @ [5, 6]"
  using broker_request_safe [of "\<lparr>rv_len = 4, rv_errno = 0, rv_buf = [255, 255, 255, 255], rv_fds = [5, 6]\<rparr>" one_file_kernel]
  by (simp add: ReadOnly_def BrokerFilePermission_def kMaxMessageLength_def) blast








text \<open>The parent's process object works until it is destroyed, which kills and reaps the child.\<close>

lemma BrokerProcess_Init_parent:
  assumes "0 < pid" and "\<not> bp_initialized bp"
  obtains bp' where "snd (BrokerProcess_Init 1 pid callback msgs bp) = Inr (Some (bp', True))"
    and "\<And>t name flags. BrokerProcess_Open bp' t name flags
      = Client_Open (BrokerClient (bp_policy bp) (bp_fast_check_in_client bp) (bp_quiet_failures_for_tests bp)) t name flags"
    and "\<And>t name md. BrokerProcess_Access bp' t name md
      = Client_Access (BrokerClient (bp_policy bp) (bp_fast_check_in_client bp) (bp_quiet_failures_for_tests bp)) t name md"
    and "BrokerProcess_destroy 0 0 bp' = ([CloseWriter, KillBroker pid, WaitBroker pid], Inr ())"
proof -
  let ?client = "BrokerClient (bp_policy bp) (bp_fast_check_in_client bp) (bp_quiet_failures_for_tests bp)"
  let ?bp = "bp\<lparr>bp_broker_pid := pid, bp_broker_client := Some ?client, bp_initialized := True\<rparr>"
  show thesis
    by (rule that [of ?bp])
      (use assms in \<open>simp_all add: BrokerProcess_Init_def CreatePair_def BrokerProcess_Open_def BrokerProcess_Access_def
        BrokerProcess_destroy_def CloseChannel_def log_bind_def log_lift_def log_call_def log_return_def\<close>)
qed

subsection \<open>Client and host together\<close>

text \<open>
  The channel between a client and the host: the request arrives with the descriptor for the
  reply, and the reply goes back if the host sends one; a descriptor in it gets the number
  \<open>recv_fd fd recvmsg_flags\<close> in the client.
\<close>

definition host_transport :: "broker_kernel \<Rightarrow> broker_policy \<Rightarrow> int \<Rightarrow> (int \<Rightarrow> u32 \<Rightarrow> int) \<Rightarrow> transport" where
  "host_transport k policy reply_ipc recv_fd request recvmsg_flags =
     (let msg = \<lparr>rv_len = int (length request), rv_errno = 0, rv_buf = request, rv_fds = [reply_ipc]\<rparr> in
      case filter (\<lambda>r. bk_sendmsg k r > 0) (replies_in (fst (HandleRequest k policy msg))) of
        [] \<Rightarrow> (-1, [], -1)
      | r # _ \<Rightarrow> (int (length (reply_data r)), reply_data r,
                 case reply_fds r of [] \<Rightarrow> -1 | fd # _ \<Rightarrow> recv_fd fd recvmsg_flags))"

lemma request_pickle_values:
  "request_pickle c name flags = res_bind Pickle_new (write_values [VInt c, VString name, VInt flags])"
proof -
  have 1: "write_values [VInt flags] = (\<lambda>p. WriteInt flags p)"
    by (rule ext) (simp add: res_bind_def split: sum.splits)
  have 2: "write_values [VString name, VInt flags] = (\<lambda>p. res_bind (WriteString name p) (\<lambda>p. WriteInt flags p))"
    by (rule ext) (simp only: write_values.simps(2) [of "VString name"] write_value.simps 1)
  have 3: "write_values [VInt c, VString name, VInt flags]
      = (\<lambda>p. res_bind (WriteInt c p) (\<lambda>p. res_bind (WriteString name p) (\<lambda>p. WriteInt flags p)))"
    by (rule ext) (simp only: write_values.simps(2) [of "VInt c"] write_value.simps 2)
  show ?thesis unfolding 3 request_pickle_def by (rule refl)
qed

lemma read_map_eqD: "read_map f r = ReadOk (Some (f x)) it \<Longrightarrow> inj f \<Longrightarrow> r = ReadOk (Some x) it"
  by (auto simp: read_map_def read_bind_def inj_def split: read_result.splits option.splits)

lemma request_pickle_reads:
  assumes "length name \<le> 4080"
  obtains p it it' where "request_pickle c name flags = Inr p" and "pickle_size p \<le> kMaxMessageLength"
    and "length (pickle_data p) = pickle_size p"
    and "ReadInt (PickleIterator (Pickle_from (pickle_data p))) = ReadOk (Some c) it"
    and "read_bind (ReadString it) (\<lambda>name it. read_map (Pair name) (ReadInt it)) = ReadOk (Some (name, flags)) it'"
proof -
  let ?pl = "encode_value (VInt c) @ encode_value (VString name) @ encode_value (VInt flags)"
  obtain p0 where p0: "Pickle_new = Inr p0" "holds p0 []" using Pickle_new_holds by blast
  obtain p where p: "write_values [VInt c, VString name, VInt flags] p0 = Inr p" "holds p ?pl"
    using write_values_holds [OF p0(2), of "[VInt c, VString name, VInt flags]"] by auto
  have "Align (length name) 4 \<le> 4080"
  proof -
    have "Align (length name) 4 < 4084" using Align_4(3) [of "length name"] assms by linarith
    moreover have "Align (length name) 4 mod 4 = 0" by (rule Align_4)
    ultimately show ?thesis by presburger
  qed
  then have len: "length ?pl \<le> 4092" by simp
  then have "unat (of_nat (length ?pl) :: u32) = length ?pl" by (intro unat_of_nat_small) simp
  then have sz: "pickle_size p = 4 + length ?pl" "length (pickle_data p) = pickle_size p"
    using p(2) by (simp_all add: holds_def pickle_size_def pickle_data_def payload_size_def header_payload_size_def)
  have it: "PickleIterator (Pickle_from (pickle_data p)) = at 0 ?pl"
    using len by (intro Pickle_from_holds [OF p(2)]) simp
  have small: "length ?pl < 2 ^ 31" using len by simp
  have 1: "ReadInt (at 0 ?pl) = ReadOk (Some c) (at 4 ?pl)"
    using read_value_at [of ?pl "[]" "VInt c" _, OF _ small] by (auto dest!: read_map_eqD simp: inj_def)
  have 2: "ReadString (at 4 ?pl) = ReadOk (Some name) (at (8 + Align (length name) 4) ?pl)"
    using read_value_at [of ?pl "encode_value (VInt c)" "VString name" _, OF _ small]
    by (auto dest!: read_map_eqD simp: inj_def)
  have "\<exists>it. ReadInt (at (8 + Align (length name) 4) ?pl) = ReadOk (Some flags) it"
    using read_value_at [of ?pl "encode_value (VInt c) @ encode_value (VString name)" "VInt flags" "[]", OF _ small]
    by (auto dest!: read_map_eqD simp: inj_def)
  then obtain it' where 3: "ReadInt (at (8 + Align (length name) 4) ?pl) = ReadOk (Some flags) it'" by blast
  show thesis
  proof (rule that)
    show "request_pickle c name flags = Inr p"
      unfolding request_pickle_values p0(1) res_bind_Inr by (rule p(1))
    show "pickle_size p \<le> kMaxMessageLength" using sz(1) len by (simp add: kMaxMessageLength_def)
    show "ReadInt (PickleIterator (Pickle_from (pickle_data p))) = ReadOk (Some c) (at 4 ?pl)"
      unfolding it by (rule 1)
    show "read_bind (ReadString (at 4 ?pl)) (\<lambda>name it. read_map (Pair name) (ReadInt it))
        = ReadOk (Some (name, flags)) it'"
      unfolding 2 read_bind_Some 3 read_map_Some by (rule refl)
  qed (rule sz(2))
qed

lemma host_transport_command:
  assumes "c = COMMAND_ACCESS \<or> c = COMMAND_OPEN" and "CHR 0x00 \<notin> set name" and "length name \<le> 4080"
    and "0 \<le> reply_ipc" and "\<forall>r. 0 < bk_sendmsg k r"
    and "command_effect k policy c name flags = (calls, val, fds)"
  shows "\<exists>p. request_pickle c name flags = Inr p \<and> pickle_size p \<le> kMaxMessageLength
    \<and> host_transport k policy reply_ipc recv_fd (pickle_data p) recvmsg_flags
      = (8, le_bytes 4 (4 :: u32) @ le_bytes 4 (of_int val :: u32),
         case fds of [] \<Rightarrow> -1 | fd # _ \<Rightarrow> recv_fd fd recvmsg_flags)"
proof -
  obtain p it it' where p: "request_pickle c name flags = Inr p" "pickle_size p \<le> kMaxMessageLength"
    "length (pickle_data p) = pickle_size p"
    "ReadInt (PickleIterator (Pickle_from (pickle_data p))) = ReadOk (Some c) it"
    "read_bind (ReadString it) (\<lambda>name it. read_map (Pair name) (ReadInt it)) = ReadOk (Some (name, flags)) it'"
    using request_pickle_reads [OF assms(3)] by blast
  let ?msg = "\<lparr>rv_len = int (length (pickle_data p)), rv_errno = 0, rv_buf = pickle_data p, rv_fds = [reply_ipc]\<rparr>"
  have "length (pickle_data p) \<noteq> 0"
  proof
    assume "length (pickle_data p) = 0"
    with p(4) show False
      by (simp add: Pickle_from_def PickleIterator_def payload_size_def payload_def sizeof_Header_def
          ReadInt_def ReadBuiltinType_def)
  qed
  moreover have "command_effect k policy c (c_str name) flags = (calls, val, fds)"
    using assms(6) c_str_plain [OF assms(2)] by simp
  note run = HandleRemoteCommand_effect [OF p(5) assms(1) this, of reply_ipc]
  ultimately have "HandleRequest k policy ?msg =
      (calls @ SendReply (reply_with reply_ipc val fds) # close_all fds @ [CloseFile reply_ipc],
       Inr (if bk_sendmsg k (reply_with reply_ipc val fds) > 0 then SUCCESS else FAILURE))"
    using assms(1,4) p(4) by (auto simp: HandleRequest_def run log_bind_def log_return_def close_all_def)
  moreover have "replies_in calls = []" using command_effect_safe(4) [OF assms(6)] .
  ultimately show ?thesis
    using p(1,2) assms(5) by (auto simp: host_transport_def Let_def reply_with_def split: list.splits)
qed

lemma reply_reads:
  "\<exists>it. ReadInt (PickleIterator (Pickle_from (le_bytes 4 (4 :: u32) @ le_bytes 4 (v :: u32))))
    = ReadOk (Some v) it"
proof -
  let ?p = "\<lparr>pk_memory = Some (le_bytes 4 (of_nat (length (le_bytes 4 v)) :: u32) @ le_bytes 4 v),
    pk_header_size = 4, pk_capacity_after_header = 64, pk_write_offset = 4\<rparr>"
  have h: "holds ?p (le_bytes 4 v)" by (simp add: holds_def kCapacityReadOnly_def)
  have "PickleIterator (Pickle_from (pickle_data ?p)) = at (length ([] :: bytes)) (le_bytes 4 v)"
    using Pickle_from_holds [OF h] by simp
  moreover have "pickle_data ?p = le_bytes 4 (4 :: u32) @ le_bytes 4 v" using holds_reply(2) [OF h] .
  moreover have "ReadInt (at (length ([] :: bytes)) (le_bytes 4 v)) = ReadOk (Some v) (at (length ([] :: bytes) + 4) (le_bytes 4 v))"
    by (rule builtin_reads_at(1) [where post = "[]"]) (simp add: padded_def)
  ultimately show ?thesis by (intro exI) simp
qed

lemma sint_of_int_small: "- (2 ^ 31) \<le> v \<Longrightarrow> v < 2 ^ 31 \<Longrightarrow> sint (of_int v :: u32) = v"
  by (simp add: signed_of_int signed_take_bit_int_eq_self)

text \<open>
  What the client should see: the system call's own result on the file it names, or the denial.
\<close>

definition errno_ok :: "int \<times> int \<Rightarrow> bool" where
  "errno_ok r \<longleftrightarrow> fst r < 0 \<longrightarrow> 0 < snd r \<and> snd r \<le> 4095"

definition remote_access :: "broker_kernel \<Rightarrow> broker_policy \<Rightarrow> string \<Rightarrow> u32 \<Rightarrow> int" where
  "remote_access k policy name md =
     (if GetFileNameIfAllowedToAccess policy (Some name) md = None then - br_denied_errno policy
      else let (ret, err) = bk_access k name md in if ret = 0 then 0 else - err)"

definition remote_open ::
    "broker_kernel \<Rightarrow> broker_policy \<Rightarrow> (int \<Rightarrow> u32 \<Rightarrow> int) \<Rightarrow> string \<Rightarrow> u32 \<Rightarrow> int" where
  "remote_open k policy recv_fd name flags =
     (let plain = flags AND NOT O_CLOEXEC in
      if GetFileNameIfAllowedToOpen policy (Some name) plain = None then - br_denied_errno policy
      else let (fd, err) = kernel_open k name plain in
        if fd < 0 then - err
        else recv_fd fd (if flags AND O_CLOEXEC \<noteq> 0 then MSG_CMSG_CLOEXEC else 0))"

lemma and_not_eq_self:
  assumes "flags AND m = 0"
  shows "flags AND NOT m = (flags :: u32)"
proof (rule bit_word_eqI)
  fix n assume "n < LENGTH(32)"
  have "\<not> bit (flags AND m) n" unfolding assms by simp
  then show "bit (flags AND NOT m) n = bit flags n"
    using \<open>n < LENGTH(32)\<close> by (auto simp: bit_simps)
qed

text \<open>
  What the client relies on: over a working channel every request that fits a message is answered
  with the value and the descriptor that the command's effect says, and descriptors come only
  with a successful open.
\<close>

definition answer_fd :: "(int \<Rightarrow> u32 \<Rightarrow> int) \<Rightarrow> int list \<Rightarrow> u32 \<Rightarrow> int" where
  "answer_fd fd_number fds recvmsg_flags = (case fds of [] \<Rightarrow> -1 | fd # _ \<Rightarrow> fd_number fd recvmsg_flags)"

locale broker_channel =
  fixes transport :: transport
    and effect :: "u32 \<Rightarrow> string \<Rightarrow> u32 \<Rightarrow> int \<times> int list"
    and fd_number :: "int \<Rightarrow> u32 \<Rightarrow> int"
    and serves :: "string \<Rightarrow> bool"
  assumes answers: "serves name \<Longrightarrow> c = COMMAND_ACCESS \<or> c = COMMAND_OPEN \<Longrightarrow> effect c name flags = (val, fds) \<Longrightarrow>
      \<exists>p. request_pickle c name flags = Inr p \<and> pickle_size p \<le> kMaxMessageLength
        \<and> transport (pickle_data p) rf
          = (8, le_bytes 4 (4 :: u32) @ le_bytes 4 (of_int val :: u32), answer_fd fd_number fds rf)"
    and no_fd: "effect c name flags = (val, fds) \<Longrightarrow> c = COMMAND_ACCESS \<or> val < 0 \<Longrightarrow> fds = []"
begin

text \<open>The flags that the client sends and those it receives with.\<close>

lemma client_command:
  assumes "serves name" and "c = COMMAND_ACCESS \<or> c = COMMAND_OPEN" and "effect c name flags = (val, fds)"
    and "\<not> (c = COMMAND_OPEN \<and> flags' AND O_CLOEXEC \<noteq> 0) \<Longrightarrow> flags = flags' \<and> rf = 0"
    and "c = COMMAND_OPEN \<and> flags' AND O_CLOEXEC \<noteq> 0 \<Longrightarrow> flags = flags' AND NOT O_CLOEXEC \<and> rf = MSG_CMSG_CLOEXEC"
    and "- (2 ^ 31) \<le> val" and "val < 2 ^ 31"
    and "c = COMMAND_OPEN \<Longrightarrow> 0 \<le> val \<Longrightarrow> 0 \<le> answer_fd fd_number fds rf"
    and "c = COMMAND_ACCESS \<Longrightarrow> GetFileNameIfAllowedToAccess (bc_policy client) (Some name) flags = None
      \<Longrightarrow> val = - br_denied_errno (bc_policy client)"
    and "c = COMMAND_OPEN \<Longrightarrow> GetFileNameIfAllowedToOpen (bc_policy client) (Some name) flags = None
      \<Longrightarrow> val = - br_denied_errno (bc_policy client) \<and> val < 0"
  shows "PathAndFlagsSyscall client transport c (Some name) flags'
    = Inr (if c = COMMAND_OPEN \<and> 0 \<le> val then answer_fd fd_number fds rf else val)"
proof -
  obtain p where p: "request_pickle c name flags = Inr p" "pickle_size p \<le> kMaxMessageLength"
    "transport (pickle_data p) rf = (8, le_bytes 4 (4 :: u32) @ le_bytes 4 (of_int val :: u32), answer_fd fd_number fds rf)"
    using answers [OF assms(1-3)] by blast
  have fd: "answer_fd fd_number fds rf = -1" if "c = COMMAND_ACCESS \<or> val < 0"
    using no_fd [OF assms(3) that] by (simp add: answer_fd_def)
  obtain it where "ReadInt (PickleIterator (Pickle_from (le_bytes 4 (4 :: u32) @ le_bytes 4 (of_int val :: u32))))
      = ReadOk (Some (of_int val)) it" using reply_reads by blast
  note read = this sint_of_int_small [OF assms(6,7)]
  let ?local = "c = COMMAND_OPEN \<and> flags' AND O_CLOEXEC \<noteq> 0"
  have flags: "(if ?local then flags' AND NOT O_CLOEXEC else flags') = flags"
    "(if ?local then MSG_CMSG_CLOEXEC else 0) = rf"
  proof -
    have "(if ?local then flags' AND NOT O_CLOEXEC else flags') = flags \<and> (if ?local then MSG_CMSG_CLOEXEC else 0) = rf"
    proof (cases ?local)
      case True
      show ?thesis unfolding if_P [OF True] using assms(5) [OF True] by simp
    next
      case False
      show ?thesis unfolding if_not_P [OF False] using assms(4) [OF False] by simp
    qed
    then show "(if ?local then flags' AND NOT O_CLOEXEC else flags') = flags"
      "(if ?local then MSG_CMSG_CLOEXEC else 0) = rf" by blast+
  qed
  show ?thesis
    unfolding PathAndFlagsSyscall_def kCurrentProcessOpenFlagsMask_def Let_def option.case flags p(1) res_bind_Inr p(3)
      prod.case
    using p(2) fd assms(2,8-10) by (auto simp: read)
qed

end

text \<open>The host behind a transport that works is such a channel.\<close>

interpretation host: broker_channel "host_transport k policy reply_ipc recv_fd"
  "\<lambda>c name flags. snd (command_effect k policy c name flags)" recv_fd
  "\<lambda>name. CHR 0x00 \<notin> set name \<and> length name \<le> 4080 \<and> 0 \<le> reply_ipc \<and> (\<forall>r. 0 < bk_sendmsg k r)"
  for k policy reply_ipc recv_fd
proof (unfold_locales, goal_cases)
  case (1 name c flags val fds rf)
  then obtain calls where "command_effect k policy c name flags = (calls, val, fds)"
    by (cases "command_effect k policy c name flags") auto
  from host_transport_command [OF _ _ _ _ _ this] 1 show ?case unfolding answer_fd_def by blast
next
  case (2 c name flags val fds)
  then show ?case
    by (auto simp: command_effect_def access_effect_def open_effect_def Let_def
        split: option.splits prod.splits if_splits)
qed

lemma Client_Access_remote:
  assumes "CHR 0x00 \<notin> set name" and "length name \<le> 4080" and "0 \<le> reply_ipc" and "\<forall>r. 0 < bk_sendmsg k r"
    and "0 < br_denied_errno policy" and "br_denied_errno policy \<le> 4095"
    and "let (ret, err) = bk_access k name md in 0 \<le> err \<and> err \<le> 4095"
  shows "Client_Access (BrokerClient policy fast_check quiet) (host_transport k policy reply_ipc recv_fd) (Some name) md
    = Inr (remote_access k policy name md)"
proof -
  have eff: "snd (command_effect k policy COMMAND_ACCESS name md) = (remote_access k policy name md, [])"
    using allowed_access_names [of policy name md]
    by (auto simp: command_effect_def access_effect_def remote_access_def split: option.splits prod.splits)
  have "- (2 ^ 31) \<le> remote_access k policy name md" "remote_access k policy name md < 2 ^ 31"
    using assms(5-7) by (auto simp: remote_access_def split: prod.splits)
  then have "PathAndFlagsSyscall (BrokerClient policy fast_check quiet) (host_transport k policy reply_ipc recv_fd)
      COMMAND_ACCESS (Some name) md
    = Inr (if COMMAND_ACCESS = COMMAND_OPEN \<and> 0 \<le> remote_access k policy name md
           then answer_fd recv_fd [] 0 else remote_access k policy name md)"
    using assms(1-4)
    by (intro host.client_command [OF _ _ eff]) (simp_all add: BrokerClient_def remote_access_def)
  then show ?thesis by (simp add: Client_Access_def)
qed

lemma Client_Open_remote:
  assumes "CHR 0x00 \<notin> set name" and "length name \<le> 4080" and "0 \<le> reply_ipc" and "\<forall>r. 0 < bk_sendmsg k r"
    and "0 < br_denied_errno policy" and "br_denied_errno policy \<le> 4095"
    and "errno_ok (kernel_open k name (flags AND NOT O_CLOEXEC))" and "\<forall>fd rf. 0 \<le> fd \<longrightarrow> 0 \<le> recv_fd fd rf"
  shows "Client_Open (BrokerClient policy fast_check quiet) (host_transport k policy reply_ipc recv_fd) (Some name) flags
    = Inr (remote_open k policy recv_fd name flags)"
proof -
  let ?plain = "flags AND NOT O_CLOEXEC"
  let ?rf = "if flags AND O_CLOEXEC \<noteq> 0 then MSG_CMSG_CLOEXEC else 0 :: u32"
  obtain val fds where eff: "snd (command_effect k policy COMMAND_OPEN name ?plain) = (val, fds)"
    by (cases "snd (command_effect k policy COMMAND_OPEN name ?plain)")
  let ?fd = "answer_fd recv_fd fds ?rf"
  have spec: "remote_open k policy recv_fd name flags = (if 0 \<le> val then ?fd else val)"
    "0 \<le> val \<Longrightarrow> 0 \<le> ?fd" "- (2 ^ 31) \<le> val" "val < 2 ^ 31"
    "GetFileNameIfAllowedToOpen policy (Some name) ?plain = None \<Longrightarrow> val = - br_denied_errno policy \<and> val < 0"
    using eff assms(5-8) allowed_names [of policy name ?plain]
    by (auto simp: command_effect_def open_effect_def remote_open_def errno_ok_def answer_fd_def Let_def
        split: option.splits prod.splits if_splits)
  have "PathAndFlagsSyscall (BrokerClient policy fast_check quiet) (host_transport k policy reply_ipc recv_fd)
      COMMAND_OPEN (Some name) flags
    = Inr (if COMMAND_OPEN = COMMAND_OPEN \<and> 0 \<le> val then ?fd else val)"
    using assms(1-4) spec and_not_eq_self [of flags O_CLOEXEC]
    by (intro host.client_command [OF _ _ eff]) (simp_all add: BrokerClient_def)
  then show ?thesis by (simp add: Client_Open_def spec(1))
qed

text \<open>
  C33: The remote system calls refine the local ones. When a client and the host run the same
  policy, the channel works (every reply is sent, and descriptors arrive as descriptors), the name has at most 4080
  bytes and none is zero, and errno values are between 0 and 4095 (those of the policy and of a failed open not 0), \<open>Access\<close> and \<open>Open\<close> give the caller exactly what the system call
  would: \<open>-denied_errno\<close> when the policy refuses, minus the kernel's errno when the call fails, and
  otherwise 0 or the descriptor that the broker opened and passed on, with close-on-exec exactly
  when the caller asked for it. Checking the policy in the client first changes nothing.
\<close>

theorem broker_client_refines:
  assumes "CHR 0x00 \<notin> set name" and "length name \<le> 4080" and "0 \<le> reply_ipc" and "\<forall>r. 0 < bk_sendmsg k r"
    and "0 < br_denied_errno policy" and "br_denied_errno policy \<le> 4095"
    and "let (ret, err) = bk_access k name md in 0 \<le> err \<and> err \<le> 4095"
    and "errno_ok (kernel_open k name (flags AND NOT O_CLOEXEC))" and "\<forall>fd rf. 0 \<le> fd \<longrightarrow> 0 \<le> recv_fd fd rf"
  shows "Client_Access (BrokerClient policy fast_check quiet) (host_transport k policy reply_ipc recv_fd) (Some name) md
      = Inr (remote_access k policy name md)
    \<and> Client_Open (BrokerClient policy fast_check quiet) (host_transport k policy reply_ipc recv_fd) (Some name) flags
      = Inr (remote_open k policy recv_fd name flags)"
  using Client_Access_remote [OF assms(1-7)] Client_Open_remote [OF assms(1-6,8,9)] by blast

theorem broker_client_refines_witness:
  "\<exists>perm. ReadOnly ''/etc/hosts'' = Inr perm
    \<and> Client_Access (BrokerClient (BrokerPolicy 1 [perm]) True False)
        (host_transport one_file_kernel (BrokerPolicy 1 [perm]) 5 (\<lambda>fd rf. fd + 10)) (Some ''/etc/hosts'') W_OK = Inr (- 1)
    \<and> Client_Open (BrokerClient (BrokerPolicy 1 [perm]) True False)
        (host_transport one_file_kernel (BrokerPolicy 1 [perm]) 5 (\<lambda>fd rf. fd + 10)) (Some ''/etc/hosts'') O_CLOEXEC = Inr 19"
proof -
  obtain perm where perm: "ReadOnly ''/etc/hosts'' = Inr perm"
    by (simp add: ReadOnly_def BrokerFilePermission_def)
  let ?policy = "BrokerPolicy 1 [perm]"
  let ?recv = "\<lambda>(fd :: int) (rf :: u32). fd + 10"
  have perm_eq: "perm = projr (ReadOnly ''/etc/hosts'')" using perm by simp
  have spec: "remote_access one_file_kernel ?policy ''/etc/hosts'' W_OK = - 1"
    "remote_open one_file_kernel ?policy ?recv ''/etc/hosts'' O_CLOEXEC = 19"
    unfolding perm_eq by code_simp+
  have "Client_Access (BrokerClient ?policy True False) (host_transport one_file_kernel ?policy 5 ?recv)
        (Some ''/etc/hosts'') W_OK = Inr (remote_access one_file_kernel ?policy ''/etc/hosts'' W_OK)
    \<and> Client_Open (BrokerClient ?policy True False) (host_transport one_file_kernel ?policy 5 ?recv)
        (Some ''/etc/hosts'') O_CLOEXEC = Inr (remote_open one_file_kernel ?policy ?recv ''/etc/hosts'' O_CLOEXEC)"
    by (rule broker_client_refines)
      (simp_all add: one_file_kernel_def BrokerPolicy_def errno_ok_def kernel_open_def Let_def)
  with perm show ?thesis unfolding spec by blast
qed

end
