(* ===== verification/Win_Policy_Opcodes.thy ===== *)
theory Win_Policy_Opcodes
  imports Byte_Memory
begin

text \<open>
  The opcodes of the Windows policy engine, \<^verbatim>\<open>win/src/policy_engine_opcodes.{h,cc}\<close> and
  \<^verbatim>\<open>win/src/policy_engine_params.h\<close>: one opcode compares one parameter of an intercepted call, or
  is the action of a rule. Opcodes live in memory that the broker writes and the target process
  evaluates, 40 bytes each, with the strings they compare behind them; a factory makes them. This
  is the 64-bit build, where a wide character has two bytes. How two strings compare
  (\<open>RtlCompareUnicodeString\<close> yields 0) is a parameter of the model.
\<close>

subsection \<open>Results, ids and options\<close>

text \<open>The last constructor is a value of the enumeration's type that is none of its members.\<close>

datatype eval_result =
    EVAL_TRUE | EVAL_FALSE | EVAL_ERROR
  | ASK_BROKER | DENY_ACCESS | GIVE_READONLY | GIVE_ALLACCESS | GIVE_CACHED | GIVE_FIRST | SIGNAL_ALARM
  | FAKE_SUCCESS | FAKE_ACCESS_DENIED | TERMINATE_PROCESS
  | OTHER_RESULT u32

fun eval_result_code :: "eval_result \<Rightarrow> u32" where
  "eval_result_code EVAL_TRUE = 0"
| "eval_result_code EVAL_FALSE = 1"
| "eval_result_code EVAL_ERROR = 2"
| "eval_result_code ASK_BROKER = 3"
| "eval_result_code DENY_ACCESS = 4"
| "eval_result_code GIVE_READONLY = 5"
| "eval_result_code GIVE_ALLACCESS = 6"
| "eval_result_code GIVE_CACHED = 7"
| "eval_result_code GIVE_FIRST = 8"
| "eval_result_code SIGNAL_ALARM = 9"
| "eval_result_code FAKE_SUCCESS = 10"
| "eval_result_code FAKE_ACCESS_DENIED = 11"
| "eval_result_code TERMINATE_PROCESS = 12"
| "eval_result_code (OTHER_RESULT w) = w"

definition eval_results :: "eval_result list" where
  "eval_results = [EVAL_TRUE, EVAL_FALSE, EVAL_ERROR, ASK_BROKER, DENY_ACCESS, GIVE_READONLY, GIVE_ALLACCESS,
     GIVE_CACHED, GIVE_FIRST, SIGNAL_ALARM, FAKE_SUCCESS, FAKE_ACCESS_DENIED, TERMINATE_PROCESS]"

definition eval_result_of :: "u32 \<Rightarrow> eval_result" where
  "eval_result_of w = (if unat w < length eval_results then eval_results ! unat w else OTHER_RESULT w)"

definition is_action :: "eval_result \<Rightarrow> bool" where
  "is_action r \<longleftrightarrow> r \<in> set (drop 3 eval_results)"

datatype opcode_id =
    OP_ALWAYS_FALSE | OP_ALWAYS_TRUE | OP_NUMBER_MATCH | OP_NUMBER_MATCH_RANGE | OP_NUMBER_AND_MATCH
  | OP_WSTRING_MATCH | OP_ACTION
  | OTHER_OPCODE u32

fun opcode_id_code :: "opcode_id \<Rightarrow> u32" where
  "opcode_id_code OP_ALWAYS_FALSE = 0"
| "opcode_id_code OP_ALWAYS_TRUE = 1"
| "opcode_id_code OP_NUMBER_MATCH = 2"
| "opcode_id_code OP_NUMBER_MATCH_RANGE = 3"
| "opcode_id_code OP_NUMBER_AND_MATCH = 4"
| "opcode_id_code OP_WSTRING_MATCH = 5"
| "opcode_id_code OP_ACTION = 6"
| "opcode_id_code (OTHER_OPCODE w) = w"

definition opcode_ids :: "opcode_id list" where
  "opcode_ids = [OP_ALWAYS_FALSE, OP_ALWAYS_TRUE, OP_NUMBER_MATCH, OP_NUMBER_MATCH_RANGE, OP_NUMBER_AND_MATCH,
     OP_WSTRING_MATCH, OP_ACTION]"

definition opcode_id_of :: "u32 \<Rightarrow> opcode_id" where
  "opcode_id_of w = (if unat w < length opcode_ids then opcode_ids ! unat w else OTHER_OPCODE w)"

abbreviation (input) kPolNone :: u32 where "kPolNone \<equiv> 0"
abbreviation (input) kPolNegateEval :: u32 where "kPolNegateEval \<equiv> 1"
abbreviation (input) kPolClearContext :: u32 where "kPolClearContext \<equiv> 2"
abbreviation (input) kPolUseOREval :: u32 where "kPolUseOREval \<equiv> 4"
abbreviation (input) CASE_SENSITIVE :: u32 where "CASE_SENSITIVE \<equiv> 0"
abbreviation (input) CASE_INSENSITIVE :: u32 where "CASE_INSENSITIVE \<equiv> 1"
abbreviation (input) EXACT_LENGHT :: u32 where "EXACT_LENGHT \<equiv> 2"
abbreviation (input) kSeekForward :: u32 where "kSeekForward \<equiv> - 1"
abbreviation (input) kSeekToEnd :: u32 where "kSeekToEnd \<equiv> 0xfffff"
abbreviation (input) UINT32_TYPE :: u32 where "UINT32_TYPE \<equiv> 2"
abbreviation (input) VOIDPTR_TYPE :: u32 where "VOIDPTR_TYPE \<equiv> 4"

record match_context =
  mc_position :: nat
  mc_options :: u32

definition MatchContext_Clear :: match_context where
  "MatchContext_Clear = \<lparr>mc_position = 0, mc_options = 0\<rparr>"

subsection \<open>Parameters\<close>

text \<open>\<open>ParameterSet\<close>: a parameter's type and what its address holds; a null string is \<open>None\<close>.\<close>

datatype parameter =
    InvalidParam
  | Uint32Param u32
  | VoidPtrParam u64
  | WcharParam "wstring option"
  | UnistrParam wstring

fun Get_uint32 :: "parameter \<Rightarrow> u32 option" where
  "Get_uint32 (Uint32Param n) = Some n"
| "Get_uint32 _ = None"

fun Get_voidptr :: "parameter \<Rightarrow> u64 option" where
  "Get_voidptr (VoidPtrParam p) = Some p"
| "Get_voidptr _ = None"

fun Get_wchar :: "parameter \<Rightarrow> wstring option option" where
  "Get_wchar (WcharParam s) = Some s"
| "Get_wchar _ = None"

definition parameter_IsValid :: "parameter \<Rightarrow> bool" where
  "parameter_IsValid p \<longleftrightarrow> p \<noteq> InvalidParam"

subsection \<open>Opcodes in memory\<close>

record policy_opcode =
  op_id :: opcode_id
  op_parameter :: u16
  op_options :: u16
  op_arguments :: "u64 list"

definition kArgumentCount :: nat where "kArgumentCount = 4"
definition sizeof_PolicyOpcode :: nat where "sizeof_PolicyOpcode = 40"

definition encode_opcode :: "policy_opcode \<Rightarrow> bytes" where
  "encode_opcode op =
     le_bytes 4 (opcode_id_code (op_id op)) @ le_bytes 2 (op_parameter op) @ le_bytes 2 (op_options op)
     @ concat (map (le_bytes 8) (op_arguments op))"

definition load_opcode :: "mem \<Rightarrow> nat \<Rightarrow> policy_opcode" where
  "load_opcode m a =
     \<lparr>op_id = opcode_id_of (le_value (load_bytes m a 4)),
      op_parameter = le_value (load_bytes m (a + 4) 2),
      op_options = le_value (load_bytes m (a + 6) 2),
      op_arguments = map (\<lambda>i. le_value (load_bytes m (a + 8 + 8 * i) 8)) [0..<kArgumentCount]\<rparr>"

definition store_opcode :: "nat \<Rightarrow> policy_opcode \<Rightarrow> mem \<Rightarrow> mem" where
  "store_opcode a op m = store_bytes a (encode_opcode op) m"

definition GetArgument :: "nat \<Rightarrow> policy_opcode \<Rightarrow> 'a::len word" where
  "GetArgument i op = ucast (op_arguments op ! i)"

text \<open>Storing a value of \<open>n\<close> bytes leaves the upper bytes of the argument.\<close>

definition set_argument :: "nat \<Rightarrow> nat \<Rightarrow> u64 \<Rightarrow> policy_opcode \<Rightarrow> policy_opcode" where
  "set_argument n i v op =
     op\<lparr>op_arguments := (op_arguments op)[i := push_bit (8 * n) (drop_bit (8 * n) (op_arguments op ! i)) OR v]\<rparr>"

definition SetArgument :: "nat \<Rightarrow> nat \<Rightarrow> nat \<Rightarrow> u64 \<Rightarrow> mem \<Rightarrow> mem" where
  "SetArgument a n i v m = store_opcode a (set_argument n i v (load_opcode m a)) m"

definition IsAction :: "policy_opcode \<Rightarrow> bool" where
  "IsAction op \<longleftrightarrow> op_id op = OP_ACTION"

text \<open>\<open>checked_cast\<close> to 16 bits.\<close>

definition SetOptions :: "u32 \<Rightarrow> policy_opcode \<Rightarrow> abort + policy_opcode" where
  "SetOptions options op =
     res_bind (check (unat options < 65536) ''checked_cast'') (\<lambda>_. Inr (op\<lparr>op_options := ucast options\<rparr>))"

text \<open>Where the string of argument \<open>i\<close> begins, and its first \<open>n\<close> characters.\<close>

definition GetRelativeString :: "nat \<Rightarrow> nat \<Rightarrow> policy_opcode \<Rightarrow> nat" where
  "GetRelativeString i a op = nat (int a + sint (GetArgument i op :: u64))"

definition load_wstring :: "mem \<Rightarrow> nat \<Rightarrow> nat \<Rightarrow> wstring" where
  "load_wstring m a n = u16_list (load_bytes m a (2 * n))"

text \<open>An opcode together with the string it compares.\<close>

definition match_string :: "mem \<Rightarrow> nat \<Rightarrow> wstring" where
  "match_string m a =
     (let op = load_opcode m a in
      load_wstring m (GetRelativeString 0 a op) (nat (sint (GetArgument 1 op :: u32))))"

definition loaded_opcode :: "mem \<Rightarrow> nat \<Rightarrow> policy_opcode \<times> wstring" where
  "loaded_opcode m a = (load_opcode m a, match_string m a)"

subsection \<open>Evaluation\<close>

type_synonym wcompare = "bool \<Rightarrow> wstring \<Rightarrow> wstring \<Rightarrow> bool"
type_synonym evaluation = "abort + (eval_result \<times> match_context option)"

definition kMaxUniStrSize :: nat where "kMaxUniStrSize = 0xfffc div 2"

text \<open>\<open>InitStringUnicode\<close> refuses a length that does not fit; a negative one is too large.\<close>

definition InitStringUnicode :: "int \<Rightarrow> bool" where
  "InitStringUnicode len \<longleftrightarrow> 0 \<le> len \<and> len \<le> int kMaxUniStrSize"

definition eval_number_match :: "policy_opcode \<Rightarrow> parameter \<Rightarrow> eval_result" where
  "eval_number_match op param =
     (case Get_uint32 param of
        Some value_uint32 \<Rightarrow> if GetArgument 0 op \<noteq> value_uint32 then EVAL_FALSE else EVAL_TRUE
      | None \<Rightarrow>
          (case Get_voidptr param of
             Some value_ptr \<Rightarrow> if GetArgument 0 op \<noteq> value_ptr then EVAL_FALSE else EVAL_TRUE
           | None \<Rightarrow> EVAL_ERROR))"

definition eval_number_match_range :: "policy_opcode \<Rightarrow> parameter \<Rightarrow> eval_result" where
  "eval_number_match_range op param =
     (case Get_uint32 param of
        None \<Rightarrow> EVAL_ERROR
      | Some v \<Rightarrow> if GetArgument 0 op \<le> v \<and> GetArgument 1 op \<ge> v then EVAL_TRUE else EVAL_FALSE)"

definition eval_number_and_match :: "policy_opcode \<Rightarrow> parameter \<Rightarrow> eval_result" where
  "eval_number_and_match op param =
     (case Get_uint32 param of
        None \<Rightarrow> EVAL_ERROR
      | Some v \<Rightarrow> if GetArgument 0 op AND v \<noteq> 0 then EVAL_TRUE else EVAL_FALSE)"

text \<open>The loop over the positions of the source: the offset of the first that satisfies \<open>p\<close>.\<close>

fun seek_loop :: "(wstring \<Rightarrow> bool) \<Rightarrow> nat \<Rightarrow> wstring \<Rightarrow> nat \<Rightarrow> nat option" where
  "seek_loop p n [] i = (if p [] then Some i else None)"
| "seek_loop p n (c # cs) i =
     (if p (take n (c # cs)) then Some i
      else if n \<le> length cs then seek_loop p n cs (Suc i) else None)"

definition eval_wstring_match ::
    "wcompare \<Rightarrow> policy_opcode \<Rightarrow> wstring \<Rightarrow> parameter \<Rightarrow> match_context option \<Rightarrow> evaluation" where
  "eval_wstring_match cmp op match_str param context =
     (case context of
        None \<Rightarrow> Inr (EVAL_ERROR, context)
      | Some ctx \<Rightarrow>
          (case Get_wchar param of
             None \<Rightarrow> Inr (EVAL_ERROR, context)
           | Some None \<Rightarrow> Inl OutOfBoundsAccess
           | Some (Some str) \<Rightarrow>
               if mc_position ctx > length str then Inl OutOfBoundsAccess
               else
                 (let match_len = sint (GetArgument 1 op :: u32);
                      start_position = sint (GetArgument 2 op :: u32);
                      match_opts = GetArgument 3 op :: u32;
                      source_str = drop (mc_position ctx) str;
                      source_len = int (length source_str);
                      ignore_case = (match_opts AND CASE_INSENSITIVE \<noteq> 0);
                      matched = (\<lambda>n. Inr (EVAL_TRUE, Some (ctx\<lparr>mc_position := mc_position ctx + nat n\<rparr>)))
                  in
                  if source_len = 0 then Inr (EVAL_FALSE, context)
                  else if match_len > source_len then Inr (EVAL_FALSE, context)
                  else if start_position \<ge> 0 then
                    (let to_end = (start_position = sint kSeekToEnd);
                         start = (if to_end then source_len - match_len else start_position) in
                     if \<not> to_end \<and> match_opts AND EXACT_LENGHT \<noteq> 0 \<and> match_len + start \<noteq> source_len
                     then Inr (EVAL_FALSE, context)
                     else if match_len + start > source_len then Inr (EVAL_FALSE, context)
                     else if \<not> InitStringUnicode match_len then Inr (EVAL_ERROR, context)
                     else if cmp ignore_case match_str (take (nat match_len) (drop (nat start) source_str))
                     then matched (start + match_len)
                     else Inr (EVAL_FALSE, context))
                  else
                    (if \<not> InitStringUnicode match_len then Inr (EVAL_ERROR, context)
                     else
                       (case seek_loop (cmp ignore_case match_str) (nat match_len) source_str 0 of
                          Some i \<Rightarrow> matched (int i + match_len)
                        | None \<Rightarrow> Inr (EVAL_FALSE, context))))))"

text \<open>The dispatch: an opcode that needs a parameter dereferences the pointer to it.\<close>

definition with_param :: "parameter option \<Rightarrow> (parameter \<Rightarrow> evaluation) \<Rightarrow> evaluation" where
  "with_param param f = (case param of None \<Rightarrow> Inl OutOfBoundsAccess | Some p \<Rightarrow> f p)"

definition EvaluateHelper ::
    "wcompare \<Rightarrow> policy_opcode \<times> wstring \<Rightarrow> parameter option \<Rightarrow> match_context option \<Rightarrow> evaluation" where
  "EvaluateHelper cmp opcode param context =
     (let (op, match_str) = opcode in
      case op_id op of
        OP_ALWAYS_FALSE \<Rightarrow> Inr (EVAL_FALSE, context)
      | OP_ALWAYS_TRUE \<Rightarrow> Inr (EVAL_TRUE, context)
      | OP_NUMBER_MATCH \<Rightarrow> with_param param (\<lambda>p. Inr (eval_number_match op p, context))
      | OP_NUMBER_MATCH_RANGE \<Rightarrow> with_param param (\<lambda>p. Inr (eval_number_match_range op p, context))
      | OP_NUMBER_AND_MATCH \<Rightarrow> with_param param (\<lambda>p. Inr (eval_number_and_match op p, context))
      | OP_WSTRING_MATCH \<Rightarrow>
          if context = None then Inr (EVAL_ERROR, None)
          else with_param param (\<lambda>p. eval_wstring_match cmp op match_str p context)
      | OP_ACTION \<Rightarrow> Inr (eval_result_of (GetArgument 0 op), context)
      | OTHER_OPCODE w \<Rightarrow> Inr (EVAL_ERROR, context))"

definition apply_options :: "u32 \<Rightarrow> eval_result \<Rightarrow> match_context option \<Rightarrow> eval_result \<times> match_context option" where
  "apply_options options result match =
     (if options = kPolNone then (result, match)
      else
        (if options AND kPolNegateEval \<noteq> 0
         then (if result = EVAL_TRUE then EVAL_FALSE
               else if result = EVAL_FALSE then EVAL_TRUE
               else EVAL_ERROR)
         else result,
         map_option (\<lambda>ctx.
           (let ctx = (if options AND kPolClearContext \<noteq> 0 then MatchContext_Clear else ctx) in
            if options AND kPolUseOREval \<noteq> 0 then ctx\<lparr>mc_options := kPolUseOREval\<rparr> else ctx)) match))"

definition opcode_Evaluate ::
    "wcompare \<Rightarrow> policy_opcode \<times> wstring \<Rightarrow> parameter list option \<Rightarrow> match_context option \<Rightarrow> evaluation" where
  "opcode_Evaluate cmp opcode call_params match =
     (case call_params of
        None \<Rightarrow> Inr (EVAL_ERROR, match)
      | Some params \<Rightarrow>
          (let parameter = sint (op_parameter (fst opcode)) in
           if parameter \<ge> 0 \<and> nat parameter \<ge> length params then Inr (EVAL_ERROR, match)
           else
             res_bind (EvaluateHelper cmp opcode (if parameter \<ge> 0 then Some (params ! nat parameter) else None) match)
               (\<lambda>(result, match). Inr (apply_options (ucast (op_options (fst opcode))) result match))))"

subsection \<open>The factory\<close>

text \<open>
  The factory allocates opcodes from the top of its memory and strings from the bottom. Every
  operation also yields the memory, and the address of the new opcode or \<open>None\<close> for a null pointer.
\<close>

record opcode_factory =
  memory_top :: nat
  memory_bottom :: nat

type_synonym 'a made = "abort + ('a \<times> opcode_factory \<times> mem)"

definition memory_size :: "opcode_factory \<Rightarrow> nat" where
  "memory_size f = memory_bottom f - memory_top f"

definition MakeBase :: "opcode_id \<Rightarrow> u32 \<Rightarrow> u16 \<Rightarrow> opcode_factory \<Rightarrow> mem \<Rightarrow> nat option made" where
  "MakeBase opcode_id options selected_param f m =
     (if memory_size f < sizeof_PolicyOpcode then Inr (None, f, m)
      else
        (let a = memory_top f;
             opcode = \<lparr>op_id = opcode_id, op_parameter = 0, op_options = 0, op_arguments = replicate kArgumentCount 0\<rparr>
         in
         res_bind (SetOptions options opcode) (\<lambda>opcode.
         Inr (Some a, f\<lparr>memory_top := a + sizeof_PolicyOpcode\<rparr>,
              store_opcode a (opcode\<lparr>op_parameter := selected_param\<rparr>) m))))"

text \<open>An odd address makes \<open>DebugBreak\<close> stop the process.\<close>

definition AllocRelative :: "nat \<Rightarrow> wstring \<Rightarrow> opcode_factory \<Rightarrow> mem \<Rightarrow> int made" where
  "AllocRelative start str f m =
     (let bytes = length str * 2 in
      if memory_size f < bytes then Inr (0, f, m)
      else
        (let bottom = memory_bottom f - bytes in
         res_bind (check (even bottom) ''DebugBreak'') (\<lambda>_.
         Inr (int bottom - int start, f\<lparr>memory_bottom := bottom\<rparr>, store_bytes bottom (wide_bytes str) m))))"

definition then_set :: "nat option made \<Rightarrow> (nat \<Rightarrow> mem \<Rightarrow> mem) \<Rightarrow> nat option made" where
  "then_set r g =
     res_bind r (\<lambda>(opcode, f, m).
     case opcode of None \<Rightarrow> Inr (None, f, m) | Some a \<Rightarrow> Inr (Some a, f, g a m))"

definition MakeOpAlwaysFalse :: "u32 \<Rightarrow> opcode_factory \<Rightarrow> mem \<Rightarrow> nat option made" where
  "MakeOpAlwaysFalse options f m = MakeBase OP_ALWAYS_FALSE options (- 1) f m"

definition MakeOpAlwaysTrue :: "u32 \<Rightarrow> opcode_factory \<Rightarrow> mem \<Rightarrow> nat option made" where
  "MakeOpAlwaysTrue options f m = MakeBase OP_ALWAYS_TRUE options (- 1) f m"

definition MakeOpAction :: "eval_result \<Rightarrow> u32 \<Rightarrow> opcode_factory \<Rightarrow> mem \<Rightarrow> nat option made" where
  "MakeOpAction action options f m =
     then_set (MakeBase OP_ACTION options 0 f m) (\<lambda>a. SetArgument a 4 0 (ucast (eval_result_code action)))"

definition MakeOpNumberMatch :: "u16 \<Rightarrow> u32 \<Rightarrow> u32 \<Rightarrow> opcode_factory \<Rightarrow> mem \<Rightarrow> nat option made" where
  "MakeOpNumberMatch selected_param match options f m =
     then_set (MakeBase OP_NUMBER_MATCH options selected_param f m)
       (\<lambda>a m. SetArgument a 4 1 (ucast UINT32_TYPE) (SetArgument a 4 0 (ucast match) m))"

definition MakeOpVoidPtrMatch :: "u16 \<Rightarrow> u64 \<Rightarrow> u32 \<Rightarrow> opcode_factory \<Rightarrow> mem \<Rightarrow> nat option made" where
  "MakeOpVoidPtrMatch selected_param match options f m =
     then_set (MakeBase OP_NUMBER_MATCH options selected_param f m)
       (\<lambda>a m. SetArgument a 4 1 (ucast VOIDPTR_TYPE) (SetArgument a 8 0 match m))"

definition MakeOpNumberMatchRange :: "u16 \<Rightarrow> u32 \<Rightarrow> u32 \<Rightarrow> u32 \<Rightarrow> opcode_factory \<Rightarrow> mem \<Rightarrow> nat option made" where
  "MakeOpNumberMatchRange selected_param lower_bound upper_bound options f m =
     (if lower_bound > upper_bound then Inr (None, f, m)
      else
        then_set (MakeBase OP_NUMBER_MATCH_RANGE options selected_param f m)
          (\<lambda>a m. SetArgument a 4 1 (ucast upper_bound) (SetArgument a 4 0 (ucast lower_bound) m)))"

definition MakeOpNumberAndMatch :: "u16 \<Rightarrow> u32 \<Rightarrow> u32 \<Rightarrow> opcode_factory \<Rightarrow> mem \<Rightarrow> nat option made" where
  "MakeOpNumberAndMatch selected_param match options f m =
     then_set (MakeBase OP_NUMBER_AND_MATCH options selected_param f m) (\<lambda>a. SetArgument a 4 0 (ucast match))"

text \<open>The string is copied with the zero that ends it.\<close>

definition MakeOpWStringMatch ::
    "u16 \<Rightarrow> wstring option \<Rightarrow> u32 \<Rightarrow> u32 \<Rightarrow> u32 \<Rightarrow> opcode_factory \<Rightarrow> mem \<Rightarrow> nat option made" where
  "MakeOpWStringMatch selected_param match_ptr start_position match_opts options f m =
     (case match_ptr of
        None \<Rightarrow> Inr (None, f, m)
      | Some match_str \<Rightarrow>
          if match_str = [] then Inr (None, f, m)
          else
            res_bind (MakeBase OP_WSTRING_MATCH options selected_param f m) (\<lambda>(opcode, f, m).
            case opcode of
              None \<Rightarrow> Inr (None, f, m)
            | Some a \<Rightarrow>
                res_bind (AllocRelative a (match_str @ [0]) f m) (\<lambda>(delta_str, f, m).
                if delta_str = 0 then Inr (None, f, m)
                else
                  Inr (Some a, f,
                    SetArgument a 4 3 (ucast match_opts)
                      (SetArgument a 4 2 (ucast start_position)
                        (SetArgument a 4 1 (of_nat (length match_str))
                          (SetArgument a 8 0 (of_int delta_str) m)))))))"

subsection \<open>Opcodes are read back as they were written\<close>

definition valid_opcode :: "policy_opcode \<Rightarrow> bool" where
  "valid_opcode op \<longleftrightarrow> op_id op \<in> set opcode_ids \<and> length (op_arguments op) = kArgumentCount"

lemma length_encode_opcode: "valid_opcode op \<Longrightarrow> length (encode_opcode op) = sizeof_PolicyOpcode"
proof -
  have "length (concat (map (le_bytes 8) (ws :: u64 list))) = 8 * length ws" for ws by (induction ws) simp_all
  then show "valid_opcode op \<Longrightarrow> length (encode_opcode op) = sizeof_PolicyOpcode"
    by (simp add: encode_opcode_def valid_opcode_def kArgumentCount_def sizeof_PolicyOpcode_def)
qed

lemma opcode_id_of_code: "i \<in> set opcode_ids \<Longrightarrow> opcode_id_of (opcode_id_code i) = i"
  by (auto simp: opcode_ids_def opcode_id_of_def)

lemma eval_result_of_code: "r \<in> set eval_results \<Longrightarrow> eval_result_of (eval_result_code r) = r"
  by (auto simp: eval_results_def eval_result_of_def)

lemma load_bytes_part:
  assumes "load_bytes m a (length (xs @ ys @ zs)) = xs @ ys @ zs"
  shows "load_bytes m (a + length xs) (length ys) = ys"
proof -
  have "load_bytes m a (length xs + (length ys + length zs)) = xs @ ys @ zs" using assms by (simp add: add.assoc)
  then have "load_bytes m (a + length xs) (length ys) @ load_bytes m (a + length xs + length ys) (length zs) = ys @ zs"
    unfolding load_bytes_append by (simp add: append_eq_append_conv)
  then show ?thesis by (simp add: append_eq_append_conv)
qed

lemma load_encoded:
  assumes "load_bytes m a sizeof_PolicyOpcode = encode_opcode op" and "valid_opcode op"
  shows "load_opcode m a = op"
proof -
  obtain w0 w1 w2 w3 where args: "op_arguments op = [w0, w1, w2, w3]"
    using assms(2) by (auto simp: valid_opcode_def kArgumentCount_def numeral_eq_Suc length_Suc_conv)
  let ?i = "le_bytes 4 (opcode_id_code (op_id op))" and ?p = "le_bytes 2 (op_parameter op)"
    and ?o = "le_bytes 2 (op_options op)"
  have enc: "encode_opcode op = ?i @ ?p @ ?o @ le_bytes 8 w0 @ le_bytes 8 w1 @ le_bytes 8 w2 @ le_bytes 8 w3"
    by (simp add: encode_opcode_def args)
  have part: "load_bytes m (a + length xs) (length ys) = ys" if "encode_opcode op = xs @ ys @ zs" for xs ys zs
    using assms length_encode_opcode [OF assms(2)] that by (intro load_bytes_part [of _ _ _ _ zs]) simp
  have i: "load_bytes m a 4 = ?i" using part [of "[]" ?i] enc by simp
  have p: "load_bytes m (a + 4) 2 = ?p" using part [of ?i ?p] enc by simp
  have o: "load_bytes m (a + 6) 2 = ?o" using part [of "?i @ ?p" ?o] enc by simp
  have w: "load_bytes m (a + 8) 8 = le_bytes 8 w0" "load_bytes m (a + 16) 8 = le_bytes 8 w1"
    "load_bytes m (a + 24) 8 = le_bytes 8 w2" "load_bytes m (a + 32) 8 = le_bytes 8 w3"
    using part [of "?i @ ?p @ ?o" "le_bytes 8 w0"] part [of "?i @ ?p @ ?o @ le_bytes 8 w0" "le_bytes 8 w1"]
      part [of "?i @ ?p @ ?o @ le_bytes 8 w0 @ le_bytes 8 w1" "le_bytes 8 w2"]
      part [of "?i @ ?p @ ?o @ le_bytes 8 w0 @ le_bytes 8 w1 @ le_bytes 8 w2" "le_bytes 8 w3"]
    unfolding enc by simp_all
  have "[0..<kArgumentCount] = [0, 1, 2, 3]" by (simp add: kArgumentCount_def upt_rec)
  then show ?thesis
    using args assms(2) w by (simp add: load_opcode_def i p o opcode_id_of_code valid_opcode_def add.commute)
qed

lemma load_store_opcode [simp]: "valid_opcode op \<Longrightarrow> load_opcode (store_opcode a op m) a = op"
  by (rule load_encoded) (simp_all add: store_opcode_def length_encode_opcode)

lemma load_opcode_same:
  assumes "same_bytes a sizeof_PolicyOpcode m m'"
  shows "load_opcode m' a = load_opcode m a"
proof -
  have part: "load_bytes m' b n = load_bytes m b n" if "a \<le> b" "b + n \<le> a + sizeof_PolicyOpcode" for b n
    using that by (intro load_same same_bytes_sub [OF assms])
  have "load_bytes m' (a + 8 + 8 * i) 8 = load_bytes m (a + 8 + 8 * i) 8" if "i < kArgumentCount" for i
    using that by (intro part) (simp_all add: sizeof_PolicyOpcode_def kArgumentCount_def)
  moreover have "load_bytes m' a 4 = load_bytes m a 4" "load_bytes m' (a + 4) 2 = load_bytes m (a + 4) 2"
    "load_bytes m' (a + 6) 2 = load_bytes m (a + 6) 2"
    by (intro part; simp add: sizeof_PolicyOpcode_def)+
  ultimately show ?thesis by (simp add: load_opcode_def)
qed

lemma same_bytes_store_opcode:
  assumes "valid_opcode op" and "b + sizeof_PolicyOpcode \<le> a \<or> a + n \<le> b"
  shows "same_bytes a n m (store_opcode b op m)"
  unfolding store_opcode_def by (rule same_bytes_store) (use assms in \<open>simp add: length_encode_opcode\<close>)

text \<open>
  What an opcode means: itself without the displacement of its string, and the string. Evaluation
  depends on nothing else.
\<close>

definition opcode_view :: "mem \<Rightarrow> nat \<Rightarrow> policy_opcode \<times> wstring" where
  "opcode_view m a =
     (let op = load_opcode m a in
      if op_id op = OP_WSTRING_MATCH then (op\<lparr>op_arguments := (op_arguments op)[0 := 0]\<rparr>, match_string m a)
      else (op, []))"

lemma opcode_view_simps [simp]:
  "op_options (fst (opcode_view m a)) = op_options (load_opcode m a)"
  "op_parameter (fst (opcode_view m a)) = op_parameter (load_opcode m a)"
  "op_id (fst (opcode_view m a)) = op_id (load_opcode m a)"
  by (simp_all add: opcode_view_def Let_def)

lemma eval_wstring_match_view:
  "eval_wstring_match cmp (op\<lparr>op_arguments := (op_arguments op)[0 := w]\<rparr>) s p ctx = eval_wstring_match cmp op s p ctx"
proof -
  let ?op = "op\<lparr>op_arguments := (op_arguments op)[0 := w]\<rparr>"
  have "GetArgument 1 ?op = (GetArgument 1 op :: u32)" "GetArgument 2 ?op = (GetArgument 2 op :: u32)"
    "GetArgument 3 ?op = (GetArgument 3 op :: u32)"
    by (simp_all add: GetArgument_def)
  then show ?thesis unfolding eval_wstring_match_def by (simp only:)
qed

lemma opcode_Evaluate_view: "opcode_Evaluate cmp (opcode_view m a) ps ctx = opcode_Evaluate cmp (loaded_opcode m a) ps ctx"
proof -
  have h: "EvaluateHelper cmp (opcode_view m a) p ctx = EvaluateHelper cmp (loaded_opcode m a) p ctx" for p
    by (cases "op_id (load_opcode m a)")
      (simp_all add: EvaluateHelper_def opcode_view_def loaded_opcode_def Let_def eval_wstring_match_view)
  have l: "fst (loaded_opcode m a) = load_opcode m a" by (simp add: loaded_opcode_def)
  show ?thesis unfolding opcode_Evaluate_def h l opcode_view_simps by (rule refl)
qed

text \<open>An opcode stands at \<open>a\<close>, and the string it needs between \<open>lo\<close> and \<open>hi\<close>.\<close>

definition opcode_stored :: "mem \<Rightarrow> nat \<Rightarrow> nat \<Rightarrow> nat \<Rightarrow> policy_opcode \<times> wstring \<Rightarrow> bool" where
  "opcode_stored m a lo hi v \<longleftrightarrow>
     opcode_view m a = v \<and> valid_opcode (load_opcode m a)
   \<and> (op_id (load_opcode m a) = OP_WSTRING_MATCH \<longrightarrow>
        lo \<le> GetRelativeString 0 a (load_opcode m a)
      \<and> GetRelativeString 0 a (load_opcode m a) + 2 * length (snd v) \<le> hi
      \<and> nat (sint (GetArgument 1 (load_opcode m a) :: u32)) = length (snd v))"

lemma opcode_stored_same:
  assumes "opcode_stored m a lo hi v" and "same_bytes a sizeof_PolicyOpcode m m'" and "same_bytes lo (hi - lo) m m'"
  shows "opcode_stored m' a lo hi v"
proof -
  have op: "load_opcode m' a = load_opcode m a" by (rule load_opcode_same [OF assms(2)])
  have "match_string m' a = match_string m a" if w: "op_id (load_opcode m a) = OP_WSTRING_MATCH"
  proof -
    have "load_bytes m' (GetRelativeString 0 a (load_opcode m a)) (2 * length (snd v))
        = load_bytes m (GetRelativeString 0 a (load_opcode m a)) (2 * length (snd v))"
      using assms(1) w by (intro load_same same_bytes_sub [OF assms(3)]) (auto simp: opcode_stored_def)
    then show ?thesis using assms(1) w by (simp add: match_string_def op load_wstring_def opcode_stored_def Let_def)
  qed
  then have "opcode_view m' a = opcode_view m a" by (simp add: opcode_view_def op Let_def)
  then show ?thesis using assms(1) by (simp add: opcode_stored_def op)
qed

lemma opcode_stored_mono: "opcode_stored m a lo hi v \<Longrightarrow> lo' \<le> lo \<Longrightarrow> hi \<le> hi' \<Longrightarrow> opcode_stored m a lo' hi' v"
  by (auto simp: opcode_stored_def)

subsection \<open>What the factory makes\<close>

text \<open>
  The factory wrote an opcode at its old top and whatever string it needed at its new bottom, and
  nothing outside of the memory it had.
\<close>

definition makes :: "opcode_factory \<Rightarrow> mem \<Rightarrow> nat \<Rightarrow> opcode_factory \<Rightarrow> mem \<Rightarrow> policy_opcode \<times> wstring \<Rightarrow> bool" where
  "makes f m a f' m' v \<longleftrightarrow>
     a = memory_top f \<and> memory_top f' = a + sizeof_PolicyOpcode \<and> memory_top f' \<le> memory_bottom f'
   \<and> memory_bottom f' \<le> memory_bottom f
   \<and> (\<forall>x. x < memory_top f \<or> memory_bottom f \<le> x \<longrightarrow> m' x = m x)
   \<and> opcode_stored m' a (memory_bottom f') (memory_bottom f) v"

definition opcode_of :: "opcode_id \<Rightarrow> u16 \<Rightarrow> u32 \<Rightarrow> u64 list \<Rightarrow> policy_opcode" where
  "opcode_of i p options args = \<lparr>op_id = i, op_parameter = p, op_options = ucast options, op_arguments = args\<rparr>"

lemma opcode_of_simps [simp]:
  "op_id (opcode_of i p options args) = i" "op_parameter (opcode_of i p options args) = p"
  "op_options (opcode_of i p options args) = ucast options" "op_arguments (opcode_of i p options args) = args"
  "opcode_of i p options args\<lparr>op_arguments := args'\<rparr> = opcode_of i p options args'"
  by (simp_all add: opcode_of_def)

lemma valid_opcode_of [simp]: "valid_opcode (opcode_of i p options [a, b, c, d]) \<longleftrightarrow> i \<in> set opcode_ids"
  by (simp add: valid_opcode_def kArgumentCount_def)

lemma MakeBase_eq:
  assumes "unat options < 65536"
  shows "MakeBase i options p f m =
    (if memory_size f < sizeof_PolicyOpcode then Inr (None, f, m)
     else Inr (Some (memory_top f), f\<lparr>memory_top := memory_top f + sizeof_PolicyOpcode\<rparr>,
               store_opcode (memory_top f) (opcode_of i p options [0, 0, 0, 0]) m))"
proof -
  have "replicate kArgumentCount 0 = [0, 0, 0, 0 :: u64]" by (simp add: kArgumentCount_def numeral_eq_Suc)
  then show ?thesis using assms by (simp add: MakeBase_def SetOptions_def opcode_of_def Let_def)
qed

lemma store_store_opcode [simp]:
  "valid_opcode op \<Longrightarrow> valid_opcode op' \<Longrightarrow> store_opcode a op' (store_opcode a op m) = store_opcode a op' m"
  by (rule ext) (simp add: store_opcode_def store_bytes_def length_encode_opcode)

lemma drop_bit_0_or [simp]: "push_bit n (drop_bit n 0) OR v = (v :: u64)"
  by simp

lemma SetArgument_store [simp]:
  assumes "valid_opcode (opcode_of i p options args)" and "k < kArgumentCount" and "args ! k = 0"
  shows "SetArgument a n k v (store_opcode a (opcode_of i p options args) m)
    = store_opcode a (opcode_of i p options (args[k := v])) m"
proof -
  have "valid_opcode (opcode_of i p options (args[k := v]))" using assms(1) by (simp add: valid_opcode_def)
  then show ?thesis using assms by (simp add: SetArgument_def set_argument_def)
qed

lemma makes_plain:
  assumes "\<not> memory_size f < sizeof_PolicyOpcode" and "i \<in> set opcode_ids" and "i \<noteq> OP_WSTRING_MATCH"
  shows "makes f m (memory_top f) (f\<lparr>memory_top := memory_top f + sizeof_PolicyOpcode\<rparr>)
    (store_opcode (memory_top f) (opcode_of i p options [a, b, c, d]) m) (opcode_of i p options [a, b, c, d], [])"
proof -
  have v: "valid_opcode (opcode_of i p options [a, b, c, d])" using assms(2) by simp
  have "length (encode_opcode (opcode_of i p options [a, b, c, d])) = sizeof_PolicyOpcode"
    by (rule length_encode_opcode [OF v])
  moreover have "memory_top f + sizeof_PolicyOpcode \<le> memory_bottom f"
    using assms(1) by (simp add: memory_size_def sizeof_PolicyOpcode_def)
  ultimately show ?thesis
    using assms v by (auto simp: makes_def opcode_stored_def opcode_view_def store_opcode_def [symmetric])
      (auto simp: store_opcode_def store_bytes_def)
qed

lemma MakeOpAction_makes:
  assumes "unat options < 65536"
  shows "(memory_size f < sizeof_PolicyOpcode \<and> MakeOpAction action options f m = Inr (None, f, m))
    \<or> (\<exists>f' m'. MakeOpAction action options f m = Inr (Some (memory_top f), f', m')
        \<and> makes f m (memory_top f) f' m' (opcode_of OP_ACTION 0 options [ucast (eval_result_code action), 0, 0, 0], []))"
  using makes_plain [of f OP_ACTION m 0 options "ucast (eval_result_code action)" 0 0 0]
  by (auto simp: MakeOpAction_def then_set_def MakeBase_eq [OF assms] opcode_ids_def kArgumentCount_def)

lemma MakeOpNumberMatch_makes:
  assumes "unat options < 65536"
  shows "(memory_size f < sizeof_PolicyOpcode \<and> MakeOpNumberMatch p n options f m = Inr (None, f, m))
    \<or> (\<exists>f' m'. MakeOpNumberMatch p n options f m = Inr (Some (memory_top f), f', m')
        \<and> makes f m (memory_top f) f' m' (opcode_of OP_NUMBER_MATCH p options [ucast n, ucast UINT32_TYPE, 0, 0], []))"
  using makes_plain [of f OP_NUMBER_MATCH m p options "ucast n" "ucast UINT32_TYPE" 0 0]
  by (auto simp: MakeOpNumberMatch_def then_set_def MakeBase_eq [OF assms] opcode_ids_def kArgumentCount_def)

lemma MakeOpNumberAndMatch_makes:
  assumes "unat options < 65536"
  shows "(memory_size f < sizeof_PolicyOpcode \<and> MakeOpNumberAndMatch p n options f m = Inr (None, f, m))
    \<or> (\<exists>f' m'. MakeOpNumberAndMatch p n options f m = Inr (Some (memory_top f), f', m')
        \<and> makes f m (memory_top f) f' m' (opcode_of OP_NUMBER_AND_MATCH p options [ucast n, 0, 0, 0], []))"
  using makes_plain [of f OP_NUMBER_AND_MATCH m p options "ucast n" 0 0 0]
  by (auto simp: MakeOpNumberAndMatch_def then_set_def MakeBase_eq [OF assms] opcode_ids_def kArgumentCount_def)

lemma sint_ucast_of_nat: "n < 2 ^ 31 \<Longrightarrow> nat (sint (ucast (of_nat n :: u64) :: u32)) = n"
proof -
  assume n: "n < 2 ^ 31"
  have "(ucast (of_nat n :: u64) :: u32) = of_nat n"
    using n by (intro word_unat_eq_iff [THEN iffD2]) (simp add: unsigned_ucast_eq unat_of_nat_small take_bit_nat_eq_self)
  then show ?thesis using n by (simp add: signed_of_nat signed_take_bit_int_eq_self)
qed

lemma sint_of_int_u64: "\<bar>v\<bar> < 2 ^ 63 \<Longrightarrow> sint (of_int v :: u64) = v"
  by (simp add: signed_of_int signed_take_bit_int_eq_self abs_less_iff)

lemma AllocRelative_eq:
  assumes "b + 2 * length str = memory_bottom f" and "memory_top f \<le> b" and "even b"
  shows "AllocRelative start str f m
    = Inr (int b - int start, f\<lparr>memory_bottom := b\<rparr>, store_bytes b (wide_bytes str) m)"
proof -
  have "memory_bottom f - length str * 2 = b" "\<not> memory_size f < length str * 2"
    using assms(1,2) by (simp_all add: memory_size_def)
  then show ?thesis using assms(3) by (simp add: AllocRelative_def Let_def)
qed

lemma MakeOpWStringMatch_makes:
  assumes "unat options < 65536" and "str \<noteq> []" and "memory_bottom f < 2 ^ 31" and "even (memory_bottom f)"
  shows "(\<exists>f' m'. MakeOpWStringMatch p (Some str) start mopts options f m = Inr (None, f', m'))
    \<or> (\<exists>f' m'. MakeOpWStringMatch p (Some str) start mopts options f m = Inr (Some (memory_top f), f', m')
        \<and> even (memory_bottom f')
        \<and> makes f m (memory_top f) f' m'
            (opcode_of OP_WSTRING_MATCH p options [0, of_nat (length str), ucast start, ucast mopts], str))"
proof -
  let ?a = "memory_top f" and ?n = "length str * 2 + 2" and ?op = "opcode_of OP_WSTRING_MATCH p options"
  show ?thesis
  proof (cases "memory_size f < sizeof_PolicyOpcode \<or> memory_bottom f < ?a + sizeof_PolicyOpcode + ?n")
    case True
    then show ?thesis
      using assms(2) by (auto simp: MakeOpWStringMatch_def MakeBase_eq [OF assms(1)] AllocRelative_def memory_size_def)
  next
    case False
    define b where "b = memory_bottom f - ?n"
    let ?b = b
    let ?m1 = "store_bytes ?b (wide_bytes (str @ [0])) m"
    let ?delta = "int ?b - int ?a"
    let ?args = "[of_int ?delta, of_nat (length str), ucast start, ucast mopts]"
    let ?m' = "store_opcode ?a (?op ?args) ?m1"
    have room: "?a + sizeof_PolicyOpcode + ?n \<le> memory_bottom f" using False by linarith
    have b: "?a + sizeof_PolicyOpcode \<le> ?b" "?b + ?n = memory_bottom f" using room unfolding b_def by arith+
    have v: "valid_opcode (?op [0, 0, 0, 0])" "valid_opcode (?op ?args)" by (simp_all add: opcode_ids_def)
    have comm: "store_bytes ?b (wide_bytes (str @ [0])) (store_opcode ?a (?op [0, 0, 0, 0]) m)
        = store_opcode ?a (?op [0, 0, 0, 0]) ?m1"
      using b length_encode_opcode [OF v(1)] by (intro ext) (auto simp: store_opcode_def store_bytes_def)
    have "even ?b" using assms(4) b(2) by presburger
    then have alloc: "AllocRelative ?a (str @ [0]) (f\<lparr>memory_top := ?a + sizeof_PolicyOpcode\<rparr>) M
        = Inr (?delta, f\<lparr>memory_top := ?a + sizeof_PolicyOpcode, memory_bottom := ?b\<rparr>,
            store_bytes ?b (wide_bytes (str @ [0])) M)" for M
      using b by (subst AllocRelative_eq [of ?b]) simp_all
    have set: "SetArgument ?a 4 3 (ucast mopts) (SetArgument ?a 4 2 (ucast start)
        (SetArgument ?a 4 1 (of_nat (length str)) (SetArgument ?a 8 0 d (store_opcode ?a (?op [0, 0, 0, 0]) M))))
      = store_opcode ?a (?op [d, of_nat (length str), ucast start, ucast mopts]) M" for d M
      by (simp add: kArgumentCount_def opcode_ids_def)
    have "?delta \<noteq> 0" using b by (simp add: sizeof_PolicyOpcode_def)
    then have run: "MakeOpWStringMatch p (Some str) start mopts options f m
        = Inr (Some ?a, f\<lparr>memory_top := ?a + sizeof_PolicyOpcode, memory_bottom := ?b\<rparr>, ?m')"
      using False assms(2)
      by (simp only: MakeOpWStringMatch_def MakeBase_eq [OF assms(1)] option.case prod.case if_False if_True
          de_Morgan_disj res_bind_Inr alloc comm set simp_thms)
    have target: "GetRelativeString 0 ?a (?op ?args) = ?b"
    proof -
      have "\<bar>?delta\<bar> < 2 ^ 63" using b assms(3) by simp
      then show ?thesis
        using b(1) by (simp add: GetRelativeString_def GetArgument_def sint_of_int_u64 del: of_int_diff of_nat_diff)
    qed
    have len: "nat (sint (GetArgument 1 (?op ?args) :: u32)) = length str"
      using b assms(3) by (simp add: GetArgument_def sint_ucast_of_nat)
    have "load_bytes ?m' ?b (2 * length str) = wide_bytes str"
    proof -
      have "load_bytes ?m' ?b ?n = wide_bytes (str @ [0])"
        using b length_encode_opcode [OF v(2)] by (simp add: store_opcode_def load_store_disjoint)
      then have "load_bytes ?m' ?b (2 * length str) @ load_bytes ?m' (?b + 2 * length str) 2 = wide_bytes str @ le_bytes 2 (0 :: u16)"
        using load_bytes_append [of ?m' ?b "2 * length str" 2] by (simp add: mult.commute)
      then show ?thesis by (simp add: append_eq_append_conv)
    qed
    then have str: "match_string ?m' ?a = str"
      by (simp only: match_string_def Let_def load_store_opcode [OF v(2)] load_wstring_def target len u16_list_bytes)
    have "opcode_view ?m' ?a = (?op [0, of_nat (length str), ucast start, ucast mopts], str)"
      unfolding opcode_view_def load_store_opcode [OF v(2)] str Let_def by simp
    then have "opcode_stored ?m' ?a ?b (memory_bottom f) (?op [0, of_nat (length str), ucast start, ucast mopts], str)"
      unfolding opcode_stored_def load_store_opcode [OF v(2)] target len using v(2) b by simp
    moreover have "\<forall>x. x < ?a \<or> memory_bottom f \<le> x \<longrightarrow> ?m' x = m x"
      using b length_encode_opcode [OF v(2)] by (auto simp: store_opcode_def store_bytes_def)
    ultimately show ?thesis using run b \<open>even ?b\<close> by (auto simp: makes_def)
  qed
qed

end
