(* ===== verification/Win_Policy_Processor.thy ===== *)
theory Win_Policy_Processor
  imports Win_Policy_Opcodes
begin

text \<open>
  The evaluator of the Windows policy engine, \<^verbatim>\<open>win/src/policy_engine_processor.{h,cc}\<close>: it walks
  over the opcodes of a policy buffer in memory and stops at the first action that it reaches. The
  theory ends with what it computes for a buffer of rules, each a group of conditions and an action.
\<close>

datatype policy_result = NO_POLICY_MATCH | POLICY_MATCH | POLICY_ERROR

abbreviation (input) kStopOnErrors :: u32 where "kStopOnErrors \<equiv> 1"
abbreviation (input) kIgnoreErrors :: u32 where "kIgnoreErrors \<equiv> 2"
abbreviation (input) kShortEval :: u32 where "kShortEval \<equiv> 4"
abbreviation (input) kRankedEval :: u32 where "kRankedEval \<equiv> 8"

subsection \<open>Policy buffers\<close>

text \<open>A \<open>PolicyBuffer\<close> at an address: the number of opcodes, then the opcodes.\<close>

definition opcodes_offset :: nat where "opcodes_offset = 8"

definition sizeof_PolicyBuffer :: nat where "sizeof_PolicyBuffer = opcodes_offset + sizeof_PolicyOpcode"

definition opcode_address :: "nat \<Rightarrow> nat \<Rightarrow> nat" where
  "opcode_address b i = b + opcodes_offset + i * sizeof_PolicyOpcode"

definition load_opcode_count :: "mem \<Rightarrow> nat \<Rightarrow> u64" where
  "load_opcode_count m b = le_value (load_bytes m b 8)"

definition buffer_opcodes :: "mem \<Rightarrow> nat \<Rightarrow> (policy_opcode \<times> wstring) list" where
  "buffer_opcodes m b = map (\<lambda>i. loaded_opcode m (opcode_address b i)) [0..<unat (load_opcode_count m b)]"

subsection \<open>Evaluation\<close>

text \<open>The internal state: the index of the opcode that decided and its result.\<close>

record processor_state =
  current_index :: nat
  current_result :: eval_result

definition SetInternalState :: "nat \<Rightarrow> eval_result \<Rightarrow> processor_state" where
  "SetInternalState index result = \<lparr>current_index = index, current_result = result\<rparr>"

definition GetAction :: "processor_state \<Rightarrow> eval_result" where
  "GetAction st = current_result st"

text \<open>The result of \<open>SkipOpcode\<close>, the context and \<open>keep_skipping\<close>.\<close>

definition SkipOpcode :: "policy_opcode \<Rightarrow> match_context \<Rightarrow> bool \<times> match_context \<times> bool" where
  "SkipOpcode op context =
     (if IsAction op
      then (kPolUseOREval \<noteq> mc_options context, MatchContext_Clear, False)
      else (True, context, True))"

fun evaluate_loop ::
    "wcompare \<Rightarrow> u32 \<Rightarrow> parameter list option \<Rightarrow> nat \<Rightarrow> (policy_opcode \<times> wstring) list \<Rightarrow> match_context
      \<Rightarrow> bool \<Rightarrow> bool \<Rightarrow> abort + (policy_result \<times> processor_state)" where
  "evaluate_loop cmp options params ix [] context evaluation skip_group =
     Inr (if evaluation then POLICY_ERROR else NO_POLICY_MATCH, SetInternalState 0 EVAL_FALSE)"
| "evaluate_loop cmp options params ix (opcode # opcodes) context evaluation skip_group =
     (let (skipped, context, skip_group) =
            (if skip_group then SkipOpcode (fst opcode) context else (False, context, False)) in
      if skipped then evaluate_loop cmp options params (Suc ix) opcodes context evaluation skip_group
      else
        res_bind (opcode_Evaluate cmp opcode params (Some context)) (\<lambda>(result, match).
        let context = the match in
        if result = EVAL_FALSE then
          evaluate_loop cmp options params (Suc ix) opcodes context False
            (if kPolUseOREval \<noteq> mc_options context then True else skip_group)
        else if result = EVAL_ERROR then
          (if kStopOnErrors AND options \<noteq> 0 then Inr (POLICY_ERROR, SetInternalState 0 EVAL_FALSE)
           else evaluate_loop cmp options params (Suc ix) opcodes context evaluation skip_group)
        else if result = EVAL_TRUE then
          evaluate_loop cmp options params (Suc ix) opcodes context True
            (if kPolUseOREval = mc_options context then True else skip_group)
        else Inr (POLICY_MATCH, SetInternalState ix result)))"

text \<open>\<open>PolicyProcessor::Evaluate\<close>, for a processor whose state is \<open>st\<close>.\<close>

definition PolicyProcessor_Evaluate ::
    "wcompare \<Rightarrow> mem \<Rightarrow> nat option \<Rightarrow> u32 \<Rightarrow> parameter list option \<Rightarrow> processor_state
      \<Rightarrow> abort + (policy_result \<times> processor_state)" where
  "PolicyProcessor_Evaluate cmp m policy_ptr options params st =
     (case policy_ptr of
        None \<Rightarrow> Inr (NO_POLICY_MATCH, st)
      | Some b \<Rightarrow>
          if load_opcode_count m b = 0 then Inr (NO_POLICY_MATCH, st)
          else if kShortEval AND options = 0 then Inr (POLICY_ERROR, st)
          else evaluate_loop cmp options params 0 (buffer_opcodes m b) MatchContext_Clear False False)"

declare evaluate_loop.simps(2) [simp del]

subsection \<open>Evaluation depends on the meaning of the opcodes only\<close>

lemma evaluate_loop_cong:
  assumes "list_all2 (\<lambda>x y. op_id (fst x) = op_id (fst y)
      \<and> (\<forall>ctx. opcode_Evaluate cmp x ps ctx = opcode_Evaluate cmp y ps ctx)) xs ys"
  shows "evaluate_loop cmp o' ps ix xs ctx ev skip = evaluate_loop cmp o' ps ix ys ctx ev skip"
  using assms
proof (induction arbitrary: ix ctx ev skip rule: list_all2_induct)
  case (Cons x xs y ys)
  have skip: "SkipOpcode (fst x) = SkipOpcode (fst y)"
    using Cons.hyps by (intro ext) (simp add: SkipOpcode_def IsAction_def)
  have eval: "opcode_Evaluate cmp x ps ctx = opcode_Evaluate cmp y ps ctx" for ctx
    using Cons.hyps by blast
  have ih: "evaluate_loop cmp o' ps ix xs ctx ev skip = evaluate_loop cmp o' ps ix ys ctx ev skip" for ix ctx ev skip
    by (rule Cons.IH)
  show ?case unfolding evaluate_loop.simps skip eval ih by (rule refl)
qed simp

lemma buffer_opcodes_views:
  assumes "unat (load_opcode_count m b) = length vs"
    and "\<And>i. i < length vs \<Longrightarrow> opcode_view m (opcode_address b i) = vs ! i"
  shows "evaluate_loop cmp o' ps ix (buffer_opcodes m b) ctx ev skip = evaluate_loop cmp o' ps ix vs ctx ev skip"
proof (rule evaluate_loop_cong, rule list_all2_all_nthI)
  show "length (buffer_opcodes m b) = length vs" using assms(1) by (simp add: buffer_opcodes_def)
  fix i assume "i < length (buffer_opcodes m b)"
  then have i: "i < length vs" using assms(1) by (simp add: buffer_opcodes_def)
  then have x: "buffer_opcodes m b ! i = loaded_opcode m (opcode_address b i)"
    using assms(1) by (simp add: buffer_opcodes_def)
  show "op_id (fst (buffer_opcodes m b ! i)) = op_id (fst (vs ! i))
      \<and> (\<forall>ctx. opcode_Evaluate cmp (buffer_opcodes m b ! i) ps ctx = opcode_Evaluate cmp (vs ! i) ps ctx)"
    unfolding x assms(2) [OF i, symmetric] opcode_Evaluate_view opcode_view_simps by (simp add: loaded_opcode_def)
qed

subsection \<open>Rules are groups of opcodes\<close>

text \<open>
  A block is a sequence of comparisons that decides one condition: it starts in a cleared context;
  if the condition holds, evaluation goes on behind it in a cleared context, or skips to the
  action as the last block of its group may; if not, the rest of the group is skipped.
\<close>

definition skips_past :: "match_context \<Rightarrow> bool" where
  "skips_past ctx \<longleftrightarrow> mc_options ctx \<noteq> kPolUseOREval"

definition block :: "wcompare \<Rightarrow> parameter list option \<Rightarrow> (policy_opcode \<times> wstring) list \<Rightarrow> bool \<Rightarrow> bool" where
  "block cmp ps ops holds \<longleftrightarrow>
     (\<forall>op \<in> set ops. \<not> IsAction (fst op))
   \<and> (\<forall>o' ix rest ev. kStopOnErrors AND o' = 0 \<longrightarrow>
        (if holds then
           evaluate_loop cmp o' ps ix (ops @ rest) MatchContext_Clear ev False
             = evaluate_loop cmp o' ps (ix + length ops) rest MatchContext_Clear (ops \<noteq> [] \<or> ev) False
         else
           (\<exists>ctx. skips_past ctx
            \<and> evaluate_loop cmp o' ps ix (ops @ rest) MatchContext_Clear ev False
                = evaluate_loop cmp o' ps (ix + length ops) rest ctx False True)))"

text \<open>The last block of a group may also jump to the action when its condition holds.\<close>

definition last_block :: "wcompare \<Rightarrow> parameter list option \<Rightarrow> (policy_opcode \<times> wstring) list \<Rightarrow> bool \<Rightarrow> bool" where
  "last_block cmp ps ops holds \<longleftrightarrow>
     (\<forall>op \<in> set ops. \<not> IsAction (fst op))
   \<and> (\<forall>o' ix rest ev. kStopOnErrors AND o' = 0 \<longrightarrow>
        (if holds then
           evaluate_loop cmp o' ps ix (ops @ rest) MatchContext_Clear ev False
             = evaluate_loop cmp o' ps (ix + length ops) rest MatchContext_Clear (ops \<noteq> [] \<or> ev) False
         \<or> (\<exists>ctx. mc_options ctx = kPolUseOREval
            \<and> evaluate_loop cmp o' ps ix (ops @ rest) MatchContext_Clear ev False
                = evaluate_loop cmp o' ps (ix + length ops) rest ctx True True)
         else
           (\<exists>ctx. skips_past ctx
            \<and> evaluate_loop cmp o' ps ix (ops @ rest) MatchContext_Clear ev False
                = evaluate_loop cmp o' ps (ix + length ops) rest ctx False True)))"

lemma block_last_block: "block cmp ps ops h \<Longrightarrow> last_block cmp ps ops h"
  by (auto simp: block_def last_block_def)

text \<open>The action opcode of a rule.\<close>

definition action_opcode :: "eval_result \<Rightarrow> policy_opcode \<times> wstring" where
  "action_opcode action = (opcode_of OP_ACTION 0 kPolNone [ucast (eval_result_code action), 0, 0, 0], [])"

lemma action_opcode_evaluate:
  assumes "is_action action" and "ps = Some (p # ps')"
  shows "opcode_Evaluate cmp (action_opcode action) ps ctx = Inr (action, ctx)"
proof -
  have "action \<in> set eval_results" using assms(1) set_drop_subset unfolding is_action_def by fastforce
  then have "eval_result_of (GetArgument 0 (opcode_of OP_ACTION 0 kPolNone [ucast (eval_result_code action), 0, 0, 0])) = action"
    by (simp add: GetArgument_def eval_result_of_code)
  then show ?thesis
    by (simp add: opcode_Evaluate_def action_opcode_def EvaluateHelper_def apply_options_def assms(2))
qed

lemma IsAction_action [simp]: "IsAction (fst (action_opcode action))"
  by (simp add: IsAction_def action_opcode_def)

text \<open>Skipping the comparisons that are left of a group.\<close>

lemma skip_conditions:
  assumes "\<forall>op \<in> set ops. \<not> IsAction (fst op)"
  shows "evaluate_loop cmp o' ps ix (ops @ rest) ctx ev True = evaluate_loop cmp o' ps (ix + length ops) rest ctx ev True"
  using assms by (induction ops arbitrary: ix) (simp_all add: SkipOpcode_def evaluate_loop.simps(2))

lemma skip_action:
  "skips_past ctx \<Longrightarrow> evaluate_loop cmp o' ps ix (action_opcode action # rest) ctx ev True
    = evaluate_loop cmp o' ps (Suc ix) rest MatchContext_Clear ev False"
  by (simp add: SkipOpcode_def skips_past_def evaluate_loop.simps(2))

lemma reach_action:
  assumes "is_action action" and "ps = Some (p # ps')" and "skip \<longrightarrow> mc_options ctx = kPolUseOREval"
  shows "evaluate_loop cmp o' ps ix (action_opcode action # rest) ctx ev skip
    = Inr (POLICY_MATCH, SetInternalState ix action)"
proof -
  have "action \<noteq> EVAL_FALSE" "action \<noteq> EVAL_ERROR" "action \<noteq> EVAL_TRUE"
    using assms(1) by (auto simp: is_action_def eval_results_def)
  then show ?thesis
    using assms(3) by (cases skip) (simp_all add: action_opcode_evaluate [OF assms(1,2)] SkipOpcode_def evaluate_loop.simps(2))
qed

text \<open>
  A rule as the processor sees it: its blocks, each with whether its condition holds, and its action.
\<close>

type_synonym rule_group = "((policy_opcode \<times> wstring) list \<times> bool) list \<times> eval_result"

definition group_opcodes :: "rule_group \<Rightarrow> (policy_opcode \<times> wstring) list" where
  "group_opcodes g = concat (map fst (fst g)) @ [action_opcode (snd g)]"

definition group_holds :: "rule_group \<Rightarrow> bool" where
  "group_holds g \<longleftrightarrow> list_all snd (fst g)"

definition group_ok :: "wcompare \<Rightarrow> parameter list option \<Rightarrow> rule_group \<Rightarrow> bool" where
  "group_ok cmp ps g \<longleftrightarrow>
     is_action (snd g)
   \<and> list_all (\<lambda>(ops, h). block cmp ps ops h) (butlast (fst g))
   \<and> (fst g \<noteq> [] \<longrightarrow> last_block cmp ps (fst (last (fst g))) (snd (last (fst g))))"

lemma list_all_snoc: "list_all P (xs @ [x]) \<longleftrightarrow> list_all P xs \<and> P x"
  by simp

lemma block_holds:
  assumes "block cmp ps ops True" and "kStopOnErrors AND o' = 0"
  shows "evaluate_loop cmp o' ps ix (ops @ rest) MatchContext_Clear ev False
    = evaluate_loop cmp o' ps (ix + length ops) rest MatchContext_Clear (ops \<noteq> [] \<or> ev) False"
  using assms by (simp add: block_def)

lemma last_block_fails:
  assumes "last_block cmp ps ops False" and "kStopOnErrors AND o' = 0"
  shows "\<exists>ctx. skips_past ctx \<and> evaluate_loop cmp o' ps ix (ops @ rest) MatchContext_Clear ev False
    = evaluate_loop cmp o' ps (ix + length ops) rest ctx False True"
  using assms by (simp add: last_block_def)

lemma last_block_holds:
  assumes "last_block cmp ps ops True" and "kStopOnErrors AND o' = 0"
  shows "\<exists>ctx ev' skip. (skip \<longrightarrow> mc_options ctx = kPolUseOREval)
    \<and> evaluate_loop cmp o' ps ix (ops @ rest) MatchContext_Clear ev False
      = evaluate_loop cmp o' ps (ix + length ops) rest ctx ev' skip"
proof -
  have "evaluate_loop cmp o' ps ix (ops @ rest) MatchContext_Clear ev False
        = evaluate_loop cmp o' ps (ix + length ops) rest MatchContext_Clear (ops \<noteq> [] \<or> ev) False
    \<or> (\<exists>ctx. mc_options ctx = kPolUseOREval
        \<and> evaluate_loop cmp o' ps ix (ops @ rest) MatchContext_Clear ev False
          = evaluate_loop cmp o' ps (ix + length ops) rest ctx True True)"
    using assms unfolding last_block_def by (simp only: if_True)
  then show ?thesis
  proof
    assume "evaluate_loop cmp o' ps ix (ops @ rest) MatchContext_Clear ev False
        = evaluate_loop cmp o' ps (ix + length ops) rest MatchContext_Clear (ops \<noteq> [] \<or> ev) False"
    then show ?thesis
      by (intro exI [of _ MatchContext_Clear] exI [of _ "ops \<noteq> [] \<or> ev"] exI [of _ False]) simp
  next
    assume "\<exists>ctx. mc_options ctx = kPolUseOREval
        \<and> evaluate_loop cmp o' ps ix (ops @ rest) MatchContext_Clear ev False
          = evaluate_loop cmp o' ps (ix + length ops) rest ctx True True"
    then obtain ctx where "mc_options ctx = kPolUseOREval"
      "evaluate_loop cmp o' ps ix (ops @ rest) MatchContext_Clear ev False
          = evaluate_loop cmp o' ps (ix + length ops) rest ctx True True" by (elim exE conjE)
    then show ?thesis by (intro exI [of _ ctx] exI [of _ True] exI [of _ True]) simp
  qed
qed

text \<open>One group: its action is the result, or the next group starts afresh.\<close>

lemma evaluate_group:
  assumes "list_all (\<lambda>(ops, h). block cmp ps ops h) (butlast blocks)"
    and "blocks \<noteq> [] \<longrightarrow> last_block cmp ps (fst (last blocks)) (snd (last blocks))"
    and "is_action action" and "ps = Some (p # ps')" and "kStopOnErrors AND o' = 0"
  shows "evaluate_loop cmp o' ps ix (concat (map fst blocks) @ action_opcode action # rest) MatchContext_Clear ev False
    = (if list_all snd blocks
       then Inr (POLICY_MATCH, SetInternalState (ix + length (concat (map fst blocks))) action)
       else evaluate_loop cmp o' ps (ix + length (concat (map fst blocks)) + 1) rest MatchContext_Clear False False)"
  using assms(1,2)
proof (induction blocks arbitrary: ix ev)
  case Nil
  then show ?case using reach_action [OF assms(3,4)] by simp
next
  case (Cons b blocks)
  obtain ops h where b: "b = (ops, h)" by (cases b)
  let ?rest = "concat (map fst blocks) @ action_opcode action # rest"
  let ?len = "length (concat (map fst blocks))"
  have noact: "\<forall>op \<in> set (concat (map fst blocks)). \<not> IsAction (fst op)"
  proof -
    have "\<forall>op \<in> set (fst c). \<not> IsAction (fst op)" if c: "c \<in> set blocks" for c
    proof (cases "c = last blocks")
      case True
      with Cons.prems c show ?thesis by (cases blocks) (auto simp: last_block_def split: if_splits)
    next
      case False
      then have "c \<in> set (butlast blocks)" using c
        by (metis append_butlast_last_id in_set_conv_decomp empty_iff empty_set in_set_butlastD set_append Un_iff set_ConsD)
      then have "c \<in> set (butlast (b # blocks))" using c by (cases blocks) auto
      then have "block cmp ps (fst c) (snd c)" using Cons.prems(1) by (simp only: list_all_iff case_prod_beta)
      then show ?thesis by (simp add: block_def)
    qed
    then show ?thesis by auto
  qed
  have last: "last_block cmp ps ops h"
    using Cons.prems b by (cases blocks) (auto simp: block_last_block)
  show ?case
  proof (cases h)
    case False
    then have "last_block cmp ps ops False" using last by simp
    from last_block_fails [OF this assms(5), of ix ?rest ev] obtain ctx where
      ctx: "skips_past ctx" "evaluate_loop cmp o' ps ix (ops @ ?rest) MatchContext_Clear ev False
        = evaluate_loop cmp o' ps (ix + length ops) ?rest ctx False True" by blast
    then show ?thesis
      using False skip_conditions [OF noact] skip_action [OF ctx(1)] by (simp add: b add.assoc)
  next
    case True
    show ?thesis
    proof (cases "blocks = []")
      case True
      note nil = this
      have "evaluate_loop cmp o' ps ix (ops @ action_opcode action # rest) MatchContext_Clear ev False
          = Inr (POLICY_MATCH, SetInternalState (ix + length ops) action)"
        using last_block_holds [of cmp ps ops o' ix "action_opcode action # rest" ev] last assms(5) \<open>h\<close>
          reach_action [OF assms(3,4)] by auto
      then show ?thesis using nil \<open>h\<close> by (simp add: b)
    next
      case False
      then have "block cmp ps ops True" using Cons.prems(1) b \<open>h\<close> by (cases blocks) auto
      then have step: "evaluate_loop cmp o' ps ix (ops @ ?rest) MatchContext_Clear ev False
          = evaluate_loop cmp o' ps (ix + length ops) ?rest MatchContext_Clear (ops \<noteq> [] \<or> ev) False"
        using assms(5) by (rule block_holds)
      have "list_all (\<lambda>(ops, h). block cmp ps ops h) (butlast blocks)"
        "blocks \<noteq> [] \<longrightarrow> last_block cmp ps (fst (last blocks)) (snd (last blocks))"
        using Cons.prems False by simp_all
      from Cons.IH [OF this, of "ix + length ops" "ops \<noteq> [] \<or> ev"] step \<open>h\<close> show ?thesis
        by (simp add: b add.assoc)
    qed
  qed
qed

text \<open>The first group that holds gives the action.\<close>

lemma evaluate_groups:
  assumes "list_all (group_ok cmp ps) groups" and "ps = Some (p # ps')" and "kStopOnErrors AND o' = 0"
  shows "\<exists>ix'. evaluate_loop cmp o' ps ix (concat (map group_opcodes groups)) MatchContext_Clear False False
    = Inr (case List.find group_holds groups of
             None \<Rightarrow> (NO_POLICY_MATCH, SetInternalState 0 EVAL_FALSE)
           | Some g \<Rightarrow> (POLICY_MATCH, SetInternalState ix' (snd g)))"
  using assms(1)
proof (induction groups arbitrary: ix)
  case (Cons g groups)
  let ?rest = "concat (map group_opcodes groups)"
  have g: "is_action (snd g)" "list_all (\<lambda>(ops, h). block cmp ps ops h) (butlast (fst g))"
    "fst g \<noteq> [] \<longrightarrow> last_block cmp ps (fst (last (fst g))) (snd (last (fst g)))"
    using Cons.prems by (simp_all add: group_ok_def)
  have ops: "concat (map group_opcodes (g # groups)) = concat (map fst (fst g)) @ action_opcode (snd g) # ?rest"
    by (simp add: group_opcodes_def)
  note step = evaluate_group [OF g(2,3,1) assms(2,3), of ix ?rest False, folded ops, folded group_holds_def]
  show ?case
  proof (cases "group_holds g")
    case True
    then show ?thesis using step by auto
  next
    case False
    obtain ix' where "evaluate_loop cmp o' ps (ix + length (concat (map fst (fst g))) + 1) ?rest MatchContext_Clear False False
      = Inr (case List.find group_holds groups of
             None \<Rightarrow> (NO_POLICY_MATCH, SetInternalState 0 EVAL_FALSE)
           | Some g \<Rightarrow> (POLICY_MATCH, SetInternalState ix' (snd g)))"
      using Cons.IH Cons.prems by fastforce
    with False step show ?thesis by auto
  qed
qed simp

text \<open>A buffer in memory that holds the opcodes of a list of groups.\<close>

definition holds_groups :: "mem \<Rightarrow> nat \<Rightarrow> rule_group list \<Rightarrow> bool" where
  "holds_groups m b groups \<longleftrightarrow>
     (let vs = concat (map group_opcodes groups) in
      unat (load_opcode_count m b) = length vs
    \<and> (\<forall>i < length vs. opcode_view m (opcode_address b i) = vs ! i))"

lemma PolicyProcessor_first_match:
  assumes "holds_groups m b groups" and "groups \<noteq> []" and "list_all (group_ok cmp (Some (p # ps'))) groups"
    and "kShortEval AND o' \<noteq> 0" and "kStopOnErrors AND o' = 0"
  shows "\<exists>st'. PolicyProcessor_Evaluate cmp m (Some b) o' (Some (p # ps')) st
    = Inr (case List.find group_holds groups of None \<Rightarrow> NO_POLICY_MATCH | Some g \<Rightarrow> POLICY_MATCH, st')
    \<and> (\<forall>g. List.find group_holds groups = Some g \<longrightarrow> GetAction st' = snd g)"
proof -
  let ?vs = "concat (map group_opcodes groups)"
  have "?vs \<noteq> []" using assms(2) by (cases groups) (auto simp: group_opcodes_def)
  then have "load_opcode_count m b \<noteq> 0" using assms(1) by (auto simp: holds_groups_def Let_def)
  moreover have "evaluate_loop cmp o' (Some (p # ps')) 0 (buffer_opcodes m b) MatchContext_Clear False False
      = evaluate_loop cmp o' (Some (p # ps')) 0 ?vs MatchContext_Clear False False"
    by (rule buffer_opcodes_views) (use assms(1) in \<open>simp_all add: holds_groups_def Let_def\<close>)
  moreover obtain ix' where "evaluate_loop cmp o' (Some (p # ps')) 0 ?vs MatchContext_Clear False False
      = Inr (case List.find group_holds groups of
               None \<Rightarrow> (NO_POLICY_MATCH, SetInternalState 0 EVAL_FALSE)
             | Some g \<Rightarrow> (POLICY_MATCH, SetInternalState ix' (snd g)))"
    using evaluate_groups [OF assms(3) refl assms(5)] by blast
  ultimately show ?thesis
    using assms(4)
    by (cases "List.find group_holds groups")
      (auto simp: PolicyProcessor_Evaluate_def GetAction_def SetInternalState_def)
qed

end
