(* ===== verification/Win_Policy_Rules.thy ===== *)
theory Win_Policy_Rules
  imports Win_Policy_Processor
begin

text \<open>
  How rules become opcodes, \<^verbatim>\<open>win/src/policy_low_level.{h,cc}\<close>: a \<open>PolicyRule\<close> compiles string
  patterns and number comparisons into the opcodes of a buffer of its own, and ends with its
  action; the \<open>LowLevelPolicy\<close> copies the rules of every service into the policy memory.
\<close>

subsection \<open>Rules\<close>

datatype rule_type = IF | IF_NOT
datatype rule_op = EQUAL | AND_OP | RANGE

definition kRuleBufferSize :: nat where "kRuleBufferSize = 1024 * 4"

text \<open>
  The buffer of a rule is at address 0 of a memory of its own; the count of opcodes at its
  beginning is a field.
\<close>

record policy_rule =
  pr_memory :: mem
  pr_opcode_count :: nat
  pr_factory :: opcode_factory
  pr_action :: eval_result
  pr_done :: bool

text \<open>\<open>junk\<close> is the memory that \<open>new\<close> returns.\<close>

definition PolicyRule :: "mem \<Rightarrow> eval_result \<Rightarrow> policy_rule" where
  "PolicyRule junk action =
     \<lparr>pr_memory = junk, pr_opcode_count = 0,
      pr_factory = \<lparr>memory_top = opcodes_offset,
                    memory_bottom = opcodes_offset + kRuleBufferSize + sizeof_PolicyOpcode\<rparr>,
      pr_action = action, pr_done = False\<rparr>"

definition rule_opcode_address :: "nat \<Rightarrow> nat" where
  "rule_opcode_address i = opcode_address 0 i"

text \<open>The copy constructor: a copy of the buffer, and a factory behind the opcodes that were counted.\<close>

definition PolicyRule_copy :: "policy_rule \<Rightarrow> policy_rule" where
  "PolicyRule_copy other =
     (let next_opcode = rule_opcode_address (pr_opcode_count other) in
      other\<lparr>pr_factory := \<lparr>memory_top = next_opcode,
                           memory_bottom = next_opcode + memory_size (pr_factory other)\<rparr>\<rparr>)"

datatype pending = PENDING_NONE | PENDING_ASTERISK | PENDING_QMARK

definition kLastCharIsNone :: u32 where "kLastCharIsNone = 0"
definition kLastCharIsAlpha :: u32 where "kLastCharIsAlpha = 1"
definition kLastCharIsWild :: u32 where "kLastCharIsWild = 2"
definition kLastCharIsAsterisk :: u32 where "kLastCharIsAsterisk = kLastCharIsWild + 4"
definition kLastCharIsQuestionM :: u32 where "kLastCharIsQuestionM = kLastCharIsWild + 8"

abbreviation (input) ASTERISK :: u16 where "ASTERISK \<equiv> 42"
abbreviation (input) SLASH :: u16 where "SLASH \<equiv> 47"
abbreviation (input) QUESTION :: u16 where "QUESTION \<equiv> 63"

text \<open>What a call of the factory leaves in the rule; a new opcode is counted.\<close>

definition rule_make ::
    "(opcode_factory \<Rightarrow> mem \<Rightarrow> nat option made) \<Rightarrow> policy_rule \<Rightarrow> abort + (bool \<times> policy_rule)" where
  "rule_make mk r =
     res_bind (mk (pr_factory r) (pr_memory r)) (\<lambda>(opcode, f, m).
     let r = r\<lparr>pr_factory := f, pr_memory := m\<rparr> in
     case opcode of
       None \<Rightarrow> Inr (False, r)
     | Some a \<Rightarrow> Inr (True, r\<lparr>pr_opcode_count := pr_opcode_count r + 1\<rparr>))"

text \<open>\<open>GenStringOpcode\<close>: besides the rule it updates \<open>skip_count\<close> and \<open>fragment\<close>.\<close>

type_synonym gen_state = "policy_rule \<times> nat \<times> wstring"

definition gen_options :: "rule_type \<Rightarrow> bool \<Rightarrow> u32" where
  "gen_options rule_type last_call =
     (if last_call then
        (if rule_type = IF_NOT then kPolClearContext OR kPolNegateEval else kPolClearContext)
      else if rule_type = IF_NOT then kPolUseOREval OR kPolNegateEval
      else kPolNone)"

definition GenStringOpcode ::
    "rule_type \<Rightarrow> u32 \<Rightarrow> u16 \<Rightarrow> pending \<Rightarrow> bool \<Rightarrow> gen_state \<Rightarrow> abort + (bool \<times> gen_state)" where
  "GenStringOpcode rule_type match_opts parameter state last_call st =
     (let (r, skip_count, fragment) = st; options = gen_options rule_type last_call in
      if fragment = [] then
        (if last_call \<and> pr_opcode_count r > 0 then
           (let a = rule_opcode_address (pr_opcode_count r - 1) in
            res_bind (SetOptions options (load_opcode (pr_memory r) a)) (\<lambda>op.
            Inr (True, r\<lparr>pr_memory := store_opcode a op (pr_memory r)\<rparr>, skip_count, fragment)))
         else Inr (True, st))
      else
        (let start = (case state of
               PENDING_ASTERISK \<Rightarrow> if last_call then kSeekToEnd else kSeekForward
             | PENDING_QMARK \<Rightarrow> of_nat skip_count
             | PENDING_NONE \<Rightarrow> 0);
             match_opts = (if state = PENDING_NONE \<and> last_call then EXACT_LENGHT OR match_opts else match_opts);
             skip_count = (if state = PENDING_QMARK then 0 else skip_count) in
         res_bind (rule_make (MakeOpWStringMatch parameter (Some fragment) start match_opts options) r)
           (\<lambda>(made, r). Inr (made, r, skip_count, if made then [] else fragment))))"

text \<open>The loop over the characters of the pattern; \<open>/?\<close> is an escaped question mark.\<close>

fun string_match_loop ::
    "rule_type \<Rightarrow> u32 \<Rightarrow> u16 \<Rightarrow> wstring \<Rightarrow> u32 \<Rightarrow> pending \<Rightarrow> gen_state \<Rightarrow> abort + (bool \<times> pending \<times> gen_state)" where
  "string_match_loop rule_type match_opts parameter [] last_char state st = Inr (True, state, st)"
| "string_match_loop rule_type match_opts parameter (c # cs) last_char state st =
     (if c = ASTERISK then
        (if kLastCharIsWild AND last_char \<noteq> 0 then Inr (False, state, st)
         else
           res_bind (GenStringOpcode rule_type match_opts parameter state False st) (\<lambda>(ok, st).
           if \<not> ok then Inr (False, state, st)
           else string_match_loop rule_type match_opts parameter cs kLastCharIsAsterisk PENDING_ASTERISK st))
      else if c = QUESTION then
        (if last_char = kLastCharIsAsterisk then Inr (False, state, st)
         else
           res_bind (GenStringOpcode rule_type match_opts parameter state False st) (\<lambda>(ok, st).
           if \<not> ok then Inr (False, state, st)
           else
             (let (r, skip_count, fragment) = st in
              string_match_loop rule_type match_opts parameter cs kLastCharIsQuestionM PENDING_QMARK
                (r, skip_count + 1, fragment))))
      else
        (let escaped = (c = SLASH \<and> cs \<noteq> [] \<and> hd cs = QUESTION);
             (r, skip_count, fragment) = st in
         string_match_loop rule_type match_opts parameter (if escaped then tl cs else cs) kLastCharIsAlpha state
           (r, skip_count, fragment @ [if escaped then QUESTION else c])))"

definition AddStringMatch ::
    "rule_type \<Rightarrow> u16 \<Rightarrow> wstring \<Rightarrow> u32 \<Rightarrow> policy_rule \<Rightarrow> abort + (bool \<times> policy_rule)" where
  "AddStringMatch rule_type parameter string match_opts r =
     (if pr_done r then Inr (False, r)
      else
        res_bind (string_match_loop rule_type match_opts parameter string kLastCharIsNone PENDING_NONE (r, 0, []))
          (\<lambda>(ok, state, st).
        if \<not> ok then Inr (False, fst st)
        else
          res_bind (GenStringOpcode rule_type match_opts parameter state True st) (\<lambda>(ok, st).
          Inr (ok, fst st))))"

text \<open>A range comparison makes no opcode, but is counted.\<close>

definition AddNumberMatch ::
    "rule_type \<Rightarrow> u16 \<Rightarrow> u32 \<Rightarrow> rule_op \<Rightarrow> policy_rule \<Rightarrow> abort + (bool \<times> policy_rule)" where
  "AddNumberMatch rule_type parameter number comparison_op r =
     (if pr_done r then Inr (False, r)
      else
        (let opts = (if rule_type = IF_NOT then kPolNegateEval else kPolNone) in
         case comparison_op of
           EQUAL \<Rightarrow> rule_make (MakeOpNumberMatch parameter number opts) r
         | AND_OP \<Rightarrow> rule_make (MakeOpNumberAndMatch parameter number opts) r
         | RANGE \<Rightarrow> Inr (True, r\<lparr>pr_opcode_count := pr_opcode_count r + 1\<rparr>)))"

definition rule_Done :: "policy_rule \<Rightarrow> abort + (bool \<times> policy_rule)" where
  "rule_Done r =
     (if pr_done r then Inr (True, r)
      else
        res_bind (rule_make (MakeOpAction (pr_action r) kPolNone) r) (\<lambda>(made, r).
        Inr (made, if made then r\<lparr>pr_done := True\<rparr> else r)))"

text \<open>
  \<open>RebindCopy\<close> to the opcodes at \<open>opcode_start\<close> and the strings below \<open>data_start\<close>: the remaining
  sizes, or \<open>None\<close> when the memory does not suffice. The size of the string's copy is taken from the
  whole second argument.
\<close>

fun rebind_loop ::
    "mem \<Rightarrow> nat \<Rightarrow> nat \<Rightarrow> nat \<Rightarrow> nat \<Rightarrow> int \<Rightarrow> nat \<Rightarrow> mem \<Rightarrow> (nat option) \<times> mem" where
  "rebind_loop rule_mem 0 ix opcode_start opcode_size data_start data_size m = (Some data_size, m)"
| "rebind_loop rule_mem (Suc n) ix opcode_start opcode_size data_start data_size m =
     (if opcode_size < sizeof_PolicyOpcode then (None, m)
      else
        (let src = rule_opcode_address ix;
             opcode = load_opcode rule_mem src;
             m = store_bytes opcode_start (load_bytes rule_mem src sizeof_PolicyOpcode) m in
         if op_id opcode = OP_WSTRING_MATCH then
           (let str = GetRelativeString 0 src opcode;
                str_len = unat (GetArgument 1 opcode :: u64) * 2 in
            if data_size < str_len then (None, m)
            else
              (let data_start = data_start - int str_len;
                   m = store_bytes (nat data_start) (load_bytes rule_mem str str_len) m;
                   m = SetArgument opcode_start 8 0 (of_int (data_start - int opcode_start)) m in
               rebind_loop rule_mem n (Suc ix) (opcode_start + sizeof_PolicyOpcode)
                 (opcode_size - sizeof_PolicyOpcode) data_start (data_size - str_len) m))
         else
           rebind_loop rule_mem n (Suc ix) (opcode_start + sizeof_PolicyOpcode)
             (opcode_size - sizeof_PolicyOpcode) data_start data_size m))"

definition RebindCopy :: "policy_rule \<Rightarrow> nat \<Rightarrow> nat \<Rightarrow> nat \<Rightarrow> nat \<Rightarrow> mem \<Rightarrow> (nat option) \<times> mem" where
  "RebindCopy r opcode_start opcode_size data_start data_size m =
     rebind_loop (pr_memory r) (pr_opcode_count r) 0 opcode_start opcode_size (int data_start) data_size m"

subsection \<open>Policies\<close>

definition kMaxServiceCount :: nat where "kMaxServiceCount = 64"

text \<open>\<open>PolicyGlobal\<close>, whose \<open>data\<close> is at address 0 of the memory.\<close>

record policy_global =
  pg_entry :: "nat \<Rightarrow> nat option"
  pg_data_size :: nat
  pg_memory :: mem

record low_level_policy =
  lp_rules :: "(policy_rule \<times> u32) list"
  lp_policy_store :: policy_global

definition LowLevelPolicy :: "policy_global \<Rightarrow> low_level_policy" where
  "LowLevelPolicy policy_store = \<lparr>lp_rules = [], lp_policy_store = policy_store\<rparr>"

text \<open>The rule is finished in the caller's object and copied.\<close>

definition AddRule :: "u32 \<Rightarrow> policy_rule \<Rightarrow> low_level_policy \<Rightarrow> abort + (bool \<times> policy_rule \<times> low_level_policy)" where
  "AddRule service r p =
     res_bind (rule_Done r) (\<lambda>(ok, r).
     if \<not> ok then Inr (False, r, p)
     else Inr (True, r, p\<lparr>lp_rules := lp_rules p @ [(PolicyRule_copy r, service)]\<rparr>))"

text \<open>The map from services to their rules, as an association list in ascending order.\<close>

definition services :: "(policy_rule \<times> u32) list \<Rightarrow> u32 list" where
  "services rules = sort (remdups (map snd rules))"

definition rules_for :: "u32 \<Rightarrow> (policy_rule \<times> u32) list \<Rightarrow> policy_rule list" where
  "rules_for service rules = map fst (filter (\<lambda>(r, s). s = service) rules)"

text \<open>The rules of one service: the memory, \<open>svc_opcode_count\<close>, \<open>buffer_end\<close> and \<open>avail_size\<close>.\<close>

fun done_rules ::
    "policy_rule list \<Rightarrow> nat \<Rightarrow> nat \<Rightarrow> nat \<Rightarrow> nat \<Rightarrow> mem \<Rightarrow> (nat \<times> nat \<times> nat) option \<times> mem" where
  "done_rules [] current_buffer svc_opcode_count buffer_end avail_size m =
     (Some (svc_opcode_count, buffer_end, avail_size), m)"
| "done_rules (r # rs) current_buffer svc_opcode_count buffer_end avail_size m =
     (let op_count = pr_opcode_count r; opcodes_size = op_count * sizeof_PolicyOpcode in
      if avail_size < opcodes_size then (None, m)
      else
        (let data_size = avail_size - opcodes_size;
             opcodes_start = opcode_address current_buffer svc_opcode_count in
         case RebindCopy r opcodes_start opcodes_size buffer_end data_size m of
           (None, m) \<Rightarrow> (None, m)
         | (Some data_size, m) \<Rightarrow>
             (let used = avail_size - data_size in
              done_rules rs current_buffer (svc_opcode_count + op_count) (buffer_end - used) (avail_size - used) m)))"

fun done_services ::
    "(policy_rule \<times> u32) list \<Rightarrow> u32 list \<Rightarrow> nat \<Rightarrow> nat \<Rightarrow> nat \<Rightarrow> policy_global \<Rightarrow> bool \<times> policy_global" where
  "done_services rules [] current_buffer buffer_end avail_size g = (True, g)"
| "done_services rules (service # ss) current_buffer buffer_end avail_size g =
     (if unat service \<ge> kMaxServiceCount then (False, g)
      else
        (let g = g\<lparr>pg_entry := (pg_entry g)(unat service := Some current_buffer)\<rparr> in
         case done_rules (rules_for service rules) current_buffer 0 buffer_end avail_size (pg_memory g) of
           (None, m) \<Rightarrow> (False, g\<lparr>pg_memory := m\<rparr>)
         | (Some (svc_opcode_count, buffer_end, avail_size), m) \<Rightarrow>
             (let count = load_opcode_count m current_buffer + of_nat svc_opcode_count;
                  m = store_bytes current_buffer (le_bytes 8 count) m;
                  policy_byte_count = svc_opcode_count * sizeof_PolicyOpcode div sizeof_PolicyBuffer in
              done_services rules ss (current_buffer + (policy_byte_count + 1) * sizeof_PolicyBuffer)
                buffer_end avail_size (g\<lparr>pg_memory := m\<rparr>))))"

definition policy_Done :: "low_level_policy \<Rightarrow> bool \<times> low_level_policy" where
  "policy_Done p =
     (let store = lp_policy_store p;
          (ok, store) = done_services (lp_rules p) (services (lp_rules p)) 0 (pg_data_size store)
            (pg_data_size store) store
      in (ok, p\<lparr>lp_policy_store := store\<rparr>))"

end
