(* ===== verification/Win_Policy_Patterns.thy ===== *)
theory Win_Policy_Patterns
  imports Win_Policy_Rules
begin

text \<open>
  What a string pattern means: a reference definition of matching with \<open>*\<close>, the comparisons that a
  pattern is compiled to, and the proof that evaluating them one after the other, each from
  where the last one stopped, decides exactly the reference definition.
\<close>

subsection \<open>Patterns\<close>

text \<open>The pieces between the stars, with \<open>/?\<close> unescaped; \<open>acc\<close> is the piece so far.\<close>

fun pieces :: "wstring \<Rightarrow> wstring \<Rightarrow> wstring list" where
  "pieces acc [] = [acc]"
| "pieces acc (c # cs) =
     (if c = ASTERISK then acc # pieces [] cs
      else
        (let escaped = (c = SLASH \<and> cs \<noteq> [] \<and> hd cs = QUESTION) in
         pieces (acc @ [if escaped then QUESTION else c]) (if escaped then tl cs else cs)))"

text \<open>No question mark but escaped ones.\<close>

fun plain_pattern :: "wstring \<Rightarrow> bool" where
  "plain_pattern [] \<longleftrightarrow> True"
| "plain_pattern (c # cs) \<longleftrightarrow>
     c \<noteq> QUESTION \<and> plain_pattern (if c = SLASH \<and> cs \<noteq> [] \<and> hd cs = QUESTION then tl cs else cs)"

text \<open>
  The reference definition. A piece occurs at a place if it equals the characters there; the first
  piece stands at the beginning, the last at the end, the others in between and in order.
\<close>

definition occurs_at :: "(wstring \<Rightarrow> wstring \<Rightarrow> bool) \<Rightarrow> wstring \<Rightarrow> nat \<Rightarrow> wstring \<Rightarrow> bool" where
  "occurs_at eq f k s \<longleftrightarrow> k + length f \<le> length s \<and> (f = [] \<or> eq f (take (length f) (drop k s)))"

fun glob_rest :: "(wstring \<Rightarrow> wstring \<Rightarrow> bool) \<Rightarrow> wstring list \<Rightarrow> wstring \<Rightarrow> bool" where
  "glob_rest eq [] s \<longleftrightarrow> True"
| "glob_rest eq [f] s \<longleftrightarrow> (\<exists>k \<le> length s. k + length f = length s \<and> occurs_at eq f k s)"
| "glob_rest eq (f # fs) s \<longleftrightarrow> (\<exists>k \<le> length s. occurs_at eq f k s \<and> glob_rest eq fs (drop (k + length f) s))"

fun glob :: "(wstring \<Rightarrow> wstring \<Rightarrow> bool) \<Rightarrow> wstring list \<Rightarrow> wstring \<Rightarrow> bool" where
  "glob eq [] s \<longleftrightarrow> s = []"
| "glob eq [f] s \<longleftrightarrow> length f = length s \<and> occurs_at eq f 0 s"
| "glob eq (f # fs) s \<longleftrightarrow> occurs_at eq f 0 s \<and> glob_rest eq fs (drop (length f) s)"

text \<open>More room in front does not hurt.\<close>

lemma occurs_at_drop: "occurs_at eq f k (drop j s) \<Longrightarrow> k \<le> length (drop j s) \<Longrightarrow> j \<le> length s \<Longrightarrow> occurs_at eq f (j + k) s"
  by (auto simp: occurs_at_def add.commute)

lemma glob_rest_earlier:
  assumes "glob_rest eq fs (drop j s)" and "j \<le> length s"
  shows "glob_rest eq fs s"
proof (cases fs)
  case (Cons f gs)
  show ?thesis
  proof (cases gs)
    case Nil
    from assms Cons Nil obtain k where "k \<le> length (drop j s)" "k + length f = length (drop j s)" "occurs_at eq f k (drop j s)"
      by auto
    then show ?thesis
      using Cons Nil assms(2) occurs_at_drop [of eq f k j s] by (auto intro!: exI [of _ "j + k"])
  next
    case (Cons g hs)
    then have fs: "fs = f # g # hs" using \<open>fs = f # gs\<close> by simp
    from assms(1) obtain k where "k \<le> length (drop j s)" "occurs_at eq f k (drop j s)"
      "glob_rest eq (g # hs) (drop (k + length f) (drop j s))" unfolding fs by auto
    then show ?thesis
      unfolding fs using assms(2) occurs_at_drop [of eq f k j s]
      by (auto intro!: exI [of _ "j + k"] simp: add.commute add.left_commute)
  qed
qed simp

subsection \<open>Comparisons\<close>

datatype match_kind = Whole | Prefix | Forward | ToEnd

fun kind_start :: "match_kind \<Rightarrow> u32" where
  "kind_start Whole = 0"
| "kind_start Prefix = 0"
| "kind_start Forward = kSeekForward"
| "kind_start ToEnd = kSeekToEnd"

definition kind_opts :: "match_kind \<Rightarrow> u32 \<Rightarrow> u32" where
  "kind_opts kind match_opts = (if kind = Whole then EXACT_LENGHT OR match_opts else match_opts)"

text \<open>The opcode for a piece.\<close>

definition piece_opcode :: "u16 \<Rightarrow> u32 \<Rightarrow> u32 \<Rightarrow> match_kind \<times> wstring \<Rightarrow> policy_opcode \<times> wstring" where
  "piece_opcode p match_opts options x =
     (opcode_of OP_WSTRING_MATCH p options
        [0, of_nat (length (snd x)), ucast (kind_start (fst x)), ucast (kind_opts (fst x) match_opts)], snd x)"

text \<open>How far a comparison gets in what is left of the string.\<close>

fun piece_match :: "(wstring \<Rightarrow> wstring \<Rightarrow> bool) \<Rightarrow> match_kind \<times> wstring \<Rightarrow> wstring \<Rightarrow> nat option" where
  "piece_match eq (Whole, f) s = (if length f = length s \<and> eq f s then Some (length f) else None)"
| "piece_match eq (Prefix, f) s =
     (if length f \<le> length s \<and> eq f (take (length f) s) then Some (length f) else None)"
| "piece_match eq (Forward, f) s =
     (if length f \<le> length s then map_option (\<lambda>i. i + length f) (seek_loop (eq f) (length f) s 0) else None)"
| "piece_match eq (ToEnd, f) s =
     (if length f \<le> length s \<and> eq f (drop (length s - length f) s) then Some (length s) else None)"

lemma seek_loop_Some:
  assumes "seek_loop p n s i = Some j" and "n \<le> length s" and "0 < n"
  shows "i \<le> j \<and> j - i + n \<le> length s \<and> p (take n (drop (j - i) s)) \<and> (\<forall>k < j - i. \<not> p (take n (drop k s)))"
  using assms
proof (induction s arbitrary: i)
  case (Cons c cs)
  show ?case
  proof (cases "p (take n (c # cs))")
    case True
    with Cons.prems show ?thesis by simp
  next
    case False
    with Cons.prems have n: "n \<le> length cs" and s: "seek_loop p n cs (Suc i) = Some j" by (auto split: if_splits)
    from Cons.IH [OF s n Cons.prems(3)]
    have *: "Suc i \<le> j" "j - Suc i + n \<le> length cs" "p (take n (drop (j - Suc i) cs))"
      "\<forall>k < j - Suc i. \<not> p (take n (drop k cs))" by auto
    then have j: "j - i = Suc (j - Suc i)" by simp
    have "\<not> p (take n (drop k (c # cs)))" if "k < j - i" for k
      using that False *(4) j by (cases k) auto
    then show ?thesis using * j by simp
  qed
qed simp

lemma seek_loop_None:
  assumes "seek_loop p n s i = None" and "k + n \<le> length s" and "0 < n"
  shows "\<not> p (take n (drop k s))"
  using assms
proof (induction s arbitrary: i k)
  case (Cons c cs)
  then show ?case by (cases k) (auto split: if_splits)
qed simp

lemma piece_match_bound: "piece_match eq x s = Some n \<Longrightarrow> snd x \<noteq> [] \<Longrightarrow> n \<le> length s"
  by (cases "(eq, x, s)" rule: piece_match.cases)
    (auto split: if_splits dest!: seek_loop_Some)

text \<open>A sequence of comparisons, each from where the last one stopped.\<close>

fun chain :: "(wstring \<Rightarrow> wstring \<Rightarrow> bool) \<Rightarrow> (match_kind \<times> wstring) list \<Rightarrow> wstring \<Rightarrow> bool" where
  "chain eq [] s \<longleftrightarrow> True"
| "chain eq (x # xs) s \<longleftrightarrow> (case piece_match eq x s of None \<Rightarrow> False | Some n \<Rightarrow> chain eq xs (drop n s))"

text \<open>The comparisons for the pieces of a pattern.\<close>

fun rest_kinds :: "wstring list \<Rightarrow> (match_kind \<times> wstring) list" where
  "rest_kinds [] = []"
| "rest_kinds [f] = (if f = [] then [] else [(ToEnd, f)])"
| "rest_kinds (f # fs) = (if f = [] then [] else [(Forward, f)]) @ rest_kinds fs"

fun kinds :: "wstring list \<Rightarrow> (match_kind \<times> wstring) list" where
  "kinds [] = []"
| "kinds [f] = (if f = [] then [] else [(Whole, f)])"
| "kinds (f # fs) = (if f = [] then [] else [(Prefix, f)]) @ rest_kinds fs"

text \<open>Taking the leftmost occurrence of every inner piece is enough.\<close>

lemma chain_rest_kinds: "chain eq (rest_kinds fs) s \<longleftrightarrow> glob_rest eq fs s"
proof (induction fs arbitrary: s rule: rest_kinds.induct)
  case (2 f)
  have k: "(\<exists>k \<le> length s. k + length f = length s \<and> occurs_at eq f k s)
      \<longleftrightarrow> length f \<le> length s \<and> occurs_at eq f (length s - length f) s"
    by (auto intro!: exI [of _ "length s - length f"] simp: eq_diff_iff dest: sym [of "_ + _"])
  show ?case by (cases "f = []") (simp_all add: k, simp_all add: occurs_at_def)
next
  case (3 f g fs)
  show ?case
  proof (cases "f = []")
    case True
    have "glob_rest eq (f # g # fs) s \<longleftrightarrow> (\<exists>k \<le> length s. glob_rest eq (g # fs) (drop k s))"
      using True by (auto simp: occurs_at_def)
    also have "\<dots> \<longleftrightarrow> glob_rest eq (g # fs) s"
      using glob_rest_earlier [of eq "g # fs" _ s] by (metis drop0 le0)
    finally show ?thesis using 3 True by simp
  next
    case False
    have at: "occurs_at eq f k s \<longleftrightarrow> k + length f \<le> length s \<and> eq f (take (length f) (drop k s))" for k
      using False by (simp add: occurs_at_def)
    show ?thesis
    proof (cases "length f \<le> length s \<and> (\<exists>j. seek_loop (eq f) (length f) s 0 = Some j)")
      case none: False
      have "\<not> occurs_at eq f k s" for k
      proof
        assume "occurs_at eq f k s"
        then have k: "k + length f \<le> length s" "eq f (take (length f) (drop k s))" by (simp_all add: at)
        then have "seek_loop (eq f) (length f) s 0 = None" using none by auto
        from seek_loop_None [OF this k(1)] k(2) False show "False" by simp
      qed
      then show ?thesis using none False by auto
    next
      case True
      then obtain j where j: "seek_loop (eq f) (length f) s 0 = Some j" "length f \<le> length s" by blast
      from seek_loop_Some [OF j] False have found: "j + length f \<le> length s" "eq f (take (length f) (drop j s))"
        and first: "\<And>k. k < j \<Longrightarrow> \<not> eq f (take (length f) (drop k s))" by auto
      have "glob_rest eq (f # g # fs) s \<longleftrightarrow> glob_rest eq (g # fs) (drop (j + length f) s)"
      proof
        assume "glob_rest eq (f # g # fs) s"
        then obtain k where k: "occurs_at eq f k s" "glob_rest eq (g # fs) (drop (k + length f) s)"
          by (simp only: glob_rest.simps) blast
        then have jk: "j \<le> k" and le: "k + length f \<le> length s" using first [of k] by (auto simp: at not_less [symmetric])
        have "drop (k + length f) s = drop (k - j) (drop (j + length f) s)" using jk by simp
        then have "glob_rest eq (g # fs) (drop (k - j) (drop (j + length f) s))" using k(2) by (simp only:)
        moreover have "k - j \<le> length (drop (j + length f) s)" using jk le by simp
        ultimately show "glob_rest eq (g # fs) (drop (j + length f) s)" by (rule glob_rest_earlier)
      next
        assume "glob_rest eq (g # fs) (drop (j + length f) s)"
        moreover have "occurs_at eq f j s" using found by (simp add: at)
        moreover have "j \<le> length s" using found by simp
        ultimately show "glob_rest eq (f # g # fs) s" by (simp only: glob_rest.simps) blast
      qed
      then show ?thesis using 3 False j by simp
    qed
  qed
qed simp

lemma chain_kinds: "fs \<noteq> [] \<Longrightarrow> kinds fs \<noteq> [] \<Longrightarrow> chain eq (kinds fs) s \<longleftrightarrow> glob eq fs s"
  by (cases fs rule: kinds.cases) (auto simp: chain_rest_kinds occurs_at_def)

subsection \<open>An opcode computes its comparison\<close>

text \<open>The string parameter that an opcode with parameter \<open>p\<close> reads.\<close>

definition string_param :: "parameter list option \<Rightarrow> u16 \<Rightarrow> wstring \<Rightarrow> bool" where
  "string_param ps p s \<longleftrightarrow>
     (\<exists>params. ps = Some params \<and> 0 \<le> sint p \<and> nat (sint p) < length params
        \<and> params ! nat (sint p) = WcharParam (Some s))"

definition case_equal :: "wcompare \<Rightarrow> u32 \<Rightarrow> wstring \<Rightarrow> wstring \<Rightarrow> bool" where
  "case_equal cmp match_opts = cmp (match_opts AND CASE_INSENSITIVE \<noteq> 0)"

lemma case_equal_kind [simp]: "case_equal cmp (kind_opts kind mo) = case_equal cmp mo"
  by (simp add: case_equal_def kind_opts_def bit.conj_disj_distrib2)

lemma kind_opts_exact: "mo AND EXACT_LENGHT = 0 \<Longrightarrow> kind_opts kind mo AND EXACT_LENGHT \<noteq> 0 \<longleftrightarrow> kind = Whole"
  by (simp add: kind_opts_def bit.conj_disj_distrib2)

lemma piece_match_eval:
  assumes "f \<noteq> []" and "length f \<le> kMaxUniStrSize" and "mo AND EXACT_LENGHT = 0" and "mc_position ctx \<le> length s"
  shows "eval_wstring_match cmp (fst (piece_opcode p mo options (kind, f))) f (WcharParam (Some s)) (Some ctx)
    = (case piece_match (case_equal cmp mo) (kind, f) (drop (mc_position ctx) s) of
         None \<Rightarrow> Inr (EVAL_FALSE, Some ctx)
       | Some n \<Rightarrow> Inr (EVAL_TRUE, Some (ctx\<lparr>mc_position := mc_position ctx + n\<rparr>)))"
proof -
  let ?op = "fst (piece_opcode p mo options (kind, f))"
  define src where "src = drop (mc_position ctx) s"
  have len: "sint (GetArgument 1 ?op :: u32) = int (length f)"
  proof -
    have n: "length f < 2 ^ 31" using assms(2) by (simp add: kMaxUniStrSize_def)
    have "(ucast (of_nat (length f) :: u64) :: u32) = of_nat (length f)"
      using n by (intro word_unat_eq_iff [THEN iffD2]) (simp add: unsigned_ucast_eq unat_of_nat_small take_bit_nat_eq_self)
    then show ?thesis using n by (simp add: piece_opcode_def GetArgument_def signed_of_nat signed_take_bit_int_eq_self)
  qed
  have start: "GetArgument 2 ?op = kind_start kind" and opts: "GetArgument 3 ?op = kind_opts kind mo"
    by (simp_all add: piece_opcode_def GetArgument_def)
  have init: "InitStringUnicode (int (length f))" using assms(2) by (simp add: InitStringUnicode_def)
  have pos: "\<not> mc_position ctx > length s" using assms(4) by simp
  show ?thesis
    unfolding eval_wstring_match_def option.case Get_wchar.simps if_not_P [OF pos] len start opts
      src_def [symmetric] Let_def case_equal_def [symmetric] case_equal_kind kind_opts_exact [OF assms(3)]
    by (cases kind) (use assms(1) init in \<open>auto simp: nat_diff_distrib nat_add_distrib split: option.split\<close>)
qed

text \<open>A piece that a comparison handles: not empty, and not longer than a string of the system.\<close>

definition piece_ok :: "match_kind \<times> wstring \<Rightarrow> bool" where
  "piece_ok x \<longleftrightarrow> snd x \<noteq> [] \<and> length (snd x) \<le> kMaxUniStrSize"

definition matched_context :: "nat option \<Rightarrow> match_context \<Rightarrow> match_context" where
  "matched_context m ctx = (case m of None \<Rightarrow> ctx | Some n \<Rightarrow> ctx\<lparr>mc_position := mc_position ctx + n\<rparr>)"

lemma piece_Evaluate:
  assumes "string_param ps p s" and "piece_ok x" and "mo AND EXACT_LENGHT = 0" and "mc_position ctx \<le> length s"
    and "unat options < 65536" and "m = piece_match (case_equal cmp mo) x (drop (mc_position ctx) s)"
  shows "opcode_Evaluate cmp (piece_opcode p mo options x) ps (Some ctx)
    = Inr (apply_options options (if m = None then EVAL_FALSE else EVAL_TRUE) (Some (matched_context m ctx)))"
proof -
  obtain kind f where x: "x = (kind, f)" by (cases x)
  from assms(1) obtain params where ps: "ps = Some params" "0 \<le> sint p" "nat (sint p) < length params"
    "params ! nat (sint p) = WcharParam (Some s)" unfolding string_param_def by blast
  have opts: "(ucast (ucast options :: u16) :: u32) = options"
    using assms(5) by (intro word_unat_eq_iff [THEN iffD2]) (simp add: unsigned_ucast_eq unsigned_take_bit_eq take_bit_nat_eq_self)
  have f: "f \<noteq> []" "length f \<le> kMaxUniStrSize" using assms(2) by (simp_all add: piece_ok_def x)
  have snd: "snd (piece_opcode p mo options (kind, f)) = f" and id: "op_id (fst (piece_opcode p mo options (kind, f))) = OP_WSTRING_MATCH"
    and param: "op_parameter (fst (piece_opcode p mo options (kind, f))) = p"
    and options: "op_options (fst (piece_opcode p mo options (kind, f))) = ucast options"
    by (simp_all add: piece_opcode_def)
  show ?thesis
    using ps piece_match_eval [OF f assms(3,4), of cmp p options kind] assms(6)
    by (auto simp: opcode_Evaluate_def EvaluateHelper_def with_param_def case_prod_beta x snd id param options opts
        matched_context_def split: option.split)
qed

lemma matched_position:
  "piece_ok x \<Longrightarrow> mc_position ctx \<le> length s \<Longrightarrow> m = piece_match eq x (drop (mc_position ctx) s) \<Longrightarrow>
   mc_position (matched_context m ctx) \<le> length s"
  using piece_match_bound [of eq x "drop (mc_position ctx) s"]
  by (fastforce simp: matched_context_def piece_ok_def split: option.split)

lemma matched_options [simp]: "mc_options (matched_context m ctx) = mc_options ctx"
  by (simp add: matched_context_def split: option.split)

subsection \<open>The opcodes of a pattern form a block\<close>

fun chain_ops :: "rule_type \<Rightarrow> u16 \<Rightarrow> u32 \<Rightarrow> (match_kind \<times> wstring) list \<Rightarrow> (policy_opcode \<times> wstring) list" where
  "chain_ops rt p mo [] = []"
| "chain_ops rt p mo [x] = [piece_opcode p mo (gen_options rt True) x]"
| "chain_ops rt p mo (x # y # xs) = piece_opcode p mo (gen_options rt False) x # chain_ops rt p mo (y # xs)"

lemma chain_ops_no_action: "\<forall>op \<in> set (chain_ops rt p mo xs). \<not> IsAction (fst op)"
  by (induction rt p mo xs rule: chain_ops.induct) (auto simp: piece_opcode_def IsAction_def)

lemma length_chain_ops [simp]: "length (chain_ops rt p mo xs) = length xs"
  by (induction rt p mo xs rule: chain_ops.induct) auto

text \<open>One opcode of a pattern, by the type of its rule and whether it is the last.\<close>

lemma piece_step:
  assumes "string_param ps p s" and "piece_ok x" and "mo AND EXACT_LENGHT = 0" and "mc_position ctx \<le> length s"
    and "m = piece_match (case_equal cmp mo) x (drop (mc_position ctx) s)"
  shows "mc_options ctx = 0 \<Longrightarrow>
      evaluate_loop cmp o' ps ix (piece_opcode p mo (gen_options IF False) x # rest) ctx ev False
      = (if m = None then evaluate_loop cmp o' ps (Suc ix) rest ctx False True
         else evaluate_loop cmp o' ps (Suc ix) rest (matched_context m ctx) True False)"
    and "evaluate_loop cmp o' ps ix (piece_opcode p mo (gen_options IF True) x # rest) ctx ev False
      = evaluate_loop cmp o' ps (Suc ix) rest MatchContext_Clear (m \<noteq> None) (m = None)"
    and "evaluate_loop cmp o' ps ix (piece_opcode p mo (gen_options IF_NOT False) x # rest) ctx ev False
      = evaluate_loop cmp o' ps (Suc ix) rest ((matched_context m ctx)\<lparr>mc_options := kPolUseOREval\<rparr>) (m = None) (m = None)"
    and "evaluate_loop cmp o' ps ix (piece_opcode p mo (gen_options IF_NOT True) x # rest) ctx ev False
      = evaluate_loop cmp o' ps (Suc ix) rest MatchContext_Clear (m = None) (m \<noteq> None)"
proof -
  have eval: "opcode_Evaluate cmp (piece_opcode p mo options x) ps (Some ctx)
    = Inr (apply_options options (if m = None then EVAL_FALSE else EVAL_TRUE) (Some (matched_context m ctx)))"
    if "unat options < 65536" for options
    by (rule piece_Evaluate [OF assms(1-4) that assms(5)])
  note evals = eval [of 0, simplified] eval [of 2, simplified] eval [of 5, simplified] eval [of 3, simplified]
  have none: "m = None \<Longrightarrow> matched_context m ctx = ctx" by (simp add: matched_context_def)
  have id: "gen_options IF False = 0" "gen_options IF True = 2" "gen_options IF_NOT False = 5" "gen_options IF_NOT True = 3"
    by (simp_all add: gen_options_def)
  note step = evaluate_loop.simps(2) evals res_bind_Inr apply_options_def id MatchContext_Clear_def Let_def
  show "evaluate_loop cmp o' ps ix (piece_opcode p mo (gen_options IF False) x # rest) ctx ev False
      = (if m = None then evaluate_loop cmp o' ps (Suc ix) rest ctx False True
         else evaluate_loop cmp o' ps (Suc ix) rest (matched_context m ctx) True False)" if "mc_options ctx = 0"
    using that none by (cases m) (simp_all add: step)
  show "evaluate_loop cmp o' ps ix (piece_opcode p mo (gen_options IF True) x # rest) ctx ev False
      = evaluate_loop cmp o' ps (Suc ix) rest MatchContext_Clear (m \<noteq> None) (m = None)"
    by (cases m) (simp_all add: step)
  show "evaluate_loop cmp o' ps ix (piece_opcode p mo (gen_options IF_NOT False) x # rest) ctx ev False
      = evaluate_loop cmp o' ps (Suc ix) rest ((matched_context m ctx)\<lparr>mc_options := kPolUseOREval\<rparr>) (m = None) (m = None)"
    by (cases m) (simp_all add: step)
  show "evaluate_loop cmp o' ps ix (piece_opcode p mo (gen_options IF_NOT True) x # rest) ctx ev False
      = evaluate_loop cmp o' ps (Suc ix) rest MatchContext_Clear (m = None) (m \<noteq> None)"
    by (cases m) (simp_all add: step)
qed

lemma chain_IF:
  assumes "string_param ps p s" and "list_all piece_ok xs" and "mo AND EXACT_LENGHT = 0" and "xs \<noteq> []"
    and "mc_position ctx \<le> length s" and "mc_options ctx = 0"
  shows "if chain (case_equal cmp mo) xs (drop (mc_position ctx) s)
    then evaluate_loop cmp o' ps ix (chain_ops IF p mo xs @ rest) ctx ev False
      = evaluate_loop cmp o' ps (ix + length xs) rest MatchContext_Clear True False
    else \<exists>ctx'. skips_past ctx' \<and> evaluate_loop cmp o' ps ix (chain_ops IF p mo xs @ rest) ctx ev False
      = evaluate_loop cmp o' ps (ix + length xs) rest ctx' False True"
  using assms(2,4-6)
proof (induction xs arbitrary: ctx ix ev)
  case (Cons x xs)
  define m where "m = piece_match (case_equal cmp mo) x (drop (mc_position ctx) s)"
  have x: "piece_ok x" using Cons.prems(1) by simp
  note step = piece_step [OF assms(1) x assms(3) Cons.prems(3) m_def]
  show ?case
  proof (cases xs)
    case Nil
    then have "chain (case_equal cmp mo) (x # xs) (drop (mc_position ctx) s) \<longleftrightarrow> m \<noteq> None"
      by (simp add: m_def split: option.split)
    moreover have "skips_past MatchContext_Clear" by (simp add: skips_past_def MatchContext_Clear_def)
    ultimately show ?thesis using Nil step(2) [of o' ix rest ev] by auto
  next
    case (Cons y ys)
    have ops: "chain_ops IF p mo (x # xs) @ rest = piece_opcode p mo (gen_options IF False) x # (chain_ops IF p mo xs @ rest)"
      using Cons by simp
    show ?thesis
    proof (cases m)
      case None
      have "skips_past ctx" using Cons.prems(4) by (simp add: skips_past_def)
      moreover have "evaluate_loop cmp o' ps ix (chain_ops IF p mo (x # xs) @ rest) ctx ev False
          = evaluate_loop cmp o' ps (ix + length (x # xs)) rest ctx False True"
        unfolding ops step(1) [OF Cons.prems(4)] skip_conditions [OF chain_ops_no_action] using None by simp
      moreover have "\<not> chain (case_equal cmp mo) (x # xs) (drop (mc_position ctx) s)"
        using None by (simp add: m_def)
      ultimately show ?thesis by auto
    next
      case (Some n)
      let ?ctx = "matched_context m ctx"
      have pos: "mc_position ?ctx \<le> length s" by (rule matched_position [OF x Cons.prems(3) m_def])
      have chain: "chain (case_equal cmp mo) (x # xs) (drop (mc_position ctx) s)
          \<longleftrightarrow> chain (case_equal cmp mo) xs (drop (mc_position ?ctx) s)"
        using Some by (simp add: m_def [symmetric] matched_context_def add.commute)
      have step': "evaluate_loop cmp o' ps ix (chain_ops IF p mo (x # xs) @ rest) ctx ev False
          = evaluate_loop cmp o' ps (Suc ix) (chain_ops IF p mo xs @ rest) ?ctx True False"
        unfolding ops step(1) [OF Cons.prems(4)] using Some by simp
      have "list_all piece_ok xs" "xs \<noteq> []" "mc_options ?ctx = 0" using Cons.prems \<open>xs = y # ys\<close> by simp_all
      from Cons.IH [OF this(1,2) pos this(3), of "Suc ix" True] show ?thesis
        unfolding chain step' by (simp only: length_Cons add_Suc_right add_Suc)
    qed
  qed
qed simp

text \<open>A negated pattern: a comparison that fails jumps to the action.\<close>

lemma chain_IF_NOT:
  assumes "string_param ps p s" and "list_all piece_ok xs" and "mo AND EXACT_LENGHT = 0" and "xs \<noteq> []"
    and "mc_position ctx \<le> length s"
  shows "if chain (case_equal cmp mo) xs (drop (mc_position ctx) s)
    then evaluate_loop cmp o' ps ix (chain_ops IF_NOT p mo xs @ rest) ctx ev False
      = evaluate_loop cmp o' ps (ix + length xs) rest MatchContext_Clear False True
    else evaluate_loop cmp o' ps ix (chain_ops IF_NOT p mo xs @ rest) ctx ev False
        = evaluate_loop cmp o' ps (ix + length xs) rest MatchContext_Clear True False
      \<or> length xs > 1 \<and> (\<exists>ctx'. mc_options ctx' = kPolUseOREval
          \<and> evaluate_loop cmp o' ps ix (chain_ops IF_NOT p mo xs @ rest) ctx ev False
              = evaluate_loop cmp o' ps (ix + length xs) rest ctx' True True)"
  using assms(2,4,5)
proof (induction xs arbitrary: ctx ix ev)
  case (Cons x xs)
  define m where "m = piece_match (case_equal cmp mo) x (drop (mc_position ctx) s)"
  have x: "piece_ok x" using Cons.prems(1) by simp
  note step = piece_step [OF assms(1) x assms(3) Cons.prems(3) m_def]
  show ?case
  proof (cases xs)
    case Nil
    then have "chain (case_equal cmp mo) (x # xs) (drop (mc_position ctx) s) \<longleftrightarrow> m \<noteq> None"
      by (simp add: m_def split: option.split)
    then show ?thesis using Nil step(4) [of o' ix rest ev] by auto
  next
    case (Cons y ys)
    let ?ctx = "(matched_context m ctx)\<lparr>mc_options := kPolUseOREval\<rparr>"
    have ops: "chain_ops IF_NOT p mo (x # xs) @ rest
        = piece_opcode p mo (gen_options IF_NOT False) x # (chain_ops IF_NOT p mo xs @ rest)"
      using Cons by simp
    show ?thesis
    proof (cases m)
      case None
      have "evaluate_loop cmp o' ps ix (chain_ops IF_NOT p mo (x # xs) @ rest) ctx ev False
          = evaluate_loop cmp o' ps (ix + length (x # xs)) rest ?ctx True True"
        unfolding ops step(3) using None by (simp add: skip_conditions [OF chain_ops_no_action])
      moreover have "mc_options ?ctx = kPolUseOREval" by simp
      moreover have "length (x # xs) > 1" using Cons by simp
      moreover have "\<not> chain (case_equal cmp mo) (x # xs) (drop (mc_position ctx) s)"
        using None by (simp add: m_def)
      ultimately show ?thesis by (intro if_not_P [THEN iffD2]) (assumption, intro disjI2 conjI exI)
    next
      case (Some n)
      have pos: "mc_position ?ctx \<le> length s" using matched_position [OF x Cons.prems(3) m_def] by simp
      have chain: "chain (case_equal cmp mo) (x # xs) (drop (mc_position ctx) s)
          \<longleftrightarrow> chain (case_equal cmp mo) xs (drop (mc_position ?ctx) s)"
        using Some by (simp add: m_def [symmetric] matched_context_def add.commute)
      have step': "evaluate_loop cmp o' ps ix (chain_ops IF_NOT p mo (x # xs) @ rest) ctx ev False
          = evaluate_loop cmp o' ps (Suc ix) (chain_ops IF_NOT p mo xs @ rest) ?ctx False False"
        unfolding ops step(3) using Some by simp
      have "list_all piece_ok xs" "xs \<noteq> []" using Cons.prems \<open>xs = y # ys\<close> by simp_all
      note ih = Cons.IH [OF this pos, of "Suc ix" False]
      have len: "Suc ix + length xs = ix + length (x # xs)" "length xs > 1 \<Longrightarrow> length (x # xs) > 1"
        by (simp_all only: length_Cons add_Suc_right add_Suc less_SucI)
      show ?thesis using ih len(2) unfolding chain step' len(1) by (auto split: if_splits)
    qed
  qed
qed simp

text \<open>A pattern that compares something holds exactly if the string matches it, negated or not.\<close>

lemma chain_block:
  assumes "string_param ps p s" and "list_all piece_ok xs" and "mo AND EXACT_LENGHT = 0" and "xs \<noteq> []"
    and "rt = IF \<or> length xs = 1"
  shows "block cmp ps (chain_ops rt p mo xs) ((rt = IF) = chain (case_equal cmp mo) xs s)"
proof -
  have clear: "mc_position MatchContext_Clear \<le> length s" "mc_options MatchContext_Clear = 0"
    "drop (mc_position MatchContext_Clear) s = s" "skips_past MatchContext_Clear"
    by (simp_all add: MatchContext_Clear_def skips_past_def)
  have ne: "chain_ops rt p mo xs \<noteq> []" using assms(4) length_chain_ops [of rt p mo xs] by fastforce
  show ?thesis
  proof (cases "chain (case_equal cmp mo) xs s")
    case True
    have "evaluate_loop cmp o' ps ix (chain_ops IF p mo xs @ rest) MatchContext_Clear ev False
        = evaluate_loop cmp o' ps (ix + length xs) rest MatchContext_Clear True False" for o' ix rest ev
      using chain_IF [OF assms(1-4) clear(1,2), of cmp o' ix rest ev] True by (simp add: clear(3))
    moreover have "evaluate_loop cmp o' ps ix (chain_ops IF_NOT p mo xs @ rest) MatchContext_Clear ev False
        = evaluate_loop cmp o' ps (ix + length xs) rest MatchContext_Clear False True" for o' ix rest ev
      using chain_IF_NOT [OF assms(1-4) clear(1), of cmp o' ix rest ev] True by (simp add: clear(3))
    ultimately show ?thesis using ne True clear(4) by (cases rt) (auto simp: block_def chain_ops_no_action)
  next
    case False
    have no: "\<exists>ctx'. skips_past ctx' \<and> evaluate_loop cmp o' ps ix (chain_ops IF p mo xs @ rest) MatchContext_Clear ev False
        = evaluate_loop cmp o' ps (ix + length xs) rest ctx' False True" for o' ix rest ev
      using chain_IF [OF assms(1-4) clear(1,2), of cmp o' ix rest ev] False by (simp add: clear(3))
    show ?thesis
    proof (cases rt)
      case IF
      then show ?thesis using no False by (simp add: block_def chain_ops_no_action)
    next
      case IF_NOT
      then have "\<not> length xs > 1" using assms(5) by auto
      then have "evaluate_loop cmp o' ps ix (chain_ops IF_NOT p mo xs @ rest) MatchContext_Clear ev False
        = evaluate_loop cmp o' ps (ix + length xs) rest MatchContext_Clear True False" for o' ix rest ev
        using chain_IF_NOT [OF assms(1-4) clear(1), of cmp o' ix rest ev] False by (simp add: clear(3))
      then show ?thesis using IF_NOT ne False by (simp add: block_def chain_ops_no_action)
    qed
  qed
qed

lemma chain_last_block:
  assumes "string_param ps p s" and "list_all piece_ok xs" and "mo AND EXACT_LENGHT = 0" and "xs \<noteq> []"
  shows "last_block cmp ps (chain_ops rt p mo xs) ((rt = IF) = chain (case_equal cmp mo) xs s)"
proof (cases "rt = IF \<or> chain (case_equal cmp mo) xs s")
  case IF: True
  have clear: "mc_position MatchContext_Clear \<le> length s" "drop (mc_position MatchContext_Clear) s = s"
    "skips_past MatchContext_Clear"
    by (simp_all add: MatchContext_Clear_def skips_past_def)
  show ?thesis
  proof (cases rt)
    case IF
    then show ?thesis using chain_block [OF assms, of rt] by (intro block_last_block) simp
  next
    case IF_NOT
    then have c: "chain (case_equal cmp mo) xs s" using IF by simp
    have "evaluate_loop cmp o' ps ix (chain_ops IF_NOT p mo xs @ rest) MatchContext_Clear ev False
        = evaluate_loop cmp o' ps (ix + length xs) rest MatchContext_Clear False True" for o' ix rest ev
      using chain_IF_NOT [OF assms clear(1), of cmp o' ix rest ev] c by (simp add: clear(2))
    then show ?thesis using IF_NOT c clear(3) by (auto simp: last_block_def chain_ops_no_action)
  qed
next
  case False
  then have rt: "rt = IF_NOT" and c: "\<not> chain (case_equal cmp mo) xs s" by (cases rt; simp)+
  have ne: "chain_ops rt p mo xs \<noteq> []" using assms(4) length_chain_ops [of rt p mo xs] by fastforce
  have clear: "mc_position MatchContext_Clear \<le> length s" "drop (mc_position MatchContext_Clear) s = s"
    by (simp_all add: MatchContext_Clear_def)
  have "evaluate_loop cmp o' ps ix (chain_ops rt p mo xs @ rest) MatchContext_Clear ev False
        = evaluate_loop cmp o' ps (ix + length xs) rest MatchContext_Clear True False
      \<or> (\<exists>ctx'. mc_options ctx' = kPolUseOREval
          \<and> evaluate_loop cmp o' ps ix (chain_ops rt p mo xs @ rest) MatchContext_Clear ev False
              = evaluate_loop cmp o' ps (ix + length xs) rest ctx' True True)" for o' ix rest ev
    unfolding rt using chain_IF_NOT [OF assms clear(1), of cmp o' ix rest ev] c by (simp only: clear(2) if_False) blast
  then show ?thesis using c ne by (simp add: last_block_def chain_ops_no_action rt)
qed

end
