(* ===== verification/Win_Rule_Correct.thy ===== *)
theory Win_Rule_Correct
  imports Win_Policy_Patterns
begin

text \<open>
  The compilation of a rule is correct: every operation of a \<open>PolicyRule\<close> keeps its buffer well
  formed and appends the opcodes of one condition, and these opcodes decide the condition.
\<close>

subsection \<open>What a rule's buffer holds\<close>

definition rule_end :: nat where
  "rule_end = opcodes_offset + kRuleBufferSize + sizeof_PolicyOpcode"

lemma rule_sizes: "rule_end = 4144" "sizeof_PolicyOpcode = 40" "opcodes_offset = 8"
  by (simp_all add: rule_end_def opcodes_offset_def kRuleBufferSize_def sizeof_PolicyOpcode_def)

text \<open>The opcodes of a rule, one after the other, with their strings above the factory's bottom.\<close>

definition rule_holds :: "policy_rule \<Rightarrow> (policy_opcode \<times> wstring) list \<Rightarrow> bool" where
  "rule_holds r vs \<longleftrightarrow>
     (let f = pr_factory r in
      pr_opcode_count r = length vs
    \<and> memory_top f = rule_opcode_address (length vs)
    \<and> memory_top f \<le> memory_bottom f \<and> memory_bottom f \<le> rule_end \<and> even (memory_bottom f)
    \<and> (\<forall>i < length vs. opcode_stored (pr_memory r) (rule_opcode_address i) (memory_bottom f) rule_end (vs ! i)))"

lemma rule_holds_new: "rule_holds (PolicyRule junk action) []"
  by (simp add: rule_holds_def PolicyRule_def rule_opcode_address_def opcode_address_def rule_sizes kRuleBufferSize_def)

lemma rule_opcode_address_simps: "rule_opcode_address i = 8 + i * 40"
  by (simp add: rule_opcode_address_def opcode_address_def rule_sizes)

text \<open>What one operation of the factory adds to a rule.\<close>

definition rule_step :: "policy_rule \<Rightarrow> bool \<Rightarrow> policy_rule \<Rightarrow> (policy_opcode \<times> wstring) list \<Rightarrow> bool" where
  "rule_step r ok r' vs \<longleftrightarrow>
     (ok \<longrightarrow> rule_holds r' vs) \<and> pr_action r' = pr_action r \<and> pr_done r' = pr_done r"

lemma rule_holds_makes:
  assumes "rule_holds r vs" and "makes (pr_factory r) (pr_memory r) a f' m' v" and "even (memory_bottom f')"
  shows "rule_holds (r\<lparr>pr_factory := f', pr_memory := m', pr_opcode_count := pr_opcode_count r + 1\<rparr>) (vs @ [v])"
proof -
  let ?f = "pr_factory r"
  have mk: "a = memory_top ?f" "memory_top f' = a + 40" "memory_top f' \<le> memory_bottom f'"
    "memory_bottom f' \<le> memory_bottom ?f" "opcode_stored m' a (memory_bottom f') (memory_bottom ?f) v"
    and same: "\<And>x. x < memory_top ?f \<or> memory_bottom ?f \<le> x \<Longrightarrow> m' x = pr_memory r x"
    using assms(2) by (auto simp: makes_def rule_sizes)
  have r: "pr_opcode_count r = length vs" "memory_top ?f = 8 + length vs * 40" "memory_bottom ?f \<le> rule_end"
    "\<And>i. i < length vs \<Longrightarrow> opcode_stored (pr_memory r) (8 + i * 40) (memory_bottom ?f) rule_end (vs ! i)"
    using assms(1) by (auto simp: rule_holds_def Let_def rule_opcode_address_simps)
  have "opcode_stored m' (8 + i * 40) (memory_bottom f') rule_end (vs ! i)" if i: "i < length vs" for i
  proof (rule opcode_stored_mono [OF opcode_stored_same [OF r(4) [OF i]]])
    show "same_bytes (8 + i * 40) sizeof_PolicyOpcode (pr_memory r) m'"
      using i same r(2) by (simp add: same_bytes_def rule_sizes)
    show "same_bytes (memory_bottom ?f) (rule_end - memory_bottom ?f) (pr_memory r) m'"
      using same by (simp add: same_bytes_def)
  qed (use mk(4) in simp_all)
  moreover have "opcode_stored m' (8 + length vs * 40) (memory_bottom f') rule_end v"
    using mk(5) r(2,3) mk(1) by (auto intro: opcode_stored_mono)
  ultimately show ?thesis
    using r mk assms(3) by (auto simp: rule_holds_def Let_def rule_opcode_address_simps nth_append less_Suc_eq)
qed

lemma rule_make_step:
  assumes "rule_holds r vs"
    and "(\<exists>f' m'. mk (pr_factory r) (pr_memory r) = Inr (None, f', m'))
      \<or> (\<exists>f' m'. mk (pr_factory r) (pr_memory r) = Inr (Some (memory_top (pr_factory r)), f', m')
          \<and> even (memory_bottom f') \<and> makes (pr_factory r) (pr_memory r) (memory_top (pr_factory r)) f' m' v)"
  shows "\<exists>ok r'. rule_make mk r = Inr (ok, r') \<and> rule_step r ok r' (vs @ [v])"
  using assms(2)
proof (elim disjE exE conjE)
  fix f' m' assume "mk (pr_factory r) (pr_memory r) = Inr (None, f', m')"
  then have "rule_make mk r = Inr (False, r\<lparr>pr_factory := f', pr_memory := m'\<rparr>)" by (simp add: rule_make_def)
  then show ?thesis by (intro exI conjI) (assumption, simp add: rule_step_def)
next
  fix f' m' assume "mk (pr_factory r) (pr_memory r) = Inr (Some (memory_top (pr_factory r)), f', m')"
    "even (memory_bottom f')" "makes (pr_factory r) (pr_memory r) (memory_top (pr_factory r)) f' m' v"
  then show ?thesis
    using rule_holds_makes [OF assms(1)] by (simp add: rule_make_def rule_step_def exI [of _ True])
qed

text \<open>An opcode without a string leaves the bottom where it was.\<close>

lemma MakeBase_bottom: "MakeBase i options p f m = Inr (opcode, f', m') \<Longrightarrow> memory_bottom f' = memory_bottom f"
  by (auto simp: MakeBase_def SetOptions_def Let_def check_def res_bind_def split: if_splits sum.splits)

lemma then_set_bottom:
  "then_set (MakeBase i options p f m) g = Inr (opcode, f', m') \<Longrightarrow> memory_bottom f' = memory_bottom f"
  using MakeBase_bottom [of i options p f m]
  by (auto simp: then_set_def res_bind_def split: sum.splits option.splits)

lemma rule_done_step:
  assumes "rule_holds r vs"
  shows "\<exists>ok r'. rule_make (MakeOpAction (pr_action r) kPolNone) r = Inr (ok, r')
    \<and> rule_step r ok r' (vs @ [action_opcode (pr_action r)])"
proof (rule rule_make_step [OF assms])
  have "even (memory_bottom f')" if "MakeOpAction act kPolNone (pr_factory r) m = Inr (opcode, f', m')" for act m opcode f' m'
    using that assms then_set_bottom [of OP_ACTION kPolNone 0 "pr_factory r" m]
    by (auto simp: MakeOpAction_def rule_holds_def Let_def)
  then show "(\<exists>f' m'. MakeOpAction (pr_action r) kPolNone (pr_factory r) (pr_memory r) = Inr (None, f', m'))
    \<or> (\<exists>f' m'. MakeOpAction (pr_action r) kPolNone (pr_factory r) (pr_memory r) = Inr (Some (memory_top (pr_factory r)), f', m')
        \<and> even (memory_bottom f')
        \<and> makes (pr_factory r) (pr_memory r) (memory_top (pr_factory r)) f' m' (action_opcode (pr_action r)))"
    using MakeOpAction_makes [of kPolNone "pr_factory r" "pr_action r" "pr_memory r"]
    unfolding action_opcode_def by auto
qed

text \<open>The opcode of a comparison of numbers.\<close>

definition number_options :: "rule_type \<Rightarrow> u32" where
  "number_options rt = (if rt = IF_NOT then kPolNegateEval else kPolNone)"

definition number_opcode :: "rule_type \<Rightarrow> u16 \<Rightarrow> u32 \<Rightarrow> rule_op \<Rightarrow> policy_opcode \<times> wstring" where
  "number_opcode rt p n rop =
     (if rop = EQUAL then (opcode_of OP_NUMBER_MATCH p (number_options rt) [ucast n, ucast UINT32_TYPE, 0, 0], [])
      else (opcode_of OP_NUMBER_AND_MATCH p (number_options rt) [ucast n, 0, 0, 0], []))"

lemma AddNumberMatch_step:
  assumes "rule_holds r vs" and "rop \<noteq> RANGE" and "\<not> pr_done r"
  shows "\<exists>ok r'. AddNumberMatch rt p n rop r = Inr (ok, r') \<and> rule_step r ok r' (vs @ [number_opcode rt p n rop])"
proof -
  let ?f = "pr_factory r" and ?m = "pr_memory r" and ?o = "number_options rt"
  have o: "unat ?o < 65536" by (simp add: number_options_def)
  have "even (memory_bottom f')" if "MakeOpNumberMatch p n ?o ?f m = Inr (opcode, f', m')" for m opcode f' m'
    using that assms(1) then_set_bottom [of OP_NUMBER_MATCH ?o p ?f m]
    by (auto simp: MakeOpNumberMatch_def rule_holds_def Let_def)
  moreover have "even (memory_bottom f')" if "MakeOpNumberAndMatch p n ?o ?f m = Inr (opcode, f', m')" for m opcode f' m'
    using that assms(1) then_set_bottom [of OP_NUMBER_AND_MATCH ?o p ?f m]
    by (auto simp: MakeOpNumberAndMatch_def rule_holds_def Let_def)
  moreover have "\<exists>ok r'. rule_make (MakeOpNumberMatch p n ?o) r = Inr (ok, r') \<and> rule_step r ok r' (vs @ [number_opcode rt p n EQUAL])"
    using MakeOpNumberMatch_makes [OF o, of ?f p n ?m] calculation(1) [of ?m]
    by (intro rule_make_step [OF assms(1)]) (auto simp: number_opcode_def)
  moreover have "\<exists>ok r'. rule_make (MakeOpNumberAndMatch p n ?o) r = Inr (ok, r') \<and> rule_step r ok r' (vs @ [number_opcode rt p n AND_OP])"
    using MakeOpNumberAndMatch_makes [OF o, of ?f p n ?m] calculation(2) [of ?m]
    by (intro rule_make_step [OF assms(1)]) (auto simp: number_opcode_def)
  ultimately show ?thesis
    using assms(2,3) by (cases rop) (simp_all add: AddNumberMatch_def number_options_def)
qed

lemma piece_step_rule:
  assumes "rule_holds r vs" and "f \<noteq> []" and "unat options < 65536"
  shows "\<exists>ok r'. rule_make (MakeOpWStringMatch p (Some f) (kind_start kind) (kind_opts kind mo) options) r = Inr (ok, r')
    \<and> rule_step r ok r' (vs @ [piece_opcode p mo options (kind, f)])"
proof (rule rule_make_step [OF assms(1)])
  have b: "memory_bottom (pr_factory r) < 2 ^ 31" "even (memory_bottom (pr_factory r))"
    using assms(1) by (auto simp: rule_holds_def Let_def rule_sizes)
  show "(\<exists>f' m'. MakeOpWStringMatch p (Some f) (kind_start kind) (kind_opts kind mo) options (pr_factory r) (pr_memory r) = Inr (None, f', m'))
    \<or> (\<exists>f' m'. MakeOpWStringMatch p (Some f) (kind_start kind) (kind_opts kind mo) options (pr_factory r) (pr_memory r)
          = Inr (Some (memory_top (pr_factory r)), f', m')
        \<and> even (memory_bottom f')
        \<and> makes (pr_factory r) (pr_memory r) (memory_top (pr_factory r)) f' m' (piece_opcode p mo options (kind, f)))"
    using MakeOpWStringMatch_makes [OF assms(3,2) b] by (simp add: piece_opcode_def)
qed

text \<open>Changing the options of an opcode.\<close>

definition with_options :: "u32 \<Rightarrow> policy_opcode \<times> wstring \<Rightarrow> policy_opcode \<times> wstring" where
  "with_options options v = ((fst v)\<lparr>op_options := ucast options\<rparr>, snd v)"

lemma opcode_stored_options:
  assumes "opcode_stored m a lo hi v" and "a + sizeof_PolicyOpcode \<le> lo"
  shows "opcode_stored (store_opcode a ((load_opcode m a)\<lparr>op_options := ucast options\<rparr>) m) a lo hi (with_options options v)"
proof -
  let ?op = "load_opcode m a" and ?op' = "(load_opcode m a)\<lparr>op_options := ucast options\<rparr>"
  let ?m = "store_opcode a ?op' m"
  have v: "opcode_view m a = v" "valid_opcode ?op" using assms(1) by (simp_all add: opcode_stored_def)
  have valid: "valid_opcode ?op'" using v(2) by (simp add: valid_opcode_def)
  have load: "load_opcode ?m a = ?op'" by (rule load_store_opcode [OF valid])
  have arg: "GetArgument i ?op' = GetArgument i ?op" for i by (simp add: GetArgument_def)
  have rel: "GetRelativeString i a ?op' = GetRelativeString i a ?op" for i by (simp add: GetRelativeString_def arg)
  have "match_string ?m a = match_string m a" if w: "op_id ?op = OP_WSTRING_MATCH"
  proof -
    have "same_bytes (GetRelativeString 0 a ?op) (2 * length (snd v)) m ?m"
      using assms w by (intro same_bytes_store_opcode [OF valid]) (auto simp: opcode_stored_def)
    from load_same [OF this] show ?thesis
      using assms(1) w by (simp add: match_string_def load Let_def load_wstring_def arg rel opcode_stored_def)
  qed
  then have "opcode_view ?m a = with_options options v"
    unfolding v(1) [symmetric] opcode_view_def load Let_def with_options_def by auto
  then show ?thesis
    using assms(1) valid by (simp add: opcode_stored_def load arg rel with_options_def)
qed

lemma rule_holds_options:
  assumes "rule_holds r (vs @ [v])" and "a = rule_opcode_address (length vs)"
  shows "rule_holds (r\<lparr>pr_memory := store_opcode a ((load_opcode (pr_memory r) a)\<lparr>op_options := ucast options\<rparr>) (pr_memory r)\<rparr>)
    (vs @ [with_options options v])"
proof -
  let ?f = "pr_factory r" and ?m = "pr_memory r"
  let ?op' = "(load_opcode ?m a)\<lparr>op_options := ucast options\<rparr>"
  let ?m' = "store_opcode a ?op' ?m"
  have a: "a = 8 + length vs * 40" using assms(2) by (simp add: rule_opcode_address_simps)
  have r: "pr_opcode_count r = length vs + 1" "memory_top ?f = 8 + (length vs + 1) * 40" "memory_top ?f \<le> memory_bottom ?f"
    "memory_bottom ?f \<le> rule_end" "even (memory_bottom ?f)"
    "\<And>i. i < length vs + 1 \<Longrightarrow> opcode_stored ?m (8 + i * 40) (memory_bottom ?f) rule_end ((vs @ [v]) ! i)"
    using assms(1) by (auto simp: rule_holds_def Let_def rule_opcode_address_simps)
  have last: "opcode_stored ?m a (memory_bottom ?f) rule_end v" using r(6) [of "length vs"] by (simp add: a)
  then have valid: "valid_opcode ?op'" by (simp add: opcode_stored_def valid_opcode_def)
  have "opcode_stored ?m' (8 + i * 40) (memory_bottom ?f) rule_end (vs ! i)" if i: "i < length vs" for i
  proof (rule opcode_stored_same)
    show "opcode_stored ?m (8 + i * 40) (memory_bottom ?f) rule_end (vs ! i)"
      using r(6) [of i] i by (simp add: nth_append)
    show "same_bytes (8 + i * 40) sizeof_PolicyOpcode ?m ?m'"
      by (rule same_bytes_store_opcode [OF valid]) (use i in \<open>simp add: a rule_sizes\<close>)
    show "same_bytes (memory_bottom ?f) (rule_end - memory_bottom ?f) ?m ?m'"
      by (rule same_bytes_store_opcode [OF valid]) (use r(2,3) in \<open>simp add: a rule_sizes\<close>)
  qed
  moreover have "opcode_stored ?m' a (memory_bottom ?f) rule_end (with_options options v)"
    by (rule opcode_stored_options [OF last]) (use r(2,3) in \<open>simp add: a rule_sizes\<close>)
  ultimately show ?thesis
    using r by (auto simp: rule_holds_def Let_def rule_opcode_address_simps nth_append less_Suc_eq a)
qed

subsection \<open>Compiling a pattern\<close>

lemma chain_ops_snoc:
  "chain_ops rt p mo (xs @ [x]) = map (piece_opcode p mo (gen_options rt False)) xs @ [piece_opcode p mo (gen_options rt True) x]"
  by (induction xs rule: induct_list012) simp_all

lemma with_options_piece [simp]: "with_options o' (piece_opcode p mo options x) = piece_opcode p mo o' x"
  by (simp add: with_options_def piece_opcode_def opcode_of_def)

text \<open>The comparisons that are still to come for the rest of a pattern.\<close>

fun pending_kinds :: "pending \<Rightarrow> wstring list \<Rightarrow> (match_kind \<times> wstring) list" where
  "pending_kinds PENDING_NONE fs = kinds fs"
| "pending_kinds _ fs = rest_kinds fs"

definition mid_ops :: "rule_type \<Rightarrow> u16 \<Rightarrow> u32 \<Rightarrow> (match_kind \<times> wstring) list \<Rightarrow> (policy_opcode \<times> wstring) list" where
  "mid_ops rt p mo xs = map (piece_opcode p mo (gen_options rt False)) xs"

lemma gen_options_small: "unat (gen_options rt l) < 65536"
  by (cases rt; cases l; simp add: gen_options_def)

text \<open>A piece in front of a star.\<close>

lemma gen_mid:
  assumes "rule_holds r (vs @ mid_ops rt p mo xs)" and "state \<noteq> PENDING_QMARK"
  shows "\<exists>ok r'. GenStringOpcode rt mo p state False (r, sc, f) = Inr (ok, r', sc, if ok then [] else f)
    \<and> rule_step r ok r' (vs @ mid_ops rt p mo (xs @
        (if f = [] then [] else [(if state = PENDING_NONE then Prefix else Forward, f)])))"
proof (cases "f = []")
  case True
  then show ?thesis using assms(1) by (auto simp: GenStringOpcode_def rule_step_def intro: exI [of _ True])
next
  case False
  define kind where "kind = (if state = PENDING_NONE then Prefix else Forward)"
  obtain ok r' where "rule_make (MakeOpWStringMatch p (Some f) (kind_start kind) (kind_opts kind mo) (gen_options rt False)) r = Inr (ok, r')"
    "rule_step r ok r' ((vs @ mid_ops rt p mo xs) @ [piece_opcode p mo (gen_options rt False) (kind, f)])"
    using piece_step_rule [OF assms(1) False gen_options_small] by blast
  then show ?thesis
    using False assms(2) by (cases state) (auto simp: GenStringOpcode_def kind_def kind_opts_def mid_ops_def)
qed

text \<open>The end of the pattern.\<close>

lemma gen_last:
  assumes "rule_holds r (vs @ mid_ops rt p mo xs)" and "state \<noteq> PENDING_QMARK"
    and "xs @ pending_kinds state [f] \<noteq> []"
  shows "\<exists>ok r' f'. GenStringOpcode rt mo p state True (r, sc, f) = Inr (ok, r', sc, f')
    \<and> rule_step r ok r' (vs @ chain_ops rt p mo (xs @ pending_kinds state [f]))"
proof (cases "f = []")
  case True
  then have "xs \<noteq> []" and no: "pending_kinds state [f] = []" using assms(3) by (cases state; simp)+
  then obtain ys y where xs: "xs = ys @ [y]" by (metis append_butlast_last_id)
  let ?vs = "vs @ mid_ops rt p mo ys"
  have holds: "rule_holds r (?vs @ [piece_opcode p mo (gen_options rt False) y])"
    using assms(1) by (simp add: xs mid_ops_def)
  then have count: "pr_opcode_count r = length ?vs + 1" by (simp add: rule_holds_def Let_def)
  note step = rule_holds_options [OF holds refl, of "gen_options rt True", unfolded with_options_piece]
  have "chain_ops rt p mo (xs @ pending_kinds state [f]) = mid_ops rt p mo ys @ [piece_opcode p mo (gen_options rt True) y]"
    by (simp add: no xs chain_ops_snoc mid_ops_def)
  then show ?thesis
    using True step count gen_options_small [of rt True]
    by (auto simp: GenStringOpcode_def SetOptions_def rule_step_def Let_def intro!: exI [of _ True])
next
  case False
  define kind where "kind = (if state = PENDING_NONE then Whole else ToEnd)"
  have k: "pending_kinds state [f] = [(kind, f)]" using False by (cases state) (simp_all add: kind_def)
  obtain ok r' where "rule_make (MakeOpWStringMatch p (Some f) (kind_start kind) (kind_opts kind mo) (gen_options rt True)) r = Inr (ok, r')"
    "rule_step r ok r' ((vs @ mid_ops rt p mo xs) @ [piece_opcode p mo (gen_options rt True) (kind, f)])"
    using piece_step_rule [OF assms(1) False gen_options_small] by blast
  then show ?thesis
    using False assms(2) unfolding k
    by (cases state) (auto simp: GenStringOpcode_def kind_def kind_opts_def mid_ops_def chain_ops_snoc)
qed

lemma pieces_Cons: "\<exists>p ps. pieces acc cs = p # ps"
  by (induction acc cs rule: pieces.induct) auto

lemma pending_kinds_star:
  assumes "state \<noteq> PENDING_QMARK"
  shows "pending_kinds state (f # pieces [] cs)
    = (if f = [] then [] else [(if state = PENDING_NONE then Prefix else Forward, f)])
      @ pending_kinds PENDING_ASTERISK (pieces [] cs)"
proof -
  obtain p ps where "pieces [] cs = p # ps" using pieces_Cons by blast
  with assms show ?thesis by (cases state) simp_all
qed

lemma string_match_loop_plain:
  assumes "rule_holds r (vs @ mid_ops rt p mo xs)" and "state \<noteq> PENDING_QMARK" and "plain_pattern cs"
  shows "\<exists>ok state' r' sc' f'. string_match_loop rt mo p cs lc state (r, sc, f) = Inr (ok, state', r', sc', f')
    \<and> pr_action r' = pr_action r \<and> pr_done r' = pr_done r
    \<and> (ok \<longrightarrow> state' \<noteq> PENDING_QMARK
        \<and> (\<exists>xs'. rule_holds r' (vs @ mid_ops rt p mo xs')
            \<and> xs' @ pending_kinds state' [f'] = xs @ pending_kinds state (pieces f cs)))"
  using assms
proof (induction cs arbitrary: r xs lc state f rule: length_induct)
  case (1 cs)
  show ?case
  proof (cases cs)
    case Nil
    then show ?thesis using 1(2,3) by auto
  next
    case (Cons c ds)
    have plain: "plain_pattern (c # ds)" using 1(4) Cons by simp
    show ?thesis
    proof (cases "c = ASTERISK")
      case star: True
      show ?thesis
      proof (cases "kLastCharIsWild AND lc \<noteq> 0")
        case True
        then show ?thesis by (simp add: Cons star exI [of _ False])
      next
        case False
        obtain ok r' where g: "GenStringOpcode rt mo p state False (r, sc, f) = Inr (ok, r', sc, if ok then [] else f)"
          and step: "rule_step r ok r' (vs @ mid_ops rt p mo (xs @
             (if f = [] then [] else [(if state = PENDING_NONE then Prefix else Forward, f)])))" (is "rule_step _ _ _ (_ @ mid_ops _ _ _ ?xs)")
          using gen_mid [OF 1(2,3), of sc f] by blast
        show ?thesis
        proof (cases ok)
          case False
          then show ?thesis using g step \<open>\<not> kLastCharIsWild AND lc \<noteq> 0\<close>
            by (simp add: Cons star rule_step_def exI [of _ False])
        next
          case ok: True
          have run: "string_match_loop rt mo p cs lc state (r, sc, f)
              = string_match_loop rt mo p ds kLastCharIsAsterisk PENDING_ASTERISK (r', sc, [])"
            using g ok False by (simp add: Cons star)
          have "plain_pattern ds" using plain star by simp
          moreover have "rule_holds r' (vs @ mid_ops rt p mo ?xs)" using step ok by (simp add: rule_step_def)
          moreover have "length ds < length cs" by (simp add: Cons)
          ultimately have ih: "\<exists>ok state' r'' sc' f'. string_match_loop rt mo p ds kLastCharIsAsterisk PENDING_ASTERISK (r', sc, []) = Inr (ok, state', r'', sc', f')
            \<and> pr_action r'' = pr_action r' \<and> pr_done r'' = pr_done r'
            \<and> (ok \<longrightarrow> state' \<noteq> PENDING_QMARK
                \<and> (\<exists>xs'. rule_holds r'' (vs @ mid_ops rt p mo xs')
                    \<and> xs' @ pending_kinds state' [f'] = ?xs @ pending_kinds PENDING_ASTERISK (pieces [] ds)))"
            using 1(1) by blast
          have same: "pr_action r' = pr_action r" "pr_done r' = pr_done r" using step by (simp_all add: rule_step_def)
          have "?xs @ pending_kinds PENDING_ASTERISK (pieces [] ds) = xs @ pending_kinds state (pieces f cs)"
            using pending_kinds_star [OF 1(3), of f ds] by (simp add: Cons star)
          with ih show ?thesis unfolding run same by simp
        qed
      qed
    next
      case False
      define e where "e = (c = SLASH \<and> ds \<noteq> [] \<and> hd ds = QUESTION)"
      define rest where "rest = (if e then tl ds else ds)"
      define ch where "ch = (if e then QUESTION else c)"
      have q: "c \<noteq> QUESTION" and r: "plain_pattern rest" using plain by (simp_all add: rest_def e_def)
      have run: "string_match_loop rt mo p cs lc state (r, sc, f)
          = string_match_loop rt mo p rest kLastCharIsAlpha state (r, sc, f @ [ch])"
        using False q by (simp add: Cons rest_def ch_def e_def Let_def)
      have pieces: "pieces f cs = pieces (f @ [ch]) rest"
        using False by (simp add: Cons rest_def ch_def e_def Let_def)
      have "length rest < length cs" by (cases ds) (simp_all add: Cons rest_def)
      then show ?thesis unfolding run pieces using 1 r by blast
    qed
  qed
qed

lemma AddStringMatch_step:
  assumes "rule_holds r vs" and "plain_pattern pat" and "kinds (pieces [] pat) \<noteq> []" and "\<not> pr_done r"
  shows "\<exists>ok r'. AddStringMatch rt p pat mo r = Inr (ok, r')
    \<and> rule_step r ok r' (vs @ chain_ops rt p mo (kinds (pieces [] pat)))"
proof -
  have "rule_holds r (vs @ mid_ops rt p mo [])" using assms(1) by (simp add: mid_ops_def)
  from string_match_loop_plain [OF this _ assms(2), of PENDING_NONE kLastCharIsNone 0 "[]"]
  obtain ok state' r' sc' f' where run: "string_match_loop rt mo p pat kLastCharIsNone PENDING_NONE (r, 0, []) = Inr (ok, state', r', sc', f')"
    and same: "pr_action r' = pr_action r" "pr_done r' = pr_done r"
    and ok: "ok \<longrightarrow> state' \<noteq> PENDING_QMARK \<and> (\<exists>xs'. rule_holds r' (vs @ mid_ops rt p mo xs')
      \<and> xs' @ pending_kinds state' [f'] = kinds (pieces [] pat))"
    by (simp only: append_Nil pending_kinds.simps simp_thms pending.distinct) blast
  show ?thesis
  proof (cases ok)
    case False
    then show ?thesis using run same assms(4) by (simp add: AddStringMatch_def rule_step_def exI [of _ False])
  next
    case True
    with ok obtain xs' where xs: "state' \<noteq> PENDING_QMARK" "rule_holds r' (vs @ mid_ops rt p mo xs')"
      "xs' @ pending_kinds state' [f'] = kinds (pieces [] pat)" by blast
    obtain ok' r'' f'' where g: "GenStringOpcode rt mo p state' True (r', sc', f') = Inr (ok', r'', sc', f'')"
      "rule_step r' ok' r'' (vs @ chain_ops rt p mo (kinds (pieces [] pat)))"
      using gen_last [OF xs(2,1)] xs(3) assms(3) by metis
    then show ?thesis using run True same assms(4) by (simp add: AddStringMatch_def rule_step_def)
  qed
qed

subsection \<open>Conditions and what they mean\<close>

text \<open>A condition of a rule: a call of \<open>AddStringMatch\<close> or of \<open>AddNumberMatch\<close>.\<close>

datatype condition =
    StringMatch rule_type u16 wstring u32
  | NumberMatch rule_type u16 u32 rule_op

fun add_condition :: "condition \<Rightarrow> policy_rule \<Rightarrow> abort + (bool \<times> policy_rule)" where
  "add_condition (StringMatch rt p pat mo) r = AddStringMatch rt p pat mo r"
| "add_condition (NumberMatch rt p n rop) r = AddNumberMatch rt p n rop r"

fun add_conditions :: "condition list \<Rightarrow> policy_rule \<Rightarrow> abort + (bool \<times> policy_rule)" where
  "add_conditions [] r = Inr (True, r)"
| "add_conditions (c # cs) r =
     res_bind (add_condition c r) (\<lambda>(ok, r). if ok then add_conditions cs r else Inr (False, r))"

fun param_of :: "parameter list \<Rightarrow> u16 \<Rightarrow> parameter option" where
  "param_of params p = (if 0 \<le> sint p \<and> nat (sint p) < length params then Some (params ! nat (sint p)) else None)"

fun number_holds :: "parameter \<Rightarrow> u32 \<Rightarrow> rule_op \<Rightarrow> bool" where
  "number_holds (Uint32Param v) n rop \<longleftrightarrow> (if rop = EQUAL then v = n else v AND n \<noteq> 0)"
| "number_holds (VoidPtrParam v) n rop \<longleftrightarrow> rop = EQUAL \<and> v = ucast n"
| "number_holds _ n rop \<longleftrightarrow> False"

text \<open>The reference meaning of a condition for the parameters of a call.\<close>

fun condition_holds :: "wcompare \<Rightarrow> parameter list \<Rightarrow> condition \<Rightarrow> bool" where
  "condition_holds cmp params (StringMatch rt p pat mo) \<longleftrightarrow>
     (case param_of params p of
        Some (WcharParam (Some s)) \<Rightarrow> (rt = IF) = glob (case_equal cmp mo) (pieces [] pat) s
      | _ \<Rightarrow> False)"
| "condition_holds cmp params (NumberMatch rt p n rop) \<longleftrightarrow>
     (case param_of params p of
        Some v \<Rightarrow> (rt = IF) = number_holds v n rop
      | None \<Rightarrow> False)"

text \<open>Conditions that are compiled faithfully, and the parameters they need.\<close>

fun condition_ok :: "condition \<Rightarrow> bool" where
  "condition_ok (StringMatch rt p pat mo) \<longleftrightarrow>
     plain_pattern pat \<and> kinds (pieces [] pat) \<noteq> [] \<and> mo AND EXACT_LENGHT = 0"
| "condition_ok (NumberMatch rt p n rop) \<longleftrightarrow> rop \<noteq> RANGE"

fun params_ok :: "parameter list \<Rightarrow> condition \<Rightarrow> bool" where
  "params_ok params (StringMatch rt p pat mo) \<longleftrightarrow>
     (case param_of params p of Some (WcharParam (Some s)) \<Rightarrow> True | _ \<Rightarrow> False)"
| "params_ok params (NumberMatch rt p n rop) \<longleftrightarrow>
     (case param_of params p of Some (Uint32Param v) \<Rightarrow> True | Some (VoidPtrParam v) \<Rightarrow> rop = EQUAL | _ \<Rightarrow> False)"

text \<open>A negated pattern with several pieces has to be the last condition.\<close>

fun one_piece :: "condition \<Rightarrow> bool" where
  "one_piece (StringMatch rt p pat mo) \<longleftrightarrow> rt = IF \<or> length (kinds (pieces [] pat)) = 1"
| "one_piece (NumberMatch rt p n rop) \<longleftrightarrow> True"

fun condition_ops :: "condition \<Rightarrow> (policy_opcode \<times> wstring) list" where
  "condition_ops (StringMatch rt p pat mo) = chain_ops rt p mo (kinds (pieces [] pat))"
| "condition_ops (NumberMatch rt p n rop) = [number_opcode rt p n rop]"

definition rule_ops :: "condition list \<Rightarrow> eval_result \<Rightarrow> (policy_opcode \<times> wstring) list" where
  "rule_ops cs action = concat (map condition_ops cs) @ [action_opcode action]"

definition rule_group_of :: "wcompare \<Rightarrow> parameter list \<Rightarrow> condition list \<times> eval_result \<Rightarrow> rule_group" where
  "rule_group_of cmp params cr = (map (\<lambda>c. (condition_ops c, condition_holds cmp params c)) (fst cr), snd cr)"

lemma group_opcodes_rule: "group_opcodes (rule_group_of cmp params cr) = rule_ops (fst cr) (snd cr)"
  by (simp add: group_opcodes_def rule_group_of_def rule_ops_def comp_def)

lemma group_holds_rule: "group_holds (rule_group_of cmp params cr) = list_all (condition_holds cmp params) (fst cr)"
  by (simp add: group_holds_def rule_group_of_def list_all_iff)

subsection \<open>Rules are compiled to their opcodes\<close>

lemma add_condition_step:
  assumes "rule_holds r vs" and "condition_ok c" and "\<not> pr_done r"
  shows "\<exists>ok r'. add_condition c r = Inr (ok, r') \<and> rule_step r ok r' (vs @ condition_ops c)"
  using assms AddStringMatch_step AddNumberMatch_step by (cases c) simp_all

lemma add_conditions_step:
  assumes "rule_holds r vs" and "list_all condition_ok cs" and "\<not> pr_done r"
  shows "\<exists>ok r'. add_conditions cs r = Inr (ok, r') \<and> rule_step r ok r' (vs @ concat (map condition_ops cs))"
  using assms
proof (induction cs arbitrary: r vs)
  case Nil
  then show ?case by (simp add: rule_step_def exI [of _ True])
next
  case (Cons c cs)
  then have c: "condition_ok c" and cs: "list_all condition_ok cs" by simp_all
  obtain ok r1 where s: "add_condition c r = Inr (ok, r1)" "rule_step r ok r1 (vs @ condition_ops c)"
    using add_condition_step [OF Cons.prems(1) c Cons.prems(3)] by blast
  show ?case
  proof (cases ok)
    case False
    then show ?thesis using s by (simp add: rule_step_def exI [of _ False])
  next
    case True
    then have "rule_holds r1 (vs @ condition_ops c)" "\<not> pr_done r1"
      using s(2) Cons.prems(3) by (simp_all add: rule_step_def)
    from Cons.IH [OF this(1) cs this(2)] s True show ?thesis by (auto simp: rule_step_def)
  qed
qed

lemma rule_Done_step:
  assumes "rule_holds r vs" and "\<not> pr_done r"
  shows "\<exists>ok r'. rule_Done r = Inr (ok, r') \<and> (ok \<longrightarrow> rule_holds r' (vs @ [action_opcode (pr_action r)]) \<and> pr_done r')"
proof -
  obtain ok r' where "rule_make (MakeOpAction (pr_action r) kPolNone) r = Inr (ok, r')"
    "rule_step r ok r' (vs @ [action_opcode (pr_action r)])"
    using rule_done_step [OF assms(1)] by blast
  then show ?thesis
    using assms(2) by (cases ok) (auto simp: rule_Done_def rule_step_def rule_holds_def Let_def)
qed

subsection \<open>Every condition is a block\<close>

lemma number_Evaluate:
  assumes "param_of params p = Some v" and "params_ok params (NumberMatch rt p n rop)" and "rop \<noteq> RANGE"
  shows "opcode_Evaluate cmp (number_opcode rt p n rop) (Some params) (Some ctx)
    = Inr (if (rt = IF) = number_holds v n rop then EVAL_TRUE else EVAL_FALSE, Some ctx)"
proof -
  have p: "0 \<le> sint p" "nat (sint p) < length params" "params ! nat (sint p) = v"
    using assms(1) by (auto split: if_splits)
  have arg: "GetArgument 0 (opcode_of i q o' [ucast n, b, c, d]) = n"
    "GetArgument 0 (opcode_of i q o' [ucast n, b, c, d]) = (ucast n :: u64)" for i q o' b c d
    by (simp_all add: GetArgument_def)
  show ?thesis
    using assms p
    by (cases rop; cases v; cases rt)
      (auto simp: opcode_Evaluate_def number_opcode_def EvaluateHelper_def with_param_def eval_number_match_def
        eval_number_and_match_def arg number_options_def apply_options_def and.commute)
qed

lemma number_block:
  assumes "params_ok params (NumberMatch rt p n rop)" and "rop \<noteq> RANGE"
  shows "block cmp (Some params) (condition_ops (NumberMatch rt p n rop)) (condition_holds cmp params (NumberMatch rt p n rop))"
proof -
  obtain v where v: "param_of params p = Some v"
    using assms(1) unfolding params_ok.simps by (cases "param_of params p") auto
  have holds: "condition_holds cmp params (NumberMatch rt p n rop) \<longleftrightarrow> (rt = IF) = number_holds v n rop"
    unfolding condition_holds.simps v option.case ..
  have step: "evaluate_loop cmp o' (Some params) ix (number_opcode rt p n rop # rest) MatchContext_Clear ev False
      = evaluate_loop cmp o' (Some params) (Suc ix) rest MatchContext_Clear
          (condition_holds cmp params (NumberMatch rt p n rop)) (\<not> condition_holds cmp params (NumberMatch rt p n rop))"
    for o' ix rest ev
    unfolding holds
    by (cases "(rt = IF) = number_holds v n rop")
      (simp_all add: evaluate_loop.simps(2) number_Evaluate [OF v assms] MatchContext_Clear_def)
  have "skips_past MatchContext_Clear" by (simp add: skips_past_def MatchContext_Clear_def)
  moreover have "\<not> IsAction (fst (number_opcode rt p n rop))" by (simp add: IsAction_def number_opcode_def)
  ultimately show ?thesis
    by (cases "condition_holds cmp params (NumberMatch rt p n rop)")
      (auto simp: block_def step simp del: condition_holds.simps)
qed

lemma kinds_nonempty: "x \<in> set (rest_kinds fs) \<Longrightarrow> snd x \<noteq> []" "x \<in> set (kinds fs) \<Longrightarrow> snd x \<noteq> []"
proof -
  show rest: "snd x \<noteq> []" if "x \<in> set (rest_kinds fs)" for x fs
    using that by (induction fs rule: rest_kinds.induct) (auto split: if_splits)
  show "x \<in> set (kinds fs) \<Longrightarrow> snd x \<noteq> []"
    by (cases fs rule: kinds.cases) (auto split: if_splits dest: rest)
qed

lemma chain_ops_strings: "map snd (chain_ops rt p mo xs) = map snd xs"
  by (induction rt p mo xs rule: chain_ops.induct) (simp_all add: piece_opcode_def)

lemma condition_string:
  assumes "condition_ok (StringMatch rt p pat mo)" and "params_ok params (StringMatch rt p pat mo)"
    and "\<forall>v \<in> set (condition_ops (StringMatch rt p pat mo)). length (snd v) \<le> kMaxUniStrSize"
  shows "\<exists>s. string_param (Some params) p s \<and> list_all piece_ok (kinds (pieces [] pat))
    \<and> condition_holds cmp params (StringMatch rt p pat mo) = ((rt = IF) = chain (case_equal cmp mo) (kinds (pieces [] pat)) s)"
proof -
  obtain s where s: "param_of params p = Some (WcharParam (Some s))"
    using assms(2) by (auto simp del: param_of.simps split: option.splits parameter.splits)
  have "piece_ok x" if x: "x \<in> set (kinds (pieces [] pat))" for x
  proof -
    have "snd x \<in> set (map snd (chain_ops rt p mo (kinds (pieces [] pat))))" using x by (simp only: chain_ops_strings set_map) (rule imageI)
    then obtain v where "v \<in> set (condition_ops (StringMatch rt p pat mo))" "snd v = snd x"
      unfolding condition_ops.simps by auto
    then show ?thesis using assms(3) kinds_nonempty(2) [OF x] by (auto simp: piece_ok_def simp del: condition_ops.simps)
  qed
  then have "list_all piece_ok (kinds (pieces [] pat))" by (simp add: list_all_iff)
  moreover have "string_param (Some params) p s" using s by (auto simp: string_param_def split: if_splits)
  moreover have "pieces [] pat \<noteq> []" using pieces_Cons [of "[]" pat] by auto
  ultimately show ?thesis
    using s assms(1) chain_kinds [of "pieces [] pat" "case_equal cmp mo" s] by (auto simp del: param_of.simps)
qed

lemma condition_last_block:
  assumes "condition_ok c" and "params_ok params c" and "\<forall>v \<in> set (condition_ops c). length (snd v) \<le> kMaxUniStrSize"
  shows "last_block cmp (Some params) (condition_ops c) (condition_holds cmp params c)"
proof (cases c)
  case (StringMatch rt p pat mo)
  from condition_string [OF assms(1-3) [unfolded StringMatch]] obtain s where
    s: "string_param (Some params) p s" "list_all piece_ok (kinds (pieces [] pat))"
      "condition_holds cmp params (StringMatch rt p pat mo) = ((rt = IF) = chain (case_equal cmp mo) (kinds (pieces [] pat)) s)"
    by blast
  have c: "mo AND EXACT_LENGHT = 0" "kinds (pieces [] pat) \<noteq> []" using assms(1) StringMatch by simp_all
  show ?thesis unfolding StringMatch s(3) condition_ops.simps by (rule chain_last_block [OF s(1,2) c])
next
  case (NumberMatch rt p n rop)
  then show ?thesis using number_block [of params rt p n rop cmp] assms(1,2) by (intro block_last_block) simp
qed

lemma condition_block:
  assumes "condition_ok c" and "params_ok params c" and "\<forall>v \<in> set (condition_ops c). length (snd v) \<le> kMaxUniStrSize"
    and "one_piece c"
  shows "block cmp (Some params) (condition_ops c) (condition_holds cmp params c)"
proof (cases c)
  case (StringMatch rt p pat mo)
  from condition_string [OF assms(1-3) [unfolded StringMatch]] obtain s where
    s: "string_param (Some params) p s" "list_all piece_ok (kinds (pieces [] pat))"
      "condition_holds cmp params (StringMatch rt p pat mo) = ((rt = IF) = chain (case_equal cmp mo) (kinds (pieces [] pat)) s)"
    by blast
  have c: "mo AND EXACT_LENGHT = 0" "kinds (pieces [] pat) \<noteq> []" using assms(1) StringMatch by simp_all
  have one: "rt = IF \<or> length (kinds (pieces [] pat)) = 1" using assms(4) StringMatch by simp
  show ?thesis unfolding StringMatch s(3) condition_ops.simps by (rule chain_block [OF s(1,2) c one])
next
  case (NumberMatch rt p n rop)
  then show ?thesis using number_block [of params rt p n rop cmp] assms(1,2) by simp
qed

text \<open>What was compiled is not longer than the system's strings.\<close>

lemma rule_holds_short:
  assumes "rule_holds r vs" and "v \<in> set vs" and "op_id (fst v) = OP_WSTRING_MATCH"
  shows "length (snd v) \<le> kMaxUniStrSize"
proof -
  obtain i where i: "i < length vs" "v = vs ! i" using assms(2) by (auto simp: in_set_conv_nth)
  then have s: "opcode_stored (pr_memory r) (rule_opcode_address i) (memory_bottom (pr_factory r)) rule_end v"
    using assms(1) by (simp add: rule_holds_def Let_def)
  then have "op_id (load_opcode (pr_memory r) (rule_opcode_address i)) = OP_WSTRING_MATCH"
    using assms(3) by (auto simp: opcode_stored_def)
  then have "2 * length (snd v) \<le> rule_end" using s by (auto simp: opcode_stored_def)
  then show ?thesis by (simp add: rule_sizes kMaxUniStrSize_def)
qed

definition rule_ok :: "condition list \<Rightarrow> bool" where
  "rule_ok cs \<longleftrightarrow> list_all condition_ok cs \<and> list_all one_piece (butlast cs)"

lemma rule_group_ok:
  assumes "rule_holds r (rule_ops cs action)" and "rule_ok cs" and "list_all (params_ok params) cs" and "is_action action"
  shows "group_ok cmp (Some params) (rule_group_of cmp params (cs, action))"
proof -
  have len: "\<forall>v \<in> set (condition_ops c). length (snd v) \<le> kMaxUniStrSize" if "c \<in> set cs" for c
  proof
    fix v assume v: "v \<in> set (condition_ops c)"
    then have "v \<in> set (rule_ops cs action)" using that by (auto simp: rule_ops_def)
    then show "length (snd v) \<le> kMaxUniStrSize"
    proof (cases "op_id (fst v) = OP_WSTRING_MATCH")
      case False
      have "op_id (fst v) = OP_WSTRING_MATCH" if "c = StringMatch rt p pat mo" for rt p pat mo
      proof -
        have "\<forall>v \<in> set (chain_ops rt p mo xs). op_id (fst v) = OP_WSTRING_MATCH" for xs
          by (induction rt p mo xs rule: chain_ops.induct) (simp_all add: piece_opcode_def)
        then show ?thesis using v that by simp
      qed
      with False v show ?thesis by (cases c) (auto simp: number_opcode_def)
    qed (use assms(1) rule_holds_short in blast)
  qed
  have ok: "condition_ok c" "params_ok params c" if "c \<in> set cs" for c
    using assms(2,3) that by (auto simp: rule_ok_def list_all_iff)
  have "block cmp (Some params) (condition_ops c) (condition_holds cmp params c)" if c: "c \<in> set (butlast cs)" for c
  proof (rule condition_block)
    have "c \<in> set cs" by (rule in_set_butlastD [OF c])
    then show "condition_ok c" "params_ok params c" "\<forall>v \<in> set (condition_ops c). length (snd v) \<le> kMaxUniStrSize"
      by (rule ok len)+
    show "one_piece c" using assms(2) c by (simp add: rule_ok_def list_all_iff)
  qed
  then have "list_all (\<lambda>(ops, h). block cmp (Some params) ops h)
      (butlast (map (\<lambda>c. (condition_ops c, condition_holds cmp params c)) cs))"
    by (simp add: map_butlast [symmetric] list_all_iff)
  moreover have "last_block cmp (Some params) (condition_ops (last cs)) (condition_holds cmp params (last cs))" if "cs \<noteq> []"
    by (rule condition_last_block) (rule ok [OF last_in_set [OF that]] len [OF last_in_set [OF that]])+
  ultimately show ?thesis using assms(4) by (simp add: group_ok_def rule_group_of_def last_map)
qed

end
