(* ===== verification/Win_Policy_Correct.thy ===== *)
theory Win_Policy_Correct
  imports Win_Rule_Correct
begin

text \<open>
  The policy is correct: \<open>LowLevelPolicy::Done\<close> copies the rules of every service into the policy
  memory, and the processor, run on the entry of a service, finds the action of the first rule whose
  conditions all hold. The end of the theory shows where the compiler does not do what it should.
\<close>

subsection \<open>Copying a rule into the policy memory\<close>

text \<open>The length that an opcode states is that of its string.\<close>

definition wf_view :: "policy_opcode \<times> wstring \<Rightarrow> bool" where
  "wf_view v \<longleftrightarrow> (op_id (fst v) = OP_WSTRING_MATCH \<longrightarrow>
     length (op_arguments (fst v)) = kArgumentCount \<and> unat (op_arguments (fst v) ! 1) = length (snd v))"

text \<open>The bytes of the strings.\<close>

definition string_bytes :: "(policy_opcode \<times> wstring) list \<Rightarrow> nat" where
  "string_bytes vs = (\<Sum>v\<leftarrow>vs. if op_id (fst v) = OP_WSTRING_MATCH then 2 * length (snd v) else 0)"

lemma string_bytes_simps [simp]:
  "string_bytes [] = 0"
  "string_bytes (v # vs) = (if op_id (fst v) = OP_WSTRING_MATCH then 2 * length (snd v) else 0) + string_bytes vs"
  "string_bytes (vs @ ws) = string_bytes vs + string_bytes ws"
  by (simp_all add: string_bytes_def)

lemma load_opcode_copy:
  assumes "load_bytes m a sizeof_PolicyOpcode = load_bytes m' b sizeof_PolicyOpcode"
  shows "load_opcode m a = load_opcode m' b"
proof -
  have part: "load_bytes m (a + k) n = load_bytes m' (b + k) n" if "k + n \<le> sizeof_PolicyOpcode" for k n
  proof (rule nth_equalityI)
    fix i assume "i < length (load_bytes m (a + k) n)"
    then have i: "i < n" by simp
    have "load_bytes m a sizeof_PolicyOpcode ! (k + i) = load_bytes m' b sizeof_PolicyOpcode ! (k + i)"
      by (simp only: assms)
    then show "load_bytes m (a + k) n ! i = load_bytes m' (b + k) n ! i"
      using i that by (simp add: load_bytes_def add.assoc)
  qed simp
  have "load_bytes m (a + 8 + 8 * i) 8 = load_bytes m' (b + 8 + 8 * i) 8" if "i < kArgumentCount" for i
    using that part [of "8 + 8 * i" 8] by (simp add: rule_sizes kArgumentCount_def add.assoc)
  moreover have "load_bytes m a 4 = load_bytes m' b 4" using part [of 0 4] by (simp add: rule_sizes)
  moreover have "load_bytes m (a + 4) 2 = load_bytes m' (b + 4) 2" "load_bytes m (a + 6) 2 = load_bytes m' (b + 6) 2"
    using part [of 4 2] part [of 6 2] by (simp_all add: rule_sizes)
  ultimately show ?thesis by (simp add: load_opcode_def)
qed

text \<open>An opcode without a string, and one with.\<close>

lemma rebind_plain:
  assumes "opcode_stored rm src lo hi v" and "op_id (load_opcode rm src) \<noteq> OP_WSTRING_MATCH"
    and "m' = store_bytes a (load_bytes rm src sizeof_PolicyOpcode) m"
  shows "opcode_stored m' a lo' hi' v"
proof -
  have "load_opcode m' a = load_opcode rm src"
    by (rule load_opcode_copy) (simp add: assms(3))
  then show ?thesis using assms(1,2) by (simp add: opcode_stored_def opcode_view_def Let_def)
qed

lemma rebind_string:
  assumes "opcode_stored rm src lo hi v" and "op_id (load_opcode rm src) = OP_WSTRING_MATCH"
    and "n = 2 * length (snd v)" and "a + sizeof_PolicyOpcode \<le> d" and "d < 2 ^ 31"
    and "str = GetRelativeString 0 src (load_opcode rm src)"
    and "m' = SetArgument a 8 0 (of_int (int d - int a))
      (store_bytes d (load_bytes rm str n) (store_bytes a (load_bytes rm src sizeof_PolicyOpcode) m))"
  shows "opcode_stored m' a d (d + n) v"
    and "x < a \<or> a + sizeof_PolicyOpcode \<le> x \<and> x < d \<or> d + n \<le> x \<Longrightarrow> m' x = m x"
proof -
  let ?op = "load_opcode rm src"
  let ?m1 = "store_bytes a (load_bytes rm src sizeof_PolicyOpcode) m"
  let ?m2 = "store_bytes d (load_bytes rm str n) ?m1"
  let ?delta = "int d - int a"
  have v: "opcode_view rm src = v" "valid_opcode ?op" using assms(1) by (simp_all add: opcode_stored_def)
  have l1: "load_opcode ?m1 a = ?op" by (rule load_opcode_copy) simp
  have l2: "load_opcode ?m2 a = ?op"
    unfolding l1 [symmetric] by (rule load_opcode_same, rule same_bytes_store) (use assms(4) in simp)
  let ?op' = "?op\<lparr>op_arguments := (op_arguments ?op)[0 := of_int ?delta]\<rparr>"
  have drop: "drop_bit 64 (x :: u64) = 0" for x by (simp add: drop_bit_eq_zero_iff_not_bit_last drop_bit_word_beyond)
  have set: "m' = store_opcode a ?op' ?m2"
    unfolding assms(7) SetArgument_def l2 by (simp add: set_argument_def drop)
  have valid: "valid_opcode ?op'" using v(2) by (simp add: valid_opcode_def)
  have load: "load_opcode m' a = ?op'" unfolding set by (rule load_store_opcode [OF valid])
  have args: "length (op_arguments ?op) = 4" using v(2) by (simp add: valid_opcode_def kArgumentCount_def)
  have arg1: "GetArgument 1 ?op' = GetArgument 1 ?op" by (simp add: GetArgument_def)
  have rel: "GetRelativeString 0 a ?op' = d"
  proof -
    have "\<bar>?delta\<bar> < 2 ^ 63" using assms(4,5) by (simp add: abs_less_iff)
    then have "sint (of_int ?delta :: u64) = ?delta" by (rule sint_of_int_u64)
    then show ?thesis using args assms(4) by (simp only: GetRelativeString_def GetArgument_def) simp
  qed
  have len: "nat (sint (GetArgument 1 ?op :: u32)) = length (snd v)" using assms(1,2) by (simp add: opcode_stored_def)
  have "load_bytes m' d n = load_bytes ?m2 d n"
    unfolding set by (rule load_same, rule same_bytes_store_opcode [OF valid]) (use assms(4) in simp)
  then have "load_bytes m' d n = load_bytes rm str n" by simp
  then have "match_string m' a = match_string rm src"
    by (simp only: match_string_def load Let_def rel arg1 len load_wstring_def assms(3,6))
  then have "opcode_view m' a = v"
    unfolding v(1) [symmetric] opcode_view_def load Let_def using assms(2) args by simp
  then show "opcode_stored m' a d (d + n) v"
    unfolding opcode_stored_def load rel arg1 policy_opcode.simps len assms(3) using valid by simp
  show "m' x = m x" if "x < a \<or> a + sizeof_PolicyOpcode \<le> x \<and> x < d \<or> d + n \<le> x"
    using that assms(4) length_encode_opcode [OF valid] unfolding set store_opcode_def
    by (auto simp: store_bytes_def)
qed

text \<open>All opcodes of a rule.\<close>

lemma rebind_loop_correct:
  assumes "\<And>i. i < length vs \<Longrightarrow> opcode_stored rm (rule_opcode_address (ix + i)) lo hi (vs ! i)"
    and "list_all wf_view vs" and "sizeof_PolicyOpcode * length vs \<le> osize" and "string_bytes vs \<le> dsize"
    and "a + sizeof_PolicyOpcode * length vs + string_bytes vs \<le> e" and "e < 2 ^ 31"
  shows "\<exists>m'. rebind_loop rm (length vs) ix a osize (int e) dsize m = (Some (dsize - string_bytes vs), m')
    \<and> (\<forall>i < length vs. opcode_stored m' (a + i * sizeof_PolicyOpcode) (e - string_bytes vs) e (vs ! i))
    \<and> (\<forall>x. x < a \<or> a + sizeof_PolicyOpcode * length vs \<le> x \<and> x < e - string_bytes vs \<or> e \<le> x \<longrightarrow> m' x = m x)"
  using assms
proof (induction vs arbitrary: ix a osize e dsize m)
  case (Cons v vs)
  let ?src = "rule_opcode_address ix" and ?S = sizeof_PolicyOpcode
  let ?op = "load_opcode rm ?src"
  let ?m1 = "store_bytes a (load_bytes rm ?src ?S) m"
  have v: "opcode_stored rm ?src lo hi v" using Cons.prems(1) [of 0] by simp
  have vs: "opcode_stored rm (rule_opcode_address (Suc ix + i)) lo hi (vs ! i)" if "i < length vs" for i
    using Cons.prems(1) [of "Suc i"] that by simp
  have wf: "wf_view v" "list_all wf_view vs" using Cons.prems(2) by simp_all
  have id: "op_id ?op = op_id (fst v)" using v by (auto simp: opcode_stored_def)
  have room: "\<not> osize < ?S" "?S * length vs \<le> osize - ?S" using Cons.prems(3) by (simp_all add: rule_sizes)
  define n where "n = (if op_id (fst v) = OP_WSTRING_MATCH then 2 * length (snd v) else 0)"
  have n: "string_bytes (v # vs) = n + string_bytes vs" by (simp add: n_def)
  define d where "d = e - n"
  have d: "d + n = e" "int e - int n = int d" "\<not> dsize < n" "string_bytes vs \<le> dsize - n"
    "a + ?S + ?S * length vs + string_bytes vs \<le> d" "d < 2 ^ 31" "a + ?S \<le> d"
    using Cons.prems(4-6) unfolding n by (simp_all add: d_def rule_sizes)
  define m1 where "m1 = (if op_id (fst v) = OP_WSTRING_MATCH
    then SetArgument a 8 0 (of_int (int d - int a)) (store_bytes d (load_bytes rm (GetRelativeString 0 ?src ?op) n) ?m1) else ?m1)"
  have m1: "opcode_stored m1 a d e v"
      "\<And>x. x < a \<or> a + ?S \<le> x \<and> x < d \<or> e \<le> x \<Longrightarrow> m1 x = m x"
  proof -
    show "opcode_stored m1 a d e v"
    proof (cases "op_id (fst v) = OP_WSTRING_MATCH")
      case True
      then show ?thesis using rebind_string(1) [OF v, of n a d _ m1 m] d by (simp add: id n_def m1_def)
    next
      case False
      then show ?thesis using rebind_plain [OF v, of m1 a m] by (simp add: id m1_def)
    qed
    show "m1 x = m x" if x: "x < a \<or> a + ?S \<le> x \<and> x < d \<or> e \<le> x" for x
    proof (cases "op_id (fst v) = OP_WSTRING_MATCH")
      case True
      then show ?thesis using rebind_string(2) [OF v, of n a d _ m1 m x] d x by (simp add: id n_def m1_def)
    next
      case False
      then show ?thesis using x d(7) by (auto simp: m1_def store_bytes_def n_def d_def)
    qed
  qed
  have run: "rebind_loop rm (length (v # vs)) ix a osize (int e) dsize m
      = rebind_loop rm (length vs) (Suc ix) (a + ?S) (osize - ?S) (int d) (dsize - n) m1"
  proof (cases "op_id (fst v) = OP_WSTRING_MATCH")
    case True
    have view: "opcode_view rm ?src = v" using v by (simp add: opcode_stored_def)
    then have "op_arguments (fst v) ! 1 = op_arguments ?op ! 1" using True id by (auto simp: opcode_view_def Let_def)
    then have "unat (GetArgument 1 ?op :: u64) * 2 = n" using wf(1) True by (simp add: GetArgument_def wf_view_def n_def)
    then show ?thesis using True room d by (simp add: id m1_def Let_def)
  next
    case False
    then have "n = 0" "d = e" using d by (simp_all add: n_def)
    then show ?thesis using False room by (simp add: id m1_def Let_def)
  qed
  obtain m' where m': "rebind_loop rm (length vs) (Suc ix) (a + ?S) (osize - ?S) (int d) (dsize - n) m1
      = (Some (dsize - n - string_bytes vs), m')"
    "\<forall>i < length vs. opcode_stored m' (a + ?S + i * ?S) (d - string_bytes vs) d (vs ! i)"
    and frame: "\<forall>x. x < a + ?S \<or> a + ?S + ?S * length vs \<le> x \<and> x < d - string_bytes vs \<or> d \<le> x \<longrightarrow> m' x = m1 x"
    using Cons.IH [OF vs wf(2) room(2) d(4,5,6), of m1] by blast
  have ds: "d - string_bytes vs = e - string_bytes (v # vs)" unfolding n using d(1,5) by simp
  have head: "opcode_stored m' a (e - string_bytes (v # vs)) e v"
  proof (rule opcode_stored_mono [OF opcode_stored_same [OF m1(1)]])
    show "same_bytes a ?S m1 m'" using frame by (simp add: same_bytes_def)
    show "same_bytes d (e - d) m1 m'" using frame by (simp add: same_bytes_def)
  qed (use ds in simp_all)
  have "opcode_stored m' (a + i * ?S) (e - string_bytes (v # vs)) e ((v # vs) ! i)" if "i < length (v # vs)" for i
  proof (cases i)
    case 0
    then show ?thesis using head by simp
  next
    case (Suc j)
    then have "opcode_stored m' (a + ?S + j * ?S) (d - string_bytes vs) d (vs ! j)" using m'(2) that by simp
    then have "opcode_stored m' (a + ?S + j * ?S) (e - string_bytes (v # vs)) e (vs ! j)"
      by (rule opcode_stored_mono) (use ds d(1) in simp_all)
    then show ?thesis by (simp add: Suc add.assoc)
  qed
  moreover have "m' x = m x" if "x < a \<or> a + ?S * length (v # vs) \<le> x \<and> x < e - string_bytes (v # vs) \<or> e \<le> x" for x
  proof -
    have "x < a + ?S \<or> a + ?S + ?S * length vs \<le> x \<and> x < d - string_bytes vs \<or> d \<le> x"
      and x: "x < a \<or> a + ?S \<le> x \<and> x < d \<or> e \<le> x"
      using that d(1,5) unfolding ds [symmetric] by auto
    from this(1) have "m' x = m1 x" using frame by blast
    also have "\<dots> = m x" by (rule m1(2) [OF x])
    finally show ?thesis .
  qed
  moreover have "dsize - n - string_bytes vs = dsize - string_bytes (v # vs)" unfolding n by simp
  ultimately show ?case unfolding run using m'(1) by auto
qed simp

subsection \<open>The rules of a service\<close>

text \<open>A finished rule: its opcodes are complete and state the lengths of their strings.\<close>

definition rule_content :: "policy_rule \<Rightarrow> (policy_opcode \<times> wstring) list \<Rightarrow> bool" where
  "rule_content r vs \<longleftrightarrow>
     pr_opcode_count r = length vs
   \<and> (\<forall>i < length vs. opcode_stored (pr_memory r) (rule_opcode_address i) 0 rule_end (vs ! i))
   \<and> list_all wf_view vs"

text \<open>What a list of opcodes takes from the available size.\<close>

definition used_bytes :: "(policy_opcode \<times> wstring) list \<Rightarrow> nat" where
  "used_bytes vs = sizeof_PolicyOpcode * length vs + string_bytes vs"

lemma used_bytes_append [simp]: "used_bytes (vs @ ws) = used_bytes vs + used_bytes ws"
  by (simp add: used_bytes_def distrib_left)

lemma used_bytes_Nil [simp]: "used_bytes [] = 0"
  by (simp add: used_bytes_def)

lemma opcode_address_add: "opcode_address b (c + n) = opcode_address b c + n * sizeof_PolicyOpcode"
  by (simp add: opcode_address_def distrib_right)

lemma done_rules_correct:
  assumes "list_all2 rule_content rs vss" and "V = concat vss"
    and "opcode_address b (c + length V) + used_bytes V \<le> E" and "E < 2 ^ 31"
  shows "\<exists>m'. done_rules rs b c E E m = (Some (c + length V, E - used_bytes V, E - used_bytes V), m')
    \<and> (\<forall>i < length V. opcode_stored m' (opcode_address b (c + i)) (E - used_bytes V) E (V ! i))
    \<and> (\<forall>x. x < opcode_address b c \<or> opcode_address b (c + length V) \<le> x \<and> x < E - used_bytes V \<or> E \<le> x
          \<longrightarrow> m' x = m x)"
  using assms
proof (induction rs vss arbitrary: c E V m rule: list_all2_induct)
  case (Cons r rs vs vss)
  let ?S = sizeof_PolicyOpcode and ?V = "concat vss" and ?n = "length vs"
  let ?a = "opcode_address b c"
  have V: "V = vs @ ?V" using Cons.prems(1) by simp
  have r: "pr_opcode_count r = ?n" "list_all wf_view vs"
    "\<And>i. i < ?n \<Longrightarrow> opcode_stored (pr_memory r) (rule_opcode_address (0 + i)) 0 rule_end (vs ! i)"
    using Cons.hyps(1) by (simp_all add: rule_content_def)
  have room: "?a + ?n * ?S + length ?V * ?S + used_bytes vs + used_bytes ?V \<le> E"
    using Cons.prems(2) by (simp add: V opcode_address_add distrib_right)
  have u: "used_bytes vs = ?S * ?n + string_bytes vs" by (simp add: used_bytes_def)
  have p: "?S * ?n \<le> ?n * ?S" "string_bytes vs \<le> E - ?n * ?S" "?a + ?S * ?n + string_bytes vs \<le> E"
    using room unfolding u by (simp_all add: mult.commute)
  obtain m1 where m1: "RebindCopy r ?a (?n * ?S) E (E - ?n * ?S) m = (Some (E - ?n * ?S - string_bytes vs), m1)"
    "\<forall>i < ?n. opcode_stored m1 (?a + i * ?S) (E - string_bytes vs) E (vs ! i)"
    and frame1: "\<forall>x. x < ?a \<or> ?a + ?S * ?n \<le> x \<and> x < E - string_bytes vs \<or> E \<le> x \<longrightarrow> m1 x = m x"
    using rebind_loop_correct [OF r(3,2) p Cons.prems(3), of m] unfolding RebindCopy_def r(1) by blast
  define E1 where "E1 = E - used_bytes vs"
  have E1: "E - (E - (E - ?n * ?S - string_bytes vs)) = E1" "E1 + used_bytes vs = E" "E1 < 2 ^ 31"
    using room u Cons.prems(3) by (simp_all add: E1_def mult.commute)
  have run: "done_rules (r # rs) b c E E m = done_rules rs b (c + ?n) E1 E1 m1"
    using room u m1(1) E1(1) by (simp add: r(1) Let_def mult.commute)
  have "opcode_address b (c + ?n + length ?V) + used_bytes ?V \<le> E1"
    using room E1(2) by (simp add: opcode_address_add)
  from Cons.IH [OF refl this E1(3), of m1] obtain m' where
    m': "done_rules rs b (c + ?n) E1 E1 m1 = (Some (c + ?n + length ?V, E1 - used_bytes ?V, E1 - used_bytes ?V), m')"
    "\<forall>i < length ?V. opcode_stored m' (opcode_address b (c + ?n + i)) (E1 - used_bytes ?V) E1 (?V ! i)"
    and frame': "\<forall>x. x < opcode_address b (c + ?n) \<or> opcode_address b (c + ?n + length ?V) \<le> x \<and> x < E1 - used_bytes ?V \<or> E1 \<le> x
      \<longrightarrow> m' x = m1 x" by blast
  have end': "E1 - used_bytes ?V = E - used_bytes V" using E1(2) by (simp add: V E1_def)
  have "opcode_stored m' (opcode_address b (c + i)) (E - used_bytes V) E (V ! i)" if i: "i < length V" for i
  proof (cases "i < ?n")
    case True
    have "opcode_stored m' (?a + i * ?S) (E - string_bytes vs) E (vs ! i)"
    proof (rule opcode_stored_same)
      show "opcode_stored m1 (?a + i * ?S) (E - string_bytes vs) E (vs ! i)" using m1(2) True by simp
      have "?a + i * ?S + ?S \<le> ?a + ?n * ?S" using True by (simp add: rule_sizes)
      then show "same_bytes (?a + i * ?S) ?S m1 m'" using frame' by (simp add: same_bytes_def opcode_address_add)
      have "E1 \<le> E - string_bytes vs" using E1(2) u by simp
      then show "same_bytes (E - string_bytes vs) (E - (E - string_bytes vs)) m1 m'"
        using frame' by (auto simp: same_bytes_def)
    qed
    then show ?thesis
      using True by (auto simp: V nth_append opcode_address_add elim!: opcode_stored_mono intro: diff_le_mono2 simp: u)
  next
    case False
    then have j: "i - ?n < length ?V" "c + i = c + ?n + (i - ?n)" "V ! i = ?V ! (i - ?n)" using i by (simp_all add: V nth_append)
    have "opcode_stored m' (opcode_address b (c + i)) (E1 - used_bytes ?V) E1 (V ! i)"
      using m'(2) j(1) unfolding j(2,3) by blast
    then show ?thesis unfolding end' by (rule opcode_stored_mono) (use E1(2) in simp_all)
  qed
  moreover have "m' x = m x" if "x < ?a \<or> opcode_address b (c + length V) \<le> x \<and> x < E - used_bytes V \<or> E \<le> x" for x
  proof -
    have "x < opcode_address b (c + ?n) \<or> opcode_address b (c + ?n + length ?V) \<le> x \<and> x < E1 - used_bytes ?V \<or> E1 \<le> x"
      using that E1(2) unfolding end' by (auto simp: V opcode_address_add add.assoc)
    moreover have "x < ?a \<or> ?a + ?S * ?n \<le> x \<and> x < E - string_bytes vs \<or> E \<le> x"
      using that u by (auto simp: V opcode_address_add mult.commute distrib_left)
    ultimately show ?thesis using frame' frame1 by (metis (no_types))
  qed
  ultimately show ?case unfolding run m'(1) end' by (simp add: V add.assoc)
qed simp

subsection \<open>All services\<close>

text \<open>A policy buffer with its opcodes.\<close>

definition service_stored :: "mem \<Rightarrow> nat \<Rightarrow> nat \<Rightarrow> nat \<Rightarrow> (policy_opcode \<times> wstring) list \<Rightarrow> bool" where
  "service_stored m b lo hi vs \<longleftrightarrow>
     unat (load_opcode_count m b) = length vs
   \<and> (\<forall>i < length vs. opcode_stored m (opcode_address b i) lo hi (vs ! i))"

lemma service_stored_same:
  assumes "service_stored m b lo hi vs" and "same_bytes b (opcodes_offset + length vs * sizeof_PolicyOpcode) m m'"
    and "same_bytes lo (hi - lo) m m'"
  shows "service_stored m' b lo hi vs"
proof -
  have "load_opcode_count m' b = load_opcode_count m b"
    unfolding load_opcode_count_def
    by (subst load_same [OF same_bytes_sub [OF assms(2)], of b 8]) (simp_all add: rule_sizes)
  moreover have "opcode_stored m' (opcode_address b i) lo hi (vs ! i)" if i: "i < length vs" for i
  proof (rule opcode_stored_same)
    show "opcode_stored m (opcode_address b i) lo hi (vs ! i)" using assms(1) i by (simp add: service_stored_def)
    show "same_bytes (opcode_address b i) sizeof_PolicyOpcode m m'"
      by (rule same_bytes_sub [OF assms(2)]) (use i in \<open>simp_all add: opcode_address_def rule_sizes\<close>)
  qed (rule assms(3))
  ultimately show ?thesis using assms(1) by (simp add: service_stored_def)
qed

text \<open>The room that a service needs: its opcodes are counted a second time.\<close>

definition service_bytes :: "(policy_opcode \<times> wstring) list \<Rightarrow> nat" where
  "service_bytes vs = sizeof_PolicyBuffer + sizeof_PolicyOpcode * length vs + used_bytes vs"

text \<open>The buffer of the next service begins behind the opcodes of this one.\<close>

lemma next_buffer:
  "b + opcodes_offset + n * sizeof_PolicyOpcode
     \<le> b + (n * sizeof_PolicyOpcode div sizeof_PolicyBuffer + 1) * sizeof_PolicyBuffer"
  "b + (n * sizeof_PolicyOpcode div sizeof_PolicyBuffer + 1) * sizeof_PolicyBuffer
     \<le> b + sizeof_PolicyBuffer + sizeof_PolicyOpcode * n"
proof -
  have "n * 40 div 48 * 48 \<le> n * 40" by simp
  moreover have "8 + n * 40 \<le> (n * 40 div 48 + 1) * 48"
  proof -
    define q r t where "q = n * 40 div 48" and "r = n * 40 mod 48" and "t = 5 * n mod 6"
    have "r = 8 * t" by (simp add: r_def t_def mult_mod_right mult.commute)
    moreover have "t < 6" by (simp add: t_def)
    moreover have "q * 48 + r = n * 40" unfolding q_def r_def by (rule div_mult_mod_eq)
    ultimately have "8 + n * 40 \<le> (q + 1) * 48" by simp
    then show ?thesis by (simp only: q_def)
  qed
  ultimately show "b + opcodes_offset + n * sizeof_PolicyOpcode
      \<le> b + (n * sizeof_PolicyOpcode div sizeof_PolicyBuffer + 1) * sizeof_PolicyBuffer"
    "b + (n * sizeof_PolicyOpcode div sizeof_PolicyBuffer + 1) * sizeof_PolicyBuffer
      \<le> b + sizeof_PolicyBuffer + sizeof_PolicyOpcode * n"
    by (simp_all add: rule_sizes sizeof_PolicyBuffer_def)
qed

lemma load_count_zero:
  assumes "\<And>x. b \<le> x \<Longrightarrow> x < b + 8 \<Longrightarrow> m x = 0"
  shows "load_opcode_count m b = 0"
proof -
  have "load_bytes m b 8 = replicate 8 0"
    by (rule nth_equalityI) (simp_all add: load_bytes_def assms)
  then show ?thesis by (simp add: load_opcode_count_def numeral_eq_Suc)
qed

lemma done_services_correct:
  assumes "distinct ss" and "\<forall>s \<in> set ss. unat s < kMaxServiceCount"
    and "\<forall>s \<in> set ss. \<exists>vss. list_all2 rule_content (rules_for s rules) vss \<and> V s = concat vss"
    and "b + (\<Sum>s\<leftarrow>ss. service_bytes (V s)) \<le> E" and "E < 2 ^ 31"
    and "\<forall>x. b \<le> x \<and> x < E \<longrightarrow> pg_memory g x = 0"
  shows "\<exists>g'. done_services rules ss b E E g = (True, g')
    \<and> (\<forall>s \<in> set ss. \<exists>a. pg_entry g' (unat s) = Some a \<and> service_stored (pg_memory g') a 0 E (V s))
    \<and> (\<forall>k. k \<notin> unat ` set ss \<longrightarrow> pg_entry g' k = pg_entry g k)
    \<and> (\<forall>x. x < b \<or> E \<le> x \<longrightarrow> pg_memory g' x = pg_memory g x)"
  using assms
proof (induction ss arbitrary: b E g)
  case (Cons s ss)
  let ?V = "V s" and ?S = sizeof_PolicyOpcode and ?n = "length (V s)" and ?m = "pg_memory g"
  have s: "\<not> unat s \<ge> kMaxServiceCount" "s \<notin> set ss" using Cons.prems(1,2) by simp_all
  obtain vss where vss: "list_all2 rule_content (rules_for s rules) vss" "?V = concat vss" using Cons.prems(3) by auto
  have room: "b + sizeof_PolicyBuffer + ?S * ?n + used_bytes ?V + (\<Sum>s\<leftarrow>ss. service_bytes (V s)) \<le> E"
    using Cons.prems(4) by (simp add: service_bytes_def)
  then have "opcode_address b (0 + ?n) + used_bytes ?V \<le> E"
    by (simp add: opcode_address_def sizeof_PolicyBuffer_def mult.commute)
  from done_rules_correct [OF vss this Cons.prems(5), of ?m] obtain m1 where
    m1: "done_rules (rules_for s rules) b 0 E E ?m = (Some (?n, E - used_bytes ?V, E - used_bytes ?V), m1)"
    and ops: "\<And>i. i < ?n \<Longrightarrow> opcode_stored m1 (opcode_address b i) (E - used_bytes ?V) E (?V ! i)"
    and frame1: "\<And>x. x < opcode_address b 0 \<or> opcode_address b ?n \<le> x \<and> x < E - used_bytes ?V \<or> E \<le> x \<Longrightarrow> m1 x = ?m x"
    by auto
  define E1 where "E1 = E - used_bytes ?V"
  define b1 where "b1 = b + (?n * ?S div sizeof_PolicyBuffer + 1) * sizeof_PolicyBuffer"
  have b1: "b + 8 + ?n * ?S \<le> b1" "b1 + (\<Sum>s\<leftarrow>ss. service_bytes (V s)) \<le> E1" "E1 < 2 ^ 31" "E1 \<le> E"
    using next_buffer [of b ?n, folded b1_def] room Cons.prems(5) by (simp_all add: E1_def rule_sizes)
  define m2 where "m2 = store_bytes b (le_bytes 8 (of_nat ?n :: u64)) m1"
  let ?g1 = "g\<lparr>pg_entry := (pg_entry g)(unat s := Some b), pg_memory := m2\<rparr>"
  have count: "load_opcode_count m1 b = 0"
    by (rule load_count_zero) (use frame1 Cons.prems(6) room in \<open>auto simp: opcode_address_def rule_sizes sizeof_PolicyBuffer_def\<close>)
  have run: "done_services rules (s # ss) b E E g = done_services rules ss b1 E1 E1 ?g1"
    using s(1) m1 count by (simp add: Let_def b1_def E1_def m2_def)
  have here: "service_stored m2 b E1 E ?V"
  proof -
    have "?n < 2 ^ 64" using room Cons.prems(5) by (simp add: rule_sizes sizeof_PolicyBuffer_def)
    then have "unat (load_opcode_count m2 b) = ?n"
      by (simp add: load_opcode_count_def m2_def unat_of_nat_small)
    moreover have "opcode_stored m2 (opcode_address b i) E1 E (?V ! i)" if "i < ?n" for i
    proof (rule opcode_stored_same)
      show "opcode_stored m1 (opcode_address b i) E1 E (?V ! i)" using ops that by (simp add: E1_def)
      show "same_bytes (opcode_address b i) ?S m1 m2"
        unfolding m2_def by (rule same_bytes_store) (simp add: opcode_address_def rule_sizes)
      show "same_bytes E1 (E - E1) m1 m2"
        unfolding m2_def by (rule same_bytes_store) (use b1 in simp)
    qed
    ultimately show ?thesis by (simp add: service_stored_def)
  qed
  have "\<forall>x. b1 \<le> x \<and> x < E1 \<longrightarrow> pg_memory ?g1 x = 0"
    using frame1 Cons.prems(6) b1 by (auto simp: m2_def store_bytes_def opcode_address_def rule_sizes E1_def)
  from Cons.IH [of b1 E1 ?g1, OF _ _ _ b1(2,3) this] Cons.prems(1-3) obtain g' where
    g': "done_services rules ss b1 E1 E1 ?g1 = (True, g')"
    "\<forall>s \<in> set ss. \<exists>a. pg_entry g' (unat s) = Some a \<and> service_stored (pg_memory g') a 0 E1 (V s)"
    "\<forall>k. k \<notin> unat ` set ss \<longrightarrow> pg_entry g' k = pg_entry ?g1 k"
    and frame': "\<forall>x. x < b1 \<or> E1 \<le> x \<longrightarrow> pg_memory g' x = pg_memory ?g1 x"
    by auto
  have "unat s \<notin> unat ` set ss" using s(2) by (auto dest: word_unat_eq_iff [THEN iffD2])
  then have "pg_entry g' (unat s) = Some b" using g'(3) by simp
  moreover have "service_stored (pg_memory g') b 0 E ?V"
  proof -
    have "service_stored (pg_memory g') b E1 E ?V"
      by (rule service_stored_same [OF here]) (use frame' b1 in \<open>auto simp: same_bytes_def rule_sizes\<close>)
    then show ?thesis by (auto simp: service_stored_def elim!: opcode_stored_mono)
  qed
  moreover have "service_stored (pg_memory g') a 0 E (V t)" if "service_stored (pg_memory g') a 0 E1 (V t)" for a t
    using that b1(4) by (auto simp: service_stored_def elim!: opcode_stored_mono)
  moreover have "pg_memory g' x = ?m x" if "x < b \<or> E \<le> x" for x
  proof -
    have "x < b1 \<or> E1 \<le> x" using that b1 by auto
    then have "pg_memory g' x = m2 x" using frame' by auto
    also have "\<dots> = m1 x" using that b1 by (auto simp: m2_def store_bytes_def)
    also have "\<dots> = ?m x" by (rule frame1) (use that in \<open>auto simp: opcode_address_def\<close>)
    finally show ?thesis .
  qed
  ultimately show ?case unfolding run using g' by (intro exI [of _ g']) auto
qed simp

subsection \<open>Policies and what they decide\<close>

text \<open>Rules as the broker adds them: the service, the conditions and the action.\<close>

type_synonym policy_spec = "(u32 \<times> condition list \<times> eval_result) list"

fun add_policy_rule ::
    "mem \<Rightarrow> u32 \<times> condition list \<times> eval_result \<Rightarrow> low_level_policy \<Rightarrow> abort + (bool \<times> low_level_policy)" where
  "add_policy_rule junk (service, cs, action) p =
     res_bind (add_conditions cs (PolicyRule junk action)) (\<lambda>(ok, r).
     if \<not> ok then Inr (False, p)
     else res_bind (AddRule service r p) (\<lambda>(ok, r, p). Inr (ok, p)))"

fun add_policy_rules :: "mem \<Rightarrow> policy_spec \<Rightarrow> low_level_policy \<Rightarrow> abort + (bool \<times> low_level_policy)" where
  "add_policy_rules junk [] p = Inr (True, p)"
| "add_policy_rules junk (x # xs) p =
     res_bind (add_policy_rule junk x p) (\<lambda>(ok, p).
     if ok then add_policy_rules junk xs p else Inr (False, p))"

definition spec_ok :: "policy_spec \<Rightarrow> bool" where
  "spec_ok spec \<longleftrightarrow> list_all (\<lambda>(s, cs, action). unat s < kMaxServiceCount \<and> rule_ok cs \<and> is_action action) spec"

definition spec_rules :: "u32 \<Rightarrow> policy_spec \<Rightarrow> (condition list \<times> eval_result) list" where
  "spec_rules s spec = map snd (filter (\<lambda>x. fst x = s) spec)"

text \<open>The reference meaning of a policy: the action of the first rule whose conditions all hold.\<close>

definition policy_decision :: "wcompare \<Rightarrow> parameter list \<Rightarrow> u32 \<Rightarrow> policy_spec \<Rightarrow> eval_result option" where
  "policy_decision cmp params s spec =
     map_option snd (List.find (\<lambda>(cs, action). list_all (condition_holds cmp params) cs) (spec_rules s spec))"

text \<open>The room that suffices for the policy's memory.\<close>

definition spec_opcodes :: "u32 \<Rightarrow> policy_spec \<Rightarrow> (policy_opcode \<times> wstring) list" where
  "spec_opcodes s spec = concat (map (\<lambda>(cs, action). rule_ops cs action) (spec_rules s spec))"

definition policy_room :: "policy_spec \<Rightarrow> nat" where
  "policy_room spec = (\<Sum>s\<leftarrow>sort (remdups (map fst spec)). service_bytes (spec_opcodes s spec))"

subsection \<open>Adding rules\<close>

lemma wf_rule_ops:
  assumes "rule_holds r (rule_ops cs action)"
  shows "list_all wf_view (rule_ops cs action)"
proof -
  have len: "length (snd v) < 2 ^ 64" if "v \<in> set (rule_ops cs action)" "op_id (fst v) = OP_WSTRING_MATCH" for v
    using rule_holds_short [OF assms that] by (simp add: kMaxUniStrSize_def)
  have piece: "\<forall>v \<in> set (chain_ops rt p mo xs). length (snd v) < 2 ^ 64 \<longrightarrow> wf_view v" for rt p mo xs
    by (induction rt p mo xs rule: chain_ops.induct)
      (auto simp: piece_opcode_def wf_view_def kArgumentCount_def unat_of_nat_small)
  have "wf_view v" if v: "v \<in> set (rule_ops cs action)" for v
  proof -
    consider (action) "v = action_opcode action" | (cond) c where "c \<in> set cs" "v \<in> set (condition_ops c)"
      using v by (auto simp: rule_ops_def)
    then show ?thesis
    proof cases
      case action
      then show ?thesis by (simp add: wf_view_def action_opcode_def)
    next
      case cond
      show ?thesis
      proof (cases c)
        case (StringMatch rt p pat mo)
        show ?thesis
        proof (cases "op_id (fst v) = OP_WSTRING_MATCH")
          case True
          from len [OF v True] show ?thesis using cond(2) piece StringMatch by simp
        next
          case False
          then show ?thesis by (simp add: wf_view_def)
        qed
      next
        case (NumberMatch rt p n rop)
        then show ?thesis using cond(2) by (auto simp: wf_view_def number_opcode_def)
      qed
    qed
  qed
  then show ?thesis by (simp add: list_all_iff)
qed

text \<open>A rule of the policy and the rule that was asked for.\<close>

fun built :: "policy_rule \<times> u32 \<Rightarrow> u32 \<times> condition list \<times> eval_result \<Rightarrow> bool" where
  "built (r, s') (s, cs, action) \<longleftrightarrow>
     s' = s \<and> rule_content r (rule_ops cs action) \<and> (\<exists>r0. rule_holds r0 (rule_ops cs action))"

lemma rule_content_copy:
  assumes "rule_holds r vs" and "list_all wf_view vs"
  shows "rule_content (PolicyRule_copy r) vs"
  using assms by (auto simp: rule_content_def rule_holds_def PolicyRule_copy_def Let_def elim!: opcode_stored_mono)

lemma add_policy_rule_step:
  assumes "list_all condition_ok cs"
  shows "\<exists>ok p'. add_policy_rule junk (s, cs, action) p = Inr (ok, p')
    \<and> lp_policy_store p' = lp_policy_store p
    \<and> (ok \<longrightarrow> (\<exists>r. lp_rules p' = lp_rules p @ [r] \<and> built r (s, cs, action)))"
proof -
  let ?r = "PolicyRule junk action"
  have r: "\<not> pr_done ?r" "pr_action ?r = action" by (simp_all add: PolicyRule_def)
  obtain ok r1 where s: "add_conditions cs ?r = Inr (ok, r1)" "rule_step ?r ok r1 (concat (map condition_ops cs))"
    using add_conditions_step [OF rule_holds_new assms r(1)] by auto
  show ?thesis
  proof (cases ok)
    case False
    then show ?thesis using s by (simp add: exI [of _ False])
  next
    case ok: True
    then have h: "rule_holds r1 (concat (map condition_ops cs))" "\<not> pr_done r1" "pr_action r1 = action"
      using s(2) r by (simp_all add: rule_step_def)
    obtain ok' r2 where d: "rule_Done r1 = Inr (ok', r2)" "ok' \<Longrightarrow> rule_holds r2 (rule_ops cs action)"
      using rule_Done_step [OF h(1,2)] h(3) by (auto simp: rule_ops_def)
    show ?thesis
    proof (cases ok')
      case False
      then show ?thesis using s d ok by (simp add: AddRule_def exI [of _ False])
    next
      case True
      note h2 = d(2) [OF True]
      have "built (PolicyRule_copy r2, s) (s, cs, action)"
        using rule_content_copy [OF h2 wf_rule_ops [OF h2]] h2 by auto
      then show ?thesis using s d ok True by (simp add: AddRule_def exI [of _ True])
    qed
  qed
qed

lemma add_policy_rules_step:
  assumes "list_all (\<lambda>(s, cs, action). list_all condition_ok cs) spec"
  shows "\<exists>ok p'. add_policy_rules junk spec p = Inr (ok, p')
    \<and> lp_policy_store p' = lp_policy_store p
    \<and> (ok \<longrightarrow> (\<exists>rs. lp_rules p' = lp_rules p @ rs \<and> list_all2 built rs spec))"
  using assms
proof (induction spec arbitrary: p)
  case Nil
  then show ?case by (simp add: exI [of _ True])
next
  case (Cons x spec)
  obtain s cs action where x: "x = (s, cs, action)" by (cases x)
  have cs: "list_all condition_ok cs" and spec: "list_all (\<lambda>(s, cs, action). list_all condition_ok cs) spec"
    using Cons.prems by (simp_all add: x)
  obtain ok p1 where step: "add_policy_rule junk x p = Inr (ok, p1)" "lp_policy_store p1 = lp_policy_store p"
    "ok \<longrightarrow> (\<exists>r. lp_rules p1 = lp_rules p @ [r] \<and> built r x)"
    using add_policy_rule_step [OF cs] unfolding x by blast
  show ?case
  proof (cases ok)
    case False
    then show ?thesis using step by (simp add: exI [of _ False])
  next
    case True
    then obtain r where r: "lp_rules p1 = lp_rules p @ [r]" "built r x" using step(3) by blast
    obtain ok' p' where rest: "add_policy_rules junk spec p1 = Inr (ok', p')" "lp_policy_store p' = lp_policy_store p1"
      "ok' \<longrightarrow> (\<exists>rs. lp_rules p' = lp_rules p1 @ rs \<and> list_all2 built rs spec)"
      using Cons.IH [OF spec] by blast
    have "ok' \<longrightarrow> (\<exists>rs. lp_rules p' = lp_rules p @ rs \<and> list_all2 built rs (x # spec))"
    proof
      assume ok'
      then obtain rs where "lp_rules p' = lp_rules p1 @ rs" "list_all2 built rs spec" using rest(3) by blast
      then show "\<exists>rs. lp_rules p' = lp_rules p @ rs \<and> list_all2 built rs (x # spec)"
        using r by (intro exI [of _ "r # rs"]) simp
    qed
    then show ?thesis using step rest True by (intro exI [of _ ok'] exI [of _ p']) (simp del: add_policy_rule.simps)
  qed
qed

lemma added_rules:
  assumes "spec_ok spec" and "add_policy_rules junk spec (LowLevelPolicy store) = Inr (True, p)"
  shows "list_all2 built (lp_rules p) spec" and "lp_policy_store p = store"
proof -
  have "list_all (\<lambda>(s, cs, action). list_all condition_ok cs) spec"
    using assms(1) by (auto simp: spec_ok_def rule_ok_def list_all_iff)
  from add_policy_rules_step [OF this, of junk "LowLevelPolicy store"] assms(2)
  show "list_all2 built (lp_rules p) spec" "lp_policy_store p = store"
    by (auto simp: LowLevelPolicy_def)
qed

subsection \<open>What the policy decides\<close>

lemma built_services: "list_all2 built rs spec \<Longrightarrow> map snd rs = map fst spec"
  by (induction rule: list_all2_induct) (auto simp: built.simps elim!: built.elims)

lemma built_rules_for:
  "list_all2 built rs spec \<Longrightarrow>
   list_all2 rule_content (rules_for s rs) (map (\<lambda>(cs, action). rule_ops cs action) (spec_rules s spec))"
  by (induction rule: list_all2_induct) (auto simp: rules_for_def spec_rules_def elim!: built.elims)

lemma done_policy:
  assumes "list_all2 built (lp_rules p) spec" and "spec_ok spec" and "store = lp_policy_store p"
    and "policy_room spec \<le> pg_data_size store" and "pg_data_size store < 2 ^ 31"
    and "\<forall>x < pg_data_size store. pg_memory store x = 0"
  shows "\<exists>p'. policy_Done p = (True, p')
    \<and> (\<forall>s \<in> fst ` set spec. \<exists>b. pg_entry (lp_policy_store p') (unat s) = Some b
        \<and> service_stored (pg_memory (lp_policy_store p')) b 0 (pg_data_size store) (spec_opcodes s spec))
    \<and> (\<forall>x \<ge> pg_data_size store. pg_memory (lp_policy_store p') x = pg_memory store x)"
proof -
  have svc: "services (lp_rules p) = sort (remdups (map fst spec))"
    unfolding services_def built_services [OF assms(1)] ..
  have "\<exists>vss. list_all2 rule_content (rules_for s (lp_rules p)) vss \<and> spec_opcodes s spec = concat vss" for s
    using built_rules_for [OF assms(1), of s] by (auto simp: spec_opcodes_def)
  moreover have "unat s < kMaxServiceCount" if "s \<in> set (services (lp_rules p))" for s
    using that assms(2) by (auto simp: svc spec_ok_def list_all_iff)
  ultimately obtain g' where g': "done_services (lp_rules p) (services (lp_rules p)) 0 (pg_data_size store) (pg_data_size store) store = (True, g')"
    "\<forall>s \<in> set (services (lp_rules p)). \<exists>b. pg_entry g' (unat s) = Some b
        \<and> service_stored (pg_memory g') b 0 (pg_data_size store) (spec_opcodes s spec)"
    "\<forall>x \<ge> pg_data_size store. pg_memory g' x = pg_memory store x"
    using done_services_correct [of "services (lp_rules p)" "lp_rules p" "\<lambda>s. spec_opcodes s spec" 0 "pg_data_size store" store]
      assms(4-6) unfolding policy_room_def svc by auto
  have "policy_Done p = (True, p\<lparr>lp_policy_store := g'\<rparr>)"
    using g'(1) by (simp add: policy_Done_def assms(3))
  moreover have "set (services (lp_rules p)) = fst ` set spec" by (simp add: svc)
  ultimately show ?thesis using g'(2,3) by auto
qed

lemma holds_groups_stored:
  assumes "service_stored m b lo hi (concat (map group_opcodes groups))"
  shows "holds_groups m b groups"
  using assms by (auto simp: holds_groups_def service_stored_def opcode_stored_def Let_def)

lemma find_map: "List.find P (map f xs) = map_option f (List.find (P \<circ> f) xs)"
  by (induction xs) simp_all

lemma stored_decides:
  assumes "list_all2 built rs spec" and "spec_ok spec" and "s \<in> fst ` set spec"
    and "service_stored m b lo hi (spec_opcodes s spec)"
    and "params \<noteq> []" and "list_all (\<lambda>(cs, action). list_all (params_ok params) cs) (spec_rules s spec)"
    and "kShortEval AND options \<noteq> 0" and "kStopOnErrors AND options = 0"
  shows "\<exists>st'. PolicyProcessor_Evaluate cmp m (Some b) options (Some params) st
      = Inr (case policy_decision cmp params s spec of None \<Rightarrow> NO_POLICY_MATCH | Some action \<Rightarrow> POLICY_MATCH, st')
    \<and> (\<forall>action. policy_decision cmp params s spec = Some action \<longrightarrow> GetAction st' = action)"
proof -
  obtain q qs where params: "params = q # qs" using assms(5) by (cases params) auto
  let ?groups = "map (rule_group_of cmp params) (spec_rules s spec)"
  have "map group_opcodes ?groups = map (\<lambda>(cs, action). rule_ops cs action) (spec_rules s spec)"
    by (simp add: group_opcodes_rule comp_def case_prod_beta)
  then have "service_stored m b lo hi (concat (map group_opcodes ?groups))"
    using assms(4) by (simp only: spec_opcodes_def)
  then have stored: "holds_groups m b ?groups" by (rule holds_groups_stored)
  have ne: "?groups \<noteq> []" using assms(3) by (auto simp: spec_rules_def filter_empty_conv)
  have "group_ok cmp (Some params) (rule_group_of cmp params x)" if x: "x \<in> set (spec_rules s spec)" for x
  proof -
    obtain cs action where ca: "x = (cs, action)" by (cases x)
    then have mem: "(s, cs, action) \<in> set spec" using x by (auto simp: spec_rules_def)
    then obtain i where "i < length spec" "spec ! i = (s, cs, action)" by (auto simp: in_set_conv_nth)
    then have "built (rs ! i) (s, cs, action)" using assms(1) by (metis list_all2_conv_all_nth)
    then obtain r where "built r (s, cs, action)" ..
    then obtain r0 where r0: "rule_holds r0 (rule_ops cs action)" by (cases r) auto
    have "rule_ok cs" "is_action action" using assms(2) mem by (auto simp: spec_ok_def list_all_iff)
    moreover have "list_all (params_ok params) cs" using assms(6) x ca by (auto simp: list_all_iff)
    ultimately show ?thesis unfolding ca using rule_group_ok [OF r0] by blast
  qed
  then have ok: "list_all (group_ok cmp (Some params)) ?groups" by (simp add: list_all_iff)
  have hold: "group_holds \<circ> rule_group_of cmp params = (\<lambda>(cs, action). list_all (condition_holds cmp params) cs)"
    by (auto simp: group_holds_rule)
  have find: "List.find group_holds ?groups
      = map_option (rule_group_of cmp params) (List.find (\<lambda>(cs, action). list_all (condition_holds cmp params) cs) (spec_rules s spec))"
    unfolding find_map hold ..
  have snd: "snd (rule_group_of cmp params x) = snd x" for x by (simp add: rule_group_of_def)
  from PolicyProcessor_first_match [of m b ?groups cmp q qs options st, folded params, OF stored ne ok assms(7,8)]
  obtain st' where st': "PolicyProcessor_Evaluate cmp m (Some b) options (Some params) st
      = Inr (case List.find group_holds ?groups of None \<Rightarrow> NO_POLICY_MATCH | Some g \<Rightarrow> POLICY_MATCH, st')"
    "\<forall>g. List.find group_holds ?groups = Some g \<longrightarrow> GetAction st' = snd g" by blast
  show ?thesis
    using st' unfolding find policy_decision_def
    by (cases "List.find (\<lambda>(cs, action). list_all (condition_holds cmp params) cs) (spec_rules s spec)")
      (auto simp: snd)
qed

subsection \<open>The policy decides as specified\<close>

text \<open>
  C12: refinement of the reference meaning, for the rules that \<open>spec_ok\<close> admits: patterns have no question
  mark but escaped ones and some character that is no star, their options do not ask for the exact length, numbers are
  compared by \<open>EQUAL\<close> or \<open>AND\<close>, a negated pattern of several pieces is the last condition of its rule, and services and
  actions are those that exist. If every rule was accepted, the policy memory is zeroed and large enough and the call's
  parameters have the types that the conditions need, \<open>Done\<close> succeeds, and the processor, run with short
  evaluation on the entry of a service, yields the action of the first rule of the service whose conditions all
  hold for the parameters, or no match if there is none. Each restriction on the rules is needed: the lemmas at
  the end of the theory show what the code does without it.
\<close>

theorem policy_decides:
  assumes "spec_ok spec" and "add_policy_rules junk spec (LowLevelPolicy store) = Inr (True, p)"
    and "policy_room spec \<le> pg_data_size store" and "pg_data_size store < 2 ^ 31"
    and "\<forall>x < pg_data_size store. pg_memory store x = 0"
    and "s \<in> fst ` set spec" and "params \<noteq> []"
    and "list_all (\<lambda>(cs, action). list_all (params_ok params) cs) (spec_rules s spec)"
    and "kShortEval AND options \<noteq> 0" and "kStopOnErrors AND options = 0"
  shows "\<exists>p' b st'. policy_Done p = (True, p') \<and> pg_entry (lp_policy_store p') (unat s) = Some b
    \<and> PolicyProcessor_Evaluate cmp (pg_memory (lp_policy_store p')) (Some b) options (Some params) st
        = Inr (case policy_decision cmp params s spec of None \<Rightarrow> NO_POLICY_MATCH | Some action \<Rightarrow> POLICY_MATCH, st')
    \<and> (\<forall>action. policy_decision cmp params s spec = Some action \<longrightarrow> GetAction st' = action)"
proof -
  note built = added_rules(1) [OF assms(1,2)] and store = added_rules(2) [OF assms(1,2)]
  from done_policy [OF built assms(1) store [symmetric] assms(3-5)] assms(6) obtain p' b where
    fin: "policy_Done p = (True, p')" "pg_entry (lp_policy_store p') (unat s) = Some b"
      "service_stored (pg_memory (lp_policy_store p')) b 0 (pg_data_size store) (spec_opcodes s spec)" by blast
  from stored_decides [OF built assms(1,6) fin(3) assms(7-10), of cmp st] fin(1,2) show ?thesis by blast
qed

definition plain_compare :: wcompare where
  "plain_compare ignore_case a b \<longleftrightarrow> a = b"

definition sample_spec :: policy_spec where
  "sample_spec = [(3, [NumberMatch IF_NOT 1 7 EQUAL, StringMatch IF 0 [99, 58, ASTERISK, 46, 116] 0], GIVE_READONLY),
     (3, [], ASK_BROKER)]"

definition sample_store :: policy_global where
  "sample_store = \<lparr>pg_entry = (\<lambda>_. None), pg_data_size = 1000, pg_memory = (\<lambda>_. 0)\<rparr>"

definition sample_params :: "parameter list" where
  "sample_params = [WcharParam (Some [99, 58, 97, 46, 116]), Uint32Param 5]"

lemma sample_added: "\<exists>p. add_policy_rules (\<lambda>_. 0) sample_spec (LowLevelPolicy sample_store) = Inr (True, p)"
  by (simp add: sample_spec_def PolicyRule_def AddNumberMatch_def AddStringMatch_def rule_make_def MakeOpNumberMatch_def then_set_def
    MakeBase_eq memory_size_def rule_sizes opcodes_offset_def kRuleBufferSize_def number_options_def GenStringOpcode_def gen_options_def
    MakeOpWStringMatch_def AllocRelative_def AddRule_def rule_Done_def MakeOpAction_def
    kLastCharIsWild_def kLastCharIsAlpha_def kLastCharIsNone_def)

lemma sample_ok: "spec_ok sample_spec" "policy_room sample_spec \<le> 1000" "list_all (\<lambda>(cs, action). list_all (params_ok sample_params) cs) (spec_rules 3 sample_spec)"
  by code_simp+

lemma sample_decision: "policy_decision plain_compare sample_params 3 sample_spec = Some GIVE_READONLY"
  by code_simp

theorem policy_decides_witness:
  "\<exists>p p' b st'. add_policy_rules (\<lambda>_. 0) sample_spec (LowLevelPolicy sample_store) = Inr (True, p)
    \<and> policy_Done p = (True, p') \<and> pg_entry (lp_policy_store p') 3 = Some b
    \<and> PolicyProcessor_Evaluate plain_compare (pg_memory (lp_policy_store p')) (Some b) 4 (Some sample_params) (SetInternalState 0 EVAL_FALSE)
        = Inr (POLICY_MATCH, st')
    \<and> GetAction st' = GIVE_READONLY"
proof -
  obtain p where p: "add_policy_rules (\<lambda>_. 0) sample_spec (LowLevelPolicy sample_store) = Inr (True, p)"
    using sample_added by blast
  show ?thesis
    using policy_decides [OF sample_ok(1) p, of 3 sample_params 4 plain_compare "SetInternalState 0 EVAL_FALSE"]
      sample_ok sample_decision p
    by (auto simp: sample_store_def sample_spec_def [THEN arg_cong, of set] sample_params_def [THEN arg_cong, of "\<lambda>x. x = []"])
qed

text \<open>
  The type invariant of a rule's buffer. After any accepted conditions, every counted opcode
  decodes to a member of the enumeration, lies below the strings, and its string lies inside of the
  buffer.
\<close>

lemma rule_opcodes_typed:
  assumes "list_all condition_ok cs" and "add_conditions cs (PolicyRule junk action) = Inr (True, r)"
    and "i < pr_opcode_count r" and "op = load_opcode (pr_memory r) (rule_opcode_address i)"
  shows "valid_opcode op \<and> rule_opcode_address i + sizeof_PolicyOpcode \<le> memory_bottom (pr_factory r)
    \<and> (op_id op = OP_WSTRING_MATCH \<longrightarrow>
        memory_bottom (pr_factory r) \<le> GetRelativeString 0 (rule_opcode_address i) op
      \<and> GetRelativeString 0 (rule_opcode_address i) op + 2 * nat (sint (GetArgument 1 op :: u32))
          \<le> opcodes_offset + kRuleBufferSize + sizeof_PolicyOpcode)"
proof -
  have "\<not> pr_done (PolicyRule junk action)" by (simp add: PolicyRule_def)
  from add_conditions_step [OF rule_holds_new assms(1) this] assms(2)
  have "rule_holds r (concat (map condition_ops cs))" by (auto simp: rule_step_def)
  then have "opcode_stored (pr_memory r) (rule_opcode_address i) (memory_bottom (pr_factory r)) rule_end (concat (map condition_ops cs) ! i)"
    "rule_opcode_address (pr_opcode_count r) \<le> memory_bottom (pr_factory r)"
    using assms(3) by (simp_all add: rule_holds_def Let_def)
  moreover have "rule_opcode_address i + sizeof_PolicyOpcode \<le> rule_opcode_address (pr_opcode_count r)"
    using assms(3) by (simp add: rule_opcode_address_simps rule_sizes)
  ultimately show ?thesis by (auto simp: opcode_stored_def assms(4) rule_end_def)
qed

lemma rule_opcodes_typed_witness:
  "\<exists>r. add_conditions [NumberMatch IF 1 7 EQUAL] (PolicyRule (\<lambda>_. 0) ASK_BROKER) = Inr (True, r)
    \<and> valid_opcode (load_opcode (pr_memory r) (rule_opcode_address 0))"
proof -
  obtain r where r: "add_conditions [NumberMatch IF 1 7 EQUAL] (PolicyRule (\<lambda>_. 0) ASK_BROKER) = Inr (True, r)"
    "pr_opcode_count r = 1"
    by (simp add: PolicyRule_def AddNumberMatch_def rule_make_def MakeOpNumberMatch_def then_set_def MakeBase_eq memory_size_def
      rule_sizes opcodes_offset_def kRuleBufferSize_def)
  have "list_all condition_ok [NumberMatch IF 1 7 EQUAL]" by simp
  from rule_opcodes_typed [OF this r(1), of 0] r show ?thesis by simp
qed

text \<open>
  C24: for rules that \<open>spec_ok\<close> admits, the policy memory is the only memory that \<open>Done\<close> writes, if it was zeroed and
  has the room that the rules need.
\<close>

theorem Done_within_memory:
  assumes "spec_ok spec" and "add_policy_rules junk spec (LowLevelPolicy store) = Inr (True, p)"
    and "policy_room spec \<le> pg_data_size store" and "pg_data_size store < 2 ^ 31"
    and "\<forall>x < pg_data_size store. pg_memory store x = 0" and "pg_data_size store \<le> x"
  shows "pg_memory (lp_policy_store (snd (policy_Done p))) x = pg_memory store x"
proof -
  note built = added_rules(1) [OF assms(1,2)] and store = added_rules(2) [OF assms(1,2)]
  from done_policy [OF built assms(1) store [symmetric] assms(3-5)] assms(6) show ?thesis by auto
qed

theorem Done_within_memory_witness:
  "\<exists>p. add_policy_rules (\<lambda>_. 0) sample_spec (LowLevelPolicy sample_store) = Inr (True, p)
    \<and> pg_memory (lp_policy_store (snd (policy_Done p))) 1000 = 0"
proof -
  obtain p where p: "add_policy_rules (\<lambda>_. 0) sample_spec (LowLevelPolicy sample_store) = Inr (True, p)"
    using sample_added by blast
  show ?thesis using Done_within_memory [OF sample_ok(1) p, of 1000] sample_ok(2) p by (auto simp: sample_store_def)
qed

subsection \<open>Where the compiler falls short\<close>

text \<open>
  \<open>Done\<close> does not count the headers of the buffers: for a policy of one rule without conditions and
  a memory of one opcode it succeeds, although the opcode reaches eight bytes past the end.
\<close>

lemma Done_past_end:
  assumes "rule_holds r [action_opcode a]" and "p = \<lparr>lp_rules = [(r, s)], lp_policy_store = g\<rparr>"
    and "unat s < kMaxServiceCount" and "pg_data_size g = sizeof_PolicyOpcode"
  shows "\<exists>p'. policy_Done p = (True, p') \<and> pg_data_size (lp_policy_store p') = 40 \<and> opcode_address 0 0 + 40 > 40
    \<and> load_bytes (pg_memory (lp_policy_store p')) (opcode_address 0 0) 40 = load_bytes (pr_memory r) (rule_opcode_address 0) 40"
proof -
  have r: "pr_opcode_count r = 1" "op_id (load_opcode (pr_memory r) (rule_opcode_address 0)) = OP_ACTION"
  proof -
    have "opcode_view (pr_memory r) (rule_opcode_address 0) = action_opcode a" "pr_opcode_count r = 1"
      using assms(1) by (simp_all add: rule_holds_def Let_def opcode_stored_def)
    then show "pr_opcode_count r = 1" "op_id (load_opcode (pr_memory r) (rule_opcode_address 0)) = OP_ACTION"
      using opcode_view_simps(3) [of "pr_memory r" "rule_opcode_address 0"] by (simp_all add: action_opcode_def)
  qed
  have "services (lp_rules p) = [s]" by (simp add: assms(2) services_def)
  then show ?thesis
    using r assms(3,4)
    by (simp add: policy_Done_def assms(2) rules_for_def RebindCopy_def Let_def rule_sizes load_store_disjoint opcode_address_def
        sizeof_PolicyBuffer_def)
qed

text \<open>
  A negated pattern of several pieces in front of another condition: when its first comparison
  fails, the action is taken without a look at the other condition.
\<close>

lemma negated_pattern_skips:
  assumes "params = [WcharParam (Some [120]), Uint32Param 0]"
    and "cs = [StringMatch IF_NOT 0 [97, ASTERISK, 98] 0, NumberMatch IF 1 5 EQUAL]"
  shows "evaluate_loop plain_compare 4 (Some params) 0 (rule_ops cs ASK_BROKER) MatchContext_Clear False False
      = Inr (POLICY_MATCH, SetInternalState 3 ASK_BROKER)"
    and "\<not> list_all (condition_holds plain_compare params) cs"
proof -
  let ?rest = "[piece_opcode 0 0 (gen_options IF_NOT True) (ToEnd, [98]), number_opcode IF 1 5 EQUAL]"
  have ops: "rule_ops cs ASK_BROKER = piece_opcode 0 0 (gen_options IF_NOT False) (Prefix, [97]) # ?rest @ [action_opcode ASK_BROKER]"
    by (simp add: assms(2) rule_ops_def)
  have param: "string_param (Some params) 0 [120]" by (simp add: string_param_def assms(1))
  have piece: "piece_ok (Prefix, [97])" by (simp add: piece_ok_def kMaxUniStrSize_def)
  have none: "None = piece_match (case_equal plain_compare 0) (Prefix, [97]) (drop (mc_position MatchContext_Clear) [120])"
    by (simp add: case_equal_def plain_compare_def MatchContext_Clear_def)
  have clear: "mc_position MatchContext_Clear \<le> length [120 :: u16]" by (simp add: MatchContext_Clear_def)
  have "\<forall>op \<in> set ?rest. \<not> IsAction (fst op)" by (simp add: IsAction_def piece_opcode_def number_opcode_def)
  from skip_conditions [OF this] show "evaluate_loop plain_compare 4 (Some params) 0 (rule_ops cs ASK_BROKER) MatchContext_Clear False False
      = Inr (POLICY_MATCH, SetInternalState 3 ASK_BROKER)"
    unfolding ops using piece_step(3) [OF param piece _ clear none] reach_action [of ASK_BROKER "Some params"]
    by (simp add: is_action_def eval_results_def assms(1) numeral_3_eq_3)
  show "\<not> list_all (condition_holds plain_compare params) cs" by (simp add: assms)
qed

text \<open>The pattern \<open>*\<close> after another condition changes that condition's options: a negation is lost.\<close>

lemma star_overwrites_options:
  assumes "rule_holds r (vs @ [v])" and "\<not> pr_done r"
  shows "\<exists>r'. AddStringMatch IF p [ASTERISK] mo r = Inr (True, r') \<and> rule_holds r' (vs @ [with_options kPolClearContext v])"
proof -
  have count: "pr_opcode_count r = length vs + 1" using assms(1) by (simp add: rule_holds_def Let_def)
  show ?thesis
    using rule_holds_options [OF assms(1) refl, of kPolClearContext] assms(2) count
    by (simp add: AddStringMatch_def GenStringOpcode_def gen_options_def kLastCharIsWild_def kLastCharIsNone_def SetOptions_def Let_def)
qed

text \<open>A question mark at the end of a pattern demands no character.\<close>

lemma trailing_question_mark:
  assumes "rule_holds r vs" and "\<not> pr_done r" and "c \<notin> {ASTERISK, QUESTION, SLASH}"
  shows "\<exists>ok r'. AddStringMatch IF p [c, QUESTION] mo r = Inr (ok, r')
    \<and> rule_step r ok r' (vs @ chain_ops IF p mo (kinds (pieces [] [c, ASTERISK])))"
proof -
  have "rule_holds r (vs @ mid_ops IF p mo [])" using assms(1) by (simp add: mid_ops_def)
  from gen_mid [OF this, of PENDING_NONE 0 "[c]"] obtain ok r1 where
    g: "GenStringOpcode IF mo p PENDING_NONE False (r, 0, [c]) = Inr (ok, r1, 0, if ok then [] else [c])"
    and h: "rule_step r ok r1 (vs @ mid_ops IF p mo [(Prefix, [c])])" by auto
  have ops: "chain_ops IF p mo (kinds (pieces [] [c, ASTERISK])) = [piece_opcode p mo (gen_options IF True) (Prefix, [c])]"
    using assms(3) by simp
  have run: "string_match_loop IF mo p [c, QUESTION] kLastCharIsNone PENDING_NONE (r, 0, [])
      = (if ok then Inr (True, PENDING_QMARK, r1, 1, []) else Inr (False, PENDING_NONE, r1, 0, [c]))"
    using g assms(3) by (simp add: kLastCharIsAlpha_def kLastCharIsAsterisk_def kLastCharIsWild_def)
  show ?thesis
  proof (cases ok)
    case False
    then show ?thesis using run h assms(2) by (simp add: AddStringMatch_def rule_step_def exI [of _ False])
  next
    case True
    then have holds: "rule_holds r1 (vs @ [piece_opcode p mo (gen_options IF False) (Prefix, [c])])"
      using h by (simp add: rule_step_def mid_ops_def)
    then have count: "pr_opcode_count r1 = length vs + 1" by (simp add: rule_holds_def Let_def)
    note opts = rule_holds_options [OF holds refl, of "gen_options IF True", unfolded with_options_piece]
    show ?thesis
      using run True h opts count assms(2) gen_options_small [of IF True] unfolding ops
      by (auto simp: AddStringMatch_def GenStringOpcode_def SetOptions_def rule_step_def Let_def intro!: exI [of _ True])
  qed
qed

text \<open>
  A star in front of a question mark is not a wildcard for every string: the piece behind the star is looked for once,
  from the left, and the comparison behind the question mark does not go back. The pattern \<open>*a?b\<close> does
  not match \<open>axaxb\<close>, and it matches \<open>axbc\<close>, because the last comparison does not ask for the end.
\<close>

lemma question_mark_after_star:
  fixes clear :: match_context and eval :: "policy_opcode \<Rightarrow> wstring \<Rightarrow> wstring \<Rightarrow> match_context option \<Rightarrow> abort + (eval_result \<times> match_context option)"
  defines "eval \<equiv> \<lambda>op f s. eval_wstring_match plain_compare op f (WcharParam (Some s))"
    and "first \<equiv> fst (piece_opcode 0 0 kPolNone (Forward, [97]))" and "second \<equiv> opcode_of OP_WSTRING_MATCH 0 kPolClearContext [0, 1, 1, 0]"
    and "after \<equiv> Some (MatchContext_Clear\<lparr>mc_position := 1\<rparr>)"
  shows "GenStringOpcode IF 0 0 PENDING_ASTERISK False (r, 0, [97])
      = res_bind (rule_make (MakeOpWStringMatch 0 (Some [97]) kSeekForward 0 kPolNone) r) (\<lambda>(made, r). Inr (made, r, 0, if made then [] else [97]))"
    and "GenStringOpcode IF 0 0 PENDING_QMARK True (r, 1, [98])
      = res_bind (rule_make (MakeOpWStringMatch 0 (Some [98]) 1 0 kPolClearContext) r) (\<lambda>(made, r). Inr (made, r, 0, if made then [] else [98]))"
    and "eval first [97] [97, 120, 97, 120, 98] (Some MatchContext_Clear) = Inr (EVAL_TRUE, after)"
    and "eval second [98] [97, 120, 97, 120, 98] after = Inr (EVAL_FALSE, after)"
    and "eval first [97] [97, 120, 98, 99] (Some MatchContext_Clear) = Inr (EVAL_TRUE, after)"
    and "\<exists>ctx. eval second [98] [97, 120, 98, 99] after = Inr (EVAL_TRUE, ctx)"
  unfolding eval_def first_def second_def after_def
  by (simp_all add: GenStringOpcode_def gen_options_def eval_wstring_match_def piece_opcode_def opcode_of_def GetArgument_def
      plain_compare_def MatchContext_Clear_def InitStringUnicode_def kMaxUniStrSize_def)
text \<open>A range comparison is counted but makes no opcode.\<close>

lemma range_makes_no_opcode:
  "\<not> pr_done r \<Longrightarrow> AddNumberMatch rt p n RANGE r = Inr (True, r\<lparr>pr_opcode_count := pr_opcode_count r + 1\<rparr>)"
  by (simp add: AddNumberMatch_def)

end
