(* ===== verification/Win_Crosscall.thy ===== *)
theory Win_Crosscall
  imports Win_Policy_Opcodes
begin

text \<open>
  The messages of the Windows IPC, \<^verbatim>\<open>win/src/crosscall_params.h\<close>,
  \<^verbatim>\<open>win/src/crosscall_client.h\<close> and \<^verbatim>\<open>win/src/crosscall_server.{h,cc}\<close>: the client packs
  the parameters of a call into a channel of shared memory; the broker copies the message while the
  client may still write to it, checks the copy, and reads the parameters from there. This is the
  64-bit build: a message is a header of 104 bytes, a type, an offset and a size for each
  parameter and for one more, and the parameters.
\<close>

subsection \<open>The layout of a message\<close>

abbreviation (input) INVALID_TYPE :: u32 where "INVALID_TYPE \<equiv> 0"
abbreviation (input) WCHAR_TYPE :: u32 where "WCHAR_TYPE \<equiv> 1"
abbreviation (input) UNISTR_TYPE :: u32 where "UNISTR_TYPE \<equiv> 3"
abbreviation (input) INPTR_TYPE :: u32 where "INPTR_TYPE \<equiv> 5"
abbreviation (input) INOUTPTR_TYPE :: u32 where "INOUTPTR_TYPE \<equiv> 6"
abbreviation (input) LAST_TYPE :: u32 where "LAST_TYPE \<equiv> 7"

definition kMaxIpcParams :: nat where "kMaxIpcParams = 9"
definition kIPCChannelSize :: nat where "kIPCChannelSize = 1024"

definition kExtendedReturnCount :: nat where "kExtendedReturnCount = 8"
definition sizeof_CrossCallReturn :: nat where "sizeof_CrossCallReturn = 24 + 8 * kExtendedReturnCount"
definition call_return_offset :: nat where "call_return_offset = 8"
definition params_count_offset :: nat where "params_count_offset = call_return_offset + sizeof_CrossCallReturn"
definition sizeof_CrossCallParams :: nat where "sizeof_CrossCallParams = params_count_offset + 8"
definition sizeof_ParamInfo :: nat where "sizeof_ParamInfo = 12"

text \<open>\<open>CrossCallParamsEx\<close> has one \<open>ParamInfo\<close>, and is aligned to 8 bytes.\<close>

definition sizeof_CrossCallParamsEx :: nat where "sizeof_CrossCallParamsEx = sizeof_CrossCallParams + 16"

definition param_info :: "nat \<Rightarrow> nat" where
  "param_info i = sizeof_CrossCallParams + i * sizeof_ParamInfo"

lemmas layout = kMaxIpcParams_def kIPCChannelSize_def kExtendedReturnCount_def sizeof_CrossCallReturn_def
  call_return_offset_def params_count_offset_def sizeof_CrossCallParams_def sizeof_ParamInfo_def
  sizeof_CrossCallParamsEx_def param_info_def

text \<open>Reading and writing a message.\<close>

definition message_bytes :: "bytes \<Rightarrow> nat \<Rightarrow> nat \<Rightarrow> bytes option" where
  "message_bytes bs off n = (if off + n \<le> length bs then Some (take n (drop off bs)) else None)"

definition message_u32 :: "bytes \<Rightarrow> nat \<Rightarrow> u32 option" where
  "message_u32 bs off = map_option le_value (message_bytes bs off 4)"

definition in_bounds :: "'a option \<Rightarrow> abort + 'a" where
  "in_bounds r = (case r of None \<Rightarrow> Inl OutOfBoundsAccess | Some x \<Rightarrow> Inr x)"

definition put_bytes :: "nat \<Rightarrow> bytes \<Rightarrow> bytes \<Rightarrow> bytes" where
  "put_bytes off xs bs = take off bs @ xs @ drop (off + length xs) bs"

definition put_u32 :: "nat \<Rightarrow> u32 \<Rightarrow> bytes \<Rightarrow> bytes" where
  "put_u32 off w bs = put_bytes off (le_bytes 4 w) bs"

subsection \<open>The client packs the parameters\<close>

definition Align :: "u32 \<Rightarrow> u32" where
  "Align v = (v + 8 - 1) div 8 * 8"

definition ActualCallParams :: "nat \<Rightarrow> u32 \<Rightarrow> bytes \<Rightarrow> bytes" where
  "ActualCallParams number_params tag channel =
     put_u32 (param_info 0 + 4) (of_nat (param_info (number_params + 1)))
       (put_u32 params_count_offset (of_nat number_params)
         (put_u32 4 0 (put_u32 0 tag channel)))"

definition SetIsInOut :: "bool \<Rightarrow> bytes \<Rightarrow> bytes" where
  "SetIsInOut v bs = put_u32 4 (if v then 1 else 0) bs"

text \<open>What is at the address of a parameter: nothing, memory that cannot be read, or bytes.\<close>

datatype parameter_address = NullAddress | BadAddress | Address bytes

definition CopyParamIn ::
    "nat \<Rightarrow> nat \<Rightarrow> parameter_address \<Rightarrow> u32 \<Rightarrow> bool \<Rightarrow> u32 \<Rightarrow> bytes \<Rightarrow> abort + (bool \<times> bytes)" where
  "CopyParamIn number_params index parameter_address param_size is_in_out type bs =
     (if index \<ge> number_params then Inr (False, bs)
      else if param_size = - 1 then Inr (False, bs)
      else if param_size \<noteq> 0 \<and> parameter_address = NullAddress then Inr (False, bs)
      else if unat param_size > kIPCChannelSize then Inr (False, bs)
      else
        res_bind (in_bounds (message_u32 bs (param_info index + 4))) (\<lambda>offset.
        if unat offset > kIPCChannelSize - unat param_size then Inr (False, bs)
        else
          (let copied = (if param_size = 0 then Some []
                         else case parameter_address of Address xs \<Rightarrow> message_bytes xs 0 (unat param_size) | _ \<Rightarrow> None) in
           case copied of
             None \<Rightarrow> Inr (False, bs)
           | Some xs \<Rightarrow>
               (let bs = put_bytes (unat offset) xs bs;
                    bs = (if is_in_out then SetIsInOut True bs else bs);
                    bs = put_u32 (param_info (index + 1) + 4) (Align (offset + param_size)) bs;
                    bs = put_u32 (param_info index + 8) param_size bs
                in Inr (True, put_u32 (param_info index) type bs)))))"

text \<open>The copy helpers: 32-bit values, pointers, strings and buffers.\<close>

datatype call_param =
    Uint32Arg u32
  | VoidPtrArg u64
  | WcharArg "wstring option"
  | BadWcharArg
  | InOutArg bytes

fun GetStart :: "call_param \<Rightarrow> parameter_address" where
  "GetStart (Uint32Arg n) = Address (le_bytes 4 n)"
| "GetStart (VoidPtrArg p) = Address (le_bytes 8 p)"
| "GetStart (WcharArg None) = NullAddress"
| "GetStart (WcharArg (Some s)) = Address (wide_bytes (s @ [0]))"
| "GetStart BadWcharArg = BadAddress"
| "GetStart (InOutArg xs) = Address xs"

fun GetSize :: "call_param \<Rightarrow> u32" where
  "GetSize (Uint32Arg n) = 4"
| "GetSize (VoidPtrArg p) = 8"
| "GetSize (WcharArg None) = 0"
| "GetSize (WcharArg (Some s)) = of_nat (2 * length s)"
| "GetSize BadWcharArg = - 1"
| "GetSize (InOutArg xs) = of_nat (length xs)"

fun IsInOut :: "call_param \<Rightarrow> bool" where
  "IsInOut (InOutArg xs) \<longleftrightarrow> True"
| "IsInOut _ \<longleftrightarrow> False"

fun GetType :: "call_param \<Rightarrow> u32" where
  "GetType (Uint32Arg n) = UINT32_TYPE"
| "GetType (VoidPtrArg p) = VOIDPTR_TYPE"
| "GetType (WcharArg s) = WCHAR_TYPE"
| "GetType BadWcharArg = WCHAR_TYPE"
| "GetType (InOutArg xs) = INOUTPTR_TYPE"

text \<open>The copies of one call, in order; the first that fails ends the call.\<close>

fun copy_params :: "nat \<Rightarrow> nat \<Rightarrow> call_param list \<Rightarrow> bytes \<Rightarrow> abort + (bool \<times> bytes)" where
  "copy_params n i [] bs = Inr (True, bs)"
| "copy_params n i (p # ps) bs =
     res_bind (CopyParamIn n i (GetStart p) (GetSize p) (IsInOut p) (GetType p) bs) (\<lambda>(ok, bs).
     if ok then copy_params n (i + 1) ps bs else Inr (False, bs))"

definition pack_call :: "u32 \<Rightarrow> call_param list \<Rightarrow> bytes \<Rightarrow> abort + (bool \<times> bytes)" where
  "pack_call tag ps channel = copy_params (length ps) 0 ps (ActualCallParams (length ps) tag channel)"

subsection \<open>The server copies and checks the message\<close>

text \<open>
  A view of the untrusted buffer: what a read would see, \<open>None\<close> where it raises an exception. The
  code reads the buffer three times, and the client may change it in between, so each read has a
  view of its own.
\<close>

type_synonym untrusted = "nat \<Rightarrow> u8 option"

definition untrusted_bytes :: "untrusted \<Rightarrow> nat \<Rightarrow> nat \<Rightarrow> bytes option" where
  "untrusted_bytes u a n =
     (if list_all (\<lambda>i. u i \<noteq> None) [a..<a + n] then Some (map (\<lambda>i. the (u i)) [a..<a + n]) else None)"

definition untrusted_u32 :: "untrusted \<Rightarrow> nat \<Rightarrow> u32 option" where
  "untrusted_u32 u a = map_option le_value (untrusted_bytes u a 4)"

text \<open>The end of the parameters, read through \<open>rd\<close>; no read for a count that is not supported.\<close>

definition GetActualBufferSize :: "u32 \<Rightarrow> (nat \<Rightarrow> u32 option) \<Rightarrow> u32 option" where
  "GetActualBufferSize param_count rd =
     (if param_count = 0 \<or> unat param_count > 9 then Some 0
      else rd (param_info (unat param_count) + 4))"

definition IsSizeWithinRange :: "u32 \<Rightarrow> u32 \<Rightarrow> u32 \<Rightarrow> bool" where
  "IsSizeWithinRange buffer_size min_declared_size declared_size \<longleftrightarrow>
     (if buffer_size < min_declared_size \<or> sizeof_CrossCallParamsEx > unat min_declared_size then False
      else if declared_size > buffer_size \<or> declared_size < min_declared_size then False
      else True)"

text \<open>The sum of 32 bits, the product of 64, and the result cut to 32.\<close>

definition min_size :: "u32 \<Rightarrow> u32" where
  "min_size param_count =
     ucast (of_nat sizeof_CrossCallParams + (ucast (param_count + 1) :: u64) * of_nat sizeof_ParamInfo)"

text \<open>The checked copy, and the address of its memory.\<close>

record cross_params =
  cp_base :: u64
  cp_bytes :: bytes

definition GetTag :: "cross_params \<Rightarrow> abort + u32" where
  "GetTag p = in_bounds (message_u32 (cp_bytes p) 0)"

definition GetParamsCount :: "cross_params \<Rightarrow> abort + u32" where
  "GetParamsCount p = in_bounds (message_u32 (cp_bytes p) params_count_offset)"

definition params_IsInOut :: "cross_params \<Rightarrow> abort + bool" where
  "params_IsInOut p = res_bind (in_bounds (message_u32 (cp_bytes p) 4)) (\<lambda>w. Inr (w = 1))"

text \<open>The address, the size and the type of a parameter; \<open>None\<close> is a null pointer.\<close>

definition GetRawParameter :: "u32 \<Rightarrow> cross_params \<Rightarrow> abort + (u64 \<times> u32 \<times> u32) option" where
  "GetRawParameter index p =
     res_bind (GetParamsCount p) (\<lambda>count.
     if index \<ge> count then Inr None
     else
       res_bind (in_bounds (message_u32 (cp_bytes p) (param_info (unat index) + 8))) (\<lambda>param_size.
       res_bind (in_bounds (message_u32 (cp_bytes p) (param_info (unat index)))) (\<lambda>type.
       res_bind (in_bounds (message_u32 (cp_bytes p) (param_info (unat index) + 4))) (\<lambda>offset.
       Inr (Some (cp_base p + ucast offset, param_size, type))))))"

definition malformed :: "u64 \<Rightarrow> u64 \<Rightarrow> u64 \<Rightarrow> u64 \<Rightarrow> u32 \<Rightarrow> u32 \<Rightarrow> bool" where
  "malformed backing_mem first_byte last_byte address param_size type \<longleftrightarrow>
     address = 0 \<or> 0 \<ge> sint type \<or> sint LAST_TYPE \<le> sint type
   \<or> address < backing_mem \<or> address < first_byte \<or> address > last_byte
   \<or> address + ucast param_size < address \<or> address + ucast param_size > last_byte"

fun check_params :: "cross_params \<Rightarrow> u64 \<Rightarrow> u64 \<Rightarrow> nat \<Rightarrow> u32 \<Rightarrow> abort + bool" where
  "check_params p first_byte last_byte 0 ix = Inr True"
| "check_params p first_byte last_byte (Suc n) ix =
     res_bind (GetRawParameter ix p) (\<lambda>raw.
     case raw of
       None \<Rightarrow> Inr False
     | Some (address, param_size, type) \<Rightarrow>
         if malformed (cp_base p) first_byte last_byte address param_size type then Inr False
         else check_params p first_byte last_byte n (ix + 1))"

text \<open>\<open>backing_mem\<close> is what \<open>new\<close> returns. The copy's length is the output size.\<close>

definition CreateFromBuffer ::
    "(untrusted \<times> untrusted \<times> untrusted) option \<Rightarrow> u32 \<Rightarrow> u64 \<Rightarrow> abort + cross_params option" where
  "CreateFromBuffer buffer_base buffer_size backing_mem =
     (case buffer_base of
        None \<Rightarrow> Inr None
      | Some (view0, view1, view2) \<Rightarrow>
          if unat buffer_size < sizeof_CrossCallParams \<or> unat buffer_size > kIPCChannelSize then Inr None
          else
            (case untrusted_u32 view0 params_count_offset of
               None \<Rightarrow> Inr None
             | Some param_count \<Rightarrow>
                 (case GetActualBufferSize param_count (untrusted_u32 view1) of
                    None \<Rightarrow> Inr None
                  | Some declared_size \<Rightarrow>
                      if \<not> IsSizeWithinRange buffer_size (min_size param_count) declared_size then Inr None
                      else
                        (case untrusted_bytes view2 0 (unat declared_size) of
                           None \<Rightarrow> Inr None
                         | Some copied \<Rightarrow>
                             (let p = \<lparr>cp_base = backing_mem, cp_bytes = copied\<rparr> in
                              res_bind (GetParamsCount p) (\<lambda>count.
                              if count \<noteq> param_count then Inr None
                              else
                                res_bind (in_bounds (GetActualBufferSize param_count (message_u32 copied))) (\<lambda>actual_size.
                                if actual_size \<noteq> declared_size
                                  \<or> \<not> IsSizeWithinRange buffer_size (min_size param_count) declared_size
                                then Inr None
                                else
                                  res_bind (check_params p (backing_mem + ucast (min_size param_count))
                                      (backing_mem + ucast declared_size) (unat param_count) 0) (\<lambda>ok.
                                  Inr (if ok then Some p else None)))))))))"

subsection \<open>The server reads the parameters\<close>

text \<open>Reading memory at an address has to stay inside of the copy.\<close>

definition load_param :: "cross_params \<Rightarrow> u64 \<Rightarrow> nat \<Rightarrow> abort + bytes" where
  "load_param p a n = in_bounds (message_bytes (cp_bytes p) (unat (a - cp_base p)) n)"

definition GetParameter32 :: "u32 \<Rightarrow> cross_params \<Rightarrow> abort + u32 option" where
  "GetParameter32 index p =
     res_bind (GetRawParameter index p) (\<lambda>raw.
     case raw of
       None \<Rightarrow> Inr None
     | Some (start, param_size, type) \<Rightarrow>
         if start = 0 \<or> 4 \<noteq> param_size \<or> UINT32_TYPE \<noteq> type then Inr None
         else res_bind (load_param p start 4) (\<lambda>bs. Inr (Some (le_value bs))))"

definition GetParameterVoidPtr :: "u32 \<Rightarrow> cross_params \<Rightarrow> abort + u64 option" where
  "GetParameterVoidPtr index p =
     res_bind (GetRawParameter index p) (\<lambda>raw.
     case raw of
       None \<Rightarrow> Inr None
     | Some (start, param_size, type) \<Rightarrow>
         if start = 0 \<or> 8 \<noteq> param_size \<or> VOIDPTR_TYPE \<noteq> type then Inr None
         else res_bind (load_param p start 8) (\<lambda>bs. Inr (Some (le_value bs))))"

text \<open>For a parameter that does not exist the type is compared before it was assigned.\<close>

definition GetParameterStr :: "u32 \<Rightarrow> wstring \<Rightarrow> cross_params \<Rightarrow> abort + wstring option" where
  "GetParameterStr index string p =
     res_bind (GetRawParameter index p) (\<lambda>raw.
     case raw of
       None \<Rightarrow> Inl (CheckFailed ''uninitialized'')
     | Some (start, param_size, type) \<Rightarrow>
         if WCHAR_TYPE \<noteq> type then Inr None
         else if param_size = 0 then Inr (Some [])
         else if start = 0 \<or> param_size mod 2 \<noteq> 0 then Inr None
         else res_bind (load_param p start (unat param_size)) (\<lambda>bs. Inr (Some (string @ u16_list bs))))"

definition GetParameterPtr :: "u32 \<Rightarrow> u32 \<Rightarrow> cross_params \<Rightarrow> abort + u64 option" where
  "GetParameterPtr index expected_size p =
     res_bind (GetRawParameter index p) (\<lambda>raw.
     case raw of
       None \<Rightarrow> Inl (CheckFailed ''uninitialized'')
     | Some (start, param_size, type) \<Rightarrow>
         if param_size \<noteq> expected_size \<or> INOUTPTR_TYPE \<noteq> type \<or> start = 0 then Inr None else Inr (Some start))"

subsection \<open>A checked message is well formed\<close>

lemma unat_add_no_wrap:
  assumes "x \<le> x + (y :: u64)"
  shows "unat (x + y) = unat x + unat y"
proof -
  have "uint x + uint y < 2 ^ 64" using no_olen_add [of x y] assms by simp
  then have "int (unat x + unat y) < int (2 ^ 64)" by (simp only: uint_nat) simp
  then have "unat x + unat y < 2 ^ 64" by (simp only: of_nat_less_iff)
  then show ?thesis by (simp add: unat_word_ariths)
qed

lemma unat_ucast_u32_u64 [simp]: "unat (ucast (x :: u32) :: u64) = unat x"
  using unat_u32_less [of x] by (simp add: unsigned_ucast_eq take_bit_nat_eq_self)

lemma in_bounds_simps [simp]: "in_bounds (Some x) = Inr x" "in_bounds None = Inl OutOfBoundsAccess"
  by (simp_all add: in_bounds_def)

lemma message_bytes_Some: "off + n \<le> length bs \<Longrightarrow> message_bytes bs off n = Some (take n (drop off bs))"
  by (simp add: message_bytes_def)

lemma message_u32_Some: "off + 4 \<le> length bs \<Longrightarrow> \<exists>w. message_u32 bs off = Some w"
  by (simp add: message_u32_def message_bytes_def)

text \<open>The parameter with index \<open>i\<close> of a message: its type, offset and size.\<close>

definition param_at :: "bytes \<Rightarrow> nat \<Rightarrow> u32 \<Rightarrow> u32 \<Rightarrow> u32 \<Rightarrow> bool" where
  "param_at bs i type off sz \<longleftrightarrow>
     message_u32 bs (param_info i) = Some type \<and> message_u32 bs (param_info i + 4) = Some off
   \<and> message_u32 bs (param_info i + 8) = Some sz"

definition valid_message :: "cross_params \<Rightarrow> nat \<Rightarrow> bool" where
  "valid_message p n \<longleftrightarrow>
     0 < n \<and> n \<le> kMaxIpcParams
   \<and> message_u32 (cp_bytes p) params_count_offset = Some (of_nat n)
   \<and> param_info (n + 1) \<le> length (cp_bytes p) \<and> unat (cp_base p) + length (cp_bytes p) < 2 ^ 64
   \<and> (\<forall>i < n. \<exists>type off sz. param_at (cp_bytes p) i type off sz
        \<and> 0 < sint type \<and> sint type < sint LAST_TYPE
        \<and> param_info (n + 1) \<le> unat off \<and> unat off + unat sz \<le> length (cp_bytes p))"

lemma GetRawParameter_at:
  assumes "message_u32 (cp_bytes p) params_count_offset = Some (of_nat n)" and "n \<le> kMaxIpcParams" and "i < n"
    and "param_at (cp_bytes p) i type off sz"
  shows "GetRawParameter (of_nat i) p = Inr (Some (cp_base p + ucast off, sz, type))"
proof -
  have "unat (of_nat i :: u32) = i" "unat (of_nat n :: u32) = n"
    using assms(2,3) by (simp_all add: unat_of_nat_small layout)
  then show ?thesis
    using assms(1,3,4) by (simp add: GetRawParameter_def GetParamsCount_def param_at_def word_le_nat_alt not_le)
qed

lemma param_at_exists:
  assumes "param_info (n + 1) \<le> length bs" and "i < n"
  shows "\<exists>type off sz. param_at bs i type off sz"
proof -
  have "param_info i + 12 \<le> param_info (n + 1)" using assms(2) by (simp add: param_info_def sizeof_ParamInfo_def)
  then have "param_info i + 12 \<le> length bs" using assms(1) by simp
  then show ?thesis
    using message_u32_Some [of "param_info i" bs] message_u32_Some [of "param_info i + 4" bs]
      message_u32_Some [of "param_info i + 8" bs]
    by (auto simp: param_at_def)
qed

text \<open>The checks on one parameter.\<close>

lemma well_formed_param:
  assumes "\<not> malformed base (base + first) (base + stop) (base + ucast off) sz type"
    and "unat base + unat stop < 2 ^ 64" and "first \<le> stop"
  shows "0 < sint type" and "sint type < sint LAST_TYPE" and "unat first \<le> unat off"
    and "unat (off :: u32) + unat (sz :: u32) \<le> unat stop"
proof -
  let ?a = "base + ucast off :: u64"
  have m: "0 < sint type" "sint type < sint LAST_TYPE" "base \<le> ?a" "base + first \<le> ?a" "?a \<le> ?a + ucast sz"
    "?a + ucast sz \<le> base + stop"
    using assms(1) by (auto simp: malformed_def not_le not_less)
  have a: "unat ?a = unat base + unat off" using unat_add_no_wrap [OF m(3)] by simp
  have "unat (?a + ucast sz) = unat ?a + unat sz" using unat_add_no_wrap [OF m(5)] by simp
  moreover have l: "unat (base + stop) = unat base + unat stop"
    using assms(2) by (simp add: unat_word_ariths)
  ultimately show "unat off + unat sz \<le> unat stop" using m(6) a by (simp add: word_le_nat_alt)
  have "unat first \<le> unat stop" using assms(3) by (simp add: word_le_nat_alt)
  then have "unat (base + first) = unat base + unat first" using assms(2) by (simp add: unat_word_ariths)
  then show "unat first \<le> unat off" using m(4) a by (simp add: word_le_nat_alt)
  show "0 < sint type" "sint type < sint LAST_TYPE" by (rule m)+
qed

lemma check_params_result:
  assumes "message_u32 (cp_bytes p) params_count_offset = Some (of_nat N)" and "N \<le> kMaxIpcParams"
    and "param_info (N + 1) \<le> length (cp_bytes p)" and "ix + n = N"
  shows "\<exists>ok. check_params p f l n (of_nat ix) = Inr ok
    \<and> (ok \<longrightarrow> (\<forall>i. ix \<le> i \<and> i < N \<longrightarrow> (\<exists>type off sz. param_at (cp_bytes p) i type off sz
          \<and> \<not> malformed (cp_base p) f l (cp_base p + ucast off) sz type)))"
  using assms(4)
proof (induction n arbitrary: ix)
  case 0
  then show ?case by (intro exI [of _ True] conjI impI allI) (simp, linarith)
next
  case (Suc n)
  have ix: "ix < N" using Suc.prems by simp
  obtain type off sz where at: "param_at (cp_bytes p) ix type off sz"
    using param_at_exists [OF assms(3) ix] by blast
  note raw = GetRawParameter_at [OF assms(1,2) ix at]
  show ?case
  proof (cases "malformed (cp_base p) f l (cp_base p + ucast off) sz type")
    case True
    then show ?thesis using raw by (simp add: exI [of _ False])
  next
    case False
    have next_ix: "(of_nat ix :: u32) + 1 = of_nat (Suc ix)" by simp
    obtain ok where ih: "check_params p f l n (of_nat (Suc ix)) = Inr ok"
      "ok \<longrightarrow> (\<forall>i. Suc ix \<le> i \<and> i < N \<longrightarrow> (\<exists>type off sz. param_at (cp_bytes p) i type off sz
          \<and> \<not> malformed (cp_base p) f l (cp_base p + ucast off) sz type))"
      using Suc.IH [of "Suc ix"] Suc.prems by auto
    have "check_params p f l (Suc n) (of_nat ix) = Inr ok"
      using raw False ih(1) by (simp add: next_ix del: of_nat_Suc)
    moreover have "ok \<longrightarrow> (\<forall>i. ix \<le> i \<and> i < N \<longrightarrow> (\<exists>type off sz. param_at (cp_bytes p) i type off sz
          \<and> \<not> malformed (cp_base p) f l (cp_base p + ucast off) sz type))"
    proof (intro impI allI)
      fix i assume ok and i: "ix \<le> i \<and> i < N"
      show "\<exists>type off sz. param_at (cp_bytes p) i type off sz \<and> \<not> malformed (cp_base p) f l (cp_base p + ucast off) sz type"
      proof (cases "i = ix")
        case True
        then show ?thesis using at False by blast
      next
        case False
        then show ?thesis using ih(2) \<open>ok\<close> i by auto
      qed
    qed
    ultimately show ?thesis by blast
  qed
qed

lemma min_size_small:
  assumes "n \<le> kMaxIpcParams"
  shows "unat (min_size (of_nat n)) = param_info (n + 1)"
proof -
  have "n \<in> {0, 1, 2, 3, 4, 5, 6, 7, 8, 9}" using assms by (auto simp: kMaxIpcParams_def)
  then show ?thesis by (auto simp: min_size_def layout)
qed

text \<open>Sizes in range belong to a message of one to nine parameters.\<close>

lemma size_within_range:
  assumes "IsSizeWithinRange buffer_size (min_size param_count) declared"
    and "GetActualBufferSize param_count rd = Some declared"
  shows "\<exists>n. 0 < n \<and> n \<le> kMaxIpcParams \<and> param_count = of_nat n \<and> param_info (n + 1) \<le> unat declared \<and> declared \<le> buffer_size
    \<and> min_size param_count \<le> declared"
proof -
  have r: "sizeof_CrossCallParamsEx \<le> unat (min_size param_count)" "declared \<le> buffer_size" "min_size param_count \<le> declared"
    using assms(1) by (auto simp: IsSizeWithinRange_def split: if_splits)
  have "\<not> (param_count = 0 \<or> unat param_count > 9)"
  proof
    assume "param_count = 0 \<or> unat param_count > 9"
    then have "declared = 0" using assms(2) by (auto simp: GetActualBufferSize_def)
    then have "unat (min_size param_count) = 0" using r(3) by (simp add: word_le_nat_alt)
    then show False using r(1) by (simp add: layout)
  qed
  then have n: "0 < unat param_count" "unat param_count \<le> kMaxIpcParams"
    by (auto simp: kMaxIpcParams_def unat_gt_0)
  then have "param_info (unat param_count + 1) \<le> unat declared"
    using r(3) min_size_small [OF n(2)] by (simp add: word_le_nat_alt)
  then show ?thesis using n r by (intro exI [of _ "unat param_count"]) simp
qed

lemma untrusted_length: "untrusted_bytes u a n = Some bs \<Longrightarrow> length bs = n"
  by (auto simp: untrusted_bytes_def split: if_splits)

lemma CreateFromBuffer_result:
  assumes "unat base + kIPCChannelSize < 2 ^ 64"
  shows "\<exists>r. CreateFromBuffer buffer buffer_size base = Inr r
    \<and> (\<forall>p. r = Some p \<longrightarrow> cp_base p = base \<and> length (cp_bytes p) \<le> unat buffer_size \<and> (\<exists>n. valid_message p n))"
proof (cases "CreateFromBuffer buffer buffer_size base = Inr None")
  case False
  then obtain v0 v1 v2 where b: "buffer = Some (v0, v1, v2)" and size: "unat buffer_size \<le> kIPCChannelSize"
    by (cases buffer) (auto simp: CreateFromBuffer_def split: if_splits)
  obtain pc where pc: "untrusted_u32 v0 params_count_offset = Some pc"
    using False by (cases "untrusted_u32 v0 params_count_offset") (auto simp: CreateFromBuffer_def b split: if_splits)
  obtain declared where d: "GetActualBufferSize pc (untrusted_u32 v1) = Some declared"
    using False by (cases "GetActualBufferSize pc (untrusted_u32 v1)") (auto simp: CreateFromBuffer_def b pc split: if_splits)
  have r: "IsSizeWithinRange buffer_size (min_size pc) declared"
    using False by (auto simp: CreateFromBuffer_def b pc d split: if_splits)
  obtain copied where c: "untrusted_bytes v2 0 (unat declared) = Some copied"
    using False r by (cases "untrusted_bytes v2 0 (unat declared)") (auto simp: CreateFromBuffer_def b pc d split: if_splits)
  obtain n where n: "0 < n" "n \<le> kMaxIpcParams" "pc = of_nat n" "param_info (n + 1) \<le> unat declared" "declared \<le> buffer_size"
    "min_size pc \<le> declared"
    using size_within_range [OF r d] by blast
  have len: "length copied = unat declared" by (rule untrusted_length [OF c])
  let ?p = "\<lparr>cp_base = base, cp_bytes = copied\<rparr>"
  have un: "unat (of_nat n :: u32) = n" using n(2) by (simp add: unat_of_nat_small kMaxIpcParams_def)
  have hd: "param_info 0 \<le> length copied" using n(4) len by (simp add: layout)
  then obtain count where count: "message_u32 copied params_count_offset = Some count"
    using message_u32_Some [of params_count_offset copied] by (auto simp: layout)
  obtain sz where sz: "GetActualBufferSize pc (message_u32 copied) = Some sz"
  proof -
    have "param_info (unat pc) + 8 \<le> length copied" using n(4) len by (simp add: n(3) un layout)
    then have "\<exists>w. message_u32 copied (param_info (unat pc) + 4) = Some w" by (intro message_u32_Some) simp
    then obtain w where "message_u32 copied (param_info (unat pc) + 4) = Some w" ..
    then show ?thesis
      using that [of "if pc = 0 \<or> unat pc > 9 then 0 else w"] by (simp add: GetActualBufferSize_def)
  qed
  have lt: "\<not> (unat buffer_size < sizeof_CrossCallParams \<or> unat buffer_size > kIPCChannelSize)"
    using False by (auto simp: CreateFromBuffer_def b)
  have run: "CreateFromBuffer buffer buffer_size base
    = (if count \<noteq> pc then Inr None
       else if sz \<noteq> declared then Inr None
       else res_bind (check_params ?p (base + ucast (min_size pc)) (base + ucast declared) (unat pc) 0)
              (\<lambda>ok. Inr (if ok then Some ?p else None)))"
    using lt by (simp add: CreateFromBuffer_def b pc d r c GetParamsCount_def count sz Let_def)
  have eq: "count = pc" "sz = declared" using False unfolding run by (auto split: if_splits)
  have msg: "message_u32 (cp_bytes ?p) params_count_offset = Some (of_nat n)" using count eq n(3) by simp
  have full: "param_info (n + 1) \<le> length (cp_bytes ?p)" using n(4) len by simp
  obtain ok where ok: "check_params ?p (base + ucast (min_size pc)) (base + ucast declared) n (of_nat 0) = Inr ok"
    "ok \<longrightarrow> (\<forall>i. 0 \<le> i \<and> i < n \<longrightarrow> (\<exists>type off sz. param_at (cp_bytes ?p) i type off sz
          \<and> \<not> malformed (cp_base ?p) (base + ucast (min_size pc)) (base + ucast declared) (cp_base ?p + ucast off) sz type))"
    using check_params_result [OF msg n(2) full, of 0 n "base + ucast (min_size pc)" "base + ucast declared"] by auto
  have run': "CreateFromBuffer buffer buffer_size base = Inr (if ok then Some ?p else None)"
    unfolding run using eq ok(1) by (simp add: n(3) un)
  then have "ok" using False by (auto split: if_splits)
  have wrap: "unat base + unat (ucast declared :: u64) < 2 ^ 64"
    using assms size n(5) by (simp add: word_le_nat_alt)
  have first: "(ucast (min_size pc) :: u64) \<le> ucast declared" using n(6) by (simp add: word_le_nat_alt)
  have "\<exists>type off sz. param_at copied i type off sz \<and> 0 < sint type \<and> sint type < sint LAST_TYPE
      \<and> param_info (n + 1) \<le> unat off \<and> unat off + unat sz \<le> length copied" if "i < n" for i
  proof -
    obtain type off sz where at: "param_at copied i type off sz"
      "\<not> malformed base (base + ucast (min_size pc)) (base + ucast declared) (base + ucast off) sz type"
      using ok(2) \<open>ok\<close> \<open>i < n\<close> by auto
    from well_formed_param [OF at(2) wrap first] at(1) show ?thesis
      by (intro exI [of _ type] exI [of _ off] exI [of _ sz]) (simp add: min_size_small [OF n(2)] n(3) len)
  qed
  then have "valid_message ?p n"
    using n msg full wrap by (simp add: valid_message_def len)
  then show ?thesis using run' \<open>ok\<close> len n(5) by (auto simp: word_le_nat_alt)
qed simp

end
