(* ===== verification/Win_Ipc_Server.thy ===== *)
theory Win_Ipc_Server
  imports Win_Crosscall
begin

text \<open>
  The broker's side of the Windows IPC, \<^verbatim>\<open>win/src/sharedmem_ipc_server.cc\<close>,
  \<^verbatim>\<open>win/src/top_level_dispatcher.cc\<close> and the call tables of the \<^verbatim>\<open>win/src/*_dispatcher.cc\<close>: the
  parameters of a checked message become the arguments of a handler, chosen by the tag and the
  types of the parameters. What a handler does is a parameter of the model.
\<close>

subsection \<open>Tags\<close>

datatype ipc_tag =
    IPC_UNUSED_TAG | IPC_PING1_TAG | IPC_PING2_TAG | IPC_NTCREATEFILE_TAG | IPC_NTOPENFILE_TAG
  | IPC_NTQUERYATTRIBUTESFILE_TAG | IPC_NTQUERYFULLATTRIBUTESFILE_TAG | IPC_NTSETINFO_RENAME_TAG
  | IPC_CREATENAMEDPIPEW_TAG | IPC_NTOPENTHREAD_TAG | IPC_NTOPENPROCESS_TAG | IPC_NTOPENPROCESSTOKEN_TAG
  | IPC_NTOPENPROCESSTOKENEX_TAG | IPC_CREATEPROCESSW_TAG | IPC_CREATEEVENT_TAG | IPC_OPENEVENT_TAG
  | IPC_NTCREATEKEY_TAG | IPC_NTOPENKEY_TAG | IPC_GDI_GDIDLLINITIALIZE_TAG | IPC_GDI_GETSTOCKOBJECT_TAG
  | IPC_USER_REGISTERCLASSW_TAG | IPC_CREATETHREAD_TAG | IPC_USER_ENUMDISPLAYMONITORS_TAG
  | IPC_USER_ENUMDISPLAYDEVICES_TAG | IPC_USER_GETMONITORINFO_TAG | IPC_GDI_CREATEOPMPROTECTEDOUTPUTS_TAG
  | IPC_GDI_GETCERTIFICATE_TAG | IPC_GDI_GETCERTIFICATESIZE_TAG | IPC_GDI_DESTROYOPMPROTECTEDOUTPUT_TAG
  | IPC_GDI_CONFIGUREOPMPROTECTEDOUTPUT_TAG | IPC_GDI_GETOPMINFORMATION_TAG | IPC_GDI_GETOPMRANDOMNUMBER_TAG
  | IPC_GDI_GETSUGGESTEDOPMPROTECTEDOUTPUTARRAYSIZE_TAG | IPC_GDI_SETOPMSIGNINGKEYANDSEQUENCENUMBERS_TAG
  | IPC_LAST_TAG

definition ipc_tags :: "ipc_tag list" where
  "ipc_tags =
     [IPC_UNUSED_TAG, IPC_PING1_TAG, IPC_PING2_TAG, IPC_NTCREATEFILE_TAG, IPC_NTOPENFILE_TAG,
      IPC_NTQUERYATTRIBUTESFILE_TAG, IPC_NTQUERYFULLATTRIBUTESFILE_TAG, IPC_NTSETINFO_RENAME_TAG,
      IPC_CREATENAMEDPIPEW_TAG, IPC_NTOPENTHREAD_TAG, IPC_NTOPENPROCESS_TAG, IPC_NTOPENPROCESSTOKEN_TAG,
      IPC_NTOPENPROCESSTOKENEX_TAG, IPC_CREATEPROCESSW_TAG, IPC_CREATEEVENT_TAG, IPC_OPENEVENT_TAG,
      IPC_NTCREATEKEY_TAG, IPC_NTOPENKEY_TAG, IPC_GDI_GDIDLLINITIALIZE_TAG, IPC_GDI_GETSTOCKOBJECT_TAG,
      IPC_USER_REGISTERCLASSW_TAG, IPC_CREATETHREAD_TAG, IPC_USER_ENUMDISPLAYMONITORS_TAG,
      IPC_USER_ENUMDISPLAYDEVICES_TAG, IPC_USER_GETMONITORINFO_TAG, IPC_GDI_CREATEOPMPROTECTEDOUTPUTS_TAG,
      IPC_GDI_GETCERTIFICATE_TAG, IPC_GDI_GETCERTIFICATESIZE_TAG, IPC_GDI_DESTROYOPMPROTECTEDOUTPUT_TAG,
      IPC_GDI_CONFIGUREOPMPROTECTEDOUTPUT_TAG, IPC_GDI_GETOPMINFORMATION_TAG, IPC_GDI_GETOPMRANDOMNUMBER_TAG,
      IPC_GDI_GETSUGGESTEDOPMPROTECTEDOUTPUTARRAYSIZE_TAG, IPC_GDI_SETOPMSIGNINGKEYANDSEQUENCENUMBERS_TAG,
      IPC_LAST_TAG]"

text \<open>The enumerators have the values 0, 1, ...\<close>

fun position :: "'a list \<Rightarrow> 'a \<Rightarrow> nat" where
  "position [] x = 0"
| "position (y # ys) x = (if x = y then 0 else Suc (position ys x))"

definition ipc_tag_code :: "ipc_tag \<Rightarrow> u32" where
  "ipc_tag_code t = of_nat (position ipc_tags t)"

subsection \<open>Calls and their signatures\<close>

record ipc_params =
  ip_tag :: u32
  ip_args :: "u32 list"

definition IPCParams_Matches :: "ipc_params \<Rightarrow> ipc_params \<Rightarrow> bool" where
  "IPCParams_Matches self other \<longleftrightarrow> self = other"

text \<open>The arguments that are not listed have the value 0.\<close>

definition signature :: "ipc_tag \<Rightarrow> u32 list \<Rightarrow> ipc_params" where
  "signature tag types = \<lparr>ip_tag = ipc_tag_code tag, ip_args = types @ replicate (kMaxIpcParams - length types) INVALID_TYPE\<rparr>"

datatype dispatcher = FilesystemDispatcher | NamedPipeDispatcher | ThreadProcessDispatcher | SyncDispatcher
  | RegistryDispatcher | ProcessMitigationsWin32KDispatcher

datatype handler =
    Ping
  | NtCreateFile | NtOpenFile | NtQueryAttributesFile | NtQueryFullAttributesFile | NtSetInformationFile
  | CreateNamedPipe
  | NtOpenThread | NtOpenProcess | NtOpenProcessToken | NtOpenProcessTokenEx | CreateProcessW | CreateThread
  | CreateEvent | OpenEvent
  | NtCreateKey | NtOpenKey
  | EnumDisplayMonitors | GetMonitorInfo | GetSuggestedOPMProtectedOutputArraySize | CreateOPMProtectedOutputs
  | GetCertificateSize | GetCertificate | DestroyOPMProtectedOutput | GetOPMRandomNumber
  | SetOPMSigningKeyAndSequenceNumbers | ConfigureOPMProtectedOutput | GetOPMInformation

type_synonym ipc_call = "ipc_params \<times> handler"

definition FilesystemDispatcher_calls :: "ipc_call list" where
  "FilesystemDispatcher_calls =
     [(signature IPC_NTCREATEFILE_TAG [WCHAR_TYPE, UINT32_TYPE, UINT32_TYPE, UINT32_TYPE, UINT32_TYPE, UINT32_TYPE, UINT32_TYPE],
       NtCreateFile),
      (signature IPC_NTOPENFILE_TAG [WCHAR_TYPE, UINT32_TYPE, UINT32_TYPE, UINT32_TYPE, UINT32_TYPE], NtOpenFile),
      (signature IPC_NTQUERYATTRIBUTESFILE_TAG [WCHAR_TYPE, UINT32_TYPE, INOUTPTR_TYPE], NtQueryAttributesFile),
      (signature IPC_NTQUERYFULLATTRIBUTESFILE_TAG [WCHAR_TYPE, UINT32_TYPE, INOUTPTR_TYPE], NtQueryFullAttributesFile),
      (signature IPC_NTSETINFO_RENAME_TAG [VOIDPTR_TYPE, INOUTPTR_TYPE, INOUTPTR_TYPE, UINT32_TYPE, UINT32_TYPE],
       NtSetInformationFile)]"

definition NamedPipeDispatcher_calls :: "ipc_call list" where
  "NamedPipeDispatcher_calls =
     [(signature IPC_CREATENAMEDPIPEW_TAG [WCHAR_TYPE, UINT32_TYPE, UINT32_TYPE, UINT32_TYPE, UINT32_TYPE, UINT32_TYPE, UINT32_TYPE],
       CreateNamedPipe)]"

definition ThreadProcessDispatcher_calls :: "ipc_call list" where
  "ThreadProcessDispatcher_calls =
     [(signature IPC_NTOPENTHREAD_TAG [UINT32_TYPE, UINT32_TYPE], NtOpenThread),
      (signature IPC_NTOPENPROCESS_TAG [UINT32_TYPE, UINT32_TYPE], NtOpenProcess),
      (signature IPC_NTOPENPROCESSTOKEN_TAG [VOIDPTR_TYPE, UINT32_TYPE], NtOpenProcessToken),
      (signature IPC_NTOPENPROCESSTOKENEX_TAG [VOIDPTR_TYPE, UINT32_TYPE, UINT32_TYPE], NtOpenProcessTokenEx),
      (signature IPC_CREATEPROCESSW_TAG [WCHAR_TYPE, WCHAR_TYPE, WCHAR_TYPE, WCHAR_TYPE, INOUTPTR_TYPE], CreateProcessW),
      (signature IPC_CREATETHREAD_TAG [VOIDPTR_TYPE, VOIDPTR_TYPE, VOIDPTR_TYPE, UINT32_TYPE], CreateThread)]"

definition SyncDispatcher_calls :: "ipc_call list" where
  "SyncDispatcher_calls =
     [(signature IPC_CREATEEVENT_TAG [WCHAR_TYPE, UINT32_TYPE, UINT32_TYPE], CreateEvent),
      (signature IPC_OPENEVENT_TAG [WCHAR_TYPE, UINT32_TYPE], OpenEvent)]"

definition RegistryDispatcher_calls :: "ipc_call list" where
  "RegistryDispatcher_calls =
     [(signature IPC_NTCREATEKEY_TAG [WCHAR_TYPE, UINT32_TYPE, VOIDPTR_TYPE, UINT32_TYPE, UINT32_TYPE, UINT32_TYPE], NtCreateKey),
      (signature IPC_NTOPENKEY_TAG [WCHAR_TYPE, UINT32_TYPE, VOIDPTR_TYPE, UINT32_TYPE], NtOpenKey)]"

definition Win32KDispatcher_calls :: "ipc_call list" where
  "Win32KDispatcher_calls =
     [(signature IPC_USER_ENUMDISPLAYMONITORS_TAG [INOUTPTR_TYPE], EnumDisplayMonitors),
      (signature IPC_USER_GETMONITORINFO_TAG [VOIDPTR_TYPE, INOUTPTR_TYPE], GetMonitorInfo),
      (signature IPC_GDI_GETSUGGESTEDOPMPROTECTEDOUTPUTARRAYSIZE_TAG [WCHAR_TYPE], GetSuggestedOPMProtectedOutputArraySize),
      (signature IPC_GDI_CREATEOPMPROTECTEDOUTPUTS_TAG [WCHAR_TYPE, INOUTPTR_TYPE], CreateOPMProtectedOutputs),
      (signature IPC_GDI_GETCERTIFICATESIZE_TAG [WCHAR_TYPE, VOIDPTR_TYPE], GetCertificateSize),
      (signature IPC_GDI_GETCERTIFICATE_TAG [WCHAR_TYPE, VOIDPTR_TYPE, VOIDPTR_TYPE, UINT32_TYPE], GetCertificate),
      (signature IPC_GDI_DESTROYOPMPROTECTEDOUTPUT_TAG [VOIDPTR_TYPE], DestroyOPMProtectedOutput),
      (signature IPC_GDI_GETOPMRANDOMNUMBER_TAG [VOIDPTR_TYPE, INOUTPTR_TYPE], GetOPMRandomNumber),
      (signature IPC_GDI_SETOPMSIGNINGKEYANDSEQUENCENUMBERS_TAG [VOIDPTR_TYPE, INOUTPTR_TYPE], SetOPMSigningKeyAndSequenceNumbers),
      (signature IPC_GDI_CONFIGUREOPMPROTECTEDOUTPUT_TAG [VOIDPTR_TYPE, VOIDPTR_TYPE], ConfigureOPMProtectedOutput),
      (signature IPC_GDI_GETOPMINFORMATION_TAG [VOIDPTR_TYPE, VOIDPTR_TYPE], GetOPMInformation)]"

fun ipc_calls :: "dispatcher \<Rightarrow> ipc_call list" where
  "ipc_calls FilesystemDispatcher = FilesystemDispatcher_calls"
| "ipc_calls NamedPipeDispatcher = NamedPipeDispatcher_calls"
| "ipc_calls ThreadProcessDispatcher = ThreadProcessDispatcher_calls"
| "ipc_calls SyncDispatcher = SyncDispatcher_calls"
| "ipc_calls RegistryDispatcher = RegistryDispatcher_calls"
| "ipc_calls ProcessMitigationsWin32KDispatcher = Win32KDispatcher_calls"

definition Dispatcher_OnMessageReady :: "ipc_call list \<Rightarrow> ipc_params \<Rightarrow> handler option" where
  "Dispatcher_OnMessageReady calls ipc = map_option snd (List.find (\<lambda>(params, callback). IPCParams_Matches params ipc) calls)"

text \<open>The array \<open>ipc_targets_\<close>, filled by the constructor.\<close>

definition ipc_targets :: "(ipc_tag \<times> dispatcher) list" where
  "ipc_targets =
     [(IPC_NTCREATEFILE_TAG, FilesystemDispatcher), (IPC_NTOPENFILE_TAG, FilesystemDispatcher),
      (IPC_NTSETINFO_RENAME_TAG, FilesystemDispatcher), (IPC_NTQUERYATTRIBUTESFILE_TAG, FilesystemDispatcher),
      (IPC_NTQUERYFULLATTRIBUTESFILE_TAG, FilesystemDispatcher),
      (IPC_CREATENAMEDPIPEW_TAG, NamedPipeDispatcher),
      (IPC_NTOPENTHREAD_TAG, ThreadProcessDispatcher), (IPC_NTOPENPROCESS_TAG, ThreadProcessDispatcher),
      (IPC_CREATEPROCESSW_TAG, ThreadProcessDispatcher), (IPC_NTOPENPROCESSTOKEN_TAG, ThreadProcessDispatcher),
      (IPC_NTOPENPROCESSTOKENEX_TAG, ThreadProcessDispatcher), (IPC_CREATETHREAD_TAG, ThreadProcessDispatcher),
      (IPC_CREATEEVENT_TAG, SyncDispatcher), (IPC_OPENEVENT_TAG, SyncDispatcher),
      (IPC_NTCREATEKEY_TAG, RegistryDispatcher), (IPC_NTOPENKEY_TAG, RegistryDispatcher),
      (IPC_GDI_GDIDLLINITIALIZE_TAG, ProcessMitigationsWin32KDispatcher),
      (IPC_GDI_GETSTOCKOBJECT_TAG, ProcessMitigationsWin32KDispatcher),
      (IPC_USER_REGISTERCLASSW_TAG, ProcessMitigationsWin32KDispatcher),
      (IPC_USER_ENUMDISPLAYMONITORS_TAG, ProcessMitigationsWin32KDispatcher),
      (IPC_USER_ENUMDISPLAYDEVICES_TAG, ProcessMitigationsWin32KDispatcher),
      (IPC_USER_GETMONITORINFO_TAG, ProcessMitigationsWin32KDispatcher),
      (IPC_GDI_CREATEOPMPROTECTEDOUTPUTS_TAG, ProcessMitigationsWin32KDispatcher),
      (IPC_GDI_GETCERTIFICATE_TAG, ProcessMitigationsWin32KDispatcher),
      (IPC_GDI_GETCERTIFICATESIZE_TAG, ProcessMitigationsWin32KDispatcher),
      (IPC_GDI_DESTROYOPMPROTECTEDOUTPUT_TAG, ProcessMitigationsWin32KDispatcher),
      (IPC_GDI_CONFIGUREOPMPROTECTEDOUTPUT_TAG, ProcessMitigationsWin32KDispatcher),
      (IPC_GDI_GETOPMINFORMATION_TAG, ProcessMitigationsWin32KDispatcher),
      (IPC_GDI_GETOPMRANDOMNUMBER_TAG, ProcessMitigationsWin32KDispatcher),
      (IPC_GDI_GETSUGGESTEDOPMPROTECTEDOUTPUTARRAYSIZE_TAG, ProcessMitigationsWin32KDispatcher),
      (IPC_GDI_SETOPMSIGNINGKEYANDSEQUENCENUMBERS_TAG, ProcessMitigationsWin32KDispatcher)]"

definition GetDispatcher :: "u32 \<Rightarrow> dispatcher option" where
  "GetDispatcher tag =
     (if sint tag \<ge> sint (ipc_tag_code IPC_LAST_TAG) \<or> sint tag \<le> sint (ipc_tag_code IPC_UNUSED_TAG) then None
      else map_of ipc_targets (ipc_tags ! unat tag))"

text \<open>A tag without a dispatcher is \<open>NOTREACHED\<close>, which does nothing in a release build.\<close>

definition TopLevelDispatcher_OnMessageReady :: "ipc_params \<Rightarrow> handler option" where
  "TopLevelDispatcher_OnMessageReady ipc =
     (if IPCParams_Matches (signature IPC_PING1_TAG [UINT32_TYPE]) ipc \<or> IPCParams_Matches (signature IPC_PING2_TAG [INOUTPTR_TYPE]) ipc
      then Some Ping
      else
        (case GetDispatcher (ip_tag ipc) of
           None \<Rightarrow> None
         | Some dispatcher \<Rightarrow> Dispatcher_OnMessageReady (ipc_calls dispatcher) ipc))"

subsection \<open>Arguments\<close>

text \<open>What \<open>args\<close> holds: a string, an integer, a pointer, a buffer in the message, or an address in it.\<close>

datatype ipc_arg =
    NullArg
  | RawArg u64
  | StringArg wstring
  | IntArg u32
  | PtrArg u64
  | BufferArg u64 u32

text \<open>\<open>None\<close> for a parameter that cannot be read; \<open>ReleaseArgs\<close> only frees memory.\<close>

definition get_arg :: "cross_params \<Rightarrow> u32 \<Rightarrow> u64 \<Rightarrow> u32 \<Rightarrow> u32 \<Rightarrow> abort + ipc_arg option" where
  "get_arg p i address param_size type =
     (if type = WCHAR_TYPE then res_bind (GetParameterStr i [] p) (\<lambda>r. Inr (map_option StringArg r))
      else if type = UINT32_TYPE then res_bind (GetParameter32 i p) (\<lambda>r. Inr (map_option IntArg r))
      else if type = VOIDPTR_TYPE then res_bind (GetParameterVoidPtr i p) (\<lambda>r. Inr (map_option PtrArg r))
      else if type = INOUTPTR_TYPE then Inr (Some (BufferArg address param_size))
      else Inr (Some (RawArg address)))"

fun get_args_loop ::
    "cross_params \<Rightarrow> nat \<Rightarrow> nat \<Rightarrow> u32 list \<Rightarrow> ipc_arg list \<Rightarrow> abort + (u32 list \<times> ipc_arg list) option" where
  "get_args_loop p 0 i types args = Inr (Some (types, args))"
| "get_args_loop p (Suc n) i types args =
     res_bind (GetRawParameter (of_nat i) p) (\<lambda>raw.
     case raw of
       None \<Rightarrow> get_args_loop p n (Suc i) types (args[i := NullArg])
     | Some (address, param_size, type) \<Rightarrow>
         if address = 0 then get_args_loop p n (Suc i) types (args[i := NullArg])
         else
           res_bind (get_arg p (of_nat i) address param_size type) (\<lambda>arg.
           case arg of
             None \<Rightarrow> Inr None
           | Some a \<Rightarrow> get_args_loop p n (Suc i) (types[i := type]) (args[i := a])))"

definition GetArgs :: "cross_params \<Rightarrow> abort + (u32 list \<times> ipc_arg list) option" where
  "GetArgs p =
     res_bind (GetParamsCount p) (\<lambda>count.
     if kMaxIpcParams < unat count then Inr None
     else get_args_loop p (unat count) 0 (replicate kMaxIpcParams INVALID_TYPE) (replicate kMaxIpcParams NullArg))"

subsection \<open>Answers\<close>

record call_return =
  cr_tag :: u32
  cr_call_outcome :: u32
  cr_status :: u32
  cr_extended_count :: u32
  cr_handle :: u64
  cr_extended :: "u64 list"

abbreviation (input) SBOX_ALL_OK :: u32 where "SBOX_ALL_OK \<equiv> 0"
abbreviation (input) SBOX_ERROR_INVALID_IPC :: u32 where "SBOX_ERROR_INVALID_IPC \<equiv> 5"
abbreviation (input) SBOX_ERROR_FAILED_IPC :: u32 where "SBOX_ERROR_FAILED_IPC \<equiv> 6"

definition zero_return :: call_return where
  "zero_return = \<lparr>cr_tag = 0, cr_call_outcome = 0, cr_status = 0, cr_extended_count = 0, cr_handle = 0,
     cr_extended = replicate kExtendedReturnCount 0\<rparr>"

definition encode_return :: "call_return \<Rightarrow> bytes" where
  "encode_return r =
     le_bytes 4 (cr_tag r) @ le_bytes 4 (cr_call_outcome r) @ le_bytes 4 (cr_status r) @ le_bytes 4 (cr_extended_count r)
     @ le_bytes 8 (cr_handle r) @ concat (map (le_bytes 8) (cr_extended r))"

definition SetCallError :: "u32 \<Rightarrow> call_return \<Rightarrow> call_return" where
  "SetCallError error r = r\<lparr>cr_call_outcome := error, cr_extended_count := 0\<rparr>"

definition SetCallSuccess :: "call_return \<Rightarrow> call_return" where
  "SetCallSuccess r = r\<lparr>cr_call_outcome := SBOX_ALL_OK\<rparr>"

subsection \<open>One call\<close>

text \<open>
  What a handler does with its tag, its arguments and the message: whether it serviced the call,
  its answer, and the message with its in/out buffers.
\<close>

type_synonym handler_env = "handler \<Rightarrow> u32 \<Rightarrow> ipc_arg list \<Rightarrow> cross_params \<Rightarrow> bool \<times> call_return \<times> bytes"

text \<open>The result, the answer and what is written back to the channel's buffer.\<close>

definition InvokeCallback ::
    "handler_env \<Rightarrow> (untrusted \<times> untrusted \<times> untrusted) option \<Rightarrow> u32 \<Rightarrow> u64 \<Rightarrow> call_return
      \<Rightarrow> abort + (bool \<times> call_return \<times> bytes option)" where
  "InvokeCallback run ipc_buffer channel_size backing_mem call_result =
     (let call_result = SetCallError SBOX_ERROR_INVALID_IPC call_result in
      res_bind (CreateFromBuffer ipc_buffer channel_size backing_mem) (\<lambda>params.
      case params of
        None \<Rightarrow> Inr (False, call_result, None)
      | Some p \<Rightarrow>
          res_bind (GetTag p) (\<lambda>tag.
          res_bind (GetArgs p) (\<lambda>args.
          case args of
            None \<Rightarrow> Inr (False, call_result, None)
          | Some (types, args) \<Rightarrow>
              (case TopLevelDispatcher_OnMessageReady \<lparr>ip_tag = tag, ip_args = types\<rparr> of
                 None \<Rightarrow> Inr (False, call_result, None)
               | Some handler \<Rightarrow>
                   res_bind (GetParamsCount p) (\<lambda>count.
                   let (ok, return_info, message) =
                     (if unat count \<le> kMaxIpcParams then run handler tag (take (unat count) args) p
                      else (False, zero_return, cp_bytes p)) in
                   if \<not> ok then Inr (False, SetCallError SBOX_ERROR_FAILED_IPC call_result, None)
                   else
                     res_bind (params_IsInOut (p\<lparr>cp_bytes := message\<rparr>)) (\<lambda>inout.
                     Inr (True, SetCallSuccess return_info, if inout then Some message else None))))))))"

end
