(* ===== verification/Win_Ipc_Args.thy ===== *)
theory Win_Ipc_Args
  imports Win_Ipc_Server
begin

text \<open>
  The arguments that a handler of the Windows broker gets: the tables of calls agree with the
  parameters of the handlers, and every argument that \<open>GetArgs\<close> makes from a checked message lies
  inside of the broker's copy.
\<close>

subsection \<open>Handlers get arguments of their types\<close>

text \<open>The parameters that the handlers are declared with, without \<open>IPCInfo\<close>.\<close>

datatype cpp_param = String16 | Uint32 | VoidPtr | CountedBuf

fun handler_params :: "handler \<Rightarrow> u32 \<Rightarrow> cpp_param list" where
  "handler_params Ping tag = (if tag = ipc_tag_code IPC_PING1_TAG then [Uint32] else [CountedBuf])"
| "handler_params NtCreateFile tag = [String16, Uint32, Uint32, Uint32, Uint32, Uint32, Uint32]"
| "handler_params NtOpenFile tag = [String16, Uint32, Uint32, Uint32, Uint32]"
| "handler_params NtQueryAttributesFile tag = [String16, Uint32, CountedBuf]"
| "handler_params NtQueryFullAttributesFile tag = [String16, Uint32, CountedBuf]"
| "handler_params NtSetInformationFile tag = [VoidPtr, CountedBuf, CountedBuf, Uint32, Uint32]"
| "handler_params CreateNamedPipe tag = [String16, Uint32, Uint32, Uint32, Uint32, Uint32, Uint32]"
| "handler_params NtOpenThread tag = [Uint32, Uint32]"
| "handler_params NtOpenProcess tag = [Uint32, Uint32]"
| "handler_params NtOpenProcessToken tag = [VoidPtr, Uint32]"
| "handler_params NtOpenProcessTokenEx tag = [VoidPtr, Uint32, Uint32]"
| "handler_params CreateProcessW tag = [String16, String16, String16, String16, CountedBuf]"
| "handler_params CreateThread tag = [VoidPtr, VoidPtr, VoidPtr, Uint32]"
| "handler_params CreateEvent tag = [String16, Uint32, Uint32]"
| "handler_params OpenEvent tag = [String16, Uint32]"
| "handler_params NtCreateKey tag = [String16, Uint32, VoidPtr, Uint32, Uint32, Uint32]"
| "handler_params NtOpenKey tag = [String16, Uint32, VoidPtr, Uint32]"
| "handler_params EnumDisplayMonitors tag = [CountedBuf]"
| "handler_params GetMonitorInfo tag = [VoidPtr, CountedBuf]"
| "handler_params GetSuggestedOPMProtectedOutputArraySize tag = [String16]"
| "handler_params CreateOPMProtectedOutputs tag = [String16, CountedBuf]"
| "handler_params GetCertificateSize tag = [String16, VoidPtr]"
| "handler_params GetCertificate tag = [String16, VoidPtr, VoidPtr, Uint32]"
| "handler_params DestroyOPMProtectedOutput tag = [VoidPtr]"
| "handler_params GetOPMRandomNumber tag = [VoidPtr, CountedBuf]"
| "handler_params SetOPMSigningKeyAndSequenceNumbers tag = [VoidPtr, CountedBuf]"
| "handler_params ConfigureOPMProtectedOutput tag = [VoidPtr, VoidPtr]"
| "handler_params GetOPMInformation tag = [VoidPtr, VoidPtr]"

fun param_type :: "cpp_param \<Rightarrow> u32" where
  "param_type String16 = WCHAR_TYPE"
| "param_type Uint32 = UINT32_TYPE"
| "param_type VoidPtr = VOIDPTR_TYPE"
| "param_type CountedBuf = INOUTPTR_TYPE"

definition pad_types :: "u32 list \<Rightarrow> u32 list" where
  "pad_types types = types @ replicate (kMaxIpcParams - length types) INVALID_TYPE"

definition call_typed :: "ipc_call \<Rightarrow> bool" where
  "call_typed c \<longleftrightarrow> ip_args (fst c) = pad_types (map param_type (handler_params (snd c) (ip_tag (fst c))))
     \<and> length (handler_params (snd c) (ip_tag (fst c))) \<le> kMaxIpcParams"

lemma signature_typed:
  "types = map param_type (handler_params h (ipc_tag_code tag)) \<Longrightarrow> length types \<le> kMaxIpcParams \<Longrightarrow>
   call_typed (signature tag types, h)"
  by (simp add: call_typed_def signature_def pad_types_def)

lemma calls_typed: "list_all call_typed (ipc_calls d)"
  by (cases d)
    (simp_all add: FilesystemDispatcher_calls_def NamedPipeDispatcher_calls_def ThreadProcessDispatcher_calls_def
      SyncDispatcher_calls_def RegistryDispatcher_calls_def Win32KDispatcher_calls_def signature_typed kMaxIpcParams_def)

lemma find_Some_member: "List.find P xs = Some x \<Longrightarrow> x \<in> set xs \<and> P x"
  by (auto simp: find_Some_iff)

lemma OnMessageReady_typed:
  assumes "TopLevelDispatcher_OnMessageReady ipc = Some h"
  shows "call_typed (ipc, h)"
proof (cases "IPCParams_Matches (signature IPC_PING1_TAG [UINT32_TYPE]) ipc \<or> IPCParams_Matches (signature IPC_PING2_TAG [INOUTPTR_TYPE]) ipc")
  case True
  have "ipc_tag_code IPC_PING2_TAG \<noteq> ipc_tag_code IPC_PING1_TAG" by (simp add: ipc_tag_code_def ipc_tags_def)
  then have "call_typed (signature IPC_PING1_TAG [UINT32_TYPE], Ping)" "call_typed (signature IPC_PING2_TAG [INOUTPTR_TYPE], Ping)"
    by (intro signature_typed; simp add: kMaxIpcParams_def)+
  then show ?thesis
    using True assms by (auto simp: TopLevelDispatcher_OnMessageReady_def IPCParams_Matches_def)
next
  case False
  then obtain d where d: "Dispatcher_OnMessageReady (ipc_calls d) ipc = Some h"
    using assms by (auto simp: TopLevelDispatcher_OnMessageReady_def split: option.splits)
  then obtain c where c: "List.find (\<lambda>(params, callback). IPCParams_Matches params ipc) (ipc_calls d) = Some c" "snd c = h"
    by (auto simp: Dispatcher_OnMessageReady_def)
  then have "c \<in> set (ipc_calls d)" "fst c = ipc"
    using find_Some_member [OF c(1)] by (auto simp: IPCParams_Matches_def)
  then have "call_typed c" using calls_typed [of d] by (simp add: list_all_iff)
  then show ?thesis using \<open>fst c = ipc\<close> c(2) by (cases c) simp
qed

text \<open>An argument of a type: a string from the message, a number, a pointer, a buffer in the message.\<close>

fun value_fits :: "cross_params \<Rightarrow> u32 \<Rightarrow> ipc_arg \<Rightarrow> bool" where
  "value_fits p type (StringArg s) \<longleftrightarrow> type = WCHAR_TYPE \<and> 2 * length s \<le> length (cp_bytes p)"
| "value_fits p type (IntArg v) \<longleftrightarrow> type = UINT32_TYPE"
| "value_fits p type (PtrArg v) \<longleftrightarrow> type = VOIDPTR_TYPE"
| "value_fits p type (BufferArg a n) \<longleftrightarrow> type = INOUTPTR_TYPE
     \<and> cp_base p \<le> a \<and> unat a + unat n \<le> unat (cp_base p) + length (cp_bytes p)"
| "value_fits p type (RawArg a) \<longleftrightarrow> type \<noteq> WCHAR_TYPE \<and> type \<noteq> UINT32_TYPE \<and> type \<noteq> VOIDPTR_TYPE \<and> type \<noteq> INOUTPTR_TYPE"
| "value_fits p type NullArg \<longleftrightarrow> False"

lemma valid_param:
  assumes "valid_message p n" and "i < n"
  obtains type and off :: u32 and sz where "GetRawParameter (of_nat i) p = Inr (Some (cp_base p + ucast off, sz, type))"
    and "unat off + unat sz \<le> length (cp_bytes p)" and "unat (cp_base p + ucast off) = unat (cp_base p) + unat off"
    and "0 < unat off" and "type \<noteq> 0"
proof -
  obtain type off sz where p: "param_at (cp_bytes p) i type off sz" "0 < sint type"
    "param_info (n + 1) \<le> unat off" "unat off + unat sz \<le> length (cp_bytes p)"
    using assms by (auto simp: valid_message_def)
  have "GetRawParameter (of_nat i) p = Inr (Some (cp_base p + ucast off, sz, type))"
    using assms by (intro GetRawParameter_at [OF _ _ _ p(1), of n]) (simp_all add: valid_message_def)
  moreover have "unat (cp_base p + ucast off) = unat (cp_base p) + unat off"
    using assms(1) p(4) by (simp add: valid_message_def unat_word_ariths)
  moreover have "0 < unat off" using p(3) by (simp add: layout)
  moreover have "type \<noteq> 0" using p(2) by auto
  ultimately show ?thesis using p(4) that by blast
qed

lemma u16_list_length: "2 * length (u16_list bs) \<le> length bs"
  by (induction bs rule: u16_list.induct) simp_all

lemma load_param_in:
  assumes "unat off + k \<le> length (cp_bytes p)"
  shows "load_param p (cp_base p + ucast (off :: u32)) k = Inr (take k (drop (unat off) (cp_bytes p)))"
  using assms by (simp add: load_param_def message_bytes_def)

lemma get_arg_fits:
  assumes "GetRawParameter i p = Inr (Some (cp_base p + ucast (off :: u32), sz, type))"
    and "unat off + unat sz \<le> length (cp_bytes p)" and "unat (cp_base p + ucast off) = unat (cp_base p) + unat off"
    and "0 < unat off"
  shows "\<exists>r. get_arg p i (cp_base p + ucast off) sz type = Inr r \<and> (\<forall>a. r = Some a \<longrightarrow> value_fits p type a)"
proof -
  let ?a = "cp_base p + ucast off"
  have nz: "?a \<noteq> 0" using assms(3,4) by (metis add_is_0 less_nat_zero_code unsigned_0)
  consider "type = WCHAR_TYPE" | "type = UINT32_TYPE" | "type = VOIDPTR_TYPE" | "type = INOUTPTR_TYPE"
    | "type \<noteq> WCHAR_TYPE" "type \<noteq> UINT32_TYPE" "type \<noteq> VOIDPTR_TYPE" "type \<noteq> INOUTPTR_TYPE" by blast
  then show ?thesis
  proof cases
    case 1
    have "2 * length (u16_list (take (unat sz) (drop (unat off) (cp_bytes p)))) \<le> length (cp_bytes p)"
      using u16_list_length [of "take (unat sz) (drop (unat off) (cp_bytes p))"] assms(2) by simp
    then show ?thesis
      using 1 assms(1) nz load_param_in [OF assms(2)] by (auto simp: get_arg_def GetParameterStr_def)
  next
    case 2
    show ?thesis
    proof (cases "sz = 4")
      case True
      then have "unat off + 4 \<le> length (cp_bytes p)" using assms(2) by simp
      from load_param_in [OF this] show ?thesis using 2 assms(1) nz True by (simp add: get_arg_def GetParameter32_def)
    next
      case False
      then show ?thesis using 2 assms(1) nz by (auto simp: get_arg_def GetParameter32_def)
    qed
  next
    case 3
    show ?thesis
    proof (cases "sz = 8")
      case True
      then have "unat off + 8 \<le> length (cp_bytes p)" using assms(2) by simp
      from load_param_in [OF this] show ?thesis using 3 assms(1) nz True by (simp add: get_arg_def GetParameterVoidPtr_def)
    next
      case False
      then show ?thesis using 3 assms(1) nz by (auto simp: get_arg_def GetParameterVoidPtr_def)
    qed
  next
    case 4
    have "unat (cp_base p) \<le> unat ?a" using assms(3) by simp
    then show ?thesis using 4 assms(2,3) by (simp add: get_arg_def word_le_nat_alt)
  next
    case 5
    then show ?thesis by (simp add: get_arg_def)
  qed
qed

lemma get_args_loop_fits:
  assumes "valid_message p N" and "i + n = N" and "length types = kMaxIpcParams" and "length args = kMaxIpcParams"
    and "\<forall>j < i. types ! j \<noteq> 0 \<and> value_fits p (types ! j) (args ! j)"
    and "\<forall>j. i \<le> j \<and> j < kMaxIpcParams \<longrightarrow> types ! j = 0"
  shows "\<exists>r. get_args_loop p n i types args = Inr r
    \<and> (\<forall>types' args'. r = Some (types', args') \<longrightarrow>
        length types' = kMaxIpcParams \<and> length args' = kMaxIpcParams
      \<and> (\<forall>j < N. types' ! j \<noteq> 0 \<and> value_fits p (types' ! j) (args' ! j))
      \<and> (\<forall>j. N \<le> j \<and> j < kMaxIpcParams \<longrightarrow> types' ! j = 0))"
  using assms(2-)
proof (induction n arbitrary: i types args)
  case 0
  then show ?case by simp
next
  case (Suc n)
  have i: "i < N" "i < kMaxIpcParams" using Suc.prems(1) assms(1) by (simp_all add: valid_message_def)
  obtain type and off :: u32 and sz where raw: "GetRawParameter (of_nat i) p = Inr (Some (cp_base p + ucast off, sz, type))"
    "unat off + unat sz \<le> length (cp_bytes p)" "unat (cp_base p + ucast off) = unat (cp_base p) + unat off"
    "0 < unat off" "type \<noteq> 0"
    by (rule valid_param [OF assms(1) i(1)])
  have nz: "cp_base p + ucast off \<noteq> 0" using raw(3,4) by (metis add_is_0 less_nat_zero_code unsigned_0)
  obtain r where r: "get_arg p (of_nat i) (cp_base p + ucast off) sz type = Inr r"
    "\<forall>a. r = Some a \<longrightarrow> value_fits p type a"
    using get_arg_fits [OF raw(1-4)] by blast
  show ?case
  proof (cases r)
    case None
    then show ?thesis using raw(1) nz r(1) by simp
  next
    case (Some a)
    have run: "get_args_loop p (Suc n) i types args = get_args_loop p n (Suc i) (types[i := type]) (args[i := a])"
      using raw(1) nz r(1) Some by simp
    have fits: "value_fits p type a" using r(2) Some by simp
    have "\<forall>j < Suc i. (types[i := type]) ! j \<noteq> 0 \<and> value_fits p ((types[i := type]) ! j) ((args[i := a]) ! j)"
    proof (intro allI impI)
      fix j assume "j < Suc i"
      then consider "j = i" | "j < i" by linarith
      then show "(types[i := type]) ! j \<noteq> 0 \<and> value_fits p ((types[i := type]) ! j) ((args[i := a]) ! j)"
      proof cases
        case 1
        then show ?thesis using fits raw(5) i(2) Suc.prems(2,3) by simp
      next
        case 2
        then show ?thesis using Suc.prems(4) by simp
      qed
    qed
    moreover have "\<forall>j. Suc i \<le> j \<and> j < kMaxIpcParams \<longrightarrow> (types[i := type]) ! j = 0"
      using Suc.prems(5) by simp
    ultimately show ?thesis unfolding run
      using Suc.IH [of "Suc i" "types[i := type]" "args[i := a]"] Suc.prems(1-3) by simp
  qed
qed

lemma GetArgs_fits:
  assumes "valid_message p n"
  shows "\<exists>r. GetArgs p = Inr r
    \<and> (\<forall>types args. r = Some (types, args) \<longrightarrow>
        length types = kMaxIpcParams \<and> length args = kMaxIpcParams
      \<and> (\<forall>j < n. types ! j \<noteq> 0 \<and> value_fits p (types ! j) (args ! j))
      \<and> (\<forall>j. n \<le> j \<and> j < kMaxIpcParams \<longrightarrow> types ! j = 0))"
proof -
  have count: "GetParamsCount p = Inr (of_nat n)" using assms by (simp add: GetParamsCount_def valid_message_def)
  have n: "unat (of_nat n :: u32) = n" "n \<le> kMaxIpcParams"
    using assms by (simp_all add: valid_message_def unat_of_nat_small kMaxIpcParams_def)
  then show ?thesis
    using get_args_loop_fits [OF assms, of 0 n "replicate kMaxIpcParams 0" "replicate kMaxIpcParams NullArg"]
    by (simp add: GetArgs_def count)
qed

text \<open>The arguments of a handler, by its declaration.\<close>

definition args_fit :: "cross_params \<Rightarrow> cpp_param list \<Rightarrow> ipc_arg list \<Rightarrow> bool" where
  "args_fit p ps args \<longleftrightarrow> list_all2 (\<lambda>c a. value_fits p (param_type c) a) ps args"

lemma matched_args_fit:
  assumes "call_typed (\<lparr>ip_tag = tag, ip_args = types\<rparr>, h)" and "n \<le> kMaxIpcParams" and "length args = kMaxIpcParams"
    and "\<forall>j < n. types ! j \<noteq> 0 \<and> value_fits p (types ! j) (args ! j)"
    and "\<forall>j. n \<le> j \<and> j < kMaxIpcParams \<longrightarrow> types ! j = 0"
  shows "args_fit p (handler_params h tag) (take n args)"
proof -
  let ?ps = "handler_params h tag"
  have types: "types = pad_types (map param_type ?ps)" and len: "length ?ps \<le> kMaxIpcParams"
    using assms(1) by (simp_all add: call_typed_def)
  have nz: "param_type c \<noteq> 0" for c by (cases c) simp_all
  have at: "types ! j = (if j < length ?ps then param_type (?ps ! j) else 0)" if "j < kMaxIpcParams" for j
    using that len unfolding types by (simp add: pad_types_def nth_append)
  have "length ?ps = n"
  proof (rule ccontr)
    assume "length ?ps \<noteq> n"
    then consider "length ?ps < n" | "n < length ?ps" by linarith
    then show False
    proof cases
      case 1
      then show False using assms(2,4) at [of "length ?ps"] by auto
    next
      case 2
      then show False using assms(5) at [of n] nz len by auto
    qed
  qed
  then show ?thesis
    using assms(2-4) at by (auto simp: args_fit_def list_all2_conv_all_nth)
qed

end
