(* ===== verification/Win_Ipc_Roundtrip.thy ===== *)
theory Win_Ipc_Roundtrip
  imports Win_Ipc_Args
begin

text \<open>
  Packing and unpacking a call of the Windows IPC: the message that \<open>CopyParamIn\<close> builds, parameter
  by parameter, and that the broker's checks accept it and its readers return the parameters.
\<close>

subsection \<open>Packing\<close>

lemma length_put_bytes: "off + length xs \<le> length bs \<Longrightarrow> length (put_bytes off xs bs) = length bs"
  by (simp add: put_bytes_def)

lemma message_put_same: "off + length xs \<le> length bs \<Longrightarrow> message_bytes (put_bytes off xs bs) off (length xs) = Some xs"
  by (simp add: message_bytes_def put_bytes_def)

lemma nth_put_bytes:
  assumes "off + length xs \<le> length bs" and "i < length bs" and "i < off \<or> off + length xs \<le> i"
  shows "put_bytes off xs bs ! i = bs ! i"
proof (cases "i < off")
  case True
  then show ?thesis using assms by (simp add: put_bytes_def nth_append)
next
  case False
  then have "put_bytes off xs bs ! i = (xs @ drop (off + length xs) bs) ! (i - off)"
    using assms by (simp add: put_bytes_def nth_append)
  also have "\<dots> = drop (off + length xs) bs ! (i - off - length xs)"
  proof -
    have "\<not> i - off < length xs" using False assms(3) by linarith
    then show ?thesis by (simp only: nth_append if_False)
  qed
  also have "\<dots> = bs ! i" using False assms by simp
  finally show ?thesis .
qed

lemma message_put_other:
  assumes "off + length xs \<le> length bs" and "off' + n \<le> off \<or> off + length xs \<le> off'"
  shows "message_bytes (put_bytes off xs bs) off' n = message_bytes bs off' n"
proof -
  have "take n (drop off' (put_bytes off xs bs)) = take n (drop off' bs)"
  proof (rule nth_equalityI)
    show "length (take n (drop off' (put_bytes off xs bs))) = length (take n (drop off' bs))"
      using length_put_bytes [OF assms(1)] by simp
    fix i assume "i < length (take n (drop off' (put_bytes off xs bs)))"
    then have i: "i < n" "off' + i < length bs" using length_put_bytes [OF assms(1)] by auto
    have "off' + i < off \<or> off + length xs \<le> off' + i" using assms(2) i(1) by linarith
    from nth_put_bytes [OF assms(1) i(2) this]
    show "take n (drop off' (put_bytes off xs bs)) ! i = take n (drop off' bs) ! i"
      using i length_put_bytes [OF assms(1)] by simp
  qed
  then show ?thesis using length_put_bytes [OF assms(1)] by (simp add: message_bytes_def)
qed

lemma message_put_u32:
  "off + 4 \<le> length bs \<Longrightarrow> message_u32 (put_u32 off w bs) off = Some w"
  using message_put_same [of off "le_bytes 4 w" bs] by (simp add: message_u32_def put_u32_def)

lemma message_u32_put_other:
  "off + length xs \<le> length bs \<Longrightarrow> off' + 4 \<le> off \<or> off + length xs \<le> off' \<Longrightarrow>
   message_u32 (put_bytes off xs bs) off' = message_u32 bs off'"
  by (simp add: message_u32_def message_put_other)

lemma length_put_u32 [simp]: "off + 4 \<le> length bs \<Longrightarrow> length (put_u32 off w bs) = length bs"
  by (simp add: put_u32_def length_put_bytes)

lemma message_put_u32_other:
  assumes "off + 4 \<le> length bs" and "off' + n \<le> off \<or> off + 4 \<le> off'"
  shows "message_bytes (put_u32 off w bs) off' n = message_bytes bs off' n"
  unfolding put_u32_def by (rule message_put_other) (use assms in simp_all)

lemma message_u32_put_u32_other:
  "off + 4 \<le> length bs \<Longrightarrow> off' + 4 \<le> off \<or> off + 4 \<le> off' \<Longrightarrow> message_u32 (put_u32 off w bs) off' = message_u32 bs off'"
  by (simp add: message_u32_def message_put_u32_other)

lemma Align_bounds:
  assumes "unat v \<le> kIPCChannelSize"
  shows "unat v \<le> unat (Align v)" and "unat (Align v) \<le> kIPCChannelSize" and "unat (Align v) \<le> unat v + 7"
proof -
  have "unat (v + 7) = unat v + 7" using assms by (simp add: unat_word_ariths kIPCChannelSize_def)
  then have "unat ((v + 7) div 8) = (unat v + 7) div 8" by (simp add: unat_div)
  moreover have "(unat v + 7) div 8 * 8 < 4294967296" using assms by (simp add: kIPCChannelSize_def)
  ultimately have a: "unat (Align v) = (unat v + 7) div 8 * 8"
    by (simp add: Align_def unat_word_ariths)
  show "unat v \<le> unat (Align v)" unfolding a by presburger
  show "unat (Align v) \<le> unat v + 7" unfolding a by presburger
  show "unat (Align v) \<le> kIPCChannelSize" unfolding a using assms by (simp add: kIPCChannelSize_def)
qed

text \<open>The bytes of a parameter.\<close>

definition param_bytes :: "call_param \<Rightarrow> bytes" where
  "param_bytes p = (case GetStart p of Address xs \<Rightarrow> take (unat (GetSize p)) xs | _ \<Rightarrow> [])"

text \<open>The first \<open>k\<close> parameters are in place, and the next one begins at \<open>e\<close>.\<close>

definition packed :: "u32 \<Rightarrow> call_param list \<Rightarrow> nat \<Rightarrow> u32 \<Rightarrow> bytes \<Rightarrow> bool" where
  "packed tag ps k e bs \<longleftrightarrow>
     (let n = length ps in
      length bs = kIPCChannelSize \<and> message_u32 bs 0 = Some tag
    \<and> message_u32 bs params_count_offset = Some (of_nat n)
    \<and> message_u32 bs (param_info k + 4) = Some e
    \<and> param_info (n + 1) \<le> unat e \<and> unat e \<le> kIPCChannelSize
    \<and> (\<forall>j < k. \<exists>off. param_at bs j (GetType (ps ! j)) off (GetSize (ps ! j))
          \<and> param_info (n + 1) \<le> unat off \<and> unat off + unat (GetSize (ps ! j)) \<le> unat e
          \<and> message_bytes bs (unat off) (unat (GetSize (ps ! j))) = Some (param_bytes (ps ! j))))"

lemma param_info_less: "i < n \<Longrightarrow> param_info i + sizeof_ParamInfo \<le> param_info n"
  by (simp add: param_info_def sizeof_ParamInfo_def)

lemma param_info_max: "n \<le> kMaxIpcParams \<Longrightarrow> param_info (n + 1) \<le> 224" "104 \<le> param_info i"
  by (simp_all add: layout)

lemma packed_start:
  assumes "length channel = kIPCChannelSize" and "length ps \<le> kMaxIpcParams"
  shows "packed tag ps 0 (of_nat (param_info (length ps + 1))) (ActualCallParams (length ps) tag channel)"
proof -
  let ?n = "length ps"
  have b: "param_info (?n + 1) \<le> 224" by (rule param_info_max(1) [OF assms(2)])
  then have "unat (of_nat (param_info (?n + 1)) :: u32) = param_info (?n + 1)" by (simp add: unat_of_nat_small)
  moreover have o: "params_count_offset = 96" "param_info 0 = 104" "kIPCChannelSize = 1024" by (simp_all add: layout)
  moreover have "length (ActualCallParams ?n tag channel) = 1024"
    using assms(1) by (simp add: ActualCallParams_def o)
  moreover have "message_u32 (ActualCallParams ?n tag channel) 0 = Some tag"
    "message_u32 (ActualCallParams ?n tag channel) 96 = Some (of_nat ?n)"
    "message_u32 (ActualCallParams ?n tag channel) 108 = Some (of_nat (param_info (?n + 1)))"
    using assms(1) by (simp_all add: ActualCallParams_def o message_u32_put_u32_other message_put_u32)
  ultimately show ?thesis using b by (simp add: packed_def Let_def)
qed

lemma copied_bytes:
  assumes "(if sz = 0 then Some [] else case GetStart p of Address xs \<Rightarrow> message_bytes xs 0 (unat sz) | _ \<Rightarrow> None) = Some xs"
    and "sz = GetSize p"
  shows "xs = param_bytes p" and "length xs = unat sz"
  using assms by (auto simp: param_bytes_def message_bytes_def split: if_splits parameter_address.splits)

lemma CopyParamIn_packed:
  assumes "packed tag ps k e bs" and "k < length ps" and "length ps \<le> kMaxIpcParams" and "p = ps ! k"
    and "CopyParamIn (length ps) k (GetStart p) (GetSize p) (IsInOut p) (GetType p) bs = Inr (True, bs')"
  shows "packed tag ps (k + 1) (Align (e + GetSize p)) bs'"
proof -
  let ?n = "length ps" and ?sz = "GetSize p"
  have len: "length bs = 1024" and tag: "message_u32 bs 0 = Some tag" and count: "message_u32 bs 96 = Some (of_nat ?n)"
    and e: "message_u32 bs (param_info k + 4) = Some e" "param_info (?n + 1) \<le> unat e" "unat e \<le> 1024"
    and ps: "\<And>j. j < k \<Longrightarrow> \<exists>off. param_at bs j (GetType (ps ! j)) off (GetSize (ps ! j))
          \<and> param_info (?n + 1) \<le> unat off \<and> unat off + unat (GetSize (ps ! j)) \<le> unat e
          \<and> message_bytes bs (unat off) (unat (GetSize (ps ! j))) = Some (param_bytes (ps ! j))"
    using assms(1) by (auto simp: packed_def Let_def layout)
  have c: "kIPCChannelSize = 1024" "params_count_offset = 96" by (simp_all add: layout)
  obtain xs where size: "unat ?sz \<le> 1024" "unat e \<le> 1024 - unat ?sz"
    and xs: "(if ?sz = 0 then Some [] else case GetStart p of Address xs \<Rightarrow> message_bytes xs 0 (unat ?sz) | _ \<Rightarrow> None) = Some xs"
    and bs': "bs' = put_u32 (param_info k) (GetType p) (put_u32 (param_info k + 8) ?sz
        (put_u32 (param_info (k + 1) + 4) (Align (e + ?sz))
          (if IsInOut p then SetIsInOut True (put_bytes (unat e) xs bs) else put_bytes (unat e) xs bs)))"
    using assms(5) by (auto simp: CopyParamIn_def e(1) c Let_def split: if_splits option.splits)
  note xs' = copied_bytes [OF xs refl]
  let ?b1 = "put_bytes (unat e) xs bs"
  let ?b2 = "if IsInOut p then SetIsInOut True ?b1 else ?b1"
  let ?b3 = "put_u32 (param_info (k + 1) + 4) (Align (e + ?sz)) ?b2"
  let ?b4 = "put_u32 (param_info k + 8) ?sz ?b3"
  have fits: "unat e + length xs \<le> length bs" using size xs'(2) len by simp
  have i: "param_info k + 12 \<le> param_info (k + 1)" "param_info (k + 1) + 12 \<le> param_info (?n + 1)" "param_info (?n + 1) \<le> 224"
    "104 \<le> param_info k"
    using param_info_less [of k "k + 1"] param_info_less [of "k + 1" "?n + 1"] param_info_max assms(2,3)
    by (simp_all add: sizeof_ParamInfo_def)
  have l1: "length ?b1 = 1024" using length_put_bytes [OF fits] len by simp
  have l2: "length ?b2 = 1024" using l1 by (simp add: SetIsInOut_def)
  have l3: "length ?b3 = 1024" using l2 i by simp
  have l4: "length ?b4 = 1024" using l3 i by simp
  have l: "length bs' = 1024" unfolding bs' using l4 i by simp
  have u2: "message_bytes ?b2 o' m = message_bytes bs o' m" if "8 \<le> o'" "o' + m \<le> unat e" for o' m
    using that l1 message_put_other [OF fits, of o' m]
    by (auto simp: SetIsInOut_def message_put_u32_other)
  have tag2: "message_u32 ?b2 0 = Some tag"
    using tag l1 message_u32_put_other [OF fits, of 0] i e(2)
    by (auto simp: SetIsInOut_def message_u32_put_u32_other)
  text \<open>What lies in front of the new header entries, or behind them and before \<open>e\<close>.\<close>
  have same: "message_bytes bs' o' m = message_bytes bs o' m"
    if o: "8 \<le> o'" "o' + m \<le> param_info k \<or> param_info (?n + 1) \<le> o'" "o' + m \<le> unat e" for o' m
  proof -
    have "message_bytes bs' o' m = message_bytes ?b4 o' m"
      unfolding bs' by (rule message_put_u32_other) (use o i l4 in simp, use o i in linarith)
    also have "\<dots> = message_bytes ?b3 o' m"
      by (rule message_put_u32_other) (use o i l3 in simp, use o i in linarith)
    also have "\<dots> = message_bytes ?b2 o' m"
      by (rule message_put_u32_other) (use o i l2 in simp, use o i in linarith)
    finally show ?thesis using u2 o by simp
  qed
  have data: "message_bytes bs' (unat e) (unat ?sz) = Some (param_bytes p)"
  proof -
    have "message_bytes bs' (unat e) (unat ?sz) = message_bytes ?b4 (unat e) (unat ?sz)"
      unfolding bs' by (rule message_put_u32_other) (use e i l4 in simp, use e i in linarith)
    also have "\<dots> = message_bytes ?b3 (unat e) (unat ?sz)"
      by (rule message_put_u32_other) (use e i l3 in simp, use e i in linarith)
    also have "\<dots> = message_bytes ?b2 (unat e) (unat ?sz)"
      by (rule message_put_u32_other) (use e i l2 in simp, use e i in linarith)
    also have "\<dots> = message_bytes ?b1 (unat e) (unat ?sz)"
      using l1 e i by (auto simp: SetIsInOut_def message_put_u32_other)
    also have "\<dots> = Some (param_bytes p)" using message_put_same [OF fits] xs' by simp
    finally show ?thesis .
  qed
  have info: "param_at bs' k (GetType p) e ?sz"
  proof -
    have "message_u32 bs' (param_info k) = Some (GetType p)"
      unfolding bs' by (rule message_put_u32) (use i l4 in simp)
    moreover have "message_u32 bs' (param_info k + 8) = Some ?sz"
    proof -
      have "message_u32 bs' (param_info k + 8) = message_u32 ?b4 (param_info k + 8)"
        unfolding bs' by (rule message_u32_put_u32_other) (use i l4 in simp_all)
      also have "\<dots> = Some ?sz" by (rule message_put_u32) (use i l3 in simp)
      finally show ?thesis .
    qed
    moreover have "message_u32 bs' (param_info k + 4) = Some e"
    proof -
      have "message_u32 bs' (param_info k + 4) = message_u32 ?b4 (param_info k + 4)"
        unfolding bs' by (rule message_u32_put_u32_other) (use i l4 in simp_all)
      also have "\<dots> = message_u32 ?b3 (param_info k + 4)"
        by (rule message_u32_put_u32_other) (use i l3 in simp_all)
      also have "\<dots> = message_u32 ?b2 (param_info k + 4)"
        by (rule message_u32_put_u32_other) (use i l2 in simp_all)
      also have "\<dots> = Some e"
        unfolding message_u32_def u2 [of "param_info k + 4" 4, OF _ _]
        using u2 [of "param_info k + 4" 4] i e by (simp add: message_u32_def)
      finally show ?thesis .
    qed
    ultimately show ?thesis by (simp add: param_at_def)
  qed
  have next_e: "message_u32 bs' (param_info (k + 1) + 4) = Some (Align (e + ?sz))"
  proof -
    have "message_u32 bs' (param_info (k + 1) + 4) = message_u32 ?b4 (param_info (k + 1) + 4)"
      unfolding bs' by (rule message_u32_put_u32_other) (use i l4 in simp_all)
    also have "\<dots> = message_u32 ?b3 (param_info (k + 1) + 4)"
      by (rule message_u32_put_u32_other) (use i l3 in simp_all)
    also have "\<dots> = Some (Align (e + ?sz))" by (rule message_put_u32) (use i l2 in simp)
    finally show ?thesis .
  qed
  have sum: "unat (e + ?sz) = unat e + unat ?sz" using size e(3) by (simp add: unat_word_ariths)
  then have al: "unat e + unat ?sz \<le> unat (Align (e + ?sz))" "unat (Align (e + ?sz)) \<le> 1024"
    using Align_bounds [of "e + ?sz"] size by (simp_all add: kIPCChannelSize_def)
  have "\<exists>off. param_at bs' j (GetType (ps ! j)) off (GetSize (ps ! j))
          \<and> param_info (?n + 1) \<le> unat off \<and> unat off + unat (GetSize (ps ! j)) \<le> unat (Align (e + ?sz))
          \<and> message_bytes bs' (unat off) (unat (GetSize (ps ! j))) = Some (param_bytes (ps ! j))" if j: "j < k + 1" for j
  proof (cases "j = k")
    case True
    then show ?thesis using info data e(2) al(1) assms(4) by auto
  next
    case False
    then have "j < k" using j by simp
    then obtain off where off: "param_at bs j (GetType (ps ! j)) off (GetSize (ps ! j))"
          "param_info (?n + 1) \<le> unat off" "unat off + unat (GetSize (ps ! j)) \<le> unat e"
          "message_bytes bs (unat off) (unat (GetSize (ps ! j))) = Some (param_bytes (ps ! j))" using ps by blast
    have h: "param_info j + 12 \<le> param_info k" "104 \<le> param_info j"
      using param_info_less [OF \<open>j < k\<close>] param_info_max(2) by (simp_all add: sizeof_ParamInfo_def)
    have "message_bytes bs' (param_info j + d) 4 = message_bytes bs (param_info j + d) 4" if "d \<le> 8" for d
      by (rule same) (use h that i e(2) in linarith)+
    from this [of 0] this [of 4] this [of 8] off(1) have "param_at bs' j (GetType (ps ! j)) off (GetSize (ps ! j))"
      by (simp add: param_at_def message_u32_def)
    moreover have "message_bytes bs' (unat off) (unat (GetSize (ps ! j))) = Some (param_bytes (ps ! j))"
      unfolding off(4) [symmetric] by (rule same) (use off i in linarith)+
    ultimately show ?thesis using off(2,3) al(1) by (intro exI [of _ off]) simp
  qed
  moreover have "message_u32 bs' 0 = Some tag"
  proof -
    have "message_u32 bs' 0 = message_u32 ?b4 0" unfolding bs' by (rule message_u32_put_u32_other) (use i l4 in simp_all)
    also have "\<dots> = message_u32 ?b3 0" by (rule message_u32_put_u32_other) (use i l3 in simp_all)
    also have "\<dots> = message_u32 ?b2 0" by (rule message_u32_put_u32_other) (use i l2 in simp_all)
    finally show ?thesis using tag2 by simp
  qed
  moreover have "message_u32 bs' 96 = Some (of_nat ?n)"
    using same [of 96 4] count i e(2) by (simp add: message_u32_def)
  moreover have "param_info (?n + 1) \<le> unat (Align (e + ?sz))" using e(2) al(1) by simp
  ultimately show ?thesis using l next_e al(2) by (auto simp: packed_def Let_def c)
qed

subsection \<open>What the server reads is what the client packed\<close>

lemma copy_params_packed:
  assumes "packed tag ps k e bs" and "qs = drop k ps" and "k \<le> length ps" and "length ps \<le> kMaxIpcParams"
    and "copy_params (length ps) k qs bs = Inr (True, bs')"
  shows "\<exists>e'. packed tag ps (length ps) e' bs'"
  using assms(1-3,5)
proof (induction qs arbitrary: k e bs)
  case Nil
  then have "k = length ps" by simp
  then show ?case using Nil by auto
next
  case (Cons q qs)
  have k: "k < length ps" using Cons.prems(2,3) by (metis drop_eq_Nil le_neq_implies_less list.simps(3))
  then have q: "q = ps ! k" "qs = drop (k + 1) ps" using Cons.prems(2) by (simp_all add: Cons_nth_drop_Suc [symmetric])
  obtain bs1 where c: "CopyParamIn (length ps) k (GetStart q) (GetSize q) (IsInOut q) (GetType q) bs = Inr (True, bs1)"
    "copy_params (length ps) (k + 1) qs bs1 = Inr (True, bs')"
    using Cons.prems(4) by (auto simp: res_simps split: if_splits)
  from Cons.IH [OF CopyParamIn_packed [OF Cons.prems(1) k assms(4) q(1) c(1)] q(2) _ c(2)] k show ?case by simp
qed

text \<open>Parameters can be sent: their sizes are of 32 bits, and their strings can be read.\<close>

fun sendable :: "call_param \<Rightarrow> bool" where
  "sendable (WcharArg (Some s)) \<longleftrightarrow> 2 * length s < 2 ^ 32"
| "sendable (InOutArg xs) \<longleftrightarrow> length xs < 2 ^ 32"
| "sendable BadWcharArg \<longleftrightarrow> False"
| "sendable _ \<longleftrightarrow> True"

lemma sendable_bytes:
  assumes "sendable p"
  shows "\<exists>xs. (if GetSize p = 0 then Some [] else case GetStart p of Address xs \<Rightarrow> message_bytes xs 0 (unat (GetSize p)) | _ \<Rightarrow> None) = Some xs"
    and "GetSize p \<noteq> 0 \<Longrightarrow> GetStart p \<noteq> NullAddress"
proof -
  have u: "unat (GetSize p) \<le> length xs" if st: "GetStart p = Address xs" for xs
  proof (cases p)
    case (WcharArg s)
    then obtain t where t: "s = Some t" using st by (cases s) auto
    then have "unat (of_nat (2 * length t) :: u32) = 2 * length t"
      using assms WcharArg by (intro unat_of_nat_small) simp
    then show ?thesis using that WcharArg t by (auto simp del: of_nat_mult)
  next
    case (InOutArg ys)
    then have "unat (of_nat (length ys) :: u32) = length ys" using assms by (intro unat_of_nat_small) simp
    then show ?thesis using that InOutArg by simp
  qed (use that assms in auto)
  show "\<exists>xs. (if GetSize p = 0 then Some [] else case GetStart p of Address xs \<Rightarrow> message_bytes xs 0 (unat (GetSize p)) | _ \<Rightarrow> None) = Some xs"
  proof (cases "GetStart p")
    case (Address xs)
    then show ?thesis using u [OF Address] by (simp add: message_bytes_def)
  qed (use assms in \<open>cases p rule: GetStart.cases; simp\<close>)+
  show "GetSize p \<noteq> 0 \<Longrightarrow> GetStart p \<noteq> NullAddress"
    using assms by (cases p rule: GetStart.cases) auto
qed

text \<open>A call whose parameters fit into the channel is packed.\<close>

lemma CopyParamIn_fits:
  assumes "packed tag ps k e bs" and "k < length ps" and "sendable p" and "unat e + unat (GetSize p) \<le> kIPCChannelSize"
  shows "\<exists>bs'. CopyParamIn (length ps) k (GetStart p) (GetSize p) (IsInOut p) (GetType p) bs = Inr (True, bs')"
proof -
  have e: "message_u32 bs (param_info k + 4) = Some e" using assms(1) by (simp add: packed_def Let_def)
  have "GetSize p \<noteq> - 1"
  proof
    assume m: "GetSize p = - 1"
    have "unat (- 1 :: u32) = 4294967295" by (simp add: unsigned_minus_1_eq_mask mask_eq_exp_minus_1)
    then show False using assms(4) unfolding m by (simp add: kIPCChannelSize_def)
  qed
  then show ?thesis
    using assms(2,4) e sendable_bytes [OF assms(3)] by (auto simp: CopyParamIn_def Let_def)
qed

lemma copy_params_fits:
  assumes "packed tag ps k e bs" and "qs = drop k ps" and "k \<le> length ps" and "length ps \<le> kMaxIpcParams"
    and "list_all sendable qs" and "unat e + (\<Sum>q\<leftarrow>qs. unat (GetSize q) + 7) \<le> kIPCChannelSize"
  shows "\<exists>bs'. copy_params (length ps) k qs bs = Inr (True, bs')"
  using assms(1-3,5,6)
proof (induction qs arbitrary: k e bs)
  case (Cons q qs)
  have k: "k < length ps" using Cons.prems(2,3) by (metis drop_eq_Nil le_neq_implies_less list.simps(3))
  then have q: "q = ps ! k" "qs = drop (k + 1) ps" using Cons.prems(2) by (simp_all add: Cons_nth_drop_Suc [symmetric])
  have s: "sendable q" "unat e + unat (GetSize q) \<le> kIPCChannelSize" "list_all sendable qs" using Cons.prems(4,5) by simp_all
  obtain bs1 where c: "CopyParamIn (length ps) k (GetStart q) (GetSize q) (IsInOut q) (GetType q) bs = Inr (True, bs1)"
    using CopyParamIn_fits [OF Cons.prems(1) k s(1,2)] by blast
  have "unat (e + GetSize q) = unat e + unat (GetSize q)" using s(2) by (simp add: unat_word_ariths kIPCChannelSize_def)
  then have "unat (Align (e + GetSize q)) \<le> unat e + unat (GetSize q) + 7"
    using Align_bounds(3) [of "e + GetSize q"] s(2) by simp
  then have "unat (Align (e + GetSize q)) + (\<Sum>q\<leftarrow>qs. unat (GetSize q) + 7) \<le> kIPCChannelSize" using Cons.prems(5) by simp
  from Cons.IH [OF CopyParamIn_packed [OF Cons.prems(1) k assms(4) q(1) c] q(2) _ s(3) this] k c show ?case by simp
qed simp

text \<open>A channel that the client does not change any more.\<close>

definition view_of :: "bytes \<Rightarrow> untrusted" where
  "view_of bs = (\<lambda>i. if i < length bs then Some (bs ! i) else None)"

lemma untrusted_view:
  assumes "n \<noteq> 0 \<or> a \<le> length bs"
  shows "untrusted_bytes (view_of bs) a n = message_bytes bs a n"
proof (cases "a + n \<le> length bs")
  case True
  have "map (\<lambda>i. the (view_of bs i)) [a..<a + n] = take n (drop a bs)"
    by (rule nth_equalityI) (use True in \<open>simp_all add: view_of_def\<close>)
  moreover have "list_all (\<lambda>i. view_of bs i \<noteq> None) [a..<a + n]" using True by (simp add: list_all_iff view_of_def)
  ultimately show ?thesis using True by (simp add: untrusted_bytes_def message_bytes_def)
next
  case False
  then have "max a (length bs) \<in> set [a..<a + n]" using assms by auto
  moreover have "view_of bs (max a (length bs)) = None" by (simp add: view_of_def)
  ultimately have "\<not> list_all (\<lambda>i. view_of bs i \<noteq> None) [a..<a + n]" unfolding list_all_iff by blast
  then show ?thesis using False by (simp add: untrusted_bytes_def message_bytes_def)
qed

lemma untrusted_view_u32: "untrusted_u32 (view_of bs) a = message_u32 bs a"
  by (simp add: untrusted_u32_def message_u32_def untrusted_view)

lemma message_take: "off + n \<le> k \<Longrightarrow> k \<le> length bs \<Longrightarrow> message_bytes (take k bs) off n = message_bytes bs off n"
  by (simp add: message_bytes_def take_drop min_absorb1)

lemma message_u32_take: "off + 4 \<le> k \<Longrightarrow> k \<le> length bs \<Longrightarrow> message_u32 (take k bs) off = message_u32 bs off"
  by (simp add: message_u32_def message_take)

lemma not_malformed:
  assumes "0 < sint type" and "sint type < sint LAST_TYPE" and "unat first \<le> unat (off :: u32)" and "0 < unat off"
    and "unat off + unat (sz :: u32) \<le> unat stop" and "unat base + unat stop < 2 ^ 64"
  shows "\<not> malformed base (base + first) (base + stop) (base + ucast off) sz type"
proof -
  let ?a = "base + ucast off :: u64"
  have a: "unat ?a = unat base + unat off" "unat (base + stop) = unat base + unat stop"
    "unat (base + first) = unat base + unat first" "unat (?a + ucast sz) = unat base + unat off + unat sz"
    using assms(3,5,6) by (simp_all add: unat_word_ariths)
  then have "?a \<noteq> 0" using assms(4) by (metis add_is_0 less_nat_zero_code unsigned_0)
  then show ?thesis using assms a by (simp add: malformed_def word_le_nat_alt word_less_nat_alt)
qed

lemma check_params_ok:
  assumes "\<And>i. i < N \<Longrightarrow> \<exists>a sz type. GetRawParameter (of_nat i) p = Inr (Some (a, sz, type))
      \<and> \<not> malformed (cp_base p) f l a sz type"
    and "ix + n = N"
  shows "check_params p f l n (of_nat ix) = Inr True"
  using assms(2)
proof (induction n arbitrary: ix)
  case (Suc n)
  have "(of_nat ix :: u32) + 1 = of_nat (Suc ix)" by simp
  moreover obtain a sz type where "GetRawParameter (of_nat ix) p = Inr (Some (a, sz, type))" "\<not> malformed (cp_base p) f l a sz type"
    using assms(1) [of ix] Suc.prems by auto
  ultimately show ?case using Suc.IH [of "Suc ix"] Suc.prems by (simp del: of_nat_Suc)
qed simp

lemma CreateFromBuffer_packed:
  assumes "packed tag ps (length ps) e bs" and "ps \<noteq> []" and "length ps \<le> kMaxIpcParams"
    and "unat base + kIPCChannelSize < 2 ^ 64" and "p = \<lparr>cp_base = base, cp_bytes = take (unat e) bs\<rparr>"
  shows "CreateFromBuffer (Some (view_of bs, view_of bs, view_of bs)) 1024 base = Inr (Some p)"
    and "GetTag p = Inr tag" and "GetParamsCount p = Inr (of_nat (length ps))"
    and "\<And>j. j < length ps \<Longrightarrow> \<exists>off. GetRawParameter (of_nat j) p = Inr (Some (base + ucast off, GetSize (ps ! j), GetType (ps ! j)))
      \<and> base + ucast (off :: u32) \<noteq> 0
      \<and> load_param p (base + ucast off) (unat (GetSize (ps ! j))) = Inr (param_bytes (ps ! j))"
proof -
  let ?n = "length ps" and ?c = "take (unat e) bs"
  have len: "length bs = 1024" and tag: "message_u32 bs 0 = Some tag" and count: "message_u32 bs 96 = Some (of_nat ?n)"
    and e: "message_u32 bs (param_info ?n + 4) = Some e" "param_info (?n + 1) \<le> unat e" "unat e \<le> 1024"
    and ps: "\<And>j. j < ?n \<Longrightarrow> \<exists>off. param_at bs j (GetType (ps ! j)) off (GetSize (ps ! j))
          \<and> param_info (?n + 1) \<le> unat off \<and> unat off + unat (GetSize (ps ! j)) \<le> unat e
          \<and> message_bytes bs (unat off) (unat (GetSize (ps ! j))) = Some (param_bytes (ps ! j))"
    using assms(1) by (auto simp: packed_def Let_def layout)
  have c: "kIPCChannelSize = 1024" "params_count_offset = 96" "sizeof_CrossCallParams = 104" "sizeof_CrossCallParamsEx = 120"
    by (simp_all add: layout)
  have n: "0 < ?n" "unat (of_nat ?n :: u32) = ?n" using assms(2,3) by (simp_all add: unat_of_nat_small kMaxIpcParams_def)
  have info: "128 \<le> param_info (?n + 1)" "param_info ?n + 12 = param_info (?n + 1)"
    using n(1) by (cases ps; simp add: layout)+
  have min: "unat (min_size (of_nat ?n)) = param_info (?n + 1)" by (rule min_size_small [OF assms(3)])
  have clen: "length ?c = unat e" using e(3) len by simp
  have take: "message_u32 ?c o' = message_u32 bs o'" if "o' + 4 \<le> unat e" for o'
    by (rule message_u32_take) (use that e(3) len in simp_all)
  show tg: "GetTag p = Inr tag" using tag take [of 0] e(2) info by (simp add: GetTag_def assms(5))
  have cnt: "message_u32 ?c 96 = Some (of_nat ?n)" using count take [of 96] e(2) info by simp
  then show pc: "GetParamsCount p = Inr (of_nat ?n)" by (simp add: GetParamsCount_def assms(5) c)
  have raw: "\<exists>off. GetRawParameter (of_nat j) p = Inr (Some (base + ucast off, GetSize (ps ! j), GetType (ps ! j)))
      \<and> param_info (?n + 1) \<le> unat (off :: u32) \<and> unat off + unat (GetSize (ps ! j)) \<le> unat e
      \<and> load_param p (base + ucast off) (unat (GetSize (ps ! j))) = Inr (param_bytes (ps ! j))" if j: "j < ?n" for j
  proof -
    obtain off where off: "param_at bs j (GetType (ps ! j)) off (GetSize (ps ! j))" "param_info (?n + 1) \<le> unat off"
      "unat off + unat (GetSize (ps ! j)) \<le> unat e"
      "message_bytes bs (unat off) (unat (GetSize (ps ! j))) = Some (param_bytes (ps ! j))" using ps [OF j] by blast
    have "param_info j + 12 \<le> param_info ?n" using param_info_less [OF j] by (simp add: sizeof_ParamInfo_def)
    then have "param_at ?c j (GetType (ps ! j)) off (GetSize (ps ! j))"
      using off(1) take [of "param_info j"] take [of "param_info j + 4"] take [of "param_info j + 8"] e(2) info
      by (simp add: param_at_def)
    then have "GetRawParameter (of_nat j) p = Inr (Some (base + ucast off, GetSize (ps ! j), GetType (ps ! j)))"
      using GetRawParameter_at [of p ?n j "GetType (ps ! j)" off "GetSize (ps ! j)"] cnt assms(3) j by (simp add: assms(5) c)
    moreover have "load_param p (base + ucast off) (unat (GetSize (ps ! j))) = Inr (param_bytes (ps ! j))"
      using off(3,4) e(3) len by (simp add: load_param_def assms(5) message_take)
    ultimately show ?thesis using off(2,3) by blast
  qed
  have nz: "base + ucast off \<noteq> 0" if "param_info (?n + 1) \<le> unat (off :: u32)" "unat off \<le> unat e" for off
  proof -
    have "unat (base + ucast off) = unat base + unat off" using that e(3) assms(4) by (simp add: unat_word_ariths c)
    then show ?thesis using that(1) info by (metis add_is_0 le_zero_eq unsigned_0 zero_neq_numeral)
  qed
  show "\<exists>off. GetRawParameter (of_nat j) p = Inr (Some (base + ucast off, GetSize (ps ! j), GetType (ps ! j)))
      \<and> base + ucast (off :: u32) \<noteq> 0
      \<and> load_param p (base + ucast off) (unat (GetSize (ps ! j))) = Inr (param_bytes (ps ! j))" if j: "j < ?n" for j
  proof -
    obtain off where "GetRawParameter (of_nat j) p = Inr (Some (base + ucast off, GetSize (ps ! j), GetType (ps ! j)))"
      "param_info (?n + 1) \<le> unat (off :: u32)" "unat off + unat (GetSize (ps ! j)) \<le> unat e"
      "load_param p (base + ucast off) (unat (GetSize (ps ! j))) = Inr (param_bytes (ps ! j))" using raw [OF j] by blast
    then show ?thesis using nz [of off] by (intro exI [of _ off]) simp
  qed
  have ty: "0 < sint (GetType q)" "sint (GetType q) < sint LAST_TYPE" for q by (cases q; simp)+
  have chk: "check_params p (base + ucast (min_size (of_nat ?n))) (base + ucast e) ?n (of_nat 0) = Inr True"
  proof (rule check_params_ok)
    fix j assume "j < ?n"
    then obtain off where off: "GetRawParameter (of_nat j) p = Inr (Some (base + ucast off, GetSize (ps ! j), GetType (ps ! j)))"
      "param_info (?n + 1) \<le> unat (off :: u32)" "unat off + unat (GetSize (ps ! j)) \<le> unat e" using raw by blast
    have "\<not> malformed base (base + ucast (min_size (of_nat ?n))) (base + ucast e) (base + ucast off) (GetSize (ps ! j)) (GetType (ps ! j))"
      by (rule not_malformed [OF ty]) (use off(2,3) info min e(3) assms(4) in \<open>simp_all add: c\<close>)
    then show "\<exists>a sz type. GetRawParameter (of_nat j) p = Inr (Some (a, sz, type))
      \<and> \<not> malformed (cp_base p) (base + ucast (min_size (of_nat ?n))) (base + ucast e) a sz type"
      using off(1) by (auto simp: assms(5))
  qed simp
  have act: "GetActualBufferSize (of_nat ?n) rd = rd (param_info ?n + 4)" for rd
  proof -
    have "(of_nat ?n :: u32) \<noteq> 0" using n by (metis less_nat_zero_code unsigned_0)
    then show ?thesis using n assms(3) by (simp add: GetActualBufferSize_def kMaxIpcParams_def)
  qed
  have range: "IsSizeWithinRange 1024 (min_size (of_nat ?n)) e"
    using info e(2,3) min by (simp add: IsSizeWithinRange_def word_less_nat_alt c)
  show "CreateFromBuffer (Some (view_of bs, view_of bs, view_of bs)) 1024 base = Inr (Some p)"
  proof -
    have "message_u32 ?c (param_info ?n + 4) = Some e" using take [of "param_info ?n + 4"] e(1,2) info by simp
    moreover have "untrusted_bytes (view_of bs) 0 (unat e) = Some ?c"
      using e(3) len by (simp add: untrusted_view message_bytes_def)
    ultimately show ?thesis
      using chk pc by (simp add: CreateFromBuffer_def c untrusted_view_u32 count act e(1) range n(2) Let_def assms(5))
  qed
qed

text \<open>What a parameter arrives as.\<close>

fun received :: "cross_params \<Rightarrow> call_param \<Rightarrow> ipc_arg \<Rightarrow> bool" where
  "received p (Uint32Arg n) a \<longleftrightarrow> a = IntArg n"
| "received p (VoidPtrArg v) a \<longleftrightarrow> a = PtrArg v"
| "received p (WcharArg None) a \<longleftrightarrow> a = StringArg []"
| "received p (WcharArg (Some s)) a \<longleftrightarrow> a = StringArg s"
| "received p (InOutArg xs) a \<longleftrightarrow>
     (case a of BufferArg address n \<Rightarrow> load_param p address (unat n) = Inr xs | _ \<Rightarrow> False)"
| "received p BadWcharArg a \<longleftrightarrow> False"

lemma get_arg_received:
  assumes "GetRawParameter i p = Inr (Some (a, GetSize q, GetType q))" and "a \<noteq> 0"
    and "load_param p a (unat (GetSize q)) = Inr (param_bytes q)" and "sendable q"
  shows "\<exists>r. get_arg p i a (GetSize q) (GetType q) = Inr (Some r) \<and> received p q r"
proof (cases q)
  case (Uint32Arg n)
  then show ?thesis
    using assms(1-3) by (simp add: get_arg_def GetParameter32_def param_bytes_def)
next
  case (VoidPtrArg v)
  then show ?thesis
    using assms(1-3) by (simp add: get_arg_def GetParameterVoidPtr_def param_bytes_def)
next
  case (WcharArg s)
  show ?thesis
  proof (cases s)
    case None
    then show ?thesis using assms(1-3) WcharArg by (simp add: get_arg_def GetParameterStr_def)
  next
    case (Some t)
    have u: "unat (of_nat (2 * length t) :: u32) = 2 * length t"
      using assms(4) WcharArg Some by (intro unat_of_nat_small) simp
    have z: "(of_nat (2 * length t) :: u32) = 0 \<longleftrightarrow> t = []"
      using u by (metis length_0_conv mult_eq_0_iff of_nat_0 unsigned_0 zero_neq_numeral)
    have m: "(of_nat (2 * length t) :: u32) mod 2 = 0"
      by (rule word_unat_eq_iff [THEN iffD2]) (simp only: unat_mod u, simp)
    have b: "param_bytes q = wide_bytes t"
      using WcharArg Some u by (simp add: param_bytes_def del: of_nat_mult)
    have raw: "GetRawParameter i p = Inr (Some (a, of_nat (2 * length t), WCHAR_TYPE))"
      and ld: "load_param p a (2 * length t) = Inr (wide_bytes t)"
      using assms(1,3) WcharArg Some b u by (simp_all del: of_nat_mult)
    have "get_arg p i a (of_nat (2 * length t)) WCHAR_TYPE = Inr (Some (StringArg t))"
    proof (cases "t = []")
      case True
      then show ?thesis using raw by (simp add: get_arg_def GetParameterStr_def)
    next
      case False
      then show ?thesis
        using raw ld assms(2) z m u by (simp add: get_arg_def GetParameterStr_def del: of_nat_mult)
    qed
    then show ?thesis using WcharArg Some by simp
  qed
next
  case BadWcharArg
  then show ?thesis using assms(4) by simp
next
  case (InOutArg xs)
  have u: "unat (of_nat (length xs) :: u32) = length xs"
    using assms(4) InOutArg by (intro unat_of_nat_small) simp
  then have "param_bytes q = xs" using InOutArg by (simp add: param_bytes_def)
  then show ?thesis using assms(3) InOutArg u by (simp add: get_arg_def)
qed

lemma get_args_loop_received:
  assumes "\<And>j. j < N \<Longrightarrow> \<exists>a sz type r. GetRawParameter (of_nat j) p = Inr (Some (a, sz, type)) \<and> a \<noteq> 0
      \<and> type = GetType (ps ! j) \<and> get_arg p (of_nat j) a sz type = Inr (Some r) \<and> received p (ps ! j) r"
    and "i + n = N" and "N \<le> length args" and "N \<le> length types"
    and "\<forall>j < i. types ! j = GetType (ps ! j) \<and> received p (ps ! j) (args ! j)"
  shows "\<exists>types' args'. get_args_loop p n i types args = Inr (Some (types', args')) \<and> length args' = length args
    \<and> length types' = length types
    \<and> (\<forall>j < N. types' ! j = GetType (ps ! j) \<and> received p (ps ! j) (args' ! j))
    \<and> (\<forall>j. N \<le> j \<longrightarrow> types' ! j = types ! j)"
  using assms(2-)
proof (induction n arbitrary: i types args)
  case 0
  then show ?case by simp
next
  case (Suc n)
  have i: "i < N" "i < length args" "i < length types" using Suc.prems by simp_all
  obtain a sz r where r: "GetRawParameter (of_nat i) p = Inr (Some (a, sz, GetType (ps ! i)))" "a \<noteq> 0"
    "get_arg p (of_nat i) a sz (GetType (ps ! i)) = Inr (Some r)" "received p (ps ! i) r" using assms(1) [OF i(1)] by blast
  let ?types = "types[i := GetType (ps ! i)]" and ?args = "args[i := r]"
  have run: "get_args_loop p (Suc n) i types args = get_args_loop p n (Suc i) ?types ?args" using r(1-3) by simp
  have "\<forall>j < Suc i. ?types ! j = GetType (ps ! j) \<and> received p (ps ! j) (?args ! j)"
  proof (intro allI impI)
    fix j assume "j < Suc i"
    then consider "j = i" | "j < i" by linarith
    then show "?types ! j = GetType (ps ! j) \<and> received p (ps ! j) (?args ! j)"
      by cases (use i r(4) Suc.prems(4) in simp_all)
  qed
  from Suc.IH [of "Suc i" ?args ?types, OF _ _ _ this] Suc.prems(1-3) obtain types' args' where
    "get_args_loop p n (Suc i) ?types ?args = Inr (Some (types', args'))" "length args' = length args" "length types' = length types"
    "\<forall>j < N. types' ! j = GetType (ps ! j) \<and> received p (ps ! j) (args' ! j)" "\<forall>j. N \<le> j \<longrightarrow> types' ! j = ?types ! j"
    by auto
  then show ?case unfolding run using i(1) by auto
qed

lemma GetArgs_received:
  assumes "packed tag ps (length ps) e bs" and "ps \<noteq> []" and "length ps \<le> kMaxIpcParams"
    and "unat base + kIPCChannelSize < 2 ^ 64" and "p = \<lparr>cp_base = base, cp_bytes = take (unat e) bs\<rparr>"
    and "list_all sendable ps"
  shows "\<exists>types args. GetArgs p = Inr (Some (types, args)) \<and> types = pad_types (map GetType ps)
    \<and> list_all2 (received p) ps (take (length ps) args)"
proof -
  note sent = CreateFromBuffer_packed [OF assms(1-5)]
  have arg: "\<exists>a sz type r. GetRawParameter (of_nat j) p = Inr (Some (a, sz, type)) \<and> a \<noteq> 0
      \<and> type = GetType (ps ! j) \<and> get_arg p (of_nat j) a sz type = Inr (Some r) \<and> received p (ps ! j) r" if j: "j < length ps" for j
  proof -
    obtain off :: u32 where o: "GetRawParameter (of_nat j) p = Inr (Some (base + ucast off, GetSize (ps ! j), GetType (ps ! j)))"
      "base + ucast off \<noteq> 0" "load_param p (base + ucast off) (unat (GetSize (ps ! j))) = Inr (param_bytes (ps ! j))"
      using sent(4) [OF j] by blast
    have "sendable (ps ! j)" using assms(6) j by (simp add: list_all_length)
    from get_arg_received [OF o this] o show ?thesis by blast
  qed
  have n: "unat (of_nat (length ps) :: u32) = length ps" using assms(3) by (simp add: unat_of_nat_small kMaxIpcParams_def)
  obtain types args where r: "get_args_loop p (length ps) 0 (replicate kMaxIpcParams 0) (replicate kMaxIpcParams NullArg) = Inr (Some (types, args))"
    "length args = kMaxIpcParams" "length types = kMaxIpcParams"
    "\<forall>j < length ps. types ! j = GetType (ps ! j) \<and> received p (ps ! j) (args ! j)"
    "\<forall>j. length ps \<le> j \<longrightarrow> types ! j = replicate kMaxIpcParams 0 ! j"
    using get_args_loop_received [of "length ps" p ps 0 "length ps" "replicate kMaxIpcParams NullArg" "replicate kMaxIpcParams 0", OF arg] assms(3)
    by auto
  have "types = pad_types (map GetType ps)"
  proof (rule nth_equalityI)
    show "length types = length (pad_types (map GetType ps))" using r(3) assms(3) by (simp add: pad_types_def)
    fix j assume "j < length types"
    then show "types ! j = pad_types (map GetType ps) ! j"
      using r(3-5) assms(3) by (simp add: pad_types_def nth_append)
  qed
  moreover have "list_all2 (received p) ps (take (length ps) args)"
    using r(2,4) assms(3) by (simp add: list_all2_conv_all_nth)
  ultimately show ?thesis using r(1) n assms(3) by (simp add: GetArgs_def sent(3))
qed

end
