(* ===== verification/Win_Ipc_Correct.thy ===== *)
theory Win_Ipc_Correct
  imports Win_Ipc_Roundtrip
begin

text \<open>
  What the messages of the Windows IPC guarantee: a message that the broker accepts is well formed,
  a handler gets arguments of its types, and an honest call arrives unchanged.
\<close>

subsection \<open>Properties\<close>

text \<open>
  C19: whatever the shared memory holds at each of the three reads, a message that the broker accepts
  has one to nine parameters, and each of them has a known type and lies inside of the broker's
  copy; checking never reads outside of the copy.
\<close>

theorem CreateFromBuffer_safe:
  assumes "unat base + kIPCChannelSize < 2 ^ 64"
  shows "\<exists>r. CreateFromBuffer buffer buffer_size base = Inr r
    \<and> (\<forall>p. r = Some p \<longrightarrow>
        length (cp_bytes p) \<le> unat buffer_size
      \<and> (\<exists>n. 0 < n \<and> n \<le> kMaxIpcParams \<and> GetParamsCount p = Inr (of_nat n)
          \<and> (\<forall>i < n. \<exists>a sz type. GetRawParameter (of_nat i) p = Inr (Some (a, sz, type))
                \<and> base \<le> a \<and> unat a + unat sz \<le> unat base + length (cp_bytes p)
                \<and> 0 < sint type \<and> sint type < sint LAST_TYPE)))"
proof -
  obtain r where r: "CreateFromBuffer buffer buffer_size base = Inr r"
    "\<forall>p. r = Some p \<longrightarrow> cp_base p = base \<and> length (cp_bytes p) \<le> unat buffer_size \<and> (\<exists>n. valid_message p n)"
    using CreateFromBuffer_result [OF assms] by blast
  have "\<exists>n. 0 < n \<and> n \<le> kMaxIpcParams \<and> GetParamsCount p = Inr (of_nat n)
          \<and> (\<forall>i < n. \<exists>a sz type. GetRawParameter (of_nat i) p = Inr (Some (a, sz, type))
                \<and> base \<le> a \<and> unat a + unat sz \<le> unat base + length (cp_bytes p)
                \<and> 0 < sint type \<and> sint type < sint LAST_TYPE)" if p: "r = Some p" for p
  proof -
    obtain n where n: "valid_message p n" and base: "cp_base p = base" using r(2) p by blast
    have "\<exists>a sz type. GetRawParameter (of_nat i) p = Inr (Some (a, sz, type))
                \<and> base \<le> a \<and> unat a + unat sz \<le> unat base + length (cp_bytes p)
                \<and> 0 < sint type \<and> sint type < sint LAST_TYPE" if i: "i < n" for i
    proof -
      obtain type off sz where q: "param_at (cp_bytes p) i type off sz" "0 < sint type" "sint type < sint LAST_TYPE"
        "unat off + unat sz \<le> length (cp_bytes p)" using n i unfolding valid_message_def by blast
      have "GetRawParameter (of_nat i) p = Inr (Some (base + ucast off, sz, type))"
        using GetRawParameter_at [OF _ _ i q(1)] n by (simp add: valid_message_def base)
      moreover have "unat (base + ucast off) = unat base + unat off"
        using n q(4) by (simp add: valid_message_def base unat_word_ariths)
      ultimately show ?thesis using q(2-4) by (simp add: word_le_nat_alt)
    qed
    then show ?thesis using n by (auto simp: valid_message_def GetParamsCount_def)
  qed
  then show ?thesis using r by blast
qed

text \<open>A message with a string and a number, for the examples.\<close>

definition sample_call :: "call_param list" where
  "sample_call = [WcharArg (Some [65, 66]), Uint32Arg 7]"

lemma sample_packed: "\<exists>bs. pack_call 15 sample_call (replicate 1024 0) = Inr (True, bs)"
proof -
  have p: "packed 15 sample_call 0 (of_nat (param_info (length sample_call + 1))) (ActualCallParams (length sample_call) 15 (replicate 1024 0))"
    by (rule packed_start) (simp_all add: layout sample_call_def)
  show ?thesis
    unfolding pack_call_def by (rule copy_params_fits [OF p]) (simp_all add: sample_call_def layout)
qed

lemma sample_packed_in: "pack_call 15 sample_call (replicate 1024 0) = Inr (True, bs) \<Longrightarrow> \<exists>e. packed 15 sample_call (length sample_call) e bs"
  using copy_params_packed [OF packed_start [of "replicate 1024 0" sample_call 15]]
  by (simp add: pack_call_def layout sample_call_def)

theorem CreateFromBuffer_safe_witness:
  "\<exists>bs p. CreateFromBuffer (Some (view_of bs, view_of bs, view_of bs)) 1024 0x10000 = Inr (Some p)
    \<and> length (cp_bytes p) \<le> 1024"
proof -
  obtain bs e where "packed 15 sample_call (length sample_call) e bs" using sample_packed sample_packed_in by blast
  from CreateFromBuffer_packed(1) [where base = "0x10000", OF this _ _ _ refl] obtain p where
    p: "CreateFromBuffer (Some (view_of bs, view_of bs, view_of bs)) 1024 0x10000 = Inr (Some p)"
    by (auto simp: sample_call_def layout)
  have "unat (0x10000 :: u64) + kIPCChannelSize < 2 ^ 64" by (simp add: kIPCChannelSize_def)
  from CreateFromBuffer_safe [OF this, of "Some (view_of bs, view_of bs, view_of bs)" 1024] p show ?thesis by auto
qed

text \<open>
  C20: types. A handler is only ever called with the arguments that it is declared with, strings and
  buffers inside of the message: handlers that agree on such calls are indistinguishable.
\<close>

theorem InvokeCallback_typed:
  assumes "unat base + kIPCChannelSize < 2 ^ 64"
    and "\<And>h tag args p. args_fit p (handler_params h tag) args \<Longrightarrow> run h tag args p = run' h tag args p"
  shows "InvokeCallback run buffer channel_size base result = InvokeCallback run' buffer channel_size base result"
proof -
  obtain r where r: "CreateFromBuffer buffer channel_size base = Inr r"
    "\<forall>p. r = Some p \<longrightarrow> cp_base p = base \<and> length (cp_bytes p) \<le> unat channel_size \<and> (\<exists>n. valid_message p n)"
    using CreateFromBuffer_result [OF assms(1)] by blast
  show ?thesis
  proof (cases r)
    case None
    then show ?thesis using r(1) by (simp add: InvokeCallback_def)
  next
    case (Some p)
    then obtain n where n: "valid_message p n" using r(2) by blast
    obtain a where a: "GetArgs p = Inr a"
      "\<forall>types args. a = Some (types, args) \<longrightarrow>
        length types = kMaxIpcParams \<and> length args = kMaxIpcParams
      \<and> (\<forall>j < n. types ! j \<noteq> 0 \<and> value_fits p (types ! j) (args ! j))
      \<and> (\<forall>j. n \<le> j \<and> j < kMaxIpcParams \<longrightarrow> types ! j = 0)"
      using GetArgs_fits [OF n] by blast
    have count: "GetParamsCount p = Inr (of_nat n)" "unat (of_nat n :: u32) = n" "n \<le> kMaxIpcParams"
      using n by (simp_all add: GetParamsCount_def valid_message_def unat_of_nat_small kMaxIpcParams_def)
    have same: "run h tag (take n args) p = run' h tag (take n args) p"
      if "a = Some (types, args)" "TopLevelDispatcher_OnMessageReady \<lparr>ip_tag = tag, ip_args = types\<rparr> = Some h" for types args tag h
    proof -
      have "length args = kMaxIpcParams" "\<forall>j < n. types ! j \<noteq> 0 \<and> value_fits p (types ! j) (args ! j)"
        "\<forall>j. n \<le> j \<and> j < kMaxIpcParams \<longrightarrow> types ! j = 0" using a(2) that(1) by blast+
      then have "args_fit p (handler_params h tag) (take n args)"
        by (rule matched_args_fit [OF OnMessageReady_typed [OF that(2)] count(3)])
      then show ?thesis by (rule assms(2))
    qed
    show ?thesis
    proof (cases "GetTag p")
      case (Inl e)
      then show ?thesis using r(1) Some by (simp add: InvokeCallback_def)
    next
      case (Inr tag)
      show ?thesis
      proof (cases a)
        case None
        then show ?thesis using r(1) Some Inr a(1) by (simp add: InvokeCallback_def)
      next
        case args: (Some ta)
        obtain types args' where ta: "ta = (types, args')" by (cases ta)
        show ?thesis
          using r(1) Some Inr a(1) args ta count same
          by (cases "TopLevelDispatcher_OnMessageReady \<lparr>ip_tag = tag, ip_args = types\<rparr>")
            (simp_all add: InvokeCallback_def Let_def)
      qed
    qed
  qed
qed

theorem InvokeCallback_typed_witness:
  "\<exists>bs. pack_call 15 sample_call (replicate 1024 0) = Inr (True, bs)
    \<and> InvokeCallback (\<lambda>h tag args p. (args_fit p (handler_params h tag) args, zero_return, cp_bytes p))
        (Some (view_of bs, view_of bs, view_of bs)) 1024 0x10000 zero_return
      = InvokeCallback (\<lambda>h tag args p. (True, zero_return, cp_bytes p)) (Some (view_of bs, view_of bs, view_of bs)) 1024 0x10000 zero_return"
proof -
  obtain bs where bs: "pack_call 15 sample_call (replicate 1024 0) = Inr (True, bs)" using sample_packed by blast
  have "InvokeCallback (\<lambda>h tag args p. (args_fit p (handler_params h tag) args, zero_return, cp_bytes p))
        (Some (view_of bs, view_of bs, view_of bs)) 1024 0x10000 zero_return
      = InvokeCallback (\<lambda>h tag args p. (True, zero_return, cp_bytes p)) (Some (view_of bs, view_of bs, view_of bs)) 1024 0x10000 zero_return"
    by (rule InvokeCallback_typed) (simp_all add: kIPCChannelSize_def)
  with bs show ?thesis by blast
qed

text \<open>
  C21: round trip. What the client packs is accepted, and the broker gets the tag, the types and
  every parameter as it was sent: numbers, pointers, strings, and buffers with their bytes.
\<close>

theorem crosscall_roundtrip:
  assumes "pack_call tag ps channel = Inr (True, bs)" and "length channel = kIPCChannelSize"
    and "ps \<noteq> []" and "length ps \<le> kMaxIpcParams" and "list_all sendable ps"
    and "unat base + kIPCChannelSize < 2 ^ 64"
  shows "\<exists>p types args. CreateFromBuffer (Some (view_of bs, view_of bs, view_of bs)) 1024 base = Inr (Some p)
    \<and> GetTag p = Inr tag \<and> GetArgs p = Inr (Some (types, args))
    \<and> types = pad_types (map GetType ps) \<and> list_all2 (received p) ps (take (length ps) args)"
proof -
  have "\<exists>e. packed tag ps (length ps) e bs"
    by (rule copy_params_packed [OF packed_start [OF assms(2,4)]]) (use assms(1,4) in \<open>simp_all add: pack_call_def\<close>)
  then obtain e where e: "packed tag ps (length ps) e bs" ..
  define p where "p = \<lparr>cp_base = base, cp_bytes = take (unat e) bs\<rparr>"
  note sent = CreateFromBuffer_packed [OF e assms(3,4,6) p_def]
  obtain types args where "GetArgs p = Inr (Some (types, args))" "types = pad_types (map GetType ps)"
    "list_all2 (received p) ps (take (length ps) args)"
    using GetArgs_received [OF e assms(3,4,6) p_def assms(5)] by blast
  then show ?thesis using sent(1,2) by blast
qed

theorem crosscall_roundtrip_witness:
  "\<exists>bs p types args. pack_call 15 sample_call (replicate 1024 0) = Inr (True, bs)
    \<and> CreateFromBuffer (Some (view_of bs, view_of bs, view_of bs)) 1024 0x10000 = Inr (Some p)
    \<and> GetArgs p = Inr (Some (types, args)) \<and> take 2 args = [StringArg [65, 66], IntArg 7]"
proof -
  obtain bs where bs: "pack_call 15 sample_call (replicate 1024 0) = Inr (True, bs)" using sample_packed by blast
  have "list_all sendable sample_call" "sample_call \<noteq> []" "length sample_call = 2" by (simp_all add: sample_call_def)
  then obtain p types args where r: "CreateFromBuffer (Some (view_of bs, view_of bs, view_of bs)) 1024 0x10000 = Inr (Some p)"
    "GetArgs p = Inr (Some (types, args))" "list_all2 (received p) sample_call (take 2 args)"
    using crosscall_roundtrip [where base = "0x10000", OF bs] by (auto simp: kIPCChannelSize_def kMaxIpcParams_def)
  from r(3) have "take 2 args = [StringArg [65, 66], IntArg 7]"
    by (cases "take 2 args") (auto simp: list_all2_Cons1 sample_call_def)
  then show ?thesis using bs r(1,2) by blast
qed

end
