(* ===== verification/Win_Ipc_Channel.thy ===== *)
theory Win_Ipc_Channel
  imports Prelude
begin

text \<open>
  The channels of the Windows IPC, \<^verbatim>\<open>win/src/sharedmem_ipc_client.{h,cc}\<close>, the set-up and the event
  handler of \<^verbatim>\<open>win/src/sharedmem_ipc_server.cc\<close>, and the error path of the call macros in
  \<^verbatim>\<open>win/src/crosscall_client.h\<close>. The first part lays out the shared memory; the second is the
  protocol of many client threads and the broker's thread pool as a step relation, one step for each
  access to the shared memory or to an event.
\<close>

subsection \<open>The layout of the shared memory\<close>

text \<open>Sizes of the 64-bit build.\<close>

definition offsetof_channels :: nat where "offsetof_channels = 16"
definition sizeof_ChannelControl :: nat where "sizeof_ChannelControl = 40"

text \<open>
  \<open>SharedMemIPCServer::Init\<close>: the bases of the channels, or \<open>None\<close> for a refusal. The size of the
  shared memory is a 32-bit number, and the subtraction from it wraps. Making the events is assumed
  to succeed.
\<close>

definition Init :: "u32 \<Rightarrow> u32 \<Rightarrow> nat list option" where
  "Init shared_size channel_size =
     (if shared_size < channel_size then None
      else if channel_size mod 32 \<noteq> 0 then None
      else
        (let shared_size = shared_size - of_nat offsetof_channels;
             channel_count = unat shared_size div (sizeof_ChannelControl + unat channel_size) in
         if channel_count = 0 then None
         else
           (let base_start = sizeof_ChannelControl * channel_count + offsetof_channels in
            Some (map (\<lambda>ix. base_start + ix * unat channel_size) [0..<channel_count]))))"

text \<open>\<open>ChannelIndexFromBuffer\<close> with the channel size of the client.\<close>

definition ChannelIndexFromBuffer :: "nat \<Rightarrow> nat \<Rightarrow> nat" where
  "ChannelIndexFromBuffer first_base buffer = (buffer - first_base) div 1024"

subsection \<open>The state of the protocol\<close>

datatype channel_state = kFreeChannel | kBusyChannel | kAckChannel | kReadyChannel | kAbandonedChannel

text \<open>What is in a channel's buffer: anything else, the request of a call, or the broker's answer.\<close>

datatype 'm content = Junk | Request 'm | Answer 'm

record 'm channel =
  ch_state :: channel_state
  ch_ping :: bool
  ch_pong :: bool
  ch_content :: "'m content"
  ch_serving :: bool

text \<open>
  Where a client thread is: outside of the IPC, in the loop of \<open>LockFreeChannel\<close> in front of a
  channel, with a channel that it fills, with a channel that holds its request, waiting for
  the answer, and with the answer; or it left with an error.
\<close>

datatype 'm client_pc =
    Outside
  | Scanning nat
  | Filling nat
  | Filled nat 'm
  | Waiting nat 'm
  | Answered nat 'm 'm
  | Failed

text \<open>
  \<open>ipc_server_alive\<close>: the broker holds its mutex. \<open>ipc_alive_handle\<close>: the clients' handle of the mutex in
  the control structure is not yet 0.
\<close>

record 'm ipc =
  ipc_channels :: "'m channel list"
  ipc_server_alive :: bool
  ipc_alive_handle :: bool
  ipc_clients :: "nat \<Rightarrow> 'm client_pc"

definition set_channel :: "nat \<Rightarrow> 'm channel \<Rightarrow> 'm ipc \<Rightarrow> 'm ipc" where
  "set_channel ix c s = s\<lparr>ipc_channels := (ipc_channels s)[ix := c]\<rparr>"

definition goto :: "nat \<Rightarrow> 'm client_pc \<Rightarrow> 'm ipc \<Rightarrow> 'm ipc" where
  "goto t pc s = s\<lparr>ipc_clients := (ipc_clients s)(t := pc)\<rparr>"

definition initial_channel :: "'m channel" where
  "initial_channel = \<lparr>ch_state = kFreeChannel, ch_ping = False, ch_pong = False, ch_content = Junk, ch_serving = False\<rparr>"

definition initial_ipc :: "nat \<Rightarrow> 'm ipc" where
  "initial_ipc n = \<lparr>ipc_channels = replicate n initial_channel, ipc_server_alive = True, ipc_alive_handle = True, ipc_clients = (\<lambda>t. Outside)\<rparr>"

subsection \<open>Steps of the client\<close>

text \<open>
  \<open>LockFreeChannel\<close>: one \<open>InterlockedCompareExchange\<close>; at the end of the channels the thread waits and
  starts again, or fails if the broker is dead.
\<close>

definition lock_step :: "nat \<Rightarrow> nat \<Rightarrow> 'm ipc \<Rightarrow> 'm ipc" where
  "lock_step t ix s =
     (if ix = length (ipc_channels s) then goto t (if ipc_server_alive s \<and> ipc_alive_handle s \<and> ix \<noteq> 0 then Scanning 0 else Failed) s
      else
        (let c = ipc_channels s ! ix in
         if ch_state c = kFreeChannel
         then goto t (Filling ix) (set_channel ix (c\<lparr>ch_state := kBusyChannel\<rparr>) s)
         else goto t (Scanning (ix + 1)) s))"

text \<open>\<open>CopyParamIn\<close> into the buffer: all parameters fit.\<close>

definition fill_step :: "nat \<Rightarrow> nat \<Rightarrow> 'm \<Rightarrow> 'm ipc \<Rightarrow> 'm ipc" where
  "fill_step t ix m s =
     goto t (Filled ix m) (set_channel ix ((ipc_channels s ! ix)\<lparr>ch_content := Request m\<rparr>) s)"

text \<open>A parameter does not fit: the call returns \<open>SBOX_ERROR_NO_SPACE\<close>.\<close>

definition no_space_step :: "nat \<Rightarrow> nat \<Rightarrow> 'm ipc \<Rightarrow> 'm ipc" where
  "no_space_step t ix s = goto t Failed (set_channel ix ((ipc_channels s ! ix)\<lparr>ch_content := Junk\<rparr>) s)"

text \<open>\<open>DoCall\<close>: the ping, the wait for the pong, and the answer is copied.\<close>

definition ping_step :: "nat \<Rightarrow> nat \<Rightarrow> 'm \<Rightarrow> 'm ipc \<Rightarrow> 'm ipc" where
  "ping_step t ix m s =
     (if \<not> ipc_alive_handle s then goto t Failed s
      else goto t (Waiting ix m) (set_channel ix ((ipc_channels s ! ix)\<lparr>ch_ping := True\<rparr>) s))"

definition wake_step :: "nat \<Rightarrow> nat \<Rightarrow> 'm \<Rightarrow> 'm ipc \<Rightarrow> 'm ipc" where
  "wake_step t ix m s =
     (let c = ipc_channels s ! ix in
      goto t (case ch_content c of Answer a \<Rightarrow> Answered ix m a | _ \<Rightarrow> Failed)
        (set_channel ix (c\<lparr>ch_pong := False\<rparr>) s))"

text \<open>The broker died: the channel is abandoned, and later calls are told. A wait may also fail.\<close>

definition abandon_step :: "nat \<Rightarrow> nat \<Rightarrow> 'm ipc \<Rightarrow> 'm ipc" where
  "abandon_step t ix s =
     (goto t Failed (set_channel ix ((ipc_channels s ! ix)\<lparr>ch_state := kAbandonedChannel\<rparr>) s))\<lparr>ipc_alive_handle := False\<rparr>"

definition wait_failed_step :: "nat \<Rightarrow> 'm ipc \<Rightarrow> 'm ipc" where
  "wait_failed_step t s = goto t Failed s"

definition FreeBuffer :: "nat \<Rightarrow> nat \<Rightarrow> 'm ipc \<Rightarrow> 'm ipc" where
  "FreeBuffer t ix s = goto t Outside (set_channel ix ((ipc_channels s ! ix)\<lparr>ch_state := kFreeChannel\<rparr>) s)"

subsection \<open>Steps of the broker\<close>

text \<open>
  \<open>ThreadPingEventReady\<close>: the ping is consumed, a busy channel is acknowledged and serviced; then the
  answer is written and the pong signaled. \<open>serve\<close> is what the broker answers to a request.
\<close>

definition server_take :: "nat \<Rightarrow> 'm ipc \<Rightarrow> 'm ipc" where
  "server_take ix s =
     (let c = (ipc_channels s ! ix)\<lparr>ch_ping := False\<rparr> in
      set_channel ix (if ch_state c = kBusyChannel then c\<lparr>ch_state := kAckChannel, ch_serving := True\<rparr> else c) s)"

definition server_answer :: "('m \<Rightarrow> 'm) \<Rightarrow> nat \<Rightarrow> 'm ipc \<Rightarrow> 'm ipc" where
  "server_answer serve ix s =
     (let c = ipc_channels s ! ix;
          answer = (case ch_content c of Request m \<Rightarrow> Answer (serve m) | x \<Rightarrow> x) in
      set_channel ix (c\<lparr>ch_content := answer, ch_state := kAckChannel, ch_pong := True, ch_serving := False\<rparr>) s)"

inductive ipc_step :: "('m \<Rightarrow> 'm) \<Rightarrow> 'm ipc \<Rightarrow> 'm ipc \<Rightarrow> bool" for serve where
  enter: "ipc_clients s t = Outside \<or> ipc_clients s t = Failed \<Longrightarrow> ipc_step serve s (goto t (Scanning 0) s)"
| lock: "ipc_clients s t = Scanning ix \<Longrightarrow> ipc_step serve s (lock_step t ix s)"
| fill: "ipc_clients s t = Filling ix \<Longrightarrow> ipc_step serve s (fill_step t ix m s)"
| no_space: "ipc_clients s t = Filling ix \<Longrightarrow> ipc_step serve s (no_space_step t ix s)"
| ping: "ipc_clients s t = Filled ix m \<Longrightarrow> ipc_step serve s (ping_step t ix m s)"
| wake: "ipc_clients s t = Waiting ix m \<Longrightarrow> ch_pong (ipc_channels s ! ix) \<Longrightarrow> ipc_step serve s (wake_step t ix m s)"
| abandon: "ipc_clients s t = Waiting ix m \<Longrightarrow> \<not> ipc_server_alive s \<or> \<not> ipc_alive_handle s \<Longrightarrow>
    ipc_step serve s (abandon_step t ix s)"
| wait_failed: "ipc_clients s t = Waiting ix m \<Longrightarrow> ipc_step serve s (wait_failed_step t s)"
| free: "ipc_clients s t = Answered ix m a \<Longrightarrow> ipc_step serve s (FreeBuffer t ix s)"
| take: "ix < length (ipc_channels s) \<Longrightarrow> ipc_server_alive s \<Longrightarrow> ch_ping (ipc_channels s ! ix) \<Longrightarrow>
    \<not> ch_serving (ipc_channels s ! ix) \<Longrightarrow> ipc_step serve s (server_take ix s)"
| answer: "ix < length (ipc_channels s) \<Longrightarrow> ipc_server_alive s \<Longrightarrow> ch_serving (ipc_channels s ! ix) \<Longrightarrow>
    ipc_step serve s (server_answer serve ix s)"
| crash: "ipc_step serve s (s\<lparr>ipc_server_alive := False\<rparr>)"

inductive ipc_reachable :: "('m \<Rightarrow> 'm) \<Rightarrow> nat \<Rightarrow> 'm ipc \<Rightarrow> bool" for serve n where
  start: "ipc_reachable serve n (initial_ipc n)"
| step: "ipc_reachable serve n s \<Longrightarrow> ipc_step serve s s' \<Longrightarrow> ipc_reachable serve n s'"

subsection \<open>The invariant\<close>

text \<open>The channel a client thread holds.\<close>

fun held :: "'m client_pc \<Rightarrow> nat option" where
  "held (Filling ix) = Some ix"
| "held (Filled ix m) = Some ix"
| "held (Waiting ix m) = Some ix"
| "held (Answered ix m a) = Some ix"
| "held _ = None"

text \<open>A quiet channel has no event signaled and is not being serviced.\<close>

definition quiet :: "'m channel \<Rightarrow> bool" where
  "quiet c \<longleftrightarrow> \<not> ch_ping c \<and> \<not> ch_pong c \<and> \<not> ch_serving c"

text \<open>A waiting client's channel: pinged, being serviced, or answered.\<close>

definition in_flight :: "('m \<Rightarrow> 'm) \<Rightarrow> 'm \<Rightarrow> 'm channel \<Rightarrow> bool" where
  "in_flight serve m c \<longleftrightarrow>
     (ch_state c = kBusyChannel \<and> ch_ping c \<and> \<not> ch_serving c \<and> \<not> ch_pong c \<and> ch_content c = Request m)
   \<or> (ch_state c = kAckChannel \<and> \<not> ch_ping c \<and> ch_serving c \<and> \<not> ch_pong c \<and> ch_content c = Request m)
   \<or> (ch_state c = kAckChannel \<and> \<not> ch_ping c \<and> \<not> ch_serving c \<and> ch_pong c \<and> ch_content c = Answer (serve m))"

fun client_ok :: "('m \<Rightarrow> 'm) \<Rightarrow> 'm channel list \<Rightarrow> 'm client_pc \<Rightarrow> bool" where
  "client_ok serve cs (Scanning ix) \<longleftrightarrow> ix \<le> length cs"
| "client_ok serve cs (Filling ix) \<longleftrightarrow> ix < length cs \<and> ch_state (cs ! ix) = kBusyChannel \<and> quiet (cs ! ix)"
| "client_ok serve cs (Filled ix m) \<longleftrightarrow>
     ix < length cs \<and> ch_state (cs ! ix) = kBusyChannel \<and> quiet (cs ! ix) \<and> ch_content (cs ! ix) = Request m"
| "client_ok serve cs (Waiting ix m) \<longleftrightarrow> ix < length cs \<and> in_flight serve m (cs ! ix)"
| "client_ok serve cs (Answered ix m a) \<longleftrightarrow>
     ix < length cs \<and> ch_state (cs ! ix) = kAckChannel \<and> quiet (cs ! ix) \<and> a = serve m"
| "client_ok serve cs _ \<longleftrightarrow> True"

definition ipc_inv :: "('m \<Rightarrow> 'm) \<Rightarrow> 'm ipc \<Rightarrow> bool" where
  "ipc_inv serve s \<longleftrightarrow>
     (\<forall>t. client_ok serve (ipc_channels s) (ipc_clients s t))
   \<and> (\<forall>t t' ix. held (ipc_clients s t) = Some ix \<and> held (ipc_clients s t') = Some ix \<longrightarrow> t = t')
   \<and> (\<forall>ix < length (ipc_channels s). ch_state (ipc_channels s ! ix) = kFreeChannel \<longrightarrow> quiet (ipc_channels s ! ix))"

lemma ipc_invI:
  assumes "\<And>t. client_ok serve (ipc_channels s) (ipc_clients s t)"
    and "\<And>t t' ix. held (ipc_clients s t) = Some ix \<Longrightarrow> held (ipc_clients s t') = Some ix \<Longrightarrow> t = t'"
    and "\<And>ix. ix < length (ipc_channels s) \<Longrightarrow> ch_state (ipc_channels s ! ix) = kFreeChannel \<Longrightarrow> quiet (ipc_channels s ! ix)"
  shows "ipc_inv serve s"
  unfolding ipc_inv_def using assms by blast

lemma ipc_invD:
  assumes "ipc_inv serve s"
  shows "client_ok serve (ipc_channels s) (ipc_clients s t)"
    and "ix < length (ipc_channels s) \<Longrightarrow> ch_state (ipc_channels s ! ix) = kFreeChannel \<Longrightarrow> quiet (ipc_channels s ! ix)"
  using assms unfolding ipc_inv_def by blast+

lemma step_fields [simp]:
  "ipc_channels (goto t pc s) = ipc_channels s" "ipc_clients (goto t pc s) = (ipc_clients s)(t := pc)"
  "ipc_channels (set_channel ix c s) = (ipc_channels s)[ix := c]" "ipc_clients (set_channel ix c s) = ipc_clients s"
  by (simp_all add: goto_def set_channel_def)

lemma handle_inv [simp]: "ipc_inv serve (s\<lparr>ipc_alive_handle := b\<rparr>) = ipc_inv serve s"
  by (simp add: ipc_inv_def)

lemma initial_inv: "ipc_inv serve (initial_ipc n)"
  by (rule ipc_invI) (simp_all add: initial_ipc_def initial_channel_def quiet_def)

lemma held_channel: "client_ok serve cs pc \<Longrightarrow> held pc = Some ix \<Longrightarrow> ix < length cs \<and> ch_state (cs ! ix) \<noteq> kFreeChannel"
  by (cases pc) (auto simp: in_flight_def)

lemma client_ok_other:
  "client_ok serve cs pc \<Longrightarrow> held pc \<noteq> Some ix \<Longrightarrow> client_ok serve (cs[ix := c]) pc"
  by (cases pc) (auto simp: nth_list_update)

lemma held_inj:
  assumes "ipc_inv serve s" and "held (ipc_clients s t) = Some ix" and "held (ipc_clients s t') = Some ix"
  shows "t = t'"
  using assms unfolding ipc_inv_def by blast

text \<open>A step of one client on the channel it holds, or on a free one.\<close>

lemma inv_client_step:
  assumes "ipc_inv serve s" and "ix < length (ipc_channels s)"
    and "held (ipc_clients s t) = Some ix \<or> ch_state (ipc_channels s ! ix) = kFreeChannel"
    and "held pc = None \<or> held pc = Some ix"
    and "client_ok serve ((ipc_channels s)[ix := c]) pc"
    and "ch_state c = kFreeChannel \<longrightarrow> quiet c"
  shows "ipc_inv serve (goto t pc (set_channel ix c s))"
proof -
  let ?cs = "ipc_channels s"
  have ok: "client_ok serve ?cs (ipc_clients s u)" for u by (rule ipc_invD(1) [OF assms(1)])
  note inj = held_inj [OF assms(1)]
  have other: "held (ipc_clients s u) \<noteq> Some ix" if "u \<noteq> t" for u
  proof
    assume h: "held (ipc_clients s u) = Some ix"
    then have "held (ipc_clients s t) = Some ix" using assms(3) held_channel [OF ok h] by auto
    then show False using inj [OF h] that by simp
  qed
  have "client_ok serve (?cs[ix := c]) (((ipc_clients s)(t := pc)) u)" for u
  proof (cases "u = t")
    case False
    then show ?thesis using client_ok_other [OF ok other [OF False]] by simp
  qed (use assms(5) in simp)
  moreover have "u = u'" if "held (((ipc_clients s)(t := pc)) u) = Some i" "held (((ipc_clients s)(t := pc)) u') = Some i" for u u' i
  proof (cases "u = t \<or> u' = t")
    case True
    then show ?thesis using that assms(4) other [of u] other [of u'] by (auto split: if_splits)
  next
    case False
    then show ?thesis using that inj [of u i u'] by simp
  qed
  moreover have "quiet (?cs[ix := c] ! i)" if "i < length ?cs" "ch_state (?cs[ix := c] ! i) = kFreeChannel" for i
    using that assms(2,6) ipc_invD(2) [OF assms(1)] by (cases "i = ix") simp_all
  ultimately show ?thesis by (intro ipc_invI) (simp_all only: step_fields length_list_update)
qed

lemma inv_goto:
  assumes "ipc_inv serve s" and "held pc = None" and "client_ok serve (ipc_channels s) pc"
  shows "ipc_inv serve (goto t pc s)"
proof -
  have "client_ok serve (ipc_channels s) (((ipc_clients s)(t := pc)) u)" for u
    using assms(3) ipc_invD(1) [OF assms(1)] by (cases "u = t") simp_all
  moreover have "u = u'" if "held (((ipc_clients s)(t := pc)) u) = Some i" "held (((ipc_clients s)(t := pc)) u') = Some i" for u u' i
    using that assms(2) held_inj [OF assms(1), of u i u'] by (cases "u = t"; cases "u' = t") simp_all
  ultimately show ?thesis using ipc_invD(2) [OF assms(1)] by (intro ipc_invI) (simp_all only: step_fields)
qed

text \<open>A step of the broker changes a channel that some client may be waiting for.\<close>

lemma inv_server_step:
  assumes "ipc_inv serve s" and "ix < length (ipc_channels s)"
    and "\<And>t m. ipc_clients s t = Waiting ix m \<Longrightarrow> in_flight serve m c"
    and "\<And>t. held (ipc_clients s t) = Some ix \<Longrightarrow> \<exists>m. ipc_clients s t = Waiting ix m"
    and "ch_state c \<noteq> kFreeChannel"
  shows "ipc_inv serve (set_channel ix c s)"
proof -
  let ?cs = "ipc_channels s"
  have "client_ok serve (?cs[ix := c]) (ipc_clients s t)" for t
  proof (cases "held (ipc_clients s t) = Some ix")
    case True
    then obtain m where "ipc_clients s t = Waiting ix m" using assms(4) by blast
    then show ?thesis using assms(2,3) by simp
  next
    case False
    then show ?thesis by (rule client_ok_other [OF ipc_invD(1) [OF assms(1)]])
  qed
  moreover have "quiet (?cs[ix := c] ! i)" if "i < length ?cs" "ch_state (?cs[ix := c] ! i) = kFreeChannel" for i
    using that assms(2,5) ipc_invD(2) [OF assms(1)] by (cases "i = ix") simp_all
  ultimately show ?thesis using held_inj [OF assms(1)] by (intro ipc_invI) (simp_all only: step_fields length_list_update)
qed

lemma step_inv:
  assumes "ipc_step serve s s'" and "ipc_inv serve s"
  shows "ipc_inv serve s'"
  using assms
proof (induction rule: ipc_step.induct)
  case (enter s t)
  then show ?case by (intro inv_goto) simp_all
next
  case (lock s t ix)
  have le: "ix \<le> length (ipc_channels s)" using lock.prems lock.hyps ipc_invD(1) [of serve s t] by simp
  show ?case
  proof (cases "ix = length (ipc_channels s)")
    case True
    then show ?thesis using lock.prems by (simp add: lock_step_def inv_goto)
  next
    case False
    then have ix: "ix < length (ipc_channels s)" using le by simp
    show ?thesis
    proof (cases "ch_state (ipc_channels s ! ix) = kFreeChannel")
      case free: True
      then have "quiet (ipc_channels s ! ix)" using ipc_invD(2) [OF lock.prems ix] by simp
      then have "ipc_inv serve (goto t (Filling ix) (set_channel ix ((ipc_channels s ! ix)\<lparr>ch_state := kBusyChannel\<rparr>) s))"
        using free ix lock.prems by (intro inv_client_step) (simp_all add: quiet_def)
      then show ?thesis using False free by (simp add: lock_step_def Let_def)
    next
      case busy: False
      then show ?thesis using False ix lock.prems by (simp add: lock_step_def Let_def inv_goto)
    qed
  qed
next
  case (fill s t ix m)
  then have "client_ok serve (ipc_channels s) (Filling ix)" using ipc_invD(1) by metis
  then show ?case using fill unfolding fill_step_def by (intro inv_client_step) (simp_all add: quiet_def)
next
  case (no_space s t ix)
  then have "client_ok serve (ipc_channels s) (Filling ix)" using ipc_invD(1) by metis
  then show ?case using no_space unfolding no_space_step_def by (intro inv_client_step) (simp_all add: quiet_def)
next
  case (ping s t ix m)
  then have "client_ok serve (ipc_channels s) (Filled ix m)" using ipc_invD(1) by metis
  then have "ipc_inv serve (goto t (Waiting ix m) (set_channel ix ((ipc_channels s ! ix)\<lparr>ch_ping := True\<rparr>) s))"
    using ping by (intro inv_client_step) (simp_all add: quiet_def in_flight_def)
  then show ?case using ping.prems by (simp add: ping_step_def inv_goto)
next
  case (wake s t ix m)
  then have "client_ok serve (ipc_channels s) (Waiting ix m)" using ipc_invD(1) by metis
  then have c: "ix < length (ipc_channels s)" "ch_state (ipc_channels s ! ix) = kAckChannel" "ch_content (ipc_channels s ! ix) = Answer (serve m)"
    "\<not> ch_ping (ipc_channels s ! ix)" "\<not> ch_serving (ipc_channels s ! ix)"
    using wake.hyps(2) by (auto simp: in_flight_def)
  have "ipc_inv serve (goto t (Answered ix m (serve m)) (set_channel ix ((ipc_channels s ! ix)\<lparr>ch_pong := False\<rparr>) s))"
    using wake c by (intro inv_client_step) (simp_all add: quiet_def)
  then show ?case using c(3) by (simp add: wake_step_def Let_def)
next
  case (abandon s t ix m)
  then have "client_ok serve (ipc_channels s) (Waiting ix m)" using ipc_invD(1) by metis
  then show ?case using abandon unfolding abandon_step_def handle_inv by (intro inv_client_step) simp_all
next
  case (wait_failed s t ix m)
  then show ?case unfolding wait_failed_step_def by (intro inv_goto) simp_all
next
  case (free s t ix m a)
  then have "client_ok serve (ipc_channels s) (Answered ix m a)" using ipc_invD(1) by metis
  then show ?case using free unfolding FreeBuffer_def by (intro inv_client_step) (simp_all add: quiet_def)
next
  case (take ix s)
  let ?c = "ipc_channels s ! ix"
  have waiting: "\<exists>m. ipc_clients s t = Waiting ix m \<and> in_flight serve m ?c" if "held (ipc_clients s t) = Some ix" for t
  proof -
    have "client_ok serve (ipc_channels s) (ipc_clients s t)" by (rule ipc_invD(1) [OF take.prems])
    then show ?thesis using that take.hyps(3) by (cases "ipc_clients s t") (auto simp: quiet_def)
  qed
  have nf: "ch_state ?c \<noteq> kFreeChannel" using ipc_invD(2) [OF take.prems take.hyps(1)] take.hyps(3) by (auto simp: quiet_def)
  show ?case unfolding server_take_def Let_def
  proof (rule inv_server_step [OF take.prems take.hyps(1)])
    fix t m assume w: "ipc_clients s t = Waiting ix m"
    then have "in_flight serve m ?c" using waiting [of t] by simp
    then show "in_flight serve m (if ch_state (?c\<lparr>ch_ping := False\<rparr>) = kBusyChannel
        then ?c\<lparr>ch_ping := False, ch_state := kAckChannel, ch_serving := True\<rparr> else ?c\<lparr>ch_ping := False\<rparr>)"
      using take.hyps(3) by (auto simp: in_flight_def)
  qed (use waiting nf in auto)
next
  case (answer ix s)
  let ?c = "ipc_channels s ! ix"
  have waiting: "\<exists>m. ipc_clients s t = Waiting ix m \<and> in_flight serve m ?c" if "held (ipc_clients s t) = Some ix" for t
  proof -
    have "client_ok serve (ipc_channels s) (ipc_clients s t)" by (rule ipc_invD(1) [OF answer.prems])
    then show ?thesis using that answer.hyps(3) by (cases "ipc_clients s t") (auto simp: quiet_def)
  qed
  show ?case unfolding server_answer_def Let_def
  proof (rule inv_server_step [OF answer.prems answer.hyps(1)])
    fix t m assume w: "ipc_clients s t = Waiting ix m"
    then have "in_flight serve m ?c" using waiting [of t] by simp
    then show "in_flight serve m (?c\<lparr>ch_content := case ch_content ?c of Request m \<Rightarrow> Answer (serve m) | x \<Rightarrow> x,
        ch_state := kAckChannel, ch_pong := True, ch_serving := False\<rparr>)"
      using answer.hyps(3) by (auto simp: in_flight_def)
  qed (use waiting in auto)
next
  case (crash s)
  then show ?case unfolding ipc_inv_def by simp
qed

lemma reachable_inv: "ipc_reachable serve n s \<Longrightarrow> ipc_inv serve s"
  by (induction rule: ipc_reachable.induct) (use initial_inv step_inv in blast)+

subsection \<open>Properties\<close>

text \<open>
  C22: in every interleaving of any number of client threads with the broker, a channel belongs to at
  most one thread, and the answer that a thread reads is the broker's answer to its own request.
\<close>

theorem ipc_answers_own_request:
  assumes "ipc_reachable serve n s"
  shows "(held (ipc_clients s t) = Some ix \<and> held (ipc_clients s t') = Some ix \<longrightarrow> t = t')
    \<and> (ipc_clients s t = Answered ix m a \<longrightarrow> a = serve m)"
  using held_inj [OF reachable_inv [OF assms]] ipc_invD(1) [OF reachable_inv [OF assms], of t] by auto

text \<open>A thread that got its answer while another one waits in front of the busy channel.\<close>

definition sample_run :: "nat ipc" where
  "sample_run =
     (let s = goto 0 (Scanning 0) (initial_ipc 1);
          s = goto 1 (Scanning 0) (lock_step 0 0 s);
          s = ping_step 0 0 5 (fill_step 0 0 5 s);
          s = server_answer Suc 0 (server_take 0 (lock_step 1 0 s))
      in wake_step 0 0 5 s)"

lemma sample_run_state:
  "ipc_clients sample_run 0 = Answered 0 5 6" "ipc_clients sample_run 1 = Scanning 1"
  by (simp_all add: sample_run_def Let_def initial_ipc_def initial_channel_def lock_step_def ping_step_def fill_step_def
    server_take_def server_answer_def wake_step_def goto_def set_channel_def)

lemma sample_run_reachable: "ipc_reachable Suc 1 sample_run"
  unfolding sample_run_def Let_def
  by (rule ipc_reachable.step [OF _ ipc_step.wake], rule ipc_reachable.step [OF _ ipc_step.answer],
      rule ipc_reachable.step [OF _ ipc_step.take], rule ipc_reachable.step [OF _ ipc_step.lock],
      rule ipc_reachable.step [OF _ ipc_step.ping], rule ipc_reachable.step [OF _ ipc_step.fill],
      rule ipc_reachable.step [OF _ ipc_step.enter], rule ipc_reachable.step [OF _ ipc_step.lock],
      rule ipc_reachable.step [OF _ ipc_step.enter], rule ipc_reachable.start)
    (simp_all add: initial_ipc_def initial_channel_def lock_step_def ping_step_def fill_step_def server_take_def
      server_answer_def wake_step_def goto_def set_channel_def Let_def)

theorem ipc_answers_own_request_witness:
  "ipc_reachable Suc 1 sample_run \<and> ipc_clients sample_run 0 = Answered 0 5 6 \<and> 6 = Suc 5
   \<and> held (ipc_clients sample_run 1) \<noteq> Some 0"
proof -
  have "(6 :: nat) = Suc 5"
    using ipc_answers_own_request [OF sample_run_reachable, of 0 0 0 5 6] by (simp add: sample_run_state)
  then show ?thesis using sample_run_reachable sample_run_state by simp
qed

text \<open>
  C23: \<open>Init\<close> gives every channel a buffer of its own size inside of the shared memory, behind the
  control structures and apart from the other buffers, and the client finds the channel of a buffer.
\<close>

theorem Init_layout:
  assumes "Init shared_size channel_size = Some bases" and "channel_size \<noteq> 0" and "ix < length bases"
  shows "offsetof_channels + length bases * sizeof_ChannelControl \<le> bases ! ix
    \<and> bases ! ix + unat channel_size \<le> unat shared_size
    \<and> (\<forall>j < ix. bases ! j + unat channel_size \<le> bases ! ix)
    \<and> (channel_size = 1024 \<longrightarrow> ChannelIndexFromBuffer (bases ! 0) (bases ! ix) = ix)"
proof -
  define size where "size = unat channel_size"
  define n where "n = unat (shared_size - of_nat offsetof_channels) div (sizeof_ChannelControl + size)"
  let ?base = "sizeof_ChannelControl * n + offsetof_channels"
  have i: "\<not> shared_size < channel_size" "channel_size mod 32 = 0" "bases = map (\<lambda>i. ?base + i * size) [0..<n]"
    using assms(1) by (auto simp: Init_def Let_def n_def size_def split: if_splits)
  have "size mod 32 = unat (channel_size mod 32)" by (simp add: size_def unat_mod_distrib)
  then have "size mod 32 = 0" using i(2) by simp
  moreover have "size \<noteq> 0" using assms(2) by (simp add: size_def unat_eq_0)
  ultimately have "32 \<le> size" by (cases "size < 32") simp_all
  then have "32 \<le> unat shared_size" using i(1) by (simp add: word_less_nat_alt size_def)
  then have u: "unat (shared_size - of_nat offsetof_channels) = unat shared_size - 16"
    by (subst unat_sub) (simp_all add: offsetof_channels_def word_le_nat_alt)
  have "n * (sizeof_ChannelControl + size) \<le> unat shared_size - 16" unfolding n_def u by (rule div_times_less_eq_dividend)
  then have all: "?base + n * size \<le> unat shared_size"
    using \<open>32 \<le> unat shared_size\<close> by (simp add: offsetof_channels_def algebra_simps)
  have len: "length bases = n" using i(3) by simp
  have at: "bases ! j = ?base + j * size" if "j < n" for j using i(3) that by simp
  have ix: "ix < n" using assms(3) len by simp
  have "(ix + 1) * size \<le> n * size" using ix by (intro mult_le_mono1) simp
  then have "bases ! ix + size \<le> unat shared_size" using all at [OF ix] by simp
  moreover have "bases ! j + size \<le> bases ! ix" if j: "j < ix" for j
  proof -
    have "(j + 1) * size \<le> ix * size" using j by (intro mult_le_mono1) simp
    then show ?thesis using at [of j] at [OF ix] j ix by simp
  qed
  moreover have "ChannelIndexFromBuffer (bases ! 0) (bases ! ix) = ix" if "channel_size = 1024"
    using that at [OF ix] at [of 0] ix by (simp add: ChannelIndexFromBuffer_def size_def)
  moreover have "offsetof_channels + length bases * sizeof_ChannelControl \<le> bases ! ix"
    using at [OF ix] len by (simp add: mult.commute)
  ultimately show ?thesis by (simp add: size_def)
qed

theorem Init_layout_witness:
  "Init 65536 1024 = Some (map (\<lambda>i. 2456 + i * 1024) [0..<61]) \<and> 2456 + 60 * 1024 + 1024 \<le> (65536 :: nat)"
proof -
  have i: "Init 65536 1024 = Some (map (\<lambda>i. 2456 + i * 1024) [0..<61])"
    by (simp add: Init_def offsetof_channels_def sizeof_ChannelControl_def)
  show ?thesis using Init_layout [OF i, of 60] i by simp
qed

subsection \<open>A channel that is lost\<close>

text \<open>
  When a parameter does not fit, the call macros return without \<open>FreeBuffer\<close>: the channel stays busy
  although no thread holds it, and no later step frees it.
\<close>

definition leaked :: "nat \<Rightarrow> 'm ipc \<Rightarrow> bool" where
  "leaked ix s \<longleftrightarrow> ix < length (ipc_channels s) \<and> ch_state (ipc_channels s ! ix) = kBusyChannel \<and> quiet (ipc_channels s ! ix)
     \<and> (\<forall>t. held (ipc_clients s t) \<noteq> Some ix)"

lemma leaked_handle [simp]: "leaked ix (s\<lparr>ipc_alive_handle := b\<rparr>) = leaked ix s"
  by (simp add: leaked_def)

lemma no_space_leaks:
  assumes "ipc_inv serve s" and "ipc_clients s t = Filling ix"
  shows "leaked ix (no_space_step t ix s)"
proof -
  have c: "ix < length (ipc_channels s)" "ch_state (ipc_channels s ! ix) = kBusyChannel" "quiet (ipc_channels s ! ix)"
    using ipc_invD(1) [OF assms(1), of t] assms(2) by simp_all
  have "held (ipc_clients s u) \<noteq> Some ix" if "u \<noteq> t" for u
    using held_inj [OF assms(1), of u ix t] assms(2) that by auto
  then show ?thesis using c by (auto simp: leaked_def no_space_step_def quiet_def)
qed

lemma leaked_forever:
  assumes "ipc_step serve s s'" and "leaked ix s"
  shows "leaked ix s'"
proof -
  have same: "leaked ix (goto t pc (set_channel i c s))" if "held (ipc_clients s t) = Some i" "held pc = None \<or> held pc = Some i" for t pc i c
  proof -
    have "i \<noteq> ix" using that(1) assms(2) by (auto simp: leaked_def)
    then show ?thesis using that(2) assms(2) by (auto simp: leaked_def)
  qed
  have goto: "leaked ix (goto t pc s)" if "held pc = None" for t pc
    using that assms(2) by (auto simp: leaked_def)
  show ?thesis using assms
  proof (cases rule: ipc_step.cases)
    case (lock t i)
    show ?thesis
    proof (cases "i = length (ipc_channels s) \<or> ch_state (ipc_channels s ! i) \<noteq> kFreeChannel")
      case True
      then show ?thesis using goto lock by (auto simp: lock_step_def Let_def)
    next
      case False
      then have "i \<noteq> ix" using assms(2) by (auto simp: leaked_def)
      then show ?thesis using False lock assms(2) by (auto simp: lock_step_def Let_def leaked_def)
    qed
  next
    case (take i)
    then have "i \<noteq> ix" using assms(2) by (auto simp: leaked_def quiet_def)
    then show ?thesis using take assms(2) by (simp add: server_take_def Let_def leaked_def)
  next
    case (answer i)
    then have "i \<noteq> ix" using assms(2) by (auto simp: leaked_def quiet_def)
    then show ?thesis using answer assms(2) by (simp add: server_answer_def Let_def leaked_def)
  next
    case crash
    then show ?thesis using assms(2) by (simp add: leaked_def)
  next
    case (wake t i m)
    then show ?thesis by (auto simp: wake_step_def Let_def intro!: same split: content.split)
  qed (auto simp: fill_step_def no_space_step_def ping_step_def abandon_step_def wait_failed_step_def FreeBuffer_def intro!: same goto)
qed

end
