(* ===== verification/Win_Utils.thy ===== *)
theory Win_Utils
  imports Byte_Memory "HOL-Library.Sublist"
begin

text \<open>
  The path functions of the Windows sandbox, \<^verbatim>\<open>win/src/win_utils.{h,cc}\<close>: what kind of
  a path a string is, whether a path goes through a reparse point, whether a handle is the object of a path,
  and the long form of a path. Windows itself is a record of its answers.
\<close>

subsection \<open>Windows\<close>

text \<open>
  Case folding of the C runtime; \<open>GetFileAttributes\<close>, an error code or the attributes;
  \<open>GetLongPathName\<close> for a path and the size of the buffer, with the return value, what is in the buffer and the last
  error; the name of the object of a handle, from \<open>NtQueryObject\<close>; \<open>QueryDosDevice\<close> with its
  return value and the target; and the key that \<open>RegCreateKeyEx\<close> opens for the root of a hive.
\<close>

datatype hkey = HKEY_CLASSES_ROOT | HKEY_CURRENT_USER | HKEY_LOCAL_MACHINE | HKEY_USERS | HKEY_PERFORMANCE_DATA
  | HKEY_PERFORMANCE_TEXT | HKEY_PERFORMANCE_NLSTEXT | HKEY_CURRENT_CONFIG | HKEY_DYN_DATA

record windows =
  wn_towlower :: "u16 \<Rightarrow> u16"
  wn_GetFileAttributes :: "wstring \<Rightarrow> u32 + u32"
  wn_GetLongPathName :: "wstring \<Rightarrow> u32 \<Rightarrow> u32 \<times> wstring \<times> u32"
  wn_object_name :: "u64 \<Rightarrow> wstring option"
  wn_QueryDosDevice :: "wstring \<Rightarrow> u32 \<times> wstring"
  wn_RegCreateKeyEx :: "hkey \<Rightarrow> u64 option"

abbreviation (input) ERROR_SUCCESS :: u32 where "ERROR_SUCCESS \<equiv> 0"
abbreviation (input) ERROR_FILE_NOT_FOUND :: u32 where "ERROR_FILE_NOT_FOUND \<equiv> 2"
abbreviation (input) ERROR_PATH_NOT_FOUND :: u32 where "ERROR_PATH_NOT_FOUND \<equiv> 3"
abbreviation (input) ERROR_ACCESS_DENIED :: u32 where "ERROR_ACCESS_DENIED \<equiv> 5"
abbreviation (input) ERROR_INVALID_NAME :: u32 where "ERROR_INVALID_NAME \<equiv> 123"
abbreviation (input) ERROR_NOT_A_REPARSE_POINT :: u32 where "ERROR_NOT_A_REPARSE_POINT \<equiv> 4390"
abbreviation (input) FILE_ATTRIBUTE_REPARSE_POINT :: u32 where "FILE_ATTRIBUTE_REPARSE_POINT \<equiv> 0x400"
abbreviation (input) MAX_PATH :: u32 where "MAX_PATH \<equiv> 260"

subsection \<open>Wide strings\<close>

definition wide :: "string \<Rightarrow> wstring" where
  "wide s = map of_char s"

abbreviation (input) BACKSLASH :: u16 where "BACKSLASH \<equiv> 92"

text \<open>A \<open>string16\<close> may hold null characters; its \<open>c_str\<close> ends at the first one.\<close>

definition c_wstr :: "wstring \<Rightarrow> wstring" where
  "c_wstr s = takeWhile (\<lambda>c. c \<noteq> 0) s"

text \<open>The last position of a character, or \<open>None\<close> for \<open>npos\<close>; \<open>find\<close> with a string, at position 0.\<close>

fun rfind :: "u16 \<Rightarrow> wstring \<Rightarrow> nat option" where
  "rfind c [] = None"
| "rfind c (x # xs) = (case rfind c xs of Some k \<Rightarrow> Some (Suc k) | None \<Rightarrow> if x = c then Some 0 else None)"

text \<open>\<open>_wcsicmp\<close> and \<open>_wcsnicmp\<close> are 0.\<close>

definition wcsicmp_eq :: "windows \<Rightarrow> wstring \<Rightarrow> wstring \<Rightarrow> bool" where
  "wcsicmp_eq w a b \<longleftrightarrow> map (wn_towlower w) (c_wstr a) = map (wn_towlower w) (c_wstr b)"

definition wcsnicmp_eq :: "windows \<Rightarrow> wstring \<Rightarrow> wstring \<Rightarrow> nat \<Rightarrow> bool" where
  "wcsnicmp_eq w a b n \<longleftrightarrow> map (wn_towlower w) (take n (c_wstr a)) = map (wn_towlower w) (take n (c_wstr b))"

subsection \<open>Kinds of paths\<close>

definition kNTPrefix :: wstring where "kNTPrefix = [BACKSLASH, 63, 63, BACKSLASH]"
definition kNTPrefixLen :: nat where "kNTPrefixLen = 4"
definition kNTDevicePrefix :: wstring where "kNTDevicePrefix = [BACKSLASH] @ wide ''Device'' @ [BACKSLASH]"
definition kNTDevicePrefixLen :: nat where "kNTDevicePrefixLen = 8"
definition kNTDotPrefix :: wstring where "kNTDotPrefix = [BACKSLASH, BACKSLASH, 46, BACKSLASH]"
definition kNTDotPrefixLen :: nat where "kNTDotPrefixLen = 4"
definition kPipe :: wstring where "kPipe = wide ''pipe'' @ [BACKSLASH]"

definition IsNTPath :: "wstring \<Rightarrow> bool \<times> wstring" where
  "IsNTPath path =
     (if length path < kNTPrefixLen \<or> take kNTPrefixLen path \<noteq> kNTPrefix then (False, path)
      else (True, drop kNTPrefixLen path))"

definition IsDevicePath :: "windows \<Rightarrow> wstring \<Rightarrow> bool \<times> wstring" where
  "IsDevicePath w path =
     (if length path < kNTDevicePrefixLen \<or> \<not> wcsnicmp_eq w path kNTDevicePrefix kNTDevicePrefixLen then (False, path)
      else (True, drop kNTDevicePrefixLen path))"

definition IsAsciiAlpha :: "u16 \<Rightarrow> bool" where
  "IsAsciiAlpha c \<longleftrightarrow> (97 \<le> c \<and> c \<le> 122) \<or> (65 \<le> c \<and> c \<le> 90)"

definition StartsWithDriveLetter :: "wstring \<Rightarrow> bool" where
  "StartsWithDriveLetter path \<longleftrightarrow> 3 \<le> length path \<and> path ! 1 = 58 \<and> path ! 2 = BACKSLASH \<and> IsAsciiAlpha (path ! 0)"

definition RemoveImpliedDevice :: "wstring \<Rightarrow> wstring" where
  "RemoveImpliedDevice path = (if take kNTDotPrefixLen path = kNTDotPrefix then drop kNTDotPrefixLen path else path)"

definition IsPipe :: "windows \<Rightarrow> wstring \<Rightarrow> bool" where
  "IsPipe w path =
     (let start = (if take kNTPrefixLen path = kNTPrefix then kNTPrefixLen else 0) in
      if length path < start + length kPipe then False
      else wcsnicmp_eq w (drop start path) kPipe (length kPipe))"

subsection \<open>Registry keys\<close>

definition kKnownKey :: "(wstring \<times> hkey) list" where
  "kKnownKey =
     [(wide ''HKEY_CLASSES_ROOT'', HKEY_CLASSES_ROOT), (wide ''HKEY_CURRENT_USER'', HKEY_CURRENT_USER),
      (wide ''HKEY_LOCAL_MACHINE'', HKEY_LOCAL_MACHINE), (wide ''HKEY_USERS'', HKEY_USERS),
      (wide ''HKEY_PERFORMANCE_DATA'', HKEY_PERFORMANCE_DATA), (wide ''HKEY_PERFORMANCE_TEXT'', HKEY_PERFORMANCE_TEXT),
      (wide ''HKEY_PERFORMANCE_NLSTEXT'', HKEY_PERFORMANCE_NLSTEXT), (wide ''HKEY_CURRENT_CONFIG'', HKEY_CURRENT_CONFIG),
      (wide ''HKEY_DYN_DATA'', HKEY_DYN_DATA)]"

definition GetReservedKeyFromName :: "wstring \<Rightarrow> hkey option" where
  "GetReservedKeyFromName name = map_option snd (List.find (\<lambda>(n, k). name = n) kKnownKey)"

definition GetPathFromHandle :: "windows \<Rightarrow> u64 \<Rightarrow> wstring option" where
  "GetPathFromHandle w handle = wn_object_name w handle"

definition ResolveRegistryName :: "windows \<Rightarrow> wstring \<Rightarrow> wstring option" where
  "ResolveRegistryName w name =
     (case List.find (\<lambda>(n, k). take (length n) name = n) kKnownKey of
        None \<Rightarrow> None
      | Some (n, k) \<Rightarrow>
          (case wn_RegCreateKeyEx w k of
             None \<Rightarrow> None
           | Some key \<Rightarrow>
               (case GetPathFromHandle w key of
                  None \<Rightarrow> None
                | Some path \<Rightarrow> Some (path @ drop (length n) name))))"

subsection \<open>Reparse points\<close>

text \<open>The body of the loop, up to the update of \<open>last_pos\<close>: what it returns, or \<open>None\<close> to go on.\<close>

definition reparse_check :: "windows \<Rightarrow> bool \<Rightarrow> bool \<Rightarrow> wstring \<Rightarrow> u32 option" where
  "reparse_check w added_implied_device passed_once path =
     (case wn_GetFileAttributes w (c_wstr path) of
        Inl err \<Rightarrow>
          if err \<noteq> ERROR_FILE_NOT_FOUND \<and> err \<noteq> ERROR_PATH_NOT_FOUND \<and> err \<noteq> ERROR_INVALID_NAME
          then if passed_once \<and> added_implied_device \<and> rfind BACKSLASH path = Some (kNTDotPrefixLen - 1)
               then Some ERROR_NOT_A_REPARSE_POINT
               else Some err
          else None
      | Inr attributes \<Rightarrow> if FILE_ATTRIBUTE_REPARSE_POINT AND attributes \<noteq> 0 then Some ERROR_SUCCESS else None)"

text \<open>\<open>npos\<close> is greater than 2, and \<open>substr (0, npos)\<close> is the path itself.\<close>

definition above_root :: "wstring \<Rightarrow> bool" where
  "above_root path \<longleftrightarrow> (case rfind BACKSLASH path of None \<Rightarrow> True | Some last_pos \<Rightarrow> last_pos > 2)"

definition parent_path :: "wstring \<Rightarrow> wstring" where
  "parent_path path = (case rfind BACKSLASH path of None \<Rightarrow> path | Some last_pos \<Rightarrow> take last_pos path)"

partial_function (option) reparse_loop :: "windows \<Rightarrow> bool \<Rightarrow> bool \<Rightarrow> wstring \<Rightarrow> u32 option" where
  "reparse_loop w added_implied_device passed_once path =
     (if reparse_check w added_implied_device passed_once path \<noteq> None
      then reparse_check w added_implied_device passed_once path
      else if above_root path then reparse_loop w added_implied_device True (parent_path path)
      else Some ERROR_NOT_A_REPARSE_POINT)"

definition IsReparsePoint :: "windows \<Rightarrow> wstring \<Rightarrow> u32 option" where
  "IsReparsePoint w full_path =
     (if IsPipe w full_path then Some ERROR_NOT_A_REPARSE_POINT
      else
        (let (nt_path, path) = IsNTPath full_path;
             has_drive = StartsWithDriveLetter path;
             (is_device_path, path) = IsDevicePath w path in
         if \<not> has_drive \<and> \<not> is_device_path \<and> \<not> nt_path then Some ERROR_INVALID_NAME
         else reparse_loop w (\<not> has_drive) False (if has_drive then path else kNTDotPrefix @ path)))"

subsection \<open>The object of a handle\<close>

text \<open>The path is not empty. \<open>QueryDosDevice\<close> gets the drive without its backslash.\<close>

definition SameObject :: "windows \<Rightarrow> u64 \<Rightarrow> wstring \<Rightarrow> bool" where
  "SameObject w handle full_path =
     (if IsPipe w (c_wstr full_path) then True
      else case GetPathFromHandle w handle of
        None \<Rightarrow> False
      | Some actual_path \<Rightarrow>
          (let path = c_wstr full_path;
               path = (if path \<noteq> [] \<and> last path = BACKSLASH then butlast path else path) in
           if wcsicmp_eq w actual_path path then True
           else
             (let (nt_path, path) = IsNTPath path;
                  has_drive = StartsWithDriveLetter path in
              if \<not> has_drive \<and> nt_path then
                (let (is_device, simple_actual_path) = IsDevicePath w actual_path in
                 is_device \<and> wcsicmp_eq w simple_actual_path path)
              else if \<not> has_drive then False
              else
                (let (vol_length, vol_name) = wn_QueryDosDevice w (take 2 path) in
                 if vol_length < 2 \<or> vol_length = MAX_PATH then False
                 else
                   (let vol_length = length (c_wstr vol_name) in
                    if vol_length + length path - 2 \<noteq> length actual_path then False
                    else if \<not> wcsnicmp_eq w actual_path vol_name vol_length then False
                    else wcsicmp_eq w (drop vol_length actual_path) (drop 2 path))))))"

subsection \<open>Long paths\<close>

text \<open>The loop that doubles the buffer until the name fits; it may not end.\<close>

partial_function (option) long_path_loop :: "windows \<Rightarrow> wstring \<Rightarrow> u32 \<Rightarrow> (u32 \<times> wstring \<times> u32) option" where
  "long_path_loop w path buffer_size =
     (if fst (wn_GetLongPathName w path buffer_size) \<ge> buffer_size then long_path_loop w path (buffer_size * 2)
      else Some (wn_GetLongPathName w path buffer_size))"

text \<open>The path that is given to \<open>GetLongPathName\<close>, and the way back.\<close>

definition added_implied_device :: "wstring \<Rightarrow> bool" where
  "added_implied_device path \<longleftrightarrow> \<not> StartsWithDriveLetter (snd (IsNTPath path)) \<and> fst (IsNTPath path)"

definition long_path_query :: "wstring \<Rightarrow> wstring" where
  "long_path_query path = (if added_implied_device path then kNTDotPrefix else []) @ snd (IsNTPath path)"

definition long_path_result :: "wstring \<Rightarrow> wstring \<Rightarrow> wstring" where
  "long_path_result path temp_path =
     (if fst (IsNTPath path) then kNTPrefix else [])
       @ (if added_implied_device path then RemoveImpliedDevice temp_path else temp_path)"

definition not_found :: "u32 \<times> wstring \<times> u32 \<Rightarrow> bool" where
  "not_found = (\<lambda>(return_value, long_path_buf, last_error).
     return_value = 0 \<and> last_error \<in> {ERROR_FILE_NOT_FOUND, ERROR_PATH_NOT_FOUND, ERROR_INVALID_NAME})"

text \<open>
  The result and the path as it is left; \<open>None\<close> for not returning. Of a path that does not exist the
  part in front of the last backslash is expanded.
\<close>

partial_function (option) ConvertToLongPath :: "windows \<Rightarrow> wstring \<Rightarrow> (bool \<times> wstring) option" where
  "ConvertToLongPath w path =
     (if IsPipe w path then Some (True, path)
      else if fst (IsDevicePath w path) then Some (False, path)
      else
        Option.bind (long_path_loop w (c_wstr (long_path_query path)) MAX_PATH) (\<lambda>answer.
        if not_found answer then
          (case rfind BACKSLASH (long_path_query path) of
             None \<Rightarrow> Some (False, path)
           | Some last_slash \<Rightarrow>
               Option.bind (ConvertToLongPath w (take last_slash (long_path_query path))) (\<lambda>(ok, begin_path).
               Some (if ok then (True, long_path_result path (begin_path @ drop last_slash (long_path_query path)))
                     else (False, path))))
        else Some (if fst answer \<noteq> 0 then (True, long_path_result path (c_wstr (fst (snd answer)))) else (False, path))))"

text \<open>\<open>PreProcessName\<close> of \<^verbatim>\<open>filesystem_policy.cc\<close>: the name is replaced even if it is refused.\<close>

definition PreProcessName :: "windows \<Rightarrow> wstring \<Rightarrow> (bool \<times> wstring) option" where
  "PreProcessName w path =
     Option.bind (ConvertToLongPath w path) (\<lambda>(ok, path).
     Option.bind (IsReparsePoint w path) (\<lambda>r. Some (r = ERROR_NOT_A_REPARSE_POINT, path)))"

subsection \<open>Paths end\<close>

lemma rfind_None: "rfind c s = None \<longleftrightarrow> c \<notin> set s"
  by (induction s) (auto split: option.splits)

lemma rfind_Some:
  "rfind c s = Some k \<Longrightarrow> k < length s \<and> s ! k = c \<and> (\<forall>j. k < j \<and> j < length s \<longrightarrow> s ! j \<noteq> c)"
proof (induction s arbitrary: k)
  case (Cons x xs)
  show ?case
  proof (cases "rfind c xs")
    case None
    then have "c \<notin> set xs" by (simp add: rfind_None)
    then have "xs ! j \<noteq> c" if "j < length xs" for j using that by (metis nth_mem)
    moreover have "x = c" "k = 0" using Cons.prems None by (auto split: if_splits)
    ultimately show ?thesis by (auto simp: nth_Cons split: nat.splits)
  next
    case (Some i)
    then have k: "k = Suc i" using Cons.prems by simp
    have "i < length xs" "xs ! i = c" "\<forall>j. i < j \<and> j < length xs \<longrightarrow> xs ! j \<noteq> c" using Cons.IH [OF Some] by blast+
    then show ?thesis by (auto simp: k nth_Cons split: nat.splits)
  qed
qed simp

text \<open>Every path of the loop has a backslash among its first three characters.\<close>

definition rooted :: "wstring \<Rightarrow> bool" where
  "rooted path \<longleftrightarrow> BACKSLASH \<in> set (take 3 path)"

lemma rooted_rfind:
  assumes "rooted path"
  obtains k where "rfind BACKSLASH path = Some k" "k < length path" "path ! k = BACKSLASH"
    "\<forall>j. k < j \<and> j < length path \<longrightarrow> path ! j \<noteq> BACKSLASH"
proof -
  have "BACKSLASH \<in> set path" using assms in_set_takeD unfolding rooted_def by fast
  then have "rfind BACKSLASH path \<noteq> None" by (simp add: rfind_None)
  then obtain k where "rfind BACKSLASH path = Some k" by blast
  then show thesis using that rfind_Some [of BACKSLASH path k] by blast
qed

lemma rooted_parent:
  assumes "rooted path" and "above_root path"
  shows "rooted (parent_path path) \<and> length (parent_path path) < length path"
proof -
  obtain k where k: "rfind BACKSLASH path = Some k" "k < length path" using rooted_rfind [OF assms(1)] by blast
  then have "2 < k" using assms(2) by (simp add: above_root_def)
  then have "take 3 (take k path) = take 3 path" by (simp add: min_def)
  then show ?thesis using assms(1) k by (simp add: rooted_def parent_path_def)
qed

lemma reparse_loop_returns: "rooted path \<Longrightarrow> \<exists>r. reparse_loop w implied passed path = Some r"
proof (induction "length path" arbitrary: path passed rule: less_induct)
  case less
  show ?case
  proof (cases "reparse_check w implied passed path = None \<and> above_root path")
    case True
    then show ?thesis
      using less.hyps [of "parent_path path" True] rooted_parent [OF less.prems] by (simp add: reparse_loop.simps [of _ _ _ path])
  next
    case False
    then show ?thesis by (subst reparse_loop.simps) auto
  qed
qed

lemma drive_rooted: "StartsWithDriveLetter path \<Longrightarrow> rooted path"
  unfolding StartsWithDriveLetter_def rooted_def
  by (metis in_set_conv_nth length_take min.absorb2 nth_take lessI numeral_3_eq_3 numeral_2_eq_2)

lemma dot_rooted: "rooted (kNTDotPrefix @ path)"
  by (simp add: rooted_def kNTDotPrefix_def)

text \<open>
  What the path functions need of Windows: case folding keeps the backslash apart,
  \<open>GetLongPathName\<close> never asks for more than the longest path that there is, and
  \<open>GetFileAttributes\<close> does not fail with an error that is about reparse points only.
\<close>

definition windows_ok :: "windows \<Rightarrow> bool" where
  "windows_ok w \<longleftrightarrow> (\<forall>c. wn_towlower w c = wn_towlower w BACKSLASH \<longrightarrow> c = BACKSLASH)
     \<and> (\<forall>path n. n \<le> fst (wn_GetLongPathName w path n) \<longrightarrow> fst (wn_GetLongPathName w path n) \<le> 0x8000)
     \<and> (\<forall>path err. wn_GetFileAttributes w path = Inl err \<longrightarrow> err \<noteq> ERROR_NOT_A_REPARSE_POINT)"

lemma drive_not_device:
  assumes "windows_ok w" and "StartsWithDriveLetter path"
  shows "IsDevicePath w path = (False, path)"
proof -
  have alpha: "path \<noteq> []" "hd path \<noteq> BACKSLASH" "hd path \<noteq> 0"
    using assms(2) by (cases path; auto simp: StartsWithDriveLetter_def IsAsciiAlpha_def)+
  then obtain c cs where path: "path = c # cs" "c \<noteq> BACKSLASH" "c \<noteq> 0" by (cases path) auto
  then have "c_wstr path = c # c_wstr cs" by (simp add: c_wstr_def)
  moreover have "c_wstr kNTDevicePrefix = BACKSLASH # drop 1 kNTDevicePrefix"
    by (simp add: kNTDevicePrefix_def c_wstr_def wide_def)
  ultimately have "wcsnicmp_eq w path kNTDevicePrefix kNTDevicePrefixLen \<Longrightarrow> wn_towlower w c = wn_towlower w BACKSLASH"
    by (simp add: wcsnicmp_eq_def kNTDevicePrefixLen_def)
  then have "\<not> wcsnicmp_eq w path kNTDevicePrefix kNTDevicePrefixLen" using assms(1) path(2) by (auto simp: windows_ok_def)
  then show ?thesis by (simp add: IsDevicePath_def)
qed

text \<open>The path whose attributes are asked for first.\<close>

definition native_path :: "windows \<Rightarrow> wstring \<Rightarrow> wstring" where
  "native_path w full_path =
     (let path = snd (IsNTPath full_path) in
      if StartsWithDriveLetter path then path else kNTDotPrefix @ snd (IsDevicePath w path))"

lemma IsReparsePoint_cases:
  assumes "windows_ok w"
  shows "IsReparsePoint w full_path =
    (if IsPipe w full_path then Some ERROR_NOT_A_REPARSE_POINT
     else if \<not> StartsWithDriveLetter (snd (IsNTPath full_path)) \<and> \<not> fst (IsDevicePath w (snd (IsNTPath full_path)))
        \<and> \<not> fst (IsNTPath full_path)
     then Some ERROR_INVALID_NAME
     else reparse_loop w (\<not> StartsWithDriveLetter (snd (IsNTPath full_path))) False (native_path w full_path))"
  using drive_not_device [OF assms, of "snd (IsNTPath full_path)"]
  by (cases "IsNTPath full_path"; cases "IsDevicePath w (snd (IsNTPath full_path))")
    (auto simp: IsReparsePoint_def native_path_def Let_def)

lemma native_rooted: "rooted (native_path w full_path)"
  by (simp add: native_path_def Let_def drive_rooted dot_rooted)

lemma IsReparsePoint_returns: "windows_ok w \<Longrightarrow> \<exists>r. IsReparsePoint w path = Some r"
  using reparse_loop_returns [OF native_rooted, of w] by (simp add: IsReparsePoint_cases)

subsection \<open>Long paths end\<close>

lemma long_path_loop_returns:
  assumes "windows_ok w"
  shows "\<exists>r. long_path_loop w path MAX_PATH = Some r"
proof -
  have stop: "long_path_loop w path n \<noteq> None" if "0x8000 < n" for n
  proof -
    have "\<not> n \<le> fst (wn_GetLongPathName w path n)" using assms that unfolding windows_ok_def by (meson not_le order.strict_trans1)
    then have "long_path_loop w path n = Some (wn_GetLongPathName w path n)" by (simp only: long_path_loop.simps [of w path n] if_False)
    then show ?thesis by simp
  qed
  have double: "long_path_loop w path n \<noteq> None" if "long_path_loop w path (n * 2) \<noteq> None" for n
    using that by (cases "n \<le> fst (wn_GetLongPathName w path n)") (simp_all only: long_path_loop.simps [of w path n] if_True if_False, simp_all)
  have "long_path_loop w path MAX_PATH \<noteq> None" 
    by (rule double, rule double, rule double, rule double, rule double, rule double, rule double, rule stop) simp
  then show ?thesis by blast
qed

lemma IsNTPath_length: "length (snd (IsNTPath path)) + (if fst (IsNTPath path) then 4 else 0) = length path"
  by (auto simp: IsNTPath_def kNTPrefixLen_def)

lemma ConvertToLongPath_returns:
  assumes "windows_ok w"
  shows "\<exists>r. ConvertToLongPath w path = Some r"
proof (induction "length path" arbitrary: path rule: less_induct)
  case less
  let ?q = "long_path_query path"
  have le: "length ?q \<le> length path"
    using IsNTPath_length [of path] by (auto simp: long_path_query_def added_implied_device_def kNTDotPrefix_def)
  obtain answer where loop: "long_path_loop w (c_wstr ?q) MAX_PATH = Some answer"
    using long_path_loop_returns [OF assms, of "c_wstr ?q"] by blast
  show ?case
  proof (cases "rfind BACKSLASH ?q")
    case None
    then have "ConvertToLongPath w path \<noteq> None" by (subst ConvertToLongPath.simps) (simp add: loop del: not_None_eq)
    then show ?thesis by blast
  next
    case (Some k)
    have "length (take k ?q) < length path" using rfind_Some [OF Some] le by simp
    then obtain r where "ConvertToLongPath w (take k ?q) = Some r" using less.hyps [of "take k ?q"] by blast
    then have "ConvertToLongPath w path \<noteq> None" using Some by (subst ConvertToLongPath.simps) (simp add: loop case_prod_beta del: not_None_eq)
    then show ?thesis by blast
  qed
qed

lemma PreProcessName_returns:
  assumes "windows_ok w"
  shows "\<exists>ok path'. PreProcessName w path = Some (ok, path')"
proof -
  obtain ok path' where "ConvertToLongPath w path = Some (ok, path')" using ConvertToLongPath_returns [OF assms, of path] by auto
  moreover obtain r where "IsReparsePoint w path' = Some r" using IsReparsePoint_returns [OF assms] by blast
  ultimately show ?thesis by (simp add: PreProcessName_def)
qed

subsection \<open>No reparse point above\<close>

text \<open>The path itself and what is in front of its backslashes, but not the root.\<close>

definition ancestors :: "bool \<Rightarrow> wstring \<Rightarrow> wstring set" where
  "ancestors implied path =
     {path} \<union> {take k path | k. (if implied then kNTDotPrefixLen - 1 else 2) < k \<and> k < length path \<and> path ! k = BACKSLASH}"

definition is_reparse_point :: "windows \<Rightarrow> wstring \<Rightarrow> bool" where
  "is_reparse_point w path \<longleftrightarrow>
     (case wn_GetFileAttributes w (c_wstr path) of Inl err \<Rightarrow> False | Inr a \<Rightarrow> FILE_ATTRIBUTE_REPARSE_POINT AND a \<noteq> 0)"

lemma ancestors_parent:
  assumes "rooted path" and "q \<in> ancestors implied path" and "q \<noteq> path"
  shows "q \<in> ancestors implied (parent_path path)"
proof -
  obtain k where k: "rfind BACKSLASH path = Some k" "k < length path" "\<forall>j. k < j \<and> j < length path \<longrightarrow> path ! j \<noteq> BACKSLASH"
    using rooted_rfind [OF assms(1)] by metis
  obtain i where i: "q = take i path" "(if implied then kNTDotPrefixLen - 1 else 2) < i" "i < length path" "path ! i = BACKSLASH"
    using assms(2,3) by (auto simp: ancestors_def)
  have "i \<le> k" using k(3) i(3,4) by (meson not_le)
  then show ?thesis
    using i k(1,2) by (cases "i = k") (auto simp: ancestors_def parent_path_def min_def intro!: exI [of _ i])
qed

lemma ancestors_root:
  assumes "rooted path" and "\<not> above_root path" and "q \<in> ancestors implied path"
  shows "q = path"
proof (rule ccontr)
  assume ne: "q \<noteq> path"
  obtain k where k: "rfind BACKSLASH path = Some k" "\<forall>j. k < j \<and> j < length path \<longrightarrow> path ! j \<noteq> BACKSLASH"
    using rooted_rfind [OF assms(1)] by metis
  have "k \<le> 2" using assms(2) k(1) by (simp add: above_root_def)
  obtain i where i: "(if implied then kNTDotPrefixLen - 1 else 2) < i" "i < length path" "path ! i = BACKSLASH"
    using assms(3) ne by (auto simp: ancestors_def)
  have "2 < i" using i(1) by (simp add: kNTDotPrefixLen_def split: if_splits)
  then show False using k(2) \<open>k \<le> 2\<close> i by auto
qed

lemma reparse_loop_safe:
  assumes "reparse_loop w implied passed path = Some ERROR_NOT_A_REPARSE_POINT" and "rooted path" and "q \<in> ancestors implied path"
    and "windows_ok w"
  shows "\<not> is_reparse_point w q"
  using assms
proof (induction "length path" arbitrary: path passed rule: less_induct)
  case less
  show ?case
  proof (cases "reparse_check w implied passed path")
    case None
    then have self: "\<not> is_reparse_point w path"
      by (auto simp: reparse_check_def is_reparse_point_def split: sum.splits if_splits)
    show ?thesis
    proof (cases "q = path")
      case False
      then have up: "above_root path" using ancestors_root less.prems(2,3) by blast
      then have "reparse_loop w implied True (parent_path path) = Some ERROR_NOT_A_REPARSE_POINT"
        using less.prems(1) None by (simp add: reparse_loop.simps [of _ _ _ path])
      then show ?thesis
        using less.hyps [of "parent_path path" True] rooted_parent [OF less.prems(2) up]
          ancestors_parent [OF less.prems(2,3) False] less.prems(4) by blast
    qed (use self in simp)
  next
    case (Some r)
    then have "r = ERROR_NOT_A_REPARSE_POINT" using less.prems(1) by (simp add: reparse_loop.simps [of _ _ _ path])
    then have top: "implied" "rfind BACKSLASH path = Some (kNTDotPrefixLen - 1)" "\<not> is_reparse_point w path"
      using Some less.prems(4) by (auto simp: reparse_check_def is_reparse_point_def windows_ok_def split: sum.splits if_splits)
    have "path ! i \<noteq> BACKSLASH" if "kNTDotPrefixLen - 1 < i" "i < length path" for i
      using rfind_Some [OF top(2)] that by blast
    then have "q = path" using less.prems(3) top(1) by (auto simp: ancestors_def)
    then show ?thesis using top(3) by simp
  qed
qed

subsection \<open>Properties\<close>

text \<open>
  C25: the check of a path returns for every path, however the file system looks: both loops and the recursion end.
\<close>

theorem PreProcessName_terminates:
  assumes "windows_ok w"
  shows "\<exists>ok path'. PreProcessName w path = Some (ok, path')"
  by (rule PreProcessName_returns [OF assms])

text \<open>A file system without reparse points, a drive, a file and a registry key.\<close>

definition sample_path :: wstring where
  "sample_path = kNTPrefix @ [99, 58, BACKSLASH, 97, BACKSLASH, 98]"

definition sample_windows :: windows where
  "sample_windows =
     \<lparr>wn_towlower = (\<lambda>c. if 65 \<le> c \<and> c \<le> 90 then c + 32 else c),
      wn_GetFileAttributes = (\<lambda>path. Inr 0x20),
      wn_GetLongPathName = (\<lambda>path n. if length path < 260 then (of_nat (length path), path, 0) else (0, [], 123)),
      wn_object_name = (\<lambda>handle. Some (if handle = 42 then sample_path else [BACKSLASH, 82])), wn_QueryDosDevice = (\<lambda>drive. (0, [])), wn_RegCreateKeyEx = (\<lambda>key. Some 5)\<rparr>"

lemma sample_windows_ok: "windows_ok sample_windows"
proof -
  have "c = BACKSLASH" if "wn_towlower sample_windows c = wn_towlower sample_windows BACKSLASH" for c
  proof (rule ccontr)
    assume "c \<noteq> BACKSLASH"
    then have "65 \<le> c" "c \<le> 90" "c + 32 = 92" using that by (simp_all add: sample_windows_def split: if_splits)
    then have "c = 92 - 32" by (simp only: eq_diff_eq)
    then show False using \<open>65 \<le> c\<close> by simp
  qed
  moreover have "fst (wn_GetLongPathName sample_windows path n) \<le> 0x8000" for path n
    by (simp add: sample_windows_def word_le_nat_alt unat_of_nat take_bit_nat_eq_self)
  ultimately show ?thesis by (simp add: windows_ok_def) (simp add: sample_windows_def)
qed

lemma sample_path_simps:
  "\<not> IsPipe sample_windows sample_path" "IsNTPath sample_path = (True, [99, 58, BACKSLASH, 97, BACKSLASH, 98])"
  "StartsWithDriveLetter [99, 58, BACKSLASH, 97, BACKSLASH, 98]" "\<not> fst (IsDevicePath sample_windows sample_path)"
  by (simp_all add: sample_path_def IsPipe_def IsNTPath_def IsDevicePath_def kNTPrefix_def kNTPrefixLen_def kPipe_def wide_def
    wcsnicmp_eq_def c_wstr_def sample_windows_def StartsWithDriveLetter_def IsAsciiAlpha_def kNTDevicePrefix_def
    kNTDevicePrefixLen_def nth_Cons')

theorem PreProcessName_terminates_witness:
  "windows_ok sample_windows \<and> (\<exists>ok path'. PreProcessName sample_windows sample_path = Some (ok, path'))"
  using PreProcessName_terminates [OF sample_windows_ok] sample_windows_ok by blast

lemma accepted_path:
  assumes "windows_ok w" and "PreProcessName w name = Some (True, path)" and "\<not> IsPipe w path"
  shows "(StartsWithDriveLetter (snd (IsNTPath path)) \<or> fst (IsNTPath path) \<or> fst (IsDevicePath w path))
    \<and> (\<forall>q \<in> ancestors (\<not> StartsWithDriveLetter (snd (IsNTPath path))) (native_path w path). \<not> is_reparse_point w q)"
proof -
  have r: "IsReparsePoint w path = Some ERROR_NOT_A_REPARSE_POINT"
    using assms(2) by (auto simp: PreProcessName_def split: Option.bind_splits)
  have form: "StartsWithDriveLetter (snd (IsNTPath path)) \<or> fst (IsDevicePath w (snd (IsNTPath path))) \<or> fst (IsNTPath path)"
    using r assms(3) by (auto simp: IsReparsePoint_cases [OF assms(1)] split: if_splits)
  then have "reparse_loop w (\<not> StartsWithDriveLetter (snd (IsNTPath path))) False (native_path w path) = Some ERROR_NOT_A_REPARSE_POINT"
    using r assms(3) by (simp add: IsReparsePoint_cases [OF assms(1)] split: if_splits)
  then have "\<not> is_reparse_point w q" if "q \<in> ancestors (\<not> StartsWithDriveLetter (snd (IsNTPath path))) (native_path w path)" for q
    using reparse_loop_safe [OF _ native_rooted that assms(1)] by blast
  moreover have "fst (IsNTPath path) \<or> snd (IsNTPath path) = path" by (simp add: IsNTPath_def)
  ultimately show ?thesis using form by auto
qed

text \<open>
  C17: a path that the check accepts is a pipe or of one of the three known forms, and
  neither the object that it names nor any directory above it is a reparse point.
\<close>

theorem PreProcessName_no_reparse_point:
  assumes "windows_ok w" and "PreProcessName w name = Some (True, path)" and "\<not> IsPipe w path"
  shows "(StartsWithDriveLetter (snd (IsNTPath path)) \<or> fst (IsNTPath path) \<or> fst (IsDevicePath w path))
    \<and> (\<forall>q \<in> ancestors (\<not> StartsWithDriveLetter (snd (IsNTPath path))) (native_path w path). \<not> is_reparse_point w q)"
  by (rule accepted_path [OF assms])

lemma sample_long_path: "ConvertToLongPath sample_windows sample_path = Some (True, sample_path)"
proof -
  have "long_path_query sample_path = [99, 58, BACKSLASH, 97, BACKSLASH, 98]"
    by (simp add: long_path_query_def added_implied_device_def sample_path_simps)
  moreover have "long_path_loop sample_windows [99, 58, BACKSLASH, 97, BACKSLASH, 98] MAX_PATH
      = Some (6, [99, 58, BACKSLASH, 97, BACKSLASH, 98], 0)"
    by (subst long_path_loop.simps) (simp add: sample_windows_def)
  moreover have "long_path_result sample_path [99, 58, BACKSLASH, 97, BACKSLASH, 98] = sample_path"
    by (simp add: long_path_result_def added_implied_device_def sample_path_simps) (simp add: sample_path_def)
  ultimately show ?thesis
    by (subst ConvertToLongPath.simps) (simp add: sample_path_simps c_wstr_def not_found_def)
qed

lemma sample_accepted: "PreProcessName sample_windows sample_path = Some (True, sample_path)"
proof -
  let ?p = "[99, 58, BACKSLASH, 97, BACKSLASH, 98] :: wstring"
  have step: "reparse_check sample_windows False passed p = None" for passed p
    by (simp add: reparse_check_def sample_windows_def)
  have "native_path sample_windows sample_path = ?p" by (simp add: native_path_def sample_path_simps)
  moreover have "reparse_loop sample_windows False False ?p = Some ERROR_NOT_A_REPARSE_POINT"
    by (subst reparse_loop.simps, simp add: step above_root_def parent_path_def,
        subst reparse_loop.simps, simp add: step above_root_def parent_path_def)
  ultimately have "IsReparsePoint sample_windows sample_path = Some ERROR_NOT_A_REPARSE_POINT"
    by (simp add: IsReparsePoint_cases [OF sample_windows_ok] sample_path_simps)
  then show ?thesis by (simp add: PreProcessName_def sample_long_path)
qed

theorem PreProcessName_no_reparse_point_witness:
  "PreProcessName sample_windows sample_path = Some (True, sample_path)
   \<and> \<not> is_reparse_point sample_windows [99, 58, BACKSLASH, 97]"
proof -
  let ?p = "[99, 58, BACKSLASH, 97, BACKSLASH, 98] :: wstring"
  have n: "native_path sample_windows sample_path = ?p" by (simp add: native_path_def sample_path_simps)
  have "take 4 ?p \<in> ancestors False ?p" unfolding ancestors_def by (intro UnI2 CollectI exI [of _ 4]) simp
  then have "\<not> is_reparse_point sample_windows (take 4 ?p)"
    using PreProcessName_no_reparse_point [OF sample_windows_ok sample_accepted sample_path_simps(1)]
    by (simp add: sample_path_simps n)
  then show ?thesis using sample_accepted by simp
qed

end
