(* ===== verification/Win_Resource_Rules.thy ===== *)
theory Win_Resource_Rules
  imports Win_Policy_Correct Win_Ipc_Server Win_Utils
begin

text \<open>
  From the rules of the embedder to rules of opcodes: the \<open>GenerateRules\<close> of
  \<^verbatim>\<open>win/src/filesystem_policy.cc\<close>, \<^verbatim>\<open>registry_policy.cc\<close>, \<^verbatim>\<open>sync_policy.cc\<close>,
  \<^verbatim>\<open>named_pipe_policy.cc\<close>, \<^verbatim>\<open>process_thread_policy.cc\<close> and
  \<^verbatim>\<open>process_mitigations_win32k_policy.cc\<close>, and the policy object of
  \<^verbatim>\<open>sandbox_policy_base.cc\<close> that calls them and later evaluates calls. The content of the
  uninitialised memory of the k-th rule object is \<open>junk k\<close>.
\<close>

subsection \<open>Parameters, flags and semantics\<close>

abbreviation (input) OpenFile_NAME :: u16 where "OpenFile_NAME \<equiv> 0"
abbreviation (input) OpenFile_BROKER :: u16 where "OpenFile_BROKER \<equiv> 1"
abbreviation (input) OpenFile_ACCESS :: u16 where "OpenFile_ACCESS \<equiv> 2"
abbreviation (input) OpenFile_DISPOSITION :: u16 where "OpenFile_DISPOSITION \<equiv> 3"
abbreviation (input) OpenFile_OPTIONS :: u16 where "OpenFile_OPTIONS \<equiv> 4"
abbreviation (input) FileName_NAME :: u16 where "FileName_NAME \<equiv> 0"
abbreviation (input) FileName_BROKER :: u16 where "FileName_BROKER \<equiv> 1"
abbreviation (input) NameBased_NAME :: u16 where "NameBased_NAME \<equiv> 0"
abbreviation (input) OpenEventParams_NAME :: u16 where "OpenEventParams_NAME \<equiv> 0"
abbreviation (input) OpenEventParams_ACCESS :: u16 where "OpenEventParams_ACCESS \<equiv> 1"
abbreviation (input) OpenKey_NAME :: u16 where "OpenKey_NAME \<equiv> 0"
abbreviation (input) OpenKey_ACCESS :: u16 where "OpenKey_ACCESS \<equiv> 1"

abbreviation (input) FILE_READ_DATA :: u32 where "FILE_READ_DATA \<equiv> 0x1"
abbreviation (input) FILE_READ_EA :: u32 where "FILE_READ_EA \<equiv> 0x8"
abbreviation (input) FILE_EXECUTE :: u32 where "FILE_EXECUTE \<equiv> 0x20"
abbreviation (input) FILE_READ_ATTRIBUTES :: u32 where "FILE_READ_ATTRIBUTES \<equiv> 0x80"
abbreviation (input) FILE_DIRECTORY_FILE :: u32 where "FILE_DIRECTORY_FILE \<equiv> 0x1"
abbreviation (input) FILE_OPEN :: u32 where "FILE_OPEN \<equiv> 1"
abbreviation (input) READ_CONTROL :: u32 where "READ_CONTROL \<equiv> 0x20000"
abbreviation (input) SYNCHRONIZE :: u32 where "SYNCHRONIZE \<equiv> 0x100000"
abbreviation (input) MAXIMUM_ALLOWED :: u32 where "MAXIMUM_ALLOWED \<equiv> 0x2000000"
abbreviation (input) GENERIC_EXECUTE :: u32 where "GENERIC_EXECUTE \<equiv> 0x20000000"
abbreviation (input) GENERIC_READ :: u32 where "GENERIC_READ \<equiv> 0x80000000"
abbreviation (input) KEY_QUERY_VALUE :: u32 where "KEY_QUERY_VALUE \<equiv> 0x1"
abbreviation (input) KEY_ENUMERATE_SUB_KEYS :: u32 where "KEY_ENUMERATE_SUB_KEYS \<equiv> 0x8"
abbreviation (input) KEY_NOTIFY :: u32 where "KEY_NOTIFY \<equiv> 0x10"
abbreviation (input) KEY_READ :: u32 where "KEY_READ \<equiv> 0x20019"
abbreviation (input) TRUE :: u32 where "TRUE \<equiv> 1"

datatype subsystem = SUBSYS_FILES | SUBSYS_NAMED_PIPES | SUBSYS_PROCESS | SUBSYS_REGISTRY | SUBSYS_SYNC | SUBSYS_WIN32K_LOCKDOWN

datatype semantics = FILES_ALLOW_ANY | FILES_ALLOW_READONLY | FILES_ALLOW_QUERY | FILES_ALLOW_DIR_ANY | NAMEDPIPES_ALLOW_ANY
  | PROCESS_MIN_EXEC | PROCESS_ALL_EXEC | EVENTS_ALLOW_ANY | EVENTS_ALLOW_READONLY | REG_ALLOW_READONLY | REG_ALLOW_ANY
  | FAKE_USER_GDI_INIT | IMPLEMENT_OPM_APIS

subsection \<open>Building blocks\<close>

text \<open>
  \<open>!rule.AddStringMatch (IF, parameter, name, CASE_INSENSITIVE) || !policy->AddRule (tag, &rule)\<close>, and
  a number match whose result is ignored.
\<close>

type_synonym policy_change = "low_level_policy \<Rightarrow> abort + (bool \<times> low_level_policy)"

definition add_named_rule :: "ipc_tag \<Rightarrow> u16 \<Rightarrow> wstring \<Rightarrow> policy_rule \<Rightarrow> policy_change" where
  "add_named_rule tag parameter name r p =
     res_bind (AddStringMatch IF parameter name CASE_INSENSITIVE r) (\<lambda>(ok, r).
     if \<not> ok then Inr (False, p)
     else res_bind (AddRule (ipc_tag_code tag) r p) (\<lambda>(ok, r, p). Inr (ok, p)))"

definition and_then :: "policy_change \<Rightarrow> policy_change \<Rightarrow> policy_change" where
  "and_then f g p = res_bind (f p) (\<lambda>(ok, p). if ok then g p else Inr (False, p))"

definition skip_change :: policy_change where "skip_change p = Inr (True, p)"

definition number_match :: "rule_type \<Rightarrow> u16 \<Rightarrow> u32 \<Rightarrow> rule_op \<Rightarrow> policy_rule \<Rightarrow> abort + policy_rule" where
  "number_match rule_type parameter number comparison_op r =
     res_bind (AddNumberMatch rule_type parameter number comparison_op r) (\<lambda>(ok, r). Inr r)"

subsection \<open>Files\<close>

definition kNTPrefixEscaped :: wstring where
  "kNTPrefixEscaped = [BACKSLASH, SLASH, QUESTION, SLASH, QUESTION, BACKSLASH]"

definition FixNTPrefixForMatch :: "wstring \<Rightarrow> wstring" where
  "FixNTPrefixForMatch name =
     (if take kNTPrefixLen name \<noteq> kNTPrefix then
        (if take (length kNTPrefixEscaped) name \<noteq> kNTPrefixEscaped then kNTPrefixEscaped @ name else name)
      else kNTPrefixEscaped @ drop kNTPrefixLen name)"

definition restricted_file_flags :: u32 where
  "restricted_file_flags = NOT (FILE_READ_DATA OR FILE_READ_ATTRIBUTES OR FILE_READ_EA OR SYNCHRONIZE OR FILE_EXECUTE
     OR GENERIC_READ OR GENERIC_EXECUTE OR READ_CONTROL)"

text \<open>The number matches of an open or create rule.\<close>

definition file_rule :: "semantics \<Rightarrow> policy_rule \<Rightarrow> abort + policy_rule" where
  "file_rule semantics r =
     (case semantics of
        FILES_ALLOW_DIR_ANY \<Rightarrow> number_match IF OpenFile_OPTIONS FILE_DIRECTORY_FILE AND_OP r
      | FILES_ALLOW_READONLY \<Rightarrow>
          res_bind (number_match IF_NOT OpenFile_ACCESS restricted_file_flags AND_OP r)
            (number_match IF OpenFile_DISPOSITION FILE_OPEN EQUAL)
      | _ \<Rightarrow> Inr r)"

definition is_file_semantics :: "semantics \<Rightarrow> bool" where
  "is_file_semantics s \<longleftrightarrow> s = FILES_ALLOW_DIR_ANY \<or> s = FILES_ALLOW_READONLY \<or> s = FILES_ALLOW_QUERY \<or> s = FILES_ALLOW_ANY"

text \<open>\<open>GenerateRules\<close> behind the preparation of the name; \<open>rule_to_add\<close> is spelled out.\<close>

definition file_rules :: "(nat \<Rightarrow> mem) \<Rightarrow> wstring \<Rightarrow> semantics \<Rightarrow> policy_change" where
  "file_rules junk name semantics p =
     (if \<not> is_file_semantics semantics then Inr (False, p)
      else
        res_bind (file_rule semantics (PolicyRule (junk 0) ASK_BROKER)) (\<lambda>create_rule.
        res_bind (file_rule semantics (PolicyRule (junk 1) ASK_BROKER)) (\<lambda>open_rule.
        let query = PolicyRule (junk 2) ASK_BROKER;
            query_full = PolicyRule (junk 3) ASK_BROKER;
            rename = PolicyRule (junk 4) ASK_BROKER in
        and_then (if semantics = FILES_ALLOW_QUERY then skip_change
                  else add_named_rule IPC_NTCREATEFILE_TAG OpenFile_NAME name create_rule)
        (and_then (if semantics = FILES_ALLOW_QUERY then skip_change
                   else add_named_rule IPC_NTOPENFILE_TAG OpenFile_NAME name open_rule)
        (and_then (add_named_rule IPC_NTQUERYATTRIBUTESFILE_TAG FileName_NAME name query)
        (and_then (add_named_rule IPC_NTQUERYFULLATTRIBUTESFILE_TAG FileName_NAME name query_full)
        (if semantics = FILES_ALLOW_QUERY \<or> semantics = FILES_ALLOW_READONLY then skip_change
         else add_named_rule IPC_NTSETINFO_RENAME_TAG FileName_NAME name rename)))) p)))"

text \<open>The name of a rule is that of a path or a pattern; outside of a prefix it is matched as given.\<close>

definition file_pattern :: "windows \<Rightarrow> wstring \<Rightarrow> wstring \<Rightarrow> wstring" where
  "file_pattern w name mod_name =
     (if \<not> wcsnicmp_eq w mod_name kNTDevicePrefix kNTDevicePrefixLen then c_wstr (FixNTPrefixForMatch mod_name) else name)"

definition FileSystemPolicy_GenerateRules ::
    "windows \<Rightarrow> (nat \<Rightarrow> mem) \<Rightarrow> wstring \<Rightarrow> semantics \<Rightarrow> low_level_policy \<Rightarrow> (abort + (bool \<times> low_level_policy)) option" where
  "FileSystemPolicy_GenerateRules w junk name semantics p =
     (if name = [] then Some (Inr (False, p))
      else
        Option.bind (PreProcessName w name) (\<lambda>(ok, mod_name).
        Some (if \<not> ok then Inr (False, p) else file_rules junk (file_pattern w name mod_name) semantics p)))"

text \<open>
  \<open>SetInitialRules\<close>: the two rules are added to the five services by turns; a rule is finished when it
  is first added.
\<close>

definition kShortNamePattern :: wstring where "kShortNamePattern = [ASTERISK, 126, ASTERISK]"

fun add_shared :: "ipc_tag list \<Rightarrow> policy_rule \<Rightarrow> policy_rule \<Rightarrow> policy_change" where
  "add_shared [] format_rule short_name p = Inr (True, p)"
| "add_shared (tag # tags) format_rule short_name p =
     res_bind (AddRule (ipc_tag_code tag) format_rule p) (\<lambda>(ok, format_rule, p).
     if \<not> ok then Inr (False, p)
     else
       res_bind (AddRule (ipc_tag_code tag) short_name p) (\<lambda>(ok, short_name, p).
       if \<not> ok then Inr (False, p) else add_shared tags format_rule short_name p))"

definition SetInitialRules :: "mem \<Rightarrow> mem \<Rightarrow> policy_change" where
  "SetInitialRules junk_format junk_short p =
     res_bind (AddNumberMatch IF_NOT FileName_BROKER TRUE AND_OP (PolicyRule junk_format ASK_BROKER)) (\<lambda>(rv1, format_rule).
     res_bind (AddStringMatch IF_NOT FileName_NAME (kNTPrefixEscaped @ [ASTERISK]) CASE_SENSITIVE format_rule) (\<lambda>(rv2, format_rule).
     res_bind (AddNumberMatch IF_NOT FileName_BROKER TRUE AND_OP (PolicyRule junk_short ASK_BROKER)) (\<lambda>(rv3, short_name).
     res_bind (AddStringMatch IF FileName_NAME kShortNamePattern CASE_SENSITIVE short_name) (\<lambda>(rv4, short_name).
     if \<not> (rv1 \<and> rv2 \<and> rv3 \<and> rv4) then Inr (False, p)
     else add_shared [IPC_NTCREATEFILE_TAG, IPC_NTOPENFILE_TAG, IPC_NTQUERYATTRIBUTESFILE_TAG,
       IPC_NTQUERYFULLATTRIBUTESFILE_TAG, IPC_NTSETINFO_RENAME_TAG] format_rule short_name p))))"

subsection \<open>Registry, events, pipes and processes\<close>

definition kAllowedRegFlags :: u32 where
  "kAllowedRegFlags = KEY_QUERY_VALUE OR KEY_ENUMERATE_SUB_KEYS OR KEY_NOTIFY OR KEY_READ OR GENERIC_READ OR GENERIC_EXECUTE
     OR READ_CONTROL"

definition registry_rule :: "semantics \<Rightarrow> policy_rule \<Rightarrow> abort + policy_rule" where
  "registry_rule semantics r =
     (if semantics = REG_ALLOW_READONLY
      then number_match IF_NOT OpenKey_ACCESS (NOT (kAllowedRegFlags OR MAXIMUM_ALLOWED)) AND_OP r
      else Inr r)"

definition RegistryPolicy_GenerateRules :: "windows \<Rightarrow> (nat \<Rightarrow> mem) \<Rightarrow> wstring \<Rightarrow> semantics \<Rightarrow> policy_change" where
  "RegistryPolicy_GenerateRules w junk name semantics p =
     (if name = [] then Inr (False, p)
      else case ResolveRegistryName w name of
        None \<Rightarrow> Inr (False, p)
      | Some resolved_name \<Rightarrow>
          (if semantics \<noteq> REG_ALLOW_READONLY \<and> semantics \<noteq> REG_ALLOW_ANY then Inr (False, p)
           else
             res_bind (registry_rule semantics (PolicyRule (junk 0) ASK_BROKER)) (\<lambda>open_rule.
             res_bind (registry_rule semantics (PolicyRule (junk 1) ASK_BROKER)) (\<lambda>create_rule.
             and_then (add_named_rule IPC_NTCREATEKEY_TAG OpenKey_NAME (c_wstr resolved_name) create_rule)
               (add_named_rule IPC_NTOPENKEY_TAG OpenKey_NAME (c_wstr resolved_name) open_rule) p))))"

definition restricted_event_flags :: u32 where
  "restricted_event_flags = NOT (SYNCHRONIZE OR GENERIC_READ OR READ_CONTROL)"

definition SyncPolicy_GenerateRules :: "(nat \<Rightarrow> mem) \<Rightarrow> wstring \<Rightarrow> semantics \<Rightarrow> policy_change" where
  "SyncPolicy_GenerateRules junk name semantics p =
     (if name = [] then Inr (False, p)
      else if semantics \<noteq> EVENTS_ALLOW_ANY \<and> semantics \<noteq> EVENTS_ALLOW_READONLY then Inr (False, p)
      else
        res_bind (AddStringMatch IF OpenEventParams_NAME name CASE_INSENSITIVE (PolicyRule (junk 0) ASK_BROKER)) (\<lambda>(ok, open_rule).
        if \<not> ok then Inr (False, p)
        else
          res_bind (if semantics = EVENTS_ALLOW_READONLY
                    then number_match IF_NOT OpenEventParams_ACCESS restricted_event_flags AND_OP open_rule
                    else Inr open_rule) (\<lambda>open_rule.
          res_bind (AddRule (ipc_tag_code IPC_OPENEVENT_TAG) open_rule p) (\<lambda>(ok, open_rule, p).
          if \<not> ok then Inr (False, p)
          else if semantics = EVENTS_ALLOW_READONLY then Inr (True, p)
          else add_named_rule IPC_CREATEEVENT_TAG NameBased_NAME name (PolicyRule (junk 1) ASK_BROKER) p))))"

definition NamedPipePolicy_GenerateRules :: "(nat \<Rightarrow> mem) \<Rightarrow> wstring \<Rightarrow> semantics \<Rightarrow> policy_change" where
  "NamedPipePolicy_GenerateRules junk name semantics p =
     (if semantics \<noteq> NAMEDPIPES_ALLOW_ANY then Inr (False, p)
      else add_named_rule IPC_CREATENAMEDPIPEW_TAG NameBased_NAME name (PolicyRule (junk 0) ASK_BROKER) p)"

definition ProcessPolicy_GenerateRules :: "(nat \<Rightarrow> mem) \<Rightarrow> wstring \<Rightarrow> semantics \<Rightarrow> policy_change" where
  "ProcessPolicy_GenerateRules junk name semantics p =
     (if semantics = PROCESS_MIN_EXEC
      then add_named_rule IPC_CREATEPROCESSW_TAG NameBased_NAME name (PolicyRule (junk 0) GIVE_READONLY) p
      else if semantics = PROCESS_ALL_EXEC
      then add_named_rule IPC_CREATEPROCESSW_TAG NameBased_NAME name (PolicyRule (junk 0) GIVE_ALLACCESS) p
      else Inr (False, p))"

fun add_to_all :: "ipc_tag list \<Rightarrow> policy_rule \<Rightarrow> policy_change" where
  "add_to_all [] r p = Inr (True, p)"
| "add_to_all (tag # tags) r p =
     res_bind (AddRule (ipc_tag_code tag) r p) (\<lambda>(ok, r, p). if ok then add_to_all tags r p else Inr (False, p))"

definition gdi_tags :: "ipc_tag list" where
  "gdi_tags = [IPC_GDI_GDIDLLINITIALIZE_TAG, IPC_GDI_GETSTOCKOBJECT_TAG, IPC_USER_REGISTERCLASSW_TAG]"

definition opm_tags :: "ipc_tag list" where
  "opm_tags = [IPC_USER_ENUMDISPLAYMONITORS_TAG, IPC_USER_ENUMDISPLAYDEVICES_TAG, IPC_USER_GETMONITORINFO_TAG,
     IPC_GDI_CREATEOPMPROTECTEDOUTPUTS_TAG, IPC_GDI_GETCERTIFICATE_TAG, IPC_GDI_GETCERTIFICATESIZE_TAG,
     IPC_GDI_DESTROYOPMPROTECTEDOUTPUT_TAG, IPC_GDI_CONFIGUREOPMPROTECTEDOUTPUT_TAG, IPC_GDI_GETOPMINFORMATION_TAG,
     IPC_GDI_GETOPMRANDOMNUMBER_TAG, IPC_GDI_GETSUGGESTEDOPMPROTECTEDOUTPUTARRAYSIZE_TAG,
     IPC_GDI_SETOPMSIGNINGKEYANDSEQUENCENUMBERS_TAG]"

definition Win32KLockdown_GenerateRules :: "(nat \<Rightarrow> mem) \<Rightarrow> semantics \<Rightarrow> policy_change" where
  "Win32KLockdown_GenerateRules junk semantics p =
     add_to_all (gdi_tags @ (if semantics = IMPLEMENT_OPM_APIS then opm_tags else [])) (PolicyRule (junk 0) FAKE_SUCCESS) p"

end
