(* ===== verification/Win_Policy_Base.thy ===== *)
theory Win_Policy_Base
  imports Win_Resource_Rules
begin

text \<open>
  The policy object of the broker, \<^verbatim>\<open>win/src/sandbox_policy_base.{h,cc}\<close>: it collects the rules of the
  embedder, compiles them when a target is added, and evaluates the calls that the dispatchers ask about.
\<close>

subsection \<open>State and operations\<close>

abbreviation (input) SBOX_ERROR_BAD_PARAMS :: u32 where "SBOX_ERROR_BAD_PARAMS \<equiv> 2"
abbreviation (input) SBOX_ERROR_UNSUPPORTED :: u32 where "SBOX_ERROR_UNSUPPORTED \<equiv> 3"

datatype token_level = USER_LOCKDOWN | USER_RESTRICTED | USER_LIMITED | USER_INTERACTIVE | USER_NON_ADMIN
  | USER_RESTRICTED_SAME_ACCESS | USER_UNPROTECTED

definition below_interactive :: "token_level \<Rightarrow> bool" where
  "below_interactive level \<longleftrightarrow> level = USER_LOCKDOWN \<or> level = USER_RESTRICTED \<or> level = USER_LIMITED"

text \<open>
  \<open>policy_maker_\<close> and \<open>policy_\<close> are set together; the memory of \<open>policy_\<close> is the store of the maker.
\<close>

record policy_base =
  pb_policy_maker :: "low_level_policy option"
  pb_file_system_init :: bool
  pb_lockdown_level :: token_level

definition kPolMemSize :: nat where "kPolMemSize = 4096 * 14"

text \<open>The entries and the size, and one buffer.\<close>

definition sizeof_PolicyGlobal :: nat where
  "sizeof_PolicyGlobal = 8 * kMaxServiceCount + 8 + sizeof_PolicyBuffer"

definition MakeBrokerPolicyMemory :: policy_global where
  "MakeBrokerPolicyMemory =
     \<lparr>pg_entry = (\<lambda>s. None), pg_data_size = kPolMemSize - sizeof_PolicyGlobal, pg_memory = (\<lambda>x. 0)\<rparr>"

definition new_policy_base :: "token_level \<Rightarrow> policy_base" where
  "new_policy_base lockdown_level =
     \<lparr>pb_policy_maker = None, pb_file_system_init = False, pb_lockdown_level = lockdown_level\<rparr>"

text \<open>The contents of fresh memory: for the two initial rules, and for the rules of a call.\<close>

record heap =
  hp_format :: mem
  hp_short_name :: mem
  hp_rules :: "nat \<Rightarrow> mem"

definition finish_rule ::
    "policy_base \<Rightarrow> abort + (bool \<times> low_level_policy) \<Rightarrow> abort + (u32 \<times> policy_base)" where
  "finish_rule pb m =
     res_bind m (\<lambda>(ok, maker).
     Inr (if ok then SBOX_ALL_OK else SBOX_ERROR_BAD_PARAMS, pb\<lparr>pb_policy_maker := Some maker\<rparr>))"

definition AddRuleInternal ::
    "windows \<Rightarrow> heap \<Rightarrow> subsystem \<Rightarrow> semantics \<Rightarrow> wstring \<Rightarrow> policy_base \<Rightarrow> (abort + (u32 \<times> policy_base)) option" where
  "AddRuleInternal w h subsystem semantics pattern pb =
     (let maker = (case pb_policy_maker pb of None \<Rightarrow> LowLevelPolicy MakeBrokerPolicyMemory | Some m \<Rightarrow> m);
          pb = pb\<lparr>pb_policy_maker := Some maker\<rparr> in
      case subsystem of
        SUBSYS_FILES \<Rightarrow>
          (case (if pb_file_system_init pb then skip_change maker else SetInitialRules (hp_format h) (hp_short_name h) maker) of
             Inl e \<Rightarrow> Some (Inl e)
           | Inr (False, maker) \<Rightarrow> Some (Inr (SBOX_ERROR_BAD_PARAMS, pb\<lparr>pb_policy_maker := Some maker\<rparr>))
           | Inr (True, maker) \<Rightarrow>
               map_option (finish_rule (pb\<lparr>pb_file_system_init := True\<rparr>))
                 (FileSystemPolicy_GenerateRules w (hp_rules h) pattern semantics maker))
      | SUBSYS_SYNC \<Rightarrow> Some (finish_rule pb (SyncPolicy_GenerateRules (hp_rules h) pattern semantics maker))
      | SUBSYS_PROCESS \<Rightarrow>
          (if below_interactive (pb_lockdown_level pb) \<and> semantics = PROCESS_ALL_EXEC
           then Some (Inr (SBOX_ERROR_UNSUPPORTED, pb))
           else Some (finish_rule pb (ProcessPolicy_GenerateRules (hp_rules h) pattern semantics maker)))
      | SUBSYS_NAMED_PIPES \<Rightarrow> Some (finish_rule pb (NamedPipePolicy_GenerateRules (hp_rules h) pattern semantics maker))
      | SUBSYS_REGISTRY \<Rightarrow> Some (finish_rule pb (RegistryPolicy_GenerateRules w (hp_rules h) pattern semantics maker))
      | SUBSYS_WIN32K_LOCKDOWN \<Rightarrow> Some (finish_rule pb (Win32KLockdown_GenerateRules (hp_rules h) semantics maker)))"

text \<open>What \<open>AddTarget\<close> does with the rules: the result of \<open>Done\<close> is ignored.\<close>

definition compile_rules :: "policy_base \<Rightarrow> policy_base" where
  "compile_rules pb = pb\<lparr>pb_policy_maker := map_option (\<lambda>m. snd (policy_Done m)) (pb_policy_maker pb)\<rparr>"

text \<open>
  \<open>EvalPolicy\<close>; every parameter of the dispatchers is valid. The state of the processor before the
  evaluation is the constructor's.
\<close>

definition EvalPolicy :: "wcompare \<Rightarrow> policy_base \<Rightarrow> ipc_tag \<Rightarrow> parameter list \<Rightarrow> abort + eval_result" where
  "EvalPolicy cmp pb service params =
     (case pb_policy_maker pb of
        None \<Rightarrow> Inr DENY_ACCESS
      | Some maker \<Rightarrow>
          (let policy = lp_policy_store maker in
           case pg_entry policy (unat (ipc_tag_code service)) of
             None \<Rightarrow> Inr DENY_ACCESS
           | Some entry \<Rightarrow>
               if \<not> list_all parameter_IsValid params then Inr SIGNAL_ALARM
               else
                 res_bind (PolicyProcessor_Evaluate cmp (pg_memory policy) (Some entry) kShortEval (Some params)
                   (SetInternalState 0 EVAL_FALSE)) (\<lambda>(result, st).
                 Inr (if result = POLICY_MATCH then GetAction st else DENY_ACCESS))))"

text \<open>The embedder adds rules one after the other, and gives up at the first error.\<close>

type_synonym user_rule = "subsystem \<times> semantics \<times> wstring"

fun add_user_rules ::
    "windows \<Rightarrow> (nat \<Rightarrow> heap) \<Rightarrow> user_rule list \<Rightarrow> policy_base \<Rightarrow> (abort + (bool \<times> policy_base)) option" where
  "add_user_rules w h [] pb = Some (Inr (True, pb))"
| "add_user_rules w h ((subsystem, semantics, pattern) # rules) pb =
     Option.bind (AddRuleInternal w (h 0) subsystem semantics pattern pb) (\<lambda>r.
     case r of
       Inl e \<Rightarrow> Some (Inl e)
     | Inr (code, pb) \<Rightarrow> if code = SBOX_ALL_OK then add_user_rules w (\<lambda>n. h (Suc n)) rules pb else Some (Inr (False, pb)))"

end
