(* ===== verification/Win_Resource_Spec.thy ===== *)
theory Win_Resource_Spec
  imports Win_Policy_Base
begin

text \<open>
  What each \<open>GenerateRules\<close> adds to the policy, as a list of services, conditions and actions: first
  for one rule object and its matches, then for every subsystem, and at the end for all the rules that the
  embedder adds one after the other.
\<close>

subsection \<open>Rules under construction\<close>

definition rule_has :: "policy_rule \<Rightarrow> condition list \<Rightarrow> eval_result \<Rightarrow> bool" where
  "rule_has r cs action \<longleftrightarrow> rule_holds r (concat (map condition_ops cs)) \<and> \<not> pr_done r \<and> pr_action r = action"

definition rule_finished :: "policy_rule \<Rightarrow> condition list \<Rightarrow> eval_result \<Rightarrow> bool" where
  "rule_finished r cs action \<longleftrightarrow> rule_holds r (rule_ops cs action) \<and> pr_done r"

lemma rule_has_new: "rule_has (PolicyRule junk action) [] action"
  using rule_holds_new by (simp add: rule_has_def PolicyRule_def)

lemma rule_has_condition:
  assumes "rule_has r cs action" and "condition_ok c"
  obtains ok r' where "add_condition c r = Inr (ok, r')" "ok \<longrightarrow> rule_has r' (cs @ [c]) action"
  using add_condition_step [of r "concat (map condition_ops cs)" c] assms
  unfolding rule_has_def rule_step_def by fastforce

text \<open>Room for number matches in a rule that has no strings.\<close>

definition roomy :: "nat \<Rightarrow> policy_rule \<Rightarrow> bool" where
  "roomy n r \<longleftrightarrow> memory_top (pr_factory r) + n * sizeof_PolicyOpcode \<le> memory_bottom (pr_factory r)"

lemma roomy_new: "n \<le> 2 \<Longrightarrow> roomy n (PolicyRule junk action)"
  by (simp add: roomy_def PolicyRule_def rule_sizes opcodes_offset_def kRuleBufferSize_def)

lemma AddNumberMatch_roomy:
  assumes "rule_has r cs action" and "roomy (Suc n) r" and "rop \<noteq> RANGE"
  obtains r' where "AddNumberMatch rt p v rop r = Inr (True, r')"
    "rule_has r' (cs @ [NumberMatch rt p v rop]) action" "roomy n r'"
proof -
  have room: "\<not> memory_size (pr_factory r) < 40" "\<not> pr_done r"
    using assms(1,2) by (auto simp: roomy_def memory_size_def rule_sizes rule_has_def)
  then obtain r' where r': "AddNumberMatch rt p v rop r = Inr (True, r')"
    "memory_top (pr_factory r') = memory_top (pr_factory r) + 40" "memory_bottom (pr_factory r') = memory_bottom (pr_factory r)"
    using assms(3)
    by (cases rop) (auto simp: AddNumberMatch_def rule_make_def MakeOpNumberMatch_def MakeOpNumberAndMatch_def then_set_def
      MakeBase_eq rule_sizes)
  have "condition_ok (NumberMatch rt p v rop)" using assms(3) by simp
  then obtain ok r2 where "add_condition (NumberMatch rt p v rop) r = Inr (ok, r2)"
    "ok \<longrightarrow> rule_has r2 (cs @ [NumberMatch rt p v rop]) action"
    using rule_has_condition [OF assms(1)] by metis
  then have "rule_has r' (cs @ [NumberMatch rt p v rop]) action" using r'(1) by simp
  then show thesis using that r' assms(2) by (simp add: roomy_def rule_sizes)
qed

lemma number_match_roomy:
  assumes "rule_has r cs action" and "roomy (Suc n) r" and "rop \<noteq> RANGE"
  obtains r' where "number_match rt p v rop r = Inr r'" "rule_has r' (cs @ [NumberMatch rt p v rop]) action" "roomy n r'"
proof -
  obtain r' where "AddNumberMatch rt p v rop r = Inr (True, r')" "rule_has r' (cs @ [NumberMatch rt p v rop]) action" "roomy n r'"
    by (rule AddNumberMatch_roomy [OF assms])
  then show thesis using that by (simp add: number_match_def)
qed

subsection \<open>Changes of the policy\<close>

definition adds :: "policy_change \<Rightarrow> policy_spec \<Rightarrow> bool" where
  "adds f spec \<longleftrightarrow>
     (\<forall>p. \<exists>ok p' rs. f p = Inr (ok, p') \<and> lp_policy_store p' = lp_policy_store p \<and> lp_rules p' = lp_rules p @ rs
        \<and> (ok \<longrightarrow> list_all2 built rs spec))"

lemma adds_fail: "(\<And>p. f p = Inr (False, p)) \<Longrightarrow> adds f spec"
  by (auto simp: adds_def)

lemma adds_skip: "adds skip_change []"
  by (auto simp: adds_def skip_change_def)

lemma adds_and_then:
  assumes "adds f s1" and "adds g s2"
  shows "adds (and_then f g) (s1 @ s2)"
  unfolding adds_def
proof
  fix p
  obtain ok p1 rs1 where f: "f p = Inr (ok, p1)" "lp_policy_store p1 = lp_policy_store p" "lp_rules p1 = lp_rules p @ rs1"
    "ok \<longrightarrow> list_all2 built rs1 s1" using assms(1) unfolding adds_def by blast
  obtain ok2 p2 rs2 where g: "g p1 = Inr (ok2, p2)" "lp_policy_store p2 = lp_policy_store p1" "lp_rules p2 = lp_rules p1 @ rs2"
    "ok2 \<longrightarrow> list_all2 built rs2 s2" using assms(2) unfolding adds_def by blast
  show "\<exists>ok p' rs. and_then f g p = Inr (ok, p') \<and> lp_policy_store p' = lp_policy_store p \<and> lp_rules p' = lp_rules p @ rs
      \<and> (ok \<longrightarrow> list_all2 built rs (s1 @ s2))"
  proof (cases ok)
    case True
    then show ?thesis using f g by (auto simp: and_then_def intro!: list_all2_appendI exI [of _ "rs1 @ rs2"])
  next
    case False
    then show ?thesis using f by (auto simp: and_then_def)
  qed
qed

lemma AddRule_has:
  assumes "rule_has r cs action"
  obtains ok r' x where "AddRule s r p = Inr (ok, r', if ok then p\<lparr>lp_rules := lp_rules p @ [x]\<rparr> else p)"
    "ok \<longrightarrow> built x (s, cs, action)" "ok \<longrightarrow> rule_finished r' cs action"
proof -
  have h: "rule_holds r (concat (map condition_ops cs))" "\<not> pr_done r" "pr_action r = action"
    using assms by (simp_all add: rule_has_def)
  obtain ok r' where d: "rule_Done r = Inr (ok, r')" "ok \<Longrightarrow> rule_holds r' (rule_ops cs action)" "ok \<Longrightarrow> pr_done r'"
    using rule_Done_step [OF h(1,2)] h(3) by (auto simp: rule_ops_def)
  have "built (PolicyRule_copy r', s) (s, cs, action)" if ok
    using rule_content_copy [OF d(2) wf_rule_ops [OF d(2)]] d(2) that by auto
  then show thesis
    using that [of ok r' "(PolicyRule_copy r', s)"] d by (auto simp: AddRule_def rule_finished_def)
qed

lemma AddRule_finished:
  assumes "rule_finished r cs action"
  obtains x where "AddRule s r p = Inr (True, r, p\<lparr>lp_rules := lp_rules p @ [x]\<rparr>)" "built x (s, cs, action)"
proof -
  have h: "rule_holds r (rule_ops cs action)" "pr_done r" using assms by (simp_all add: rule_finished_def)
  have "built (PolicyRule_copy r, s) (s, cs, action)" using rule_content_copy [OF h(1) wf_rule_ops [OF h(1)]] h(1) by auto
  then show thesis using that h(2) by (auto simp: AddRule_def rule_Done_def)
qed

lemma adds_named_rule:
  assumes "rule_has r cs action" and "condition_ok (StringMatch IF param name CASE_INSENSITIVE)"
  shows "adds (add_named_rule tag param name r)
    [(ipc_tag_code tag, cs @ [StringMatch IF param name CASE_INSENSITIVE], action)]"
  unfolding adds_def
proof
  fix p
  obtain ok r1 where s: "AddStringMatch IF param name CASE_INSENSITIVE r = Inr (ok, r1)"
    "ok \<longrightarrow> rule_has r1 (cs @ [StringMatch IF param name CASE_INSENSITIVE]) action"
    using rule_has_condition [OF assms] by (metis add_condition.simps(1))
  show "\<exists>ok p' rs. add_named_rule tag param name r p = Inr (ok, p') \<and> lp_policy_store p' = lp_policy_store p
      \<and> lp_rules p' = lp_rules p @ rs
      \<and> (ok \<longrightarrow> list_all2 built rs [(ipc_tag_code tag, cs @ [StringMatch IF param name CASE_INSENSITIVE], action)])"
  proof (cases ok)
    case True
    obtain ok2 r2 x where "AddRule (ipc_tag_code tag) r1 p = Inr (ok2, r2, if ok2 then p\<lparr>lp_rules := lp_rules p @ [x]\<rparr> else p)"
      "ok2 \<longrightarrow> built x (ipc_tag_code tag, cs @ [StringMatch IF param name CASE_INSENSITIVE], action)"
      using AddRule_has [OF s(2) [rule_format, OF True]] by metis
    then show ?thesis using s(1) True by (cases ok2) (auto simp: add_named_rule_def)
  next
    case False
    then show ?thesis using s(1) by (auto simp: add_named_rule_def)
  qed
qed

subsection \<open>What the embedder's rules mean\<close>

text \<open>Which arguments of an open a rule allows, besides its pattern.\<close>

definition file_conditions :: "semantics \<Rightarrow> condition list" where
  "file_conditions semantics =
     (case semantics of
        FILES_ALLOW_DIR_ANY \<Rightarrow> [NumberMatch IF OpenFile_OPTIONS FILE_DIRECTORY_FILE AND_OP]
      | FILES_ALLOW_READONLY \<Rightarrow> [NumberMatch IF_NOT OpenFile_ACCESS restricted_file_flags AND_OP,
          NumberMatch IF OpenFile_DISPOSITION FILE_OPEN EQUAL]
      | _ \<Rightarrow> [])"

definition name_rule :: "ipc_tag \<Rightarrow> condition list \<Rightarrow> u16 \<Rightarrow> wstring \<Rightarrow> eval_result \<Rightarrow> policy_spec" where
  "name_rule tag cs param pattern action = [(ipc_tag_code tag, cs @ [StringMatch IF param pattern CASE_INSENSITIVE], action)]"

definition file_spec :: "semantics \<Rightarrow> wstring \<Rightarrow> policy_spec" where
  "file_spec semantics pattern =
     (if semantics = FILES_ALLOW_QUERY then []
      else name_rule IPC_NTCREATEFILE_TAG (file_conditions semantics) OpenFile_NAME pattern ASK_BROKER
        @ name_rule IPC_NTOPENFILE_TAG (file_conditions semantics) OpenFile_NAME pattern ASK_BROKER)
     @ name_rule IPC_NTQUERYATTRIBUTESFILE_TAG [] FileName_NAME pattern ASK_BROKER
     @ name_rule IPC_NTQUERYFULLATTRIBUTESFILE_TAG [] FileName_NAME pattern ASK_BROKER
     @ (if semantics = FILES_ALLOW_QUERY \<or> semantics = FILES_ALLOW_READONLY then []
        else name_rule IPC_NTSETINFO_RENAME_TAG [] FileName_NAME pattern ASK_BROKER)"

definition registry_conditions :: "semantics \<Rightarrow> condition list" where
  "registry_conditions semantics =
     (if semantics = REG_ALLOW_READONLY
      then [NumberMatch IF_NOT OpenKey_ACCESS (NOT (kAllowedRegFlags OR MAXIMUM_ALLOWED)) AND_OP] else [])"

definition registry_spec :: "semantics \<Rightarrow> wstring \<Rightarrow> policy_spec" where
  "registry_spec semantics pattern =
     name_rule IPC_NTCREATEKEY_TAG (registry_conditions semantics) OpenKey_NAME pattern ASK_BROKER
     @ name_rule IPC_NTOPENKEY_TAG (registry_conditions semantics) OpenKey_NAME pattern ASK_BROKER"

definition sync_spec :: "semantics \<Rightarrow> wstring \<Rightarrow> policy_spec" where
  "sync_spec semantics pattern =
     (if semantics = EVENTS_ALLOW_READONLY
      then [(ipc_tag_code IPC_OPENEVENT_TAG, [StringMatch IF OpenEventParams_NAME pattern CASE_INSENSITIVE,
              NumberMatch IF_NOT OpenEventParams_ACCESS restricted_event_flags AND_OP], ASK_BROKER)]
      else name_rule IPC_OPENEVENT_TAG [] OpenEventParams_NAME pattern ASK_BROKER
        @ name_rule IPC_CREATEEVENT_TAG [] NameBased_NAME pattern ASK_BROKER)"

definition pipe_spec :: "wstring \<Rightarrow> policy_spec" where
  "pipe_spec pattern = name_rule IPC_CREATENAMEDPIPEW_TAG [] NameBased_NAME pattern ASK_BROKER"

definition process_spec :: "semantics \<Rightarrow> wstring \<Rightarrow> policy_spec" where
  "process_spec semantics pattern =
     name_rule IPC_CREATEPROCESSW_TAG [] NameBased_NAME pattern
       (if semantics = PROCESS_MIN_EXEC then GIVE_READONLY else GIVE_ALLACCESS)"

definition gdi_spec :: "semantics \<Rightarrow> policy_spec" where
  "gdi_spec semantics =
     map (\<lambda>tag. (ipc_tag_code tag, [], FAKE_SUCCESS)) (gdi_tags @ (if semantics = IMPLEMENT_OPM_APIS then opm_tags else []))"

definition format_conditions :: "condition list" where
  "format_conditions =
     [NumberMatch IF_NOT FileName_BROKER TRUE AND_OP, StringMatch IF_NOT FileName_NAME (kNTPrefixEscaped @ [ASTERISK]) CASE_SENSITIVE]"

definition short_name_conditions :: "condition list" where
  "short_name_conditions =
     [NumberMatch IF_NOT FileName_BROKER TRUE AND_OP, StringMatch IF FileName_NAME kShortNamePattern CASE_SENSITIVE]"

definition initial_spec :: policy_spec where
  "initial_spec = concat (map (\<lambda>tag.
       [(ipc_tag_code tag, format_conditions, ASK_BROKER), (ipc_tag_code tag, short_name_conditions, ASK_BROKER)])
     [IPC_NTCREATEFILE_TAG, IPC_NTOPENFILE_TAG, IPC_NTQUERYATTRIBUTESFILE_TAG,
      IPC_NTQUERYFULLATTRIBUTESFILE_TAG, IPC_NTSETINFO_RENAME_TAG])"

subsection \<open>The rules are added as meant\<close>

abbreviation (input) plain_name :: "wstring \<Rightarrow> bool" where
  "plain_name pattern \<equiv> plain_pattern pattern \<and> kinds (pieces [] pattern) \<noteq> []"

lemma name_ok: "plain_name pattern \<Longrightarrow> condition_ok (StringMatch IF param pattern CASE_INSENSITIVE)"
  by simp

lemma file_rule_has:
  obtains r where "file_rule semantics (PolicyRule junk action) = Inr r" "rule_has r (file_conditions semantics) action"
proof (cases "semantics = FILES_ALLOW_DIR_ANY \<or> semantics = FILES_ALLOW_READONLY")
  case False
  then have "file_rule semantics (PolicyRule junk action) = Inr (PolicyRule junk action)" "file_conditions semantics = []"
    by (simp_all add: file_rule_def file_conditions_def split: semantics.split)
  then show thesis using that rule_has_new by metis
next
  case True
  then show thesis
  proof
    assume s: "semantics = FILES_ALLOW_DIR_ANY"
    obtain r where "number_match IF OpenFile_OPTIONS FILE_DIRECTORY_FILE AND_OP (PolicyRule junk action) = Inr r"
      "rule_has r ([] @ [NumberMatch IF OpenFile_OPTIONS FILE_DIRECTORY_FILE AND_OP]) action"
      by (rule number_match_roomy [OF rule_has_new roomy_new [of "Suc 0"]]) (simp, rule rule_op.distinct)
    then show thesis using that by (simp add: s file_rule_def file_conditions_def)
  next
    assume s: "semantics = FILES_ALLOW_READONLY"
    obtain r where r: "number_match IF_NOT OpenFile_ACCESS restricted_file_flags AND_OP (PolicyRule junk action) = Inr r"
      "rule_has r ([] @ [NumberMatch IF_NOT OpenFile_ACCESS restricted_file_flags AND_OP]) action" "roomy (Suc 0) r"
      by (rule number_match_roomy [OF rule_has_new roomy_new [of "Suc (Suc 0)"]]) (simp, rule rule_op.distinct)
    obtain r' where "number_match IF OpenFile_DISPOSITION FILE_OPEN EQUAL r = Inr r'"
      "rule_has r' (([] @ [NumberMatch IF_NOT OpenFile_ACCESS restricted_file_flags AND_OP])
         @ [NumberMatch IF OpenFile_DISPOSITION FILE_OPEN EQUAL]) action"
      by (rule number_match_roomy [OF r(2,3)]) (rule rule_op.distinct)
    then show thesis using that r(1) by (simp add: s file_rule_def file_conditions_def)
  qed
qed

lemma adds_name_rule:
  "rule_has r cs action \<Longrightarrow> plain_name pattern \<Longrightarrow>
   adds (add_named_rule tag param pattern r) (name_rule tag cs param pattern action)"
  unfolding name_rule_def by (rule adds_named_rule) simp_all

lemma adds_file_rules:
  assumes "plain_name pattern"
  shows "adds (file_rules junk pattern semantics) (file_spec semantics pattern)"
proof (cases "is_file_semantics semantics")
  case False
  then show ?thesis by (intro adds_fail) (simp add: file_rules_def)
next
  case True
  obtain create_rule where c: "file_rule semantics (PolicyRule (junk 0) ASK_BROKER) = Inr create_rule"
    "rule_has create_rule (file_conditions semantics) ASK_BROKER" by (rule file_rule_has)
  obtain open_rule where o: "file_rule semantics (PolicyRule (junk 1) ASK_BROKER) = Inr open_rule"
    "rule_has open_rule (file_conditions semantics) ASK_BROKER" by (rule file_rule_has)
  note named = adds_name_rule [OF _ assms]
  have opt: "adds (if b then skip_change else f) (if b then [] else spec)" if "adds f spec" for b f spec
    using that adds_skip by simp
  have spec: "file_spec semantics pattern =
      (if semantics = FILES_ALLOW_QUERY then [] else name_rule IPC_NTCREATEFILE_TAG (file_conditions semantics) OpenFile_NAME pattern ASK_BROKER)
      @ (if semantics = FILES_ALLOW_QUERY then [] else name_rule IPC_NTOPENFILE_TAG (file_conditions semantics) OpenFile_NAME pattern ASK_BROKER)
      @ name_rule IPC_NTQUERYATTRIBUTESFILE_TAG [] FileName_NAME pattern ASK_BROKER
      @ name_rule IPC_NTQUERYFULLATTRIBUTESFILE_TAG [] FileName_NAME pattern ASK_BROKER
      @ (if semantics = FILES_ALLOW_QUERY \<or> semantics = FILES_ALLOW_READONLY then []
         else name_rule IPC_NTSETINFO_RENAME_TAG [] FileName_NAME pattern ASK_BROKER)"
    by (simp add: file_spec_def)
  have run: "file_rules junk pattern semantics =
      and_then (if semantics = FILES_ALLOW_QUERY then skip_change else add_named_rule IPC_NTCREATEFILE_TAG OpenFile_NAME pattern create_rule)
      (and_then (if semantics = FILES_ALLOW_QUERY then skip_change else add_named_rule IPC_NTOPENFILE_TAG OpenFile_NAME pattern open_rule)
      (and_then (add_named_rule IPC_NTQUERYATTRIBUTESFILE_TAG FileName_NAME pattern (PolicyRule (junk 2) ASK_BROKER))
      (and_then (add_named_rule IPC_NTQUERYFULLATTRIBUTESFILE_TAG FileName_NAME pattern (PolicyRule (junk 3) ASK_BROKER))
      (if semantics = FILES_ALLOW_QUERY \<or> semantics = FILES_ALLOW_READONLY then skip_change
       else add_named_rule IPC_NTSETINFO_RENAME_TAG FileName_NAME pattern (PolicyRule (junk 4) ASK_BROKER)))))"
    by (rule ext) (simp only: file_rules_def True not_True_eq_False if_False c(1) o(1) res_bind_Inr Let_def)
  show ?thesis
    unfolding spec run by (intro adds_and_then opt named rule_has_new c(2) o(2))
qed

lemma registry_rule_has:
  obtains r where "registry_rule semantics (PolicyRule junk action) = Inr r" "rule_has r (registry_conditions semantics) action"
proof (cases "semantics = REG_ALLOW_READONLY")
  case False
  then show thesis using that rule_has_new by (metis registry_conditions_def registry_rule_def)
next
  case True
  obtain r where "number_match IF_NOT OpenKey_ACCESS (NOT (kAllowedRegFlags OR MAXIMUM_ALLOWED)) AND_OP (PolicyRule junk action) = Inr r"
    "rule_has r ([] @ [NumberMatch IF_NOT OpenKey_ACCESS (NOT (kAllowedRegFlags OR MAXIMUM_ALLOWED)) AND_OP]) action"
    by (rule number_match_roomy [OF rule_has_new roomy_new [of "Suc 0"]]) (simp, rule rule_op.distinct)
  then show thesis using that by (simp add: True registry_rule_def registry_conditions_def)
qed

lemma adds_registry_rules:
  assumes "plain_name (c_wstr (the (ResolveRegistryName w name)))"
  shows "adds (RegistryPolicy_GenerateRules w junk name semantics)
    (registry_spec semantics (c_wstr (the (ResolveRegistryName w name))))"
proof (cases "name \<noteq> [] \<and> ResolveRegistryName w name \<noteq> None \<and> (semantics = REG_ALLOW_READONLY \<or> semantics = REG_ALLOW_ANY)")
  case False
  then show ?thesis by (intro adds_fail) (auto simp: RegistryPolicy_GenerateRules_def split: option.split)
next
  case True
  then obtain resolved where res: "ResolveRegistryName w name = Some resolved" by blast
  obtain o' where o: "registry_rule semantics (PolicyRule (junk 0) ASK_BROKER) = Inr o'"
    "rule_has o' (registry_conditions semantics) ASK_BROKER" by (rule registry_rule_has)
  obtain c where c: "registry_rule semantics (PolicyRule (junk 1) ASK_BROKER) = Inr c"
    "rule_has c (registry_conditions semantics) ASK_BROKER" by (rule registry_rule_has)
  have "RegistryPolicy_GenerateRules w junk name semantics =
      and_then (add_named_rule IPC_NTCREATEKEY_TAG OpenKey_NAME (c_wstr resolved) c)
        (add_named_rule IPC_NTOPENKEY_TAG OpenKey_NAME (c_wstr resolved) o')"
    using True by (intro ext) (auto simp: RegistryPolicy_GenerateRules_def res o(1) c(1) simp del: One_nat_def)
  then show ?thesis
    unfolding registry_spec_def using assms c(2) o(2) by (simp add: res adds_and_then adds_name_rule)
qed

lemma adds_pipe_rules:
  assumes "plain_name name"
  shows "adds (NamedPipePolicy_GenerateRules junk name semantics) (pipe_spec name)"
proof (cases "semantics = NAMEDPIPES_ALLOW_ANY")
  case True
  then have "NamedPipePolicy_GenerateRules junk name semantics
      = add_named_rule IPC_CREATENAMEDPIPEW_TAG NameBased_NAME name (PolicyRule (junk 0) ASK_BROKER)"
    by (intro ext) (simp add: NamedPipePolicy_GenerateRules_def)
  then show ?thesis unfolding pipe_spec_def using adds_name_rule [OF rule_has_new] assms by simp
next
  case False
  then show ?thesis by (intro adds_fail) (simp add: NamedPipePolicy_GenerateRules_def)
qed

lemma adds_process_rules:
  assumes "plain_name name"
  shows "adds (ProcessPolicy_GenerateRules junk name semantics) (process_spec semantics name)"
proof -
  have named: "adds (add_named_rule IPC_CREATEPROCESSW_TAG NameBased_NAME name (PolicyRule (junk 0) action))
      (name_rule IPC_CREATEPROCESSW_TAG [] NameBased_NAME name action)" for action
    using adds_name_rule [OF rule_has_new] assms by simp
  consider "semantics = PROCESS_MIN_EXEC" | "semantics = PROCESS_ALL_EXEC"
    | "semantics \<noteq> PROCESS_MIN_EXEC" "semantics \<noteq> PROCESS_ALL_EXEC" by blast
  then show ?thesis
  proof cases
    case 3
    then show ?thesis by (intro adds_fail) (simp add: ProcessPolicy_GenerateRules_def)
  qed (use named in \<open>simp_all add: ProcessPolicy_GenerateRules_def [abs_def] process_spec_def\<close>)
qed

subsection \<open>Rules that are added several times\<close>

definition rule_ready :: "policy_rule \<Rightarrow> condition list \<Rightarrow> eval_result \<Rightarrow> bool" where
  "rule_ready r cs action \<longleftrightarrow> rule_has r cs action \<or> rule_finished r cs action"

lemma AddRule_ready:
  assumes "rule_ready r cs action"
  obtains ok r' x where "AddRule s r p = Inr (ok, r', if ok then p\<lparr>lp_rules := lp_rules p @ [x]\<rparr> else p)"
    "ok \<longrightarrow> built x (s, cs, action)" "ok \<longrightarrow> rule_ready r' cs action"
proof (cases "rule_has r cs action")
  case True
  obtain ok r' x where "AddRule s r p = Inr (ok, r', if ok then p\<lparr>lp_rules := lp_rules p @ [x]\<rparr> else p)"
    "ok \<longrightarrow> built x (s, cs, action)" "ok \<longrightarrow> rule_finished r' cs action"
    by (rule AddRule_has [OF True, of s p])
  then show thesis using that [of ok r' x] by (simp add: rule_ready_def)
next
  case False
  then have r: "rule_finished r cs action" using assms by (simp add: rule_ready_def)
  obtain x where "AddRule s r p = Inr (True, r, p\<lparr>lp_rules := lp_rules p @ [x]\<rparr>)" "built x (s, cs, action)"
    by (rule AddRule_finished [OF r, of s p])
  then show thesis using that [of True r x] r by (simp add: rule_ready_def)
qed

lemma adds_to_all:
  "rule_ready r cs action \<Longrightarrow> adds (add_to_all tags r) (map (\<lambda>tag. (ipc_tag_code tag, cs, action)) tags)"
proof (induction tags arbitrary: r)
  case Nil
  show ?case by (auto simp: adds_def)
next
  case (Cons tag tags)
  show ?case unfolding adds_def
  proof
    fix p
    obtain ok r' x where a: "AddRule (ipc_tag_code tag) r p = Inr (ok, r', if ok then p\<lparr>lp_rules := lp_rules p @ [x]\<rparr> else p)"
      "ok \<longrightarrow> built x (ipc_tag_code tag, cs, action)" "ok \<longrightarrow> rule_ready r' cs action"
      by (rule AddRule_ready [OF Cons.prems, of "ipc_tag_code tag" p])
    let ?spec = "map (\<lambda>tag. (ipc_tag_code tag, cs, action)) (tag # tags)"
    show "\<exists>ok p' rs. add_to_all (tag # tags) r p = Inr (ok, p') \<and> lp_policy_store p' = lp_policy_store p
        \<and> lp_rules p' = lp_rules p @ rs \<and> (ok \<longrightarrow> list_all2 built rs ?spec)"
    proof (cases ok)
      case False
      then show ?thesis using a by auto
    next
      case True
      obtain ok2 p2 rs where "add_to_all tags r' (p\<lparr>lp_rules := lp_rules p @ [x]\<rparr>) = Inr (ok2, p2)"
        "lp_policy_store p2 = lp_policy_store p" "lp_rules p2 = lp_rules p @ x # rs"
        "ok2 \<longrightarrow> list_all2 built rs (map (\<lambda>tag. (ipc_tag_code tag, cs, action)) tags)"
        using Cons.IH [OF a(3) [rule_format, OF True], unfolded adds_def, rule_format, of "p\<lparr>lp_rules := lp_rules p @ [x]\<rparr>"] by auto
      then show ?thesis using a True by (intro exI [of _ ok2] exI [of _ p2] exI [of _ "x # rs"]) simp
    qed
  qed
qed

lemma adds_gdi_rules: "adds (Win32KLockdown_GenerateRules junk semantics) (gdi_spec semantics)"
  using adds_to_all [of "PolicyRule (junk 0) FAKE_SUCCESS" "[]" FAKE_SUCCESS
      "gdi_tags @ (if semantics = IMPLEMENT_OPM_APIS then opm_tags else [])"]
  by (simp add: rule_ready_def rule_has_new Win32KLockdown_GenerateRules_def [abs_def] gdi_spec_def)

definition pair_spec :: "ipc_tag list \<Rightarrow> policy_spec" where
  "pair_spec tags = concat (map (\<lambda>tag.
     [(ipc_tag_code tag, format_conditions, ASK_BROKER), (ipc_tag_code tag, short_name_conditions, ASK_BROKER)]) tags)"

lemma adds_shared:
  "rule_ready f format_conditions ASK_BROKER \<Longrightarrow> rule_ready g short_name_conditions ASK_BROKER \<Longrightarrow>
   adds (add_shared tags f g) (pair_spec tags)"
proof (induction tags arbitrary: f g)
  case Nil
  show ?case by (auto simp: adds_def pair_spec_def)
next
  case (Cons tag tags)
  show ?case unfolding adds_def
  proof
    fix p
    obtain ok f' x where a: "AddRule (ipc_tag_code tag) f p = Inr (ok, f', if ok then p\<lparr>lp_rules := lp_rules p @ [x]\<rparr> else p)"
      "ok \<longrightarrow> built x (ipc_tag_code tag, format_conditions, ASK_BROKER)" "ok \<longrightarrow> rule_ready f' format_conditions ASK_BROKER"
      by (rule AddRule_ready [OF Cons.prems(1), of "ipc_tag_code tag" p])
    let ?p1 = "p\<lparr>lp_rules := lp_rules p @ [x]\<rparr>"
    obtain ok2 g' y where b: "AddRule (ipc_tag_code tag) g ?p1 = Inr (ok2, g', if ok2 then ?p1\<lparr>lp_rules := lp_rules ?p1 @ [y]\<rparr> else ?p1)"
      "ok2 \<longrightarrow> built y (ipc_tag_code tag, short_name_conditions, ASK_BROKER)" "ok2 \<longrightarrow> rule_ready g' short_name_conditions ASK_BROKER"
      by (rule AddRule_ready [OF Cons.prems(2), of "ipc_tag_code tag" ?p1])
    let ?p2 = "?p1\<lparr>lp_rules := lp_rules ?p1 @ [y]\<rparr>"
    show "\<exists>ok p' rs. add_shared (tag # tags) f g p = Inr (ok, p') \<and> lp_policy_store p' = lp_policy_store p
        \<and> lp_rules p' = lp_rules p @ rs \<and> (ok \<longrightarrow> list_all2 built rs (pair_spec (tag # tags)))"
    proof (cases "ok \<and> ok2")
      case False
      then show ?thesis using a b by (cases ok) auto
    next
      case True
      obtain ok3 p3 rs where "add_shared tags f' g' ?p2 = Inr (ok3, p3)"
        "lp_policy_store p3 = lp_policy_store p" "lp_rules p3 = lp_rules p @ x # y # rs"
        "ok3 \<longrightarrow> list_all2 built rs (pair_spec tags)"
        using Cons.IH [OF a(3) [rule_format] b(3) [rule_format], unfolded adds_def, rule_format, of ?p2] True by auto
      then show ?thesis using a b True by (intro exI [of _ ok3] exI [of _ p3] exI [of _ "x # y # rs"]) (simp add: pair_spec_def)
    qed
  qed
qed

lemma format_condition_ok: "condition_ok (StringMatch IF_NOT FileName_NAME (kNTPrefixEscaped @ [ASTERISK]) CASE_SENSITIVE)"
  by (simp add: kNTPrefixEscaped_def)

lemma short_name_condition_ok: "condition_ok (StringMatch IF FileName_NAME kShortNamePattern CASE_SENSITIVE)"
  by (simp add: kShortNamePattern_def)

lemma initial_rule_has:
  assumes "condition_ok (StringMatch rt p pattern mo)"
  obtains ok r1 r2 where "AddNumberMatch IF_NOT FileName_BROKER TRUE AND_OP (PolicyRule junk action) = Inr (True, r1)"
    "AddStringMatch rt p pattern mo r1 = Inr (ok, r2)"
    "ok \<longrightarrow> rule_has r2 [NumberMatch IF_NOT FileName_BROKER TRUE AND_OP, StringMatch rt p pattern mo] action"
proof -
  obtain r1 where r1: "AddNumberMatch IF_NOT FileName_BROKER TRUE AND_OP (PolicyRule junk action) = Inr (True, r1)"
    "rule_has r1 ([] @ [NumberMatch IF_NOT FileName_BROKER TRUE AND_OP]) action" "roomy 0 r1"
    by (rule AddNumberMatch_roomy [OF rule_has_new roomy_new [of "Suc 0"]]) (simp, rule rule_op.distinct)
  obtain ok r2 where s: "add_condition (StringMatch rt p pattern mo) r1 = Inr (ok, r2)"
    "ok \<longrightarrow> rule_has r2 (([] @ [NumberMatch IF_NOT FileName_BROKER TRUE AND_OP]) @ [StringMatch rt p pattern mo]) action"
    by (rule rule_has_condition [OF r1(2) assms])
  show thesis by (rule that [OF r1(1)]) (use s in simp_all)
qed

lemma adds_initial_rules: "adds (SetInitialRules junk_format junk_short) initial_spec"
proof -
  obtain ok1 f1 f2 where f: "AddNumberMatch IF_NOT FileName_BROKER TRUE AND_OP (PolicyRule junk_format ASK_BROKER) = Inr (True, f1)"
    "AddStringMatch IF_NOT FileName_NAME (kNTPrefixEscaped @ [ASTERISK]) CASE_SENSITIVE f1 = Inr (ok1, f2)"
    "ok1 \<longrightarrow> rule_has f2 format_conditions ASK_BROKER"
    unfolding format_conditions_def by (rule initial_rule_has [OF format_condition_ok])
  obtain ok2 g1 g2 where g: "AddNumberMatch IF_NOT FileName_BROKER TRUE AND_OP (PolicyRule junk_short ASK_BROKER) = Inr (True, g1)"
    "AddStringMatch IF FileName_NAME kShortNamePattern CASE_SENSITIVE g1 = Inr (ok2, g2)"
    "ok2 \<longrightarrow> rule_has g2 short_name_conditions ASK_BROKER"
    unfolding short_name_conditions_def by (rule initial_rule_has [OF short_name_condition_ok])
  have spec: "initial_spec = pair_spec [IPC_NTCREATEFILE_TAG, IPC_NTOPENFILE_TAG, IPC_NTQUERYATTRIBUTESFILE_TAG,
      IPC_NTQUERYFULLATTRIBUTESFILE_TAG, IPC_NTSETINFO_RENAME_TAG]"
    by (simp only: initial_spec_def pair_spec_def)
  show ?thesis
  proof (cases "ok1 \<and> ok2")
    case False
    then show ?thesis by (intro adds_fail) (auto simp: SetInitialRules_def f(1,2) g(1,2))
  next
    case True
    then have "SetInitialRules junk_format junk_short = add_shared [IPC_NTCREATEFILE_TAG, IPC_NTOPENFILE_TAG,
        IPC_NTQUERYATTRIBUTESFILE_TAG, IPC_NTQUERYFULLATTRIBUTESFILE_TAG, IPC_NTSETINFO_RENAME_TAG] f2 g2"
      by (intro ext) (simp add: SetInitialRules_def f(1,2) g(1,2) del: add_shared.simps)
    then show ?thesis unfolding spec using True f(3) g(3) by (simp add: adds_shared rule_ready_def)
  qed
qed

subsection \<open>Events\<close>

text \<open>A number match that does not fit leaves no room for the action either.\<close>

lemma AddNumberMatch_full:
  assumes "AddNumberMatch rt p v rop r = Inr (False, r')" and "\<not> pr_done r" and "rop \<noteq> RANGE"
  shows "\<exists>r''. rule_Done r' = Inr (False, r'')"
proof -
  have "memory_size (pr_factory r) < 40 \<and> r' = r"
    using assms by (cases rop)
      (auto simp: AddNumberMatch_def rule_make_def MakeOpNumberMatch_def MakeOpNumberAndMatch_def then_set_def MakeBase_eq
        rule_sizes split: if_splits)
  then show ?thesis using assms(2)
    by (auto simp: rule_Done_def rule_make_def MakeOpAction_def then_set_def MakeBase_eq rule_sizes)
qed

lemma adds_sync_rules:
  assumes "plain_name name"
  shows "adds (SyncPolicy_GenerateRules junk name semantics) (sync_spec semantics name)"
proof (cases "name \<noteq> [] \<and> (semantics = EVENTS_ALLOW_ANY \<or> semantics = EVENTS_ALLOW_READONLY)")
  case False
  then show ?thesis by (intro adds_fail) (auto simp: SyncPolicy_GenerateRules_def)
next
  case True
  let ?c = "StringMatch IF OpenEventParams_NAME name CASE_INSENSITIVE"
  obtain ok r where s: "AddStringMatch IF OpenEventParams_NAME name CASE_INSENSITIVE (PolicyRule (junk 0) ASK_BROKER) = Inr (ok, r)"
    "ok \<longrightarrow> rule_has r [?c] ASK_BROKER"
    using rule_has_condition [OF rule_has_new name_ok [OF assms]] by (metis add_condition.simps(1) append_Nil)
  show ?thesis
  proof (cases "ok \<and> semantics = EVENTS_ALLOW_READONLY")
    case False
    show ?thesis
    proof (cases ok)
      case ok: True
      then have any: "semantics = EVENTS_ALLOW_ANY" using False True by blast
      have "SyncPolicy_GenerateRules junk name semantics =
          and_then (add_named_rule IPC_OPENEVENT_TAG OpenEventParams_NAME name (PolicyRule (junk 0) ASK_BROKER))
            (add_named_rule IPC_CREATEEVENT_TAG NameBased_NAME name (PolicyRule (junk 1) ASK_BROKER))"
        using True any ok
        by (intro ext) (auto simp: SyncPolicy_GenerateRules_def and_then_def add_named_rule_def s(1) res_bind_assoc case_prod_beta
          intro!: arg_cong2 [of _ _ _ _ res_bind])
      then show ?thesis
        unfolding sync_spec_def using any assms by (simp add: adds_and_then adds_name_rule rule_has_new)
    next
      case no: False
      then show ?thesis by (intro adds_fail) (use True in \<open>simp add: SyncPolicy_GenerateRules_def s(1)\<close>)
    qed
  next
    case ro: True
    then have h: "rule_has r [?c] ASK_BROKER" using s(2) by simp
    then have nd: "\<not> pr_done r" by (simp add: rule_has_def)
    let ?n = "NumberMatch IF_NOT OpenEventParams_ACCESS restricted_event_flags AND_OP"
    have nok: "condition_ok ?n" by simp
    obtain ok2 r2 where n: "AddNumberMatch IF_NOT OpenEventParams_ACCESS restricted_event_flags AND_OP r = Inr (ok2, r2)"
      "ok2 \<longrightarrow> rule_has r2 [?c, ?n] ASK_BROKER"
      using rule_has_condition [OF h nok] by (metis add_condition.simps(2) append_Cons append_Nil)
    have run: "SyncPolicy_GenerateRules junk name semantics p =
        res_bind (AddRule (ipc_tag_code IPC_OPENEVENT_TAG) r2 p) (\<lambda>(ok, open_rule, p). Inr (ok, p))" for p
      using True ro by (auto simp: SyncPolicy_GenerateRules_def s(1) number_match_def n(1) intro!: arg_cong2 [of _ _ _ _ res_bind])
    show ?thesis
    proof (cases ok2)
      case True
      show ?thesis unfolding adds_def
      proof
        fix p
        obtain ok3 r3 x where "AddRule (ipc_tag_code IPC_OPENEVENT_TAG) r2 p = Inr (ok3, r3, if ok3 then p\<lparr>lp_rules := lp_rules p @ [x]\<rparr> else p)"
          "ok3 \<longrightarrow> built x (ipc_tag_code IPC_OPENEVENT_TAG, [?c, ?n], ASK_BROKER)" "ok3 \<longrightarrow> rule_finished r3 [?c, ?n] ASK_BROKER"
          by (rule AddRule_has [OF n(2) [rule_format, OF True], of "ipc_tag_code IPC_OPENEVENT_TAG" p])
        then show "\<exists>ok p' rs. SyncPolicy_GenerateRules junk name semantics p = Inr (ok, p') \<and> lp_policy_store p' = lp_policy_store p
            \<and> lp_rules p' = lp_rules p @ rs \<and> (ok \<longrightarrow> list_all2 built rs (sync_spec semantics name))"
          unfolding run sync_spec_def if_P [OF conjunct2 [OF ro]] by (cases ok3) auto
      qed
    next
      case False
      then have "AddNumberMatch IF_NOT OpenEventParams_ACCESS restricted_event_flags AND_OP r = Inr (False, r2)" using n(1) by simp
      then obtain r3 where "rule_Done r2 = Inr (False, r3)" using AddNumberMatch_full [OF _ nd rule_op.distinct(5)] by blast
      then show ?thesis by (intro adds_fail) (simp add: run AddRule_def)
    qed
  qed
qed

subsection \<open>All rules of the embedder\<close>

definition effective_pattern :: "windows \<Rightarrow> subsystem \<Rightarrow> wstring \<Rightarrow> wstring" where
  "effective_pattern w subsystem name =
     (case subsystem of
        SUBSYS_FILES \<Rightarrow> file_pattern w name (snd (the (PreProcessName w name)))
      | SUBSYS_REGISTRY \<Rightarrow> c_wstr (the (ResolveRegistryName w name))
      | _ \<Rightarrow> name)"

definition rule_spec :: "windows \<Rightarrow> user_rule \<Rightarrow> policy_spec" where
  "rule_spec w = (\<lambda>(subsystem, semantics, name).
     let pattern = effective_pattern w subsystem name in
     case subsystem of
       SUBSYS_FILES \<Rightarrow> file_spec semantics pattern
     | SUBSYS_NAMED_PIPES \<Rightarrow> pipe_spec pattern
     | SUBSYS_PROCESS \<Rightarrow> process_spec semantics pattern
     | SUBSYS_REGISTRY \<Rightarrow> registry_spec semantics pattern
     | SUBSYS_SYNC \<Rightarrow> sync_spec semantics pattern
     | SUBSYS_WIN32K_LOCKDOWN \<Rightarrow> gdi_spec semantics)"

text \<open>The initial rules come before the first rule on files.\<close>

fun rules_spec :: "windows \<Rightarrow> bool \<Rightarrow> user_rule list \<Rightarrow> policy_spec" where
  "rules_spec w init [] = []"
| "rules_spec w init (rule # rules) =
     (if fst rule = SUBSYS_FILES \<and> \<not> init then initial_spec else []) @ rule_spec w rule
     @ rules_spec w (init \<or> fst rule = SUBSYS_FILES) rules"

text \<open>Patterns without question marks and with at least one character that is no star.\<close>

definition user_rule_ok :: "windows \<Rightarrow> user_rule \<Rightarrow> bool" where
  "user_rule_ok w = (\<lambda>(subsystem, semantics, name).
     subsystem = SUBSYS_WIN32K_LOCKDOWN \<or> plain_name (effective_pattern w subsystem name))"

text \<open>The semantics that a subsystem accepts.\<close>

definition semantics_valid :: "token_level \<Rightarrow> user_rule \<Rightarrow> bool" where
  "semantics_valid level = (\<lambda>(subsystem, semantics, name).
     case subsystem of
       SUBSYS_FILES \<Rightarrow> is_file_semantics semantics
     | SUBSYS_NAMED_PIPES \<Rightarrow> semantics = NAMEDPIPES_ALLOW_ANY
     | SUBSYS_PROCESS \<Rightarrow> semantics = PROCESS_MIN_EXEC \<or> semantics = PROCESS_ALL_EXEC \<and> \<not> below_interactive level
     | SUBSYS_REGISTRY \<Rightarrow> semantics = REG_ALLOW_READONLY \<or> semantics = REG_ALLOW_ANY
     | SUBSYS_SYNC \<Rightarrow> semantics = EVENTS_ALLOW_ANY \<or> semantics = EVENTS_ALLOW_READONLY
     | SUBSYS_WIN32K_LOCKDOWN \<Rightarrow> True)"

definition maker_of :: "policy_base \<Rightarrow> low_level_policy" where
  "maker_of pb = (case pb_policy_maker pb of None \<Rightarrow> LowLevelPolicy MakeBrokerPolicyMemory | Some m \<Rightarrow> m)"

definition extends :: "policy_base \<Rightarrow> policy_spec \<Rightarrow> policy_base \<Rightarrow> bool" where
  "extends pb spec pb' \<longleftrightarrow>
     (\<exists>m rs. pb_policy_maker pb' = Some m \<and> lp_policy_store m = lp_policy_store (maker_of pb)
        \<and> lp_rules m = lp_rules (maker_of pb) @ rs \<and> list_all2 built rs spec)"

lemma finish_rule_adds:
  assumes "adds f spec" and "finish_rule pb (f m) = Inr (SBOX_ALL_OK, pb')" and "maker_of pb = m"
  shows "extends pb spec pb' \<and> pb_file_system_init pb' = pb_file_system_init pb \<and> pb_lockdown_level pb' = pb_lockdown_level pb
    \<and> fst (projr (f m))"
proof -
  obtain ok p' rs where f: "f m = Inr (ok, p')" "lp_policy_store p' = lp_policy_store m" "lp_rules p' = lp_rules m @ rs"
    "ok \<longrightarrow> list_all2 built rs spec"
    using assms(1) unfolding adds_def by blast
  then have "ok" "pb' = pb\<lparr>pb_policy_maker := Some p'\<rparr>"
    using assms(2) by (auto simp: finish_rule_def split: if_splits)
  then show ?thesis using f assms(3) by (auto simp: extends_def)
qed

lemma adds_trans:
  assumes "extends pb s1 pb1" and "extends pb1 s2 pb2"
  shows "extends pb (s1 @ s2) pb2"
  using assms unfolding extends_def maker_of_def by (fastforce intro: list_all2_appendI)

lemma file_rules_valid: "fst (projr (file_rules junk pattern semantics m)) \<Longrightarrow> is_file_semantics semantics"
  by (auto simp: file_rules_def split: if_splits)

lemma AddRuleInternal_step:
  assumes "user_rule_ok w (subsystem, semantics, name)"
    and "AddRuleInternal w h subsystem semantics name pb = Some (Inr (SBOX_ALL_OK, pb'))"
  shows "extends pb ((if subsystem = SUBSYS_FILES \<and> \<not> pb_file_system_init pb then initial_spec else [])
        @ rule_spec w (subsystem, semantics, name)) pb'
    \<and> pb_file_system_init pb' = (pb_file_system_init pb \<or> subsystem = SUBSYS_FILES)
    \<and> pb_lockdown_level pb' = pb_lockdown_level pb
    \<and> semantics_valid (pb_lockdown_level pb) (subsystem, semantics, name)"
proof -
  let ?m = "maker_of pb" and ?pb = "pb\<lparr>pb_policy_maker := Some (maker_of pb)\<rparr>"
  have m: "maker_of ?pb = ?m" by (simp add: maker_of_def)
  have ext: "extends ?pb spec pb' = extends pb spec pb'" for spec by (simp add: extends_def m)
  note internal = assms(2) [unfolded AddRuleInternal_def, folded maker_of_def]
  show ?thesis
  proof (cases subsystem)
    case SUBSYS_FILES
    obtain ok1 m1 rs where init: "(if pb_file_system_init pb then skip_change ?m else SetInitialRules (hp_format h) (hp_short_name h) ?m) = Inr (ok1, m1)"
      "lp_policy_store m1 = lp_policy_store ?m" "lp_rules m1 = lp_rules ?m @ rs"
      "ok1 \<longrightarrow> list_all2 built rs (if pb_file_system_init pb then [] else initial_spec)"
      using adds_skip adds_initial_rules [of "hp_format h" "hp_short_name h"] unfolding adds_def
      by (cases "pb_file_system_init pb") (simp_all, blast+)
    have ok1: ok1 using internal init(1) by (cases ok1) (simp_all add: SUBSYS_FILES Let_def)
    let ?pb1 = "?pb\<lparr>pb_policy_maker := Some m1, pb_file_system_init := True\<rparr>"
    obtain r where r: "FileSystemPolicy_GenerateRules w (hp_rules h) name semantics m1 = Some r"
      "finish_rule (?pb\<lparr>pb_file_system_init := True\<rparr>) r = Inr (SBOX_ALL_OK, pb')"
      using internal init(1) ok1 by (auto simp: SUBSYS_FILES Let_def)
    then have fin: "finish_rule ?pb1 r = Inr (SBOX_ALL_OK, pb')"
      by (auto simp: finish_rule_def res_bind_eq_Inr)
    have name: "name \<noteq> []" using r(1) fin by (auto simp: FileSystemPolicy_GenerateRules_def finish_rule_def split: if_splits)
    then obtain ok2 mod_name where pre: "PreProcessName w name = Some (ok2, mod_name)"
      using r(1) by (auto simp: FileSystemPolicy_GenerateRules_def split: Option.bind_splits)
    have ok2: ok2 using r(1) fin pre name by (cases ok2) (auto simp: FileSystemPolicy_GenerateRules_def finish_rule_def)
    have pat: "effective_pattern w SUBSYS_FILES name = file_pattern w name mod_name"
      by (simp add: effective_pattern_def pre)
    have r': "r = file_rules (hp_rules h) (file_pattern w name mod_name) semantics m1"
      using r(1) pre ok2 name by (simp add: FileSystemPolicy_GenerateRules_def)
    have plain: "plain_name (file_pattern w name mod_name)"
      using assms(1) by (simp add: user_rule_ok_def SUBSYS_FILES pat)
    from finish_rule_adds [OF adds_file_rules [OF plain] fin [unfolded r']]
    have 2: "extends ?pb1 (file_spec semantics (file_pattern w name mod_name)) pb'" "pb_file_system_init pb'"
      "pb_lockdown_level pb' = pb_lockdown_level pb" "is_file_semantics semantics"
      using file_rules_valid by (auto simp: maker_of_def)
    have "extends pb (if pb_file_system_init pb then [] else initial_spec) ?pb1"
      using init ok1 by (simp add: extends_def)
    from adds_trans [OF this 2(1)] 2(2-4) show ?thesis
      by (cases "pb_file_system_init pb") (simp_all add: SUBSYS_FILES rule_spec_def pat semantics_valid_def)
  next
    case SUBSYS_NAMED_PIPES
    have f: "finish_rule ?pb (NamedPipePolicy_GenerateRules (hp_rules h) name semantics ?m) = Inr (SBOX_ALL_OK, pb')"
      using internal by (simp add: SUBSYS_NAMED_PIPES Let_def)
    have "plain_name name" using assms(1) by (simp add: user_rule_ok_def SUBSYS_NAMED_PIPES effective_pattern_def)
    from finish_rule_adds [OF adds_pipe_rules [OF this] f m] show ?thesis
      by (auto simp: SUBSYS_NAMED_PIPES rule_spec_def effective_pattern_def ext semantics_valid_def NamedPipePolicy_GenerateRules_def
        split: if_splits)
  next
    case SUBSYS_PROCESS
    have lvl: "\<not> (below_interactive (pb_lockdown_level pb) \<and> semantics = PROCESS_ALL_EXEC)"
      and f: "finish_rule ?pb (ProcessPolicy_GenerateRules (hp_rules h) name semantics ?m) = Inr (SBOX_ALL_OK, pb')"
      using internal by (auto simp: SUBSYS_PROCESS Let_def split: if_splits)
    have "plain_name name" using assms(1) by (simp add: user_rule_ok_def SUBSYS_PROCESS effective_pattern_def)
    from finish_rule_adds [OF adds_process_rules [OF this] f m] show ?thesis using lvl
      by (auto simp: SUBSYS_PROCESS rule_spec_def effective_pattern_def ext semantics_valid_def ProcessPolicy_GenerateRules_def
        split: if_splits)
  next
    case SUBSYS_REGISTRY
    have f: "finish_rule ?pb (RegistryPolicy_GenerateRules w (hp_rules h) name semantics ?m) = Inr (SBOX_ALL_OK, pb')"
      using internal by (simp add: SUBSYS_REGISTRY Let_def)
    have "plain_name (c_wstr (the (ResolveRegistryName w name)))"
      using assms(1) by (simp add: user_rule_ok_def SUBSYS_REGISTRY effective_pattern_def)
    from finish_rule_adds [OF adds_registry_rules [OF this] f m] show ?thesis
      by (auto simp: SUBSYS_REGISTRY rule_spec_def effective_pattern_def ext semantics_valid_def RegistryPolicy_GenerateRules_def
        split: if_splits option.splits)
  next
    case SUBSYS_SYNC
    have f: "finish_rule ?pb (SyncPolicy_GenerateRules (hp_rules h) name semantics ?m) = Inr (SBOX_ALL_OK, pb')"
      using internal by (simp add: SUBSYS_SYNC Let_def)
    have "plain_name name" using assms(1) by (simp add: user_rule_ok_def SUBSYS_SYNC effective_pattern_def)
    from finish_rule_adds [OF adds_sync_rules [OF this] f m] show ?thesis
      by (auto simp: SUBSYS_SYNC rule_spec_def effective_pattern_def ext semantics_valid_def SyncPolicy_GenerateRules_def
        split: if_splits)
  next
    case SUBSYS_WIN32K_LOCKDOWN
    have f: "finish_rule ?pb (Win32KLockdown_GenerateRules (hp_rules h) semantics ?m) = Inr (SBOX_ALL_OK, pb')"
      using internal by (simp add: SUBSYS_WIN32K_LOCKDOWN Let_def)
    from finish_rule_adds [OF adds_gdi_rules f m] show ?thesis
      by (simp add: SUBSYS_WIN32K_LOCKDOWN rule_spec_def ext semantics_valid_def Let_def)
  qed
qed

lemma add_user_rules_step:
  assumes "list_all (user_rule_ok w) rules" and "add_user_rules w h rules pb = Some (Inr (True, pb'))"
  shows "(rules = [] \<and> pb' = pb \<or> extends pb (rules_spec w (pb_file_system_init pb) rules) pb')
    \<and> list_all (semantics_valid (pb_lockdown_level pb)) rules"
  using assms
proof (induction rules arbitrary: h pb)
  case (Cons rule rules)
  obtain subsystem semantics name where rule: "rule = (subsystem, semantics, name)" by (cases rule)
  obtain pb1 where 1: "AddRuleInternal w (h 0) subsystem semantics name pb = Some (Inr (SBOX_ALL_OK, pb1))"
    "add_user_rules w (\<lambda>n. h (Suc n)) rules pb1 = Some (Inr (True, pb'))"
    using Cons.prems(2) unfolding rule by (auto split: Option.bind_splits sum.splits prod.splits if_splits)
  have ok: "user_rule_ok w (subsystem, semantics, name)" "list_all (user_rule_ok w) rules" using Cons.prems(1) rule by simp_all
  note step = AddRuleInternal_step [OF ok(1) 1(1)]
  note rest = Cons.IH [OF ok(2) 1(2)]
  have "extends pb (rules_spec w (pb_file_system_init pb) (rule # rules)) pb'"
  proof (cases "rules = []")
    case True
    then show ?thesis using step rest rule 1(2) by simp
  next
    case False
    then have "extends pb1 (rules_spec w (pb_file_system_init pb1) rules) pb'" using rest by simp
    from adds_trans [OF conjunct1 [OF step] this] step show ?thesis by (simp add: rule)
  qed
  then show ?case using step rest by (simp add: rule)
qed simp

end
