(* ===== verification/Win_Resource_Correct.thy ===== *)
theory Win_Resource_Correct
  imports Win_Resource_Spec Win_Ipc_Args
begin

text \<open>
  The compiled policy of the broker decides by the rules of the embedder: for every service, the
  result of \<open>EvalPolicy\<close> on the parameters of the dispatcher in terms of the rules that were added, the
  room that they need, and a broker with one rule.
\<close>

subsection \<open>The compiled policy evaluates to the rules\<close>

lemma ipc_tags_nth: "ipc_tags ! unat (ipc_tag_code t) = t"
  by (cases t) (simp_all add: ipc_tag_code_def ipc_tags_def)

lemma ipc_tag_code_inj [simp]: "ipc_tag_code s = ipc_tag_code t \<longleftrightarrow> s = t"
  by (metis ipc_tags_nth)

lemma ipc_tag_code_small [simp]: "unat (ipc_tag_code t) < kMaxServiceCount"
  by (cases t) (simp_all add: ipc_tag_code_def ipc_tags_def kMaxServiceCount_def)

lemma spec_ok_append [simp]: "spec_ok (a @ b) \<longleftrightarrow> spec_ok a \<and> spec_ok b"
  by (simp add: spec_ok_def)

lemma spec_ok_Nil [simp]: "spec_ok []"
  by (simp add: spec_ok_def)

lemma spec_ok_name_rule:
  assumes "plain_name pattern" and "list_all condition_ok cs" and "list_all one_piece cs" and "is_action action"
  shows "spec_ok (name_rule tag cs param pattern action)"
  using assms by (simp add: spec_ok_def name_rule_def rule_ok_def)

lemma is_action_simps: "is_action ASK_BROKER" "is_action GIVE_READONLY" "is_action GIVE_ALLACCESS" "is_action FAKE_SUCCESS"
  by (simp_all add: is_action_def eval_results_def)

lemma file_conditions_ok: "list_all condition_ok (file_conditions s)" "list_all one_piece (file_conditions s)"
  by (cases s; simp add: file_conditions_def)+

lemma spec_ok_initial: "spec_ok initial_spec"
proof -
  have "rule_ok format_conditions" "rule_ok short_name_conditions"
    using format_condition_ok short_name_condition_ok by (simp_all add: rule_ok_def format_conditions_def short_name_conditions_def)
  then show ?thesis by (simp add: initial_spec_def spec_ok_def is_action_simps)
qed

lemma spec_ok_specs:
  assumes "plain_name p"
  shows "spec_ok (file_spec s p)" "spec_ok (pipe_spec p)" "spec_ok (process_spec s p)" "spec_ok (registry_spec s p)"
    "spec_ok (sync_spec s p)"
proof -
  note rules = spec_ok_name_rule [OF assms] file_conditions_ok is_action_simps
  show "spec_ok (file_spec s p)" "spec_ok (pipe_spec p)" "spec_ok (process_spec s p)" "spec_ok (registry_spec s p)"
    by (simp_all add: file_spec_def pipe_spec_def process_spec_def registry_spec_def registry_conditions_def rules)
  have "spec_ok [(ipc_tag_code IPC_OPENEVENT_TAG, [StringMatch IF OpenEventParams_NAME p CASE_INSENSITIVE,
      NumberMatch IF_NOT OpenEventParams_ACCESS restricted_event_flags AND_OP], ASK_BROKER)]"
    using assms by (simp add: spec_ok_def rule_ok_def is_action_simps)
  then show "spec_ok (sync_spec s p)" by (simp add: sync_spec_def rules)
qed

lemma spec_ok_rule:
  assumes "user_rule_ok w rule"
  shows "spec_ok (rule_spec w rule)"
proof -
  obtain subsystem semantics name where rule: "rule = (subsystem, semantics, name)" by (cases rule)
  let ?p = "effective_pattern w subsystem name"
  show ?thesis
  proof (cases "subsystem = SUBSYS_WIN32K_LOCKDOWN")
    case True
    then show ?thesis
      by (auto simp: rule rule_spec_def gdi_spec_def spec_ok_def list_all_iff is_action_simps rule_ok_def)
  next
    case False
    then have p: "plain_name ?p" using assms by (simp add: user_rule_ok_def rule)
    show ?thesis using False spec_ok_specs [OF p]
      by (cases subsystem) (simp_all add: rule rule_spec_def Let_def)
  qed
qed

lemma spec_ok_rules: "list_all (user_rule_ok w) rules \<Longrightarrow> spec_ok (rules_spec w init rules)"
  by (induction rules arbitrary: init) (auto simp: spec_ok_rule spec_ok_initial)

lemma done_services_entry:
  "done_services rules ss cb be av g = (ok, g') \<Longrightarrow> s \<notin> unat ` set ss \<Longrightarrow> pg_entry g' s = pg_entry g s"
proof (induction ss arbitrary: cb be av g)
  case (Cons service ss)
  then show ?case by (auto simp: Let_def split: if_splits prod.splits option.splits)
qed simp

lemma policy_Done_entry:
  assumes "policy_Done m = (ok, m')" and "s \<notin> snd ` set (lp_rules m)"
  shows "pg_entry (lp_policy_store m') (unat s) = pg_entry (lp_policy_store m) (unat s)"
proof -
  have "unat s \<notin> unat ` set (services (lp_rules m))" using assms(2) by (force simp: services_def word_unat_eq_iff)
  then show ?thesis using assms(1) done_services_entry by (auto simp: policy_Done_def Let_def split: prod.splits)
qed

abbreviation (input) params_typed :: "parameter list \<Rightarrow> u32 \<Rightarrow> policy_spec \<Rightarrow> bool" where
  "params_typed params s spec \<equiv> list_all (\<lambda>(cs, action). list_all (params_ok params) cs) (spec_rules s spec)"

lemma EvalPolicy_decides:
  assumes "list_all (user_rule_ok w) rules" and "add_user_rules w h rules (new_policy_base level) = Some (Inr (True, pb))"
    and "policy_room (rules_spec w False rules) \<le> kPolMemSize - sizeof_PolicyGlobal"
    and "params \<noteq> []" and "list_all parameter_IsValid params"
    and "params_typed params (ipc_tag_code tag) (rules_spec w False rules)"
  shows "EvalPolicy cmp (compile_rules pb) tag params =
    Inr (case policy_decision cmp params (ipc_tag_code tag) (rules_spec w False rules) of None \<Rightarrow> DENY_ACCESS | Some action \<Rightarrow> action)"
proof (cases "rules = []")
  case True
  then show ?thesis using assms(2)
    by (auto simp: EvalPolicy_def compile_rules_def new_policy_base_def policy_decision_def spec_rules_def)
next
  case False
  let ?spec = "rules_spec w False rules" and ?s = "ipc_tag_code tag"
  have "extends (new_policy_base level) ?spec pb"
    using add_user_rules_step [OF assms(1,2)] False by (simp add: new_policy_base_def)
  then obtain m where m: "pb_policy_maker pb = Some m" "lp_policy_store m = MakeBrokerPolicyMemory" "list_all2 built (lp_rules m) ?spec"
    by (auto simp: extends_def maker_of_def new_policy_base_def LowLevelPolicy_def)
  note ok = spec_ok_rules [OF assms(1), of False]
  have mem: "policy_room ?spec \<le> pg_data_size MakeBrokerPolicyMemory" "pg_data_size MakeBrokerPolicyMemory < 2 ^ 31"
    "\<forall>x < pg_data_size MakeBrokerPolicyMemory. pg_memory MakeBrokerPolicyMemory x = 0"
    using assms(3) by (simp_all add: MakeBrokerPolicyMemory_def kPolMemSize_def)
  obtain m' where done_ok: "policy_Done m = (True, m')"
    and stored: "\<forall>s \<in> fst ` set ?spec. \<exists>b. pg_entry (lp_policy_store m') (unat s) = Some b
        \<and> service_stored (pg_memory (lp_policy_store m')) b 0 (pg_data_size MakeBrokerPolicyMemory) (spec_opcodes s ?spec)"
    using done_policy [OF m(3) ok m(2) [symmetric] mem] by blast
  have pb: "pb_policy_maker (compile_rules pb) = Some m'" by (simp add: compile_rules_def m(1) done_ok)
  show ?thesis
  proof (cases "?s \<in> fst ` set ?spec")
    case True
    then obtain b where b: "pg_entry (lp_policy_store m') (unat ?s) = Some b"
      "service_stored (pg_memory (lp_policy_store m')) b 0 (pg_data_size MakeBrokerPolicyMemory) (spec_opcodes ?s ?spec)"
      using stored by blast
    have opts: "kShortEval AND kShortEval \<noteq> 0" "kStopOnErrors AND kShortEval = 0" by simp_all
    from stored_decides [OF m(3) ok True b(2) assms(4,6) opts, of cmp "SetInternalState 0 EVAL_FALSE"]
    show ?thesis using assms(5) b(1) pb
      by (cases "policy_decision cmp params ?s ?spec") (auto simp: EvalPolicy_def Let_def)
  next
    case False
    have "snd ` set (lp_rules m) = fst ` set ?spec" using built_services [OF m(3)] by (metis list.set_map)
    then have "pg_entry (lp_policy_store m') (unat ?s) = None"
      using policy_Done_entry [OF done_ok, of ?s] False m(2) by (simp add: MakeBrokerPolicyMemory_def)
    moreover have "spec_rules ?s ?spec = []" using False by (force simp: spec_rules_def filter_empty_conv)
    ultimately show ?thesis using pb by (simp add: EvalPolicy_def policy_decision_def)
  qed
qed

text \<open>If all rules of a service have the same action, their order does not matter.\<close>

lemma policy_decision_some:
  assumes "\<And>cs a. (s, cs, a) \<in> set spec \<Longrightarrow> a = action"
  shows "policy_decision cmp params s spec =
    (if \<exists>cs. (s, cs, action) \<in> set spec \<and> list_all (condition_holds cmp params) cs then Some action else None)"
proof -
  have mem: "(cs, a) \<in> set (spec_rules s spec) \<longleftrightarrow> (s, cs, a) \<in> set spec" for cs a
    by (force simp: spec_rules_def)
  show ?thesis
  proof (cases "List.find (\<lambda>(cs, action). list_all (condition_holds cmp params) cs) (spec_rules s spec)")
    case None
    then have "\<not> list_all (condition_holds cmp params) cs" if "(s, cs, action) \<in> set spec" for cs
      using that mem by (fastforce simp: find_None_iff)
    then show ?thesis using None by (auto simp: policy_decision_def)
  next
    case (Some x)
    obtain cs a where x: "x = (cs, a)" by (cases x)
    have "(s, cs, a) \<in> set spec" "list_all (condition_holds cmp params) cs"
      using find_Some_member [OF Some] by (auto simp: x mem)
    then show ?thesis using Some assms by (auto simp: policy_decision_def x)
  qed
qed

lemma rules_spec_member:
  "x \<in> set (rules_spec w False rules) \<longleftrightarrow>
   (\<exists>rule \<in> set rules. x \<in> set (rule_spec w rule)) \<or> (x \<in> set initial_spec \<and> SUBSYS_FILES \<in> fst ` set rules)"
proof -
  have "x \<in> set (rules_spec w init rules) \<longleftrightarrow>
     (\<exists>rule \<in> set rules. x \<in> set (rule_spec w rule)) \<or> (\<not> init \<and> x \<in> set initial_spec \<and> SUBSYS_FILES \<in> fst ` set rules)" for init
  proof (induction rules arbitrary: init)
    case (Cons rule rules)
    then show ?case by (cases "fst rule = SUBSYS_FILES") auto
  qed simp
  then show ?thesis by simp
qed

subsection \<open>Which calls the broker grants\<close>

definition rule_matches :: "wcompare \<Rightarrow> windows \<Rightarrow> subsystem \<Rightarrow> wstring \<Rightarrow> wstring \<Rightarrow> bool" where
  "rule_matches cmp w subsystem pattern name \<longleftrightarrow>
     glob (case_equal cmp CASE_INSENSITIVE) (pieces [] (effective_pattern w subsystem pattern)) name"

definition file_open_allowed :: "semantics \<Rightarrow> u32 \<Rightarrow> u32 \<Rightarrow> u32 \<Rightarrow> bool" where
  "file_open_allowed semantics access disposition options \<longleftrightarrow>
     (case semantics of
        FILES_ALLOW_ANY \<Rightarrow> True
      | FILES_ALLOW_READONLY \<Rightarrow> access AND restricted_file_flags = 0 \<and> disposition = FILE_OPEN
      | FILES_ALLOW_DIR_ANY \<Rightarrow> options AND FILE_DIRECTORY_FILE \<noteq> 0
      | _ \<Rightarrow> False)"

text \<open>The parameters of the dispatchers; the broker says that it is the broker.\<close>

definition open_file_params :: "wstring \<Rightarrow> u32 \<Rightarrow> u32 \<Rightarrow> u32 \<Rightarrow> parameter list" where
  "open_file_params name access disposition options =
     [WcharParam (Some name), Uint32Param TRUE, Uint32Param access, Uint32Param disposition, Uint32Param options]"

definition file_name_params :: "wstring \<Rightarrow> parameter list" where
  "file_name_params name = [WcharParam (Some name), Uint32Param TRUE]"

definition named_access_params :: "wstring \<Rightarrow> u32 \<Rightarrow> parameter list" where
  "named_access_params name access = [WcharParam (Some name), Uint32Param access]"

definition name_based_params :: "wstring \<Rightarrow> parameter list" where
  "name_based_params name = [WcharParam (Some name)]"

lemmas params_defs = open_file_params_def file_name_params_def named_access_params_def name_based_params_def

lemmas spec_defs = rule_spec_def Let_def file_spec_def pipe_spec_def process_spec_def registry_spec_def sync_spec_def gdi_spec_def
  name_rule_def gdi_tags_def opm_tags_def

text \<open>The rules of the embedder that concern a service.\<close>

lemma spec_of_open_file:
  assumes "tag \<in> {IPC_NTCREATEFILE_TAG, IPC_NTOPENFILE_TAG}"
  shows "(ipc_tag_code tag, cs, a) \<in> set (rule_spec w (subsystem, semantics, pattern)) \<longleftrightarrow>
    subsystem = SUBSYS_FILES \<and> semantics \<noteq> FILES_ALLOW_QUERY \<and> a = ASK_BROKER
    \<and> cs = file_conditions semantics @ [StringMatch IF OpenFile_NAME (effective_pattern w SUBSYS_FILES pattern) CASE_INSENSITIVE]"
  using assms by (cases subsystem) (auto simp: spec_defs)

lemma spec_of_query_file:
  assumes "tag \<in> {IPC_NTQUERYATTRIBUTESFILE_TAG, IPC_NTQUERYFULLATTRIBUTESFILE_TAG}"
  shows "(ipc_tag_code tag, cs, a) \<in> set (rule_spec w (subsystem, semantics, pattern)) \<longleftrightarrow>
    subsystem = SUBSYS_FILES \<and> a = ASK_BROKER
    \<and> cs = [StringMatch IF FileName_NAME (effective_pattern w SUBSYS_FILES pattern) CASE_INSENSITIVE]"
  using assms by (cases subsystem) (auto simp: spec_defs)

lemma spec_of_rename:
  "(ipc_tag_code IPC_NTSETINFO_RENAME_TAG, cs, a) \<in> set (rule_spec w (subsystem, semantics, pattern)) \<longleftrightarrow>
    subsystem = SUBSYS_FILES \<and> semantics \<noteq> FILES_ALLOW_QUERY \<and> semantics \<noteq> FILES_ALLOW_READONLY \<and> a = ASK_BROKER
    \<and> cs = [StringMatch IF FileName_NAME (effective_pattern w SUBSYS_FILES pattern) CASE_INSENSITIVE]"
  by (cases subsystem) (auto simp: spec_defs)

lemma spec_of_registry:
  assumes "tag \<in> {IPC_NTCREATEKEY_TAG, IPC_NTOPENKEY_TAG}"
  shows "(ipc_tag_code tag, cs, a) \<in> set (rule_spec w (subsystem, semantics, pattern)) \<longleftrightarrow>
    subsystem = SUBSYS_REGISTRY \<and> a = ASK_BROKER
    \<and> cs = registry_conditions semantics @ [StringMatch IF OpenKey_NAME (effective_pattern w SUBSYS_REGISTRY pattern) CASE_INSENSITIVE]"
  using assms by (cases subsystem) (auto simp: spec_defs)

lemma spec_of_open_event:
  "(ipc_tag_code IPC_OPENEVENT_TAG, cs, a) \<in> set (rule_spec w (subsystem, semantics, pattern)) \<longleftrightarrow>
    subsystem = SUBSYS_SYNC \<and> a = ASK_BROKER
    \<and> cs = StringMatch IF OpenEventParams_NAME (effective_pattern w SUBSYS_SYNC pattern) CASE_INSENSITIVE #
        (if semantics = EVENTS_ALLOW_READONLY then [NumberMatch IF_NOT OpenEventParams_ACCESS restricted_event_flags AND_OP] else [])"
  by (cases subsystem) (auto simp: spec_defs)

lemma spec_of_create_event:
  "(ipc_tag_code IPC_CREATEEVENT_TAG, cs, a) \<in> set (rule_spec w (subsystem, semantics, pattern)) \<longleftrightarrow>
    subsystem = SUBSYS_SYNC \<and> semantics \<noteq> EVENTS_ALLOW_READONLY \<and> a = ASK_BROKER
    \<and> cs = [StringMatch IF NameBased_NAME (effective_pattern w SUBSYS_SYNC pattern) CASE_INSENSITIVE]"
  by (cases subsystem) (auto simp: spec_defs)

lemma spec_of_pipe:
  "(ipc_tag_code IPC_CREATENAMEDPIPEW_TAG, cs, a) \<in> set (rule_spec w (subsystem, semantics, pattern)) \<longleftrightarrow>
    subsystem = SUBSYS_NAMED_PIPES \<and> a = ASK_BROKER
    \<and> cs = [StringMatch IF NameBased_NAME (effective_pattern w SUBSYS_NAMED_PIPES pattern) CASE_INSENSITIVE]"
  by (cases subsystem) (auto simp: spec_defs)

text \<open>The initial rules are for the five services on files, and never hold in the broker.\<close>

lemma spec_initial:
  "(ipc_tag_code tag, cs, a) \<in> set initial_spec \<longleftrightarrow>
    tag \<in> {IPC_NTCREATEFILE_TAG, IPC_NTOPENFILE_TAG, IPC_NTQUERYATTRIBUTESFILE_TAG, IPC_NTQUERYFULLATTRIBUTESFILE_TAG,
      IPC_NTSETINFO_RENAME_TAG} \<and> a = ASK_BROKER \<and> cs \<in> {format_conditions, short_name_conditions}"
  by (auto simp: initial_spec_def)

lemma initial_params_ok:
  "c \<in> set format_conditions \<union> set short_name_conditions \<Longrightarrow> params_ok (open_file_params name access disposition options) c"
  "c \<in> set format_conditions \<union> set short_name_conditions \<Longrightarrow> params_ok (file_name_params name) c"
  by (auto simp: format_conditions_def short_name_conditions_def params_defs)

lemma initial_never_holds:
  "cs \<in> {format_conditions, short_name_conditions} \<Longrightarrow>
    \<not> list_all (condition_holds cmp (open_file_params name access disposition options)) cs"
  "cs \<in> {format_conditions, short_name_conditions} \<Longrightarrow> \<not> list_all (condition_holds cmp (file_name_params name)) cs"
  by (auto simp: format_conditions_def short_name_conditions_def params_defs)

text \<open>
  \<open>pb\<close> is the policy of a broker that added all the rules to a new policy object and compiled them. Two restrictions
  on the rules come with it. They fit into the policy memory; and the pattern of each, after the prefix of the subsystem was
  added, has no question mark but escaped ones and some character that is no star (\<open>plain_name\<close>): the
  wildcard \<open>?\<close> is not covered, because the engine does not treat it as documented (end of \<open>Win_Policy_Correct\<close>).
\<close>

definition policy_from :: "windows \<Rightarrow> token_level \<Rightarrow> user_rule list \<Rightarrow> policy_base \<Rightarrow> bool" where
  "policy_from w level rules pb \<longleftrightarrow>
     list_all (user_rule_ok w) rules \<and> policy_room (rules_spec w False rules) \<le> kPolMemSize - sizeof_PolicyGlobal
     \<and> (\<exists>h pb0. add_user_rules w h rules (new_policy_base level) = Some (Inr (True, pb0)) \<and> pb = compile_rules pb0)"

lemma policy_from_valid: "policy_from w level rules pb \<Longrightarrow> list_all (semantics_valid level) rules"
  using add_user_rules_step [of w rules _ "new_policy_base level"] by (auto simp: policy_from_def new_policy_base_def)

lemma EvalPolicy_spec:
  assumes "policy_from w level rules pb" and "params \<noteq> []" and "list_all parameter_IsValid params"
    and "\<And>cs a. (ipc_tag_code tag, cs, a) \<in> set (rules_spec w False rules) \<Longrightarrow> list_all (params_ok params) cs"
  shows "EvalPolicy cmp pb tag params =
    Inr (case policy_decision cmp params (ipc_tag_code tag) (rules_spec w False rules) of None \<Rightarrow> DENY_ACCESS | Some action \<Rightarrow> action)"
proof -
  have "params_typed params (ipc_tag_code tag) (rules_spec w False rules)"
    using assms(4) by (fastforce simp: spec_rules_def list_all_iff)
  then show ?thesis using EvalPolicy_decides assms(1-3) unfolding policy_from_def by blast
qed

text \<open>A service whose rules all ask the broker.\<close>

lemma EvalPolicy_service:
  assumes "policy_from w level rules pb" and "params \<noteq> []" and "list_all parameter_IsValid params"
    and spec: "\<And>rule cs a. (ipc_tag_code tag, cs, a) \<in> set (rule_spec w rule) \<Longrightarrow> a = ASK_BROKER \<and> list_all (params_ok params) cs"
    and initial: "\<And>cs a. (ipc_tag_code tag, cs, a) \<in> set initial_spec \<Longrightarrow>
        a = ASK_BROKER \<and> list_all (params_ok params) cs \<and> \<not> list_all (condition_holds cmp params) cs"
  shows "EvalPolicy cmp pb tag params =
    Inr (if \<exists>rule \<in> set rules. \<exists>cs. (ipc_tag_code tag, cs, ASK_BROKER) \<in> set (rule_spec w rule)
           \<and> list_all (condition_holds cmp params) cs
         then ASK_BROKER else DENY_ACCESS)"
proof -
  let ?spec = "rules_spec w False rules" and ?s = "ipc_tag_code tag"
  have typed: "list_all (params_ok params) cs" and action: "a = ASK_BROKER" if "(?s, cs, a) \<in> set ?spec" for cs a
    using that spec initial unfolding rules_spec_member by blast+
  have "(\<exists>cs. (?s, cs, ASK_BROKER) \<in> set ?spec \<and> list_all (condition_holds cmp params) cs)
    \<longleftrightarrow> (\<exists>rule \<in> set rules. \<exists>cs. (?s, cs, ASK_BROKER) \<in> set (rule_spec w rule) \<and> list_all (condition_holds cmp params) cs)"
    using initial unfolding rules_spec_member by blast
  then show ?thesis
    using EvalPolicy_spec [OF assms(1-3) typed] policy_decision_some [of ?s ?spec ASK_BROKER cmp params] action by simp
qed

text \<open>A service with one pattern per rule, and other conditions that depend on the semantics.\<close>

lemma EvalPolicy_pattern_service:
  assumes "policy_from w level rules pb" and "params \<noteq> []" and "list_all parameter_IsValid params"
    and spec: "\<And>subsystem semantics pattern cs a.
        (ipc_tag_code tag, cs, a) \<in> set (rule_spec w (subsystem, semantics, pattern)) \<longleftrightarrow>
        subsystem = S \<and> P semantics \<and> a = ASK_BROKER \<and> cs = conditions semantics (effective_pattern w S pattern)"
    and typed: "\<And>semantics pattern. list_all (params_ok params) (conditions semantics pattern)"
    and initial: "\<And>cs a. (ipc_tag_code tag, cs, a) \<in> set initial_spec \<Longrightarrow>
        a = ASK_BROKER \<and> list_all (params_ok params) cs \<and> \<not> list_all (condition_holds cmp params) cs"
    and holds: "\<And>semantics pattern. semantics_valid level (S, semantics, pattern) \<Longrightarrow>
        P semantics \<and> list_all (condition_holds cmp params) (conditions semantics (effective_pattern w S pattern))
        \<longleftrightarrow> allowed semantics \<and> rule_matches cmp w S pattern name"
  shows "EvalPolicy cmp pb tag params =
    Inr (if \<exists>semantics pattern. (S, semantics, pattern) \<in> set rules \<and> allowed semantics \<and> rule_matches cmp w S pattern name
         then ASK_BROKER else DENY_ACCESS)"
proof -
  have "(\<exists>rule \<in> set rules. \<exists>cs. (ipc_tag_code tag, cs, ASK_BROKER) \<in> set (rule_spec w rule)
        \<and> list_all (condition_holds cmp params) cs)
    \<longleftrightarrow> (\<exists>semantics pattern. (S, semantics, pattern) \<in> set rules \<and> P semantics
          \<and> list_all (condition_holds cmp params) (conditions semantics (effective_pattern w S pattern)))"
    by (auto simp: Bex_def spec)
  also have "\<dots> \<longleftrightarrow> (\<exists>semantics pattern. (S, semantics, pattern) \<in> set rules \<and> allowed semantics \<and> rule_matches cmp w S pattern name)"
    using holds policy_from_valid [OF assms(1)] unfolding list_all_iff by blast
  finally show ?thesis
    using EvalPolicy_service [OF assms(1-3) _ initial] typed spec by fastforce
qed

lemma initial_services:
  "(ipc_tag_code tag, cs, a) \<in> set initial_spec \<Longrightarrow>
   a = ASK_BROKER \<and> list_all (params_ok (open_file_params name access disposition options)) cs
   \<and> \<not> list_all (condition_holds cmp (open_file_params name access disposition options)) cs"
  "(ipc_tag_code tag, cs, a) \<in> set initial_spec \<Longrightarrow>
   a = ASK_BROKER \<and> list_all (params_ok (file_name_params name)) cs \<and> \<not> list_all (condition_holds cmp (file_name_params name)) cs"
  using initial_params_ok initial_never_holds unfolding spec_initial list_all_iff by blast+

lemma params_valid:
  "list_all parameter_IsValid (open_file_params name access disposition options)" "open_file_params name access disposition options \<noteq> []"
  "list_all parameter_IsValid (file_name_params name)" "file_name_params name \<noteq> []"
  "list_all parameter_IsValid (named_access_params name access)" "named_access_params name access \<noteq> []"
  "list_all parameter_IsValid (name_based_params name)" "name_based_params name \<noteq> []"
  by (simp_all add: params_defs parameter_IsValid_def)

lemma file_conditions_hold:
  "semantics_valid level (SUBSYS_FILES, semantics, pattern) \<Longrightarrow>
   semantics \<noteq> FILES_ALLOW_QUERY
     \<and> list_all (condition_holds cmp (open_file_params name access disposition options)) (file_conditions semantics)
   \<longleftrightarrow> file_open_allowed semantics access disposition options"
  by (cases semantics) (auto simp: file_conditions_def file_open_allowed_def is_file_semantics_def semantics_valid_def params_defs)

lemma name_holds:
  "condition_holds cmp (WcharParam (Some name) # params) (StringMatch IF 0 (effective_pattern w subsystem pattern) CASE_INSENSITIVE)
   \<longleftrightarrow> rule_matches cmp w subsystem pattern name"
  by (simp add: rule_matches_def)

lemma file_conditions_typed: "list_all (params_ok (open_file_params name access disposition options)) (file_conditions semantics)"
  by (cases semantics) (simp_all add: file_conditions_def params_defs)

lemma EvalPolicy_open_file:
  assumes "policy_from w level rules pb" and "tag \<in> {IPC_NTCREATEFILE_TAG, IPC_NTOPENFILE_TAG}"
  shows "EvalPolicy cmp pb tag (open_file_params name access disposition options) =
    Inr (if \<exists>semantics pattern. (SUBSYS_FILES, semantics, pattern) \<in> set rules
              \<and> file_open_allowed semantics access disposition options \<and> rule_matches cmp w SUBSYS_FILES pattern name
         then ASK_BROKER else DENY_ACCESS)"
proof (rule EvalPolicy_pattern_service [OF assms(1) params_valid(2,1) spec_of_open_file [OF assms(2)] _ initial_services(1)])
  fix semantics pattern
  show "list_all (params_ok (open_file_params name access disposition options))
      (file_conditions semantics @ [StringMatch IF OpenFile_NAME pattern CASE_INSENSITIVE])"
    using file_conditions_typed by (simp add: open_file_params_def)
  assume "semantics_valid level (SUBSYS_FILES, semantics, pattern)"
  from file_conditions_hold [OF this, of cmp name access disposition options]
  show "semantics \<noteq> FILES_ALLOW_QUERY \<and> list_all (condition_holds cmp (open_file_params name access disposition options))
      (file_conditions semantics @ [StringMatch IF OpenFile_NAME (effective_pattern w SUBSYS_FILES pattern) CASE_INSENSITIVE])
    \<longleftrightarrow> file_open_allowed semantics access disposition options \<and> rule_matches cmp w SUBSYS_FILES pattern name"
    by (auto simp: open_file_params_def name_holds simp del: condition_holds.simps)
qed

text \<open>
  C14: what the compiled policy of the broker says about opening or creating a file, for rules whose patterns
  have no unescaped \<open>?\<close> and are not only stars, and that fit into the policy memory (\<open>policy_from\<close>). The answer is to do
  it exactly if one of the rules for files has a pattern that the name matches and semantics that allow the
  access, the disposition and the options; otherwise it is a denial.
\<close>

theorem EvalPolicy_files:
  assumes "policy_from w level rules pb" and "tag \<in> {IPC_NTCREATEFILE_TAG, IPC_NTOPENFILE_TAG}"
  shows "EvalPolicy cmp pb tag (open_file_params name access disposition options) =
    Inr (if \<exists>semantics pattern. (SUBSYS_FILES, semantics, pattern) \<in> set rules
              \<and> file_open_allowed semantics access disposition options \<and> rule_matches cmp w SUBSYS_FILES pattern name
         then ASK_BROKER else DENY_ACCESS)"
  by (rule EvalPolicy_open_file [OF assms])

subsection \<open>The room that a policy needs\<close>

text \<open>The bytes of a rule: its opcodes, which are counted twice, and its strings.\<close>

definition rule_bytes :: "u32 \<times> condition list \<times> eval_result \<Rightarrow> nat" where
  "rule_bytes = (\<lambda>(s, cs, action). service_bytes (rule_ops cs action))"

lemma spec_bytes_le: "service_bytes (spec_opcodes s spec) \<le> sizeof_PolicyBuffer + (\<Sum>x\<leftarrow>filter (\<lambda>x. fst x = s) spec. rule_bytes x)"
  by (induction spec)
    (auto simp: service_bytes_def spec_opcodes_def spec_rules_def used_bytes_def rule_bytes_def algebra_simps)


definition condition_bytes :: "condition \<Rightarrow> nat" where
  "condition_bytes c = (case c of
     StringMatch rt p pat mo \<Rightarrow> (\<Sum>x\<leftarrow>kinds (pieces [] pat). 2 * sizeof_PolicyOpcode + 2 * length (snd x))
   | NumberMatch rt p n rop \<Rightarrow> 2 * sizeof_PolicyOpcode)"

lemma used_bytes_chain: "sizeof_PolicyOpcode * length (chain_ops rt p mo xs) + used_bytes (chain_ops rt p mo xs)
    = (\<Sum>x\<leftarrow>xs. 2 * sizeof_PolicyOpcode + 2 * length (snd x))"
  by (induction rt p mo xs rule: chain_ops.induct) (simp_all add: used_bytes_def string_bytes_def piece_opcode_def)

lemma condition_bytes: "sizeof_PolicyOpcode * length (condition_ops c) + used_bytes (condition_ops c) = condition_bytes c"
proof (cases c)
  case (StringMatch rt p pat mo)
  then show ?thesis using used_bytes_chain [of rt p mo "kinds (pieces [] pat)"] by (simp only: condition_ops.simps condition_bytes_def condition.case)
next
  case (NumberMatch rt p n rop)
  then show ?thesis by (simp add: condition_bytes_def used_bytes_def string_bytes_def number_opcode_def)
qed

lemma rule_bytes: "rule_bytes (s, cs, a) = sizeof_PolicyBuffer + 2 * sizeof_PolicyOpcode + (\<Sum>c\<leftarrow>cs. condition_bytes c)"
proof -
  have "sizeof_PolicyOpcode * length (concat (map condition_ops cs)) + used_bytes (concat (map condition_ops cs)) = (\<Sum>c\<leftarrow>cs. condition_bytes c)"
    by (induction cs) (simp_all add: condition_bytes [symmetric] distrib_left)
  then show ?thesis
    by (simp add: rule_bytes_def service_bytes_def rule_ops_def used_bytes_def string_bytes_def action_opcode_def)
qed

lemma sum_one_le: "distinct ss \<Longrightarrow> (\<Sum>s\<leftarrow>ss. if t = s then n else 0) \<le> (n :: nat)"
  by (simp add: sum_list_distinct_conv_sum_set)

lemma sum_services_le: "distinct ss \<Longrightarrow> (\<Sum>s\<leftarrow>ss. \<Sum>x\<leftarrow>filter (\<lambda>x. fst x = s) spec. f x) \<le> (\<Sum>x\<leftarrow>spec. f x :: nat)"
proof (induction spec)
  case (Cons x spec)
  have "(\<Sum>s\<leftarrow>ss. \<Sum>x\<leftarrow>filter (\<lambda>x. fst x = s) (x # spec). f x)
      = (\<Sum>s\<leftarrow>ss. if fst x = s then f x else 0) + (\<Sum>s\<leftarrow>ss. \<Sum>x\<leftarrow>filter (\<lambda>x. fst x = s) spec. f x)"
    unfolding sum_list_addf [symmetric] by (intro arg_cong [of _ _ sum_list] map_cong refl) simp
  then show ?case using Cons.IH [OF Cons.prems] sum_one_le [OF Cons.prems, of "fst x" "f x"] by simp
qed simp

text \<open>A bound of the room in terms of the rules alone.\<close>

lemma policy_room_le: "policy_room spec \<le> (\<Sum>x\<leftarrow>spec. rule_bytes x + sizeof_PolicyBuffer)"
proof -
  let ?ss = "sort (remdups (map fst spec))"
  have "policy_room spec \<le> (\<Sum>s\<leftarrow>?ss. sizeof_PolicyBuffer + (\<Sum>x\<leftarrow>filter (\<lambda>x. fst x = s) spec. rule_bytes x))"
    unfolding policy_room_def by (rule sum_list_mono) (rule spec_bytes_le)
  also have "\<dots> = length ?ss * sizeof_PolicyBuffer + (\<Sum>s\<leftarrow>?ss. \<Sum>x\<leftarrow>filter (\<lambda>x. fst x = s) spec. rule_bytes x)"
    by (simp add: sum_list_addf sum_list_triv)
  also have "\<dots> \<le> length spec * sizeof_PolicyBuffer + (\<Sum>x\<leftarrow>spec. rule_bytes x)"
    using sum_services_le [of ?ss rule_bytes spec] length_remdups_leq [of "map fst spec"] by (intro add_mono) simp_all
  finally show ?thesis by (simp add: sum_list_addf sum_list_triv)
qed

subsection \<open>A broker with one rule\<close>

definition sample_rule :: user_rule where
  "sample_rule = (SUBSYS_FILES, FILES_ALLOW_READONLY, sample_path)"

definition sample_pattern :: wstring where
  "sample_pattern = kNTPrefixEscaped @ [99, 58, BACKSLASH, 97, BACKSLASH, 98]"

lemma sample_file_pattern: "file_pattern sample_windows sample_path sample_path = sample_pattern"
  by (simp add: file_pattern_def sample_path_def sample_pattern_def sample_windows_def wcsnicmp_eq_def c_wstr_def kNTDevicePrefix_def
    kNTDevicePrefixLen_def kNTPrefix_def kNTPrefixLen_def wide_def FixNTPrefixForMatch_def kNTPrefixEscaped_def)

lemmas match_run = AddStringMatch_def rule_make_def then_set_def MakeBase_eq memory_size_def rule_sizes number_options_def
  GenStringOpcode_def gen_options_def MakeOpWStringMatch_def AllocRelative_def AddNumberMatch_def MakeOpNumberMatch_def
  MakeOpNumberAndMatch_def kLastCharIsWild_def kLastCharIsAlpha_def kLastCharIsNone_def

text \<open>A rule with \<open>n\<close> number matches, and a rule that can take another opcode.\<close>

definition number_rule :: "nat \<Rightarrow> policy_rule \<Rightarrow> bool" where
  "number_rule n r \<longleftrightarrow> \<not> pr_done r \<and> memory_top (pr_factory r) = opcodes_offset + n * sizeof_PolicyOpcode
     \<and> memory_bottom (pr_factory r) = opcodes_offset + kRuleBufferSize + sizeof_PolicyOpcode"

definition can_add :: "policy_rule \<Rightarrow> bool" where
  "can_add r \<longleftrightarrow> pr_done r \<or> memory_top (pr_factory r) + sizeof_PolicyOpcode \<le> memory_bottom (pr_factory r)"

lemma number_rule_new: "number_rule 0 (PolicyRule junk action)"
  by (simp add: number_rule_def PolicyRule_def)

lemma AddNumberMatch_succeeds:
  assumes "number_rule n r" and "n \<le> 2" and "rop \<noteq> RANGE"
  shows "\<exists>r'. AddNumberMatch rt p v rop r = Inr (True, r') \<and> number_rule (Suc n) r'"
  using assms by (cases rop) (auto simp: match_run number_rule_def opcodes_offset_def kRuleBufferSize_def)

lemma number_match_succeeds:
  "number_rule n r \<Longrightarrow> n \<le> 2 \<Longrightarrow> rop \<noteq> RANGE \<Longrightarrow> \<exists>r'. number_match rt p v rop r = Inr r' \<and> number_rule (Suc n) r'"
  using AddNumberMatch_succeeds [of n r rop rt p v] by (auto simp: number_match_def)

lemma AddRule_succeeds: "can_add r \<Longrightarrow> \<exists>r' p'. AddRule s r p = Inr (True, r', p') \<and> can_add r'"
  by (cases "pr_done r") (auto simp: AddRule_def rule_Done_def can_add_def MakeOpAction_def match_run)

lemma sample_string:
  assumes "number_rule n r" and "n = 0 \<or> n = 1 \<or> n = 2"
  shows "\<exists>r'. AddStringMatch IF 0 sample_pattern CASE_INSENSITIVE r = Inr (True, r') \<and> can_add r'"
  using assms by (elim disjE)
    (simp_all add: match_run sample_pattern_def kNTPrefixEscaped_def number_rule_def opcodes_offset_def kRuleBufferSize_def can_add_def)

lemma initial_strings:
  assumes "number_rule 1 r"
  shows "\<exists>r'. AddStringMatch IF_NOT 0 (kNTPrefixEscaped @ [ASTERISK]) CASE_SENSITIVE r = Inr (True, r') \<and> can_add r'"
    and "\<exists>r'. AddStringMatch IF 0 kShortNamePattern CASE_SENSITIVE r = Inr (True, r') \<and> can_add r'"
  using assms
  by (simp_all add: match_run SetOptions_def Let_def kShortNamePattern_def kNTPrefixEscaped_def number_rule_def opcodes_offset_def kRuleBufferSize_def can_add_def)

lemma add_shared_succeeds:
  "can_add f \<Longrightarrow> can_add g \<Longrightarrow> \<exists>p'. add_shared tags f g p = Inr (True, p')"
proof (induction tags arbitrary: f g p)
  case (Cons tag tags)
  obtain f' p1 where f: "AddRule (ipc_tag_code tag) f p = Inr (True, f', p1)" "can_add f'"
    using AddRule_succeeds [OF Cons.prems(1)] by blast
  obtain g' p2 where g: "AddRule (ipc_tag_code tag) g p1 = Inr (True, g', p2)" "can_add g'"
    using AddRule_succeeds [OF Cons.prems(2)] by blast
  show ?case using Cons.IH [OF f(2) g(2), of p2] f(1) g(1) by simp
qed simp

lemma SetInitialRules_succeeds: "\<exists>p'. SetInitialRules j1 j2 p = Inr (True, p')"
proof -
  have number: "\<exists>r. AddNumberMatch IF_NOT FileName_BROKER TRUE AND_OP (PolicyRule junk ASK_BROKER) = Inr (True, r) \<and> number_rule 1 r" for junk
    using AddNumberMatch_succeeds [OF number_rule_new, of AND_OP] by simp
  obtain f1 where f1: "AddNumberMatch IF_NOT FileName_BROKER TRUE AND_OP (PolicyRule j1 ASK_BROKER) = Inr (True, f1)" "number_rule 1 f1"
    using number by blast
  obtain f2 where f2: "AddStringMatch IF_NOT FileName_NAME (kNTPrefixEscaped @ [ASTERISK]) CASE_SENSITIVE f1 = Inr (True, f2)" "can_add f2"
    using initial_strings(1) [OF f1(2)] by blast
  obtain g1 where g1: "AddNumberMatch IF_NOT FileName_BROKER TRUE AND_OP (PolicyRule j2 ASK_BROKER) = Inr (True, g1)" "number_rule 1 g1"
    using number by blast
  obtain g2 where g2: "AddStringMatch IF FileName_NAME kShortNamePattern CASE_SENSITIVE g1 = Inr (True, g2)" "can_add g2"
    using initial_strings(2) [OF g1(2)] by blast
  show ?thesis
    using add_shared_succeeds [OF f2(2) g2(2)] by (simp add: SetInitialRules_def f1(1) f2(1) g1(1) g2(1) del: add_shared.simps)
qed

lemma sample_named_rule:
  assumes "number_rule n r" and "n = 0 \<or> n = 1 \<or> n = 2"
  shows "\<exists>p'. add_named_rule tag 0 sample_pattern r p = Inr (True, p')"
proof -
  obtain r' where r': "AddStringMatch IF 0 sample_pattern CASE_INSENSITIVE r = Inr (True, r')" "can_add r'"
    using sample_string [OF assms] by blast
  then show ?thesis using AddRule_succeeds [OF r'(2), of "ipc_tag_code tag" p] by (auto simp: add_named_rule_def)
qed

lemma sample_file_rule: "\<exists>r. file_rule FILES_ALLOW_READONLY (PolicyRule junk ASK_BROKER) = Inr r \<and> number_rule 2 r"
proof -
  obtain r where r: "number_match IF_NOT OpenFile_ACCESS restricted_file_flags AND_OP (PolicyRule junk ASK_BROKER) = Inr r" "number_rule 1 r"
    using number_match_succeeds [OF number_rule_new, where rop = AND_OP and rt = IF_NOT and p = OpenFile_ACCESS and v = restricted_file_flags]
    by (auto simp: One_nat_def)
  then show ?thesis
    using number_match_succeeds [OF r(2), of EQUAL IF OpenFile_DISPOSITION FILE_OPEN] by (auto simp: file_rule_def numeral_2_eq_2)
qed

lemma sample_file_rules: "\<exists>p'. file_rules junk sample_pattern FILES_ALLOW_READONLY p = Inr (True, p')"
proof -
  obtain c where c: "file_rule FILES_ALLOW_READONLY (PolicyRule (junk 0) ASK_BROKER) = Inr c" "number_rule 2 c"
    using sample_file_rule by blast
  obtain r where r: "file_rule FILES_ALLOW_READONLY (PolicyRule (junk 1) ASK_BROKER) = Inr r" "number_rule 2 r"
    using sample_file_rule by blast
  obtain p1 where p1: "add_named_rule IPC_NTCREATEFILE_TAG OpenFile_NAME sample_pattern c p = Inr (True, p1)"
    using sample_named_rule [OF c(2)] by blast
  obtain p2 where p2: "add_named_rule IPC_NTOPENFILE_TAG OpenFile_NAME sample_pattern r p1 = Inr (True, p2)"
    using sample_named_rule [OF r(2)] by blast
  obtain p3 where p3: "add_named_rule IPC_NTQUERYATTRIBUTESFILE_TAG FileName_NAME sample_pattern (PolicyRule (junk 2) ASK_BROKER) p2
      = Inr (True, p3)"
    using sample_named_rule [OF number_rule_new] by blast
  obtain p4 where p4: "add_named_rule IPC_NTQUERYFULLATTRIBUTESFILE_TAG FileName_NAME sample_pattern (PolicyRule (junk 3) ASK_BROKER) p3
      = Inr (True, p4)"
    using sample_named_rule [OF number_rule_new] by blast
  show ?thesis
    by (simp add: file_rules_def is_file_semantics_def and_then_def skip_change_def c(1) r(1) p1 p2 p3 p4 del: One_nat_def)
qed

lemma sample_effective: "effective_pattern sample_windows SUBSYS_FILES sample_path = sample_pattern"
  by (simp add: effective_pattern_def sample_accepted sample_file_pattern)

lemma sample_bytes: "(\<Sum>x\<leftarrow>initial_spec @ file_spec FILES_ALLOW_READONLY sample_pattern. rule_bytes x + sizeof_PolicyBuffer) \<le> 5000"
  by (simp add: initial_spec_def file_spec_def name_rule_def rule_bytes file_conditions_def format_conditions_def short_name_conditions_def condition_bytes_def
    rule_sizes sizeof_PolicyBuffer_def kNTPrefixEscaped_def sample_pattern_def kShortNamePattern_def)

definition sample_heap :: heap where
  "sample_heap = \<lparr>hp_format = (\<lambda>_. 0), hp_short_name = (\<lambda>_. 0), hp_rules = (\<lambda>_ _. 0)\<rparr>"

lemma sample_policy: "\<exists>pb. policy_from sample_windows USER_LOCKDOWN [sample_rule] pb"
proof -
  have path: "sample_path \<noteq> []" by (simp add: sample_path_def)
  obtain m1 where m1: "SetInitialRules (hp_format sample_heap) (hp_short_name sample_heap) (LowLevelPolicy MakeBrokerPolicyMemory)
      = Inr (True, m1)" using SetInitialRules_succeeds by blast
  obtain m2 where "file_rules (hp_rules sample_heap) sample_pattern FILES_ALLOW_READONLY m1 = Inr (True, m2)"
    using sample_file_rules by blast
  then have "\<exists>pb. add_user_rules sample_windows (\<lambda>_. sample_heap) [sample_rule] (new_policy_base USER_LOCKDOWN) = Some (Inr (True, pb))"
    by (simp add: sample_rule_def AddRuleInternal_def new_policy_base_def m1 FileSystemPolicy_GenerateRules_def path sample_accepted
        sample_file_pattern finish_rule_def)
  moreover have "plain_name sample_pattern" by code_simp
  then have "list_all (user_rule_ok sample_windows) [sample_rule]"
    by (simp add: user_rule_ok_def sample_rule_def sample_effective)
  moreover have "rules_spec sample_windows False [sample_rule] = initial_spec @ file_spec FILES_ALLOW_READONLY sample_pattern"
    by (simp add: sample_rule_def rule_spec_def sample_effective)
  moreover have "policy_room (initial_spec @ file_spec FILES_ALLOW_READONLY sample_pattern) \<le> kPolMemSize - sizeof_PolicyGlobal"
    using sample_bytes policy_room_le [of "initial_spec @ file_spec FILES_ALLOW_READONLY sample_pattern"]
    by (simp add: kPolMemSize_def sizeof_PolicyGlobal_def kMaxServiceCount_def sizeof_PolicyBuffer_def rule_sizes opcodes_offset_def
        del: map_append)
  ultimately show ?thesis by (auto simp: policy_from_def)
qed

theorem EvalPolicy_files_witness:
  "\<exists>pb. policy_from sample_windows USER_LOCKDOWN [sample_rule] pb
    \<and> EvalPolicy plain_compare pb IPC_NTOPENFILE_TAG (open_file_params sample_path FILE_READ_DATA FILE_OPEN 0) = Inr ASK_BROKER
    \<and> EvalPolicy plain_compare pb IPC_NTOPENFILE_TAG (open_file_params sample_path 2 FILE_OPEN 0) = Inr DENY_ACCESS"
proof -
  obtain pb where pb: "policy_from sample_windows USER_LOCKDOWN [sample_rule] pb" using sample_policy by blast
  have "glob (case_equal plain_compare CASE_INSENSITIVE) (pieces [] sample_pattern) sample_path"
    "\<not> file_open_allowed FILES_ALLOW_READONLY 2 FILE_OPEN 0" "file_open_allowed FILES_ALLOW_READONLY FILE_READ_DATA FILE_OPEN 0"
    by code_simp+
  then show ?thesis
    using pb EvalPolicy_files [OF pb, of IPC_NTOPENFILE_TAG plain_compare sample_path]
    by (auto simp: sample_rule_def rule_matches_def sample_effective)
qed

lemma EvalPolicy_queries:
  assumes "policy_from w level rules pb" and "tag \<in> {IPC_NTQUERYATTRIBUTESFILE_TAG, IPC_NTQUERYFULLATTRIBUTESFILE_TAG}"
  shows "EvalPolicy cmp pb tag (file_name_params name) =
    Inr (if \<exists>semantics pattern. (SUBSYS_FILES, semantics, pattern) \<in> set rules \<and> True \<and> rule_matches cmp w SUBSYS_FILES pattern name
         then ASK_BROKER else DENY_ACCESS)"
  by (rule EvalPolicy_pattern_service [where P = "\<lambda>_. True" and allowed = "\<lambda>_. True"
      and conditions = "\<lambda>_ pattern. [StringMatch IF FileName_NAME pattern CASE_INSENSITIVE]",
      OF assms(1) params_valid(4,3) _ _ initial_services(2)])
    (simp_all add: spec_of_query_file [OF assms(2)] file_name_params_def rule_matches_def)

lemma EvalPolicy_rename:
  assumes "policy_from w level rules pb"
  shows "EvalPolicy cmp pb IPC_NTSETINFO_RENAME_TAG (file_name_params name) =
    Inr (if \<exists>semantics pattern. (SUBSYS_FILES, semantics, pattern) \<in> set rules
              \<and> (semantics = FILES_ALLOW_ANY \<or> semantics = FILES_ALLOW_DIR_ANY) \<and> rule_matches cmp w SUBSYS_FILES pattern name
         then ASK_BROKER else DENY_ACCESS)"
  by (rule EvalPolicy_pattern_service [where P = "\<lambda>s. s \<noteq> FILES_ALLOW_QUERY \<and> s \<noteq> FILES_ALLOW_READONLY"
      and allowed = "\<lambda>s. s = FILES_ALLOW_ANY \<or> s = FILES_ALLOW_DIR_ANY", OF assms(1) params_valid(4,3) _ _ initial_services(2)])
    (auto simp: spec_of_rename file_name_params_def rule_matches_def semantics_valid_def is_file_semantics_def)

definition registry_allowed :: "semantics \<Rightarrow> u32 \<Rightarrow> bool" where
  "registry_allowed semantics access \<longleftrightarrow>
     semantics = REG_ALLOW_ANY \<or> semantics = REG_ALLOW_READONLY \<and> access AND NOT (kAllowedRegFlags OR MAXIMUM_ALLOWED) = 0"

lemma EvalPolicy_registry:
  assumes "policy_from w level rules pb" and "tag \<in> {IPC_NTCREATEKEY_TAG, IPC_NTOPENKEY_TAG}"
  shows "EvalPolicy cmp pb tag (named_access_params name access) =
    Inr (if \<exists>semantics pattern. (SUBSYS_REGISTRY, semantics, pattern) \<in> set rules
              \<and> registry_allowed semantics access \<and> rule_matches cmp w SUBSYS_REGISTRY pattern name
         then ASK_BROKER else DENY_ACCESS)"
proof (rule EvalPolicy_pattern_service [where P = "\<lambda>_. True", OF assms(1) params_valid(6,5)])
  fix subsystem semantics pattern cs a
  show "(ipc_tag_code tag, cs, a) \<in> set (rule_spec w (subsystem, semantics, pattern)) \<longleftrightarrow>
    subsystem = SUBSYS_REGISTRY \<and> True \<and> a = ASK_BROKER \<and>
    cs = registry_conditions semantics @ [StringMatch IF OpenKey_NAME (effective_pattern w SUBSYS_REGISTRY pattern) CASE_INSENSITIVE]"
    using spec_of_registry [OF assms(2)] by simp
qed (use assms(2) in \<open>auto simp: registry_conditions_def named_access_params_def spec_initial semantics_valid_def registry_allowed_def
      rule_matches_def\<close>)

definition event_allowed :: "semantics \<Rightarrow> u32 \<Rightarrow> bool" where
  "event_allowed semantics access \<longleftrightarrow>
     semantics = EVENTS_ALLOW_ANY \<or> semantics = EVENTS_ALLOW_READONLY \<and> access AND restricted_event_flags = 0"

lemma EvalPolicy_open_event:
  assumes "policy_from w level rules pb"
  shows "EvalPolicy cmp pb IPC_OPENEVENT_TAG (named_access_params name access) =
    Inr (if \<exists>semantics pattern. (SUBSYS_SYNC, semantics, pattern) \<in> set rules
              \<and> event_allowed semantics access \<and> rule_matches cmp w SUBSYS_SYNC pattern name
         then ASK_BROKER else DENY_ACCESS)"
proof (rule EvalPolicy_pattern_service [where P = "\<lambda>_. True", OF assms(1) params_valid(6,5)])
  fix subsystem semantics pattern cs a
  show "(ipc_tag_code IPC_OPENEVENT_TAG, cs, a) \<in> set (rule_spec w (subsystem, semantics, pattern)) \<longleftrightarrow>
    subsystem = SUBSYS_SYNC \<and> True \<and> a = ASK_BROKER \<and>
    cs = StringMatch IF OpenEventParams_NAME (effective_pattern w SUBSYS_SYNC pattern) CASE_INSENSITIVE #
      (if semantics = EVENTS_ALLOW_READONLY then [NumberMatch IF_NOT OpenEventParams_ACCESS restricted_event_flags AND_OP] else [])"
    using spec_of_open_event by simp
qed (auto simp: named_access_params_def spec_initial semantics_valid_def event_allowed_def rule_matches_def)

lemma EvalPolicy_create_event:
  assumes "policy_from w level rules pb"
  shows "EvalPolicy cmp pb IPC_CREATEEVENT_TAG (name_based_params name) =
    Inr (if \<exists>semantics pattern. (SUBSYS_SYNC, semantics, pattern) \<in> set rules
              \<and> semantics = EVENTS_ALLOW_ANY \<and> rule_matches cmp w SUBSYS_SYNC pattern name
         then ASK_BROKER else DENY_ACCESS)"
  by (rule EvalPolicy_pattern_service [where P = "\<lambda>s. s \<noteq> EVENTS_ALLOW_READONLY", OF assms(1) params_valid(8,7)])
    (auto simp: spec_of_create_event spec_initial name_based_params_def rule_matches_def semantics_valid_def)

lemma EvalPolicy_pipes:
  assumes "policy_from w level rules pb"
  shows "EvalPolicy cmp pb IPC_CREATENAMEDPIPEW_TAG (name_based_params name) =
    Inr (if \<exists>semantics pattern. (SUBSYS_NAMED_PIPES, semantics, pattern) \<in> set rules \<and> True
              \<and> rule_matches cmp w SUBSYS_NAMED_PIPES pattern name
         then ASK_BROKER else DENY_ACCESS)"
  by (rule EvalPolicy_pattern_service [where P = "\<lambda>_. True" and allowed = "\<lambda>_. True", OF assms(1) params_valid(8,7)])
    (auto simp: spec_of_pipe spec_initial name_based_params_def rule_matches_def)

text \<open>The first rule for a process wins: the two semantics have different actions.\<close>

definition process_decision :: "wcompare \<Rightarrow> windows \<Rightarrow> user_rule list \<Rightarrow> wstring \<Rightarrow> eval_result" where
  "process_decision cmp w rules name =
     (case List.find (\<lambda>(subsystem, semantics, pattern). subsystem = SUBSYS_PROCESS \<and> rule_matches cmp w SUBSYS_PROCESS pattern name) rules of
        None \<Rightarrow> DENY_ACCESS
      | Some (_, semantics, _) \<Rightarrow> if semantics = PROCESS_MIN_EXEC then GIVE_READONLY else GIVE_ALLACCESS)"

lemma spec_rules_append: "spec_rules s (a @ b) = spec_rules s a @ spec_rules s b"
  by (simp add: spec_rules_def)

lemma spec_rules_process:
  "spec_rules (ipc_tag_code IPC_CREATEPROCESSW_TAG) (rule_spec w (subsystem, semantics, pattern)) =
    (if subsystem = SUBSYS_PROCESS
     then [([StringMatch IF NameBased_NAME (effective_pattern w SUBSYS_PROCESS pattern) CASE_INSENSITIVE],
            if semantics = PROCESS_MIN_EXEC then GIVE_READONLY else GIVE_ALLACCESS)]
     else [])"
  by (cases subsystem) (simp_all add: spec_defs spec_rules_def)

lemma spec_rules_initial: "spec_rules (ipc_tag_code IPC_CREATEPROCESSW_TAG) initial_spec = []"
  by (simp add: initial_spec_def spec_rules_def)

lemma process_policy_decision:
  "(case policy_decision cmp (name_based_params name) (ipc_tag_code IPC_CREATEPROCESSW_TAG) (rules_spec w init rules) of
      None \<Rightarrow> DENY_ACCESS | Some action \<Rightarrow> action) = process_decision cmp w rules name"
proof (induction rules arbitrary: init)
  case Nil
  show ?case by (simp add: policy_decision_def process_decision_def spec_rules_def)
next
  case (Cons rule rules)
  obtain subsystem semantics pattern where rule: "rule = (subsystem, semantics, pattern)" by (cases rule)
  let ?s = "ipc_tag_code IPC_CREATEPROCESSW_TAG" and ?init = "init \<or> fst rule = SUBSYS_FILES"
  have spec: "spec_rules ?s (rules_spec w init (rule # rules)) = spec_rules ?s (rule_spec w rule) @ spec_rules ?s (rules_spec w ?init rules)"
    by (simp add: spec_rules_append spec_rules_initial) (simp add: spec_rules_def)
  show ?case
  proof (cases "subsystem = SUBSYS_PROCESS \<and> rule_matches cmp w SUBSYS_PROCESS pattern name")
    case True
    then show ?thesis
      unfolding policy_decision_def spec
      by (simp add: rule process_decision_def spec_rules_process name_based_params_def rule_matches_def)
  next
    case False
    then have "policy_decision cmp (name_based_params name) ?s (rules_spec w init (rule # rules))
      = policy_decision cmp (name_based_params name) ?s (rules_spec w ?init rules)"
      unfolding policy_decision_def spec
      by (simp add: rule spec_rules_process name_based_params_def rule_matches_def)
    then show ?thesis using Cons.IH [of ?init] False by (simp only: rule process_decision_def find.simps prod.case if_False)
  qed
qed

lemma EvalPolicy_processes:
  assumes "policy_from w level rules pb"
  shows "EvalPolicy cmp pb IPC_CREATEPROCESSW_TAG (name_based_params name) = Inr (process_decision cmp w rules name)"
proof -
  have "list_all (params_ok (name_based_params name)) cs"
    if member: "(ipc_tag_code IPC_CREATEPROCESSW_TAG, cs, a) \<in> set (rules_spec w False rules)" for cs a
  proof -
    have "(cs, a) \<in> set (spec_rules (ipc_tag_code IPC_CREATEPROCESSW_TAG) (rule_spec w rule))"
      if "(ipc_tag_code IPC_CREATEPROCESSW_TAG, cs, a) \<in> set (rule_spec w rule)" for rule
      using that by (force simp: spec_rules_def)
    moreover have "(ipc_tag_code IPC_CREATEPROCESSW_TAG, cs, a) \<notin> set initial_spec" by (simp add: spec_initial)
    ultimately obtain rule where "(cs, a) \<in> set (spec_rules (ipc_tag_code IPC_CREATEPROCESSW_TAG) (rule_spec w rule))"
      using member unfolding rules_spec_member by blast
    then show ?thesis by (cases rule) (auto simp: spec_rules_process name_based_params_def split: if_splits)
  qed
  from EvalPolicy_spec [OF assms params_valid(8,7) this] show ?thesis by (simp add: process_policy_decision)
qed

text \<open>Full access to a new process is never granted below the interactive level.\<close>

lemma process_decision_level:
  assumes "policy_from w level rules pb" and "below_interactive level"
  shows "process_decision cmp w rules name \<noteq> GIVE_ALLACCESS"
proof -
  have "semantics = PROCESS_MIN_EXEC" if "(SUBSYS_PROCESS, semantics, pattern) \<in> set rules" for semantics pattern
    using policy_from_valid [OF assms(1)] that assms(2) by (auto simp: list_all_iff semantics_valid_def)
  then show ?thesis
    by (auto simp: process_decision_def find_Some_iff split: option.splits dest: nth_mem)
qed

end
