(* ===== verification/Win_Handlers.thy ===== *)
theory Win_Handlers
  imports Win_Resource_Correct
begin

text \<open>
  What the handlers of the broker do for a call: \<^verbatim>\<open>filesystem_dispatcher.cc\<close>,
  \<^verbatim>\<open>named_pipe_dispatcher.cc\<close>, \<^verbatim>\<open>process_thread_dispatcher.cc\<close>, \<^verbatim>\<open>registry_dispatcher.cc\<close>,
  \<^verbatim>\<open>sync_dispatcher.cc\<close>, the ping of \<^verbatim>\<open>top_level_dispatcher.cc\<close>, and the actions of the
  \<^verbatim>\<open>*_policy.cc\<close>, all below \<^verbatim>\<open>win/src\<close>. A handler makes requests to the kernel, whose answers
  are a parameter of the model, and the list of requests and answers so far, newest first, is its state.
\<close>

subsection \<open>Requests\<close>

text \<open>
  The name of an object is the null-terminated string that \<open>RtlInitUnicodeString\<close> gets. The last argument
  of a file request tells whether the anonymous security QOS is passed.
\<close>

datatype request =
    NtCreateFile_request wstring u32 u32 u32 u32 u32 u32 bool
  | NtQueryAttributesFile_request wstring u32 bool
  | NtQueryFullAttributesFile_request wstring u32 bool
  | NtSetInformationFile_request u64 bytes u32
  | NtCreateKey_request u64 wstring u32 u32 u32 u32
  | NtOpenKey_request u64 wstring u32 u32
  | NtQueryObject_request u64
  | NtCreateEvent_request u64 wstring u32 u8
  | NtOpenEvent_request u64 wstring u32
  | CreateNamedPipe_request wstring u32 u32 u32 u32 u32 u32
  | CreateProcess_request wstring wstring "wstring option"
  | NtOpenThread_request u32 u32 u32
  | NtOpenProcess_request u32 u32
  | NtOpenProcessToken_request u32
  | NtOpenProcessTokenEx_request u32 u32
  | CreateRemoteThread_request u64 u64 u64 u32
  | DuplicateToTarget u64 "u32 option"
  | DuplicateFromTarget u64
  | CloseHandle_request u64

text \<open>
  The status, or a \<open>BOOL\<close> or last error; the handle, and a second one; the information or the granted access; and
  the contents of the out parameters.
\<close>

record answer =
  an_status :: u32
  an_handle :: u64
  an_handle2 :: u64
  an_info :: u64
  an_data :: bytes
  an_data2 :: bytes

type_synonym trace = "(request \<times> answer) list"

text \<open>
  Windows and the case folding of the policy, the compiled policy, the kernel, the process of the client, the
  value of uninitialised memory, \<open>SearchPath\<close> with its result and the buffer, the directory of named
  objects, and the clock.
\<close>

record broker =
  bk_windows :: windows
  bk_compare :: wcompare
  bk_policy :: policy_base
  bk_kernel :: "trace \<Rightarrow> request \<Rightarrow> answer"
  bk_process_id :: u32
  bk_junk :: u64
  bk_SearchPath :: "wstring option \<Rightarrow> wstring \<Rightarrow> u32 \<times> wstring"
  bk_base_named_objects :: "u32 \<times> u64"
  bk_tick_count :: u32

abbreviation (input) STATUS_SUCCESS :: u32 where "STATUS_SUCCESS \<equiv> 0"
abbreviation (input) STATUS_ACCESS_DENIED :: u32 where "STATUS_ACCESS_DENIED \<equiv> 0xC0000022"
abbreviation (input) INVALID_HANDLE_VALUE :: u64 where "INVALID_HANDLE_VALUE \<equiv> - 1"
abbreviation (input) CURRENT_PROCESS :: u64 where "CURRENT_PROCESS \<equiv> - 1"

definition NT_SUCCESS :: "u32 \<Rightarrow> bool" where
  "NT_SUCCESS status \<longleftrightarrow> 0 \<le> sint status"

subsection \<open>Effects\<close>

text \<open>\<open>None\<close> for not returning.\<close>

type_synonym 'a effect = "trace \<Rightarrow> (abort + ('a \<times> trace)) option"

definition done_with :: "'a \<Rightarrow> 'a effect" where
  "done_with x tr = Some (Inr (x, tr))"

definition after :: "'a effect \<Rightarrow> ('a \<Rightarrow> 'b effect) \<Rightarrow> 'b effect" where
  "after m f tr = (case m tr of None \<Rightarrow> None | Some (Inl e) \<Rightarrow> Some (Inl e) | Some (Inr (x, tr)) \<Rightarrow> f x tr)"

definition returning :: "'a option \<Rightarrow> 'a effect" where
  "returning x tr = map_option (\<lambda>x. Inr (x, tr)) x"

definition unless_abort :: "abort + 'a \<Rightarrow> 'a effect" where
  "unless_abort m tr = Some (res_bind m (\<lambda>x. Inr (x, tr)))"

definition ask :: "broker \<Rightarrow> request \<Rightarrow> answer effect" where
  "ask b req tr = Some (Inr (bk_kernel b tr req, (req, bk_kernel b tr req) # tr))"

definition evaluate :: "broker \<Rightarrow> ipc_tag \<Rightarrow> parameter list \<Rightarrow> eval_result effect" where
  "evaluate b tag params = unless_abort (EvalPolicy (bk_compare b) (bk_policy b) tag params)"

text \<open>
  \<open>DuplicateHandle\<close> into the target: \<open>None\<close> is \<open>DUPLICATE_SAME_ACCESS\<close>. The result is the handle in the
  target, or \<open>None\<close>.
\<close>

definition duplicate_to_target :: "broker \<Rightarrow> u64 \<Rightarrow> u32 option \<Rightarrow> u64 option effect" where
  "duplicate_to_target b handle access =
     after (ask b (DuplicateToTarget handle access)) (\<lambda>a.
     done_with (if an_status a = 0 then None else Some (an_handle a)))"

text \<open>What a handler returns: whether it serviced the call, the answer, and the message with its buffers.\<close>

type_synonym handled = "bool \<times> call_return \<times> bytes"

definition denied :: "bytes \<Rightarrow> handled" where
  "denied message = (True, zero_return\<lparr>cr_status := STATUS_ACCESS_DENIED\<rparr>, message)"

definition not_serviced :: "bytes \<Rightarrow> handled" where
  "not_serviced message = (False, zero_return, message)"

definition answer_handle :: "u32 \<Rightarrow> u64 \<Rightarrow> bytes \<Rightarrow> handled" where
  "answer_handle status handle message = (True, zero_return\<lparr>cr_status := status, cr_handle := handle\<rparr>, message)"

text \<open>Writing to a buffer in the message.\<close>

definition store_param :: "cross_params \<Rightarrow> u64 \<Rightarrow> bytes \<Rightarrow> bytes" where
  "store_param p a new = put_bytes (unat (a - cp_base p)) new (cp_bytes p)"

text \<open>The kernel fills an out parameter of a known size.\<close>

definition filled :: "nat \<Rightarrow> bytes \<Rightarrow> bytes" where
  "filled n data = take n (data @ replicate n 0)"

subsection \<open>Files\<close>

definition NtCreateFileInTarget ::
    "broker \<Rightarrow> u32 \<Rightarrow> wstring \<Rightarrow> u32 \<Rightarrow> bool \<Rightarrow> u32 \<Rightarrow> u32 \<Rightarrow> u32 \<Rightarrow> u32 \<Rightarrow> (u32 \<times> u64 \<times> u64 option) effect" where
  "NtCreateFileInTarget b desired_access name attributes qos file_attributes share_access create_disposition create_options =
     after (ask b (NtCreateFile_request name attributes desired_access file_attributes share_access create_disposition
         create_options qos)) (\<lambda>a.
     if \<not> NT_SUCCESS (an_status a) then done_with (an_status a, an_info a, None)
     else if \<not> SameObject (bk_windows b) (an_handle a) name then
       after (ask b (CloseHandle_request (an_handle a))) (\<lambda>_. done_with (STATUS_ACCESS_DENIED, an_info a, None))
     else
       after (duplicate_to_target b (an_handle a) None) (\<lambda>target_file_handle.
       case target_file_handle of
         None \<Rightarrow> done_with (STATUS_ACCESS_DENIED, an_info a, None)
       | Some handle \<Rightarrow> done_with (STATUS_SUCCESS, an_info a, Some handle)))"

text \<open>
  The status, the information and the handle, which is not set on a failure; \<open>None\<close> for the result \<open>false\<close>.
\<close>

definition CreateFileAction ::
    "broker \<Rightarrow> eval_result \<Rightarrow> wstring \<Rightarrow> u32 \<Rightarrow> u32 \<Rightarrow> u32 \<Rightarrow> u32 \<Rightarrow> u32 \<Rightarrow> u32
      \<Rightarrow> (u32 \<times> u64 \<times> u64 option) option effect" where
  "CreateFileAction b eval_result file attributes desired_access file_attributes share_access create_disposition create_options =
     (if eval_result \<noteq> ASK_BROKER then done_with None
      else
        after (NtCreateFileInTarget b desired_access (c_wstr file) attributes (IsPipe (bk_windows b) file) file_attributes
          share_access create_disposition create_options) (\<lambda>r. done_with (Some r)))"

definition OpenFileAction ::
    "broker \<Rightarrow> eval_result \<Rightarrow> wstring \<Rightarrow> u32 \<Rightarrow> u32 \<Rightarrow> u32 \<Rightarrow> u32 \<Rightarrow> (u32 \<times> u64 \<times> u64 option) effect" where
  "OpenFileAction b eval_result file attributes desired_access share_access open_options =
     (if eval_result \<noteq> ASK_BROKER then done_with (STATUS_ACCESS_DENIED, 0, None)
      else
        NtCreateFileInTarget b desired_access (c_wstr file) attributes (IsPipe (bk_windows b) file) 0 share_access FILE_OPEN
          open_options)"

definition file_answer :: "broker \<Rightarrow> bytes \<Rightarrow> u32 \<times> u64 \<times> u64 option \<Rightarrow> handled" where
  "file_answer b message = (\<lambda>(nt_status, io_information, handle).
     (True, zero_return\<lparr>cr_status := nt_status, cr_extended := (cr_extended zero_return)[0 := io_information],
        cr_handle := (case handle of None \<Rightarrow> bk_junk b | Some h \<Rightarrow> h)\<rparr>, message))"

definition Filesystem_NtCreateFile ::
    "broker \<Rightarrow> bytes \<Rightarrow> wstring \<Rightarrow> u32 \<Rightarrow> u32 \<Rightarrow> u32 \<Rightarrow> u32 \<Rightarrow> u32 \<Rightarrow> u32 \<Rightarrow> handled effect" where
  "Filesystem_NtCreateFile b message name attributes desired_access file_attributes share_access create_disposition create_options =
     after (returning (PreProcessName (bk_windows b) name)) (\<lambda>(ok, name).
     if \<not> ok then done_with (denied message)
     else
       after (evaluate b IPC_NTCREATEFILE_TAG (open_file_params (c_wstr name) desired_access create_disposition create_options))
         (\<lambda>result.
       after (CreateFileAction b result name attributes desired_access file_attributes share_access create_disposition create_options)
         (\<lambda>r.
       case r of None \<Rightarrow> done_with (denied message) | Some r \<Rightarrow> done_with (file_answer b message r))))"

definition Filesystem_NtOpenFile ::
    "broker \<Rightarrow> bytes \<Rightarrow> wstring \<Rightarrow> u32 \<Rightarrow> u32 \<Rightarrow> u32 \<Rightarrow> u32 \<Rightarrow> handled effect" where
  "Filesystem_NtOpenFile b message name attributes desired_access share_access open_options =
     after (returning (PreProcessName (bk_windows b) name)) (\<lambda>(ok, name).
     if \<not> ok then done_with (denied message)
     else
       after (evaluate b IPC_NTOPENFILE_TAG (open_file_params (c_wstr name) desired_access FILE_OPEN open_options)) (\<lambda>result.
       after (OpenFileAction b result name attributes desired_access share_access open_options) (\<lambda>r.
       done_with (file_answer b message r))))"

definition sizeof_FILE_BASIC_INFORMATION :: u32 where "sizeof_FILE_BASIC_INFORMATION = 40"
definition sizeof_FILE_NETWORK_OPEN_INFORMATION :: u32 where "sizeof_FILE_NETWORK_OPEN_INFORMATION = 56"

definition Filesystem_NtQueryAttributesFile ::
    "broker \<Rightarrow> cross_params \<Rightarrow> wstring \<Rightarrow> u32 \<Rightarrow> u64 \<Rightarrow> u32 \<Rightarrow> handled effect" where
  "Filesystem_NtQueryAttributesFile b p name attributes info info_size =
     (if info_size \<noteq> sizeof_FILE_BASIC_INFORMATION then done_with (not_serviced (cp_bytes p))
      else
        after (returning (PreProcessName (bk_windows b) name)) (\<lambda>(ok, name).
        if \<not> ok then done_with (denied (cp_bytes p))
        else
          after (evaluate b IPC_NTQUERYATTRIBUTESFILE_TAG (file_name_params (c_wstr name))) (\<lambda>result.
          if result \<noteq> ASK_BROKER then done_with (True, zero_return\<lparr>cr_status := STATUS_ACCESS_DENIED\<rparr>, cp_bytes p)
          else
            after (ask b (NtQueryAttributesFile_request (c_wstr name) attributes (IsPipe (bk_windows b) name))) (\<lambda>a.
            done_with (True, zero_return\<lparr>cr_status := an_status a\<rparr>, store_param p info (filled (unat info_size) (an_data a)))))))"

definition Filesystem_NtQueryFullAttributesFile ::
    "broker \<Rightarrow> cross_params \<Rightarrow> wstring \<Rightarrow> u32 \<Rightarrow> u64 \<Rightarrow> u32 \<Rightarrow> handled effect" where
  "Filesystem_NtQueryFullAttributesFile b p name attributes info info_size =
     (if info_size \<noteq> sizeof_FILE_NETWORK_OPEN_INFORMATION then done_with (not_serviced (cp_bytes p))
      else
        after (returning (PreProcessName (bk_windows b) name)) (\<lambda>(ok, name).
        if \<not> ok then done_with (denied (cp_bytes p))
        else
          after (evaluate b IPC_NTQUERYFULLATTRIBUTESFILE_TAG (file_name_params (c_wstr name))) (\<lambda>result.
          if result \<noteq> ASK_BROKER then done_with (True, zero_return\<lparr>cr_status := STATUS_ACCESS_DENIED\<rparr>, cp_bytes p)
          else
            after (ask b (NtQueryFullAttributesFile_request (c_wstr name) attributes (IsPipe (bk_windows b) name))) (\<lambda>a.
            done_with (True, zero_return\<lparr>cr_status := an_status a\<rparr>, store_param p info (filled (unat info_size) (an_data a)))))))"

text \<open>
  A rename: the fields of \<open>FILE_RENAME_INFORMATION\<close> on a 64-bit machine, and the check of the buffer, in the order
  of the code, with an abort where it would read outside of the buffer.
\<close>

definition FileRenameInformation :: u32 where "FileRenameInformation = 10"
definition sizeof_FILE_RENAME_INFORMATION :: u32 where "sizeof_FILE_RENAME_INFORMATION = 24"
definition sizeof_IO_STATUS_BLOCK :: u32 where "sizeof_IO_STATUS_BLOCK = 16"
definition offsetof_FileName :: u32 where "offsetof_FileName = 20"

definition buffer_read :: "bytes \<Rightarrow> nat \<Rightarrow> nat \<Rightarrow> abort + bytes" where
  "buffer_read buf offset n = in_bounds (message_bytes buf offset n)"

definition IsSupportedRenameCall :: "bytes \<Rightarrow> u32 \<Rightarrow> u32 \<Rightarrow> abort + bool" where
  "IsSupportedRenameCall file_info len file_info_class =
     (if file_info_class \<noteq> FileRenameInformation then Inr False
      else if len < sizeof_FILE_RENAME_INFORMATION then Inr False
      else
        res_bind (buffer_read file_info 16 4) (\<lambda>bs. let FileNameLength = (le_value bs :: u32) in
        if len - offsetof_FileName < FileNameLength then Inr False
        else
          res_bind (buffer_read file_info 8 8) (\<lambda>RootDirectory.
          if (le_value RootDirectory :: u64) \<noteq> 0 then Inr False
          else if FileNameLength < 8 \<or> FileNameLength > 0xFFFF then Inr False
          else
            res_bind (buffer_read file_info (unat offsetof_FileName) 8) (\<lambda>prefix.
            Inr (u16_list prefix = kNTPrefix)))))"

definition rename_name :: "bytes \<Rightarrow> abort + wstring" where
  "rename_name file_info =
     res_bind (buffer_read file_info 16 4) (\<lambda>bs. let FileNameLength = (le_value bs :: u32) in
     res_bind (buffer_read file_info (unat offsetof_FileName) (2 * (unat FileNameLength div 2))) (\<lambda>bs. Inr (u16_list bs)))"

definition SetInformationFileAction :: "broker \<Rightarrow> eval_result \<Rightarrow> u64 \<Rightarrow> bytes \<Rightarrow> u32 \<Rightarrow> (u32 \<times> bytes option) effect" where
  "SetInformationFileAction b eval_result target_file_handle file_info info_class =
     (if eval_result \<noteq> ASK_BROKER then done_with (STATUS_ACCESS_DENIED, None)
      else
        after (ask b (DuplicateFromTarget target_file_handle)) (\<lambda>a.
        if an_status a = 0 then done_with (STATUS_ACCESS_DENIED, None)
        else
          after (ask b (NtSetInformationFile_request (an_handle a) file_info info_class)) (\<lambda>r.
          after (ask b (CloseHandle_request (an_handle a))) (\<lambda>_.
          done_with (an_status r, Some (an_data r))))))"

definition Filesystem_NtSetInformationFile ::
    "broker \<Rightarrow> cross_params \<Rightarrow> u64 \<Rightarrow> u64 \<Rightarrow> u32 \<Rightarrow> u64 \<Rightarrow> u32 \<Rightarrow> u32 \<Rightarrow> u32 \<Rightarrow> handled effect" where
  "Filesystem_NtSetInformationFile b p handle status status_size info info_size len info_class =
     (if status_size \<noteq> sizeof_IO_STATUS_BLOCK then done_with (not_serviced (cp_bytes p))
      else if len \<noteq> info_size then done_with (not_serviced (cp_bytes p))
      else
        after (unless_abort (load_param p info (unat info_size))) (\<lambda>rename_info.
        after (unless_abort (IsSupportedRenameCall rename_info len info_class)) (\<lambda>supported.
        if \<not> supported then done_with (not_serviced (cp_bytes p))
        else
          after (unless_abort (rename_name rename_info)) (\<lambda>name.
          after (returning (PreProcessName (bk_windows b) name)) (\<lambda>(ok, name).
          if \<not> ok then done_with (denied (cp_bytes p))
          else
            after (evaluate b IPC_NTSETINFO_RENAME_TAG (file_name_params (c_wstr name))) (\<lambda>result.
            after (SetInformationFileAction b result handle rename_info info_class) (\<lambda>(nt_status, io_status).
            done_with (True, zero_return\<lparr>cr_status := nt_status\<rparr>,
              (case io_status of None \<Rightarrow> cp_bytes p | Some data \<Rightarrow> store_param p status (filled (unat status_size) data))))))))))"

subsection \<open>Registry keys\<close>

text \<open>The path that the policy is asked about.\<close>

definition GetCompletePath :: "windows \<Rightarrow> u64 \<Rightarrow> wstring \<Rightarrow> wstring option" where
  "GetCompletePath w root name =
     (if root \<noteq> 0 then map_option (\<lambda>path. path @ [BACKSLASH] @ name) (GetPathFromHandle w root) else Some name)"

text \<open>The status and the access; closing the handle is checked.\<close>

definition TranslateMaximumAllowed :: "broker \<Rightarrow> u64 \<Rightarrow> wstring \<Rightarrow> u32 \<Rightarrow> u32 \<Rightarrow> (u32 \<times> u32) effect" where
  "TranslateMaximumAllowed b root name attributes access =
     after (ask b (NtOpenKey_request root name attributes access)) (\<lambda>a.
     if \<not> NT_SUCCESS (an_status a) then done_with (an_status a, access)
     else
       after (ask b (NtQueryObject_request (an_handle a))) (\<lambda>q.
       after (ask b (CloseHandle_request (an_handle a))) (\<lambda>c.
       after (unless_abort (check (NT_SUCCESS (an_status c)) ''NtClose'')) (\<lambda>_.
       done_with (if \<not> NT_SUCCESS (an_status q) then (an_status q, access)
         else (STATUS_SUCCESS, ucast (an_info q) AND kAllowedRegFlags))))))"

text \<open>The common part of \<open>NtCreateKeyInTarget\<close> and \<open>NtOpenKeyInTarget\<close>, for the request they make.\<close>

definition key_in_target :: "broker \<Rightarrow> u64 \<Rightarrow> wstring \<Rightarrow> u32 \<Rightarrow> u32 \<Rightarrow> (u32 \<Rightarrow> request) \<Rightarrow> (u32 \<times> u64 \<times> u64 option) effect" where
  "key_in_target b root name attributes desired_access req =
     after (if MAXIMUM_ALLOWED AND desired_access \<noteq> 0 then TranslateMaximumAllowed b root name attributes desired_access
            else done_with (STATUS_SUCCESS, desired_access)) (\<lambda>(status, desired_access).
     if \<not> NT_SUCCESS status then done_with (STATUS_ACCESS_DENIED, 0, None)
     else
       after (ask b (req desired_access)) (\<lambda>a.
       if \<not> NT_SUCCESS (an_status a) then done_with (an_status a, an_info a, None)
       else
         after (duplicate_to_target b (an_handle a) None) (\<lambda>handle.
         case handle of
           None \<Rightarrow> done_with (STATUS_ACCESS_DENIED, an_info a, None)
         | Some h \<Rightarrow> done_with (STATUS_SUCCESS, an_info a, Some h))))"

definition CreateKeyAction ::
    "broker \<Rightarrow> eval_result \<Rightarrow> wstring \<Rightarrow> u32 \<Rightarrow> u64 \<Rightarrow> u32 \<Rightarrow> u32 \<Rightarrow> u32 \<Rightarrow> (u32 \<times> u64 \<times> u64 option) option effect" where
  "CreateKeyAction b eval_result key attributes root_directory desired_access title_index create_options =
     (if eval_result \<noteq> ASK_BROKER then done_with None
      else if create_options \<noteq> 0 then done_with None
      else
        after (key_in_target b root_directory (c_wstr key) attributes desired_access
          (\<lambda>access. NtCreateKey_request root_directory (c_wstr key) attributes access title_index create_options))
          (\<lambda>r. done_with (Some r)))"

definition OpenKeyAction ::
    "broker \<Rightarrow> eval_result \<Rightarrow> wstring \<Rightarrow> u32 \<Rightarrow> u64 \<Rightarrow> u32 \<Rightarrow> (u32 \<times> u64 \<times> u64 option) effect" where
  "OpenKeyAction b eval_result key attributes root_directory desired_access =
     (if eval_result \<noteq> ASK_BROKER then done_with (STATUS_ACCESS_DENIED, 0, None)
      else key_in_target b root_directory (c_wstr key) attributes desired_access
        (NtOpenKey_request root_directory (c_wstr key) attributes))"

text \<open>
  The root of a name is duplicated into the broker before and closed afterwards; the body gets it.
\<close>

definition with_root :: "broker \<Rightarrow> bytes \<Rightarrow> u64 \<Rightarrow> (u64 \<Rightarrow> handled effect) \<Rightarrow> handled effect" where
  "with_root b message root body =
     (if root \<noteq> 0 then
        after (ask b (DuplicateFromTarget root)) (\<lambda>a.
        if an_status a = 0 then done_with (not_serviced message)
        else
          after (body (an_handle a)) (\<lambda>r.
          after (ask b (CloseHandle_request (an_handle a))) (\<lambda>_. done_with r)))
      else body root)"

definition Registry_NtCreateKey ::
    "broker \<Rightarrow> bytes \<Rightarrow> wstring \<Rightarrow> u32 \<Rightarrow> u64 \<Rightarrow> u32 \<Rightarrow> u32 \<Rightarrow> u32 \<Rightarrow> handled effect" where
  "Registry_NtCreateKey b message name attributes root desired_access title_index create_options =
     with_root b message root (\<lambda>root.
     case GetCompletePath (bk_windows b) root name of
       None \<Rightarrow> done_with (not_serviced message)
     | Some real_path \<Rightarrow>
         after (evaluate b IPC_NTCREATEKEY_TAG (named_access_params (c_wstr real_path) desired_access)) (\<lambda>result.
         after (CreateKeyAction b result name attributes root desired_access title_index create_options) (\<lambda>r.
         case r of
           None \<Rightarrow> done_with (denied message)
         | Some r \<Rightarrow> done_with (file_answer b message r))))"

definition Registry_NtOpenKey :: "broker \<Rightarrow> bytes \<Rightarrow> wstring \<Rightarrow> u32 \<Rightarrow> u64 \<Rightarrow> u32 \<Rightarrow> handled effect" where
  "Registry_NtOpenKey b message name attributes root desired_access =
     with_root b message root (\<lambda>root.
     case GetCompletePath (bk_windows b) root name of
       None \<Rightarrow> done_with (not_serviced message)
     | Some real_path \<Rightarrow>
         after (evaluate b IPC_NTOPENKEY_TAG (named_access_params (c_wstr real_path) desired_access)) (\<lambda>result.
         after (OpenKeyAction b result name attributes root desired_access) (\<lambda>(nt_status, _, handle).
         done_with (answer_handle nt_status (case handle of None \<Rightarrow> bk_junk b | Some h \<Rightarrow> h) message))))"

subsection \<open>Events\<close>

text \<open>
  The result of a denied action is \<open>false\<close>, which as a status is \<open>STATUS_SUCCESS\<close>. The handle is \<open>NULL\<close> if it
  was not set.
\<close>

definition event_action :: "broker \<Rightarrow> eval_result \<Rightarrow> (u64 \<Rightarrow> request) \<Rightarrow> (u32 \<times> u64) effect" where
  "event_action b eval_result req =
     (if eval_result \<noteq> ASK_BROKER then done_with (0, 0)
      else
        (let (status, object_directory) = bk_base_named_objects b in
         if status \<noteq> STATUS_SUCCESS then done_with (status, 0)
         else
           after (ask b (req object_directory)) (\<lambda>a.
           if an_handle a = 0 then done_with (an_status a, 0)
           else
             after (duplicate_to_target b (an_handle a) None) (\<lambda>handle.
             case handle of
               None \<Rightarrow> done_with (STATUS_ACCESS_DENIED, 0)
             | Some h \<Rightarrow> done_with (an_status a, h)))))"

definition CreateEventAction :: "broker \<Rightarrow> eval_result \<Rightarrow> wstring \<Rightarrow> u32 \<Rightarrow> u32 \<Rightarrow> (u32 \<times> u64) effect" where
  "CreateEventAction b eval_result event_name event_type initial_state =
     event_action b eval_result (\<lambda>dir. NtCreateEvent_request dir (c_wstr event_name) event_type (ucast initial_state))"

definition OpenEventAction :: "broker \<Rightarrow> eval_result \<Rightarrow> wstring \<Rightarrow> u32 \<Rightarrow> (u32 \<times> u64) effect" where
  "OpenEventAction b eval_result event_name desired_access =
     event_action b eval_result (\<lambda>dir. NtOpenEvent_request dir (c_wstr event_name) desired_access)"

definition Sync_CreateEvent :: "broker \<Rightarrow> bytes \<Rightarrow> wstring \<Rightarrow> u32 \<Rightarrow> u32 \<Rightarrow> handled effect" where
  "Sync_CreateEvent b message name event_type initial_state =
     after (evaluate b IPC_CREATEEVENT_TAG (name_based_params (c_wstr name))) (\<lambda>result.
     after (CreateEventAction b result name event_type initial_state) (\<lambda>(status, handle).
     done_with (answer_handle status handle message)))"

definition Sync_OpenEvent :: "broker \<Rightarrow> bytes \<Rightarrow> wstring \<Rightarrow> u32 \<Rightarrow> handled effect" where
  "Sync_OpenEvent b message name desired_access =
     after (evaluate b IPC_OPENEVENT_TAG (named_access_params (c_wstr name) desired_access)) (\<lambda>result.
     after (OpenEventAction b result name desired_access) (\<lambda>(status, handle).
     done_with (answer_handle status handle message)))"

subsection \<open>Named pipes\<close>

text \<open>\<open>SplitStringPiece\<close> with \<open>TRIM_WHITESPACE\<close> and \<open>SPLIT_WANT_ALL\<close>; no piece for the empty string.\<close>

definition kWhitespace :: "u16 list" where
  "kWhitespace = [0x9, 0xA, 0xB, 0xC, 0xD, 0x20, 0x85, 0xA0, 0x1680, 0x2000, 0x2001, 0x2002, 0x2003, 0x2004, 0x2005, 0x2006,
     0x2007, 0x2008, 0x2009, 0x200A, 0x2028, 0x2029, 0x202F, 0x205F, 0x3000]"

definition TrimWhitespace :: "wstring \<Rightarrow> wstring" where
  "TrimWhitespace s = rev (dropWhile (\<lambda>c. c \<in> set kWhitespace) (rev (dropWhile (\<lambda>c. c \<in> set kWhitespace) s)))"

fun split_at :: "u16 \<Rightarrow> wstring \<Rightarrow> wstring list" where
  "split_at sep [] = [[]]"
| "split_at sep (c # cs) =
     (if c = sep then [] # split_at sep cs
      else (case split_at sep cs of [] \<Rightarrow> [[c]] | piece # rest \<Rightarrow> (c # piece) # rest))"

definition SplitStringPiece :: "u16 \<Rightarrow> wstring \<Rightarrow> wstring list" where
  "SplitStringPiece sep s = (if s = [] then [] else map TrimWhitespace (split_at sep s))"

definition has_dotdot :: "wstring \<Rightarrow> bool" where
  "has_dotdot name \<longleftrightarrow>
     list_ex (\<lambda>path. list_ex (\<lambda>inner. inner = [46, 46]) (SplitStringPiece BACKSLASH path)) (SplitStringPiece SLASH name)"

text \<open>The prefix of the name is changed after the evaluation of the policy.\<close>

definition literal_pipe_name :: "wstring \<Rightarrow> wstring" where
  "literal_pipe_name name =
     (if take 4 name = kNTDotPrefix then [BACKSLASH, BACKSLASH, QUESTION, BACKSLASH] @ drop 4 name else name)"

text \<open>The handle is not set if the action is denied.\<close>

definition CreateNamedPipeAction ::
    "broker \<Rightarrow> eval_result \<Rightarrow> wstring \<Rightarrow> u32 \<Rightarrow> u32 \<Rightarrow> u32 \<Rightarrow> u32 \<Rightarrow> u32 \<Rightarrow> u32 \<Rightarrow> (u32 \<times> u64 option) effect" where
  "CreateNamedPipeAction b eval_result name open_mode pipe_mode max_instances out_buffer_size in_buffer_size default_timeout =
     (if eval_result \<noteq> ASK_BROKER then done_with (ERROR_ACCESS_DENIED, None)
      else
        after (ask b (CreateNamedPipe_request (c_wstr name) open_mode pipe_mode max_instances out_buffer_size in_buffer_size
            default_timeout)) (\<lambda>a.
        if an_handle a = INVALID_HANDLE_VALUE then done_with (ERROR_ACCESS_DENIED, Some INVALID_HANDLE_VALUE)
        else
          after (duplicate_to_target b (an_handle a) None) (\<lambda>handle.
          case handle of
            None \<Rightarrow> done_with (ERROR_ACCESS_DENIED, Some INVALID_HANDLE_VALUE)
          | Some h \<Rightarrow> done_with (if h = INVALID_HANDLE_VALUE then ERROR_ACCESS_DENIED else ERROR_SUCCESS, Some h))))"

definition NamedPipe_CreateNamedPipe ::
    "broker \<Rightarrow> bytes \<Rightarrow> wstring \<Rightarrow> u32 \<Rightarrow> u32 \<Rightarrow> u32 \<Rightarrow> u32 \<Rightarrow> u32 \<Rightarrow> u32 \<Rightarrow> handled effect" where
  "NamedPipe_CreateNamedPipe b message name open_mode pipe_mode max_instances out_buffer_size in_buffer_size default_timeout =
     (if has_dotdot name then done_with (answer_handle ERROR_ACCESS_DENIED INVALID_HANDLE_VALUE message)
      else
        after (evaluate b IPC_CREATENAMEDPIPEW_TAG (name_based_params (c_wstr name))) (\<lambda>eval.
        after (CreateNamedPipeAction b eval (literal_pipe_name name) open_mode pipe_mode max_instances out_buffer_size
          in_buffer_size default_timeout) (\<lambda>(ret, pipe).
        done_with (answer_handle ret (case pipe of None \<Rightarrow> bk_junk b | Some h \<Rightarrow> h) message))))"

subsection \<open>Processes and threads\<close>

abbreviation (input) DOUBLE_QUOTE :: u16 where "DOUBLE_QUOTE \<equiv> 34"
abbreviation (input) SPACE :: u16 where "SPACE \<equiv> 32"

text \<open>The program in a command line: what is in quotes, or the part in front of the first space.\<close>

definition GetPathFromCmdLine :: "wstring \<Rightarrow> wstring" where
  "GetPathFromCmdLine cmd_line =
     (if cmd_line \<noteq> [] \<and> hd cmd_line = DOUBLE_QUOTE
      then (if DOUBLE_QUOTE \<in> set (tl cmd_line) then takeWhile (\<lambda>c. c \<noteq> DOUBLE_QUOTE) (tl cmd_line) else cmd_line)
      else takeWhile (\<lambda>c. c \<noteq> SPACE) cmd_line)"

text \<open>\<open>find\<close> of a string at position 0, and of \<open>":\"\<close> at position 1 but not at 0.\<close>

definition IsPathRelative :: "wstring \<Rightarrow> bool" where
  "IsPathRelative path \<longleftrightarrow>
     \<not> (take 2 path = [BACKSLASH, BACKSLASH] \<or> take 2 path \<noteq> [58, BACKSLASH] \<and> take 2 (drop 1 path) = [58, BACKSLASH])"

definition ConvertToAbsolutePath :: "broker \<Rightarrow> wstring \<Rightarrow> bool \<Rightarrow> wstring \<Rightarrow> wstring option" where
  "ConvertToAbsolutePath b child_current_directory use_env_path path =
     (let first = (if use_env_path then bk_SearchPath b None (c_wstr path) else (0, []));
          (result, file_buffer) = (if fst first = 0 then bk_SearchPath b (Some (c_wstr child_current_directory)) (c_wstr path) else first) in
      if result = 0 \<or> result \<ge> MAX_PATH then None else Some (c_wstr file_buffer))"

definition kProcessRights :: u32 where
  "kProcessRights = SYNCHRONIZE OR 0x400 OR 0x1000 OR 0x1 OR 0x800"

definition kThreadRights :: u32 where
  "kThreadRights = SYNCHRONIZE OR 0x1 OR 0x2 OR 0x40 OR 0x800 OR 0x400"

abbreviation (input) PROCESS_ALL_ACCESS :: u32 where "PROCESS_ALL_ACCESS \<equiv> 0x1FFFFF"
abbreviation (input) THREAD_ALL_ACCESS :: u32 where "THREAD_ALL_ACCESS \<equiv> 0x1FFFFF"

text \<open>Whether it succeeded, and \<open>PROCESS_INFORMATION\<close>, that the kernel fills first.\<close>

definition sizeof_PROCESS_INFORMATION :: u32 where "sizeof_PROCESS_INFORMATION = 24"

definition CreateProcessExWHelper :: "broker \<Rightarrow> bool \<Rightarrow> wstring \<Rightarrow> wstring \<Rightarrow> wstring option \<Rightarrow> (bool \<times> bytes) effect" where
  "CreateProcessExWHelper b give_full_access lpApplicationName lpCommandLine lpCurrentDirectory =
     after (ask b (CreateProcess_request lpApplicationName lpCommandLine lpCurrentDirectory)) (\<lambda>a.
     let ids = take 8 (filled 8 (an_data a)) in
     if an_status a = 0 then done_with (False, filled 24 (an_data a))
     else
       after (duplicate_to_target b (an_handle a) (Some (if give_full_access then PROCESS_ALL_ACCESS else kProcessRights))) (\<lambda>process.
       case process of
         None \<Rightarrow>
           after (ask b (CloseHandle_request (an_handle2 a))) (\<lambda>_.
           done_with (False, le_bytes 8 (an_handle a) @ le_bytes 8 (an_handle2 a) @ ids))
       | Some hProcess \<Rightarrow>
           after (duplicate_to_target b (an_handle2 a) (Some (if give_full_access then THREAD_ALL_ACCESS else kThreadRights)))
             (\<lambda>thread.
           case thread of
             None \<Rightarrow> done_with (False, le_bytes 8 hProcess @ le_bytes 8 (an_handle2 a) @ ids)
           | Some hThread \<Rightarrow> done_with (True, le_bytes 8 hProcess @ le_bytes 8 hThread @ ids))))"

text \<open>The last error, and what is written to the buffer.\<close>

definition CreateProcessWAction :: "broker \<Rightarrow> eval_result \<Rightarrow> wstring \<Rightarrow> wstring \<Rightarrow> wstring \<Rightarrow> (u32 \<times> bytes option) effect" where
  "CreateProcessWAction b eval_result app_name command_line current_dir =
     (if eval_result \<noteq> GIVE_ALLACCESS \<and> eval_result \<noteq> GIVE_READONLY then done_with (ERROR_ACCESS_DENIED, None)
      else
        after (CreateProcessExWHelper b (eval_result = GIVE_ALLACCESS) (c_wstr app_name) (c_wstr command_line)
          (if current_dir = [] then None else Some (c_wstr current_dir))) (\<lambda>(ok, process_info).
        done_with (if ok then ERROR_SUCCESS else ERROR_ACCESS_DENIED, Some process_info)))"

definition ThreadProcess_CreateProcessW ::
    "broker \<Rightarrow> cross_params \<Rightarrow> wstring \<Rightarrow> wstring \<Rightarrow> wstring \<Rightarrow> wstring \<Rightarrow> u64 \<Rightarrow> u32 \<Rightarrow> handled effect" where
  "ThreadProcess_CreateProcessW b p name cmd_line cur_dir target_cur_dir info info_size =
     (if info_size \<noteq> sizeof_PROCESS_INFORMATION then done_with (not_serviced (cp_bytes p))
      else
        (let exe_name = (if name \<noteq> [] then name else GetPathFromCmdLine cmd_line);
             absolute = (if IsPathRelative exe_name then ConvertToAbsolutePath b cur_dir (name = []) exe_name else Some exe_name) in
         case absolute of
           None \<Rightarrow> done_with (True, zero_return\<lparr>cr_status := ERROR_FILE_NOT_FOUND\<rparr>, cp_bytes p)
         | Some exe_name \<Rightarrow>
             after (evaluate b IPC_CREATEPROCESSW_TAG (name_based_params (c_wstr exe_name))) (\<lambda>eval.
             after (CreateProcessWAction b eval exe_name cmd_line target_cur_dir) (\<lambda>(ret, proc_info).
             done_with (True, zero_return\<lparr>cr_status := ret\<rparr>,
               (case proc_info of None \<Rightarrow> cp_bytes p | Some data \<Rightarrow> store_param p info data))))))"

text \<open>Opening the client's own threads, process and token: the request, then the duplication.\<close>

definition open_own :: "broker \<Rightarrow> request \<Rightarrow> (u32 \<times> u64) effect" where
  "open_own b req =
     after (ask b req) (\<lambda>a.
     if NT_SUCCESS (an_status a) then
       after (duplicate_to_target b (an_handle a) None) (\<lambda>handle.
       case handle of None \<Rightarrow> done_with (STATUS_ACCESS_DENIED, 0) | Some h \<Rightarrow> done_with (an_status a, h))
     else done_with (an_status a, 0))"

definition OpenThreadAction :: "broker \<Rightarrow> u32 \<Rightarrow> u32 \<Rightarrow> (u32 \<times> u64) effect" where
  "OpenThreadAction b desired_access thread_id = open_own b (NtOpenThread_request desired_access (bk_process_id b) thread_id)"

definition OpenProcessAction :: "broker \<Rightarrow> u32 \<Rightarrow> u32 \<Rightarrow> (u32 \<times> u64) effect" where
  "OpenProcessAction b desired_access process_id =
     (if bk_process_id b \<noteq> process_id then done_with (STATUS_ACCESS_DENIED, 0)
      else open_own b (NtOpenProcess_request desired_access (bk_process_id b)))"

definition OpenProcessTokenAction :: "broker \<Rightarrow> u64 \<Rightarrow> u32 \<Rightarrow> (u32 \<times> u64) effect" where
  "OpenProcessTokenAction b process desired_access =
     (if process \<noteq> CURRENT_PROCESS then done_with (STATUS_ACCESS_DENIED, 0)
      else open_own b (NtOpenProcessToken_request desired_access))"

definition OpenProcessTokenExAction :: "broker \<Rightarrow> u64 \<Rightarrow> u32 \<Rightarrow> u32 \<Rightarrow> (u32 \<times> u64) effect" where
  "OpenProcessTokenExAction b process desired_access attributes =
     (if process \<noteq> CURRENT_PROCESS then done_with (STATUS_ACCESS_DENIED, 0)
      else open_own b (NtOpenProcessTokenEx_request desired_access attributes))"

definition CreateThreadAction :: "broker \<Rightarrow> u64 \<Rightarrow> u64 \<Rightarrow> u64 \<Rightarrow> u32 \<Rightarrow> (u32 \<times> u64) effect" where
  "CreateThreadAction b stack_size start_address parameter creation_flags =
     after (ask b (CreateRemoteThread_request stack_size start_address parameter creation_flags)) (\<lambda>a.
     if an_handle a = 0 then done_with (an_status a, bk_junk b)
     else
       after (duplicate_to_target b (an_handle a) None) (\<lambda>handle.
       case handle of None \<Rightarrow> done_with (ERROR_ACCESS_DENIED, bk_junk b) | Some h \<Rightarrow> done_with (ERROR_SUCCESS, h)))"

definition answer_with :: "bytes \<Rightarrow> (u32 \<times> u64) effect \<Rightarrow> handled effect" where
  "answer_with message action = after action (\<lambda>(status, handle). done_with (answer_handle status handle message))"

definition ThreadProcess_CreateThread :: "broker \<Rightarrow> bytes \<Rightarrow> u64 \<Rightarrow> u64 \<Rightarrow> u64 \<Rightarrow> u32 \<Rightarrow> handled effect" where
  "ThreadProcess_CreateThread b message stack_size start_address parameter creation_flags =
     (if start_address = 0 then done_with (not_serviced message)
      else answer_with message (CreateThreadAction b stack_size start_address parameter creation_flags))"

subsection \<open>Pings and all handlers\<close>

definition TopLevel_Ping :: "broker \<Rightarrow> cross_params \<Rightarrow> u32 \<Rightarrow> ipc_arg \<Rightarrow> handled effect" where
  "TopLevel_Ping b p ipc_tag arg1 =
     (if ipc_tag = ipc_tag_code IPC_PING1_TAG then
        (case arg1 of
           IntArg cookie \<Rightarrow>
             done_with (True, zero_return\<lparr>cr_extended_count := 2,
               cr_extended := (cr_extended zero_return)[0 := ucast (bk_tick_count b), 1 := ucast (2 * cookie)]\<rparr>, cp_bytes p)
         | _ \<Rightarrow> unless_abort (Inl (CheckFailed ''type'')))
      else if ipc_tag = ipc_tag_code IPC_PING2_TAG then
        (case arg1 of
           BufferArg io_buffer len \<Rightarrow>
             (if len \<noteq> 4 then done_with (not_serviced (cp_bytes p))
              else
                after (unless_abort (load_param p io_buffer 4)) (\<lambda>bs.
                done_with (True, zero_return, store_param p io_buffer (le_bytes 4 ((le_value bs :: u32) * 3)))))
         | _ \<Rightarrow> unless_abort (Inl (CheckFailed ''type'')))
      else done_with (not_serviced (cp_bytes p)))"

text \<open>
  The call of the handler with its arguments, whose types the dispatch has checked. The handlers of
  \<^verbatim>\<open>process_mitigations_win32k_dispatcher.cc\<close> are a parameter.
\<close>

definition run_handler ::
    "(handler \<Rightarrow> u32 \<Rightarrow> ipc_arg list \<Rightarrow> cross_params \<Rightarrow> handled effect) \<Rightarrow> broker \<Rightarrow> handler \<Rightarrow> u32 \<Rightarrow> ipc_arg list
      \<Rightarrow> cross_params \<Rightarrow> handled effect" where
  "run_handler other b handler tag args p =
     (case handler of
        Ping \<Rightarrow>
          (case args of
             [arg1] \<Rightarrow> TopLevel_Ping b p tag arg1
           | _ \<Rightarrow> unless_abort (Inl (CheckFailed ''type'')))
      | NtCreateFile \<Rightarrow>
          (case args of
             [StringArg name, IntArg attributes, IntArg access, IntArg file_attributes, IntArg share, IntArg disposition, IntArg options] \<Rightarrow>
               Filesystem_NtCreateFile b (cp_bytes p) name attributes access file_attributes share disposition options
           | _ \<Rightarrow> unless_abort (Inl (CheckFailed ''type'')))
      | NtOpenFile \<Rightarrow>
          (case args of
             [StringArg name, IntArg attributes, IntArg access, IntArg share, IntArg options] \<Rightarrow>
               Filesystem_NtOpenFile b (cp_bytes p) name attributes access share options
           | _ \<Rightarrow> unless_abort (Inl (CheckFailed ''type'')))
      | NtQueryAttributesFile \<Rightarrow>
          (case args of
             [StringArg name, IntArg attributes, BufferArg info n] \<Rightarrow>
               Filesystem_NtQueryAttributesFile b p name attributes info n
           | _ \<Rightarrow> unless_abort (Inl (CheckFailed ''type'')))
      | NtQueryFullAttributesFile \<Rightarrow>
          (case args of
             [StringArg name, IntArg attributes, BufferArg info n] \<Rightarrow>
               Filesystem_NtQueryFullAttributesFile b p name attributes info n
           | _ \<Rightarrow> unless_abort (Inl (CheckFailed ''type'')))
      | NtSetInformationFile \<Rightarrow>
          (case args of
             [PtrArg handle, BufferArg status n, BufferArg info m, IntArg len, IntArg info_class] \<Rightarrow>
               Filesystem_NtSetInformationFile b p handle status n info m len info_class
           | _ \<Rightarrow> unless_abort (Inl (CheckFailed ''type'')))
      | CreateNamedPipe \<Rightarrow>
          (case args of
             [StringArg name, IntArg open_mode, IntArg pipe_mode, IntArg instances, IntArg out, IntArg inp, IntArg timeout] \<Rightarrow>
               NamedPipe_CreateNamedPipe b (cp_bytes p) name open_mode pipe_mode instances out inp timeout
           | _ \<Rightarrow> unless_abort (Inl (CheckFailed ''type'')))
      | NtOpenThread \<Rightarrow>
          (case args of
             [IntArg access, IntArg thread_id] \<Rightarrow>
               answer_with (cp_bytes p) (OpenThreadAction b access thread_id)
           | _ \<Rightarrow> unless_abort (Inl (CheckFailed ''type'')))
      | NtOpenProcess \<Rightarrow>
          (case args of
             [IntArg access, IntArg process_id] \<Rightarrow>
               answer_with (cp_bytes p) (OpenProcessAction b access process_id)
           | _ \<Rightarrow> unless_abort (Inl (CheckFailed ''type'')))
      | NtOpenProcessToken \<Rightarrow>
          (case args of
             [PtrArg process, IntArg access] \<Rightarrow>
               answer_with (cp_bytes p) (OpenProcessTokenAction b process access)
           | _ \<Rightarrow> unless_abort (Inl (CheckFailed ''type'')))
      | NtOpenProcessTokenEx \<Rightarrow>
          (case args of
             [PtrArg process, IntArg access, IntArg attributes] \<Rightarrow>
               answer_with (cp_bytes p) (OpenProcessTokenExAction b process access attributes)
           | _ \<Rightarrow> unless_abort (Inl (CheckFailed ''type'')))
      | CreateProcessW \<Rightarrow>
          (case args of
             [StringArg name, StringArg cmd_line, StringArg cur_dir, StringArg target_cur_dir, BufferArg info n] \<Rightarrow>
               ThreadProcess_CreateProcessW b p name cmd_line cur_dir target_cur_dir info n
           | _ \<Rightarrow> unless_abort (Inl (CheckFailed ''type'')))
      | CreateThread \<Rightarrow>
          (case args of
             [PtrArg stack_size, PtrArg start_address, PtrArg parameter, IntArg flags] \<Rightarrow>
               ThreadProcess_CreateThread b (cp_bytes p) stack_size start_address parameter flags
           | _ \<Rightarrow> unless_abort (Inl (CheckFailed ''type'')))
      | CreateEvent \<Rightarrow>
          (case args of
             [StringArg name, IntArg event_type, IntArg initial_state] \<Rightarrow>
               Sync_CreateEvent b (cp_bytes p) name event_type initial_state
           | _ \<Rightarrow> unless_abort (Inl (CheckFailed ''type'')))
      | OpenEvent \<Rightarrow>
          (case args of
             [StringArg name, IntArg access] \<Rightarrow>
               Sync_OpenEvent b (cp_bytes p) name access
           | _ \<Rightarrow> unless_abort (Inl (CheckFailed ''type'')))
      | NtCreateKey \<Rightarrow>
          (case args of
             [StringArg name, IntArg attributes, PtrArg root, IntArg access, IntArg title, IntArg options] \<Rightarrow>
               Registry_NtCreateKey b (cp_bytes p) name attributes root access title options
           | _ \<Rightarrow> unless_abort (Inl (CheckFailed ''type'')))
      | NtOpenKey \<Rightarrow>
          (case args of
             [StringArg name, IntArg attributes, PtrArg root, IntArg access] \<Rightarrow>
               Registry_NtOpenKey b (cp_bytes p) name attributes root access
           | _ \<Rightarrow> unless_abort (Inl (CheckFailed ''type'')))
      | _ \<Rightarrow> other handler tag args p)"

end
