(* ===== verification/Win_Handlers_Correct.thy ===== *)
theory Win_Handlers_Correct
  imports Win_Handlers
begin

text \<open>
  What the handlers of the Windows broker guarantee: every request to the kernel is authorised by a rule
  of the embedder, what gets into the client was opened for it, and every call is answered.
\<close>

subsection \<open>Runs of effects\<close>

named_theorems effect_simps "what an effect that returns has done"

lemma done_with_returns [effect_simps]: "done_with x tr = Some (Inr (y, tr')) \<longleftrightarrow> y = x \<and> tr' = tr"
  by (auto simp: done_with_def)

lemma after_returns [effect_simps]:
  "after m f tr = Some (Inr r) \<longleftrightarrow> (\<exists>x tr1. m tr = Some (Inr (x, tr1)) \<and> f x tr1 = Some (Inr r))"
  by (auto simp: after_def split: option.splits sum.splits)

lemma returning_returns [effect_simps]: "returning m tr = Some (Inr (x, tr')) \<longleftrightarrow> m = Some x \<and> tr' = tr"
  by (auto simp: returning_def)

lemma unless_abort_returns [effect_simps]: "unless_abort m tr = Some (Inr (x, tr')) \<longleftrightarrow> m = Inr x \<and> tr' = tr"
  by (auto simp: unless_abort_def res_bind_eq_Inr)

lemma ask_returns [effect_simps]: "ask b req tr = Some (Inr (a, tr')) \<longleftrightarrow> a = bk_kernel b tr req \<and> tr' = (req, a) # tr"
  by (auto simp: ask_def)

lemma duplicate_returns [effect_simps]:
  "duplicate_to_target b h access tr = Some (Inr (r, tr')) \<longleftrightarrow>
    (\<exists>a. tr' = (DuplicateToTarget h access, a) # tr \<and> a = bk_kernel b tr (DuplicateToTarget h access)
      \<and> r = (if an_status a = 0 then None else Some (an_handle a)))"
  by (auto simp: duplicate_to_target_def after_returns ask_returns done_with_returns)

lemma evaluate_returns [effect_simps]:
  "evaluate b tag params tr = Some (Inr (x, tr')) \<longleftrightarrow> EvalPolicy (bk_compare b) (bk_policy b) tag params = Inr x \<and> tr' = tr"
  by (simp add: evaluate_def unless_abort_returns)

subsection \<open>Which requests are authorised\<close>

text \<open>A path that the check of reparse points accepts.\<close>

definition checked_path :: "windows \<Rightarrow> wstring \<Rightarrow> bool" where
  "checked_path w path \<longleftrightarrow>
     IsPipe w path
     \<or> (StartsWithDriveLetter (snd (IsNTPath path)) \<or> fst (IsNTPath path) \<or> fst (IsDevicePath w path))
       \<and> (\<forall>q \<in> ancestors (\<not> StartsWithDriveLetter (snd (IsNTPath path))) (native_path w path). \<not> is_reparse_point w q)"

definition checked_name :: "windows \<Rightarrow> wstring \<Rightarrow> bool" where
  "checked_name w name \<longleftrightarrow> (\<exists>path. name = c_wstr path \<and> checked_path w path)"

text \<open>A rule of a subsystem whose pattern the name matches and whose semantics allow the rest.\<close>

definition granted :: "broker \<Rightarrow> user_rule list \<Rightarrow> subsystem \<Rightarrow> (semantics \<Rightarrow> bool) \<Rightarrow> wstring \<Rightarrow> bool" where
  "granted b rules subsystem allowed name \<longleftrightarrow>
     (\<exists>semantics pattern. (subsystem, semantics, pattern) \<in> set rules \<and> allowed semantics
        \<and> rule_matches (bk_compare b) (bk_windows b) subsystem pattern name)"

text \<open>
  A key is opened with the access that was asked for, with \<open>MAXIMUM_ALLOWED\<close> to find out what that is, or
  with a part of the flags for reading that was found out.
\<close>

definition key_granted :: "broker \<Rightarrow> user_rule list \<Rightarrow> u64 \<Rightarrow> wstring \<Rightarrow> u32 \<Rightarrow> bool" where
  "key_granted b rules root name access \<longleftrightarrow>
     (\<exists>key path asked. name = c_wstr key \<and> GetCompletePath (bk_windows b) root key = Some path
        \<and> granted b rules SUBSYS_REGISTRY (\<lambda>s. registry_allowed s asked) (c_wstr path)
        \<and> (access = asked \<or> asked AND MAXIMUM_ALLOWED \<noteq> 0 \<and> access AND NOT kAllowedRegFlags = 0))"

definition decided :: "broker \<Rightarrow> user_rule list \<Rightarrow> wstring \<Rightarrow> eval_result" where
  "decided b rules name = process_decision (bk_compare b) (bk_windows b) rules name"

text \<open>
  What may be duplicated into the target, after what was just done: the handle that was just opened, of a file only if it is the
  object of the path, of a key only if its access was spelled out, of a process and its thread
  with few rights unless the rule gives all.
\<close>

definition may_duplicate :: "broker \<Rightarrow> user_rule list \<Rightarrow> trace \<Rightarrow> u64 \<Rightarrow> u32 option \<Rightarrow> bool" where
  "may_duplicate b rules tr handle access \<longleftrightarrow>
     (case tr of
        [] \<Rightarrow> False
      | (req, a) # before \<Rightarrow>
          (case req of
             NtCreateFile_request name _ _ _ _ _ _ _ \<Rightarrow>
               handle = an_handle a \<and> access = None \<and> NT_SUCCESS (an_status a) \<and> SameObject (bk_windows b) handle name
           | NtCreateKey_request _ _ _ key_access _ _ \<Rightarrow> handle = an_handle a \<and> access = None \<and> key_access AND MAXIMUM_ALLOWED = 0
           | NtOpenKey_request _ _ _ key_access \<Rightarrow> handle = an_handle a \<and> access = None \<and> key_access AND MAXIMUM_ALLOWED = 0
           | NtCreateEvent_request _ _ _ _ \<Rightarrow> handle = an_handle a \<and> access = None
           | NtOpenEvent_request _ _ _ \<Rightarrow> handle = an_handle a \<and> access = None
           | CreateNamedPipe_request _ _ _ _ _ _ _ \<Rightarrow> handle = an_handle a \<and> access = None
           | NtOpenThread_request _ _ _ \<Rightarrow> handle = an_handle a \<and> access = None
           | NtOpenProcess_request _ _ \<Rightarrow> handle = an_handle a \<and> access = None
           | NtOpenProcessToken_request _ \<Rightarrow> handle = an_handle a \<and> access = None
           | NtOpenProcessTokenEx_request _ _ \<Rightarrow> handle = an_handle a \<and> access = None
           | CreateRemoteThread_request _ _ _ _ \<Rightarrow> handle = an_handle a \<and> access = None
           | CreateProcess_request app _ _ \<Rightarrow> handle = an_handle a
               \<and> access = Some (if decided b rules app = GIVE_ALLACCESS then PROCESS_ALL_ACCESS else kProcessRights)
           | DuplicateToTarget _ _ \<Rightarrow>
               (case before of
                  (CreateProcess_request app _ _, p) # _ \<Rightarrow> handle = an_handle2 p
                    \<and> access = Some (if decided b rules app = GIVE_ALLACCESS then THREAD_ALL_ACCESS else kThreadRights)
                | _ \<Rightarrow> False)
           | _ \<Rightarrow> False))"

definition authorised :: "broker \<Rightarrow> user_rule list \<Rightarrow> trace \<Rightarrow> request \<Rightarrow> bool" where
  "authorised b rules tr req \<longleftrightarrow>
     (case req of
        NtCreateFile_request name _ access _ _ disposition options _ \<Rightarrow>
          checked_name (bk_windows b) name
          \<and> granted b rules SUBSYS_FILES (\<lambda>s. file_open_allowed s access disposition options) name
      | NtQueryAttributesFile_request name _ _ \<Rightarrow>
          checked_name (bk_windows b) name \<and> granted b rules SUBSYS_FILES (\<lambda>_. True) name
      | NtQueryFullAttributesFile_request name _ _ \<Rightarrow>
          checked_name (bk_windows b) name \<and> granted b rules SUBSYS_FILES (\<lambda>_. True) name
      | NtSetInformationFile_request handle file_info info_class \<Rightarrow>
          info_class = FileRenameInformation
          \<and> (\<exists>target a. tr \<noteq> [] \<and> hd tr = (DuplicateFromTarget target, a) \<and> handle = an_handle a)
          \<and> (\<exists>name path. rename_name file_info = Inr name \<and> PreProcessName (bk_windows b) name = Some (True, path)
               \<and> granted b rules SUBSYS_FILES (\<lambda>s. s = FILES_ALLOW_ANY \<or> s = FILES_ALLOW_DIR_ANY) (c_wstr path))
      | NtCreateKey_request root name _ access _ options \<Rightarrow> options = 0 \<and> key_granted b rules root name access
      | NtOpenKey_request root name _ access \<Rightarrow> key_granted b rules root name access
      | NtCreateEvent_request _ name _ _ \<Rightarrow> granted b rules SUBSYS_SYNC (\<lambda>s. s = EVENTS_ALLOW_ANY) name
      | NtOpenEvent_request _ name access \<Rightarrow> granted b rules SUBSYS_SYNC (\<lambda>s. event_allowed s access) name
      | CreateNamedPipe_request name _ _ _ _ _ _ \<Rightarrow>
          (\<exists>pipe. name = c_wstr (literal_pipe_name pipe) \<and> \<not> has_dotdot pipe
             \<and> granted b rules SUBSYS_NAMED_PIPES (\<lambda>_. True) (c_wstr pipe))
      | CreateProcess_request app _ _ \<Rightarrow> decided b rules app = GIVE_READONLY \<or> decided b rules app = GIVE_ALLACCESS
      | NtOpenThread_request _ process_id _ \<Rightarrow> process_id = bk_process_id b
      | NtOpenProcess_request _ process_id \<Rightarrow> process_id = bk_process_id b
      | CreateRemoteThread_request _ start_address _ _ \<Rightarrow> start_address \<noteq> 0
      | DuplicateToTarget handle access \<Rightarrow> may_duplicate b rules tr handle access
      | CloseHandle_request handle \<Rightarrow> (\<exists>(req, a) \<in> set tr. handle = an_handle a \<or> handle = an_handle2 a)
      | _ \<Rightarrow> True)"

fun authorised_run :: "broker \<Rightarrow> user_rule list \<Rightarrow> trace \<Rightarrow> bool" where
  "authorised_run b rules [] \<longleftrightarrow> True"
| "authorised_run b rules ((req, a) # tr) \<longleftrightarrow> authorised b rules tr req \<and> authorised_run b rules tr"

lemmas authorised_simps = authorised_def may_duplicate_def

subsection \<open>Files\<close>


text \<open>
  The hypotheses about the broker; \<open>policy_from\<close> restricts the rules to patterns without an unescaped \<open>?\<close> that are
  not only stars.
\<close>

definition broker_ok :: "broker \<Rightarrow> user_rule list \<Rightarrow> token_level \<Rightarrow> bool" where
  "broker_ok b rules level \<longleftrightarrow> policy_from (bk_windows b) level rules (bk_policy b) \<and> windows_ok (bk_windows b)"

lemma evaluate_granted:
  assumes "broker_ok b rules level"
  shows "tag \<in> {IPC_NTCREATEFILE_TAG, IPC_NTOPENFILE_TAG} \<Longrightarrow>
      EvalPolicy (bk_compare b) (bk_policy b) tag (open_file_params name access disposition options) = Inr ASK_BROKER \<longleftrightarrow>
      granted b rules SUBSYS_FILES (\<lambda>s. file_open_allowed s access disposition options) name"
    and "tag \<in> {IPC_NTQUERYATTRIBUTESFILE_TAG, IPC_NTQUERYFULLATTRIBUTESFILE_TAG} \<Longrightarrow>
      EvalPolicy (bk_compare b) (bk_policy b) tag (file_name_params name) = Inr ASK_BROKER \<longleftrightarrow>
      granted b rules SUBSYS_FILES (\<lambda>_. True) name"
    and "EvalPolicy (bk_compare b) (bk_policy b) IPC_NTSETINFO_RENAME_TAG (file_name_params name) = Inr ASK_BROKER \<longleftrightarrow>
      granted b rules SUBSYS_FILES (\<lambda>s. s = FILES_ALLOW_ANY \<or> s = FILES_ALLOW_DIR_ANY) name"
    and "tag \<in> {IPC_NTCREATEKEY_TAG, IPC_NTOPENKEY_TAG} \<Longrightarrow>
      EvalPolicy (bk_compare b) (bk_policy b) tag (named_access_params name access) = Inr ASK_BROKER \<longleftrightarrow>
      granted b rules SUBSYS_REGISTRY (\<lambda>s. registry_allowed s access) name"
    and "EvalPolicy (bk_compare b) (bk_policy b) IPC_OPENEVENT_TAG (named_access_params name access) = Inr ASK_BROKER \<longleftrightarrow>
      granted b rules SUBSYS_SYNC (\<lambda>s. event_allowed s access) name"
    and "EvalPolicy (bk_compare b) (bk_policy b) IPC_CREATEEVENT_TAG (name_based_params name) = Inr ASK_BROKER \<longleftrightarrow>
      granted b rules SUBSYS_SYNC (\<lambda>s. s = EVENTS_ALLOW_ANY) name"
    and "EvalPolicy (bk_compare b) (bk_policy b) IPC_CREATENAMEDPIPEW_TAG (name_based_params name) = Inr ASK_BROKER \<longleftrightarrow>
      granted b rules SUBSYS_NAMED_PIPES (\<lambda>_. True) name"
    and "EvalPolicy (bk_compare b) (bk_policy b) IPC_CREATEPROCESSW_TAG (name_based_params name) = Inr (decided b rules name)"
proof -
  have p: "policy_from (bk_windows b) level rules (bk_policy b)" using assms by (simp add: broker_ok_def)
  show "tag \<in> {IPC_NTCREATEFILE_TAG, IPC_NTOPENFILE_TAG} \<Longrightarrow>
      EvalPolicy (bk_compare b) (bk_policy b) tag (open_file_params name access disposition options) = Inr ASK_BROKER \<longleftrightarrow>
      granted b rules SUBSYS_FILES (\<lambda>s. file_open_allowed s access disposition options) name"
    by (simp add: EvalPolicy_open_file [OF p] granted_def)
  show "tag \<in> {IPC_NTQUERYATTRIBUTESFILE_TAG, IPC_NTQUERYFULLATTRIBUTESFILE_TAG} \<Longrightarrow>
      EvalPolicy (bk_compare b) (bk_policy b) tag (file_name_params name) = Inr ASK_BROKER \<longleftrightarrow>
      granted b rules SUBSYS_FILES (\<lambda>_. True) name"
    by (simp add: EvalPolicy_queries [OF p] granted_def)
  show "EvalPolicy (bk_compare b) (bk_policy b) IPC_NTSETINFO_RENAME_TAG (file_name_params name) = Inr ASK_BROKER \<longleftrightarrow>
      granted b rules SUBSYS_FILES (\<lambda>s. s = FILES_ALLOW_ANY \<or> s = FILES_ALLOW_DIR_ANY) name"
    by (simp add: EvalPolicy_rename [OF p] granted_def)
  show "tag \<in> {IPC_NTCREATEKEY_TAG, IPC_NTOPENKEY_TAG} \<Longrightarrow>
      EvalPolicy (bk_compare b) (bk_policy b) tag (named_access_params name access) = Inr ASK_BROKER \<longleftrightarrow>
      granted b rules SUBSYS_REGISTRY (\<lambda>s. registry_allowed s access) name"
    by (simp add: EvalPolicy_registry [OF p] granted_def)
  show "EvalPolicy (bk_compare b) (bk_policy b) IPC_OPENEVENT_TAG (named_access_params name access) = Inr ASK_BROKER \<longleftrightarrow>
      granted b rules SUBSYS_SYNC (\<lambda>s. event_allowed s access) name"
    by (simp add: EvalPolicy_open_event [OF p] granted_def)
  show "EvalPolicy (bk_compare b) (bk_policy b) IPC_CREATEEVENT_TAG (name_based_params name) = Inr ASK_BROKER \<longleftrightarrow>
      granted b rules SUBSYS_SYNC (\<lambda>s. s = EVENTS_ALLOW_ANY) name"
    by (simp add: EvalPolicy_create_event [OF p] granted_def)
  show "EvalPolicy (bk_compare b) (bk_policy b) IPC_CREATENAMEDPIPEW_TAG (name_based_params name) = Inr ASK_BROKER \<longleftrightarrow>
      granted b rules SUBSYS_NAMED_PIPES (\<lambda>_. True) name"
    by (simp add: EvalPolicy_pipes [OF p] granted_def)
  show "EvalPolicy (bk_compare b) (bk_policy b) IPC_CREATEPROCESSW_TAG (name_based_params name) = Inr (decided b rules name)"
    by (simp add: EvalPolicy_processes [OF p] decided_def)
qed

lemma NtCreateFileInTarget_run:
  assumes "NtCreateFileInTarget b access (c_wstr path) attributes qos fa share disposition options tr = Some (Inr (r, tr'))"
    and "checked_name (bk_windows b) (c_wstr path)"
    and "granted b rules SUBSYS_FILES (\<lambda>s. file_open_allowed s access disposition options) (c_wstr path)" and "authorised_run b rules tr"
  shows "authorised_run b rules tr'"
  using assms unfolding NtCreateFileInTarget_def
  by (auto simp: effect_simps authorised_simps split: if_splits option.splits)

lemma preprocessed:
  assumes "broker_ok b rules level" and "PreProcessName (bk_windows b) name = Some (True, path)"
  shows "checked_name (bk_windows b) (c_wstr path)"
  using accepted_path assms unfolding broker_ok_def checked_name_def checked_path_def by blast

lemma Filesystem_NtCreateFile_run:
  assumes "Filesystem_NtCreateFile b message name attributes access fa share disposition options tr = Some (Inr (r, tr'))"
    and "broker_ok b rules level" and "authorised_run b rules tr"
  shows "authorised_run b rules tr'"
  using assms(1,3) preprocessed [OF assms(2)]
  by (auto simp: Filesystem_NtCreateFile_def CreateFileAction_def effect_simps evaluate_granted [OF assms(2)]
      split: if_splits option.splits intro: NtCreateFileInTarget_run)

lemma Filesystem_NtOpenFile_run:
  assumes "Filesystem_NtOpenFile b message name attributes access share options tr = Some (Inr (r, tr'))"
    and "broker_ok b rules level" and "authorised_run b rules tr"
  shows "authorised_run b rules tr'"
  using assms(1,3) preprocessed [OF assms(2)]
  by (auto simp: Filesystem_NtOpenFile_def OpenFileAction_def effect_simps evaluate_granted [OF assms(2)]
      split: if_splits option.splits intro: NtCreateFileInTarget_run)

lemma Filesystem_query_run:
  assumes "Filesystem_NtQueryAttributesFile b p name attributes info n tr = Some (Inr (r, tr'))
      \<or> Filesystem_NtQueryFullAttributesFile b p name attributes info n tr = Some (Inr (r, tr'))"
    and "broker_ok b rules level" and "authorised_run b rules tr"
  shows "authorised_run b rules tr'"
  using assms(1,3) preprocessed [OF assms(2)]
  by (auto simp: Filesystem_NtQueryAttributesFile_def Filesystem_NtQueryFullAttributesFile_def effect_simps authorised_simps
      evaluate_granted [OF assms(2)] split: if_splits)

lemma rename_class: "IsSupportedRenameCall info len info_class = Inr True \<Longrightarrow> info_class = FileRenameInformation"
  by (auto simp: IsSupportedRenameCall_def split: if_splits)

lemma Filesystem_NtSetInformationFile_run:
  assumes "Filesystem_NtSetInformationFile b p handle status n info m len info_class tr = Some (Inr (r, tr'))"
    and "broker_ok b rules level" and "authorised_run b rules tr"
  shows "authorised_run b rules tr'"
  using assms(1,3) rename_class
  by (auto simp: Filesystem_NtSetInformationFile_def SetInformationFileAction_def effect_simps authorised_simps
      evaluate_granted [OF assms(2)] split: if_splits)

subsection \<open>Registry keys\<close>

lemma kAllowedRegFlags_simps: "kAllowedRegFlags AND MAXIMUM_ALLOWED = 0" "x AND kAllowedRegFlags AND NOT kAllowedRegFlags = 0"
  by (simp_all add: kAllowedRegFlags_def and.assoc)

lemma translated_access: "(x AND kAllowedRegFlags) AND MAXIMUM_ALLOWED = 0" "(x AND kAllowedRegFlags) AND NOT kAllowedRegFlags = 0"
  by (simp_all add: and.assoc kAllowedRegFlags_simps)

lemma key_grantedI:
  assumes "granted b rules SUBSYS_REGISTRY (\<lambda>s. registry_allowed s asked) (c_wstr path)"
    and "GetCompletePath (bk_windows b) root key = Some path"
  shows "key_granted b rules root (c_wstr key) asked"
    and "MAXIMUM_ALLOWED AND asked \<noteq> 0 \<Longrightarrow> key_granted b rules root (c_wstr key) (x AND kAllowedRegFlags)"
  using assms translated_access(2) [of x] unfolding key_granted_def by (auto simp: and.commute [of MAXIMUM_ALLOWED])

lemma key_in_target_run:
  assumes "key_in_target b root (c_wstr key) attributes asked req tr = Some (Inr (r, tr'))"
    and "granted b rules SUBSYS_REGISTRY (\<lambda>s. registry_allowed s asked) (c_wstr path)"
    and "GetCompletePath (bk_windows b) root key = Some path" and "authorised_run b rules tr"
    and "\<And>tr access. key_granted b rules root (c_wstr key) access \<Longrightarrow> authorised b rules tr (req access)"
    and "\<And>tr access a. access AND MAXIMUM_ALLOWED = 0 \<Longrightarrow> may_duplicate b rules ((req access, a) # tr) (an_handle a) None"
  shows "authorised_run b rules tr'"
proof -
  note granted = key_grantedI [OF assms(2,3)]
  have dup: "authorised b rules ((req access, a) # tr) (DuplicateToTarget (an_handle a) None)"
    if "access AND MAXIMUM_ALLOWED = 0" for access a tr using assms(6) [OF that] by (simp add: authorised_def)
  have "authorised b rules tr (NtOpenKey_request root (c_wstr key) attributes asked)" for tr
    using granted(1) by (simp add: authorised_def)
  then show ?thesis
    using assms(1,4,5) granted dup translated_access(1)
    by (auto simp: key_in_target_def TranslateMaximumAllowed_def effect_simps check_def and.commute [of MAXIMUM_ALLOWED]
        authorised_def [of b rules _ "NtQueryObject_request _"] authorised_def [of b rules _ "CloseHandle_request _"]
        split: if_splits option.splits)
qed

lemma with_root_run:
  assumes "with_root b message root body tr = Some (Inr (r, tr'))" and "authorised_run b rules tr"
    and "\<And>root r tr tr'. body root tr = Some (Inr (r, tr')) \<Longrightarrow> authorised_run b rules tr \<Longrightarrow> authorised_run b rules tr' \<and> set tr \<subseteq> set tr'"
  shows "authorised_run b rules tr'"
proof (cases "root = 0")
  case True
  then show ?thesis using assms by (auto simp: with_root_def)
next
  case False
  let ?a = "bk_kernel b tr (DuplicateFromTarget root)"
  have start: "authorised_run b rules ((DuplicateFromTarget root, ?a) # tr)" using assms(2) by (simp add: authorised_def)
  show ?thesis
  proof (cases "an_status ?a = 0")
    case True
    then show ?thesis using assms(1) False start by (auto simp: with_root_def effect_simps)
  next
    case ok: False
    then obtain tr2 where body: "body (an_handle ?a) ((DuplicateFromTarget root, ?a) # tr) = Some (Inr (r, tr2))"
      "tr' = (CloseHandle_request (an_handle ?a), bk_kernel b tr2 (CloseHandle_request (an_handle ?a))) # tr2"
      using assms(1) False by (auto simp: with_root_def effect_simps)
    then show ?thesis using assms(3) [OF body(1) start] by (force simp: authorised_def)
  qed
qed

lemma key_in_target_grows: "key_in_target b root name attributes asked req tr = Some (Inr (r, tr')) \<Longrightarrow> set tr \<subseteq> set tr'"
  by (auto simp: key_in_target_def TranslateMaximumAllowed_def effect_simps split: if_splits option.splits)

lemma Registry_NtCreateKey_run:
  assumes "Registry_NtCreateKey b message name attributes root access title options tr = Some (Inr (r, tr'))"
    and ok: "broker_ok b rules level" and "authorised_run b rules tr"
  shows "authorised_run b rules tr'"
proof (rule with_root_run [OF assms(1) [unfolded Registry_NtCreateKey_def] assms(3)])
  fix root r tr tr'
  assume run: "(case GetCompletePath (bk_windows b) root name of
       None \<Rightarrow> done_with (not_serviced message)
     | Some real_path \<Rightarrow>
         after (evaluate b IPC_NTCREATEKEY_TAG (named_access_params (c_wstr real_path) access)) (\<lambda>result.
         after (CreateKeyAction b result name attributes root access title options) (\<lambda>r.
         case r of None \<Rightarrow> done_with (denied message) | Some r \<Rightarrow> done_with (file_answer b message r)))) tr = Some (Inr (r, tr'))"
    and start: "authorised_run b rules tr"
  have key: "authorised_run b rules tr1" if "key_in_target b root (c_wstr name) attributes access
        (\<lambda>access. NtCreateKey_request root (c_wstr name) attributes access title 0) tr = Some (Inr (x, tr1))"
      "GetCompletePath (bk_windows b) root name = Some path"
      "granted b rules SUBSYS_REGISTRY (\<lambda>s. registry_allowed s access) (c_wstr path)" for x tr1 path
    by (rule key_in_target_run [OF that(1,3,2) start]) (simp_all add: authorised_simps)
  show "authorised_run b rules tr' \<and> set tr \<subseteq> set tr'"
    using run start
    by (auto simp: CreateKeyAction_def effect_simps evaluate_granted [OF ok] split: if_splits option.splits
        intro: key key_in_target_grows [THEN subsetD])
qed

lemma Registry_NtOpenKey_run:
  assumes "Registry_NtOpenKey b message name attributes root access tr = Some (Inr (r, tr'))"
    and ok: "broker_ok b rules level" and "authorised_run b rules tr"
  shows "authorised_run b rules tr'"
proof (rule with_root_run [OF assms(1) [unfolded Registry_NtOpenKey_def] assms(3)])
  fix root r tr tr'
  assume run: "(case GetCompletePath (bk_windows b) root name of
       None \<Rightarrow> done_with (not_serviced message)
     | Some real_path \<Rightarrow>
         after (evaluate b IPC_NTOPENKEY_TAG (named_access_params (c_wstr real_path) access)) (\<lambda>result.
         after (OpenKeyAction b result name attributes root access) (\<lambda>(nt_status, _, handle).
         done_with (answer_handle nt_status (case handle of None \<Rightarrow> bk_junk b | Some h \<Rightarrow> h) message)))) tr = Some (Inr (r, tr'))"
    and start: "authorised_run b rules tr"
  have key: "authorised_run b rules tr1" if "key_in_target b root (c_wstr name) attributes access
        (NtOpenKey_request root (c_wstr name) attributes) tr = Some (Inr (x, tr1))"
      "GetCompletePath (bk_windows b) root name = Some path"
      "granted b rules SUBSYS_REGISTRY (\<lambda>s. registry_allowed s access) (c_wstr path)" for x tr1 path
    by (rule key_in_target_run [OF that(1,3,2) start]) (simp_all add: authorised_simps)
  show "authorised_run b rules tr' \<and> set tr \<subseteq> set tr'"
    using run start
    by (auto simp: OpenKeyAction_def effect_simps evaluate_granted [OF ok] split: if_splits option.splits
        intro: key key_in_target_grows [THEN subsetD])
qed

subsection \<open>Events, pipes, processes and threads\<close>

lemma event_action_run:
  assumes "event_action b result req tr = Some (Inr (r, tr'))" and "authorised_run b rules tr"
    and "\<And>dir tr. result = ASK_BROKER \<Longrightarrow> authorised b rules tr (req dir)"
    and "\<And>dir tr a. may_duplicate b rules ((req dir, a) # tr) (an_handle a) None"
  shows "authorised_run b rules tr'"
  using assms
  by (auto simp: event_action_def effect_simps authorised_def [of b rules _ "DuplicateToTarget _ _"] split: if_splits prod.splits option.splits)

lemma Sync_run:
  assumes "Sync_CreateEvent b message name event_type initial_state tr = Some (Inr (r, tr'))
      \<or> Sync_OpenEvent b message name access tr = Some (Inr (r, tr'))"
    and ok: "broker_ok b rules level" and "authorised_run b rules tr"
  shows "authorised_run b rules tr'"
  using assms(1)
proof
  assume "Sync_CreateEvent b message name event_type initial_state tr = Some (Inr (r, tr'))"
  then obtain result x where "EvalPolicy (bk_compare b) (bk_policy b) IPC_CREATEEVENT_TAG (name_based_params (c_wstr name)) = Inr result"
    and run: "event_action b result (\<lambda>dir. NtCreateEvent_request dir (c_wstr name) event_type (ucast initial_state)) tr = Some (Inr (x, tr'))"
    by (auto simp: Sync_CreateEvent_def CreateEventAction_def effect_simps)
  then have "result = ASK_BROKER \<Longrightarrow> granted b rules SUBSYS_SYNC (\<lambda>s. s = EVENTS_ALLOW_ANY) (c_wstr name)"
    using evaluate_granted(6) [OF ok, of "c_wstr name"] by simp
  then show ?thesis using event_action_run [OF run assms(3)] by (simp add: authorised_simps)
next
  assume "Sync_OpenEvent b message name access tr = Some (Inr (r, tr'))"
  then obtain result x where "EvalPolicy (bk_compare b) (bk_policy b) IPC_OPENEVENT_TAG (named_access_params (c_wstr name) access) = Inr result"
    and run: "event_action b result (\<lambda>dir. NtOpenEvent_request dir (c_wstr name) access) tr = Some (Inr (x, tr'))"
    by (auto simp: Sync_OpenEvent_def OpenEventAction_def effect_simps)
  then have "result = ASK_BROKER \<Longrightarrow> granted b rules SUBSYS_SYNC (\<lambda>s. event_allowed s access) (c_wstr name)"
    using evaluate_granted(5) [OF ok, of "c_wstr name" access] by simp
  then show ?thesis using event_action_run [OF run assms(3)] by (simp add: authorised_simps)
qed

lemma NamedPipe_run:
  assumes "NamedPipe_CreateNamedPipe b message name om pm mi ob ib dt tr = Some (Inr (r, tr'))"
    and ok: "broker_ok b rules level" and "authorised_run b rules tr"
  shows "authorised_run b rules tr'"
  using assms(1,3)
  by (auto simp: NamedPipe_CreateNamedPipe_def CreateNamedPipeAction_def effect_simps evaluate_granted [OF ok] authorised_simps
      split: if_splits option.splits)

lemma ThreadProcess_CreateProcessW_run:
  assumes "ThreadProcess_CreateProcessW b p name cmd_line cur_dir target_cur_dir info n tr = Some (Inr (r, tr'))"
    and ok: "broker_ok b rules level" and "authorised_run b rules tr"
  shows "authorised_run b rules tr'"
  using assms(1,3)
  by (auto simp: ThreadProcess_CreateProcessW_def CreateProcessWAction_def CreateProcessExWHelper_def effect_simps Let_def
      evaluate_granted [OF ok] authorised_simps split: if_splits option.splits)

lemma open_own_run:
  assumes "open_own b req tr = Some (Inr (r, tr'))" and "authorised_run b rules tr" and "authorised b rules tr req"
    and "\<And>tr a. may_duplicate b rules ((req, a) # tr) (an_handle a) None"
  shows "authorised_run b rules tr'"
  using assms by (auto simp: open_own_def effect_simps authorised_def [of b rules _ "DuplicateToTarget _ _"] split: if_splits option.splits)

lemma own_actions_run:
  assumes "answer_with message action tr = Some (Inr (r, tr'))" and "authorised_run b rules tr"
    and "action \<in> {OpenThreadAction b access tid, OpenProcessAction b access pid, OpenProcessTokenAction b h access,
      OpenProcessTokenExAction b h access attributes}"
  shows "authorised_run b rules tr'"
proof -
  have run: "authorised_run b rules tr'" if "open_own b req tr = Some (Inr (x, tr'))"
    "req \<in> {NtOpenThread_request access (bk_process_id b) tid, NtOpenProcess_request access (bk_process_id b),
       NtOpenProcessToken_request access, NtOpenProcessTokenEx_request access attributes}" for req x
    using that(2) by (intro open_own_run [OF that(1) assms(2)]) (auto simp: authorised_simps)
  show ?thesis using assms run
    by (auto simp: answer_with_def effect_simps OpenThreadAction_def OpenProcessAction_def OpenProcessTokenAction_def
        OpenProcessTokenExAction_def split: if_splits)
qed

lemma ThreadProcess_CreateThread_run:
  assumes "ThreadProcess_CreateThread b message stack start parameter flags tr = Some (Inr (r, tr'))" and "authorised_run b rules tr"
  shows "authorised_run b rules tr'"
  using assms
  by (auto simp: ThreadProcess_CreateThread_def CreateThreadAction_def answer_with_def effect_simps authorised_simps
      split: if_splits option.splits)

lemma TopLevel_Ping_run: "TopLevel_Ping b p tag arg tr = Some (Inr (r, tr')) \<Longrightarrow> tr' = tr"
  by (auto simp: TopLevel_Ping_def effect_simps split: if_splits ipc_arg.splits)

subsection \<open>Every call is answered\<close>

definition returns :: "'a effect \<Rightarrow> bool" where
  "returns m \<longleftrightarrow> (\<forall>tr. \<exists>x tr'. m tr = Some (Inr (x, tr')))"

lemma returns_done: "returns (done_with x)"
  by (simp add: returns_def done_with_def)

lemma returns_after:
  assumes "returns m" and "\<And>x. returns (f x)"
  shows "returns (after m f)"
  unfolding returns_def
proof
  fix tr
  obtain x tr1 where "m tr = Some (Inr (x, tr1))" using assms(1) unfolding returns_def by blast
  moreover obtain y tr2 where "f x tr1 = Some (Inr (y, tr2))" using assms(2) unfolding returns_def by blast
  ultimately show "\<exists>x tr'. after m f tr = Some (Inr (x, tr'))" by (simp add: after_def)
qed

lemma returns_ask: "returns (ask b req)"
  by (simp add: returns_def ask_def)

lemma returns_duplicate: "returns (duplicate_to_target b h access)"
  unfolding duplicate_to_target_def by (intro returns_after returns_ask returns_done)

lemma returns_option:
  "returns m \<Longrightarrow> (\<And>x. returns (f x)) \<Longrightarrow> returns (case r of None \<Rightarrow> m | Some x \<Rightarrow> f x)"
  by (cases r) simp_all

lemma returns_if: "(c \<Longrightarrow> returns m) \<Longrightarrow> (\<not> c \<Longrightarrow> returns n) \<Longrightarrow> returns (if c then m else n)"
  by simp

lemma returns_pair: "(\<And>x y. returns (f x y)) \<Longrightarrow> returns (case p of (x, y) \<Rightarrow> f x y)"
  by (cases p) simp

lemmas returns_intros = returns_done returns_after returns_ask returns_duplicate returns_option returns_if returns_pair

lemma after_no_abort: "after (unless_abort (Inr x)) f = f x"
  by (intro ext) (simp add: after_def unless_abort_def)

lemma returns_preprocess: "windows_ok (bk_windows b) \<Longrightarrow> returns (returning (PreProcessName (bk_windows b) name))"
  using PreProcessName_returns [of "bk_windows b" name] by (auto simp: returns_def returning_def)

text \<open>The policy is always decided.\<close>

lemma returns_evaluate:
  assumes "broker_ok b rules level"
  shows "tag \<in> {IPC_NTCREATEFILE_TAG, IPC_NTOPENFILE_TAG} \<Longrightarrow> returns (evaluate b tag (open_file_params name access disposition options))"
    and "tag \<in> {IPC_NTQUERYATTRIBUTESFILE_TAG, IPC_NTQUERYFULLATTRIBUTESFILE_TAG} \<Longrightarrow> returns (evaluate b tag (file_name_params name))"
    and "returns (evaluate b IPC_NTSETINFO_RENAME_TAG (file_name_params name))"
    and "tag \<in> {IPC_NTCREATEKEY_TAG, IPC_NTOPENKEY_TAG} \<Longrightarrow> returns (evaluate b tag (named_access_params name access))"
    and "returns (evaluate b IPC_OPENEVENT_TAG (named_access_params name access))"
    and "returns (evaluate b IPC_CREATEEVENT_TAG (name_based_params name))"
    and "returns (evaluate b IPC_CREATENAMEDPIPEW_TAG (name_based_params name))"
    and "returns (evaluate b IPC_CREATEPROCESSW_TAG (name_based_params name))"
proof -
  have p: "policy_from (bk_windows b) level rules (bk_policy b)" using assms by (simp add: broker_ok_def)
  note evals = EvalPolicy_open_file [OF p] EvalPolicy_queries [OF p] EvalPolicy_rename [OF p] EvalPolicy_registry [OF p]
    EvalPolicy_open_event [OF p] EvalPolicy_create_event [OF p] EvalPolicy_pipes [OF p] EvalPolicy_processes [OF p]
  show "tag \<in> {IPC_NTCREATEFILE_TAG, IPC_NTOPENFILE_TAG} \<Longrightarrow> returns (evaluate b tag (open_file_params name access disposition options))"
    "tag \<in> {IPC_NTQUERYATTRIBUTESFILE_TAG, IPC_NTQUERYFULLATTRIBUTESFILE_TAG} \<Longrightarrow> returns (evaluate b tag (file_name_params name))"
    "returns (evaluate b IPC_NTSETINFO_RENAME_TAG (file_name_params name))"
    "tag \<in> {IPC_NTCREATEKEY_TAG, IPC_NTOPENKEY_TAG} \<Longrightarrow> returns (evaluate b tag (named_access_params name access))"
    "returns (evaluate b IPC_OPENEVENT_TAG (named_access_params name access))"
    "returns (evaluate b IPC_CREATEEVENT_TAG (name_based_params name))"
    "returns (evaluate b IPC_CREATENAMEDPIPEW_TAG (name_based_params name))"
    "returns (evaluate b IPC_CREATEPROCESSW_TAG (name_based_params name))"
    by (simp_all add: returns_def evaluate_def unless_abort_def evals)
qed

text \<open>A rename is read inside of its buffer.\<close>

lemma buffer_read_in: "k + n \<le> length buf \<Longrightarrow> buffer_read buf k n = Inr (take n (drop k buf))"
  by (simp add: buffer_read_def message_bytes_def in_bounds_def)

lemma rename_in_bounds:
  assumes "length info = unat len"
  shows "\<exists>ok. IsSupportedRenameCall info len info_class = Inr ok \<and> (ok \<longrightarrow> (\<exists>name. rename_name info = Inr name))"
proof (cases "info_class \<noteq> FileRenameInformation \<or> len < sizeof_FILE_RENAME_INFORMATION")
  case True
  then show ?thesis by (auto simp: IsSupportedRenameCall_def)
next
  case False
  then have len: "24 \<le> unat len" by (simp add: sizeof_FILE_RENAME_INFORMATION_def word_le_nat_alt not_less)
  let ?n = "le_value (take 4 (drop 16 info)) :: u32"
  have reads: "buffer_read info 16 4 = Inr (take 4 (drop 16 info))" "buffer_read info 8 8 = Inr (take 8 (drop 8 info))"
    using len assms by (simp_all add: buffer_read_in)
  have diff: "unat (len - offsetof_FileName) = unat len - 20"
    using len by (simp add: unat_sub word_le_nat_alt offsetof_FileName_def)
  show ?thesis
  proof (cases "len - offsetof_FileName < ?n \<or> (le_value (take 8 (drop 8 info)) :: u64) \<noteq> 0 \<or> ?n < 8 \<or> ?n > 0xFFFF")
    case True
    then show ?thesis using False reads by (auto simp: IsSupportedRenameCall_def Let_def)
  next
    case fits: False
    then have "unat ?n \<le> unat len - 20" "8 \<le> unat ?n" using diff by (simp_all add: word_le_nat_alt not_less)
    then have "buffer_read info (unat offsetof_FileName) 8 = Inr (take 8 (drop 20 info))"
      "buffer_read info (unat offsetof_FileName) (2 * (unat ?n div 2)) = Inr (take (2 * (unat ?n div 2)) (drop 20 info))"
      using len assms by (simp_all add: buffer_read_in offsetof_FileName_def)
    then show ?thesis using False fits reads
      by (simp add: IsSupportedRenameCall_def rename_name_def Let_def offsetof_FileName_def)
  qed
qed

lemma load_buffer:
  assumes "cp_base p \<le> a" and "unat a + unat n \<le> unat (cp_base p) + length (cp_bytes p)"
  shows "\<exists>bs. load_param p a (unat n) = Inr bs \<and> length bs = unat n"
proof -
  have "unat (a - cp_base p) = unat a - unat (cp_base p)" using assms(1) by (simp add: unat_sub word_le_nat_alt)
  then show ?thesis using assms by (simp add: load_param_def message_bytes_def in_bounds_def word_le_nat_alt)
qed

lemma Filesystem_returns:
  assumes ok: "broker_ok b rules level"
  shows "returns (Filesystem_NtCreateFile b message name attributes access fa share disposition options)"
    and "returns (Filesystem_NtOpenFile b message name attributes access share options)"
    and "returns (Filesystem_NtQueryAttributesFile b p name attributes info n)"
    and "returns (Filesystem_NtQueryFullAttributesFile b p name attributes info n)"
proof -
  have w: "windows_ok (bk_windows b)" using ok by (simp add: broker_ok_def)
  note evals = returns_preprocess [OF w] returns_evaluate(1,2) [OF ok]
  show "returns (Filesystem_NtCreateFile b message name attributes access fa share disposition options)"
    unfolding Filesystem_NtCreateFile_def CreateFileAction_def NtCreateFileInTarget_def by (intro returns_intros evals) simp_all
  show "returns (Filesystem_NtOpenFile b message name attributes access share options)"
    unfolding Filesystem_NtOpenFile_def OpenFileAction_def NtCreateFileInTarget_def by (intro returns_intros evals) simp_all
  show "returns (Filesystem_NtQueryAttributesFile b p name attributes info n)"
    unfolding Filesystem_NtQueryAttributesFile_def by (intro returns_intros evals) simp_all
  show "returns (Filesystem_NtQueryFullAttributesFile b p name attributes info n)"
    unfolding Filesystem_NtQueryFullAttributesFile_def by (intro returns_intros evals) simp_all
qed

lemma Filesystem_NtSetInformationFile_returns:
  assumes ok: "broker_ok b rules level" and buffer: "value_fits p INOUTPTR_TYPE (BufferArg info m)"
  shows "returns (Filesystem_NtSetInformationFile b p handle status n info m len info_class)"
proof (cases "n = sizeof_IO_STATUS_BLOCK \<and> len = m")
  case False
  then show ?thesis unfolding Filesystem_NtSetInformationFile_def by (auto intro: returns_done)
next
  case True
  have w: "windows_ok (bk_windows b)" using ok by (simp add: broker_ok_def)
  obtain bs where bs: "load_param p info (unat m) = Inr bs" "length bs = unat m"
    using load_buffer [of p info m] buffer True by auto
  obtain supported where sup: "IsSupportedRenameCall bs m info_class = Inr supported"
    "supported \<longrightarrow> (\<exists>name. rename_name bs = Inr name)" using rename_in_bounds [OF bs(2)] by blast
  show ?thesis
  proof (cases supported)
    case False
    then show ?thesis using True by (simp add: Filesystem_NtSetInformationFile_def after_no_abort bs(1) sup(1) returns_done)
  next
    case supported: True
    then obtain name where name: "rename_name bs = Inr name" using sup(2) by blast
    have "returns (SetInformationFileAction b result handle bs info_class)" for result
      unfolding SetInformationFileAction_def by (intro returns_intros)
    note action = this
    show ?thesis using True supported
      by (simp add: Filesystem_NtSetInformationFile_def after_no_abort bs(1) sup(1) name)
        (intro action returns_intros returns_preprocess [OF w] returns_evaluate(3) [OF ok])
  qed
qed

definition closes_handles :: "broker \<Rightarrow> bool" where
  "closes_handles b \<longleftrightarrow> (\<forall>tr h. NT_SUCCESS (an_status (bk_kernel b tr (CloseHandle_request h))))"

lemma translate_returns:
  assumes "closes_handles b"
  shows "returns (TranslateMaximumAllowed b root name attributes access)"
proof -
  have "returns (after (ask b (CloseHandle_request h)) (\<lambda>c.
      after (unless_abort (check (NT_SUCCESS (an_status c)) ''NtClose'')) (\<lambda>_. f)))" if "returns f" for h :: u64 and f :: "(u32 \<times> u32) effect"
    using assms that by (auto simp: closes_handles_def returns_def after_def ask_def unless_abort_def check_def)
  note close = this
  show ?thesis unfolding TranslateMaximumAllowed_def
    by (rule returns_after [OF returns_ask], rule returns_if, rule returns_done, rule returns_after [OF returns_ask], rule close,
        rule returns_done)
qed

lemma Registry_returns:
  assumes ok: "broker_ok b rules level" and "closes_handles b"
  shows "returns (Registry_NtCreateKey b message name attributes root access title options)"
    and "returns (Registry_NtOpenKey b message name attributes root access)"
proof -
  note evals = returns_evaluate(4) [OF ok] translate_returns [OF assms(2)]
  show "returns (Registry_NtCreateKey b message name attributes root access title options)"
    unfolding Registry_NtCreateKey_def CreateKeyAction_def key_in_target_def with_root_def by (intro returns_intros evals) simp_all
  show "returns (Registry_NtOpenKey b message name attributes root access)"
    unfolding Registry_NtOpenKey_def OpenKeyAction_def key_in_target_def with_root_def by (intro returns_intros evals) simp_all
qed

lemma other_returns:
  assumes ok: "broker_ok b rules level"
  shows "returns (Sync_CreateEvent b message name event_type initial_state)" and "returns (Sync_OpenEvent b message name access)"
    and "returns (NamedPipe_CreateNamedPipe b message name om pm mi ob ib dt)"
    and "returns (ThreadProcess_CreateProcessW b p name cmd_line cur_dir target_cur_dir info n)"
    and "returns (answer_with message (OpenThreadAction b access tid))" and "returns (answer_with message (OpenProcessAction b access pid))"
    and "returns (answer_with message (OpenProcessTokenAction b h access))"
    and "returns (answer_with message (OpenProcessTokenExAction b h access attributes))"
    and "returns (ThreadProcess_CreateThread b message stack start parameter flags)"
  unfolding Sync_CreateEvent_def CreateEventAction_def Sync_OpenEvent_def OpenEventAction_def event_action_def
    NamedPipe_CreateNamedPipe_def CreateNamedPipeAction_def ThreadProcess_CreateProcessW_def CreateProcessWAction_def
    CreateProcessExWHelper_def answer_with_def OpenThreadAction_def OpenProcessAction_def OpenProcessTokenAction_def
    OpenProcessTokenExAction_def open_own_def ThreadProcess_CreateThread_def CreateThreadAction_def Let_def
  by (intro returns_intros returns_evaluate(5-8) [OF ok])+

subsection \<open>All handlers\<close>

definition win32k_handlers :: "handler set" where
  "win32k_handlers = {EnumDisplayMonitors, GetMonitorInfo, GetSuggestedOPMProtectedOutputArraySize, CreateOPMProtectedOutputs,
     GetCertificateSize, GetCertificate, DestroyOPMProtectedOutput, GetOPMRandomNumber, SetOPMSigningKeyAndSequenceNumbers,
     ConfigureOPMProtectedOutput, GetOPMInformation}"

lemma mistyped: "unless_abort (Inl e) tr = Some (Inr r) \<longleftrightarrow> False"
  by (simp add: unless_abort_def)

lemma run_handler_run:
  assumes "run_handler other b handler tag args p tr = Some (Inr (r, tr'))" and ok: "broker_ok b rules level"
    and "handler \<notin> win32k_handlers" and start: "authorised_run b rules tr"
  shows "authorised_run b rules tr'"
proof -
  note runs = TopLevel_Ping_run Filesystem_NtCreateFile_run [OF _ ok start] Filesystem_NtOpenFile_run [OF _ ok start]
    Filesystem_query_run [OF disjI1 ok start] Filesystem_query_run [OF disjI2 ok start] Filesystem_NtSetInformationFile_run [OF _ ok start]
    Registry_NtCreateKey_run [OF _ ok start] Registry_NtOpenKey_run [OF _ ok start] Sync_run [OF disjI1 ok start]
    Sync_run [OF disjI2 ok start] NamedPipe_run [OF _ ok start] ThreadProcess_CreateProcessW_run [OF _ ok start]
    ThreadProcess_CreateThread_run [OF _ start]
  note own = own_actions_run [OF _ start]
  show ?thesis
    using assms(1,3,4)
    by (cases handler) (auto simp: run_handler_def win32k_handlers_def mistyped dest: runs own split: list.splits ipc_arg.splits)
qed

subsection \<open>The properties of the handlers\<close>

text \<open>
  C13: complete mediation. Whatever a client asks of the handlers other than those of win32k (for which there is \<open>win32k_mediated\<close>),
  every request that the broker makes to the kernel on its behalf is
  authorised by a rule of the embedder, for a path without reparse points, or is about the client's own
  process; and the only handles that get into the client are those that the requests just opened, of a
  file only if the handle is the object of the path, of a key only with an access that was spelled out. The requests for
  tokens and new threads name no process, since the code passes the client's own. The rules are those of
  \<open>broker_ok\<close>: patterns without an unescaped \<open>?\<close>.
\<close>

theorem handlers_authorised:
  assumes "broker_ok b rules level" and "handler \<notin> win32k_handlers"
    and "run_handler other b handler tag args p [] = Some (Inr (r, tr))"
  shows "authorised_run b rules tr"
  by (rule run_handler_run [OF assms(3,1,2)]) simp

text \<open>A broker with one rule, and a kernel that opens what it is asked for.\<close>

definition sample_kernel :: "trace \<Rightarrow> request \<Rightarrow> answer" where
  "sample_kernel tr req =
     (let ok = \<lparr>an_status = 0, an_handle = 42, an_handle2 = 0, an_info = 0xF003F, an_data = [], an_data2 = []\<rparr> in
      case req of DuplicateToTarget _ _ \<Rightarrow> ok\<lparr>an_status := 1\<rparr> | _ \<Rightarrow> ok)"

definition sample_broker :: "policy_base \<Rightarrow> broker" where
  "sample_broker pb =
     \<lparr>bk_windows = sample_windows, bk_compare = plain_compare, bk_policy = pb, bk_kernel = sample_kernel, bk_process_id = 7, bk_junk = 0,
      bk_SearchPath = (\<lambda>_ _. (0, [])), bk_base_named_objects = (0, 1), bk_tick_count = 0\<rparr>"

lemma sample_broker_ok: "policy_from sample_windows USER_LOCKDOWN [sample_rule] pb \<Longrightarrow> broker_ok (sample_broker pb) [sample_rule] USER_LOCKDOWN"
  using sample_windows_ok by (simp add: broker_ok_def sample_broker_def)

definition sample_message :: cross_params where
  "sample_message = \<lparr>cp_base = 0x10000, cp_bytes = replicate 1024 0\<rparr>"

definition sample_trace :: trace where
  "sample_trace =
     (let open_request = NtCreateFile_request sample_path 0 FILE_READ_DATA 0 0 FILE_OPEN 0 False in
      [(DuplicateToTarget 42 None, sample_kernel [] (DuplicateToTarget 42 None)), (open_request, sample_kernel [] open_request)])"

lemma sample_run:
  assumes "policy_from sample_windows USER_LOCKDOWN [sample_rule] pb"
  shows "run_handler other (sample_broker pb) NtOpenFile (ipc_tag_code IPC_NTOPENFILE_TAG)
      [StringArg sample_path, IntArg 0, IntArg FILE_READ_DATA, IntArg 0, IntArg 0] sample_message []
    = Some (Inr ((True, zero_return\<lparr>cr_status := 0, cr_handle := 42, cr_extended := (cr_extended zero_return)[0 := 0xF003F]\<rparr>,
        cp_bytes sample_message), sample_trace))"
proof -
  have c: "c_wstr sample_path = sample_path" by code_simp
  have "glob (case_equal plain_compare CASE_INSENSITIVE) (pieces [] sample_pattern) sample_path"
    "file_open_allowed FILES_ALLOW_READONLY FILE_READ_DATA FILE_OPEN 0" by code_simp+
  then have "EvalPolicy plain_compare pb IPC_NTOPENFILE_TAG (open_file_params sample_path FILE_READ_DATA FILE_OPEN 0) = Inr ASK_BROKER"
    using EvalPolicy_open_file [OF assms, of IPC_NTOPENFILE_TAG plain_compare sample_path]
    by (auto simp: sample_rule_def rule_matches_def sample_effective)
  moreover have "SameObject sample_windows 42 sample_path"
  proof -
    have "wn_object_name sample_windows 42 = Some sample_path" by (simp add: sample_windows_def)
    moreover have "last sample_path \<noteq> BACKSLASH" by (simp add: sample_path_def)
    moreover have "wcsicmp_eq sample_windows sample_path sample_path" by (simp add: wcsicmp_eq_def)
    ultimately show ?thesis using sample_path_simps(1)
      by (simp add: SameObject_def GetPathFromHandle_def c)
  qed
  ultimately show ?thesis using sample_path_simps(1)
    by (simp add: run_handler_def Filesystem_NtOpenFile_def OpenFileAction_def NtCreateFileInTarget_def after_def done_with_def returning_def
        ask_def evaluate_def unless_abort_def duplicate_to_target_def sample_broker_def sample_accepted c sample_kernel_def Let_def
        NT_SUCCESS_def file_answer_def sample_trace_def)
qed

theorem handlers_authorised_witness:
  "\<exists>pb r. run_handler (\<lambda>h tag args p. done_with (not_serviced [])) (sample_broker pb) NtOpenFile (ipc_tag_code IPC_NTOPENFILE_TAG)
      [StringArg sample_path, IntArg 0, IntArg FILE_READ_DATA, IntArg 0, IntArg 0] sample_message [] = Some (Inr (r, sample_trace))
    \<and> authorised_run (sample_broker pb) [sample_rule] sample_trace"
proof -
  obtain pb where pb: "policy_from sample_windows USER_LOCKDOWN [sample_rule] pb" using sample_policy by blast
  have h: "NtOpenFile \<notin> win32k_handlers" by (simp add: win32k_handlers_def)
  show ?thesis using handlers_authorised [OF sample_broker_ok [OF pb] h sample_run [OF pb]] sample_run [OF pb] by blast
qed

lemma list_all2_Cons_left: "list_all2 P (x # xs) ys \<longleftrightarrow> (\<exists>y zs. ys = y # zs \<and> P x y \<and> list_all2 P xs zs)"
  by (simp add: list_all2_Cons1)

lemma fits_cases:
  "value_fits p (param_type String16) a \<longleftrightarrow> (\<exists>s. a = StringArg s \<and> 2 * length s \<le> length (cp_bytes p))"
  "value_fits p (param_type Uint32) a \<longleftrightarrow> (\<exists>v. a = IntArg v)"
  "value_fits p (param_type VoidPtr) a \<longleftrightarrow> (\<exists>v. a = PtrArg v)"
  "value_fits p (param_type CountedBuf) a \<longleftrightarrow> (\<exists>x n. a = BufferArg x n \<and> value_fits p INOUTPTR_TYPE (BufferArg x n))"
  by (cases a; simp)+

lemma Ping_returns:
  assumes "args_fit p (handler_params Ping tag) [arg]"
  shows "returns (TopLevel_Ping b p tag arg)"
proof (cases "tag = ipc_tag_code IPC_PING1_TAG")
  case True
  then show ?thesis using assms by (auto simp: args_fit_def fits_cases TopLevel_Ping_def returns_done simp del: param_type.simps value_fits.simps)
next
  case False
  then obtain a n where buffer: "arg = BufferArg a n" "value_fits p INOUTPTR_TYPE (BufferArg a n)"
    using assms by (auto simp: args_fit_def fits_cases simp del: param_type.simps value_fits.simps)
  show ?thesis
  proof (cases "n = 4")
    case True
    then obtain bs where "load_param p a 4 = Inr bs" using load_buffer [of p a n] buffer(2) True by auto
    then show ?thesis using False True by (simp add: TopLevel_Ping_def buffer(1) after_no_abort returns_done)
  next
    case no: False
    then show ?thesis using False by (simp add: TopLevel_Ping_def buffer(1) returns_done)
  qed
qed

lemma run_handler_returns:
  assumes ok: "broker_ok b rules level" and close: "closes_handles b" and "handler \<notin> win32k_handlers"
    and fit: "args_fit p (handler_params handler tag) args"
  shows "returns (run_handler other b handler tag args p)"
proof -
  note all = Filesystem_returns [OF ok] Registry_returns [OF ok close] other_returns [OF ok] Filesystem_NtSetInformationFile_returns [OF ok]
  show ?thesis
  proof (cases "handler = Ping")
    case True
    then obtain arg where "args = [arg]" using fit by (auto simp: args_fit_def list_all2_Cons_left split: if_splits)
    then show ?thesis using True fit Ping_returns by (simp add: run_handler_def)
  next
    case False
    then show ?thesis using assms(3) fit
      by (cases handler)
        (auto simp: args_fit_def list_all2_Cons_left fits_cases run_handler_def win32k_handlers_def
          simp del: param_type.simps value_fits.simps intro: all)
  qed
qed

text \<open>
  C18: every call is answered. For arguments that a message can have, every handler but those of win32k (which
  \<open>win32k_mediated\<close> covers) returns, and does not read outside of the message or run into a failed check, as long as the
  kernel closes the broker's handles and the rules are those of \<open>broker_ok\<close>: patterns without an unescaped \<open>?\<close>.
\<close>

theorem handlers_return:
  assumes "broker_ok b rules level" and "closes_handles b" and "handler \<notin> win32k_handlers"
    and "args_fit p (handler_params handler tag) args"
  shows "\<exists>r tr. run_handler other b handler tag args p [] = Some (Inr (r, tr))"
  using run_handler_returns [OF assms] unfolding returns_def by fast

theorem handlers_return_witness:
  "\<exists>pb r tr. run_handler (\<lambda>h tag args p. done_with (not_serviced [])) (sample_broker pb) NtSetInformationFile 7
      [PtrArg 4, BufferArg 0x10100 16, BufferArg 0x10200 24, IntArg 24, IntArg 10] sample_message [] = Some (Inr (r, tr))"
proof -
  obtain pb where pb: "policy_from sample_windows USER_LOCKDOWN [sample_rule] pb" using sample_policy by blast
  have h: "NtSetInformationFile \<notin> win32k_handlers" by (simp add: win32k_handlers_def)
  have "closes_handles (sample_broker pb)"
    by (simp add: closes_handles_def sample_broker_def sample_kernel_def NT_SUCCESS_def)
  moreover have "args_fit sample_message (handler_params NtSetInformationFile 7)
      [PtrArg 4, BufferArg 0x10100 16, BufferArg 0x10200 24, IntArg 24, IntArg 10]"
    by (simp add: args_fit_def sample_message_def)
  ultimately show ?thesis using handlers_return [OF sample_broker_ok [OF pb] _ h] by blast
qed

subsection \<open>Read-only keys\<close>

lemma authorised_run_append: "authorised_run b rules (tr1 @ tr2) \<Longrightarrow> authorised_run b rules tr2"
  by (induction tr1) auto

lemma spelled_out:
  fixes x k m :: u32
  assumes "x AND NOT (k OR m) = 0" and "x AND m = 0"
  shows "x AND NOT k = 0"
proof -
  have "x AND NOT k = (x AND NOT (k OR m)) OR ((x AND m) AND NOT k)"
    by (rule bit_word_eqI) (auto simp: bit_simps)
  then show ?thesis using assms by simp
qed

lemma readonly_key_granted:
  assumes "key_granted b rules root name access" and "access AND MAXIMUM_ALLOWED = 0"
    and "\<And>pattern. (SUBSYS_REGISTRY, REG_ALLOW_ANY, pattern) \<notin> set rules"
  shows "access AND NOT kAllowedRegFlags = 0"
  using assms spelled_out [of access kAllowedRegFlags MAXIMUM_ALLOWED]
  unfolding key_granted_def granted_def registry_allowed_def by blast

text \<open>
  C15: with rules for the registry that are all read-only, no key gets into the client with a right that is not a right to read,
  even if the client asks for the maximum that is allowed. The rules are those of \<open>broker_ok\<close>: patterns without an
  unescaped \<open>?\<close>.
\<close>

theorem readonly_keys:
  assumes "broker_ok b rules level" and "handler \<notin> win32k_handlers"
    and "run_handler other b handler tag args p [] = Some (Inr (r, newer @ (DuplicateToTarget h d, a2) # (key_request, a1) # older))"
    and "\<And>pattern. (SUBSYS_REGISTRY, REG_ALLOW_ANY, pattern) \<notin> set rules"
    and "key_request = NtOpenKey_request root name attributes access \<or> key_request = NtCreateKey_request root name attributes access title options"
  shows "access AND NOT kAllowedRegFlags = 0"
proof -
  have "authorised_run b rules (newer @ (DuplicateToTarget h d, a2) # (key_request, a1) # older)"
    by (rule run_handler_run [OF assms(3,1,2)]) simp
  from authorised_run_append [OF this]
  have "may_duplicate b rules ((key_request, a1) # older) h d" "authorised b rules older key_request"
    by (simp_all add: authorised_def)
  then have "access AND MAXIMUM_ALLOWED = 0" "key_granted b rules root name access"
    using assms(5) by (auto simp: may_duplicate_def authorised_def)
  then show ?thesis using readonly_key_granted assms(4) by blast
qed

text \<open>A broker with a read-only rule for one key.\<close>

definition sample_key :: wstring where
  "sample_key = [BACKSLASH, 82, BACKSLASH, 97]"

definition sample_key_rule :: user_rule where
  "sample_key_rule = (SUBSYS_REGISTRY, REG_ALLOW_READONLY, wide ''HKEY_USERS'' @ [BACKSLASH, 97])"

lemma sample_resolved: "ResolveRegistryName sample_windows (wide ''HKEY_USERS'' @ [BACKSLASH, 97]) = Some sample_key"
  by (simp add: ResolveRegistryName_def kKnownKey_def wide_def sample_windows_def GetPathFromHandle_def sample_key_def)

lemma sample_key_string:
  assumes "number_rule 1 r"
  shows "\<exists>r'. AddStringMatch IF 0 sample_key CASE_INSENSITIVE r = Inr (True, r') \<and> can_add r'"
  using assms by (simp add: match_run sample_key_def number_rule_def opcodes_offset_def kRuleBufferSize_def can_add_def)

lemma sample_key_rules: "\<exists>p'. RegistryPolicy_GenerateRules sample_windows junk (wide ''HKEY_USERS'' @ [BACKSLASH, 97]) REG_ALLOW_READONLY p = Inr (True, p')"
proof -
  have rule: "\<exists>r. registry_rule REG_ALLOW_READONLY (PolicyRule j ASK_BROKER) = Inr r \<and> number_rule 1 r" for j
    using number_match_succeeds [OF number_rule_new, where rop = AND_OP and rt = IF_NOT and p = OpenKey_ACCESS
        and v = "NOT (kAllowedRegFlags OR MAXIMUM_ALLOWED)"]
    by (simp add: registry_rule_def One_nat_def)
  obtain r1 where r1: "registry_rule REG_ALLOW_READONLY (PolicyRule (junk 0) ASK_BROKER) = Inr r1" "number_rule 1 r1" using rule by blast
  obtain r2 where r2: "registry_rule REG_ALLOW_READONLY (PolicyRule (junk 1) ASK_BROKER) = Inr r2" "number_rule 1 r2" using rule by blast
  have named: "\<exists>p'. add_named_rule tag 0 sample_key r p = Inr (True, p')" if r: "number_rule 1 r" for r p tag
  proof -
    obtain r' where r': "AddStringMatch IF 0 sample_key CASE_INSENSITIVE r = Inr (True, r')" "can_add r'" using sample_key_string [OF r] by blast
    then show ?thesis using AddRule_succeeds [OF r'(2), of "ipc_tag_code tag" p] by (auto simp: add_named_rule_def)
  qed
  obtain p1 where p1: "add_named_rule IPC_NTCREATEKEY_TAG OpenKey_NAME sample_key r2 p = Inr (True, p1)" using named [OF r2(2)] by blast
  obtain p2 where p2: "add_named_rule IPC_NTOPENKEY_TAG OpenKey_NAME sample_key r1 p1 = Inr (True, p2)" using named [OF r1(2)] by blast
  have c: "c_wstr sample_key = sample_key" by code_simp
  show ?thesis
    by (simp add: RegistryPolicy_GenerateRules_def sample_resolved r1(1) r2(1) and_then_def c p1 p2 del: One_nat_def)
qed

lemma sample_key_policy: "\<exists>pb. policy_from sample_windows USER_LOCKDOWN [sample_key_rule] pb"
proof -
  let ?spec = "registry_spec REG_ALLOW_READONLY sample_key"
  obtain m where m: "RegistryPolicy_GenerateRules sample_windows (hp_rules sample_heap) (wide ''HKEY_USERS'' @ [BACKSLASH, 97]) REG_ALLOW_READONLY
      (LowLevelPolicy MakeBrokerPolicyMemory) = Inr (True, m)" using sample_key_rules by blast
  then have "\<exists>pb. add_user_rules sample_windows (\<lambda>_. sample_heap) [sample_key_rule] (new_policy_base USER_LOCKDOWN) = Some (Inr (True, pb))"
    by (simp add: sample_key_rule_def AddRuleInternal_def new_policy_base_def finish_rule_def)
  moreover have eff: "effective_pattern sample_windows SUBSYS_REGISTRY (wide ''HKEY_USERS'' @ [BACKSLASH, 97]) = sample_key"
    by (simp add: effective_pattern_def sample_resolved) code_simp
  moreover have "plain_name sample_key" by code_simp
  moreover have "(\<Sum>x\<leftarrow>?spec. rule_bytes x + sizeof_PolicyBuffer) \<le> 5000"
    by (simp add: registry_spec_def name_rule_def rule_bytes registry_conditions_def condition_bytes_def rule_sizes sizeof_PolicyBuffer_def
        sample_key_def)
  then have "policy_room ?spec \<le> kPolMemSize - sizeof_PolicyGlobal"
    using policy_room_le [of ?spec]
    by (simp add: kPolMemSize_def sizeof_PolicyGlobal_def kMaxServiceCount_def sizeof_PolicyBuffer_def rule_sizes opcodes_offset_def)
  ultimately show ?thesis by (auto simp: policy_from_def user_rule_ok_def sample_key_rule_def rule_spec_def)
qed

lemma sample_key_broker_ok:
  "policy_from sample_windows USER_LOCKDOWN [sample_key_rule] pb \<Longrightarrow> broker_ok (sample_broker pb) [sample_key_rule] USER_LOCKDOWN"
  using sample_windows_ok by (simp add: broker_ok_def sample_broker_def)

definition sample_key_trace :: trace where
  "sample_key_trace =
     map (\<lambda>req. (req, sample_kernel [] req))
       [CloseHandle_request 42, NtQueryObject_request 42, NtOpenKey_request 0 sample_key 0 MAXIMUM_ALLOWED]"

lemma sample_key_run:
  assumes "policy_from sample_windows USER_LOCKDOWN [sample_key_rule] pb"
  shows "\<exists>r. run_handler other (sample_broker pb) NtOpenKey (ipc_tag_code IPC_NTOPENKEY_TAG)
      [StringArg sample_key, IntArg 0, PtrArg 0, IntArg MAXIMUM_ALLOWED] sample_message []
    = Some (Inr (r, [] @ (DuplicateToTarget 42 None, sample_kernel [] (DuplicateToTarget 42 None))
        # (NtOpenKey_request 0 sample_key 0 0x20019, sample_kernel [] (NtOpenKey_request 0 sample_key 0 0x20019)) # sample_key_trace))"
proof -
  have c: "c_wstr sample_key = sample_key" by code_simp
  have eff: "effective_pattern sample_windows SUBSYS_REGISTRY (wide ''HKEY_USERS'' @ [BACKSLASH, 97]) = sample_key"
    by (simp add: effective_pattern_def sample_resolved) code_simp
  have "glob (case_equal plain_compare CASE_INSENSITIVE) (pieces [] sample_key) sample_key"
    "registry_allowed REG_ALLOW_READONLY MAXIMUM_ALLOWED" by code_simp+
  then have "EvalPolicy plain_compare pb IPC_NTOPENKEY_TAG (named_access_params sample_key MAXIMUM_ALLOWED) = Inr ASK_BROKER"
    using EvalPolicy_registry [OF assms, of IPC_NTOPENKEY_TAG plain_compare sample_key MAXIMUM_ALLOWED]
    by (auto simp: sample_key_rule_def rule_matches_def eff)
  moreover have "ucast (0xF003F :: u64) AND kAllowedRegFlags = 0x20019" by (simp add: kAllowedRegFlags_def)
  ultimately show ?thesis
    by (simp add: run_handler_def Registry_NtOpenKey_def OpenKeyAction_def key_in_target_def TranslateMaximumAllowed_def with_root_def
        GetCompletePath_def after_def done_with_def ask_def evaluate_def unless_abort_def duplicate_to_target_def sample_broker_def c
        sample_kernel_def Let_def NT_SUCCESS_def check_def sample_key_trace_def
        answer_handle_def) blast
qed

theorem readonly_keys_witness:
  "\<exists>pb r older. run_handler (\<lambda>h tag args p. done_with (not_serviced [])) (sample_broker pb) NtOpenKey (ipc_tag_code IPC_NTOPENKEY_TAG)
      [StringArg sample_key, IntArg 0, PtrArg 0, IntArg MAXIMUM_ALLOWED] sample_message []
    = Some (Inr (r, [] @ (DuplicateToTarget 42 None, sample_kernel [] (DuplicateToTarget 42 None))
        # (NtOpenKey_request 0 sample_key 0 0x20019, sample_kernel [] (NtOpenKey_request 0 sample_key 0 0x20019)) # older))
    \<and> 0x20019 AND NOT kAllowedRegFlags = 0"
proof -
  obtain pb where pb: "policy_from sample_windows USER_LOCKDOWN [sample_key_rule] pb" using sample_key_policy by blast
  have h: "NtOpenKey \<notin> win32k_handlers" by (simp add: win32k_handlers_def)
  obtain r where run: "run_handler (\<lambda>h tag args p. done_with (not_serviced [])) (sample_broker pb) NtOpenKey (ipc_tag_code IPC_NTOPENKEY_TAG)
      [StringArg sample_key, IntArg 0, PtrArg 0, IntArg MAXIMUM_ALLOWED] sample_message []
    = Some (Inr (r, [] @ (DuplicateToTarget 42 None, sample_kernel [] (DuplicateToTarget 42 None))
        # (NtOpenKey_request 0 sample_key 0 0x20019, sample_kernel [] (NtOpenKey_request 0 sample_key 0 0x20019)) # sample_key_trace))"
    using sample_key_run [OF pb] by blast
  have "(0x20019 :: u32) AND NOT kAllowedRegFlags = 0"
    using readonly_keys [OF sample_key_broker_ok [OF pb] h run, of 0 sample_key 0 "0x20019"] by (simp add: sample_key_rule_def)
  then show ?thesis using run by blast
qed

end
