(* ===== verification/Win_Display.thy ===== *)
theory Win_Display
  imports Win_Handlers "HOL-Library.State_Monad" "HOL-Library.Mapping"
begin

text \<open>
  The calls to the display system that the broker makes for a process that is locked out of win32k:
  \<^verbatim>\<open>win/src/process_mitigations_win32k_dispatcher.cc\<close> and the actions of
  \<^verbatim>\<open>win/src/process_mitigations_win32k_policy.cc\<close>, with what they use of
  \<^verbatim>\<open>base/memory/shared_memory_win.cc\<close>. The dispatcher keeps the protected video outputs that it opened
  for its client, so its state lives from call to call. The proofs are in \<open>Win_Display_Correct\<close>.
\<close>

subsection \<open>Requests to the display system\<close>

text \<open>
  One constructor for each function of the system. Memory that the broker shares with the client can change at
  any time, so reading it is a request with an answer, too.
\<close>

datatype display_request =
    EnumDisplayMonitors_request
  | GetMonitorInfoW_request u64
  | GetSuggestedSize_request wstring
  | CreateOutputs_request wstring u32
  | GetCertificateSize_request wstring
  | GetCertificate_request wstring u64 u32
  | GetCertificateSizeByHandle_request u64
  | GetCertificateByHandle_request u64 u64 u32
  | DestroyOutput_request u64
  | GetRandomNumber_request u64
  | SetSigningKey_request u64 bytes
  | Configure_request u64 bytes
  | GetInformation_request u64 bytes
  | DuplicateFromClient_request u64
  | NtQuerySection_request u64
  | MapViewOfFile_request u64 u64
  | UnmapViewOfFile_request u64
  | CloseSection_request u64
  | ReadView_request u64 nat
  | WriteView_request u64 bytes

text \<open>The status or \<open>BOOL\<close>; a handle, an address, a size or attributes; monitors or handles; data.\<close>

record display_answer =
  da_status :: u32
  da_value :: u64
  da_list :: "u64 list"
  da_data :: bytes

type_synonym display_trace = "(display_request \<times> display_answer) list"

text \<open>
  What the dispatcher finds around it: whether the embedder enabled the redirection, which of the newer functions
  \<open>gdi32.dll\<close> exports, and the answers.
\<close>

record display =
  dp_redirection :: bool
  dp_has_GetCertificateSizeByHandle :: bool
  dp_has_GetCertificateByHandle :: bool
  dp_system :: "display_trace \<Rightarrow> display_request \<Rightarrow> display_answer"

text \<open>
  The dispatcher: \<open>protected_outputs_\<close>, from handles to the \<open>handle_\<close> of their objects, and the requests that were
  made, newest first. The objects are reference counted; calls are handled one after the other here, so the only reference that
  outlives a call is the one in the map.
\<close>

record win32k =
  wk_outputs :: "(u64, u64) mapping"
  wk_trace :: display_trace

definition new_win32k :: win32k where
  "new_win32k = \<lparr>wk_outputs = Mapping.empty, wk_trace = []\<rparr>"

definition display_ask :: "display \<Rightarrow> display_request \<Rightarrow> (win32k, display_answer) state" where
  "display_ask d req =
     State (\<lambda>s. let a = dp_system d (wk_trace s) req in (a, s\<lparr>wk_trace := (req, a) # wk_trace s\<rparr>))"

definition get_outputs :: "(win32k, (u64, u64) mapping) state" where
  "get_outputs = State (\<lambda>s. (wk_outputs s, s))"

definition set_outputs :: "(u64, u64) mapping \<Rightarrow> (win32k, unit) state" where
  "set_outputs outputs = State (\<lambda>s. ((), s\<lparr>wk_outputs := outputs\<rparr>))"

subsection \<open>Monitors\<close>

abbreviation (input) CCHDEVICENAME :: nat where "CCHDEVICENAME \<equiv> 32"

definition sizeof_MONITORINFOEXW :: nat where "sizeof_MONITORINFOEXW = 104"
definition offsetof_szDevice :: nat where "offsetof_szDevice = 40"

text \<open>The structure with its size set, and over it what the system writes.\<close>

definition monitor_info :: "display_answer \<Rightarrow> bytes" where
  "monitor_info a =
     (let data = take sizeof_MONITORINFOEXW (da_data a) in
      data @ drop (length data) (le_bytes 4 (of_nat sizeof_MONITORINFOEXW :: u32) @ replicate (sizeof_MONITORINFOEXW - 4) 0))"

definition device_of :: "bytes \<Rightarrow> wstring" where
  "device_of info = u16_list (drop offsetof_szDevice info)"

definition GetMonitorDeviceName :: "display \<Rightarrow> u64 \<Rightarrow> (win32k, wstring option) state" where
  "GetMonitorDeviceName d monitor = do {
     a \<leftarrow> display_ask d (GetMonitorInfoW_request monitor);
     let szDevice = device_of (monitor_info a);
     State_Monad.return
       (if da_status a = 0 then None
        else if szDevice ! (CCHDEVICENAME - 1) \<noteq> 0 then None
        else Some (c_wstr szDevice))
   }"

text \<open>The result of one call of the callback: whether this is the monitor, and then the enumeration stops.\<close>

definition ValidateMonitorEnumProc :: "display \<Rightarrow> u64 \<Rightarrow> wstring \<Rightarrow> u64 \<Rightarrow> (win32k, bool) state" where
  "ValidateMonitorEnumProc d valid_monitor device_name monitor =
     (if device_name = [] then State_Monad.return (monitor = valid_monitor)
      else do {
        name \<leftarrow> GetMonitorDeviceName d monitor;
        State_Monad.return (name = Some device_name)
      })"

fun validate_monitors :: "display \<Rightarrow> u64 \<Rightarrow> wstring \<Rightarrow> u64 list \<Rightarrow> bool \<Rightarrow> (win32k, bool) state" where
  "validate_monitors d valid_monitor device_name [] result = State_Monad.return result"
| "validate_monitors d valid_monitor device_name (monitor # monitors) result = do {
     result \<leftarrow> ValidateMonitorEnumProc d valid_monitor device_name monitor;
     if result then State_Monad.return True
     else validate_monitors d valid_monitor device_name monitors result
   }"

definition IsValidMonitorOrDeviceName :: "display \<Rightarrow> u64 \<Rightarrow> wstring \<Rightarrow> (win32k, bool) state" where
  "IsValidMonitorOrDeviceName d monitor device_name = do {
     a \<leftarrow> display_ask d EnumDisplayMonitors_request;
     validate_monitors d monitor device_name (da_list a) False
   }"

text \<open>\<open>DisplayMonitorEnumProc\<close> over the monitors.\<close>

fun list_monitors :: "u64 list \<Rightarrow> u32 \<Rightarrow> u64 list \<Rightarrow> u64 list" where
  "list_monitors [] n monitor_list = monitor_list"
| "list_monitors (monitor # monitors) n monitor_list =
     (if of_nat (length monitor_list) \<ge> n then monitor_list
      else list_monitors monitors n (monitor_list @ [monitor]))"

subsection \<open>The actions\<close>

definition EnumDisplayMonitorsAction :: "display \<Rightarrow> u32 \<Rightarrow> (win32k, u64 list) state" where
  "EnumDisplayMonitorsAction d monitor_list_size = do {
     a \<leftarrow> display_ask d EnumDisplayMonitors_request;
     State_Monad.return (list_monitors (da_list a) monitor_list_size [])
   }"

definition GetMonitorInfoAction :: "display \<Rightarrow> u64 \<Rightarrow> (win32k, bytes option) state" where
  "GetMonitorInfoAction d monitor = do {
     ok \<leftarrow> IsValidMonitorOrDeviceName d monitor [];
     if \<not> ok then State_Monad.return None
     else do {
       a \<leftarrow> display_ask d (GetMonitorInfoW_request monitor);
       State_Monad.return (if da_status a \<noteq> 0 then Some (monitor_info a) else None)
     }
   }"

text \<open>The status, and the size when it is set.\<close>

definition GetSuggestedOPMProtectedOutputArraySizeAction ::
    "display \<Rightarrow> wstring \<Rightarrow> (win32k, u32 \<times> u32 option) state" where
  "GetSuggestedOPMProtectedOutputArraySizeAction d device_name = do {
     ok \<leftarrow> IsValidMonitorOrDeviceName d 0 (c_wstr device_name);
     if \<not> ok then State_Monad.return (STATUS_ACCESS_DENIED, None)
     else do {
       a \<leftarrow> display_ask d (GetSuggestedSize_request (c_wstr device_name));
       State_Monad.return (da_status a, if da_status a = 0 then Some (ucast (da_value a)) else None)
     }
   }"

text \<open>The status, the size when it is set, and the handles that are written to the array.\<close>

definition CreateOPMProtectedOutputsAction ::
    "display \<Rightarrow> wstring \<Rightarrow> u32 \<Rightarrow> (win32k, u32 \<times> u32 option \<times> u64 list) state" where
  "CreateOPMProtectedOutputsAction d device_name array_input_size = do {
     ok \<leftarrow> IsValidMonitorOrDeviceName d 0 (c_wstr device_name);
     if \<not> ok then State_Monad.return (STATUS_ACCESS_DENIED, None, [])
     else do {
       a \<leftarrow> display_ask d (CreateOutputs_request (c_wstr device_name) array_input_size);
       State_Monad.return (da_status a, if da_status a = 0 then Some (ucast (da_value a)) else None,
         take (unat array_input_size) (da_list a))
     }
   }"

definition GetCertificateSizeAction :: "display \<Rightarrow> wstring \<Rightarrow> (win32k, u32 \<times> u32 option) state" where
  "GetCertificateSizeAction d device_name = do {
     ok \<leftarrow> IsValidMonitorOrDeviceName d 0 (c_wstr device_name);
     if \<not> ok then State_Monad.return (STATUS_ACCESS_DENIED, None)
     else do {
       a \<leftarrow> display_ask d (GetCertificateSize_request (c_wstr device_name));
       State_Monad.return (da_status a, Some (ucast (da_value a)))
     }
   }"

definition GetCertificateAction :: "display \<Rightarrow> wstring \<Rightarrow> u64 \<Rightarrow> u32 \<Rightarrow> (win32k, u32) state" where
  "GetCertificateAction d device_name cert_data cert_size = do {
     ok \<leftarrow> IsValidMonitorOrDeviceName d 0 (c_wstr device_name);
     if \<not> ok then State_Monad.return STATUS_ACCESS_DENIED
     else do {
       a \<leftarrow> display_ask d (GetCertificate_request (c_wstr device_name) cert_data cert_size);
       State_Monad.return (da_status a)
     }
   }"

abbreviation (input) STATUS_NOT_IMPLEMENTED :: u32 where "STATUS_NOT_IMPLEMENTED \<equiv> 0xC0000002"
abbreviation (input) STATUS_INVALID_HANDLE :: u32 where "STATUS_INVALID_HANDLE \<equiv> 0xC0000008"
abbreviation (input) STATUS_INVALID_PARAMETER :: u32 where "STATUS_INVALID_PARAMETER \<equiv> 0xC000000D"

definition GetCertificateSizeByHandleAction :: "display \<Rightarrow> u64 \<Rightarrow> (win32k, u32 \<times> u32 option) state" where
  "GetCertificateSizeByHandleAction d protected_output =
     (if dp_has_GetCertificateSizeByHandle d then do {
        a \<leftarrow> display_ask d (GetCertificateSizeByHandle_request protected_output);
        State_Monad.return (da_status a, Some (ucast (da_value a)))
      }
      else State_Monad.return (STATUS_NOT_IMPLEMENTED, None))"

definition GetCertificateByHandleAction :: "display \<Rightarrow> u64 \<Rightarrow> u64 \<Rightarrow> u32 \<Rightarrow> (win32k, u32) state" where
  "GetCertificateByHandleAction d protected_output cert_data cert_size =
     (if dp_has_GetCertificateByHandle d then do {
        a \<leftarrow> display_ask d (GetCertificateByHandle_request protected_output cert_data cert_size);
        State_Monad.return (da_status a)
      }
      else State_Monad.return STATUS_NOT_IMPLEMENTED)"

text \<open>The status and the bytes that are written, at most 16.\<close>

definition GetOPMRandomNumberAction :: "display \<Rightarrow> u64 \<Rightarrow> (win32k, u32 \<times> bytes) state" where
  "GetOPMRandomNumberAction d protected_output = do {
     a \<leftarrow> display_ask d (GetRandomNumber_request protected_output);
     State_Monad.return (da_status a, take 16 (da_data a))
   }"

definition SetOPMSigningKeyAndSequenceNumbersAction :: "display \<Rightarrow> u64 \<Rightarrow> bytes \<Rightarrow> (win32k, u32) state" where
  "SetOPMSigningKeyAndSequenceNumbersAction d protected_output parameters = do {
     a \<leftarrow> display_ask d (SetSigningKey_request protected_output parameters);
     State_Monad.return (da_status a)
   }"

text \<open>A GUID: a field of four bytes, two of two and eight bytes.\<close>

definition guid :: "u32 \<Rightarrow> u16 \<Rightarrow> u16 \<Rightarrow> bytes \<Rightarrow> bytes" where
  "guid d1 d2 d3 d4 = le_bytes 4 d1 @ le_bytes 2 d2 @ le_bytes 2 d3 @ d4"

definition DXGKMDT_OPM_GET_CONNECTOR_TYPE :: bytes where
  "DXGKMDT_OPM_GET_CONNECTOR_TYPE = guid 0x81d0bfd5 0x6afe 0x48c2 [0x99, 0xc0, 0x95, 0xa0, 0x8f, 0x97, 0xc5, 0xda]"
definition DXGKMDT_OPM_GET_SUPPORTED_PROTECTION_TYPES :: bytes where
  "DXGKMDT_OPM_GET_SUPPORTED_PROTECTION_TYPES =
     guid 0x38f2a801 0x9a6c 0x48bb [0x91, 0x07, 0xb6, 0x69, 0x6e, 0x6f, 0x17, 0x97]"
definition DXGKMDT_OPM_GET_VIRTUAL_PROTECTION_LEVEL :: bytes where
  "DXGKMDT_OPM_GET_VIRTUAL_PROTECTION_LEVEL =
     guid 0xb2075857 0x3eda 0x4d5d [0x88, 0xdb, 0x74, 0x8f, 0x8c, 0x1a, 0x05, 0x49]"
definition DXGKMDT_OPM_GET_ACTUAL_PROTECTION_LEVEL :: bytes where
  "DXGKMDT_OPM_GET_ACTUAL_PROTECTION_LEVEL =
     guid 0x1957210a 0x7766 0x452a [0xb9, 0x9a, 0xd2, 0x7a, 0xed, 0x54, 0xf0, 0x3a]"
definition DXGKMDT_OPM_SET_PROTECTION_LEVEL :: bytes where
  "DXGKMDT_OPM_SET_PROTECTION_LEVEL = guid 0x9bb9327c 0x4eb5 0x4727 [0x9f, 0x00, 0xb4, 0x2b, 0x09, 0x19, 0xc0, 0xda]"

abbreviation (input) DXGKMDT_OPM_PROTECTION_TYPE_HDCP :: u32 where "DXGKMDT_OPM_PROTECTION_TYPE_HDCP \<equiv> 8"
abbreviation (input) DXGKMDT_OPM_PROTECTION_TYPE_DPCP :: u32 where "DXGKMDT_OPM_PROTECTION_TYPE_DPCP \<equiv> 16"
abbreviation (input) DXGKMDT_OPM_HDCP_OFF :: u32 where "DXGKMDT_OPM_HDCP_OFF \<equiv> 0"
abbreviation (input) DXGKMDT_OPM_HDCP_ON :: u32 where "DXGKMDT_OPM_HDCP_ON \<equiv> 1"

definition sizeof_OPM_CONFIGURE_PARAMETERS :: nat where "sizeof_OPM_CONFIGURE_PARAMETERS = 16 + 16 + 4 + 4 + 4056"
definition sizeof_OPM_GET_INFO_PARAMETERS :: nat where "sizeof_OPM_GET_INFO_PARAMETERS = 16 + 16 + 16 + 4 + 4 + 4056"
definition sizeof_OPM_REQUESTED_INFORMATION :: nat where "sizeof_OPM_REQUESTED_INFORMATION = 16 + 4 + 4076"
definition sizeof_OPM_SET_PROTECTION_LEVEL_PARAMETERS :: u32 where "sizeof_OPM_SET_PROTECTION_LEVEL_PARAMETERS = 16"

definition field :: "bytes \<Rightarrow> nat \<Rightarrow> nat \<Rightarrow> bytes" where
  "field bs offset n = take n (drop offset bs)"

definition field32 :: "bytes \<Rightarrow> nat \<Rightarrow> u32" where
  "field32 bs offset = le_value (field bs offset 4)"

text \<open>
  The parameters are copied from the shared memory once; what was checked is what is passed on. In
  \<open>DXGKMDT_OPM_CONFIGURE_PARAMETERS\<close> the setting is at 16, the size at 36 and the parameters at 40; in
  \<open>DXGKMDT_OPM_GET_INFO_PARAMETERS\<close> each is 16 bytes later.
\<close>

definition ConfigureOPMProtectedOutputAction :: "display \<Rightarrow> u64 \<Rightarrow> u64 \<Rightarrow> (win32k, u32) state" where
  "ConfigureOPMProtectedOutputAction d protected_output parameters_ptr = do {
     a \<leftarrow> display_ask d (ReadView_request parameters_ptr sizeof_OPM_CONFIGURE_PARAMETERS);
     let parameters = filled sizeof_OPM_CONFIGURE_PARAMETERS (da_data a);
     if field parameters 16 16 \<noteq> DXGKMDT_OPM_SET_PROTECTION_LEVEL
       \<or> field32 parameters 36 \<noteq> sizeof_OPM_SET_PROTECTION_LEVEL_PARAMETERS
     then State_Monad.return STATUS_INVALID_PARAMETER
     else if field32 parameters 48 \<noteq> 0 \<or> field32 parameters 52 \<noteq> 0 then State_Monad.return STATUS_INVALID_PARAMETER
     else if field32 parameters 40 \<noteq> DXGKMDT_OPM_PROTECTION_TYPE_HDCP
       \<and> field32 parameters 40 \<noteq> DXGKMDT_OPM_PROTECTION_TYPE_DPCP
     then State_Monad.return STATUS_INVALID_PARAMETER
     else if field32 parameters 44 \<noteq> DXGKMDT_OPM_HDCP_OFF \<and> field32 parameters 44 \<noteq> DXGKMDT_OPM_HDCP_ON
     then State_Monad.return STATUS_INVALID_PARAMETER
     else do {
       a \<leftarrow> display_ask d (Configure_request protected_output parameters);
       State_Monad.return (da_status a)
     }
   }"

definition information_valid :: "bytes \<Rightarrow> bool" where
  "information_valid parameters =
     (let guidInformation = field parameters 32 16; cbParametersSize = field32 parameters 52 in
      if (guidInformation = DXGKMDT_OPM_GET_CONNECTOR_TYPE
          \<or> guidInformation = DXGKMDT_OPM_GET_SUPPORTED_PROTECTION_TYPES) \<and> cbParametersSize = 0
      then True
      else if (guidInformation = DXGKMDT_OPM_GET_VIRTUAL_PROTECTION_LEVEL
          \<or> guidInformation = DXGKMDT_OPM_GET_ACTUAL_PROTECTION_LEVEL) \<and> cbParametersSize = 4
      then (let param_value = field32 parameters 56 in
        param_value = DXGKMDT_OPM_PROTECTION_TYPE_HDCP \<or> param_value = DXGKMDT_OPM_PROTECTION_TYPE_DPCP)
      else False)"

text \<open>The status and the information, which is written on success only.\<close>

definition GetOPMInformationAction :: "display \<Rightarrow> u64 \<Rightarrow> u64 \<Rightarrow> (win32k, u32 \<times> bytes) state" where
  "GetOPMInformationAction d protected_output parameters_ptr = do {
     a \<leftarrow> display_ask d (ReadView_request parameters_ptr sizeof_OPM_GET_INFO_PARAMETERS);
     let parameters = filled sizeof_OPM_GET_INFO_PARAMETERS (da_data a);
     if \<not> information_valid parameters then State_Monad.return (STATUS_INVALID_PARAMETER, [])
     else do {
       a \<leftarrow> display_ask d (GetInformation_request protected_output parameters);
       State_Monad.return (da_status a, filled sizeof_OPM_REQUESTED_INFORMATION (da_data a))
     }
   }"

subsection \<open>Shared memory of the client\<close>

text \<open>The handle, or 0. A handle that is not positive is a pseudo handle or null.\<close>

definition GetSharedMemoryHandle :: "display \<Rightarrow> u64 \<Rightarrow> (win32k, u64) state" where
  "GetSharedMemoryHandle d handle =
     (if sint handle \<le> 0 then State_Monad.return 0
      else do {
        a \<leftarrow> display_ask d (DuplicateFromClient_request handle);
        State_Monad.return (if da_status a = 0 then 0 else da_value a)
      })"

abbreviation (input) SEC_IMAGE :: u32 where "SEC_IMAGE \<equiv> 0x1000000"

text \<open>The attributes of the section are in the answer's value.\<close>

definition IsSectionSafeToMap :: "display \<Rightarrow> u64 \<Rightarrow> (win32k, bool) state" where
  "IsSectionSafeToMap d handle = do {
     a \<leftarrow> display_ask d (NtQuerySection_request handle);
     State_Monad.return (da_status a = 0 \<and> ucast (da_value a) AND SEC_IMAGE \<noteq> SEC_IMAGE)
   }"

text \<open>
  \<open>SharedMemory::MapAt\<close> at offset 0 on a fresh object for a handle of somebody else: the address of the view, or 0. The
  system maps the whole section when \<open>n\<close> is 0.
\<close>

definition SharedMemory_Map :: "display \<Rightarrow> u64 \<Rightarrow> u64 \<Rightarrow> (win32k, u64) state" where
  "SharedMemory_Map d mapped_file n =
     (if mapped_file = 0 then State_Monad.return 0
      else if n > 0x7FFFFFFF then State_Monad.return 0
      else do {
        safe \<leftarrow> IsSectionSafeToMap d mapped_file;
        if \<not> safe then State_Monad.return 0
        else do {
          a \<leftarrow> display_ask d (MapViewOfFile_request mapped_file n);
          State_Monad.return (da_value a)
        }
      })"

text \<open>The destructor: \<open>Unmap\<close> and \<open>Close\<close>.\<close>

definition SharedMemory_destroy :: "display \<Rightarrow> u64 \<Rightarrow> u64 \<Rightarrow> (win32k, unit) state" where
  "SharedMemory_destroy d mapped_file memory = do {
     _ \<leftarrow> (if memory = 0 then State_Monad.return () else do {
       _ \<leftarrow> display_ask d (UnmapViewOfFile_request memory);
       State_Monad.return ()
     });
     if mapped_file = 0 then State_Monad.return () else do {
       _ \<leftarrow> display_ask d (CloseSection_request mapped_file);
       State_Monad.return ()
     }
   }"

text \<open>
  The part that the handlers with shared memory have in common: the handle, the object with the handle (which takes only
  handles that are not \<open>INVALID_HANDLE_VALUE\<close>), the mapping, and after the use the destruction.
\<close>

definition with_shared_memory ::
    "display \<Rightarrow> u64 \<Rightarrow> u64 \<Rightarrow> (u64 \<Rightarrow> (win32k, u32) state) \<Rightarrow> (win32k, u32) state" where
  "with_shared_memory d shared_buffer_handle n use = do {
     handle \<leftarrow> GetSharedMemoryHandle d shared_buffer_handle;
     if handle = 0 then State_Monad.return STATUS_ACCESS_DENIED
     else do {
       let mapped_file = (if handle = INVALID_HANDLE_VALUE then 0 else handle);
       memory \<leftarrow> SharedMemory_Map d mapped_file n;
       status \<leftarrow> (if memory = 0 then State_Monad.return STATUS_ACCESS_DENIED else use memory);
       _ \<leftarrow> SharedMemory_destroy d mapped_file memory;
       State_Monad.return status
     }
   }"

subsection \<open>The dispatcher\<close>

abbreviation (input) kProtectedVideoOutputSectionSize :: u32 where "kProtectedVideoOutputSectionSize \<equiv> 16 * 1024"
abbreviation (input) kMaxEnumMonitors :: u32 where "kMaxEnumMonitors \<equiv> 32"
abbreviation (input) ERROR_INVALID_PARAMETER :: u32 where "ERROR_INVALID_PARAMETER \<equiv> 87"

text \<open>\<open>~ProtectedVideoOutput\<close>.\<close>

definition ProtectedVideoOutput_destroy :: "display \<Rightarrow> u64 \<Rightarrow> (win32k, unit) state" where
  "ProtectedVideoOutput_destroy d handle = do {
     _ \<leftarrow> display_ask d (DestroyOutput_request handle);
     State_Monad.return ()
   }"

definition GetProtectedVideoOutput :: "u64 \<Rightarrow> bool \<Rightarrow> (win32k, u64 option) state" where
  "GetProtectedVideoOutput handle destroy_output = do {
     outputs \<leftarrow> get_outputs;
     case Mapping.lookup outputs handle of
       None \<Rightarrow> State_Monad.return None
     | Some result \<Rightarrow> do {
         _ \<leftarrow> (if destroy_output then set_outputs (Mapping.delete handle outputs) else State_Monad.return ());
         State_Monad.return (Some result)
       }
   }"

text \<open>\<open>protected_outputs_[handle] = new ProtectedVideoOutput(handle)\<close>; an object that was there loses its last reference.\<close>

definition insert_output :: "display \<Rightarrow> u64 \<Rightarrow> (win32k, unit) state" where
  "insert_output d handle = do {
     outputs \<leftarrow> get_outputs;
     _ \<leftarrow> set_outputs (Mapping.update handle handle outputs);
     case Mapping.lookup outputs handle of
       None \<Rightarrow> State_Monad.return ()
     | Some old \<Rightarrow> ProtectedVideoOutput_destroy d old
   }"

fun insert_outputs :: "display \<Rightarrow> u64 list \<Rightarrow> (win32k, unit) state" where
  "insert_outputs d [] = State_Monad.return ()"
| "insert_outputs d (handle # handles) = do {
     _ \<leftarrow> insert_output d handle;
     insert_outputs d handles
   }"

text \<open>An answer with a status, with a first extended value, and a Win32 error in place of a status.\<close>

definition status_answer :: "bytes \<Rightarrow> u32 \<Rightarrow> abort + handled" where
  "status_answer message status = Inr (True, zero_return\<lparr>cr_status := status\<rparr>, message)"

definition value_answer :: "bytes \<Rightarrow> u32 \<times> u32 option \<Rightarrow> abort + handled" where
  "value_answer message = (\<lambda>(status, v).
     Inr (True, zero_return\<lparr>cr_status := status, cr_extended_count := (if status = 0 then 1 else 0),
       cr_extended := (case v of None \<Rightarrow> cr_extended zero_return | Some v \<Rightarrow> (cr_extended zero_return)[0 := ucast v])\<rparr>, message))"

text \<open>The list of handles at an address of the message.\<close>

fun u64_list :: "bytes \<Rightarrow> u64 list" where
  "u64_list (b0 # b1 # b2 # b3 # b4 # b5 # b6 # b7 # bs) = le_value [b0, b1, b2, b3, b4, b5, b6, b7] # u64_list bs"
| "u64_list bs = []"

definition u64_bytes :: "u64 list \<Rightarrow> bytes" where
  "u64_bytes ws = concat (map (le_bytes 8) ws)"

definition sizeof_EnumMonitorsResult :: u32 where "sizeof_EnumMonitorsResult = 8 + 8 * kMaxEnumMonitors"

type_synonym display_handler = "(win32k, abort + handled) state"

definition Win32K_EnumDisplayMonitors :: "display \<Rightarrow> cross_params \<Rightarrow> u64 \<Rightarrow> u32 \<Rightarrow> display_handler" where
  "Win32K_EnumDisplayMonitors d p buffer buffer_size =
     (if \<not> dp_redirection d then State_Monad.return (status_answer (cp_bytes p) ERROR_ACCESS_DENIED)
      else if buffer_size \<noteq> sizeof_EnumMonitorsResult then State_Monad.return (status_answer (cp_bytes p) ERROR_INVALID_PARAMETER)
      else do {
        monitor_list \<leftarrow> EnumDisplayMonitorsAction d kMaxEnumMonitors;
        let message = store_param p (buffer + 8) (u64_bytes monitor_list);
        let message = store_param (p\<lparr>cp_bytes := message\<rparr>) buffer (le_bytes 4 (of_nat (length monitor_list) :: u32));
        State_Monad.return (status_answer message 0)
      })"

text \<open>\<open>cbSize\<close> is written before the monitor is checked.\<close>

definition Win32K_GetMonitorInfo :: "display \<Rightarrow> cross_params \<Rightarrow> u64 \<Rightarrow> u64 \<Rightarrow> u32 \<Rightarrow> display_handler" where
  "Win32K_GetMonitorInfo d p monitor buffer buffer_size =
     (if \<not> dp_redirection d then State_Monad.return (status_answer (cp_bytes p) ERROR_ACCESS_DENIED)
      else if unat buffer_size \<noteq> sizeof_MONITORINFOEXW then State_Monad.return (status_answer (cp_bytes p) ERROR_INVALID_PARAMETER)
      else do {
        let message = store_param p buffer (le_bytes 4 buffer_size);
        r \<leftarrow> GetMonitorInfoAction d monitor;
        State_Monad.return (case r of
            None \<Rightarrow> status_answer message ERROR_INVALID_PARAMETER
          | Some info \<Rightarrow> status_answer (store_param (p\<lparr>cp_bytes := message\<rparr>) buffer info) ERROR_SUCCESS)
      })"

definition Win32K_GetSuggestedOPMProtectedOutputArraySize :: "display \<Rightarrow> bytes \<Rightarrow> wstring \<Rightarrow> display_handler" where
  "Win32K_GetSuggestedOPMProtectedOutputArraySize d message device_name =
     (if \<not> dp_redirection d then State_Monad.return (status_answer message STATUS_ACCESS_DENIED)
      else do {
        r \<leftarrow> GetSuggestedOPMProtectedOutputArraySizeAction d device_name;
        State_Monad.return (value_answer message r)
      })"

text \<open>The handles are read from the buffer, where the system put as many as it says.\<close>

definition Win32K_CreateOPMProtectedOutputs :: "display \<Rightarrow> cross_params \<Rightarrow> wstring \<Rightarrow> u64 \<Rightarrow> u32 \<Rightarrow> display_handler" where
  "Win32K_CreateOPMProtectedOutputs d p device_name protected_outputs outputs_size =
     (if \<not> dp_redirection d then State_Monad.return (status_answer (cp_bytes p) STATUS_ACCESS_DENIED)
      else do {
        let input_array_size = outputs_size div 8;
        (status, set_size, handles) \<leftarrow> CreateOPMProtectedOutputsAction d device_name input_array_size;
        let output_array_size = (case set_size of None \<Rightarrow> 0 | Some n \<Rightarrow> n);
        let message = store_param p protected_outputs (u64_bytes handles);
        if status = 0 \<and> output_array_size \<le> input_array_size then
          (case load_param (p\<lparr>cp_bytes := message\<rparr>) protected_outputs (8 * unat output_array_size) of
             Inl e \<Rightarrow> State_Monad.return (Inl e)
           | Inr bs \<Rightarrow> do {
               _ \<leftarrow> insert_outputs d (u64_list bs);
               State_Monad.return (value_answer message (status, Some output_array_size))
             })
        else State_Monad.return (status_answer message status)
      })"

definition Win32K_GetCertificateSize :: "display \<Rightarrow> bytes \<Rightarrow> wstring \<Rightarrow> u64 \<Rightarrow> display_handler" where
  "Win32K_GetCertificateSize d message device_name protected_output =
     (if \<not> dp_redirection d then State_Monad.return (status_answer message STATUS_ACCESS_DENIED)
      else do {
        r \<leftarrow> (if device_name \<noteq> [] then GetCertificateSizeAction d device_name
          else do {
            output \<leftarrow> GetProtectedVideoOutput protected_output False;
            case output of
              None \<Rightarrow> State_Monad.return (STATUS_INVALID_PARAMETER, None)
            | Some handle \<Rightarrow> GetCertificateSizeByHandleAction d handle
          });
        State_Monad.return (value_answer message r)
      })"

definition Win32K_GetCertificate :: "display \<Rightarrow> bytes \<Rightarrow> wstring \<Rightarrow> u64 \<Rightarrow> u64 \<Rightarrow> u32 \<Rightarrow> display_handler" where
  "Win32K_GetCertificate d message device_name protected_output shared_buffer_handle shared_buffer_size =
     (if \<not> dp_redirection d then State_Monad.return (status_answer message STATUS_ACCESS_DENIED)
      else if shared_buffer_size > kProtectedVideoOutputSectionSize
      then State_Monad.return (status_answer message STATUS_ACCESS_DENIED)
      else do {
        status \<leftarrow> with_shared_memory d shared_buffer_handle (ucast shared_buffer_size) (\<lambda>memory.
          if device_name \<noteq> [] then GetCertificateAction d device_name memory shared_buffer_size
          else do {
            output \<leftarrow> GetProtectedVideoOutput protected_output False;
            case output of
              None \<Rightarrow> State_Monad.return STATUS_INVALID_PARAMETER
            | Some handle \<Rightarrow> GetCertificateByHandleAction d handle memory shared_buffer_size
          });
        State_Monad.return (status_answer message status)
      })"

definition Win32K_DestroyOPMProtectedOutput :: "display \<Rightarrow> bytes \<Rightarrow> u64 \<Rightarrow> display_handler" where
  "Win32K_DestroyOPMProtectedOutput d message protected_output =
     (if \<not> dp_redirection d then State_Monad.return (status_answer message STATUS_ACCESS_DENIED)
      else do {
        output \<leftarrow> GetProtectedVideoOutput protected_output True;
        case output of
          None \<Rightarrow> State_Monad.return (status_answer message STATUS_INVALID_HANDLE)
        | Some handle \<Rightarrow> do {
            _ \<leftarrow> ProtectedVideoOutput_destroy d handle;
            State_Monad.return (status_answer message STATUS_SUCCESS)
          }
      })"

definition Win32K_GetOPMRandomNumber :: "display \<Rightarrow> cross_params \<Rightarrow> u64 \<Rightarrow> u64 \<Rightarrow> u32 \<Rightarrow> display_handler" where
  "Win32K_GetOPMRandomNumber d p protected_output random_number random_number_size =
     (if \<not> dp_redirection d then State_Monad.return (status_answer (cp_bytes p) STATUS_ACCESS_DENIED)
      else do {
        output \<leftarrow> GetProtectedVideoOutput protected_output False;
        case output of
          None \<Rightarrow> State_Monad.return (status_answer (cp_bytes p) STATUS_INVALID_PARAMETER)
        | Some handle \<Rightarrow>
            if random_number_size \<noteq> 16 then State_Monad.return (status_answer (cp_bytes p) STATUS_INVALID_PARAMETER)
            else do {
              (status, random) \<leftarrow> GetOPMRandomNumberAction d handle;
              State_Monad.return (status_answer (store_param p random_number random) status)
            }
      })"

definition Win32K_SetOPMSigningKeyAndSequenceNumbers :: "display \<Rightarrow> cross_params \<Rightarrow> u64 \<Rightarrow> u64 \<Rightarrow> u32 \<Rightarrow> display_handler" where
  "Win32K_SetOPMSigningKeyAndSequenceNumbers d p protected_output parameters parameters_size =
     (if \<not> dp_redirection d then State_Monad.return (status_answer (cp_bytes p) STATUS_ACCESS_DENIED)
      else do {
        output \<leftarrow> GetProtectedVideoOutput protected_output False;
        case output of
          None \<Rightarrow> State_Monad.return (status_answer (cp_bytes p) STATUS_INVALID_PARAMETER)
        | Some handle \<Rightarrow>
            if parameters_size \<noteq> 256 then State_Monad.return (status_answer (cp_bytes p) STATUS_INVALID_PARAMETER)
            else
              (case load_param p parameters 256 of
                 Inl e \<Rightarrow> State_Monad.return (Inl e)
               | Inr bs \<Rightarrow> do {
                   status \<leftarrow> SetOPMSigningKeyAndSequenceNumbersAction d handle bs;
                   State_Monad.return (status_answer (cp_bytes p) status)
                 })
      })"

definition Win32K_ConfigureOPMProtectedOutput :: "display \<Rightarrow> bytes \<Rightarrow> u64 \<Rightarrow> u64 \<Rightarrow> display_handler" where
  "Win32K_ConfigureOPMProtectedOutput d message protected_output shared_buffer_handle =
     (if \<not> dp_redirection d then State_Monad.return (status_answer message STATUS_ACCESS_DENIED)
      else do {
        output \<leftarrow> GetProtectedVideoOutput protected_output False;
        case output of
          None \<Rightarrow> State_Monad.return (status_answer message STATUS_INVALID_HANDLE)
        | Some handle \<Rightarrow> do {
            status \<leftarrow> with_shared_memory d shared_buffer_handle (of_nat sizeof_OPM_CONFIGURE_PARAMETERS)
              (ConfigureOPMProtectedOutputAction d handle);
            State_Monad.return (status_answer message status)
          }
      })"

definition Win32K_GetOPMInformation :: "display \<Rightarrow> bytes \<Rightarrow> u64 \<Rightarrow> u64 \<Rightarrow> display_handler" where
  "Win32K_GetOPMInformation d message protected_output shared_buffer_handle =
     (if \<not> dp_redirection d then State_Monad.return (status_answer message STATUS_ACCESS_DENIED)
      else do {
        output \<leftarrow> GetProtectedVideoOutput protected_output False;
        case output of
          None \<Rightarrow> State_Monad.return (status_answer message STATUS_ACCESS_DENIED)
        | Some handle \<Rightarrow> do {
            status \<leftarrow> with_shared_memory d shared_buffer_handle
              (of_nat (max sizeof_OPM_GET_INFO_PARAMETERS sizeof_OPM_REQUESTED_INFORMATION)) (\<lambda>memory. do {
                (status, requested_info) \<leftarrow> GetOPMInformationAction d handle memory;
                _ \<leftarrow> (if status \<noteq> 0 then State_Monad.return () else do {
                  _ \<leftarrow> display_ask d (WriteView_request memory requested_info);
                  State_Monad.return ()
                });
                State_Monad.return status
              });
            State_Monad.return (status_answer message status)
          }
      })"

text \<open>The destructor of the dispatcher destroys the map, in the order of the handles.\<close>

fun destroy_outputs :: "display \<Rightarrow> (u64, u64) mapping \<Rightarrow> u64 list \<Rightarrow> (win32k, unit) state" where
  "destroy_outputs d outputs [] = State_Monad.return ()"
| "destroy_outputs d outputs (handle # handles) = do {
     _ \<leftarrow> (case Mapping.lookup outputs handle of
        None \<Rightarrow> State_Monad.return ()
      | Some output \<Rightarrow> ProtectedVideoOutput_destroy d output);
     destroy_outputs d outputs handles
   }"

definition Win32K_destroy :: "display \<Rightarrow> (win32k, unit) state" where
  "Win32K_destroy d = do {
     outputs \<leftarrow> get_outputs;
     _ \<leftarrow> set_outputs Mapping.empty;
     destroy_outputs d outputs (Mapping.ordered_keys outputs)
   }"

text \<open>The call of a handler, and the calls of a client one after the other.\<close>

definition run_win32k :: "display \<Rightarrow> handler \<Rightarrow> ipc_arg list \<Rightarrow> cross_params \<Rightarrow> display_handler" where
  "run_win32k d handler args p =
     (case (handler, args) of
        (EnumDisplayMonitors, [BufferArg buffer n]) \<Rightarrow> Win32K_EnumDisplayMonitors d p buffer n
      | (GetMonitorInfo, [PtrArg monitor, BufferArg buffer n]) \<Rightarrow> Win32K_GetMonitorInfo d p monitor buffer n
      | (GetSuggestedOPMProtectedOutputArraySize, [StringArg name]) \<Rightarrow>
          Win32K_GetSuggestedOPMProtectedOutputArraySize d (cp_bytes p) name
      | (CreateOPMProtectedOutputs, [StringArg name, BufferArg buffer n]) \<Rightarrow>
          Win32K_CreateOPMProtectedOutputs d p name buffer n
      | (GetCertificateSize, [StringArg name, PtrArg output]) \<Rightarrow> Win32K_GetCertificateSize d (cp_bytes p) name output
      | (GetCertificate, [StringArg name, PtrArg output, PtrArg handle, IntArg n]) \<Rightarrow>
          Win32K_GetCertificate d (cp_bytes p) name output handle n
      | (DestroyOPMProtectedOutput, [PtrArg output]) \<Rightarrow> Win32K_DestroyOPMProtectedOutput d (cp_bytes p) output
      | (GetOPMRandomNumber, [PtrArg output, BufferArg buffer n]) \<Rightarrow> Win32K_GetOPMRandomNumber d p output buffer n
      | (SetOPMSigningKeyAndSequenceNumbers, [PtrArg output, BufferArg buffer n]) \<Rightarrow>
          Win32K_SetOPMSigningKeyAndSequenceNumbers d p output buffer n
      | (ConfigureOPMProtectedOutput, [PtrArg output, PtrArg handle]) \<Rightarrow>
          Win32K_ConfigureOPMProtectedOutput d (cp_bytes p) output handle
      | (GetOPMInformation, [PtrArg output, PtrArg handle]) \<Rightarrow> Win32K_GetOPMInformation d (cp_bytes p) output handle
      | _ \<Rightarrow> State_Monad.return (Inl (CheckFailed ''type'')))"

fun win32k_calls :: "display \<Rightarrow> (handler \<times> ipc_arg list \<times> cross_params) list \<Rightarrow> (win32k, (abort + handled) list) state" where
  "win32k_calls d [] = State_Monad.return []"
| "win32k_calls d ((handler, args, p) # calls) = do {
     r \<leftarrow> run_win32k d handler args p;
     rs \<leftarrow> win32k_calls d calls;
     State_Monad.return (r # rs)
   }"

end
