(* ===== verification/Win_Display_Correct.thy ===== *)
theory Win_Display_Correct
  imports Win_Display Win_Handlers_Correct Win_Ipc_Correct "HOL-Library.Multiset"
begin

text \<open>
  What the dispatcher of the win32k calls guarantees: every request to the display system is about something the
  client was given, with parameters that were checked, and nothing is left open. The proofs are over weakest
  preconditions of the state monad.
\<close>

subsection \<open>Weakest preconditions\<close>

definition wp :: "('s, 'a) state \<Rightarrow> ('a \<Rightarrow> 's \<Rightarrow> bool) \<Rightarrow> 's \<Rightarrow> bool" where
  "wp m Q s = (case run_state m s of (x, s') \<Rightarrow> Q x s')"

lemma wp_return [simp]: "wp (State_Monad.return x) Q = Q x"
  by (simp add: fun_eq_iff wp_def)

lemma wp_bind [simp]: "wp (State_Monad.bind m f) Q = wp m (\<lambda>x. wp (f x) Q)"
  by (simp add: fun_eq_iff wp_def split: prod.splits)

lemma wp_if [simp]: "wp (if b then m else m') Q = (if b then wp m Q else wp m' Q)"
  by simp

lemma wp_get_outputs [simp]: "wp get_outputs Q = (\<lambda>s. Q (wk_outputs s) s)"
  by (simp add: fun_eq_iff wp_def get_outputs_def)

lemma wp_set_outputs [simp]: "wp (set_outputs outs) Q = (\<lambda>s. Q () (s\<lparr>wk_outputs := outs\<rparr>))"
  by (simp add: fun_eq_iff wp_def set_outputs_def)

lemma wp_mono: "wp m P s \<Longrightarrow> (\<And>x s. P x s \<Longrightarrow> Q x s) \<Longrightarrow> wp m Q s"
  by (auto simp: wp_def)

lemma wp_ask: "wp (display_ask d req) Q s =
    Q (dp_system d (wk_trace s) req) (s\<lparr>wk_trace := (req, dp_system d (wk_trace s) req) # wk_trace s\<rparr>)"
  by (simp add: wp_def display_ask_def Let_def)

subsection \<open>What is authorised\<close>

text \<open>The monitors of the last enumeration, and the names of monitors that were learnt since then.\<close>

fun monitors :: "display_trace \<Rightarrow> u64 set" where
  "monitors [] = {}"
| "monitors ((EnumDisplayMonitors_request, a) # tr) = set (da_list a)"
| "monitors (_ # tr) = monitors tr"

definition named_device :: "display_answer \<Rightarrow> wstring option" where
  "named_device a =
     (if da_status a \<noteq> 0 \<and> device_of (monitor_info a) ! (CCHDEVICENAME - 1) = 0
      then Some (c_wstr (device_of (monitor_info a))) else None)"

fun device_names :: "display_trace \<Rightarrow> wstring set" where
  "device_names [] = {}"
| "device_names ((EnumDisplayMonitors_request, a) # tr) = {}"
| "device_names ((GetMonitorInfoW_request m, a) # tr) = set_option (named_device a) \<union> device_names tr"
| "device_names (_ # tr) = device_names tr"

text \<open>The handles of video outputs that the client was given and that were not destroyed since.\<close>

definition created :: "u32 \<Rightarrow> display_answer \<Rightarrow> u64 set" where
  "created n a = (if da_status a = 0 \<and> (ucast (da_value a) :: u32) \<le> n then set (da_list a) else {})"

fun live :: "display_trace \<Rightarrow> u64 set" where
  "live [] = {}"
| "live ((CreateOutputs_request name n, a) # tr) = live tr \<union> created n a"
| "live ((DestroyOutput_request h, a) # tr) = live tr - {h}"
| "live (_ # tr) = live tr"

text \<open>Sections and views that are open.\<close>

fun sections :: "display_trace \<Rightarrow> u64 multiset" where
  "sections [] = {#}"
| "sections ((DuplicateFromClient_request h, a) # tr) =
     (if da_status a = 0 \<or> da_value a = 0 \<or> da_value a = INVALID_HANDLE_VALUE then {#} else {#da_value a#}) + sections tr"
| "sections ((CloseSection_request h, a) # tr) = sections tr - {#h#}"
| "sections (_ # tr) = sections tr"

text \<open>The view that is mapped, with its size.\<close>

fun views :: "display_trace \<Rightarrow> (u64 \<times> u64) list" where
  "views [] = []"
| "views ((MapViewOfFile_request h n, a) # tr) = (if da_value a = 0 then [] else [(da_value a, n)]) @ views tr"
| "views ((UnmapViewOfFile_request v, a) # tr) = filter (\<lambda>x. fst x \<noteq> v) (views tr)"
| "views (_ # tr) = views tr"

fun safe_section :: "u64 \<Rightarrow> display_trace \<Rightarrow> bool" where
  "safe_section h ((NtQuerySection_request h', a) # tr) \<longleftrightarrow>
     h' = h \<and> da_status a = 0 \<and> (ucast (da_value a) :: u32) AND SEC_IMAGE \<noteq> SEC_IMAGE"
| "safe_section h tr \<longleftrightarrow> False"

definition configuration_valid :: "bytes \<Rightarrow> bool" where
  "configuration_valid ps \<longleftrightarrow> length ps = sizeof_OPM_CONFIGURE_PARAMETERS
     \<and> field ps 16 16 = DXGKMDT_OPM_SET_PROTECTION_LEVEL \<and> field32 ps 36 = sizeof_OPM_SET_PROTECTION_LEVEL_PARAMETERS
     \<and> field32 ps 40 \<in> {DXGKMDT_OPM_PROTECTION_TYPE_HDCP, DXGKMDT_OPM_PROTECTION_TYPE_DPCP}
     \<and> field32 ps 44 \<in> {DXGKMDT_OPM_HDCP_OFF, DXGKMDT_OPM_HDCP_ON} \<and> field32 ps 48 = 0 \<and> field32 ps 52 = 0"

definition names_a_device :: "display_trace \<Rightarrow> wstring \<Rightarrow> bool" where
  "names_a_device tr name \<longleftrightarrow> name \<in> device_names tr \<or> name = [] \<and> 0 \<in> monitors tr"

text \<open>A certificate is written into the view, as much as was mapped.\<close>

fun display_authorised :: "display_trace \<Rightarrow> display_request \<Rightarrow> bool" where
  "display_authorised tr EnumDisplayMonitors_request \<longleftrightarrow> True"
| "display_authorised tr (GetMonitorInfoW_request m) \<longleftrightarrow> m \<in> monitors tr"
| "display_authorised tr (GetSuggestedSize_request name) \<longleftrightarrow> names_a_device tr name"
| "display_authorised tr (CreateOutputs_request name n) \<longleftrightarrow> names_a_device tr name"
| "display_authorised tr (GetCertificateSize_request name) \<longleftrightarrow> names_a_device tr name"
| "display_authorised tr (GetCertificate_request name v n) \<longleftrightarrow> names_a_device tr name \<and> (v, ucast n) \<in> set (views tr)"
| "display_authorised tr (GetCertificateSizeByHandle_request h) \<longleftrightarrow> h \<in> live tr"
| "display_authorised tr (GetCertificateByHandle_request h v n) \<longleftrightarrow> h \<in> live tr \<and> (v, ucast n) \<in> set (views tr)"
| "display_authorised tr (DestroyOutput_request h) \<longleftrightarrow> h \<in> live tr"
| "display_authorised tr (GetRandomNumber_request h) \<longleftrightarrow> h \<in> live tr"
| "display_authorised tr (SetSigningKey_request h ps) \<longleftrightarrow> h \<in> live tr \<and> length ps = 256"
| "display_authorised tr (Configure_request h ps) \<longleftrightarrow> h \<in> live tr \<and> configuration_valid ps"
| "display_authorised tr (GetInformation_request h ps) \<longleftrightarrow> h \<in> live tr \<and> information_valid ps"
| "display_authorised tr (DuplicateFromClient_request h) \<longleftrightarrow> 0 < sint h"
| "display_authorised tr (NtQuerySection_request h) \<longleftrightarrow> h \<in># sections tr"
| "display_authorised tr (MapViewOfFile_request h n) \<longleftrightarrow> h \<in># sections tr \<and> safe_section h tr \<and> n \<le> 16 * 1024"
| "display_authorised tr (UnmapViewOfFile_request v) \<longleftrightarrow> v \<in> fst ` set (views tr)"
| "display_authorised tr (CloseSection_request h) \<longleftrightarrow> h \<in># sections tr \<and> views tr = []"
| "display_authorised tr (ReadView_request v n) \<longleftrightarrow> (\<exists>k. (v, k) \<in> set (views tr) \<and> n \<le> unat k)"
| "display_authorised tr (WriteView_request v bs) \<longleftrightarrow> (\<exists>k. (v, k) \<in> set (views tr) \<and> length bs \<le> unat k)"

fun authorised_display :: "display_trace \<Rightarrow> bool" where
  "authorised_display [] \<longleftrightarrow> True"
| "authorised_display ((req, a) # tr) \<longleftrightarrow> display_authorised tr req \<and> authorised_display tr"

text \<open>
  What is documented of the system: \<open>CreateOPMProtectedOutputs\<close> writes as many handles as it says, and they are not
  the handles of outputs that exist.
\<close>

definition fresh_outputs :: "display \<Rightarrow> bool" where
  "fresh_outputs d \<longleftrightarrow> (\<forall>tr name n. let a = dp_system d tr (CreateOutputs_request name n) in
     da_status a = 0 \<longrightarrow> da_value a = of_nat (length (da_list a)) \<and> length (da_list a) < 2 ^ 32
       \<and> distinct (da_list a) \<and> set (da_list a) \<inter> live tr = {})"

text \<open>
  The dispatcher's state: every request so far was authorised, and the map holds the outputs that are live. \<open>keeps\<close>
  compares two states that differ in requests that open and close nothing.
\<close>

definition display_inv :: "win32k \<Rightarrow> bool" where
  "display_inv s \<longleftrightarrow> authorised_display (wk_trace s) \<and> live (wk_trace s) = Mapping.keys (wk_outputs s)
     \<and> finite (Mapping.keys (wk_outputs s)) \<and> (\<forall>k v. Mapping.lookup (wk_outputs s) k = Some v \<longrightarrow> v = k)"

definition keeps :: "win32k \<Rightarrow> win32k \<Rightarrow> bool" where
  "keeps s s' \<longleftrightarrow> display_inv s' \<and> wk_outputs s' = wk_outputs s
     \<and> sections (wk_trace s') = sections (wk_trace s) \<and> views (wk_trace s') = views (wk_trace s)"

lemma keeps_refl: "display_inv s \<Longrightarrow> keeps s s"
  by (simp add: keeps_def)

lemma keeps_trans: "keeps s1 s2 \<Longrightarrow> keeps s2 s3 \<Longrightarrow> keeps s1 s3"
  by (simp add: keeps_def)

lemma keeps_inv: "keeps s s' \<Longrightarrow> display_inv s'"
  by (simp add: keeps_def)

text \<open>Requests that neither open nor close anything.\<close>

fun neutral :: "display_request \<Rightarrow> bool" where
  "neutral (CreateOutputs_request name n) \<longleftrightarrow> False"
| "neutral (DestroyOutput_request h) \<longleftrightarrow> False"
| "neutral (DuplicateFromClient_request h) \<longleftrightarrow> False"
| "neutral (MapViewOfFile_request h n) \<longleftrightarrow> False"
| "neutral (UnmapViewOfFile_request v) \<longleftrightarrow> False"
| "neutral (CloseSection_request h) \<longleftrightarrow> False"
| "neutral _ \<longleftrightarrow> True"

lemma neutral_keeps:
  "neutral req \<Longrightarrow> live ((req, a) # tr) = live tr" "neutral req \<Longrightarrow> sections ((req, a) # tr) = sections tr"
  "neutral req \<Longrightarrow> views ((req, a) # tr) = views tr"
  by (cases req; simp)+

lemma ask_neutral:
  assumes "neutral req" and "display_inv s" and "display_authorised (wk_trace s) req"
    and "\<And>a s'. keeps s s' \<Longrightarrow> wk_trace s' = (req, a) # wk_trace s \<Longrightarrow> Q a s'"
  shows "wp (display_ask d req) Q s"
  unfolding wp_ask by (rule assms(4)) (use assms(1-3) in \<open>simp_all add: keeps_def display_inv_def neutral_keeps\<close>)

subsection \<open>Monitors\<close>

lemma validate_monitors_spec:
  assumes "display_inv s" and "set ms \<subseteq> monitors (wk_trace s)"
  shows "wp (validate_monitors d vm name ms r) (\<lambda>ok s'. keeps s s' \<and> monitors (wk_trace s') = monitors (wk_trace s)
    \<and> (ok \<longrightarrow> r \<or> (if name = [] then vm \<in> set ms else name \<in> device_names (wk_trace s')))) s"
  using assms
proof (induction ms arbitrary: s r)
  case Nil
  then show ?case by (simp add: keeps_refl)
next
  case (Cons m ms)
  have rest: "wp (validate_monitors d vm name ms False) (\<lambda>ok s''. keeps s s'' \<and> monitors (wk_trace s'') = monitors (wk_trace s)
      \<and> (ok \<longrightarrow> r \<or> (if name = [] then vm \<in> set (m # ms) else name \<in> device_names (wk_trace s'')))) s'"
    if "keeps s s'" "monitors (wk_trace s') = monitors (wk_trace s)" for s'
    by (rule wp_mono [OF Cons.IH [OF keeps_inv [OF that(1)], of False]])
      (use Cons.prems that in \<open>auto intro: keeps_trans\<close>)
  show ?case
  proof (cases "name = []")
    case True
    then show ?thesis using rest [OF keeps_refl [OF Cons.prems(1)] refl] Cons.prems
      by (auto simp: ValidateMonitorEnumProc_def keeps_refl)
  next
    case False
    then show ?thesis using Cons.prems(2) rest
      by (auto simp: ValidateMonitorEnumProc_def GetMonitorDeviceName_def Let_def named_device_def
          intro!: ask_neutral [OF _ Cons.prems(1)] split: if_splits)
  qed
qed

lemma IsValidMonitorOrDeviceName_spec:
  assumes "display_inv s"
    and "\<And>ok s'. keeps s s' \<Longrightarrow> (ok \<Longrightarrow> if name = [] then monitor \<in> monitors (wk_trace s') else name \<in> device_names (wk_trace s'))
      \<Longrightarrow> Q ok s'"
  shows "wp (IsValidMonitorOrDeviceName d monitor name) Q s"
  unfolding IsValidMonitorOrDeviceName_def wp_bind
proof (rule ask_neutral [OF _ assms(1)], goal_cases)
  case (3 a s')
  have "set (da_list a) \<subseteq> monitors (wk_trace s')" using 3(2) by simp
  from validate_monitors_spec [OF keeps_inv [OF 3(1)] this] show ?case
    by (rule wp_mono) (use 3 in \<open>auto intro!: assms(2) intro: keeps_trans\<close>)
qed simp_all

lemma valid_device:
  assumes "display_inv s"
    and "\<And>ok s'. keeps s s' \<Longrightarrow> (ok \<Longrightarrow> names_a_device (wk_trace s') name) \<Longrightarrow> Q ok s'"
  shows "wp (IsValidMonitorOrDeviceName d 0 name) Q s"
  by (rule IsValidMonitorOrDeviceName_spec [OF assms(1)])
    (rule assms(2), auto simp: names_a_device_def split: if_splits)

subsection \<open>The actions\<close>

lemma EnumDisplayMonitorsAction_spec:
  assumes "display_inv s" and "\<And>r s'. keeps s s' \<Longrightarrow> length r \<le> 32 \<Longrightarrow> Q r s'"
  shows "wp (EnumDisplayMonitorsAction d kMaxEnumMonitors) Q s"
proof -
  have "length (list_monitors ms kMaxEnumMonitors xs) \<le> 32" if "length xs \<le> 32" for ms and xs :: "u64 list"
    using that by (induction ms kMaxEnumMonitors xs rule: list_monitors.induct) (auto simp: word_le_nat_alt unat_of_nat_small)
  then show ?thesis by (auto simp: EnumDisplayMonitorsAction_def intro!: ask_neutral [OF _ assms(1)] assms(2))
qed

lemma GetMonitorInfoAction_spec:
  assumes "display_inv s" and "\<And>r s'. keeps s s' \<Longrightarrow> Q r s'"
  shows "wp (GetMonitorInfoAction d monitor) Q s"
  unfolding GetMonitorInfoAction_def wp_bind
proof (rule IsValidMonitorOrDeviceName_spec [OF assms(1)])
  fix ok s1
  assume 1: "keeps s s1" "ok \<Longrightarrow> if [] = ([] :: wstring) then monitor \<in> monitors (wk_trace s1) else [] \<in> device_names (wk_trace s1)"
  show "wp (if \<not> ok then State_Monad.return None
      else do {
        a \<leftarrow> display_ask d (GetMonitorInfoW_request monitor);
        State_Monad.return (if da_status a \<noteq> 0 then Some (monitor_info a) else None)
      }) Q s1"
    using 1 by (auto intro!: ask_neutral [OF _ keeps_inv [OF 1(1)]] assms(2) intro: keeps_trans)
qed

text \<open>An action that asks about a device only after the name was found among the monitors.\<close>

lemma device_action:
  assumes "display_inv s" and "\<And>x s'. keeps s s' \<Longrightarrow> Q x s'" and "neutral req"
    and "\<And>tr. names_a_device tr name \<Longrightarrow> views tr = views (wk_trace s) \<Longrightarrow> display_authorised tr req"
  shows "wp (do {
      ok \<leftarrow> IsValidMonitorOrDeviceName d 0 name;
      if \<not> ok then State_Monad.return x0 else do { a \<leftarrow> display_ask d req; State_Monad.return (f a) }
    }) Q s"
  unfolding wp_bind
proof (rule valid_device [OF assms(1)])
  fix ok s1
  assume 1: "keeps s s1" "ok \<Longrightarrow> names_a_device (wk_trace s1) name"
  have "display_authorised (wk_trace s1) req" if ok using assms(4) 1(2) [OF that] 1(1) by (simp add: keeps_def)
  then show "wp (if \<not> ok then State_Monad.return x0 else do { a \<leftarrow> display_ask d req; State_Monad.return (f a) }) Q s1"
    using 1 by (auto intro!: ask_neutral [OF assms(3) keeps_inv [OF 1(1)]] assms(2) intro: keeps_trans)
qed

lemma device_actions:
  assumes "display_inv s" and "\<And>r s'. keeps s s' \<Longrightarrow> Q r s'" and "\<And>r s'. keeps s s' \<Longrightarrow> Q' r s'"
  shows "wp (GetSuggestedOPMProtectedOutputArraySizeAction d name) Q s" "wp (GetCertificateSizeAction d name) Q s"
    "(v, ucast n) \<in> set (views (wk_trace s)) \<Longrightarrow> wp (GetCertificateAction d name v n) Q' s"
  unfolding GetSuggestedOPMProtectedOutputArraySizeAction_def GetCertificateSizeAction_def GetCertificateAction_def
  by (rule device_action [OF assms(1)]; simp add: assms(2,3))+

text \<open>Actions on an output.\<close>

lemma live_output: "display_inv s \<Longrightarrow> Mapping.lookup (wk_outputs s) k = Some h \<Longrightarrow> h \<in> live (wk_trace s)"
  by (metis display_inv_def domIff keys_dom_lookup option.discI)

lemma output_actions:
  assumes "display_inv s" and "h \<in> live (wk_trace s)"
    and "\<And>r s'. keeps s s' \<Longrightarrow> Q r s'" and "\<And>r s'. keeps s s' \<Longrightarrow> length (snd r) \<le> 16 \<Longrightarrow> Q' r s'"
    and "\<And>r s'. keeps s s' \<Longrightarrow> Q'' r s'"
  shows "wp (GetCertificateSizeByHandleAction d h) Q s"
    "(v, ucast n) \<in> set (views (wk_trace s)) \<Longrightarrow> wp (GetCertificateByHandleAction d h v n) Q'' s"
    "wp (GetOPMRandomNumberAction d h) Q' s"
    "length ps = 256 \<Longrightarrow> wp (SetOPMSigningKeyAndSequenceNumbersAction d h ps) Q'' s"
  using assms(2)
  by (auto simp: GetCertificateSizeByHandleAction_def GetCertificateByHandleAction_def GetOPMRandomNumberAction_def
      SetOPMSigningKeyAndSequenceNumbersAction_def keeps_refl [OF assms(1)] intro!: ask_neutral [OF _ assms(1)] assms(3-5))

lemma length_filled [simp]: "length (filled n data) = n"
  by (simp add: filled_def)

lemma ConfigureOPMProtectedOutputAction_spec:
  assumes "display_inv s" and "h \<in> live (wk_trace s)" and "(v, k) \<in> set (views (wk_trace s))"
    and "sizeof_OPM_CONFIGURE_PARAMETERS \<le> unat k" and "\<And>r s'. keeps s s' \<Longrightarrow> Q r s'"
  shows "wp (ConfigureOPMProtectedOutputAction d h v) Q s"
  unfolding ConfigureOPMProtectedOutputAction_def wp_bind Let_def
proof (rule ask_neutral [OF _ assms(1)], goal_cases)
  case (3 a s1)
  have "h \<in> live (wk_trace s1)" using assms(2) 3(2) by simp
  then show ?case using 3(1)
    by (auto simp: configuration_valid_def intro!: ask_neutral [OF _ keeps_inv [OF 3(1)]] assms(5) intro: keeps_trans)
qed (use assms(3,4) in auto)

lemma GetOPMInformationAction_spec:
  assumes "display_inv s" and "h \<in> live (wk_trace s)" and "(v, k) \<in> set (views (wk_trace s))"
    and "sizeof_OPM_GET_INFO_PARAMETERS \<le> unat k"
    and "\<And>r s'. keeps s s' \<Longrightarrow> fst r = 0 \<Longrightarrow> length (snd r) = sizeof_OPM_REQUESTED_INFORMATION \<Longrightarrow> Q r s'"
    and "\<And>r s'. keeps s s' \<Longrightarrow> fst r \<noteq> 0 \<Longrightarrow> Q r s'"
  shows "wp (GetOPMInformationAction d h v) Q s"
  unfolding GetOPMInformationAction_def wp_bind Let_def
proof (rule ask_neutral [OF _ assms(1)], goal_cases)
  case (3 a s1)
  have "h \<in> live (wk_trace s1)" using assms(2) 3(2) by simp
  then have "wp (display_ask d (GetInformation_request h (filled sizeof_OPM_GET_INFO_PARAMETERS (da_data a))))
      (\<lambda>a'. Q (da_status a', filled sizeof_OPM_REQUESTED_INFORMATION (da_data a'))) s1"
    if "information_valid (filled sizeof_OPM_GET_INFO_PARAMETERS (da_data a))"
  proof (intro ask_neutral [OF _ keeps_inv [OF 3(1)]])
    fix a' s' assume "keeps s1 s'"
    then show "Q (da_status a', filled sizeof_OPM_REQUESTED_INFORMATION (da_data a')) s'"
      using assms(5,6) [OF keeps_trans [OF 3(1)]] by (cases "da_status a' = 0") auto
  qed (use that in simp_all)
  then show ?case using assms(6) [OF 3(1)] by simp
qed (use assms(3,4) in auto)

subsection \<open>Shared memory\<close>

definition idle :: "win32k \<Rightarrow> bool" where
  "idle s \<longleftrightarrow> sections (wk_trace s) = {#} \<and> views (wk_trace s) = []"

text \<open>The end of a handler: the invariant, nothing open, and the outputs as they were.\<close>

definition all_settled :: "win32k \<Rightarrow> win32k \<Rightarrow> bool" where
  "all_settled s s' \<longleftrightarrow> display_inv s' \<and> idle s' \<and> wk_outputs s' = wk_outputs s"

lemma keeps_settled: "keeps s s' \<Longrightarrow> idle s \<Longrightarrow> all_settled s s'"
  by (simp add: keeps_def all_settled_def idle_def)

lemma settled_refl: "display_inv s \<Longrightarrow> idle s \<Longrightarrow> all_settled s s"
  by (simp add: all_settled_def)

text \<open>A request that opens or closes something, from its effect on the trace.\<close>

lemma ask_step:
  assumes "display_inv s" and "display_authorised (wk_trace s) req" and "\<And>a. live ((req, a) # wk_trace s) = live (wk_trace s)"
    and "\<And>a s'. display_inv s' \<Longrightarrow> wk_outputs s' = wk_outputs s \<Longrightarrow> wk_trace s' = (req, a) # wk_trace s \<Longrightarrow> Q a s'"
  shows "wp (display_ask d req) Q s"
  unfolding wp_ask by (rule assms(4)) (use assms(1-3) in \<open>simp_all add: display_inv_def\<close>)

lemma SharedMemory_destroy_spec:
  assumes "display_inv s" and "h \<noteq> 0 \<Longrightarrow> sections (wk_trace s) = {#h#}" and "h = 0 \<Longrightarrow> sections (wk_trace s) = {#}"
    and "views (wk_trace s) = (if v = 0 then [] else [(v, n)])"
    and "\<And>s'. all_settled s s' \<Longrightarrow> Q () s'"
  shows "wp (SharedMemory_destroy d h v) Q s"
proof -
  have close: "wp (if h = 0 then State_Monad.return () else do { _ \<leftarrow> display_ask d (CloseSection_request h); State_Monad.return () }) Q s1"
    if "display_inv s1" "wk_outputs s1 = wk_outputs s" "sections (wk_trace s1) = sections (wk_trace s)" "views (wk_trace s1) = []" for s1
  proof (cases "h = 0")
    case True
    then show ?thesis using that assms(3) by (auto simp: all_settled_def idle_def intro!: assms(5))
  next
    case False
    then show ?thesis using that assms(2) by (auto simp: all_settled_def idle_def intro!: ask_step [OF that(1)] assms(5))
  qed
  show ?thesis
  proof (cases "v = 0")
    case True
    then show ?thesis using close [OF assms(1)] assms(4) by (simp add: SharedMemory_destroy_def)
  next
    case False
    then have "wp (display_ask d (UnmapViewOfFile_request v)) (\<lambda>_. wp (if h = 0 then State_Monad.return ()
        else do { _ \<leftarrow> display_ask d (CloseSection_request h); State_Monad.return () }) Q) s"
      using assms(4) by (intro ask_step [OF assms(1)] close) simp_all
    then show ?thesis using False by (simp add: SharedMemory_destroy_def)
  qed
qed

text \<open>
  A use of shared memory sees one view, of the size that was asked for; when it keeps everything, so
  does the whole, and nothing stays open.
\<close>

lemma with_shared_memory_spec:
  assumes "display_inv s" and "idle s" and "n \<le> 16 * 1024"
    and "\<And>v s1. display_inv s1 \<Longrightarrow> wk_outputs s1 = wk_outputs s \<Longrightarrow> views (wk_trace s1) = [(v, n)]
      \<Longrightarrow> wp (use v) (\<lambda>_. keeps s1) s1"
    and "\<And>r s'. all_settled s s' \<Longrightarrow> Q r s'"
  shows "wp (with_shared_memory d shared n use) Q s"
proof -
  define rest where "rest = (\<lambda>h memory. do {
     status \<leftarrow> (if memory = 0 then State_Monad.return STATUS_ACCESS_DENIED else use memory);
     _ \<leftarrow> SharedMemory_destroy d h memory;
     State_Monad.return status
   })"
  have rest: "wp (rest h v) Q s1"
    if "display_inv s1" "wk_outputs s1 = wk_outputs s" "views (wk_trace s1) = (if v = 0 then [] else [(v, n)])"
      "h \<noteq> 0 \<Longrightarrow> sections (wk_trace s1) = {#h#}" "h = 0 \<Longrightarrow> sections (wk_trace s1) = {#}" for h v s1
  proof -
    have used: "wp (if v = 0 then State_Monad.return STATUS_ACCESS_DENIED else use v) (\<lambda>_. keeps s1) s1"
      using assms(4) [OF that(1,2)] that(1,3) by (simp add: keeps_refl)
    show ?thesis unfolding rest_def wp_bind
    proof (rule wp_mono [OF used], rule SharedMemory_destroy_spec)
      fix x s2 s' assume "keeps s1 s2" "all_settled s2 s'"
      then show "wp (State_Monad.return x) Q s'" using that(2) by (auto simp: keeps_def all_settled_def intro: assms(5))
    qed (use that in \<open>auto simp: keeps_def\<close>)
  qed
  have mapped: "wp (SharedMemory_Map d h n) (\<lambda>v. wp (rest h v) Q) s1"
    if "display_inv s1" "wk_outputs s1 = wk_outputs s" "views (wk_trace s1) = []"
      "h \<noteq> 0 \<Longrightarrow> sections (wk_trace s1) = {#h#}" "h = 0 \<Longrightarrow> sections (wk_trace s1) = {#}" for h s1
  proof (cases "h = 0")
    case True
    then show ?thesis using rest [OF that(1,2), of 0 h] that by (simp add: SharedMemory_Map_def)
  next
    case False
    have "\<not> n > 0x7FFFFFFF" using assms(3) by (simp add: word_less_nat_alt word_le_nat_alt)
    moreover have "wp (rest h 0) Q s2" if "keeps s1 s2" for s2
      by (rule rest) (use that \<open>views (wk_trace s1) = []\<close> \<open>wk_outputs s1 = wk_outputs s\<close> \<open>h \<noteq> 0 \<Longrightarrow> sections (wk_trace s1) = {#h#}\<close> False
          in \<open>auto simp: keeps_def\<close>)
    moreover have "wp (display_ask d (MapViewOfFile_request h n)) (\<lambda>a. wp (rest h (da_value a)) Q) s2"
      if "keeps s1 s2" "safe_section h (wk_trace s2)" for s2
      by (rule ask_step [OF keeps_inv [OF that(1)]]; (rule rest)?)
        (use that assms(3) \<open>views (wk_trace s1) = []\<close> \<open>wk_outputs s1 = wk_outputs s\<close> \<open>h \<noteq> 0 \<Longrightarrow> sections (wk_trace s1) = {#h#}\<close> False
          in \<open>auto simp: keeps_def\<close>)
    ultimately have "wp (display_ask d (NtQuerySection_request h)) (\<lambda>a. if \<not> (da_status a = 0 \<and> ucast (da_value a) AND SEC_IMAGE \<noteq> SEC_IMAGE)
        then wp (rest h 0) Q else wp (display_ask d (MapViewOfFile_request h n)) (\<lambda>a. wp (rest h (da_value a)) Q)) s1"
      using that(4) False by (intro ask_neutral [OF _ that(1)]) auto
    then show ?thesis using False \<open>\<not> n > 0x7FFFFFFF\<close> by (simp add: SharedMemory_Map_def IsSectionSafeToMap_def cong: if_cong)
  qed
  have opened: "wp (let mapped_file = (if handle = INVALID_HANDLE_VALUE then 0 else handle) in do {
       memory \<leftarrow> SharedMemory_Map d mapped_file n;
       rest mapped_file memory
     }) Q s1"
    if "display_inv s1" "wk_outputs s1 = wk_outputs s" "wk_trace s1 = (DuplicateFromClient_request shared, a) # wk_trace s"
      "handle = (if da_status a = 0 then 0 else da_value a)" "handle \<noteq> 0" for handle a s1
    unfolding Let_def wp_bind
    by (rule mapped [OF that(1,2)]) (use that(3-5) assms(2) in \<open>auto simp: idle_def split: if_splits\<close>)
  have closed: "wp (State_Monad.return STATUS_ACCESS_DENIED) Q s1"
    if "display_inv s1" "wk_outputs s1 = wk_outputs s" "wk_trace s1 = (DuplicateFromClient_request shared, a) # wk_trace s"
      "(if da_status a = 0 then 0 else da_value a) = 0" for a s1
    using that assms(2) by (auto simp: all_settled_def idle_def intro!: assms(5) split: if_splits)
  have unfolded: "with_shared_memory d shared n use = do {
     handle \<leftarrow> GetSharedMemoryHandle d shared;
     if handle = 0 then State_Monad.return STATUS_ACCESS_DENIED
     else let mapped_file = (if handle = INVALID_HANDLE_VALUE then 0 else handle) in do {
       memory \<leftarrow> SharedMemory_Map d mapped_file n;
       rest mapped_file memory
     }
   }" unfolding with_shared_memory_def rest_def by (rule refl)
  show ?thesis
  proof (cases "sint shared \<le> 0")
    case True
    then show ?thesis using assms(5) [OF settled_refl [OF assms(1,2)]] by (simp add: unfolded GetSharedMemoryHandle_def)
  next
    case False
    have "wp (display_ask d (DuplicateFromClient_request shared))
        (\<lambda>a. wp (let handle = (if da_status a = 0 then 0 else da_value a) in
          if handle = 0 then State_Monad.return STATUS_ACCESS_DENIED
          else let mapped_file = (if handle = INVALID_HANDLE_VALUE then 0 else handle) in do {
            memory \<leftarrow> SharedMemory_Map d mapped_file n;
            rest mapped_file memory
          }) Q) s"
      by (rule ask_step [OF assms(1)]) (use False closed opened in \<open>simp_all add: Let_def del: wp_bind wp_return\<close>)
    then show ?thesis using False by (simp add: unfolded GetSharedMemoryHandle_def Let_def)
  qed
qed

subsection \<open>The handlers\<close>

definition served :: "display \<Rightarrow> display_handler \<Rightarrow> bool" where
  "served d m \<longleftrightarrow> (\<forall>s. display_inv s \<and> idle s \<longrightarrow>
     wp m (\<lambda>r s'. display_inv s' \<and> idle s' \<and> \<not> isl r \<and> (dp_redirection d \<or> s' = s)) s)"

lemma answers_no_error [simp]: "\<not> isl (status_answer message status)" "\<not> isl (value_answer message r)"
  by (simp_all add: status_answer_def value_answer_def split: prod.splits)

lemma served_denied: "served d (State_Monad.return (status_answer message status))"
  by (simp add: served_def)

text \<open>The gate in front of every handler, and a handler that keeps or settles everything.\<close>

lemma servedI:
  assumes "\<And>s. dp_redirection d \<Longrightarrow> display_inv s \<Longrightarrow> idle s \<Longrightarrow> wp m (\<lambda>r s'. display_inv s' \<and> idle s' \<and> \<not> isl r) s"
  shows "served d (if \<not> dp_redirection d then State_Monad.return (status_answer message status) else m)"
  using assms by (cases "dp_redirection d") (simp_all add: served_def)

lemma settledD: "all_settled s s' \<Longrightarrow> display_inv s' \<and> idle s'"
  by (simp add: all_settled_def)

lemma keepsD: "keeps s s' \<Longrightarrow> idle s \<Longrightarrow> display_inv s' \<and> idle s'"
  by (rule settledD [OF keeps_settled])

lemma wp_GetProtectedVideoOutput:
  assumes "Mapping.lookup (wk_outputs s) handle = None \<Longrightarrow> Q None s"
    and "\<And>h. Mapping.lookup (wk_outputs s) handle = Some h \<Longrightarrow>
      Q (Some h) (if destroy then s\<lparr>wk_outputs := Mapping.delete handle (wk_outputs s)\<rparr> else s)"
  shows "wp (GetProtectedVideoOutput handle destroy) Q s"
  using assms by (cases "Mapping.lookup (wk_outputs s) handle"; cases destroy) (simp_all add: GetProtectedVideoOutput_def)

lemma EnumDisplayMonitors_served: "served d (Win32K_EnumDisplayMonitors d p buffer n)"
  unfolding Win32K_EnumDisplayMonitors_def
  by (rule servedI) (auto simp: Let_def intro!: EnumDisplayMonitorsAction_spec dest: keepsD)

lemma GetMonitorInfo_served: "served d (Win32K_GetMonitorInfo d p monitor buffer n)"
  unfolding Win32K_GetMonitorInfo_def
  by (rule servedI) (auto simp: Let_def intro!: GetMonitorInfoAction_spec dest: keepsD split: option.splits)

lemma GetSuggestedSize_served: "served d (Win32K_GetSuggestedOPMProtectedOutputArraySize d message name)"
  unfolding Win32K_GetSuggestedOPMProtectedOutputArraySize_def
  by (rule servedI) (auto intro!: device_actions(1) [where Q' = "\<lambda>_ _. True"] dest: keepsD)

lemma GetCertificateSize_served: "served d (Win32K_GetCertificateSize d message name output)"
  unfolding Win32K_GetCertificateSize_def
proof (rule servedI)
  fix s assume s: "display_inv s" "idle s"
  let ?Q = "\<lambda>r s'. display_inv s' \<and> idle s' \<and> \<not> isl (value_answer message r)"
  have device: "wp (GetCertificateSizeAction d name) ?Q s"
    by (rule device_actions(2) [where Q' = "\<lambda>_ _. True"]) (use s in \<open>auto dest: keepsD\<close>)
  have handle: "wp (GetCertificateSizeByHandleAction d h) ?Q s" if "Mapping.lookup (wk_outputs s) output = Some h" for h
    by (rule output_actions(1) [OF s(1) live_output [OF s(1) that], where Q' = "\<lambda>_ _. True" and Q'' = "\<lambda>_ _. True"])
      (use s in \<open>auto dest: keepsD\<close>)
  have "wp (GetProtectedVideoOutput output False) (\<lambda>r. wp (case r of None \<Rightarrow> State_Monad.return (STATUS_INVALID_PARAMETER, None)
      | Some h \<Rightarrow> GetCertificateSizeByHandleAction d h) ?Q) s"
    by (rule wp_GetProtectedVideoOutput) (use s handle in simp_all)
  then show "wp (do {
        r \<leftarrow> (if name \<noteq> [] then GetCertificateSizeAction d name
          else do {
            output \<leftarrow> GetProtectedVideoOutput output False;
            case output of
              None \<Rightarrow> State_Monad.return (STATUS_INVALID_PARAMETER, None)
            | Some handle \<Rightarrow> GetCertificateSizeByHandleAction d handle
          });
        State_Monad.return (value_answer message r)
      }) (\<lambda>r s'. display_inv s' \<and> idle s' \<and> \<not> isl r) s"
    using device by simp
qed

lemma GetOPMRandomNumber_served: "served d (Win32K_GetOPMRandomNumber d p output a n)"
  unfolding Win32K_GetOPMRandomNumber_def
proof (rule servedI, unfold wp_bind, rule wp_GetProtectedVideoOutput)
  fix s h assume s: "display_inv s" "idle s" "Mapping.lookup (wk_outputs s) output = Some h"
  have "wp (GetOPMRandomNumberAction d h) (\<lambda>r s'. display_inv s' \<and> idle s') s"
    by (rule output_actions(3) [OF s(1) live_output [OF s(1,3)], where Q = "\<lambda>_ _. True" and Q'' = "\<lambda>_ _. True"])
      (use s in \<open>auto dest: keepsD\<close>)
  then show "wp (case Some h of None \<Rightarrow> State_Monad.return (status_answer (cp_bytes p) STATUS_INVALID_PARAMETER)
      | Some handle \<Rightarrow> if n \<noteq> 16 then State_Monad.return (status_answer (cp_bytes p) STATUS_INVALID_PARAMETER)
          else do { (status, random) \<leftarrow> GetOPMRandomNumberAction d handle;
            State_Monad.return (status_answer (store_param p a random) status) })
      (\<lambda>r s'. display_inv s' \<and> idle s' \<and> \<not> isl r) (if False then s\<lparr>wk_outputs := Mapping.delete output (wk_outputs s)\<rparr> else s)"
    using s(1,2) by (auto simp: case_prod_unfold elim: wp_mono)
qed simp_all

lemma SetOPMSigningKey_served:
  assumes "value_fits p INOUTPTR_TYPE (BufferArg a n)"
  shows "served d (Win32K_SetOPMSigningKeyAndSequenceNumbers d p output a n)"
  unfolding Win32K_SetOPMSigningKeyAndSequenceNumbers_def
proof (rule servedI, unfold wp_bind, rule wp_GetProtectedVideoOutput, goal_cases)
  case (2 s h)
  have set: "wp (SetOPMSigningKeyAndSequenceNumbersAction d h bs) (\<lambda>r s'. display_inv s' \<and> idle s') s" if "length bs = 256" for bs
    by (rule output_actions(4) [OF 2(2) live_output [OF 2(2,4)], where Q = "\<lambda>_ _. True" and Q' = "\<lambda>_ _. True"])
      (use 2 that in \<open>auto dest: keepsD\<close>)
  show ?case
  proof (cases "n = 256")
    case True
    then obtain bs where "load_param p a 256 = Inr bs" "length bs = 256" using load_buffer [of p a n] assms by auto
    then show ?thesis using 2 True set [of bs] by (simp add: if_distrib)
  qed (use 2 in simp)
qed simp_all

lemma GetCertificate_served: "served d (Win32K_GetCertificate d message name output shared n)"
proof -
  let ?use = "\<lambda>memory. if name \<noteq> [] then GetCertificateAction d name memory n
          else do {
            output \<leftarrow> GetProtectedVideoOutput output False;
            case output of
              None \<Rightarrow> State_Monad.return STATUS_INVALID_PARAMETER
            | Some handle \<Rightarrow> GetCertificateByHandleAction d handle memory n
          }"
  have used: "wp (?use v) (\<lambda>_. keeps s1) s1" if "display_inv s1" "views (wk_trace s1) = [(v, ucast n)]" for v s1
  proof (cases "name = []")
    case True
    have "wp (GetCertificateByHandleAction d h v n) (\<lambda>_. keeps s1) s1" if "Mapping.lookup (wk_outputs s1) output = Some h" for h
      by (rule output_actions(2) [OF \<open>display_inv s1\<close> live_output [OF \<open>display_inv s1\<close> that],
          where Q = "\<lambda>_ _. True" and Q' = "\<lambda>_ _. True"]) (use \<open>views (wk_trace s1) = [(v, ucast n)]\<close> in simp_all)
    then show ?thesis using True that(1) by (simp add: keeps_refl wp_GetProtectedVideoOutput)
  next
    case False
    have "wp (GetCertificateAction d name v n) (\<lambda>_. keeps s1) s1"
      by (rule device_actions(3) [OF that(1), where Q = "\<lambda>_ _. True"]) (use that(2) in simp_all)
    then show ?thesis using False by simp
  qed
  have "wp (with_shared_memory d shared (ucast n) ?use) (\<lambda>_ s'. display_inv s' \<and> idle s') s"
    if "display_inv s" "idle s" "n \<le> kProtectedVideoOutputSectionSize" for s
  proof (rule with_shared_memory_spec [OF that(1,2)])
    have "unat n \<le> 16384" using that(3) by (simp add: word_le_nat_alt)
    then show "(ucast n :: u64) \<le> 16 * 1024" by (simp add: word_le_nat_alt unsigned_ucast_eq take_bit_word_eq_self)
  qed (use used in \<open>auto dest: settledD\<close>)
  then show ?thesis unfolding Win32K_GetCertificate_def
    by (intro servedI) (simp add: not_less)
qed

lemma ConfigureOPM_served: "served d (Win32K_ConfigureOPMProtectedOutput d message output shared)"
  unfolding Win32K_ConfigureOPMProtectedOutput_def
proof (rule servedI, unfold wp_bind, rule wp_GetProtectedVideoOutput, goal_cases)
  case (2 s h)
  have "wp (with_shared_memory d shared (of_nat sizeof_OPM_CONFIGURE_PARAMETERS) (ConfigureOPMProtectedOutputAction d h))
      (\<lambda>_ s'. display_inv s' \<and> idle s') s"
  proof (rule with_shared_memory_spec [OF 2(2,3)])
    fix v s1
    assume s1: "display_inv s1" "wk_outputs s1 = wk_outputs s" "views (wk_trace s1) = [(v, of_nat sizeof_OPM_CONFIGURE_PARAMETERS)]"
    have "Mapping.lookup (wk_outputs s1) output = Some h" using 2(4) s1(2) by simp
    from ConfigureOPMProtectedOutputAction_spec [OF s1(1) live_output [OF s1(1) this]]
    show "wp (ConfigureOPMProtectedOutputAction d h v) (\<lambda>_. keeps s1) s1"
      using s1(3) by (simp add: sizeof_OPM_CONFIGURE_PARAMETERS_def)
  qed (auto simp: sizeof_OPM_CONFIGURE_PARAMETERS_def word_le_nat_alt dest: settledD)
  then show ?case by simp
qed simp_all

lemma GetOPMInformation_served: "served d (Win32K_GetOPMInformation d message output shared)"
  unfolding Win32K_GetOPMInformation_def
proof (rule servedI, unfold wp_bind, rule wp_GetProtectedVideoOutput, goal_cases)
  case (2 s h)
  let ?size = "of_nat (max sizeof_OPM_GET_INFO_PARAMETERS sizeof_OPM_REQUESTED_INFORMATION) :: u64"
  let ?use = "\<lambda>memory. do {
                (status, requested_info) \<leftarrow> GetOPMInformationAction d h memory;
                _ \<leftarrow> (if status \<noteq> 0 then State_Monad.return () else do {
                  _ \<leftarrow> display_ask d (WriteView_request memory requested_info);
                  State_Monad.return ()
                });
                State_Monad.return status
              }"
  have n: "?size = 4112" by (simp add: sizeof_OPM_GET_INFO_PARAMETERS_def sizeof_OPM_REQUESTED_INFORMATION_def)
  have "wp (with_shared_memory d shared ?size ?use) (\<lambda>_ s'. display_inv s' \<and> idle s') s"
  proof (rule with_shared_memory_spec [OF 2(2,3)])
    fix v s1
    assume s1: "display_inv s1" "wk_outputs s1 = wk_outputs s" "views (wk_trace s1) = [(v, ?size)]"
    have look: "Mapping.lookup (wk_outputs s1) output = Some h" using 2(4) s1(2) by simp
    have view: "(v, 4112) \<in> set (views (wk_trace s1))" using s1(3) n by simp
    have "wp (GetOPMInformationAction d h v) (\<lambda>(status, info). wp (if status \<noteq> 0 then State_Monad.return () else do {
          _ \<leftarrow> display_ask d (WriteView_request v info);
          State_Monad.return ()
        }) (\<lambda>_. keeps s1)) s1"
    proof (rule GetOPMInformationAction_spec [OF s1(1) live_output [OF s1(1) look] view])
      fix r :: "u32 \<times> bytes" and s2 assume s2: "keeps s1 s2" "fst r = 0" "length (snd r) = sizeof_OPM_REQUESTED_INFORMATION"
      have "wp (display_ask d (WriteView_request v (snd r))) (\<lambda>_. keeps s1) s2"
        by (rule ask_neutral [OF _ keeps_inv [OF s2(1)]])
          (use s2 view in \<open>auto simp: keeps_def sizeof_OPM_REQUESTED_INFORMATION_def intro!: exI [of _ 4112]\<close>)
      then show "(case r of (status, info) \<Rightarrow> wp (if status \<noteq> 0 then State_Monad.return () else do {
          _ \<leftarrow> display_ask d (WriteView_request v info);
          State_Monad.return ()
        }) (\<lambda>_. keeps s1)) s2" using s2(2) by (simp add: case_prod_unfold)
    qed (auto simp: sizeof_OPM_GET_INFO_PARAMETERS_def)
    then show "wp (?use v) (\<lambda>_. keeps s1) s1" by (simp add: case_prod_unfold)
  qed (auto simp: n word_le_nat_alt dest: settledD)
  then show ?case by simp
qed simp_all

subsection \<open>Creating and destroying outputs\<close>

text \<open>Outputs that exist, and that are not in the map yet.\<close>

definition outputs_pending :: "u64 list \<Rightarrow> win32k \<Rightarrow> bool" where
  "outputs_pending hs s \<longleftrightarrow> authorised_display (wk_trace s) \<and> live (wk_trace s) = Mapping.keys (wk_outputs s) \<union> set hs
     \<and> Mapping.keys (wk_outputs s) \<inter> set hs = {} \<and> distinct hs
     \<and> finite (Mapping.keys (wk_outputs s)) \<and> (\<forall>k v. Mapping.lookup (wk_outputs s) k = Some v \<longrightarrow> v = k)"

lemma outputs_pending_Nil [simp]: "outputs_pending [] s \<longleftrightarrow> display_inv s"
  by (simp add: outputs_pending_def display_inv_def)

lemma insert_outputs_spec:
  assumes "outputs_pending hs s" and "idle s"
  shows "wp (insert_outputs d hs) (\<lambda>_ s'. display_inv s' \<and> idle s') s"
  using assms
proof (induction hs arbitrary: s)
  case (Cons h hs)
  let ?s = "s\<lparr>wk_outputs := Mapping.update h h (wk_outputs s)\<rparr>"
  have "Mapping.lookup (wk_outputs s) h = None"
    using Cons.prems(1) by (simp add: outputs_pending_def keys_dom_lookup domIff)
  moreover have "outputs_pending hs ?s" using Cons.prems(1) by (auto simp: outputs_pending_def lookup_update')
  moreover have "idle ?s" using Cons.prems(2) by (simp add: idle_def)
  ultimately show ?case using Cons.IH [of ?s] by (simp add: insert_output_def)
qed simp

lemma u64_list_bytes [simp]: "u64_list (u64_bytes ws) = ws"
proof (induction ws)
  case (Cons w ws)
  obtain b0 b1 b2 b3 b4 b5 b6 b7 where b: "le_bytes 8 w = [b0, b1, b2, b3, b4, b5, b6, b7]"
    by (simp add: eval_nat_numeral)
  then have "le_value [b0, b1, b2, b3, b4, b5, b6, b7] = w" by (metis le_value_exact(3))
  then show ?case using Cons.IH by (simp add: u64_bytes_def b)
qed (simp add: u64_bytes_def)

lemma length_u64_bytes [simp]: "length (u64_bytes ws) = 8 * length ws"
  by (induction ws) (simp_all add: u64_bytes_def)

text \<open>What the system writes to the buffer is what is read back.\<close>

lemma stored_handles:
  assumes "value_fits p INOUTPTR_TYPE (BufferArg a n)" and "length ws \<le> unat (n div 8)"
  shows "load_param (p\<lparr>cp_bytes := store_param p a (u64_bytes ws)\<rparr>) a (8 * length ws) = Inr (u64_bytes ws)"
proof -
  have "8 * length ws \<le> unat n" using assms(2) by (simp add: unat_div)
  moreover have "unat (a - cp_base p) = unat a - unat (cp_base p)" "unat (cp_base p) \<le> unat a"
    using assms(1) by (simp_all add: unat_sub word_le_nat_alt)
  ultimately have "unat (a - cp_base p) + length (u64_bytes ws) \<le> length (cp_bytes p)"
    using assms(1) unfolding length_u64_bytes value_fits.simps by linarith
  from message_put_same [OF this] show ?thesis by (simp add: load_param_def store_param_def)
qed

lemma CreateOPMProtectedOutputsAction_spec:
  assumes "fresh_outputs d" and "display_inv s" and "idle s"
    and "\<And>status k hs s'. display_inv s' \<Longrightarrow> idle s' \<Longrightarrow> \<not> (status = 0 \<and> (case k of None \<Rightarrow> 0 | Some k \<Rightarrow> k) \<le> n)
      \<Longrightarrow> Q (status, k, hs) s'"
    and "\<And>hs s'. outputs_pending hs s' \<Longrightarrow> idle s' \<Longrightarrow> length hs \<le> unat n \<Longrightarrow> Q (0, Some (of_nat (length hs)), hs) s'"
  shows "wp (CreateOPMProtectedOutputsAction d name n) Q s"
  unfolding CreateOPMProtectedOutputsAction_def wp_bind
proof (rule valid_device [OF assms(2)])
  fix ok s1
  assume s1: "keeps s s1" "ok \<Longrightarrow> names_a_device (wk_trace s1) (c_wstr name)"
  let ?req = "CreateOutputs_request (c_wstr name) n"
  let ?a = "dp_system d (wk_trace s1) ?req"
  let ?s2 = "s1\<lparr>wk_trace := (?req, ?a) # wk_trace s1\<rparr>"
  let ?k = "ucast (da_value ?a) :: u32"
  have idle: "idle s1" "idle ?s2" using s1(1) assms(3) by (simp_all add: keeps_def idle_def)
  have inv: "display_inv s1" by (rule keeps_inv [OF s1(1)])
  have answered: "Q (da_status ?a, if da_status ?a = 0 then Some ?k else None, take (unat n) (da_list ?a)) ?s2" if ok
  proof (cases "da_status ?a = 0 \<and> ?k \<le> n")
    case True
    have fresh: "da_value ?a = of_nat (length (da_list ?a))" "length (da_list ?a) < 2 ^ 32" "distinct (da_list ?a)"
        "set (da_list ?a) \<inter> live (wk_trace s1) = {}"
      using assms(1) True unfolding fresh_outputs_def Let_def by blast+
    have k: "?k = of_nat (length (da_list ?a))"
      using fresh(2) unfolding fresh(1) by (simp add: unsigned_of_nat take_bit_nat_eq_self)
    then have "unat ?k = length (da_list ?a)" using fresh(2) by (simp add: unat_of_nat_small)
    then have len: "length (da_list ?a) \<le> unat n" using True by (simp add: word_le_nat_alt)
    have "outputs_pending (da_list ?a) ?s2"
      using inv s1(2) [OF that] fresh(3,4) True by (auto simp: outputs_pending_def display_inv_def created_def)
    from assms(5) [OF this idle(2) len] show ?thesis using True k len by simp
  next
    case False
    then have "display_inv ?s2" using inv s1(2) [OF that] by (auto simp: display_inv_def created_def)
    then show ?thesis using False by (intro assms(4) idle(2)) (auto split: if_splits)
  qed
  have "Q (STATUS_ACCESS_DENIED, None, []) s1" by (rule assms(4) [OF inv idle(1)]) simp
  then show "wp (if \<not> ok then State_Monad.return (STATUS_ACCESS_DENIED, None, [])
      else do {
        a \<leftarrow> display_ask d ?req;
        State_Monad.return (da_status a, if da_status a = 0 then Some (ucast (da_value a)) else None, take (unat n) (da_list a))
      }) Q s1"
    using answered by (simp add: wp_ask)
qed

lemma CreateOPMProtectedOutputs_served:
  assumes "fresh_outputs d" and "value_fits p INOUTPTR_TYPE (BufferArg a n)"
  shows "served d (Win32K_CreateOPMProtectedOutputs d p name a n)"
  unfolding Win32K_CreateOPMProtectedOutputs_def Let_def
proof (rule servedI, unfold wp_bind, rule CreateOPMProtectedOutputsAction_spec [OF assms(1)], goal_cases)
  case (4 s hs s')
  have "unat (of_nat (length hs) :: u32) = length hs"
    using 4(6) unat_u32_less [of "n div 8"] by (simp add: unat_of_nat_small)
  moreover have "(of_nat (length hs) :: u32) \<le> n div 8" using 4(6) calculation by (simp add: word_le_nat_alt)
  ultimately show ?case
    using stored_handles [OF assms(2) 4(6)] insert_outputs_spec [OF 4(4,5)] by (simp del: value_fits.simps)
next
  case (3 s status k hs s')
  then show ?case by (auto simp del: wp_if)
qed simp_all

lemma lookup_deleted: "Mapping.lookup (Mapping.delete k m) k' = (if k' = k then None else Mapping.lookup m k')"
  by simp

lemma DestroyOPMProtectedOutput_served: "served d (Win32K_DestroyOPMProtectedOutput d message output)"
  unfolding Win32K_DestroyOPMProtectedOutput_def
proof (rule servedI, unfold wp_bind, rule wp_GetProtectedVideoOutput, goal_cases)
  case (2 s h)
  have "h = output" "h \<in> live (wk_trace s)" using 2(2,4) live_output by (auto simp: display_inv_def)
  then show ?case using 2(2,3) by (auto simp: ProtectedVideoOutput_destroy_def wp_ask display_inv_def idle_def lookup_deleted split: if_splits)
qed simp_all

lemma run_win32k_served:
  assumes "fresh_outputs d" and "handler \<in> win32k_handlers" and "args_fit p (handler_params handler tag) args"
  shows "served d (run_win32k d handler args p)"
  using assms(2,3) unfolding win32k_handlers_def
  by (auto simp: args_fit_def list_all2_Cons_left fits_cases run_win32k_def simp del: param_type.simps value_fits.simps)
    (rule EnumDisplayMonitors_served GetMonitorInfo_served GetSuggestedSize_served CreateOPMProtectedOutputs_served [OF assms(1)]
      GetCertificateSize_served GetCertificate_served DestroyOPMProtectedOutput_served GetOPMRandomNumber_served
      SetOPMSigningKey_served ConfigureOPM_served GetOPMInformation_served; assumption)+

subsection \<open>All the calls of a client\<close>

definition calls_fit :: "(handler \<times> ipc_arg list \<times> cross_params) list \<Rightarrow> bool" where
  "calls_fit = list_all (\<lambda>(handler, args, p). handler \<in> win32k_handlers \<and> args_fit p (handler_params handler 0) args)"

lemma win32k_calls_spec:
  assumes "fresh_outputs d" and "calls_fit calls" and "display_inv s" and "idle s"
  shows "wp (win32k_calls d calls) (\<lambda>rs s'. display_inv s' \<and> idle s' \<and> list_all (\<lambda>r. \<not> isl r) rs
    \<and> (dp_redirection d \<or> s' = s)) s"
  using assms(2-)
proof (induction calls arbitrary: s)
  case (Cons call calls)
  obtain handler args p where call: "call = (handler, args, p)" by (cases call)
  have "served d (run_win32k d handler args p)"
    using Cons.prems(1) run_win32k_served [OF assms(1), where tag = 0] by (simp add: calls_fit_def call)
  then have "wp (run_win32k d handler args p) (\<lambda>r s'. display_inv s' \<and> idle s' \<and> \<not> isl r \<and> (dp_redirection d \<or> s' = s)) s"
    using Cons.prems(2,3) by (simp add: served_def)
  moreover have "calls_fit calls" using Cons.prems(1) by (simp add: calls_fit_def)
  ultimately show ?case unfolding call win32k_calls.simps wp_bind wp_return
    by (elim wp_mono) (rule wp_mono [OF Cons.IH], auto)
qed simp

lemma destroy_outputs_spec:
  assumes "authorised_display (wk_trace s)" and "live (wk_trace s) = set ks" and "distinct ks" and "idle s"
    and "\<forall>k \<in> set ks. Mapping.lookup outs k = Some k"
  shows "wp (destroy_outputs d outs ks) (\<lambda>_ s'. authorised_display (wk_trace s') \<and> live (wk_trace s') = {} \<and> idle s'
    \<and> (ks = [] \<longrightarrow> s' = s)) s"
  using assms
proof (induction ks arbitrary: s)
  case (Cons k ks)
  let ?req = "DestroyOutput_request k"
  let ?s = "s\<lparr>wk_trace := (?req, dp_system d (wk_trace s) ?req) # wk_trace s\<rparr>"
  have "wp (destroy_outputs d outs ks) (\<lambda>_ s'. authorised_display (wk_trace s') \<and> live (wk_trace s') = {} \<and> idle s' \<and> (ks = [] \<longrightarrow> s' = ?s)) ?s"
    by (rule Cons.IH) (use Cons.prems in \<open>auto simp: idle_def\<close>)
  then show ?case using Cons.prems(5)
    by (auto simp: ProtectedVideoOutput_destroy_def wp_ask elim: wp_mono)
qed simp

lemma Win32K_destroy_spec:
  assumes "display_inv s" and "idle s"
  shows "wp (Win32K_destroy d) (\<lambda>_ s'. authorised_display (wk_trace s') \<and> live (wk_trace s') = {} \<and> idle s'
    \<and> (Mapping.keys (wk_outputs s) = {} \<longrightarrow> wk_trace s' = wk_trace s)) s"
proof -
  let ?outs = "wk_outputs s"
  have fin: "finite (Mapping.keys ?outs)" using assms(1) by (simp add: display_inv_def)
  have look: "Mapping.lookup ?outs k = Some k" if "k \<in> Mapping.keys ?outs" for k
    using assms(1) that by (auto simp: display_inv_def keys_dom_lookup)
  have "wp (destroy_outputs d ?outs (Mapping.ordered_keys ?outs)) (\<lambda>_ s'. authorised_display (wk_trace s') \<and> live (wk_trace s') = {}
      \<and> idle s' \<and> (Mapping.ordered_keys ?outs = [] \<longrightarrow> s' = s\<lparr>wk_outputs := Mapping.empty\<rparr>)) (s\<lparr>wk_outputs := Mapping.empty\<rparr>)"
    by (rule destroy_outputs_spec) (use assms fin look in \<open>auto simp: display_inv_def idle_def\<close>)
  then show ?thesis unfolding Win32K_destroy_def wp_bind wp_get_outputs wp_set_outputs
    by (rule wp_mono) (use set_ordered_keys [OF fin] in \<open>auto simp del: set_ordered_keys\<close>)
qed

subsection \<open>The property of the dispatcher\<close>

definition win32k_session ::
    "display \<Rightarrow> (handler \<times> ipc_arg list \<times> cross_params) list \<Rightarrow> (win32k, (abort + handled) list) state" where
  "win32k_session d calls = do {
     rs \<leftarrow> win32k_calls d calls;
     _ \<leftarrow> Win32K_destroy d;
     State_Monad.return rs
   }"

text \<open>
  C16: whatever calls a client makes, every request that the dispatcher makes to the display system is about a monitor or a
  device that exists, an output that this client was given and that was not destroyed since, or shared memory of the client,
  with parameters that were checked; nothing is requested when the redirection is off; every call is
  answered; and in the end every output is destroyed, every view is unmapped and every section is closed.
\<close>

theorem win32k_mediated:
  assumes "fresh_outputs d" and "calls_fit calls" and "run_state (win32k_session d calls) new_win32k = (rs, s)"
  shows "authorised_display (wk_trace s) \<and> (dp_redirection d \<or> wk_trace s = []) \<and> list_all (\<lambda>r. \<not> isl r) rs
    \<and> live (wk_trace s) = {} \<and> sections (wk_trace s) = {#} \<and> views (wk_trace s) = []"
proof -
  let ?Q = "\<lambda>rs s. authorised_display (wk_trace s) \<and> (dp_redirection d \<or> wk_trace s = []) \<and> list_all (\<lambda>r. \<not> isl r) rs
    \<and> live (wk_trace s) = {} \<and> idle s"
  have start: "display_inv new_win32k" "idle new_win32k"
    by (simp_all add: display_inv_def idle_def new_win32k_def lookup_empty)
  have "wp (win32k_session d calls) ?Q new_win32k"
    unfolding win32k_session_def wp_bind wp_return
  proof (rule wp_mono [OF win32k_calls_spec [OF assms(1,2) start]])
    fix rs s'
    assume s': "display_inv s' \<and> idle s' \<and> list_all (\<lambda>r. \<not> isl r) rs \<and> (dp_redirection d \<or> s' = new_win32k)"
    then show "wp (Win32K_destroy d) (\<lambda>_. ?Q rs) s'"
      by (intro wp_mono [OF Win32K_destroy_spec [of s' d]]) (auto simp: new_win32k_def)
  qed
  then show ?thesis using assms(3) by (simp add: wp_def idle_def)
qed

text \<open>One monitor and one output; a call that opens it and one that configures it.\<close>

definition sample_configuration :: bytes where
  "sample_configuration =
     replicate 16 0 @ DXGKMDT_OPM_SET_PROTECTION_LEVEL @ replicate 4 0 @ [16, 0, 0, 0] @ [8, 0, 0, 0, 1, 0, 0, 0] @ replicate 4048 0"

definition sample_monitor :: display_answer where
  "sample_monitor = \<lparr>da_status = 1, da_value = 0, da_list = [], da_data = replicate 40 0 @ [68] @ replicate 63 0\<rparr>"

definition sample_display :: display where
  "sample_display =
     \<lparr>dp_redirection = True, dp_has_GetCertificateSizeByHandle = True, dp_has_GetCertificateByHandle = True,
      dp_system = (\<lambda>tr req. case req of
          EnumDisplayMonitors_request \<Rightarrow> \<lparr>da_status = 1, da_value = 0, da_list = [7], da_data = []\<rparr>
        | GetMonitorInfoW_request m \<Rightarrow> sample_monitor
        | CreateOutputs_request name n \<Rightarrow>
            if 42 \<in> live tr then \<lparr>da_status = 0xC0000001, da_value = 0, da_list = [], da_data = []\<rparr>
            else \<lparr>da_status = 0, da_value = 1, da_list = [42], da_data = []\<rparr>
        | DuplicateFromClient_request h \<Rightarrow> \<lparr>da_status = 1, da_value = 20, da_list = [], da_data = []\<rparr>
        | MapViewOfFile_request h n \<Rightarrow> \<lparr>da_status = 0, da_value = 0x30000, da_list = [], da_data = []\<rparr>
        | ReadView_request v n \<Rightarrow> \<lparr>da_status = 0, da_value = 0, da_list = [], da_data = sample_configuration\<rparr>
        | _ \<Rightarrow> \<lparr>da_status = 0, da_value = 0, da_list = [], da_data = []\<rparr>)\<rparr>"

definition sample_calls :: "(handler \<times> ipc_arg list \<times> cross_params) list" where
  "sample_calls =
     [(CreateOPMProtectedOutputs, [StringArg [68], BufferArg 0x10100 8], sample_message),
      (ConfigureOPMProtectedOutput, [PtrArg 42, PtrArg 4], sample_message)]"

lemma sample_fresh: "fresh_outputs sample_display"
  by (simp add: fresh_outputs_def sample_display_def)

lemma sample_display_simps:
  "dp_redirection sample_display"
  "dp_system sample_display tr EnumDisplayMonitors_request = \<lparr>da_status = 1, da_value = 0, da_list = [7], da_data = []\<rparr>"
  "dp_system sample_display tr (GetMonitorInfoW_request m) = sample_monitor"
  "dp_system sample_display tr (CreateOutputs_request name n) =
     (if 42 \<in> live tr then \<lparr>da_status = 0xC0000001, da_value = 0, da_list = [], da_data = []\<rparr>
      else \<lparr>da_status = 0, da_value = 1, da_list = [42], da_data = []\<rparr>)"
  "dp_system sample_display tr (DuplicateFromClient_request h) = \<lparr>da_status = 1, da_value = 20, da_list = [], da_data = []\<rparr>"
  "dp_system sample_display tr (MapViewOfFile_request h k) = \<lparr>da_status = 0, da_value = 0x30000, da_list = [], da_data = []\<rparr>"
  "dp_system sample_display tr (ReadView_request v i) = \<lparr>da_status = 0, da_value = 0, da_list = [], da_data = sample_configuration\<rparr>"
  "da_status (dp_system sample_display tr (NtQuerySection_request h)) = 0"
  "da_value (dp_system sample_display tr (NtQuerySection_request h)) = 0"
  "da_status (dp_system sample_display tr (Configure_request h ps)) = 0"
  by (simp_all add: sample_display_def)

lemma sample_device: "da_status sample_monitor = 1" "device_of (monitor_info sample_monitor) ! 31 = 0"
  "c_wstr (device_of (monitor_info sample_monitor)) = [68]" "c_wstr [68] = [68]"
  by code_simp+

lemma sample_configuration_valid:
  "length sample_configuration = sizeof_OPM_CONFIGURE_PARAMETERS"
  "field sample_configuration 16 16 = DXGKMDT_OPM_SET_PROTECTION_LEVEL"
  "field32 sample_configuration 36 = 16" "field32 sample_configuration 40 = 8" "field32 sample_configuration 44 = 1"
  "field32 sample_configuration 48 = 0" "field32 sample_configuration 52 = 0"
proof -
  have guid: "length DXGKMDT_OPM_SET_PROTECTION_LEVEL = 16"
    by (simp add: DXGKMDT_OPM_SET_PROTECTION_LEVEL_def guid_def)
  have zero: "replicate 4 (0 :: u8) = [0, 0, 0, 0]" by (simp add: numeral_eq_Suc)
  show "length sample_configuration = sizeof_OPM_CONFIGURE_PARAMETERS"
    "field sample_configuration 16 16 = DXGKMDT_OPM_SET_PROTECTION_LEVEL"
    "field32 sample_configuration 36 = 16" "field32 sample_configuration 40 = 8" "field32 sample_configuration 44 = 1"
    "field32 sample_configuration 48 = 0" "field32 sample_configuration 52 = 0"
    by (simp_all add: sample_configuration_def guid field_def field32_def sizeof_OPM_CONFIGURE_PARAMETERS_def zero)
qed

lemma sample_filled: "filled 4096 sample_configuration = sample_configuration"
  by (simp add: filled_def sample_configuration_valid(1) sizeof_OPM_CONFIGURE_PARAMETERS_def)

lemma run_display:
  "run_state (display_ask d req) s = (dp_system d (wk_trace s) req, s\<lparr>wk_trace := (req, dp_system d (wk_trace s) req) # wk_trace s\<rparr>)"
  "run_state get_outputs s = (wk_outputs s, s)" "run_state (set_outputs outs) s = ((), s\<lparr>wk_outputs := outs\<rparr>)"
  by (simp_all add: display_ask_def get_outputs_def set_outputs_def Let_def)

lemma sample_valid:
  "run_state (IsValidMonitorOrDeviceName sample_display 0 [68]) s = (True, s\<lparr>wk_trace :=
     (GetMonitorInfoW_request 7, sample_monitor)
     # (EnumDisplayMonitors_request, \<lparr>da_status = 1, da_value = 0, da_list = [7], da_data = []\<rparr>) # wk_trace s\<rparr>)"
  by (simp add: IsValidMonitorOrDeviceName_def ValidateMonitorEnumProc_def GetMonitorDeviceName_def run_display
      sample_display_simps sample_device Let_def)

lemma sample_create:
  "run_state (run_win32k sample_display CreateOPMProtectedOutputs [StringArg [68], BufferArg 0x10100 8] sample_message) new_win32k
     = (value_answer (store_param sample_message 0x10100 (u64_bytes [42])) (0, Some 1),
        \<lparr>wk_outputs = Mapping.update 42 42 Mapping.empty,
         wk_trace = [(CreateOutputs_request [68] 1, \<lparr>da_status = 0, da_value = 1, da_list = [42], da_data = []\<rparr>),
           (GetMonitorInfoW_request 7, sample_monitor),
           (EnumDisplayMonitors_request, \<lparr>da_status = 1, da_value = 0, da_list = [7], da_data = []\<rparr>)]\<rparr>)"
proof -
  have load: "load_param (sample_message\<lparr>cp_bytes := store_param sample_message 0x10100 (u64_bytes [42])\<rparr>) 0x10100 8 = Inr (u64_bytes [42])"
    using stored_handles [where p = sample_message and a = "0x10100" and n = 8 and ws = "[42]"] by (simp add: sample_message_def)
  have "run_state (CreateOPMProtectedOutputsAction sample_display [68] 1) new_win32k = ((0, Some 1, [42]),
     \<lparr>wk_outputs = Mapping.empty,
      wk_trace = [(CreateOutputs_request [68] 1, \<lparr>da_status = 0, da_value = 1, da_list = [42], da_data = []\<rparr>),
        (GetMonitorInfoW_request 7, sample_monitor),
        (EnumDisplayMonitors_request, \<lparr>da_status = 1, da_value = 0, da_list = [7], da_data = []\<rparr>)]\<rparr>)"
    by (simp add: CreateOPMProtectedOutputsAction_def sample_valid sample_device run_display sample_display_simps new_win32k_def)
  then show ?thesis
    by (simp add: run_win32k_def Win32K_CreateOPMProtectedOutputs_def Let_def sample_display_simps load insert_output_def
        run_display lookup_empty)
qed

text \<open>The second call, from any state in which the output exists.\<close>

lemma sample_configure:
  assumes "Mapping.lookup (wk_outputs s) 42 = Some 42"
  shows "\<exists>s'. run_state (run_win32k sample_display ConfigureOPMProtectedOutput [PtrArg 42, PtrArg 4] sample_message) s
      = (status_answer (cp_bytes sample_message) 0, s')
    \<and> Configure_request 42 sample_configuration \<in> fst ` set (wk_trace s') \<and> wk_outputs s' = wk_outputs s"
proof -
  have found: "run_state (GetProtectedVideoOutput 42 False) s = (Some 42, s)"
    using assms by (simp add: GetProtectedVideoOutput_def run_display)
  have configure: "run_state (ConfigureOPMProtectedOutputAction sample_display 42 v) s' = (0, s'\<lparr>wk_trace :=
      (Configure_request 42 sample_configuration, dp_system sample_display [] (Configure_request 42 sample_configuration))
      # (ReadView_request v 4096, dp_system sample_display [] (ReadView_request v 4096)) # wk_trace s'\<rparr>)" for v s'
    by (simp add: ConfigureOPMProtectedOutputAction_def run_display sample_display_simps sample_configuration_valid sample_filled
        sizeof_OPM_CONFIGURE_PARAMETERS_def sizeof_OPM_SET_PROTECTION_LEVEL_PARAMETERS_def Let_def)
      (simp add: sample_display_def)
  show ?thesis
    by (simp add: run_win32k_def Win32K_ConfigureOPMProtectedOutput_def sample_display_simps found with_shared_memory_def
        GetSharedMemoryHandle_def SharedMemory_Map_def IsSectionSafeToMap_def SharedMemory_destroy_def configure run_display Let_def
        sizeof_OPM_CONFIGURE_PARAMETERS_def)
qed

theorem win32k_mediated_witness:
  "\<exists>rs s. run_state (win32k_session sample_display sample_calls) new_win32k = (rs, s)
   \<and> Configure_request 42 sample_configuration \<in> fst ` set (wk_trace s)
   \<and> authorised_display (wk_trace s) \<and> live (wk_trace s) = {}"
proof -
  define s0 :: win32k where "s0 = snd (run_state (run_win32k sample_display CreateOPMProtectedOutputs
    [StringArg [68], BufferArg 0x10100 8] sample_message) new_win32k)"
  have outs: "wk_outputs s0 = Mapping.update 42 42 Mapping.empty" by (simp add: s0_def sample_create)
  obtain s' where s': "run_state (run_win32k sample_display ConfigureOPMProtectedOutput [PtrArg 42, PtrArg 4] sample_message) s0
      = (status_answer (cp_bytes sample_message) 0, s')"
    "Configure_request 42 sample_configuration \<in> fst ` set (wk_trace s')" "wk_outputs s' = wk_outputs s0"
    using sample_configure [of s0] outs by auto
  have "\<exists>rs s. run_state (win32k_session sample_display sample_calls) new_win32k = (rs, s)
    \<and> Configure_request 42 sample_configuration \<in> fst ` set (wk_trace s)"
    using s' by (simp add: win32k_session_def sample_calls_def sample_create s0_def Win32K_destroy_def
        run_display ProtectedVideoOutput_destroy_def)
  then obtain rs s where s: "run_state (win32k_session sample_display sample_calls) new_win32k = (rs, s)"
    "Configure_request 42 sample_configuration \<in> fst ` set (wk_trace s)" by blast
  have fit: "calls_fit sample_calls"
    by (simp add: calls_fit_def sample_calls_def win32k_handlers_def args_fit_def sample_message_def)
  show ?thesis using s win32k_mediated [OF sample_fresh fit s(1)] by blast
qed

text \<open>
  The limit on the size of a certificate's shared memory does not limit what is mapped: for the size 0 the system maps
  the whole section.
\<close>

lemma certificate_maps_all:
  "MapViewOfFile_request 20 0 \<in> fst ` set (wk_trace (snd (run_state
     (Win32K_GetCertificate sample_display [] [68] 0 4 0) new_win32k)))"
  by (simp add: Win32K_GetCertificate_def GetCertificateAction_def with_shared_memory_def GetSharedMemoryHandle_def
      SharedMemory_Map_def IsSectionSafeToMap_def SharedMemory_destroy_def IsValidMonitorOrDeviceName_def
      ValidateMonitorEnumProc_def GetMonitorDeviceName_def run_display new_win32k_def Let_def sample_display_simps sample_device)

end
