(* ===== verification/Spec2Isabelle.thy ===== *)
theory Spec2Isabelle
  imports Baseline_Policy Trap_Delivery Number_Strings Broker_Ipc Win_Policy_Correct Win_Ipc_Correct Win_Ipc_Channel Win_Handlers_Correct Win_Display_Correct
begin

text \<open>
  Verification library for the sandbox of this repository, \<^verbatim>\<open>src/chromium/sandbox\<close>: the code that
  decides what an untrusted process may do. Paths below are relative to that directory unless they
  start with \<^verbatim>\<open>base\<close>, which is \<^verbatim>\<open>src/chromium/base\<close>.

  \<^bold>\<open>The program.\<close> There are two sandboxes.

  \<^item> On Linux (\<^verbatim>\<open>linux\<close>) a process locks itself in. A policy gives a result expression for every
    system call number (\<^verbatim>\<open>bpf_dsl/bpf_dsl.cc\<close>); a compiler turns it into a seccomp-bpf filter
    (\<^verbatim>\<open>bpf_dsl/policy_compiler.cc\<close>, on top of the assembler \<^verbatim>\<open>bpf_dsl/codegen.cc\<close>);
    \<^verbatim>\<open>seccomp-bpf/sandbox_bpf.cc\<close> installs the filter in the kernel. A filter answers a call with
    ALLOW, an errno, or a trap, which the kernel delivers as \<open>SIGSYS\<close> to the handler in
    \<^verbatim>\<open>seccomp-bpf/trap.cc\<close>; this dispatches it to a function that was registered when the policy was
    compiled. Files that the policy denies can be opened by a broker process outside of the sandbox
    (\<^verbatim>\<open>syscall_broker\<close>), which gets requests as pickles (\<^verbatim>\<open>base/pickle.cc\<close>) over a socket.

  \<^item> On Windows (\<^verbatim>\<open>win/src\<close>) a broker starts a target process with few rights. Intercepted calls
    of the target go to the broker through shared memory. The broker copies and checks the message,
    picks a handler by its tag and parameter types, evaluates the policy of the service, and does the
    call for the target. The policy is a buffer of opcodes in memory, compiled from the rules of the
    embedder.

  \<^bold>\<open>Conventions.\<close> Integers are words of their width, so arithmetic wraps as in the code; Linux is the
  x86-64 build with glibc and without DCHECKs, Windows the 64-bit build. A CHECK that fails, an exception or
  undefined behaviour is a value: functions that can meet one return a sum whose left side is the abort or the
  fault (\<open>Prelude\<close>). Early returns of the code are branches. Objects are records and methods are functions
  from the old record to the new one. Pointers to immutable data are the data; memory that two parties share, or
  whose layout matters, is a function from addresses to bytes (\<open>Byte_Memory\<close>). The operating
  system is a parameter: a record of its answers (\<open>kernel\<close>, \<open>broker_kernel\<close>, \<open>windows\<close>), or a function
  from the requests so far to the next answer (\<open>bk_kernel\<close> of \<open>Win_Handlers\<close>), so that a property quantifies over
  all behaviours of it. The calls themselves are logged in order, and the safety properties are about the logs.

  \<^bold>\<open>Linux: the filter.\<close>

  \<^item> \<open>Linux_Headers\<close>, \<open>Syscall_Numbers\<close>: the constants and structures of the kernel interface
    (\<^verbatim>\<open>system_headers\<close>, \<^verbatim>\<open>bpf_dsl/seccomp_macros.h\<close>).
  \<^item> \<open>Bpf_Machine\<close>: the machine of \<^verbatim>\<open>bpf_dsl/verifier.cc\<close>, state \<open>bpf_state\<close>, one function for each
    instruction class. It ends on every program, and yields only known actions.
  \<^item> \<open>Code_Gen\<close>: the assembler. State \<open>code_gen\<close>; a program is kept in reverse, as in the code. The lemmas
    give an invariant of the generator, the meaning of a node as a DAG (\<open>dag_exec\<close>), and that
    \<open>MakeInstruction\<close> and \<open>CodeGen_Compile\<close> implement that meaning.
  \<^item> \<open>Syscall_Set\<close>: the iterator over system call numbers (\<^verbatim>\<open>bpf_dsl/syscall_set.cc\<close>): it ends, and what it visits.
  \<^item> \<open>Bpf_Dsl\<close>: the policy language, its chains of conditions, and its meaning \<open>eval_result\<close> for a system call, which
    is the abstract specification of a filter.
  \<^item> \<open>Trap_Registry\<close>: the interface that the compiler registers trap handlers through; the locale
    \<open>trap_registry\<close> states its laws. \<open>Trap_Impl\<close> models the registry of \<^verbatim>\<open>seccomp-bpf/trap.cc\<close> and interprets
    the locale on it (\<open>trap\<close>). \<open>Trap_Signal\<close> adds the signal handler and the states that are reachable by
    the registry's operations. \<open>Trap_Delivery\<close> follows a trapped call from the policy to the handler that runs.
  \<^item> \<open>Policy_Compiler\<close>: every function of the compiler. \<open>Compiler_Correct\<close> proves, in the locale, that each
    step builds a node with the meaning of its expression. \<open>Filter_Properties\<close> concludes, for the model of the
    registry, that a compiled filter enforces the policy, fails closed, passes the loader's static checks on control flow and
    on every instruction, and guards unsafe traps.
    \<open>Compiler_Total\<close> shows that policies within stated limits do compile: no CHECK fails, and the program is
    short enough for the kernel.
  \<^item> \<open>Sandbox_Bpf\<close>: probing the kernel, the choice between one thread and all threads, and the installation,
    with a log of system calls. \<open>Thread_Helpers\<close>: counting threads, and the loop that waits until there is one.

  \<^bold>\<open>Linux: policies and handlers\<close> (\<^verbatim>\<open>seccomp-bpf-helpers\<close>).

  \<^item> \<open>Syscall_Sets\<close>: the classification of system calls, and that it is a partition.
  \<^item> \<open>Sigsys_Handlers\<close>: the handlers that report a forbidden call and crash.
  \<^item> \<open>Param_Restrictions\<close>: the expressions that look at arguments, and what each decides as a condition on registers.
  \<^item> \<open>Baseline_Policy\<close>: the policy for all processes. It compiles, starts, and the filter denies,
    confines and restricts what its header promises.

  \<^bold>\<open>Linux: the broker process.\<close>

  \<^item> \<open>Broker_Policy\<close>: permissions for files and their check; \<open>ValidatePath\<close> against a reference definition.
  \<^item> \<open>Pickle\<close>: writing and reading of \<^verbatim>\<open>base/pickle.cc\<close>. Reads of arbitrary bytes stay inside of them; what is
    written is read back.
  \<^item> \<open>Broker_Ipc\<close>: host, client and their messages. The locale \<open>broker_channel\<close> states what a client needs of the
    other end, and its interpretation \<open>host\<close> is the host behind a transport that delivers. The client
    refines the system call it stands for, subject to the policy; the host is safe for every message, and the broker
    process serves every request until its client is gone.
  \<^item> \<open>Number_Strings\<close>: integers and bytes as strings (\<^verbatim>\<open>base/strings/string_number_conversions.cc\<close>), by which the
    sandbox reads the names of descriptors in \<^verbatim>\<open>/proc\<close>. The parser against a reference that knows no bounds, and
    round trips.

  \<^bold>\<open>Windows: the policy engine.\<close>

  \<^item> \<open>Win_Policy_Opcodes\<close>: opcodes of 40 bytes, their factory and evaluation
    (\<^verbatim>\<open>policy_engine_opcodes.cc\<close>). \<open>Win_Policy_Processor\<close>: the walk over a buffer
    (\<^verbatim>\<open>policy_engine_processor.cc\<close>). \<open>Win_Policy_Rules\<close>: from patterns and numbers to opcodes, and the layout of
    the policy memory (\<^verbatim>\<open>policy_low_level.cc\<close>).
  \<^item> \<open>Win_Policy_Patterns\<close>: \<open>glob\<close>, the reference meaning of a pattern, and that the comparisons decide it.
    \<open>Win_Rule_Correct\<close>: a rule's buffer stays well formed and its opcodes decide its conditions.
    \<open>Win_Policy_Correct\<close>: the first rule whose conditions hold decides, for the rules of \<open>spec_ok\<close>; the compilation
    stays in its memory. It ends with small rules outside of \<open>spec_ok\<close>, on which the compiler goes wrong.

  \<^bold>\<open>Windows: the messages.\<close>

  \<^item> \<open>Win_Crosscall\<close>: packing a call, and the broker's checks of its copy, where the shared memory may differ at each
    read. \<open>Win_Ipc_Server\<close>: from the copy to the arguments of a handler, with the call tables of
    all dispatchers. \<open>Win_Ipc_Args\<close>: the tables agree with the handlers' parameters. \<open>Win_Ipc_Roundtrip\<close>,
    \<open>Win_Ipc_Correct\<close>: an honest call arrives, and any message is harmless.
  \<^item> \<open>Win_Ipc_Channel\<close>: the layout of the shared memory and the protocol of many client threads and the broker's
    thread pool, as the step relation \<open>ipc_step\<close> with an invariant over \<open>ipc_reachable\<close>.

  \<^bold>\<open>Windows: the broker's decisions.\<close>

  \<^item> \<open>Win_Utils\<close>: kinds of paths, long paths, reparse points, the object of a handle (\<^verbatim>\<open>win_utils.cc\<close>).
  \<^item> \<open>Win_Resource_Rules\<close>: the \<open>GenerateRules\<close> of every subsystem. \<open>Win_Policy_Base\<close>: the
    policy object that calls them, compiles, and answers \<open>EvalPolicy\<close>.
  \<^item> \<open>Win_Resource_Spec\<close>: what each rule of the embedder adds, as a list of services, conditions and actions.
    \<open>Win_Resource_Correct\<close>: for every service, \<open>EvalPolicy\<close> in terms of the rules of the embedder alone.
  \<^item> \<open>Win_Handlers\<close>: every handler of the file system, registry, sync, named pipe and process dispatchers with its
    action. \<open>Win_Handlers_Correct\<close>: no request without a rule that grants it, no handle into the client
    that was not opened for it, and an answer for every call.
  \<^item> \<open>Win_Display\<close>: the dispatcher of win32k calls with the video outputs that it keeps for its client, in the state monad of the
    library. \<open>Win_Display_Correct\<close>: a calculus of weakest preconditions, and that every request is about something the client
    was given and nothing stays open.

  The chain from an embedder's rule to a request of the broker is proved end to end: \<open>policy_decides\<close> reduces the
  opcodes to conditions, \<open>Win_Resource_Correct\<close> reduces the conditions to rules, and \<open>handlers_authorised\<close> relates
  every request to the rules. On Linux it goes from a result expression through \<open>Compile_enforces_policy\<close>
  to \<open>StartSandbox_installs_policy\<close> and \<open>trapped_call_delivered\<close>.

  \<^bold>\<open>Loops, bounds and fuel.\<close> Most loops are structural, or functions with a measure: numbers that ascend to the end of a range
  (\<open>Syscall_Set\<close>), halved ranges (\<open>Policy_Compiler\<close>), remaining bytes and polls. Fuel is used once, for the loop of
  \<open>EvaluateBPF\<close>: one unit for each instruction and one more is enough, because every step moves the
  instruction pointer forward, which \<open>Bpf_Machine\<close> proves for every program. The loops over paths of \<open>Win_Utils\<close>
  (\<open>reparse_loop\<close>, \<open>long_path_loop\<close>, \<open>ConvertToLongPath\<close>) have no bound in the code and are \<open>partial_function\<close>s;
  that they return is the theorem \<open>PreProcessName_terminates\<close>. The broker's loop is over the list of the messages it
  receives. \<open>handlers_return\<close> and \<open>Compile_succeeds\<close> state results, not only partial correctness.

  \<^bold>\<open>Hypotheses about code that is not here.\<close>

  \<^item> \<open>windows_ok\<close>: the case conversion maps nothing else to a backslash, \<open>GetLongPathName\<close> asks for at most 32768
    characters, and a failed \<open>GetFileAttributes\<close> does not report that a path is not a reparse point.
  \<^item> \<open>seccomp_siginfo\<close>: the signal data that the kernel gives for a filter's value, as seccomp(2) documents them.

  \<^bold>\<open>Restrictions on inputs.\<close>

  \<^item> \<open>spec_ok\<close>: the Windows rules that the engine handles as documented: patterns without an unescaped \<open>?\<close> and not only of stars,
    no \<open>EXACT_LENGHT\<close> from the caller, no \<open>RANGE\<close>, a negated pattern of several pieces only as the last condition of a rule.
  \<^item> \<open>broker_ok\<close>, the hypothesis of the properties of the Windows handlers: the policy is the one that the rules were
    compiled to (\<open>policy_from\<close>), and \<open>windows_ok\<close>. \<open>policy_from\<close> says that the rules were added, that they fit the policy
    memory, that compilation succeeded, and that every rule's pattern has no unescaped \<open>?\<close> and some character
    that is no star. An embedder's rule with \<open>?\<close>, which \<^verbatim>\<open>win/src/sandbox_policy.h\<close> offers, is outside of these properties.
  \<^item> \<open>wf_policy\<close>, \<open>wf_panic\<close>: the results of a policy and of the panic function carry known actions, which all results
    of the language do. \<open>panic_denies\<close>: the panic function denies, which \<open>DefaultPanic\<close> and \<open>SandboxPanic\<close> do.

  \<^bold>\<open>Further hypotheses about code that is not here.\<close>

  \<^item> \<open>closes_handles\<close>: the kernel closes the broker's own handles; otherwise the broker runs into a CHECK.
  \<^item> \<open>fresh_outputs\<close>: the display system writes as many handles of outputs as it says, and gives a new output a handle that
    no existing one has.
  \<^item> The comparison of strings (\<open>RtlCompareUnicodeString\<close>) and the kernel's answers are arbitrary.
  \<^item> \<open>broker_client_refines\<close>: the socket works, a name has at most 4080 bytes and none is zero, and errno values are at
    most 4095.

  Each hypothesis holds for a concrete instance, given next to the property (\<open>sample_windows\<close>, \<open>sample_kernel\<close>,
  \<open>one_file_kernel\<close> and others).

  \<^bold>\<open>Not modelled.\<close>

  \<^item> \<open>GetBaseNamedObjectsDirectory\<close> is a field of the broker: its result stays the same after the first call. The handlers of the win32k
    dispatcher are a parameter of \<open>run_handler\<close>, because they have a state of their own; \<open>Win_Display\<close> has them.
  \<^item> The interceptions in the target, and the patching of machine code that installs them
    (\<^verbatim>\<open>win/src/interception.cc\<close>, \<^verbatim>\<open>win/src/service_resolver*.cc\<close>, \<^verbatim>\<open>win/src/*_interception.cc\<close>): they
    run in the untrusted process, the broker does not rely on them, and the meaning of a patch is that of x86 instructions.
  \<^item> Tokens, jobs, desktops, integrity levels and the set-up of processes on Windows
    (\<^verbatim>\<open>win/src/restricted_token*.cc\<close>, \<^verbatim>\<open>win/src/target_process.cc\<close>, \<^verbatim>\<open>win/src/broker_services.cc\<close>), namespaces
    and credentials on Linux (\<^verbatim>\<open>linux/services\<close>), the setuid helper (\<^verbatim>\<open>linux/suid\<close>): sequences of calls whose
    outcome the kernel decides.
  \<^item> Raw system calls (\<^verbatim>\<open>linux/seccomp-bpf/syscall.cc\<close>, inline assembly), the tables of other architectures (alternatives of the
    same interface), dumping of programs, and the macOS sandbox (messages of a private protocol of launchd).
  \<^item> Of \<^verbatim>\<open>base\<close>, a general-purpose library, only the pickle, the conversions of integers and what the sandbox needs of
    bit operations; of the pickle not floating point numbers and attachments, of the conversions not those of floating
    point numbers and of UTF-16 strings (the same templates on wider characters). Starting and stopping threads in \<open>Thread_Helpers\<close>.
  \<^item> Freeing of memory, locks that only protect a single operation, and logging.

  \<^bold>\<open>What modelling showed.\<close> The shift checks of the BPF verifier allow a shift by 32 (\<open>Alu_undefined_iff\<close>); the crash key of a
  negative system call number is read from before an array (\<open>SetSeccompCrashKey_defined_iff\<close>); the Windows rule
  compiler can write past its memory, skip conditions after a negated pattern, overwrite the options of an earlier condition,
  and does not implement \<open>RANGE\<close>, a question mark at the end of a pattern or one behind a star (end of
  \<open>Win_Policy_Correct\<close>); a client call with too many bytes leaks its channel (\<open>leaked_forever\<close>); a denied event
  is answered with a status of success, and a denied open answers with a handle that was never set (\<open>Win_Handlers\<close>); the limit
  on the shared memory for a certificate can be avoided with the size 0 (\<open>certificate_maps_all\<close>).
\<close>

end
